(* ===== verification/CFS_Prelude.thy ===== *)
theory CFS_Prelude
  imports Main "HOL-Library.Word"
begin

unbundle bit_operations_syntax

text \<open>
  The prelude of the development: the machine types of the flight software
  (\<^verbatim>\<open>common_types.h\<close>), C pointers, the status codes of
  \<^verbatim>\<open>src/cfe/fsw/cfe-core/src/inc/cfe_error.h\<close> that the modelled functions return, and
  the lemmas on words and lists that the component theories share.

  A pointer argument of a C function is a value of type \<open>'a ptr\<close>: \<^const>\<open>None\<close> is the
  NULL pointer and \<open>Some x\<close> a pointer to a cell that holds \<open>x\<close>.  A function that writes
  through a pointer returns the new cell beside its status, so that "the output is not
  touched on this error path" is a statement about the returned value.
\<close>

section \<open>Machine types and pointers\<close>

type_synonym u8 = "8 word"
type_synonym u16 = "16 word"
type_synonym u32 = "32 word"
type_synonym u64 = "64 word"

text \<open>\<open>int32\<close> and \<open>CFE_Status_t\<close>: the 32-bit pattern, read as signed with \<^const>\<open>sint\<close>.\<close>

type_synonym int32 = "32 word"

type_synonym 'a ptr = "'a option"

abbreviation (input) NULL :: "'a ptr" where
  "NULL \<equiv> None"

section \<open>Status codes\<close>

abbreviation (input) CFE_SUCCESS :: int32 where
  "CFE_SUCCESS \<equiv> 0"
abbreviation (input) CFE_ES_ERR_RESOURCEID_NOT_VALID :: int32 where
  "CFE_ES_ERR_RESOURCEID_NOT_VALID \<equiv> 0xc4000001"
abbreviation (input) CFE_ES_ERR_BUFFER :: int32 where
  "CFE_ES_ERR_BUFFER \<equiv> 0xc4000003"
abbreviation (input) CFE_SB_TIME_OUT :: int32 where
  "CFE_SB_TIME_OUT \<equiv> 0xca000001"
abbreviation (input) CFE_SB_NO_MESSAGE :: int32 where
  "CFE_SB_NO_MESSAGE \<equiv> 0xca000002"
abbreviation (input) CFE_SB_BAD_ARGUMENT :: int32 where
  "CFE_SB_BAD_ARGUMENT \<equiv> 0xca000003"
abbreviation (input) CFE_SB_MAX_PIPES_MET :: int32 where
  "CFE_SB_MAX_PIPES_MET \<equiv> 0xca000004"
abbreviation (input) CFE_SB_PIPE_CR_ERR :: int32 where
  "CFE_SB_PIPE_CR_ERR \<equiv> 0xca000005"
abbreviation (input) CFE_SB_PIPE_RD_ERR :: int32 where
  "CFE_SB_PIPE_RD_ERR \<equiv> 0xca000006"
abbreviation (input) CFE_SB_MSG_TOO_BIG :: int32 where
  "CFE_SB_MSG_TOO_BIG \<equiv> 0xca000007"
abbreviation (input) CFE_SB_BUF_ALOC_ERR :: int32 where
  "CFE_SB_BUF_ALOC_ERR \<equiv> 0xca000008"
abbreviation (input) CFE_SB_MAX_MSGS_MET :: int32 where
  "CFE_SB_MAX_MSGS_MET \<equiv> 0xca000009"
abbreviation (input) CFE_SB_MAX_DESTS_MET :: int32 where
  "CFE_SB_MAX_DESTS_MET \<equiv> 0xca00000a"
abbreviation (input) CFE_SB_WRONG_MSG_TYPE :: int32 where
  "CFE_SB_WRONG_MSG_TYPE \<equiv> 0xca00000d"
abbreviation (input) CFE_SB_BUFFER_INVALID :: int32 where
  "CFE_SB_BUFFER_INVALID \<equiv> 0xca00000e"

text \<open>The message module reuses the software bus codes (\<^verbatim>\<open>cfe_msg_typedefs.h\<close>).\<close>

abbreviation (input) CFE_MSG_BAD_ARGUMENT :: int32 where
  "CFE_MSG_BAD_ARGUMENT \<equiv> CFE_SB_BAD_ARGUMENT"
abbreviation (input) CFE_MSG_WRONG_MSG_TYPE :: int32 where
  "CFE_MSG_WRONG_MSG_TYPE \<equiv> CFE_SB_WRONG_MSG_TYPE"

section \<open>Times\<close>

text \<open>
  \<open>CFE_TIME_SysTime_t\<close> (\<^verbatim>\<open>cfe_time_extern_typedefs.h\<close>): seconds and a count of
  \<open>2 ^ - 32\<close> seconds.  Message headers and the time service share it.
\<close>

record CFE_TIME_SysTime =
  Seconds :: u32
  Subseconds :: u32

section \<open>Words\<close>

text \<open>Masked fields: the Boolean algebra the header accessors rest on.\<close>

lemma and_mask_absorb:
  fixes a m :: "'a::len word"
  assumes "a AND NOT m = 0"
  shows "a AND m = a"
proof (rule bit_word_eqI)
  fix n assume n: "n < LENGTH('a)"
  have "bit (a AND NOT m) n = False" using assms by simp
  with n show "bit (a AND m) n = bit a n" by (auto simp: bit_simps)
qed

text \<open>A value has no bit outside a mask of its low bits iff it is at most that mask.\<close>

lemma uint_word_mask: "k \<le> LENGTH('a) \<Longrightarrow> uint (mask k :: 'a::len word) = 2 ^ k - 1"
proof -
  have "uint (mask k :: 'a word) = mask k"
    if "k \<le> LENGTH('a)"
    using that by (intro bit_eqI) (auto simp: bit_simps)
  then show "k \<le> LENGTH('a) \<Longrightarrow> uint (mask k :: 'a word) = 2 ^ k - 1"
    by (simp add: mask_eq_exp_minus_1)
qed

lemma in_low_mask_iff:
  fixes a :: "'a::len word"
  assumes "k \<le> LENGTH('a)"
  shows "a AND NOT (mask k) = 0 \<longleftrightarrow> a \<le> mask k"
proof -
  have "a AND NOT (mask k) = 0 \<longleftrightarrow> a AND mask k = a"
    using and_mask_absorb [of a "mask k"]
    by (metis and.assoc and_zero_eq bit.conj_cancel_right)
  also have "\<dots> \<longleftrightarrow> uint a < 2 ^ k" by (rule mask_eq_iff)
  also have "\<dots> \<longleftrightarrow> a \<le> mask k"
    using uint_word_mask [OF assms] by (auto simp: word_le_def)
  finally show ?thesis .
qed

lemma put_field_and_mask:
  fixes old v m :: "'a::len word"
  shows "((old AND NOT m) OR (v AND m)) AND m = v AND m"
  by (rule bit_word_eqI) (auto simp: bit_simps)

lemma put_field_and_disjoint:
  fixes old v m m' :: "'a::len word"
  assumes "m AND m' = 0"
  shows "((old AND NOT m) OR (v AND m)) AND m' = old AND m'"
proof (rule bit_word_eqI)
  fix n assume n: "n < LENGTH('a)"
  have "bit (m AND m') n = False" using assms by simp
  with n show "bit (((old AND NOT m) OR (v AND m)) AND m') n = bit (old AND m') n"
    by (auto simp: bit_simps)
qed

lemma or_in_mask:
  fixes old m :: "'a::len word"
  shows "old OR m = (old AND NOT m) OR (m AND m)"
  by (rule bit_word_eqI) (auto simp: bit_simps)

text \<open>Two bytes read as one big-endian 16-bit word.\<close>

definition be16 :: "u8 \<Rightarrow> u8 \<Rightarrow> u16" where
  "be16 hi lo = push_bit 8 (ucast hi) OR ucast lo"

lemma bit_be16: "bit (be16 hi lo) n \<longleftrightarrow> (if n < 8 then bit lo n else bit hi (n - 8))"
  by (auto simp: be16_def bit_simps dest: bit_imp_le_length)

lemma be16_inject: "be16 a b = be16 c d \<longleftrightarrow> a = c \<and> b = d"
proof
  assume eq: "be16 a b = be16 c d"
  have "b = d"
  proof (rule bit_word_eqI)
    fix n assume "n < LENGTH(8)"
    then show "bit b n = bit d n"
      using arg_cong [OF eq, of "\<lambda>w. bit w n"] by (simp add: bit_be16)
  qed
  moreover have "a = c"
  proof (rule bit_word_eqI)
    fix n assume "n < LENGTH(8)"
    then show "bit a n = bit c n"
      using arg_cong [OF eq, of "\<lambda>w. bit w (n + 8)"] by (simp add: bit_be16)
  qed
  ultimately show "a = c \<and> b = d" by simp
qed simp

lemma be16_split: "be16 (ucast (drop_bit 8 w)) (ucast w) = (w :: u16)"
  by (rule bit_word_eqI) (auto simp: bit_be16 bit_simps)

lemma ucast_be16 [simp]: "(ucast (be16 hi lo) :: u8) = lo"
  by (rule bit_word_eqI) (auto simp: bit_be16 bit_simps)

lemma ucast_drop_bit_be16 [simp]: "(ucast (drop_bit 8 (be16 hi lo)) :: u8) = hi"
  by (rule bit_word_eqI) (auto simp: bit_be16 bit_simps)

lemma unat_be16: "unat (be16 hi lo) = 256 * unat hi + unat lo"
proof -
  have disj: "push_bit 8 (ucast hi) AND (ucast lo :: u16) = 0"
    by (rule bit_word_eqI) (auto simp: bit_simps dest: bit_imp_le_length)
  have "unat hi < 256" using unsigned_less [of hi] by simp
  have lo: "unat lo < 256" using unsigned_less [of lo] by simp
  have "be16 hi lo = push_bit 8 (ucast hi) + ucast lo"
    using disj by (simp add: be16_def disjunctive_add_eq_or)
  moreover have "unat (push_bit 8 (ucast hi) :: u16) = 256 * unat hi"
    using \<open>unat hi < 256\<close>
    by (simp add: push_bit_eq_mult unat_word_ariths unsigned_ucast_eq take_bit_eq_mod)
  moreover have "unat (ucast lo :: u16) = unat lo"
    using lo by (simp add: unsigned_ucast_eq take_bit_eq_mod)
  ultimately show ?thesis
    using \<open>unat hi < 256\<close> lo by (simp add: unat_word_ariths)
qed

section \<open>Lists\<close>

lemma nth_list_update_pair:
  "i < length xs \<Longrightarrow> j < length xs \<Longrightarrow> xs[i := v] ! j = (if i = j then v else xs ! j)"
  by simp

end
