(* ===== verification/CFE_Msg_Hdr.thy ===== *)
theory CFE_Msg_Hdr
  imports CFS_Prelude
begin

unbundle bit_operations_syntax

text \<open>
  Messages and the generic header field accessors of the MSG module
  (\<^verbatim>\<open>src/cfe/modules/msg\<close>).

  A message is the array of bytes its pointer points to.  The union
  \<open>CFE_MSG_Message_t\<close> overlays the CCSDS headers on those bytes: the primary header has
  \<open>StreamId\<close> at offset 0, \<open>Sequence\<close> at 2 and \<open>Length\<close> at 4, the extended header
  \<open>Subsystem\<close> at 6 and \<open>SystemId\<close> at 8; every member is an array of bytes, so there is no
  padding.  The build selects one of three header configurations
  (\<^verbatim>\<open>src/cfe/modules/msg/CMakeLists.txt\<close>), which fix where the secondary header starts and
  how a message id is laid out.

  The locale \<open>ccsds_field\<close> is the contract of one bit field of a header word; the primary
  and the extended header interpret it once per field.
\<close>

section \<open>Messages\<close>

type_synonym message = "u8 list"

abbreviation (input) StreamId :: nat where "StreamId \<equiv> 0"
abbreviation (input) Sequence :: nat where "Sequence \<equiv> 2"
abbreviation (input) Length :: nat where "Length \<equiv> 4"
abbreviation (input) Subsystem :: nat where "Subsystem \<equiv> 6"
abbreviation (input) SystemId :: nat where "SystemId \<equiv> 8"

datatype CFE_MSG_Config = MSG_PRI_V1 | MSG_PRIEXT_V1 | MSG_PRIEXT_V2

fun sizeof_Message :: "CFE_MSG_Config \<Rightarrow> nat" where
  "sizeof_Message MSG_PRI_V1 = 6"
| "sizeof_Message MSG_PRIEXT_V1 = 10"
| "sizeof_Message MSG_PRIEXT_V2 = 10"

datatype CFE_MSG_Type = CFE_MSG_Type_Invalid | CFE_MSG_Type_Cmd | CFE_MSG_Type_Tlm

datatype CFE_MSG_SegmentationFlag =
  CFE_MSG_SegFlag_Invalid | CFE_MSG_SegFlag_Continue | CFE_MSG_SegFlag_First
| CFE_MSG_SegFlag_Last | CFE_MSG_SegFlag_Unsegmented

datatype CFE_MSG_Endian = CFE_MSG_Endian_Invalid | CFE_MSG_Endian_Big | CFE_MSG_Endian_Little

datatype CFE_MSG_PlaybackFlag =
  CFE_MSG_PlayFlag_Invalid | CFE_MSG_PlayFlag_Original | CFE_MSG_PlayFlag_Playback

section \<open>Header fields\<close>

definition CFE_MSG_GetHeaderField :: "message \<Rightarrow> nat \<Rightarrow> u16 \<Rightarrow> u16" where
  "CFE_MSG_GetHeaderField m Word Mask =
     (push_bit 8 (ucast (m ! Word)) OR ucast (m ! (Word + 1))) AND Mask"

definition CFE_MSG_SetHeaderField :: "message \<Rightarrow> nat \<Rightarrow> u16 \<Rightarrow> u16 \<Rightarrow> message" where
  "CFE_MSG_SetHeaderField m Word Val Mask =
     m[Word := ucast ((ucast (m ! Word) AND NOT (drop_bit 8 Mask)) OR drop_bit 8 (Val AND Mask)),
       Word + 1 := ucast (((ucast (m ! (Word + 1)) AND NOT Mask) OR (Val AND Mask)) AND 0xFF)]"

text \<open>The header word at a byte offset, as the big-endian 16-bit value it stands for.\<close>

definition hword :: "message \<Rightarrow> nat \<Rightarrow> u16" where
  "hword m w = be16 (m ! w) (m ! (w + 1))"

lemma GetHeaderField_hword: "CFE_MSG_GetHeaderField m w Mask = hword m w AND Mask"
  by (simp add: CFE_MSG_GetHeaderField_def hword_def be16_def)

lemma length_SetHeaderField [simp]: "length (CFE_MSG_SetHeaderField m w v Mask) = length m"
  by (simp add: CFE_MSG_SetHeaderField_def)

lemma nth_SetHeaderField_other:
  "i \<noteq> w \<Longrightarrow> i \<noteq> w + 1 \<Longrightarrow> CFE_MSG_SetHeaderField m w v Mask ! i = m ! i"
  by (simp add: CFE_MSG_SetHeaderField_def)

lemma hword_SetHeaderField:
  assumes "w + 1 < length m"
  shows "hword (CFE_MSG_SetHeaderField m w v Mask) w = (hword m w AND NOT Mask) OR (v AND Mask)"
proof -
  have ff: "(0xFF :: u16) = mask 8" by (simp add: mask_eq_exp_minus_1)
  show ?thesis
    using assms unfolding ff hword_def CFE_MSG_SetHeaderField_def
    by (intro bit_word_eqI) (auto simp: bit_be16 bit_simps)
qed

lemma hword_SetHeaderField_other:
  assumes "w' \<noteq> w" and "w' + 1 \<noteq> w" and "w' \<noteq> w + 1"
  shows "hword (CFE_MSG_SetHeaderField m w v Mask) w' = hword m w'"
  using assms by (simp add: hword_def nth_SetHeaderField_other)

lemma field_SetHeaderField:
  "w + 1 < length m \<Longrightarrow> hword (CFE_MSG_SetHeaderField m w v Mask) w AND Mask = v AND Mask"
  by (simp add: hword_SetHeaderField put_field_and_mask)

lemma field_SetHeaderField_disjoint:
  "w + 1 < length m \<Longrightarrow> Mask AND Mask' = 0 \<Longrightarrow>
     hword (CFE_MSG_SetHeaderField m w v Mask) w AND Mask' = hword m w AND Mask'"
  by (simp add: hword_SetHeaderField put_field_and_disjoint)

text \<open>A message is determined by its header words and its remaining bytes.\<close>

lemma SetHeaderField_eqI:
  assumes "w + 1 < length m" and "length m' = length m"
    and "hword m' w = (hword m w AND NOT Mask) OR (v AND Mask)"
    and "\<And>i. i < length m \<Longrightarrow> i \<noteq> w \<Longrightarrow> i \<noteq> w + 1 \<Longrightarrow> m' ! i = m ! i"
  shows "CFE_MSG_SetHeaderField m w v Mask = m'"
proof (rule nth_equalityI)
  show "length (CFE_MSG_SetHeaderField m w v Mask) = length m'"
    using assms(2) by simp
  fix i assume i: "i < length (CFE_MSG_SetHeaderField m w v Mask)"
  have "hword (CFE_MSG_SetHeaderField m w v Mask) w = hword m' w"
    using assms(1,3) by (simp add: hword_SetHeaderField)
  then have "CFE_MSG_SetHeaderField m w v Mask ! w = m' ! w"
    and "CFE_MSG_SetHeaderField m w v Mask ! (w + 1) = m' ! (w + 1)"
    by (simp_all add: hword_def be16_inject)
  with i assms(4) show "CFE_MSG_SetHeaderField m w v Mask ! i = m' ! i"
    by (cases "i = w \<or> i = w + 1") (auto simp: nth_SetHeaderField_other)
qed

text \<open>
  Flags are set and cleared on the high byte alone, with the mask shifted right by 8; that
  is the same as writing the field with a mask whose low byte is clear.
\<close>

lemma set_flag_hi:
  assumes "w + 1 < length m"
  shows "m[w := m ! w OR h] = CFE_MSG_SetHeaderField m w (be16 h 0) (be16 h 0)"
proof (rule SetHeaderField_eqI [OF assms, symmetric])
  show "hword (m[w := m ! w OR h]) w = (hword m w AND NOT (be16 h 0)) OR (be16 h 0 AND be16 h 0)"
    using assms by (intro bit_word_eqI) (auto simp: hword_def bit_be16 bit_simps)
qed auto

lemma clear_flag_hi:
  assumes "w + 1 < length m"
  shows "m[w := m ! w AND NOT h] = CFE_MSG_SetHeaderField m w 0 (be16 h 0)"
proof (rule SetHeaderField_eqI [OF assms, symmetric])
  show "hword (m[w := m ! w AND NOT h]) w = (hword m w AND NOT (be16 h 0)) OR (0 AND be16 h 0)"
    using assms by (intro bit_word_eqI) (auto simp: hword_def bit_be16 bit_simps)
qed auto

lemma flag_hi_zero_iff: "m ! w AND h = 0 \<longleftrightarrow> hword m w AND be16 h 0 = 0"
proof -
  have "hword m w AND be16 h 0 = be16 (m ! w AND h) 0"
    by (rule bit_word_eqI) (auto simp: hword_def bit_be16 bit_simps)
  moreover have "be16 x 0 = 0 \<longleftrightarrow> x = 0" for x
    using be16_inject [of x 0 0 0] by (simp add: be16_def)
  ultimately show ?thesis by simp
qed

section \<open>The contract of a header field\<close>

text \<open>
  A field of a header word: the byte offset of the word, its mask, and the encoding of the
  field's values into the masked bits.  What a client relies on: reading a field back after
  writing it, and not disturbing any field with a disjoint mask.
\<close>

locale ccsds_field =
  fixes w :: nat and Mask :: u16 and enc :: "'v \<Rightarrow> u16" and dec :: "u16 \<Rightarrow> 'v"
    and ok :: "'v \<Rightarrow> bool"
  assumes dec_enc: "ok v \<Longrightarrow> dec (enc v AND Mask) = v"
begin

definition get :: "message \<Rightarrow> 'v" where
  "get m = dec (hword m w AND Mask)"

definition put :: "'v \<Rightarrow> message \<Rightarrow> message" where
  "put v m = CFE_MSG_SetHeaderField m w (enc v) Mask"

lemma length_put [simp]: "length (put v m) = length m"
  by (simp add: put_def)

lemma get_put: "w + 1 < length m \<Longrightarrow> ok v \<Longrightarrow> get (put v m) = v"
  by (simp add: get_def put_def field_SetHeaderField dec_enc)

lemma field_put_same_word:
  "w + 1 < length m \<Longrightarrow> Mask AND Mask' = 0 \<Longrightarrow> hword (put v m) w AND Mask' = hword m w AND Mask'"
  by (simp add: put_def field_SetHeaderField_disjoint)

lemma hword_put_other:
  "w' \<noteq> w \<Longrightarrow> w' + 1 \<noteq> w \<Longrightarrow> w' \<noteq> w + 1 \<Longrightarrow> hword (put v m) w' = hword m w'"
  by (simp add: put_def hword_SetHeaderField_other)

lemma nth_put_other: "i \<noteq> w \<Longrightarrow> i \<noteq> w + 1 \<Longrightarrow> put v m ! i = m ! i"
  by (simp add: put_def nth_SetHeaderField_other)

lemma put_put: "w + 1 < length m \<Longrightarrow> put v (put v' m) = put v m"
  unfolding put_def
proof (rule SetHeaderField_eqI)
  assume w: "w + 1 < length m"
  have "(x AND NOT Mask OR y AND Mask) AND NOT Mask = x AND NOT Mask" for x y :: u16
    by (rule bit_word_eqI) (auto simp: bit_simps)
  with w show "hword (CFE_MSG_SetHeaderField m w (enc v) Mask) w =
    (hword (CFE_MSG_SetHeaderField m w (enc v') Mask) w AND NOT Mask) OR (enc v AND Mask)"
    by (simp add: hword_SetHeaderField)
qed (auto simp: nth_SetHeaderField_other)

end

end
