(* ===== verification/CFE_Msg_Pri.thy ===== *)
theory CFE_Msg_Pri
  imports CFE_Msg_Hdr
begin

unbundle bit_operations_syntax

text \<open>
  The CCSDS primary header accessors, \<^verbatim>\<open>src/cfe/modules/msg/src/cfe_msg_ccsdspri.c\<close>:
  one definition per C function, then the abstract header they implement.  The record
  \<open>ccsds_pri\<close> is the specification: the seven fields of a primary header as plain values.
  \<open>abs_pri\<close> reads them from the bytes, and each setter refines the update of its own field
  of the record, which says at once that the value is read back and that no other field
  changes.
\<close>

section \<open>The C functions\<close>

abbreviation (input) CFE_MSG_SIZE_OFFSET :: nat where "CFE_MSG_SIZE_OFFSET \<equiv> 7"
abbreviation (input) CFE_MSG_CCSDSVER_MASK :: u16 where "CFE_MSG_CCSDSVER_MASK \<equiv> 0xE000"
abbreviation (input) CFE_MSG_CCSDSVER_SHIFT :: nat where "CFE_MSG_CCSDSVER_SHIFT \<equiv> 13"
abbreviation (input) CFE_MSG_TYPE_MASK :: u16 where "CFE_MSG_TYPE_MASK \<equiv> 0x1000"
abbreviation (input) CFE_MSG_SHDR_MASK :: u16 where "CFE_MSG_SHDR_MASK \<equiv> 0x0800"
abbreviation (input) CFE_MSG_APID_MASK :: u16 where "CFE_MSG_APID_MASK \<equiv> 0x07FF"
abbreviation (input) CFE_MSG_SEGFLG_MASK :: u16 where "CFE_MSG_SEGFLG_MASK \<equiv> 0xC000"
abbreviation (input) CFE_MSG_SEGFLG_CNT :: u16 where "CFE_MSG_SEGFLG_CNT \<equiv> 0x0000"
abbreviation (input) CFE_MSG_SEGFLG_FIRST :: u16 where "CFE_MSG_SEGFLG_FIRST \<equiv> 0x4000"
abbreviation (input) CFE_MSG_SEGFLG_LAST :: u16 where "CFE_MSG_SEGFLG_LAST \<equiv> 0x8000"
abbreviation (input) CFE_MSG_SEGFLG_UNSEG :: u16 where "CFE_MSG_SEGFLG_UNSEG \<equiv> 0xC000"
abbreviation (input) CFE_MSG_SEQCNT_MASK :: u16 where "CFE_MSG_SEQCNT_MASK \<equiv> 0x3FFF"

definition CFE_MSG_GetHeaderVersion :: "message ptr \<Rightarrow> u16 ptr \<Rightarrow> int32 \<times> u16 ptr" where
  "CFE_MSG_GetHeaderVersion MsgPtr Version =
     (case (MsgPtr, Version) of
        (Some m, Some _) \<Rightarrow>
          (CFE_SUCCESS, Some (drop_bit CFE_MSG_CCSDSVER_SHIFT
             (CFE_MSG_GetHeaderField m StreamId CFE_MSG_CCSDSVER_MASK)))
      | _ \<Rightarrow> (CFE_MSG_BAD_ARGUMENT, Version))"

definition CFE_MSG_SetHeaderVersion :: "message ptr \<Rightarrow> u16 \<Rightarrow> int32 \<times> message ptr" where
  "CFE_MSG_SetHeaderVersion MsgPtr Version =
     (case MsgPtr of
        None \<Rightarrow> (CFE_MSG_BAD_ARGUMENT, MsgPtr)
      | Some m \<Rightarrow>
          if Version > drop_bit CFE_MSG_CCSDSVER_SHIFT CFE_MSG_CCSDSVER_MASK
          then (CFE_MSG_BAD_ARGUMENT, MsgPtr)
          else (CFE_SUCCESS, Some (CFE_MSG_SetHeaderField m StreamId
                  (push_bit CFE_MSG_CCSDSVER_SHIFT Version) CFE_MSG_CCSDSVER_MASK)))"

definition CFE_MSG_GetType :: "message ptr \<Rightarrow> CFE_MSG_Type ptr \<Rightarrow> int32 \<times> CFE_MSG_Type ptr" where
  "CFE_MSG_GetType MsgPtr Type =
     (case (MsgPtr, Type) of
        (Some m, Some _) \<Rightarrow>
          (CFE_SUCCESS,
           if m ! StreamId AND ucast (drop_bit 8 CFE_MSG_TYPE_MASK) \<noteq> 0
           then Some CFE_MSG_Type_Cmd else Some CFE_MSG_Type_Tlm)
      | _ \<Rightarrow> (CFE_MSG_BAD_ARGUMENT, Type))"

definition CFE_MSG_SetType :: "message ptr \<Rightarrow> CFE_MSG_Type \<Rightarrow> int32 \<times> message ptr" where
  "CFE_MSG_SetType MsgPtr Type =
     (case MsgPtr of
        None \<Rightarrow> (CFE_MSG_BAD_ARGUMENT, MsgPtr)
      | Some m \<Rightarrow>
          if Type = CFE_MSG_Type_Cmd
          then (CFE_SUCCESS, Some (m[StreamId := m ! StreamId OR ucast (drop_bit 8 CFE_MSG_TYPE_MASK)]))
          else if Type = CFE_MSG_Type_Tlm
          then (CFE_SUCCESS, Some (m[StreamId := m ! StreamId AND NOT (ucast (drop_bit 8 CFE_MSG_TYPE_MASK))]))
          else (CFE_MSG_BAD_ARGUMENT, MsgPtr))"

definition CFE_MSG_GetHasSecondaryHeader :: "message ptr \<Rightarrow> bool ptr \<Rightarrow> int32 \<times> bool ptr" where
  "CFE_MSG_GetHasSecondaryHeader MsgPtr HasSecondary =
     (case (MsgPtr, HasSecondary) of
        (Some m, Some _) \<Rightarrow>
          (CFE_SUCCESS, Some (m ! StreamId AND ucast (drop_bit 8 CFE_MSG_SHDR_MASK) \<noteq> 0))
      | _ \<Rightarrow> (CFE_MSG_BAD_ARGUMENT, HasSecondary))"

definition CFE_MSG_SetHasSecondaryHeader :: "message ptr \<Rightarrow> bool \<Rightarrow> int32 \<times> message ptr" where
  "CFE_MSG_SetHasSecondaryHeader MsgPtr HasSecondary =
     (case MsgPtr of
        None \<Rightarrow> (CFE_MSG_BAD_ARGUMENT, MsgPtr)
      | Some m \<Rightarrow>
          if HasSecondary
          then (CFE_SUCCESS, Some (m[StreamId := m ! StreamId OR ucast (drop_bit 8 CFE_MSG_SHDR_MASK)]))
          else (CFE_SUCCESS, Some (m[StreamId := m ! StreamId AND NOT (ucast (drop_bit 8 CFE_MSG_SHDR_MASK))])))"

definition CFE_MSG_GetApId :: "message ptr \<Rightarrow> u16 ptr \<Rightarrow> int32 \<times> u16 ptr" where
  "CFE_MSG_GetApId MsgPtr ApId =
     (case (MsgPtr, ApId) of
        (Some m, Some _) \<Rightarrow> (CFE_SUCCESS, Some (CFE_MSG_GetHeaderField m StreamId CFE_MSG_APID_MASK))
      | _ \<Rightarrow> (CFE_MSG_BAD_ARGUMENT, ApId))"

definition CFE_MSG_SetApId :: "message ptr \<Rightarrow> u16 \<Rightarrow> int32 \<times> message ptr" where
  "CFE_MSG_SetApId MsgPtr ApId =
     (case MsgPtr of
        None \<Rightarrow> (CFE_MSG_BAD_ARGUMENT, MsgPtr)
      | Some m \<Rightarrow>
          if ApId AND NOT CFE_MSG_APID_MASK \<noteq> 0 then (CFE_MSG_BAD_ARGUMENT, MsgPtr)
          else (CFE_SUCCESS, Some (CFE_MSG_SetHeaderField m StreamId ApId CFE_MSG_APID_MASK)))"

definition CFE_MSG_GetSegmentationFlag ::
  "message ptr \<Rightarrow> CFE_MSG_SegmentationFlag ptr \<Rightarrow> int32 \<times> CFE_MSG_SegmentationFlag ptr" where
  "CFE_MSG_GetSegmentationFlag MsgPtr SegFlag =
     (case (MsgPtr, SegFlag) of
        (Some m, Some _) \<Rightarrow>
          (let rawval = CFE_MSG_GetHeaderField m Sequence CFE_MSG_SEGFLG_MASK in
           (CFE_SUCCESS,
            Some (if rawval = CFE_MSG_SEGFLG_CNT then CFE_MSG_SegFlag_Continue
                  else if rawval = CFE_MSG_SEGFLG_FIRST then CFE_MSG_SegFlag_First
                  else if rawval = CFE_MSG_SEGFLG_LAST then CFE_MSG_SegFlag_Last
                  else CFE_MSG_SegFlag_Unsegmented)))
      | _ \<Rightarrow> (CFE_MSG_BAD_ARGUMENT, SegFlag))"

fun segflag_rawval :: "CFE_MSG_SegmentationFlag \<Rightarrow> u16 option" where
  "segflag_rawval CFE_MSG_SegFlag_Continue = Some CFE_MSG_SEGFLG_CNT"
| "segflag_rawval CFE_MSG_SegFlag_First = Some CFE_MSG_SEGFLG_FIRST"
| "segflag_rawval CFE_MSG_SegFlag_Last = Some CFE_MSG_SEGFLG_LAST"
| "segflag_rawval CFE_MSG_SegFlag_Unsegmented = Some CFE_MSG_SEGFLG_UNSEG"
| "segflag_rawval CFE_MSG_SegFlag_Invalid = None"

definition CFE_MSG_SetSegmentationFlag ::
  "message ptr \<Rightarrow> CFE_MSG_SegmentationFlag \<Rightarrow> int32 \<times> message ptr" where
  "CFE_MSG_SetSegmentationFlag MsgPtr SegFlag =
     (case MsgPtr of
        None \<Rightarrow> (CFE_MSG_BAD_ARGUMENT, MsgPtr)
      | Some m \<Rightarrow>
          (case segflag_rawval SegFlag of
             None \<Rightarrow> (CFE_MSG_BAD_ARGUMENT, MsgPtr)
           | Some rawval \<Rightarrow>
               (CFE_SUCCESS, Some (CFE_MSG_SetHeaderField m Sequence rawval CFE_MSG_SEGFLG_MASK))))"

definition CFE_MSG_GetSequenceCount :: "message ptr \<Rightarrow> u16 ptr \<Rightarrow> int32 \<times> u16 ptr" where
  "CFE_MSG_GetSequenceCount MsgPtr SeqCnt =
     (case (MsgPtr, SeqCnt) of
        (Some m, Some _) \<Rightarrow> (CFE_SUCCESS, Some (CFE_MSG_GetHeaderField m Sequence CFE_MSG_SEQCNT_MASK))
      | _ \<Rightarrow> (CFE_MSG_BAD_ARGUMENT, SeqCnt))"

definition CFE_MSG_SetSequenceCount :: "message ptr \<Rightarrow> u16 \<Rightarrow> int32 \<times> message ptr" where
  "CFE_MSG_SetSequenceCount MsgPtr SeqCnt =
     (case MsgPtr of
        None \<Rightarrow> (CFE_MSG_BAD_ARGUMENT, MsgPtr)
      | Some m \<Rightarrow>
          if SeqCnt AND NOT CFE_MSG_SEQCNT_MASK \<noteq> 0 then (CFE_MSG_BAD_ARGUMENT, MsgPtr)
          else (CFE_SUCCESS, Some (CFE_MSG_SetHeaderField m Sequence SeqCnt CFE_MSG_SEQCNT_MASK)))"

text \<open>
  \<open>CFE_MSG_Size_t\<close> is \<open>size_t\<close>; sizes are natural numbers here, and the range check of
  \<open>CFE_MSG_SetSize\<close> comes before its only subtraction, so nothing can wrap.
\<close>

definition CFE_MSG_GetSize :: "message ptr \<Rightarrow> nat ptr \<Rightarrow> int32 \<times> nat ptr" where
  "CFE_MSG_GetSize MsgPtr Size =
     (case (MsgPtr, Size) of
        (Some m, Some _) \<Rightarrow>
          (CFE_SUCCESS, Some (push_bit 8 (unat (m ! Length)) + unat (m ! (Length + 1)) + CFE_MSG_SIZE_OFFSET))
      | _ \<Rightarrow> (CFE_MSG_BAD_ARGUMENT, Size))"

definition CFE_MSG_SetSize :: "message ptr \<Rightarrow> nat \<Rightarrow> int32 \<times> message ptr" where
  "CFE_MSG_SetSize MsgPtr Size =
     (case MsgPtr of
        None \<Rightarrow> (CFE_MSG_BAD_ARGUMENT, MsgPtr)
      | Some m \<Rightarrow>
          if Size < CFE_MSG_SIZE_OFFSET \<or> Size > 0xFFFF + CFE_MSG_SIZE_OFFSET
          then (CFE_MSG_BAD_ARGUMENT, MsgPtr)
          else let s = Size - CFE_MSG_SIZE_OFFSET in
            (CFE_SUCCESS, Some (m[Length := of_nat (drop_bit 8 s AND 0xFF),
                                  Length + 1 := of_nat (s AND 0xFF)])))"

text \<open>
  The defaults of \<^verbatim>\<open>cfe_msg_defaults.h\<close>; no platform or mission configuration file of the
  repository overrides them.
\<close>

abbreviation (input) CFE_PLATFORM_DEFAULT_APID :: u16 where "CFE_PLATFORM_DEFAULT_APID \<equiv> 0"
abbreviation (input) CFE_MISSION_CCSDSVER :: u16 where "CFE_MISSION_CCSDSVER \<equiv> 0"

definition CFE_MSG_SetDefaultCCSDSPri :: "message ptr \<Rightarrow> message ptr" where
  "CFE_MSG_SetDefaultCCSDSPri MsgPtr =
     (let p = snd (CFE_MSG_SetHasSecondaryHeader MsgPtr True);
          p = snd (CFE_MSG_SetHeaderVersion p CFE_MISSION_CCSDSVER);
          p = snd (CFE_MSG_SetApId p CFE_PLATFORM_DEFAULT_APID)
      in snd (CFE_MSG_SetSegmentationFlag p CFE_MSG_SegFlag_Unsegmented))"

section \<open>The fields of the primary header\<close>

lemma type_flag [simp]: "(ucast (drop_bit 8 (0x1000 :: u16)) :: u8) = 0x10"
  and shdr_flag [simp]: "(ucast (drop_bit 8 (0x0800 :: u16)) :: u8) = 0x08"
  by simp_all

lemma be16_flag_masks:
  "be16 0x10 0 = 0x1000" "be16 0x08 0 = 0x0800" "be16 0x04 0 = 0x0400" "be16 0x02 0 = 0x0200"
  by (simp_all add: be16_def)

definition flag_dec :: "'a \<Rightarrow> 'a \<Rightarrow> u16 \<Rightarrow> 'a" where
  "flag_dec on off x = (if x \<noteq> 0 then on else off)"

definition version_dec :: "nat \<Rightarrow> u16 \<Rightarrow> u16" where
  "version_dec k x = drop_bit k x"

definition segflag_dec :: "u16 \<Rightarrow> CFE_MSG_SegmentationFlag" where
  "segflag_dec x =
     (if x = 0 then CFE_MSG_SegFlag_Continue
      else if x = 0x4000 then CFE_MSG_SegFlag_First
      else if x = 0x8000 then CFE_MSG_SegFlag_Last
      else CFE_MSG_SegFlag_Unsegmented)"

lemma version_shift:
  assumes "v \<le> (7 :: u16)"
  shows "version_dec 13 (push_bit 13 v AND 0xE000) = v"
proof -
  have m: "(0xE000 :: u16) = push_bit 13 (mask 3)"
    by (simp add: mask_eq_exp_minus_1)
  have "v AND mask 3 = v"
    using assms by (intro less_mask_eq) (simp add: word_less_nat_alt word_le_nat_alt)
  then have b: "bit v n \<Longrightarrow> n < 3" for n
    by (metis bit_and_iff bit_mask_iff)
  show ?thesis
    unfolding m version_dec_def by (rule bit_word_eqI) (auto simp: bit_simps dest: b)
qed

interpretation f_version: ccsds_field 0 "0xE000" "push_bit 13" "version_dec 13" "\<lambda>v. v \<le> 7"
  by unfold_locales (rule version_shift)

interpretation f_type: ccsds_field 0 "0x1000"
  "\<lambda>t. if t = CFE_MSG_Type_Cmd then 0x1000 else 0"
  "flag_dec CFE_MSG_Type_Cmd CFE_MSG_Type_Tlm" "\<lambda>t. t \<noteq> CFE_MSG_Type_Invalid"
  by unfold_locales (auto simp: flag_dec_def intro: CFE_MSG_Type.exhaust)

interpretation f_shdr: ccsds_field 0 "0x0800" "\<lambda>b. if b then 0x0800 else 0"
  "flag_dec True False" "\<lambda>b. True"
  by unfold_locales (auto simp: flag_dec_def)

interpretation f_apid: ccsds_field 0 "0x07FF" "\<lambda>v. v" "\<lambda>v. v" "\<lambda>v. v AND NOT 0x07FF = 0"
  by unfold_locales (rule and_mask_absorb)

interpretation f_segflag: ccsds_field 2 "0xC000" "\<lambda>f. the (segflag_rawval f)" segflag_dec
  "\<lambda>f. f \<noteq> CFE_MSG_SegFlag_Invalid"
proof unfold_locales
  show "segflag_dec (the (segflag_rawval f) AND 0xC000) = f" if "f \<noteq> CFE_MSG_SegFlag_Invalid" for f
    using that by (cases f) (simp_all add: segflag_dec_def)
qed

interpretation f_seqcnt: ccsds_field 2 "0x3FFF" "\<lambda>v. v" "\<lambda>v. v" "\<lambda>v. v AND NOT 0x3FFF = 0"
  by unfold_locales (rule and_mask_absorb)

section \<open>The abstract primary header\<close>

record ccsds_pri =
  pri_version :: u16
  pri_type :: CFE_MSG_Type
  pri_shdr :: bool
  pri_apid :: u16
  pri_segflag :: CFE_MSG_SegmentationFlag
  pri_seqcnt :: u16
  pri_size :: nat

definition abs_pri :: "message \<Rightarrow> ccsds_pri" where
  "abs_pri m =
     \<lparr>pri_version = version_dec 13 (hword m 0 AND 0xE000),
      pri_type = flag_dec CFE_MSG_Type_Cmd CFE_MSG_Type_Tlm (hword m 0 AND 0x1000),
      pri_shdr = flag_dec True False (hword m 0 AND 0x0800),
      pri_apid = hword m 0 AND 0x07FF,
      pri_segflag = segflag_dec (hword m 2 AND 0xC000),
      pri_seqcnt = hword m 2 AND 0x3FFF,
      pri_size = unat (hword m 4) + 7\<rparr>"

text \<open>The C getters read exactly the fields of the abstract header.\<close>

lemma type_flag_hword: "m ! 0 AND 0x10 = 0 \<longleftrightarrow> hword m 0 AND 0x1000 = 0"
  and shdr_flag_hword: "m ! 0 AND 0x08 = 0 \<longleftrightarrow> hword m 0 AND 0x0800 = 0"
  using flag_hi_zero_iff [of m 0 "0x10"] flag_hi_zero_iff [of m 0 "0x08"]
  by (simp_all add: be16_flag_masks)

lemma GetHeaderVersion_abs:
  "CFE_MSG_GetHeaderVersion (Some m) (Some x) = (CFE_SUCCESS, Some (pri_version (abs_pri m)))"
  by (simp add: CFE_MSG_GetHeaderVersion_def abs_pri_def GetHeaderField_hword version_dec_def)

lemma GetType_abs: "CFE_MSG_GetType (Some m) (Some x) = (CFE_SUCCESS, Some (pri_type (abs_pri m)))"
  by (simp add: CFE_MSG_GetType_def abs_pri_def flag_dec_def type_flag_hword)

lemma GetHasSecondaryHeader_abs:
  "CFE_MSG_GetHasSecondaryHeader (Some m) (Some x) = (CFE_SUCCESS, Some (pri_shdr (abs_pri m)))"
  by (simp add: CFE_MSG_GetHasSecondaryHeader_def abs_pri_def flag_dec_def shdr_flag_hword)

lemma GetApId_abs: "CFE_MSG_GetApId (Some m) (Some x) = (CFE_SUCCESS, Some (pri_apid (abs_pri m)))"
  by (simp add: CFE_MSG_GetApId_def abs_pri_def GetHeaderField_hword)

lemma GetSegmentationFlag_abs:
  "CFE_MSG_GetSegmentationFlag (Some m) (Some x) = (CFE_SUCCESS, Some (pri_segflag (abs_pri m)))"
  by (simp add: CFE_MSG_GetSegmentationFlag_def abs_pri_def GetHeaderField_hword segflag_dec_def Let_def)

lemma GetSequenceCount_abs:
  "CFE_MSG_GetSequenceCount (Some m) (Some x) = (CFE_SUCCESS, Some (pri_seqcnt (abs_pri m)))"
  by (simp add: CFE_MSG_GetSequenceCount_def abs_pri_def GetHeaderField_hword)

lemma GetSize_abs: "CFE_MSG_GetSize (Some m) (Some x) = (CFE_SUCCESS, Some (pri_size (abs_pri m)))"
  by (simp add: CFE_MSG_GetSize_def abs_pri_def hword_def unat_be16 push_bit_eq_mult)

lemmas pri_getters_abs =
  GetHeaderVersion_abs GetType_abs GetHasSecondaryHeader_abs GetApId_abs
  GetSegmentationFlag_abs GetSequenceCount_abs GetSize_abs

section \<open>The setters refine record updates\<close>

text \<open>
  What a successful primary header setter promises: the message keeps its length and every
  byte after the primary header, and its abstract header changes by the given update.
\<close>

definition pri_updated :: "message \<Rightarrow> (ccsds_pri \<Rightarrow> ccsds_pri) \<Rightarrow> message \<Rightarrow> bool" where
  "pri_updated m upd m' \<longleftrightarrow>
     length m' = length m \<and> drop 6 m' = drop 6 m \<and> abs_pri m' = upd (abs_pri m)"

lemma drop_SetHeaderField: "w + 1 < k \<Longrightarrow> drop k (CFE_MSG_SetHeaderField m w v Mask) = drop k m"
  by (simp add: CFE_MSG_SetHeaderField_def)

lemmas abs_field_simps =
  pri_updated_def abs_pri_def drop_SetHeaderField hword_SetHeaderField_other
  field_SetHeaderField field_SetHeaderField_disjoint

lemma put_version:
  "6 \<le> length m \<Longrightarrow> v \<le> 7 \<Longrightarrow>
     pri_updated m (pri_version_update (\<lambda>_. v)) (CFE_MSG_SetHeaderField m 0 (push_bit 13 v) 0xE000)"
  by (simp add: abs_field_simps version_shift)

lemma put_type:
  "6 \<le> length m \<Longrightarrow> t \<noteq> CFE_MSG_Type_Invalid \<Longrightarrow>
     pri_updated m (pri_type_update (\<lambda>_. t))
       (CFE_MSG_SetHeaderField m 0 (if t = CFE_MSG_Type_Cmd then 0x1000 else 0) 0x1000)"
  using f_type.dec_enc [of t] by (simp add: abs_field_simps)

lemma put_shdr:
  "6 \<le> length m \<Longrightarrow>
     pri_updated m (pri_shdr_update (\<lambda>_. b))
       (CFE_MSG_SetHeaderField m 0 (if b then 0x0800 else 0) 0x0800)"
  using f_shdr.dec_enc [of b] by (simp add: abs_field_simps)

lemma put_apid:
  "6 \<le> length m \<Longrightarrow> a AND NOT 0x07FF = 0 \<Longrightarrow>
     pri_updated m (pri_apid_update (\<lambda>_. a)) (CFE_MSG_SetHeaderField m 0 a 0x07FF)"
  using f_apid.dec_enc [of a] by (simp add: abs_field_simps)

lemma put_segflag:
  "6 \<le> length m \<Longrightarrow> segflag_rawval f = Some r \<Longrightarrow>
     pri_updated m (pri_segflag_update (\<lambda>_. f)) (CFE_MSG_SetHeaderField m 2 r 0xC000)"
  using f_segflag.dec_enc [of f] by (cases f) (auto simp: abs_field_simps)

lemma put_seqcnt:
  "6 \<le> length m \<Longrightarrow> c AND NOT 0x3FFF = 0 \<Longrightarrow>
     pri_updated m (pri_seqcnt_update (\<lambda>_. c)) (CFE_MSG_SetHeaderField m 2 c 0x3FFF)"
  using f_seqcnt.dec_enc [of c] by (simp add: abs_field_simps)

lemma put_size:
  assumes "6 \<le> length m" and "s \<le> 0xFFFF"
  shows "pri_updated m (pri_size_update (\<lambda>_. s + 7))
           (m[4 := of_nat (drop_bit 8 s AND 0xFF), 5 := of_nat (s AND 0xFF)])"
proof -
  have ff: "x AND 255 = x mod 256" for x :: nat
    using take_bit_eq_mod [of 8 x] take_bit_eq_mask [of 8 x] by (simp add: mask_eq_exp_minus_1)
  have "unat (of_nat (s div 256) :: u8) = s div 256" and "unat (of_nat (s mod 256) :: u8) = s mod 256"
    using assms(2) by (simp_all add: unat_of_nat)
  with assms show ?thesis
    by (simp add: pri_updated_def abs_pri_def hword_def unat_be16 ff drop_bit_eq_div)
qed

section \<open>Behaviour of the setters on every branch\<close>

lemma SetApId_eq:
  "CFE_MSG_SetApId (Some m) a =
     (if a \<le> 0x07FF then (CFE_SUCCESS, Some (CFE_MSG_SetHeaderField m StreamId a 0x07FF))
      else (CFE_MSG_BAD_ARGUMENT, Some m))"
  using in_low_mask_iff [of 11 a] by (simp add: CFE_MSG_SetApId_def mask_eq_exp_minus_1)

lemma SetSequenceCount_eq:
  "CFE_MSG_SetSequenceCount (Some m) c =
     (if c \<le> 0x3FFF then (CFE_SUCCESS, Some (CFE_MSG_SetHeaderField m Sequence c 0x3FFF))
      else (CFE_MSG_BAD_ARGUMENT, Some m))"
  using in_low_mask_iff [of 14 c] by (simp add: CFE_MSG_SetSequenceCount_def mask_eq_exp_minus_1)

lemma apid_in_mask: "a \<le> 0x07FF \<Longrightarrow> a AND NOT (0x07FF :: u16) = 0"
  and seqcnt_in_mask: "a \<le> 0x3FFF \<Longrightarrow> a AND NOT (0x3FFF :: u16) = 0"
  using in_low_mask_iff [of 11 a] in_low_mask_iff [of 14 a] by (simp_all add: mask_eq_exp_minus_1)

definition sets_pri :: "int32 \<times> message ptr \<Rightarrow> message \<Rightarrow> (ccsds_pri \<Rightarrow> ccsds_pri) \<Rightarrow> bool" where
  "sets_pri r m upd \<longleftrightarrow> (\<exists>m'. r = (CFE_SUCCESS, Some m') \<and> pri_updated m upd m')"

lemma SetHeaderVersion_ok:
  "6 \<le> length m \<Longrightarrow> v \<le> 7 \<Longrightarrow>
     sets_pri (CFE_MSG_SetHeaderVersion (Some m) v) m (pri_version_update (\<lambda>_. v))"
  by (simp add: sets_pri_def CFE_MSG_SetHeaderVersion_def put_version not_less)

lemma SetType_ok:
  "6 \<le> length m \<Longrightarrow> t \<noteq> CFE_MSG_Type_Invalid \<Longrightarrow>
     sets_pri (CFE_MSG_SetType (Some m) t) m (pri_type_update (\<lambda>_. t))"
  using put_type [of m t] set_flag_hi [of 0 m "0x10"] clear_flag_hi [of 0 m "0x10"]
  by (cases t) (auto simp: sets_pri_def CFE_MSG_SetType_def be16_flag_masks)

lemma SetHasSecondaryHeader_ok:
  "6 \<le> length m \<Longrightarrow>
     sets_pri (CFE_MSG_SetHasSecondaryHeader (Some m) b) m (pri_shdr_update (\<lambda>_. b))"
  using put_shdr [of m b] set_flag_hi [of 0 m "0x08"] clear_flag_hi [of 0 m "0x08"]
  by (cases b) (auto simp: sets_pri_def CFE_MSG_SetHasSecondaryHeader_def be16_flag_masks)

lemma SetApId_ok:
  "6 \<le> length m \<Longrightarrow> a \<le> 0x07FF \<Longrightarrow>
     sets_pri (CFE_MSG_SetApId (Some m) a) m (pri_apid_update (\<lambda>_. a))"
  using put_apid [OF _ apid_in_mask, of m a] by (simp add: sets_pri_def SetApId_eq)

lemma SetSegmentationFlag_ok:
  "6 \<le> length m \<Longrightarrow> f \<noteq> CFE_MSG_SegFlag_Invalid \<Longrightarrow>
     sets_pri (CFE_MSG_SetSegmentationFlag (Some m) f) m (pri_segflag_update (\<lambda>_. f))"
  by (cases f) (auto simp: sets_pri_def CFE_MSG_SetSegmentationFlag_def put_segflag)

lemma SetSequenceCount_ok:
  "6 \<le> length m \<Longrightarrow> c \<le> 0x3FFF \<Longrightarrow>
     sets_pri (CFE_MSG_SetSequenceCount (Some m) c) m (pri_seqcnt_update (\<lambda>_. c))"
  using put_seqcnt [OF _ seqcnt_in_mask, of m c] by (simp add: sets_pri_def SetSequenceCount_eq)

lemma SetSize_ok:
  assumes "6 \<le> length m" and "7 \<le> s" and "s \<le> 0xFFFF + 7"
  shows "sets_pri (CFE_MSG_SetSize (Some m) s) m (pri_size_update (\<lambda>_. s))"
  using assms put_size [of m "s - 7"] by (simp add: sets_pri_def CFE_MSG_SetSize_def Let_def)

lemmas pri_setters_ok =
  SetHeaderVersion_ok SetType_ok SetHasSecondaryHeader_ok SetApId_ok SetSegmentationFlag_ok
  SetSequenceCount_ok SetSize_ok

text \<open>
  Every primary header setter, called with a valid argument on a message that has a
  primary header, succeeds and refines the update of its own field of the abstract header:
  the field reads back as written, the six other fields, the length of the message and all
  bytes after the primary header are unchanged.
\<close>

theorem pri_setters_refine:
  assumes "6 \<le> length m"
  shows
    "(v \<le> 7 \<longrightarrow>
        sets_pri (CFE_MSG_SetHeaderVersion (Some m) v) m (pri_version_update (\<lambda>_. v))) \<and>
     (t \<noteq> CFE_MSG_Type_Invalid \<longrightarrow>
        sets_pri (CFE_MSG_SetType (Some m) t) m (pri_type_update (\<lambda>_. t))) \<and>
     sets_pri (CFE_MSG_SetHasSecondaryHeader (Some m) b) m (pri_shdr_update (\<lambda>_. b)) \<and>
     (a \<le> 0x07FF \<longrightarrow> sets_pri (CFE_MSG_SetApId (Some m) a) m (pri_apid_update (\<lambda>_. a))) \<and>
     (f \<noteq> CFE_MSG_SegFlag_Invalid \<longrightarrow>
        sets_pri (CFE_MSG_SetSegmentationFlag (Some m) f) m (pri_segflag_update (\<lambda>_. f))) \<and>
     (c \<le> 0x3FFF \<longrightarrow>
        sets_pri (CFE_MSG_SetSequenceCount (Some m) c) m (pri_seqcnt_update (\<lambda>_. c))) \<and>
     (7 \<le> s \<and> s \<le> 0xFFFF + 7 \<longrightarrow>
        sets_pri (CFE_MSG_SetSize (Some m) s) m (pri_size_update (\<lambda>_. s)))"
  using assms by (simp add: pri_setters_ok)

theorem pri_setters_refine_witness:
  "sets_pri (CFE_MSG_SetApId (Some (replicate 8 0xA5)) 0x123) (replicate 8 0xA5)
     (pri_apid_update (\<lambda>_. 0x123)) \<and>
   sets_pri (CFE_MSG_SetSize (Some (replicate 8 0xA5)) 300) (replicate 8 0xA5)
     (pri_size_update (\<lambda>_. 300))"
  using pri_setters_refine [of "replicate 8 0xA5" 0 CFE_MSG_Type_Cmd True "0x123"
      CFE_MSG_SegFlag_First 5 300]
  by simp

text \<open>
  The setters reject exactly the NULL pointer and the values their field cannot hold:
  they return \<open>CFE_MSG_BAD_ARGUMENT\<close>, and then the message is untouched.
\<close>

theorem pri_setters_reject:
  "fst (CFE_MSG_SetHeaderVersion p v) = (if p = NULL \<or> 7 < v then CFE_MSG_BAD_ARGUMENT else CFE_SUCCESS) \<and>
   fst (CFE_MSG_SetType p t) = (if p = NULL \<or> t = CFE_MSG_Type_Invalid then CFE_MSG_BAD_ARGUMENT else CFE_SUCCESS) \<and>
   fst (CFE_MSG_SetHasSecondaryHeader p b) = (if p = NULL then CFE_MSG_BAD_ARGUMENT else CFE_SUCCESS) \<and>
   fst (CFE_MSG_SetApId p a) = (if p = NULL \<or> 0x07FF < a then CFE_MSG_BAD_ARGUMENT else CFE_SUCCESS) \<and>
   fst (CFE_MSG_SetSegmentationFlag p f) = (if p = NULL \<or> f = CFE_MSG_SegFlag_Invalid then CFE_MSG_BAD_ARGUMENT else CFE_SUCCESS) \<and>
   fst (CFE_MSG_SetSequenceCount p c) = (if p = NULL \<or> 0x3FFF < c then CFE_MSG_BAD_ARGUMENT else CFE_SUCCESS) \<and>
   fst (CFE_MSG_SetSize p s) = (if p = NULL \<or> s < 7 \<or> 0xFFFF + 7 < s then CFE_MSG_BAD_ARGUMENT else CFE_SUCCESS) \<and>
   (fst (CFE_MSG_SetHeaderVersion p v) = CFE_SUCCESS \<or> snd (CFE_MSG_SetHeaderVersion p v) = p) \<and>
   (fst (CFE_MSG_SetType p t) = CFE_SUCCESS \<or> snd (CFE_MSG_SetType p t) = p) \<and>
   (fst (CFE_MSG_SetApId p a) = CFE_SUCCESS \<or> snd (CFE_MSG_SetApId p a) = p) \<and>
   (fst (CFE_MSG_SetSegmentationFlag p f) = CFE_SUCCESS \<or> snd (CFE_MSG_SetSegmentationFlag p f) = p) \<and>
   (fst (CFE_MSG_SetSequenceCount p c) = CFE_SUCCESS \<or> snd (CFE_MSG_SetSequenceCount p c) = p) \<and>
   (fst (CFE_MSG_SetSize p s) = CFE_SUCCESS \<or> snd (CFE_MSG_SetSize p s) = p)"
proof (cases p)
  case None
  then show ?thesis
    by (simp add: CFE_MSG_SetHeaderVersion_def CFE_MSG_SetType_def CFE_MSG_SetHasSecondaryHeader_def
        CFE_MSG_SetApId_def CFE_MSG_SetSegmentationFlag_def CFE_MSG_SetSequenceCount_def
        CFE_MSG_SetSize_def)
next
  case (Some m)
  then show ?thesis
    unfolding Some
    by (intro conjI;
        cases f; cases t;
        simp add: CFE_MSG_SetHeaderVersion_def CFE_MSG_SetType_def CFE_MSG_SetHasSecondaryHeader_def
          SetApId_eq CFE_MSG_SetSegmentationFlag_def SetSequenceCount_eq CFE_MSG_SetSize_def Let_def not_le [symmetric])
qed

end
