(* ===== verification/CFE_Msg_Ext.thy ===== *)
theory CFE_Msg_Ext
  imports CFE_Msg_Pri
begin

unbundle bit_operations_syntax

text \<open>
  The CCSDS extended header accessors, \<^verbatim>\<open>src/cfe/modules/msg/src/cfe_msg_ccsdsext.c\<close>, built
  in when the mission selects the extended header.  As for the primary header, the record
  \<open>ccsds_ext\<close> is the abstract header and each setter refines the update of its field.

  The platform parameters that \<open>CFE_MSG_SetDefaultCCSDSExt\<close> reads, the endianness macro
  \<open>CFE_PLATFORM_ENDIAN\<close> and the spacecraft id of the PSP, are arguments here.
\<close>

section \<open>The C functions\<close>

abbreviation (input) CFE_MSG_EDSVER_SHIFT :: nat where "CFE_MSG_EDSVER_SHIFT \<equiv> 11"
abbreviation (input) CFE_MSG_EDSVER_MASK :: u16 where "CFE_MSG_EDSVER_MASK \<equiv> 0xF800"
abbreviation (input) CFE_MSG_ENDIAN_MASK :: u16 where "CFE_MSG_ENDIAN_MASK \<equiv> 0x0400"
abbreviation (input) CFE_MSG_PLAYBACK_MASK :: u16 where "CFE_MSG_PLAYBACK_MASK \<equiv> 0x0200"
abbreviation (input) CFE_MSG_SUBSYS_MASK :: u16 where "CFE_MSG_SUBSYS_MASK \<equiv> 0x01FF"

definition CFE_MSG_GetEDSVersion :: "message ptr \<Rightarrow> u16 ptr \<Rightarrow> int32 \<times> u16 ptr" where
  "CFE_MSG_GetEDSVersion MsgPtr Version =
     (case (MsgPtr, Version) of
        (Some m, Some _) \<Rightarrow>
          (CFE_SUCCESS, Some (drop_bit CFE_MSG_EDSVER_SHIFT
             (CFE_MSG_GetHeaderField m Subsystem CFE_MSG_EDSVER_MASK)))
      | _ \<Rightarrow> (CFE_MSG_BAD_ARGUMENT, Version))"

definition CFE_MSG_SetEDSVersion :: "message ptr \<Rightarrow> u16 \<Rightarrow> int32 \<times> message ptr" where
  "CFE_MSG_SetEDSVersion MsgPtr Version =
     (case MsgPtr of
        None \<Rightarrow> (CFE_MSG_BAD_ARGUMENT, MsgPtr)
      | Some m \<Rightarrow>
          if Version > drop_bit CFE_MSG_EDSVER_SHIFT CFE_MSG_EDSVER_MASK
          then (CFE_MSG_BAD_ARGUMENT, MsgPtr)
          else (CFE_SUCCESS, Some (CFE_MSG_SetHeaderField m Subsystem
                  (push_bit CFE_MSG_EDSVER_SHIFT Version) CFE_MSG_EDSVER_MASK)))"

definition CFE_MSG_GetEndian :: "message ptr \<Rightarrow> CFE_MSG_Endian ptr \<Rightarrow> int32 \<times> CFE_MSG_Endian ptr" where
  "CFE_MSG_GetEndian MsgPtr Endian =
     (case (MsgPtr, Endian) of
        (Some m, Some _) \<Rightarrow>
          (CFE_SUCCESS,
           if m ! Subsystem AND ucast (drop_bit 8 CFE_MSG_ENDIAN_MASK) \<noteq> 0
           then Some CFE_MSG_Endian_Little else Some CFE_MSG_Endian_Big)
      | _ \<Rightarrow> (CFE_MSG_BAD_ARGUMENT, Endian))"

definition CFE_MSG_SetEndian :: "message ptr \<Rightarrow> CFE_MSG_Endian \<Rightarrow> int32 \<times> message ptr" where
  "CFE_MSG_SetEndian MsgPtr Endian =
     (case MsgPtr of
        None \<Rightarrow> (CFE_MSG_BAD_ARGUMENT, MsgPtr)
      | Some m \<Rightarrow>
          if Endian = CFE_MSG_Endian_Little
          then (CFE_SUCCESS, Some (m[Subsystem := m ! Subsystem OR ucast (drop_bit 8 CFE_MSG_ENDIAN_MASK)]))
          else if Endian = CFE_MSG_Endian_Big
          then (CFE_SUCCESS, Some (m[Subsystem := m ! Subsystem AND NOT (ucast (drop_bit 8 CFE_MSG_ENDIAN_MASK))]))
          else (CFE_MSG_BAD_ARGUMENT, MsgPtr))"

definition CFE_MSG_GetPlaybackFlag ::
  "message ptr \<Rightarrow> CFE_MSG_PlaybackFlag ptr \<Rightarrow> int32 \<times> CFE_MSG_PlaybackFlag ptr" where
  "CFE_MSG_GetPlaybackFlag MsgPtr PlayFlag =
     (case (MsgPtr, PlayFlag) of
        (Some m, Some _) \<Rightarrow>
          (CFE_SUCCESS,
           if m ! Subsystem AND ucast (drop_bit 8 CFE_MSG_PLAYBACK_MASK) \<noteq> 0
           then Some CFE_MSG_PlayFlag_Playback else Some CFE_MSG_PlayFlag_Original)
      | _ \<Rightarrow> (CFE_MSG_BAD_ARGUMENT, PlayFlag))"

definition CFE_MSG_SetPlaybackFlag :: "message ptr \<Rightarrow> CFE_MSG_PlaybackFlag \<Rightarrow> int32 \<times> message ptr" where
  "CFE_MSG_SetPlaybackFlag MsgPtr PlayFlag =
     (case MsgPtr of
        None \<Rightarrow> (CFE_MSG_BAD_ARGUMENT, MsgPtr)
      | Some m \<Rightarrow>
          if PlayFlag = CFE_MSG_PlayFlag_Playback
          then (CFE_SUCCESS, Some (m[Subsystem := m ! Subsystem OR ucast (drop_bit 8 CFE_MSG_PLAYBACK_MASK)]))
          else if PlayFlag = CFE_MSG_PlayFlag_Original
          then (CFE_SUCCESS, Some (m[Subsystem := m ! Subsystem AND NOT (ucast (drop_bit 8 CFE_MSG_PLAYBACK_MASK))]))
          else (CFE_MSG_BAD_ARGUMENT, MsgPtr))"

definition CFE_MSG_GetSubsystem :: "message ptr \<Rightarrow> u16 ptr \<Rightarrow> int32 \<times> u16 ptr" where
  "CFE_MSG_GetSubsystem MsgPtr Subsys =
     (case (MsgPtr, Subsys) of
        (Some m, Some _) \<Rightarrow> (CFE_SUCCESS, Some (CFE_MSG_GetHeaderField m Subsystem CFE_MSG_SUBSYS_MASK))
      | _ \<Rightarrow> (CFE_MSG_BAD_ARGUMENT, Subsys))"

definition CFE_MSG_SetSubsystem :: "message ptr \<Rightarrow> u16 \<Rightarrow> int32 \<times> message ptr" where
  "CFE_MSG_SetSubsystem MsgPtr Subsys =
     (case MsgPtr of
        None \<Rightarrow> (CFE_MSG_BAD_ARGUMENT, MsgPtr)
      | Some m \<Rightarrow>
          if Subsys AND NOT CFE_MSG_SUBSYS_MASK \<noteq> 0 then (CFE_MSG_BAD_ARGUMENT, MsgPtr)
          else (CFE_SUCCESS, Some (CFE_MSG_SetHeaderField m Subsystem Subsys CFE_MSG_SUBSYS_MASK)))"

definition CFE_MSG_GetSystem :: "message ptr \<Rightarrow> u16 ptr \<Rightarrow> int32 \<times> u16 ptr" where
  "CFE_MSG_GetSystem MsgPtr System =
     (case (MsgPtr, System) of
        (Some m, Some _) \<Rightarrow>
          (CFE_SUCCESS, Some (push_bit 8 (ucast (m ! SystemId)) + ucast (m ! (SystemId + 1))))
      | _ \<Rightarrow> (CFE_MSG_BAD_ARGUMENT, System))"

definition CFE_MSG_SetSystem :: "message ptr \<Rightarrow> u16 \<Rightarrow> int32 \<times> message ptr" where
  "CFE_MSG_SetSystem MsgPtr System =
     (case MsgPtr of
        None \<Rightarrow> (CFE_MSG_BAD_ARGUMENT, MsgPtr)
      | Some m \<Rightarrow>
          (CFE_SUCCESS, Some (m[SystemId := ucast (drop_bit 8 System AND 0xFF),
                                SystemId + 1 := ucast (System AND 0xFF)])))"

abbreviation (input) CFE_PLATFORM_EDSVER :: u16 where "CFE_PLATFORM_EDSVER \<equiv> 1"
abbreviation (input) CFE_PLATFORM_DEFAULT_SUBSYS :: u16 where "CFE_PLATFORM_DEFAULT_SUBSYS \<equiv> 0"

record CFE_MSG_Platform =
  platform_little_endian :: bool
  platform_spacecraft_id :: u32

definition CFE_MSG_SetDefaultCCSDSExt :: "CFE_MSG_Platform \<Rightarrow> message ptr \<Rightarrow> message ptr" where
  "CFE_MSG_SetDefaultCCSDSExt P MsgPtr =
     (let p = snd (CFE_MSG_SetEDSVersion MsgPtr CFE_PLATFORM_EDSVER);
          p = snd (CFE_MSG_SetEndian p
                (if platform_little_endian P then CFE_MSG_Endian_Little else CFE_MSG_Endian_Big));
          p = snd (CFE_MSG_SetSubsystem p CFE_PLATFORM_DEFAULT_SUBSYS)
      in snd (CFE_MSG_SetSystem p (ucast (platform_spacecraft_id P))))"

section \<open>The abstract extended header\<close>

lemma endian_flag [simp]: "(ucast (drop_bit 8 (0x0400 :: u16)) :: u8) = 0x04"
  and playback_flag [simp]: "(ucast (drop_bit 8 (0x0200 :: u16)) :: u8) = 0x02"
  by simp_all

lemma edsver_shift:
  assumes "v \<le> (31 :: u16)"
  shows "version_dec 11 (push_bit 11 v AND 0xF800) = v"
proof -
  have m: "(0xF800 :: u16) = push_bit 11 (mask 5)"
    by (simp add: mask_eq_exp_minus_1)
  have "v AND mask 5 = v"
    using assms by (intro less_mask_eq) (simp add: word_less_nat_alt word_le_nat_alt)
  then have b: "bit v n \<Longrightarrow> n < 5" for n
    by (metis bit_and_iff bit_mask_iff)
  show ?thesis
    unfolding m version_dec_def by (rule bit_word_eqI) (auto simp: bit_simps dest: b)
qed

interpretation f_edsver: ccsds_field 6 "0xF800" "push_bit 11" "version_dec 11" "\<lambda>v. v \<le> 31"
  by unfold_locales (rule edsver_shift)

interpretation f_endian: ccsds_field 6 "0x0400"
  "\<lambda>e. if e = CFE_MSG_Endian_Little then 0x0400 else 0"
  "flag_dec CFE_MSG_Endian_Little CFE_MSG_Endian_Big" "\<lambda>e. e \<noteq> CFE_MSG_Endian_Invalid"
  by unfold_locales (auto simp: flag_dec_def intro: CFE_MSG_Endian.exhaust)

interpretation f_playback: ccsds_field 6 "0x0200"
  "\<lambda>e. if e = CFE_MSG_PlayFlag_Playback then 0x0200 else 0"
  "flag_dec CFE_MSG_PlayFlag_Playback CFE_MSG_PlayFlag_Original" "\<lambda>e. e \<noteq> CFE_MSG_PlayFlag_Invalid"
  by unfold_locales (auto simp: flag_dec_def intro: CFE_MSG_PlaybackFlag.exhaust)

interpretation f_subsys: ccsds_field 6 "0x01FF" "\<lambda>v. v" "\<lambda>v. v" "\<lambda>v. v AND NOT 0x01FF = 0"
  by unfold_locales (rule and_mask_absorb)

record ccsds_ext =
  ext_edsver :: u16
  ext_endian :: CFE_MSG_Endian
  ext_playback :: CFE_MSG_PlaybackFlag
  ext_subsys :: u16
  ext_system :: u16

definition abs_ext :: "message \<Rightarrow> ccsds_ext" where
  "abs_ext m =
     \<lparr>ext_edsver = version_dec 11 (hword m 6 AND 0xF800),
      ext_endian = flag_dec CFE_MSG_Endian_Little CFE_MSG_Endian_Big (hword m 6 AND 0x0400),
      ext_playback = flag_dec CFE_MSG_PlayFlag_Playback CFE_MSG_PlayFlag_Original (hword m 6 AND 0x0200),
      ext_subsys = hword m 6 AND 0x01FF,
      ext_system = hword m 8\<rparr>"

lemma endian_flag_hword: "m ! 6 AND 0x04 = 0 \<longleftrightarrow> hword m 6 AND 0x0400 = 0"
  and playback_flag_hword: "m ! 6 AND 0x02 = 0 \<longleftrightarrow> hword m 6 AND 0x0200 = 0"
  using flag_hi_zero_iff [of m 6 "0x04"] flag_hi_zero_iff [of m 6 "0x02"]
  by (simp_all add: be16_flag_masks)

lemma be16_plus: "push_bit 8 (ucast hi) + ucast lo = be16 hi lo"
proof -
  have "push_bit 8 (ucast hi) AND (ucast lo :: u16) = 0"
    by (rule bit_word_eqI) (auto simp: bit_simps dest: bit_imp_le_length)
  then show ?thesis by (simp add: be16_def disjunctive_add_eq_or)
qed

lemma GetEDSVersion_abs:
  "CFE_MSG_GetEDSVersion (Some m) (Some x) = (CFE_SUCCESS, Some (ext_edsver (abs_ext m)))"
  by (simp add: CFE_MSG_GetEDSVersion_def abs_ext_def GetHeaderField_hword version_dec_def)

lemma GetEndian_abs: "CFE_MSG_GetEndian (Some m) (Some x) = (CFE_SUCCESS, Some (ext_endian (abs_ext m)))"
  by (simp add: CFE_MSG_GetEndian_def abs_ext_def flag_dec_def endian_flag_hword)

lemma GetPlaybackFlag_abs:
  "CFE_MSG_GetPlaybackFlag (Some m) (Some x) = (CFE_SUCCESS, Some (ext_playback (abs_ext m)))"
  by (simp add: CFE_MSG_GetPlaybackFlag_def abs_ext_def flag_dec_def playback_flag_hword)

lemma GetSubsystem_abs:
  "CFE_MSG_GetSubsystem (Some m) (Some x) = (CFE_SUCCESS, Some (ext_subsys (abs_ext m)))"
  by (simp add: CFE_MSG_GetSubsystem_def abs_ext_def GetHeaderField_hword)

lemma GetSystem_abs: "CFE_MSG_GetSystem (Some m) (Some x) = (CFE_SUCCESS, Some (ext_system (abs_ext m)))"
  by (simp add: CFE_MSG_GetSystem_def abs_ext_def be16_plus hword_def)

lemmas ext_getters_abs =
  GetEDSVersion_abs GetEndian_abs GetPlaybackFlag_abs GetSubsystem_abs GetSystem_abs

section \<open>The setters refine record updates\<close>

definition ext_updated :: "message \<Rightarrow> (ccsds_ext \<Rightarrow> ccsds_ext) \<Rightarrow> message \<Rightarrow> bool" where
  "ext_updated m upd m' \<longleftrightarrow>
     length m' = length m \<and> take 6 m' = take 6 m \<and> drop 10 m' = drop 10 m \<and>
     abs_ext m' = upd (abs_ext m)"

lemma take_SetHeaderField: "k \<le> w \<Longrightarrow> take k (CFE_MSG_SetHeaderField m w v Mask) = take k m"
  by (simp add: CFE_MSG_SetHeaderField_def)

lemmas ext_field_simps =
  ext_updated_def abs_ext_def take_SetHeaderField drop_SetHeaderField hword_SetHeaderField_other
  field_SetHeaderField field_SetHeaderField_disjoint

definition sets_ext :: "int32 \<times> message ptr \<Rightarrow> message \<Rightarrow> (ccsds_ext \<Rightarrow> ccsds_ext) \<Rightarrow> bool" where
  "sets_ext r m upd \<longleftrightarrow> (\<exists>m'. r = (CFE_SUCCESS, Some m') \<and> ext_updated m upd m')"

lemma SetEDSVersion_ok:
  "10 \<le> length m \<Longrightarrow> v \<le> 31 \<Longrightarrow>
     sets_ext (CFE_MSG_SetEDSVersion (Some m) v) m (ext_edsver_update (\<lambda>_. v))"
  by (simp add: sets_ext_def CFE_MSG_SetEDSVersion_def ext_field_simps edsver_shift not_less)

lemma SetEndian_ok:
  "10 \<le> length m \<Longrightarrow> e \<noteq> CFE_MSG_Endian_Invalid \<Longrightarrow>
     sets_ext (CFE_MSG_SetEndian (Some m) e) m (ext_endian_update (\<lambda>_. e))"
  using f_endian.dec_enc [of e] set_flag_hi [of 6 m "0x04"] clear_flag_hi [of 6 m "0x04"]
  by (cases e) (auto simp: sets_ext_def CFE_MSG_SetEndian_def be16_flag_masks ext_field_simps)

lemma SetPlaybackFlag_ok:
  "10 \<le> length m \<Longrightarrow> e \<noteq> CFE_MSG_PlayFlag_Invalid \<Longrightarrow>
     sets_ext (CFE_MSG_SetPlaybackFlag (Some m) e) m (ext_playback_update (\<lambda>_. e))"
  using f_playback.dec_enc [of e] set_flag_hi [of 6 m "0x02"] clear_flag_hi [of 6 m "0x02"]
  by (cases e) (auto simp: sets_ext_def CFE_MSG_SetPlaybackFlag_def be16_flag_masks ext_field_simps)

lemma SetSubsystem_eq:
  "CFE_MSG_SetSubsystem (Some m) a =
     (if a \<le> 0x01FF then (CFE_SUCCESS, Some (CFE_MSG_SetHeaderField m Subsystem a 0x01FF))
      else (CFE_MSG_BAD_ARGUMENT, Some m))"
  using in_low_mask_iff [of 9 a] by (simp add: CFE_MSG_SetSubsystem_def mask_eq_exp_minus_1)

lemma SetSubsystem_ok:
  assumes "10 \<le> length m" and "a \<le> 0x01FF"
  shows "sets_ext (CFE_MSG_SetSubsystem (Some m) a) m (ext_subsys_update (\<lambda>_. a))"
proof -
  have "a AND 0x01FF = a"
    using assms(2) in_low_mask_iff [of 9 a] and_mask_absorb [of a "0x01FF"]
    by (simp add: mask_eq_exp_minus_1)
  with assms show ?thesis by (simp add: sets_ext_def SetSubsystem_eq ext_field_simps)
qed

lemma SetSystem_ok:
  assumes "10 \<le> length m"
  shows "sets_ext (CFE_MSG_SetSystem (Some m) x) m (ext_system_update (\<lambda>_. x))"
proof -
  have ff: "(0xFF :: u16) = mask 8" by (simp add: mask_eq_exp_minus_1)
  have "be16 (ucast (drop_bit 8 x AND 0xFF)) (ucast (x AND 0xFF)) = x"
    unfolding ff by (rule bit_word_eqI) (auto simp: bit_be16 bit_simps)
  with assms show ?thesis
    by (simp add: sets_ext_def CFE_MSG_SetSystem_def ext_updated_def abs_ext_def hword_def)
qed

lemmas ext_setters_ok =
  SetEDSVersion_ok SetEndian_ok SetPlaybackFlag_ok SetSubsystem_ok SetSystem_ok

text \<open>
  Every extended header setter, called with a valid argument on a message that has an
  extended header, succeeds and refines the update of its own field of the abstract extended
  header; the primary header, the other extended fields and all later bytes are unchanged.
\<close>

theorem ext_setters_refine:
  assumes "10 \<le> length m"
  shows
    "(v \<le> 31 \<longrightarrow> sets_ext (CFE_MSG_SetEDSVersion (Some m) v) m (ext_edsver_update (\<lambda>_. v))) \<and>
     (e \<noteq> CFE_MSG_Endian_Invalid \<longrightarrow>
        sets_ext (CFE_MSG_SetEndian (Some m) e) m (ext_endian_update (\<lambda>_. e))) \<and>
     (p \<noteq> CFE_MSG_PlayFlag_Invalid \<longrightarrow>
        sets_ext (CFE_MSG_SetPlaybackFlag (Some m) p) m (ext_playback_update (\<lambda>_. p))) \<and>
     (a \<le> 0x01FF \<longrightarrow> sets_ext (CFE_MSG_SetSubsystem (Some m) a) m (ext_subsys_update (\<lambda>_. a))) \<and>
     sets_ext (CFE_MSG_SetSystem (Some m) x) m (ext_system_update (\<lambda>_. x))"
  using assms by (simp add: ext_setters_ok)

theorem ext_setters_refine_witness:
  "sets_ext (CFE_MSG_SetEDSVersion (Some (replicate 12 0xA5)) 3) (replicate 12 0xA5)
     (ext_edsver_update (\<lambda>_. 3)) \<and>
   sets_ext (CFE_MSG_SetSubsystem (Some (replicate 12 0xA5)) 0x55) (replicate 12 0xA5)
     (ext_subsys_update (\<lambda>_. 0x55))"
  using ext_setters_refine [of "replicate 12 0xA5" 3 CFE_MSG_Endian_Big CFE_MSG_PlayFlag_Original "0x55" 7]
  by simp

end
