(* ===== verification/CFE_SB_MsgId.thy ===== *)
theory CFE_SB_MsgId
  imports CFS_Prelude
begin

text \<open>
  The message id type and its validity check (\<^verbatim>\<open>cfe_sb_msg_id_util.c\<close>), shared by the
  message module, the routing module and the software bus.
\<close>

text \<open>\<open>CFE_SB_MsgId_t\<close> is \<open>uint32\<close>; wrapping and unwrapping its value are the identity.\<close>

type_synonym CFE_SB_MsgId = u32

abbreviation (input) CFE_PLATFORM_SB_HIGHEST_VALID_MSGID :: u32 where
  "CFE_PLATFORM_SB_HIGHEST_VALID_MSGID \<equiv> 0x1FFF"

definition CFE_SB_INVALID_MSG_ID :: CFE_SB_MsgId where
  "CFE_SB_INVALID_MSG_ID = - 1"

definition CFE_SB_IsValidMsgId :: "CFE_SB_MsgId \<Rightarrow> bool" where
  "CFE_SB_IsValidMsgId MsgId \<longleftrightarrow>
     MsgId \<noteq> CFE_SB_INVALID_MSG_ID \<and> MsgId \<le> CFE_PLATFORM_SB_HIGHEST_VALID_MSGID"

lemma IsValidMsgId_iff: "CFE_SB_IsValidMsgId m \<longleftrightarrow> m \<le> 0x1FFF"
  by (auto simp: CFE_SB_IsValidMsgId_def CFE_SB_INVALID_MSG_ID_def word_le_def
      unsigned_minus_1_eq_mask mask_eq_exp_minus_1)

lemma invalid_msgid_not_valid [simp]: "\<not> CFE_SB_IsValidMsgId CFE_SB_INVALID_MSG_ID"
  by (simp add: CFE_SB_IsValidMsgId_def)

end
