(* ===== verification/CFE_Msg_Sec.thy ===== *)
theory CFE_Msg_Sec
  imports CFE_Msg_Ext CFE_SB_MsgId
begin

unbundle bit_operations_syntax

text \<open>
  Message ids, message initialization and the secondary header accessors of the MSG module:
  \<^verbatim>\<open>cfe_msg_msgid_v1.c\<close>, \<^verbatim>\<open>cfe_msg_msgid_v2.c\<close>, \<^verbatim>\<open>cfe_msg_msgid_shared.c\<close>,
  \<^verbatim>\<open>cfe_msg_init.c\<close> with its two header variants, \<^verbatim>\<open>cfe_msg_sechdr_checksum.c\<close>,
  \<^verbatim>\<open>cfe_msg_sechdr_fc.c\<close> and \<^verbatim>\<open>cfe_msg_sechdr_time.c\<close>.

  The secondary header starts right after \<open>CFE_MSG_Message_t\<close>, at
  \<open>sizeof_Message cfg\<close>: a command has its function code there and its checksum in the next
  byte, a telemetry packet six bytes of time.
\<close>

section \<open>Message ids\<close>

definition CFE_MSG_GetMsgId_v1 :: "message ptr \<Rightarrow> CFE_SB_MsgId ptr \<Rightarrow> int32 \<times> CFE_SB_MsgId ptr" where
  "CFE_MSG_GetMsgId_v1 MsgPtr MsgId =
     (case (MsgPtr, MsgId) of
        (Some m, Some _) \<Rightarrow>
          (CFE_SUCCESS, Some (push_bit 8 (ucast (m ! StreamId)) + ucast (m ! (StreamId + 1))))
      | _ \<Rightarrow> (CFE_MSG_BAD_ARGUMENT, MsgId))"

definition CFE_MSG_SetMsgId_v1 :: "message ptr \<Rightarrow> CFE_SB_MsgId \<Rightarrow> int32 \<times> message ptr" where
  "CFE_MSG_SetMsgId_v1 MsgPtr MsgId =
     (case MsgPtr of
        None \<Rightarrow> (CFE_MSG_BAD_ARGUMENT, MsgPtr)
      | Some m \<Rightarrow>
          if MsgId > CFE_PLATFORM_SB_HIGHEST_VALID_MSGID then (CFE_MSG_BAD_ARGUMENT, MsgPtr)
          else (CFE_SUCCESS, Some (m[StreamId := ucast (drop_bit 8 MsgId), StreamId + 1 := ucast MsgId])))"

abbreviation (input) CFE_MSG_MSGID_APID_MASK :: u32 where "CFE_MSG_MSGID_APID_MASK \<equiv> 0x007F"
abbreviation (input) CFE_MSG_MSGID_TYPE_MASK :: u32 where "CFE_MSG_MSGID_TYPE_MASK \<equiv> 0x0080"
abbreviation (input) CFE_MSG_MSGID_SUBSYS_MASK :: u32 where "CFE_MSG_MSGID_SUBSYS_MASK \<equiv> 0xFF00"

definition CFE_MSG_GetMsgId_v2 :: "message ptr \<Rightarrow> CFE_SB_MsgId ptr \<Rightarrow> int32 \<times> CFE_SB_MsgId ptr" where
  "CFE_MSG_GetMsgId_v2 MsgPtr MsgId =
     (case (MsgPtr, MsgId) of
        (Some m, Some _) \<Rightarrow>
          (let type = the (snd (CFE_MSG_GetType MsgPtr (Some CFE_MSG_Type_Invalid)));
               msgidval = ucast (m ! (StreamId + 1)) AND CFE_MSG_MSGID_APID_MASK;
               msgidval = (if type = CFE_MSG_Type_Cmd then msgidval OR CFE_MSG_MSGID_TYPE_MASK
                           else msgidval);
               msgidval = msgidval OR (push_bit 8 (ucast (m ! (Subsystem + 1))) AND CFE_MSG_MSGID_SUBSYS_MASK)
           in (CFE_SUCCESS, Some msgidval))
      | _ \<Rightarrow> (CFE_MSG_BAD_ARGUMENT, MsgId))"

definition CFE_MSG_SetMsgId_v2 :: "message ptr \<Rightarrow> CFE_SB_MsgId \<Rightarrow> int32 \<times> message ptr" where
  "CFE_MSG_SetMsgId_v2 MsgPtr MsgId =
     (case MsgPtr of
        None \<Rightarrow> (CFE_MSG_BAD_ARGUMENT, MsgPtr)
      | Some m \<Rightarrow>
          if MsgId > CFE_PLATFORM_SB_HIGHEST_VALID_MSGID then (CFE_MSG_BAD_ARGUMENT, MsgPtr)
          else
            (let m = m[StreamId + 1 := ucast ((ucast (m ! (StreamId + 1)) AND NOT CFE_MSG_MSGID_APID_MASK)
                                              OR (MsgId AND CFE_MSG_MSGID_APID_MASK))];
                 m = m[Subsystem + 1 := ucast (drop_bit 8 (MsgId AND CFE_MSG_MSGID_SUBSYS_MASK))]
             in (CFE_SUCCESS,
                 snd (CFE_MSG_SetType (Some m)
                        (if MsgId AND CFE_MSG_MSGID_TYPE_MASK \<noteq> 0 then CFE_MSG_Type_Cmd
                         else CFE_MSG_Type_Tlm)))))"

definition CFE_MSG_GetMsgId ::
  "CFE_MSG_Config \<Rightarrow> message ptr \<Rightarrow> CFE_SB_MsgId ptr \<Rightarrow> int32 \<times> CFE_SB_MsgId ptr" where
  "CFE_MSG_GetMsgId cfg =
     (if cfg = MSG_PRIEXT_V2 then CFE_MSG_GetMsgId_v2 else CFE_MSG_GetMsgId_v1)"

definition CFE_MSG_SetMsgId ::
  "CFE_MSG_Config \<Rightarrow> message ptr \<Rightarrow> CFE_SB_MsgId \<Rightarrow> int32 \<times> message ptr" where
  "CFE_MSG_SetMsgId cfg =
     (if cfg = MSG_PRIEXT_V2 then CFE_MSG_SetMsgId_v2 else CFE_MSG_SetMsgId_v1)"

text \<open>
  The local variable \<open>msg\<close> of \<open>CFE_MSG_GetTypeFromMsgId\<close> is not initialized: its content is an
  argument of the model, and what the result may depend on is part of the statements.
\<close>

definition CFE_MSG_GetTypeFromMsgId ::
  "CFE_MSG_Config \<Rightarrow> message \<Rightarrow> CFE_SB_MsgId \<Rightarrow> CFE_MSG_Type ptr \<Rightarrow> int32 \<times> CFE_MSG_Type ptr" where
  "CFE_MSG_GetTypeFromMsgId cfg msg MsgId Type =
     (case Type of
        None \<Rightarrow> (CFE_MSG_BAD_ARGUMENT, Type)
      | Some _ \<Rightarrow>
          (CFE_SUCCESS, snd (CFE_MSG_GetType (snd (CFE_MSG_SetMsgId cfg (Some msg) MsgId)) Type)))"

section \<open>Initialization\<close>

definition memset_zero :: "message \<Rightarrow> nat \<Rightarrow> message" where
  "memset_zero m n = replicate (min n (length m)) 0 @ drop n m"

definition CFE_MSG_InitDefaultHdr :: "CFE_MSG_Config \<Rightarrow> CFE_MSG_Platform \<Rightarrow> message ptr \<Rightarrow> message ptr" where
  "CFE_MSG_InitDefaultHdr cfg P MsgPtr =
     (if cfg = MSG_PRI_V1 then CFE_MSG_SetDefaultCCSDSPri MsgPtr
      else CFE_MSG_SetDefaultCCSDSExt P (CFE_MSG_SetDefaultCCSDSPri MsgPtr))"

definition CFE_MSG_Init ::
  "CFE_MSG_Config \<Rightarrow> CFE_MSG_Platform \<Rightarrow> message ptr \<Rightarrow> CFE_SB_MsgId \<Rightarrow> nat \<Rightarrow> int32 \<times> message ptr" where
  "CFE_MSG_Init cfg P MsgPtr MsgId Size =
     (case MsgPtr of
        None \<Rightarrow> (CFE_MSG_BAD_ARGUMENT, MsgPtr)
      | Some m \<Rightarrow>
          (let p = CFE_MSG_InitDefaultHdr cfg P (Some (memset_zero m Size));
               (status, p) = CFE_MSG_SetMsgId cfg p MsgId
           in if status = CFE_SUCCESS then CFE_MSG_SetSize p Size else (status, p)))"

section \<open>Checksum\<close>

fun checksum_loop :: "nat \<Rightarrow> message \<Rightarrow> nat \<Rightarrow> u32 \<Rightarrow> u32" where
  "checksum_loop 0 Byte i chksum = chksum"
| "checksum_loop (Suc PktLen) Byte i chksum =
     checksum_loop PktLen Byte (i + 1) (chksum XOR ucast (Byte ! i))"

definition CFE_MSG_ComputeCheckSum :: "message \<Rightarrow> u32" where
  "CFE_MSG_ComputeCheckSum m =
     checksum_loop (the (snd (CFE_MSG_GetSize (Some m) (Some 0)))) m 0 0xFF"

text \<open>The test that opens every secondary header accessor: has it one, and is it of this type?\<close>

definition has_sechdr_type :: "message \<Rightarrow> CFE_MSG_Type \<Rightarrow> bool" where
  "has_sechdr_type m ty \<longleftrightarrow>
     (let hassechdr = the (snd (CFE_MSG_GetHasSecondaryHeader (Some m) (Some False)));
          (status, type) = CFE_MSG_GetType (Some m) (Some CFE_MSG_Type_Invalid)
      in \<not> (status \<noteq> CFE_SUCCESS \<or> the type \<noteq> ty \<or> \<not> hassechdr))"

definition CFE_MSG_GenerateChecksum :: "CFE_MSG_Config \<Rightarrow> message ptr \<Rightarrow> int32 \<times> message ptr" where
  "CFE_MSG_GenerateChecksum cfg MsgPtr =
     (case MsgPtr of
        None \<Rightarrow> (CFE_MSG_BAD_ARGUMENT, MsgPtr)
      | Some m \<Rightarrow>
          if \<not> has_sechdr_type m CFE_MSG_Type_Cmd then (CFE_MSG_WRONG_MSG_TYPE, MsgPtr)
          else
            (let ck = sizeof_Message cfg + 1;
                 m = m[ck := 0]
             in (CFE_SUCCESS, Some (m[ck := ucast (CFE_MSG_ComputeCheckSum m)]))))"

definition CFE_MSG_ValidateChecksum :: "message ptr \<Rightarrow> bool ptr \<Rightarrow> int32 \<times> bool ptr" where
  "CFE_MSG_ValidateChecksum MsgPtr IsValid =
     (case (MsgPtr, IsValid) of
        (Some m, Some _) \<Rightarrow>
          if \<not> has_sechdr_type m CFE_MSG_Type_Cmd then (CFE_MSG_WRONG_MSG_TYPE, IsValid)
          else (CFE_SUCCESS, Some (CFE_MSG_ComputeCheckSum m = 0))
      | _ \<Rightarrow> (CFE_MSG_BAD_ARGUMENT, IsValid))"

section \<open>Function code\<close>

abbreviation (input) CFE_MSG_FC_MASK :: u16 where "CFE_MSG_FC_MASK \<equiv> 0x7F"

definition CFE_MSG_GetFcnCode :: "CFE_MSG_Config \<Rightarrow> message ptr \<Rightarrow> u16 ptr \<Rightarrow> int32 \<times> u16 ptr" where
  "CFE_MSG_GetFcnCode cfg MsgPtr FcnCode =
     (case (MsgPtr, FcnCode) of
        (Some m, Some _) \<Rightarrow>
          if \<not> has_sechdr_type m CFE_MSG_Type_Cmd then (CFE_MSG_WRONG_MSG_TYPE, Some 0)
          else (CFE_SUCCESS, Some (ucast (m ! sizeof_Message cfg) AND CFE_MSG_FC_MASK))
      | _ \<Rightarrow> (CFE_MSG_BAD_ARGUMENT, FcnCode))"

definition CFE_MSG_SetFcnCode :: "CFE_MSG_Config \<Rightarrow> message ptr \<Rightarrow> u16 \<Rightarrow> int32 \<times> message ptr" where
  "CFE_MSG_SetFcnCode cfg MsgPtr FcnCode =
     (case MsgPtr of
        None \<Rightarrow> (CFE_MSG_BAD_ARGUMENT, MsgPtr)
      | Some m \<Rightarrow>
          if FcnCode > CFE_MSG_FC_MASK then (CFE_MSG_BAD_ARGUMENT, MsgPtr)
          else if \<not> has_sechdr_type m CFE_MSG_Type_Cmd then (CFE_MSG_WRONG_MSG_TYPE, MsgPtr)
          else (CFE_SUCCESS, Some (m[sizeof_Message cfg := ucast FcnCode])))"

section \<open>Message time\<close>

definition CFE_MSG_SetMsgTime :: "CFE_MSG_Config \<Rightarrow> message ptr \<Rightarrow> CFE_TIME_SysTime \<Rightarrow> int32 \<times> message ptr" where
  "CFE_MSG_SetMsgTime cfg MsgPtr NewTime =
     (case MsgPtr of
        None \<Rightarrow> (CFE_MSG_BAD_ARGUMENT, MsgPtr)
      | Some m \<Rightarrow>
          if \<not> has_sechdr_type m CFE_MSG_Type_Tlm then (CFE_MSG_WRONG_MSG_TYPE, MsgPtr)
          else
            (let t = sizeof_Message cfg in
             (CFE_SUCCESS,
              Some (m[t := ucast (drop_bit 24 (Seconds NewTime) AND 0xFF),
                      t + 1 := ucast (drop_bit 16 (Seconds NewTime) AND 0xFF),
                      t + 2 := ucast (drop_bit 8 (Seconds NewTime) AND 0xFF),
                      t + 3 := ucast (Seconds NewTime AND 0xFF),
                      t + 4 := ucast (drop_bit 24 (Subseconds NewTime) AND 0xFF),
                      t + 5 := ucast (drop_bit 16 (Subseconds NewTime) AND 0xFF)]))))"

definition CFE_MSG_GetMsgTime ::
  "CFE_MSG_Config \<Rightarrow> message ptr \<Rightarrow> CFE_TIME_SysTime ptr \<Rightarrow> int32 \<times> CFE_TIME_SysTime ptr" where
  "CFE_MSG_GetMsgTime cfg MsgPtr Time =
     (case (MsgPtr, Time) of
        (Some m, Some _) \<Rightarrow>
          if \<not> has_sechdr_type m CFE_MSG_Type_Tlm
          then (CFE_MSG_WRONG_MSG_TYPE, Some \<lparr>Seconds = 0, Subseconds = 0\<rparr>)
          else
            (let t = sizeof_Message cfg in
             (CFE_SUCCESS,
              Some \<lparr>Seconds = push_bit 24 (ucast (m ! t)) + push_bit 16 (ucast (m ! (t + 1)))
                              + push_bit 8 (ucast (m ! (t + 2))) + ucast (m ! (t + 3)),
                    Subseconds = push_bit 24 (ucast (m ! (t + 4))) + push_bit 16 (ucast (m ! (t + 5)))\<rparr>))
      | _ \<Rightarrow> (CFE_MSG_BAD_ARGUMENT, Time))"

section \<open>Helper lemmas\<close>

lemma has_sechdr_type_abs:
  "has_sechdr_type m ty \<longleftrightarrow> pri_shdr (abs_pri m) \<and> pri_type (abs_pri m) = ty"
  by (auto simp: has_sechdr_type_def pri_getters_abs)

lemma abs_pri_cong:
  "(\<And>i. i < 6 \<Longrightarrow> m' ! i = m ! i) \<Longrightarrow> abs_pri m' = abs_pri m"
  by (simp add: abs_pri_def hword_def)

lemma abs_pri_update_later [simp]: "6 \<le> k \<Longrightarrow> abs_pri (m[k := v]) = abs_pri m"
  by (rule abs_pri_cong) simp

lemma sizeof_Message_ge: "6 \<le> sizeof_Message cfg"
  by (cases cfg) simp_all

text \<open>The checksum of the code is the exclusive or of the bytes of the packet, seeded with 0xFF.\<close>

definition xorsum :: "u8 list \<Rightarrow> u8" where
  "xorsum bs = foldr (XOR) bs 0"

lemma xorsum_simps [simp]: "xorsum [] = 0" "xorsum (b # bs) = b XOR xorsum bs"
  by (simp_all add: xorsum_def)

lemma xorsum_append: "xorsum (as @ bs) = xorsum as XOR xorsum bs"
  by (induction as) (simp_all add: xor.assoc)

lemma xorsum_update:
  assumes "k < length bs"
  shows "xorsum (bs[k := v]) = xorsum bs XOR (bs ! k) XOR v"
proof -
  have "xorsum bs = xorsum (take k bs) XOR (bs ! k XOR xorsum (drop (Suc k) bs))"
    using id_take_nth_drop [OF assms] by (metis xorsum_append xorsum_simps(2))
  moreover have "xorsum (bs[k := v]) = xorsum (take k bs) XOR (v XOR xorsum (drop (Suc k) bs))"
    using assms by (simp add: upd_conv_take_nth_drop xorsum_append)
  ultimately show ?thesis
    by (intro bit_word_eqI) (auto simp: bit_simps)
qed

lemma checksum_loop_xorsum:
  "i + n \<le> length m \<Longrightarrow>
     checksum_loop n m i (ucast c) = ucast (c XOR xorsum (take n (drop i m)))"
proof (induction n arbitrary: i c)
  case (Suc n)
  have x: "ucast c XOR ucast (m ! i) = (ucast (c XOR m ! i) :: u32)"
    by (rule bit_word_eqI) (auto simp: bit_simps)
  have "take (Suc n) (drop i m) = m ! i # take n (drop (i + 1) m)"
    using Suc.prems by (simp add: Cons_nth_drop_Suc [symmetric])
  with Suc show ?case by (simp add: x xor.assoc)
qed simp

lemma ComputeCheckSum_xorsum:
  assumes "pri_size (abs_pri m) \<le> length m"
  shows "CFE_MSG_ComputeCheckSum m = ucast (0xFF XOR xorsum (take (pri_size (abs_pri m)) m))"
  using checksum_loop_xorsum [of 0 "pri_size (abs_pri m)" m "0xFF"] assms
  by (simp add: CFE_MSG_ComputeCheckSum_def pri_getters_abs)

lemma ucast_u8_u32_zero_iff: "(ucast (x :: u8) :: u32) = 0 \<longleftrightarrow> x = 0"
proof
  assume a: "(ucast x :: u32) = 0"
  show "x = 0"
  proof (rule bit_word_eqI)
    fix n assume "n < LENGTH(8)"
    then show "bit x n = bit (0 :: u8) n"
      using arg_cong [OF a, of "\<lambda>w. bit w n"] by (simp add: bit_simps)
  qed
qed simp

lemma ValidateChecksum_eq:
  assumes "has_sechdr_type m CFE_MSG_Type_Cmd" and "pri_size (abs_pri m) \<le> length m"
  shows "CFE_MSG_ValidateChecksum (Some m) (Some b) =
           (CFE_SUCCESS, Some (xorsum (take (pri_size (abs_pri m)) m) = 0xFF))"
proof -
  have "(0xFF XOR x = (0 :: u8)) = (x = 0xFF)" for x
    by (metis xor.left_neutral xor.assoc xor_self_eq)
  with assms show ?thesis
    by (simp add: CFE_MSG_ValidateChecksum_def ComputeCheckSum_xorsum ucast_u8_u32_zero_iff)
qed

lemma xor_change: "a XOR b XOR v = a \<longleftrightarrow> b = (v :: 'a::len word)"
proof
  assume eq: "a XOR b XOR v = a"
  show "b = v"
  proof (rule bit_word_eqI)
    fix n assume "n < LENGTH('a)"
    then show "bit b n = bit v n"
      using arg_cong [OF eq, of "\<lambda>w. bit w n"] by (auto simp: bit_simps)
  qed
qed (simp add: xor.assoc)

lemma xorsum_take_update:
  "k < n \<Longrightarrow> n \<le> length m \<Longrightarrow>
     xorsum (take n (m[k := v])) = xorsum (take n m) XOR (m ! k) XOR v"
  by (simp add: take_update_swap xorsum_update)

section \<open>Checksum properties\<close>

text \<open>
  C31. A command message to which \<open>CFE_MSG_GenerateChecksum\<close> was applied passes
  \<open>CFE_MSG_ValidateChecksum\<close>, and no byte but the checksum changed.  The checksum byte has to
  be part of the packet, and the packet has to lie inside the buffer.
\<close>

theorem generate_then_validate:
  assumes "has_sechdr_type m CFE_MSG_Type_Cmd"
    and "sizeof_Message cfg + 1 < pri_size (abs_pri m)" and "pri_size (abs_pri m) \<le> length m"
  shows "\<exists>m'. CFE_MSG_GenerateChecksum cfg (Some m) = (CFE_SUCCESS, Some m') \<and>
           CFE_MSG_ValidateChecksum (Some m') (Some b) = (CFE_SUCCESS, Some True) \<and>
           length m' = length m \<and> (\<forall>i. i \<noteq> sizeof_Message cfg + 1 \<longrightarrow> m' ! i = m ! i)"
proof -
  define ck where "ck = sizeof_Message cfg + 1"
  define s where "s = pri_size (abs_pri m)"
  have ck6: "6 \<le> ck" and cks: "ck < s" and sl: "s \<le> length m"
    using sizeof_Message_ge [of cfg] assms(2,3) by (simp_all add: ck_def s_def)
  define m0 where "m0 = m[ck := 0]"
  define m' where "m' = m0[ck := ucast (CFE_MSG_ComputeCheckSum m0)]"
  have abs': "abs_pri m0 = abs_pri m" "abs_pri m' = abs_pri m"
    using ck6 by (simp_all add: m0_def m'_def)
  have ck': "ucast (CFE_MSG_ComputeCheckSum m0) = (0xFF XOR xorsum (take s m0) :: u8)"
    using ComputeCheckSum_xorsum [of m0] sl abs'(1)
    by (simp add: s_def m0_def) (rule bit_word_eqI, auto simp: bit_simps)
  have "xorsum (take s m') = xorsum (take s m0) XOR (m0 ! ck) XOR (0xFF XOR xorsum (take s m0))"
    unfolding m'_def ck' using cks sl by (intro xorsum_take_update) (simp_all add: m0_def)
  moreover have "m0 ! ck = 0" using cks sl by (simp add: m0_def)
  ultimately have "xorsum (take s m') = 0xFF"
    by (simp add: xor.commute xor.left_commute)
  then have "CFE_MSG_ValidateChecksum (Some m') (Some b) = (CFE_SUCCESS, Some True)"
    using ValidateChecksum_eq [of m' b] assms(1) abs'(2) sl
    by (simp add: has_sechdr_type_abs s_def) (simp add: m'_def m0_def)
  moreover have "CFE_MSG_GenerateChecksum cfg (Some m) = (CFE_SUCCESS, Some m')"
    using assms(1) by (simp add: CFE_MSG_GenerateChecksum_def m'_def m0_def ck_def Let_def)
  moreover have "\<forall>i. i \<noteq> sizeof_Message cfg + 1 \<longrightarrow> m' ! i = m ! i"
    by (simp add: m'_def m0_def ck_def)
  moreover have "length m' = length m" by (simp add: m'_def m0_def)
  ultimately show ?thesis by blast
qed

text \<open>
  C32. Corruption of a single byte is detected: if a command passes validation, then changing
  any one byte of its packet after the primary header (which holds the length and the type)
  makes validation answer false.
\<close>

theorem single_byte_corruption_detected:
  assumes "CFE_MSG_ValidateChecksum (Some m) (Some b) = (CFE_SUCCESS, Some True)"
    and "pri_size (abs_pri m) \<le> length m"
    and "6 \<le> k" and "k < pri_size (abs_pri m)" and "v \<noteq> m ! k"
  shows "CFE_MSG_ValidateChecksum (Some (m[k := v])) (Some b) = (CFE_SUCCESS, Some False)"
proof -
  have h: "has_sechdr_type m CFE_MSG_Type_Cmd"
    using assms(1) by (simp add: CFE_MSG_ValidateChecksum_def split: if_splits)
  then have ff: "xorsum (take (pri_size (abs_pri m)) m) = 0xFF"
    using assms(1,2) by (simp add: ValidateChecksum_eq)
  have "xorsum (take (pri_size (abs_pri m)) (m[k := v])) = 0xFF XOR (m ! k) XOR v"
    using assms(2,4) by (simp add: xorsum_take_update ff)
  moreover have "0xFF XOR (m ! k) XOR v \<noteq> 0xFF"
    using assms(5) by (simp add: xor_change)
  ultimately show ?thesis
    using h assms(2,3) by (simp add: ValidateChecksum_eq has_sechdr_type_abs)
qed

section \<open>Function code and time properties\<close>

text \<open>
  Function codes: setting a code of at most 0x7F on a command with a secondary header
  succeeds, reads back as that code and keeps the primary header; on any other message both
  accessors answer \<open>CFE_MSG_WRONG_MSG_TYPE\<close>, the setter leaves the message alone and the
  getter delivers 0.
\<close>

theorem fcncode_roundtrip:
  assumes "sizeof_Message cfg < length m" and "fc \<le> 0x7F"
  shows "if has_sechdr_type m CFE_MSG_Type_Cmd
         then \<exists>m'. CFE_MSG_SetFcnCode cfg (Some m) fc = (CFE_SUCCESS, Some m') \<and>
                CFE_MSG_GetFcnCode cfg (Some m') (Some x) = (CFE_SUCCESS, Some fc) \<and>
                abs_pri m' = abs_pri m
         else CFE_MSG_SetFcnCode cfg (Some m) fc = (CFE_MSG_WRONG_MSG_TYPE, Some m) \<and>
                CFE_MSG_GetFcnCode cfg (Some m) (Some x) = (CFE_MSG_WRONG_MSG_TYPE, Some 0)"
proof -
  have m: "(0x7F :: u16) = mask 7" by (simp add: mask_eq_exp_minus_1)
  have "fc AND 0x7F = fc"
    using assms(2) in_low_mask_iff [of 7 fc] and_mask_absorb [of fc "0x7F"] by (simp add: m)
  then have b: "bit fc n \<Longrightarrow> n < 7" for n
    unfolding m by (metis bit_and_iff bit_mask_iff)
  have "ucast (ucast fc :: u8) AND 0x7F = fc"
    unfolding m by (rule bit_word_eqI) (auto simp: bit_simps dest: b)
  with assms sizeof_Message_ge [of cfg] show ?thesis
    by (auto simp: CFE_MSG_SetFcnCode_def CFE_MSG_GetFcnCode_def has_sechdr_type_abs not_less)
qed

theorem fcncode_roundtrip_witness:
  "\<exists>m'. CFE_MSG_SetFcnCode MSG_PRI_V1 (Some [0x18, 6, 0xC0, 0, 0, 1, 0, 0]) 5 = (CFE_SUCCESS, Some m') \<and>
     CFE_MSG_GetFcnCode MSG_PRI_V1 (Some m') (Some 0) = (CFE_SUCCESS, Some 5) \<and>
     abs_pri m' = abs_pri [0x18, 6, 0xC0, 0, 0, 1, 0, 0]"
  using fcncode_roundtrip [of MSG_PRI_V1 "[0x18, 6, 0xC0, 0, 0, 1, 0, 0]" 5 0]
  by (simp add: has_sechdr_type_def CFE_MSG_GetHasSecondaryHeader_def CFE_MSG_GetType_def)

lemma be32_high:
  fixes w :: u32
  shows "push_bit 24 (ucast (ucast (drop_bit 24 w AND 0xFF) :: u8)) +
         push_bit 16 (ucast (ucast (drop_bit 16 w AND 0xFF) :: u8)) = w AND 0xFFFF0000"
    (is "?a + ?b = _")
proof -
  have ff: "(0xFF :: u32) = mask 8" by (simp add: mask_eq_exp_minus_1)
  have hi: "(0xFFFF0000 :: u32) = push_bit 16 (mask 16)" by (simp add: mask_eq_exp_minus_1)
  have "?a + ?b = ?a OR ?b"
    unfolding ff by (rule disjunctive_add_eq_or, rule bit_word_eqI) (auto simp: bit_simps)
  also have "\<dots> = w AND 0xFFFF0000"
  proof (rule bit_word_eqI)
    fix n assume "n < LENGTH(32)"
    then show "bit (?a OR ?b) n = bit (w AND 0xFFFF0000) n"
      unfolding ff hi by (cases "24 \<le> n") (auto simp: bit_simps)
  qed
  finally show ?thesis .
qed

lemma be32_low:
  fixes w :: u32
  shows "(w AND 0xFFFF0000) + push_bit 8 (ucast (ucast (drop_bit 8 w AND 0xFF) :: u8)) +
         ucast (ucast (w AND 0xFF) :: u8) = w" (is "?h + ?c + ?d = w")
proof -
  have ff: "(0xFF :: u32) = mask 8" by (simp add: mask_eq_exp_minus_1)
  have hi: "(0xFFFF0000 :: u32) = push_bit 16 (mask 16)" by (simp add: mask_eq_exp_minus_1)
  have "?h + ?c = ?h OR ?c"
    unfolding ff hi by (rule disjunctive_add_eq_or, rule bit_word_eqI) (auto simp: bit_simps)
  moreover have "(?h OR ?c) + ?d = (?h OR ?c) OR ?d"
    unfolding ff hi by (rule disjunctive_add_eq_or, rule bit_word_eqI) (auto simp: bit_simps)
  moreover have "(?h OR ?c) OR ?d = w"
  proof (rule bit_word_eqI)
    fix n assume "n < LENGTH(32)"
    then show "bit ((?h OR ?c) OR ?d) n = bit w n"
      unfolding ff hi by (cases "8 \<le> n") (auto simp: bit_simps)
  qed
  ultimately show ?thesis by simp
qed

text \<open>
  Message times: on a telemetry packet with a secondary header, the time read back is the
  time set, with the subseconds cut to their upper 16 bits (the header's 32/16 layout), and
  the primary header is kept; on any other message both accessors answer
  \<open>CFE_MSG_WRONG_MSG_TYPE\<close>, the setter leaves the message alone and the getter delivers zero.
\<close>

theorem msgtime_roundtrip:
  assumes "sizeof_Message cfg + 6 \<le> length m"
  shows "if has_sechdr_type m CFE_MSG_Type_Tlm
         then \<exists>m'. CFE_MSG_SetMsgTime cfg (Some m) t = (CFE_SUCCESS, Some m') \<and>
                CFE_MSG_GetMsgTime cfg (Some m') (Some x) =
                  (CFE_SUCCESS, Some (t\<lparr>Subseconds := Subseconds t AND 0xFFFF0000\<rparr>)) \<and>
                abs_pri m' = abs_pri m
         else CFE_MSG_SetMsgTime cfg (Some m) t = (CFE_MSG_WRONG_MSG_TYPE, Some m) \<and>
                CFE_MSG_GetMsgTime cfg (Some m) (Some x) =
                  (CFE_MSG_WRONG_MSG_TYPE, Some \<lparr>Seconds = 0, Subseconds = 0\<rparr>)"
  using assms sizeof_Message_ge [of cfg]
  by (cases t) (simp add: CFE_MSG_SetMsgTime_def CFE_MSG_GetMsgTime_def has_sechdr_type_abs Let_def
      nth_list_update be32_high be32_low)

theorem msgtime_roundtrip_witness:
  "\<exists>m'. CFE_MSG_SetMsgTime MSG_PRI_V1 (Some (0x08 # replicate 11 0)) \<lparr>Seconds = 1000, Subseconds = 0x80000001\<rparr>
          = (CFE_SUCCESS, Some m') \<and>
     CFE_MSG_GetMsgTime MSG_PRI_V1 (Some m') (Some \<lparr>Seconds = 0, Subseconds = 0\<rparr>)
          = (CFE_SUCCESS, Some \<lparr>Seconds = 1000, Subseconds = 0x80000000\<rparr>)"
  using msgtime_roundtrip [of MSG_PRI_V1 "0x08 # replicate 11 0" "\<lparr>Seconds = 1000, Subseconds = 0x80000001\<rparr>"
      "\<lparr>Seconds = 0, Subseconds = 0\<rparr>"]
  by (auto simp: has_sechdr_type_def CFE_MSG_GetHasSecondaryHeader_def CFE_MSG_GetType_def)

theorem generate_then_validate_witness:
  "\<exists>m'. CFE_MSG_GenerateChecksum MSG_PRI_V1 (Some [0x18, 6, 0xC0, 0, 0, 1, 2, 0]) = (CFE_SUCCESS, Some m') \<and>
     CFE_MSG_ValidateChecksum (Some m') (Some False) = (CFE_SUCCESS, Some True)"
  using generate_then_validate [of "[0x18, 6, 0xC0, 0, 0, 1, 2, 0]" MSG_PRI_V1 False]
  by (auto simp: has_sechdr_type_abs abs_pri_def hword_def be16_def flag_dec_def)

theorem single_byte_corruption_detected_witness:
  "CFE_MSG_ValidateChecksum (Some ([0x18, 6, 0xC0, 0, 0, 1, 2, 0x22][6 := 3])) (Some True)
     = (CFE_SUCCESS, Some False)"
proof -
  have v: "CFE_MSG_ValidateChecksum (Some [0x18, 6, 0xC0, 0, 0, 1, 2, 0x22]) (Some True) = (CFE_SUCCESS, Some True)"
    by (simp add: ValidateChecksum_eq has_sechdr_type_abs abs_pri_def hword_def be16_def flag_dec_def)
  show ?thesis
    by (rule single_byte_corruption_detected [OF v])
       (simp_all add: abs_pri_def hword_def be16_def)
qed

end
