(* ===== verification/CFE_Msg_Id.thy ===== *)
theory CFE_Msg_Id
  imports CFE_Msg_Sec
begin

unbundle bit_operations_syntax

text \<open>
  The properties of message ids and of message initialization: both implementations of the
  message id accessors (\<^verbatim>\<open>cfe_msg_msgid_v1.c\<close> and \<^verbatim>\<open>cfe_msg_msgid_v2.c\<close>) meet one
  contract, and \<open>CFE_MSG_Init\<close> is correct over either.
\<close>

section \<open>The contract of the message id implementations\<close>

text \<open>
  The build links one of two implementations of the message id accessors.  Each owns some
  bytes of the header, outside the sequence and length words.  What their callers rely on: a
  valid id is written and read back without touching any byte that is not owned, reading
  depends on the owned bytes only, and an invalid id is refused with the message unchanged.
\<close>

locale msgid_api =
  fixes hdr :: nat and own :: "nat \<Rightarrow> bool"
    and getid :: "message ptr \<Rightarrow> CFE_SB_MsgId ptr \<Rightarrow> int32 \<times> CFE_SB_MsgId ptr"
    and setid :: "message ptr \<Rightarrow> CFE_SB_MsgId \<Rightarrow> int32 \<times> message ptr"
  assumes hdr: "6 \<le> hdr"
    and own: "own i \<Longrightarrow> i < 2 \<or> 6 \<le> i \<and> i < hdr"
    and set_valid: "hdr \<le> length m \<Longrightarrow> mid \<le> 0x1FFF \<Longrightarrow>
          \<exists>m'. setid (Some m) mid = (CFE_SUCCESS, Some m') \<and> length m' = length m \<and>
            getid (Some m') (Some x) = (CFE_SUCCESS, Some mid) \<and>
            (\<forall>i. \<not> own i \<longrightarrow> m' ! i = m ! i)"
    and set_invalid: "0x1FFF < mid \<Longrightarrow> setid (Some m) mid = (CFE_MSG_BAD_ARGUMENT, Some m)"
    and get_local: "(\<And>i. own i \<Longrightarrow> m' ! i = m ! i) \<Longrightarrow>
          getid (Some m') (Some x) = getid (Some m) (Some x)"
begin

text \<open>What \<open>CFE_MSG_Init\<close> does after the defaults: the id, then the size.\<close>

lemma set_id_then_size:
  assumes "hdr \<le> length m" and "mid \<le> 0x1FFF" and "7 \<le> s" and "s \<le> 0xFFFF + 7"
  shows "\<exists>m1 m2. setid (Some m) mid = (CFE_SUCCESS, Some m1) \<and>
           CFE_MSG_SetSize (Some m1) s = (CFE_SUCCESS, Some m2) \<and> length m2 = length m \<and>
           getid (Some m2) (Some x) = (CFE_SUCCESS, Some mid) \<and> pri_size (abs_pri m2) = s \<and>
           (\<forall>i. \<not> own i \<and> i \<noteq> 4 \<and> i \<noteq> 5 \<longrightarrow> m2 ! i = m ! i)"
proof -
  obtain m1 where m1: "setid (Some m) mid = (CFE_SUCCESS, Some m1)" "length m1 = length m"
      "getid (Some m1) (Some x) = (CFE_SUCCESS, Some mid)" "\<forall>i. \<not> own i \<longrightarrow> m1 ! i = m ! i"
    using set_valid [OF assms(1,2)] by blast
  have len6: "6 \<le> length m1" using hdr assms(1) m1(2) by simp
  define m2 where "m2 = m1[4 := of_nat (drop_bit 8 (s - 7) AND 0xFF), 5 := of_nat ((s - 7) AND 0xFF)]"
  have s2: "CFE_MSG_SetSize (Some m1) s = (CFE_SUCCESS, Some m2)"
    using assms(3,4) by (simp add: CFE_MSG_SetSize_def m2_def Let_def)
  have "pri_updated m1 (pri_size_update (\<lambda>_. s)) m2"
    using put_size [of m1 "s - 7"] len6 assms(3,4) by (simp add: m2_def)
  then have "pri_size (abs_pri m2) = s" by (simp add: pri_updated_def)
  moreover have "getid (Some m2) (Some x) = (CFE_SUCCESS, Some mid)"
    using get_local [of m2 m1 x] own m1(3) by (force simp: m2_def)
  ultimately show ?thesis
    using m1 s2 by (auto simp: m2_def)
qed

end

lemma msgid_bits: "mid \<le> (0x1FFF :: u32) \<Longrightarrow> bit mid n \<Longrightarrow> n < 13"
proof -
  assume le: "mid \<le> (0x1FFF :: u32)" and b: "bit mid n"
  have "mid AND mask 13 = mid"
    using le by (intro less_mask_eq) (simp add: word_less_nat_alt word_le_nat_alt)
  with b show "n < 13" by (metis bit_and_iff bit_mask_iff)
qed

lemma msgid_v1_split:
  assumes "mid \<le> (0x1FFF :: u32)"
  shows "push_bit 8 (ucast (ucast (drop_bit 8 mid) :: u8)) + ucast (ucast mid :: u8) = mid" (is "?a + ?b = _")
proof -
  have "?a + ?b = ?a OR ?b"
    by (rule disjunctive_add_eq_or, rule bit_word_eqI) (auto simp: bit_simps)
  also have "\<dots> = mid"
  proof (rule bit_word_eqI)
    fix n assume "n < LENGTH(32)"
    then show "bit (?a OR ?b) n = bit mid n"
      by (cases "8 \<le> n") (auto simp: bit_simps dest: msgid_bits [OF assms])
  qed
  finally show ?thesis .
qed

lemma nth0_update: "6 \<le> length m \<Longrightarrow> m[0 := v] ! 0 = v"
  by (cases m) simp_all

lemma msgid_v1_api: "6 \<le> h \<Longrightarrow> msgid_api h (\<lambda>i. i < 2) CFE_MSG_GetMsgId_v1 CFE_MSG_SetMsgId_v1"
  by unfold_locales
     (auto simp: CFE_MSG_GetMsgId_v1_def CFE_MSG_SetMsgId_v1_def nth0_update msgid_v1_split not_less)

lemma SetType_bytes:
  assumes "6 \<le> length m" and "t \<noteq> CFE_MSG_Type_Invalid"
  shows "\<exists>m'. CFE_MSG_SetType (Some m) t = (CFE_SUCCESS, Some m') \<and> length m' = length m \<and>
           pri_type (abs_pri m') = t \<and> (\<forall>i. i \<noteq> 0 \<longrightarrow> m' ! i = m ! i)"
  using SetType_ok [OF assms] assms(2)
  by (cases t) (auto simp: sets_pri_def pri_updated_def CFE_MSG_SetType_def)

lemma msgid_v2_join:
  assumes "mid \<le> (0x1FFF :: u32)"
  shows "(ucast (ucast ((ucast x AND NOT 0x7F) OR (mid AND 0x7F)) :: u8) AND 0x7F)
           OR (if mid AND 0x80 \<noteq> 0 then 0x80 else 0)
           OR (push_bit 8 (ucast (ucast (drop_bit 8 (mid AND 0xFF00)) :: u8)) AND 0xFF00) = mid"
    (is "?a OR ?b OR ?c = _")
proof -
  have m: "(0x7F :: u32) = mask 7" "(0xFF00 :: u32) = push_bit 8 (mask 8)"
    by (simp_all add: mask_eq_exp_minus_1)
  have b80: "bit (0x80 :: u32) n \<longleftrightarrow> n = 7" for n
    using bit_exp_iff [where 'a = u32, of 7 n] by auto
  have "mid AND 0x80 = (if bit mid 7 then 0x80 else 0)"
    by (rule bit_word_eqI) (simp only: bit_and_iff b80 bit_0_eq bot_apply split: if_split, auto)
  then have b: "bit ?b n \<longleftrightarrow> n = 7 \<and> bit mid 7" for n
    using b80 by (cases "bit mid 7") simp_all
  show ?thesis
  proof (rule bit_word_eqI)
    fix n assume n: "n < LENGTH(32)"
    consider "n < 7" | "n = 7" | "8 \<le> n" by linarith
    then show "bit (?a OR ?b OR ?c) n = bit mid n"
      unfolding bit_or_iff b unfolding m using n
      by cases (auto simp: bit_simps dest: msgid_bits [OF assms])
  qed
qed

interpretation msgid_v2: msgid_api 10 "\<lambda>i. i < 2 \<or> i = 7" CFE_MSG_GetMsgId_v2 CFE_MSG_SetMsgId_v2
proof unfold_locales
  fix m :: message and mid :: CFE_SB_MsgId and x
  assume len: "10 \<le> length m" and mid: "mid \<le> 0x1FFF"
  define t where "t = (if mid AND 0x80 \<noteq> 0 then CFE_MSG_Type_Cmd else CFE_MSG_Type_Tlm)"
  define m1 where "m1 = m[1 := ucast ((ucast (m ! 1) AND NOT 0x7F) OR (mid AND 0x7F)),
                          7 := ucast (drop_bit 8 (mid AND 0xFF00))]"
  have t: "t \<noteq> CFE_MSG_Type_Invalid" by (simp add: t_def)
  obtain m' where m': "CFE_MSG_SetType (Some m1) t = (CFE_SUCCESS, Some m')" "length m' = length m1"
      "pri_type (abs_pri m') = t" "\<forall>i. i \<noteq> 0 \<longrightarrow> m' ! i = m1 ! i"
    using SetType_bytes [of m1 t] len t by (auto simp: m1_def)
  have "CFE_MSG_SetMsgId_v2 (Some m) mid = (CFE_SUCCESS, Some m')"
    using mid m'(1) by (simp add: CFE_MSG_SetMsgId_v2_def m1_def t_def Let_def not_less)
  moreover have "CFE_MSG_GetMsgId_v2 (Some m') (Some x) = (CFE_SUCCESS, Some mid)"
    using m'(3,4) msgid_v2_join [OF mid, of "m ! 1"] len
    by (auto simp: CFE_MSG_GetMsgId_v2_def pri_getters_abs m1_def t_def or.assoc split: if_splits)
  ultimately show "\<exists>m'. CFE_MSG_SetMsgId_v2 (Some m) mid = (CFE_SUCCESS, Some m') \<and> length m' = length m \<and>
      CFE_MSG_GetMsgId_v2 (Some m') (Some x) = (CFE_SUCCESS, Some mid) \<and>
      (\<forall>i. \<not> (i < 2 \<or> i = 7) \<longrightarrow> m' ! i = m ! i)"
    using m'(2,4) by (auto simp: m1_def)
qed (auto simp: CFE_MSG_SetMsgId_v2_def CFE_MSG_GetMsgId_v2_def CFE_MSG_GetType_def not_less)

section \<open>Message ids and initialization in every configuration\<close>

text \<open>The header bytes that hold the message id, per configuration.\<close>

definition msgid_byte :: "CFE_MSG_Config \<Rightarrow> nat \<Rightarrow> bool" where
  "msgid_byte cfg i \<longleftrightarrow> i < 2 \<or> (cfg = MSG_PRIEXT_V2 \<and> i = 7)"

interpretation msgid: msgid_api "sizeof_Message cfg" "msgid_byte cfg"
  "CFE_MSG_GetMsgId cfg" "CFE_MSG_SetMsgId cfg" for cfg
proof (cases "cfg = MSG_PRIEXT_V2")
  case True
  then show "msgid_api (sizeof_Message cfg) (msgid_byte cfg) (CFE_MSG_GetMsgId cfg) (CFE_MSG_SetMsgId cfg)"
    using msgid_v2.msgid_api_axioms
    by (simp add: CFE_MSG_GetMsgId_def CFE_MSG_SetMsgId_def msgid_byte_def [abs_def])
next
  case False
  then show "msgid_api (sizeof_Message cfg) (msgid_byte cfg) (CFE_MSG_GetMsgId cfg) (CFE_MSG_SetMsgId cfg)"
    using msgid_v1_api [OF sizeof_Message_ge]
    by (simp add: CFE_MSG_GetMsgId_def CFE_MSG_SetMsgId_def msgid_byte_def [abs_def])
qed

text \<open>
  C33. Message ids: in every header configuration, setting an id that is at most the highest
  valid one succeeds, reads back as that id and changes no byte but those that hold the id;
  any larger id is refused and the message is unchanged.
\<close>

theorem msgid_roundtrip:
  assumes "sizeof_Message cfg \<le> length m"
  shows "if mid \<le> CFE_PLATFORM_SB_HIGHEST_VALID_MSGID
         then \<exists>m'. CFE_MSG_SetMsgId cfg (Some m) mid = (CFE_SUCCESS, Some m') \<and>
                length m' = length m \<and>
                CFE_MSG_GetMsgId cfg (Some m') (Some x) = (CFE_SUCCESS, Some mid) \<and>
                (\<forall>i. \<not> msgid_byte cfg i \<longrightarrow> m' ! i = m ! i)
         else CFE_MSG_SetMsgId cfg (Some m) mid = (CFE_MSG_BAD_ARGUMENT, Some m)"
  using msgid.set_valid [OF assms] msgid.set_invalid by (simp add: not_le)

theorem msgid_roundtrip_witness:
  "\<exists>m'. CFE_MSG_SetMsgId MSG_PRIEXT_V2 (Some (replicate 12 0xA5)) 0x1234 = (CFE_SUCCESS, Some m') \<and>
     CFE_MSG_GetMsgId MSG_PRIEXT_V2 (Some m') (Some 0) = (CFE_SUCCESS, Some 0x1234)"
  using msgid_roundtrip [of MSG_PRIEXT_V2 "replicate 12 0xA5" "0x1234" 0] by auto

lemma length_memset_zero [simp]: "length (memset_zero m n) = length m"
  by (simp add: memset_zero_def)

lemma nth_memset_zero:
  "i < length m \<Longrightarrow> memset_zero m n ! i = (if i < n then 0 else m ! i)"
  by (simp add: memset_zero_def nth_append)

lemma pri_updated_trans:
  "pri_updated m f m' \<Longrightarrow> pri_updated m' g m'' \<Longrightarrow> pri_updated m (\<lambda>r. g (f r)) m''"
  by (simp add: pri_updated_def)

lemma ext_updated_trans:
  "ext_updated m f m' \<Longrightarrow> ext_updated m' g m'' \<Longrightarrow> ext_updated m (\<lambda>r. g (f r)) m''"
  by (simp add: ext_updated_def)

lemma SetDefaultCCSDSPri_ok:
  assumes "6 \<le> length m"
  shows "\<exists>m'. CFE_MSG_SetDefaultCCSDSPri (Some m) = Some m' \<and>
           pri_updated m (\<lambda>r. r\<lparr>pri_shdr := True, pri_version := 0, pri_apid := 0,
             pri_segflag := CFE_MSG_SegFlag_Unsegmented\<rparr>) m'"
proof -
  obtain m1 where m1: "CFE_MSG_SetHasSecondaryHeader (Some m) True = (CFE_SUCCESS, Some m1)"
      "pri_updated m (pri_shdr_update (\<lambda>_. True)) m1"
    using SetHasSecondaryHeader_ok [OF assms, of True] by (auto simp: sets_pri_def)
  obtain m2 where m2: "CFE_MSG_SetHeaderVersion (Some m1) 0 = (CFE_SUCCESS, Some m2)"
      "pri_updated m1 (pri_version_update (\<lambda>_. 0)) m2"
    using SetHeaderVersion_ok [of m1 0] m1(2) assms by (auto simp: sets_pri_def pri_updated_def)
  obtain m3 where m3: "CFE_MSG_SetApId (Some m2) 0 = (CFE_SUCCESS, Some m3)"
      "pri_updated m2 (pri_apid_update (\<lambda>_. 0)) m3"
    using SetApId_ok [of m2 0] m1(2) m2(2) assms by (auto simp: sets_pri_def pri_updated_def)
  obtain m4 where m4: "CFE_MSG_SetSegmentationFlag (Some m3) CFE_MSG_SegFlag_Unsegmented = (CFE_SUCCESS, Some m4)"
      "pri_updated m3 (pri_segflag_update (\<lambda>_. CFE_MSG_SegFlag_Unsegmented)) m4"
    using SetSegmentationFlag_ok [of m3 CFE_MSG_SegFlag_Unsegmented] m1(2) m2(2) m3(2) assms
    by (auto simp: sets_pri_def pri_updated_def)
  show ?thesis
    using m1 m2 m3 m4 by (simp add: CFE_MSG_SetDefaultCCSDSPri_def Let_def pri_updated_def)
qed

lemma SetDefaultCCSDSExt_ok:
  assumes "10 \<le> length m"
  shows "\<exists>m'. CFE_MSG_SetDefaultCCSDSExt P (Some m) = Some m' \<and>
           ext_updated m (\<lambda>r. r\<lparr>ext_edsver := 1, ext_subsys := 0,
             ext_endian := if platform_little_endian P then CFE_MSG_Endian_Little else CFE_MSG_Endian_Big,
             ext_system := ucast (platform_spacecraft_id P)\<rparr>) m'"
proof -
  define e where "e = (if platform_little_endian P then CFE_MSG_Endian_Little else CFE_MSG_Endian_Big)"
  have e: "e \<noteq> CFE_MSG_Endian_Invalid" by (simp add: e_def)
  obtain m1 where m1: "CFE_MSG_SetEDSVersion (Some m) 1 = (CFE_SUCCESS, Some m1)"
      "ext_updated m (ext_edsver_update (\<lambda>_. 1)) m1"
    using SetEDSVersion_ok [OF assms, of 1] by (auto simp: sets_ext_def)
  obtain m2 where m2: "CFE_MSG_SetEndian (Some m1) e = (CFE_SUCCESS, Some m2)"
      "ext_updated m1 (ext_endian_update (\<lambda>_. e)) m2"
    using SetEndian_ok [OF _ e, of m1] m1(2) assms by (auto simp: sets_ext_def ext_updated_def)
  obtain m3 where m3: "CFE_MSG_SetSubsystem (Some m2) 0 = (CFE_SUCCESS, Some m3)"
      "ext_updated m2 (ext_subsys_update (\<lambda>_. 0)) m3"
    using SetSubsystem_ok [of m2 0] m1(2) m2(2) assms by (auto simp: sets_ext_def ext_updated_def)
  obtain m4 where m4: "CFE_MSG_SetSystem (Some m3) (ucast (platform_spacecraft_id P)) = (CFE_SUCCESS, Some m4)"
      "ext_updated m3 (ext_system_update (\<lambda>_. ucast (platform_spacecraft_id P))) m4"
    using SetSystem_ok [of m3 "ucast (platform_spacecraft_id P)"] m1(2) m2(2) m3(2) assms
    by (auto simp: sets_ext_def ext_updated_def)
  show ?thesis
    using m1 m2 m3 m4
    by (simp add: CFE_MSG_SetDefaultCCSDSExt_def Let_def ext_updated_def e_def [symmetric])
qed

text \<open>What the default header leaves in a message, before the id and the size are written.\<close>

lemma abs_ext_cong: "(\<And>i. 6 \<le> i \<Longrightarrow> i < 10 \<Longrightarrow> m' ! i = m ! i) \<Longrightarrow> abs_ext m' = abs_ext m"
  by (simp add: abs_ext_def hword_def)

lemma nth_drop_eqI: "drop n m' = drop n m \<Longrightarrow> length m' = length m \<Longrightarrow> n \<le> i \<Longrightarrow> i < length m \<Longrightarrow> m' ! i = m ! i"
  using nth_drop [of n m' "i - n"] nth_drop [of n m "i - n"] by simp

lemma InitDefaultHdr_ok:
  assumes "sizeof_Message cfg \<le> length m"
  shows "\<exists>m'. CFE_MSG_InitDefaultHdr cfg P (Some m) = Some m' \<and> length m' = length m \<and>
           drop (sizeof_Message cfg) m' = drop (sizeof_Message cfg) m \<and>
           pri_segflag (abs_pri m') = CFE_MSG_SegFlag_Unsegmented \<and>
           pri_seqcnt (abs_pri m') = pri_seqcnt (abs_pri m) \<and>
           (cfg \<noteq> MSG_PRI_V1 \<longrightarrow> ext_system (abs_ext m') = ucast (platform_spacecraft_id P))"
proof -
  obtain m1 where m1: "CFE_MSG_SetDefaultCCSDSPri (Some m) = Some m1"
     "pri_updated m (\<lambda>r. r\<lparr>pri_shdr := True, pri_version := 0, pri_apid := 0,
             pri_segflag := CFE_MSG_SegFlag_Unsegmented\<rparr>) m1"
    using SetDefaultCCSDSPri_ok [of m] assms sizeof_Message_ge [of cfg] by auto
  show ?thesis
  proof (cases "cfg = MSG_PRI_V1")
    case True
    with m1 show ?thesis by (simp add: CFE_MSG_InitDefaultHdr_def pri_updated_def)
  next
    case False
    then have sz: "sizeof_Message cfg = 10" by (cases cfg) simp_all
    obtain m2 where m2: "CFE_MSG_SetDefaultCCSDSExt P (Some m1) = Some m2"
      "ext_updated m1 (\<lambda>r. r\<lparr>ext_edsver := 1, ext_subsys := 0,
             ext_endian := if platform_little_endian P then CFE_MSG_Endian_Little else CFE_MSG_Endian_Big,
             ext_system := ucast (platform_spacecraft_id P)\<rparr>) m2"
      using SetDefaultCCSDSExt_ok [of m1 P] assms m1(2) sz by (auto simp: pri_updated_def)
    have "take 6 m2 = take 6 m1" using m2(2) by (simp add: ext_updated_def)
    then have "abs_pri m2 = abs_pri m1"
      by (intro abs_pri_cong) (metis nth_take)
    moreover have "drop 10 m1 = drop 10 m"
      using m1(2) drop_drop [of 4 6 m1] drop_drop [of 4 6 m] by (simp add: pri_updated_def)
    ultimately show ?thesis
      using False m1 m2 sz by (simp add: CFE_MSG_InitDefaultHdr_def pri_updated_def ext_updated_def)
  qed
qed

text \<open>
  \<open>CFE_MSG_Init\<close>: with a valid id and a representable size that covers the header and
  fits the storage, it succeeds in every header configuration; the message then has that id
  and that size, is an unsegmented packet with sequence count zero, carries the spacecraft id
  when the header is extended, has an all-zero payload, and the storage past it is untouched.
\<close>

theorem msg_init_establishes:
  assumes "Size \<le> length m" and "sizeof_Message cfg \<le> Size" and "7 \<le> Size" and "Size \<le> 0xFFFF + 7"
    and "mid \<le> CFE_PLATFORM_SB_HIGHEST_VALID_MSGID"
  shows "\<exists>m'. CFE_MSG_Init cfg P (Some m) mid Size = (CFE_SUCCESS, Some m') \<and> length m' = length m \<and>
           CFE_MSG_GetMsgId cfg (Some m') (Some x) = (CFE_SUCCESS, Some mid) \<and>
           CFE_MSG_GetSize (Some m') (Some n) = (CFE_SUCCESS, Some Size) \<and>
           CFE_MSG_GetSequenceCount (Some m') (Some c) = (CFE_SUCCESS, Some 0) \<and>
           CFE_MSG_GetSegmentationFlag (Some m') (Some f) = (CFE_SUCCESS, Some CFE_MSG_SegFlag_Unsegmented) \<and>
           (cfg \<noteq> MSG_PRI_V1 \<longrightarrow>
              CFE_MSG_GetSystem (Some m') (Some y) = (CFE_SUCCESS, Some (ucast (platform_spacecraft_id P)))) \<and>
           (\<forall>i < length m. sizeof_Message cfg \<le> i \<longrightarrow> m' ! i = (if i < Size then 0 else m ! i))"
proof -
  let ?z = "memset_zero m Size"
  have sz6: "6 \<le> sizeof_Message cfg" by (rule sizeof_Message_ge)
  obtain d where d: "CFE_MSG_InitDefaultHdr cfg P (Some ?z) = Some d" "length d = length m"
      "drop (sizeof_Message cfg) d = drop (sizeof_Message cfg) ?z"
      "pri_segflag (abs_pri d) = CFE_MSG_SegFlag_Unsegmented"
      "pri_seqcnt (abs_pri d) = pri_seqcnt (abs_pri ?z)"
      "cfg \<noteq> MSG_PRI_V1 \<longrightarrow> ext_system (abs_ext d) = ucast (platform_spacecraft_id P)"
    using InitDefaultHdr_ok [of cfg ?z P] assms(1,2) by auto
  obtain m1 m' where m': "CFE_MSG_SetMsgId cfg (Some d) mid = (CFE_SUCCESS, Some m1)"
      "CFE_MSG_SetSize (Some m1) Size = (CFE_SUCCESS, Some m')" "length m' = length d"
      "CFE_MSG_GetMsgId cfg (Some m') (Some x) = (CFE_SUCCESS, Some mid)" "pri_size (abs_pri m') = Size"
      "\<forall>i. \<not> msgid_byte cfg i \<and> i \<noteq> 4 \<and> i \<noteq> 5 \<longrightarrow> m' ! i = d ! i"
    using msgid.set_id_then_size [of cfg d mid Size x] d(2) assms by auto
  have init: "CFE_MSG_Init cfg P (Some m) mid Size = (CFE_SUCCESS, Some m')"
    using d(1) m'(1,2) by (simp add: CFE_MSG_Init_def)
  have w2: "hword m' 2 = hword d 2" and w8: "hword m' 8 = hword d 8"
    using m'(6) by (simp_all add: hword_def msgid_byte_def)
  have "pri_seqcnt (abs_pri ?z) = 0"
    using assms(1,3) by (simp add: abs_pri_def hword_def nth_memset_zero be16_def)
  then have "pri_seqcnt (abs_pri m') = 0" "pri_segflag (abs_pri m') = CFE_MSG_SegFlag_Unsegmented"
    using w2 d(4,5) by (simp_all add: abs_pri_def)
  moreover have "cfg \<noteq> MSG_PRI_V1 \<longrightarrow> ext_system (abs_ext m') = ucast (platform_spacecraft_id P)"
    using w8 d(6) by (simp add: abs_ext_def)
  moreover have "\<forall>i < length m. sizeof_Message cfg \<le> i \<longrightarrow> m' ! i = (if i < Size then 0 else m ! i)"
  proof (intro allI impI)
    fix i assume i: "i < length m" "sizeof_Message cfg \<le> i"
    have "\<not> msgid_byte cfg i" using i(2) msgid.own [of cfg i] sz6 by auto
    then have "m' ! i = d ! i" using m'(6) i(2) sz6 by simp
    also have "\<dots> = ?z ! i" using nth_drop_eqI [OF d(3)] d(2) i by simp
    finally show "m' ! i = (if i < Size then 0 else m ! i)" using i(1) by (simp add: nth_memset_zero)
  qed
  ultimately show ?thesis
    using init m' d(2) by (simp add: pri_getters_abs ext_getters_abs)
qed

theorem msg_init_establishes_witness:
  "\<exists>m'. CFE_MSG_Init MSG_PRIEXT_V1 \<lparr>platform_little_endian = True, platform_spacecraft_id = 0x42\<rparr>
            (Some (replicate 20 0xEE)) 0x1806 16 = (CFE_SUCCESS, Some m') \<and>
     CFE_MSG_GetMsgId MSG_PRIEXT_V1 (Some m') (Some 0) = (CFE_SUCCESS, Some 0x1806) \<and>
     CFE_MSG_GetSize (Some m') (Some 0) = (CFE_SUCCESS, Some 16)"
  using msg_init_establishes [of 16 "replicate 20 0xEE" MSG_PRIEXT_V1 "0x1806"
      "\<lparr>platform_little_endian = True, platform_spacecraft_id = 0x42\<rparr>" 0 0 0 CFE_MSG_SegFlag_First 0]
  by auto

text \<open>
  The type of a message id.  For a valid id the answer of \<open>CFE_MSG_GetTypeFromMsgId\<close> is a
  function of the id: bit 12 (version 1 ids) or bit 7 (version 2 ids) marks a command.
\<close>

definition msgid_is_cmd :: "CFE_MSG_Config \<Rightarrow> CFE_SB_MsgId \<Rightarrow> bool" where
  "msgid_is_cmd cfg mid \<longleftrightarrow> (if cfg = MSG_PRIEXT_V2 then bit mid 7 else bit mid 12)"

lemma hword0_type: "pri_type (abs_pri m) = (if bit (m ! 0) 4 then CFE_MSG_Type_Cmd else CFE_MSG_Type_Tlm)"
proof -
  have "m ! 0 AND 0x10 = 0 \<longleftrightarrow> \<not> bit (m ! 0) 4"
    using and_exp_eq_0_iff_not_bit [of "m ! 0" 4] by simp
  then show ?thesis
    by (simp add: abs_pri_def flag_dec_def type_flag_hword)
qed

lemma SetMsgId_type:
  assumes "6 \<le> length m" and "mid \<le> 0x1FFF"
  shows "\<exists>m'. CFE_MSG_SetMsgId cfg (Some m) mid = (CFE_SUCCESS, Some m') \<and>
           pri_type (abs_pri m') = (if msgid_is_cmd cfg mid then CFE_MSG_Type_Cmd else CFE_MSG_Type_Tlm)"
proof (cases "cfg = MSG_PRIEXT_V2")
  case True
  let ?t = "if mid AND 0x80 \<noteq> 0 then CFE_MSG_Type_Cmd else CFE_MSG_Type_Tlm"
  let ?m = "m[1 := ucast ((ucast (m ! 1) AND NOT 0x7F) OR (mid AND 0x7F)),
              7 := ucast (drop_bit 8 (mid AND 0xFF00))]"
  have "mid AND 0x80 = 0 \<longleftrightarrow> \<not> bit mid 7"
    using and_exp_eq_0_iff_not_bit [of mid 7] by simp
  moreover obtain m' where "CFE_MSG_SetType (Some ?m) ?t = (CFE_SUCCESS, Some m')" "pri_type (abs_pri m') = ?t"
    using SetType_bytes [of ?m ?t] assms(1) by (cases "mid AND 0x80 = 0") auto
  ultimately show ?thesis
    using True assms(2)
    by (cases "bit mid 7")
       (simp_all add: CFE_MSG_SetMsgId_def CFE_MSG_SetMsgId_v2_def msgid_is_cmd_def Let_def not_less)
next
  case False
  have "m \<noteq> []" using assms(1) by auto
  with False assms(2) show ?thesis
    by (simp add: CFE_MSG_SetMsgId_def CFE_MSG_SetMsgId_v1_def msgid_is_cmd_def hword0_type
        bit_simps not_less)
qed

text \<open>
  \<open>CFE_MSG_GetTypeFromMsgId\<close> on a valid id: whatever the uninitialized local message held,
  the answer is command or telemetry according to the type bit of the id alone.
\<close>

theorem type_from_valid_msgid:
  assumes "sizeof_Message cfg \<le> length msg" and "mid \<le> CFE_PLATFORM_SB_HIGHEST_VALID_MSGID"
  shows "CFE_MSG_GetTypeFromMsgId cfg msg mid (Some t) =
           (CFE_SUCCESS, Some (if msgid_is_cmd cfg mid then CFE_MSG_Type_Cmd else CFE_MSG_Type_Tlm))"
proof -
  have "6 \<le> length msg" using assms(1) sizeof_Message_ge [of cfg] by simp
  from SetMsgId_type [OF this assms(2), of cfg] show ?thesis
    by (auto simp: CFE_MSG_GetTypeFromMsgId_def pri_getters_abs)
qed

theorem type_from_valid_msgid_witness:
  "CFE_MSG_GetTypeFromMsgId MSG_PRI_V1 [0xFF, 1, 2, 3, 4, 5] 0x0806 (Some CFE_MSG_Type_Invalid) =
     (CFE_SUCCESS, Some CFE_MSG_Type_Tlm)"
  using type_from_valid_msgid [of MSG_PRI_V1 "[0xFF, 1, 2, 3, 4, 5]" "0x0806" CFE_MSG_Type_Invalid]
  by (simp add: msgid_is_cmd_def)

text \<open>
  \<open>CFE_MSG_GetTypeFromMsgId\<close> on an id above the highest valid one: the failure of
  \<open>CFE_MSG_SetMsgId\<close> is ignored, so the function reports success and delivers the type bit of
  its uninitialized local message: for two stack contents that differ in that bit the same id
  gets two different types.
\<close>

theorem type_from_invalid_msgid_is_garbage:
  assumes "CFE_PLATFORM_SB_HIGHEST_VALID_MSGID < mid"
  shows "CFE_MSG_GetTypeFromMsgId cfg msg mid (Some t) =
           (CFE_SUCCESS, Some (if bit (msg ! 0) 4 then CFE_MSG_Type_Cmd else CFE_MSG_Type_Tlm))"
  using msgid.set_invalid [OF assms, of cfg msg]
  by (simp add: CFE_MSG_GetTypeFromMsgId_def pri_getters_abs hword0_type)

theorem type_from_invalid_msgid_is_garbage_witness:
  "CFE_MSG_GetTypeFromMsgId MSG_PRI_V1 [0x18, 0, 0, 0, 0, 0] 0x2000 (Some CFE_MSG_Type_Invalid) =
     (CFE_SUCCESS, Some CFE_MSG_Type_Cmd) \<and>
   CFE_MSG_GetTypeFromMsgId MSG_PRI_V1 [0x08, 0, 0, 0, 0, 0] 0x2000 (Some CFE_MSG_Type_Invalid) =
     (CFE_SUCCESS, Some CFE_MSG_Type_Tlm)"
  using type_from_invalid_msgid_is_garbage [of "0x2000" MSG_PRI_V1 "[0x18, 0, 0, 0, 0, 0]" CFE_MSG_Type_Invalid]
    type_from_invalid_msgid_is_garbage [of "0x2000" MSG_PRI_V1 "[0x08, 0, 0, 0, 0, 0]" CFE_MSG_Type_Invalid]
  by simp

end
