(* ===== verification/CFE_ResourceId.thy ===== *)
theory CFE_ResourceId
  imports CFS_Prelude
begin

unbundle bit_operations_syntax

text \<open>
  The resource id module (\<^verbatim>\<open>src/cfe/modules/resourceid\<close>): ids that carry a type in their
  upper half and a serial number in their lower half, the map from ids to table slots, and
  the search for the next id whose slot is free.

  \<open>CFE_ResourceId_t\<close> is a \<open>uint32\<close>, wrapped in a struct in the strict build; wrapping does
  not change the value, so an id is its value here.  The locale \<open>resource_table\<close> is what a
  table indexed by resource ids must promise to \<open>CFE_ResourceId_FindNext\<close>.
\<close>

type_synonym CFE_ResourceId = u32

abbreviation (input) CFE_RESOURCEID_UNDEFINED :: CFE_ResourceId where "CFE_RESOURCEID_UNDEFINED \<equiv> 0"
abbreviation (input) CFE_RESOURCEID_RESERVED :: CFE_ResourceId where "CFE_RESOURCEID_RESERVED \<equiv> 0xFFFFFFFF"
abbreviation (input) CFE_RESOURCEID_MAX :: u32 where "CFE_RESOURCEID_MAX \<equiv> 0xFFFF"

definition CFE_ResourceId_GetBase :: "CFE_ResourceId \<Rightarrow> u32" where
  "CFE_ResourceId_GetBase ResourceId = ResourceId AND NOT CFE_RESOURCEID_MAX"

definition CFE_ResourceId_GetSerial :: "CFE_ResourceId \<Rightarrow> u32" where
  "CFE_ResourceId_GetSerial ResourceId = ResourceId AND CFE_RESOURCEID_MAX"

definition CFE_ResourceId_ToIndex ::
  "CFE_ResourceId \<Rightarrow> u32 \<Rightarrow> u32 \<Rightarrow> u32 ptr \<Rightarrow> int32 \<times> u32 ptr" where
  "CFE_ResourceId_ToIndex ResId BaseValue TableSize Idx =
     (case Idx of
        None \<Rightarrow> (CFE_ES_ERR_BUFFER, Idx)
      | Some _ \<Rightarrow>
          (let Serial = ResId - BaseValue in
           if Serial > CFE_RESOURCEID_MAX \<or> TableSize = 0
           then (CFE_ES_ERR_RESOURCEID_NOT_VALID, Idx)
           else (CFE_SUCCESS, Some (Serial mod TableSize))))"

text \<open>The body of the search loop; \<open>Count\<close> is the number of probes left.\<close>

fun FindNext_loop :: "nat \<Rightarrow> u32 \<Rightarrow> u32 \<Rightarrow> u32 \<Rightarrow> (CFE_ResourceId \<Rightarrow> bool) \<Rightarrow> CFE_ResourceId" where
  "FindNext_loop 0 Serial ResourceType TableSize CheckFunc = CFE_RESOURCEID_UNDEFINED"
| "FindNext_loop (Suc Count) Serial ResourceType TableSize CheckFunc =
     (let Serial = Serial + 1;
          Serial = (if Serial \<ge> CFE_RESOURCEID_MAX then Serial mod TableSize else Serial);
          CheckId = ResourceType + Serial
      in if CheckFunc CheckId then FindNext_loop Count Serial ResourceType TableSize CheckFunc
         else CheckId)"

definition CFE_ResourceId_FindNext ::
  "CFE_ResourceId \<Rightarrow> u32 \<Rightarrow> (CFE_ResourceId \<Rightarrow> bool) \<Rightarrow> CFE_ResourceId" where
  "CFE_ResourceId_FindNext StartId TableSize CheckFunc =
     FindNext_loop (unat TableSize) (CFE_ResourceId_GetSerial StartId)
       (CFE_ResourceId_GetBase StartId) TableSize CheckFunc"

text \<open>The index of an application, as executive services computes it from its id (\<^verbatim>\<open>cfe_es_api.c\<close>).\<close>

abbreviation (input) CFE_ES_APPID_BASE :: u32 where "CFE_ES_APPID_BASE \<equiv> 0x110000"
abbreviation (input) CFE_PLATFORM_ES_MAX_APPLICATIONS :: u32 where "CFE_PLATFORM_ES_MAX_APPLICATIONS \<equiv> 32"

definition CFE_ES_AppID_ToIndex :: "CFE_ResourceId \<Rightarrow> u32 ptr \<Rightarrow> int32 \<times> u32 ptr" where
  "CFE_ES_AppID_ToIndex AppID Idx = CFE_ResourceId_ToIndex AppID CFE_ES_APPID_BASE CFE_PLATFORM_ES_MAX_APPLICATIONS Idx"

section \<open>Base and serial\<close>

lemma base_serial_split: "CFE_ResourceId_GetBase i + CFE_ResourceId_GetSerial i = i"
proof -
  have m: "(0xFFFF :: u32) = mask 16" by (simp add: mask_eq_exp_minus_1)
  have "(i AND NOT 0xFFFF) + (i AND 0xFFFF) = (i AND NOT 0xFFFF) OR (i AND 0xFFFF)"
    unfolding m by (rule disjunctive_add_eq_or, rule bit_word_eqI) (auto simp: bit_simps)
  also have "\<dots> = i" unfolding m by (rule bit_word_eqI) (auto simp: bit_simps)
  finally show ?thesis by (simp add: CFE_ResourceId_GetBase_def CFE_ResourceId_GetSerial_def)
qed

lemma serial_le: "unat (CFE_ResourceId_GetSerial i) \<le> 0xFFFF"
proof -
  have "i AND 0xFFFF \<le> (0xFFFF :: u32)" by (rule word_and_le1)
  then show ?thesis by (simp add: CFE_ResourceId_GetSerial_def word_le_nat_alt)
qed

lemma base_plus_serial:
  assumes "b AND 0xFFFF = (0 :: u32)" and "unat x \<le> 0xFFFF"
  shows "CFE_ResourceId_GetBase (b + x) = b" and "CFE_ResourceId_GetSerial (b + x) = x"
proof -
  have m: "(0xFFFF :: u32) = mask 16" by (simp add: mask_eq_exp_minus_1)
  have b: "\<not> (bit b n \<and> n < 16)" for n
    using arg_cong [OF assms(1), of "\<lambda>w. bit w n"] unfolding m
    by (auto simp: bit_simps dest: bit_imp_le_length)
  have "x AND mask 16 = x"
    using assms(2) by (intro less_mask_eq) (simp add: word_less_nat_alt)
  then have x: "bit x n \<Longrightarrow> n < 16" for n by (metis bit_and_iff bit_mask_iff)
  have s: "b + x = b OR x"
    by (rule disjunctive_add_eq_or, rule bit_word_eqI) (use b x in \<open>auto simp: bit_simps\<close>)
  show "CFE_ResourceId_GetBase (b + x) = b" and "CFE_ResourceId_GetSerial (b + x) = x"
    unfolding CFE_ResourceId_GetBase_def CFE_ResourceId_GetSerial_def s m
    by (rule bit_word_eqI; use b x in \<open>auto simp: bit_simps\<close>)+
qed

lemma ToIndex_base_plus:
  assumes "unat x \<le> 0xFFFF" and "T \<noteq> 0"
  shows "CFE_ResourceId_ToIndex (b + x) b T (Some i) = (CFE_SUCCESS, Some (x mod T))"
  using assms by (simp add: CFE_ResourceId_ToIndex_def Let_def word_less_nat_alt not_less)

section \<open>The search\<close>

text \<open>One probe: the next serial stays in range and moves to the next slot of the table.\<close>

definition next_serial :: "u32 \<Rightarrow> u32 \<Rightarrow> u32" where
  "next_serial T s = (if s + 1 \<ge> 0xFFFF then (s + 1) mod T else s + 1)"

lemma next_serial:
  assumes "unat s \<le> 0xFFFF" and "0 < T" and "T \<le> 0xFFFF"
  shows "unat (next_serial T s) < 0xFFFF"
    and "unat (next_serial T s) mod unat T = (unat s + 1) mod unat T"
proof -
  have T: "0 < unat T" "unat T \<le> 0xFFFF"
    using assms(2,3) by (simp_all add: word_less_nat_alt word_le_nat_alt)
  have s: "unat (s + 1) = unat s + 1"
    using assms(1) by (simp add: unat_word_ariths)
  have "unat ((s + 1) mod T) < unat T" using T by (simp add: unat_mod)
  with T show "unat (next_serial T s) < 0xFFFF"
    by (auto simp: next_serial_def word_le_nat_alt)
  show "unat (next_serial T s) mod unat T = (unat s + 1) mod unat T"
    using s by (simp add: next_serial_def unat_mod)
qed

text \<open>
  What a table must promise: a type base with a clear serial part, a size the serial numbers
  can count, and a slot check that depends on the slot of the id only.
\<close>

locale resource_table =
  fixes base :: u32 and T :: u32 and check :: "CFE_ResourceId \<Rightarrow> bool" and used :: "u32 \<Rightarrow> bool"
  assumes base_clear: "base AND 0xFFFF = 0" and base_nonzero: "base \<noteq> 0"
    and T_pos: "0 < T" and T_le: "T \<le> 0xFFFF"
    and check_slot: "CFE_ResourceId_ToIndex i base T (Some x) = (CFE_SUCCESS, Some idx) \<Longrightarrow> check i = used idx"
begin

definition slot :: "nat \<Rightarrow> u32" where
  "slot n = of_nat (n mod unat T)"

lemma slot_mod_cong: "a mod unat T = b mod unat T \<Longrightarrow> slot (a + c) = slot (b + c)"
  unfolding slot_def by (metis mod_add_left_eq)

lemma check_serial:
  assumes "unat x \<le> 0xFFFF"
  shows "check (base + x) = used (slot (unat x))"
proof -
  have "check (base + x) = used (x mod T)"
    using check_slot [of "base + x" 0 "x mod T"] ToIndex_base_plus [of x T base 0] assms T_pos
    by (metis less_irrefl)
  also have "x mod T = slot (unat x)"
    by (simp add: slot_def flip: unat_mod)
  finally show ?thesis .
qed

lemma FindNext_loop_step:
  "FindNext_loop (Suc n) s base T check =
     (if check (base + next_serial T s) then FindNext_loop n (next_serial T s) base T check
      else base + next_serial T s)"
  by (simp add: next_serial_def Let_def)

lemma check_next:
  assumes "unat s \<le> 0xFFFF"
  shows "check (base + next_serial T s) = used (slot (unat s + 1))"
  using check_serial [of "next_serial T s"] next_serial [OF assms T_pos T_le] by (simp add: slot_def)

lemma slot_next:
  assumes "unat s \<le> 0xFFFF"
  shows "slot (unat (next_serial T s) + c) = slot (unat s + 1 + c)"
  using next_serial(2) [OF assms T_pos T_le] by (rule slot_mod_cong)

lemma FindNext_loop_full:
  "unat s \<le> 0xFFFF \<Longrightarrow> (\<And>k. k < n \<Longrightarrow> used (slot (unat s + 1 + k))) \<Longrightarrow>
     FindNext_loop n s base T check = CFE_RESOURCEID_UNDEFINED"
proof (induction n arbitrary: s)
  case (Suc n)
  let ?s = "next_serial T s"
  have s': "unat ?s \<le> 0xFFFF" using next_serial(1) [OF Suc.prems(1) T_pos T_le] by simp
  have "FindNext_loop n ?s base T check = 0"
  proof (rule Suc.IH [OF s'])
    fix k assume "k < n"
    then show "used (slot (unat ?s + 1 + k))"
      using Suc.prems(2) [of "Suc k"] slot_next [OF Suc.prems(1), of "1 + k"] by (simp add: add.assoc)
  qed
  moreover have "check (base + ?s)"
    using Suc.prems(2) [of 0] by (simp add: check_next [OF Suc.prems(1)])
  ultimately show ?case by (simp only: FindNext_loop_step if_True)
qed simp

lemma FindNext_loop_found:
  "unat s \<le> 0xFFFF \<Longrightarrow> k < n \<Longrightarrow> \<not> used (slot (unat s + 1 + k)) \<Longrightarrow>
     (\<And>j. j < k \<Longrightarrow> used (slot (unat s + 1 + j))) \<Longrightarrow>
     \<exists>x. FindNext_loop n s base T check = base + x \<and> unat x < 0xFFFF \<and> slot (unat x) = slot (unat s + 1 + k)"
proof (induction n arbitrary: s k)
  case (Suc n)
  let ?s = "next_serial T s"
  have lt: "unat ?s < 0xFFFF" using next_serial(1) [OF Suc.prems(1) T_pos T_le] .
  show ?case
  proof (cases k)
    case 0
    then have "\<not> check (base + ?s)"
      using Suc.prems(3) by (simp add: check_next [OF Suc.prems(1)])
    moreover have "slot (unat ?s) = slot (unat s + 1 + k)"
      using slot_next [OF Suc.prems(1), of 0] 0 by simp
    ultimately show ?thesis using lt by (auto simp only: FindNext_loop_step if_False)
  next
    case (Suc k')
    have sh: "slot (unat ?s + 1 + j) = slot (unat s + 1 + Suc j)" for j
      using slot_next [OF Suc.prems(1), of "1 + j"] by (simp add: add.assoc)
    have "check (base + ?s)"
      using Suc.prems(4) [of 0] Suc by (simp add: check_next [OF Suc.prems(1)])
    then have "FindNext_loop (Suc n) s base T check = FindNext_loop n ?s base T check"
      by (simp only: FindNext_loop_step if_True)
    moreover have "\<exists>x. FindNext_loop n ?s base T check = base + x \<and> unat x < 0xFFFF \<and>
        slot (unat x) = slot (unat ?s + 1 + k')"
    proof (rule Suc.IH)
      show "k' < n" using Suc.prems(2) Suc by simp
      show "\<not> used (slot (unat ?s + 1 + k'))" using Suc.prems(3) Suc sh by simp
      show "used (slot (unat ?s + 1 + j))" if "j < k'" for j
        using Suc.prems(4) [of "Suc j"] Suc sh that by simp
    qed (use lt in simp)
    ultimately show ?thesis using Suc sh by simp
  qed
qed simp

lemma slot_lt: "slot n < T"
proof -
  have "n mod unat T < unat T" using T_pos by (simp add: word_less_nat_alt)
  moreover from this have "n mod unat T < 2 ^ 32" using unsigned_less [where 'a = nat, of T] by simp
  ultimately show ?thesis by (simp add: slot_def word_less_nat_alt unat_of_nat)
qed

lemma slot_surj:
  assumes "i < T"
  shows "\<exists>k < unat T. slot (a + k) = i"
proof -
  define t where "t = unat T"
  have t: "0 < t" "unat i < t" using assms T_pos by (simp_all add: t_def word_less_nat_alt)
  define k where "k = (unat i + (t - a mod t)) mod t"
  have "(a + k) mod t = (a mod t + (unat i + (t - a mod t))) mod t"
    unfolding k_def by (simp add: mod_add_eq mod_add_left_eq mod_add_right_eq)
  also have "a mod t + (unat i + (t - a mod t)) = unat i + t"
    using t(1) mod_less_divisor [of t a] by linarith
  finally have "slot (a + k) = i" using t by (simp add: slot_def t_def)
  moreover have "k < unat T" using t by (simp add: k_def t_def)
  ultimately show ?thesis by blast
qed

text \<open>The search finds the first free slot after the starting id, in cyclic order.\<close>

lemma FindNext_free:
  assumes "CFE_ResourceId_GetBase start = base" and "i < T" and "\<not> used i"
  defines "r \<equiv> CFE_ResourceId_FindNext start T check"
    and "s \<equiv> unat (CFE_ResourceId_GetSerial start) + 1"
  shows "\<exists>k < unat T. \<not> used (slot (s + k)) \<and> (\<forall>j < k. used (slot (s + j))) \<and>
           CFE_ResourceId_GetBase r = base \<and> CFE_ResourceId_GetSerial r < 0xFFFF \<and>
           CFE_ResourceId_ToIndex r base T (Some y) = (CFE_SUCCESS, Some (slot (s + k)))"
proof -
  obtain k0 where k0: "k0 < unat T" "\<not> used (slot (s + k0))"
    using slot_surj [OF assms(2), of s] assms(3) by auto
  define k where "k = (LEAST k. \<not> used (slot (s + k)))"
  have k: "\<not> used (slot (s + k))" "k \<le> k0"
    unfolding k_def using k0(2) by (rule LeastI, rule Least_le)
  have before: "\<forall>j < k. used (slot (s + j))" unfolding k_def using not_less_Least by blast
  obtain x where x: "r = base + x" "unat x < 0xFFFF" "slot (unat x) = slot (s + k)"
    using FindNext_loop_found [of "CFE_ResourceId_GetSerial start" k "unat T"] serial_le [of start] k k0(1) before
    by (auto simp: r_def s_def CFE_ResourceId_FindNext_def assms(1))
  have "x mod T = slot (unat x)" by (simp add: slot_def flip: unat_mod)
  moreover have "T \<noteq> 0" using T_pos by auto
  ultimately have "CFE_ResourceId_ToIndex r base T (Some y) = (CFE_SUCCESS, Some (slot (s + k)))"
    using ToIndex_base_plus [of x T base y] x by simp
  moreover have "CFE_ResourceId_GetBase r = base" "CFE_ResourceId_GetSerial r < 0xFFFF"
    using base_plus_serial [OF base_clear, of x] x(1,2) by (simp_all add: word_less_nat_alt)
  ultimately show ?thesis using k k0(1) before by (intro exI [of _ k]) auto
qed

lemma FindNext_none:
  assumes "CFE_ResourceId_GetBase start = base" and "\<And>i. i < T \<Longrightarrow> used i"
  shows "CFE_ResourceId_FindNext start T check = CFE_RESOURCEID_UNDEFINED"
  unfolding CFE_ResourceId_FindNext_def assms(1)
  by (rule FindNext_loop_full [OF serial_le]) (rule assms(2) [OF slot_lt])

lemma FindNext_defined_iff:
  assumes "CFE_ResourceId_GetBase start = base"
  shows "CFE_ResourceId_FindNext start T check \<noteq> CFE_RESOURCEID_UNDEFINED \<longleftrightarrow> (\<exists>i < T. \<not> used i)"
proof
  assume "\<exists>i < T. \<not> used i"
  then obtain i where "i < T" "\<not> used i" by blast
  from FindNext_free [OF assms this] have "CFE_ResourceId_GetBase (CFE_ResourceId_FindNext start T check) = base"
    by blast
  then show "CFE_ResourceId_FindNext start T check \<noteq> CFE_RESOURCEID_UNDEFINED"
    using base_nonzero by (auto simp: CFE_ResourceId_GetBase_def)
next
  assume "CFE_ResourceId_FindNext start T check \<noteq> CFE_RESOURCEID_UNDEFINED"
  then show "\<exists>i < T. \<not> used i" using FindNext_none [OF assms] by blast
qed

end

end
