(* ===== verification/CFE_SBR.thy ===== *)
theory CFE_SBR
  imports CFE_SB_MsgId
begin

unbundle bit_operations_syntax

text \<open>
  The routing module (\<^verbatim>\<open>src/cfe/modules/sbr\<close>): the routing table of
  \<^verbatim>\<open>cfe_sbr_route_unsorted.c\<close> and the two maps from message ids to routes a build can
  select, \<^verbatim>\<open>cfe_sbr_map_direct.c\<close> and \<^verbatim>\<open>cfe_sbr_map_hash.c\<close>.

  The shared data \<open>CFE_SBR_RDATA\<close> and \<open>CFE_SBR_MSGMAP\<close> are one state record.  A destination
  list head is the address of a destination descriptor (or NULL).  The probing loops of the
  hash map have no bound in the code: here they are partial functions, \<open>None\<close> for a loop that
  does not end, and the contract \<open>route_map\<close> includes that they end.
\<close>

section \<open>State\<close>

abbreviation (input) CFE_PLATFORM_SB_MAX_MSG_IDS :: nat where "CFE_PLATFORM_SB_MAX_MSG_IDS \<equiv> 256"

type_synonym CFE_SBR_RouteId = u16

abbreviation (input) CFE_SBR_INVALID_ROUTE_ID :: CFE_SBR_RouteId where "CFE_SBR_INVALID_ROUTE_ID \<equiv> 0"

definition CFE_SBR_IsValidRouteId :: "CFE_SBR_RouteId \<Rightarrow> bool" where
  "CFE_SBR_IsValidRouteId RouteId \<longleftrightarrow> RouteId \<noteq> 0 \<and> RouteId \<le> 256"

definition CFE_SBR_ValueToRouteId :: "u16 \<Rightarrow> CFE_SBR_RouteId" where
  "CFE_SBR_ValueToRouteId Value = 1 + Value"

definition CFE_SBR_RouteIdToValue :: "CFE_SBR_RouteId \<Rightarrow> u16" where
  "CFE_SBR_RouteIdToValue RouteId = RouteId - 1"

record CFE_SBR_RouteEntry =
  ListHeadPtr :: "nat ptr"
  RouteMsgId :: CFE_SB_MsgId
  SeqCnt :: u16

record CFE_SBR =
  RoutingTbl :: "CFE_SBR_RouteEntry list"
  RouteIdxTop :: u16
  MSGMAP :: "CFE_SBR_RouteId list"

datatype CFE_SBR_MapConfig = SBR_MAP_DIRECT | SBR_MAP_HASH

fun CFE_SBR_MSG_MAP_SIZE :: "CFE_SBR_MapConfig \<Rightarrow> nat" where
  "CFE_SBR_MSG_MAP_SIZE SBR_MAP_DIRECT = 0x1FFF + 1"
| "CFE_SBR_MSG_MAP_SIZE SBR_MAP_HASH = 4 * 256"

section \<open>The routing table\<close>

definition CFE_SBR_GetMsgId :: "CFE_SBR \<Rightarrow> CFE_SBR_RouteId \<Rightarrow> CFE_SB_MsgId" where
  "CFE_SBR_GetMsgId s RouteId =
     (if CFE_SBR_IsValidRouteId RouteId
      then RouteMsgId (RoutingTbl s ! unat (CFE_SBR_RouteIdToValue RouteId))
      else CFE_SB_INVALID_MSG_ID)"

definition CFE_SBR_GetDestListHeadPtr :: "CFE_SBR \<Rightarrow> CFE_SBR_RouteId \<Rightarrow> nat ptr" where
  "CFE_SBR_GetDestListHeadPtr s RouteId =
     (if CFE_SBR_IsValidRouteId RouteId
      then ListHeadPtr (RoutingTbl s ! unat (CFE_SBR_RouteIdToValue RouteId))
      else NULL)"

text \<open>An update of the table entry of a route.\<close>

definition upd_route :: "CFE_SBR_RouteId \<Rightarrow> (CFE_SBR_RouteEntry \<Rightarrow> CFE_SBR_RouteEntry) \<Rightarrow> CFE_SBR \<Rightarrow> CFE_SBR" where
  "upd_route RouteId f s =
     (let i = unat (CFE_SBR_RouteIdToValue RouteId)
      in s\<lparr>RoutingTbl := (RoutingTbl s)[i := f (RoutingTbl s ! i)]\<rparr>)"

definition CFE_SBR_SetDestListHeadPtr :: "CFE_SBR \<Rightarrow> CFE_SBR_RouteId \<Rightarrow> nat ptr \<Rightarrow> CFE_SBR" where
  "CFE_SBR_SetDestListHeadPtr s RouteId DestPtr =
     (if CFE_SBR_IsValidRouteId RouteId then upd_route RouteId (ListHeadPtr_update (\<lambda>_. DestPtr)) s else s)"

definition CFE_SBR_IncrementSequenceCounter :: "CFE_SBR \<Rightarrow> CFE_SBR_RouteId \<Rightarrow> CFE_SBR" where
  "CFE_SBR_IncrementSequenceCounter s RouteId =
     (if CFE_SBR_IsValidRouteId RouteId then upd_route RouteId (SeqCnt_update (\<lambda>c. c + 1)) s else s)"

definition CFE_SBR_GetSequenceCounter :: "CFE_SBR \<Rightarrow> CFE_SBR_RouteId \<Rightarrow> u16" where
  "CFE_SBR_GetSequenceCounter s RouteId =
     (if CFE_SBR_IsValidRouteId RouteId
      then SeqCnt (RoutingTbl s ! unat (CFE_SBR_RouteIdToValue RouteId))
      else 0)"

section \<open>The direct map\<close>

definition CFE_SBR_SetRouteId_direct :: "CFE_SBR \<Rightarrow> CFE_SB_MsgId \<Rightarrow> CFE_SBR_RouteId \<Rightarrow> CFE_SBR \<times> u32" where
  "CFE_SBR_SetRouteId_direct s MsgId RouteId =
     (if CFE_SB_IsValidMsgId MsgId then (s\<lparr>MSGMAP := (MSGMAP s)[unat MsgId := RouteId]\<rparr>, 0) else (s, 0))"

definition CFE_SBR_GetRouteId_direct :: "CFE_SBR \<Rightarrow> CFE_SB_MsgId \<Rightarrow> CFE_SBR_RouteId" where
  "CFE_SBR_GetRouteId_direct s MsgId =
     (if CFE_SB_IsValidMsgId MsgId then MSGMAP s ! unat MsgId else CFE_SBR_INVALID_ROUTE_ID)"

section \<open>The hash map\<close>

abbreviation (input) CFE_SBR_HASH_MAGIC :: u32 where "CFE_SBR_HASH_MAGIC \<equiv> 0x45d9f3b"

definition CFE_SBR_MsgIdHash :: "CFE_SB_MsgId \<Rightarrow> u32" where
  "CFE_SBR_MsgIdHash MsgId =
     (let hash = MsgId;
          hash = (drop_bit 16 hash XOR hash) * CFE_SBR_HASH_MAGIC;
          hash = (drop_bit 16 hash XOR hash) * CFE_SBR_HASH_MAGIC;
          hash = drop_bit 16 hash XOR hash
      in hash AND (1024 - 1))"

partial_function (option) hash_open_slot :: "CFE_SBR_RouteId list \<Rightarrow> u32 \<Rightarrow> u32 \<Rightarrow> (u32 \<times> u32) option" where
  "hash_open_slot tbl hash collisions =
     (if CFE_SBR_IsValidRouteId (tbl ! unat hash)
      then hash_open_slot tbl ((hash + 1) AND (1024 - 1)) (collisions + 1)
      else Some (hash, collisions))"

definition CFE_SBR_SetRouteId_hash ::
  "CFE_SBR \<Rightarrow> CFE_SB_MsgId \<Rightarrow> CFE_SBR_RouteId \<Rightarrow> (CFE_SBR \<times> u32) option" where
  "CFE_SBR_SetRouteId_hash s MsgId RouteId =
     (if CFE_SB_IsValidMsgId MsgId
      then map_option (\<lambda>(hash, collisions). (s\<lparr>MSGMAP := (MSGMAP s)[unat hash := RouteId]\<rparr>, collisions))
             (hash_open_slot (MSGMAP s) (CFE_SBR_MsgIdHash MsgId) 0)
      else Some (s, 0))"

partial_function (option) hash_find_route ::
  "CFE_SBR \<Rightarrow> CFE_SB_MsgId \<Rightarrow> u32 \<Rightarrow> CFE_SBR_RouteId \<Rightarrow> CFE_SBR_RouteId option" where
  "hash_find_route s MsgId hash routeid =
     (if CFE_SBR_IsValidRouteId routeid \<and> CFE_SBR_GetMsgId s routeid \<noteq> MsgId
      then hash_find_route s MsgId ((hash + 1) AND (1024 - 1)) (MSGMAP s ! unat ((hash + 1) AND (1024 - 1)))
      else Some routeid)"

definition CFE_SBR_GetRouteId_hash :: "CFE_SBR \<Rightarrow> CFE_SB_MsgId \<Rightarrow> CFE_SBR_RouteId option" where
  "CFE_SBR_GetRouteId_hash s MsgId =
     (if CFE_SB_IsValidMsgId MsgId
      then hash_find_route s MsgId (CFE_SBR_MsgIdHash MsgId) (MSGMAP s ! unat (CFE_SBR_MsgIdHash MsgId))
      else Some CFE_SBR_INVALID_ROUTE_ID)"

section \<open>Initialization and new routes, over either map\<close>

definition CFE_SBR_SetRouteId ::
  "CFE_SBR_MapConfig \<Rightarrow> CFE_SBR \<Rightarrow> CFE_SB_MsgId \<Rightarrow> CFE_SBR_RouteId \<Rightarrow> (CFE_SBR \<times> u32) option" where
  "CFE_SBR_SetRouteId cfg s MsgId RouteId =
     (case cfg of
        SBR_MAP_DIRECT \<Rightarrow> Some (CFE_SBR_SetRouteId_direct s MsgId RouteId)
      | SBR_MAP_HASH \<Rightarrow> CFE_SBR_SetRouteId_hash s MsgId RouteId)"

definition CFE_SBR_GetRouteId ::
  "CFE_SBR_MapConfig \<Rightarrow> CFE_SBR \<Rightarrow> CFE_SB_MsgId \<Rightarrow> CFE_SBR_RouteId option" where
  "CFE_SBR_GetRouteId cfg s MsgId =
     (case cfg of
        SBR_MAP_DIRECT \<Rightarrow> Some (CFE_SBR_GetRouteId_direct s MsgId)
      | SBR_MAP_HASH \<Rightarrow> CFE_SBR_GetRouteId_hash s MsgId)"

definition CFE_SBR_Init_Map :: "CFE_SBR_MapConfig \<Rightarrow> CFE_SBR \<Rightarrow> CFE_SBR" where
  "CFE_SBR_Init_Map cfg s = s\<lparr>MSGMAP := replicate (CFE_SBR_MSG_MAP_SIZE cfg) 0\<rparr>"

definition CFE_SBR_Init :: "CFE_SBR_MapConfig \<Rightarrow> CFE_SBR \<Rightarrow> CFE_SBR" where
  "CFE_SBR_Init cfg s =
     (let s = s\<lparr>RoutingTbl := replicate 256 \<lparr>ListHeadPtr = NULL, RouteMsgId = 0, SeqCnt = 0\<rparr>,
                RouteIdxTop := 0\<rparr>;
          s = s\<lparr>RoutingTbl := map (RouteMsgId_update (\<lambda>_. CFE_SB_INVALID_MSG_ID)) (RoutingTbl s)\<rparr>
      in CFE_SBR_Init_Map cfg s)"

text \<open>The result is the route id and the number of collisions.\<close>

definition CFE_SBR_AddRoute ::
  "CFE_SBR_MapConfig \<Rightarrow> CFE_SBR \<Rightarrow> CFE_SB_MsgId \<Rightarrow> (CFE_SBR \<times> CFE_SBR_RouteId \<times> u32) option" where
  "CFE_SBR_AddRoute cfg s MsgId =
     (if CFE_SB_IsValidMsgId MsgId \<and> unat (RouteIdxTop s) < CFE_PLATFORM_SB_MAX_MSG_IDS
      then let routeid = CFE_SBR_ValueToRouteId (RouteIdxTop s)
           in map_option (\<lambda>(s, collisions).
                let i = unat (RouteIdxTop s)
                in (s\<lparr>RoutingTbl := (RoutingTbl s)[i := (RoutingTbl s ! i)\<lparr>RouteMsgId := MsgId\<rparr>],
                      RouteIdxTop := RouteIdxTop s + 1\<rparr>, routeid, collisions))
              (CFE_SBR_SetRouteId cfg s MsgId routeid)
      else Some (s, CFE_SBR_INVALID_ROUTE_ID, 0))"

section \<open>Iteration over the routes\<close>

record CFE_SBR_Throttle =
  StartIndex :: u32
  MaxLoop :: u32
  NextIndex :: u32

text \<open>
  The callback changes the state \<open>'a\<close> its argument pointer stands for; it gets the route ids
  from \<open>startidx\<close> up to, not including, \<open>endidx\<close> in order.
\<close>

definition for_routes :: "u16 \<Rightarrow> u16 \<Rightarrow> (CFE_SBR_RouteId \<Rightarrow> 'a \<Rightarrow> 'a) \<Rightarrow> 'a \<Rightarrow> 'a" where
  "for_routes startidx endidx cb a =
     fold (\<lambda>i. cb (CFE_SBR_ValueToRouteId (of_nat i))) [unat startidx..<unat endidx] a"

definition CFE_SBR_ForEachRouteId ::
  "CFE_SBR \<Rightarrow> (CFE_SBR_RouteId \<Rightarrow> 'a \<Rightarrow> 'a) \<Rightarrow> 'a \<Rightarrow> CFE_SBR_Throttle ptr \<Rightarrow> 'a \<times> CFE_SBR_Throttle ptr" where
  "CFE_SBR_ForEachRouteId s CallbackPtr ArgPtr ThrottlePtr =
     (case ThrottlePtr of
        None \<Rightarrow> (for_routes 0 (RouteIdxTop s) CallbackPtr ArgPtr, ThrottlePtr)
      | Some t \<Rightarrow>
          (let startidx = ucast (StartIndex t) :: u16;
               endidx = RouteIdxTop s;
               t = t\<lparr>NextIndex := 0\<rparr>
           in if ucast startidx + MaxLoop t < ucast endidx
              then let endidx = ucast (ucast startidx + MaxLoop t) :: u16
                   in (for_routes startidx endidx CallbackPtr ArgPtr, Some (t\<lparr>NextIndex := ucast endidx\<rparr>))
              else (for_routes startidx endidx CallbackPtr ArgPtr, Some t)))"

end
