(* ===== verification/CFE_SBR_Map.thy ===== *)
theory CFE_SBR_Map
  imports CFE_SBR
begin

unbundle bit_operations_syntax

text \<open>
  The contract between the routing table and its message id map, and the proof that both maps
  of the routing module meet it.  The abstract view of the routing state is the list of the
  message ids in the order their routes were added; a route id is a position in that list.
\<close>

section \<open>The abstract routing table\<close>

definition routes :: "CFE_SBR \<Rightarrow> CFE_SB_MsgId list" where
  "routes s = map RouteMsgId (take (unat (RouteIdxTop s)) (RoutingTbl s))"

definition route_of :: "CFE_SB_MsgId list \<Rightarrow> CFE_SB_MsgId \<Rightarrow> CFE_SBR_RouteId" where
  "route_of ms m = (if m \<in> set ms then of_nat (length (takeWhile (\<lambda>x. x \<noteq> m) ms)) + 1 else 0)"

text \<open>The invariant of the table itself.\<close>

definition tbl_inv :: "CFE_SBR \<Rightarrow> bool" where
  "tbl_inv s \<longleftrightarrow>
     length (RoutingTbl s) = 256 \<and> unat (RouteIdxTop s) \<le> 256 \<and>
     distinct (routes s) \<and> (\<forall>m \<in> set (routes s). CFE_SB_IsValidMsgId m) \<and>
     (\<forall>i < 256. unat (RouteIdxTop s) \<le> i \<longrightarrow> RouteMsgId (RoutingTbl s ! i) = CFE_SB_INVALID_MSG_ID)"

lemma length_routes: "tbl_inv s \<Longrightarrow> length (routes s) = unat (RouteIdxTop s)"
  by (simp add: routes_def tbl_inv_def)

lemma nth_routes: "i < length (routes s) \<Longrightarrow> routes s ! i = RouteMsgId (RoutingTbl s ! i)"
  by (simp add: routes_def)

lemma takeWhile_distinct:
  assumes "distinct ms" and "i < length ms"
  shows "takeWhile (\<lambda>x. x \<noteq> ms ! i) ms = take i ms"
proof -
  have "\<forall>x \<in> set (take i ms). x \<noteq> ms ! i"
    using assms by (auto simp: in_set_conv_nth nth_eq_iff_index_eq)
  then have "takeWhile (\<lambda>x. x \<noteq> ms ! i) (take i ms @ ms ! i # drop (Suc i) ms) = take i ms"
    by (simp add: takeWhile_append2)
  then show ?thesis using id_take_nth_drop [OF assms(2)] by simp
qed

lemma route_of_nth: "distinct ms \<Longrightarrow> i < length ms \<Longrightarrow> route_of ms (ms ! i) = of_nat (Suc i)"
  by (simp add: route_of_def takeWhile_distinct)

lemma route_of_notin [simp]: "m \<notin> set ms \<Longrightarrow> route_of ms m = 0"
  by (simp add: route_of_def)

lemma of_nat_route [simp]: "i \<le> 256 \<Longrightarrow> unat (of_nat i :: u16) = i"
  by (simp add: unat_of_nat)

lemma IsValidRouteId_nat: "CFE_SBR_IsValidRouteId r \<longleftrightarrow> 0 < unat r \<and> unat r \<le> 256"
  by (auto simp: CFE_SBR_IsValidRouteId_def word_le_nat_alt unat_gt_0)

lemma IsValidRouteId_0 [simp]: "\<not> CFE_SBR_IsValidRouteId 0"
  by (simp add: CFE_SBR_IsValidRouteId_def)

lemma RouteIdToValue_nat: "0 < unat r \<Longrightarrow> unat (CFE_SBR_RouteIdToValue r) = unat r - 1"
  unfolding CFE_SBR_RouteIdToValue_def by (metis unat_gt_0 unat_minus_one)

lemma GetMsgId_nat:
  "0 < unat r \<Longrightarrow> unat r \<le> 256 \<Longrightarrow> CFE_SBR_GetMsgId s r = RouteMsgId (RoutingTbl s ! (unat r - 1))"
  by (simp add: CFE_SBR_GetMsgId_def IsValidRouteId_nat RouteIdToValue_nat)

lemma route_of_valid:
  assumes "distinct ms" and "length ms \<le> 256"
  shows "CFE_SBR_IsValidRouteId (route_of ms m) \<longleftrightarrow> m \<in> set ms"
proof (cases "m \<in> set ms")
  case True
  then obtain i where "i < length ms" "m = ms ! i" by (auto simp: in_set_conv_nth)
  with assms have "route_of ms m = of_nat (Suc i)" "Suc i \<le> 256" by (simp_all add: route_of_nth)
  with True show ?thesis by (simp only: IsValidRouteId_nat of_nat_route) simp
qed simp

lemma GetMsgId_route_of:
  assumes "tbl_inv s" and "m \<in> set (routes s)"
  shows "CFE_SBR_GetMsgId s (route_of (routes s) m) = m"
proof -
  obtain i where i: "i < length (routes s)" "m = routes s ! i"
    using assms(2) by (auto simp: in_set_conv_nth)
  have "Suc i \<le> 256" using i(1) assms(1) by (simp add: length_routes tbl_inv_def)
  moreover have "route_of (routes s) m = of_nat (Suc i)"
    using i assms(1) by (simp add: route_of_nth tbl_inv_def)
  ultimately show ?thesis
    using i by (simp only: GetMsgId_nat of_nat_route) (simp add: nth_routes)
qed

text \<open>Operations that keep ids, top and map keep every property of the routes.\<close>

definition same_routes :: "CFE_SBR \<Rightarrow> CFE_SBR \<Rightarrow> bool" where
  "same_routes s s' \<longleftrightarrow>
     map RouteMsgId (RoutingTbl s') = map RouteMsgId (RoutingTbl s) \<and>
     RouteIdxTop s' = RouteIdxTop s \<and> MSGMAP s' = MSGMAP s"

lemma same_routes_nth:
  assumes "same_routes s s'"
  shows "length (RoutingTbl s') = length (RoutingTbl s)"
    and "i < length (RoutingTbl s) \<Longrightarrow> RouteMsgId (RoutingTbl s' ! i) = RouteMsgId (RoutingTbl s ! i)"
proof -
  have eq: "map RouteMsgId (RoutingTbl s') = map RouteMsgId (RoutingTbl s)"
    using assms by (simp add: same_routes_def)
  then show len: "length (RoutingTbl s') = length (RoutingTbl s)" by (rule map_eq_imp_length_eq)
  assume "i < length (RoutingTbl s)"
  with eq len show "RouteMsgId (RoutingTbl s' ! i) = RouteMsgId (RoutingTbl s ! i)"
    by (metis nth_map)
qed

lemma same_routes_routes: "same_routes s s' \<Longrightarrow> routes s' = routes s"
  unfolding routes_def same_routes_def by (metis take_map)

lemma same_routes_tbl_inv: "same_routes s s' \<Longrightarrow> tbl_inv s \<Longrightarrow> tbl_inv s'"
  using same_routes_nth [of s s'] same_routes_routes [of s s']
  by (auto simp: tbl_inv_def same_routes_def)

lemma same_routes_upd:
  assumes "\<And>e. RouteMsgId (f e) = RouteMsgId e"
  shows "same_routes s (upd_route r f s)"
proof (cases "unat (CFE_SBR_RouteIdToValue r) < length (RoutingTbl s)")
  case True
  then show ?thesis
    using assms list_update_id [of "map RouteMsgId (RoutingTbl s)" "unat (CFE_SBR_RouteIdToValue r)"]
    by (simp add: same_routes_def upd_route_def Let_def map_update)
qed (simp add: same_routes_def upd_route_def Let_def list_update_beyond)

text \<open>Appending a fresh id to the table keeps the table invariant, whatever the map holds.\<close>

definition add_entry :: "CFE_SB_MsgId \<Rightarrow> CFE_SBR \<Rightarrow> CFE_SBR" where
  "add_entry m s =
     s\<lparr>RoutingTbl := (RoutingTbl s)[unat (RouteIdxTop s) := (RoutingTbl s ! unat (RouteIdxTop s))\<lparr>RouteMsgId := m\<rparr>],
       RouteIdxTop := RouteIdxTop s + 1\<rparr>"

lemma add_entry_tbl:
  assumes "tbl_inv s" and "CFE_SB_IsValidMsgId m" and "m \<notin> set (routes s)" and "unat (RouteIdxTop s) < 256"
  shows "routes (add_entry m s) = routes s @ [m]" and "tbl_inv (add_entry m s)"
    and "unat (RouteIdxTop s + 1) = Suc (unat (RouteIdxTop s))"
    and "x \<noteq> m \<Longrightarrow> route_of (routes s @ [m]) x = route_of (routes s) x"
    and "route_of (routes s @ [m]) m = RouteIdxTop s + 1"
proof -
  show top': "unat (RouteIdxTop s + 1) = Suc (unat (RouteIdxTop s))"
    using assms(4) by (simp add: unat_word_ariths)
  have len: "length (RoutingTbl s) = 256" using assms(1) by (simp add: tbl_inv_def)
  show rts: "routes (add_entry m s) = routes s @ [m]"
    using assms(4) len by (simp add: routes_def add_entry_def top' take_Suc_conv_app_nth)
  show "tbl_inv (add_entry m s)"
    using assms unfolding tbl_inv_def rts by (simp add: add_entry_def top')
  show "x \<noteq> m \<Longrightarrow> route_of (routes s @ [m]) x = route_of (routes s) x"
    by (auto simp: route_of_def takeWhile_append)
  have "takeWhile (\<lambda>x. x \<noteq> m) (routes s @ [m]) = routes s"
    using assms(3) by (auto simp: takeWhile_append)
  then show "route_of (routes s @ [m]) m = RouteIdxTop s + 1"
    using length_routes [OF assms(1)] by (simp add: route_of_def)
qed

section \<open>The contract of a message id map\<close>

text \<open>
  What the routing table relies on: an invariant that initialization establishes, that implies
  the table invariant and depends on ids, top and map only; a lookup that ends and answers the
  position of the id in the list of routes; and a new route that ends, for a fresh id, with
  the id appended to the list.
\<close>

locale route_map =
  fixes cfg :: CFE_SBR_MapConfig and inv :: "CFE_SBR \<Rightarrow> bool"
  assumes init_inv: "inv (CFE_SBR_Init cfg s)"
    and inv_tbl: "inv s \<Longrightarrow> tbl_inv s"
    and inv_same: "inv s \<Longrightarrow> same_routes s s' \<Longrightarrow> inv s'"
    and get_route: "inv s \<Longrightarrow> CFE_SBR_GetRouteId cfg s m = Some (route_of (routes s) m)"
    and set_ends: "inv s \<Longrightarrow> CFE_SBR_SetRouteId cfg s m r \<noteq> None"
    and set_frame: "CFE_SBR_SetRouteId cfg s m r = Some (s', c) \<Longrightarrow>
          RoutingTbl s' = RoutingTbl s \<and> RouteIdxTop s' = RouteIdxTop s"
    and add_inv: "inv s \<Longrightarrow> CFE_SB_IsValidMsgId m \<Longrightarrow> m \<notin> set (routes s) \<Longrightarrow>
          unat (RouteIdxTop s) < 256 \<Longrightarrow> CFE_SBR_AddRoute cfg s m = Some (s', r, c) \<Longrightarrow> inv s'"
begin

lemma routes_init: "routes (CFE_SBR_Init cfg s) = []"
  by (simp add: routes_def CFE_SBR_Init_def CFE_SBR_Init_Map_def Let_def)

lemma add_ends: "inv s \<Longrightarrow> \<exists>s' r c. CFE_SBR_AddRoute cfg s m = Some (s', r, c)"
  using set_ends [of s m "CFE_SBR_ValueToRouteId (RouteIdxTop s)"]
  by (auto simp: CFE_SBR_AddRoute_def Let_def split: prod.splits)

lemma add_full: "\<not> CFE_SB_IsValidMsgId m \<or> 256 \<le> unat (RouteIdxTop s) \<Longrightarrow>
    CFE_SBR_AddRoute cfg s m = Some (s, CFE_SBR_INVALID_ROUTE_ID, 0)"
  by (auto simp: CFE_SBR_AddRoute_def)

lemma add_routes:
  assumes inv: "inv s" and m: "CFE_SB_IsValidMsgId m" "m \<notin> set (routes s)"
    and top: "unat (RouteIdxTop s) < 256" and add: "CFE_SBR_AddRoute cfg s m = Some (s', r, c)"
  shows "inv s'" and "routes s' = routes s @ [m]" and "r = route_of (routes s') m"
    and "r = RouteIdxTop s + 1" and "CFE_SBR_IsValidRouteId r"
proof -
  show inv': "inv s'" by (rule add_inv [OF assms])
  obtain s1 where s1: "CFE_SBR_SetRouteId cfg s m (CFE_SBR_ValueToRouteId (RouteIdxTop s)) = Some (s1, c)"
      "r = CFE_SBR_ValueToRouteId (RouteIdxTop s)" "RouteIdxTop s' = RouteIdxTop s1 + 1"
      "RoutingTbl s' = (RoutingTbl s1)[unat (RouteIdxTop s1) := (RoutingTbl s1 ! unat (RouteIdxTop s1))\<lparr>RouteMsgId := m\<rparr>]"
    using add m(1) top by (auto simp: CFE_SBR_AddRoute_def Let_def)
  note fr = set_frame [OF s1(1)]
  have len: "length (RoutingTbl s) = 256" using inv_tbl [OF inv] by (simp add: tbl_inv_def)
  have top': "unat (RouteIdxTop s + 1) = Suc (unat (RouteIdxTop s))"
    using top by (simp add: unat_word_ariths)
  show rts: "routes s' = routes s @ [m]"
    using top len s1(3,4) fr
    by (simp add: routes_def top' take_Suc_conv_app_nth)
  show r: "r = RouteIdxTop s + 1" by (simp add: s1(2) CFE_SBR_ValueToRouteId_def)
  show "r = route_of (routes s') m"
    using add_entry_tbl(5) [OF inv_tbl [OF inv] m top] by (simp add: r rts)
  show "CFE_SBR_IsValidRouteId r"
    using top by (simp add: IsValidRouteId_nat r top')
qed

end

section \<open>The direct map meets the contract\<close>

definition direct_inv :: "CFE_SBR \<Rightarrow> bool" where
  "direct_inv s \<longleftrightarrow> tbl_inv s \<and> length (MSGMAP s) = 0x2000 \<and>
     (\<forall>m. CFE_SB_IsValidMsgId m \<longrightarrow> MSGMAP s ! unat m = route_of (routes s) m)"

lemma tbl_inv_init: "tbl_inv (CFE_SBR_Init cfg s)"
  by (simp add: tbl_inv_def routes_def CFE_SBR_Init_def CFE_SBR_Init_Map_def Let_def)

lemma AddRoute_direct:
  "CFE_SB_IsValidMsgId m \<Longrightarrow> unat (RouteIdxTop s) < 256 \<Longrightarrow>
   CFE_SBR_AddRoute SBR_MAP_DIRECT s m =
     Some (s\<lparr>RoutingTbl := (RoutingTbl s)[unat (RouteIdxTop s) := (RoutingTbl s ! unat (RouteIdxTop s))\<lparr>RouteMsgId := m\<rparr>],
             RouteIdxTop := RouteIdxTop s + 1,
             MSGMAP := (MSGMAP s)[unat m := RouteIdxTop s + 1]\<rparr>, RouteIdxTop s + 1, 0)"
  by (simp add: CFE_SBR_AddRoute_def CFE_SBR_SetRouteId_def CFE_SBR_SetRouteId_direct_def
      CFE_SBR_ValueToRouteId_def Let_def add.commute)

lemma unat_msgid: "CFE_SB_IsValidMsgId m \<Longrightarrow> unat m < 0x2000"
  by (simp add: IsValidMsgId_iff word_le_nat_alt)

lemma routes_MSGMAP [simp]: "routes (s\<lparr>MSGMAP := f\<rparr>) = routes s" "tbl_inv (s\<lparr>MSGMAP := f\<rparr>) = tbl_inv s"
  by (simp_all add: routes_def tbl_inv_def)

lemma direct_add_inv:
  assumes "direct_inv s" and "CFE_SB_IsValidMsgId m" and "m \<notin> set (routes s)" and "unat (RouteIdxTop s) < 256"
  shows "direct_inv ((add_entry m s)\<lparr>MSGMAP := (MSGMAP s)[unat m := RouteIdxTop s + 1]\<rparr>)"
proof -
  have t: "tbl_inv s" using assms(1) by (simp add: direct_inv_def)
  note e = add_entry_tbl [OF t assms(2-4)]
  have unat_eq: "unat a = unat b \<longleftrightarrow> a = b" for a b :: u32 by (simp add: word_unat_eq_iff)
  have "(MSGMAP s)[unat m := RouteIdxTop s + 1] ! unat x = route_of (routes s @ [m]) x"
    if "CFE_SB_IsValidMsgId x" for x
    using assms(1) that unat_msgid [OF assms(2)] e(4,5)
    by (cases "x = m") (auto simp: direct_inv_def nth_list_update unat_eq)
  with e(1,2) assms(1) show ?thesis by (simp add: direct_inv_def)
qed

interpretation direct_map: route_map SBR_MAP_DIRECT direct_inv
proof unfold_locales
  fix s s' m r c
  show "direct_inv (CFE_SBR_Init SBR_MAP_DIRECT s)"
    using tbl_inv_init [of SBR_MAP_DIRECT s] unat_msgid
    by (auto simp: direct_inv_def CFE_SBR_Init_def CFE_SBR_Init_Map_def Let_def routes_def)
  show "direct_inv s \<Longrightarrow> CFE_SBR_GetRouteId SBR_MAP_DIRECT s m = Some (route_of (routes s) m)"
    by (auto simp: CFE_SBR_GetRouteId_def CFE_SBR_GetRouteId_direct_def direct_inv_def tbl_inv_def route_of_def)
  show "direct_inv s \<Longrightarrow> same_routes s s' \<Longrightarrow> direct_inv s'"
    using same_routes_tbl_inv [of s s'] same_routes_routes [of s s'] by (simp add: direct_inv_def same_routes_def)
  show "CFE_SBR_SetRouteId SBR_MAP_DIRECT s m r = Some (s', c) \<Longrightarrow>
      RoutingTbl s' = RoutingTbl s \<and> RouteIdxTop s' = RouteIdxTop s"
    by (auto simp: CFE_SBR_SetRouteId_def CFE_SBR_SetRouteId_direct_def split: if_splits)
  assume "direct_inv s" "CFE_SB_IsValidMsgId m" "m \<notin> set (routes s)" "unat (RouteIdxTop s) < 256"
    "CFE_SBR_AddRoute SBR_MAP_DIRECT s m = Some (s', r, c)"
  then show "direct_inv s'"
    using direct_add_inv [of s m] by (auto simp: AddRoute_direct add_entry_def)
qed (simp_all add: direct_inv_def CFE_SBR_SetRouteId_def)

end
