(* ===== verification/CFE_SBR_Hash.thy ===== *)
theory CFE_SBR_Hash
  imports CFE_SBR_Map
begin

unbundle bit_operations_syntax

text \<open>
  The hash map of the routing module meets the contract \<open>route_map\<close>: linear probing from the
  hash of a message id ends, because at most 256 of the 1024 slots are in use, and finds the
  route of the id.
\<close>

section \<open>Probing\<close>

definition probe :: "u32 \<Rightarrow> nat \<Rightarrow> nat" where
  "probe hash k = (unat hash + k) mod 1024"

lemma probe_lt [simp]: "probe h k < 1024"
  by (simp add: probe_def)

lemma unat_and_1023: "unat (x AND 1023 :: u32) = unat x mod 1024"
proof -
  have m: "(1023 :: u32) = mask 10" by (simp add: mask_eq_exp_minus_1)
  show ?thesis unfolding m by (simp add: unsigned_take_bit_eq take_bit_eq_mod unat_mod flip: take_bit_eq_mask)
qed

lemma next_hash: "unat ((h + 1) AND 1023 :: u32) = (unat h + 1) mod 1024"
proof -
  have "unat (h + 1) mod 1024 = (unat h + 1) mod 2 ^ 32 mod 1024"
    by (simp add: unat_word_ariths)
  also have "\<dots> = (unat h + 1) mod 1024" by (rule mod_mod_cancel) simp
  finally show ?thesis by (simp add: unat_and_1023)
qed

lemma probe_next: "probe ((h + 1) AND 1023) k = probe h (Suc k)"
  unfolding probe_def next_hash by (simp add: mod_add_left_eq)

lemma probe_0: "unat h < 1024 \<Longrightarrow> probe h 0 = unat h"
  by (simp add: probe_def)

lemma hash_lt: "unat (CFE_SBR_MsgIdHash m) < 1024"
  by (simp add: CFE_SBR_MsgIdHash_def Let_def unat_and_1023)

lemma next_hash_lt: "unat ((h + 1) AND 1023 :: u32) < 1024"
  by (simp add: next_hash)

lemma hash_open_slot_ends:
  "unat h < 1024 \<Longrightarrow> (\<And>j. j < k \<Longrightarrow> CFE_SBR_IsValidRouteId (tbl ! probe h j)) \<Longrightarrow>
   \<not> CFE_SBR_IsValidRouteId (tbl ! probe h k) \<Longrightarrow>
   \<exists>h'. hash_open_slot tbl h c = Some (h', c + of_nat k) \<and> unat h' = probe h k"
proof (induction k arbitrary: h c)
  case 0
  then show ?case by (subst hash_open_slot.simps) (simp add: probe_0)
next
  case (Suc k)
  let ?h = "(h + 1) AND 1023"
  have "\<exists>h'. hash_open_slot tbl ?h (c + 1) = Some (h', c + 1 + of_nat k) \<and> unat h' = probe ?h k"
  proof (rule Suc.IH [OF next_hash_lt])
    show "CFE_SBR_IsValidRouteId (tbl ! probe ?h j)" if "j < k" for j
      using Suc.prems(2) [of "Suc j"] that by (simp add: probe_next)
    show "\<not> CFE_SBR_IsValidRouteId (tbl ! probe ?h k)"
      using Suc.prems(3) by (simp add: probe_next)
  qed
  moreover have "CFE_SBR_IsValidRouteId (tbl ! unat h)"
    using Suc.prems(2) [of 0] by (simp add: probe_0 Suc.prems(1))
  ultimately show ?case
    by (subst hash_open_slot.simps) (simp add: probe_next add.assoc)
qed

lemma hash_find_route_ends:
  "unat h < 1024 \<Longrightarrow>
   (\<And>j. j < k \<Longrightarrow> CFE_SBR_IsValidRouteId (MSGMAP s ! probe h j) \<and> CFE_SBR_GetMsgId s (MSGMAP s ! probe h j) \<noteq> m) \<Longrightarrow>
   \<not> CFE_SBR_IsValidRouteId (MSGMAP s ! probe h k) \<or> CFE_SBR_GetMsgId s (MSGMAP s ! probe h k) = m \<Longrightarrow>
   hash_find_route s m h (MSGMAP s ! unat h) = Some (MSGMAP s ! probe h k)"
proof (induction k arbitrary: h)
  case 0
  then show ?case by (subst hash_find_route.simps) (auto simp: probe_0)
next
  case (Suc k)
  let ?h = "(h + 1) AND 1023"
  have "hash_find_route s m ?h (MSGMAP s ! unat ?h) = Some (MSGMAP s ! probe ?h k)"
  proof (rule Suc.IH [OF next_hash_lt])
    show "CFE_SBR_IsValidRouteId (MSGMAP s ! probe ?h j) \<and> CFE_SBR_GetMsgId s (MSGMAP s ! probe ?h j) \<noteq> m"
      if "j < k" for j
      using Suc.prems(2) [of "Suc j"] that by (simp add: probe_next)
    show "\<not> CFE_SBR_IsValidRouteId (MSGMAP s ! probe ?h k) \<or> CFE_SBR_GetMsgId s (MSGMAP s ! probe ?h k) = m"
      using Suc.prems(3) by (simp add: probe_next)
  qed
  moreover have "CFE_SBR_IsValidRouteId (MSGMAP s ! unat h)" "CFE_SBR_GetMsgId s (MSGMAP s ! unat h) \<noteq> m"
    using Suc.prems(2) [of 0] by (simp_all add: probe_0 Suc.prems(1))
  ultimately show ?case
    by (subst hash_find_route.simps) (simp add: probe_next)
qed

section \<open>The invariant\<close>

text \<open>
  Every used slot holds the route id of a route of the table, no route id twice, and the
  route of each id is reached from its hash over used slots.
\<close>

definition hash_inv :: "CFE_SBR \<Rightarrow> bool" where
  "hash_inv s \<longleftrightarrow> tbl_inv s \<and> length (MSGMAP s) = 1024 \<and>
     (\<forall>p < 1024. unat (MSGMAP s ! p) \<le> length (routes s)) \<and>
     (\<forall>p < 1024. \<forall>q < 1024. MSGMAP s ! p = MSGMAP s ! q \<and> MSGMAP s ! p \<noteq> 0 \<longrightarrow> p = q) \<and>
     (\<forall>m \<in> set (routes s). \<exists>k. MSGMAP s ! probe (CFE_SBR_MsgIdHash m) k = route_of (routes s) m \<and>
        (\<forall>j < k. MSGMAP s ! probe (CFE_SBR_MsgIdHash m) j \<noteq> 0))"

lemma hash_slot_valid:
  assumes "hash_inv s" and "p < 1024"
  shows "CFE_SBR_IsValidRouteId (MSGMAP s ! p) \<longleftrightarrow> MSGMAP s ! p \<noteq> 0"
  using assms length_routes [of s]
  by (force simp: hash_inv_def tbl_inv_def IsValidRouteId_nat unat_gt_0)

lemma hash_slot_msgid:
  assumes "hash_inv s" and "p < 1024" and "MSGMAP s ! p \<noteq> 0"
  shows "CFE_SBR_GetMsgId s (MSGMAP s ! p) \<in> set (routes s)"
    and "route_of (routes s) (CFE_SBR_GetMsgId s (MSGMAP s ! p)) = MSGMAP s ! p"
proof -
  let ?r = "MSGMAP s ! p"
  have t: "tbl_inv s" using assms(1) by (simp add: hash_inv_def)
  have r: "0 < unat ?r" "unat ?r \<le> length (routes s)" "length (routes s) \<le> 256"
    using assms length_routes [OF t] t by (auto simp: hash_inv_def tbl_inv_def unat_gt_0)
  then have g: "CFE_SBR_GetMsgId s ?r = routes s ! (unat ?r - 1)"
    by (simp add: GetMsgId_nat nth_routes)
  show "CFE_SBR_GetMsgId s ?r \<in> set (routes s)" unfolding g using r by (intro nth_mem) simp
  have "route_of (routes s) (routes s ! (unat ?r - 1)) = of_nat (Suc (unat ?r - 1))"
    using t r by (intro route_of_nth) (simp_all add: tbl_inv_def)
  then show "route_of (routes s) (CFE_SBR_GetMsgId s ?r) = ?r" unfolding g using r by simp
qed

text \<open>Fewer route ids than slots: some slot is open.\<close>

lemma hash_open_exists:
  assumes "hash_inv s"
  shows "\<exists>p < 1024. MSGMAP s ! p = 0"
proof (rule ccontr)
  assume "\<not> ?thesis"
  then have nz: "\<And>p. p < 1024 \<Longrightarrow> MSGMAP s ! p \<noteq> 0" by blast
  have t: "tbl_inv s" using assms by (simp add: hash_inv_def)
  have "inj_on (\<lambda>p. unat (MSGMAP s ! p)) {..<1024}"
    using assms nz by (intro inj_onI) (auto simp: hash_inv_def word_unat_eq_iff)
  moreover have "(\<lambda>p. unat (MSGMAP s ! p)) ` {..<1024} \<subseteq> {..length (routes s)}"
    using assms by (auto simp: hash_inv_def)
  ultimately have "card {..<1024 :: nat} \<le> card {..length (routes s)}"
    by (rule card_inj_on_le) simp
  moreover have "length (routes s) \<le> 256" using t length_routes [OF t] by (simp add: tbl_inv_def)
  ultimately show False by simp
qed

lemma probe_surj: "p < 1024 \<Longrightarrow> \<exists>k. probe h k = p"
proof -
  assume p: "p < 1024"
  have "probe h (p + (1024 - unat h mod 1024)) = p"
  proof -
    have "(unat h + (p + (1024 - unat h mod 1024))) mod 1024 =
          (unat h mod 1024 + (p + (1024 - unat h mod 1024))) mod 1024"
      by (rule mod_add_left_eq [symmetric])
    also have "unat h mod 1024 + (p + (1024 - unat h mod 1024)) = p + 1024"
      using mod_less_divisor [of 1024 "unat h"] by linarith
    finally show ?thesis using p by (simp add: probe_def)
  qed
  then show ?thesis by blast
qed

lemma first_open:
  assumes "hash_inv s"
  shows "\<exists>k. MSGMAP s ! probe h k = 0 \<and> (\<forall>j < k. MSGMAP s ! probe h j \<noteq> 0)"
proof -
  obtain k0 where "MSGMAP s ! probe h k0 = 0"
    using hash_open_exists [OF assms] probe_surj [of _ h] by metis
  then show ?thesis using exists_least_iff [of "\<lambda>k. MSGMAP s ! probe h k = 0"] by blast
qed

section \<open>Lookup and insertion\<close>

lemma hash_get_route:
  assumes inv: "hash_inv s"
  shows "CFE_SBR_GetRouteId_hash s m = Some (route_of (routes s) m)"
proof (cases "CFE_SB_IsValidMsgId m")
  case False
  have "m \<notin> set (routes s)" using inv False by (auto simp: hash_inv_def tbl_inv_def)
  with False show ?thesis by (simp add: CFE_SBR_GetRouteId_hash_def)
next
  case valid: True
  let ?h = "CFE_SBR_MsgIdHash m"
  have skip: "CFE_SBR_IsValidRouteId (MSGMAP s ! probe ?h j) \<and> CFE_SBR_GetMsgId s (MSGMAP s ! probe ?h j) \<noteq> m"
    if "MSGMAP s ! probe ?h j \<noteq> 0" "MSGMAP s ! probe ?h j \<noteq> route_of (routes s) m" for j
    using that hash_slot_valid [OF inv probe_lt] hash_slot_msgid(2) [OF inv probe_lt that(1)] by auto
  obtain k where k: "MSGMAP s ! probe ?h k = route_of (routes s) m"
      "\<forall>j < k. MSGMAP s ! probe ?h j \<noteq> 0 \<and> MSGMAP s ! probe ?h j \<noteq> route_of (routes s) m"
  proof (cases "m \<in> set (routes s)")
    case True
    then obtain k0 where k0: "MSGMAP s ! probe ?h k0 = route_of (routes s) m"
        "\<forall>j < k0. MSGMAP s ! probe ?h j \<noteq> 0"
      using inv by (auto simp: hash_inv_def)
    then obtain k where "MSGMAP s ! probe ?h k = route_of (routes s) m"
        "\<forall>j < k. MSGMAP s ! probe ?h j \<noteq> route_of (routes s) m"
      using exists_least_iff [of "\<lambda>k. MSGMAP s ! probe ?h k = route_of (routes s) m"] by blast
    moreover from this k0 have "k \<le> k0" by (meson not_le_imp_less)
    ultimately show thesis using k0(2) by (intro that [of k]) auto
  next
    case False
    then show thesis using first_open [OF inv, of ?h] by (auto intro: that)
  qed
  have "\<not> CFE_SBR_IsValidRouteId (MSGMAP s ! probe ?h k) \<or> CFE_SBR_GetMsgId s (MSGMAP s ! probe ?h k) = m"
    using k(1) GetMsgId_route_of [of s m] inv by (cases "m \<in> set (routes s)") (auto simp: hash_inv_def)
  then have "hash_find_route s m ?h (MSGMAP s ! unat ?h) = Some (MSGMAP s ! probe ?h k)"
    using k(2) skip by (intro hash_find_route_ends [OF hash_lt]) auto
  then show ?thesis using valid k(1) by (simp add: CFE_SBR_GetRouteId_hash_def)
qed

lemma hash_set_route:
  assumes inv: "hash_inv s" and valid: "CFE_SB_IsValidMsgId m"
  shows "\<exists>k c. CFE_SBR_SetRouteId_hash s m r = Some (s\<lparr>MSGMAP := (MSGMAP s)[probe (CFE_SBR_MsgIdHash m) k := r]\<rparr>, c) \<and>
           MSGMAP s ! probe (CFE_SBR_MsgIdHash m) k = 0 \<and> (\<forall>j < k. MSGMAP s ! probe (CFE_SBR_MsgIdHash m) j \<noteq> 0)"
proof -
  let ?h = "CFE_SBR_MsgIdHash m"
  obtain k where k: "MSGMAP s ! probe ?h k = 0" "\<forall>j < k. MSGMAP s ! probe ?h j \<noteq> 0"
    using first_open [OF inv] by blast
  have "\<exists>h'. hash_open_slot (MSGMAP s) ?h 0 = Some (h', 0 + of_nat k) \<and> unat h' = probe ?h k"
    by (rule hash_open_slot_ends [OF hash_lt]) (use k hash_slot_valid [OF inv] in auto)
  with valid k show ?thesis by (auto simp: CFE_SBR_SetRouteId_hash_def)
qed

lemma hash_add_inv:
  assumes inv: "hash_inv s" and m: "CFE_SB_IsValidMsgId m" "m \<notin> set (routes s)"
    and top: "unat (RouteIdxTop s) < 256"
    and k: "MSGMAP s ! probe (CFE_SBR_MsgIdHash m) k = 0" "\<forall>j < k. MSGMAP s ! probe (CFE_SBR_MsgIdHash m) j \<noteq> 0"
  shows "hash_inv ((add_entry m s)\<lparr>MSGMAP := (MSGMAP s)[probe (CFE_SBR_MsgIdHash m) k := RouteIdxTop s + 1]\<rparr>)"
proof -
  let ?q = "probe (CFE_SBR_MsgIdHash m) k"
  let ?map = "(MSGMAP s)[?q := RouteIdxTop s + 1]"
  have t: "tbl_inv s" and len: "length (MSGMAP s) = 1024" using inv by (simp_all add: hash_inv_def)
  note e = add_entry_tbl [OF t m top]
  have l: "length (routes s) = unat (RouteIdxTop s)" by (rule length_routes [OF t])
  have at: "?map ! p = (if p = ?q then RouteIdxTop s + 1 else MSGMAP s ! p)" if "p < 1024" for p
    using that len by (simp add: nth_list_update)
  have bound: "\<forall>p < 1024. unat (MSGMAP s ! p) \<le> unat (RouteIdxTop s)"
    using inv l by (simp add: hash_inv_def)
  have nz: "RouteIdxTop s + 1 \<noteq> 0" using e(3) by auto
  have fresh: "MSGMAP s ! p \<noteq> RouteIdxTop s + 1" if "p < 1024" for p
    using bound that e(3) by fastforce
  have "\<forall>p < 1024. unat (?map ! p) \<le> length (routes s @ [m])"
    using bound e(3) l at by (auto simp: le_Suc_eq)
  moreover have "\<forall>p < 1024. \<forall>q < 1024. ?map ! p = ?map ! q \<and> ?map ! p \<noteq> 0 \<longrightarrow> p = q"
    using inv fresh by (auto simp: hash_inv_def at) (metis fresh)+
  moreover have "\<exists>k. ?map ! probe (CFE_SBR_MsgIdHash x) k = route_of (routes s @ [m]) x \<and>
      (\<forall>j < k. ?map ! probe (CFE_SBR_MsgIdHash x) j \<noteq> 0)" if x: "x \<in> set (routes s @ [m])" for x
  proof (cases "x = m")
    case True
    then show ?thesis using k(2) nz e(5) by (intro exI [of _ k]) (simp add: at)
  next
    case False
    then obtain i where i: "MSGMAP s ! probe (CFE_SBR_MsgIdHash x) i = route_of (routes s) x"
        "\<forall>j < i. MSGMAP s ! probe (CFE_SBR_MsgIdHash x) j \<noteq> 0"
      using inv x by (auto simp: hash_inv_def)
    have "route_of (routes s) x \<noteq> 0"
      using route_of_valid [of "routes s" x] False x t l by (auto simp: tbl_inv_def)
    then have "probe (CFE_SBR_MsgIdHash x) i \<noteq> ?q" using i(1) k(1) by auto
    then show ?thesis using i False nz e(4) by (intro exI [of _ i]) (simp add: at)
  qed
  ultimately show ?thesis using e(1,2) len by (simp add: hash_inv_def)
qed

lemma AddRoute_hash:
  assumes "hash_inv s" and "CFE_SB_IsValidMsgId m" and "unat (RouteIdxTop s) < 256"
  shows "\<exists>k c. CFE_SBR_AddRoute SBR_MAP_HASH s m =
             Some ((add_entry m s)\<lparr>MSGMAP := (MSGMAP s)[probe (CFE_SBR_MsgIdHash m) k := RouteIdxTop s + 1]\<rparr>,
                   RouteIdxTop s + 1, c) \<and>
           MSGMAP s ! probe (CFE_SBR_MsgIdHash m) k = 0 \<and>
           (\<forall>j < k. MSGMAP s ! probe (CFE_SBR_MsgIdHash m) j \<noteq> 0)"
proof -
  obtain k c where k: "CFE_SBR_SetRouteId_hash s m (RouteIdxTop s + 1) =
        Some (s\<lparr>MSGMAP := (MSGMAP s)[probe (CFE_SBR_MsgIdHash m) k := RouteIdxTop s + 1]\<rparr>, c)"
      "MSGMAP s ! probe (CFE_SBR_MsgIdHash m) k = 0" "\<forall>j < k. MSGMAP s ! probe (CFE_SBR_MsgIdHash m) j \<noteq> 0"
    using hash_set_route [OF assms(1,2)] by blast
  then show ?thesis
    using assms(2,3)
    by (intro exI [of _ k] exI [of _ c])
       (simp add: CFE_SBR_AddRoute_def CFE_SBR_SetRouteId_def CFE_SBR_ValueToRouteId_def add_entry_def
          Let_def add.commute)
qed

lemma hash_inv_same:
  assumes "hash_inv s" and "same_routes s s'"
  shows "hash_inv s'"
proof -
  have eq: "MSGMAP s' = MSGMAP s" "routes s' = routes s"
    using assms(2) same_routes_routes [OF assms(2)] by (simp_all add: same_routes_def)
  have "tbl_inv s" using assms(1) by (simp add: hash_inv_def)
  then have "tbl_inv s'" by (rule same_routes_tbl_inv [OF assms(2)])
  with assms(1) show ?thesis unfolding hash_inv_def eq by blast
qed

interpretation hash_map: route_map SBR_MAP_HASH hash_inv
proof unfold_locales
  fix s s' m r c
  show "hash_inv (CFE_SBR_Init SBR_MAP_HASH s)"
    using tbl_inv_init [of SBR_MAP_HASH s]
    by (simp add: hash_inv_def CFE_SBR_Init_def CFE_SBR_Init_Map_def Let_def routes_def)
  show "hash_inv s \<Longrightarrow> tbl_inv s" by (simp add: hash_inv_def)
  show "hash_inv s \<Longrightarrow> CFE_SBR_GetRouteId SBR_MAP_HASH s m = Some (route_of (routes s) m)"
    by (simp add: CFE_SBR_GetRouteId_def hash_get_route)
  show "hash_inv s \<Longrightarrow> same_routes s s' \<Longrightarrow> hash_inv s'"
    by (rule hash_inv_same)
  show "hash_inv s \<Longrightarrow> CFE_SBR_SetRouteId SBR_MAP_HASH s m r \<noteq> None"
    using hash_set_route [of s m r]
    by (cases "CFE_SB_IsValidMsgId m") (auto simp: CFE_SBR_SetRouteId_def CFE_SBR_SetRouteId_hash_def)
  show "CFE_SBR_SetRouteId SBR_MAP_HASH s m r = Some (s', c) \<Longrightarrow>
      RoutingTbl s' = RoutingTbl s \<and> RouteIdxTop s' = RouteIdxTop s"
    by (auto simp: CFE_SBR_SetRouteId_def CFE_SBR_SetRouteId_hash_def split: if_splits)
  assume "hash_inv s" "CFE_SB_IsValidMsgId m" "m \<notin> set (routes s)" "unat (RouteIdxTop s) < 256"
    "CFE_SBR_AddRoute SBR_MAP_HASH s m = Some (s', r, c)"
  then show "hash_inv s'"
    using AddRoute_hash [of s m] hash_add_inv [of s m] by auto
qed

text \<open>The invariant of the build's map, and the contract for any build.\<close>

fun map_inv :: "CFE_SBR_MapConfig \<Rightarrow> CFE_SBR \<Rightarrow> bool" where
  "map_inv SBR_MAP_DIRECT s = direct_inv s"
| "map_inv SBR_MAP_HASH s = hash_inv s"

interpretation sbr: route_map cfg "map_inv cfg" for cfg
proof (cases cfg)
  case SBR_MAP_DIRECT
  then show "route_map cfg (map_inv cfg)"
    using direct_map.route_map_axioms by (simp add: fun_eq_iff [THEN iffD2, of "map_inv SBR_MAP_DIRECT" direct_inv])
next
  case SBR_MAP_HASH
  then show "route_map cfg (map_inv cfg)"
    using hash_map.route_map_axioms by (simp add: fun_eq_iff [THEN iffD2, of "map_inv SBR_MAP_HASH" hash_inv])
qed

end
