(* ===== verification/CFE_SBR_Routes.thy ===== *)
theory CFE_SBR_Routes
  imports CFE_SBR_Hash
begin

unbundle bit_operations_syntax

text \<open>
  The routing module as its clients see it: the states reachable from initialization by the
  operations of its interface, and the properties of lookup, new routes, sequence counters and
  iteration in every such state, for both maps.
\<close>

section \<open>Reachable states\<close>

text \<open>
  The client adds a route only for a message id that has none (as \<open>CFE_SB_SubscribeFull\<close>
  does); the other operations are unrestricted.
\<close>

inductive sbr_step :: "CFE_SBR_MapConfig \<Rightarrow> CFE_SBR \<Rightarrow> CFE_SBR \<Rightarrow> bool" for cfg where
  add: "CFE_SBR_GetRouteId cfg s m = Some CFE_SBR_INVALID_ROUTE_ID \<Longrightarrow>
          CFE_SBR_AddRoute cfg s m = Some (s', r, c) \<Longrightarrow> sbr_step cfg s s'"
| dest: "sbr_step cfg s (CFE_SBR_SetDestListHeadPtr s r p)"
| seq: "sbr_step cfg s (CFE_SBR_IncrementSequenceCounter s r)"

inductive sbr_reachable :: "CFE_SBR_MapConfig \<Rightarrow> CFE_SBR \<Rightarrow> bool" for cfg where
  init: "sbr_reachable cfg (CFE_SBR_Init cfg s)"
| step: "sbr_reachable cfg s \<Longrightarrow> sbr_step cfg s s' \<Longrightarrow> sbr_reachable cfg s'"

lemma same_routes_refl [simp]: "same_routes s s"
  by (simp add: same_routes_def)

lemma dest_same_routes: "same_routes s (CFE_SBR_SetDestListHeadPtr s r p)"
  by (simp add: CFE_SBR_SetDestListHeadPtr_def same_routes_upd)

lemma seq_same_routes: "same_routes s (CFE_SBR_IncrementSequenceCounter s r)"
  by (simp add: CFE_SBR_IncrementSequenceCounter_def same_routes_upd)

lemma map_inv_tbl: "map_inv cfg s \<Longrightarrow> distinct (routes s) \<and> length (routes s) \<le> 256 \<and>
    (\<forall>m \<in> set (routes s). CFE_SB_IsValidMsgId m)"
  using sbr.inv_tbl [of cfg s] length_routes [of s] by (simp add: tbl_inv_def)

lemma get_invalid_iff:
  assumes "map_inv cfg s"
  shows "CFE_SBR_GetRouteId cfg s m = Some CFE_SBR_INVALID_ROUTE_ID \<longleftrightarrow> m \<notin> set (routes s)"
  using sbr.get_route [OF assms, of m] route_of_valid [of "routes s" m] map_inv_tbl [OF assms]
  by (auto simp: CFE_SBR_IsValidRouteId_def)

lemma step_map_inv:
  assumes "map_inv cfg s" and "sbr_step cfg s s'"
  shows "map_inv cfg s'"
  using assms(2)
proof cases
  case (add m r c)
  show ?thesis
  proof (cases "CFE_SB_IsValidMsgId m \<and> unat (RouteIdxTop s) < 256")
    case True
    then show ?thesis
      using add sbr.add_inv [OF assms(1)] get_invalid_iff [OF assms(1)] by blast
  next
    case False
    then have "s' = s" using add(2) sbr.add_full [of m s cfg] by auto
    with assms(1) show ?thesis by simp
  qed
qed (use assms(1) sbr.inv_same dest_same_routes seq_same_routes in blast)+

lemma reachable_map_inv: "sbr_reachable cfg s \<Longrightarrow> map_inv cfg s"
  by (induction rule: sbr_reachable.induct) (auto intro: sbr.init_inv step_map_inv)

section \<open>Lookup and new routes\<close>

text \<open>
  C30. In every reachable state of the routing module, with either map, the lookup of any
  message id ends; it answers a valid route id exactly when a route was added for that message
  id, and the routing table entry of the answer has that message id.
\<close>

theorem sbr_lookup_correct:
  assumes "sbr_reachable cfg s"
  shows "\<exists>r. CFE_SBR_GetRouteId cfg s m = Some r \<and>
           (CFE_SBR_IsValidRouteId r \<longleftrightarrow> m \<in> set (routes s)) \<and>
           (CFE_SBR_IsValidRouteId r \<longrightarrow> CFE_SBR_GetMsgId s r = m) \<and>
           (\<not> CFE_SBR_IsValidRouteId r \<longrightarrow> r = CFE_SBR_INVALID_ROUTE_ID)"
proof -
  have inv: "map_inv cfg s" by (rule reachable_map_inv [OF assms])
  note t = map_inv_tbl [OF inv]
  have "CFE_SBR_IsValidRouteId (route_of (routes s) m) \<longleftrightarrow> m \<in> set (routes s)"
    using t by (intro route_of_valid) auto
  moreover have "m \<in> set (routes s) \<Longrightarrow> CFE_SBR_GetMsgId s (route_of (routes s) m) = m"
    by (rule GetMsgId_route_of [OF sbr.inv_tbl [OF inv]])
  ultimately show ?thesis using sbr.get_route [OF inv, of m] by auto
qed

text \<open>
  Adding a route in a reachable state always ends.  For a valid message id without a
  route, while the table has room, it answers a fresh valid route id that the id then looks up
  to, and the lookup of every other id is unchanged; for an invalid id or a full table it
  answers the invalid route id and changes nothing.
\<close>

theorem sbr_add_route_correct:
  assumes "sbr_reachable cfg s" and "CFE_SBR_GetRouteId cfg s m = Some CFE_SBR_INVALID_ROUTE_ID"
  shows "\<exists>s' r c. CFE_SBR_AddRoute cfg s m = Some (s', r, c) \<and>
           (if CFE_SB_IsValidMsgId m \<and> length (routes s) < CFE_PLATFORM_SB_MAX_MSG_IDS
            then CFE_SBR_IsValidRouteId r \<and> CFE_SBR_GetRouteId cfg s' m = Some r \<and>
                 routes s' = routes s @ [m] \<and>
                 (\<forall>m'. m' \<noteq> m \<longrightarrow> CFE_SBR_GetRouteId cfg s' m' = CFE_SBR_GetRouteId cfg s m')
            else r = CFE_SBR_INVALID_ROUTE_ID \<and> s' = s)"
proof -
  have inv: "map_inv cfg s" by (rule reachable_map_inv [OF assms(1)])
  have t: "tbl_inv s" by (rule sbr.inv_tbl [OF inv])
  have fresh: "m \<notin> set (routes s)" using get_invalid_iff [OF inv] assms(2) by simp
  obtain s' r c where add: "CFE_SBR_AddRoute cfg s m = Some (s', r, c)"
    using sbr.add_ends [OF inv] by blast
  show ?thesis
  proof (cases "CFE_SB_IsValidMsgId m \<and> unat (RouteIdxTop s) < 256")
    case True
    note a = sbr.add_routes [OF inv _ fresh _ add]
    have "map_inv cfg s'" "routes s' = routes s @ [m]" "r = route_of (routes s') m" "CFE_SBR_IsValidRouteId r"
      using a True by auto
    moreover have "CFE_SBR_GetRouteId cfg s' m' = CFE_SBR_GetRouteId cfg s m'" if "m' \<noteq> m" for m'
      using sbr.get_route [OF inv] sbr.get_route [OF \<open>map_inv cfg s'\<close>] \<open>routes s' = routes s @ [m]\<close>
        add_entry_tbl(4) [OF t _ fresh _ that] True by simp
    ultimately show ?thesis
      using add True length_routes [OF t] sbr.get_route [of cfg s' m] by auto
  next
    case False
    then have "s' = s \<and> r = 0" using add sbr.add_full [of m s cfg] by auto
    then show ?thesis using add False length_routes [OF t] by auto
  qed
qed

text \<open>A concrete run for the witnesses: initialize and add one route.\<close>

definition sbr0 :: CFE_SBR where
  "sbr0 = \<lparr>RoutingTbl = [], RouteIdxTop = 0, MSGMAP = []\<rparr>"

definition sbr1 :: "CFE_SBR_MapConfig \<Rightarrow> CFE_SBR" where
  "sbr1 cfg = fst (the (CFE_SBR_AddRoute cfg (CFE_SBR_Init cfg sbr0) 0x1806))"

lemma sbr1_reachable: "sbr_reachable cfg (sbr1 cfg)" and routes_sbr1: "routes (sbr1 cfg) = [0x1806]"
proof -
  let ?i = "CFE_SBR_Init cfg sbr0"
  have inv: "map_inv cfg ?i" by (rule sbr.init_inv)
  have r: "routes ?i = []" by (rule sbr.routes_init)
  have top: "unat (RouteIdxTop ?i) < 256" by (simp add: CFE_SBR_Init_def CFE_SBR_Init_Map_def Let_def)
  have v: "CFE_SB_IsValidMsgId 0x1806" by (simp add: IsValidMsgId_iff)
  have g: "CFE_SBR_GetRouteId cfg ?i 0x1806 = Some 0" using get_invalid_iff [OF inv] r by simp
  obtain s' rid c where a: "CFE_SBR_AddRoute cfg ?i 0x1806 = Some (s', rid, c)"
    using sbr.add_ends [OF inv] by blast
  have "sbr_reachable cfg s'" by (rule sbr_reachable.step [OF sbr_reachable.init sbr_step.add [OF g a]])
  moreover have "routes s' = [0x1806]" using sbr.add_routes(2) [OF inv v _ top a] r by simp
  moreover have "s' = sbr1 cfg" by (simp add: sbr1_def a)
  ultimately show "sbr_reachable cfg (sbr1 cfg)" "routes (sbr1 cfg) = [0x1806]" by simp_all
qed

theorem sbr_lookup_correct_witness:
  "\<exists>r. CFE_SBR_GetRouteId SBR_MAP_HASH (sbr1 SBR_MAP_HASH) 0x1806 = Some r \<and> CFE_SBR_IsValidRouteId r \<and>
     CFE_SBR_GetMsgId (sbr1 SBR_MAP_HASH) r = 0x1806"
  using sbr_lookup_correct [OF sbr1_reachable, of SBR_MAP_HASH "0x1806"] by (auto simp: routes_sbr1)

theorem sbr_add_route_correct_witness:
  "\<exists>s' r c. CFE_SBR_AddRoute SBR_MAP_HASH (sbr1 SBR_MAP_HASH) 0x0801 = Some (s', r, c) \<and>
     CFE_SBR_IsValidRouteId r \<and> CFE_SBR_GetRouteId SBR_MAP_HASH s' 0x0801 = Some r \<and>
     routes s' = [0x1806, 0x0801]"
proof -
  have "CFE_SBR_GetRouteId SBR_MAP_HASH (sbr1 SBR_MAP_HASH) 0x0801 = Some 0"
    using get_invalid_iff [OF reachable_map_inv [OF sbr1_reachable], of SBR_MAP_HASH "0x0801"]
    by (simp add: routes_sbr1)
  from sbr_add_route_correct [OF sbr1_reachable this] show ?thesis
    by (auto simp: routes_sbr1 IsValidMsgId_iff)
qed

section \<open>The two maps agree\<close>

text \<open>A run of additions from initialization, each id answered by its route id.\<close>

fun add_all :: "CFE_SBR_MapConfig \<Rightarrow> CFE_SBR \<Rightarrow> CFE_SB_MsgId list \<Rightarrow> (CFE_SBR \<times> CFE_SBR_RouteId list) option" where
  "add_all cfg s [] = Some (s, [])"
| "add_all cfg s (m # ms) =
     (case CFE_SBR_GetRouteId cfg s m of
        None \<Rightarrow> None
      | Some r0 \<Rightarrow>
          (case (if CFE_SBR_IsValidRouteId r0 then Some (s, r0, 0) else CFE_SBR_AddRoute cfg s m) of
             None \<Rightarrow> None
           | Some (s', r, c) \<Rightarrow> map_option (\<lambda>(s'', rs). (s'', r # rs)) (add_all cfg s' ms)))"

text \<open>The abstract run: only the list of routed ids.\<close>

fun add_all_spec :: "CFE_SB_MsgId list \<Rightarrow> CFE_SB_MsgId list \<Rightarrow> CFE_SB_MsgId list \<times> CFE_SBR_RouteId list" where
  "add_all_spec ids [] = (ids, [])"
| "add_all_spec ids (m # ms) =
     (let ids' = (if m \<notin> set ids \<and> CFE_SB_IsValidMsgId m \<and> length ids < 256 then ids @ [m] else ids);
          (ids'', rs) = add_all_spec ids' ms
      in (ids'', route_of ids' m # rs))"

lemma add_all_refines:
  "map_inv cfg s \<Longrightarrow>
   \<exists>s'. add_all cfg s ms = Some (s', snd (add_all_spec (routes s) ms)) \<and>
        map_inv cfg s' \<and> routes s' = fst (add_all_spec (routes s) ms)"
proof (induction ms arbitrary: s)
  case (Cons m ms)
  note inv = Cons.prems
  have t: "tbl_inv s" by (rule sbr.inv_tbl [OF inv])
  have l: "length (routes s) = unat (RouteIdxTop s)" by (rule length_routes [OF t])
  have v: "CFE_SBR_IsValidRouteId (route_of (routes s) m) \<longleftrightarrow> m \<in> set (routes s)"
    using map_inv_tbl [OF inv] by (intro route_of_valid) auto
  obtain s1 r c where a: "CFE_SBR_AddRoute cfg s m = Some (s1, r, c)" using sbr.add_ends [OF inv] by blast
  consider "m \<in> set (routes s)" | "m \<notin> set (routes s)" "CFE_SB_IsValidMsgId m \<and> unat (RouteIdxTop s) < 256"
    | "m \<notin> set (routes s)" "\<not> (CFE_SB_IsValidMsgId m \<and> unat (RouteIdxTop s) < 256)" by blast
  then show ?case
  proof cases
    case 1
    then show ?thesis using Cons.IH [OF inv] v sbr.get_route [OF inv, of m]
      by (auto simp: split_beta Let_def)
  next
    case 2
    have "map_inv cfg s1" "routes s1 = routes s @ [m]" "r = route_of (routes s1) m"
      using sbr.add_routes [OF inv _ 2(1) _ a] 2(2) by auto
    then show ?thesis using Cons.IH [of s1] v 2 a l sbr.get_route [OF inv, of m]
      by (auto simp: split_beta Let_def)
  next
    case 3
    then have "s1 = s \<and> r = 0" using a sbr.add_full [of m s cfg] by auto
    then show ?thesis using Cons.IH [OF inv] v 3 a l sbr.get_route [OF inv, of m]
      by (auto simp: split_beta Let_def)
  qed
qed simp

text \<open>
  C29. The choice of the map does not change the behaviour of routing: for any sequence of
  message ids, looked up and added when missing, the direct and the hash map both end, give
  the same route ids in the same order, and afterwards look every message id up to the same
  route.
\<close>

theorem maps_agree:
  "\<exists>sd sh rs. add_all SBR_MAP_DIRECT (CFE_SBR_Init SBR_MAP_DIRECT s) ms = Some (sd, rs) \<and>
     add_all SBR_MAP_HASH (CFE_SBR_Init SBR_MAP_HASH s) ms = Some (sh, rs) \<and>
     (\<forall>m. CFE_SBR_GetRouteId SBR_MAP_DIRECT sd m = CFE_SBR_GetRouteId SBR_MAP_HASH sh m)"
proof -
  note d = add_all_refines [OF sbr.init_inv [of SBR_MAP_DIRECT s], of ms]
  note h = add_all_refines [OF sbr.init_inv [of SBR_MAP_HASH s], of ms]
  have "routes (CFE_SBR_Init SBR_MAP_DIRECT s) = routes (CFE_SBR_Init SBR_MAP_HASH s)"
    by (simp add: sbr.routes_init)
  with d h show ?thesis using sbr.get_route by metis
qed

section \<open>Iteration\<close>

abbreviation (input) rid :: "nat \<Rightarrow> CFE_SBR_RouteId" where
  "rid i \<equiv> CFE_SBR_ValueToRouteId (of_nat i)"

lemma unat_ucast_small: "unat w < 2 ^ 16 \<Longrightarrow> unat (ucast (w :: u32) :: u16) = unat w"
  by (simp add: unsigned_ucast_eq take_bit_nat_eq_self)

lemma unat_ucast_up: "unat (ucast (w :: u16) :: u32) = unat w"
proof -
  have "unat w < 2 ^ 32" using unsigned_less [where 'a = nat, of w] by simp
  then show ?thesis by (simp add: unsigned_ucast_eq take_bit_nat_eq_self)
qed

lemma foreach_throttle_step:
  assumes top: "unat (RouteIdxTop s) \<le> 256" and start: "unat (StartIndex t) \<le> 256"
    and max: "unat (MaxLoop t) < 2 ^ 32 - 256"
  shows "CFE_SBR_ForEachRouteId s cb x (Some t) =
    (let a = unat (StartIndex t); b = a + unat (MaxLoop t); top = unat (RouteIdxTop s)
     in (fold (\<lambda>i. cb (rid i)) [a..<min b top] x,
         Some (t\<lparr>NextIndex := if b < top then of_nat b else 0\<rparr>)))"
proof -
  let ?st = "ucast (StartIndex t) :: u16"
  have st: "unat ?st = unat (StartIndex t)" using start by (simp add: unat_ucast_small)
  have sum: "unat (ucast ?st + MaxLoop t :: u32) = unat (StartIndex t) + unat (MaxLoop t)"
    using start max by (simp add: unat_word_ariths unat_ucast_up st)
  have lt: "ucast ?st + MaxLoop t < (ucast (RouteIdxTop s) :: u32) \<longleftrightarrow>
      unat (StartIndex t) + unat (MaxLoop t) < unat (RouteIdxTop s)"
    unfolding word_less_nat_alt sum unat_ucast_up ..
  show ?thesis
  proof (cases "unat (StartIndex t) + unat (MaxLoop t) < unat (RouteIdxTop s)")
    case True
    let ?e = "ucast (ucast ?st + MaxLoop t :: u32) :: u16"
    have e: "unat ?e = unat (StartIndex t) + unat (MaxLoop t)"
      using True top unat_ucast_small [of "ucast ?st + MaxLoop t"] unfolding sum by simp
    have e32: "(ucast ?e :: u32) = of_nat (unat (StartIndex t) + unat (MaxLoop t))"
      by (metis e unat_ucast_up of_nat_unat ucast_id)
    from True show ?thesis
      by (simp add: CFE_SBR_ForEachRouteId_def Let_def for_routes_def lt e st e32 del: of_nat_add)
  next
    case False
    then show ?thesis
      by (simp add: CFE_SBR_ForEachRouteId_def Let_def for_routes_def lt st min_def)
  qed
qed

text \<open>
  A walk in chunks, as the background file writers do it: call with the next index the last
  call returned until that is zero.
\<close>

fun foreach_chunks :: "nat \<Rightarrow> CFE_SBR \<Rightarrow> (CFE_SBR_RouteId \<Rightarrow> 'a \<Rightarrow> 'a) \<Rightarrow> 'a \<Rightarrow> u32 \<Rightarrow> u32 \<Rightarrow> 'a option" where
  "foreach_chunks 0 s cb x start n = None"
| "foreach_chunks (Suc fuel) s cb x start n =
     (let (x', t) = CFE_SBR_ForEachRouteId s cb x (Some \<lparr>StartIndex = start, MaxLoop = n, NextIndex = 0\<rparr>)
      in if NextIndex (the t) = 0 then Some x' else foreach_chunks fuel s cb x' (NextIndex (the t)) n)"

lemma foreach_chunks_from:
  assumes top: "unat (RouteIdxTop s) \<le> 256" and n: "0 < unat n" "unat n < 2 ^ 32 - 256"
  shows "a \<le> unat (RouteIdxTop s) \<Longrightarrow> unat (RouteIdxTop s) - a < fuel \<Longrightarrow>
     foreach_chunks fuel s cb x (of_nat a) n = Some (fold (\<lambda>i. cb (rid i)) [a..<unat (RouteIdxTop s)] x)"
proof (induction fuel arbitrary: a x)
  case (Suc fuel)
  let ?top = "unat (RouteIdxTop s)"
  have a: "unat (of_nat a :: u32) = a" using Suc.prems(1) top by (simp add: unat_of_nat)
  have step: "CFE_SBR_ForEachRouteId s cb x (Some \<lparr>StartIndex = of_nat a, MaxLoop = n, NextIndex = 0\<rparr>) =
    (fold (\<lambda>i. cb (rid i)) [a..<min (a + unat n) ?top] x,
     Some \<lparr>StartIndex = of_nat a, MaxLoop = n, NextIndex = if a + unat n < ?top then of_nat (a + unat n) else 0\<rparr>)"
    using foreach_throttle_step [OF top, of "\<lparr>StartIndex = of_nat a, MaxLoop = n, NextIndex = 0\<rparr>" cb x]
      Suc.prems(1) top n(2) by (simp add: a Let_def)
  show ?case
  proof (cases "a + unat n < ?top")
    case True
    have nz: "(of_nat (a + unat n) :: u32) \<noteq> 0"
    proof -
      have "unat (of_nat (a + unat n) :: u32) = a + unat n" using True top by (simp add: unat_of_nat del: of_nat_add)
      then show ?thesis using n(1) by (metis add_is_0 less_numeral_extra(3) unat_0)
    qed
    have "[a..<?top] = [a..<a + unat n] @ [a + unat n..<?top]"
      using True upt_add_eq_append [of a "a + unat n" "?top - (a + unat n)"] by simp
    moreover have "foreach_chunks fuel s cb (fold (\<lambda>i. cb (rid i)) [a..<a + unat n] x) (of_nat (a + unat n)) n =
        Some (fold (\<lambda>i. cb (rid i)) [a + unat n..<?top] (fold (\<lambda>i. cb (rid i)) [a..<a + unat n] x))"
      using True Suc.prems(2) n(1) by (intro Suc.IH) auto
    ultimately show ?thesis using True nz by (simp add: step del: of_nat_add)
  next
    case False
    then show ?thesis by (simp add: step min_def)
  qed
qed simp

text \<open>
  The walk over all routes: without a throttle every route of the table gets the callback
  once, in the order the routes were added; with a throttle of any chunk size (at least one,
  and too small to wrap around), repeating the call from the returned next index ends and has
  exactly the same effect.
\<close>

theorem foreach_chunks_complete:
  assumes "sbr_reachable cfg s" and "0 < n" and "n < 2 ^ 32 - 256" and "length (routes s) < fuel"
  shows "fst (CFE_SBR_ForEachRouteId s cb x NULL) = fold cb (map (route_of (routes s)) (routes s)) x \<and>
         foreach_chunks fuel s cb x 0 n = Some (fst (CFE_SBR_ForEachRouteId s cb x NULL))"
proof -
  have inv: "map_inv cfg s" by (rule reachable_map_inv [OF assms(1)])
  have t: "tbl_inv s" by (rule sbr.inv_tbl [OF inv])
  have l: "length (routes s) = unat (RouteIdxTop s)" by (rule length_routes [OF t])
  have top: "unat (RouteIdxTop s) \<le> 256" using t by (simp add: tbl_inv_def)
  have n: "0 < unat n" "unat n < 2 ^ 32 - 256"
    using assms(2,3) by (simp_all add: word_less_nat_alt)
  have all: "fst (CFE_SBR_ForEachRouteId s cb x NULL) = fold (\<lambda>i. cb (rid i)) [0..<unat (RouteIdxTop s)] x"
    by (simp add: CFE_SBR_ForEachRouteId_def for_routes_def)
  have "map (route_of (routes s)) (routes s) = map rid [0..<unat (RouteIdxTop s)]"
    using map_inv_tbl [OF inv] l
    by (intro nth_equalityI) (simp_all add: route_of_nth CFE_SBR_ValueToRouteId_def)
  then have "fold cb (map (route_of (routes s)) (routes s)) x = fold (\<lambda>i. cb (rid i)) [0..<unat (RouteIdxTop s)] x"
    by (simp add: fold_map comp_def)
  moreover have "foreach_chunks fuel s cb x 0 n = Some (fold (\<lambda>i. cb (rid i)) [0..<unat (RouteIdxTop s)] x)"
    using foreach_chunks_from [OF top n, of 0 fuel cb x] assms(4) l by simp
  ultimately show ?thesis using all by simp
qed

theorem foreach_chunks_complete_witness:
  "foreach_chunks 5 (sbr1 SBR_MAP_DIRECT) (\<lambda>r rs. rs @ [r]) [] 0 1 =
     Some (fst (CFE_SBR_ForEachRouteId (sbr1 SBR_MAP_DIRECT) (\<lambda>r rs. rs @ [r]) [] NULL))"
  using foreach_chunks_complete [OF sbr1_reachable, of 1 SBR_MAP_DIRECT 5 "\<lambda>r rs. rs @ [r]" "[]"]
  by (simp add: routes_sbr1)

end
