(* ===== verification/CFE_Time.thy ===== *)
theory CFE_Time
  imports CFS_Prelude "HOL-Library.Signed_Division"
begin

unbundle bit_operations_syntax

text \<open>
  Time arithmetic of the TIME service (\<^verbatim>\<open>src/cfe/fsw/cfe-core/src/time/cfe_time_api.c\<close>) and
  the conversions of OSAL it uses (\<^verbatim>\<open>osapi-clock.h\<close>).

  A \<open>CFE_TIME_SysTime_t\<close> is two \<open>uint32\<close>: seconds and 1/2^32 subseconds.  Its abstraction
  \<open>time64\<close> is the 64-bit fixed point value, on which addition and subtraction are those of
  64-bit machine words.
\<close>

section \<open>Arithmetic\<close>

type_synonym SysTime = CFE_TIME_SysTime

datatype CFE_TIME_Compare_t = CFE_TIME_A_LT_B | CFE_TIME_EQUAL | CFE_TIME_A_GT_B

abbreviation (input) CFE_TIME_NEGATIVE :: u32 where "CFE_TIME_NEGATIVE \<equiv> 0x80000000"

definition CFE_TIME_Add :: "SysTime \<Rightarrow> SysTime \<Rightarrow> SysTime" where
  "CFE_TIME_Add Time1 Time2 =
     (let sub = Subseconds Time1 + Subseconds Time2
      in if sub < Subseconds Time1
         then \<lparr>Seconds = (Seconds Time1 + Seconds Time2) + 1, Subseconds = sub\<rparr>
         else \<lparr>Seconds = Seconds Time1 + Seconds Time2, Subseconds = sub\<rparr>)"

definition CFE_TIME_Subtract :: "SysTime \<Rightarrow> SysTime \<Rightarrow> SysTime" where
  "CFE_TIME_Subtract Time1 Time2 =
     (let sub = Subseconds Time1 - Subseconds Time2
      in if sub > Subseconds Time1
         then \<lparr>Seconds = (Seconds Time1 - Seconds Time2) - 1, Subseconds = sub\<rparr>
         else \<lparr>Seconds = Seconds Time1 - Seconds Time2, Subseconds = sub\<rparr>)"

definition CFE_TIME_Compare :: "SysTime \<Rightarrow> SysTime \<Rightarrow> CFE_TIME_Compare_t" where
  "CFE_TIME_Compare TimeA TimeB =
     (if Seconds TimeA > Seconds TimeB
      then if Seconds TimeA - Seconds TimeB > CFE_TIME_NEGATIVE then CFE_TIME_A_LT_B else CFE_TIME_A_GT_B
      else if Seconds TimeA < Seconds TimeB
      then if Seconds TimeB - Seconds TimeA > CFE_TIME_NEGATIVE then CFE_TIME_A_GT_B else CFE_TIME_A_LT_B
      else if Subseconds TimeA > Subseconds TimeB then CFE_TIME_A_GT_B
      else if Subseconds TimeA < Subseconds TimeB then CFE_TIME_A_LT_B
      else CFE_TIME_EQUAL)"

section \<open>OSAL time and unit conversion\<close>

text \<open>
  \<open>OS_time_t\<close> counts ticks of 100 ns in an \<open>int64\<close>.  The values below stay far inside that
  range, so ticks are integers; division truncates as in C (\<open>sdiv\<close>, \<open>smod\<close>) and casts to
  \<open>uint32\<close> are written out.
\<close>

abbreviation (input) OS_TIME_TICK_RESOLUTION_NS :: int where "OS_TIME_TICK_RESOLUTION_NS \<equiv> 100"
abbreviation (input) OS_TIME_TICKS_PER_SECOND :: int where "OS_TIME_TICKS_PER_SECOND \<equiv> 10000000"
abbreviation (input) OS_TIME_TICKS_PER_USEC :: int where "OS_TIME_TICKS_PER_USEC \<equiv> 10"

type_synonym OS_time_t = int

definition OS_TimeGetFractionalPart :: "OS_time_t \<Rightarrow> int" where
  "OS_TimeGetFractionalPart ticks = ticks smod OS_TIME_TICKS_PER_SECOND"

definition OS_TimeGetTotalSeconds :: "OS_time_t \<Rightarrow> int" where
  "OS_TimeGetTotalSeconds ticks = ticks sdiv OS_TIME_TICKS_PER_SECOND"

definition OS_TimeGetSubsecondsPart :: "OS_time_t \<Rightarrow> u32" where
  "OS_TimeGetSubsecondsPart tm =
     (let frac = push_bit 30 (OS_TimeGetFractionalPart tm) + drop_bit 2 OS_TIME_TICKS_PER_SECOND
      in word_of_int ((frac - 1) sdiv drop_bit 2 OS_TIME_TICKS_PER_SECOND))"

definition OS_TimeGetMicrosecondsPart :: "OS_time_t \<Rightarrow> u32" where
  "OS_TimeGetMicrosecondsPart tm = word_of_int (OS_TimeGetFractionalPart tm) div word_of_int OS_TIME_TICKS_PER_USEC"

definition OS_TimeAssembleFromNanoseconds :: "int \<Rightarrow> u32 \<Rightarrow> OS_time_t" where
  "OS_TimeAssembleFromNanoseconds seconds nanoseconds =
     seconds * OS_TIME_TICKS_PER_SECOND + uint nanoseconds div OS_TIME_TICK_RESOLUTION_NS"

definition OS_TimeAssembleFromSubseconds :: "int \<Rightarrow> u32 \<Rightarrow> OS_time_t" where
  "OS_TimeAssembleFromSubseconds seconds subseconds =
     seconds * OS_TIME_TICKS_PER_SECOND +
     drop_bit 30 (uint subseconds * drop_bit 2 OS_TIME_TICKS_PER_SECOND)"

definition CFE_TIME_Sub2MicroSecs :: "u32 \<Rightarrow> u32" where
  "CFE_TIME_Sub2MicroSecs SubSeconds =
     OS_TimeGetMicrosecondsPart (OS_TimeAssembleFromSubseconds 0 SubSeconds)"

definition CFE_TIME_Micro2SubSecs :: "u32 \<Rightarrow> u32" where
  "CFE_TIME_Micro2SubSecs MicroSeconds =
     (if MicroSeconds > 999999 then 0xFFFFFFFF
      else OS_TimeGetSubsecondsPart (OS_TimeAssembleFromNanoseconds 0 (MicroSeconds * 1000)))"

section \<open>The 64-bit view\<close>

definition time64 :: "SysTime \<Rightarrow> u64" where
  "time64 t = word_of_int (uint (Seconds t) * 2 ^ 32 + uint (Subseconds t))"

lemma uint_u32_lt: "uint (x :: u32) < 2 ^ 32"
  using unsigned_less [where 'a = int, of x] by simp

lemma uint_time64: "uint (time64 t) = uint (Seconds t) * 2 ^ 32 + uint (Subseconds t)"
proof -
  have "uint (Seconds t) * 2 ^ 32 + uint (Subseconds t) < 2 ^ 64"
    using uint_u32_lt [of "Seconds t"] uint_u32_lt [of "Subseconds t"] by simp
  moreover have "0 \<le> uint (Seconds t) * 2 ^ 32 + uint (Subseconds t)" by simp
  ultimately show ?thesis
    by (simp only: time64_def uint_word_of_int) (simp del: power.simps)
qed

lemma fixpoint_inject:
  fixes a b c d :: int
  assumes "a * 2 ^ 32 + b = c * 2 ^ 32 + d" and "0 \<le> b" "b < 2 ^ 32" "0 \<le> d" "d < 2 ^ 32"
  shows "a = c \<and> b = d"
proof -
  have "(a * 2 ^ 32 + b) div 2 ^ 32 = a" and "(c * 2 ^ 32 + d) div 2 ^ 32 = c"
    using assms(2-5) by simp_all
  with assms(1) show ?thesis by simp
qed

lemma time64_inject: "time64 a = time64 b \<longleftrightarrow> a = b"
proof
  assume "time64 a = time64 b"
  then have "uint (Seconds a) = uint (Seconds b) \<and> uint (Subseconds a) = uint (Subseconds b)"
    by (intro fixpoint_inject) (simp_all only: uint_time64 [symmetric] uint_u32_lt uint_ge_0)
  then show "a = b" by (simp add: word_uint_eq_iff)
qed simp

lemma mod64_split: "(x :: int) mod 2 ^ 64 = (x div 2 ^ 32 mod 2 ^ 32) * 2 ^ 32 + x mod 2 ^ 32"
  using zmod_zmult2_eq [of "2 ^ 32" x "2 ^ 32"] by simp

lemma mod64_parts:
  fixes s u :: int
  shows "(s * 2 ^ 32 + u) mod 2 ^ 64 = ((s + u div 2 ^ 32) mod 2 ^ 32) * 2 ^ 32 + u mod 2 ^ 32"
  unfolding mod64_split by simp

lemma carry:
  fixes u1 u2 :: int
  assumes "0 \<le> u1" "u1 < 2 ^ 32" "0 \<le> u2" "u2 < 2 ^ 32"
  shows "(u1 + u2) div 2 ^ 32 = (if (u1 + u2) mod 2 ^ 32 < u1 then 1 else 0)"
proof (cases "u1 + u2 < 2 ^ 32")
  case False
  then have "(u1 + u2) div 2 ^ 32 = 1" using assms by (intro int_div_pos_eq [of _ _ _ "u1 + u2 - 2 ^ 32"]) auto
  moreover from this have "(u1 + u2) mod 2 ^ 32 = u1 + u2 - 2 ^ 32" by (simp add: minus_div_mult_eq_mod [symmetric])
  ultimately show ?thesis using assms by simp
qed (use assms in simp)

lemma borrow:
  fixes u1 u2 :: int
  assumes "0 \<le> u1" "u1 < 2 ^ 32" "0 \<le> u2" "u2 < 2 ^ 32"
  shows "(u1 - u2) div 2 ^ 32 = (if u1 < (u1 - u2) mod 2 ^ 32 then - 1 else 0)"
proof (cases "u2 \<le> u1")
  case False
  then have "(u1 - u2) div 2 ^ 32 = - 1" using assms by (intro int_div_pos_eq [of _ _ _ "u1 - u2 + 2 ^ 32"]) auto
  moreover from this have "(u1 - u2) mod 2 ^ 32 = u1 - u2 + 2 ^ 32" by (simp add: minus_div_mult_eq_mod [symmetric])
  ultimately show ?thesis using assms by simp
qed (use assms in simp)

lemmas u32_bounds = uint_ge_0 uint_u32_lt

lemma time64_Add: "time64 (CFE_TIME_Add a b) = time64 a + time64 b"
proof -
  let ?s1 = "uint (Seconds a)" and ?s2 = "uint (Seconds b)" and ?u1 = "uint (Subseconds a)" and ?u2 = "uint (Subseconds b)"
  have "uint (time64 (CFE_TIME_Add a b)) =
     (?s1 + ?s2 + (if (?u1 + ?u2) mod 2 ^ 32 < ?u1 then 1 else 0)) mod 2 ^ 32 * 2 ^ 32 + (?u1 + ?u2) mod 2 ^ 32"
    by (simp add: uint_time64 CFE_TIME_Add_def Let_def uint_word_ariths word_less_def mod_simps)
  also have "\<dots> = ((?s1 + ?s2) * 2 ^ 32 + (?u1 + ?u2)) mod 2 ^ 64"
    unfolding mod64_parts carry [OF u32_bounds u32_bounds] ..
  also have "\<dots> = uint (time64 a + time64 b)"
    by (simp add: uint_word_ariths uint_time64 algebra_simps)
  finally show ?thesis by (simp add: word_uint_eq_iff)
qed

lemma time64_Subtract: "time64 (CFE_TIME_Subtract a b) = time64 a - time64 b"
proof -
  let ?s1 = "uint (Seconds a)" and ?s2 = "uint (Seconds b)" and ?u1 = "uint (Subseconds a)" and ?u2 = "uint (Subseconds b)"
  have "uint (time64 (CFE_TIME_Subtract a b)) =
     (?s1 - ?s2 + (if ?u1 < (?u1 - ?u2) mod 2 ^ 32 then - 1 else 0)) mod 2 ^ 32 * 2 ^ 32 + (?u1 - ?u2) mod 2 ^ 32"
    by (simp add: uint_time64 CFE_TIME_Subtract_def Let_def uint_word_ariths word_less_def mod_simps)
  also have "\<dots> = ((?s1 - ?s2) * 2 ^ 32 + (?u1 - ?u2)) mod 2 ^ 64"
    unfolding mod64_parts borrow [OF u32_bounds u32_bounds] ..
  also have "\<dots> = uint (time64 a - time64 b)"
    by (simp add: uint_word_ariths uint_time64 algebra_simps)
  finally show ?thesis by (simp add: word_uint_eq_iff)
qed

text \<open>
  C34. Time addition and subtraction are addition and subtraction of the 64-bit fixed point
  values, with the carry and borrow between subseconds and seconds and wrap-around as for a
  64-bit machine word; so subtraction undoes addition.
\<close>

theorem time_arith_64bit:
  "time64 (CFE_TIME_Add a b) = time64 a + time64 b \<and>
   time64 (CFE_TIME_Subtract a b) = time64 a - time64 b \<and>
   CFE_TIME_Subtract (CFE_TIME_Add a b) b = a \<and> CFE_TIME_Add (CFE_TIME_Subtract a b) b = a \<and>
   CFE_TIME_Add a b = CFE_TIME_Add b a"
  by (simp add: time64_Add time64_Subtract add.commute flip: time64_inject)

section \<open>Comparison\<close>

definition flip_cmp :: "CFE_TIME_Compare_t \<Rightarrow> CFE_TIME_Compare_t" where
  "flip_cmp c = (case c of CFE_TIME_A_LT_B \<Rightarrow> CFE_TIME_A_GT_B | CFE_TIME_EQUAL \<Rightarrow> CFE_TIME_EQUAL
                 | CFE_TIME_A_GT_B \<Rightarrow> CFE_TIME_A_LT_B)"

lemma Compare_swap: "CFE_TIME_Compare b a = flip_cmp (CFE_TIME_Compare a b)"
  by (auto simp: CFE_TIME_Compare_def flip_cmp_def)

lemma sub_pos: "b < a \<Longrightarrow> uint (a - b) = uint a - uint (b :: u32)"
proof -
  assume "b < a"
  then have "(uint a - uint b) mod 2 ^ 32 = uint a - uint b"
    using uint_u32_lt [of a] uint_ge_0 [of b] unfolding word_less_def
    by (intro mod_pos_pos_trivial) linarith+
  then show ?thesis by (simp add: uint_word_ariths)
qed

text \<open>With integers for the seconds and subseconds of the two times.\<close>

lemma Compare_int:
  "CFE_TIME_Compare a b =
     (let s = uint (Seconds a) - uint (Seconds b); u = uint (Subseconds a) - uint (Subseconds b)
      in if 0 < s then if 2 ^ 31 < s then CFE_TIME_A_LT_B else CFE_TIME_A_GT_B
         else if s < 0 then if 2 ^ 31 < - s then CFE_TIME_A_GT_B else CFE_TIME_A_LT_B
         else if 0 < u then CFE_TIME_A_GT_B else if u < 0 then CFE_TIME_A_LT_B else CFE_TIME_EQUAL)"
  by (auto simp: CFE_TIME_Compare_def Let_def word_less_def sub_pos [unfolded word_less_def])

lemma diff64:
  "uint (time64 a - time64 b) =
     ((uint (Seconds a) - uint (Seconds b)) * 2 ^ 32 + (uint (Subseconds a) - uint (Subseconds b))) mod 2 ^ 64"
  by (simp add: uint_word_ariths uint_time64 algebra_simps)

lemma Compare_int_correct:
  fixes s u :: int
  assumes "- (2 ^ 32) < s" "s < 2 ^ 32" "- (2 ^ 32) < u" "u < 2 ^ 32" "s \<noteq> 2 ^ 31" "s \<noteq> - (2 ^ 31)"
  defines "d \<equiv> (s * 2 ^ 32 + u) mod 2 ^ 64"
  shows "(if 0 < s then if 2 ^ 31 < s then CFE_TIME_A_LT_B else CFE_TIME_A_GT_B
         else if s < 0 then if 2 ^ 31 < - s then CFE_TIME_A_GT_B else CFE_TIME_A_LT_B
         else if 0 < u then CFE_TIME_A_GT_B else if u < 0 then CFE_TIME_A_LT_B else CFE_TIME_EQUAL) =
        (if d = 0 then CFE_TIME_EQUAL else if d < 2 ^ 63 then CFE_TIME_A_GT_B else CFE_TIME_A_LT_B)"
proof -
  let ?x = "s * 2 ^ 32 + u"
  consider "0 < s" "s < 2 ^ 31" | "2 ^ 31 < s" | "s < 0" "- (2 ^ 31) < s" | "s < - (2 ^ 31)" | "s = 0" "0 \<le> u" | "s = 0" "u < 0"
    using assms(5,6) by linarith
  then show ?thesis
  proof cases
    case 1
    then have "d = ?x" unfolding d_def using assms by simp
    with 1 assms(1-6) show ?thesis by simp
  next
    case 2
    then have "d = ?x" unfolding d_def using assms by simp
    with 2 assms(1-6) show ?thesis by simp
  next
    case 3
    then have "d = ?x + 2 ^ 64" unfolding d_def using assms by (intro int_mod_pos_eq [of _ _ "- 1"]) auto
    with 3 assms(1-6) show ?thesis by simp
  next
    case 4
    then have "d = ?x + 2 ^ 64" unfolding d_def using assms by (intro int_mod_pos_eq [of _ _ "- 1"]) auto
    with 4 assms(1-6) show ?thesis by simp
  next
    case 5
    then have "d = u" unfolding d_def using assms by simp
    with 5 assms(1-6) show ?thesis by simp
  next
    case 6
    then have "d = u + 2 ^ 64" unfolding d_def using assms by (intro int_mod_pos_eq [of _ _ "- 1"]) auto
    with 6 assms(1-6) show ?thesis by simp
  qed
qed



section \<open>Microseconds\<close>

lemma smod_nonneg: "0 \<le> (a :: int) \<Longrightarrow> 0 < b \<Longrightarrow> a smod b = a mod b"
  and sdiv_nonneg: "0 \<le> (a :: int) \<Longrightarrow> 0 < b \<Longrightarrow> a sdiv b = a div b"
  by (simp_all add: signed_modulo_int_def signed_divide_int_def modulo_int_def divide_int_def sgn_if)

lemma int_div_bounds:
  fixes x :: int
  assumes "0 < b"
  shows "b * (x div b) \<le> x" and "x < b * (x div b) + b"
  using assms pos_mod_sign [of b x] pos_mod_bound [of b x] mult_div_mod_eq [of b x] by linarith+

lemma int_div_lt: "0 < b \<Longrightarrow> x < b * c \<Longrightarrow> x div b < (c :: int)"
  using int_div_bounds(1) [of b x] by (metis mult_less_cancel_left_pos order_le_less_trans)

lemma Sub2MicroSecs_int:
  "uint (CFE_TIME_Sub2MicroSecs s) = uint s * 2500000 div 2 ^ 30 div 10"
proof -
  let ?t = "uint s * 2500000 div 2 ^ 30"
  have t: "0 \<le> ?t" "?t < 10000000"
    using uint_u32_lt [of s] by (simp_all add: int_div_lt pos_imp_zdiv_nonneg_iff)
  then show ?thesis
    by (simp add: CFE_TIME_Sub2MicroSecs_def OS_TimeGetMicrosecondsPart_def OS_TimeGetFractionalPart_def
        OS_TimeAssembleFromSubseconds_def smod_nonneg drop_bit_eq_div uint_div uint_word_of_int)
qed

lemma Micro2SubSecs_int:
  assumes "u \<le> 999999"
  shows "uint (CFE_TIME_Micro2SubSecs u) = (10 * uint u * 2 ^ 30 + 2499999) div 2500000"
proof -
  have u: "0 \<le> uint u" "uint u \<le> 999999" "\<not> 999999 < u"
    using assms by (simp_all add: word_le_def word_less_def)
  have ns: "uint (u * 1000) = uint u * 1000" using u by (simp add: uint_word_ariths)
  let ?q = "(10 * uint u * 2 ^ 30 + 2499999) div 2500000"
  have q: "0 \<le> ?q" "?q < 2 ^ 32" using u by (simp_all add: int_div_lt pos_imp_zdiv_nonneg_iff)
  have "CFE_TIME_Micro2SubSecs u = word_of_int ?q"
    using u assms
    by (simp add: CFE_TIME_Micro2SubSecs_def OS_TimeGetSubsecondsPart_def OS_TimeGetFractionalPart_def
        OS_TimeAssembleFromNanoseconds_def smod_nonneg sdiv_nonneg push_bit_eq_mult drop_bit_eq_div
        ns Let_def algebra_simps)
  then show ?thesis using q by (simp add: uint_word_of_int)
qed

lemma ceil_floor:
  fixes x k m :: int
  assumes "0 < k" "k \<le> m" "0 \<le> x"
  shows "(x * m + (k - 1)) div k * k div m = x"
proof -
  let ?c = "(x * m + (k - 1)) div k"
  have "k * ?c \<le> x * m + (k - 1)" "x * m + (k - 1) < k * ?c + k"
    using int_div_bounds [OF assms(1)] by blast+
  then have "x * m \<le> ?c * k" "?c * k < x * m + m" using assms(2) by (simp_all add: mult.commute)
  then show ?thesis
    using assms by (intro int_div_pos_eq [of _ m x "?c * k - x * m"]) (simp_all add: algebra_simps)
qed

lemma Sub2MicroSecs_le: "CFE_TIME_Sub2MicroSecs s \<le> 999999"
proof -
  have "uint s * 2500000 div 2 ^ 30 < 10000000"
    using uint_u32_lt [of s] by (simp add: int_div_lt)
  then have "uint s * 2500000 div 2 ^ 30 div 10 < 1000000" by (intro int_div_lt) simp_all
  then show ?thesis by (simp add: word_le_def Sub2MicroSecs_int)
qed

text \<open>
  Microseconds to subseconds and back is the identity for every value below one second,
  because the first conversion rounds up and the second down; larger inputs saturate at the
  largest subsecond count.  And the microseconds of any subsecond count are below one second.
\<close>

theorem microseconds_roundtrip:
  "CFE_TIME_Sub2MicroSecs (CFE_TIME_Micro2SubSecs u) = (if u \<le> 999999 then u else 999999) \<and>
   CFE_TIME_Sub2MicroSecs s \<le> 999999"
proof
  show "CFE_TIME_Sub2MicroSecs (CFE_TIME_Micro2SubSecs u) = (if u \<le> 999999 then u else 999999)"
  proof (cases "u \<le> 999999")
    case True
    have "uint (CFE_TIME_Sub2MicroSecs (CFE_TIME_Micro2SubSecs u)) =
        (10 * uint u * 2 ^ 30 + (2500000 - 1)) div 2500000 * 2500000 div 2 ^ 30 div 10"
      by (simp add: Sub2MicroSecs_int Micro2SubSecs_int [OF True])
    also have "\<dots> = 10 * uint u div 10" by (subst ceil_floor) simp_all
    finally show ?thesis using True by (simp add: word_uint_eq_iff)
  next
    case False
    have "uint (CFE_TIME_Sub2MicroSecs 0xFFFFFFFF) = 999999" by (simp add: Sub2MicroSecs_int)
    moreover have "999999 < u" using False by simp
    ultimately show ?thesis
      using False by (simp add: CFE_TIME_Micro2SubSecs_def word_uint_eq_iff)
  qed
qed (rule Sub2MicroSecs_le)

end
