(* ===== verification/CFE_Time_Print.thy ===== *)
theory CFE_Time_Print
  imports CFE_Time
begin

text \<open>
  \<open>CFE_TIME_Print\<close> (\<^verbatim>\<open>cfe_time_api.c\<close>): the calendar conversion with its loop over the years
  and the formatted text.  The code's \<open>uint32\<close> counters are natural numbers here: the input is
  a \<open>uint32\<close> number of seconds and every intermediate value is smaller, so none wraps around.
\<close>

abbreviation (input) CFE_MISSION_TIME_EPOCH_YEAR :: nat where "CFE_MISSION_TIME_EPOCH_YEAR \<equiv> 1980"
abbreviation (input) CFE_MISSION_TIME_EPOCH_DAY :: nat where "CFE_MISSION_TIME_EPOCH_DAY \<equiv> 1"
abbreviation (input) CFE_MISSION_TIME_EPOCH_HOUR :: nat where "CFE_MISSION_TIME_EPOCH_HOUR \<equiv> 0"
abbreviation (input) CFE_MISSION_TIME_EPOCH_MINUTE :: nat where "CFE_MISSION_TIME_EPOCH_MINUTE \<equiv> 0"
abbreviation (input) CFE_MISSION_TIME_EPOCH_SECOND :: nat where "CFE_MISSION_TIME_EPOCH_SECOND \<equiv> 0"

section \<open>The calendar conversion\<close>

definition DaysInYear :: "nat \<Rightarrow> nat" where
  "DaysInYear NumberOfYears =
     (if NumberOfYears mod 4 = 0
      then if NumberOfYears mod 100 \<noteq> 0 then 366 else if NumberOfYears mod 400 = 0 then 366 else 365
      else 365)"

function count_years :: "nat \<Rightarrow> nat \<Rightarrow> nat \<times> nat" where
  "count_years NumberOfYears NumberOfDays =
     (if NumberOfDays < DaysInYear NumberOfYears then (NumberOfYears, NumberOfDays)
      else count_years (NumberOfYears + 1) (NumberOfDays - DaysInYear NumberOfYears))"
  by pat_completeness auto
termination by (relation "measure snd") (auto simp: DaysInYear_def split: if_splits)

function carry_seconds :: "nat \<Rightarrow> nat \<Rightarrow> nat \<times> nat" where
  "carry_seconds NumberOfMinutes NumberOfSeconds =
     (if NumberOfSeconds \<ge> 60 then carry_seconds (NumberOfMinutes + 1) (NumberOfSeconds - 60)
      else (NumberOfMinutes, NumberOfSeconds))"
  by pat_completeness auto
termination by (relation "measure snd") auto

declare count_years.simps [simp del] carry_seconds.simps [simp del]

record calendar =
  cal_year :: nat
  cal_day :: nat
  cal_hour :: nat
  cal_minute :: nat
  cal_second :: nat

definition print_calendar :: "nat \<Rightarrow> calendar" where
  "print_calendar secs =
     (let NumberOfMinutes = secs div 60 + CFE_MISSION_TIME_EPOCH_MINUTE;
          NumberOfSeconds = secs mod 60 + CFE_MISSION_TIME_EPOCH_SECOND;
          (NumberOfMinutes, NumberOfSeconds) = carry_seconds NumberOfMinutes NumberOfSeconds;
          NumberOfHours = NumberOfMinutes div 60 + CFE_MISSION_TIME_EPOCH_HOUR;
          NumberOfMinutes = NumberOfMinutes mod 60;
          NumberOfDays = NumberOfHours div 24 + (CFE_MISSION_TIME_EPOCH_DAY - 1);
          NumberOfHours = NumberOfHours mod 24;
          (NumberOfYears, NumberOfDays) = count_years CFE_MISSION_TIME_EPOCH_YEAR NumberOfDays
      in \<lparr>cal_year = NumberOfYears, cal_day = NumberOfDays + 1, cal_hour = NumberOfHours,
          cal_minute = NumberOfMinutes, cal_second = NumberOfSeconds\<rparr>)"

section \<open>The text\<close>

text \<open>The character \<open>'0' + (char) n\<close>.\<close>

definition digit :: "nat \<Rightarrow> char" where
  "digit n = char_of (48 + n)"

definition print_text :: "nat \<Rightarrow> nat \<Rightarrow> nat \<Rightarrow> nat \<Rightarrow> nat \<Rightarrow> nat \<Rightarrow> string" where
  "print_text y d h m s u =
     [digit (y div 1000), digit (y mod 1000 div 100),
      digit (y mod 1000 mod 100 div 10), digit (y mod 1000 mod 100 mod 10), CHR ''-'',
      digit (d div 100), digit (d mod 100 div 10), digit (d mod 100 mod 10), CHR ''-'',
      digit (h div 10), digit (h mod 10), CHR '':'',
      digit (m div 10), digit (m mod 10), CHR '':'',
      digit (s div 10), digit (s mod 10), CHR ''.'',
      digit (u div 10000), digit (u mod 10000 div 1000),
      digit (u mod 10000 mod 1000 div 100), digit (u mod 10000 mod 1000 mod 100 div 10),
      digit (u mod 10000 mod 1000 mod 100 mod 10), CHR 0x00]"

definition CFE_TIME_Print :: "string ptr \<Rightarrow> CFE_TIME_SysTime \<Rightarrow> string ptr" where
  "CFE_TIME_Print PrintBuffer TimeToPrint =
     (case PrintBuffer of
        None \<Rightarrow> None
      | Some buf \<Rightarrow>
          (let c = print_calendar (unat (Seconds TimeToPrint));
               NumberOfMicros = unat (CFE_TIME_Sub2MicroSecs (Subseconds TimeToPrint)) div 10
           in Some (print_text (cal_year c) (cal_day c) (cal_hour c) (cal_minute c) (cal_second c) NumberOfMicros
                    @ drop 24 buf)))"

section \<open>The calendar is right\<close>

text \<open>The days from the start of the epoch year to the start of a later year.\<close>

fun days_since :: "nat \<Rightarrow> nat \<Rightarrow> nat" where
  "days_since y0 0 = 0"
| "days_since y0 (Suc n) = days_since y0 n + DaysInYear (y0 + n)"

lemma days_since_Suc: "days_since y0 (Suc n) = DaysInYear y0 + days_since (Suc y0) n"
  by (induction n) simp_all

lemma count_years_correct:
  "count_years y0 n = (y, d) \<Longrightarrow> y0 \<le> y \<and> n = days_since y0 (y - y0) + d \<and> d < DaysInYear y"
proof (induction y0 n arbitrary: y d rule: count_years.induct)
  case (1 y0 n)
  show ?case
  proof (cases "n < DaysInYear y0")
    case True
    with "1.prems" show ?thesis by (auto simp: count_years.simps)
  next
    case False
    then have "count_years (y0 + 1) (n - DaysInYear y0) = (y, d)"
      using "1.prems" by (subst (asm) count_years.simps) simp
    with "1.IH" [OF False] have ih: "y0 + 1 \<le> y" "n - DaysInYear y0 = days_since (y0 + 1) (y - (y0 + 1)) + d"
        "d < DaysInYear y" by auto
    then have k: "y - y0 = Suc (y - (y0 + 1))" by simp
    show ?thesis using ih False unfolding k days_since_Suc by simp
  qed
qed

lemma carry_seconds_small: "s < 60 \<Longrightarrow> carry_seconds m s = (m, s)"
  by (simp add: carry_seconds.simps)

lemma recompose:
  fixes secs m h :: nat
  assumes "m * 60 + s = secs" and "h * 60 + mi = m" and "d * 24 + hh = h"
  shows "secs = (d * 24 + hh) * 3600 + mi * 60 + s"
  using assms by simp

lemma print_calendar_correct:
  fixes secs :: nat
  defines "c \<equiv> print_calendar secs"
  shows "1980 \<le> cal_year c" and "1 \<le> cal_day c" and "cal_day c \<le> DaysInYear (cal_year c)"
    and "cal_hour c < 24" and "cal_minute c < 60" and "cal_second c < 60"
    and "secs = ((days_since 1980 (cal_year c - 1980) + (cal_day c - 1)) * 24 + cal_hour c) * 3600
                + cal_minute c * 60 + cal_second c"
proof -
  obtain y d where yd: "count_years 1980 (secs div 60 div 60 div 24) = (y, d)" by force
  have c: "c = \<lparr>cal_year = y, cal_day = d + 1, cal_hour = secs div 60 div 60 mod 24,
                cal_minute = secs div 60 mod 60, cal_second = secs mod 60\<rparr>"
    using yd by (simp add: c_def print_calendar_def carry_seconds_small Let_def)
  have r: "1980 \<le> y" "secs div 60 div 60 div 24 = days_since 1980 (y - 1980) + d" "d < DaysInYear y"
    using count_years_correct [OF yd] by auto
  show "1980 \<le> cal_year c" "1 \<le> cal_day c" "cal_day c \<le> DaysInYear (cal_year c)"
    "cal_hour c < 24" "cal_minute c < 60" "cal_second c < 60"
    using r by (simp_all add: c)
  have "secs = ((secs div 60 div 60 div 24) * 24 + secs div 60 div 60 mod 24) * 3600 + secs div 60 mod 60 * 60 + secs mod 60"
    by (rule recompose) (simp_all only: div_mult_mod_eq)
  then show "secs = ((days_since 1980 (cal_year c - 1980) + (cal_day c - 1)) * 24 + cal_hour c) * 3600
                + cal_minute c * 60 + cal_second c"
    unfolding r(2) by (simp add: c)
qed

section \<open>The text is the calendar\<close>

text \<open>The value of a decimal numeral.\<close>

definition dec_val :: "string \<Rightarrow> nat" where
  "dec_val s = foldl (\<lambda>n c. n * 10 + (of_char c - 48)) 0 s"

lemma of_char_digit: "n < 10 \<Longrightarrow> (of_char (digit n) :: nat) = 48 + n"
  by (simp add: digit_def)

lemma count_years_bound: "count_years y0 n = (y, d) \<Longrightarrow> y \<le> y0 + n div 365"
proof (induction y0 n arbitrary: y d rule: count_years.induct)
  case (1 y0 n)
  show ?case
  proof (cases "n < DaysInYear y0")
    case True
    with "1.prems" show ?thesis by (auto simp: count_years.simps)
  next
    case False
    then have "count_years (y0 + 1) (n - DaysInYear y0) = (y, d)"
      using "1.prems" by (subst (asm) count_years.simps) simp
    with "1.IH" [OF False] have "y \<le> y0 + 1 + (n - DaysInYear y0) div 365" by auto
    also have "(n - DaysInYear y0) div 365 \<le> (n - 365) div 365"
      by (rule div_le_mono) (auto simp: DaysInYear_def)
    also have "y0 + 1 + (n - 365) div 365 = y0 + n div 365"
      using False by (simp add: DaysInYear_def le_div_geq [of 365 n] split: if_splits)
    finally show ?thesis by simp
  qed
qed

lemma print_year_bound: "cal_year (print_calendar (unat (t :: u32))) < 10000"
proof -
  obtain y d where yd: "count_years 1980 (unat t div 60 div 60 div 24) = (y, d)" by force
  have "unat t < 2 ^ 32" using unsigned_less [where 'a = nat, of t] by simp
  then have "unat t div 86400 div 365 \<le> 2 ^ 32 div 86400 div 365" by (intro div_le_mono) simp
  then have "y < 10000" using count_years_bound [OF yd] by (simp add: div_mult2_eq [symmetric])
  with yd show ?thesis by (simp add: print_calendar_def carry_seconds_small Let_def)
qed

lemma digits:
  "y < 10000 \<Longrightarrow> dec_val (take 4 (print_text y d h m s u)) = y"
  "d < 1000 \<Longrightarrow> dec_val (take 3 (drop 5 (print_text y d h m s u))) = d"
  "h < 100 \<Longrightarrow> dec_val (take 2 (drop 9 (print_text y d h m s u))) = h"
  "m < 100 \<Longrightarrow> dec_val (take 2 (drop 12 (print_text y d h m s u))) = m"
  "s < 100 \<Longrightarrow> dec_val (take 2 (drop 15 (print_text y d h m s u))) = s"
  "u < 100000 \<Longrightarrow> dec_val (take 5 (drop 18 (print_text y d h m s u))) = u"
  by (simp_all add: print_text_def dec_val_def of_char_digit)

lemma layout:
  "length (print_text y d h m s u) = 24" "print_text y d h m s u ! 4 = CHR ''-''"
  "print_text y d h m s u ! 8 = CHR ''-''" "print_text y d h m s u ! 11 = CHR '':''"
  "print_text y d h m s u ! 14 = CHR '':''" "print_text y d h m s u ! 17 = CHR ''.''"
  "print_text y d h m s u ! 23 = CHR 0x00"
  by (simp_all add: print_text_def)

text \<open>
  The printed time is right: the buffer starts with 24 characters in the layout
  yyyy-ddd-hh:mm:ss.xxxxx followed by a NUL, the rest of the buffer is untouched, the numerals
  in them denote a calendar date of the mission calendar (epoch year 1980, day of the year
  from 1 to 365 or 366 by the leap year rule) and a time of day, that date and time are
  exactly the printed number of seconds after the epoch, and the last five digits are the
  microseconds of the subseconds with the last digit cut.
\<close>

theorem time_print_correct:
  assumes "24 \<le> length buf"
  shows "\<exists>txt. CFE_TIME_Print (Some buf) t = Some (txt @ drop 24 buf) \<and> length txt = 24 \<and>
     txt ! 4 = CHR ''-'' \<and> txt ! 8 = CHR ''-'' \<and> txt ! 11 = CHR '':'' \<and> txt ! 14 = CHR '':'' \<and>
     txt ! 17 = CHR ''.'' \<and> txt ! 23 = CHR 0x00 \<and>
     (let y = dec_val (take 4 txt); d = dec_val (take 3 (drop 5 txt)); h = dec_val (take 2 (drop 9 txt));
          m = dec_val (take 2 (drop 12 txt)); s = dec_val (take 2 (drop 15 txt)); u = dec_val (take 5 (drop 18 txt))
      in 1980 \<le> y \<and> 1 \<le> d \<and> d \<le> DaysInYear y \<and> h < 24 \<and> m < 60 \<and> s < 60 \<and>
         unat (Seconds t) = ((days_since 1980 (y - 1980) + (d - 1)) * 24 + h) * 3600 + m * 60 + s \<and>
         u = unat (CFE_TIME_Sub2MicroSecs (Subseconds t)) div 10)"
proof -
  let ?c = "print_calendar (unat (Seconds t))" and ?u = "unat (CFE_TIME_Sub2MicroSecs (Subseconds t)) div 10"
  note p = print_calendar_correct [of "unat (Seconds t)"]
  have d: "cal_day ?c < 1000" using p(3) by (auto simp: DaysInYear_def split: if_splits)
  have "CFE_TIME_Sub2MicroSecs (Subseconds t) \<le> 999999" using Sub2MicroSecs_le .
  then have u: "?u < 100000" by (simp add: word_le_nat_alt)
  have h: "cal_hour ?c < 100" "cal_minute ?c < 100" "cal_second ?c < 100" using p(4-6) by simp_all
  let ?txt = "print_text (cal_year ?c) (cal_day ?c) (cal_hour ?c) (cal_minute ?c) (cal_second ?c) ?u"
  have "CFE_TIME_Print (Some buf) t = Some (?txt @ drop 24 buf)"
    by (simp add: CFE_TIME_Print_def Let_def)
  then show ?thesis
    using p by (intro exI [of _ ?txt]) (simp add: layout digits print_year_bound d h u Let_def)
qed

theorem time_print_correct_witness:
  "\<exists>txt. CFE_TIME_Print (Some (replicate 30 CHR ''x'')) \<lparr>Seconds = 86400, Subseconds = 0\<rparr> =
       Some (txt @ replicate 6 CHR ''x'') \<and> length txt = 24"
  using time_print_correct [of "replicate 30 CHR ''x''" "\<lparr>Seconds = 86400, Subseconds = 0\<rparr>"] by auto

end
