(* ===== verification/CFE_Time_Ref.thy ===== *)
theory CFE_Time_Ref
  imports CFE_Time
begin

unbundle bit_operations_syntax

text \<open>
  The time reference of the TIME service (\<^verbatim>\<open>cfe_time_utils.c\<close>, \<^verbatim>\<open>cfe_time_utils.h\<close> and the
  query functions of \<^verbatim>\<open>cfe_time_api.c\<close>): a ring of four versioned reference states, the
  update protocol that publishes a new version, the lock-free reader with its retries, and the
  functions that set and compute the time.

  A reader may run between any two writes of an updater, so \<open>CFE_TIME_GetReference\<close> takes an
  environment: the global data at each of its reads (attempt number, then read number within
  the attempt) and the local clock at each attempt.  A quiet environment is the constant one.
  Enumerations are the \<open>int16\<close> values the code stores.  The local clock of the PSP is an
  argument.
\<close>

section \<open>State\<close>

type_synonym int16 = "16 word"

abbreviation (input) CFE_TIME_ClockState_INVALID :: int16 where "CFE_TIME_ClockState_INVALID \<equiv> - 1"
abbreviation (input) CFE_TIME_ClockState_VALID :: int16 where "CFE_TIME_ClockState_VALID \<equiv> 0"
abbreviation (input) CFE_TIME_ClockState_FLYWHEEL :: int16 where "CFE_TIME_ClockState_FLYWHEEL \<equiv> 1"
abbreviation (input) CFE_TIME_SourceSelect_INTERNAL :: int16 where "CFE_TIME_SourceSelect_INTERNAL \<equiv> 1"
abbreviation (input) CFE_TIME_ToneSignalSelect_PRIMARY :: int16 where "CFE_TIME_ToneSignalSelect_PRIMARY \<equiv> 1"
abbreviation (input) CFE_TIME_ToneSignalSelect_REDUNDANT :: int16 where "CFE_TIME_ToneSignalSelect_REDUNDANT \<equiv> 2"
abbreviation (input) CFE_TIME_AdjustDirection_ADD :: int16 where "CFE_TIME_AdjustDirection_ADD \<equiv> 1"
abbreviation (input) CFE_TIME_FlywheelState_NO_FLY :: int16 where "CFE_TIME_FlywheelState_NO_FLY \<equiv> 0"
abbreviation (input) CFE_TIME_FlywheelState_IS_FLY :: int16 where "CFE_TIME_FlywheelState_IS_FLY \<equiv> 1"
abbreviation (input) CFE_TIME_SetState_NOT_SET :: int16 where "CFE_TIME_SetState_NOT_SET \<equiv> 0"
abbreviation (input) CFE_TIME_SetState_WAS_SET :: int16 where "CFE_TIME_SetState_WAS_SET \<equiv> 1"

record CFE_TIME_ReferenceState =
  StateVersion :: u32
  AtToneLeapSeconds :: int16
  ClockSetState :: int16
  ClockFlyState :: int16
  DelayDirection :: int16
  AtToneMET :: SysTime
  AtToneSTCF :: SysTime
  AtToneDelay :: SysTime
  AtToneLatch :: SysTime

text \<open>
  \<open>CFE_TIME_Reference_t\<close>: the copied fields of the reference state (its \<open>StateVersion\<close> is not
  copied and has no meaning here) and the values computed from them.
\<close>

record CFE_TIME_Reference =
  Copied :: CFE_TIME_ReferenceState
  CurrentLatch :: SysTime
  TimeSinceTone :: SysTime
  CurrentMET :: SysTime

record CFE_TIME_Global =
  ReferenceState :: "CFE_TIME_ReferenceState list"
  LastVersionCounter :: u32
  MaxLocalClock :: SysTime
  ClockSource :: int16
  ClockSignal :: int16
  ServerFlyState :: int16
  Forced2Fly :: bool
  IsToneGood :: bool
  OneTimeAdjust :: SysTime
  OneHzAdjust :: SysTime
  OneTimeDirection :: int16
  OneHzDirection :: int16
  VirtualMET :: u32
  SynchCallback :: "nat ptr list"

text \<open>The build configuration of the service.\<close>

record CFE_TIME_Config =
  CFG_SERVER :: bool
  CFG_CLIENT :: bool
  CFG_DEFAULT_TAI :: bool

section \<open>The update protocol\<close>

definition ref_slot :: "u32 \<Rightarrow> nat" where
  "ref_slot Version = unat (Version AND 3)"

definition upd_ref :: "nat \<Rightarrow> (CFE_TIME_ReferenceState \<Rightarrow> CFE_TIME_ReferenceState) \<Rightarrow> CFE_TIME_Global \<Rightarrow> CFE_TIME_Global" where
  "upd_ref i f g = g\<lparr>ReferenceState := (ReferenceState g)[i := f (ReferenceState g ! i)]\<rparr>"

text \<open>
  The writes of \<open>CFE_TIME_StartReferenceUpdate\<close> to the global data, in the order of its assignments: the version first,
  then the fields of the current state.  The assignment of a \<open>CFE_TIME_SysTime_t\<close> is two writes of 32 bits.  The list
  is what an updater executes one by one below, where readers run between any two of them.
\<close>

definition start_writes :: "u32 \<Rightarrow> (CFE_TIME_Global \<Rightarrow> CFE_TIME_Global) list" where
  "start_writes LastVersion =
     (let Version = LastVersion + 1;
          CurrState = (\<lambda>g. ReferenceState g ! ref_slot LastVersion);
          NextState = upd_ref (ref_slot Version)
      in [\<lambda>g. NextState (\<lambda>n. n\<lparr>StateVersion := Version\<rparr>) g,
          \<lambda>g. NextState (\<lambda>n. n\<lparr>AtToneLeapSeconds := AtToneLeapSeconds (CurrState g)\<rparr>) g,
          \<lambda>g. NextState (\<lambda>n. n\<lparr>ClockSetState := ClockSetState (CurrState g)\<rparr>) g,
          \<lambda>g. NextState (\<lambda>n. n\<lparr>ClockFlyState := ClockFlyState (CurrState g)\<rparr>) g,
          \<lambda>g. NextState (\<lambda>n. n\<lparr>DelayDirection := DelayDirection (CurrState g)\<rparr>) g,
          \<lambda>g. NextState (\<lambda>n. n\<lparr>AtToneMET := (AtToneMET n)\<lparr>Seconds := Seconds (AtToneMET (CurrState g))\<rparr>\<rparr>) g,
          \<lambda>g. NextState (\<lambda>n. n\<lparr>AtToneMET := (AtToneMET n)\<lparr>Subseconds := Subseconds (AtToneMET (CurrState g))\<rparr>\<rparr>) g,
          \<lambda>g. NextState (\<lambda>n. n\<lparr>AtToneSTCF := (AtToneSTCF n)\<lparr>Seconds := Seconds (AtToneSTCF (CurrState g))\<rparr>\<rparr>) g,
          \<lambda>g. NextState (\<lambda>n. n\<lparr>AtToneSTCF := (AtToneSTCF n)\<lparr>Subseconds := Subseconds (AtToneSTCF (CurrState g))\<rparr>\<rparr>) g,
          \<lambda>g. NextState (\<lambda>n. n\<lparr>AtToneDelay := (AtToneDelay n)\<lparr>Seconds := Seconds (AtToneDelay (CurrState g))\<rparr>\<rparr>) g,
          \<lambda>g. NextState (\<lambda>n. n\<lparr>AtToneDelay := (AtToneDelay n)\<lparr>Subseconds := Subseconds (AtToneDelay (CurrState g))\<rparr>\<rparr>) g,
          \<lambda>g. NextState (\<lambda>n. n\<lparr>AtToneLatch := (AtToneLatch n)\<lparr>Seconds := Seconds (AtToneLatch (CurrState g))\<rparr>\<rparr>) g,
          \<lambda>g. NextState (\<lambda>n. n\<lparr>AtToneLatch := (AtToneLatch n)\<lparr>Subseconds := Subseconds (AtToneLatch (CurrState g))\<rparr>\<rparr>) g])"

text \<open>The result is the global data and the index of the state to fill in.\<close>

definition CFE_TIME_StartReferenceUpdate :: "CFE_TIME_Global \<Rightarrow> CFE_TIME_Global \<times> nat" where
  "CFE_TIME_StartReferenceUpdate g =
     (fold (\<lambda>wr g. wr g) (start_writes (LastVersionCounter g)) g, ref_slot (LastVersionCounter g + 1))"

definition CFE_TIME_FinishReferenceUpdate :: "nat \<Rightarrow> CFE_TIME_Global \<Rightarrow> CFE_TIME_Global" where
  "CFE_TIME_FinishReferenceUpdate NextState g =
     g\<lparr>LastVersionCounter := StateVersion (ReferenceState g ! NextState)\<rparr>"

text \<open>The pattern of every setter: start, change the new state, finish.\<close>

definition ref_update :: "(CFE_TIME_ReferenceState \<Rightarrow> CFE_TIME_ReferenceState) \<Rightarrow> CFE_TIME_Global \<Rightarrow> CFE_TIME_Global" where
  "ref_update f g =
     (let (g, RefState) = CFE_TIME_StartReferenceUpdate g
      in CFE_TIME_FinishReferenceUpdate RefState (upd_ref RefState f g))"

definition CFE_TIME_GetReferenceState :: "CFE_TIME_Global \<Rightarrow> CFE_TIME_ReferenceState" where
  "CFE_TIME_GetReferenceState g = ReferenceState g ! ref_slot (LastVersionCounter g)"

section \<open>Reading the reference\<close>

definition CFE_TIME_LatchClock :: "OS_time_t \<Rightarrow> SysTime" where
  "CFE_TIME_LatchClock LocalTime =
     \<lparr>Seconds = word_of_int (OS_TimeGetTotalSeconds LocalTime),
      Subseconds = OS_TimeGetSubsecondsPart LocalTime\<rparr>"

type_synonym env = "nat \<Rightarrow> nat \<Rightarrow> CFE_TIME_Global"

text \<open>
  One attempt: the version, the eight fields one by one, then the version check.  A \<open>CFE_TIME_SysTime_t\<close> is copied in
  two reads of 32 bits.
\<close>

definition read_attempt :: "env \<Rightarrow> nat \<Rightarrow> CFE_TIME_ReferenceState \<times> bool" where
  "read_attempt env k =
     (let VersionCounter = LastVersionCounter (env k 0);
          RefState = (\<lambda>j. ReferenceState (env k j) ! ref_slot VersionCounter)
      in (\<lparr>StateVersion = 0,
           AtToneLeapSeconds = AtToneLeapSeconds (RefState 5),
           ClockSetState = ClockSetState (RefState 10),
           ClockFlyState = ClockFlyState (RefState 11),
           DelayDirection = DelayDirection (RefState 12),
           AtToneMET = \<lparr>Seconds = Seconds (AtToneMET (RefState 1)), Subseconds = Subseconds (AtToneMET (RefState 2))\<rparr>,
           AtToneSTCF = \<lparr>Seconds = Seconds (AtToneSTCF (RefState 3)), Subseconds = Subseconds (AtToneSTCF (RefState 4))\<rparr>,
           AtToneDelay = \<lparr>Seconds = Seconds (AtToneDelay (RefState 6)), Subseconds = Subseconds (AtToneDelay (RefState 7))\<rparr>,
           AtToneLatch = \<lparr>Seconds = Seconds (AtToneLatch (RefState 8)), Subseconds = Subseconds (AtToneLatch (RefState 9))\<rparr>\<rparr>,
          VersionCounter = StateVersion (RefState 13)))"

fun read_reference :: "nat \<Rightarrow> nat \<Rightarrow> env \<Rightarrow> CFE_TIME_ReferenceState \<times> nat" where
  "read_reference RetryCount k env =
     (let (r, ok) = read_attempt env k
      in if ok then (r, k)
         else case RetryCount of 0 \<Rightarrow> (r, k) | Suc n \<Rightarrow> read_reference n (k + 1) env)"

text \<open>What follows the copy; \<open>g\<close> is the global data, \<open>latch\<close> the local clock of the last attempt.\<close>

definition compute_reference ::
  "CFE_TIME_Config \<Rightarrow> CFE_TIME_Global \<Rightarrow> CFE_TIME_ReferenceState \<Rightarrow> SysTime \<Rightarrow> CFE_TIME_Reference" where
  "compute_reference cfg g r latch =
     (let since = (if CFE_TIME_Compare latch (AtToneLatch r) = CFE_TIME_A_LT_B
                   then CFE_TIME_Add (CFE_TIME_Subtract (MaxLocalClock g) (AtToneLatch r)) latch
                   else CFE_TIME_Subtract latch (AtToneLatch r));
          met = CFE_TIME_Add since (AtToneMET r);
          met = (if CFG_CLIENT cfg
                 then if DelayDirection r = CFE_TIME_AdjustDirection_ADD
                      then CFE_TIME_Add met (AtToneDelay r) else CFE_TIME_Subtract met (AtToneDelay r)
                 else met)
      in \<lparr>Copied = r, CurrentLatch = latch, TimeSinceTone = since, CurrentMET = met\<rparr>)"

definition CFE_TIME_GetReference :: "CFE_TIME_Config \<Rightarrow> env \<Rightarrow> (nat \<Rightarrow> OS_time_t) \<Rightarrow> CFE_TIME_Reference" where
  "CFE_TIME_GetReference cfg env clock =
     (let (r, k) = read_reference 4 0 env
      in compute_reference cfg (env k 14) r (CFE_TIME_LatchClock (clock k)))"

section \<open>Computed times\<close>

definition CFE_TIME_CalculateTAI :: "CFE_TIME_Reference \<Rightarrow> SysTime" where
  "CFE_TIME_CalculateTAI Reference = CFE_TIME_Add (CurrentMET Reference) (AtToneSTCF (Copied Reference))"

definition CFE_TIME_CalculateUTC :: "CFE_TIME_Reference \<Rightarrow> SysTime" where
  "CFE_TIME_CalculateUTC Reference =
     (let TimeAsUTC = CFE_TIME_Add (CurrentMET Reference) (AtToneSTCF (Copied Reference))
      in TimeAsUTC\<lparr>Seconds := Seconds TimeAsUTC - scast (AtToneLeapSeconds (Copied Reference))\<rparr>)"

definition CFE_TIME_CalculateState :: "CFE_TIME_Config \<Rightarrow> CFE_TIME_Global \<Rightarrow> CFE_TIME_Reference \<Rightarrow> int16" where
  "CFE_TIME_CalculateState cfg g Reference =
     (if ClockSetState (Copied Reference) = CFE_TIME_SetState_WAS_SET
      then if ClockFlyState (Copied Reference) = CFE_TIME_FlywheelState_NO_FLY
           then if CFG_CLIENT cfg \<and> ServerFlyState g = CFE_TIME_FlywheelState_IS_FLY
                then CFE_TIME_ClockState_FLYWHEEL else CFE_TIME_ClockState_VALID
           else CFE_TIME_ClockState_FLYWHEEL
      else CFE_TIME_ClockState_INVALID)"

definition CFE_TIME_GetTAI :: "CFE_TIME_Config \<Rightarrow> env \<Rightarrow> (nat \<Rightarrow> OS_time_t) \<Rightarrow> SysTime" where
  "CFE_TIME_GetTAI cfg env clock = CFE_TIME_CalculateTAI (CFE_TIME_GetReference cfg env clock)"

definition CFE_TIME_GetUTC :: "CFE_TIME_Config \<Rightarrow> env \<Rightarrow> (nat \<Rightarrow> OS_time_t) \<Rightarrow> SysTime" where
  "CFE_TIME_GetUTC cfg env clock = CFE_TIME_CalculateUTC (CFE_TIME_GetReference cfg env clock)"

definition CFE_TIME_GetTime :: "CFE_TIME_Config \<Rightarrow> env \<Rightarrow> (nat \<Rightarrow> OS_time_t) \<Rightarrow> SysTime" where
  "CFE_TIME_GetTime cfg env clock =
     (if CFG_DEFAULT_TAI cfg then CFE_TIME_GetTAI cfg env clock else CFE_TIME_GetUTC cfg env clock)"

definition CFE_TIME_GetMET :: "CFE_TIME_Config \<Rightarrow> env \<Rightarrow> (nat \<Rightarrow> OS_time_t) \<Rightarrow> SysTime" where
  "CFE_TIME_GetMET cfg env clock = CurrentMET (CFE_TIME_GetReference cfg env clock)"

definition CFE_TIME_GetMETseconds :: "CFE_TIME_Config \<Rightarrow> env \<Rightarrow> (nat \<Rightarrow> OS_time_t) \<Rightarrow> u32" where
  "CFE_TIME_GetMETseconds cfg env clock = Seconds (CurrentMET (CFE_TIME_GetReference cfg env clock))"

definition CFE_TIME_GetMETsubsecs :: "CFE_TIME_Config \<Rightarrow> env \<Rightarrow> (nat \<Rightarrow> OS_time_t) \<Rightarrow> u32" where
  "CFE_TIME_GetMETsubsecs cfg env clock = Subseconds (CurrentMET (CFE_TIME_GetReference cfg env clock))"

definition CFE_TIME_GetLeapSeconds :: "CFE_TIME_Config \<Rightarrow> env \<Rightarrow> (nat \<Rightarrow> OS_time_t) \<Rightarrow> int16" where
  "CFE_TIME_GetLeapSeconds cfg env clock = AtToneLeapSeconds (Copied (CFE_TIME_GetReference cfg env clock))"

definition CFE_TIME_GetSTCF :: "CFE_TIME_Config \<Rightarrow> env \<Rightarrow> (nat \<Rightarrow> OS_time_t) \<Rightarrow> SysTime" where
  "CFE_TIME_GetSTCF cfg env clock = AtToneSTCF (Copied (CFE_TIME_GetReference cfg env clock))"

definition CFE_TIME_GetClockState :: "CFE_TIME_Config \<Rightarrow> env \<Rightarrow> (nat \<Rightarrow> OS_time_t) \<Rightarrow> CFE_TIME_Global \<Rightarrow> int16" where
  "CFE_TIME_GetClockState cfg env clock g = CFE_TIME_CalculateState cfg g (CFE_TIME_GetReference cfg env clock)"

text \<open>The two references of \<open>CFE_TIME_MET2SCTime\<close> are read one after the other.\<close>

definition CFE_TIME_MET2SCTime ::
  "CFE_TIME_Config \<Rightarrow> env \<Rightarrow> (nat \<Rightarrow> OS_time_t) \<Rightarrow> env \<Rightarrow> (nat \<Rightarrow> OS_time_t) \<Rightarrow> SysTime \<Rightarrow> SysTime" where
  "CFE_TIME_MET2SCTime cfg env1 clock1 env2 clock2 METTime =
     (let STCF = CFE_TIME_GetSTCF cfg env1 clock1;
          TIATime = CFE_TIME_Add METTime STCF
      in if CFG_DEFAULT_TAI cfg then TIATime
         else CFE_TIME_Subtract TIATime
                \<lparr>Seconds = scast (CFE_TIME_GetLeapSeconds cfg env2 clock2), Subseconds = 0\<rparr>)"

definition CFE_TIME_GetClockInfo :: "CFE_TIME_Config \<Rightarrow> CFE_TIME_Global \<Rightarrow> u16" where
  "CFE_TIME_GetClockInfo cfg g =
     (let RefState = CFE_TIME_GetReferenceState g;
          flag = (\<lambda>b m. if b then m else 0)
      in flag (ClockSetState RefState = CFE_TIME_SetState_WAS_SET) 0x8000
         OR flag (ClockFlyState RefState = CFE_TIME_FlywheelState_IS_FLY) 0x4000
         OR flag (ClockSource g = CFE_TIME_SourceSelect_INTERNAL) 0x2000
         OR flag (ClockSignal g = CFE_TIME_ToneSignalSelect_PRIMARY) 0x1000
         OR flag (ServerFlyState g = CFE_TIME_FlywheelState_IS_FLY) 0x0800
         OR flag (Forced2Fly g) 0x0400
         OR flag (OneTimeDirection g = CFE_TIME_AdjustDirection_ADD) 0x0200
         OR flag (OneHzDirection g = CFE_TIME_AdjustDirection_ADD) 0x0100
         OR flag (DelayDirection RefState = CFE_TIME_AdjustDirection_ADD) 0x0080
         OR flag (CFG_SERVER cfg) 0x0040
         OR flag (IsToneGood g) 0x0020)"

section \<open>Setting the time\<close>

definition CFE_TIME_SetState :: "CFE_TIME_Config \<Rightarrow> int16 \<Rightarrow> CFE_TIME_Global \<Rightarrow> CFE_TIME_Global" where
  "CFE_TIME_SetState cfg NewState g =
     (let (g, RefState) = CFE_TIME_StartReferenceUpdate g;
          g = (if NewState = CFE_TIME_ClockState_FLYWHEEL
               then let g = upd_ref RefState (ClockFlyState_update (\<lambda>_. CFE_TIME_FlywheelState_IS_FLY))
                              (g\<lparr>Forced2Fly := True\<rparr>)
                    in if CFG_SERVER cfg then g\<lparr>ServerFlyState := CFE_TIME_FlywheelState_IS_FLY\<rparr> else g
               else if NewState = CFE_TIME_ClockState_VALID
               then upd_ref RefState (ClockSetState_update (\<lambda>_. CFE_TIME_SetState_WAS_SET)) (g\<lparr>Forced2Fly := False\<rparr>)
               else upd_ref RefState (ClockSetState_update (\<lambda>_. CFE_TIME_SetState_NOT_SET)) (g\<lparr>Forced2Fly := False\<rparr>))
      in CFE_TIME_FinishReferenceUpdate RefState g)"

definition CFE_TIME_SetSource :: "int16 \<Rightarrow> CFE_TIME_Global \<Rightarrow> CFE_TIME_Global" where
  "CFE_TIME_SetSource NewSource g = g\<lparr>ClockSource := NewSource\<rparr>"

definition CFE_TIME_SetSignal :: "int16 \<Rightarrow> CFE_TIME_Global \<Rightarrow> CFE_TIME_Global" where
  "CFE_TIME_SetSignal NewSignal g = g\<lparr>ClockSignal := NewSignal\<rparr>"

definition CFE_TIME_SetDelay :: "SysTime \<Rightarrow> int16 \<Rightarrow> CFE_TIME_Global \<Rightarrow> CFE_TIME_Global" where
  "CFE_TIME_SetDelay NewDelay Direction =
     ref_update (\<lambda>r. r\<lparr>AtToneDelay := NewDelay, DelayDirection := Direction\<rparr>)"

text \<open>\<open>env\<close> and \<open>clock\<close> are those of the reference read, which precedes the update.\<close>

definition CFE_TIME_SetTime ::
  "CFE_TIME_Config \<Rightarrow> env \<Rightarrow> (nat \<Rightarrow> OS_time_t) \<Rightarrow> SysTime \<Rightarrow> CFE_TIME_Global \<Rightarrow> CFE_TIME_Global" where
  "CFE_TIME_SetTime cfg env clock NewTime g =
     (let Reference = CFE_TIME_GetReference cfg env clock;
          NewSTCF = CFE_TIME_Subtract NewTime (CurrentMET Reference);
          NewSTCF = (if CFG_DEFAULT_TAI cfg then NewSTCF
                     else NewSTCF\<lparr>Seconds := Seconds NewSTCF + scast (AtToneLeapSeconds (Copied Reference))\<rparr>)
      in ref_update (AtToneSTCF_update (\<lambda>_. NewSTCF)) g)"

definition CFE_TIME_SetMET :: "OS_time_t \<Rightarrow> SysTime \<Rightarrow> CFE_TIME_Global \<Rightarrow> CFE_TIME_Global" where
  "CFE_TIME_SetMET LocalTime NewMET g =
     (let (g, RefState) = CFE_TIME_StartReferenceUpdate g;
          g = upd_ref RefState (AtToneMET_update (\<lambda>_. NewMET)) g;
          g = g\<lparr>VirtualMET := Seconds NewMET\<rparr>;
          g = upd_ref RefState (AtToneLatch_update (\<lambda>_. CFE_TIME_LatchClock LocalTime)) g
      in CFE_TIME_FinishReferenceUpdate RefState g)"

definition CFE_TIME_SetSTCF :: "SysTime \<Rightarrow> CFE_TIME_Global \<Rightarrow> CFE_TIME_Global" where
  "CFE_TIME_SetSTCF NewSTCF = ref_update (AtToneSTCF_update (\<lambda>_. NewSTCF))"

definition CFE_TIME_SetLeapSeconds :: "int16 \<Rightarrow> CFE_TIME_Global \<Rightarrow> CFE_TIME_Global" where
  "CFE_TIME_SetLeapSeconds NewLeaps = ref_update (AtToneLeapSeconds_update (\<lambda>_. NewLeaps))"

definition CFE_TIME_SetAdjust :: "SysTime \<Rightarrow> int16 \<Rightarrow> CFE_TIME_Global \<Rightarrow> CFE_TIME_Global" where
  "CFE_TIME_SetAdjust NewAdjust Direction g =
     (let (g, RefState) = CFE_TIME_StartReferenceUpdate g;
          g = g\<lparr>OneTimeAdjust := NewAdjust, OneTimeDirection := Direction\<rparr>;
          STCF = AtToneSTCF (ReferenceState g ! RefState);
          NewSTCF = (if Direction = CFE_TIME_AdjustDirection_ADD then CFE_TIME_Add STCF NewAdjust
                     else CFE_TIME_Subtract STCF NewAdjust);
          g = upd_ref RefState (AtToneSTCF_update (\<lambda>_. NewSTCF)) g
      in CFE_TIME_FinishReferenceUpdate RefState g)"

definition CFE_TIME_Set1HzAdj :: "SysTime \<Rightarrow> int16 \<Rightarrow> CFE_TIME_Global \<Rightarrow> CFE_TIME_Global" where
  "CFE_TIME_Set1HzAdj NewAdjust Direction g = g\<lparr>OneHzAdjust := NewAdjust, OneHzDirection := Direction\<rparr>"

section \<open>Updates in a quiet system\<close>

text \<open>The invariant of the published state: its slot holds its version.\<close>

definition ref_inv :: "CFE_TIME_Global \<Rightarrow> bool" where
  "ref_inv g \<longleftrightarrow> length (ReferenceState g) = 4 \<and>
     StateVersion (CFE_TIME_GetReferenceState g) = LastVersionCounter g"

lemma and_3: "unat (v AND 3 :: u32) = unat v mod 4"
proof -
  have m: "(3 :: u32) = mask 2" by (simp add: mask_eq_exp_minus_1)
  show ?thesis unfolding m by (simp add: unsigned_take_bit_eq take_bit_eq_mod unat_mod flip: take_bit_eq_mask)
qed

lemma ref_slot_lt [simp]: "ref_slot v < 4"
  by (simp add: ref_slot_def and_3)

lemma ref_slot_add: "ref_slot (v + of_nat n) = (ref_slot v + n) mod 4"
proof -
  have "unat (v + of_nat n) mod 4 = (unat v + n) mod 2 ^ 32 mod 4"
    by (simp add: unat_word_ariths unat_of_nat mod_simps)
  also have "\<dots> = (unat v + n) mod 4" by (rule mod_mod_cancel) simp
  finally show ?thesis by (simp add: ref_slot_def and_3 mod_simps)
qed

lemma ref_slot_next: "ref_slot (v + 1) \<noteq> ref_slot v"
proof -
  have "ref_slot (v + 1) = (ref_slot v + 1) mod 4" using ref_slot_add [of v 1] by simp
  then show ?thesis using ref_slot_lt [of v] by presburger
qed

lemma SysTime_words [simp]:
  "\<lparr>Seconds = Seconds t, Subseconds = Subseconds t\<rparr> = (t :: SysTime)"
  "(t :: SysTime)\<lparr>Seconds := a, Subseconds := b\<rparr> = \<lparr>Seconds = a, Subseconds = b\<rparr>"
  by (cases t, simp)+

lemma copy_fields:
  "\<lparr>StateVersion = v, AtToneLeapSeconds = AtToneLeapSeconds r, ClockSetState = ClockSetState r,
    ClockFlyState = ClockFlyState r, DelayDirection = DelayDirection r, AtToneMET = AtToneMET r,
    AtToneSTCF = AtToneSTCF r, AtToneDelay = AtToneDelay r, AtToneLatch = AtToneLatch r\<rparr> = r\<lparr>StateVersion := v\<rparr>"
  by (cases r) simp

lemma overwrite_fields:
  "r\<lparr>StateVersion := v, AtToneLeapSeconds := a, ClockSetState := b, ClockFlyState := c, DelayDirection := d,
     AtToneMET := m, AtToneSTCF := s, AtToneDelay := y, AtToneLatch := l\<rparr> =
   \<lparr>StateVersion = v, AtToneLeapSeconds = a, ClockSetState = b, ClockFlyState = c, DelayDirection = d,
     AtToneMET = m, AtToneSTCF = s, AtToneDelay = y, AtToneLatch = l\<rparr>"
  by (cases r) simp

lemma StartReferenceUpdate_eq:
  assumes "length (ReferenceState g) = 4"
  shows "CFE_TIME_StartReferenceUpdate g =
    (upd_ref (ref_slot (LastVersionCounter g + 1))
       (\<lambda>_. (CFE_TIME_GetReferenceState g)\<lparr>StateVersion := LastVersionCounter g + 1\<rparr>) g,
     ref_slot (LastVersionCounter g + 1))"
  using assms ref_slot_next [of "LastVersionCounter g"]
  by (simp add: CFE_TIME_StartReferenceUpdate_def start_writes_def upd_ref_def CFE_TIME_GetReferenceState_def Let_def
      overwrite_fields copy_fields)

text \<open>
  The effect of an update that keeps the version: the published state changes by the given
  function, its version and the global version count up by one, nothing else changes.
\<close>

lemma ref_update_eq:
  assumes "ref_inv g" and "\<And>r. StateVersion (f r) = StateVersion r"
  shows "ref_inv (ref_update f g)"
    and "CFE_TIME_GetReferenceState (ref_update f g) =
           f ((CFE_TIME_GetReferenceState g)\<lparr>StateVersion := LastVersionCounter g + 1\<rparr>)"
    and "LastVersionCounter (ref_update f g) = LastVersionCounter g + 1"
  using assms
  by (simp_all add: ref_inv_def ref_update_def StartReferenceUpdate_eq CFE_TIME_FinishReferenceUpdate_def
      upd_ref_def CFE_TIME_GetReferenceState_def)

lemma upd_ref_frame [simp]: "MaxLocalClock (upd_ref i f g) = MaxLocalClock g"
  by (simp add: upd_ref_def)

lemma ref_update_frame: "MaxLocalClock (ref_update f g) = MaxLocalClock g"
  by (simp add: ref_update_def CFE_TIME_StartReferenceUpdate_def start_writes_def CFE_TIME_FinishReferenceUpdate_def Let_def)

text \<open>In a quiet system the first attempt succeeds.\<close>

lemma read_quiet:
  assumes "ref_inv g"
  shows "CFE_TIME_GetReference cfg (\<lambda>_ _. g) (\<lambda>_. now) =
    compute_reference cfg g ((CFE_TIME_GetReferenceState g)\<lparr>StateVersion := 0\<rparr>) (CFE_TIME_LatchClock now)"
  using assms
  by (simp add: CFE_TIME_GetReference_def read_attempt_def ref_inv_def CFE_TIME_GetReferenceState_def Let_def
      copy_fields)

text \<open>What the computed time depends on, and how.\<close>

lemma compute_reference_simps [simp]:
  "Copied (compute_reference cfg g r l) = r" "CurrentLatch (compute_reference cfg g r l) = l"
  by (simp_all add: compute_reference_def Let_def)

lemma compute_reference_cong:
  assumes "MaxLocalClock g' = MaxLocalClock g" and "AtToneMET r' = AtToneMET r"
    and "AtToneLatch r' = AtToneLatch r" and "DelayDirection r' = DelayDirection r" and "AtToneDelay r' = AtToneDelay r"
  shows "CurrentMET (compute_reference cfg g' r' l) = CurrentMET (compute_reference cfg g r l)"
  using assms by (simp add: compute_reference_def Let_def)

lemma seconds_shift:
  "t\<lparr>Seconds := Seconds t + x\<rparr> = CFE_TIME_Add t \<lparr>Seconds = x, Subseconds = 0\<rparr>"
  "t\<lparr>Seconds := Seconds t - x\<rparr> = CFE_TIME_Subtract t \<lparr>Seconds = x, Subseconds = 0\<rparr>"
  by (simp_all add: CFE_TIME_Add_def CFE_TIME_Subtract_def Let_def)

text \<open>
  Mission elapsed time: with no update in progress, the elapsed time a query returns is,
  in 64-bit fixed point, the elapsed time at the last tone plus the time the local clock
  counted since the tone was latched, with the maximum of the local clock added when the clock
  has rolled over since (and, on a time client, plus or minus the tone delay).
\<close>

theorem met_since_tone:
  assumes "ref_inv g"
  shows "let r = CFE_TIME_GetReferenceState g; l = CFE_TIME_LatchClock now in
    time64 (CFE_TIME_GetMET cfg (\<lambda>_ _. g) (\<lambda>_. now)) =
    time64 (AtToneMET r) + (time64 l - time64 (AtToneLatch r))
    + (if CFE_TIME_Compare l (AtToneLatch r) = CFE_TIME_A_LT_B then time64 (MaxLocalClock g) else 0)
    + (if CFG_CLIENT cfg
       then if DelayDirection r = CFE_TIME_AdjustDirection_ADD then time64 (AtToneDelay r) else - time64 (AtToneDelay r)
       else 0)"
  unfolding CFE_TIME_GetMET_def read_quiet [OF assms(1)]
  by (simp add: compute_reference_def Let_def time64_Add time64_Subtract algebra_simps)

text \<open>
  C37. Setting the spacecraft time: a query at the same instant of the local clock returns
  exactly the time that was set, in the default time format of the mission (TAI or UTC), and
  the elapsed time is not changed by it.
\<close>

theorem set_time_then_get:
  assumes "ref_inv g"
  shows "let g' = CFE_TIME_SetTime cfg (\<lambda>_ _. g) (\<lambda>_. now) T g in
         CFE_TIME_GetTime cfg (\<lambda>_ _. g') (\<lambda>_. now) = T \<and>
         CFE_TIME_GetMET cfg (\<lambda>_ _. g') (\<lambda>_. now) = CFE_TIME_GetMET cfg (\<lambda>_ _. g) (\<lambda>_. now) \<and> ref_inv g'"
proof -
  define g' where "g' = CFE_TIME_SetTime cfg (\<lambda>_ _. g) (\<lambda>_. now) T g"
  define r where "r = CFE_TIME_GetReferenceState g"
  define m where "m = CurrentMET (compute_reference cfg g (r\<lparr>StateVersion := 0\<rparr>) (CFE_TIME_LatchClock now))"
  define stcf where "stcf = (if CFG_DEFAULT_TAI cfg then CFE_TIME_Subtract T m
      else CFE_TIME_Add (CFE_TIME_Subtract T m) \<lparr>Seconds = scast (AtToneLeapSeconds r), Subseconds = 0\<rparr>)"
  have g': "g' = ref_update (AtToneSTCF_update (\<lambda>_. stcf)) g"
    by (simp add: g'_def CFE_TIME_SetTime_def read_quiet [OF assms(1)] r_def m_def stcf_def Let_def seconds_shift)
  have inv: "ref_inv g'" and r': "CFE_TIME_GetReferenceState g' = r\<lparr>StateVersion := LastVersionCounter g + 1, AtToneSTCF := stcf\<rparr>"
    using ref_update_eq [OF assms(1), of "AtToneSTCF_update (\<lambda>_. stcf)"] by (simp_all add: g' r_def)
  have ref': "CFE_TIME_GetReference cfg (\<lambda>_ _. g') (\<lambda>_. now) =
      compute_reference cfg g' (r\<lparr>AtToneSTCF := stcf, StateVersion := 0\<rparr>) (CFE_TIME_LatchClock now)"
    by (simp add: read_quiet [OF inv] r')
  have m': "CurrentMET (CFE_TIME_GetReference cfg (\<lambda>_ _. g') (\<lambda>_. now)) = m"
    unfolding ref' m_def by (rule compute_reference_cong) (simp_all add: g' ref_update_frame)
  have "CFE_TIME_GetTime cfg (\<lambda>_ _. g') (\<lambda>_. now) = T"
    unfolding time64_inject [symmetric]
    by (simp add: CFE_TIME_GetTime_def CFE_TIME_GetTAI_def CFE_TIME_GetUTC_def CFE_TIME_CalculateTAI_def
        CFE_TIME_CalculateUTC_def m' Let_def seconds_shift time64_Add time64_Subtract)
       (simp add: ref' stcf_def time64_Add time64_Subtract)
  moreover have "CFE_TIME_GetMET cfg (\<lambda>_ _. g') (\<lambda>_. now) = CFE_TIME_GetMET cfg (\<lambda>_ _. g) (\<lambda>_. now)"
    by (simp add: CFE_TIME_GetMET_def m' read_quiet [OF assms(1)] m_def r_def)
  ultimately show ?thesis using inv by (simp add: Let_def g'_def)
qed

text \<open>A concrete published state for the witnesses.\<close>

definition ref0 :: CFE_TIME_ReferenceState where
  "ref0 = \<lparr>StateVersion = 0, AtToneLeapSeconds = 37, ClockSetState = 0, ClockFlyState = 1, DelayDirection = 1,
           AtToneMET = \<lparr>Seconds = 1000, Subseconds = 0\<rparr>, AtToneSTCF = \<lparr>Seconds = 1000000, Subseconds = 0\<rparr>,
           AtToneDelay = \<lparr>Seconds = 0, Subseconds = 0\<rparr>, AtToneLatch = \<lparr>Seconds = 5, Subseconds = 0\<rparr>\<rparr>"

definition tglobal0 :: CFE_TIME_Global where
  "tglobal0 = \<lparr>ReferenceState = replicate 4 ref0, LastVersionCounter = 0,
     MaxLocalClock = \<lparr>Seconds = 27, Subseconds = 0\<rparr>, ClockSource = 1, ClockSignal = 1, ServerFlyState = 1,
     Forced2Fly = False, IsToneGood = False, OneTimeAdjust = \<lparr>Seconds = 0, Subseconds = 0\<rparr>,
     OneHzAdjust = \<lparr>Seconds = 0, Subseconds = 0\<rparr>, OneTimeDirection = 1, OneHzDirection = 1, VirtualMET = 1000,
     SynchCallback = []\<rparr>"

definition tconfig0 :: CFE_TIME_Config where
  "tconfig0 = \<lparr>CFG_SERVER = True, CFG_CLIENT = False, CFG_DEFAULT_TAI = True\<rparr>"

lemma tglobal0_inv: "ref_inv tglobal0"
  by (simp add: ref_inv_def tglobal0_def CFE_TIME_GetReferenceState_def ref0_def ref_slot_def)

theorem set_time_then_get_witness:
  "CFE_TIME_GetTime tconfig0 (\<lambda>_ _. CFE_TIME_SetTime tconfig0 (\<lambda>_ _. tglobal0) (\<lambda>_. 60000000)
       \<lparr>Seconds = 7, Subseconds = 9\<rparr> tglobal0) (\<lambda>_. 60000000) = \<lparr>Seconds = 7, Subseconds = 9\<rparr>"
  using set_time_then_get [OF tglobal0_inv, of tconfig0 60000000 "\<lparr>Seconds = 7, Subseconds = 9\<rparr>"] by (simp add: Let_def)

theorem met_since_tone_witness:
  "time64 (CFE_TIME_GetMET tconfig0 (\<lambda>_ _. tglobal0) (\<lambda>_. 60000000)) =
     time64 \<lparr>Seconds = 1000, Subseconds = 0\<rparr> + (time64 (CFE_TIME_LatchClock 60000000) - time64 \<lparr>Seconds = 5, Subseconds = 0\<rparr>)"
proof -
  have "CFE_TIME_GetReferenceState tglobal0 = ref0"
    by (simp add: CFE_TIME_GetReferenceState_def tglobal0_def)
  moreover have "CFE_TIME_LatchClock 60000000 = \<lparr>Seconds = 6, Subseconds = 0\<rparr>"
    by (simp add: CFE_TIME_LatchClock_def OS_TimeGetTotalSeconds_def OS_TimeGetSubsecondsPart_def
        OS_TimeGetFractionalPart_def smod_nonneg sdiv_nonneg Let_def)
  ultimately show ?thesis
    using met_since_tone [OF tglobal0_inv, of 60000000 tconfig0]
    by (simp add: Let_def tconfig0_def ref0_def CFE_TIME_Compare_def)
qed

section \<open>Readers and a concurrent updater\<close>

text \<open>
  An updater and the writes it has still to do: none between two updates, those left of
  \<open>CFE_TIME_StartReferenceUpdate\<close> and the index of the state it fills in, or that index while the caller changes
  fields of the new state.  There is one updater at a time.
\<close>

datatype phase = Idle | Starting "(CFE_TIME_Global \<Rightarrow> CFE_TIME_Global) list" nat | Filling nat

text \<open>
  Its writes, one at a time.  The label says that the write begins an update.  Between the start and the finish, the
  caller may change any field of the new state but its version; other data of the service may change at any time.
\<close>

inductive wstep :: "CFE_TIME_Global \<times> phase \<Rightarrow> bool \<Rightarrow> CFE_TIME_Global \<times> phase \<Rightarrow> bool" where
  begins: "start_writes (LastVersionCounter g) = wr # ws \<Longrightarrow>
     wstep (g, Idle) True (wr g, Starting ws (snd (CFE_TIME_StartReferenceUpdate g)))"
| copies: "wstep (g, Starting (wr # ws) i) False (wr g, Starting ws i)"
| started: "wstep (g, Starting [] i) False (g, Filling i)"
| fills: "(\<And>r. StateVersion (f r) = StateVersion r) \<Longrightarrow> wstep (g, Filling i) False (upd_ref i f g, Filling i)"
| finishes: "wstep (g, Filling i) False (CFE_TIME_FinishReferenceUpdate i g, Idle)"
| others: "ReferenceState g' = ReferenceState g \<Longrightarrow> LastVersionCounter g' = LastVersionCounter g \<Longrightarrow>
     wstep (g, p) False (g', p)"

text \<open>Runs of the updater that begin a given number of updates.\<close>

inductive wrun :: "nat \<Rightarrow> CFE_TIME_Global \<times> phase \<Rightarrow> CFE_TIME_Global \<times> phase \<Rightarrow> bool" where
  stay: "wrun 0 c c"
| more: "wrun n c c' \<Longrightarrow> wstep c' b c'' \<Longrightarrow> wrun (if b then Suc n else n) c c''"

lemma wrun_quiet: "wrun n c c' \<Longrightarrow> wstep c' False c'' \<Longrightarrow> wrun n c c''"
  using wrun.more [of n c c' False c''] by simp

text \<open>Executing all its writes is what \<open>CFE_TIME_StartReferenceUpdate\<close> does, and every setter built on it is a run.\<close>

lemma copies_run: "wrun n c (g, Starting ws i) \<Longrightarrow> wrun n c (fold (\<lambda>wr g. wr g) ws g, Filling i)"
proof (induction ws arbitrary: g)
  case Nil
  then show ?case using wrun_quiet [OF _ wstep.started] by simp
next
  case (Cons wr ws)
  from wrun_quiet [OF Cons.prems wstep.copies] show ?case using Cons.IH by simp
qed

lemma start_run: "wrun (Suc 0) (g, Idle) (fst (CFE_TIME_StartReferenceUpdate g), Filling (snd (CFE_TIME_StartReferenceUpdate g)))"
proof -
  obtain wr ws where w: "start_writes (LastVersionCounter g) = wr # ws" by (simp add: start_writes_def Let_def)
  have "wrun (Suc 0) (g, Idle) (wr g, Starting ws (snd (CFE_TIME_StartReferenceUpdate g)))"
    using wrun.more [OF wrun.stay wstep.begins [OF w]] by simp
  from copies_run [OF this] show ?thesis by (simp add: CFE_TIME_StartReferenceUpdate_def w)
qed

lemma ref_update_run:
  assumes "\<And>r. StateVersion (f r) = StateVersion r"
  shows "wrun (Suc 0) (g, Idle) (ref_update f g, Idle)"
  using wrun_quiet [OF wrun_quiet [OF start_run wstep.fills [of f, OF assms]] wstep.finishes]
  by (simp add: ref_update_def split_def Let_def)

text \<open>A write that changes only fields other than the version of one state.\<close>

definition copies_into :: "nat \<Rightarrow> (CFE_TIME_Global \<Rightarrow> CFE_TIME_Global) \<Rightarrow> bool" where
  "copies_into i wr \<longleftrightarrow> (\<forall>g. \<exists>f. (\<forall>r. StateVersion (f r) = StateVersion r) \<and> wr g = upd_ref i f g)"

lemma copies_intoI: "(\<And>g r. StateVersion (f g r) = StateVersion r) \<Longrightarrow> copies_into i (\<lambda>g. upd_ref i (f g) g)"
  unfolding copies_into_def by blast

lemma start_writes_parts:
  assumes "start_writes v = wr # ws"
  shows "wr g = upd_ref (ref_slot (v + 1)) (StateVersion_update (\<lambda>_. v + 1)) g"
    and "\<forall>w\<in>set ws. copies_into (ref_slot (v + 1)) w"
  using assms by (auto simp: start_writes_def Let_def intro!: copies_intoI)

text \<open>The state being filled in, and that the writes left to do are copies into it.\<close>

fun phase_slot :: "phase \<Rightarrow> nat option" where
  "phase_slot Idle = None"
| "phase_slot (Starting ws i) = Some i"
| "phase_slot (Filling i) = Some i"

fun phase_ok :: "phase \<Rightarrow> bool" where
  "phase_ok (Starting ws i) \<longleftrightarrow> (\<forall>w\<in>set ws. copies_into i w)"
| "phase_ok _ \<longleftrightarrow> True"

text \<open>The steps by what they do to the published states.\<close>

lemma wstep_cases:
  assumes "wstep (g, p) b (g', p')" and "phase_ok p"
  obtains (start) "b" "phase_slot p = None" "phase_slot p' = Some (ref_slot (LastVersionCounter g + 1))" "phase_ok p'"
      "g' = upd_ref (ref_slot (LastVersionCounter g + 1)) (StateVersion_update (\<lambda>_. LastVersionCounter g + 1)) g"
  | (fill) i f where "\<not> b" "phase_slot p = Some i" "phase_slot p' = Some i" "phase_ok p'"
      "\<forall>r. StateVersion (f r) = StateVersion r" "g' = upd_ref i f g"
  | (finish) i where "\<not> b" "phase_slot p = Some i" "phase_slot p' = None" "phase_ok p'" "g' = CFE_TIME_FinishReferenceUpdate i g"
  | (other) "\<not> b" "phase_slot p' = phase_slot p" "phase_ok p'" "ReferenceState g' = ReferenceState g"
      "LastVersionCounter g' = LastVersionCounter g"
  using assms(1)
proof cases
  case (begins wr ws)
  then show ?thesis using start start_writes_parts [OF begins(5)] by (simp add: CFE_TIME_StartReferenceUpdate_def)
next
  case (copies wr ws i)
  then have "copies_into i wr" using assms(2) by simp
  then obtain f where "\<forall>r. StateVersion (f r) = StateVersion r" "wr g = upd_ref i f g" by (auto simp: copies_into_def)
  then show ?thesis using fill [of i f] copies assms(2) by simp
qed (use start fill finish other assms(2) in auto)

text \<open>
  What holds of the state a reader chose when it read version \<open>V\<close> (whose slot then held \<open>R\<close>)
  while the updater goes on: \<open>n\<close> counts the updates begun since the version was published.
\<close>

definition watch :: "u32 \<Rightarrow> CFE_TIME_ReferenceState \<Rightarrow> nat \<Rightarrow> CFE_TIME_Global \<times> phase \<Rightarrow> bool" where
  "watch V R n c \<longleftrightarrow>
     (let g = fst c; i = phase_slot (snd c); busy = (if i = None then 0 else 1)
      in length (ReferenceState g) = 4 \<and> phase_ok (snd c) \<and> busy \<le> n \<and> LastVersionCounter g = V + of_nat (n - busy) \<and>
         (i \<noteq> None \<longrightarrow> i = Some (ref_slot (V + of_nat n)) \<and>
            StateVersion (ReferenceState g ! ref_slot (V + of_nat n)) = V + of_nat n) \<and>
         (n < 4 \<longrightarrow> ReferenceState g ! ref_slot V = R) \<and>
         (4 \<le> n \<longrightarrow> StateVersion (ReferenceState g ! ref_slot V) = V + of_nat (4 * (n div 4))))"

lemma ref_slot_eq_iff: "ref_slot (V + of_nat n) = ref_slot V \<longleftrightarrow> n mod 4 = 0"
  using ref_slot_lt [of V] unfolding ref_slot_add by presburger

lemma watch_start:
  assumes "watch V R n (g, p)" and "phase_slot p = None" and "phase_ok p'"
    and "phase_slot p' = Some (ref_slot (LastVersionCounter g + 1))"
  shows "watch V R (Suc n) (upd_ref (ref_slot (LastVersionCounter g + 1))
      (StateVersion_update (\<lambda>_. LastVersionCounter g + 1)) g, p')"
proof -
  have v: "LastVersionCounter g + 1 = V + of_nat (Suc n)"
    using assms(1,2) by (simp add: watch_def add.assoc add.commute)
  have len: "length (ReferenceState g) = 4" using assms by (simp add: watch_def)
  show ?thesis
  proof (cases "Suc n mod 4 = 0")
    case True
    then have "ref_slot (V + of_nat (Suc n)) = ref_slot V" by (simp only: ref_slot_eq_iff)
    moreover have "4 * (Suc n div 4) = Suc n" "4 \<le> Suc n" using True by presburger+
    ultimately show ?thesis
      using assms len unfolding v by (simp add: watch_def upd_ref_def)
  next
    case False
    then have ne: "ref_slot (V + of_nat (Suc n)) \<noteq> ref_slot V" by (simp only: ref_slot_eq_iff not_False_eq_True)
    have "Suc n div 4 = n div 4" "(Suc n < 4) = (n < 4 \<and> Suc n \<noteq> 4)" "Suc n \<noteq> 4" using False by (auto simp: div_Suc)
    then show ?thesis
      using assms len ne unfolding v by (simp add: watch_def upd_ref_def)
  qed
qed

lemma watch_write:
  assumes "watch V R n (g, p)" and "phase_slot p = Some i" and "phase_ok p'" "phase_slot p' = Some i"
    and f: "\<And>r. StateVersion (f r) = StateVersion r"
  shows "watch V R n (upd_ref i f g, p')"
proof -
  have i: "i = ref_slot (V + of_nat n)" "1 \<le> n" using assms(1,2) by (auto simp: watch_def)
  show ?thesis
  proof (cases "n mod 4 = 0")
    case True
    then have "\<not> n < 4" using i(2) by auto
    then show ?thesis using assms i by (auto simp: watch_def upd_ref_def nth_list_update)
  next
    case False
    then have "ref_slot V \<noteq> i" using ref_slot_eq_iff [of V n] i(1) by simp
    then show ?thesis using assms i by (simp add: watch_def upd_ref_def)
  qed
qed

lemma watch_step:
  assumes "wstep c b c'" and "watch V R n c"
  shows "watch V R (if b then Suc n else n) c'"
proof -
  obtain g p g' p' where c: "c = (g, p)" "c' = (g', p')" by (cases c, cases c')
  have "phase_ok p" using assms(2) by (simp add: watch_def c Let_def)
  from assms(1) [unfolded c] this show ?thesis
  proof (cases rule: wstep_cases)
    case start
    then show ?thesis using assms(2) watch_start by (simp add: c)
  next
    case (fill i f)
    then show ?thesis using assms(2) watch_write by (simp add: c)
  next
    case (finish i)
    then show ?thesis using assms(2) by (auto simp: c watch_def CFE_TIME_FinishReferenceUpdate_def)
  next
    case other
    then show ?thesis using assms(2) by (simp add: c watch_def Let_def)
  qed
qed

lemma watch_run: "wrun n c c' \<Longrightarrow> watch V R k c \<Longrightarrow> watch V R (k + n) c'"
proof (induction rule: wrun.induct)
  case (more n c c' b c'')
  then show ?case using watch_step [of c' b c'' V R "k + n"] by (cases b) auto
qed simp

text \<open>The updater keeps the published state published.\<close>

definition updater_ok :: "CFE_TIME_Global \<times> phase \<Rightarrow> bool" where
  "updater_ok c \<longleftrightarrow> ref_inv (fst c) \<and> phase_ok (snd c) \<and>
     (phase_slot (snd c) \<noteq> None \<longrightarrow> phase_slot (snd c) = Some (ref_slot (LastVersionCounter (fst c) + 1)) \<and>
        StateVersion (ReferenceState (fst c) ! ref_slot (LastVersionCounter (fst c) + 1)) = LastVersionCounter (fst c) + 1)"

lemma updater_ok_step:
  assumes "wstep c b c'" and "updater_ok c"
  shows "updater_ok c'"
proof -
  obtain g p g' p' where c: "c = (g, p)" "c' = (g', p')" by (cases c, cases c')
  have "phase_ok p" using assms(2) by (simp add: updater_ok_def c)
  note ne = ref_slot_next [of "LastVersionCounter g"]
  from assms(1) [unfolded c] \<open>phase_ok p\<close> show ?thesis
  proof (cases rule: wstep_cases)
    case start
    then show ?thesis using assms(2) ne by (simp add: c updater_ok_def ref_inv_def upd_ref_def CFE_TIME_GetReferenceState_def)
  next
    case (fill i f)
    then show ?thesis using assms(2) ne by (auto simp: c updater_ok_def ref_inv_def upd_ref_def CFE_TIME_GetReferenceState_def)
  next
    case (finish i)
    then show ?thesis using assms(2)
      by (auto simp: c updater_ok_def ref_inv_def CFE_TIME_GetReferenceState_def CFE_TIME_FinishReferenceUpdate_def)
  next
    case other
    then show ?thesis using assms(2) by (simp add: c updater_ok_def ref_inv_def CFE_TIME_GetReferenceState_def)
  qed
qed

lemma updater_ok_run: "wrun n c c' \<Longrightarrow> updater_ok c \<Longrightarrow> updater_ok c'"
  by (induction rule: wrun.induct) (auto intro: updater_ok_step)

lemma watch_now:
  assumes "updater_ok c"
  shows "watch (LastVersionCounter (fst c)) (CFE_TIME_GetReferenceState (fst c)) (if phase_slot (snd c) = None then 0 else 1) c"
  using assms by (auto simp: updater_ok_def watch_def ref_inv_def CFE_TIME_GetReferenceState_def)

lemma watch_chain:
  assumes "watch V R k (c 0)" and "\<And>j. j < m \<Longrightarrow> wrun (ns j) (c j) (c (Suc j))"
  shows "j \<le> m \<Longrightarrow> watch V R (k + (\<Sum>i<j. ns i)) (c j)"
proof (induction j)
  case (Suc j)
  then show ?case using watch_run [OF assms(2) [of j], of V R "k + (\<Sum>i<j. ns i)"] by (simp add: add.assoc)
qed (simp add: assms(1))

lemma watch_unchanged:
  assumes "watch V R n c" and "StateVersion (ReferenceState (fst c) ! ref_slot V) = V" and "n < 2 ^ 32"
  shows "n < 4"
proof (rule ccontr)
  assume "\<not> n < 4"
  then have "V = V + of_nat (4 * (n div 4))" using assms(1,2) by (auto simp: watch_def Let_def)
  then have "(of_nat (4 * (n div 4)) :: u32) = 0" by (metis add.right_neutral add_left_cancel)
  then have "(2 :: nat) ^ 32 dvd 4 * (n div 4)" using word_of_nat_eq_0_iff [where 'a = 32, of "4 * (n div 4)"] by simp
  moreover have "4 * (n div 4) < 2 ^ 32" using assms(3) by (metis le_less_trans mult.commute div_times_less_eq_dividend)
  ultimately have "4 * (n div 4) = 0" by (metis dvd_imp_le not_less neq0_conv)
  then show False using \<open>\<not> n < 4\<close> by simp
qed

text \<open>
  C36. Lock-free reading is safe.  Let one updater run concurrently from a quiet state, executing the writes of
  \<open>CFE_TIME_StartReferenceUpdate\<close> one by one in the order of the code, then any changes to the fields of the new state,
  then \<open>CFE_TIME_FinishReferenceUpdate\<close>, and this any number of times: whatever it does between the fourteen reads
  of an attempt of \<open>CFE_TIME_GetReference\<close> (the version, twelve copies of at most 32 bits, the version of the state), if
  the version check of the attempt succeeds (and fewer than 2^32 - 1 updates began during the attempt, so that the
  32-bit version cannot come round), then all copied fields are those of one state, the one that was published when
  the attempt began.  The writes of the setters that are built on \<open>ref_update\<close> are such runs.
\<close>

theorem reference_snapshot:
  assumes "ref_inv g0" and "wrun n0 (g0, Idle) (c 0)"
    and "\<forall>j < 13. wrun (ns j) (c j) (c (Suc j))" and "(\<Sum>j < 13. ns j) < 2 ^ 32 - 1"
    and "\<forall>j \<le> 13. env k j = fst (c j)" and "read_attempt env k = (r, True)"
  shows "r = (CFE_TIME_GetReferenceState (fst (c 0)))\<lparr>StateVersion := 0\<rparr> \<and>
    (\<forall>f g. (\<forall>r. StateVersion (f r) = StateVersion r) \<longrightarrow> wrun 1 (g, Idle) (ref_update f g, Idle))"
proof -
  let ?V = "LastVersionCounter (fst (c 0))" and ?R = "CFE_TIME_GetReferenceState (fst (c 0))"
  define b where "b = (if phase_slot (snd (c 0)) = None then 0 else 1 :: nat)"
  have "updater_ok (c 0)"
    by (rule updater_ok_run [OF assms(2)]) (simp add: updater_ok_def assms(1))
  then have w: "watch ?V ?R (b + (\<Sum>i<j. ns i)) (c j)" if "j \<le> 13" for j
    using watch_chain [of ?V ?R b c 13 ns j] watch_now [of "c 0"] assms(3) that by (simp add: b_def)
  have "StateVersion (ReferenceState (fst (c 13)) ! ref_slot ?V) = ?V"
    using assms(5,6) by (simp add: read_attempt_def Let_def)
  then have tot: "b + (\<Sum>i<13. ns i) < 4"
    using watch_unchanged [OF w [of 13]] assms(4) by (simp add: b_def)
  have "ReferenceState (fst (c j)) ! ref_slot ?V = ?R" if "j \<le> 13" for j
  proof -
    have "(\<Sum>i<j. ns i) \<le> (\<Sum>i<13. ns i)" using that by (intro sum_mono2) auto
    then show ?thesis using w [OF that] tot by (simp add: watch_def Let_def)
  qed
  then have "r = ?R\<lparr>StateVersion := 0\<rparr>"
    using assms(5,6) by (auto simp: read_attempt_def Let_def copy_fields)
  then show ?thesis using ref_update_run by simp
qed

text \<open>The witness: a new correlation factor is published between the first two reads of an attempt.\<close>

theorem reference_snapshot_witness:
  "let g1 = CFE_TIME_SetSTCF \<lparr>Seconds = 1, Subseconds = 2\<rparr> tglobal0
   in fst (read_attempt (\<lambda>_ j. if j = 0 then tglobal0 else g1) 0) = ref0"
proof -
  define g1 where "g1 = CFE_TIME_SetSTCF \<lparr>Seconds = 1, Subseconds = 2\<rparr> tglobal0"
  let ?env = "\<lambda>(_ :: nat) (j :: nat). if j = 0 then tglobal0 else g1" and ?c = "\<lambda>j :: nat. (if j = 0 then tglobal0 else g1, Idle)"
  have r0: "ReferenceState g1 ! 0 = ref0"
    by (simp add: g1_def CFE_TIME_SetSTCF_def ref_update_def CFE_TIME_StartReferenceUpdate_def start_writes_def
        CFE_TIME_FinishReferenceUpdate_def upd_ref_def tglobal0_def ref_slot_def Let_def)
  have r: "read_attempt ?env 0 = (fst (read_attempt ?env 0), True)"
    by (simp add: read_attempt_def Let_def tglobal0_def ref_slot_def r0) (simp add: ref0_def)
  have run: "wrun (if j = 0 then 1 else 0) (?c j) (?c (Suc j))" for j
    using ref_update_run [of "AtToneSTCF_update (\<lambda>_. \<lparr>Seconds = 1, Subseconds = 2\<rparr>)" tglobal0]
    by (simp add: g1_def CFE_TIME_SetSTCF_def wrun.stay)
  have "fst (read_attempt ?env 0) = (CFE_TIME_GetReferenceState tglobal0)\<lparr>StateVersion := 0\<rparr>"
    using reference_snapshot [OF tglobal0_inv, of 0 ?c "\<lambda>j. if j = 0 then 1 else 0" ?env 0, OF _ _ _ _ r] run
    by (simp add: wrun.stay)
  also have "\<dots> = ref0" by (simp add: CFE_TIME_GetReferenceState_def tglobal0_def ref0_def ref_slot_def)
  finally show ?thesis unfolding Let_def g1_def .
qed

end
