(* ===== verification/CFE_SB_Track.thy ===== *)
theory CFE_SB_Track
  imports CFS_Prelude
begin

text \<open>
  The buffer tracking lists of the software bus (\<^verbatim>\<open>cfe_sb_buf.c\<close> and the inline functions of
  \<^verbatim>\<open>cfe_sb_priv.h\<close>): circular doubly linked lists through the \<open>Link\<close> member of the buffer
  descriptors, with the heads \<open>InTransitList\<close> and \<open>ZeroCopyList\<close> in the global data.

  The links are a heap from link addresses to links, so that aliasing (a node with itself, a
  list with its only node) is as in the code.  The predicate \<open>ring\<close> says that a cycle of
  links is the list of its nodes; the operations are shown to be the list operations on it.
  The code never follows a NULL link: \<open>LinkNull\<close> is an address that is in no ring.
\<close>

section \<open>Links\<close>

datatype CFE_SB_LinkAddr = LinkNull | InTransitList | ZeroCopyList | BufLink nat

record CFE_SB_BufferLink =
  LinkNext :: CFE_SB_LinkAddr
  LinkPrev :: CFE_SB_LinkAddr

type_synonym links = "CFE_SB_LinkAddr \<Rightarrow> CFE_SB_BufferLink"

definition set_next :: "CFE_SB_LinkAddr \<Rightarrow> CFE_SB_LinkAddr \<Rightarrow> links \<Rightarrow> links" where
  "set_next a v h = h(a := (h a)\<lparr>LinkNext := v\<rparr>)"

definition set_prev :: "CFE_SB_LinkAddr \<Rightarrow> CFE_SB_LinkAddr \<Rightarrow> links \<Rightarrow> links" where
  "set_prev a v h = h(a := (h a)\<lparr>LinkPrev := v\<rparr>)"

definition CFE_SB_TrackingListGetNext :: "links \<Rightarrow> CFE_SB_LinkAddr \<Rightarrow> CFE_SB_LinkAddr" where
  "CFE_SB_TrackingListGetNext h Node = LinkNext (h Node)"

definition CFE_SB_TrackingListIsEnd :: "CFE_SB_LinkAddr \<Rightarrow> CFE_SB_LinkAddr \<Rightarrow> bool" where
  "CFE_SB_TrackingListIsEnd List Node \<longleftrightarrow> Node = LinkNull \<or> Node = List"

definition CFE_SB_TrackingListReset :: "CFE_SB_LinkAddr \<Rightarrow> links \<Rightarrow> links" where
  "CFE_SB_TrackingListReset Link h =
     (let h = set_prev Link Link h
      in set_next Link Link h)"

definition CFE_SB_TrackingListRemove :: "CFE_SB_LinkAddr \<Rightarrow> links \<Rightarrow> links" where
  "CFE_SB_TrackingListRemove Node h =
     (let h = set_next (LinkPrev (h Node)) (LinkNext (h Node)) h;
          h = set_prev (LinkNext (h Node)) (LinkPrev (h Node)) h
      in CFE_SB_TrackingListReset Node h)"

definition CFE_SB_TrackingListAdd :: "CFE_SB_LinkAddr \<Rightarrow> CFE_SB_LinkAddr \<Rightarrow> links \<Rightarrow> links" where
  "CFE_SB_TrackingListAdd List Node h =
     (let h = set_prev Node (LinkPrev (h List)) h;
          h = set_next Node List h;
          h = set_next (LinkPrev (h Node)) Node h;
          h = set_prev (LinkNext (h Node)) Node h
      in h)"

section \<open>Rings\<close>

text \<open>\<open>linked h a xs b\<close>: from \<open>a\<close>, the nodes \<open>xs\<close> follow in order and then \<open>b\<close>, linked both ways.\<close>

fun linked :: "links \<Rightarrow> CFE_SB_LinkAddr \<Rightarrow> CFE_SB_LinkAddr list \<Rightarrow> CFE_SB_LinkAddr \<Rightarrow> bool" where
  "linked h a [] b \<longleftrightarrow> LinkNext (h a) = b \<and> LinkPrev (h b) = a"
| "linked h a (x # xs) b \<longleftrightarrow> LinkNext (h a) = x \<and> LinkPrev (h x) = a \<and> linked h x xs b"

definition ring :: "links \<Rightarrow> CFE_SB_LinkAddr \<Rightarrow> CFE_SB_LinkAddr list \<Rightarrow> bool" where
  "ring h l xs \<longleftrightarrow> linked h l xs l \<and> distinct (l # xs) \<and> LinkNull \<notin> set (l # xs)"

lemma linked_append: "linked h a (xs @ y # ys) b \<longleftrightarrow> linked h a xs y \<and> linked h y ys b"
  by (induction xs arbitrary: a) auto

lemma linked_last: "linked h a xs b \<Longrightarrow> LinkPrev (h b) = (if xs = [] then a else last xs)"
  by (induction xs arbitrary: a) (auto split: if_splits)

lemma linked_first: "linked h a xs b \<Longrightarrow> LinkNext (h a) = hd (xs @ [b])"
  by (cases xs) auto

text \<open>Only the next links of \<open>a # xs\<close> and the previous links of \<open>xs @ [b]\<close> matter.\<close>

lemma linked_cong:
  "(\<And>x. x \<in> insert a (set xs) \<Longrightarrow> LinkNext (h' x) = LinkNext (h x)) \<Longrightarrow>
   (\<And>x. x \<in> insert b (set xs) \<Longrightarrow> LinkPrev (h' x) = LinkPrev (h x)) \<Longrightarrow>
     linked h' a xs b = linked h a xs b"
  by (induction xs arbitrary: a) auto

lemma ring_frame: "ring h l xs \<Longrightarrow> (\<And>x. x \<in> set (l # xs) \<Longrightarrow> h' x = h x) \<Longrightarrow> ring h' l xs"
  unfolding ring_def using linked_cong [of l xs h' h l] by auto

lemma ring_frame_outside:
  assumes "ring h l xs" and "\<And>x. x \<notin> A \<Longrightarrow> h' x = h x" and "set (l # xs) \<inter> A = {}"
  shows "ring h' l xs"
proof (rule ring_frame [OF assms(1)])
  fix x assume "x \<in> set (l # xs)"
  with assms(3) have "x \<notin> A" by blast
  then show "h' x = h x" by (rule assms(2))
qed

lemma set_next_simps [simp]:
  "LinkNext (set_next a v h x) = (if x = a then v else LinkNext (h x))"
  "LinkPrev (set_next a v h x) = LinkPrev (h x)"
  by (auto simp: set_next_def)

lemma set_prev_simps [simp]:
  "LinkPrev (set_prev a v h x) = (if x = a then v else LinkPrev (h x))"
  "LinkNext (set_prev a v h x) = LinkNext (h x)"
  by (auto simp: set_prev_def)

lemma Reset_simps [simp]:
  "LinkNext (CFE_SB_TrackingListReset l h x) = (if x = l then l else LinkNext (h x))"
  "LinkPrev (CFE_SB_TrackingListReset l h x) = (if x = l then l else LinkPrev (h x))"
  by (auto simp: CFE_SB_TrackingListReset_def)

lemma Reset_other: "x \<noteq> l \<Longrightarrow> CFE_SB_TrackingListReset l h x = h x"
  by (simp add: CFE_SB_TrackingListReset_def set_next_def set_prev_def)

lemma ring_Reset: "l \<noteq> LinkNull \<Longrightarrow> ring (CFE_SB_TrackingListReset l h) l []"
  by (simp add: ring_def)

lemma link_eqI: "LinkNext x = LinkNext y \<Longrightarrow> LinkPrev x = LinkPrev y \<Longrightarrow> x = (y :: CFE_SB_BufferLink)"
  by (cases x, cases y) simp

subsection \<open>Adding a node\<close>

lemma Add_links:
  "LinkNext (CFE_SB_TrackingListAdd l n h x) =
     (if x = LinkPrev (h l) then n else if x = n then l else LinkNext (h x))"
  "LinkPrev (CFE_SB_TrackingListAdd l n h x) =
     (if x = l then n else if x = n then LinkPrev (h l) else LinkPrev (h x))"
  if "n \<noteq> l" and "LinkPrev (h l) \<noteq> n"
  using that by (auto simp: CFE_SB_TrackingListAdd_def Let_def)

lemma ring_Add:
  assumes "ring h l xs" and "n \<notin> set (l # xs)" and "n \<noteq> LinkNull"
  shows "ring (CFE_SB_TrackingListAdd l n h) l (xs @ [n])"
proof -
  let ?t = "if xs = [] then l else last xs" and ?h = "CFE_SB_TrackingListAdd l n h"
  have t: "LinkPrev (h l) = ?t" using assms(1) linked_last by (auto simp: ring_def)
  have nl: "n \<noteq> l" "?t \<noteq> n" using assms(2) by (auto split: if_splits)
  note links = Add_links [of n l h, unfolded t, OF nl]
  have "linked ?h l xs n"
  proof (cases xs rule: rev_cases)
    case Nil
    with nl show ?thesis by (simp add: links)
  next
    case (snoc ys z)
    have d: "z \<notin> set (l # ys)" "l \<notin> set (ys @ [z])" using assms(1) snoc by (auto simp: ring_def)
    have "linked h l ys z" using assms(1) snoc by (simp add: ring_def linked_append)
    moreover have "linked ?h l ys z = linked h l ys z"
      using d assms(2) snoc by (intro linked_cong) (auto simp: links)
    ultimately show ?thesis using nl snoc d by (simp add: linked_append links)
  qed
  moreover have "linked ?h n [] l" using nl by (simp add: links)
  ultimately show ?thesis
    using assms by (auto simp: ring_def linked_append)
qed

lemma Add_other:
  assumes "ring h l xs" and "n \<notin> set (l # xs)" and "x \<notin> set (n # l # xs)"
  shows "CFE_SB_TrackingListAdd l n h x = h x"
proof -
  have "LinkPrev (h l) = (if xs = [] then l else last xs)"
    using assms(1) linked_last [of h l xs l] by (simp add: ring_def)
  then have "LinkPrev (h l) \<in> set (l # xs)" by (auto split: if_splits)
  with assms(2,3) have "n \<noteq> l" "LinkPrev (h l) \<noteq> n" "x \<noteq> LinkPrev (h l)" "x \<noteq> n" "x \<noteq> l" by auto
  then show ?thesis by (intro link_eqI) (simp_all add: Add_links)
qed

subsection \<open>Removing a node\<close>

lemma Remove_links:
  "LinkNext (CFE_SB_TrackingListRemove n h x) =
     (if x = n then n else if x = LinkPrev (h n) then LinkNext (h n) else LinkNext (h x))"
  "LinkPrev (CFE_SB_TrackingListRemove n h x) =
     (if x = n then n else if x = LinkNext (h n) then LinkPrev (h n) else LinkPrev (h x))"
  if "LinkPrev (h n) \<noteq> n \<or> LinkNext (h n) = n"
  using that by (auto simp: CFE_SB_TrackingListRemove_def Let_def)

text \<open>A singleton stays a singleton and nothing else changes.\<close>

lemma Remove_singleton:
  assumes "ring h n []"
  shows "CFE_SB_TrackingListRemove n h = h"
proof
  fix x
  have "LinkNext (h n) = n" "LinkPrev (h n) = n" using assms by (auto simp: ring_def)
  with Remove_links [of h n] show "CFE_SB_TrackingListRemove n h x = h x"
    by (intro link_eqI) auto
qed

lemma ring_nonself:
  assumes "ring h l (xs @ n # ys)"
  shows "LinkPrev (h n) = (if xs = [] then l else last xs)" "LinkNext (h n) = hd (ys @ [l])"
    "LinkPrev (h n) \<noteq> n" "LinkNext (h n) \<noteq> n"
proof -
  show p: "LinkPrev (h n) = (if xs = [] then l else last xs)" and q: "LinkNext (h n) = hd (ys @ [l])"
    using assms linked_last [of h l xs n] linked_first [of h n ys l]
    by (auto simp: ring_def linked_append)
  have "n \<noteq> l" "n \<notin> set xs" "n \<notin> set ys" using assms by (auto simp: ring_def)
  then show "LinkPrev (h n) \<noteq> n" "LinkNext (h n) \<noteq> n"
    unfolding p q by (auto split: if_splits) (metis hd_append list.sel(1) list.set_sel(1))+
qed

lemma ring_Remove:
  assumes r: "ring h l (xs @ n # ys)"
  shows "ring (CFE_SB_TrackingListRemove n h) l (xs @ ys)"
    and "ring (CFE_SB_TrackingListRemove n h) n []"
proof -
  let ?h = "CFE_SB_TrackingListRemove n h" and ?t = "if xs = [] then l else last xs"
  let ?f = "hd (ys @ [l])"
  note pn = ring_nonself [OF r]
  have links:
    "LinkNext (?h x) = (if x = n then n else if x = ?t then ?f else LinkNext (h x))"
    "LinkPrev (?h x) = (if x = n then n else if x = ?f then ?t else LinkPrev (h x))" for x
    using Remove_links [of h n x] pn by (auto split: if_splits)
  have lk: "linked h l xs n" "linked h n ys l" using r by (auto simp: ring_def linked_append)
  have d: "distinct (l # xs @ n # ys)" "LinkNull \<notin> set (l # xs @ n # ys)" using r by (auto simp: ring_def)
  have "linked ?h l (xs @ ys) l"
  proof (cases ys)
    case Nil
    show ?thesis
    proof (cases xs rule: rev_cases)
      case Nil
      with \<open>ys = []\<close> d show ?thesis by (simp add: links)
    next
      case (snoc us z)
      have "linked h l us z" using lk(1) snoc by (simp add: linked_append)
      moreover have "linked ?h l us z = linked h l us z"
        using d snoc \<open>ys = []\<close> by (intro linked_cong) (auto simp: links)
      ultimately show ?thesis using d snoc \<open>ys = []\<close> by (simp add: linked_append links)
    qed
  next
    case (Cons y vs)
    have "linked ?h y vs l = linked h y vs l"
      using d Cons by (intro linked_cong) (auto simp: links dest: last_in_set)
    then have right: "linked ?h y vs l" using lk(2) Cons by simp
    have left: "linked ?h l xs y"
    proof (cases xs rule: rev_cases)
      case Nil
      with d Cons show ?thesis by (auto simp: links)
    next
      case (snoc us z)
      have "linked h l us z" using lk(1) snoc by (simp add: linked_append)
      moreover have "linked ?h l us z = linked h l us z"
        using d snoc Cons by (intro linked_cong) (auto simp: links)
      ultimately show ?thesis using d snoc Cons by (auto simp: linked_append links)
    qed
    from left right Cons show ?thesis by (simp add: linked_append)
  qed
  with d show "ring ?h l (xs @ ys)" by (auto simp: ring_def)
  show "ring ?h n []" using d by (simp add: ring_def links)
qed

lemma Remove_other:
  assumes "ring h l (xs @ n # ys)" and "x \<notin> set (l # xs @ n # ys)"
  shows "CFE_SB_TrackingListRemove n h x = h x"
proof -
  have "x \<noteq> LinkPrev (h n)" "x \<noteq> LinkNext (h n)"
    using assms ring_nonself(1,2) [OF assms(1)] by (auto split: if_splits simp: hd_append)
  moreover have "x \<noteq> n" using assms(2) by simp
  ultimately show ?thesis
    using Remove_links [of h n x] ring_nonself [OF assms(1)] by (intro link_eqI) auto
qed

section \<open>The two tracking lists\<close>

text \<open>
  \<open>tracked h it zc\<close>: the in-transit list holds the buffers \<open>it\<close> and the zero-copy list the
  buffers \<open>zc\<close>, oldest first, and every other buffer of interest is \<open>lone\<close>.
\<close>

definition lone :: "links \<Rightarrow> nat \<Rightarrow> bool" where
  "lone h b \<longleftrightarrow> ring h (BufLink b) []"

definition tracked :: "links \<Rightarrow> nat list \<Rightarrow> nat list \<Rightarrow> bool" where
  "tracked h it zc \<longleftrightarrow>
     ring h InTransitList (map BufLink it) \<and> ring h ZeroCopyList (map BufLink zc) \<and> set it \<inter> set zc = {}"

lemma tracked_distinct: "tracked h it zc \<Longrightarrow> distinct it \<and> distinct zc"
  by (auto simp: tracked_def ring_def distinct_map)

lemma lone_not_in_ring:
  assumes "ring h l xs" and "lone h b" and "l \<noteq> BufLink b"
  shows "BufLink b \<notin> set xs"
proof
  assume "BufLink b \<in> set xs"
  then obtain us vs where "xs = us @ BufLink b # vs" by (meson split_list)
  with ring_nonself(4) [of h l us "BufLink b" vs] assms show False by (simp add: lone_def ring_def)
qed

lemma lone_not_tracked: "tracked h it zc \<Longrightarrow> lone h b \<Longrightarrow> b \<notin> set it \<union> set zc"
  using lone_not_in_ring [of h _ _ b] by (fastforce simp: tracked_def)

lemma lone_frame: "lone h b \<Longrightarrow> h' (BufLink b) = h (BufLink b) \<Longrightarrow> lone h' b"
  unfolding lone_def by (erule ring_frame) simp

lemma tracked_Reset:
  assumes "tracked h it zc" and "b \<notin> set it \<union> set zc"
  shows "tracked (CFE_SB_TrackingListReset (BufLink b) h) it zc"
    and "lone (CFE_SB_TrackingListReset (BufLink b) h) b"
    and "lone h c \<Longrightarrow> lone (CFE_SB_TrackingListReset (BufLink b) h) c"
proof -
  show "tracked (CFE_SB_TrackingListReset (BufLink b) h) it zc"
    using assms unfolding tracked_def
    by (intro conjI) (auto intro!: ring_frame_outside [where h = h and A = "{BufLink b}"] Reset_other)
  show l: "lone (CFE_SB_TrackingListReset (BufLink b) h) b" by (simp add: lone_def ring_Reset)
  show "lone (CFE_SB_TrackingListReset (BufLink b) h) c" if "lone h c"
    using l lone_frame [OF that] by (cases "c = b") (simp_all add: Reset_other)
qed

lemma tracked_Add_transit:
  assumes "tracked h it zc" and "b \<notin> set it \<union> set zc"
  shows "tracked (CFE_SB_TrackingListAdd InTransitList (BufLink b) h) (it @ [b]) zc"
    and "lone h c \<Longrightarrow> c \<noteq> b \<Longrightarrow> lone (CFE_SB_TrackingListAdd InTransitList (BufLink b) h) c"
proof -
  let ?h = "CFE_SB_TrackingListAdd InTransitList (BufLink b) h"
  have r: "ring h InTransitList (map BufLink it)" and n: "BufLink b \<notin> set (InTransitList # map BufLink it)"
    using assms by (auto simp: tracked_def)
  have "ring ?h InTransitList (map BufLink (it @ [b]))" using ring_Add [OF r n] by simp
  moreover have "ring ?h ZeroCopyList (map BufLink zc)"
    by (rule ring_frame_outside [where h = h and A = "set (BufLink b # InTransitList # map BufLink it)",
          OF _ Add_other [OF r n]]) (use assms in \<open>auto simp: tracked_def\<close>)
  ultimately show "tracked ?h (it @ [b]) zc" using assms by (auto simp: tracked_def)
  show "lone ?h c" if "lone h c" "c \<noteq> b"
    using lone_not_tracked [OF assms(1) that(1)] that(2)
    by (intro lone_frame [OF that(1)] Add_other [OF r n]) auto
qed

lemma tracked_Add_zerocopy:
  assumes "tracked h it zc" and "b \<notin> set it \<union> set zc"
  shows "tracked (CFE_SB_TrackingListAdd ZeroCopyList (BufLink b) h) it (zc @ [b])"
    and "lone h c \<Longrightarrow> c \<noteq> b \<Longrightarrow> lone (CFE_SB_TrackingListAdd ZeroCopyList (BufLink b) h) c"
proof -
  let ?h = "CFE_SB_TrackingListAdd ZeroCopyList (BufLink b) h"
  have r: "ring h ZeroCopyList (map BufLink zc)" and n: "BufLink b \<notin> set (ZeroCopyList # map BufLink zc)"
    using assms by (auto simp: tracked_def)
  have "ring ?h ZeroCopyList (map BufLink (zc @ [b]))" using ring_Add [OF r n] by simp
  moreover have "ring ?h InTransitList (map BufLink it)"
    by (rule ring_frame_outside [where h = h and A = "set (BufLink b # ZeroCopyList # map BufLink zc)",
          OF _ Add_other [OF r n]]) (use assms in \<open>auto simp: tracked_def\<close>)
  ultimately show "tracked ?h it (zc @ [b])" using assms by (auto simp: tracked_def)
  show "lone ?h c" if "lone h c" "c \<noteq> b"
    using lone_not_tracked [OF assms(1) that(1)] that(2)
    by (intro lone_frame [OF that(1)] Add_other [OF r n]) auto
qed

text \<open>Removal of a node from a ring it is in, seen from a second, disjoint ring.\<close>

lemma ring_Remove_pair:
  assumes r: "ring h l (map BufLink xs)" and b: "b \<in> set xs"
    and r': "ring h l' ys" and d: "set (l # map BufLink xs) \<inter> set (l' # ys) = {}"
  shows "ring (CFE_SB_TrackingListRemove (BufLink b) h) l (map BufLink (remove1 b xs))"
    and "ring (CFE_SB_TrackingListRemove (BufLink b) h) l' ys"
    and "ring (CFE_SB_TrackingListRemove (BufLink b) h) (BufLink b) []"
proof -
  obtain us vs where xs: "xs = us @ b # vs" "b \<notin> set us" using b by (meson split_list_first)
  then have r2: "ring h l (map BufLink us @ BufLink b # map BufLink vs)" using r by simp
  have "remove1 b xs = us @ vs" using xs by (simp add: remove1_append)
  then show "ring (CFE_SB_TrackingListRemove (BufLink b) h) l (map BufLink (remove1 b xs))"
    and "ring (CFE_SB_TrackingListRemove (BufLink b) h) (BufLink b) []"
    using ring_Remove [OF r2] by simp_all
  show "ring (CFE_SB_TrackingListRemove (BufLink b) h) l' ys"
    by (rule ring_frame_outside [OF r', where A = "set (l # map BufLink us @ BufLink b # map BufLink vs)",
          OF Remove_other [OF r2]]) (use d xs(1) in auto)
qed

lemma tracked_Remove:
  assumes t: "tracked h it zc" and b: "b \<in> set it \<union> set zc \<or> lone h b"
  shows "tracked (CFE_SB_TrackingListRemove (BufLink b) h) (remove1 b it) (remove1 b zc)"
    and "lone (CFE_SB_TrackingListRemove (BufLink b) h) b"
    and "lone h c \<Longrightarrow> lone (CFE_SB_TrackingListRemove (BufLink b) h) c"
proof -
  let ?h = "CFE_SB_TrackingListRemove (BufLink b) h"
  have rs: "ring h InTransitList (map BufLink it)" "ring h ZeroCopyList (map BufLink zc)" "set it \<inter> set zc = {}"
    using t by (auto simp: tracked_def)
  consider (it) "b \<in> set it" "b \<notin> set zc" | (zc) "b \<in> set zc" "b \<notin> set it" | (lone) "lone h b"
    using b rs(3) by auto
  then have "tracked ?h (remove1 b it) (remove1 b zc) \<and> lone ?h b \<and> (lone h c \<longrightarrow> lone ?h c)"
  proof cases
    case it
    have d: "set (InTransitList # map BufLink it) \<inter> set (ZeroCopyList # map BufLink zc) = {}"
      using rs(3) by auto
    have dc: "set (InTransitList # map BufLink it) \<inter> set (BufLink c # []) = {}" if "lone h c"
      using lone_not_tracked [OF t that] by auto
    show ?thesis
      using ring_Remove_pair [OF rs(1) it(1) rs(2) d] ring_Remove_pair(2) [OF rs(1) it(1) _ dc] it(2) rs(3)
      by (auto simp: tracked_def lone_def remove1_idem dest: in_set_remove1 [THEN iffD1, rotated] notin_set_remove1)
  next
    case zc
    have d: "set (ZeroCopyList # map BufLink zc) \<inter> set (InTransitList # map BufLink it) = {}"
      using rs(3) by auto
    have dc: "set (ZeroCopyList # map BufLink zc) \<inter> set (BufLink c # []) = {}" if "lone h c"
      using lone_not_tracked [OF t that] by auto
    show ?thesis
      using ring_Remove_pair [OF rs(2) zc(1) rs(1) d] ring_Remove_pair(2) [OF rs(2) zc(1) _ dc] zc(2) rs(3)
      by (auto simp: tracked_def lone_def remove1_idem dest: in_set_remove1 [THEN iffD1, rotated] notin_set_remove1)
  next
    case lone
    with lone_not_tracked [OF t lone] t show ?thesis
      by (simp add: lone_def Remove_singleton remove1_idem)
  qed
  then show "tracked ?h (remove1 b it) (remove1 b zc)" "lone ?h b" "lone h c \<Longrightarrow> lone ?h c" by auto
qed

end
