(* ===== verification/CFE_SB_State.thy ===== *)
theory CFE_SB_State
  imports CFE_SB_Track CFE_SBR CFE_ResourceId CFE_Msg_Id
begin

unbundle bit_operations_syntax

text \<open>
  The global data of the software bus (\<^verbatim>\<open>CFE_SB_Global\<close>, \<^verbatim>\<open>cfe_sb_priv.h\<close>), the heaps its
  pointers lead to, and what the services below the bus answer.

  Buffer descriptors and destination descriptors come from one memory pool of executive
  services.  An address is a number; \<open>Bufs\<close> and \<open>Dests\<close> map the addresses of the
  allocated descriptors to their contents, so that an address outside the domain is freed (or
  never allocated) memory.  The \<open>Link\<close> members of the buffer descriptors are in \<open>Links\<close>.  A
  pipe descriptor pointer is the index of its table entry.

  The answers of executive services and of the operating system abstraction layer during
  one call are the fields of \<open>CFE_SB_Env\<close>, an argument of the functions that use them.
  The messages the bus itself asks for after it has released its lock (events, subscription
  reports) are the output of a call.
\<close>

section \<open>Constants\<close>

abbreviation (input) CFE_PLATFORM_SB_MAX_PIPES :: u32 where "CFE_PLATFORM_SB_MAX_PIPES \<equiv> 64"
abbreviation (input) CFE_PLATFORM_SB_MAX_DEST_PER_PKT :: nat where "CFE_PLATFORM_SB_MAX_DEST_PER_PKT \<equiv> 16"
abbreviation (input) CFE_PLATFORM_SB_DEFAULT_MSG_LIMIT :: u16 where "CFE_PLATFORM_SB_DEFAULT_MSG_LIMIT \<equiv> 4"
abbreviation (input) CFE_MISSION_SB_MAX_SB_MSG_SIZE :: nat where "CFE_MISSION_SB_MAX_SB_MSG_SIZE \<equiv> 32768"
abbreviation (input) OS_QUEUE_MAX_DEPTH :: u16 where "OS_QUEUE_MAX_DEPTH \<equiv> 50"
abbreviation (input) CFE_SB_PIPEID_BASE :: u32 where "CFE_SB_PIPEID_BASE \<equiv> 0x160000"
abbreviation (input) CFE_SB_INVALID_PIPE :: u32 where "CFE_SB_INVALID_PIPE \<equiv> 0"
abbreviation (input) CFE_ES_APPID_UNDEFINED :: u32 where "CFE_ES_APPID_UNDEFINED \<equiv> 0"
abbreviation (input) CFE_SB_PIPEOPTS_IGNOREMINE :: u8 where "CFE_SB_PIPEOPTS_IGNOREMINE \<equiv> 1"
abbreviation (input) CFE_SB_ACTIVE :: u8 where "CFE_SB_ACTIVE \<equiv> 1"
abbreviation (input) CFE_SB_INACTIVE :: u8 where "CFE_SB_INACTIVE \<equiv> 0"
abbreviation (input) CFE_SB_MSG_GLOBAL :: u8 where "CFE_SB_MSG_GLOBAL \<equiv> 0"
abbreviation (input) CFE_SB_MSG_LOCAL :: u8 where "CFE_SB_MSG_LOCAL \<equiv> 1"
abbreviation (input) CFE_SB_DISABLE :: u32 where "CFE_SB_DISABLE \<equiv> 0"
abbreviation (input) CFE_SB_ENABLE :: u32 where "CFE_SB_ENABLE \<equiv> 1"
abbreviation (input) OS_MAX_API_NAME :: nat where "OS_MAX_API_NAME \<equiv> 20"
abbreviation (input) CFE_SB_POLL :: int32 where "CFE_SB_POLL \<equiv> 0"
abbreviation (input) CFE_SB_PEND_FOREVER :: int32 where "CFE_SB_PEND_FOREVER \<equiv> - 1"

text \<open>OSAL status codes (\<^verbatim>\<open>osapi-error.h\<close>) and time-outs.\<close>

abbreviation (input) OS_SUCCESS :: int32 where "OS_SUCCESS \<equiv> 0"
abbreviation (input) OS_QUEUE_EMPTY :: int32 where "OS_QUEUE_EMPTY \<equiv> - 8"
abbreviation (input) OS_QUEUE_FULL :: int32 where "OS_QUEUE_FULL \<equiv> - 9"
abbreviation (input) OS_QUEUE_TIMEOUT :: int32 where "OS_QUEUE_TIMEOUT \<equiv> - 10"
abbreviation (input) OS_ERR_NO_FREE_IDS :: int32 where "OS_ERR_NO_FREE_IDS \<equiv> - 14"
abbreviation (input) OS_ERR_NAME_TAKEN :: int32 where "OS_ERR_NAME_TAKEN \<equiv> - 15"
abbreviation (input) OS_PEND :: int32 where "OS_PEND \<equiv> - 1"
abbreviation (input) OS_CHECK :: int32 where "OS_CHECK \<equiv> 0"

text \<open>Event ids (\<^verbatim>\<open>cfe_sb_events.h\<close>).\<close>

abbreviation (input) CFE_SB_CR_PIPE_BAD_ARG_EID :: nat where "CFE_SB_CR_PIPE_BAD_ARG_EID \<equiv> 2"
abbreviation (input) CFE_SB_MAX_PIPES_MET_EID :: nat where "CFE_SB_MAX_PIPES_MET_EID \<equiv> 3"
abbreviation (input) CFE_SB_CR_PIPE_ERR_EID :: nat where "CFE_SB_CR_PIPE_ERR_EID \<equiv> 4"
abbreviation (input) CFE_SB_PIPE_ADDED_EID :: nat where "CFE_SB_PIPE_ADDED_EID \<equiv> 5"
abbreviation (input) CFE_SB_CR_PIPE_NAME_TAKEN_EID :: nat where "CFE_SB_CR_PIPE_NAME_TAKEN_EID \<equiv> 62"
abbreviation (input) CFE_SB_CR_PIPE_NO_FREE_EID :: nat where "CFE_SB_CR_PIPE_NO_FREE_EID \<equiv> 63"
abbreviation (input) CFE_SB_SETPIPEOPTS_ID_ERR_EID :: nat where "CFE_SB_SETPIPEOPTS_ID_ERR_EID \<equiv> 55"
abbreviation (input) CFE_SB_SETPIPEOPTS_OWNER_ERR_EID :: nat where "CFE_SB_SETPIPEOPTS_OWNER_ERR_EID \<equiv> 56"
abbreviation (input) CFE_SB_SETPIPEOPTS_EID :: nat where "CFE_SB_SETPIPEOPTS_EID \<equiv> 57"
abbreviation (input) CFE_SB_GETPIPEOPTS_ID_ERR_EID :: nat where "CFE_SB_GETPIPEOPTS_ID_ERR_EID \<equiv> 58"
abbreviation (input) CFE_SB_GETPIPEOPTS_PTR_ERR_EID :: nat where "CFE_SB_GETPIPEOPTS_PTR_ERR_EID \<equiv> 59"
abbreviation (input) CFE_SB_GETPIPEOPTS_EID :: nat where "CFE_SB_GETPIPEOPTS_EID \<equiv> 60"
abbreviation (input) CFE_SB_GETPIPENAME_EID :: nat where "CFE_SB_GETPIPENAME_EID \<equiv> 62"
abbreviation (input) CFE_SB_GETPIPENAME_NULL_PTR_EID :: nat where "CFE_SB_GETPIPENAME_NULL_PTR_EID \<equiv> 63"
abbreviation (input) CFE_SB_GETPIPENAME_ID_ERR_EID :: nat where "CFE_SB_GETPIPENAME_ID_ERR_EID \<equiv> 64"
abbreviation (input) CFE_SB_GETPIPEIDBYNAME_EID :: nat where "CFE_SB_GETPIPEIDBYNAME_EID \<equiv> 65"
abbreviation (input) CFE_SB_GETPIPEIDBYNAME_NULL_ERR_EID :: nat where "CFE_SB_GETPIPEIDBYNAME_NULL_ERR_EID \<equiv> 66"
abbreviation (input) CFE_SB_GETPIPEIDBYNAME_NAME_ERR_EID :: nat where "CFE_SB_GETPIPEIDBYNAME_NAME_ERR_EID \<equiv> 67"
abbreviation (input) CFE_SB_SUB_ARG_ERR_EID :: nat where "CFE_SB_SUB_ARG_ERR_EID \<equiv> 6"
abbreviation (input) CFE_SB_DUP_SUBSCRIP_EID :: nat where "CFE_SB_DUP_SUBSCRIP_EID \<equiv> 7"
abbreviation (input) CFE_SB_MAX_MSGS_MET_EID :: nat where "CFE_SB_MAX_MSGS_MET_EID \<equiv> 8"
abbreviation (input) CFE_SB_MAX_DESTS_MET_EID :: nat where "CFE_SB_MAX_DESTS_MET_EID \<equiv> 9"
abbreviation (input) CFE_SB_SUBSCRIPTION_RCVD_EID :: nat where "CFE_SB_SUBSCRIPTION_RCVD_EID \<equiv> 10"
abbreviation (input) CFE_SB_UNSUB_ARG_ERR_EID :: nat where "CFE_SB_UNSUB_ARG_ERR_EID \<equiv> 11"
abbreviation (input) CFE_SB_UNSUB_NO_SUBS_EID :: nat where "CFE_SB_UNSUB_NO_SUBS_EID \<equiv> 12"
abbreviation (input) CFE_SB_SEND_BAD_ARG_EID :: nat where "CFE_SB_SEND_BAD_ARG_EID \<equiv> 13"
abbreviation (input) CFE_SB_SEND_NO_SUBS_EID :: nat where "CFE_SB_SEND_NO_SUBS_EID \<equiv> 14"
abbreviation (input) CFE_SB_MSG_TOO_BIG_EID :: nat where "CFE_SB_MSG_TOO_BIG_EID \<equiv> 15"
abbreviation (input) CFE_SB_GET_BUF_ERR_EID :: nat where "CFE_SB_GET_BUF_ERR_EID \<equiv> 16"
abbreviation (input) CFE_SB_MSGID_LIM_ERR_EID :: nat where "CFE_SB_MSGID_LIM_ERR_EID \<equiv> 17"
abbreviation (input) CFE_SB_RCV_BAD_ARG_EID :: nat where "CFE_SB_RCV_BAD_ARG_EID \<equiv> 18"
abbreviation (input) CFE_SB_BAD_PIPEID_EID :: nat where "CFE_SB_BAD_PIPEID_EID \<equiv> 19"
abbreviation (input) CFE_SB_DEST_BLK_ERR_EID :: nat where "CFE_SB_DEST_BLK_ERR_EID \<equiv> 20"
abbreviation (input) CFE_SB_SEND_INV_MSGID_EID :: nat where "CFE_SB_SEND_INV_MSGID_EID \<equiv> 21"
abbreviation (input) CFE_SB_SUBSCRIPTION_RPT_EID :: nat where "CFE_SB_SUBSCRIPTION_RPT_EID \<equiv> 22"
abbreviation (input) CFE_SB_ENBL_RTE1_EID :: nat where "CFE_SB_ENBL_RTE1_EID \<equiv> 33"
abbreviation (input) CFE_SB_ENBL_RTE2_EID :: nat where "CFE_SB_ENBL_RTE2_EID \<equiv> 34"
abbreviation (input) CFE_SB_ENBL_RTE3_EID :: nat where "CFE_SB_ENBL_RTE3_EID \<equiv> 35"
abbreviation (input) CFE_SB_DSBL_RTE1_EID :: nat where "CFE_SB_DSBL_RTE1_EID \<equiv> 36"
abbreviation (input) CFE_SB_DSBL_RTE2_EID :: nat where "CFE_SB_DSBL_RTE2_EID \<equiv> 37"
abbreviation (input) CFE_SB_DSBL_RTE3_EID :: nat where "CFE_SB_DSBL_RTE3_EID \<equiv> 38"
abbreviation (input) CFE_SB_HASHCOLLISION_EID :: nat where "CFE_SB_HASHCOLLISION_EID \<equiv> 23"
abbreviation (input) CFE_SB_Q_FULL_ERR_EID :: nat where "CFE_SB_Q_FULL_ERR_EID \<equiv> 25"
abbreviation (input) CFE_SB_Q_WR_ERR_EID :: nat where "CFE_SB_Q_WR_ERR_EID \<equiv> 26"
abbreviation (input) CFE_SB_Q_RD_ERR_EID :: nat where "CFE_SB_Q_RD_ERR_EID \<equiv> 27"
abbreviation (input) CFE_SB_DEL_PIPE_ERR1_EID :: nat where "CFE_SB_DEL_PIPE_ERR1_EID \<equiv> 46"
abbreviation (input) CFE_SB_DEL_PIPE_ERR2_EID :: nat where "CFE_SB_DEL_PIPE_ERR2_EID \<equiv> 54"
abbreviation (input) CFE_SB_PIPE_DELETED_EID :: nat where "CFE_SB_PIPE_DELETED_EID \<equiv> 47"
abbreviation (input) CFE_SB_SUBSCRIPTION_REMOVED_EID :: nat where "CFE_SB_SUBSCRIPTION_REMOVED_EID \<equiv> 48"
abbreviation (input) CFE_SB_SUB_INV_PIPE_EID :: nat where "CFE_SB_SUB_INV_PIPE_EID \<equiv> 50"
abbreviation (input) CFE_SB_SUB_INV_CALLER_EID :: nat where "CFE_SB_SUB_INV_CALLER_EID \<equiv> 51"
abbreviation (input) CFE_SB_UNSUB_INV_PIPE_EID :: nat where "CFE_SB_UNSUB_INV_PIPE_EID \<equiv> 52"
abbreviation (input) CFE_SB_UNSUB_INV_CALLER_EID :: nat where "CFE_SB_UNSUB_INV_CALLER_EID \<equiv> 53"

section \<open>Descriptors\<close>

type_synonym CFE_SB_PipeId = u32
type_synonym CFE_ES_AppId = u32
type_synonym osal_id = u32

record CFE_SB_DestinationD =
  DestPipeId :: CFE_SB_PipeId
  Active :: u8
  MsgId2PipeLim :: u16
  BuffCount :: u16
  DestCnt :: u16
  Scope :: u8
  DestPrev :: "nat ptr"
  DestNext :: "nat ptr"

record CFE_SB_BufferD =
  BufMsgId :: CFE_SB_MsgId
  BufAppId :: CFE_ES_AppId
  AllocatedSize :: nat
  ContentSize :: nat
  ContentType :: CFE_MSG_Type
  AutoSequence :: bool
  UseCount :: u16
  Content :: message

record CFE_SB_PipeD =
  PipeId :: CFE_SB_PipeId
  Opts :: u8
  PipeAppId :: CFE_ES_AppId
  SysQueueId :: osal_id
  SendErrors :: u16
  MaxQueueDepth :: u16
  CurrentQueueDepth :: u16
  PeakQueueDepth :: u16
  LastBuffer :: "nat ptr"

record CFE_SB_Qos =
  Priority :: u8
  Reliability :: u8

text \<open>A descriptor after \<open>memset(PipeDscPtr, 0, sizeof(*PipeDscPtr))\<close>.\<close>

definition zero_PipeD :: CFE_SB_PipeD where
  "zero_PipeD = \<lparr>PipeId = 0, Opts = 0, PipeAppId = 0, SysQueueId = 0, SendErrors = 0,
     MaxQueueDepth = 0, CurrentQueueDepth = 0, PeakQueueDepth = 0, LastBuffer = NULL\<rparr>"

section \<open>Counters and the global data\<close>

record CFE_SB_HousekeepingTlm =
  CommandCounter :: u8
  CommandErrorCounter :: u8
  NoSubscribersCounter :: u8
  MsgSendErrorCounter :: u8
  MsgReceiveErrorCounter :: u8
  InternalErrorCounter :: u8
  CreatePipeErrorCounter :: u8
  SubscribeErrorCounter :: u8
  PipeOptsErrorCounter :: u8
  DuplicateSubscriptionsCounter :: u8
  GetPipeIdByNameErrorCounter :: u8
  PipeOverflowErrorCounter :: u16
  MsgLimitErrorCounter :: u16

record CFE_SB_StatsTlm =
  MsgIdsInUse :: u32
  PeakMsgIdsInUse :: u32
  PipesInUse :: u32
  PeakPipesInUse :: u32
  MemInUse :: u32
  PeakMemInUse :: u32
  SubscriptionsInUse :: u32
  PeakSubscriptionsInUse :: u32
  SBBuffersInUse :: u32
  PeakSBBuffersInUse :: u32

record CFE_SB_Global =
  SubscriptionReporting :: u32
  StopRecurseFlags :: "u32 list"
  PipeTbl :: "CFE_SB_PipeD list"
  HKTlmMsg :: CFE_SB_HousekeepingTlm
  StatTlmMsg :: CFE_SB_StatsTlm
  LastPipeId :: CFE_ResourceId
  SBR :: CFE_SBR
  Dests :: "nat \<Rightarrow> CFE_SB_DestinationD option"
  Bufs :: "nat \<Rightarrow> CFE_SB_BufferD option"
  Links :: links

section \<open>Answers and outputs\<close>

text \<open>
  \<open>GetAppID\<close>: status and id of the calling application.  \<open>TaskIndex\<close>: index of the calling
  task, if its id is valid.  \<open>GetPoolBuf n\<close>: status and address for a request of \<open>n\<close> bytes;
  a negative status is a failure.  \<open>PutPoolBuf a\<close>: status of the return of block \<open>a\<close>.
  \<open>StaleDest\<close> and \<open>StaleContent\<close>: what memory from the pool holds before it is written.
  \<open>QueueCreate\<close>: status and id of a new queue.  \<open>QueuePut q\<close>: status of a write to queue
  \<open>q\<close>.  \<open>ResourceName q n\<close>: status and contents of the name buffer of size \<open>n\<close> for queue \<open>q\<close>.
  \<open>QueueIdByName\<close>: status and id of the queue of a name.  \<open>MapCfg\<close> and \<open>MsgCfg\<close> are the build
  configurations of the routing and the message module.  \<open>ContentOffset\<close> is the offset of \<open>Content\<close>
  in a buffer descriptor and \<open>SizeofDest\<close> the size of a destination descriptor, which the
  compiler chooses.
\<close>

record CFE_SB_Env =
  GetAppID :: "int32 \<times> CFE_ES_AppId"
  TaskIndex :: "nat ptr"
  ContentOffset :: nat
  SizeofDest :: nat
  GetPoolBuf :: "nat \<Rightarrow> int32 \<times> nat"
  PutPoolBuf :: "nat \<Rightarrow> int32"
  StaleDest :: CFE_SB_DestinationD
  StaleContent :: message
  QueueCreate :: "int32 \<times> osal_id"
  QueuePut :: "osal_id \<Rightarrow> int32"
  ResourceName :: "osal_id \<Rightarrow> nat \<Rightarrow> int32 \<times> string"
  QueueIdByName :: "string \<Rightarrow> int32 \<times> osal_id"
  MapCfg :: CFE_SBR_MapConfig
  MsgCfg :: CFE_MSG_Config

datatype CFE_EVS_EventType = EVS_DEBUG | EVS_INFORMATION | EVS_ERROR | EVS_CRITICAL

text \<open>
  \<open>Event\<close> is an event with its id and type.  \<open>SendErrEvent\<close> is an event of the send errors
  with the message id read from the buffer descriptor, \<open>None\<close> when that memory is not allocated any
  more.  \<open>SubscriptionReport\<close> is the report of a new global subscription.
\<close>

datatype CFE_SB_Output =
  Event nat CFE_EVS_EventType
| SendErrEvent nat "CFE_SB_MsgId option"
| SubscriptionReport CFE_SB_MsgId CFE_SB_PipeId CFE_SB_Qos

section \<open>Field updates\<close>

text \<open>Writes through a descriptor pointer, and counter updates.\<close>

definition upd_buf :: "nat \<Rightarrow> (CFE_SB_BufferD \<Rightarrow> CFE_SB_BufferD) \<Rightarrow> CFE_SB_Global \<Rightarrow> CFE_SB_Global" where
  "upd_buf b f g = g\<lparr>Bufs := (Bufs g)(b := map_option f (Bufs g b))\<rparr>"

definition upd_dest :: "nat \<Rightarrow> (CFE_SB_DestinationD \<Rightarrow> CFE_SB_DestinationD) \<Rightarrow> CFE_SB_Global \<Rightarrow> CFE_SB_Global" where
  "upd_dest d f g = g\<lparr>Dests := (Dests g)(d := map_option f (Dests g d))\<rparr>"

definition upd_pipe :: "u32 \<Rightarrow> (CFE_SB_PipeD \<Rightarrow> CFE_SB_PipeD) \<Rightarrow> CFE_SB_Global \<Rightarrow> CFE_SB_Global" where
  "upd_pipe i f g = g\<lparr>PipeTbl := (PipeTbl g)[unat i := f (PipeTbl g ! unat i)]\<rparr>"

definition upd_hk :: "(CFE_SB_HousekeepingTlm \<Rightarrow> CFE_SB_HousekeepingTlm) \<Rightarrow> CFE_SB_Global \<Rightarrow> CFE_SB_Global" where
  "upd_hk f g = g\<lparr>HKTlmMsg := f (HKTlmMsg g)\<rparr>"

definition upd_stat :: "(CFE_SB_StatsTlm \<Rightarrow> CFE_SB_StatsTlm) \<Rightarrow> CFE_SB_Global \<Rightarrow> CFE_SB_Global" where
  "upd_stat f g = g\<lparr>StatTlmMsg := f (StatTlmMsg g)\<rparr>"

definition pipe_at :: "CFE_SB_Global \<Rightarrow> u32 \<Rightarrow> CFE_SB_PipeD" where
  "pipe_at g i = PipeTbl g ! unat i"

definition buf_at :: "CFE_SB_Global \<Rightarrow> nat \<Rightarrow> CFE_SB_BufferD" where
  "buf_at g b = the (Bufs g b)"

definition dest_at :: "CFE_SB_Global \<Rightarrow> nat \<Rightarrow> CFE_SB_DestinationD" where
  "dest_at g d = the (Dests g d)"

lemma upd_other_fields [simp]:
  "PipeTbl (upd_buf b f g) = PipeTbl g" "Dests (upd_buf b f g) = Dests g" "SBR (upd_buf b f g) = SBR g"
  "Links (upd_buf b f g) = Links g" "HKTlmMsg (upd_buf b f g) = HKTlmMsg g"
  "StatTlmMsg (upd_buf b f g) = StatTlmMsg g" "LastPipeId (upd_buf b f g) = LastPipeId g"
  "StopRecurseFlags (upd_buf b f g) = StopRecurseFlags g" "SubscriptionReporting (upd_buf b f g) = SubscriptionReporting g"
  "PipeTbl (upd_dest d k g) = PipeTbl g" "Bufs (upd_dest d k g) = Bufs g" "SBR (upd_dest d k g) = SBR g"
  "Links (upd_dest d k g) = Links g" "HKTlmMsg (upd_dest d k g) = HKTlmMsg g"
  "StatTlmMsg (upd_dest d k g) = StatTlmMsg g" "LastPipeId (upd_dest d k g) = LastPipeId g"
  "StopRecurseFlags (upd_dest d k g) = StopRecurseFlags g" "SubscriptionReporting (upd_dest d k g) = SubscriptionReporting g"
  "Dests (upd_pipe i p g) = Dests g" "Bufs (upd_pipe i p g) = Bufs g" "SBR (upd_pipe i p g) = SBR g"
  "Links (upd_pipe i p g) = Links g" "HKTlmMsg (upd_pipe i p g) = HKTlmMsg g"
  "StatTlmMsg (upd_pipe i p g) = StatTlmMsg g" "LastPipeId (upd_pipe i p g) = LastPipeId g"
  "StopRecurseFlags (upd_pipe i p g) = StopRecurseFlags g" "SubscriptionReporting (upd_pipe i p g) = SubscriptionReporting g"
  "Dests (upd_hk c g) = Dests g" "Bufs (upd_hk c g) = Bufs g" "SBR (upd_hk c g) = SBR g"
  "Links (upd_hk c g) = Links g" "PipeTbl (upd_hk c g) = PipeTbl g" "HKTlmMsg (upd_hk c g) = c (HKTlmMsg g)"
  "StatTlmMsg (upd_hk c g) = StatTlmMsg g" "LastPipeId (upd_hk c g) = LastPipeId g"
  "StopRecurseFlags (upd_hk c g) = StopRecurseFlags g" "SubscriptionReporting (upd_hk c g) = SubscriptionReporting g"
  "Dests (upd_stat s g) = Dests g" "Bufs (upd_stat s g) = Bufs g" "SBR (upd_stat s g) = SBR g"
  "Links (upd_stat s g) = Links g" "PipeTbl (upd_stat s g) = PipeTbl g" "HKTlmMsg (upd_stat s g) = HKTlmMsg g"
  "StatTlmMsg (upd_stat s g) = s (StatTlmMsg g)" "LastPipeId (upd_stat s g) = LastPipeId g"
  "StopRecurseFlags (upd_stat s g) = StopRecurseFlags g" "SubscriptionReporting (upd_stat s g) = SubscriptionReporting g"
  by (simp_all add: upd_buf_def upd_dest_def upd_pipe_def upd_hk_def upd_stat_def)

lemma Bufs_upd_buf [simp]: "Bufs (upd_buf b f g) x = (if x = b then map_option f (Bufs g b) else Bufs g x)"
  by (simp add: upd_buf_def)

lemma Dests_upd_dest [simp]: "Dests (upd_dest d f g) x = (if x = d then map_option f (Dests g d) else Dests g x)"
  by (simp add: upd_dest_def)

lemma length_PipeTbl_upd [simp]: "length (PipeTbl (upd_pipe i f g)) = length (PipeTbl g)"
  by (simp add: upd_pipe_def)

lemma pipe_at_upd_pipe [simp]:
  "pipe_at (upd_pipe i f g) j =
     (if j = i \<and> unat i < length (PipeTbl g) then f (pipe_at g i) else pipe_at g j)"
  by (cases "unat i < length (PipeTbl g)")
     (auto simp: pipe_at_def upd_pipe_def nth_list_update word_unat_eq_iff list_update_beyond)

lemma pipe_at_upd [simp]:
  "pipe_at (upd_buf b h g) j = pipe_at g j" "pipe_at (upd_dest d k g) j = pipe_at g j"
  "pipe_at (upd_hk c g) j = pipe_at g j" "pipe_at (upd_stat s g) j = pipe_at g j"
  by (simp_all add: pipe_at_def)

section \<open>Events that could recurse\<close>

text \<open>
  An event is a message, so an event about a failed send could fail to be sent and cause
  another.  One flag per task and kind of event stops this.
\<close>

definition CFE_SB_RequestToSendEvent :: "nat ptr \<Rightarrow> nat \<Rightarrow> CFE_SB_Global \<Rightarrow> CFE_SB_Global \<times> bool" where
  "CFE_SB_RequestToSendEvent TaskId Bit g =
     (case TaskId of
        None \<Rightarrow> (g, False)
      | Some Indx \<Rightarrow>
          (if StopRecurseFlags g ! Indx AND push_bit Bit 1 \<noteq> 0 then (g, False)
           else (g\<lparr>StopRecurseFlags := (StopRecurseFlags g)[Indx := StopRecurseFlags g ! Indx OR push_bit Bit 1]\<rparr>, True)))"

definition CFE_SB_FinishSendEvent :: "nat ptr \<Rightarrow> nat \<Rightarrow> CFE_SB_Global \<Rightarrow> CFE_SB_Global" where
  "CFE_SB_FinishSendEvent TaskId Bit g =
     (case TaskId of
        None \<Rightarrow> g
      | Some Indx \<Rightarrow>
          g\<lparr>StopRecurseFlags := (StopRecurseFlags g)[Indx := StopRecurseFlags g ! Indx AND NOT (push_bit Bit 1)]\<rparr>)"

text \<open>The guarded sending of events: request, send, finish.\<close>

definition guarded_event :: "nat ptr \<Rightarrow> nat \<Rightarrow> CFE_SB_Output list \<Rightarrow> CFE_SB_Global \<Rightarrow> CFE_SB_Global \<times> CFE_SB_Output list" where
  "guarded_event TskId Bit evs g =
     (let (g, granted) = CFE_SB_RequestToSendEvent TskId Bit g
      in if granted then (CFE_SB_FinishSendEvent TskId Bit g, evs) else (g, []))"

text \<open>A guarded event leaves the global data as it was.\<close>

lemma set_clear_bit:
  fixes w m :: u32
  assumes "w AND m = 0"
  shows "(w OR m) AND NOT m = w"
proof (rule bit_word_eqI)
  fix n assume "n < LENGTH(32)"
  moreover have "bit (w AND m) n = False" using assms by simp
  ultimately show "bit ((w OR m) AND NOT m) n = bit w n" by (auto simp: bit_simps)
qed

lemma guarded_event_state [simp]: "fst (guarded_event TskId Bit evs g) = g"
  by (auto simp: guarded_event_def CFE_SB_RequestToSendEvent_def CFE_SB_FinishSendEvent_def
      set_clear_bit list_update_beyond nth_list_update split: option.splits)
     (metis (no_types, lifting) CFE_SB_Global.surjective CFE_SB_Global.update_convs(2) list_update_beyond
        list_update_id linorder_not_le nth_list_update_eq set_clear_bit)

end
