(* ===== verification/CFE_SB_Dest.thy ===== *)
theory CFE_SB_Dest
  imports CFE_SB_State CFE_SBR_Map
begin

text \<open>
  The destinations of a route (\<^verbatim>\<open>cfe_sb_priv.c\<close>, \<^verbatim>\<open>cfe_sb_buf.c\<close>): a doubly linked,
  NULL-terminated list of destination descriptors whose head is in the routing table.

  The search follows the links of a heap that could be cyclic, so it is a partial function
  (\<open>None\<close>: it does not end).  \<open>dest_lists g L\<close> says that the descriptors of route \<open>r\<close> are the
  list \<open>L r\<close>, and that the lists of all routes are disjoint; the operations are the list
  operations on \<open>L\<close>.
\<close>

section \<open>Operations\<close>

partial_function (option) find_dest ::
  "(nat \<Rightarrow> CFE_SB_DestinationD option) \<Rightarrow> CFE_SB_PipeId \<Rightarrow> nat ptr \<Rightarrow> nat ptr option" where
  "find_dest h pid destptr =
     (case destptr of
        None \<Rightarrow> Some NULL
      | Some d \<Rightarrow>
          (if DestPipeId (the (h d)) = pid then Some (Some d)
           else find_dest h pid (DestNext (the (h d)))))"

definition CFE_SB_GetDestPtr :: "CFE_SB_Global \<Rightarrow> CFE_SBR_RouteId \<Rightarrow> CFE_SB_PipeId \<Rightarrow> nat ptr option" where
  "CFE_SB_GetDestPtr g RouteId pid = find_dest (Dests g) pid (CFE_SBR_GetDestListHeadPtr (SBR g) RouteId)"

definition CFE_SB_AddDestNode :: "CFE_SBR_RouteId \<Rightarrow> nat \<Rightarrow> CFE_SB_Global \<Rightarrow> CFE_SB_Global" where
  "CFE_SB_AddDestNode RouteId NewNode g =
     (let g = (case CFE_SBR_GetDestListHeadPtr (SBR g) RouteId of
                 None \<Rightarrow> upd_dest NewNode (\<lambda>d. d\<lparr>DestNext := NULL, DestPrev := NULL\<rparr>) g
               | Some WBS \<Rightarrow>
                   upd_dest WBS (\<lambda>d. d\<lparr>DestPrev := Some NewNode\<rparr>)
                     (upd_dest NewNode (\<lambda>d. d\<lparr>DestNext := Some WBS, DestPrev := NULL\<rparr>) g))
      in g\<lparr>SBR := CFE_SBR_SetDestListHeadPtr (SBR g) RouteId (Some NewNode)\<rparr>)"

definition CFE_SB_RemoveDestNode :: "CFE_SBR_RouteId \<Rightarrow> nat \<Rightarrow> CFE_SB_Global \<Rightarrow> CFE_SB_Global" where
  "CFE_SB_RemoveDestNode RouteId NodeToRemove g =
     (let g = (case (DestPrev (dest_at g NodeToRemove), DestNext (dest_at g NodeToRemove)) of
                 (None, None) \<Rightarrow> g\<lparr>SBR := CFE_SBR_SetDestListHeadPtr (SBR g) RouteId NULL\<rparr>
               | (None, Some NextNode) \<Rightarrow>
                   (let g = upd_dest NextNode (\<lambda>d. d\<lparr>DestPrev := NULL\<rparr>) g
                    in g\<lparr>SBR := CFE_SBR_SetDestListHeadPtr (SBR g) RouteId (Some NextNode)\<rparr>)
               | (Some PrevNode, None) \<Rightarrow> upd_dest PrevNode (\<lambda>d. d\<lparr>DestNext := NULL\<rparr>) g
               | (Some PrevNode, Some NextNode) \<Rightarrow>
                   upd_dest NextNode (\<lambda>d. d\<lparr>DestPrev := Some PrevNode\<rparr>)
                     (upd_dest PrevNode (\<lambda>d. d\<lparr>DestNext := Some NextNode\<rparr>) g))
      in upd_dest NodeToRemove (\<lambda>d. d\<lparr>DestNext := NULL, DestPrev := NULL\<rparr>) g)"

definition CFE_SB_GetDestinationBlk :: "CFE_SB_Env \<Rightarrow> CFE_SB_Global \<Rightarrow> CFE_SB_Global \<times> nat ptr" where
  "CFE_SB_GetDestinationBlk env g =
     (let (Stat, Dest) = GetPoolBuf env (SizeofDest env)
      in if sint Stat < 0 then (g, NULL)
         else let g = g\<lparr>Dests := (Dests g)(Dest \<mapsto> StaleDest env)\<rparr>;
                  g = upd_stat (\<lambda>s. s\<lparr>MemInUse := MemInUse s + Stat\<rparr>) g;
                  g = (if MemInUse (StatTlmMsg g) > PeakMemInUse (StatTlmMsg g)
                       then upd_stat (\<lambda>s. s\<lparr>PeakMemInUse := MemInUse s\<rparr>) g else g)
              in (g, Some Dest))"

definition CFE_SB_PutDestinationBlk :: "CFE_SB_Env \<Rightarrow> nat ptr \<Rightarrow> CFE_SB_Global \<Rightarrow> CFE_SB_Global \<times> int32" where
  "CFE_SB_PutDestinationBlk env Dest g =
     (case Dest of
        None \<Rightarrow> (g, CFE_SB_BAD_ARGUMENT)
      | Some d \<Rightarrow>
          (let Stat = PutPoolBuf env d;
               g = g\<lparr>Dests := (Dests g)(d := None)\<rparr>;
               g = (if sint Stat > 0 then upd_stat (\<lambda>s. s\<lparr>MemInUse := MemInUse s - Stat\<rparr>) g else g)
           in (g, CFE_SUCCESS)))"

definition CFE_SB_RemoveDest :: "CFE_SB_Env \<Rightarrow> CFE_SBR_RouteId \<Rightarrow> nat \<Rightarrow> CFE_SB_Global \<Rightarrow> CFE_SB_Global" where
  "CFE_SB_RemoveDest env RouteId DestPtr g =
     (let g = CFE_SB_RemoveDestNode RouteId DestPtr g;
          g = fst (CFE_SB_PutDestinationBlk env (Some DestPtr) g)
      in upd_stat (\<lambda>s. s\<lparr>SubscriptionsInUse := SubscriptionsInUse s - 1\<rparr>) g)"

section \<open>Chains\<close>

fun dchain :: "(nat \<Rightarrow> CFE_SB_DestinationD option) \<Rightarrow> nat ptr \<Rightarrow> nat ptr \<Rightarrow> nat list \<Rightarrow> bool" where
  "dchain h prev p [] \<longleftrightarrow> p = None"
| "dchain h prev p (a # as) \<longleftrightarrow>
     p = Some a \<and> (\<exists>d. h a = Some d \<and> DestPrev d = prev \<and> dchain h (Some a) (DestNext d) as)"

definition dest_lists :: "CFE_SB_Global \<Rightarrow> (CFE_SBR_RouteId \<Rightarrow> nat list) \<Rightarrow> bool" where
  "dest_lists g L \<longleftrightarrow>
     length (RoutingTbl (SBR g)) = 256 \<and>
     (\<forall>r. dchain (Dests g) None (CFE_SBR_GetDestListHeadPtr (SBR g) r) (L r) \<and> distinct (L r)) \<and>
     (\<forall>r r'. r \<noteq> r' \<longrightarrow> set (L r) \<inter> set (L r') = {})"

lemma dest_listsD:
  assumes "dest_lists g L"
  shows "length (RoutingTbl (SBR g)) = 256"
    and "dchain (Dests g) None (CFE_SBR_GetDestListHeadPtr (SBR g) r) (L r)"
    and "distinct (L r)" and "r \<noteq> r' \<Longrightarrow> set (L r) \<inter> set (L r') = {}"
  using assms by (auto simp: dest_lists_def)

text \<open>What a descriptor says apart from its links.\<close>

definition dinfo :: "CFE_SB_DestinationD \<Rightarrow> CFE_SB_DestinationD" where
  "dinfo d = d\<lparr>DestPrev := None, DestNext := None\<rparr>"

lemma dinfo_simps [simp]:
  "dinfo (d\<lparr>DestPrev := p\<rparr>) = dinfo d" "dinfo (d\<lparr>DestNext := p\<rparr>) = dinfo d"
  by (simp_all add: dinfo_def)

lemma dinfo_fields:
  assumes "dinfo d = dinfo e"
  shows "DestPipeId d = DestPipeId e" "Active d = Active e" "MsgId2PipeLim d = MsgId2PipeLim e"
    "BuffCount d = BuffCount e" "DestCnt d = DestCnt e" "Scope d = Scope e"
  using assms by (cases d; cases e; simp add: dinfo_def)+

lemma dchain_alloc: "dchain h q p xs \<Longrightarrow> a \<in> set xs \<Longrightarrow> h a \<noteq> None"
  by (induction xs arbitrary: q p) auto

lemma dchain_cong: "(\<And>x. x \<in> set xs \<Longrightarrow> h' x = h x) \<Longrightarrow> dchain h' q p xs = dchain h q p xs"
  by (induction xs arbitrary: q p) auto

text \<open>Only the links matter.\<close>

lemma dchain_links_cong:
  "(\<And>x. x \<in> set xs \<Longrightarrow> map_option (\<lambda>d. (DestPrev d, DestNext d)) (h' x) = map_option (\<lambda>d. (DestPrev d, DestNext d)) (h x)) \<Longrightarrow>
     dchain h' q p xs = dchain h q p xs"
proof (induction xs arbitrary: q p)
  case (Cons a xs)
  have IH: "dchain h' q p xs = dchain h q p xs" for q p using Cons by simp
  have "map_option (\<lambda>d. (DestPrev d, DestNext d)) (h' a) = map_option (\<lambda>d. (DestPrev d, DestNext d)) (h a)"
    using Cons.prems by simp
  then show ?case by (cases "h' a"; cases "h a") (auto simp: IH)
qed simp

lemma dchain_hd: "dchain h q p xs \<Longrightarrow> p = (case xs of [] \<Rightarrow> None | a # _ \<Rightarrow> Some a)"
  by (cases xs) auto

text \<open>A segment: as a chain, but up to the pointer \<open>e\<close>.\<close>

fun dseg :: "(nat \<Rightarrow> CFE_SB_DestinationD option) \<Rightarrow> nat ptr \<Rightarrow> nat ptr \<Rightarrow> nat list \<Rightarrow> nat ptr \<Rightarrow> bool" where
  "dseg h prev p [] e \<longleftrightarrow> p = e"
| "dseg h prev p (a # as) e \<longleftrightarrow>
     p = Some a \<and> (\<exists>d. h a = Some d \<and> DestPrev d = prev \<and> dseg h (Some a) (DestNext d) as e)"

abbreviation (input) last_ptr :: "nat ptr \<Rightarrow> nat list \<Rightarrow> nat ptr" where
  "last_ptr q xs \<equiv> (if xs = [] then q else Some (last xs))"

abbreviation (input) first_ptr :: "nat list \<Rightarrow> nat ptr" where
  "first_ptr xs \<equiv> (case xs of [] \<Rightarrow> None | a # _ \<Rightarrow> Some a)"

lemma dchain_append:
  "dchain h q p (xs @ ys) \<longleftrightarrow> (\<exists>e. dseg h q p xs e \<and> dchain h (last_ptr q xs) e ys)"
  by (induction xs arbitrary: q p) auto

lemma dseg_append:
  "dseg h q p (xs @ ys) e \<longleftrightarrow> (\<exists>m. dseg h q p xs m \<and> dseg h (last_ptr q xs) m ys e)"
  by (induction xs arbitrary: q p) auto

lemma dseg_cong: "(\<And>x. x \<in> set xs \<Longrightarrow> h' x = h x) \<Longrightarrow> dseg h' q p xs e = dseg h q p xs e"
  by (induction xs arbitrary: q p) auto

lemma dchain_split:
  assumes "dchain h None p (us @ n # vs)"
  obtains d where "h n = Some d" "DestPrev d = last_ptr None us" "DestNext d = first_ptr vs"
    "dseg h None p us (Some n)" "dchain h (Some n) (first_ptr vs) vs"
proof -
  obtain d where d: "dseg h None p us (Some n)" "h n = Some d" "DestPrev d = last_ptr None us"
    "dchain h (Some n) (DestNext d) vs"
    using assms by (auto simp: dchain_append)
  moreover have "DestNext d = first_ptr vs" by (rule dchain_hd [OF d(4)])
  ultimately show thesis using that by simp
qed

lemma find_dest_chain:
  "dchain h q p xs \<Longrightarrow> find_dest h pid p = Some (find (\<lambda>d. DestPipeId (the (h d)) = pid) xs)"
proof (induction xs arbitrary: q p)
  case Nil
  then show ?case by (simp add: find_dest.simps)
next
  case (Cons a xs)
  then obtain d where d: "p = Some a" "h a = Some d" "dchain h (Some a) (DestNext d) xs" by auto
  show ?case using Cons.IH [OF d(3)] d(1,2) by (subst find_dest.simps) auto
qed

lemma GetDestPtr_find:
  "dest_lists g L \<Longrightarrow>
     CFE_SB_GetDestPtr g r pid = Some (find (\<lambda>d. DestPipeId (dest_at g d) = pid) (L r))"
  unfolding CFE_SB_GetDestPtr_def dest_at_def by (rule find_dest_chain, rule dest_listsD(2))

section \<open>The list heads\<close>

lemma head_set_head:
  assumes "length (RoutingTbl s) = 256" and "CFE_SBR_IsValidRouteId r"
  shows "CFE_SBR_GetDestListHeadPtr (CFE_SBR_SetDestListHeadPtr s r p) r' =
           (if r' = r then p else CFE_SBR_GetDestListHeadPtr s r')"
proof (cases "CFE_SBR_IsValidRouteId r'")
  case True
  have "r' \<noteq> r \<longleftrightarrow> unat r' - 1 \<noteq> unat r - 1"
    using True assms(2) by (auto simp: IsValidRouteId_nat word_unat_eq_iff)
  then show ?thesis
    using assms True
    by (auto simp: CFE_SBR_GetDestListHeadPtr_def CFE_SBR_SetDestListHeadPtr_def upd_route_def Let_def
        IsValidRouteId_nat RouteIdToValue_nat nth_list_update)
qed (use assms(2) in \<open>auto simp: CFE_SBR_GetDestListHeadPtr_def\<close>)

lemma set_head_same_routes: "same_routes s (CFE_SBR_SetDestListHeadPtr s r p)"
  unfolding CFE_SBR_SetDestListHeadPtr_def
  by (auto intro: same_routes_upd) (simp add: same_routes_def)

lemma length_set_head [simp]:
  "length (RoutingTbl (CFE_SBR_SetDestListHeadPtr s r p)) = length (RoutingTbl s)"
  by (rule same_routes_nth(1) [OF set_head_same_routes])

section \<open>Adding and removing\<close>

lemma dest_lists_valid: "dest_lists g L \<Longrightarrow> n \<in> set (L r) \<Longrightarrow> CFE_SBR_IsValidRouteId r"
  using dest_listsD(2) [of g L r] by (cases "L r") (auto simp: CFE_SBR_GetDestListHeadPtr_def split: if_splits)

lemma dest_lists_update:
  assumes g: "dest_lists g L" and r: "CFE_SBR_IsValidRouteId r"
    and new: "dchain (Dests g') None p xs" "distinct xs" "\<And>r'. r' \<noteq> r \<Longrightarrow> set xs \<inter> set (L r') = {}"
    and frame: "\<And>r' x. r' \<noteq> r \<Longrightarrow> x \<in> set (L r') \<Longrightarrow> Dests g' x = Dests g x"
    and sbr: "SBR g' = CFE_SBR_SetDestListHeadPtr (SBR g) r p"
  shows "dest_lists g' (L(r := xs))"
  unfolding dest_lists_def
proof (intro conjI allI impI)
  show "length (RoutingTbl (SBR g')) = 256" using dest_listsD(1) [OF g] by (simp add: sbr)
  fix r'
  have "dchain (Dests g') None (CFE_SBR_GetDestListHeadPtr (SBR g) r') (L r')" if "r' \<noteq> r"
    using dchain_cong [of "L r'" "Dests g'" "Dests g"] frame [OF that] dest_listsD(2) [OF g, of r'] by simp
  then show "dchain (Dests g') None (CFE_SBR_GetDestListHeadPtr (SBR g') r') ((L(r := xs)) r')"
    using new(1) by (simp add: sbr head_set_head [OF dest_listsD(1) [OF g] r])
  show "distinct ((L(r := xs)) r')" using new(2) dest_listsD(3) [OF g] by simp
  fix r'' assume "r' \<noteq> r''"
  then show "set ((L(r := xs)) r') \<inter> set ((L(r := xs)) r'') = {}"
    using new(3) dest_listsD(4) [OF g, of r' r''] by auto
qed

lemma AddDestNode_lists:
  assumes g: "dest_lists g L" and r: "CFE_SBR_IsValidRouteId r"
    and n: "Dests g n \<noteq> None" "\<And>r'. n \<notin> set (L r')"
  shows "dest_lists (CFE_SB_AddDestNode r n g) (L(r := n # L r))"
proof (rule dest_lists_update [OF g r])
  let ?g = "CFE_SB_AddDestNode r n g"
  note c = dest_listsD(2) [OF g, of r]
  obtain d where d: "Dests g n = Some d" using n(1) by auto
  show "dchain (Dests ?g) None (Some n) (n # L r)"
  proof (cases "L r")
    case Nil
    with c d show ?thesis by (simp add: CFE_SB_AddDestNode_def)
  next
    case (Cons w ws)
    with c obtain e where e: "CFE_SBR_GetDestListHeadPtr (SBR g) r = Some w" "Dests g w = Some e"
      "dchain (Dests g) (Some w) (DestNext e) ws" by auto
    have nw: "n \<noteq> w" "n \<notin> set ws" "w \<notin> set ws" using n(2) [of r] dest_listsD(3) [OF g, of r] Cons by auto
    have "dchain (Dests ?g) (Some w) (DestNext e) ws"
      using e(1,3) nw by (subst dchain_cong [of ws _ "Dests g"]) (auto simp: CFE_SB_AddDestNode_def)
    with Cons e d nw show ?thesis by (simp add: CFE_SB_AddDestNode_def)
  qed
  show "distinct (n # L r)" using n(2) dest_listsD(3) [OF g] by simp
  show "set (n # L r) \<inter> set (L r') = {}" if "r' \<noteq> r" for r'
    using n(2) [of r'] dest_listsD(4) [OF g that] by auto
  show "Dests ?g x = Dests g x" if "r' \<noteq> r" "x \<in> set (L r')" for r' x
    using that n(2) [of r'] dest_listsD(4) [OF g that(1)] c
    by (cases "L r") (auto simp: CFE_SB_AddDestNode_def split: option.split)
  show "SBR ?g = CFE_SBR_SetDestListHeadPtr (SBR g) r (Some n)"
    by (simp add: CFE_SB_AddDestNode_def split: option.split)
qed

lemma AddDestNode_info: "map_option dinfo (Dests (CFE_SB_AddDestNode r n g) x) = map_option dinfo (Dests g x)"
  by (auto simp: CFE_SB_AddDestNode_def option.map_comp comp_def split: option.split)

lemma RemoveDestNode_chain:
  assumes c: "dchain (Dests g) None p (us @ n # vs)" and dist: "distinct (us @ n # vs)"
  shows "dchain (Dests (CFE_SB_RemoveDestNode r n g)) None (if us = [] then first_ptr vs else p) (us @ vs)"
proof -
  let ?h = "Dests (CFE_SB_RemoveDestNode r n g)"
  obtain d where d: "Dests g n = Some d" "DestPrev d = last_ptr None us" "DestNext d = first_ptr vs"
    "dseg (Dests g) None p us (Some n)" "dchain (Dests g) (Some n) (first_ptr vs) vs"
    using dchain_split [OF c] .
  have heap: "?h x = (if us \<noteq> [] \<and> x = last us then map_option (\<lambda>e. e\<lparr>DestNext := first_ptr vs\<rparr>) (Dests g x)
      else if vs \<noteq> [] \<and> x = hd vs then map_option (\<lambda>e. e\<lparr>DestPrev := last_ptr None us\<rparr>) (Dests g x)
      else Dests g x)" if "x \<noteq> n" for x
    using that d(1-3) dist
    by (cases us rule: rev_cases; cases vs)
       (auto simp: CFE_SB_RemoveDestNode_def dest_at_def Let_def)
  have left: "dseg ?h None (if us = [] then first_ptr vs else p) us (first_ptr vs)"
  proof (cases us rule: rev_cases)
    case (snoc ws z)
    then obtain e where e: "dseg (Dests g) None p ws (Some z)" "Dests g z = Some e" "DestPrev e = last_ptr None ws"
      using d(4) by (auto simp: dseg_append)
    have "x \<noteq> n \<and> x \<noteq> z \<and> (vs \<noteq> [] \<longrightarrow> x \<noteq> hd vs)" if "x \<in> set ws" for x
      using that dist snoc by (cases vs) auto
    then have "dseg ?h None p ws (Some z)"
      using e(1) snoc by (subst dseg_cong [of ws _ "Dests g"]) (auto simp: heap)
    with snoc e(2,3) dist show ?thesis by (auto simp: dseg_append heap)
  qed simp
  have right: "dchain ?h (last_ptr None us) (first_ptr vs) vs"
  proof (cases vs)
    case (Cons v ws)
    then obtain e where e: "Dests g v = Some e" "dchain (Dests g) (Some v) (DestNext e) ws" using d(5) by auto
    have "x \<noteq> n \<and> x \<noteq> v \<and> (us \<noteq> [] \<longrightarrow> x \<noteq> last us)" if "x \<in> set ws" for x
      using that dist Cons by (cases us rule: rev_cases) auto
    then have "dchain ?h (Some v) (DestNext e) ws"
      using e(2) Cons by (subst dchain_cong [of ws _ "Dests g"]) (auto simp: heap)
    moreover have "v \<noteq> n" "us \<noteq> [] \<Longrightarrow> v \<noteq> last us" using dist Cons by auto
    ultimately show ?thesis using Cons e(1) by (auto simp: heap)
  qed simp
  show ?thesis using left right by (auto simp: dchain_append)
qed

lemma RemoveDestNode_other:
  assumes "dchain (Dests g) None p (us @ n # vs)" and "x \<notin> set (us @ n # vs)"
  shows "Dests (CFE_SB_RemoveDestNode r n g) x = Dests g x"
proof -
  obtain d where "Dests g n = Some d" "DestPrev d = last_ptr None us" "DestNext d = first_ptr vs"
    using dchain_split [OF assms(1)] .
  with assms(2) show ?thesis
    by (cases us rule: rev_cases; cases vs) (auto simp: CFE_SB_RemoveDestNode_def dest_at_def Let_def)
qed

lemma RemoveDestNode_SBR:
  assumes "dchain (Dests g) None (CFE_SBR_GetDestListHeadPtr (SBR g) r) (us @ n # vs)"
    and "CFE_SBR_IsValidRouteId r"
  shows "SBR (CFE_SB_RemoveDestNode r n g) =
           CFE_SBR_SetDestListHeadPtr (SBR g) r (if us = [] then first_ptr vs else CFE_SBR_GetDestListHeadPtr (SBR g) r)"
proof -
  obtain d where "Dests g n = Some d" "DestPrev d = last_ptr None us" "DestNext d = first_ptr vs"
    using dchain_split [OF assms(1)] .
  moreover have "CFE_SBR_SetDestListHeadPtr (SBR g) r (CFE_SBR_GetDestListHeadPtr (SBR g) r) = SBR g"
    using assms(2) by (simp add: CFE_SBR_SetDestListHeadPtr_def CFE_SBR_GetDestListHeadPtr_def upd_route_def Let_def)
  ultimately show ?thesis
    by (cases us rule: rev_cases; cases vs) (auto simp: CFE_SB_RemoveDestNode_def dest_at_def Let_def)
qed

lemma RemoveDestNode_info: "map_option dinfo (Dests (CFE_SB_RemoveDestNode r n g) x) = map_option dinfo (Dests g x)"
  by (auto simp: CFE_SB_RemoveDestNode_def Let_def option.map_comp comp_def split: option.split)

lemma RemoveDestNode_lists:
  assumes g: "dest_lists g L" and n: "n \<in> set (L r)"
  shows "dest_lists (CFE_SB_RemoveDestNode r n g) (L(r := remove1 n (L r)))"
proof -
  note r = dest_lists_valid [OF g n]
  obtain us vs where uv: "L r = us @ n # vs" "n \<notin> set us" using n by (meson split_list_first)
  have rm: "remove1 n (L r) = us @ vs" using uv by (simp add: remove1_append)
  have c: "dchain (Dests g) None (CFE_SBR_GetDestListHeadPtr (SBR g) r) (us @ n # vs)"
    and dist: "distinct (us @ n # vs)"
    using dest_listsD(2,3) [OF g, of r] uv(1) by simp_all
  show ?thesis unfolding rm
  proof (rule dest_lists_update [OF g r RemoveDestNode_chain [OF c dist] _ _ _ RemoveDestNode_SBR [OF c r]])
    show "distinct (us @ vs)" using dist by simp
    fix r' assume "r' \<noteq> r"
    then have disj: "set (L r) \<inter> set (L r') = {}" using dest_listsD(4) [OF g, of r r'] by auto
    then show "set (us @ vs) \<inter> set (L r') = {}" using uv(1) by auto
    fix x assume "x \<in> set (L r')"
    with disj uv(1) show "Dests (CFE_SB_RemoveDestNode r n g) x = Dests g x"
      by (intro RemoveDestNode_other [OF c]) auto
  qed
qed

text \<open>The removed block is freed; a block that is in no list may be freed or reused.\<close>

lemma dest_lists_free:
  assumes "dest_lists g L" and "\<And>r. n \<notin> set (L r)" and "\<And>x. x \<noteq> n \<Longrightarrow> Dests g' x = Dests g x" and "SBR g' = SBR g"
  shows "dest_lists g' L"
  using assms dchain_cong [of "L _" "Dests g'" "Dests g"] unfolding dest_lists_def by metis

lemma RemoveDest_lists:
  assumes "dest_lists g L" and "n \<in> set (L r)"
  shows "dest_lists (CFE_SB_RemoveDest env r n g) (L(r := remove1 n (L r)))"
proof (rule dest_lists_free [OF RemoveDestNode_lists [OF assms]])
  show "n \<notin> set ((L(r := remove1 n (L r))) r')" for r'
    using dest_listsD(3) [OF assms(1), of r] dest_listsD(4) [OF assms(1), of r r'] assms(2) by auto
qed (simp_all add: CFE_SB_RemoveDest_def CFE_SB_PutDestinationBlk_def Let_def)

lemma RemoveDest_info:
  "x \<noteq> n \<Longrightarrow> map_option dinfo (Dests (CFE_SB_RemoveDest env r n g) x) = map_option dinfo (Dests g x)"
  "Dests (CFE_SB_RemoveDest env r n g) n = None"
  by (simp_all add: CFE_SB_RemoveDest_def CFE_SB_PutDestinationBlk_def Let_def RemoveDestNode_info)

section \<open>The abstract view of a route\<close>

text \<open>
  What a route promises is the list of its destinations, newest first.  Removal of a pipe
  drops its first (in a well-formed state, its only) destination.
\<close>

definition route_view :: "CFE_SB_Global \<Rightarrow> (CFE_SBR_RouteId \<Rightarrow> nat list) \<Rightarrow> CFE_SBR_RouteId \<Rightarrow> CFE_SB_DestinationD list" where
  "route_view g L r = map (\<lambda>d. dinfo (dest_at g d)) (L r)"

fun drop_pipe :: "CFE_SB_PipeId \<Rightarrow> CFE_SB_DestinationD list \<Rightarrow> CFE_SB_DestinationD list" where
  "drop_pipe pid [] = []"
| "drop_pipe pid (d # ds) = (if DestPipeId d = pid then ds else d # drop_pipe pid ds)"

lemma drop_pipe_append:
  "\<forall>d \<in> set ds. DestPipeId d \<noteq> pid \<Longrightarrow> DestPipeId e = pid \<Longrightarrow> drop_pipe pid (ds @ e # es) = ds @ es"
  by (induction ds) auto

lemma drop_pipe_none: "\<forall>d \<in> set ds. DestPipeId d \<noteq> pid \<Longrightarrow> drop_pipe pid ds = ds"
  by (induction ds) auto

lemma drop_pipe_filter:
  "distinct (map DestPipeId ds) \<Longrightarrow> drop_pipe pid ds = filter (\<lambda>d. DestPipeId d \<noteq> pid) ds"
  by (induction ds) (auto simp: image_iff intro!: filter_True [symmetric])

lemma DestPipeId_dinfo [simp]: "DestPipeId (dinfo d) = DestPipeId d"
  by (simp add: dinfo_def)

text \<open>What operations on destinations leave alone.\<close>

definition dest_frame :: "CFE_SB_Global \<Rightarrow> CFE_SB_Global \<Rightarrow> bool" where
  "dest_frame g g' \<longleftrightarrow>
     PipeTbl g' = PipeTbl g \<and> Bufs g' = Bufs g \<and> Links g' = Links g \<and> HKTlmMsg g' = HKTlmMsg g \<and>
     LastPipeId g' = LastPipeId g \<and> SBBuffersInUse (StatTlmMsg g') = SBBuffersInUse (StatTlmMsg g) \<and>
     PipesInUse (StatTlmMsg g') = PipesInUse (StatTlmMsg g) \<and> same_routes (SBR g) (SBR g')"

lemma dest_frame_refl [simp]: "dest_frame g g"
  by (simp add: dest_frame_def same_routes_def)

lemma dest_frame_trans: "dest_frame g g' \<Longrightarrow> dest_frame g' g'' \<Longrightarrow> dest_frame g g''"
  by (simp add: dest_frame_def same_routes_def)

lemma RemoveDest_frame: "dest_frame g (CFE_SB_RemoveDest env r n g)"
  by (auto simp: dest_frame_def CFE_SB_RemoveDest_def CFE_SB_PutDestinationBlk_def CFE_SB_RemoveDestNode_def
      Let_def set_head_same_routes same_routes_def [of s s for s] split: option.split)

lemma AddDestNode_frame: "dest_frame g (CFE_SB_AddDestNode r n g)"
  by (auto simp: dest_frame_def CFE_SB_AddDestNode_def set_head_same_routes split: option.split)

lemma dinfo_dest_at:
  assumes "map_option dinfo (Dests g' x) = map_option dinfo (Dests g x)" and "Dests g x \<noteq> None"
  shows "dinfo (dest_at g' x) = dinfo (dest_at g x)"
  using assms by (cases "Dests g' x"; cases "Dests g x") (auto simp: dest_at_def)

lemma RemoveDest_view:
  assumes g: "dest_lists g L" and f: "find (\<lambda>d. DestPipeId (dest_at g d) = pid) (L r) = Some n"
  shows "n \<in> set (L r)"
    and "route_view (CFE_SB_RemoveDest env r n g) (L(r := remove1 n (L r))) =
           (route_view g L)(r := drop_pipe pid (route_view g L r))"
proof -
  from f obtain i where i: "i < length (L r)" "L r ! i = n" "DestPipeId (dest_at g n) = pid"
    "\<forall>j < i. DestPipeId (dest_at g (L r ! j)) \<noteq> pid"
    by (auto simp: find_Some_iff)
  define us vs where "us = take i (L r)" and "vs = drop (Suc i) (L r)"
  have uv: "L r = us @ n # vs" using id_take_nth_drop [OF i(1)] i(2) by (simp add: us_def vs_def)
  then show n: "n \<in> set (L r)" by simp
  have nus: "\<forall>d \<in> set us. DestPipeId (dest_at g d) \<noteq> pid"
  proof
    fix d assume "d \<in> set us"
    then obtain j where "j < i" "d = L r ! j" by (auto simp: us_def in_set_conv_nth)
    with i(4) show "DestPipeId (dest_at g d) \<noteq> pid" by blast
  qed
  have dist: "distinct (us @ n # vs)" using dest_listsD(3) [OF g, of r] uv by simp
  have rm: "remove1 n (L r) = us @ vs" using uv dist by (simp add: remove1_append)
  let ?g = "CFE_SB_RemoveDest env r n g"
  have info: "dinfo (dest_at ?g x) = dinfo (dest_at g x)" if "x \<in> set (L r')" "x \<noteq> n" for x r'
    using RemoveDest_info(1) [OF that(2)] dchain_alloc [OF dest_listsD(2) [OF g] that(1)]
    by (rule dinfo_dest_at)
  show "route_view ?g (L(r := remove1 n (L r))) = (route_view g L)(r := drop_pipe pid (route_view g L r))"
  proof
    fix r'
    show "route_view ?g (L(r := remove1 n (L r))) r' = ((route_view g L)(r := drop_pipe pid (route_view g L r))) r'"
    proof (cases "r' = r")
      case True
      have "drop_pipe pid (route_view g L r) = map (\<lambda>d. dinfo (dest_at g d)) (us @ vs)"
        using nus i(3) by (simp add: route_view_def uv drop_pipe_append)
      with True rm info [of _ r] dist uv show ?thesis by (auto simp: route_view_def)
    next
      case False
      then have "n \<notin> set (L r')" using dest_listsD(4) [OF g, of r r'] n by auto
      with False info [of _ r'] show ?thesis by (auto simp: route_view_def)
    qed
  qed
qed

end
