(* ===== verification/CFE_SB_Buf.thy ===== *)
theory CFE_SB_Buf
  imports CFE_SB_State "HOL-Library.Multiset"
begin

text \<open>
  Message buffers of the software bus (\<^verbatim>\<open>cfe_sb_buf.c\<close>): allocation from the pool, use counts,
  and the release of a buffer when its count reaches zero.

  \<open>buf_inv\<close> ties the use counts to a multiset of references: the count of an allocated buffer is
  at least (exactly, in the \<open>exact\<close> form) the number of references to it.  The use count
  saturates at \<open>0x7FFF\<close>, so an increment needs the number of references to stay below that.
\<close>

section \<open>Operations\<close>

definition CFE_SB_GetBufferFromPool :: "CFE_SB_Env \<Rightarrow> nat \<Rightarrow> CFE_SB_Global \<Rightarrow> CFE_SB_Global \<times> nat ptr" where
  "CFE_SB_GetBufferFromPool env MaxMsgSize g =
     (let AllocSize = MaxMsgSize + ContentOffset env;
          (stat1, bd) = GetPoolBuf env AllocSize
      in if sint stat1 < 0 then (g, NULL)
         else let g = upd_stat (\<lambda>s. s\<lparr>SBBuffersInUse := SBBuffersInUse s + 1\<rparr>) g;
                  g = (if SBBuffersInUse (StatTlmMsg g) > PeakSBBuffersInUse (StatTlmMsg g)
                       then upd_stat (\<lambda>s. s\<lparr>PeakSBBuffersInUse := SBBuffersInUse s\<rparr>) g else g);
                  g = upd_stat (\<lambda>s. s\<lparr>MemInUse := MemInUse s + of_nat AllocSize\<rparr>) g;
                  g = (if MemInUse (StatTlmMsg g) > PeakMemInUse (StatTlmMsg g)
                       then upd_stat (\<lambda>s. s\<lparr>PeakMemInUse := MemInUse s\<rparr>) g else g);
                  g = g\<lparr>Bufs := (Bufs g)(bd \<mapsto>
                        \<lparr>BufMsgId = CFE_SB_INVALID_MSG_ID, BufAppId = 0, AllocatedSize = AllocSize,
                         ContentSize = 0, ContentType = CFE_MSG_Type_Invalid, AutoSequence = False,
                         UseCount = 1, Content = StaleContent env\<rparr>)\<rparr>;
                  g = g\<lparr>Links := CFE_SB_TrackingListReset (BufLink bd) (Links g)\<rparr>
              in (g, Some bd))"

definition CFE_SB_ReturnBufferToPool :: "nat \<Rightarrow> CFE_SB_Global \<Rightarrow> CFE_SB_Global" where
  "CFE_SB_ReturnBufferToPool bd g =
     (let g = g\<lparr>Links := CFE_SB_TrackingListRemove (BufLink bd) (Links g)\<rparr>;
          g = upd_stat (\<lambda>s. s\<lparr>SBBuffersInUse := SBBuffersInUse s - 1\<rparr>) g;
          g = upd_stat (\<lambda>s. s\<lparr>MemInUse := MemInUse s - of_nat (AllocatedSize (buf_at g bd))\<rparr>) g
      in g\<lparr>Bufs := (Bufs g)(bd := None)\<rparr>)"

definition CFE_SB_IncrBufUseCnt :: "nat \<Rightarrow> CFE_SB_Global \<Rightarrow> CFE_SB_Global" where
  "CFE_SB_IncrBufUseCnt bd g =
     (if UseCount (buf_at g bd) < 0x7FFF then upd_buf bd (\<lambda>d. d\<lparr>UseCount := UseCount d + 1\<rparr>) g else g)"

definition CFE_SB_DecrBufUseCnt :: "nat \<Rightarrow> CFE_SB_Global \<Rightarrow> CFE_SB_Global" where
  "CFE_SB_DecrBufUseCnt bd g =
     (if UseCount (buf_at g bd) > 0
      then let g = upd_buf bd (\<lambda>d. d\<lparr>UseCount := UseCount d - 1\<rparr>) g
           in if UseCount (buf_at g bd) = 0 then CFE_SB_ReturnBufferToPool bd g else g
      else g)"

section \<open>What the operations leave alone\<close>

lemma GetBuffer_other [simp]:
  "PipeTbl (fst (CFE_SB_GetBufferFromPool env n g)) = PipeTbl g"
  "Dests (fst (CFE_SB_GetBufferFromPool env n g)) = Dests g"
  "SBR (fst (CFE_SB_GetBufferFromPool env n g)) = SBR g"
  "HKTlmMsg (fst (CFE_SB_GetBufferFromPool env n g)) = HKTlmMsg g"
  "LastPipeId (fst (CFE_SB_GetBufferFromPool env n g)) = LastPipeId g"
  by (simp_all add: CFE_SB_GetBufferFromPool_def Let_def split: prod.split)

lemma ReturnBuffer_other [simp]:
  "PipeTbl (CFE_SB_ReturnBufferToPool b g) = PipeTbl g" "Dests (CFE_SB_ReturnBufferToPool b g) = Dests g"
  "SBR (CFE_SB_ReturnBufferToPool b g) = SBR g" "HKTlmMsg (CFE_SB_ReturnBufferToPool b g) = HKTlmMsg g"
  "LastPipeId (CFE_SB_ReturnBufferToPool b g) = LastPipeId g"
  by (simp_all add: CFE_SB_ReturnBufferToPool_def Let_def)

lemma Decr_other [simp]:
  "PipeTbl (CFE_SB_DecrBufUseCnt b g) = PipeTbl g" "Dests (CFE_SB_DecrBufUseCnt b g) = Dests g"
  "SBR (CFE_SB_DecrBufUseCnt b g) = SBR g" "HKTlmMsg (CFE_SB_DecrBufUseCnt b g) = HKTlmMsg g"
  "LastPipeId (CFE_SB_DecrBufUseCnt b g) = LastPipeId g"
  by (simp_all add: CFE_SB_DecrBufUseCnt_def Let_def)

lemma Incr_other [simp]:
  "PipeTbl (CFE_SB_IncrBufUseCnt b g) = PipeTbl g" "Dests (CFE_SB_IncrBufUseCnt b g) = Dests g"
  "SBR (CFE_SB_IncrBufUseCnt b g) = SBR g" "HKTlmMsg (CFE_SB_IncrBufUseCnt b g) = HKTlmMsg g"
  "LastPipeId (CFE_SB_IncrBufUseCnt b g) = LastPipeId g" "Links (CFE_SB_IncrBufUseCnt b g) = Links g"
  "StatTlmMsg (CFE_SB_IncrBufUseCnt b g) = StatTlmMsg g"
  by (simp_all add: CFE_SB_IncrBufUseCnt_def)

lemma pipe_at_buf_ops [simp]:
  "pipe_at (CFE_SB_DecrBufUseCnt b g) i = pipe_at g i" "pipe_at (CFE_SB_IncrBufUseCnt b g) i = pipe_at g i"
  by (simp_all add: pipe_at_def)

lemma dest_at_buf_ops [simp]:
  "dest_at (CFE_SB_DecrBufUseCnt b g) d = dest_at g d" "dest_at (CFE_SB_IncrBufUseCnt b g) d = dest_at g d"
  by (simp_all add: dest_at_def)

section \<open>Use counts and references\<close>

definition use_count :: "CFE_SB_Global \<Rightarrow> nat \<Rightarrow> nat" where
  "use_count g b = (case Bufs g b of None \<Rightarrow> 0 | Some d \<Rightarrow> unat (UseCount d))"

text \<open>
  The buffers: the tracking lists hold \<open>it\<close> and \<open>zc\<close>, every allocated buffer is in one of them or
  lone, the statistics count the allocated buffers, and the use counts cover the references \<open>R\<close>.
\<close>

definition buf_inv :: "bool \<Rightarrow> CFE_SB_Global \<Rightarrow> nat list \<Rightarrow> nat list \<Rightarrow> nat multiset \<Rightarrow> bool" where
  "buf_inv exact g it zc R \<longleftrightarrow>
     tracked (Links g) it zc \<and> set it \<union> set zc \<subseteq> dom (Bufs g) \<and>
     (\<forall>b \<in> dom (Bufs g). b \<in> set it \<union> set zc \<or> lone (Links g) b) \<and>
     finite (dom (Bufs g)) \<and> SBBuffersInUse (StatTlmMsg g) = of_nat (card (dom (Bufs g))) \<and>
     (\<forall>b \<in> dom (Bufs g). 0 < use_count g b \<and> use_count g b \<le> 0x7FFF) \<and>
     (\<forall>b. count R b \<le> use_count g b \<and> (exact \<longrightarrow> count R b = use_count g b))"

lemma buf_invD:
  assumes "buf_inv ex g it zc R"
  shows "tracked (Links g) it zc" "set it \<union> set zc \<subseteq> dom (Bufs g)" "finite (dom (Bufs g))"
    "SBBuffersInUse (StatTlmMsg g) = of_nat (card (dom (Bufs g)))"
    "count R b \<le> use_count g b" "ex \<Longrightarrow> count R b = use_count g b"
    "b \<in> dom (Bufs g) \<Longrightarrow> b \<in> set it \<union> set zc \<or> lone (Links g) b"
    "b \<in> dom (Bufs g) \<Longrightarrow> 0 < use_count g b" "b \<in> dom (Bufs g) \<Longrightarrow> use_count g b \<le> 0x7FFF"
  using assms by (auto simp: buf_inv_def)

lemma use_count_upd_buf:
  "(\<And>d. UseCount (f d) = UseCount d) \<Longrightarrow> use_count (upd_buf b f g) x = use_count g x"
  by (auto simp: use_count_def split: option.split)

lemma dom_upd_buf [simp]: "dom (Bufs (upd_buf b f g)) = dom (Bufs g)"
  by (auto simp: dom_def)

lemma buf_inv_referenced: "buf_inv ex g it zc R \<Longrightarrow> b \<in># R \<Longrightarrow> b \<in> dom (Bufs g)"
  unfolding buf_inv_def by (metis count_greater_zero_iff domIff le_zero_eq not_gr_zero option.simps(4) use_count_def)

lemma buf_inv_leak_free: "buf_inv True g it zc R \<Longrightarrow> dom (Bufs g) = set_mset R"
  unfolding buf_inv_def set_mset_def
  by (auto simp: use_count_def dom_def split: option.splits)

text \<open>The invariant depends on the buffers, the links and the buffer statistics only.\<close>

lemma buf_inv_cong:
  assumes "dom (Bufs g') = dom (Bufs g)" and "Links g' = Links g" and "\<And>b. use_count g' b = use_count g b"
    and "SBBuffersInUse (StatTlmMsg g') = SBBuffersInUse (StatTlmMsg g)"
  shows "buf_inv ex g' it zc R = buf_inv ex g it zc R"
  using assms by (simp add: buf_inv_def)

lemma buf_inv_same_bufs:
  "Bufs g' = Bufs g \<Longrightarrow> Links g' = Links g \<Longrightarrow>
   SBBuffersInUse (StatTlmMsg g') = SBBuffersInUse (StatTlmMsg g) \<Longrightarrow> buf_inv ex g' it zc R = buf_inv ex g it zc R"
  by (rule buf_inv_cong) (simp_all add: use_count_def)

lemma buf_inv_upd_buf:
  "(\<And>d. UseCount (f d) = UseCount d) \<Longrightarrow> buf_inv ex (upd_buf b f g) it zc R = buf_inv ex g it zc R"
  by (rule buf_inv_cong) (simp_all add: use_count_upd_buf)

lemma Incr_inv:
  assumes inv: "buf_inv ex g it zc R" and b: "b \<in> dom (Bufs g)" and lim: "count R b < 0x7FFF"
  shows "buf_inv ex (CFE_SB_IncrBufUseCnt b g) it zc (add_mset b R)"
proof -
  let ?g = "CFE_SB_IncrBufUseCnt b g"
  obtain d where d: "Bufs g b = Some d" using b by auto
  have dom: "dom (Bufs ?g) = dom (Bufs g)" by (simp add: CFE_SB_IncrBufUseCnt_def)
  have uc: "use_count ?g x = (if x = b \<and> use_count g b < 0x7FFF then use_count g b + 1 else use_count g x)" for x
    using d by (auto simp: CFE_SB_IncrBufUseCnt_def use_count_def buf_at_def word_less_nat_alt unat_word_ariths)
  have "use_count g b \<le> 0x7FFF" using inv b by (simp add: buf_inv_def)
  with inv b lim show ?thesis unfolding buf_inv_def dom uc by (auto simp: uc)
qed

lemma ReturnBuffer_inv:
  assumes inv: "buf_inv ex g it zc R" and b: "b \<in> dom (Bufs g)"
    and g': "dom (Bufs g') = dom (Bufs g)" "Links g' = Links g" "StatTlmMsg g' = StatTlmMsg g"
      "\<And>x. x \<noteq> b \<Longrightarrow> use_count g' x = use_count g x"
    and R': "\<And>x. x \<noteq> b \<Longrightarrow> count R' x = count R x" "count R' b = 0"
  shows "buf_inv ex (CFE_SB_ReturnBufferToPool b g') (remove1 b it) (remove1 b zc) R'"
proof -
  let ?g = "CFE_SB_ReturnBufferToPool b g'"
  have t: "tracked (Links g) it zc" and bt: "b \<in> set it \<union> set zc \<or> lone (Links g) b"
    using inv b by (auto simp: buf_inv_def)
  have links: "Links ?g = CFE_SB_TrackingListRemove (BufLink b) (Links g)"
    using g'(2) by (simp add: CFE_SB_ReturnBufferToPool_def Let_def)
  have dom: "dom (Bufs ?g) = dom (Bufs g) - {b}"
    using g'(1) by (auto simp: CFE_SB_ReturnBufferToPool_def Let_def dom_def split: if_splits)
  have uc: "use_count ?g x = (if x = b then 0 else use_count g x)" for x
    using g'(4) [of x] by (simp add: CFE_SB_ReturnBufferToPool_def Let_def use_count_def)
  have sb: "SBBuffersInUse (StatTlmMsg ?g) = SBBuffersInUse (StatTlmMsg g) - 1"
    using g'(3) by (simp add: CFE_SB_ReturnBufferToPool_def Let_def)
  note rm = tracked_Remove [OF t bt]
  have card: "of_nat (card (dom (Bufs g))) - 1 = (of_nat (card (dom (Bufs g) - {b})) :: u32)"
    using inv b by (simp add: buf_inv_def card_Diff_singleton) (metis One_nat_def Suc_leI card_gt_0_iff empty_iff of_nat_1 of_nat_diff)
  have d: "distinct it" "distinct zc" using tracked_distinct [OF t] by auto
  show ?thesis
    unfolding buf_inv_def links dom sb uc
    using inv rm R' card d unfolding buf_inv_def by (auto simp: notin_set_remove1)
qed

lemma Decr_inv:
  assumes inv: "buf_inv ex g it zc R" and b: "b \<in># R"
  defines "g' \<equiv> CFE_SB_DecrBufUseCnt b g"
  shows "use_count g b = 1 \<Longrightarrow> buf_inv ex g' (remove1 b it) (remove1 b zc) (R - {#b#}) \<and> Bufs g' b = None"
    and "use_count g b \<noteq> 1 \<Longrightarrow> buf_inv ex g' it zc (R - {#b#})"
proof -
  have bd: "b \<in> dom (Bufs g)" by (rule buf_inv_referenced [OF inv b])
  then obtain d where d: "Bufs g b = Some d" by auto
  have pos: "0 < use_count g b" and cnt: "count R b \<le> use_count g b" and ex: "ex \<longrightarrow> count R b = use_count g b"
    using inv bd by (simp_all add: buf_inv_def)
  let ?h = "upd_buf b (\<lambda>d. d\<lparr>UseCount := UseCount d - 1\<rparr>) g"
  have uch: "use_count ?h x = (if x = b then use_count g b - 1 else use_count g x)" for x
    using d pos by (auto simp: use_count_def unat_minus_one unat_gt_0)
  have "unat (UseCount d) = 1 \<longleftrightarrow> UseCount d = 1" by (metis unat_1 word_unat_eq_iff)
  then have "UseCount (buf_at g b) > 0" "UseCount (buf_at ?h b) = 0 \<longleftrightarrow> use_count g b = 1"
    using d pos by (simp_all add: use_count_def buf_at_def unat_gt_0 word_gt_0)
  then have g': "g' = (if use_count g b = 1 then CFE_SB_ReturnBufferToPool b ?h else ?h)"
    by (simp add: g'_def CFE_SB_DecrBufUseCnt_def)
  {
    assume one: "use_count g b = 1"
    have "count R b = 1" using cnt b one by (simp add: count_greater_zero_iff [symmetric] Suc_le_eq del: count_greater_zero_iff)
    then have "buf_inv ex (CFE_SB_ReturnBufferToPool b ?h) (remove1 b it) (remove1 b zc) (R - {#b#})"
      by (intro ReturnBuffer_inv [OF inv bd]) (simp_all add: uch)
    then show "buf_inv ex g' (remove1 b it) (remove1 b zc) (R - {#b#}) \<and> Bufs g' b = None"
      using one by (simp add: g') (simp add: CFE_SB_ReturnBufferToPool_def Let_def)
  }
  assume more: "use_count g b \<noteq> 1"
  have "count (R - {#b#}) x = (if x = b then count R b - 1 else count R x)" for x by simp
  moreover have "0 < use_count ?h x \<and> use_count ?h x \<le> 0x7FFF" if "x \<in> dom (Bufs g)" for x
    using buf_invD(8,9) [OF inv that] buf_invD(9) [OF inv bd] more pos by (auto simp: uch)
  ultimately show "buf_inv ex g' it zc (R - {#b#})"
    using inv diff_le_mono [OF cnt, of 1] ex more unfolding g' buf_inv_def by (simp add: uch)
qed

lemma GetBuffer_cases:
  fixes n :: nat
  assumes inv: "buf_inv ex g it zc R" and fresh: "\<And>k. sint (fst (GetPoolBuf env k)) \<ge> 0 \<Longrightarrow> snd (GetPoolBuf env k) \<notin> dom (Bufs g)"
  defines "r \<equiv> CFE_SB_GetBufferFromPool env n g"
  shows "snd r = None \<Longrightarrow> fst r = g"
    and "snd r = Some b \<Longrightarrow>
      buf_inv ex (fst r) it zc (add_mset b R) \<and> b \<notin> dom (Bufs g) \<and> lone (Links (fst r)) b \<and>
      dom (Bufs (fst r)) = insert b (dom (Bufs g)) \<and> (\<forall>x. x \<noteq> b \<longrightarrow> Bufs (fst r) x = Bufs g x)"
proof -
  let ?a = "n + ContentOffset env"
  obtain st bd where p: "GetPoolBuf env ?a = (st, bd)" by fastforce
  show "snd r = None \<Longrightarrow> fst r = g"
    by (cases "sint st < 0") (simp_all add: r_def CFE_SB_GetBufferFromPool_def Let_def p)
  assume "snd r = Some b"
  then have st: "\<not> sint st < 0" and bd: "bd = b"
    by (auto simp: r_def CFE_SB_GetBufferFromPool_def Let_def p split: if_splits)
  then have b: "b \<notin> dom (Bufs g)" using fresh [of ?a] by (simp add: p)
  then have cb: "Bufs g b = None" "count R b = 0" "b \<notin> set it \<union> set zc"
    using buf_invD(2) [OF inv] buf_invD(5) [OF inv, of b] by (auto simp: use_count_def domIff)
  let ?g = "fst r"
  have f: "Links ?g = CFE_SB_TrackingListReset (BufLink b) (Links g)"
    "\<exists>d. Bufs ?g = (Bufs g)(b \<mapsto> d) \<and> UseCount d = 1"
    "SBBuffersInUse (StatTlmMsg ?g) = SBBuffersInUse (StatTlmMsg g) + 1"
    using st bd
    by (simp_all add: r_def CFE_SB_GetBufferFromPool_def Let_def p)
       (rule exI, rule conjI [OF refl], simp)
  have dom: "dom (Bufs ?g) = insert b (dom (Bufs g))" using f(2) by auto
  have uc: "use_count ?g x = (if x = b then 1 else use_count g x)" for x
    using f(2) by (auto simp: use_count_def)
  have t: "tracked (Links g) it zc" using inv by (simp add: buf_inv_def)
  note rs = tracked_Reset [OF t cb(3)]
  have ub: "use_count g b = 0" by (simp add: use_count_def cb)
  have "buf_inv ex ?g it zc (add_mset b R)"
    unfolding buf_inv_def dom f(1) f(3)
  proof (intro conjI ballI allI)
    show "(SBBuffersInUse (StatTlmMsg g) + 1 :: u32) = of_nat (card (insert b (dom (Bufs g))))"
      using inv b by (simp add: buf_inv_def)
    fix x
    show "x \<in> set it \<union> set zc \<or> lone (CFE_SB_TrackingListReset (BufLink b) (Links g)) x"
      if "x \<in> insert b (dom (Bufs g))"
      using inv that rs by (auto simp: buf_inv_def)
    show "count (add_mset b R) x \<le> use_count ?g x" "ex \<longrightarrow> count (add_mset b R) x = use_count ?g x"
      using inv cb(2) by (simp_all add: uc buf_inv_def)
    show "0 < use_count ?g x" "use_count ?g x \<le> 0x7FFF" if "x \<in> insert b (dom (Bufs g))"
      using inv that by (auto simp: uc buf_inv_def)
  qed (use inv rs(1) in \<open>auto simp: buf_inv_def\<close>)
  with b rs(2) f(1,2) dom show "buf_inv ex ?g it zc (add_mset b R) \<and> b \<notin> dom (Bufs g) \<and> lone (Links ?g) b \<and>
      dom (Bufs ?g) = insert b (dom (Bufs g)) \<and> (\<forall>x. x \<noteq> b \<longrightarrow> Bufs ?g x = Bufs g x)" by auto
qed

end
