(* ===== verification/CFE_SB_Init.thy ===== *)
theory CFE_SB_Init
  imports CFE_SB_Dest CFE_SB_Buf CFE_SBR_Routes
begin

text \<open>
  Initialization of the software bus (\<^verbatim>\<open>cfe_sb_init.c\<close>).  The statuses of the mutex and of the
  memory pool creation are arguments.  A fresh pool has no allocated block, so the descriptor
  heaps are empty.
\<close>

text \<open>The global data after \<open>memset\<close>; the routing module has its own data, which stays.\<close>

definition zero_Global :: "CFE_SBR \<Rightarrow> CFE_SB_Global" where
  "zero_Global s =
     \<lparr>SubscriptionReporting = 0, StopRecurseFlags = replicate 64 0, PipeTbl = replicate 64 zero_PipeD,
      HKTlmMsg = \<lparr>CommandCounter = 0, CommandErrorCounter = 0, NoSubscribersCounter = 0,
        MsgSendErrorCounter = 0, MsgReceiveErrorCounter = 0, InternalErrorCounter = 0,
        CreatePipeErrorCounter = 0, SubscribeErrorCounter = 0, PipeOptsErrorCounter = 0,
        DuplicateSubscriptionsCounter = 0, GetPipeIdByNameErrorCounter = 0,
        PipeOverflowErrorCounter = 0, MsgLimitErrorCounter = 0\<rparr>,
      StatTlmMsg = \<lparr>MsgIdsInUse = 0, PeakMsgIdsInUse = 0, PipesInUse = 0, PeakPipesInUse = 0,
        MemInUse = 0, PeakMemInUse = 0, SubscriptionsInUse = 0, PeakSubscriptionsInUse = 0,
        SBBuffersInUse = 0, PeakSBBuffersInUse = 0\<rparr>,
      LastPipeId = 0, SBR = s, Dests = (\<lambda>_. None), Bufs = (\<lambda>_. None),
      Links = (\<lambda>_. \<lparr>LinkNext = LinkNull, LinkPrev = LinkNull\<rparr>)\<rparr>"

definition CFE_SB_InitBuffers :: "int32 \<Rightarrow> CFE_SB_Global \<Rightarrow> CFE_SB_Global \<times> int32" where
  "CFE_SB_InitBuffers PoolStat g =
     (if PoolStat \<noteq> CFE_SUCCESS then (g, PoolStat)
      else let g = g\<lparr>Links := CFE_SB_TrackingListReset InTransitList (Links g)\<rparr>;
               g = g\<lparr>Links := CFE_SB_TrackingListReset ZeroCopyList (Links g)\<rparr>
           in (g, CFE_SUCCESS))"

definition CFE_SB_InitPipeTbl :: "CFE_SB_Global \<Rightarrow> CFE_SB_Global" where
  "CFE_SB_InitPipeTbl g = g\<lparr>LastPipeId := CFE_SB_PIPEID_BASE\<rparr>"

definition CFE_SB_EarlyInit ::
  "CFE_SBR_MapConfig \<Rightarrow> int32 \<Rightarrow> int32 \<Rightarrow> CFE_SBR \<Rightarrow> CFE_SB_Global \<times> int32" where
  "CFE_SB_EarlyInit cfg MutStat PoolStat s =
     (let g = zero_Global s
      in if MutStat \<noteq> OS_SUCCESS then (g, MutStat)
         else let g = g\<lparr>SubscriptionReporting := CFE_SB_DISABLE\<rparr>;
                  (g, Stat) = CFE_SB_InitBuffers PoolStat g
              in if Stat \<noteq> CFE_SUCCESS then (g, Stat)
                 else let g = CFE_SB_InitPipeTbl g;
                          g = g\<lparr>SBR := CFE_SBR_Init cfg (SBR g)\<rparr>
                      in (g, Stat))"

text \<open>The state the bus starts in.\<close>

definition sb_init :: "CFE_SBR_MapConfig \<Rightarrow> CFE_SBR \<Rightarrow> CFE_SB_Global" where
  "sb_init cfg s = fst (CFE_SB_EarlyInit cfg OS_SUCCESS CFE_SUCCESS s)"

lemma sb_init_eq:
  "sb_init cfg s = (zero_Global (CFE_SBR_Init cfg s))
     \<lparr>LastPipeId := CFE_SB_PIPEID_BASE,
      Links := CFE_SB_TrackingListReset ZeroCopyList (CFE_SB_TrackingListReset InTransitList
                 (\<lambda>_. \<lparr>LinkNext = LinkNull, LinkPrev = LinkNull\<rparr>))\<rparr>"
  by (simp add: sb_init_def CFE_SB_EarlyInit_def CFE_SB_InitBuffers_def CFE_SB_InitPipeTbl_def zero_Global_def Let_def)

lemma sb_init_fields [simp]:
  "PipeTbl (sb_init cfg s) = replicate 64 zero_PipeD" "SBR (sb_init cfg s) = CFE_SBR_Init cfg s"
  "Dests (sb_init cfg s) = (\<lambda>_. None)" "Bufs (sb_init cfg s) = (\<lambda>_. None)"
  "LastPipeId (sb_init cfg s) = CFE_SB_PIPEID_BASE" "SBBuffersInUse (StatTlmMsg (sb_init cfg s)) = 0"
  by (simp_all add: sb_init_eq zero_Global_def)

lemma pipe_at_init: "i < 64 \<Longrightarrow> pipe_at (sb_init cfg s) i = zero_PipeD"
  by (simp add: pipe_at_def word_less_nat_alt)

lemma init_head: "CFE_SBR_GetDestListHeadPtr (CFE_SBR_Init cfg s) r = NULL"
  by (auto simp: CFE_SBR_GetDestListHeadPtr_def CFE_SBR_Init_def CFE_SBR_Init_Map_def Let_def
      IsValidRouteId_nat RouteIdToValue_nat)

lemma init_dest_lists: "dest_lists (sb_init cfg s) (\<lambda>_. [])"
  by (simp add: dest_lists_def init_head) (simp add: CFE_SBR_Init_def CFE_SBR_Init_Map_def Let_def)

lemma init_tracked: "tracked (Links (sb_init cfg s)) [] []"
  by (simp add: tracked_def ring_def sb_init_eq zero_Global_def)

lemma init_buf_inv: "buf_inv True (sb_init cfg s) [] [] {#}"
  by (simp add: buf_inv_def init_tracked use_count_def)

text \<open>Answers of the services for the concrete runs that accompany the theorems.\<close>

definition sample_dest :: CFE_SB_DestinationD where
  "sample_dest = \<lparr>DestPipeId = 0, Active = 0, MsgId2PipeLim = 0, BuffCount = 0, DestCnt = 0, Scope = 0,
     DestPrev = NULL, DestNext = NULL\<rparr>"

definition sample_env :: "nat \<Rightarrow> CFE_SB_Env" where
  "sample_env a =
     \<lparr>GetAppID = (CFE_SUCCESS, 0x110001), TaskIndex = Some 1, ContentOffset = 40, SizeofDest = 32,
      GetPoolBuf = (\<lambda>n. (of_nat n, a)), PutPoolBuf = (\<lambda>_. 32), StaleDest = sample_dest, StaleContent = [],
      QueueCreate = (OS_SUCCESS, 0x20001), QueuePut = (\<lambda>_. OS_SUCCESS), ResourceName = (\<lambda>q n. (OS_SUCCESS, [])),
      QueueIdByName = (\<lambda>_. (OS_SUCCESS, 0x20001)), MapCfg = SBR_MAP_DIRECT, MsgCfg = MSG_PRI_V1\<rparr>"

lemma sample_env_simps [simp]:
  "GetAppID (sample_env a) = (CFE_SUCCESS, 0x110001)" "TaskIndex (sample_env a) = Some 1"
  "ContentOffset (sample_env a) = 40" "SizeofDest (sample_env a) = 32"
  "GetPoolBuf (sample_env a) n = (of_nat n, a)" "PutPoolBuf (sample_env a) x = 32"
  "StaleDest (sample_env a) = sample_dest" "StaleContent (sample_env a) = []"
  "QueueCreate (sample_env a) = (OS_SUCCESS, 0x20001)" "QueuePut (sample_env a) q = OS_SUCCESS"
  "MapCfg (sample_env a) = SBR_MAP_DIRECT" "MsgCfg (sample_env a) = MSG_PRI_V1"
  by (simp_all add: sample_env_def)

end
