(* ===== verification/CFE_SB_Pipe.thy ===== *)
theory CFE_SB_Pipe
  imports CFE_SB_Init
begin

unbundle bit_operations_syntax

text \<open>
  Pipes (\<^verbatim>\<open>cfe_sb_api.c\<close>, \<^verbatim>\<open>cfe_sb_priv.c\<close>, \<^verbatim>\<open>cfe_sb_priv.h\<close>): the pipe table, and the calls
  that create, delete, query and configure a pipe.

  A call that releases the lock in between is the composition of its locked sections, each of
  which is a definition of its own; other tasks can run between them.  The id
  \<open>CFE_RESOURCEID_RESERVED\<close> marks a table entry whose creation or deletion is in progress.
\<close>

section \<open>The pipe table\<close>

definition CFE_SB_PipeId_ToIndex :: "CFE_SB_PipeId \<Rightarrow> u32 ptr \<Rightarrow> int32 \<times> u32 ptr" where
  "CFE_SB_PipeId_ToIndex PipeID Idx =
     CFE_ResourceId_ToIndex PipeID CFE_SB_PIPEID_BASE CFE_PLATFORM_SB_MAX_PIPES Idx"

definition CFE_SB_LocatePipeDescByID :: "CFE_SB_PipeId \<Rightarrow> u32 ptr" where
  "CFE_SB_LocatePipeDescByID pid =
     (let (st, Idx) = CFE_SB_PipeId_ToIndex pid (Some 0)
      in if st = CFE_SUCCESS then Idx else NULL)"

definition CFE_SB_PipeDescIsUsed :: "CFE_SB_Global \<Rightarrow> u32 ptr \<Rightarrow> bool" where
  "CFE_SB_PipeDescIsUsed g PipeDscPtr \<longleftrightarrow> PipeId (pipe_at g (the PipeDscPtr)) \<noteq> CFE_RESOURCEID_UNDEFINED"

definition CFE_SB_PipeDescGetID :: "CFE_SB_Global \<Rightarrow> u32 \<Rightarrow> CFE_SB_PipeId" where
  "CFE_SB_PipeDescGetID g PipeDscPtr = PipeId (pipe_at g PipeDscPtr)"

definition CFE_SB_PipeDescSetUsed :: "u32 \<Rightarrow> CFE_ResourceId \<Rightarrow> CFE_SB_Global \<Rightarrow> CFE_SB_Global" where
  "CFE_SB_PipeDescSetUsed PipeDscPtr PendingID g = upd_pipe PipeDscPtr (\<lambda>p. p\<lparr>PipeId := PendingID\<rparr>) g"

definition CFE_SB_PipeDescSetFree :: "u32 \<Rightarrow> CFE_SB_Global \<Rightarrow> CFE_SB_Global" where
  "CFE_SB_PipeDescSetFree PipeDscPtr g = upd_pipe PipeDscPtr (\<lambda>p. p\<lparr>PipeId := CFE_SB_INVALID_PIPE\<rparr>) g"

definition CFE_SB_PipeDescIsMatch :: "CFE_SB_Global \<Rightarrow> u32 ptr \<Rightarrow> CFE_SB_PipeId \<Rightarrow> bool" where
  "CFE_SB_PipeDescIsMatch g PipeDscPtr PipeID \<longleftrightarrow>
     PipeDscPtr \<noteq> NULL \<and> PipeId (pipe_at g (the PipeDscPtr)) = PipeID"

definition CFE_SB_CheckPipeDescSlotUsed :: "CFE_SB_Global \<Rightarrow> CFE_ResourceId \<Rightarrow> bool" where
  "CFE_SB_CheckPipeDescSlotUsed g CheckId = CFE_SB_PipeDescIsUsed g (CFE_SB_LocatePipeDescByID CheckId)"

section \<open>Creating a pipe\<close>

text \<open>
  The first locked section reserves a table entry.  Result: global data, status, pending
  event, entry, pending id.
\<close>

definition create_reserve ::
  "bool \<Rightarrow> u16 \<Rightarrow> CFE_SB_Global \<Rightarrow> CFE_SB_Global \<times> int32 \<times> nat \<times> u32 ptr \<times> CFE_ResourceId" where
  "create_reserve PipeIdPtrIsNull Depth g =
     (if PipeIdPtrIsNull \<or> Depth > OS_QUEUE_MAX_DEPTH \<or> Depth = 0
      then (g, CFE_SB_BAD_ARGUMENT, CFE_SB_CR_PIPE_BAD_ARG_EID, NULL, CFE_RESOURCEID_UNDEFINED)
      else let PendingPipeId = CFE_ResourceId_FindNext (LastPipeId g) CFE_PLATFORM_SB_MAX_PIPES
                                 (CFE_SB_CheckPipeDescSlotUsed g)
           in case CFE_SB_LocatePipeDescByID PendingPipeId of
                None \<Rightarrow> (g, CFE_SB_MAX_PIPES_MET, CFE_SB_MAX_PIPES_MET_EID, NULL, PendingPipeId)
              | Some i \<Rightarrow>
                  (let g = upd_pipe i (\<lambda>_. zero_PipeD) g;
                       g = CFE_SB_PipeDescSetUsed i CFE_RESOURCEID_RESERVED g;
                       g = g\<lparr>LastPipeId := PendingPipeId\<rparr>
                   in (g, CFE_SUCCESS, 0, Some i, PendingPipeId)))"

text \<open>The queue is created without the lock; its status is translated.\<close>

definition create_queue_status :: "int32 \<Rightarrow> int32 \<times> nat" where
  "create_queue_status st =
     (if st = OS_SUCCESS then (CFE_SUCCESS, 0)
      else (CFE_SB_PIPE_CR_ERR,
            if st = OS_ERR_NAME_TAKEN then CFE_SB_CR_PIPE_NAME_TAKEN_EID
            else if st = OS_ERR_NO_FREE_IDS then CFE_SB_CR_PIPE_NO_FREE_EID
            else CFE_SB_CR_PIPE_ERR_EID))"

text \<open>The second locked section fills in the entry or gives it up.\<close>

definition create_finish ::
  "CFE_SB_Env \<Rightarrow> int32 \<Rightarrow> nat \<Rightarrow> u32 ptr \<Rightarrow> CFE_ResourceId \<Rightarrow> u16 \<Rightarrow> CFE_SB_Global \<Rightarrow> CFE_SB_Global" where
  "create_finish env Status PendingEventId PipeDscPtr PendingPipeId Depth g =
     (if Status = CFE_SUCCESS
      then let g = upd_pipe (the PipeDscPtr)
                     (\<lambda>p. p\<lparr>SysQueueId := snd (QueueCreate env), MaxQueueDepth := Depth,
                            PipeAppId := snd (GetAppID env)\<rparr>) g;
               g = CFE_SB_PipeDescSetUsed (the PipeDscPtr) PendingPipeId g;
               g = upd_stat (\<lambda>s. s\<lparr>PipesInUse := PipesInUse s + 1\<rparr>) g
           in if PipesInUse (StatTlmMsg g) > PeakPipesInUse (StatTlmMsg g)
              then upd_stat (\<lambda>s. s\<lparr>PeakPipesInUse := PipesInUse s\<rparr>) g else g
      else let g = (case PipeDscPtr of None \<Rightarrow> g | Some i \<Rightarrow> CFE_SB_PipeDescSetFree i g)
           in if PendingEventId = CFE_SB_CR_PIPE_BAD_ARG_EID
              then upd_hk (\<lambda>h. h\<lparr>CreatePipeErrorCounter := CreatePipeErrorCounter h + 1\<rparr>) g else g)"

text \<open>Result: global data, status, the caller's id cell, events.\<close>

definition CFE_SB_CreatePipe ::
  "CFE_SB_Env \<Rightarrow> CFE_SB_PipeId ptr \<Rightarrow> u16 \<Rightarrow> CFE_SB_Global \<Rightarrow>
     CFE_SB_Global \<times> int32 \<times> CFE_SB_PipeId ptr \<times> CFE_SB_Output list" where
  "CFE_SB_CreatePipe env PipeIdPtr Depth g =
     (let (g, Status, PendingEventId, PipeDscPtr, PendingPipeId) = create_reserve (PipeIdPtr = NULL) Depth g;
          (Status, PendingEventId) =
            (if Status = CFE_SUCCESS then create_queue_status (fst (QueueCreate env)) else (Status, PendingEventId));
          g = create_finish env Status PendingEventId PipeDscPtr PendingPipeId Depth g
      in if Status = CFE_SUCCESS
         then (g, Status, Some PendingPipeId, [Event CFE_SB_PIPE_ADDED_EID EVS_DEBUG])
         else (g, Status, PipeIdPtr, [Event PendingEventId EVS_ERROR]))"

section \<open>Options and names\<close>

definition CFE_SB_SetPipeOpts ::
  "CFE_SB_Env \<Rightarrow> CFE_SB_PipeId \<Rightarrow> u8 \<Rightarrow> CFE_SB_Global \<Rightarrow> CFE_SB_Global \<times> int32 \<times> CFE_SB_Output list" where
  "CFE_SB_SetPipeOpts env pid opts g =
     (let (Status, AppID) = GetAppID env
      in if Status \<noteq> CFE_SUCCESS then (g, Status, [])
         else let PipeDscPtr = CFE_SB_LocatePipeDescByID pid;
                  err = upd_hk (\<lambda>h. h\<lparr>PipeOptsErrorCounter := PipeOptsErrorCounter h + 1\<rparr>)
              in if \<not> CFE_SB_PipeDescIsMatch g PipeDscPtr pid
                 then (err g, CFE_SB_BAD_ARGUMENT, [Event CFE_SB_SETPIPEOPTS_ID_ERR_EID EVS_ERROR])
                 else if AppID \<noteq> PipeAppId (pipe_at g (the PipeDscPtr))
                 then (err g, CFE_SB_BAD_ARGUMENT, [Event CFE_SB_SETPIPEOPTS_OWNER_ERR_EID EVS_ERROR])
                 else (upd_pipe (the PipeDscPtr) (\<lambda>p. p\<lparr>Opts := opts\<rparr>) g, CFE_SUCCESS,
                       [Event CFE_SB_SETPIPEOPTS_EID EVS_DEBUG]))"

definition CFE_SB_GetPipeOpts ::
  "CFE_SB_PipeId \<Rightarrow> u8 ptr \<Rightarrow> CFE_SB_Global \<Rightarrow> CFE_SB_Global \<times> int32 \<times> u8 ptr \<times> CFE_SB_Output list" where
  "CFE_SB_GetPipeOpts pid OptsPtr g =
     (let PipeDscPtr = CFE_SB_LocatePipeDescByID pid;
          err = upd_hk (\<lambda>h. h\<lparr>PipeOptsErrorCounter := PipeOptsErrorCounter h + 1\<rparr>)
      in if \<not> CFE_SB_PipeDescIsMatch g PipeDscPtr pid
         then (err g, CFE_SB_BAD_ARGUMENT, OptsPtr, [Event CFE_SB_GETPIPEOPTS_ID_ERR_EID EVS_ERROR])
         else if OptsPtr = NULL
         then (err g, CFE_SB_BAD_ARGUMENT, OptsPtr, [Event CFE_SB_GETPIPEOPTS_PTR_ERR_EID EVS_ERROR])
         else (g, CFE_SUCCESS, Some (Opts (pipe_at g (the PipeDscPtr))), [Event CFE_SB_GETPIPEOPTS_EID EVS_DEBUG]))"

text \<open>The name buffer is a cell with its bytes; it is cleared on every error.\<close>

definition CFE_SB_GetPipeName ::
  "CFE_SB_Env \<Rightarrow> string ptr \<Rightarrow> nat \<Rightarrow> CFE_SB_PipeId \<Rightarrow> CFE_SB_Global \<Rightarrow> int32 \<times> string ptr \<times> CFE_SB_Output list" where
  "CFE_SB_GetPipeName env PipeNameBuf PipeNameSize pid g =
     (let PipeDscPtr = CFE_SB_LocatePipeDescByID pid;
          cleared = (if PipeNameBuf \<noteq> NULL \<and> PipeNameSize > 0 then Some (replicate PipeNameSize (char_of (0 :: nat)))
                     else PipeNameBuf)
      in if \<not> CFE_SB_PipeDescIsMatch g PipeDscPtr pid
         then (CFE_SB_BAD_ARGUMENT, cleared, [Event CFE_SB_GETPIPENAME_ID_ERR_EID EVS_ERROR])
         else if PipeNameBuf = NULL \<or> PipeNameSize = 0
         then (CFE_SB_BAD_ARGUMENT, cleared, [Event CFE_SB_GETPIPENAME_NULL_PTR_EID EVS_ERROR])
         else let (Status, name) = ResourceName env (SysQueueId (pipe_at g (the PipeDscPtr))) PipeNameSize
              in if Status = OS_SUCCESS then (CFE_SUCCESS, Some name, [Event CFE_SB_GETPIPENAME_EID EVS_DEBUG])
                 else (CFE_SB_BAD_ARGUMENT, cleared, [Event CFE_SB_GETPIPENAME_ID_ERR_EID EVS_ERROR]))"

text \<open>The loop over the table, from the first entry.\<close>

fun pipe_of_queue :: "CFE_SB_PipeD list \<Rightarrow> osal_id \<Rightarrow> CFE_SB_PipeId option" where
  "pipe_of_queue [] q = None"
| "pipe_of_queue (p # ps) q = (if SysQueueId p = q then Some (PipeId p) else pipe_of_queue ps q)"

definition CFE_SB_GetPipeIdByName ::
  "CFE_SB_Env \<Rightarrow> CFE_SB_PipeId ptr \<Rightarrow> string ptr \<Rightarrow> CFE_SB_Global \<Rightarrow>
     CFE_SB_Global \<times> int32 \<times> CFE_SB_PipeId ptr \<times> CFE_SB_Output list" where
  "CFE_SB_GetPipeIdByName env PipeIdPtr PipeName g =
     (let err = upd_hk (\<lambda>h. h\<lparr>GetPipeIdByNameErrorCounter := GetPipeIdByNameErrorCounter h + 1\<rparr>) g
      in if PipeName = NULL \<or> PipeIdPtr = NULL
         then (err, CFE_SB_BAD_ARGUMENT, PipeIdPtr, [Event CFE_SB_GETPIPEIDBYNAME_NULL_ERR_EID EVS_ERROR])
         else let (Status, q) = QueueIdByName env (the PipeName)
              in case (if Status = OS_SUCCESS then pipe_of_queue (PipeTbl g) q else None) of
                   Some pid \<Rightarrow> (g, CFE_SUCCESS, Some pid, [Event CFE_SB_GETPIPEIDBYNAME_EID EVS_DEBUG])
                 | None \<Rightarrow> (err, CFE_SB_BAD_ARGUMENT, PipeIdPtr, [Event CFE_SB_GETPIPEIDBYNAME_NAME_ERR_EID EVS_ERROR]))"

section \<open>Deleting a pipe\<close>

definition CFE_SB_RemovePipeFromRoute ::
  "CFE_SB_Env \<Rightarrow> CFE_SB_PipeId \<Rightarrow> CFE_SBR_RouteId \<Rightarrow> CFE_SB_Global option \<Rightarrow> CFE_SB_Global option" where
  "CFE_SB_RemovePipeFromRoute env pid RouteId og =
     (case og of
        None \<Rightarrow> None
      | Some g \<Rightarrow>
          map_option (\<lambda>destptr. case destptr of None \<Rightarrow> g | Some d \<Rightarrow> CFE_SB_RemoveDest env RouteId d g)
            (CFE_SB_GetDestPtr g RouteId pid))"

text \<open>
  The first locked section takes the pipe out of all routes and marks it reserved.  On success
  the queue and the buffer to release are returned.
\<close>

definition delete_begin ::
  "CFE_SB_Env \<Rightarrow> CFE_SB_PipeId \<Rightarrow> CFE_ES_AppId \<Rightarrow> CFE_SB_Global \<Rightarrow>
     (CFE_SB_Global \<times> int32 \<times> nat \<times> osal_id \<times> nat ptr) option" where
  "delete_begin env pid AppId g =
     (let PipeDscPtr = CFE_SB_LocatePipeDescByID pid
      in if \<not> CFE_SB_PipeDescIsMatch g PipeDscPtr pid
         then Some (g, CFE_SB_BAD_ARGUMENT, CFE_SB_DEL_PIPE_ERR1_EID, 0, NULL)
         else if AppId \<noteq> PipeAppId (pipe_at g (the PipeDscPtr))
         then Some (g, CFE_SB_BAD_ARGUMENT, CFE_SB_DEL_PIPE_ERR2_EID, 0, NULL)
         else map_option
                (\<lambda>g. (CFE_SB_PipeDescSetUsed (the PipeDscPtr) CFE_RESOURCEID_RESERVED g, CFE_SUCCESS, 0,
                      SysQueueId (pipe_at g (the PipeDscPtr)), LastBuffer (pipe_at g (the PipeDscPtr))))
                (fst (CFE_SBR_ForEachRouteId (SBR g) (CFE_SB_RemovePipeFromRoute env pid) (Some g) NULL)))"

text \<open>The release of the last buffer and of the buffers \<open>drained\<close> from the queue.\<close>

definition delete_drain :: "nat ptr \<Rightarrow> nat list \<Rightarrow> CFE_SB_Global \<Rightarrow> CFE_SB_Global" where
  "delete_drain BufDscPtr drained g =
     fold CFE_SB_DecrBufUseCnt drained (case BufDscPtr of None \<Rightarrow> g | Some b \<Rightarrow> CFE_SB_DecrBufUseCnt b g)"

definition delete_finish :: "CFE_SB_PipeId \<Rightarrow> int32 \<Rightarrow> nat \<Rightarrow> CFE_SB_Global \<Rightarrow> CFE_SB_Global" where
  "delete_finish pid Status PendingEventID g =
     (if Status = CFE_SUCCESS
      then upd_stat (\<lambda>s. s\<lparr>PipesInUse := PipesInUse s - 1\<rparr>)
             (CFE_SB_PipeDescSetFree (the (CFE_SB_LocatePipeDescByID pid)) g)
      else if PendingEventID \<noteq> 0
      then upd_hk (\<lambda>h. h\<lparr>CreatePipeErrorCounter := CreatePipeErrorCounter h + 1\<rparr>) g
      else g)"

text \<open>\<open>drain q\<close> is what the operating system hands out of queue \<open>q\<close> until it reports no more.\<close>

definition CFE_SB_DeletePipeFull ::
  "CFE_SB_Env \<Rightarrow> (osal_id \<Rightarrow> nat list) \<Rightarrow> CFE_SB_PipeId \<Rightarrow> CFE_ES_AppId \<Rightarrow> CFE_SB_Global \<Rightarrow>
     (CFE_SB_Global \<times> int32 \<times> CFE_SB_Output list) option" where
  "CFE_SB_DeletePipeFull env drain pid AppId g =
     map_option
       (\<lambda>(g, Status, PendingEventID, q, BufDscPtr).
          let g = (if Status = CFE_SUCCESS then delete_drain BufDscPtr (drain q) g else g);
              g = delete_finish pid Status PendingEventID g
          in (g, Status, if Status = CFE_SUCCESS then [Event CFE_SB_PIPE_DELETED_EID EVS_DEBUG]
                         else [Event PendingEventID EVS_ERROR]))
       (delete_begin env pid AppId g)"

definition CFE_SB_DeletePipe ::
  "CFE_SB_Env \<Rightarrow> (osal_id \<Rightarrow> nat list) \<Rightarrow> CFE_SB_PipeId \<Rightarrow> CFE_SB_Global \<Rightarrow>
     (CFE_SB_Global \<times> int32 \<times> CFE_SB_Output list) option" where
  "CFE_SB_DeletePipe env drain pid g = CFE_SB_DeletePipeFull env drain pid (snd (GetAppID env)) g"

definition CFE_SB_DeletePipeWithAppId ::
  "CFE_SB_Env \<Rightarrow> (osal_id \<Rightarrow> nat list) \<Rightarrow> CFE_SB_PipeId \<Rightarrow> CFE_ES_AppId \<Rightarrow> CFE_SB_Global \<Rightarrow>
     (CFE_SB_Global \<times> int32 \<times> CFE_SB_Output list) option" where
  "CFE_SB_DeletePipeWithAppId env drain pid AppId g = CFE_SB_DeletePipeFull env drain pid AppId g"

section \<open>The pipe table as a table of resources\<close>

text \<open>An entry is live when it has the id of a pipe: not free and not reserved.\<close>

definition live :: "CFE_SB_Global \<Rightarrow> u32 \<Rightarrow> bool" where
  "live g i \<longleftrightarrow> PipeId (pipe_at g i) \<noteq> CFE_RESOURCEID_UNDEFINED \<and> PipeId (pipe_at g i) \<noteq> CFE_RESOURCEID_RESERVED"

definition pipe_inv :: "CFE_SB_Global \<Rightarrow> bool" where
  "pipe_inv g \<longleftrightarrow>
     length (PipeTbl g) = 64 \<and> CFE_ResourceId_GetBase (LastPipeId g) = CFE_SB_PIPEID_BASE \<and>
     (\<forall>i < 64. live g i \<longrightarrow> CFE_SB_LocatePipeDescByID (PipeId (pipe_at g i)) = Some i)"

lemma Locate_eq:
  "CFE_SB_LocatePipeDescByID pid =
     (if pid - CFE_SB_PIPEID_BASE > CFE_RESOURCEID_MAX then NULL else Some ((pid - CFE_SB_PIPEID_BASE) mod 64))"
  by (simp add: CFE_SB_LocatePipeDescByID_def CFE_SB_PipeId_ToIndex_def CFE_ResourceId_ToIndex_def Let_def)

lemma Locate_undefined [simp]: "CFE_SB_LocatePipeDescByID 0 = NULL"
  by (simp add: Locate_eq)

lemma Locate_reserved [simp]: "CFE_SB_LocatePipeDescByID 0xFFFFFFFF = NULL"
  by (simp add: Locate_eq)

lemma Locate_lt: "CFE_SB_LocatePipeDescByID pid = Some i \<Longrightarrow> i < 64"
  by (auto simp: Locate_eq word_less_nat_alt unat_mod split: if_splits)

interpretation pipes: resource_table "0x160000" 64 "CFE_SB_CheckPipeDescSlotUsed g"
  "\<lambda>i. PipeId (pipe_at g i) \<noteq> CFE_RESOURCEID_UNDEFINED" for g
proof
  fix i x idx
  assume "CFE_ResourceId_ToIndex i 0x160000 64 (Some x) = (CFE_SUCCESS, Some idx)"
  then show "CFE_SB_CheckPipeDescSlotUsed g i = (PipeId (pipe_at g idx) \<noteq> 0)"
    by (auto simp: CFE_SB_CheckPipeDescSlotUsed_def CFE_SB_PipeDescIsUsed_def CFE_SB_LocatePipeDescByID_def
        CFE_SB_PipeId_ToIndex_def CFE_ResourceId_ToIndex_def Let_def split: if_splits)
qed simp_all

text \<open>A match is a live entry.\<close>

lemma match_live:
  "CFE_SB_PipeDescIsMatch g (CFE_SB_LocatePipeDescByID pid) pid \<Longrightarrow>
     \<exists>i < 64. CFE_SB_LocatePipeDescByID pid = Some i \<and> PipeId (pipe_at g i) = pid \<and> live g i"
  by (cases "CFE_SB_LocatePipeDescByID pid") (auto simp: CFE_SB_PipeDescIsMatch_def live_def Locate_lt)

lemma live_match:
  "pipe_inv g \<Longrightarrow> i < 64 \<Longrightarrow> live g i \<Longrightarrow>
     CFE_SB_PipeDescIsMatch g (CFE_SB_LocatePipeDescByID (PipeId (pipe_at g i))) (PipeId (pipe_at g i))"
  by (simp add: pipe_inv_def CFE_SB_PipeDescIsMatch_def)

text \<open>Two live entries never have the same id.\<close>

lemma live_inject:
  "pipe_inv g \<Longrightarrow> i < 64 \<Longrightarrow> j < 64 \<Longrightarrow> live g i \<Longrightarrow> live g j \<Longrightarrow> PipeId (pipe_at g i) = PipeId (pipe_at g j) \<Longrightarrow> i = j"
  unfolding pipe_inv_def by (metis option.inject)

lemma pipe_inv_length: "pipe_inv g \<Longrightarrow> (i :: u32) < 64 \<Longrightarrow> unat i < length (PipeTbl g)"
  by (simp add: pipe_inv_def word_less_nat_alt)

lemma pipe_inv_cong:
  "PipeTbl g' = PipeTbl g \<Longrightarrow> LastPipeId g' = LastPipeId g \<Longrightarrow> pipe_inv g' = pipe_inv g"
  by (simp add: pipe_inv_def live_def pipe_at_def)

lemma pipe_inv_upd_pipe:
  assumes "pipe_inv g" and "\<And>p. PipeId (f p) = PipeId p"
  shows "pipe_inv (upd_pipe i f g)"
  using assms by (auto simp: pipe_inv_def live_def)

lemma pipe_inv_set_id:
  assumes "pipe_inv g" and "pid = 0 \<or> pid = 0xFFFFFFFF \<or> CFE_SB_LocatePipeDescByID pid = Some i"
  shows "pipe_inv (CFE_SB_PipeDescSetUsed i pid g)"
  using assms by (auto simp: pipe_inv_def live_def CFE_SB_PipeDescSetUsed_def)

section \<open>Creation\<close>

text \<open>The reservation, through the search of the resource module.\<close>

lemma create_reserve_ok:
  assumes inv: "pipe_inv g" and d: "0 < Depth" "Depth \<le> 50" and free: "i0 < 64" "PipeId (pipe_at g i0) = 0"
  shows "\<exists>i pid. create_reserve False Depth g =
      (CFE_SB_PipeDescSetUsed i CFE_RESOURCEID_RESERVED (upd_pipe i (\<lambda>_. zero_PipeD) g)\<lparr>LastPipeId := pid\<rparr>,
       CFE_SUCCESS, 0, Some i, pid) \<and>
    i < 64 \<and> PipeId (pipe_at g i) = 0 \<and> CFE_SB_LocatePipeDescByID pid = Some i \<and>
    CFE_ResourceId_GetBase pid = CFE_SB_PIPEID_BASE"
proof -
  define pid where "pid = CFE_ResourceId_FindNext (LastPipeId g) 64 (CFE_SB_CheckPipeDescSlotUsed g)"
  have base: "CFE_ResourceId_GetBase (LastPipeId g) = 0x160000" using inv by (simp add: pipe_inv_def)
  have used: "\<not> PipeId (pipe_at g i0) \<noteq> 0" using free(2) by simp
  obtain i where i: "\<not> PipeId (pipe_at g i) \<noteq> 0" "CFE_ResourceId_GetBase pid = 0x160000"
    "CFE_ResourceId_ToIndex pid 0x160000 64 (Some 0) = (CFE_SUCCESS, Some i)"
    using pipes.FindNext_free [OF base free(1) used, of 0, folded pid_def] by blast
  then have loc: "CFE_SB_LocatePipeDescByID pid = Some i"
    by (simp add: CFE_SB_LocatePipeDescByID_def CFE_SB_PipeId_ToIndex_def)
  have "create_reserve False Depth g =
      (CFE_SB_PipeDescSetUsed i CFE_RESOURCEID_RESERVED (upd_pipe i (\<lambda>_. zero_PipeD) g)\<lparr>LastPipeId := pid\<rparr>,
       CFE_SUCCESS, 0, Some i, pid)"
    using d loc by (auto simp: create_reserve_def Let_def pid_def [symmetric] not_less)
  then show ?thesis using i loc Locate_lt [OF loc] by (intro exI conjI) simp_all
qed

lemma create_reserve_full:
  assumes inv: "pipe_inv g" and d: "0 < Depth" "Depth \<le> 50" and full: "\<And>i. i < 64 \<Longrightarrow> PipeId (pipe_at g i) \<noteq> 0"
  shows "create_reserve False Depth g = (g, CFE_SB_MAX_PIPES_MET, CFE_SB_MAX_PIPES_MET_EID, NULL, CFE_RESOURCEID_UNDEFINED)"
proof -
  have base: "CFE_ResourceId_GetBase (LastPipeId g) = 0x160000" using inv by (simp add: pipe_inv_def)
  have "CFE_ResourceId_FindNext (LastPipeId g) 64 (CFE_SB_CheckPipeDescSlotUsed g) = 0"
    using pipes.FindNext_none [OF base full] by simp
  then show ?thesis using d by (auto simp: create_reserve_def Let_def not_less)
qed

text \<open>Creation that succeeds.\<close>

lemma CreatePipe_ok:
  assumes inv: "pipe_inv g" and d: "0 < Depth" "Depth \<le> 50"
    and free: "i0 < 64" "PipeId (pipe_at g i0) = 0" and q: "QueueCreate env = (OS_SUCCESS, q)"
  shows "\<exists>i pid g'. CFE_SB_CreatePipe env (Some x) Depth g =
      (g', CFE_SUCCESS, Some pid, [Event CFE_SB_PIPE_ADDED_EID EVS_DEBUG]) \<and>
    i < 64 \<and> PipeId (pipe_at g i) = 0 \<and> CFE_SB_LocatePipeDescByID pid = Some i \<and>
    (\<forall>j < 64. live g j \<longrightarrow> PipeId (pipe_at g j) \<noteq> pid) \<and>
    pipe_at g' i = zero_PipeD\<lparr>PipeId := pid, PipeAppId := snd (GetAppID env), SysQueueId := q, MaxQueueDepth := Depth\<rparr> \<and>
    (\<forall>j. j \<noteq> i \<longrightarrow> pipe_at g' j = pipe_at g j) \<and>
    PipesInUse (StatTlmMsg g') = PipesInUse (StatTlmMsg g) + 1 \<and>
    PipesInUse (StatTlmMsg g') \<le> PeakPipesInUse (StatTlmMsg g') \<and>
    live g' i \<and> pipe_inv g' \<and>
    g' = g\<lparr>PipeTbl := PipeTbl g', LastPipeId := pid, StatTlmMsg := (StatTlmMsg g)
      \<lparr>PipesInUse := PipesInUse (StatTlmMsg g'), PeakPipesInUse := PeakPipesInUse (StatTlmMsg g')\<rparr>\<rparr>"
proof -
  obtain i pid where r: "create_reserve False Depth g =
      (CFE_SB_PipeDescSetUsed i CFE_RESOURCEID_RESERVED (upd_pipe i (\<lambda>_. zero_PipeD) g)\<lparr>LastPipeId := pid\<rparr>,
       CFE_SUCCESS, 0, Some i, pid)" and i: "i < 64" "PipeId (pipe_at g i) = 0"
    and loc: "CFE_SB_LocatePipeDescByID pid = Some i" and base: "CFE_ResourceId_GetBase pid = CFE_SB_PIPEID_BASE"
    using create_reserve_ok [OF inv d free] by blast
  let ?g1 = "CFE_SB_PipeDescSetUsed i CFE_RESOURCEID_RESERVED (upd_pipe i (\<lambda>_. zero_PipeD) g)\<lparr>LastPipeId := pid\<rparr>"
  define g' where "g' = create_finish env CFE_SUCCESS 0 (Some i) pid Depth ?g1"
  have call: "CFE_SB_CreatePipe env (Some x) Depth g =
      (g', CFE_SUCCESS, Some pid, [Event CFE_SB_PIPE_ADDED_EID EVS_DEBUG])"
    using q by (simp add: CFE_SB_CreatePipe_def r create_queue_status_def g'_def)
  have nz: "pid \<noteq> 0 \<and> pid \<noteq> 0xFFFFFFFF" using loc by auto
  have lt: "unat i < length (PipeTbl g)" by (rule pipe_inv_length [OF inv i(1)])
  have at: "pipe_at g' j =
      (if j = i then zero_PipeD\<lparr>PipeId := pid, PipeAppId := snd (GetAppID env), SysQueueId := q, MaxQueueDepth := Depth\<rparr>
       else pipe_at g j)" for j
    using lt q by (simp add: g'_def create_finish_def Let_def CFE_SB_PipeDescSetUsed_def pipe_at_def upd_pipe_def
        upd_stat_def nth_list_update zero_PipeD_def word_unat_eq_iff)
  have tbl: "length (PipeTbl g') = length (PipeTbl g)" "LastPipeId g' = pid"
    by (simp_all add: g'_def create_finish_def Let_def CFE_SB_PipeDescSetUsed_def upd_pipe_def upd_stat_def)
  have stats: "PipesInUse (StatTlmMsg g') = PipesInUse (StatTlmMsg g) + 1"
    "PipesInUse (StatTlmMsg g') \<le> PeakPipesInUse (StatTlmMsg g')"
    by (simp_all add: g'_def create_finish_def Let_def CFE_SB_PipeDescSetUsed_def upd_pipe_def upd_stat_def not_less)
  have frame: "g' = g\<lparr>PipeTbl := PipeTbl g', LastPipeId := pid, StatTlmMsg := (StatTlmMsg g)
      \<lparr>PipesInUse := PipesInUse (StatTlmMsg g'), PeakPipesInUse := PeakPipesInUse (StatTlmMsg g')\<rparr>\<rparr>"
    by (simp add: g'_def create_finish_def Let_def CFE_SB_PipeDescSetUsed_def upd_pipe_def upd_stat_def)
  have "pipe_inv g'" using inv loc tbl base by (auto simp: pipe_inv_def live_def at)
  moreover have "live g' i" using nz by (simp add: live_def at)
  moreover have "PipeId (pipe_at g j) \<noteq> pid" if "j < 64" "live g j" for j
    using inv that loc i(2) by (auto simp: pipe_inv_def live_def)
  ultimately show ?thesis using call i loc at stats frame by (intro exI [of _ i] exI [of _ pid] exI [of _ g'] conjI) simp_all
qed

text \<open>
  C9. Creating a pipe.  With a valid depth, a free table entry and a queue from the operating
  system, the call succeeds and returns a new pipe id: it locates an entry that was free, no
  live pipe had it before, the entry holds the owner, the queue and the depth with all
  other fields clear, the other entries are unchanged, the pipe count is one higher and its
  peak covers it, and the table stays consistent.  Nothing but the pipe table, the last id given and these two
  statistics changes: the routes and their destinations, the buffers and what they hold, the list of zero-copy
  buffers and all other counters are as they were.
\<close>

theorem create_pipe_correct:
  assumes inv: "pipe_inv g" and d: "0 < Depth" "Depth \<le> 50"
    and free: "i0 < 64" "PipeId (pipe_at g i0) = 0" and q: "QueueCreate env = (OS_SUCCESS, q)"
  shows "\<exists>i pid g'. CFE_SB_CreatePipe env (Some x) Depth g =
      (g', CFE_SUCCESS, Some pid, [Event CFE_SB_PIPE_ADDED_EID EVS_DEBUG]) \<and>
    i < 64 \<and> PipeId (pipe_at g i) = 0 \<and> CFE_SB_LocatePipeDescByID pid = Some i \<and>
    (\<forall>j < 64. live g j \<longrightarrow> PipeId (pipe_at g j) \<noteq> pid) \<and>
    pipe_at g' i = zero_PipeD\<lparr>PipeId := pid, PipeAppId := snd (GetAppID env), SysQueueId := q, MaxQueueDepth := Depth\<rparr> \<and>
    (\<forall>j. j \<noteq> i \<longrightarrow> pipe_at g' j = pipe_at g j) \<and>
    PipesInUse (StatTlmMsg g') = PipesInUse (StatTlmMsg g) + 1 \<and>
    PipesInUse (StatTlmMsg g') \<le> PeakPipesInUse (StatTlmMsg g') \<and>
    live g' i \<and> pipe_inv g' \<and>
    g' = g\<lparr>PipeTbl := PipeTbl g', LastPipeId := pid, StatTlmMsg := (StatTlmMsg g)
      \<lparr>PipesInUse := PipesInUse (StatTlmMsg g'), PeakPipesInUse := PeakPipesInUse (StatTlmMsg g')\<rparr>\<rparr>"
  by (rule CreatePipe_ok [OF assms])

lemma pipe_inv_init: "pipe_inv (sb_init cfg s)"
  by (auto simp: pipe_inv_def live_def pipe_at_init zero_PipeD_def CFE_ResourceId_GetBase_def)

theorem create_pipe_correct_witness:
  "\<exists>i pid g'. CFE_SB_CreatePipe (sample_env 1000) (Some 0) 10 (sb_init SBR_MAP_DIRECT sbr0) =
      (g', CFE_SUCCESS, Some pid, [Event CFE_SB_PIPE_ADDED_EID EVS_DEBUG]) \<and>
    i < 64 \<and> CFE_SB_LocatePipeDescByID pid = Some i \<and> live g' i \<and> PipeAppId (pipe_at g' i) = 0x110001"
proof -
  have "PipeId (pipe_at (sb_init SBR_MAP_DIRECT sbr0) 0) = 0" by (simp add: pipe_at_init zero_PipeD_def)
  then obtain i pid g' where r: "CFE_SB_CreatePipe (sample_env 1000) (Some 0) 10 (sb_init SBR_MAP_DIRECT sbr0) =
      (g', CFE_SUCCESS, Some pid, [Event CFE_SB_PIPE_ADDED_EID EVS_DEBUG])"
    "i < 64" "CFE_SB_LocatePipeDescByID pid = Some i" "live g' i"
    "pipe_at g' i = zero_PipeD\<lparr>PipeId := pid, PipeAppId := snd (GetAppID (sample_env 1000)), SysQueueId := 0x20001,
       MaxQueueDepth := 10\<rparr>"
    using create_pipe_correct [OF pipe_inv_init, of 10 0 SBR_MAP_DIRECT sbr0 "sample_env 1000" "0x20001" 0]
    by auto
  then show ?thesis by (intro exI [of _ i] exI [of _ pid] exI [of _ g']) simp
qed

lemma CreatePipe_errors:
  assumes inv: "pipe_inv g"
  shows "Ptr = NULL \<or> Depth = 0 \<or> Depth > 50 \<Longrightarrow>
      CFE_SB_CreatePipe env Ptr Depth g =
        (upd_hk (\<lambda>h. h\<lparr>CreatePipeErrorCounter := CreatePipeErrorCounter h + 1\<rparr>) g,
         CFE_SB_BAD_ARGUMENT, Ptr, [Event CFE_SB_CR_PIPE_BAD_ARG_EID EVS_ERROR])"
    and "0 < Depth \<Longrightarrow> Depth \<le> 50 \<Longrightarrow> (\<And>i. i < 64 \<Longrightarrow> PipeId (pipe_at g i) \<noteq> 0) \<Longrightarrow>
      CFE_SB_CreatePipe env (Some x) Depth g =
        (g, CFE_SB_MAX_PIPES_MET, Some x, [Event CFE_SB_MAX_PIPES_MET_EID EVS_ERROR])"
    and "0 < Depth \<Longrightarrow> Depth \<le> 50 \<Longrightarrow> i0 < 64 \<Longrightarrow> PipeId (pipe_at g i0) = 0 \<Longrightarrow>
      fst (QueueCreate env) \<noteq> OS_SUCCESS \<Longrightarrow>
      \<exists>g' eid. CFE_SB_CreatePipe env (Some x) Depth g = (g', CFE_SB_PIPE_CR_ERR, Some x, [Event eid EVS_ERROR]) \<and>
        (\<forall>i < 64. live g' i = live g i \<and> (live g i \<longrightarrow> pipe_at g' i = pipe_at g i)) \<and> pipe_inv g'"
proof -
  show "CFE_SB_CreatePipe env Ptr Depth g =
      (upd_hk (\<lambda>h. h\<lparr>CreatePipeErrorCounter := CreatePipeErrorCounter h + 1\<rparr>) g,
       CFE_SB_BAD_ARGUMENT, Ptr, [Event CFE_SB_CR_PIPE_BAD_ARG_EID EVS_ERROR])"
    if "Ptr = NULL \<or> Depth = 0 \<or> Depth > 50"
    using that by (auto simp: CFE_SB_CreatePipe_def create_reserve_def create_finish_def Let_def)
  show "CFE_SB_CreatePipe env (Some x) Depth g =
      (g, CFE_SB_MAX_PIPES_MET, Some x, [Event CFE_SB_MAX_PIPES_MET_EID EVS_ERROR])"
    if "0 < Depth" "Depth \<le> 50" "\<And>i. i < 64 \<Longrightarrow> PipeId (pipe_at g i) \<noteq> 0"
    using create_reserve_full [OF inv that(1,2)] that(3)
    by (simp add: CFE_SB_CreatePipe_def create_finish_def Let_def)
  assume h: "0 < Depth" "Depth \<le> 50" "i0 < 64" "PipeId (pipe_at g i0) = 0" "fst (QueueCreate env) \<noteq> OS_SUCCESS"
  obtain i pid where r: "create_reserve False Depth g =
      (CFE_SB_PipeDescSetUsed i CFE_RESOURCEID_RESERVED (upd_pipe i (\<lambda>_. zero_PipeD) g)\<lparr>LastPipeId := pid\<rparr>,
       CFE_SUCCESS, 0, Some i, pid)" and i: "i < 64" "PipeId (pipe_at g i) = 0"
    and base: "CFE_ResourceId_GetBase pid = CFE_SB_PIPEID_BASE"
    using create_reserve_ok [OF inv h(1-4)] by blast
  let ?g1 = "CFE_SB_PipeDescSetUsed i CFE_RESOURCEID_RESERVED (upd_pipe i (\<lambda>_. zero_PipeD) g)\<lparr>LastPipeId := pid\<rparr>"
  obtain eid where e: "create_queue_status (fst (QueueCreate env)) = (CFE_SB_PIPE_CR_ERR, eid)" "eid \<noteq> 2"
    using h(5) by (auto simp: create_queue_status_def)
  define g' where "g' = CFE_SB_PipeDescSetFree i ?g1"
  have "CFE_SB_CreatePipe env (Some x) Depth g = (g', CFE_SB_PIPE_CR_ERR, Some x, [Event eid EVS_ERROR])"
    using e by (simp add: CFE_SB_CreatePipe_def r create_finish_def Let_def g'_def)
  moreover have at: "pipe_at g' j = (if j = i then zero_PipeD else pipe_at g j)" for j
    using pipe_inv_length [OF inv i(1)]
    by (simp add: g'_def CFE_SB_PipeDescSetFree_def CFE_SB_PipeDescSetUsed_def pipe_at_def upd_pipe_def
        nth_list_update zero_PipeD_def word_unat_eq_iff)
  moreover have "length (PipeTbl g') = length (PipeTbl g)" "LastPipeId g' = pid"
    by (simp_all add: g'_def CFE_SB_PipeDescSetFree_def CFE_SB_PipeDescSetUsed_def upd_pipe_def)
  ultimately have "CFE_SB_CreatePipe env (Some x) Depth g = (g', CFE_SB_PIPE_CR_ERR, Some x, [Event eid EVS_ERROR]) \<and>
      (\<forall>j < 64. live g' j = live g j \<and> (live g j \<longrightarrow> pipe_at g' j = pipe_at g j)) \<and> pipe_inv g'"
    using inv base i(2) by (auto simp: pipe_inv_def live_def zero_PipeD_def)
  then show "\<exists>g' eid. CFE_SB_CreatePipe env (Some x) Depth g = (g', CFE_SB_PIPE_CR_ERR, Some x, [Event eid EVS_ERROR]) \<and>
      (\<forall>i < 64. live g' i = live g i \<and> (live g i \<longrightarrow> pipe_at g' i = pipe_at g i)) \<and> pipe_inv g'" by blast
qed

text \<open>
  Every way pipe creation fails: an invalid argument is counted and changes nothing else;
  a full table changes nothing; when the operating system creates no queue the
  reserved entry is given back, so that exactly the same pipes are live, with the same
  contents.  The caller's id cell is untouched in all cases.
\<close>

theorem create_pipe_errors:
  assumes inv: "pipe_inv g"
  shows "(Ptr = NULL \<or> Depth = 0 \<or> Depth > 50 \<longrightarrow>
      CFE_SB_CreatePipe env Ptr Depth g =
        (upd_hk (\<lambda>h. h\<lparr>CreatePipeErrorCounter := CreatePipeErrorCounter h + 1\<rparr>) g,
         CFE_SB_BAD_ARGUMENT, Ptr, [Event CFE_SB_CR_PIPE_BAD_ARG_EID EVS_ERROR])) \<and>
    (0 < Depth \<and> Depth \<le> 50 \<and> (\<forall>i < 64. PipeId (pipe_at g i) \<noteq> 0) \<longrightarrow>
      CFE_SB_CreatePipe env (Some x) Depth g =
        (g, CFE_SB_MAX_PIPES_MET, Some x, [Event CFE_SB_MAX_PIPES_MET_EID EVS_ERROR])) \<and>
    (0 < Depth \<and> Depth \<le> 50 \<and> (\<exists>i < 64. PipeId (pipe_at g i) = 0) \<and> fst (QueueCreate env) \<noteq> OS_SUCCESS \<longrightarrow>
      (\<exists>g' eid. CFE_SB_CreatePipe env (Some x) Depth g = (g', CFE_SB_PIPE_CR_ERR, Some x, [Event eid EVS_ERROR]) \<and>
        (\<forall>i < 64. live g' i = live g i \<and> (live g i \<longrightarrow> pipe_at g' i = pipe_at g i)) \<and> pipe_inv g'))"
  using CreatePipe_errors(1) [OF inv, of Ptr Depth env] CreatePipe_errors(2) [OF inv, of Depth env x]
    CreatePipe_errors(3) [OF inv, of Depth _ env x] by blast

theorem create_pipe_errors_witness:
  "CFE_SB_CreatePipe (sample_env 1000) (Some 7) 0 (sb_init SBR_MAP_DIRECT sbr0) =
     (upd_hk (\<lambda>h. h\<lparr>CreatePipeErrorCounter := CreatePipeErrorCounter h + 1\<rparr>) (sb_init SBR_MAP_DIRECT sbr0),
      CFE_SB_BAD_ARGUMENT, Some 7, [Event CFE_SB_CR_PIPE_BAD_ARG_EID EVS_ERROR]) \<and>
   (\<exists>g' eid. CFE_SB_CreatePipe (sample_env 1000\<lparr>QueueCreate := (OS_ERR_NAME_TAKEN, 0)\<rparr>) (Some 7) 10 (sb_init SBR_MAP_DIRECT sbr0) =
     (g', CFE_SB_PIPE_CR_ERR, Some 7, [Event eid EVS_ERROR]) \<and> pipe_inv g')"
proof -
  have "PipeId (pipe_at (sb_init SBR_MAP_DIRECT sbr0) 0) = 0" by (simp add: pipe_at_init zero_PipeD_def)
  then have free: "\<exists>i < 64. PipeId (pipe_at (sb_init SBR_MAP_DIRECT sbr0) i) = 0" by (intro exI [of _ 0]) simp
  let ?env = "sample_env 1000\<lparr>QueueCreate := (OS_ERR_NAME_TAKEN, 0)\<rparr>"
  have "\<exists>g' eid. CFE_SB_CreatePipe ?env (Some 7) 10 (sb_init SBR_MAP_DIRECT sbr0) =
     (g', CFE_SB_PIPE_CR_ERR, Some 7, [Event eid EVS_ERROR]) \<and> pipe_inv g'"
    using create_pipe_errors [OF pipe_inv_init [of SBR_MAP_DIRECT sbr0], of _ 10 ?env 7,
        THEN conjunct2, THEN conjunct2, THEN mp] free by auto
  then show ?thesis
    using create_pipe_errors [OF pipe_inv_init [of SBR_MAP_DIRECT sbr0], of "Some 7" 0 "sample_env 1000",
        THEN conjunct1, THEN mp] by simp
qed

end
