(* ===== verification/CFE_SB_Sub.thy ===== *)
theory CFE_SB_Sub
  imports CFE_SB_Pipe "HOL-Library.Monad_Syntax"
begin

text \<open>
  Subscriptions (\<^verbatim>\<open>cfe_sb_api.c\<close>) and the route commands of the software bus task
  (\<^verbatim>\<open>cfe_sb_task.c\<close>).

  A call runs in the option monad: \<open>None\<close> is a call that does not return (a cyclic list or a full
  hash map), which the invariant excludes.  The abstract specification is a function from
  message ids to the list of destinations, newest first.
\<close>

section \<open>Subscribing\<close>

text \<open>The checks of the caller, and the route of the message id, added when there is none.\<close>

definition subscribe_route ::
  "CFE_SB_Env \<Rightarrow> CFE_SB_MsgId \<Rightarrow> CFE_SB_PipeId \<Rightarrow> u8 \<Rightarrow> CFE_SB_Global \<Rightarrow>
     (CFE_SB_Global \<times> int32 \<times> nat \<times> CFE_SBR_RouteId \<times> u32) option" where
  "subscribe_route env MsgId pid scope g =
     (let PipeDscPtr = CFE_SB_LocatePipeDescByID pid
      in if \<not> CFE_SB_PipeDescIsMatch g PipeDscPtr pid
         then Some (g, CFE_SB_BAD_ARGUMENT, CFE_SB_SUB_INV_PIPE_EID, 0, 0)
         else if PipeAppId (pipe_at g (the PipeDscPtr)) \<noteq> snd (GetAppID env)
         then Some (g, CFE_SB_BAD_ARGUMENT, CFE_SB_SUB_INV_CALLER_EID, 0, 0)
         else if \<not> CFE_SB_IsValidMsgId MsgId \<or> scope > 1
         then Some (g, CFE_SB_BAD_ARGUMENT, CFE_SB_SUB_ARG_ERR_EID, 0, 0)
         else do {
           RouteId \<leftarrow> CFE_SBR_GetRouteId (MapCfg env) (SBR g) MsgId;
           if CFE_SBR_IsValidRouteId RouteId then Some (g, CFE_SUCCESS, 0, RouteId, 0)
           else do {
             (s, RouteId, Collisions) \<leftarrow> CFE_SBR_AddRoute (MapCfg env) (SBR g) MsgId;
             let g = g\<lparr>SBR := s\<rparr>;
             if \<not> CFE_SBR_IsValidRouteId RouteId
             then Some (g, CFE_SB_MAX_MSGS_MET, CFE_SB_MAX_MSGS_MET_EID, RouteId, Collisions)
             else
               let g = upd_stat (\<lambda>s. s\<lparr>MsgIdsInUse := MsgIdsInUse s + 1\<rparr>) g;
                   g = (if MsgIdsInUse (StatTlmMsg g) > PeakMsgIdsInUse (StatTlmMsg g)
                        then upd_stat (\<lambda>s. s\<lparr>PeakMsgIdsInUse := MsgIdsInUse s\<rparr>) g else g)
               in Some (g, CFE_SUCCESS, 0, RouteId, Collisions)
           }
         })"

text \<open>The loop over the destinations: the pointer it stops at, pending event and status.\<close>

partial_function (option) scan_dests ::
  "(nat \<Rightarrow> CFE_SB_DestinationD option) \<Rightarrow> CFE_SB_PipeId \<Rightarrow> nat ptr \<Rightarrow> nat \<Rightarrow> (nat ptr \<times> nat \<times> int32) option" where
  "scan_dests h pid DestPtr DestCount =
     (case DestPtr of
        None \<Rightarrow> Some (NULL, 0, CFE_SUCCESS)
      | Some d \<Rightarrow>
          (if DestPipeId (the (h d)) = pid then Some (Some d, CFE_SB_DUP_SUBSCRIP_EID, CFE_SUCCESS)
           else if DestCount + 1 \<ge> CFE_PLATFORM_SB_MAX_DEST_PER_PKT
           then Some (Some d, CFE_SB_MAX_DESTS_MET_EID, CFE_SB_MAX_DESTS_MET)
           else scan_dests h pid (DestNext (the (h d))) (DestCount + 1)))"

definition new_dest :: "CFE_SB_PipeId \<Rightarrow> u16 \<Rightarrow> u8 \<Rightarrow> CFE_SB_DestinationD" where
  "new_dest pid MsgLim scope =
     \<lparr>DestPipeId = pid, Active = CFE_SB_ACTIVE, MsgId2PipeLim = MsgLim, BuffCount = 0, DestCnt = 0,
      Scope = scope, DestPrev = NULL, DestNext = NULL\<rparr>"

definition subscribe_dest ::
  "CFE_SB_Env \<Rightarrow> CFE_SB_PipeId \<Rightarrow> u16 \<Rightarrow> u8 \<Rightarrow> CFE_SBR_RouteId \<Rightarrow> CFE_SB_Global \<Rightarrow>
     (CFE_SB_Global \<times> int32 \<times> nat) option" where
  "subscribe_dest env pid MsgLim scope RouteId g = do {
     (DestPtr, PendingEventID, Status) \<leftarrow>
       scan_dests (Dests g) pid (CFE_SBR_GetDestListHeadPtr (SBR g) RouteId) 0;
     case DestPtr of
       Some _ \<Rightarrow> Some (g, Status, PendingEventID)
     | None \<Rightarrow>
         (case CFE_SB_GetDestinationBlk env g of
            (g, None) \<Rightarrow> Some (g, CFE_SB_BUF_ALOC_ERR, CFE_SB_DEST_BLK_ERR_EID)
          | (g, Some d) \<Rightarrow>
              (let g = upd_dest d (\<lambda>_. new_dest pid MsgLim scope) g;
                   g = CFE_SB_AddDestNode RouteId d g;
                   g = upd_stat (\<lambda>s. s\<lparr>SubscriptionsInUse := SubscriptionsInUse s + 1\<rparr>) g;
                   g = (if SubscriptionsInUse (StatTlmMsg g) > PeakSubscriptionsInUse (StatTlmMsg g)
                        then upd_stat (\<lambda>s. s\<lparr>PeakSubscriptionsInUse := SubscriptionsInUse s\<rparr>) g else g)
               in Some (g, Status, PendingEventID)))
   }"

definition subscribe_count :: "nat \<Rightarrow> CFE_SB_Global \<Rightarrow> CFE_SB_Global" where
  "subscribe_count PendingEventID g =
     (if PendingEventID \<in> {CFE_SB_SUB_INV_PIPE_EID, CFE_SB_SUB_INV_CALLER_EID, CFE_SB_SUB_ARG_ERR_EID,
          CFE_SB_MAX_MSGS_MET_EID, CFE_SB_DEST_BLK_ERR_EID, CFE_SB_MAX_DESTS_MET_EID}
      then upd_hk (\<lambda>h. h\<lparr>SubscribeErrorCounter := SubscribeErrorCounter h + 1\<rparr>) g
      else if PendingEventID = CFE_SB_DUP_SUBSCRIP_EID
      then upd_hk (\<lambda>h. h\<lparr>DuplicateSubscriptionsCounter := DuplicateSubscriptionsCounter h + 1\<rparr>) g
      else g)"

definition CFE_SB_SendSubscriptionReport ::
  "CFE_SB_MsgId \<Rightarrow> CFE_SB_PipeId \<Rightarrow> CFE_SB_Qos \<Rightarrow> CFE_SB_Global \<Rightarrow> CFE_SB_Output list" where
  "CFE_SB_SendSubscriptionReport MsgId pid Quality g =
     (if SubscriptionReporting g = CFE_SB_ENABLE
      then [SubscriptionReport MsgId pid Quality, Event CFE_SB_SUBSCRIPTION_RPT_EID EVS_DEBUG] else [])"

text \<open>The messages after the lock is released.\<close>

definition subscribe_output ::
  "CFE_SB_Env \<Rightarrow> CFE_SB_MsgId \<Rightarrow> CFE_SB_PipeId \<Rightarrow> CFE_SB_Qos \<Rightarrow> u8 \<Rightarrow> int32 \<Rightarrow> nat \<Rightarrow> u32 \<Rightarrow> CFE_SB_Global \<Rightarrow>
     CFE_SB_Output list" where
  "subscribe_output env MsgId pid Quality scope Status PendingEventID Collisions g =
     (if PendingEventID \<noteq> 0
      then snd (snd (CFE_SB_GetPipeName env (Some []) OS_MAX_API_NAME pid g)) @
           [Event PendingEventID (if PendingEventID = CFE_SB_DUP_SUBSCRIP_EID then EVS_INFORMATION else EVS_ERROR)]
      else if Status = CFE_SUCCESS then [Event CFE_SB_SUBSCRIPTION_RCVD_EID EVS_DEBUG] else []) @
     (if Status = CFE_SUCCESS \<and> scope = CFE_SB_MSG_GLOBAL
      then CFE_SB_SendSubscriptionReport MsgId pid Quality g else []) @
     (if Collisions \<noteq> 0 then [Event CFE_SB_HASHCOLLISION_EID EVS_DEBUG] else [])"

definition CFE_SB_SubscribeFull ::
  "CFE_SB_Env \<Rightarrow> CFE_SB_MsgId \<Rightarrow> CFE_SB_PipeId \<Rightarrow> CFE_SB_Qos \<Rightarrow> u16 \<Rightarrow> u8 \<Rightarrow> CFE_SB_Global \<Rightarrow>
     (CFE_SB_Global \<times> int32 \<times> CFE_SB_Output list) option" where
  "CFE_SB_SubscribeFull env MsgId pid Quality MsgLim scope g = do {
     (g, Status, PendingEventID, RouteId, Collisions) \<leftarrow> subscribe_route env MsgId pid scope g;
     (g, Status, PendingEventID) \<leftarrow>
       (if Status = CFE_SUCCESS then subscribe_dest env pid MsgLim scope RouteId g
        else Some (g, Status, PendingEventID));
     let g = subscribe_count PendingEventID g;
     Some (g, Status, subscribe_output env MsgId pid Quality scope Status PendingEventID Collisions g)
   }"

abbreviation (input) CFE_SB_DEFAULT_QOS :: CFE_SB_Qos where
  "CFE_SB_DEFAULT_QOS \<equiv> \<lparr>Priority = 0, Reliability = 0\<rparr>"

definition CFE_SB_SubscribeEx ::
  "CFE_SB_Env \<Rightarrow> CFE_SB_MsgId \<Rightarrow> CFE_SB_PipeId \<Rightarrow> CFE_SB_Qos \<Rightarrow> u16 \<Rightarrow> CFE_SB_Global \<Rightarrow>
     (CFE_SB_Global \<times> int32 \<times> CFE_SB_Output list) option" where
  "CFE_SB_SubscribeEx env MsgId pid Quality MsgLim g =
     CFE_SB_SubscribeFull env MsgId pid Quality MsgLim CFE_SB_MSG_GLOBAL g"

definition CFE_SB_SubscribeLocal ::
  "CFE_SB_Env \<Rightarrow> CFE_SB_MsgId \<Rightarrow> CFE_SB_PipeId \<Rightarrow> u16 \<Rightarrow> CFE_SB_Global \<Rightarrow>
     (CFE_SB_Global \<times> int32 \<times> CFE_SB_Output list) option" where
  "CFE_SB_SubscribeLocal env MsgId pid MsgLim g =
     CFE_SB_SubscribeFull env MsgId pid CFE_SB_DEFAULT_QOS MsgLim CFE_SB_MSG_LOCAL g"

definition CFE_SB_Subscribe ::
  "CFE_SB_Env \<Rightarrow> CFE_SB_MsgId \<Rightarrow> CFE_SB_PipeId \<Rightarrow> CFE_SB_Global \<Rightarrow>
     (CFE_SB_Global \<times> int32 \<times> CFE_SB_Output list) option" where
  "CFE_SB_Subscribe env MsgId pid g =
     CFE_SB_SubscribeFull env MsgId pid CFE_SB_DEFAULT_QOS CFE_PLATFORM_SB_DEFAULT_MSG_LIMIT CFE_SB_MSG_GLOBAL g"

section \<open>Unsubscribing\<close>

definition CFE_SB_UnsubscribeFull ::
  "CFE_SB_Env \<Rightarrow> CFE_SB_MsgId \<Rightarrow> CFE_SB_PipeId \<Rightarrow> u8 \<Rightarrow> CFE_ES_AppId \<Rightarrow> CFE_SB_Global \<Rightarrow>
     (CFE_SB_Global \<times> int32 \<times> CFE_SB_Output list) option" where
  "CFE_SB_UnsubscribeFull env MsgId pid scope AppId g =
     (let PipeDscPtr = CFE_SB_LocatePipeDescByID pid;
          no_subs = (\<lambda>g. (g, CFE_SUCCESS, snd (snd (CFE_SB_GetPipeName env (Some []) OS_MAX_API_NAME pid g)) @
                          [Event CFE_SB_UNSUB_NO_SUBS_EID EVS_INFORMATION]))
      in if \<not> CFE_SB_PipeDescIsMatch g PipeDscPtr pid
         then Some (g, CFE_SB_BAD_ARGUMENT, [Event CFE_SB_UNSUB_INV_PIPE_EID EVS_ERROR])
         else if PipeAppId (pipe_at g (the PipeDscPtr)) \<noteq> AppId
         then Some (g, CFE_SB_BAD_ARGUMENT, [Event CFE_SB_UNSUB_INV_CALLER_EID EVS_ERROR])
         else if \<not> CFE_SB_IsValidMsgId MsgId \<or> scope > 1
         then Some (g, CFE_SB_BAD_ARGUMENT, [Event CFE_SB_UNSUB_ARG_ERR_EID EVS_ERROR])
         else do {
           RouteId \<leftarrow> CFE_SBR_GetRouteId (MapCfg env) (SBR g) MsgId;
           if \<not> CFE_SBR_IsValidRouteId RouteId then Some (no_subs g)
           else do {
             DestPtr \<leftarrow> CFE_SB_GetDestPtr g RouteId pid;
             case DestPtr of
               None \<Rightarrow> Some (no_subs g)
             | Some d \<Rightarrow> Some (CFE_SB_RemoveDest env RouteId d g, CFE_SUCCESS,
                              [Event CFE_SB_SUBSCRIPTION_REMOVED_EID EVS_DEBUG])
           }
         })"

definition CFE_SB_Unsubscribe ::
  "CFE_SB_Env \<Rightarrow> CFE_SB_MsgId \<Rightarrow> CFE_SB_PipeId \<Rightarrow> CFE_SB_Global \<Rightarrow>
     (CFE_SB_Global \<times> int32 \<times> CFE_SB_Output list) option" where
  "CFE_SB_Unsubscribe env MsgId pid g =
     CFE_SB_UnsubscribeFull env MsgId pid CFE_SB_MSG_GLOBAL (snd (GetAppID env)) g"

definition CFE_SB_UnsubscribeLocal ::
  "CFE_SB_Env \<Rightarrow> CFE_SB_MsgId \<Rightarrow> CFE_SB_PipeId \<Rightarrow> CFE_SB_Global \<Rightarrow>
     (CFE_SB_Global \<times> int32 \<times> CFE_SB_Output list) option" where
  "CFE_SB_UnsubscribeLocal env MsgId pid g =
     CFE_SB_UnsubscribeFull env MsgId pid CFE_SB_MSG_LOCAL (snd (GetAppID env)) g"

definition CFE_SB_UnsubscribeWithAppId ::
  "CFE_SB_Env \<Rightarrow> CFE_SB_MsgId \<Rightarrow> CFE_SB_PipeId \<Rightarrow> CFE_ES_AppId \<Rightarrow> CFE_SB_Global \<Rightarrow>
     (CFE_SB_Global \<times> int32 \<times> CFE_SB_Output list) option" where
  "CFE_SB_UnsubscribeWithAppId env MsgId pid AppId g =
     CFE_SB_UnsubscribeFull env MsgId pid CFE_SB_MSG_LOCAL AppId g"

section \<open>Enabling and disabling a route\<close>

definition CFE_SB_EnableRouteCmd ::
  "CFE_SB_Env \<Rightarrow> CFE_SB_MsgId \<Rightarrow> CFE_SB_PipeId \<Rightarrow> CFE_SB_Global \<Rightarrow> (CFE_SB_Global \<times> int32 \<times> CFE_SB_Output list) option" where
  "CFE_SB_EnableRouteCmd env MsgId pid g =
     (let err = upd_hk (\<lambda>h. h\<lparr>CommandErrorCounter := CommandErrorCounter h + 1\<rparr>)
      in if \<not> CFE_SB_IsValidMsgId MsgId \<or> \<not> CFE_SB_PipeDescIsMatch g (CFE_SB_LocatePipeDescByID pid) pid
         then Some (err g, CFE_SUCCESS, [Event CFE_SB_ENBL_RTE3_EID EVS_ERROR])
         else do {
           RouteId \<leftarrow> CFE_SBR_GetRouteId (MapCfg env) (SBR g) MsgId;
           DestPtr \<leftarrow> CFE_SB_GetDestPtr g RouteId pid;
           case DestPtr of
             None \<Rightarrow> Some (err g, CFE_SUCCESS, [Event CFE_SB_ENBL_RTE1_EID EVS_ERROR])
           | Some d \<Rightarrow>
               Some (upd_hk (\<lambda>h. h\<lparr>CommandCounter := CommandCounter h + 1\<rparr>)
                       (upd_dest d (\<lambda>d. d\<lparr>Active := CFE_SB_ACTIVE\<rparr>) g),
                     CFE_SUCCESS, [Event CFE_SB_ENBL_RTE2_EID EVS_DEBUG])
         })"

definition CFE_SB_DisableRouteCmd ::
  "CFE_SB_Env \<Rightarrow> CFE_SB_MsgId \<Rightarrow> CFE_SB_PipeId \<Rightarrow> CFE_SB_Global \<Rightarrow> (CFE_SB_Global \<times> int32 \<times> CFE_SB_Output list) option" where
  "CFE_SB_DisableRouteCmd env MsgId pid g =
     (let err = upd_hk (\<lambda>h. h\<lparr>CommandErrorCounter := CommandErrorCounter h + 1\<rparr>)
      in if \<not> CFE_SB_IsValidMsgId MsgId \<or> \<not> CFE_SB_PipeDescIsMatch g (CFE_SB_LocatePipeDescByID pid) pid
         then Some (err g, CFE_SUCCESS, [Event CFE_SB_DSBL_RTE3_EID EVS_ERROR])
         else do {
           RouteId \<leftarrow> CFE_SBR_GetRouteId (MapCfg env) (SBR g) MsgId;
           DestPtr \<leftarrow> CFE_SB_GetDestPtr g RouteId pid;
           case DestPtr of
             None \<Rightarrow> Some (err g, CFE_SUCCESS, [Event CFE_SB_DSBL_RTE1_EID EVS_ERROR])
           | Some d \<Rightarrow>
               Some (upd_hk (\<lambda>h. h\<lparr>CommandCounter := CommandCounter h + 1\<rparr>)
                       (upd_dest d (\<lambda>d. d\<lparr>Active := CFE_SB_INACTIVE\<rparr>) g),
                     CFE_SUCCESS, [Event CFE_SB_DSBL_RTE2_EID EVS_DEBUG])
         })"

section \<open>The subscriptions\<close>

text \<open>
  The invariant: routing map, pipe table and destination lists are consistent; only routes that
  have been added have destinations; a route has at most 16 destinations, of
  different pipes, and each is a live pipe.
\<close>

definition sub_inv :: "CFE_SBR_MapConfig \<Rightarrow> CFE_SB_Global \<Rightarrow> (CFE_SBR_RouteId \<Rightarrow> nat list) \<Rightarrow> bool" where
  "sub_inv cfg g L \<longleftrightarrow>
     map_inv cfg (SBR g) \<and> pipe_inv g \<and> dest_lists g L \<and>
     (\<forall>r. L r \<noteq> [] \<longrightarrow> unat r \<le> unat (RouteIdxTop (SBR g))) \<and>
     (\<forall>r. length (L r) \<le> 16 \<and> distinct (map DestPipeId (route_view g L r))) \<and>
     (\<forall>r. \<forall>d \<in> set (route_view g L r). \<exists>i < 64. live g i \<and> PipeId (pipe_at g i) = DestPipeId d)"

text \<open>The abstract state: the destinations of a message id.\<close>

definition subs :: "CFE_SB_Global \<Rightarrow> (CFE_SBR_RouteId \<Rightarrow> nat list) \<Rightarrow> CFE_SB_MsgId \<Rightarrow> CFE_SB_DestinationD list" where
  "subs g L m = route_view g L (route_of (routes (SBR g)) m)"

lemma sub_invD:
  assumes "sub_inv cfg g L"
  shows "map_inv cfg (SBR g)" "pipe_inv g" "dest_lists g L" "L r \<noteq> [] \<Longrightarrow> unat r \<le> unat (RouteIdxTop (SBR g))"
    "length (L r) \<le> 16" "distinct (map DestPipeId (route_view g L r))"
    "d \<in> set (route_view g L r) \<Longrightarrow> \<exists>i < 64. live g i \<and> PipeId (pipe_at g i) = DestPipeId d"
  using assms by (auto simp: sub_inv_def)

lemma length_route_view [simp]: "length (route_view g L r) = length (L r)"
  by (simp add: route_view_def)

lemma route_view_empty [simp]: "L r = [] \<Longrightarrow> route_view g L r = []"
  by (simp add: route_view_def)

lemma L_invalid: "dest_lists g L \<Longrightarrow> \<not> CFE_SBR_IsValidRouteId r \<Longrightarrow> L r = []"
  using dest_lists_valid [of g L _ r] by (cases "L r") auto

lemma subs_unrouted: "dest_lists g L \<Longrightarrow> m \<notin> set (routes (SBR g)) \<Longrightarrow> subs g L m = []"
  by (simp add: subs_def L_invalid)

lemma view_pipes: "DestPipeId ` set (route_view g L r) = (\<lambda>d. DestPipeId (dest_at g d)) ` set (L r)"
  by (auto simp: route_view_def image_comp comp_def)

lemma sub_inv_lookup:
  assumes "sub_inv cfg g L"
  shows "CFE_SBR_GetRouteId cfg (SBR g) m = Some (route_of (routes (SBR g)) m)"
    and "CFE_SBR_IsValidRouteId (route_of (routes (SBR g)) m) \<longleftrightarrow> m \<in> set (routes (SBR g))"
  using sbr.get_route [OF sub_invD(1) [OF assms], of m] map_inv_tbl [OF sub_invD(1) [OF assms]]
    route_of_valid [of "routes (SBR g)" m] by auto

text \<open>Two different routed message ids have different routes.\<close>

lemma route_of_inject:
  assumes "sub_inv cfg g L" and "m \<in> set (routes (SBR g))" and "m' \<in> set (routes (SBR g))"
    and "route_of (routes (SBR g)) m = route_of (routes (SBR g)) m'"
  shows "m = m'"
  using assms GetMsgId_route_of [OF sbr.inv_tbl [OF sub_invD(1) [OF assms(1)]]] by metis

lemma subs_update:
  assumes inv: "sub_inv cfg g L" and m: "m \<in> set (routes (SBR g))"
    and v: "route_view g' L' = (route_view g L)(route_of (routes (SBR g)) m := ds)"
    and r: "routes (SBR g') = routes (SBR g)" and d': "dest_lists g' L'"
  shows "subs g' L' = (subs g L)(m := ds)"
proof
  fix m'
  show "subs g' L' m' = ((subs g L)(m := ds)) m'"
  proof (cases "m' \<in> set (routes (SBR g))")
    case True
    then show ?thesis using route_of_inject [OF inv m True] v r by (auto simp: subs_def)
  next
    case False
    then show ?thesis
      using subs_unrouted [OF sub_invD(3) [OF inv] False] subs_unrouted [OF d', of m'] m r by auto
  qed
qed

text \<open>A bus with one pipe and no subscription, for the concrete runs.\<close>

definition sample_bus :: CFE_SB_Global where
  "sample_bus = upd_pipe 1 (\<lambda>_. zero_PipeD\<lparr>PipeId := 0x160001, PipeAppId := 0x110001, SysQueueId := 0x20001,
     MaxQueueDepth := 10\<rparr>) (sb_init SBR_MAP_DIRECT sbr0)"

lemma sample_bus_fields [simp]:
  "SBR sample_bus = CFE_SBR_Init SBR_MAP_DIRECT sbr0" "Dests sample_bus = (\<lambda>_. None)" "Bufs sample_bus = (\<lambda>_. None)"
  by (simp_all add: sample_bus_def)

lemma sample_bus_pipe:
  "i < 64 \<Longrightarrow> pipe_at sample_bus i = (if i = 1 then zero_PipeD\<lparr>PipeId := 0x160001, PipeAppId := 0x110001,
     SysQueueId := 0x20001, MaxQueueDepth := 10\<rparr> else zero_PipeD)"
  by (simp add: sample_bus_def pipe_at_init)

lemma sample_pipe_located [simp]: "CFE_SB_LocatePipeDescByID 0x160001 = Some 1"
  by (simp add: Locate_eq)

lemma sample_bus_inv: "sub_inv SBR_MAP_DIRECT sample_bus (\<lambda>_. [])"
proof -
  have "pipe_inv sample_bus"
    using pipe_inv_init [of SBR_MAP_DIRECT sbr0]
    by (auto simp: pipe_inv_def live_def sample_bus_pipe) (auto simp: zero_PipeD_def sample_bus_def)
  moreover have "dest_lists sample_bus (\<lambda>_. [])"
    using init_dest_lists [of SBR_MAP_DIRECT sbr0] by (simp add: dest_lists_def)
  ultimately show ?thesis by (simp add: sub_inv_def route_view_def sbr.init_inv)
qed

subsection \<open>The scan for duplicates\<close>

lemma scan_dests_spec:
  "dchain h q p xs \<Longrightarrow> k + length xs \<le> 16 \<Longrightarrow>
     (\<exists>a. scan_dests h pid p k =
        (if \<exists>d \<in> set xs. DestPipeId (the (h d)) = pid then Some (Some a, CFE_SB_DUP_SUBSCRIP_EID, CFE_SUCCESS)
         else if k + length xs < 16 \<or> xs = [] then Some (NULL, 0, CFE_SUCCESS)
         else Some (Some a, CFE_SB_MAX_DESTS_MET_EID, CFE_SB_MAX_DESTS_MET)))"
proof (induction xs arbitrary: q p k)
  case Nil
  then show ?case by (simp add: scan_dests.simps)
next
  case (Cons x xs)
  then obtain d where d: "p = Some x" "h x = Some d" "dchain h (Some x) (DestNext d) xs" by auto
  obtain a where IH: "scan_dests h pid (DestNext d) (k + 1) =
      (if \<exists>d \<in> set xs. DestPipeId (the (h d)) = pid then Some (Some a, CFE_SB_DUP_SUBSCRIP_EID, CFE_SUCCESS)
       else if k + 1 + length xs < 16 \<or> xs = [] then Some (NULL, 0, CFE_SUCCESS)
       else Some (Some a, CFE_SB_MAX_DESTS_MET_EID, CFE_SB_MAX_DESTS_MET))"
    using Cons.IH [OF d(3), of "k + 1"] Cons.prems(2) by auto
  consider "DestPipeId d = pid" | "DestPipeId d \<noteq> pid" "k + 1 \<ge> 16" | "DestPipeId d \<noteq> pid" "k + 1 < 16" by linarith
  then show ?case
  proof cases
    case 1
    then show ?thesis using d by (subst scan_dests.simps) auto
  next
    case 2
    then have "xs = []" "k + 1 = 16" using Cons.prems(2) by (cases xs; simp)+
    then show ?thesis using d 2 by (subst scan_dests.simps) auto
  next
    case 3
    then show ?thesis using d IH by (subst scan_dests.simps) auto
  qed
qed

subsection \<open>The new destination\<close>

lemma GetDestinationBlk_fresh:
  assumes "GetPoolBuf env (SizeofDest env) = (st, a)" and "0 \<le> sint st"
  shows "snd (CFE_SB_GetDestinationBlk env g) = Some a"
    and "Dests (fst (CFE_SB_GetDestinationBlk env g)) = (Dests g)(a \<mapsto> StaleDest env)"
    and "SBR (fst (CFE_SB_GetDestinationBlk env g)) = SBR g"
    and "dest_frame g (fst (CFE_SB_GetDestinationBlk env g))"
  using assms by (auto simp: CFE_SB_GetDestinationBlk_def Let_def dest_frame_def)

lemma subscribe_dest_new:
  assumes l: "dest_lists g L" and r: "CFE_SBR_IsValidRouteId r" and len: "length (L r) < 16"
    and new: "pid \<notin> DestPipeId ` set (route_view g L r)"
    and pool: "GetPoolBuf env (SizeofDest env) = (st, a)" "0 \<le> sint st" "Dests g a = None"
  shows "\<exists>g'. subscribe_dest env pid lim sc r g = Some (g', CFE_SUCCESS, 0) \<and> dest_frame g g' \<and>
      dest_lists g' (L(r := a # L r)) \<and>
      route_view g' (L(r := a # L r)) = (route_view g L)(r := new_dest pid lim sc # route_view g L r) \<and>
      SubscriptionsInUse (StatTlmMsg g') = SubscriptionsInUse (StatTlmMsg g) + 1"
proof -
  have nin: "a \<notin> set (L r')" for r'
    using dchain_alloc [OF dest_listsD(2) [OF l]] pool(3) by blast
  define g1 where "g1 = upd_dest a (\<lambda>_. new_dest pid lim sc) (fst (CFE_SB_GetDestinationBlk env g))"
  note blk = GetDestinationBlk_fresh [OF pool(1,2), of g]
  have d1: "Dests g1 = (Dests g)(a \<mapsto> new_dest pid lim sc)" "SBR g1 = SBR g"
    by (auto simp: g1_def blk fun_eq_iff)
  have f1: "dest_frame g g1" using blk(4) by (simp add: g1_def dest_frame_def)
  have l1: "dest_lists g1 L" by (rule dest_lists_free [OF l nin]) (simp_all add: d1)
  define g2 where "g2 = CFE_SB_AddDestNode r a g1"
  have l2: "dest_lists g2 (L(r := a # L r))"
    unfolding g2_def by (rule AddDestNode_lists [OF l1 r]) (simp_all add: d1 nin)
  have f2: "dest_frame g g2" unfolding g2_def by (rule dest_frame_trans [OF f1 AddDestNode_frame])
  have i2: "map_option dinfo (Dests g2 x) = map_option dinfo (Dests g1 x)" for x
    unfolding g2_def by (rule AddDestNode_info)
  have old: "dinfo (dest_at g2 x) = dinfo (dest_at g x)" if "x \<in> set (L r')" for x r'
  proof -
    have "x \<noteq> a" using nin that by blast
    then have "map_option dinfo (Dests g2 x) = map_option dinfo (Dests g x)" by (simp add: i2 d1)
    then show ?thesis using dchain_alloc [OF dest_listsD(2) [OF l] that] by (rule dinfo_dest_at)
  qed
  have "dinfo (dest_at g2 a) = new_dest pid lim sc"
    using i2 [of a] by (cases "Dests g2 a") (auto simp: d1 dest_at_def new_dest_def dinfo_def)
  with old nin have v2: "route_view g2 (L(r := a # L r)) = (route_view g L)(r := new_dest pid lim sc # route_view g L r)"
    by (auto simp: route_view_def fun_eq_iff)
  have scan: "scan_dests (Dests g) pid (CFE_SBR_GetDestListHeadPtr (SBR g) r) 0 = Some (NULL, 0, CFE_SUCCESS)"
  proof -
    have "\<not> (\<exists>d \<in> set (L r). DestPipeId (the (Dests g d)) = pid)"
      using new unfolding view_pipes dest_at_def by blast
    then show ?thesis using scan_dests_spec [OF dest_listsD(2) [OF l, of r], of 0 pid] len by auto
  qed
  let ?h = "\<lambda>g. upd_stat (\<lambda>s. s\<lparr>SubscriptionsInUse := SubscriptionsInUse s + 1\<rparr>) g"
  define g3 where "g3 = (if SubscriptionsInUse (StatTlmMsg (?h g2)) > PeakSubscriptionsInUse (StatTlmMsg (?h g2))
      then upd_stat (\<lambda>s. s\<lparr>PeakSubscriptionsInUse := SubscriptionsInUse s\<rparr>) (?h g2) else ?h g2)"
  have g3: "Dests g3 = Dests g2" "SBR g3 = SBR g2" "dest_frame g2 g3"
    by (auto simp: g3_def dest_frame_def)
  have "SubscriptionsInUse (StatTlmMsg g2) = SubscriptionsInUse (StatTlmMsg g)"
    using blk(1) pool(1,2)
    by (auto simp: g2_def g1_def CFE_SB_AddDestNode_def CFE_SB_GetDestinationBlk_def Let_def split: option.split)
  then have si: "SubscriptionsInUse (StatTlmMsg g3) = SubscriptionsInUse (StatTlmMsg g) + 1"
    by (simp add: g3_def)
  have "subscribe_dest env pid lim sc r g = Some (g3, CFE_SUCCESS, 0)"
    using scan blk(1)
    by (cases "CFE_SB_GetDestinationBlk env g")
       (simp add: subscribe_dest_def Let_def g3_def g2_def g1_def)
  moreover have "dest_lists g3 (L(r := a # L r))" using l2 g3 by (simp add: dest_lists_def)
  moreover have "route_view g3 = route_view g2" using g3(1) by (simp add: route_view_def fun_eq_iff dest_at_def)
  ultimately show ?thesis using dest_frame_trans [OF f2 g3(3)] v2 si by auto
qed

subsection \<open>The route\<close>

text \<open>What subscribing leaves alone: the pipes and the buffers.\<close>

definition sub_frame :: "CFE_SB_Global \<Rightarrow> CFE_SB_Global \<Rightarrow> bool" where
  "sub_frame g g' \<longleftrightarrow>
     PipeTbl g' = PipeTbl g \<and> LastPipeId g' = LastPipeId g \<and> Bufs g' = Bufs g \<and> Links g' = Links g \<and>
     SBBuffersInUse (StatTlmMsg g') = SBBuffersInUse (StatTlmMsg g)"

lemma dest_frame_sub_frame: "dest_frame g g' \<Longrightarrow> sub_frame g g'"
  by (simp add: dest_frame_def sub_frame_def)

lemma sub_frame_trans: "sub_frame g g' \<Longrightarrow> sub_frame g' g'' \<Longrightarrow> sub_frame g g''"
  by (simp add: sub_frame_def)

lemma sub_frame_pipes: "sub_frame g g' \<Longrightarrow> pipe_inv g' = pipe_inv g \<and> live g' = live g \<and> pipe_at g' = pipe_at g"
  by (auto simp: sub_frame_def pipe_inv_def live_def pipe_at_def fun_eq_iff)

lemma AddRoute_heads:
  assumes "map_inv cfg s" and "CFE_SBR_AddRoute cfg s m = Some (s', r, c)"
  shows "CFE_SBR_GetDestListHeadPtr s' = CFE_SBR_GetDestListHeadPtr s" and "length (RoutingTbl s') = length (RoutingTbl s)"
proof -
  have "map ListHeadPtr (RoutingTbl s') = map ListHeadPtr (RoutingTbl s)"
  proof (cases "CFE_SB_IsValidMsgId m \<and> unat (RouteIdxTop s) < 256")
    case True
    then obtain s1 where "CFE_SBR_SetRouteId cfg s m (CFE_SBR_ValueToRouteId (RouteIdxTop s)) = Some (s1, c)"
      and s': "RoutingTbl s' = (RoutingTbl s1)[unat (RouteIdxTop s1) := (RoutingTbl s1 ! unat (RouteIdxTop s1))\<lparr>RouteMsgId := m\<rparr>]"
      using assms(2) by (auto simp: CFE_SBR_AddRoute_def Let_def)
    moreover from this have "RoutingTbl s1 = RoutingTbl s" by (metis sbr.set_frame)
    ultimately show ?thesis
      using list_update_id [of "map ListHeadPtr (RoutingTbl s)" "unat (RouteIdxTop s1)"]
      by (cases "unat (RouteIdxTop s1) < length (RoutingTbl s)") (simp_all add: map_update list_update_beyond)
  next
    case False
    then show ?thesis using assms(2) sbr.add_full [of m s cfg] by (simp add: not_less)
  qed
  moreover from this show len: "length (RoutingTbl s') = length (RoutingTbl s)" by (rule map_eq_imp_length_eq)
  moreover have "length (RoutingTbl s) = 256" using sbr.inv_tbl [OF assms(1)] by (simp add: tbl_inv_def)
  ultimately have "ListHeadPtr (RoutingTbl s' ! i) = ListHeadPtr (RoutingTbl s ! i)" if "i < 256" for i
    using that by (metis nth_map)
  then show "CFE_SBR_GetDestListHeadPtr s' = CFE_SBR_GetDestListHeadPtr s"
    by (auto simp: CFE_SBR_GetDestListHeadPtr_def fun_eq_iff IsValidRouteId_nat RouteIdToValue_nat)
qed

lemma subscribe_route_ok:
  assumes inv: "sub_inv (MapCfg env) g L"
    and pipe: "CFE_SB_LocatePipeDescByID pid = Some i" "PipeId (pipe_at g i) = pid" "PipeAppId (pipe_at g i) = snd (GetAppID env)"
    and m: "CFE_SB_IsValidMsgId m" "sc \<le> 1" "m \<in> set (routes (SBR g)) \<or> unat (RouteIdxTop (SBR g)) < 256"
  shows "\<exists>g' c. subscribe_route env m pid sc g = Some (g', CFE_SUCCESS, 0, route_of (routes (SBR g')) m, c) \<and>
      sub_inv (MapCfg env) g' L \<and> m \<in> set (routes (SBR g')) \<and> subs g' L = subs g L \<and> Dests g' = Dests g \<and>
      sub_frame g g' \<and> HKTlmMsg g' = HKTlmMsg g"
proof (cases "m \<in> set (routes (SBR g))")
  case True
  then show ?thesis
    using pipe m(1,2) sub_inv_lookup [OF inv, of m] inv
    by (auto simp: subscribe_route_def CFE_SB_PipeDescIsMatch_def Let_def not_less sub_frame_def)
next
  case False
  note mi = sub_invD(1) [OF inv]
  obtain s r c where add: "CFE_SBR_AddRoute (MapCfg env) (SBR g) m = Some (s, r, c)"
    using sbr.add_ends [OF mi] by blast
  have top: "unat (RouteIdxTop (SBR g)) < 256" using m(3) False by blast
  note ar = sbr.add_routes [OF mi m(1) False top add]
  note hd = AddRoute_heads [OF mi add]
  let ?g1 = "upd_stat (\<lambda>s. s\<lparr>MsgIdsInUse := MsgIdsInUse s + 1\<rparr>) (g\<lparr>SBR := s\<rparr>)"
  define g' where "g' = (if MsgIdsInUse (StatTlmMsg ?g1) > PeakMsgIdsInUse (StatTlmMsg ?g1)
      then upd_stat (\<lambda>s. s\<lparr>PeakMsgIdsInUse := MsgIdsInUse s\<rparr>) ?g1 else ?g1)"
  have f: "SBR g' = s" "Dests g' = Dests g" "sub_frame g g'" "HKTlmMsg g' = HKTlmMsg g"
    by (simp_all add: g'_def sub_frame_def)
  have call: "subscribe_route env m pid sc g = Some (g', CFE_SUCCESS, 0, r, c)"
    using pipe m(1,2) sub_inv_lookup [OF inv, of m] False add ar(5)
    by (simp add: subscribe_route_def CFE_SB_PipeDescIsMatch_def Let_def not_less g'_def)
  have view: "route_view g' L = route_view g L" using f(2) by (simp add: route_view_def fun_eq_iff dest_at_def)
  have top': "unat (RouteIdxTop s) = Suc (unat (RouteIdxTop (SBR g)))"
    using length_routes [OF sbr.inv_tbl [OF ar(1)]] length_routes [OF sbr.inv_tbl [OF mi]] ar(2) by simp
  have "dest_lists g' L" using sub_invD(3) [OF inv] hd f by (simp add: dest_lists_def)
  with inv ar(1) f(1) view sub_frame_pipes [OF f(3)] have inv': "sub_inv (MapCfg env) g' L"
    unfolding sub_inv_def by (simp add: top' le_Suc_eq)
  have Lr: "L r = []"
    using sub_invD(4) [OF inv, of r] add_entry_tbl(3) [OF sbr.inv_tbl [OF mi] m(1) False top] ar(4) by fastforce
  have "subs g' L m' = subs g L m'" for m'
  proof (cases "m' = m")
    case True
    have "subs g' L m = []" using Lr ar(3) f(1) by (simp add: subs_def)
    then show ?thesis using True subs_unrouted [OF sub_invD(3) [OF inv] False] by simp
  next
    case neq: False
    then show ?thesis
      using add_entry_tbl(4) [OF sbr.inv_tbl [OF mi] m(1) False top neq] ar(2) f(1) view by (simp add: subs_def)
  qed
  then show ?thesis using call inv' ar(2,3) f by (auto simp: fun_eq_iff)
qed

lemma sub_inv_frame:
  assumes "sub_inv cfg g L" and "dest_frame g g'" and "dest_lists g' L'"
    and "\<And>r. L' r \<noteq> [] \<Longrightarrow> unat r \<le> unat (RouteIdxTop (SBR g))" and "\<And>r. length (L' r) \<le> 16"
    and "\<And>r. distinct (map DestPipeId (route_view g' L' r))"
    and "\<And>r d. d \<in> set (route_view g' L' r) \<Longrightarrow> \<exists>i < 64. live g i \<and> PipeId (pipe_at g i) = DestPipeId d"
  shows "sub_inv cfg g' L'"
proof -
  have sr: "same_routes (SBR g) (SBR g')" using assms(2) by (simp add: dest_frame_def)
  then have "map_inv cfg (SBR g')" by (rule sbr.inv_same [OF sub_invD(1) [OF assms(1)]])
  moreover have "RouteIdxTop (SBR g') = RouteIdxTop (SBR g)" using sr by (simp add: same_routes_def)
  ultimately show ?thesis
    using assms(3-7) sub_invD(2) [OF assms(1)] sub_frame_pipes [OF dest_frame_sub_frame [OF assms(2)]]
    unfolding sub_inv_def by simp
qed

lemma sub_inv_hk: "sub_inv cfg (upd_hk f g) L = sub_inv cfg g L"
  by (simp add: sub_inv_def pipe_inv_def live_def dest_lists_def route_view_def dest_at_def)

lemma subs_hk: "subs (upd_hk f g) L = subs g L"
  by (simp add: subs_def route_view_def dest_at_def fun_eq_iff)

lemma subscribe_count_frame:
  "sub_frame g (subscribe_count e g)" "subs (subscribe_count e g) L = subs g L"
  "sub_inv cfg (subscribe_count e g) L = sub_inv cfg g L"
  by (simp_all add: subscribe_count_def sub_frame_def subs_hk sub_inv_hk)

lemma route_of_le_top:
  assumes "map_inv cfg s" and "m \<in> set (routes s)"
  shows "unat (route_of (routes s) m) \<le> unat (RouteIdxTop s)"
proof -
  have t: "tbl_inv s" by (rule sbr.inv_tbl [OF assms(1)])
  obtain i where i: "i < length (routes s)" "m = routes s ! i" using assms(2) by (auto simp: in_set_conv_nth)
  then have "Suc i \<le> 256" using length_routes [OF t] t by (simp add: tbl_inv_def)
  moreover have "route_of (routes s) m = of_nat (Suc i)" using i t by (simp add: route_of_nth tbl_inv_def)
  ultimately have "unat (route_of (routes s) m) = Suc i" by (simp only: of_nat_route)
  then show ?thesis using i(1) length_routes [OF t] by simp
qed

lemma subscribe_dest_cases:
  assumes inv: "sub_inv cfg g L" and mr: "m \<in> set (routes (SBR g))"
    and lv: "\<exists>j < 64. live g j \<and> PipeId (pipe_at g j) = pid"
    and pool: "GetPoolBuf env (SizeofDest env) = (pst, a)" "0 \<le> sint pst" "Dests g a = None"
  shows "\<exists>g' L' st e. subscribe_dest env pid lim sc (route_of (routes (SBR g)) m) g = Some (g', st, e) \<and>
      sub_inv cfg g' L' \<and> dest_frame g g' \<and>
      (if pid \<in> DestPipeId ` set (subs g L m)
       then st = CFE_SUCCESS \<and> e = CFE_SB_DUP_SUBSCRIP_EID \<and> subs g' L' = subs g L
       else if length (subs g L m) = 16
       then st = CFE_SB_MAX_DESTS_MET \<and> e = CFE_SB_MAX_DESTS_MET_EID \<and> subs g' L' = subs g L
       else st = CFE_SUCCESS \<and> e = 0 \<and> subs g' L' = (subs g L)(m := new_dest pid lim sc # subs g L m))"
proof -
  define r where "r = route_of (routes (SBR g)) m"
  have rv: "CFE_SBR_IsValidRouteId r" using sub_inv_lookup(2) [OF inv, of m] mr by (simp add: r_def)
  have ds: "subs g L m = route_view g L r" by (simp add: subs_def r_def)
  note dl = sub_invD(3) [OF inv]
  have mem: "(\<exists>d \<in> set (L r). DestPipeId (the (Dests g d)) = pid) \<longleftrightarrow> pid \<in> DestPipeId ` set (subs g L m)"
    unfolding ds view_pipes by (auto simp: dest_at_def image_iff)
  obtain d where scan: "scan_dests (Dests g) pid (CFE_SBR_GetDestListHeadPtr (SBR g) r) 0 =
      (if pid \<in> DestPipeId ` set (subs g L m) then Some (Some d, CFE_SB_DUP_SUBSCRIP_EID, CFE_SUCCESS)
       else if 0 + length (L r) < 16 \<or> L r = [] then Some (NULL, 0, CFE_SUCCESS)
       else Some (Some d, CFE_SB_MAX_DESTS_MET_EID, CFE_SB_MAX_DESTS_MET))"
    using scan_dests_spec [OF dest_listsD(2) [OF dl, of r], of 0 pid] sub_invD(5) [OF inv, of r]
    unfolding mem by auto
  show ?thesis
  proof (cases "pid \<in> DestPipeId ` set (subs g L m) \<or> length (subs g L m) = 16")
    case True
    have "L r \<noteq> []" using True ds by auto
    with True scan ds inv show ?thesis
      by (intro exI [of _ g] exI [of _ L]) (auto simp: subscribe_dest_def r_def [symmetric])
  next
    case False
    let ?L = "L(r := a # L r)"
    have la: "length (L r) < 16" "pid \<notin> DestPipeId ` set (route_view g L r)"
      using False ds sub_invD(5) [OF inv, of r] by auto
    obtain g2 where r2: "subscribe_dest env pid lim sc r g = Some (g2, CFE_SUCCESS, 0)" and f2: "dest_frame g g2"
      and l2: "dest_lists g2 ?L" and v2: "route_view g2 ?L = (route_view g L)(r := new_dest pid lim sc # route_view g L r)"
      using subscribe_dest_new [OF dl rv la pool, of lim sc] by blast
    have inv2: "sub_inv cfg g2 ?L"
      using la v2 lv sub_invD [OF inv] route_of_le_top [OF sub_invD(1) [OF inv] mr]
      by (intro sub_inv_frame [OF inv f2 l2]) (auto simp: new_dest_def r_def split: if_splits)
    have "subs g2 ?L = (subs g L)(m := new_dest pid lim sc # route_view g L r)"
      using v2 f2 by (intro subs_update [OF inv mr _ _ l2]) (simp_all add: r_def dest_frame_def same_routes_routes)
    then show ?thesis using r2 inv2 f2 False ds by (auto simp: r_def)
  qed
qed

lemma SubscribeFull_ok:
  assumes inv: "sub_inv (MapCfg env) g L"
    and pipe: "CFE_SB_LocatePipeDescByID pid = Some i" "PipeId (pipe_at g i) = pid" "PipeAppId (pipe_at g i) = snd (GetAppID env)"
    and m: "CFE_SB_IsValidMsgId m" "sc \<le> 1" "m \<in> set (routes (SBR g)) \<or> unat (RouteIdxTop (SBR g)) < 256"
    and pool: "GetPoolBuf env (SizeofDest env) = (pst, a)" "0 \<le> sint pst" "Dests g a = None"
  shows "\<exists>g' L' st outs. CFE_SB_SubscribeFull env m pid Q lim sc g = Some (g', st, outs) \<and>
      sub_inv (MapCfg env) g' L' \<and> sub_frame g g' \<and>
      (if pid \<in> DestPipeId ` set (subs g L m)
       then st = CFE_SUCCESS \<and> subs g' L' = subs g L \<and>
            DuplicateSubscriptionsCounter (HKTlmMsg g') = DuplicateSubscriptionsCounter (HKTlmMsg g) + 1
       else if length (subs g L m) = 16
       then st = CFE_SB_MAX_DESTS_MET \<and> subs g' L' = subs g L \<and>
            SubscribeErrorCounter (HKTlmMsg g') = SubscribeErrorCounter (HKTlmMsg g) + 1
       else st = CFE_SUCCESS \<and> subs g' L' = (subs g L)(m := new_dest pid lim sc # subs g L m) \<and>
            HKTlmMsg g' = HKTlmMsg g)"
proof -
  obtain g1 c where r1: "subscribe_route env m pid sc g = Some (g1, CFE_SUCCESS, 0, route_of (routes (SBR g1)) m, c)"
    and inv1: "sub_inv (MapCfg env) g1 L" and mr: "m \<in> set (routes (SBR g1))" and s1: "subs g1 L = subs g L"
    and d1: "Dests g1 = Dests g" and f1: "sub_frame g g1" and hk1: "HKTlmMsg g1 = HKTlmMsg g"
    using subscribe_route_ok [OF inv pipe m] by blast
  have lv: "\<exists>j < 64. live g1 j \<and> PipeId (pipe_at g1 j) = pid"
    using match_live [of g1 pid] pipe sub_frame_pipes [OF f1] by (auto simp: CFE_SB_PipeDescIsMatch_def)
  obtain g2 L2 st e where r2: "subscribe_dest env pid lim sc (route_of (routes (SBR g1)) m) g1 = Some (g2, st, e)"
    and inv2: "sub_inv (MapCfg env) g2 L2" and f2: "dest_frame g1 g2"
    and cs: "if pid \<in> DestPipeId ` set (subs g1 L m)
       then st = CFE_SUCCESS \<and> e = CFE_SB_DUP_SUBSCRIP_EID \<and> subs g2 L2 = subs g1 L
       else if length (subs g1 L m) = 16
       then st = CFE_SB_MAX_DESTS_MET \<and> e = CFE_SB_MAX_DESTS_MET_EID \<and> subs g2 L2 = subs g1 L
       else st = CFE_SUCCESS \<and> e = 0 \<and> subs g2 L2 = (subs g1 L)(m := new_dest pid lim sc # subs g1 L m)"
    using subscribe_dest_cases [OF inv1 mr lv pool(1,2), of lim sc] pool(3) d1 by metis
  have hk2: "HKTlmMsg g2 = HKTlmMsg g" using f2 hk1 by (simp add: dest_frame_def)
  define g3 where "g3 = subscribe_count e g2"
  have f3: "sub_frame g g3"
    unfolding g3_def by (rule sub_frame_trans [OF sub_frame_trans [OF f1 dest_frame_sub_frame [OF f2]] subscribe_count_frame(1)])
  have g3: "sub_inv (MapCfg env) g3 L2" "subs g3 L2 = subs g2 L2"
    using inv2 by (simp_all add: g3_def subscribe_count_frame)
  have "CFE_SB_SubscribeFull env m pid Q lim sc g = Some (g3, st, subscribe_output env m pid Q sc st e c g3)"
    using r1 r2 by (simp add: CFE_SB_SubscribeFull_def g3_def Let_def)
  then show ?thesis using g3 f3 cs s1 hk2
    by (intro exI [of _ g3] exI [of _ L2] exI [of _ st])
       (auto simp: g3_def subscribe_count_def split: if_splits)
qed

text \<open>The one pipe of the sample bus, subscribed to a message id.\<close>

lemma sample_subscribed:
  "\<exists>g L. sub_inv SBR_MAP_DIRECT g L \<and> subs g L 0x1806 = [new_dest 0x160001 4 0] \<and> sub_frame sample_bus g"
proof -
  have s: "subs sample_bus (\<lambda>_. []) m = []" for m by (simp add: subs_def)
  have "unat (RouteIdxTop (SBR sample_bus)) < 256"
    by (simp add: CFE_SBR_Init_def CFE_SBR_Init_Map_def Let_def)
  then obtain g L where "sub_inv SBR_MAP_DIRECT g L" "sub_frame sample_bus g"
    "subs g L = (subs sample_bus (\<lambda>_. []))(0x1806 := [new_dest 0x160001 4 0])"
    using SubscribeFull_ok [of "sample_env 1000" sample_bus "\<lambda>_. []" "0x160001" 1 "0x1806" 0 32 1000
        CFE_SB_DEFAULT_QOS 4] sample_bus_inv s [of "0x1806"]
    by (auto simp: sample_bus_pipe IsValidMsgId_iff)
  then show ?thesis by (intro exI [of _ g] exI [of _ L]) simp
qed

text \<open>
  C6. Subscribing, seen on the abstract subscriptions.  For the owner of a live pipe, a
  valid message id and scope, room in the routing table and memory for the destination, the
  call ends; a pipe that is subscribed already stays so and is counted as a duplicate; a
  message id with 16 destinations is refused with \<open>CFE_SB_MAX_DESTS_MET\<close>; otherwise the new,
  active destination with the given limit comes first and no other subscription of any message
  id changes.  The invariant holds afterwards and pipes and buffers are untouched.
\<close>

theorem subscribe_correct:
  assumes inv: "sub_inv (MapCfg env) g L"
    and pipe: "CFE_SB_LocatePipeDescByID pid = Some i" "PipeId (pipe_at g i) = pid" "PipeAppId (pipe_at g i) = snd (GetAppID env)"
    and m: "CFE_SB_IsValidMsgId m" "sc \<le> 1" "m \<in> set (routes (SBR g)) \<or> unat (RouteIdxTop (SBR g)) < 256"
    and pool: "GetPoolBuf env (SizeofDest env) = (pst, a)" "0 \<le> sint pst" "Dests g a = None"
  shows "\<exists>g' L' st outs. CFE_SB_SubscribeFull env m pid Q lim sc g = Some (g', st, outs) \<and>
      sub_inv (MapCfg env) g' L' \<and> sub_frame g g' \<and>
      (if pid \<in> DestPipeId ` set (subs g L m)
       then st = CFE_SUCCESS \<and> subs g' L' = subs g L \<and>
            DuplicateSubscriptionsCounter (HKTlmMsg g') = DuplicateSubscriptionsCounter (HKTlmMsg g) + 1
       else if length (subs g L m) = 16
       then st = CFE_SB_MAX_DESTS_MET \<and> subs g' L' = subs g L \<and>
            SubscribeErrorCounter (HKTlmMsg g') = SubscribeErrorCounter (HKTlmMsg g) + 1
       else st = CFE_SUCCESS \<and> subs g' L' = (subs g L)(m := new_dest pid lim sc # subs g L m) \<and>
            HKTlmMsg g' = HKTlmMsg g)"
  by (rule SubscribeFull_ok) (fact assms)+

theorem subscribe_correct_witness:
  "\<exists>g' L' outs. CFE_SB_SubscribeFull (sample_env 1000) 0x1806 0x160001 CFE_SB_DEFAULT_QOS 4 0 sample_bus =
      Some (g', CFE_SUCCESS, outs) \<and> sub_inv SBR_MAP_DIRECT g' L' \<and>
      subs g' L' 0x1806 = [new_dest 0x160001 4 0]"
proof -
  have s: "subs sample_bus (\<lambda>_. []) m = []" for m by (simp add: subs_def)
  have "unat (RouteIdxTop (SBR sample_bus)) < 256"
    by (simp add: CFE_SBR_Init_def CFE_SBR_Init_Map_def Let_def)
  then obtain g' L' st outs where
    "CFE_SB_SubscribeFull (sample_env 1000) 0x1806 0x160001 CFE_SB_DEFAULT_QOS 4 0 sample_bus = Some (g', st, outs)"
    "sub_inv SBR_MAP_DIRECT g' L'" "st = CFE_SUCCESS"
    "subs g' L' = (subs sample_bus (\<lambda>_. []))(0x1806 := [new_dest 0x160001 4 0])"
    using subscribe_correct [of "sample_env 1000" sample_bus "\<lambda>_. []" "0x160001" 1 "0x1806" 0 32 1000
        CFE_SB_DEFAULT_QOS 4] sample_bus_inv s [of "0x1806"]
    by (auto simp: sample_bus_pipe IsValidMsgId_iff)
  then show ?thesis by auto
qed

text \<open>
  Every way subscribing fails leaves the subscriptions, pipes and buffers unchanged and
  counts one subscribe error: a pipe id that matches no pipe, a caller that does not own the
  pipe, an invalid message id or scope (all \<open>CFE_SB_BAD_ARGUMENT\<close>), a full routing table
  (\<open>CFE_SB_MAX_MSGS_MET\<close>) and a pool with no memory for a new destination
  (\<open>CFE_SB_BUF_ALOC_ERR\<close>).
\<close>

theorem subscribe_errors:
  assumes inv: "sub_inv (MapCfg env) g L"
    and err: "\<not> CFE_SB_PipeDescIsMatch g (CFE_SB_LocatePipeDescByID pid) pid \<and> st = CFE_SB_BAD_ARGUMENT \<or>
      CFE_SB_PipeDescIsMatch g (CFE_SB_LocatePipeDescByID pid) pid \<and>
      (PipeAppId (pipe_at g (the (CFE_SB_LocatePipeDescByID pid))) \<noteq> snd (GetAppID env) \<and> st = CFE_SB_BAD_ARGUMENT \<or>
       PipeAppId (pipe_at g (the (CFE_SB_LocatePipeDescByID pid))) = snd (GetAppID env) \<and>
       (\<not> CFE_SB_IsValidMsgId m \<and> st = CFE_SB_BAD_ARGUMENT \<or> sc > 1 \<and> st = CFE_SB_BAD_ARGUMENT \<or>
        CFE_SB_IsValidMsgId m \<and> sc \<le> 1 \<and>
        (m \<notin> set (routes (SBR g)) \<and> unat (RouteIdxTop (SBR g)) = 256 \<and> st = CFE_SB_MAX_MSGS_MET \<or>
         m \<in> set (routes (SBR g)) \<and> pid \<notin> DestPipeId ` set (subs g L m) \<and> length (subs g L m) < 16 \<and>
         sint (fst (GetPoolBuf env (SizeofDest env))) < 0 \<and> st = CFE_SB_BUF_ALOC_ERR)))"
  shows "\<exists>outs. CFE_SB_SubscribeFull env m pid Q lim sc g =
      Some (upd_hk (\<lambda>h. h\<lparr>SubscribeErrorCounter := SubscribeErrorCounter h + 1\<rparr>) g, st, outs)"
proof -
  note look = sub_inv_lookup [OF inv, of m]
  consider (arg) e where "subscribe_route env m pid sc g = Some (g, CFE_SB_BAD_ARGUMENT, e, 0, 0)"
      "e \<in> {CFE_SB_SUB_INV_PIPE_EID, CFE_SB_SUB_INV_CALLER_EID, CFE_SB_SUB_ARG_ERR_EID}" "st = CFE_SB_BAD_ARGUMENT"
    | (full) "subscribe_route env m pid sc g = Some (g, CFE_SB_MAX_MSGS_MET, CFE_SB_MAX_MSGS_MET_EID, 0, 0)"
      "st = CFE_SB_MAX_MSGS_MET"
    | (mem) "subscribe_route env m pid sc g = Some (g, CFE_SUCCESS, 0, route_of (routes (SBR g)) m, 0)"
      "m \<in> set (routes (SBR g))" "pid \<notin> DestPipeId ` set (subs g L m)" "length (subs g L m) < 16"
      "sint (fst (GetPoolBuf env (SizeofDest env))) < 0" "st = CFE_SB_BUF_ALOC_ERR"
    using err look sbr.add_full [of m "SBR g" "MapCfg env"]
    by (elim disjE conjE) (auto simp: subscribe_route_def Let_def not_less)
  then show ?thesis
  proof cases
    case arg
    then show ?thesis by (auto simp: CFE_SB_SubscribeFull_def subscribe_count_def Let_def)
  next
    case full
    then show ?thesis by (auto simp: CFE_SB_SubscribeFull_def subscribe_count_def Let_def)
  next
    case mem
    let ?r = "route_of (routes (SBR g)) m"
    have "\<not> (\<exists>d \<in> set (L ?r). DestPipeId (the (Dests g d)) = pid)"
      using mem(3) unfolding subs_def view_pipes dest_at_def by blast
    moreover have "length (L ?r) < 16" using mem(4) by (simp add: subs_def)
    ultimately have "scan_dests (Dests g) pid (CFE_SBR_GetDestListHeadPtr (SBR g) ?r) 0 = Some (NULL, 0, CFE_SUCCESS)"
      using scan_dests_spec [OF dest_listsD(2) [OF sub_invD(3) [OF inv], of ?r], of 0 pid] by auto
    with mem show ?thesis
      by (auto simp: CFE_SB_SubscribeFull_def subscribe_dest_def CFE_SB_GetDestinationBlk_def subscribe_count_def
          Let_def split: prod.splits)
  qed
qed

theorem subscribe_errors_witness:
  "\<exists>outs. CFE_SB_SubscribeFull (sample_env 1000) 0x1806 0x160002 CFE_SB_DEFAULT_QOS 4 0 sample_bus =
      Some (upd_hk (\<lambda>h. h\<lparr>SubscribeErrorCounter := SubscribeErrorCounter h + 1\<rparr>) sample_bus, CFE_SB_BAD_ARGUMENT, outs)"
proof -
  have "CFE_SB_LocatePipeDescByID 0x160002 = Some 2" by (simp add: Locate_eq)
  then show ?thesis
    using subscribe_errors [of "sample_env 1000" sample_bus "\<lambda>_. []" "0x160002" CFE_SB_BAD_ARGUMENT] sample_bus_inv
    by (simp add: CFE_SB_PipeDescIsMatch_def sample_bus_pipe zero_PipeD_def)
qed

section \<open>Unsubscribing\<close>

lemma find_none_view:
  "find (\<lambda>d. DestPipeId (dest_at g d) = pid) (L r) = None \<longleftrightarrow> pid \<notin> DestPipeId ` set (route_view g L r)"
  unfolding view_pipes by (auto simp: find_None_iff)

lemma sub_inv_drop:
  fixes env :: CFE_SB_Env
  assumes inv: "sub_inv cfg g L" and f: "find (\<lambda>d. DestPipeId (dest_at g d) = pid) (L r) = Some n"
  defines "g' \<equiv> CFE_SB_RemoveDest env r n g" and "L' \<equiv> L(r := remove1 n (L r))"
  shows "sub_inv cfg g' L'" and "dest_frame g g'"
    and "route_view g' L' = (route_view g L)(r := filter (\<lambda>d. DestPipeId d \<noteq> pid) (route_view g L r))"
proof -
  note dl = sub_invD(3) [OF inv]
  note n = RemoveDest_view(1) [OF dl f] RemoveDest_view(2) [OF dl f, of env]
  show fr: "dest_frame g g'" unfolding g'_def by (rule RemoveDest_frame)
  show v: "route_view g' L' = (route_view g L)(r := filter (\<lambda>d. DestPipeId d \<noteq> pid) (route_view g L r))"
    using n(2) drop_pipe_filter [OF sub_invD(6) [OF inv, of r]] by (simp add: g'_def L'_def)
  show "sub_inv cfg g' L'"
  proof (rule sub_inv_frame [OF inv fr])
    show "dest_lists g' L'" unfolding g'_def L'_def by (rule RemoveDest_lists [OF dl n(1)])
    fix r'
    show "L' r' \<noteq> [] \<Longrightarrow> unat r' \<le> unat (RouteIdxTop (SBR g))"
      using sub_invD(4) [OF inv, of r'] n(1) by (cases "r' = r"; cases "L r") (auto simp: L'_def)
    show "length (L' r') \<le> 16"
      using sub_invD(5) [OF inv, of r'] by (auto simp: L'_def length_remove1)
    show "distinct (map DestPipeId (route_view g' L' r'))"
      using sub_invD(6) [OF inv, of r'] by (auto simp: v distinct_map_filter)
    fix d assume "d \<in> set (route_view g' L' r')"
    then have "d \<in> set (route_view g L r')" by (auto simp: v split: if_splits)
    then show "\<exists>i < 64. live g i \<and> PipeId (pipe_at g i) = DestPipeId d" by (rule sub_invD(7) [OF inv])
  qed
qed

text \<open>
  C7. Unsubscribing, for the owner of a live pipe and valid arguments: the call ends with
  \<open>CFE_SUCCESS\<close>, the pipe is not a destination of the message id afterwards, its other
  destinations stay in order and no other message id is affected; a pipe that was not
  subscribed leaves the state as it was.
\<close>

theorem unsubscribe_correct:
  assumes inv: "sub_inv (MapCfg env) g L"
    and pipe: "CFE_SB_LocatePipeDescByID pid = Some i" "PipeId (pipe_at g i) = pid" "PipeAppId (pipe_at g i) = app"
    and m: "CFE_SB_IsValidMsgId m" "sc \<le> 1"
  shows "\<exists>g' L' outs. CFE_SB_UnsubscribeFull env m pid sc app g = Some (g', CFE_SUCCESS, outs) \<and>
      sub_inv (MapCfg env) g' L' \<and> sub_frame g g' \<and>
      subs g' L' = (subs g L)(m := filter (\<lambda>d. DestPipeId d \<noteq> pid) (subs g L m)) \<and>
      (pid \<notin> DestPipeId ` set (subs g L m) \<longrightarrow> g' = g)"
proof -
  let ?r = "route_of (routes (SBR g)) m"
  note look = sub_inv_lookup [OF inv, of m] and dl = sub_invD(3) [OF inv]
  show ?thesis
  proof (cases "pid \<in> DestPipeId ` set (subs g L m)")
    case True
    then obtain n where n: "find (\<lambda>d. DestPipeId (dest_at g d) = pid) (L ?r) = Some n"
      using find_none_view [of g pid L ?r] by (auto simp: subs_def)
    have mr: "m \<in> set (routes (SBR g))" using True subs_unrouted [OF dl, of m] by (cases "subs g L m") auto
    note d = sub_inv_drop [OF inv n, of env]
    let ?g = "CFE_SB_RemoveDest env ?r n g" and ?L = "L(?r := remove1 n (L ?r))"
    have "CFE_SB_UnsubscribeFull env m pid sc app g =
        Some (?g, CFE_SUCCESS, [Event CFE_SB_SUBSCRIPTION_REMOVED_EID EVS_DEBUG])"
      using pipe m look mr GetDestPtr_find [OF dl, of ?r pid] n
      by (simp add: CFE_SB_UnsubscribeFull_def CFE_SB_PipeDescIsMatch_def Let_def not_less)
    moreover have "subs ?g ?L = (subs g L)(m := filter (\<lambda>d. DestPipeId d \<noteq> pid) (subs g L m))"
      using d by (intro subs_update [OF inv mr]) (auto simp: subs_def dest_frame_def same_routes_routes sub_inv_def)
    ultimately show ?thesis using True d dest_frame_sub_frame [OF d(2)] by blast
  next
    case False
    then have "find (\<lambda>d. DestPipeId (dest_at g d) = pid) (L ?r) = None"
      using find_none_view [of g pid L ?r] by (simp add: subs_def)
    then have "\<exists>outs. CFE_SB_UnsubscribeFull env m pid sc app g = Some (g, CFE_SUCCESS, outs)"
      using pipe m look GetDestPtr_find [OF dl, of ?r pid]
      by (auto simp: CFE_SB_UnsubscribeFull_def CFE_SB_PipeDescIsMatch_def Let_def not_less)
    moreover have "filter (\<lambda>d. DestPipeId d \<noteq> pid) (subs g L m) = subs g L m"
      using False by (auto intro!: filter_True)
    ultimately show ?thesis using inv False by (auto simp: sub_frame_def)
  qed
qed

theorem unsubscribe_correct_witness:
  "\<exists>g' L' outs. CFE_SB_UnsubscribeFull (sample_env 1000) 0x1806 0x160001 0 0x110001 sample_bus = Some (g', CFE_SUCCESS, outs) \<and>
     subs g' L' 0x1806 = [] \<and> g' = sample_bus"
proof -
  have "subs sample_bus (\<lambda>_. []) m = []" for m by (simp add: subs_def)
  then show ?thesis
    using unsubscribe_correct [of "sample_env 1000" sample_bus "\<lambda>_. []" "0x160001" 1 "0x110001" "0x1806" 0] sample_bus_inv
    by (auto simp: sample_bus_pipe IsValidMsgId_iff)
qed

section \<open>Deleting a pipe\<close>

lemma RemovePipe_step:
  assumes inv: "sub_inv cfg g L"
  shows "\<exists>g' L'. CFE_SB_RemovePipeFromRoute env pid r (Some g) = Some g' \<and> sub_inv cfg g' L' \<and> dest_frame g g' \<and>
      route_view g' L' = (route_view g L)(r := filter (\<lambda>d. DestPipeId d \<noteq> pid) (route_view g L r))"
proof (cases "find (\<lambda>d. DestPipeId (dest_at g d) = pid) (L r)")
  case None
  then have "filter (\<lambda>d. DestPipeId d \<noteq> pid) (route_view g L r) = route_view g L r"
    unfolding find_none_view by (auto intro!: filter_True)
  with None inv show ?thesis
    by (intro exI [of _ g] exI [of _ L])
       (simp add: CFE_SB_RemovePipeFromRoute_def GetDestPtr_find [OF sub_invD(3) [OF inv]])
next
  case (Some n)
  then show ?thesis
    using sub_inv_drop [OF inv Some, of env]
    by (intro exI [of _ "CFE_SB_RemoveDest env r n g"] exI [of _ "L(r := remove1 n (L r))"])
       (simp add: CFE_SB_RemovePipeFromRoute_def GetDestPtr_find [OF sub_invD(3) [OF inv]])
qed

lemma RemovePipe_fold:
  "sub_inv cfg g L \<Longrightarrow>
     \<exists>g' L'. fold (CFE_SB_RemovePipeFromRoute env pid) rs (Some g) = Some g' \<and> sub_inv cfg g' L' \<and> dest_frame g g' \<and>
       (\<forall>r. route_view g' L' r =
          (if r \<in> set rs then filter (\<lambda>d. DestPipeId d \<noteq> pid) (route_view g L r) else route_view g L r))"
proof (induction rs arbitrary: g L)
  case (Cons x rs)
  obtain g1 L1 where 1: "CFE_SB_RemovePipeFromRoute env pid x (Some g) = Some g1" "sub_inv cfg g1 L1" "dest_frame g g1"
    "route_view g1 L1 = (route_view g L)(x := filter (\<lambda>d. DestPipeId d \<noteq> pid) (route_view g L x))"
    using RemovePipe_step [OF Cons.prems] by blast
  obtain g2 L2 where 2: "fold (CFE_SB_RemovePipeFromRoute env pid) rs (Some g1) = Some g2" "sub_inv cfg g2 L2" "dest_frame g1 g2"
    "\<forall>r. route_view g2 L2 r =
       (if r \<in> set rs then filter (\<lambda>d. DestPipeId d \<noteq> pid) (route_view g1 L1 r) else route_view g1 L1 r)"
    using Cons.IH [OF 1(2)] by blast
  have "route_view g2 L2 r =
      (if r \<in> set (x # rs) then filter (\<lambda>d. DestPipeId d \<noteq> pid) (route_view g L r) else route_view g L r)" for r
    using 2(4) 1(4) by (simp add: filter_filter)
  then show ?case using 1(1) 2(1,2) dest_frame_trans [OF 1(3) 2(3)] by auto
qed (auto intro: exI)

text \<open>The walk over the routes reaches every route with a destination.\<close>

lemma foreach_all_routes:
  assumes inv: "sub_inv cfg g L" and r: "L r \<noteq> []"
  shows "r \<in> set (map (\<lambda>i. CFE_SBR_ValueToRouteId (of_nat i)) [0..<unat (RouteIdxTop (SBR g))])"
proof -
  have "0 < unat r" "unat r \<le> unat (RouteIdxTop (SBR g))"
    using dest_lists_valid [OF sub_invD(3) [OF inv], of "hd (L r)" r] sub_invD(4) [OF inv r] r
    by (auto simp: IsValidRouteId_nat)
  moreover from this have "r = CFE_SBR_ValueToRouteId (of_nat (unat r - 1))"
    by (simp add: CFE_SBR_ValueToRouteId_def of_nat_diff)
  ultimately show ?thesis by (auto intro!: image_eqI [of r _ "unat r - 1"])
qed

lemma delete_begin_ok:
  assumes inv: "sub_inv (MapCfg env) g L"
    and pipe: "CFE_SB_LocatePipeDescByID pid = Some i" "PipeId (pipe_at g i) = pid" "PipeAppId (pipe_at g i) = app"
  shows "\<exists>g' L'. delete_begin env pid app g =
      Some (g', CFE_SUCCESS, 0, SysQueueId (pipe_at g i), LastBuffer (pipe_at g i)) \<and>
    sub_inv (MapCfg env) g' L' \<and> (\<forall>m. subs g' L' m = filter (\<lambda>d. DestPipeId d \<noteq> pid) (subs g L m)) \<and>
    (\<forall>j. pipe_at g' j = (if j = i then (pipe_at g i)\<lparr>PipeId := CFE_RESOURCEID_RESERVED\<rparr> else pipe_at g j)) \<and>
    Bufs g' = Bufs g \<and> Links g' = Links g \<and> HKTlmMsg g' = HKTlmMsg g \<and>
    SBBuffersInUse (StatTlmMsg g') = SBBuffersInUse (StatTlmMsg g) \<and> PipesInUse (StatTlmMsg g') = PipesInUse (StatTlmMsg g)"
proof -
  define rs where "rs = map (\<lambda>i. CFE_SBR_ValueToRouteId (of_nat i)) [0..<unat (RouteIdxTop (SBR g))]"
  obtain g1 L1 where 1: "fold (CFE_SB_RemovePipeFromRoute env pid) rs (Some g) = Some g1" "sub_inv (MapCfg env) g1 L1"
    "dest_frame g g1" and v: "\<And>r. route_view g1 L1 r =
      (if r \<in> set rs then filter (\<lambda>d. DestPipeId d \<noteq> pid) (route_view g L r) else route_view g L r)"
    using RemovePipe_fold [OF inv] by metis
  have v': "route_view g1 L1 r = filter (\<lambda>d. DestPipeId d \<noteq> pid) (route_view g L r)" for r
    using foreach_all_routes [OF inv, of r] v [of r] by (cases "L r") (auto simp: rs_def)
  have each: "fst (CFE_SBR_ForEachRouteId (SBR g) (CFE_SB_RemovePipeFromRoute env pid) (Some g) NULL) = Some g1"
    using 1(1) by (simp add: CFE_SBR_ForEachRouteId_def for_routes_def rs_def fold_map comp_def)
  let ?g = "CFE_SB_PipeDescSetUsed i CFE_RESOURCEID_RESERVED g1"
  note fp = sub_frame_pipes [OF dest_frame_sub_frame [OF 1(3)]]
  have i: "i < 64" by (rule Locate_lt [OF pipe(1)])
  have at: "pipe_at ?g j = (if j = i then (pipe_at g i)\<lparr>PipeId := CFE_RESOURCEID_RESERVED\<rparr> else pipe_at g j)" for j
    using pipe_inv_length [OF sub_invD(2) [OF 1(2)] i] fp by (simp add: CFE_SB_PipeDescSetUsed_def)
  have call: "delete_begin env pid app g =
      Some (?g, CFE_SUCCESS, 0, SysQueueId (pipe_at g i), LastBuffer (pipe_at g i))"
    using pipe each fp by (simp add: delete_begin_def CFE_SB_PipeDescIsMatch_def Let_def)
  have view: "route_view ?g L1 = route_view g1 L1"
    by (simp add: route_view_def fun_eq_iff dest_at_def CFE_SB_PipeDescSetUsed_def)
  have pv: "pipe_inv ?g" by (rule pipe_inv_set_id [OF sub_invD(2) [OF 1(2)]]) simp
  have "\<exists>j < 64. live ?g j \<and> PipeId (pipe_at ?g j) = DestPipeId d" if "d \<in> set (route_view ?g L1 r)" for r d
  proof -
    have d: "DestPipeId d \<noteq> pid" "d \<in> set (route_view g1 L1 r)" using that v' by (auto simp: view)
    then obtain j where "j < 64" "live g1 j" "PipeId (pipe_at g1 j) = DestPipeId d"
      using sub_invD(7) [OF 1(2)] by blast
    with d(1) pipe(2) fp show ?thesis by (intro exI [of _ j]) (auto simp: live_def at)
  qed
  then have inv': "sub_inv (MapCfg env) ?g L1"
    using 1(2) pv view unfolding sub_inv_def by (simp add: CFE_SB_PipeDescSetUsed_def dest_lists_def)
  have "routes (SBR ?g) = routes (SBR g)"
    using 1(3) by (simp add: CFE_SB_PipeDescSetUsed_def dest_frame_def same_routes_routes)
  then have "subs ?g L1 m = filter (\<lambda>d. DestPipeId d \<noteq> pid) (subs g L m)" for m
    by (simp add: subs_def view v')
  then show ?thesis
    using call inv' at 1(3) by (intro exI [of _ ?g] exI [of _ L1]) (auto simp: CFE_SB_PipeDescSetUsed_def dest_frame_def)
qed

lemma drain_other:
  "PipeTbl (delete_drain b bs g) = PipeTbl g \<and> Dests (delete_drain b bs g) = Dests g \<and>
   SBR (delete_drain b bs g) = SBR g \<and> LastPipeId (delete_drain b bs g) = LastPipeId g \<and>
   HKTlmMsg (delete_drain b bs g) = HKTlmMsg g \<and> PipesInUse (StatTlmMsg (delete_drain b bs g)) = PipesInUse (StatTlmMsg g)"
proof -
  have pd: "PipesInUse (StatTlmMsg (CFE_SB_DecrBufUseCnt b g)) = PipesInUse (StatTlmMsg g)" for b g
    by (simp add: CFE_SB_DecrBufUseCnt_def CFE_SB_ReturnBufferToPool_def Let_def)
  have "PipeTbl (fold CFE_SB_DecrBufUseCnt bs g) = PipeTbl g \<and> Dests (fold CFE_SB_DecrBufUseCnt bs g) = Dests g \<and>
     SBR (fold CFE_SB_DecrBufUseCnt bs g) = SBR g \<and> LastPipeId (fold CFE_SB_DecrBufUseCnt bs g) = LastPipeId g \<and>
     HKTlmMsg (fold CFE_SB_DecrBufUseCnt bs g) = HKTlmMsg g \<and>
     PipesInUse (StatTlmMsg (fold CFE_SB_DecrBufUseCnt bs g)) = PipesInUse (StatTlmMsg g)" for g
    by (induction bs arbitrary: g) (simp_all add: pd)
  then show ?thesis by (cases b) (simp_all add: delete_drain_def pd)
qed

text \<open>
  C8. Deleting a pipe by its owner: the call ends and succeeds whatever messages are drained
  from its queue, its table entry is free afterwards and every other entry unchanged, the
  pipe count is one lower, no message id has the pipe as a destination, all other
  destinations stay in order, and the invariant holds.
\<close>

theorem delete_pipe_correct:
  assumes inv: "sub_inv (MapCfg env) g L"
    and pipe: "CFE_SB_LocatePipeDescByID pid = Some i" "PipeId (pipe_at g i) = pid" "PipeAppId (pipe_at g i) = app"
  shows "\<exists>g' L'. CFE_SB_DeletePipeFull env drain pid app g =
      Some (g', CFE_SUCCESS, [Event CFE_SB_PIPE_DELETED_EID EVS_DEBUG]) \<and>
    sub_inv (MapCfg env) g' L' \<and> (\<forall>m. subs g' L' m = filter (\<lambda>d. DestPipeId d \<noteq> pid) (subs g L m)) \<and>
    PipeId (pipe_at g' i) = CFE_SB_INVALID_PIPE \<and> (\<forall>j. j \<noteq> i \<longrightarrow> pipe_at g' j = pipe_at g j) \<and>
    PipesInUse (StatTlmMsg g') = PipesInUse (StatTlmMsg g) - 1"
proof -
  obtain g1 L1 where b: "delete_begin env pid app g =
      Some (g1, CFE_SUCCESS, 0, SysQueueId (pipe_at g i), LastBuffer (pipe_at g i))"
    and inv1: "sub_inv (MapCfg env) g1 L1" and s1: "\<And>m. subs g1 L1 m = filter (\<lambda>d. DestPipeId d \<noteq> pid) (subs g L m)"
    and at1: "\<And>j. pipe_at g1 j = (if j = i then (pipe_at g i)\<lparr>PipeId := CFE_RESOURCEID_RESERVED\<rparr> else pipe_at g j)"
    and pu: "PipesInUse (StatTlmMsg g1) = PipesInUse (StatTlmMsg g)"
    using delete_begin_ok [OF inv pipe] by metis
  define g2 where "g2 = delete_drain (LastBuffer (pipe_at g i)) (drain (SysQueueId (pipe_at g i))) g1"
  have f2: "PipeTbl g2 = PipeTbl g1" "Dests g2 = Dests g1" "SBR g2 = SBR g1" "LastPipeId g2 = LastPipeId g1"
    "PipesInUse (StatTlmMsg g2) = PipesInUse (StatTlmMsg g1)"
    unfolding g2_def using drain_other by blast+
  define g3 where "g3 = delete_finish pid CFE_SUCCESS 0 g2"
  have call: "CFE_SB_DeletePipeFull env drain pid app g =
      Some (g3, CFE_SUCCESS, [Event CFE_SB_PIPE_DELETED_EID EVS_DEBUG])"
    using b by (simp add: CFE_SB_DeletePipeFull_def Let_def g2_def g3_def)
  have i: "i < 64" by (rule Locate_lt [OF pipe(1)])
  have pi2: "pipe_inv g2" using sub_invD(2) [OF inv1] pipe_inv_cong [OF f2(1,4)] by simp
  have at3: "pipe_at g3 j = (if j = i then (pipe_at g1 i)\<lparr>PipeId := 0\<rparr> else pipe_at g j)" for j
    using pipe_inv_length [OF pi2 i] pipe(1) f2(1) at1
    by (simp add: g3_def delete_finish_def CFE_SB_PipeDescSetFree_def) (simp add: pipe_at_def)
  have other3: "Dests g3 = Dests g1" "SBR g3 = SBR g1"
    by (simp_all add: g3_def delete_finish_def CFE_SB_PipeDescSetFree_def f2)
  have "pipe_inv (CFE_SB_PipeDescSetUsed i 0 g2)" by (rule pipe_inv_set_id [OF pi2]) simp
  moreover have "PipeTbl g3 = PipeTbl (CFE_SB_PipeDescSetUsed i 0 g2)" "LastPipeId g3 = LastPipeId (CFE_SB_PipeDescSetUsed i 0 g2)"
    using pipe(1) by (simp_all add: g3_def delete_finish_def CFE_SB_PipeDescSetFree_def CFE_SB_PipeDescSetUsed_def)
  ultimately have "pipe_inv g3" using pipe_inv_cong by blast
  moreover have "live g3 j = live g1 j \<and> (live g1 j \<longrightarrow> pipe_at g3 j = pipe_at g1 j)" for j
    using at1 at3 by (simp add: live_def)
  moreover have "route_view g3 = route_view g1" using other3 by (simp add: route_view_def fun_eq_iff dest_at_def)
  ultimately have inv3: "sub_inv (MapCfg env) g3 L1"
    using inv1 unfolding sub_inv_def dest_lists_def other3 by metis
  have "subs g3 L1 m = subs g1 L1 m" for m
    by (simp add: subs_def route_view_def other3 dest_at_def)
  then show ?thesis
    using call inv3 s1 at3 at1 f2 pu
    by (intro exI [of _ g3] exI [of _ L1]) (simp add: g3_def delete_finish_def CFE_SB_PipeDescSetFree_def)
qed

theorem delete_pipe_correct_witness:
  "\<exists>g' L'. CFE_SB_DeletePipeFull (sample_env 1000) (\<lambda>_. []) 0x160001 0x110001 sample_bus =
      Some (g', CFE_SUCCESS, [Event CFE_SB_PIPE_DELETED_EID EVS_DEBUG]) \<and>
    sub_inv SBR_MAP_DIRECT g' L' \<and> PipeId (pipe_at g' 1) = CFE_SB_INVALID_PIPE"
  using delete_pipe_correct [of "sample_env 1000" sample_bus "\<lambda>_. []" "0x160001" 1 "0x110001" "\<lambda>_. []"] sample_bus_inv
  by (auto simp: sample_bus_pipe)

end
