(* ===== verification/CFE_SB_Send.thy ===== *)
theory CFE_SB_Send
  imports CFE_SB_Sub
begin

unbundle bit_operations_syntax

text \<open>
  Sending a message (\<^verbatim>\<open>cfe_sb_api.c\<close>): validation, the copy into a buffer, and the broadcast of
  the buffer to all destinations of its route.

  The result of a send includes the list of successful queue writes (queue, buffer), in order.
  The event buffer of the C code has 16 entries; here it is a list, and its length is shown to
  stay within the bound.
\<close>

section \<open>Validation\<close>

text \<open>
  The output cells of the caller are given and returned: each is written only when the checks
  before it pass.
\<close>

definition CFE_SB_TransmitMsgValidate ::
  "CFE_SB_Env \<Rightarrow> message ptr \<Rightarrow> CFE_SB_MsgId \<Rightarrow> nat \<Rightarrow> CFE_SBR_RouteId \<Rightarrow> CFE_SB_Global \<Rightarrow>
     (CFE_SB_Global \<times> int32 \<times> CFE_SB_MsgId \<times> nat \<times> CFE_SBR_RouteId \<times> CFE_SB_Output list) option" where
  "CFE_SB_TransmitMsgValidate env MsgPtr MsgId Size RouteId g =
     (if MsgPtr = NULL
      then Some (g, CFE_SB_BAD_ARGUMENT, MsgId, Size, RouteId, [Event CFE_SB_SEND_BAD_ARG_EID EVS_ERROR])
      else let MsgId = the (snd (CFE_MSG_GetMsgId (MsgCfg env) MsgPtr (Some MsgId)))
           in if \<not> CFE_SB_IsValidMsgId MsgId
              then Some (g, CFE_SB_BAD_ARGUMENT, MsgId, Size, RouteId, [Event CFE_SB_SEND_INV_MSGID_EID EVS_ERROR])
              else let Size = the (snd (CFE_MSG_GetSize MsgPtr (Some Size)))
                   in if Size > CFE_MISSION_SB_MAX_SB_MSG_SIZE
                      then Some (g, CFE_SB_MSG_TOO_BIG, MsgId, Size, RouteId, [Event CFE_SB_MSG_TOO_BIG_EID EVS_ERROR])
                      else do {
                        RouteId \<leftarrow> CFE_SBR_GetRouteId (MapCfg env) (SBR g) MsgId;
                        if CFE_SBR_IsValidRouteId RouteId then Some (g, CFE_SUCCESS, MsgId, Size, RouteId, [])
                        else
                          let g = upd_hk (\<lambda>h. h\<lparr>NoSubscribersCounter := NoSubscribersCounter h + 1\<rparr>) g;
                              (g, outs) = guarded_event (TaskIndex env) 0
                                            [Event CFE_SB_SEND_NO_SUBS_EID EVS_INFORMATION] g
                          in Some (g, CFE_SUCCESS, MsgId, Size, RouteId, outs)
                      })"

section \<open>Broadcast\<close>

record CFE_SB_SendErrEventBuf =
  EventId :: nat
  ErrPipeId :: CFE_SB_PipeId
  ErrStat :: int32

type_synonym broadcast_state = "CFE_SB_Global \<times> CFE_SB_SendErrEventBuf list \<times> (osal_id \<times> nat) list"

text \<open>One destination: the body of the loop.\<close>

definition broadcast_dest :: "CFE_SB_Env \<Rightarrow> nat \<Rightarrow> nat \<Rightarrow> broadcast_state \<Rightarrow> broadcast_state" where
  "broadcast_dest env BufDscPtr DestPtr st =
     (case st of (g, errs, puts) \<Rightarrow>
       let d = dest_at g DestPtr;
           pid = DestPipeId d;
           PipeDscPtr = (if Active d = CFE_SB_ACTIVE then CFE_SB_LocatePipeDescByID pid else NULL);
           i = the PipeDscPtr
       in if \<not> CFE_SB_PipeDescIsMatch g PipeDscPtr pid then st
          else if Opts (pipe_at g i) AND CFE_SB_PIPEOPTS_IGNOREMINE \<noteq> 0 \<and> PipeAppId (pipe_at g i) = snd (GetAppID env)
          then st
          else if BuffCount d \<ge> MsgId2PipeLim d
          then (upd_pipe i (\<lambda>p. p\<lparr>SendErrors := SendErrors p + 1\<rparr>)
                  (upd_hk (\<lambda>h. h\<lparr>MsgLimitErrorCounter := MsgLimitErrorCounter h + 1\<rparr>) g),
                errs @ [\<lparr>EventId = CFE_SB_MSGID_LIM_ERR_EID, ErrPipeId = pid, ErrStat = 0\<rparr>], puts)
          else let q = SysQueueId (pipe_at g i);
                   Status = QueuePut env q
               in if Status = OS_SUCCESS
                  then let g = CFE_SB_IncrBufUseCnt BufDscPtr g;
                           g = upd_dest DestPtr (\<lambda>d. d\<lparr>BuffCount := BuffCount d + 1, DestCnt := DestCnt d + 1\<rparr>) g;
                           g = upd_pipe i (\<lambda>p. p\<lparr>CurrentQueueDepth := CurrentQueueDepth p + 1\<rparr>) g;
                           g = (if CurrentQueueDepth (pipe_at g i) \<ge> PeakQueueDepth (pipe_at g i)
                                then upd_pipe i (\<lambda>p. p\<lparr>PeakQueueDepth := CurrentQueueDepth p\<rparr>) g else g)
                       in (g, errs, puts @ [(q, BufDscPtr)])
                  else if Status = OS_QUEUE_FULL
                  then (upd_pipe i (\<lambda>p. p\<lparr>SendErrors := SendErrors p + 1\<rparr>)
                          (upd_hk (\<lambda>h. h\<lparr>PipeOverflowErrorCounter := PipeOverflowErrorCounter h + 1\<rparr>) g),
                        errs @ [\<lparr>EventId = CFE_SB_Q_FULL_ERR_EID, ErrPipeId = pid, ErrStat = 0\<rparr>], puts)
                  else (upd_pipe i (\<lambda>p. p\<lparr>SendErrors := SendErrors p + 1\<rparr>)
                          (upd_hk (\<lambda>h. h\<lparr>InternalErrorCounter := InternalErrorCounter h + 1\<rparr>) g),
                        errs @ [\<lparr>EventId = CFE_SB_Q_WR_ERR_EID, ErrPipeId = pid, ErrStat = Status\<rparr>], puts))"

partial_function (option) broadcast_loop ::
  "CFE_SB_Env \<Rightarrow> nat \<Rightarrow> nat ptr \<Rightarrow> broadcast_state \<Rightarrow> broadcast_state option" where
  "broadcast_loop env b DestPtr st =
     (case DestPtr of
        None \<Rightarrow> Some st
      | Some d \<Rightarrow>
          (let st = broadcast_dest env b d st
           in broadcast_loop env b (DestNext (dest_at (fst st) d)) st))"

text \<open>The sequence count, for telemetry that asks for it.\<close>

definition broadcast_sequence :: "nat \<Rightarrow> CFE_SBR_RouteId \<Rightarrow> CFE_SB_Global \<Rightarrow> CFE_SB_Global" where
  "broadcast_sequence b RouteId g =
     (if AutoSequence (buf_at g b) \<and> ContentType (buf_at g b) = CFE_MSG_Type_Tlm
      then let g = g\<lparr>SBR := CFE_SBR_IncrementSequenceCounter (SBR g) RouteId\<rparr>
           in upd_buf b (\<lambda>d. d\<lparr>Content := the (snd (CFE_MSG_SetSequenceCount (Some (Content d))
                                  (CFE_SBR_GetSequenceCounter (SBR g) RouteId)))\<rparr>) g
      else g)"

text \<open>The end of the locked section: the buffer is tracked as in transit and released.\<close>

definition broadcast_release :: "nat \<Rightarrow> CFE_SB_Global \<Rightarrow> CFE_SB_Global" where
  "broadcast_release b g =
     (let g = g\<lparr>Links := CFE_SB_TrackingListRemove (BufLink b) (Links g)\<rparr>;
          g = upd_buf b (\<lambda>d. d\<lparr>BufAppId := CFE_ES_APPID_UNDEFINED\<rparr>) g;
          g = g\<lparr>Links := CFE_SB_TrackingListAdd InTransitList (BufLink b) (Links g)\<rparr>
      in CFE_SB_DecrBufUseCnt b g)"

text \<open>The locked section: the global data after it, the errors to report and what was written to queues.\<close>

definition broadcast_locked ::
  "CFE_SB_Env \<Rightarrow> nat \<Rightarrow> CFE_SBR_RouteId \<Rightarrow> CFE_SB_Global \<Rightarrow> broadcast_state option" where
  "broadcast_locked env BufDscPtr RouteId g = do {
     (g, errs, puts) \<leftarrow>
       (if CFE_SBR_IsValidRouteId RouteId
        then let g = broadcast_sequence BufDscPtr RouteId g
             in broadcast_loop env BufDscPtr (CFE_SBR_GetDestListHeadPtr (SBR g) RouteId) (g, [], [])
        else Some (g, [], []));
     let g = (if errs \<noteq> [] then upd_hk (\<lambda>h. h\<lparr>MsgSendErrorCounter := MsgSendErrorCounter h + 1\<rparr>) g else g);
     Some (broadcast_release BufDscPtr g, errs, puts)
   }"

text \<open>
  The events, after the lock is released.  The message id is read from the buffer descriptor
  at that point.
\<close>

definition send_err_event ::
  "CFE_SB_Env \<Rightarrow> nat \<Rightarrow> CFE_SB_SendErrEventBuf \<Rightarrow> CFE_SB_Global \<times> CFE_SB_Output list \<Rightarrow> CFE_SB_Global \<times> CFE_SB_Output list" where
  "send_err_event env b e go =
     (case go of (g, outs) \<Rightarrow>
       let Bit = (if EventId e = CFE_SB_MSGID_LIM_ERR_EID then 2 else if EventId e = CFE_SB_Q_FULL_ERR_EID then 3 else 4);
           (g, evs) = guarded_event (TaskIndex env) Bit
                        (snd (snd (CFE_SB_GetPipeName env (Some []) OS_MAX_API_NAME (ErrPipeId e) g)) @
                         [SendErrEvent (EventId e) (map_option BufMsgId (Bufs g b))]) g
       in (g, outs @ evs))"

text \<open>
  The whole call of a task that is not interrupted.  In the system with all its tasks the locked section and each of
  the events are steps of their own.
\<close>

definition CFE_SB_BroadcastBufferToRoute ::
  "CFE_SB_Env \<Rightarrow> nat \<Rightarrow> CFE_SBR_RouteId \<Rightarrow> CFE_SB_Global \<Rightarrow>
     (CFE_SB_Global \<times> CFE_SB_Output list \<times> (osal_id \<times> nat) list) option" where
  "CFE_SB_BroadcastBufferToRoute env BufDscPtr RouteId g = do {
     (g, errs, puts) \<leftarrow> broadcast_locked env BufDscPtr RouteId g;
     let (g, outs) = fold (send_err_event env BufDscPtr) errs (g, []);
     Some (g, outs, puts)
   }"

section \<open>Sending\<close>

text \<open>The second locked section of a send: a buffer, if there is a route, and the error count.\<close>

definition transmit_get_buffer ::
  "CFE_SB_Env \<Rightarrow> int32 \<Rightarrow> nat \<Rightarrow> CFE_SBR_RouteId \<Rightarrow> CFE_SB_Global \<Rightarrow> CFE_SB_Global \<times> int32 \<times> nat ptr" where
  "transmit_get_buffer env Status Size RouteId g =
     (let (g, Status, BufDscPtr) =
            (if Status = CFE_SUCCESS \<and> CFE_SBR_IsValidRouteId RouteId
             then (case CFE_SB_GetBufferFromPool env Size g of
                     (g, None) \<Rightarrow> (g, CFE_SB_BUF_ALOC_ERR, NULL)
                   | (g, Some b) \<Rightarrow> (g, CFE_SUCCESS, Some b))
             else (g, Status, NULL));
          g = (if Status \<noteq> CFE_SUCCESS
               then upd_hk (\<lambda>h. h\<lparr>MsgSendErrorCounter := MsgSendErrorCounter h + 1\<rparr>) g else g)
      in (g, Status, BufDscPtr))"

text \<open>The copy of the message into the buffer, which only this task can see yet.\<close>

definition transmit_fill ::
  "nat \<Rightarrow> message \<Rightarrow> CFE_SB_MsgId \<Rightarrow> nat \<Rightarrow> bool \<Rightarrow> CFE_SB_Global \<Rightarrow> CFE_SB_Global" where
  "transmit_fill b m MsgId Size Incr g =
     upd_buf b (\<lambda>d. d\<lparr>Content := take Size m @ drop Size (Content d), BufMsgId := MsgId, ContentSize := Size,
       AutoSequence := Incr, ContentType := the (snd (CFE_MSG_GetType (Some m) (Some (ContentType d))))\<rparr>) g"

definition CFE_SB_TransmitMsg ::
  "CFE_SB_Env \<Rightarrow> message ptr \<Rightarrow> bool \<Rightarrow> CFE_SB_Global \<Rightarrow>
     (CFE_SB_Global \<times> int32 \<times> CFE_SB_Output list \<times> (osal_id \<times> nat) list) option" where
  "CFE_SB_TransmitMsg env MsgPtr IncrementSequenceCount g = do {
     (g, Status, MsgId, Size, RouteId, outs) \<leftarrow>
       CFE_SB_TransmitMsgValidate env MsgPtr CFE_SB_INVALID_MSG_ID 0 CFE_SBR_INVALID_ROUTE_ID g;
     let (g, Status', BufDscPtr) = transmit_get_buffer env Status Size RouteId g;
     (g, outs', puts) \<leftarrow>
       (case BufDscPtr of
          None \<Rightarrow> Some (g, [], [])
        | Some b \<Rightarrow> CFE_SB_BroadcastBufferToRoute env b RouteId
                     (transmit_fill b (the MsgPtr) MsgId Size IncrementSequenceCount g));
     let (g, outs'') = (if Status = CFE_SUCCESS \<and> Status' \<noteq> CFE_SUCCESS
                        then guarded_event (TaskIndex env) 1 [Event CFE_SB_GET_BUF_ERR_EID EVS_ERROR] g else (g, []));
     Some (g, Status', outs @ outs' @ outs'', puts)
   }"

definition CFE_SB_SendMsg ::
  "CFE_SB_Env \<Rightarrow> message ptr \<Rightarrow> CFE_SB_Global \<Rightarrow>
     (CFE_SB_Global \<times> int32 \<times> CFE_SB_Output list \<times> (osal_id \<times> nat) list) option" where
  "CFE_SB_SendMsg env MsgPtr g = CFE_SB_TransmitMsg env MsgPtr True g"

definition CFE_SB_PassMsg ::
  "CFE_SB_Env \<Rightarrow> message ptr \<Rightarrow> CFE_SB_Global \<Rightarrow>
     (CFE_SB_Global \<times> int32 \<times> CFE_SB_Output list \<times> (osal_id \<times> nat) list) option" where
  "CFE_SB_PassMsg env MsgPtr g = CFE_SB_TransmitMsg env MsgPtr False g"

section \<open>What happens to one destination\<close>

text \<open>
  The abstract view: a destination is passed over, refused for its message limit, given the
  buffer, or refused by its queue.  The choice depends on the destination and on the fields of
  its pipe that sending does not change.
\<close>

datatype send_action = Passed | Over_limit | Deliver osal_id | Queue_full | Write_error int32

definition send_action :: "CFE_SB_Env \<Rightarrow> CFE_SB_Global \<Rightarrow> CFE_SB_DestinationD \<Rightarrow> send_action" where
  "send_action env g d =
     (let p = CFE_SB_LocatePipeDescByID (DestPipeId d);
          pd = pipe_at g (the p);
          st = QueuePut env (SysQueueId pd)
      in if Active d \<noteq> CFE_SB_ACTIVE \<or> \<not> CFE_SB_PipeDescIsMatch g p (DestPipeId d) then Passed
         else if Opts pd AND CFE_SB_PIPEOPTS_IGNOREMINE \<noteq> 0 \<and> PipeAppId pd = snd (GetAppID env) then Passed
         else if MsgId2PipeLim d \<le> BuffCount d then Over_limit
         else if st = OS_SUCCESS then Deliver (SysQueueId pd)
         else if st = OS_QUEUE_FULL then Queue_full else Write_error st)"

fun act_puts :: "nat \<Rightarrow> send_action \<Rightarrow> (osal_id \<times> nat) list" where
  "act_puts b (Deliver q) = [(q, b)]"
| "act_puts b _ = []"

fun act_errs :: "CFE_SB_PipeId \<Rightarrow> send_action \<Rightarrow> CFE_SB_SendErrEventBuf list" where
  "act_errs pid Over_limit = [\<lparr>EventId = CFE_SB_MSGID_LIM_ERR_EID, ErrPipeId = pid, ErrStat = 0\<rparr>]"
| "act_errs pid Queue_full = [\<lparr>EventId = CFE_SB_Q_FULL_ERR_EID, ErrPipeId = pid, ErrStat = 0\<rparr>]"
| "act_errs pid (Write_error st) = [\<lparr>EventId = CFE_SB_Q_WR_ERR_EID, ErrPipeId = pid, ErrStat = st\<rparr>]"
| "act_errs pid _ = []"

fun act_dest :: "send_action \<Rightarrow> CFE_SB_DestinationD \<Rightarrow> CFE_SB_DestinationD" where
  "act_dest (Deliver q) d = d\<lparr>BuffCount := BuffCount d + 1, DestCnt := DestCnt d + 1\<rparr>"
| "act_dest _ d = d"

fun act_hk :: "send_action \<Rightarrow> CFE_SB_HousekeepingTlm \<Rightarrow> CFE_SB_HousekeepingTlm" where
  "act_hk Over_limit h = h\<lparr>MsgLimitErrorCounter := MsgLimitErrorCounter h + 1\<rparr>"
| "act_hk Queue_full h = h\<lparr>PipeOverflowErrorCounter := PipeOverflowErrorCounter h + 1\<rparr>"
| "act_hk (Write_error st) h = h\<lparr>InternalErrorCounter := InternalErrorCounter h + 1\<rparr>"
| "act_hk _ h = h"

text \<open>A pipe after an action: an error is counted, a delivery makes its queue deeper.\<close>

fun act_pipe :: "send_action \<Rightarrow> CFE_SB_PipeD \<Rightarrow> CFE_SB_PipeD" where
  "act_pipe (Deliver q) p =
     (let c = CurrentQueueDepth p + 1
      in p\<lparr>CurrentQueueDepth := c, PeakQueueDepth := (if PeakQueueDepth p \<le> c then c else PeakQueueDepth p)\<rparr>)"
| "act_pipe Passed p = p"
| "act_pipe _ p = p\<lparr>SendErrors := SendErrors p + 1\<rparr>"

text \<open>The fields of a pipe that sending leaves alone.\<close>

definition pipe_core :: "CFE_SB_PipeD \<Rightarrow> CFE_SB_PipeId \<times> u8 \<times> CFE_ES_AppId \<times> osal_id \<times> u16 \<times> nat ptr" where
  "pipe_core p = (PipeId p, Opts p, PipeAppId p, SysQueueId p, MaxQueueDepth p, LastBuffer p)"

lemma pipe_core_act [simp]: "pipe_core (act_pipe a p) = pipe_core p"
  by (cases a) (simp_all add: pipe_core_def Let_def)

lemma act_dest_links [simp]:
  "DestNext (act_dest a d) = DestNext d" "DestPrev (act_dest a d) = DestPrev d" "DestPipeId (act_dest a d) = DestPipeId d"
  "dinfo (act_dest a d) = act_dest a (dinfo d)"
  by (cases a; simp add: dinfo_def)+

lemma send_action_core:
  assumes "\<And>i. pipe_core (pipe_at g' i) = pipe_core (pipe_at g i)"
  shows "send_action env g' d = send_action env g d"
proof -
  have "PipeId (pipe_at g' i) = PipeId (pipe_at g i)" "Opts (pipe_at g' i) = Opts (pipe_at g i)"
    "PipeAppId (pipe_at g' i) = PipeAppId (pipe_at g i)" "SysQueueId (pipe_at g' i) = SysQueueId (pipe_at g i)" for i
    using assms [of i] by (simp_all add: pipe_core_def)
  then show ?thesis by (simp add: send_action_def CFE_SB_PipeDescIsMatch_def Let_def)
qed

lemma dinfo_pipe [simp]: "DestPipeId (dinfo d) = DestPipeId d"
  by (simp add: dinfo_def)

lemma send_action_dinfo [simp]: "send_action env g (dinfo d) = send_action env g d"
  by (simp add: send_action_def dinfo_def Let_def)

text \<open>One step of the loop is the action of its destination.\<close>

definition apply_action :: "nat \<Rightarrow> nat \<Rightarrow> send_action \<Rightarrow> CFE_SB_Global \<Rightarrow> CFE_SB_Global" where
  "apply_action b d a g =
     (let i = the (CFE_SB_LocatePipeDescByID (DestPipeId (dest_at g d)));
          g = (if act_puts b a = [] then g else CFE_SB_IncrBufUseCnt b g)
      in upd_pipe i (act_pipe a) (upd_dest d (act_dest a) (upd_hk (act_hk a) g)))"

lemma upd_pipe_id: "upd_pipe i (\<lambda>p. p) g = g"
  by (simp add: upd_pipe_def)

lemma upd_dest_id: "upd_dest d (\<lambda>x. x) g = g"
  by (simp add: upd_dest_def option.map_id0 [unfolded id_def])

lemma upd_hk_id: "upd_hk (\<lambda>h. h) g = g"
  by (simp add: upd_hk_def)

lemma act_id:
  "act_pipe Passed = (\<lambda>p. p)" "act_dest Passed = (\<lambda>d. d)" "act_hk Passed = (\<lambda>h. h)"
  "act_dest Over_limit = (\<lambda>d. d)" "act_dest Queue_full = (\<lambda>d. d)" "act_dest (Write_error st) = (\<lambda>d. d)"
  "act_hk (Deliver q) = (\<lambda>h. h)"
  by (simp_all add: fun_eq_iff)

lemma upd_pipe_upd_pipe: "upd_pipe i f (upd_pipe i h g) = upd_pipe i (\<lambda>p. f (h p)) g"
  by (cases "unat i < length (PipeTbl g)") (simp_all add: upd_pipe_def list_update_beyond)

lemma upd_pipe_cong: "f (pipe_at g i) = h (pipe_at g i) \<Longrightarrow> upd_pipe i f g = upd_pipe i h g"
  by (simp add: upd_pipe_def pipe_at_def)

lemma apply_Deliver:
  assumes "unat i < length (PipeTbl g)"
  shows "(let g = upd_pipe i (\<lambda>p. p\<lparr>CurrentQueueDepth := CurrentQueueDepth p + 1\<rparr>) g
    in if CurrentQueueDepth (pipe_at g i) \<ge> PeakQueueDepth (pipe_at g i)
       then upd_pipe i (\<lambda>p. p\<lparr>PeakQueueDepth := CurrentQueueDepth p\<rparr>) g else g) = upd_pipe i (act_pipe (Deliver q)) g"
  using assms by (auto simp: Let_def upd_pipe_upd_pipe intro!: upd_pipe_cong)

lemma broadcast_dest_action:
  assumes d: "Dests g d = Some dd" and len: "length (PipeTbl g) = 64"
  shows "broadcast_dest env b d (g, errs, puts) =
    (let a = send_action env g dd
     in (apply_action b d a g, errs @ act_errs (DestPipeId dd) a, puts @ act_puts b a))"
proof -
  have dd: "dest_at g d = dd" by (simp add: dest_at_def d)
  show ?thesis
  proof (cases "CFE_SB_LocatePipeDescByID (DestPipeId dd)")
    case None
    then show ?thesis
      by (simp add: broadcast_dest_def send_action_def apply_action_def dd act_id upd_pipe_id upd_dest_id upd_hk_id
          CFE_SB_PipeDescIsMatch_def Let_def)
  next
    case (Some i)
    have "unat i < length (PipeTbl g)" using Locate_lt [OF Some] len by (simp add: word_less_nat_alt)
    then have del: "(let g = upd_pipe i (\<lambda>p. p\<lparr>CurrentQueueDepth := CurrentQueueDepth p + 1\<rparr>) g1
      in if CurrentQueueDepth (pipe_at g i) \<ge> PeakQueueDepth (pipe_at g i)
         then upd_pipe i (\<lambda>p. p\<lparr>PeakQueueDepth := CurrentQueueDepth p\<rparr>) g else g) = upd_pipe i (act_pipe (Deliver q)) g1"
      if "PipeTbl g1 = PipeTbl g" for g1 q
      using that by (intro apply_Deliver) simp
    have put: "upd_dest d (act_dest (Deliver q)) g1 =
        upd_dest d (\<lambda>d. d\<lparr>BuffCount := BuffCount d + 1, DestCnt := DestCnt d + 1\<rparr>) g1" for q g1
      by (intro arg_cong [of _ _ "\<lambda>f. upd_dest d f g1"]) (simp add: fun_eq_iff)
    have errs: "upd_pipe i (act_pipe a) g1 = upd_pipe i (\<lambda>p. p\<lparr>SendErrors := SendErrors p + 1\<rparr>) g1"
      if "a = Over_limit \<or> a = Queue_full \<or> (\<exists>st. a = Write_error st)" for a g1
      by (rule upd_pipe_cong) (use that in auto)
    have hk: "upd_hk (act_hk Over_limit) g1 = upd_hk (\<lambda>h. h\<lparr>MsgLimitErrorCounter := MsgLimitErrorCounter h + 1\<rparr>) g1"
      "upd_hk (act_hk Queue_full) g1 = upd_hk (\<lambda>h. h\<lparr>PipeOverflowErrorCounter := PipeOverflowErrorCounter h + 1\<rparr>) g1"
      "upd_hk (act_hk (Write_error st)) g1 = upd_hk (\<lambda>h. h\<lparr>InternalErrorCounter := InternalErrorCounter h + 1\<rparr>) g1" for g1 st
      by (simp_all add: upd_hk_def)
    consider "send_action env g dd = Passed" | "send_action env g dd = Over_limit"
      | q where "send_action env g dd = Deliver q" | "send_action env g dd = Queue_full"
      | st where "send_action env g dd = Write_error st"
      by (cases "send_action env g dd")
    then show ?thesis
    proof cases
      case 1
      then show ?thesis
        by (auto simp: broadcast_dest_def send_action_def apply_action_def dd Some act_id upd_pipe_id upd_dest_id upd_hk_id
            CFE_SB_PipeDescIsMatch_def Let_def split: if_splits)
    next
      case (3 q)
      show ?thesis
        unfolding 3 Let_def [of "Deliver q"] apply_action_def act_id upd_hk_id put dd Some option.sel
        using 3 del [of "upd_dest d (\<lambda>d. d\<lparr>BuffCount := BuffCount d + 1, DestCnt := DestCnt d + 1\<rparr>) (CFE_SB_IncrBufUseCnt b g)" q]
        by (auto simp: broadcast_dest_def send_action_def dd Some CFE_SB_PipeDescIsMatch_def Let_def split: if_splits)
    qed (auto simp: broadcast_dest_def send_action_def apply_action_def dd Some act_id upd_dest_id hk errs
            CFE_SB_PipeDescIsMatch_def Let_def linorder_not_le split: if_splits)
  qed
qed

section \<open>The loop over the destinations\<close>

abbreviation (input) apply_actions :: "nat \<Rightarrow> (nat \<Rightarrow> send_action) \<Rightarrow> nat list \<Rightarrow> CFE_SB_Global \<Rightarrow> CFE_SB_Global" where
  "apply_actions b act \<equiv> fold (\<lambda>d. apply_action b d (act d))"

lemma apply_action_other [simp]:
  "SBR (apply_action b d a g) = SBR g" "Links (apply_action b d a g) = Links g" "LastPipeId (apply_action b d a g) = LastPipeId g"
  "StatTlmMsg (apply_action b d a g) = StatTlmMsg g" "length (PipeTbl (apply_action b d a g)) = length (PipeTbl g)"
  "HKTlmMsg (apply_action b d a g) = act_hk a (HKTlmMsg g)"
  "Bufs (apply_action b d a g) = (if act_puts b a = [] then Bufs g else Bufs (CFE_SB_IncrBufUseCnt b g))"
  "Dests (apply_action b d a g) x = (if x = d then map_option (act_dest a) (Dests g x) else Dests g x)"
  by (auto simp: apply_action_def Let_def)

lemma apply_action_core [simp]: "pipe_core (pipe_at (apply_action b d a g) i) = pipe_core (pipe_at g i)"
  by (simp add: apply_action_def Let_def)

lemma broadcast_loop_fold:
  assumes "dchain (Dests g) q p xs" and "distinct xs" and "length (PipeTbl g) = 64"
    and "\<And>d. d \<in> set xs \<Longrightarrow> send_action env g (dest_at g d) = act d"
    and "\<And>d. d \<in> set xs \<Longrightarrow> DestPipeId (dest_at g d) = pid d"
  shows "broadcast_loop env b p (g, errs, puts) =
    Some (apply_actions b act xs g, errs @ concat (map (\<lambda>d. act_errs (pid d) (act d)) xs),
          puts @ concat (map (\<lambda>d. act_puts b (act d)) xs))"
  using assms
proof (induction xs arbitrary: q p g errs puts)
  case Nil
  then show ?case by (simp add: broadcast_loop.simps)
next
  case (Cons x xs)
  obtain d where d: "p = Some x" "Dests g x = Some d" "dchain (Dests g) (Some x) (DestNext d) xs"
    using Cons.prems(1) by auto
  let ?g = "apply_action b x (act x) g"
  have x: "dest_at g x = d" by (simp add: dest_at_def d)
  have act: "send_action env g d = act x" and pid: "DestPipeId d = pid x"
    using Cons.prems(4,5) [of x] by (simp_all add: x)
  have c: "dchain (Dests ?g) (Some x) (DestNext d) xs"
    using d(3) Cons.prems(2) by (subst dchain_cong) auto
  have same: "dest_at ?g y = dest_at g y" if "y \<in> set xs" for y
    using that Cons.prems(2) by (auto simp: dest_at_def)
  have "broadcast_loop env b (DestNext d) (?g, errs @ act_errs (pid x) (act x), puts @ act_puts b (act x)) =
    Some (apply_actions b act xs ?g, (errs @ act_errs (pid x) (act x)) @ concat (map (\<lambda>d. act_errs (pid d) (act d)) xs),
          (puts @ act_puts b (act x)) @ concat (map (\<lambda>d. act_puts b (act d)) xs))"
  proof (rule Cons.IH [OF c])
    fix y assume "y \<in> set xs"
    then show "send_action env ?g (dest_at ?g y) = act y" "DestPipeId (dest_at ?g y) = pid y"
      using Cons.prems(4,5) [of y] by (simp_all add: same send_action_core [of ?g g])
  qed (use Cons.prems in simp_all)
  moreover have "DestNext (dest_at ?g x) = DestNext d" by (simp add: dest_at_def d)
  ultimately show ?case
    using broadcast_dest_action [OF d(2) Cons.prems(3), of env b errs puts]
    by (subst broadcast_loop.simps) (simp add: d(1) act pid Let_def)
qed

text \<open>The effect of all actions, field by field.\<close>

lemma apply_actions_other [simp]:
  "SBR (apply_actions b act xs g) = SBR g" "Links (apply_actions b act xs g) = Links g"
  "LastPipeId (apply_actions b act xs g) = LastPipeId g" "StatTlmMsg (apply_actions b act xs g) = StatTlmMsg g"
  "length (PipeTbl (apply_actions b act xs g)) = length (PipeTbl g)"
  "HKTlmMsg (apply_actions b act xs g) = fold (\<lambda>d. act_hk (act d)) xs (HKTlmMsg g)"
  "pipe_core (pipe_at (apply_actions b act xs g) i) = pipe_core (pipe_at g i)"
  by (induction xs arbitrary: g) simp_all

lemma apply_actions_Dests:
  "distinct xs \<Longrightarrow> Dests (apply_actions b act xs g) x =
     (if x \<in> set xs then map_option (act_dest (act x)) (Dests g x) else Dests g x)"
  by (induction xs arbitrary: g) auto

lemma apply_actions_pipe:
  assumes "distinct xs" and "length (PipeTbl g) = 64"
    and "\<And>d. d \<in> set xs \<Longrightarrow> CFE_SB_LocatePipeDescByID (DestPipeId (dest_at g d)) = Some (ix d)"
    and "inj_on ix (set xs)"
  shows "d \<in> set xs \<Longrightarrow> pipe_at (apply_actions b act xs g) (ix d) = act_pipe (act d) (pipe_at g (ix d))"
    and "i \<notin> ix ` set xs \<Longrightarrow> pipe_at (apply_actions b act xs g) i = pipe_at g i"
proof -
  have "(\<forall>d \<in> set xs. pipe_at (apply_actions b act xs g) (ix d) = act_pipe (act d) (pipe_at g (ix d))) \<and>
        (\<forall>i. i \<notin> ix ` set xs \<longrightarrow> pipe_at (apply_actions b act xs g) i = pipe_at g i)"
    using assms
  proof (induction xs arbitrary: g)
    case (Cons x xs)
    let ?g = "apply_action b x (act x) g"
    have ix: "CFE_SB_LocatePipeDescByID (DestPipeId (dest_at g x)) = Some (ix x)" using Cons.prems(3) by simp
    have len: "unat (ix x) < length (PipeTbl g)"
      using Locate_lt [OF ix] Cons.prems(2) by (simp add: word_less_nat_alt)
    have at: "pipe_at ?g i = (if i = ix x then act_pipe (act x) (pipe_at g i) else pipe_at g i)" for i
      using len by (simp add: apply_action_def ix Let_def)
    have "CFE_SB_LocatePipeDescByID (DestPipeId (dest_at ?g y)) = Some (ix y)" if "y \<in> set xs" for y
      using that Cons.prems(1) Cons.prems(3) [of y] by (auto simp: dest_at_def)
    then have IH: "\<forall>d \<in> set xs. pipe_at (apply_actions b act xs ?g) (ix d) = act_pipe (act d) (pipe_at ?g (ix d))"
      "\<forall>i. i \<notin> ix ` set xs \<longrightarrow> pipe_at (apply_actions b act xs ?g) i = pipe_at ?g i"
      using Cons.IH [of ?g] Cons.prems(1,2,4) by auto
    have "ix d \<noteq> ix x" if "d \<in> set xs" for d
      using that Cons.prems(1,4) by (auto simp: inj_on_def)
    moreover from this have "ix x \<notin> ix ` set xs" by (metis image_iff)
    with IH(2) have "pipe_at (apply_actions b act xs ?g) (ix x) = act_pipe (act x) (pipe_at g (ix x))"
      by (simp add: at)
    ultimately show ?case using IH by (simp add: at)
  qed simp
  then show "d \<in> set xs \<Longrightarrow> pipe_at (apply_actions b act xs g) (ix d) = act_pipe (act d) (pipe_at g (ix d))"
    and "i \<notin> ix ` set xs \<Longrightarrow> pipe_at (apply_actions b act xs g) i = pipe_at g i" by auto
qed

text \<open>Each delivery is a new reference to the buffer.\<close>

lemma apply_actions_buf_inv:
  assumes "buf_inv ex g it zc R" and "b \<in> dom (Bufs g)" and "count R b + length xs \<le> 0x7FFF"
  shows "buf_inv ex (apply_actions b act xs g) it zc
      (R + mset (map snd (concat (map (\<lambda>d. act_puts b (act d)) xs)))) \<and> b \<in> dom (Bufs (apply_actions b act xs g))"
  using assms
proof (induction xs arbitrary: g R)
  case (Cons x xs)
  let ?g = "apply_action b x (act x) g" and ?R = "R + mset (map snd (act_puts b (act x)))"
  have inv: "buf_inv ex ?g it zc ?R"
  proof (cases "act_puts b (act x) = []")
    case True
    then show ?thesis using Cons.prems(1) by (simp add: buf_inv_same_bufs [of ?g g])
  next
    case False
    then have "mset (map snd (act_puts b (act x))) = {#b#}" by (cases "act x") auto
    then show ?thesis
      using False Incr_inv [OF Cons.prems(1,2)] Cons.prems(3) buf_inv_same_bufs [of ?g "CFE_SB_IncrBufUseCnt b g"]
      by simp
  qed
  have "b \<in> dom (Bufs ?g)" using Cons.prems(2) by (auto simp: CFE_SB_IncrBufUseCnt_def)
  moreover have "count ?R b + length xs \<le> 0x7FFF"
    using Cons.prems(3) by (cases "act x") auto
  ultimately show ?case using Cons.IH [OF inv] by (simp add: add.assoc)
qed simp

section \<open>The broadcast\<close>

text \<open>Before the loop: the sequence count.\<close>

lemma seq_head [simp]:
  "CFE_SBR_GetDestListHeadPtr (CFE_SBR_IncrementSequenceCounter s r) r' = CFE_SBR_GetDestListHeadPtr s r'"
  by (cases "unat (CFE_SBR_RouteIdToValue r) < length (RoutingTbl s)")
     (auto simp: CFE_SBR_GetDestListHeadPtr_def CFE_SBR_IncrementSequenceCounter_def upd_route_def Let_def
        nth_list_update list_update_beyond)

lemma broadcast_sequence_frame [simp]:
  "PipeTbl (broadcast_sequence b r g) = PipeTbl g" "Dests (broadcast_sequence b r g) = Dests g"
  "Links (broadcast_sequence b r g) = Links g" "HKTlmMsg (broadcast_sequence b r g) = HKTlmMsg g"
  "StatTlmMsg (broadcast_sequence b r g) = StatTlmMsg g" "LastPipeId (broadcast_sequence b r g) = LastPipeId g"
  "StopRecurseFlags (broadcast_sequence b r g) = StopRecurseFlags g"
  "CFE_SBR_GetDestListHeadPtr (SBR (broadcast_sequence b r g)) r' = CFE_SBR_GetDestListHeadPtr (SBR g) r'"
  "dom (Bufs (broadcast_sequence b r g)) = dom (Bufs g)"
  by (simp_all add: broadcast_sequence_def Let_def)

lemma broadcast_sequence_routes: "same_routes (SBR g) (SBR (broadcast_sequence b r g))"
  using same_routes_upd [of "SeqCnt_update (\<lambda>c. c + 1)"]
  by (simp add: broadcast_sequence_def CFE_SBR_IncrementSequenceCounter_def Let_def)

lemma broadcast_sequence_use_count [simp]: "use_count (broadcast_sequence b r g) x = use_count g x"
  by (simp add: broadcast_sequence_def Let_def use_count_def option.map_comp split: option.split)

lemma broadcast_sequence_buf_inv [simp]: "buf_inv ex (broadcast_sequence b r g) it zc R = buf_inv ex g it zc R"
  by (rule buf_inv_cong) simp_all

text \<open>After the loop: the buffer moves to the list of buffers in transit, and the sender lets go of it.\<close>

lemma move_to_transit:
  assumes inv: "buf_inv ex g it zc R" and b: "b \<in> dom (Bufs g)"
    and h: "h = CFE_SB_TrackingListAdd InTransitList (BufLink b) (CFE_SB_TrackingListRemove (BufLink b) (Links g))"
    and g': "Links g' = h" "dom (Bufs g') = dom (Bufs g)" "\<And>x. use_count g' x = use_count g x" "StatTlmMsg g' = StatTlmMsg g"
  shows "buf_inv ex g' (remove1 b it @ [b]) (remove1 b zc) R"
proof -
  let ?h = "CFE_SB_TrackingListRemove (BufLink b) (Links g)"
  note t = buf_invD(1) [OF inv] and lb = buf_invD(7) [OF inv b]
  have dist: "distinct it" "distinct zc" using tracked_distinct [OF t] by auto
  have r: "tracked ?h (remove1 b it) (remove1 b zc)" by (rule tracked_Remove(1) [OF t lb])
  have nb: "b \<notin> set (remove1 b it) \<union> set (remove1 b zc)" using dist by simp
  have "tracked (Links g') (remove1 b it @ [b]) (remove1 b zc)"
    unfolding g' h by (rule tracked_Add_transit(1) [OF r nb])
  moreover have "set (remove1 b it @ [b]) \<union> set (remove1 b zc) \<subseteq> dom (Bufs g')"
    using buf_invD(2) [OF inv] b dist g'(2) by auto
  moreover have "x \<in> set (remove1 b it @ [b]) \<union> set (remove1 b zc) \<or> lone (Links g') x" if "x \<in> dom (Bufs g')" for x
  proof (cases "x = b")
    case False
    have "x \<in> set it \<union> set zc \<or> lone (Links g) x" using buf_invD(7) [OF inv] that g'(2) by simp
    then show ?thesis
      using False dist tracked_Remove(3) [OF t lb] tracked_Add_transit(2) [OF r nb _ False] g'(1) h by auto
  qed simp
  ultimately show ?thesis using inv g'(2-4) unfolding buf_inv_def by simp
qed

lemma broadcast_release_inv:
  assumes inv: "buf_inv ex g it zc R" and b: "b \<in># R"
  shows "\<exists>it'. buf_inv ex (broadcast_release b g) it' (remove1 b zc) (R - {#b#})"
    and "use_count g b = 1 \<Longrightarrow> Bufs (broadcast_release b g) b = None"
proof -
  have dom: "b \<in> dom (Bufs g)" by (rule buf_inv_referenced [OF inv b])
  have dist: "distinct it" "distinct zc" using tracked_distinct [OF buf_invD(1) [OF inv]] by auto
  define g1 where "g1 = upd_buf b (\<lambda>d. d\<lparr>BufAppId := CFE_ES_APPID_UNDEFINED\<rparr>)
    (g\<lparr>Links := CFE_SB_TrackingListRemove (BufLink b) (Links g)\<rparr>)"
  define g2 where "g2 = g1\<lparr>Links := CFE_SB_TrackingListAdd InTransitList (BufLink b) (Links g1)\<rparr>"
  have rel: "broadcast_release b g = CFE_SB_DecrBufUseCnt b g2"
    by (simp add: broadcast_release_def Let_def g1_def g2_def)
  have uc: "use_count g2 x = use_count g x" for x
    by (simp add: g2_def g1_def use_count_def option.map_comp split: option.split)
  have "dom (Bufs g2) = dom (Bufs g)" by (simp add: g2_def g1_def)
  then have inv2: "buf_inv ex g2 (remove1 b it @ [b]) (remove1 b zc) R"
    by (intro move_to_transit [OF inv dom refl]) (simp_all add: uc, simp_all add: g2_def g1_def)
  have nb: "remove1 b (remove1 b zc) = remove1 b zc" using dist by (simp add: remove1_idem)
  show "\<exists>it'. buf_inv ex (broadcast_release b g) it' (remove1 b zc) (R - {#b#})"
    using Decr_inv [OF inv2 b] nb unfolding rel by metis
  show "Bufs (broadcast_release b g) b = None" if "use_count g b = 1"
    using Decr_inv(1) [OF inv2 b] that uc unfolding rel by simp
qed

lemma broadcast_release_frame [simp]:
  "PipeTbl (broadcast_release b g) = PipeTbl g" "Dests (broadcast_release b g) = Dests g"
  "SBR (broadcast_release b g) = SBR g" "HKTlmMsg (broadcast_release b g) = HKTlmMsg g"
  "LastPipeId (broadcast_release b g) = LastPipeId g" "pipe_at (broadcast_release b g) i = pipe_at g i"
  by (simp_all add: broadcast_release_def Let_def pipe_at_def)

text \<open>The events change nothing.\<close>

lemma send_err_events:
  "\<exists>outs. fold (send_err_event env b) errs (g, acc) = (g, outs)"
proof (induction errs arbitrary: acc)
  case (Cons e errs)
  have "fst (send_err_event env b e (g, acc)) = g"
    by (simp add: send_err_event_def Let_def split: prod.split) (metis fst_conv guarded_event_state)
  then obtain acc' where "send_err_event env b e (g, acc) = (g, acc')" by (metis prod.collapse)
  then show ?case using Cons.IH by simp
qed simp

text \<open>
  The invariant of the subscriptions survives what a broadcast does: it keeps the routes, the
  links and pipes of the destinations, and the ids of the pipes.
\<close>

lemma sub_inv_keep:
  assumes inv: "sub_inv cfg g L" and sr: "same_routes (SBR g) (SBR g')"
    and hd: "\<And>r. CFE_SBR_GetDestListHeadPtr (SBR g') r = CFE_SBR_GetDestListHeadPtr (SBR g) r"
    and ds: "\<And>x. map_option (\<lambda>d. (DestPrev d, DestNext d, DestPipeId d)) (Dests g' x) =
                  map_option (\<lambda>d. (DestPrev d, DestNext d, DestPipeId d)) (Dests g x)"
    and ps: "\<And>i. PipeId (pipe_at g' i) = PipeId (pipe_at g i)"
    and ln: "length (PipeTbl g') = length (PipeTbl g)" "LastPipeId g' = LastPipeId g"
  shows "sub_inv cfg g' L"
proof -
  note l = sub_invD(3) [OF inv]
  have links: "map_option (\<lambda>d. (DestPrev d, DestNext d)) (Dests g' x) = map_option (\<lambda>d. (DestPrev d, DestNext d)) (Dests g x)" for x
    using ds [of x] by (cases "Dests g' x"; cases "Dests g x") auto
  have "dchain (Dests g') q p xs = dchain (Dests g) q p xs" for q p xs
    by (rule dchain_links_cong) (rule links)
  then have l': "dest_lists g' L"
    using l same_routes_nth(1) [OF sr] by (simp add: dest_lists_def hd)
  have pid: "DestPipeId (dest_at g' x) = DestPipeId (dest_at g x)" if "x \<in> set (L r)" for x r
    using dchain_alloc [OF dest_listsD(2) [OF l] that] ds [of x] by (auto simp: dest_at_def)
  have view: "map DestPipeId (route_view g' L r) = map DestPipeId (route_view g L r)" for r
    using pid by (simp add: route_view_def dinfo_def)
  have live: "live g' i = live g i" for i by (simp add: live_def ps)
  have "\<exists>i < 64. live g' i \<and> PipeId (pipe_at g' i) = DestPipeId d" if "d \<in> set (route_view g' L r)" for d r
  proof -
    have "DestPipeId d \<in> set (map DestPipeId (route_view g L r))" using that view [of r] by (metis in_set_conv_nth length_map nth_map)
    then show ?thesis using sub_invD(7) [OF inv, of _ r] by (auto simp: live ps)
  qed
  moreover have "pipe_inv g'" using sub_invD(2) [OF inv] by (simp add: pipe_inv_def live ps ln)
  moreover have "map_inv cfg (SBR g')" by (rule sbr.inv_same [OF sub_invD(1) [OF inv] sr])
  moreover have "RouteIdxTop (SBR g') = RouteIdxTop (SBR g)" using sr by (simp add: same_routes_def)
  ultimately show ?thesis using sub_invD(4-6) [OF inv] l' view by (simp add: sub_inv_def)
qed

text \<open>The destinations of a route have different, located pipes.\<close>

lemma dest_index:
  assumes inv: "sub_inv cfg g L"
  obtains ix where "\<And>d. d \<in> set (L r) \<Longrightarrow> CFE_SB_LocatePipeDescByID (DestPipeId (dest_at g d)) = Some (ix d)"
    and "inj_on ix (set (L r))"
proof -
  let ?ix = "\<lambda>d. the (CFE_SB_LocatePipeDescByID (DestPipeId (dest_at g d)))"
  have loc: "\<exists>i. CFE_SB_LocatePipeDescByID (DestPipeId (dest_at g d)) = Some i \<and> PipeId (pipe_at g i) = DestPipeId (dest_at g d)"
    if "d \<in> set (L r)" for d
  proof -
    have "dinfo (dest_at g d) \<in> set (route_view g L r)" using that by (simp add: route_view_def)
    then obtain i where "i < 64" "live g i" "PipeId (pipe_at g i) = DestPipeId (dest_at g d)"
      using sub_invD(7) [OF inv, of "dinfo (dest_at g d)" r] by auto
    then show ?thesis using sub_invD(2) [OF inv] by (auto simp: pipe_inv_def)
  qed
  have "inj_on (\<lambda>d. DestPipeId (dest_at g d)) (set (L r))"
    using sub_invD(6) [OF inv, of r] by (simp add: route_view_def distinct_map comp_def inj_on_def)
  then have "inj_on ?ix (set (L r))" using loc unfolding inj_on_def by (metis option.sel)
  then show thesis using that [of ?ix] loc by force
qed

text \<open>What a broadcast makes of the error counters.\<close>

definition send_counters ::
  "CFE_SB_Env \<Rightarrow> CFE_SB_Global \<Rightarrow> CFE_SB_DestinationD list \<Rightarrow> CFE_SB_HousekeepingTlm \<Rightarrow> CFE_SB_HousekeepingTlm" where
  "send_counters env g ds h =
     (let h = fold (\<lambda>d. act_hk (send_action env g d)) ds h
      in if \<exists>d \<in> set ds. act_errs (DestPipeId d) (send_action env g d) \<noteq> []
         then h\<lparr>MsgSendErrorCounter := MsgSendErrorCounter h + 1\<rparr> else h)"

lemma broadcast_loop_route:
  assumes inv: "sub_inv cfg g L" and g1: "PipeTbl g1 = PipeTbl g" "Dests g1 = Dests g"
    "CFE_SBR_GetDestListHeadPtr (SBR g1) r = CFE_SBR_GetDestListHeadPtr (SBR g) r"
  shows "broadcast_loop env b (CFE_SBR_GetDestListHeadPtr (SBR g1) r) (g1, [], []) =
    Some (apply_actions b (\<lambda>d. send_action env g (dest_at g d)) (L r) g1,
          concat (map (\<lambda>d. act_errs (DestPipeId d) (send_action env g d)) (route_view g L r)),
          concat (map (\<lambda>d. act_puts b (send_action env g d)) (route_view g L r)))"
proof -
  have c: "dchain (Dests g1) None (CFE_SBR_GetDestListHeadPtr (SBR g1) r) (L r)"
    using dest_listsD(2) [OF sub_invD(3) [OF inv], of r] by (simp add: g1)
  have at: "dest_at g1 d = dest_at g d" for d by (simp add: dest_at_def g1)
  have act: "send_action env g1 d = send_action env g d" for d
    by (rule send_action_core) (simp add: pipe_at_def g1)
  have "length (PipeTbl g1) = 64" using sub_invD(2) [OF inv] by (simp add: pipe_inv_def g1)
  then show ?thesis
    using broadcast_loop_fold [OF c dest_listsD(3) [OF sub_invD(3) [OF inv]], of env
        "\<lambda>d. send_action env g (dest_at g d)" "\<lambda>d. DestPipeId (dest_at g d)" b "[]" "[]"]
    by (simp add: at act route_view_def comp_def)
qed

text \<open>The loop is skipped for an invalid route, which has no destinations.\<close>

lemma broadcast_body:
  fixes b :: nat and r :: CFE_SBR_RouteId
  assumes inv: "sub_inv cfg g L"
  defines "g1 \<equiv> (if CFE_SBR_IsValidRouteId r then broadcast_sequence b r g else g)"
  shows "(if CFE_SBR_IsValidRouteId r
      then let g = broadcast_sequence b r g in broadcast_loop env b (CFE_SBR_GetDestListHeadPtr (SBR g) r) (g, [], [])
      else Some (g, [], [])) =
    Some (apply_actions b (\<lambda>d. send_action env g (dest_at g d)) (L r) g1,
          concat (map (\<lambda>d. act_errs (DestPipeId d) (send_action env g d)) (route_view g L r)),
          concat (map (\<lambda>d. act_puts b (send_action env g d)) (route_view g L r)))"
  using broadcast_loop_route [OF inv, of "broadcast_sequence b r g" r env b] L_invalid [OF sub_invD(3) [OF inv], of r]
  by (simp add: g1_def Let_def)

lemma fold_view: "fold (\<lambda>d. act_hk (send_action env g (dest_at g d))) (L r) h =
    fold (\<lambda>d. act_hk (send_action env g d)) (route_view g L r) h"
  by (simp add: route_view_def fold_map comp_def)

lemma puts_snd: "map snd (concat (map (\<lambda>d. act_puts b (act d)) xs)) = replicate (length (concat (map (\<lambda>d. act_puts b (act d)) xs))) b"
proof (induction xs)
  case (Cons x xs)
  have "map snd (act_puts b a) = replicate (length (act_puts b a)) b" for a by (cases a) simp_all
  with Cons show ?case by (simp add: replicate_add)
qed simp

text \<open>The state after the loop.\<close>

lemma after_loop:
  fixes env :: CFE_SB_Env
  assumes inv: "sub_inv cfg g L" and g1: "g1 = g \<or> g1 = broadcast_sequence b r g"
  defines "g2 \<equiv> apply_actions b (\<lambda>d. send_action env g (dest_at g d)) (L r) g1"
  shows "sub_inv cfg g2 L" "same_routes (SBR g) (SBR g2)"
    "route_view g2 L = (route_view g L)(r := map (\<lambda>d. act_dest (send_action env g d) d) (route_view g L r))"
    "d \<in> set (route_view g L r) \<Longrightarrow> CFE_SB_LocatePipeDescByID (DestPipeId d) = Some i \<Longrightarrow>
       pipe_at g2 i = act_pipe (send_action env g d) (pipe_at g i)"
    "(\<And>d. d \<in> set (route_view g L r) \<Longrightarrow> CFE_SB_LocatePipeDescByID (DestPipeId d) \<noteq> Some i) \<Longrightarrow>
       pipe_at g2 i = pipe_at g i"
proof -
  have f: "PipeTbl g1 = PipeTbl g" "Dests g1 = Dests g" "LastPipeId g1 = LastPipeId g" "same_routes (SBR g) (SBR g1)"
    "\<And>r'. CFE_SBR_GetDestListHeadPtr (SBR g1) r' = CFE_SBR_GetDestListHeadPtr (SBR g) r'"
    using g1 by (auto simp: broadcast_sequence_routes)
  note l = sub_invD(3) [OF inv] and dist = dest_listsD(3) [OF sub_invD(3) [OF inv], of r]
  have ds: "Dests g2 x = (if x \<in> set (L r) then map_option (act_dest (send_action env g (dest_at g x))) (Dests g x) else Dests g x)" for x
    unfolding g2_def apply_actions_Dests [OF dist] by (simp add: f)
  have core: "pipe_core (pipe_at g2 i) = pipe_core (pipe_at g i)" for i
    unfolding g2_def by (simp add: pipe_at_def [of g1] pipe_at_def [of g] f)
  show "same_routes (SBR g) (SBR g2)" by (simp add: g2_def f)
  then show "sub_inv cfg g2 L"
  proof (rule sub_inv_keep [OF inv])
    show "PipeId (pipe_at g2 i) = PipeId (pipe_at g i)" for i using core [of i] by (simp add: pipe_core_def)
    show "length (PipeTbl g2) = length (PipeTbl g)" "LastPipeId g2 = LastPipeId g"
      "CFE_SBR_GetDestListHeadPtr (SBR g2) r' = CFE_SBR_GetDestListHeadPtr (SBR g) r'" for r' by (simp_all add: g2_def f)
    show "map_option (\<lambda>d. (DestPrev d, DestNext d, DestPipeId d)) (Dests g2 x) =
        map_option (\<lambda>d. (DestPrev d, DestNext d, DestPipeId d)) (Dests g x)" for x
      by (simp add: ds option.map_comp comp_def)
  qed
  have at: "dest_at g2 x = (if x \<in> set (L r) then act_dest (send_action env g (dest_at g x)) (dest_at g x) else dest_at g x)" for x
    using dchain_alloc [OF dest_listsD(2) [OF l], of x r] by (auto simp: dest_at_def ds)
  show "route_view g2 L = (route_view g L)(r := map (\<lambda>d. act_dest (send_action env g d) d) (route_view g L r))"
  proof
    fix r'
    have "x \<notin> set (L r)" if "r' \<noteq> r" "x \<in> set (L r')" for x
      using dest_listsD(4) [OF l that(1)] that(2) by blast
    then show "route_view g2 L r' = ((route_view g L)(r := map (\<lambda>d. act_dest (send_action env g d) d) (route_view g L r))) r'"
      by (auto simp: route_view_def at)
  qed
  obtain ix where ix: "\<And>d. d \<in> set (L r) \<Longrightarrow> CFE_SB_LocatePipeDescByID (DestPipeId (dest_at g d)) = Some (ix d)" "inj_on ix (set (L r))"
    using dest_index [OF inv, of r] by metis
  have "length (PipeTbl g1) = 64" using sub_invD(2) [OF inv] by (simp add: pipe_inv_def f)
  moreover have "CFE_SB_LocatePipeDescByID (DestPipeId (dest_at g1 d)) = Some (ix d)" if "d \<in> set (L r)" for d
    using ix(1) [OF that] by (simp add: dest_at_def f)
  ultimately have pipes: "x \<in> set (L r) \<Longrightarrow> pipe_at g2 (ix x) = act_pipe (send_action env g (dest_at g x)) (pipe_at g (ix x))"
    "i \<notin> ix ` set (L r) \<Longrightarrow> pipe_at g2 i = pipe_at g i" for x i
    using apply_actions_pipe [OF dist _ _ ix(2), of g1] unfolding g2_def by (auto simp: pipe_at_def [of g1] pipe_at_def [of g] f)
  show "pipe_at g2 i = act_pipe (send_action env g d) (pipe_at g i)"
    if "d \<in> set (route_view g L r)" "CFE_SB_LocatePipeDescByID (DestPipeId d) = Some i"
    using that pipes(1) ix(1) by (auto simp: route_view_def)
  show "pipe_at g2 i = pipe_at g i" if none: "\<And>d. d \<in> set (route_view g L r) \<Longrightarrow> CFE_SB_LocatePipeDescByID (DestPipeId d) \<noteq> Some i"
  proof (rule pipes(2))
    have "ix x \<noteq> i" if "x \<in> set (L r)" for x
      using none [of "dinfo (dest_at g x)"] ix(1) [OF that] that
      by (auto simp: route_view_def)
    then show "i \<notin> ix ` set (L r)" by auto
  qed
qed

text \<open>The locked section as a whole.\<close>

lemma broadcast_locked_eq:
  fixes env :: CFE_SB_Env and b :: nat and r :: CFE_SBR_RouteId
  assumes inv: "sub_inv cfg g L"
  defines "g1 \<equiv> (if CFE_SBR_IsValidRouteId r then broadcast_sequence b r g else g)"
    and "errs \<equiv> concat (map (\<lambda>d. act_errs (DestPipeId d) (send_action env g d)) (route_view g L r))"
    and "puts \<equiv> concat (map (\<lambda>d. act_puts b (send_action env g d)) (route_view g L r))"
  defines "g2 \<equiv> apply_actions b (\<lambda>d. send_action env g (dest_at g d)) (L r) g1"
  defines "g3 \<equiv> (if errs \<noteq> [] then upd_hk (\<lambda>h. h\<lparr>MsgSendErrorCounter := MsgSendErrorCounter h + 1\<rparr>) g2 else g2)"
  shows "broadcast_locked env b r g = Some (broadcast_release b g3, errs, puts)"
  unfolding broadcast_locked_def broadcast_body [OF inv] puts_def
  by (simp add: g1_def [symmetric] g2_def [symmetric] errs_def [symmetric] g3_def [symmetric])

text \<open>The events that follow it leave the global data as it is.\<close>

lemma broadcast_events:
  "CFE_SB_BroadcastBufferToRoute env b r g = map_option (\<lambda>(g', errs, puts).
     (g', snd (fold (send_err_event env b) errs (g', [])), puts)) (broadcast_locked env b r g)"
proof (cases "broadcast_locked env b r g")
  case (Some x)
  then obtain g' errs puts where x: "broadcast_locked env b r g = Some (g', errs, puts)" by (cases x) auto
  obtain outs where "fold (send_err_event env b) errs (g', []) = (g', outs)" using send_err_events by blast
  then show ?thesis by (simp add: CFE_SB_BroadcastBufferToRoute_def x)
qed (simp add: CFE_SB_BroadcastBufferToRoute_def)

lemma broadcast_locked_ok:
  fixes env :: CFE_SB_Env and r :: CFE_SBR_RouteId
  assumes inv: "sub_inv cfg g L" and bi: "buf_inv ex g it zc (add_mset b R)" and lim: "count R b \<le> 0x7000"
  defines "puts \<equiv> concat (map (\<lambda>d. act_puts b (send_action env g d)) (route_view g L r))"
    and "errs \<equiv> concat (map (\<lambda>d. act_errs (DestPipeId d) (send_action env g d)) (route_view g L r))"
  shows "\<exists>g' it'. broadcast_locked env b r g = Some (g', errs, puts) \<and>
    sub_inv cfg g' L \<and> same_routes (SBR g) (SBR g') \<and>
    route_view g' L = (route_view g L)(r := map (\<lambda>d. act_dest (send_action env g d) d) (route_view g L r)) \<and>
    (\<forall>d \<in> set (route_view g L r). \<forall>i. CFE_SB_LocatePipeDescByID (DestPipeId d) = Some i \<longrightarrow>
       pipe_at g' i = act_pipe (send_action env g d) (pipe_at g i)) \<and>
    (\<forall>i. (\<forall>d \<in> set (route_view g L r). CFE_SB_LocatePipeDescByID (DestPipeId d) \<noteq> Some i) \<longrightarrow>
       pipe_at g' i = pipe_at g i) \<and>
    buf_inv ex g' it' (remove1 b zc) (R + replicate_mset (length puts) b) \<and>
    HKTlmMsg g' = send_counters env g (route_view g L r) (HKTlmMsg g)"
proof -
  define g1 where "g1 = (if CFE_SBR_IsValidRouteId r then broadcast_sequence b r g else g)"
  define g2 where "g2 = apply_actions b (\<lambda>d. send_action env g (dest_at g d)) (L r) g1"
  define g3 where "g3 = (if errs \<noteq> [] then upd_hk (\<lambda>h. h\<lparr>MsgSendErrorCounter := MsgSendErrorCounter h + 1\<rparr>) g2 else g2)"
  define g4 where "g4 = broadcast_release b g3"
  have g1: "g1 = g \<or> g1 = broadcast_sequence b r g" by (simp add: g1_def)
  note al = after_loop [OF inv g1, where env = env, folded g2_def]
  have call: "broadcast_locked env b r g = Some (g4, errs, puts)"
    unfolding g4_def g3_def g2_def g1_def errs_def puts_def by (rule broadcast_locked_eq [OF inv])
  have bi1: "buf_inv ex g1 it zc (add_mset b R)" using bi by (simp add: g1_def)
  have "count (add_mset b R) b + length (L r) \<le> 0x7FFF" using lim sub_invD(5) [OF inv, of r] by simp
  then have "buf_inv ex g2 it zc (add_mset b R + mset (map snd puts))"
    using apply_actions_buf_inv [OF bi1 buf_inv_referenced [OF bi1], where xs = "L r" and act = "\<lambda>d. send_action env g (dest_at g d)"]
    unfolding g2_def puts_def by (simp add: route_view_def comp_def)
  moreover have "mset (map snd puts) = replicate_mset (length puts) b" unfolding puts_def puts_snd by simp
  ultimately have "buf_inv ex g3 it zc (add_mset b (R + replicate_mset (length puts) b))"
    by (simp add: g3_def buf_inv_same_bufs [of "upd_hk _ _"])
  from broadcast_release_inv(1) [OF this, of b]
  obtain it' where bi4: "buf_inv ex g4 it' (remove1 b zc) (R + replicate_mset (length puts) b)"
    unfolding g4_def add_mset_remove_trivial by auto
  have f: "PipeTbl g4 = PipeTbl g2" "Dests g4 = Dests g2" "SBR g4 = SBR g2" "LastPipeId g4 = LastPipeId g2"
    by (simp_all add: g4_def g3_def)
  have si: "sub_inv cfg g4 L" by (rule sub_inv_keep [OF al(1)]) (simp_all add: f pipe_at_def)
  have rv: "route_view g4 L = route_view g2 L" by (simp add: route_view_def dest_at_def f fun_eq_iff)
  have pa: "pipe_at g4 i = pipe_at g2 i" for i by (simp add: pipe_at_def f)
  have hk: "HKTlmMsg g4 = send_counters env g (route_view g L r) (HKTlmMsg g)"
    using g1 fold_view [of env g L r "HKTlmMsg g"]
    by (auto simp: g4_def g3_def g2_def errs_def send_counters_def Let_def)
  show ?thesis
    by (rule exI [of _ g4], rule exI [of _ it'])
       (use call si al(2-5) bi4 hk in \<open>simp only: f(3) rv pa simp_thms\<close>, blast)
qed

lemma broadcast_ok:
  fixes env :: CFE_SB_Env and r :: CFE_SBR_RouteId
  assumes inv: "sub_inv cfg g L" and bi: "buf_inv ex g it zc (add_mset b R)" and lim: "count R b \<le> 0x7000"
  defines "puts \<equiv> concat (map (\<lambda>d. act_puts b (send_action env g d)) (route_view g L r))"
  shows "\<exists>g' outs it'. CFE_SB_BroadcastBufferToRoute env b r g = Some (g', outs, puts) \<and>
    sub_inv cfg g' L \<and> same_routes (SBR g) (SBR g') \<and>
    route_view g' L = (route_view g L)(r := map (\<lambda>d. act_dest (send_action env g d) d) (route_view g L r)) \<and>
    (\<forall>d \<in> set (route_view g L r). \<forall>i. CFE_SB_LocatePipeDescByID (DestPipeId d) = Some i \<longrightarrow>
       pipe_at g' i = act_pipe (send_action env g d) (pipe_at g i)) \<and>
    (\<forall>i. (\<forall>d \<in> set (route_view g L r). CFE_SB_LocatePipeDescByID (DestPipeId d) \<noteq> Some i) \<longrightarrow>
       pipe_at g' i = pipe_at g i) \<and>
    buf_inv ex g' it' (remove1 b zc) (R + replicate_mset (length puts) b) \<and>
    HKTlmMsg g' = send_counters env g (route_view g L r) (HKTlmMsg g)"
proof -
  obtain g' it' errs where "broadcast_locked env b r g = Some (g', errs, puts)" and
    rest: "sub_inv cfg g' L" "same_routes (SBR g) (SBR g')"
    "route_view g' L = (route_view g L)(r := map (\<lambda>d. act_dest (send_action env g d) d) (route_view g L r))"
    "\<forall>d \<in> set (route_view g L r). \<forall>i. CFE_SB_LocatePipeDescByID (DestPipeId d) = Some i \<longrightarrow>
       pipe_at g' i = act_pipe (send_action env g d) (pipe_at g i)"
    "\<forall>i. (\<forall>d \<in> set (route_view g L r). CFE_SB_LocatePipeDescByID (DestPipeId d) \<noteq> Some i) \<longrightarrow> pipe_at g' i = pipe_at g i"
    "buf_inv ex g' it' (remove1 b zc) (R + replicate_mset (length puts) b)"
    "HKTlmMsg g' = send_counters env g (route_view g L r) (HKTlmMsg g)"
    using broadcast_locked_ok [OF assms(1-3), of env r] unfolding puts_def by blast
  then show ?thesis by (simp add: broadcast_events) blast
qed

end
