(* ===== verification/CFE_SB_Transmit.thy ===== *)
theory CFE_SB_Transmit
  imports CFE_SB_Send
begin

unbundle bit_operations_syntax

text \<open>
  What sending a message does, seen on the abstract subscriptions: who gets the buffer, what
  it holds, which counters move, and how every failure ends.
\<close>

section \<open>The contents of the buffers\<close>

text \<open>What a receiver sees of a buffer.\<close>

definition buf_data :: "CFE_SB_BufferD \<Rightarrow> CFE_SB_MsgId \<times> nat \<times> nat \<times> CFE_MSG_Type \<times> bool \<times> message" where
  "buf_data d = (BufMsgId d, AllocatedSize d, ContentSize d, ContentType d, AutoSequence d, Content d)"

text \<open>No memory but the descriptor \<open>b\<close> changes, and that only in its use count and owner, or it is freed.\<close>

definition buf_step :: "nat \<Rightarrow> CFE_SB_Global \<Rightarrow> CFE_SB_Global \<Rightarrow> bool" where
  "buf_step b g g' \<longleftrightarrow> (\<forall>x. x \<noteq> b \<longrightarrow> Bufs g' x = Bufs g x) \<and>
     (\<forall>d. Bufs g' b = Some d \<longrightarrow> map_option buf_data (Bufs g b) = Some (buf_data d))"

lemma buf_step_refl [simp]: "Bufs g' = Bufs g \<Longrightarrow> buf_step b g g'"
  by (simp add: buf_step_def)

lemma buf_step_trans:
  assumes "buf_step b g g1" and "buf_step b g1 g2"
  shows "buf_step b g g2"
proof -
  have "map_option buf_data (Bufs g b) = Some (buf_data d)" if d: "Bufs g2 b = Some d" for d
  proof -
    obtain d1 where "Bufs g1 b = Some d1" "buf_data d1 = buf_data d" using assms(2) d by (auto simp: buf_step_def)
    then show ?thesis using assms(1) by (simp add: buf_step_def)
  qed
  then show ?thesis using assms by (simp add: buf_step_def)
qed

lemma buf_step_upd: "(\<And>d. buf_data (f d) = buf_data d) \<Longrightarrow> buf_step b g (upd_buf b f g)"
  by (auto simp: buf_step_def)

lemma Incr_step: "buf_step b g (CFE_SB_IncrBufUseCnt b g)"
  unfolding CFE_SB_IncrBufUseCnt_def by (simp add: buf_step_upd buf_data_def)

lemma Decr_step: "buf_step b g (CFE_SB_DecrBufUseCnt b g)"
proof -
  let ?g = "upd_buf b (\<lambda>d. d\<lparr>UseCount := UseCount d - 1\<rparr>) g"
  have "buf_step b g ?g" by (rule buf_step_upd) (simp add: buf_data_def)
  moreover have "buf_step b ?g (CFE_SB_ReturnBufferToPool b ?g)"
    by (simp add: buf_step_def CFE_SB_ReturnBufferToPool_def Let_def)
  ultimately have "buf_step b g (CFE_SB_ReturnBufferToPool b ?g)" by (rule buf_step_trans)
  then show ?thesis using \<open>buf_step b g ?g\<close> by (simp add: CFE_SB_DecrBufUseCnt_def Let_def)
qed

lemma apply_actions_step: "buf_step b g (apply_actions b act xs g)"
proof (induction xs arbitrary: g)
  case (Cons x xs)
  have "buf_step b g (apply_action b x (act x) g)"
    using Incr_step [of b g] by (simp add: buf_step_def)
  then show ?case using Cons.IH by (simp add: buf_step_trans)
qed simp

lemma release_step: "buf_step b g (broadcast_release b g)"
proof -
  let ?g1 = "g\<lparr>Links := CFE_SB_TrackingListRemove (BufLink b) (Links g)\<rparr>"
  let ?g2 = "upd_buf b (\<lambda>d. d\<lparr>BufAppId := CFE_ES_APPID_UNDEFINED\<rparr>) ?g1"
  let ?g3 = "?g2\<lparr>Links := CFE_SB_TrackingListAdd InTransitList (BufLink b) (Links ?g2)\<rparr>"
  have "buf_step b g ?g1" "buf_step b ?g1 ?g2" "buf_step b ?g2 ?g3"
    by (simp, rule buf_step_upd, simp add: buf_data_def, simp)
  then have "buf_step b g ?g3" using buf_step_trans by blast
  then show ?thesis using Decr_step buf_step_trans unfolding broadcast_release_def Let_def by blast
qed

text \<open>Decrementing keeps the owner of the buffer; the release clears it first.\<close>

lemma Decr_appid: "Bufs (CFE_SB_DecrBufUseCnt b g) x = Some d \<Longrightarrow> map_option BufAppId (Bufs g x) = Some (BufAppId d)"
  by (auto simp: CFE_SB_DecrBufUseCnt_def CFE_SB_ReturnBufferToPool_def Let_def split: if_splits)

lemma release_appid:
  assumes "Bufs (broadcast_release b g) b = Some d"
  shows "BufAppId d = CFE_ES_APPID_UNDEFINED"
  using Decr_appid [OF assms [unfolded broadcast_release_def Let_def]] by (cases "Bufs g b") auto

lemma broadcast_data:
  assumes inv: "sub_inv cfg g L" and c: "CFE_SB_BroadcastBufferToRoute env b r g = Some (g', outs, puts)"
  shows "buf_step b (if CFE_SBR_IsValidRouteId r then broadcast_sequence b r g else g) g'"
    and "Bufs g' b = Some d \<Longrightarrow> BufAppId d = CFE_ES_APPID_UNDEFINED"
proof -
  define g1 where "g1 = (if CFE_SBR_IsValidRouteId r then broadcast_sequence b r g else g)"
  define g2 where "g2 = apply_actions b (\<lambda>d. send_action env g (dest_at g d)) (L r) g1"
  define errs where "errs = concat (map (\<lambda>d. act_errs (DestPipeId d) (send_action env g d)) (route_view g L r))"
  define g3 where "g3 = (if errs \<noteq> [] then upd_hk (\<lambda>h. h\<lparr>MsgSendErrorCounter := MsgSendErrorCounter h + 1\<rparr>) g2 else g2)"
  obtain os where "fold (send_err_event env b) errs (broadcast_release b g3, []) = (broadcast_release b g3, os)"
    using send_err_events by blast
  then have g': "g' = broadcast_release b g3"
    using c unfolding CFE_SB_BroadcastBufferToRoute_def broadcast_locked_def broadcast_body [OF inv]
    by (simp add: g1_def [symmetric] g2_def [symmetric] errs_def [symmetric] g3_def [symmetric])
  moreover have "buf_step b g1 g2" unfolding g2_def by (rule apply_actions_step)
  moreover have "buf_step b g2 g3" by (simp add: g3_def)
  ultimately show "buf_step b (if CFE_SBR_IsValidRouteId r then broadcast_sequence b r g else g) g'"
    using release_step buf_step_trans unfolding g1_def by blast
  show "BufAppId d = CFE_ES_APPID_UNDEFINED" if "Bufs g' b = Some d"
    using that unfolding g' by (rule release_appid)
qed

section \<open>What a broadcast leaves alone\<close>

lemma flags_frame [simp]:
  "StopRecurseFlags (CFE_SB_IncrBufUseCnt b g) = StopRecurseFlags g"
  "StopRecurseFlags (CFE_SB_DecrBufUseCnt b g) = StopRecurseFlags g"
  "StopRecurseFlags (apply_action b d a g) = StopRecurseFlags g"
  "StopRecurseFlags (broadcast_release b g) = StopRecurseFlags g"
  by (simp_all add: CFE_SB_IncrBufUseCnt_def CFE_SB_DecrBufUseCnt_def CFE_SB_ReturnBufferToPool_def
      apply_action_def broadcast_release_def Let_def)

lemma flags_actions [simp]: "StopRecurseFlags (apply_actions b act xs g) = StopRecurseFlags g"
  by (induction xs arbitrary: g) simp_all

lemma reporting_frame [simp]:
  "SubscriptionReporting (CFE_SB_IncrBufUseCnt b g) = SubscriptionReporting g"
  "SubscriptionReporting (CFE_SB_DecrBufUseCnt b g) = SubscriptionReporting g"
  "SubscriptionReporting (apply_action b d a g) = SubscriptionReporting g"
  "SubscriptionReporting (broadcast_release b g) = SubscriptionReporting g"
  "SubscriptionReporting (broadcast_sequence b r g) = SubscriptionReporting g"
  by (simp_all add: CFE_SB_IncrBufUseCnt_def CFE_SB_DecrBufUseCnt_def CFE_SB_ReturnBufferToPool_def
      apply_action_def broadcast_release_def broadcast_sequence_def Let_def)

lemma reporting_actions [simp]: "SubscriptionReporting (apply_actions b act xs g) = SubscriptionReporting g"
  by (induction xs arbitrary: g) simp_all

text \<open>The statistics: a buffer that is freed is counted off, with its size.\<close>

definition freed_stat :: "nat \<Rightarrow> CFE_SB_StatsTlm \<Rightarrow> CFE_SB_StatsTlm" where
  "freed_stat n s = s\<lparr>SBBuffersInUse := SBBuffersInUse s - 1, MemInUse := MemInUse s - of_nat n\<rparr>"

lemma Decr_stat:
  "Bufs g b = Some d \<Longrightarrow> StatTlmMsg (CFE_SB_DecrBufUseCnt b g) =
     (if Bufs (CFE_SB_DecrBufUseCnt b g) b = None then freed_stat (AllocatedSize d) (StatTlmMsg g) else StatTlmMsg g)"
  by (simp add: CFE_SB_DecrBufUseCnt_def CFE_SB_ReturnBufferToPool_def Let_def freed_stat_def buf_at_def upd_stat_def)

lemma release_stat:
  assumes "Bufs g b = Some d"
  shows "StatTlmMsg (broadcast_release b g) =
    (if Bufs (broadcast_release b g) b = None then freed_stat (AllocatedSize d) (StatTlmMsg g) else StatTlmMsg g)"
proof -
  define h where "h = upd_buf b (\<lambda>d. d\<lparr>BufAppId := CFE_ES_APPID_UNDEFINED\<rparr>) (g\<lparr>Links := CFE_SB_TrackingListRemove (BufLink b) (Links g)\<rparr>)
    \<lparr>Links := CFE_SB_TrackingListAdd InTransitList (BufLink b) (CFE_SB_TrackingListRemove (BufLink b) (Links g))\<rparr>"
  have r: "broadcast_release b g = CFE_SB_DecrBufUseCnt b h" by (simp add: broadcast_release_def Let_def h_def)
  have h: "Bufs h b = Some (d\<lparr>BufAppId := CFE_ES_APPID_UNDEFINED\<rparr>)" "StatTlmMsg h = StatTlmMsg g" using assms by (simp_all add: h_def)
  show ?thesis using Decr_stat [OF h(1)] by (simp add: r h(2))
qed

lemma actions_alloc: "Bufs g b = Some d \<Longrightarrow> \<exists>d'. Bufs (apply_actions b act xs g) b = Some d' \<and> AllocatedSize d' = AllocatedSize d"
proof (induction xs arbitrary: g d)
  case (Cons x xs)
  have "\<exists>d'. Bufs (apply_action b x (act x) g) b = Some d' \<and> AllocatedSize d' = AllocatedSize d"
    using Cons.prems by (simp add: CFE_SB_IncrBufUseCnt_def)
  then show ?case using Cons.IH by fastforce
qed simp

lemma sequence_alloc: "Bufs g b = Some d \<Longrightarrow> \<exists>d'. Bufs (broadcast_sequence b r g) b = Some d' \<and> AllocatedSize d' = AllocatedSize d"
  by (simp add: broadcast_sequence_def Let_def)

text \<open>Everything a broadcast does not change, and the counters it does.\<close>

lemma broadcast_frame:
  assumes inv: "sub_inv cfg g L" and b: "Bufs g b = Some d"
    and c: "CFE_SB_BroadcastBufferToRoute env b r g = Some (g', outs, puts)" and v: "CFE_SBR_IsValidRouteId r"
  shows "\<forall>x. x \<noteq> b \<longrightarrow> Bufs g' x = Bufs g x" and "\<forall>x. x \<notin> set (L r) \<longrightarrow> Dests g' x = Dests g x"
    and "SBR g' = SBR (broadcast_sequence b r g)"
    and "\<forall>d'. Bufs g' b = Some d' \<longrightarrow> buf_data d' = buf_data (buf_at (broadcast_sequence b r g) b) \<and> BufAppId d' = CFE_ES_APPID_UNDEFINED"
    and "StatTlmMsg g' = (if Bufs g' b = None then freed_stat (AllocatedSize d) (StatTlmMsg g) else StatTlmMsg g)"
    and "LastPipeId g' = LastPipeId g" and "SubscriptionReporting g' = SubscriptionReporting g"
    and "StopRecurseFlags g' = StopRecurseFlags g"
proof -
  define g1 where "g1 = broadcast_sequence b r g"
  define g2 where "g2 = apply_actions b (\<lambda>d. send_action env g (dest_at g d)) (L r) g1"
  define errs where "errs = concat (map (\<lambda>d. act_errs (DestPipeId d) (send_action env g d)) (route_view g L r))"
  define g3 where "g3 = (if errs \<noteq> [] then upd_hk (\<lambda>h. h\<lparr>MsgSendErrorCounter := MsgSendErrorCounter h + 1\<rparr>) g2 else g2)"
  have g': "g' = broadcast_release b g3"
    using c unfolding broadcast_events broadcast_locked_eq [OF inv] if_P [OF v]
      g1_def [symmetric] g2_def [symmetric] errs_def [symmetric] g3_def [symmetric] by simp
  note step = broadcast_data(1) [OF inv c] and app = broadcast_data(2) [OF inv c]
  show "\<forall>x. x \<noteq> b \<longrightarrow> Bufs g' x = Bufs g x"
    using step v by (auto simp: buf_step_def broadcast_sequence_def Let_def split: if_splits)
  show "\<forall>x. x \<notin> set (L r) \<longrightarrow> Dests g' x = Dests g x"
    using apply_actions_Dests [OF dest_listsD(3) [OF sub_invD(3) [OF inv]], of b "\<lambda>d. send_action env g (dest_at g d)" r g1]
    by (simp add: g' g3_def g2_def g1_def)
  show "SBR g' = SBR (broadcast_sequence b r g)" by (simp add: g' g3_def g2_def g1_def)
  show "\<forall>d'. Bufs g' b = Some d' \<longrightarrow> buf_data d' = buf_data (buf_at (broadcast_sequence b r g) b) \<and> BufAppId d' = CFE_ES_APPID_UNDEFINED"
    using step v app by (auto simp: buf_step_def buf_at_def)
  obtain d1 where "Bufs g1 b = Some d1" "AllocatedSize d1 = AllocatedSize d" using sequence_alloc [OF b] unfolding g1_def by blast
  with actions_alloc obtain d2 where "Bufs g2 b = Some d2" "AllocatedSize d2 = AllocatedSize d" unfolding g2_def by metis
  then have "Bufs g3 b = Some d2" "AllocatedSize d2 = AllocatedSize d" by (simp_all add: g3_def)
  from release_stat [OF this(1)] this(2)
  show "StatTlmMsg g' = (if Bufs g' b = None then freed_stat (AllocatedSize d) (StatTlmMsg g) else StatTlmMsg g)"
    by (simp add: g') (simp add: g3_def g2_def g1_def)
  show "LastPipeId g' = LastPipeId g" "SubscriptionReporting g' = SubscriptionReporting g"
    "StopRecurseFlags g' = StopRecurseFlags g" by (simp_all add: g' g3_def g2_def g1_def)
qed

section \<open>The broadcast of a buffer\<close>


text \<open>A sample run: the pipe of the sample bus receives the buffer at address 2000.\<close>

definition sample_buf :: CFE_SB_BufferD where
  "sample_buf = \<lparr>BufMsgId = 0x1806, BufAppId = 0, AllocatedSize = 48, ContentSize = 8, ContentType = CFE_MSG_Type_Cmd,
     AutoSequence = True, UseCount = 1, Content = [0x18, 0x06, 0xC0, 0, 0, 1, 0, 0]\<rparr>"

definition with_buf :: "nat \<Rightarrow> CFE_SB_BufferD \<Rightarrow> CFE_SB_Global \<Rightarrow> CFE_SB_Global" where
  "with_buf b d g = upd_stat (\<lambda>s. s\<lparr>SBBuffersInUse := SBBuffersInUse s + 1\<rparr>)
     (g\<lparr>Bufs := (Bufs g)(b \<mapsto> d), Links := CFE_SB_TrackingListReset (BufLink b) (Links g)\<rparr>)"

lemma with_buf_inv:
  assumes "buf_inv True g [] [] {#}" and "UseCount d = 1"
  shows "buf_inv True (with_buf b d g) [] [] {#b#}"
proof -
  have "Bufs g = (\<lambda>_. None)" using buf_inv_leak_free [OF assms(1)] by simp
  moreover have "tracked (CFE_SB_TrackingListReset (BufLink b) (Links g)) [] []"
    "lone (CFE_SB_TrackingListReset (BufLink b) (Links g)) b"
    using tracked_Reset [OF buf_invD(1) [OF assms(1)], of b] by simp_all
  moreover have "SBBuffersInUse (StatTlmMsg g) = 0" using buf_invD(4) [OF assms(1)] \<open>Bufs g = _\<close> by simp
  ultimately show ?thesis using assms(2) by (simp add: buf_inv_def with_buf_def use_count_def)
qed

lemma with_buf_other [simp]:
  "PipeTbl (with_buf b d g) = PipeTbl g" "SBR (with_buf b d g) = SBR g" "Dests (with_buf b d g) = Dests g"
  "LastPipeId (with_buf b d g) = LastPipeId g" "Bufs (with_buf b d g) = (Bufs g)(b \<mapsto> d)"
  by (simp_all add: with_buf_def)

lemma with_buf_sub [simp]: "sub_inv cfg (with_buf b d g) L = sub_inv cfg g L" "subs (with_buf b d g) L = subs g L"
  "pipe_at (with_buf b d g) = pipe_at g"
  by (simp_all add: sub_inv_def pipe_inv_def live_def dest_lists_def route_view_def dest_at_def pipe_at_def
      subs_def fun_eq_iff)

lemma sample_sending:
  obtains g L where "sub_inv SBR_MAP_DIRECT g L" and "subs g L 0x1806 = [new_dest 0x160001 4 0]"
    and "buf_inv True g [] [] {#}" and "PipeTbl g = PipeTbl sample_bus" and "0x1806 \<in> set (routes (SBR g))"
    and "Bufs g = (\<lambda>_. None)"
proof -
  obtain g L where gL: "sub_inv SBR_MAP_DIRECT g L" "subs g L 0x1806 = [new_dest 0x160001 4 0]" "sub_frame sample_bus g"
    using sample_subscribed by blast
  have "buf_inv True sample_bus [] [] {#}"
    unfolding sample_bus_def using init_buf_inv [of SBR_MAP_DIRECT sbr0]
    by (subst buf_inv_same_bufs [of _ "sb_init SBR_MAP_DIRECT sbr0"]) simp_all
  then have "buf_inv True g [] [] {#}"
    using gL(3) by (simp add: sub_frame_def buf_inv_same_bufs [of g sample_bus])
  moreover have "0x1806 \<in> set (routes (SBR g))"
    using subs_unrouted [OF sub_invD(3) [OF gL(1)], of "0x1806"] gL(2) by fastforce
  ultimately show thesis using that gL by (simp add: sub_frame_def)
qed

lemma sample_action:
  assumes "PipeTbl g = PipeTbl sample_bus"
  shows "send_action (sample_env a) g (new_dest 0x160001 4 0) = Deliver 0x20001"
proof -
  have "pipe_at g 1 = pipe_at sample_bus 1" by (simp add: pipe_at_def assms)
  then have "pipe_at g 1 = zero_PipeD\<lparr>PipeId := 0x160001, PipeAppId := 0x110001, SysQueueId := 0x20001, MaxQueueDepth := 10\<rparr>"
    by (simp add: sample_bus_pipe)
  then show ?thesis by (simp add: send_action_def new_dest_def CFE_SB_PipeDescIsMatch_def zero_PipeD_def)
qed


section \<open>Bounds of the event buffer\<close>

text \<open>
  The array for send errors has 16 entries (\<open>CFE_PLATFORM_SB_MAX_DEST_PER_PKT\<close>) and the loop
  writes it without a check.  On every consistent bus the loop ends and has written at most
  16 entries, whatever the queues answer.
\<close>

theorem send_err_buffer_bound:
  assumes inv: "sub_inv cfg g L"
  shows "\<exists>g' errs puts. broadcast_loop env b (CFE_SBR_GetDestListHeadPtr (SBR g) r) (g, [], []) = Some (g', errs, puts) \<and>
    length errs + length puts \<le> CFE_PLATFORM_SB_MAX_DEST_PER_PKT"
proof -
  have one: "length (act_errs pid a) + length (act_puts b a) \<le> 1" for pid a by (cases a) simp_all
  have "length (concat (map (\<lambda>d. act_errs (DestPipeId d) (send_action env g d)) ds)) +
      length (concat (map (\<lambda>d. act_puts b (send_action env g d)) ds)) \<le> length ds" for ds
  proof (induction ds)
    case (Cons d ds)
    then show ?case using one [of "DestPipeId d" "send_action env g d"] by simp
  qed simp
  from this [of "route_view g L r"] show ?thesis
    using broadcast_loop_route [OF inv, of g r env b] sub_invD(5) [OF inv, of r] by simp
qed

theorem send_err_buffer_bound_witness:
  "\<exists>g' errs puts. broadcast_loop (sample_env 1000) 2000 (CFE_SBR_GetDestListHeadPtr (SBR sample_bus) 1) (sample_bus, [], []) =
      Some (g', errs, puts) \<and> length errs + length puts \<le> 16"
  using send_err_buffer_bound [OF sample_bus_inv, of "sample_env 1000" 2000 1] by simp

section \<open>The sequence count\<close>

lemma sequence_of_upd:
  assumes "CFE_SBR_IsValidRouteId r" and "length (RoutingTbl s) = 256"
  shows "CFE_SBR_GetSequenceCounter (upd_route r (SeqCnt_update f) s) r = f (CFE_SBR_GetSequenceCounter s r)"
proof -
  have "unat (CFE_SBR_RouteIdToValue r) < 256" using assms(1) by (auto simp: IsValidRouteId_nat RouteIdToValue_nat)
  then show ?thesis using assms by (simp add: CFE_SBR_GetSequenceCounter_def upd_route_def Let_def)
qed

text \<open>
  For telemetry with automatic sequence counts the counter of the route goes up by one.  If
  the new count fits the 14 bits of the header field, it is what the header holds afterwards and
  no other field changes.  The counter of the route has 16 bits and is not reduced: for counts
  from 0x4000 on, the header setter refuses the value and the message goes out with the count the
  sender left in it.
\<close>

theorem sequence_count_stamped:
  assumes r: "CFE_SBR_IsValidRouteId r" "length (RoutingTbl (SBR g)) = 256"
    and b: "Bufs g b = Some d" "AutoSequence d" "ContentType d = CFE_MSG_Type_Tlm" "6 \<le> length (Content d)"
    and c: "c = CFE_SBR_GetSequenceCounter (SBR g) r + 1" and g': "g' = broadcast_sequence b r g"
  shows "CFE_SBR_GetSequenceCounter (SBR g') r = c \<and>
    (c \<le> 0x3FFF \<longrightarrow> pri_updated (Content d) (pri_seqcnt_update (\<lambda>_. c)) (Content (buf_at g' b))) \<and>
    (0x3FFF < c \<longrightarrow> buf_at g' b = d)"
proof -
  let ?s = "CFE_SBR_IncrementSequenceCounter (SBR g) r"
  have s: "CFE_SBR_GetSequenceCounter ?s r = c"
    using sequence_of_upd [OF r] r(1) c by (simp add: CFE_SBR_IncrementSequenceCounter_def)
  have at: "buf_at g' b = d\<lparr>Content := the (snd (CFE_MSG_SetSequenceCount (Some (Content d)) c))\<rparr>"
    using b s by (simp add: g' broadcast_sequence_def buf_at_def Let_def)
  have "SBR g' = ?s" using b by (simp add: g' broadcast_sequence_def buf_at_def Let_def)
  then show ?thesis
    using SetSequenceCount_ok [OF b(4), of c] s unfolding at by (auto simp: sets_pri_def SetSequenceCount_eq)
qed

text \<open>The first route has counted 0x3FFF messages: the next one is not stamped.\<close>

definition sample_tlm :: CFE_SB_BufferD where
  "sample_tlm = \<lparr>BufMsgId = 0x0806, BufAppId = 0, AllocatedSize = 48, ContentSize = 8, ContentType = CFE_MSG_Type_Tlm,
     AutoSequence = True, UseCount = 1, Content = [0x08, 0x06, 0xC0, 7, 0, 1, 0, 0]\<rparr>"

definition sample_counted :: CFE_SB_Global where
  "sample_counted = (sb_init SBR_MAP_DIRECT sbr0)\<lparr>Bufs := [2000 \<mapsto> sample_tlm],
     SBR := upd_route 1 (SeqCnt_update (\<lambda>_. 0x3FFF)) (CFE_SBR_Init SBR_MAP_DIRECT sbr0)\<rparr>"

lemma sample_counted_fields:
  "SBR sample_counted = upd_route 1 (SeqCnt_update (\<lambda>_. 0x3FFF)) (CFE_SBR_Init SBR_MAP_DIRECT sbr0)"
  "Bufs sample_counted 2000 = Some sample_tlm"
  unfolding sample_counted_def by simp_all

theorem sequence_count_stamped_witness:
  "CFE_SBR_GetSequenceCounter (SBR (broadcast_sequence 2000 1 sample_counted)) 1 = 0x4000 \<and>
   buf_at (broadcast_sequence 2000 1 sample_counted) 2000 = sample_tlm"
proof -
  have r: "CFE_SBR_IsValidRouteId 1" by (simp add: IsValidRouteId_nat)
  have l: "length (RoutingTbl (CFE_SBR_Init SBR_MAP_DIRECT sbr0)) = 256"
    by (simp add: CFE_SBR_Init_def CFE_SBR_Init_Map_def Let_def)
  have l': "length (RoutingTbl (SBR sample_counted)) = 256"
    unfolding sample_counted_fields upd_route_def Let_def using l by simp
  have c: "0x4000 = CFE_SBR_GetSequenceCounter (SBR sample_counted) 1 + 1"
    unfolding sample_counted_fields sequence_of_upd [OF r l] by simp
  have d: "AutoSequence sample_tlm" "ContentType sample_tlm = CFE_MSG_Type_Tlm" "6 \<le> length (Content sample_tlm)"
    by (simp_all add: sample_tlm_def)
  have "0x3FFF < (0x4000 :: u16)" by simp
  with sequence_count_stamped [OF r l' sample_counted_fields(2) d c refl] show ?thesis by blast
qed

section \<open>Events about a released buffer\<close>

text \<open>With no event pending in the calling task, every error gives its event.\<close>

lemma guarded_event_open:
  "TskId = Some t \<Longrightarrow> StopRecurseFlags g ! t = 0 \<Longrightarrow> guarded_event TskId k evs g = (g, evs)"
  using guarded_event_state [of TskId k evs g]
  by (simp add: guarded_event_def CFE_SB_RequestToSendEvent_def Let_def)

lemma send_err_events_open:
  assumes "TaskIndex env = Some t" and "StopRecurseFlags g ! t = 0"
  shows "fold (send_err_event env b) errs (g, acc) = (g, acc @ concat (map (\<lambda>e.
      snd (snd (CFE_SB_GetPipeName env (Some []) OS_MAX_API_NAME (ErrPipeId e) g)) @
      [SendErrEvent (EventId e) (map_option BufMsgId (Bufs g b))]) errs))"
proof (induction errs arbitrary: acc)
  case (Cons e errs)
  have "send_err_event env b e (g, acc) = (g, acc @ snd (snd (CFE_SB_GetPipeName env (Some []) OS_MAX_API_NAME (ErrPipeId e) g)) @
      [SendErrEvent (EventId e) (map_option BufMsgId (Bufs g b))])"
    unfolding send_err_event_def prod.case guarded_event_open [OF assms] by simp
  then show ?case using Cons.IH by simp
qed simp

lemma GetPipeName_no_send_err: "SendErrEvent e x \<notin> set (snd (snd (CFE_SB_GetPipeName env p n pid g)))"
  by (simp add: CFE_SB_GetPipeName_def Let_def split: prod.split)

lemma apply_actions_refused:
  "(\<And>x. x \<in> set xs \<Longrightarrow> act_puts b (act x) = []) \<Longrightarrow> Bufs (apply_actions b act xs g) = Bufs g"
  by (induction xs arbitrary: g) simp_all

text \<open>
  The events about failed deliveries are sent after the buffer has been released, and their
  text reads the message id from its descriptor.  When no queue took the buffer and only the sender
  held it, the descriptor has been returned to the pool by then: every such event reads
  memory that is not allocated any more.
\<close>

theorem send_error_event_reads_freed_buffer:
  assumes inv: "sub_inv cfg g L" and bi: "buf_inv ex g it zc {#b#}" and uc: "use_count g b = 1"
    and r: "CFE_SBR_IsValidRouteId r"
    and refused: "\<And>d. d \<in> set (route_view g L r) \<Longrightarrow> act_puts b (send_action env g d) = []"
    and err: "d0 \<in> set (route_view g L r)" "send_action env g d0 \<noteq> Passed"
    and guard: "TaskIndex env = Some t" "StopRecurseFlags g ! t = 0"
  shows "\<exists>g' outs. CFE_SB_BroadcastBufferToRoute env b r g = Some (g', outs, []) \<and> Bufs g' b = None \<and>
    (\<exists>e. SendErrEvent e None \<in> set outs) \<and> (\<forall>e x. SendErrEvent e x \<in> set outs \<longrightarrow> x = None)"
proof -
  define g1 where "g1 = broadcast_sequence b r g"
  define g2 where "g2 = apply_actions b (\<lambda>d. send_action env g (dest_at g d)) (L r) g1"
  define errs where "errs = concat (map (\<lambda>d. act_errs (DestPipeId d) (send_action env g d)) (route_view g L r))"
  define g3 where "g3 = upd_hk (\<lambda>h. h\<lparr>MsgSendErrorCounter := MsgSendErrorCounter h + 1\<rparr>) g2"
  define g4 where "g4 = broadcast_release b g3"
  have "act_errs p (send_action env g d0) \<noteq> []" for p
    using err(2) refused [OF err(1)] by (cases "send_action env g d0") simp_all
  then have ne: "errs \<noteq> []" using err(1) by (auto simp: errs_def)
  have none: "concat (map (\<lambda>d. act_puts b (send_action env g d)) (route_view g L r)) = []" using refused by simp
  have "act_puts b (send_action env g (dest_at g x)) = []" if "x \<in> set (L r)" for x
    using refused [of "dinfo (dest_at g x)"] that by (simp add: route_view_def)
  then have same: "Bufs g3 = Bufs g1" unfolding g3_def g2_def by (simp add: apply_actions_refused)
  then have "buf_inv ex g3 it zc {#b#}"
    using bi by (simp add: g3_def g2_def g1_def buf_inv_same_bufs [of _ g1])
  moreover have "use_count g3 b = 1"
    using uc broadcast_sequence_use_count [of b r g b] same by (simp add: use_count_def g1_def)
  ultimately have free: "Bufs g4 b = None"
    unfolding g4_def using broadcast_release_inv(2) by simp
  have fl: "StopRecurseFlags g4 ! t = 0" using guard(2) by (simp add: g4_def g3_def g2_def g1_def)
  define outs where "outs = concat (map (\<lambda>e. snd (snd (CFE_SB_GetPipeName env (Some []) OS_MAX_API_NAME (ErrPipeId e) g4)) @
      [SendErrEvent (EventId e) None]) errs)"
  have ev: "fold (send_err_event env b) errs (g4, []) = (g4, outs)"
    unfolding send_err_events_open [OF guard(1) fl] outs_def by (simp add: free)
  have "CFE_SB_BroadcastBufferToRoute env b r g = Some (g4, outs, [])"
    unfolding CFE_SB_BroadcastBufferToRoute_def broadcast_locked_def broadcast_body [OF inv] none
    using ev ne r by (simp add: g1_def [symmetric] g2_def [symmetric] errs_def [symmetric] g3_def [symmetric] g4_def [symmetric])
  moreover have "SendErrEvent (EventId (hd errs)) None \<in> set outs" using ne by (cases errs) (simp_all add: outs_def)
  moreover have "x = None" if "SendErrEvent e x \<in> set outs" for e x
    using that GetPipeName_no_send_err by (auto simp: outs_def)
  ultimately show ?thesis using free by blast
qed

text \<open>The queue of the only subscriber is full.\<close>

theorem send_error_event_reads_freed_buffer_witness:
  "\<exists>g L g' outs. subs g L 0x1806 \<noteq> [] \<and>
    CFE_SB_BroadcastBufferToRoute (sample_env 1000\<lparr>QueuePut := \<lambda>_. OS_QUEUE_FULL\<rparr>) 2000 (route_of (routes (SBR g)) 0x1806) g =
      Some (g', outs, []) \<and> (\<exists>e. SendErrEvent e None \<in> set outs)"
proof -
  obtain g L where s: "sub_inv SBR_MAP_DIRECT g L" "subs g L 0x1806 = [new_dest 0x160001 4 0]"
    "buf_inv True g [] [] {#}" "PipeTbl g = PipeTbl sample_bus" "0x1806 \<in> set (routes (SBR g))"
    using sample_sending by metis
  let ?g = "(with_buf 2000 sample_buf g)\<lparr>StopRecurseFlags := [0, 0]\<rparr>" and ?r = "route_of (routes (SBR g)) 0x1806"
  let ?env = "sample_env 1000\<lparr>QueuePut := \<lambda>_. OS_QUEUE_FULL\<rparr>"
  have v: "route_view ?g L ?r = [new_dest 0x160001 4 0]"
    using s(2) by (simp add: subs_def route_view_def dest_at_def)
  have "pipe_at ?g 1 = pipe_at sample_bus 1" by (simp add: pipe_at_def s(4))
  then have act: "send_action ?env ?g (new_dest 0x160001 4 0) = Queue_full"
    by (simp add: send_action_def new_dest_def CFE_SB_PipeDescIsMatch_def zero_PipeD_def sample_bus_pipe)
  have si: "sub_inv SBR_MAP_DIRECT ?g L"
    by (rule sub_inv_keep [OF s(1)]) (simp_all add: pipe_at_def)
  have "buf_inv True (with_buf 2000 sample_buf g) [] [] {#2000#}"
    by (rule with_buf_inv [OF s(3)]) (simp add: sample_buf_def)
  then have bi: "buf_inv True ?g [] [] {#2000#}" by (subst buf_inv_same_bufs [of _ "with_buf 2000 sample_buf g"]) simp_all
  have "use_count ?g 2000 = 1" by (simp add: use_count_def sample_buf_def)
  moreover have "CFE_SBR_IsValidRouteId ?r" using sub_inv_lookup(2) [OF s(1)] s(5) by simp
  moreover have "TaskIndex ?env = Some 1" "StopRecurseFlags ?g ! 1 = 0" by simp_all
  ultimately obtain g' outs where "CFE_SB_BroadcastBufferToRoute ?env 2000 ?r ?g = Some (g', outs, [])"
    "\<exists>e. SendErrEvent e None \<in> set outs"
    using send_error_event_reads_freed_buffer [OF si bi _ _ _ _ _ \<open>TaskIndex ?env = Some 1\<close>, of ?r "new_dest 0x160001 4 0"]
    by (auto simp: v act)
  moreover have "subs ?g L 0x1806 \<noteq> []" using v by (simp add: subs_def)
  ultimately show ?thesis by (intro exI [of _ ?g] exI [of _ L] exI [of _ g'] exI [of _ outs]) simp
qed

section \<open>Sending a message\<close>

text \<open>What the header of a message says.\<close>

definition msg_id :: "CFE_SB_Env \<Rightarrow> message \<Rightarrow> CFE_SB_MsgId" where
  "msg_id env msg = the (snd (CFE_MSG_GetMsgId (MsgCfg env) (Some msg) (Some CFE_SB_INVALID_MSG_ID)))"

definition msg_size :: "message \<Rightarrow> nat" where
  "msg_size msg = the (snd (CFE_MSG_GetSize (Some msg) (Some 0)))"

definition msg_type :: "message \<Rightarrow> CFE_MSG_Type" where
  "msg_type msg = the (snd (CFE_MSG_GetType (Some msg) (Some CFE_MSG_Type_Invalid)))"

text \<open>What a receiver finds in the buffer: the message, with the sequence count for telemetry.\<close>

definition sent_content :: "bool \<Rightarrow> CFE_MSG_Type \<Rightarrow> u16 \<Rightarrow> message \<Rightarrow> message" where
  "sent_content incr ty c m = (if incr \<and> ty = CFE_MSG_Type_Tlm then the (snd (CFE_MSG_SetSequenceCount (Some m) c)) else m)"

lemma validate_ok:
  assumes inv: "sub_inv (MapCfg env) g L" and m: "CFE_SB_IsValidMsgId (msg_id env msg)" "msg_id env msg \<in> set (routes (SBR g))"
    and sz: "msg_size msg \<le> 32768"
  shows "CFE_SB_TransmitMsgValidate env (Some msg) CFE_SB_INVALID_MSG_ID 0 CFE_SBR_INVALID_ROUTE_ID g =
    Some (g, CFE_SUCCESS, msg_id env msg, msg_size msg, route_of (routes (SBR g)) (msg_id env msg), [])"
  using m sz sub_inv_lookup [OF inv, of "msg_id env msg"]
  by (simp add: CFE_SB_TransmitMsgValidate_def msg_id_def [symmetric] msg_size_def [symmetric] Let_def)

lemma GetBuffer_new:
  assumes "GetPoolBuf env (n + ContentOffset env) = (st, b)" and "0 \<le> sint st"
  shows "snd (CFE_SB_GetBufferFromPool env n g) = Some b"
    and "Bufs (fst (CFE_SB_GetBufferFromPool env n g)) = (Bufs g)(b \<mapsto>
      \<lparr>BufMsgId = CFE_SB_INVALID_MSG_ID, BufAppId = 0, AllocatedSize = n + ContentOffset env, ContentSize = 0,
       ContentType = CFE_MSG_Type_Invalid, AutoSequence = False, UseCount = 1, Content = StaleContent env\<rparr>)"
  using assms by (auto simp: CFE_SB_GetBufferFromPool_def Let_def)

text \<open>The buffer is filled before the broadcast.\<close>

lemma transmit_prepare:
  assumes inv: "sub_inv cfg g L" and bi: "buf_inv ex g it zc R"
    and pool: "GetPoolBuf env (sz + ContentOffset env) = (st, b)" "0 \<le> sint st" "b \<notin> dom (Bufs g)"
    and r: "CFE_SBR_IsValidRouteId r"
  shows "\<exists>g1. transmit_get_buffer env CFE_SUCCESS sz r g = (g1, CFE_SUCCESS, Some b) \<and>
    (let g2 = transmit_fill b msg m sz incr g1 in
      sub_inv cfg g2 L \<and> subs g2 L = subs g L \<and> route_view g2 L = route_view g L \<and> SBR g2 = SBR g \<and> PipeTbl g2 = PipeTbl g \<and>
      HKTlmMsg g2 = HKTlmMsg g \<and> buf_inv ex g2 it zc (add_mset b R) \<and> (\<forall>x. x \<noteq> b \<longrightarrow> Bufs g2 x = Bufs g x) \<and>
      (\<exists>d. Bufs g2 b = Some d \<and> buf_data d = (m, sz + ContentOffset env, sz, msg_type msg, incr, take sz msg @ drop sz (StaleContent env))))"
proof -
  let ?g1 = "fst (CFE_SB_GetBufferFromPool env sz g)"
  let ?g2 = "transmit_fill b msg m sz incr ?g1"
  note gb = GetBuffer_new [OF pool(1,2), of g]
  have call: "CFE_SB_GetBufferFromPool env sz g = (?g1, Some b)" using gb(1) by (metis prod.collapse)
  have tg: "transmit_get_buffer env CFE_SUCCESS sz r g = (?g1, CFE_SUCCESS, Some b)"
    unfolding transmit_get_buffer_def using r by (subst call) (simp add: Let_def)
  have f: "PipeTbl ?g2 = PipeTbl g" "Dests ?g2 = Dests g" "SBR ?g2 = SBR g" "LastPipeId ?g2 = LastPipeId g" "HKTlmMsg ?g2 = HKTlmMsg g"
    by (simp_all add: transmit_fill_def)
  have si: "sub_inv cfg ?g2 L" by (rule sub_inv_keep [OF inv]) (simp_all add: f pipe_at_def)
  have rv: "route_view ?g2 L = route_view g L" by (simp add: route_view_def dest_at_def f fun_eq_iff)
  have b1: "buf_inv ex ?g1 it zc (add_mset b R)"
  proof -
    define env' where "env' = env\<lparr>GetPoolBuf := \<lambda>_. (st, b)\<rparr>"
    have "?g1 = fst (CFE_SB_GetBufferFromPool env' sz g)" "snd (CFE_SB_GetBufferFromPool env' sz g) = Some b"
      using pool by (simp_all add: env'_def CFE_SB_GetBufferFromPool_def Let_def)
    then show ?thesis using GetBuffer_cases(2) [OF bi, of env' sz b] pool by (simp add: env'_def)
  qed
  have bi2: "buf_inv ex ?g2 it zc (add_mset b R)"
    unfolding transmit_fill_def by (subst buf_inv_upd_buf) (simp_all add: b1)
  have ty: "the (snd (CFE_MSG_GetType (Some msg) (Some t))) = msg_type msg" for t
    by (simp add: msg_type_def CFE_MSG_GetType_def Let_def)
  have data: "\<exists>d. Bufs ?g2 b = Some d \<and> buf_data d = (m, sz + ContentOffset env, sz, msg_type msg, incr, take sz msg @ drop sz (StaleContent env))"
    by (simp add: transmit_fill_def gb(2) buf_data_def ty)
  have other: "\<forall>x. x \<noteq> b \<longrightarrow> Bufs ?g2 x = Bufs g x" by (simp add: transmit_fill_def gb(2))
  have "subs ?g2 L = subs g L" by (simp add: fun_eq_iff subs_def f rv)
  then show ?thesis using tg si rv f bi2 data other by (intro exI [of _ ?g1]) (simp add: Let_def f)
qed

text \<open>The buffer after a broadcast that some queue accepted.\<close>

lemma broadcast_content:
  assumes inv: "sub_inv cfg g L" and c: "CFE_SB_BroadcastBufferToRoute env b r g = Some (g', outs, puts)"
    and r: "CFE_SBR_IsValidRouteId r"
    and d: "Bufs g b = Some d0" and d': "Bufs g' b = Some d"
  shows "BufMsgId d = BufMsgId d0" "ContentSize d = ContentSize d0"
    "Content d = sent_content (AutoSequence d0) (ContentType d0) (CFE_SBR_GetSequenceCounter (SBR g) r + 1) (Content d0)"
proof -
  have "map_option buf_data (Bufs (broadcast_sequence b r g) b) = Some (buf_data d)"
    using broadcast_data [OF inv c] r d' by (simp add: buf_step_def)
  moreover have "CFE_SBR_GetSequenceCounter (CFE_SBR_IncrementSequenceCounter (SBR g) r) r = CFE_SBR_GetSequenceCounter (SBR g) r + 1"
    using sequence_of_upd [OF r dest_listsD(1) [OF sub_invD(3) [OF inv]]] r by (simp add: CFE_SBR_IncrementSequenceCounter_def)
  ultimately show "BufMsgId d = BufMsgId d0" "ContentSize d = ContentSize d0"
    "Content d = sent_content (AutoSequence d0) (ContentType d0) (CFE_SBR_GetSequenceCounter (SBR g) r + 1) (Content d0)"
    using d by (auto simp: broadcast_sequence_def buf_at_def buf_data_def sent_content_def Let_def split: if_splits)
qed

text \<open>
  C5. Sending a well-formed message for a message id with subscribers, when the pool has memory:
  the call ends with \<open>CFE_SUCCESS\<close>.  The queue writes are those of the
  subscriptions that accept the message, in order.  Unless no queue took it, the buffer holds the message
  id, the size and the bytes of the message, telemetry with the next sequence count of its
  route.  All other buffers are unchanged, and the only new references are those of the
  queues: the sender keeps none.
\<close>

theorem send_msg_correct:
  assumes inv: "sub_inv (MapCfg env) g L" and bi: "buf_inv ex g it zc R"
    and m: "CFE_SB_IsValidMsgId (msg_id env msg)" "msg_id env msg \<in> set (routes (SBR g))"
    and sz: "msg_size msg \<le> 32768" "sz = msg_size msg"
    and pool: "GetPoolBuf env (sz + ContentOffset env) = (st, b)" "0 \<le> sint st" "b \<notin> dom (Bufs g)"
  shows "\<exists>g' outs puts it'. CFE_SB_TransmitMsg env (Some msg) incr g = Some (g', CFE_SUCCESS, outs, puts) \<and>
    puts = concat (map (\<lambda>d. act_puts b (send_action env g d)) (subs g L (msg_id env msg))) \<and>
    sub_inv (MapCfg env) g' L \<and>
    subs g' L = (subs g L)(msg_id env msg := map (\<lambda>d. act_dest (send_action env g d) d) (subs g L (msg_id env msg))) \<and>
    (\<forall>x. x \<noteq> b \<longrightarrow> Bufs g' x = Bufs g x) \<and>
    buf_inv ex g' it' zc (R + replicate_mset (length puts) b) \<and>
    (puts \<noteq> [] \<longrightarrow> (\<exists>d. Bufs g' b = Some d \<and> BufMsgId d = msg_id env msg \<and> ContentSize d = sz \<and>
      Content d = sent_content incr (msg_type msg)
        (CFE_SBR_GetSequenceCounter (SBR g) (route_of (routes (SBR g)) (msg_id env msg)) + 1)
        (take sz msg @ drop sz (StaleContent env))))"
proof -
  let ?m = "msg_id env msg" and ?r = "route_of (routes (SBR g)) (msg_id env msg)"
  have r: "CFE_SBR_IsValidRouteId ?r" using sub_inv_lookup(2) [OF inv] m(2) by simp
  obtain g1 where get: "transmit_get_buffer env CFE_SUCCESS sz ?r g = (g1, CFE_SUCCESS, Some b)"
    and p: "let g2 = transmit_fill b msg ?m sz incr g1 in
      sub_inv (MapCfg env) g2 L \<and> subs g2 L = subs g L \<and> route_view g2 L = route_view g L \<and> SBR g2 = SBR g \<and> PipeTbl g2 = PipeTbl g \<and>
      HKTlmMsg g2 = HKTlmMsg g \<and> buf_inv ex g2 it zc (add_mset b R) \<and> (\<forall>x. x \<noteq> b \<longrightarrow> Bufs g2 x = Bufs g x) \<and>
      (\<exists>d. Bufs g2 b = Some d \<and> buf_data d = (?m, sz + ContentOffset env, sz, msg_type msg, incr, take sz msg @ drop sz (StaleContent env)))"
    using transmit_prepare [OF inv bi pool r] by blast
  define g2 where "g2 = transmit_fill b msg ?m sz incr g1"
  note q = p [unfolded Let_def, folded g2_def]
  have c0: "count R b = 0" using buf_invD(5) [OF bi, of b] pool(3) by (auto simp: use_count_def domIff)
  have act: "send_action env g2 d = send_action env g d" for d by (rule send_action_core) (simp add: pipe_at_def q)
  obtain g3 outs it' puts where bc: "CFE_SB_BroadcastBufferToRoute env b ?r g2 = Some (g3, outs, puts)"
    and puts: "puts = concat (map (\<lambda>d. act_puts b (send_action env g d)) (subs g L ?m))"
    and s3: "sub_inv (MapCfg env) g3 L" "same_routes (SBR g2) (SBR g3)"
      "route_view g3 L = (route_view g2 L)(?r := map (\<lambda>d. act_dest (send_action env g d) d) (subs g L ?m))"
    and b3: "buf_inv ex g3 it' (remove1 b zc) (R + replicate_mset (length puts) b)"
    using broadcast_ok [of "MapCfg env" g2 L ex it zc b R env ?r] q c0 unfolding act subs_def by auto
  have call: "CFE_SB_TransmitMsg env (Some msg) incr g = Some (g3, CFE_SUCCESS, outs, puts)"
    using validate_ok [OF inv m sz(1)] get bc
    by (simp add: CFE_SB_TransmitMsg_def sz(2) [symmetric] g2_def [symmetric])
  have zc: "remove1 b zc = zc" using buf_invD(2) [OF bi] pool(3) by (auto intro: remove1_idem)
  have "subs g3 L = (subs g2 L)(?m := map (\<lambda>d. act_dest (send_action env g d) d) (subs g L ?m))"
    by (rule subs_update [of "MapCfg env"])
       (use q s3 m(2) same_routes_routes [OF s3(2)] sub_invD(3) [OF s3(1)] in simp_all)
  moreover have "buf_step b (broadcast_sequence b ?r g2) g3" using broadcast_data [OF _ bc] q r by (auto split: if_splits)
  then have "\<forall>x. x \<noteq> b \<longrightarrow> Bufs g3 x = Bufs g2 x" by (simp add: buf_step_def broadcast_sequence_def Let_def)
  moreover have "\<exists>d. Bufs g3 b = Some d \<and> BufMsgId d = ?m \<and> ContentSize d = sz \<and>
      Content d = sent_content incr (msg_type msg) (CFE_SBR_GetSequenceCounter (SBR g) ?r + 1) (take sz msg @ drop sz (StaleContent env))"
    if "puts \<noteq> []"
  proof -
    have "b \<in># R + replicate_mset (length puts) b" using that by (cases puts) simp_all
    then obtain d where d: "Bufs g3 b = Some d" using buf_inv_referenced [OF b3] by auto
    obtain d0 where d0: "Bufs g2 b = Some d0"
      "buf_data d0 = (?m, sz + ContentOffset env, sz, msg_type msg, incr, take sz msg @ drop sz (StaleContent env))"
      using q by blast
    show ?thesis using broadcast_content [OF _ bc r d0(1) d] q d d0(2) by (auto simp: buf_data_def)
  qed
  ultimately show ?thesis using call puts s3(1) b3 zc q by auto
qed

text \<open>The command of the sample buffer, sent on the sample bus.\<close>

lemma sample_msg:
  "msg_id (sample_env a) (Content sample_buf) = 0x1806" "msg_size (Content sample_buf) = 8"
  by (simp_all add: msg_id_def msg_size_def sample_buf_def CFE_MSG_GetMsgId_def CFE_MSG_GetMsgId_v1_def CFE_MSG_GetSize_def
      CFE_MSG_GetHeaderField_def Let_def)

theorem send_msg_correct_witness:
  "\<exists>g L g' outs d. CFE_SB_TransmitMsg (sample_env 2000) (Some (Content sample_buf)) True g =
      Some (g', CFE_SUCCESS, outs, [(0x20001, 2000)]) \<and>
    subs g' L 0x1806 = [(new_dest 0x160001 4 0)\<lparr>BuffCount := 1, DestCnt := 1\<rparr>] \<and>
    Bufs g' 2000 = Some d \<and> BufMsgId d = 0x1806 \<and> ContentSize d = 8"
proof -
  obtain g L where s: "sub_inv SBR_MAP_DIRECT g L" "subs g L 0x1806 = [new_dest 0x160001 4 0]"
    "buf_inv True g [] [] {#}" "PipeTbl g = PipeTbl sample_bus" "0x1806 \<in> set (routes (SBR g))" "Bufs g = (\<lambda>_. None)"
    using sample_sending by metis
  let ?env = "sample_env 2000" and ?msg = "Content sample_buf"
  have h: "sub_inv (MapCfg ?env) g L" "CFE_SB_IsValidMsgId (msg_id ?env ?msg)" "msg_id ?env ?msg \<in> set (routes (SBR g))"
    "msg_size ?msg \<le> 32768" "8 = msg_size ?msg" "GetPoolBuf ?env (8 + ContentOffset ?env) = (48, 2000)" "0 \<le> sint (48 :: int32)"
    "2000 \<notin> dom (Bufs g)"
    using s by (simp_all add: sample_msg IsValidMsgId_iff)
  have puts: "concat (map (\<lambda>d. act_puts 2000 (send_action ?env g d)) (subs g L (msg_id ?env ?msg))) = [(0x20001, 2000)]"
    and ds: "map (\<lambda>d. act_dest (send_action ?env g d) d) (subs g L (msg_id ?env ?msg)) =
      [(new_dest 0x160001 4 0)\<lparr>BuffCount := 1, DestCnt := 1\<rparr>]"
    by (simp_all add: sample_msg s(2) sample_action [OF s(4)]) (simp add: new_dest_def)
  obtain g' outs where "CFE_SB_TransmitMsg ?env (Some ?msg) True g = Some (g', CFE_SUCCESS, outs, [(0x20001, 2000)])"
    and g': "subs g' L = (subs g L)(msg_id ?env ?msg := [(new_dest 0x160001 4 0)\<lparr>BuffCount := 1, DestCnt := 1\<rparr>])"
    "\<exists>d. Bufs g' 2000 = Some d \<and> BufMsgId d = msg_id ?env ?msg \<and> ContentSize d = 8"
    using send_msg_correct [OF h(1) s(3) h(2-8), where incr = True] unfolding puts ds by blast
  moreover have "subs g' L 0x1806 = [(new_dest 0x160001 4 0)\<lparr>BuffCount := 1, DestCnt := 1\<rparr>]"
    unfolding g'(1) sample_msg by simp
  ultimately show ?thesis unfolding sample_msg by blast
qed

section \<open>Messages that are not sent\<close>

text \<open>
  Every way a send ends without a broadcast.  A NULL pointer and an invalid message id give
  \<open>CFE_SB_BAD_ARGUMENT\<close>, a message of more than 32768 bytes \<open>CFE_SB_MSG_TOO_BIG\<close> and a
  pool without memory \<open>CFE_SB_BUF_ALOC_ERR\<close>; each counts one send error and changes nothing else.
  A message id nobody has subscribed to is not an error: it is counted on its own.  No
  queue is written in any of these cases.
\<close>

theorem send_errors:
  assumes inv: "sub_inv (MapCfg env) g L"
  defines "failed \<equiv> upd_hk (\<lambda>h. h\<lparr>MsgSendErrorCounter := MsgSendErrorCounter h + 1\<rparr>) g"
  defines "unheard \<equiv> upd_hk (\<lambda>h. h\<lparr>NoSubscribersCounter := NoSubscribersCounter h + 1\<rparr>) g"
  shows "CFE_SB_TransmitMsg env NULL incr g =
      Some (failed, CFE_SB_BAD_ARGUMENT, [Event CFE_SB_SEND_BAD_ARG_EID EVS_ERROR], []) \<and>
    (\<not> CFE_SB_IsValidMsgId (msg_id env msg) \<longrightarrow>
      CFE_SB_TransmitMsg env (Some msg) incr g =
        Some (failed, CFE_SB_BAD_ARGUMENT, [Event CFE_SB_SEND_INV_MSGID_EID EVS_ERROR], [])) \<and>
    (CFE_SB_IsValidMsgId (msg_id env msg) \<and> msg_size msg > 32768 \<longrightarrow>
      CFE_SB_TransmitMsg env (Some msg) incr g =
        Some (failed, CFE_SB_MSG_TOO_BIG, [Event CFE_SB_MSG_TOO_BIG_EID EVS_ERROR], [])) \<and>
    (CFE_SB_IsValidMsgId (msg_id env msg) \<and> msg_size msg \<le> 32768 \<and> msg_id env msg \<notin> set (routes (SBR g)) \<longrightarrow>
      CFE_SB_TransmitMsg env (Some msg) incr g =
        Some (unheard, CFE_SUCCESS, snd (guarded_event (TaskIndex env) 0 [Event CFE_SB_SEND_NO_SUBS_EID EVS_INFORMATION] unheard), [])) \<and>
    (CFE_SB_IsValidMsgId (msg_id env msg) \<and> msg_size msg \<le> 32768 \<and> msg_id env msg \<in> set (routes (SBR g)) \<and>
       sint (fst (GetPoolBuf env (msg_size msg + ContentOffset env))) < 0 \<longrightarrow>
      CFE_SB_TransmitMsg env (Some msg) incr g =
        Some (failed, CFE_SB_BUF_ALOC_ERR, snd (guarded_event (TaskIndex env) 1 [Event CFE_SB_GET_BUF_ERR_EID EVS_ERROR] failed), []))"
  (is "?null \<and> (?inv \<longrightarrow> ?c2) \<and> (?big \<longrightarrow> ?c3) \<and> (?none \<longrightarrow> ?c4) \<and> (?pool \<longrightarrow> ?c5)")
proof (intro conjI impI)
  note defs = CFE_SB_TransmitMsg_def CFE_SB_TransmitMsgValidate_def transmit_get_buffer_def Let_def
    msg_id_def [symmetric] msg_size_def [symmetric]
  note lk = sub_inv_lookup [OF inv, of "msg_id env msg"]
  show ?null by (simp add: defs failed_def)
  show ?c2 if ?inv using that by (simp add: defs failed_def)
  show ?c3 if ?big using that by (simp add: defs failed_def)
  show ?c4 if ?none
  proof -
    have "guarded_event (TaskIndex env) 0 evs unheard = (unheard, snd (guarded_event (TaskIndex env) 0 evs unheard))" for evs
      by (metis guarded_event_state prod.collapse)
    then show ?thesis using that lk by (simp add: defs unheard_def [symmetric] split: prod.split) (metis prod.inject)
  qed
  show ?c5 if p: ?pool
  proof -
    have "guarded_event (TaskIndex env) 1 evs failed = (failed, snd (guarded_event (TaskIndex env) 1 evs failed))" for evs
      by (metis guarded_event_state prod.collapse)
    moreover have "CFE_SB_GetBufferFromPool env (msg_size msg) g = (g, NULL)"
      using p by (auto simp: CFE_SB_GetBufferFromPool_def Let_def split: prod.split)
    ultimately show ?thesis
      using p lk validate_ok [OF inv, of msg]
      by (simp add: CFE_SB_TransmitMsg_def transmit_get_buffer_def failed_def [symmetric] split: prod.split) (metis prod.inject)
  qed
qed

theorem send_errors_witness:
  "CFE_SB_TransmitMsg (sample_env 2000) NULL True sample_bus =
      Some (upd_hk (\<lambda>h. h\<lparr>MsgSendErrorCounter := MsgSendErrorCounter h + 1\<rparr>) sample_bus, CFE_SB_BAD_ARGUMENT,
        [Event CFE_SB_SEND_BAD_ARG_EID EVS_ERROR], [])"
  using send_errors [of "sample_env 2000" sample_bus "\<lambda>_. []" True] sample_bus_inv by simp

end
