(* ===== verification/CFE_SB_Recv.thy ===== *)
theory CFE_SB_Recv
  imports CFE_SB_Transmit
begin

unbundle bit_operations_syntax

text \<open>
  Receiving from a pipe, the zero-copy calls and the clean-up of an application
  (\<^verbatim>\<open>cfe_sb_api.c\<close>, \<^verbatim>\<open>cfe_sb_priv.c\<close>).

  A pointer to the contents of a buffer is the address of its descriptor.  A receive has two
  locked sections with the read of the operating system queue between them, where other
  tasks run; each section is a definition.
\<close>

section \<open>Receiving\<close>

text \<open>The checks of the arguments: status, pending event and the time-out for the queue.\<close>

definition receive_args :: "nat ptr ptr \<Rightarrow> int32 \<Rightarrow> int32 \<times> nat \<times> int32" where
  "receive_args BufPtr TimeOut =
     (if BufPtr = NULL then (CFE_SB_BAD_ARGUMENT, CFE_SB_RCV_BAD_ARG_EID, OS_PEND)
      else if 0 < sint TimeOut then (CFE_SUCCESS, 0, TimeOut)
      else if TimeOut = CFE_SB_POLL then (CFE_SUCCESS, 0, OS_CHECK)
      else if TimeOut \<noteq> CFE_SB_PEND_FOREVER then (CFE_SB_BAD_ARGUMENT, CFE_SB_RCV_BAD_ARG_EID, OS_PEND)
      else (CFE_SUCCESS, 0, OS_PEND))"

text \<open>The first locked section: the pipe is found and its last buffer released.\<close>

definition receive_begin :: "CFE_SB_PipeId \<Rightarrow> CFE_SB_Global \<Rightarrow> CFE_SB_Global \<times> int32 \<times> nat \<times> u32 ptr \<times> osal_id" where
  "receive_begin pid g =
     (let PipeDscPtr = CFE_SB_LocatePipeDescByID pid;
          i = the PipeDscPtr
      in if \<not> CFE_SB_PipeDescIsMatch g PipeDscPtr pid
         then (g, CFE_SB_BAD_ARGUMENT, CFE_SB_BAD_PIPEID_EID, PipeDscPtr, 0)
         else (case LastBuffer (pipe_at g i) of
                 None \<Rightarrow> (g, CFE_SUCCESS, 0, PipeDscPtr, SysQueueId (pipe_at g i))
               | Some b \<Rightarrow> (upd_pipe i (\<lambda>p. p\<lparr>LastBuffer := NULL\<rparr>) (CFE_SB_DecrBufUseCnt b g),
                           CFE_SUCCESS, 0, PipeDscPtr, SysQueueId (pipe_at g i))))"

text \<open>What the queue answered: its status, the address read and whether the size was right.\<close>

type_synonym queue_get = "int32 \<times> nat ptr \<times> bool"

definition receive_status :: "queue_get \<Rightarrow> int32 \<times> nat" where
  "receive_status rcv =
     (case rcv of (RcvStatus, BufDscPtr, SizeOk) \<Rightarrow>
       if RcvStatus = OS_SUCCESS \<and> BufDscPtr \<noteq> NULL \<and> SizeOk then (CFE_SUCCESS, 0)
       else if RcvStatus = OS_QUEUE_EMPTY then (CFE_SB_NO_MESSAGE, 0)
       else if RcvStatus = OS_QUEUE_TIMEOUT then (CFE_SB_TIME_OUT, 0)
       else (CFE_SB_PIPE_RD_ERR, CFE_SB_Q_RD_ERR_EID))"

text \<open>The second locked section for a buffer: it becomes the last buffer of its pipe, if that still exists.\<close>

definition receive_store ::
  "CFE_SB_Env \<Rightarrow> CFE_SB_PipeId \<Rightarrow> u32 ptr \<Rightarrow> nat \<Rightarrow> CFE_SB_Global \<Rightarrow> (CFE_SB_Global \<times> int32 \<times> nat \<times> nat ptr) option" where
  "receive_store env pid PipeDscPtr b g = do {
     (g, Status, ev, out) \<leftarrow>
       (if CFE_SB_PipeDescIsMatch g PipeDscPtr pid
        then do {
          let i = the PipeDscPtr;
          let g = CFE_SB_IncrBufUseCnt b g;
          let g = upd_pipe i (\<lambda>p. p\<lparr>LastBuffer := Some b\<rparr>) g;
          RouteId \<leftarrow> CFE_SBR_GetRouteId (MapCfg env) (SBR g) (BufMsgId (buf_at g b));
          DestPtr \<leftarrow> CFE_SB_GetDestPtr g RouteId pid;
          let g = (case DestPtr of
                     None \<Rightarrow> g
                   | Some d \<Rightarrow> if BuffCount (dest_at g d) > 0 then upd_dest d (\<lambda>d. d\<lparr>BuffCount := BuffCount d - 1\<rparr>) g else g);
          let g = (if CurrentQueueDepth (pipe_at g i) > 0
                   then upd_pipe i (\<lambda>p. p\<lparr>CurrentQueueDepth := CurrentQueueDepth p - 1\<rparr>) g else g);
          Some (g, CFE_SUCCESS, 0, Some b)
        }
        else Some (g, CFE_SB_PIPE_RD_ERR, CFE_SB_BAD_PIPEID_EID, NULL));
     Some (CFE_SB_DecrBufUseCnt b g, Status, ev, out)
   }"

text \<open>The error counters, before the lock is released.\<close>

definition receive_count :: "int32 \<Rightarrow> nat \<Rightarrow> CFE_SB_Global \<Rightarrow> CFE_SB_Global" where
  "receive_count Status PendingEventID g =
     (if Status = CFE_SUCCESS then g
      else if PendingEventID = CFE_SB_RCV_BAD_ARG_EID \<or> PendingEventID = CFE_SB_BAD_PIPEID_EID
      then upd_hk (\<lambda>h. h\<lparr>MsgReceiveErrorCounter := MsgReceiveErrorCounter h + 1\<rparr>) g
      else upd_hk (\<lambda>h. h\<lparr>InternalErrorCounter := InternalErrorCounter h + 1\<rparr>) g)"

text \<open>\<open>get q t\<close> is the answer of queue \<open>q\<close> to a read with time-out \<open>t\<close>.\<close>

definition CFE_SB_ReceiveBuffer ::
  "CFE_SB_Env \<Rightarrow> (osal_id \<Rightarrow> int32 \<Rightarrow> queue_get) \<Rightarrow> nat ptr ptr \<Rightarrow> CFE_SB_PipeId \<Rightarrow> int32 \<Rightarrow> CFE_SB_Global \<Rightarrow>
     (CFE_SB_Global \<times> int32 \<times> nat ptr ptr \<times> CFE_SB_Output list) option" where
  "CFE_SB_ReceiveBuffer env get BufPtr pid TimeOut g = do {
     let (Status, ev, SysTimeout) = receive_args BufPtr TimeOut;
     let (g, Status, ev, PipeDscPtr, SysQueueId) =
           (if Status = CFE_SUCCESS then receive_begin pid g else (g, Status, ev, NULL, 0));
     let rcv = get SysQueueId SysTimeout;
     let (Status, ev) = (if Status = CFE_SUCCESS then receive_status rcv else (Status, ev));
     (g, Status, ev, out) \<leftarrow>
       (if Status = CFE_SUCCESS then receive_store env pid PipeDscPtr (the (fst (snd rcv))) g
        else Some (g, Status, ev, NULL));
     let g = receive_count Status ev g;
     Some (g, Status, map_option (\<lambda>_. out) BufPtr, if ev \<noteq> 0 then [Event ev EVS_ERROR] else [])
   }"

definition CFE_SB_RcvMsg ::
  "CFE_SB_Env \<Rightarrow> (osal_id \<Rightarrow> int32 \<Rightarrow> queue_get) \<Rightarrow> nat ptr ptr \<Rightarrow> CFE_SB_PipeId \<Rightarrow> int32 \<Rightarrow> CFE_SB_Global \<Rightarrow>
     (CFE_SB_Global \<times> int32 \<times> nat ptr ptr \<times> CFE_SB_Output list) option" where
  "CFE_SB_RcvMsg env get BufPtr pid TimeOut g = CFE_SB_ReceiveBuffer env get BufPtr pid TimeOut g"

section \<open>Zero copy\<close>

text \<open>The locked section: a buffer in the name of the application.\<close>

definition zero_copy_get :: "CFE_SB_Env \<Rightarrow> nat \<Rightarrow> CFE_ES_AppId \<Rightarrow> CFE_SB_Global \<Rightarrow> CFE_SB_Global \<times> nat ptr" where
  "zero_copy_get env MsgSize AppId g =
     (case CFE_SB_GetBufferFromPool env MsgSize g of
        (g, None) \<Rightarrow> (g, NULL)
      | (g, Some b) \<Rightarrow>
          (let g = upd_buf b (\<lambda>d. d\<lparr>BufAppId := AppId\<rparr>) g
           in (g\<lparr>Links := CFE_SB_TrackingListAdd ZeroCopyList (BufLink b) (Links g)\<rparr>, Some b)))"

text \<open>Results: the pointer to the contents and the cell of the caller's handle.\<close>

definition CFE_SB_ZeroCopyGetPtr ::
  "CFE_SB_Env \<Rightarrow> nat \<Rightarrow> nat ptr ptr \<Rightarrow> CFE_SB_Global \<Rightarrow> CFE_SB_Global \<times> nat ptr \<times> nat ptr ptr" where
  "CFE_SB_ZeroCopyGetPtr env MsgSize BufferHandle g =
     (if MsgSize > CFE_MISSION_SB_MAX_SB_MSG_SIZE then (g, NULL, BufferHandle)
      else if BufferHandle = NULL then (g, NULL, BufferHandle)
      else let (g, BufDscPtr) = (if fst (GetAppID env) = CFE_SUCCESS
                                 then zero_copy_get env MsgSize (snd (GetAppID env)) g else (g, NULL));
               g = (case BufDscPtr of
                      None \<Rightarrow> g
                    | Some b \<Rightarrow> upd_buf b (\<lambda>d. d\<lparr>Content := replicate MsgSize 0 @ drop MsgSize (Content d)\<rparr>) g)
           in (g, BufDscPtr, Some BufDscPtr))"

definition CFE_SB_ZeroCopyHandleValidate :: "nat ptr \<Rightarrow> nat ptr \<Rightarrow> CFE_SB_Global \<Rightarrow> int32" where
  "CFE_SB_ZeroCopyHandleValidate BufPtr ZeroCopyHandle g =
     (if BufPtr = NULL \<or> ZeroCopyHandle = NULL then CFE_SB_BAD_ARGUMENT
      else if BufAppId (buf_at g (the ZeroCopyHandle)) = CFE_ES_APPID_UNDEFINED \<or> ZeroCopyHandle \<noteq> BufPtr
      then CFE_SB_BUFFER_INVALID
      else CFE_SUCCESS)"

text \<open>The locked section of a release.\<close>

definition zero_copy_release :: "nat \<Rightarrow> CFE_SB_Global \<Rightarrow> CFE_SB_Global" where
  "zero_copy_release b g = CFE_SB_DecrBufUseCnt b (upd_buf b (\<lambda>d. d\<lparr>BufAppId := CFE_ES_APPID_UNDEFINED\<rparr>) g)"

definition CFE_SB_ZeroCopyReleasePtr :: "nat ptr \<Rightarrow> nat ptr \<Rightarrow> CFE_SB_Global \<Rightarrow> CFE_SB_Global \<times> int32" where
  "CFE_SB_ZeroCopyReleasePtr Ptr2Release ZeroCopyHandle g =
     (let Status = CFE_SB_ZeroCopyHandleValidate Ptr2Release ZeroCopyHandle g
      in if Status = CFE_SUCCESS then (zero_copy_release (the ZeroCopyHandle) g, Status) else (g, Status))"

text \<open>
  The validation writes message id and size into the descriptor itself.  \<open>RouteId0\<close> is what
  the local variable held before.
\<close>

definition CFE_SB_TransmitBuffer ::
  "CFE_SB_Env \<Rightarrow> CFE_SBR_RouteId \<Rightarrow> nat ptr \<Rightarrow> nat ptr \<Rightarrow> bool \<Rightarrow> CFE_SB_Global \<Rightarrow>
     (CFE_SB_Global \<times> int32 \<times> CFE_SB_Output list \<times> (osal_id \<times> nat) list) option" where
  "CFE_SB_TransmitBuffer env RouteId0 BufPtr ZeroCopyHandle IncrementSequenceCount g = do {
     let Status = CFE_SB_ZeroCopyHandleValidate BufPtr ZeroCopyHandle g;
     let b = the ZeroCopyHandle;
     (g, Status, outs, puts) \<leftarrow>
       (if Status = CFE_SUCCESS
        then do {
          (g, Status, MsgId, Size, RouteId, outs) \<leftarrow>
            CFE_SB_TransmitMsgValidate env (Some (Content (buf_at g b))) (BufMsgId (buf_at g b)) (ContentSize (buf_at g b)) RouteId0 g;
          let g = upd_buf b (\<lambda>d. d\<lparr>BufMsgId := MsgId, ContentSize := Size\<rparr>) g;
          if Status = CFE_SUCCESS
          then do {
            let g = upd_buf b (\<lambda>d. d\<lparr>AutoSequence := IncrementSequenceCount,
                      ContentType := the (snd (CFE_MSG_GetType (Some (Content d)) (Some (ContentType d))))\<rparr>) g;
            (g, outs', puts) \<leftarrow> CFE_SB_BroadcastBufferToRoute env b RouteId g;
            Some (g, Status, outs @ outs', puts)
          }
          else Some (g, Status, outs, [])
        }
        else Some (g, Status, [], []));
     let g = (if Status \<noteq> CFE_SUCCESS then upd_hk (\<lambda>h. h\<lparr>MsgSendErrorCounter := MsgSendErrorCounter h + 1\<rparr>) g else g);
     Some (g, Status, outs, puts)
   }"

definition CFE_SB_ZeroCopySend ::
  "CFE_SB_Env \<Rightarrow> CFE_SBR_RouteId \<Rightarrow> nat ptr \<Rightarrow> nat ptr \<Rightarrow> CFE_SB_Global \<Rightarrow>
     (CFE_SB_Global \<times> int32 \<times> CFE_SB_Output list \<times> (osal_id \<times> nat) list) option" where
  "CFE_SB_ZeroCopySend env r0 BufPtr BufferHandle g = CFE_SB_TransmitBuffer env r0 BufPtr BufferHandle True g"

definition CFE_SB_ZeroCopyPass ::
  "CFE_SB_Env \<Rightarrow> CFE_SBR_RouteId \<Rightarrow> nat ptr \<Rightarrow> nat ptr \<Rightarrow> CFE_SB_Global \<Rightarrow>
     (CFE_SB_Global \<times> int32 \<times> CFE_SB_Output list \<times> (osal_id \<times> nat) list) option" where
  "CFE_SB_ZeroCopyPass env r0 BufPtr BufferHandle g = CFE_SB_TransmitBuffer env r0 BufPtr BufferHandle False g"

section \<open>Clean-up of an application\<close>

text \<open>
  The walk along the zero-copy list.  A link in it is the first member of a buffer descriptor; the
  code casts it without a check, and a link that belongs to no descriptor has no meaning here.
\<close>

partial_function (option) release_walk ::
  "CFE_ES_AppId \<Rightarrow> CFE_SB_LinkAddr \<Rightarrow> CFE_SB_Global \<Rightarrow> CFE_SB_Global option" where
  "release_walk AppId NextLink g =
     (if CFE_SB_TrackingListIsEnd ZeroCopyList NextLink then Some g
      else case NextLink of
             BufLink b \<Rightarrow>
               (let Next = CFE_SB_TrackingListGetNext (Links g) NextLink;
                    g = (if BufAppId (buf_at g b) = AppId then CFE_SB_DecrBufUseCnt b g else g)
                in release_walk AppId Next g)
           | _ \<Rightarrow> None)"

definition CFE_SB_ZeroCopyReleaseAppId :: "CFE_ES_AppId \<Rightarrow> CFE_SB_Global \<Rightarrow> CFE_SB_Global option" where
  "CFE_SB_ZeroCopyReleaseAppId AppId g =
     (if AppId \<noteq> CFE_ES_APPID_UNDEFINED
      then release_walk AppId (CFE_SB_TrackingListGetNext (Links g) ZeroCopyList) g
      else Some g)"

text \<open>The ids of the pipes of an application, in the order of the table.\<close>

definition app_pipes :: "CFE_ES_AppId \<Rightarrow> CFE_SB_Global \<Rightarrow> CFE_SB_PipeId list" where
  "app_pipes AppId g =
     [CFE_SB_PipeDescGetID g i. i \<leftarrow> map of_nat [0 ..< 64],
        CFE_SB_PipeDescIsUsed g (Some i) \<and> PipeAppId (pipe_at g i) = AppId]"

fun delete_pipes ::
  "CFE_SB_Env \<Rightarrow> (osal_id \<Rightarrow> nat list) \<Rightarrow> CFE_ES_AppId \<Rightarrow> CFE_SB_PipeId list \<Rightarrow> CFE_SB_Global \<Rightarrow>
     (CFE_SB_Global \<times> CFE_SB_Output list) option" where
  "delete_pipes env drain AppId [] g = Some (g, [])"
| "delete_pipes env drain AppId (pid # pids) g = do {
     (g, _, outs) \<leftarrow> CFE_SB_DeletePipeWithAppId env drain pid AppId g;
     (g, outs') \<leftarrow> delete_pipes env drain AppId pids g;
     Some (g, outs @ outs')
   }"

definition CFE_SB_CleanUpApp ::
  "CFE_SB_Env \<Rightarrow> (osal_id \<Rightarrow> nat list) \<Rightarrow> CFE_ES_AppId \<Rightarrow> CFE_SB_Global \<Rightarrow> (CFE_SB_Global \<times> CFE_SB_Output list) option" where
  "CFE_SB_CleanUpApp env drain AppId g = do {
     (g, outs) \<leftarrow> delete_pipes env drain AppId (app_pipes AppId g) g;
     g \<leftarrow> CFE_SB_ZeroCopyReleaseAppId AppId g;
     Some (g, outs)
   }"

section \<open>What receiving does\<close>

text \<open>The abstract effect on the destination of the pipe and on the pipe.\<close>

definition recv_dest :: "CFE_SB_PipeId \<Rightarrow> CFE_SB_DestinationD \<Rightarrow> CFE_SB_DestinationD" where
  "recv_dest pid d = (if DestPipeId d = pid \<and> BuffCount d > 0 then d\<lparr>BuffCount := BuffCount d - 1\<rparr> else d)"

definition recv_pipe :: "nat \<Rightarrow> CFE_SB_PipeD \<Rightarrow> CFE_SB_PipeD" where
  "recv_pipe b p = p\<lparr>LastBuffer := Some b,
     CurrentQueueDepth := (if CurrentQueueDepth p > 0 then CurrentQueueDepth p - 1 else CurrentQueueDepth p)\<rparr>"

lemma recv_dest_links [simp]:
  "DestNext (recv_dest pid d) = DestNext d" "DestPrev (recv_dest pid d) = DestPrev d" "DestPipeId (recv_dest pid d) = DestPipeId d"
  "dinfo (recv_dest pid d) = recv_dest pid (dinfo d)"
  by (simp_all add: recv_dest_def dinfo_def)

text \<open>The state after the destination found by the walk has been updated.\<close>

definition recv_dest_state :: "CFE_SB_PipeId \<Rightarrow> nat ptr \<Rightarrow> CFE_SB_Global \<Rightarrow> CFE_SB_Global" where
  "recv_dest_state pid DestPtr g = (case DestPtr of None \<Rightarrow> g | Some d \<Rightarrow> upd_dest d (recv_dest pid) g)"

lemma recv_dest_state_other [simp]:
  "PipeTbl (recv_dest_state pid p g) = PipeTbl g" "SBR (recv_dest_state pid p g) = SBR g" "Bufs (recv_dest_state pid p g) = Bufs g"
  "Links (recv_dest_state pid p g) = Links g" "StatTlmMsg (recv_dest_state pid p g) = StatTlmMsg g"
  "HKTlmMsg (recv_dest_state pid p g) = HKTlmMsg g" "LastPipeId (recv_dest_state pid p g) = LastPipeId g"
  "pipe_at (recv_dest_state pid p g) = pipe_at g"
  by (simp_all add: recv_dest_state_def pipe_at_def fun_eq_iff split: option.split)

lemma recv_dest_update:
  assumes "Dests g d \<noteq> None" and "DestPipeId (dest_at g d) = pid"
  shows "(if BuffCount (dest_at g d) > 0 then upd_dest d (\<lambda>d. d\<lparr>BuffCount := BuffCount d - 1\<rparr>) g else g) = upd_dest d (recv_dest pid) g"
  using assms by (auto simp: upd_dest_def recv_dest_def dest_at_def fun_upd_idem)

lemma recv_dest_view:
  fixes pid :: CFE_SB_PipeId and r :: CFE_SBR_RouteId
  assumes inv: "sub_inv cfg g L"
  defines "p \<equiv> find (\<lambda>d. DestPipeId (dest_at g d) = pid) (L r)"
  shows "route_view (recv_dest_state pid p g) L = (route_view g L)(r := map (recv_dest pid) (route_view g L r))"
    and "sub_inv cfg (recv_dest_state pid p g) L"
proof -
  note l = sub_invD(3) [OF inv]
  have all: "\<And>x. x \<in> set (L r') \<Longrightarrow> Dests g x \<noteq> None" for r' by (rule dchain_alloc [OF dest_listsD(2) [OF l]])
  have inj: "inj_on (\<lambda>d. DestPipeId (dest_at g d)) (set (L r))"
    using sub_invD(6) [OF inv, of r] by (simp add: route_view_def distinct_map comp_def inj_on_def)
  have at: "dest_at (recv_dest_state pid p g) x = (if x \<in> set (L r) then recv_dest pid (dest_at g x) else dest_at g x)"
    if "x \<in> set (L r')" for x r'
  proof (cases p)
    case None
    then have "\<not> (x \<in> set (L r) \<and> DestPipeId (dest_at g x) = pid)" by (auto simp: p_def find_None_iff)
    then show ?thesis using None by (auto simp: recv_dest_state_def recv_dest_def)
  next
    case (Some d)
    then have d: "d \<in> set (L r)" "DestPipeId (dest_at g d) = pid"
      by (auto simp: p_def find_Some_iff)
    show ?thesis
    proof (cases "x = d")
      case True
      then show ?thesis using Some d all [OF that] by (auto simp: recv_dest_state_def dest_at_def)
    next
      case False
      then have "\<not> (x \<in> set (L r) \<and> DestPipeId (dest_at g x) = pid)" using d inj by (auto simp: inj_on_def)
      then show ?thesis using Some False by (auto simp: recv_dest_state_def recv_dest_def dest_at_def)
    qed
  qed
  have out: "x \<notin> set (L r)" if "r' \<noteq> r" "x \<in> set (L r')" for x r'
    using dest_listsD(4) [OF l that(1)] that(2) by blast
  show "route_view (recv_dest_state pid p g) L = (route_view g L)(r := map (recv_dest pid) (route_view g L r))"
    using at out by (auto simp: fun_eq_iff route_view_def)
  show "sub_inv cfg (recv_dest_state pid p g) L"
  proof (rule sub_inv_keep [OF inv])
    show "map_option (\<lambda>d. (DestPrev d, DestNext d, DestPipeId d)) (Dests (recv_dest_state pid p g) x) =
        map_option (\<lambda>d. (DestPrev d, DestNext d, DestPipeId d)) (Dests g x)" for x
      by (auto simp: recv_dest_state_def option.map_comp comp_def split: option.split)
  qed simp_all
qed

text \<open>A receive that neither frees nor allocates changes use counts only.\<close>

definition same_data :: "CFE_SB_Global \<Rightarrow> CFE_SB_Global \<Rightarrow> bool" where
  "same_data g g' \<longleftrightarrow> (\<forall>x. map_option buf_data (Bufs g' x) = map_option buf_data (Bufs g x))"

lemma Incr_Decr:
  assumes bi: "buf_inv ex g it zc (add_mset b R)" and lim: "count R b < 0x7FFE"
    and g': "Bufs g' = Bufs (CFE_SB_IncrBufUseCnt b g)" "Links g' = Links g" "StatTlmMsg g' = StatTlmMsg g"
  shows "buf_inv ex (CFE_SB_DecrBufUseCnt b g') it zc (add_mset b R)" and "same_data g (CFE_SB_DecrBufUseCnt b g')"
proof -
  have b: "b \<in> dom (Bufs g)" by (rule buf_inv_referenced [OF bi]) simp
  have "buf_inv ex (CFE_SB_IncrBufUseCnt b g) it zc (add_mset b (add_mset b R))"
    by (rule Incr_inv [OF bi b]) (use lim in simp)
  then have inv: "buf_inv ex g' it zc (add_mset b (add_mset b R))"
    using g' by (simp add: buf_inv_same_bufs [of g' "CFE_SB_IncrBufUseCnt b g"])
  have uc: "2 \<le> use_count g' b" using buf_invD(5) [OF inv, of b] by simp
  with Decr_inv(2) [OF inv, of b] show i: "buf_inv ex (CFE_SB_DecrBufUseCnt b g') it zc (add_mset b R)" by simp
  have "b \<in> dom (Bufs (CFE_SB_DecrBufUseCnt b g'))" by (rule buf_inv_referenced [OF i]) simp
  moreover have "buf_step b g (CFE_SB_DecrBufUseCnt b g')"
    using buf_step_trans [OF Incr_step [of b g] buf_step_trans [OF buf_step_refl [OF g'(1)] Decr_step]] .
  ultimately show "same_data g (CFE_SB_DecrBufUseCnt b g')"
    unfolding same_data_def buf_step_def by (metis domD option.simps(9))
qed

lemma Bufs_Decr_cong: "Bufs g' = Bufs g \<Longrightarrow> Bufs (CFE_SB_DecrBufUseCnt b g') = Bufs (CFE_SB_DecrBufUseCnt b g)"
  by (auto simp: CFE_SB_DecrBufUseCnt_def CFE_SB_ReturnBufferToPool_def upd_buf_def upd_stat_def buf_at_def Let_def fun_eq_iff)

lemma subs_route_update:
  assumes inv: "sub_inv cfg g L" and inv': "sub_inv cfg g' L" and r: "routes (SBR g') = routes (SBR g)"
    and v: "route_view g' L = (route_view g L)(route_of (routes (SBR g)) m := map f (route_view g L (route_of (routes (SBR g)) m)))"
  shows "subs g' L = (subs g L)(m := map f (subs g L m))"
proof (cases "m \<in> set (routes (SBR g))")
  case True
  show ?thesis
    by (rule subs_update [OF inv True _ r sub_invD(3) [OF inv']]) (simp add: v subs_def)
next
  case False
  have no: "subs g L m = []" by (rule subs_unrouted [OF sub_invD(3) [OF inv] False])
  have "route_view g L (route_of (routes (SBR g)) m) = []" using no by (simp add: subs_def)
  then have "route_view g' L = route_view g L" using v by (simp add: fun_upd_idem)
  then show ?thesis using no r by (simp add: subs_def fun_eq_iff)
qed

lemma receive_store_ok:
  assumes inv: "sub_inv (MapCfg env) g L" and bi: "buf_inv ex g it zc (add_mset b R)" and lim: "count R b < 0x7FFE"
    and i: "CFE_SB_LocatePipeDescByID pid = Some i" "PipeId (pipe_at g i) = pid"
  shows "\<exists>g'. receive_store env pid (Some i) b g = Some (g', CFE_SUCCESS, 0, Some b) \<and>
    sub_inv (MapCfg env) g' L \<and> SBR g' = SBR g \<and> HKTlmMsg g' = HKTlmMsg g \<and>
    subs g' L = (subs g L)(BufMsgId (buf_at g b) := map (recv_dest pid) (subs g L (BufMsgId (buf_at g b)))) \<and>
    pipe_at g' i = recv_pipe b (pipe_at g i) \<and> (\<forall>j. j \<noteq> i \<longrightarrow> pipe_at g' j = pipe_at g j) \<and>
    length (PipeTbl g') = length (PipeTbl g) \<and> LastPipeId g' = LastPipeId g \<and>
    buf_inv ex g' it zc (add_mset b R) \<and> same_data g g' \<and>
    Bufs g' = Bufs (CFE_SB_DecrBufUseCnt b (CFE_SB_IncrBufUseCnt b g))"
proof -
  let ?m = "BufMsgId (buf_at g b)" and ?r = "route_of (routes (SBR g)) (BufMsgId (buf_at g b))"
  let ?p = "find (\<lambda>d. DestPipeId (dest_at g d) = pid) (L ?r)"
  have len: "unat i < length (PipeTbl g)" by (rule pipe_inv_length [OF sub_invD(2) [OF inv] Locate_lt [OF i(1)]])
  define g1 where "g1 = upd_pipe i (\<lambda>p. p\<lparr>LastBuffer := Some b\<rparr>) (CFE_SB_IncrBufUseCnt b g)"
  have f1: "SBR g1 = SBR g" "Dests g1 = Dests g" "LastPipeId g1 = LastPipeId g" "HKTlmMsg g1 = HKTlmMsg g"
    "Links g1 = Links g" "StatTlmMsg g1 = StatTlmMsg g" "Bufs g1 = Bufs (CFE_SB_IncrBufUseCnt b g)" "length (PipeTbl g1) = length (PipeTbl g)"
    by (simp_all add: g1_def)
  have at1: "pipe_at g1 j = (if j = i then (pipe_at g i)\<lparr>LastBuffer := Some b\<rparr> else pipe_at g j)" for j
    using len by (simp add: g1_def)
  have d1: "dest_at g1 = dest_at g" by (simp add: dest_at_def f1 fun_eq_iff)
  have inv1: "sub_inv (MapCfg env) g1 L" by (rule sub_inv_keep [OF inv]) (simp_all add: f1 at1)
  have v1: "route_view g1 L = route_view g L" by (simp add: route_view_def d1 fun_eq_iff)
  have m1: "BufMsgId (buf_at g1 b) = ?m"
    by (cases "Bufs g b") (auto simp: buf_at_def f1 CFE_SB_IncrBufUseCnt_def)
  have ptr: "CFE_SB_GetDestPtr g1 ?r pid = Some ?p" using GetDestPtr_find [OF sub_invD(3) [OF inv1]] d1 by simp
  define g2 where "g2 = recv_dest_state pid ?p g1"
  have dest: "(case ?p of None \<Rightarrow> g1 | Some d \<Rightarrow>
      if BuffCount (dest_at g1 d) > 0 then upd_dest d (\<lambda>d. d\<lparr>BuffCount := BuffCount d - 1\<rparr>) g1 else g1) = g2"
  proof (cases ?p)
    case (Some d)
    then have d: "d \<in> set (L ?r)" "DestPipeId (dest_at g d) = pid" by (auto simp: find_Some_iff)
    then have "Dests g1 d \<noteq> None" using dchain_alloc [OF dest_listsD(2) [OF sub_invD(3) [OF inv1]]] by blast
    then show ?thesis using recv_dest_update [of g1 d pid] d(2) Some by (simp add: g2_def recv_dest_state_def d1)
  qed (simp add: g2_def recv_dest_state_def)
  define g3 where "g3 = (if CurrentQueueDepth (pipe_at g2 i) > 0
      then upd_pipe i (\<lambda>p. p\<lparr>CurrentQueueDepth := CurrentQueueDepth p - 1\<rparr>) g2 else g2)"
  define g' where "g' = CFE_SB_DecrBufUseCnt b g3"
  have call: "receive_store env pid (Some i) b g = Some (g', CFE_SUCCESS, 0, Some b)"
    unfolding receive_store_def CFE_SB_PipeDescIsMatch_def Let_def option.sel g1_def [symmetric] f1 m1
    using sub_inv_lookup(1) [OF inv, of ?m] ptr dest i(2) by (simp add: g3_def g'_def)
  have at2: "pipe_at g2 = pipe_at g1" "length (PipeTbl g2) = length (PipeTbl g)" by (simp_all add: g2_def f1)
  have at3: "pipe_at g3 j = (if j = i then recv_pipe b (pipe_at g i) else pipe_at g j)" for j
    using len at1 by (auto simp: g3_def at2 recv_pipe_def)
  have f3: "SBR g3 = SBR g" "LastPipeId g3 = LastPipeId g" "HKTlmMsg g3 = HKTlmMsg g" "Links g3 = Links g" "StatTlmMsg g3 = StatTlmMsg g"
    "Bufs g3 = Bufs (CFE_SB_IncrBufUseCnt b g)" "length (PipeTbl g3) = length (PipeTbl g)" "Dests g3 = Dests g2"
    by (simp_all add: g3_def g2_def f1)
  note view = recv_dest_view [OF inv1, where pid = pid and r = ?r, unfolded d1 v1, folded g2_def]
  have at': "pipe_at g' = pipe_at g3" by (simp add: g'_def fun_eq_iff)
  have inv': "sub_inv (MapCfg env) g' L"
    by (rule sub_inv_keep [OF view(2)])
       (simp_all add: g'_def f3, simp_all add: g2_def f1 at1 at3 recv_pipe_def f3)
  have v': "route_view g' L = (route_view g L)(?r := map (recv_dest pid) (route_view g L ?r))"
    using view(1) by (simp add: route_view_def dest_at_def g'_def f3 fun_eq_iff)
  have "subs g' L = (subs g L)(?m := map (recv_dest pid) (subs g L ?m))"
    by (rule subs_route_update [OF inv inv' _ v']) (simp add: g'_def f3)
  then show ?thesis
    using call inv' at3 f3 Incr_Decr [OF bi lim f3(6,4,5)] at' Bufs_Decr_cong [OF f3(6), of b] unfolding g'_def by auto
qed

text \<open>The reference a pointer is.\<close>

definition ptr_refs :: "nat ptr \<Rightarrow> nat multiset" where
  "ptr_refs p = (case p of None \<Rightarrow> {#} | Some b \<Rightarrow> {#b#})"

lemma ptr_refs_simps [simp]: "ptr_refs NULL = {#}" "ptr_refs (Some b) = {#b#}"
  by (simp_all add: ptr_refs_def)

lemma buf_step_other: "buf_step b g g' \<Longrightarrow> x \<noteq> b \<or> Bufs g' b \<noteq> None \<Longrightarrow> map_option buf_data (Bufs g' x) = map_option buf_data (Bufs g x)"
  by (cases "x = b") (auto simp: buf_step_def)

lemma Decr_refs:
  assumes "buf_inv ex g it zc (add_mset b R)" and "b \<notin> set zc"
  shows "\<exists>it'. buf_inv ex (CFE_SB_DecrBufUseCnt b g) it' zc R"
  using Decr_inv [OF assms(1), of b] assms(2) by (cases "use_count g b = 1") (auto simp: remove1_idem)

lemma receive_begin_ok:
  assumes inv: "sub_inv cfg g L" and i: "CFE_SB_LocatePipeDescByID pid = Some i" "PipeId (pipe_at g i) = pid"
    and bi: "buf_inv ex g it zc (ptr_refs (LastBuffer (pipe_at g i)) + R)"
    and zc: "\<And>b. LastBuffer (pipe_at g i) = Some b \<Longrightarrow> b \<notin> set zc"
  shows "\<exists>g' it'. receive_begin pid g = (g', CFE_SUCCESS, 0, Some i, SysQueueId (pipe_at g i)) \<and>
    sub_inv cfg g' L \<and> subs g' L = subs g L \<and> SBR g' = SBR g \<and> HKTlmMsg g' = HKTlmMsg g \<and>
    pipe_at g' i = (pipe_at g i)\<lparr>LastBuffer := NULL\<rparr> \<and> (\<forall>j. j \<noteq> i \<longrightarrow> pipe_at g' j = pipe_at g j) \<and>
    length (PipeTbl g') = length (PipeTbl g) \<and> LastPipeId g' = LastPipeId g \<and>
    buf_inv ex g' it' zc R \<and> (\<forall>x \<in># R. map_option buf_data (Bufs g' x) = map_option buf_data (Bufs g x))"
proof (cases "LastBuffer (pipe_at g i)")
  case None
  then show ?thesis
    using i inv bi by (intro exI [of _ g] exI [of _ it]) (simp add: receive_begin_def CFE_SB_PipeDescIsMatch_def)
next
  case (Some b)
  define g1 where "g1 = CFE_SB_DecrBufUseCnt b g"
  define g' where "g' = upd_pipe i (\<lambda>p. p\<lparr>LastBuffer := NULL\<rparr>) g1"
  have len: "unat i < length (PipeTbl g)" by (rule pipe_inv_length [OF sub_invD(2) [OF inv] Locate_lt [OF i(1)]])
  have call: "receive_begin pid g = (g', CFE_SUCCESS, 0, Some i, SysQueueId (pipe_at g i))"
    using i Some by (simp add: receive_begin_def CFE_SB_PipeDescIsMatch_def g'_def g1_def Let_def)
  have at: "pipe_at g' j = (if j = i then (pipe_at g i)\<lparr>LastBuffer := NULL\<rparr> else pipe_at g j)" for j
    using len by (simp add: g'_def g1_def)
  have f: "SBR g' = SBR g" "Dests g' = Dests g" "LastPipeId g' = LastPipeId g" "HKTlmMsg g' = HKTlmMsg g"
    "length (PipeTbl g') = length (PipeTbl g)" "Bufs g' = Bufs g1" "Links g' = Links g1" "StatTlmMsg g' = StatTlmMsg g1"
    by (simp_all add: g'_def g1_def)
  obtain it' where bi1: "buf_inv ex g1 it' zc R"
    using Decr_refs [of ex g it zc b R] bi zc Some unfolding g1_def by auto
  then have bi': "buf_inv ex g' it' zc R" using f by (simp add: buf_inv_same_bufs [of g' g1])
  have "map_option buf_data (Bufs g' x) = map_option buf_data (Bufs g x)" if "x \<in># R" for x
    using buf_step_other [OF Decr_step [of b g], of x] buf_inv_referenced [OF bi1 that] by (auto simp: f g1_def [symmetric])
  moreover have "sub_inv cfg g' L" by (rule sub_inv_keep [OF inv]) (simp_all add: f at)
  moreover have "subs g' L = subs g L" by (simp add: subs_def route_view_def dest_at_def f fun_eq_iff)
  ultimately show ?thesis using call at f bi' by (intro exI [of _ g'] exI [of _ it']) simp
qed

text \<open>
  C4. A receive on a live pipe whose queue hands out a buffer: the call ends with
  \<open>CFE_SUCCESS\<close> and the caller gets that buffer, with its contents unchanged.  The buffer of the
  previous receive is released, the reference of the queue becomes the reference of the pipe,
  the pipe is one less deep, the message count of the pipe's subscription goes down by
  one unless it is zero, and no other pipe or subscription changes.
\<close>

theorem receive_correct:
  assumes inv: "sub_inv (MapCfg env) g L"
    and i: "CFE_SB_LocatePipeDescByID pid = Some i" "PipeId (pipe_at g i) = pid"
    and bi: "buf_inv ex g it zc (ptr_refs (LastBuffer (pipe_at g i)) + add_mset b R)"
    and zc: "\<And>c. LastBuffer (pipe_at g i) = Some c \<Longrightarrow> c \<notin> set zc" and lim: "count R b < 0x7FFE"
    and args: "receive_args (Some x) TimeOut = (CFE_SUCCESS, 0, t)"
    and q: "get (SysQueueId (pipe_at g i)) t = (OS_SUCCESS, Some b, True)"
  shows "\<exists>g' it'. CFE_SB_ReceiveBuffer env get (Some x) pid TimeOut g = Some (g', CFE_SUCCESS, Some (Some b), []) \<and>
    sub_inv (MapCfg env) g' L \<and> HKTlmMsg g' = HKTlmMsg g \<and>
    subs g' L = (subs g L)(BufMsgId (buf_at g b) := map (recv_dest pid) (subs g L (BufMsgId (buf_at g b)))) \<and>
    pipe_at g' i = recv_pipe b (pipe_at g i) \<and> (\<forall>j. j \<noteq> i \<longrightarrow> pipe_at g' j = pipe_at g j) \<and>
    buf_inv ex g' it' zc (add_mset b R) \<and> map_option buf_data (Bufs g' b) = map_option buf_data (Bufs g b)"
proof -
  obtain g1 it1 where b1: "receive_begin pid g = (g1, CFE_SUCCESS, 0, Some i, SysQueueId (pipe_at g i))"
    and i1: "sub_inv (MapCfg env) g1 L" "subs g1 L = subs g L" "HKTlmMsg g1 = HKTlmMsg g"
    and p1: "pipe_at g1 i = (pipe_at g i)\<lparr>LastBuffer := NULL\<rparr>" "\<forall>j. j \<noteq> i \<longrightarrow> pipe_at g1 j = pipe_at g j"
    and bi1: "buf_inv ex g1 it1 zc (add_mset b R)"
    and d1: "\<forall>y \<in># add_mset b R. map_option buf_data (Bufs g1 y) = map_option buf_data (Bufs g y)"
    using receive_begin_ok [OF inv i bi zc] by blast
  have b: "b \<in> dom (Bufs g1)" by (rule buf_inv_referenced [OF bi1]) simp
  moreover have "map_option buf_data (Bufs g1 b) = map_option buf_data (Bufs g b)" using d1 by simp
  ultimately have m: "BufMsgId (buf_at g1 b) = BufMsgId (buf_at g b)"
    by (cases "Bufs g b") (auto simp: buf_at_def buf_data_def)
  obtain g' where s: "receive_store env pid (Some i) b g1 = Some (g', CFE_SUCCESS, 0, Some b)"
    and g': "sub_inv (MapCfg env) g' L" "HKTlmMsg g' = HKTlmMsg g1"
      "subs g' L = (subs g1 L)(BufMsgId (buf_at g1 b) := map (recv_dest pid) (subs g1 L (BufMsgId (buf_at g1 b))))"
      "pipe_at g' i = recv_pipe b (pipe_at g1 i)" "\<forall>j. j \<noteq> i \<longrightarrow> pipe_at g' j = pipe_at g1 j"
      "buf_inv ex g' it1 zc (add_mset b R)" "same_data g1 g'"
    using receive_store_ok [OF i1(1) bi1 lim i(1)] i(2) p1(1) by auto
  have "CFE_SB_ReceiveBuffer env get (Some x) pid TimeOut g = Some (g', CFE_SUCCESS, Some (Some b), [])"
    using args b1 q s by (simp add: CFE_SB_ReceiveBuffer_def receive_status_def receive_count_def)
  moreover have "recv_pipe b (pipe_at g1 i) = recv_pipe b (pipe_at g i)" by (simp add: p1(1) recv_pipe_def)
  moreover have "map_option buf_data (Bufs g' b) = map_option buf_data (Bufs g b)"
    using g'(7) d1 by (simp add: same_data_def)
  ultimately show ?thesis using g' i1 p1 m by (intro exI [of _ g'] exI [of _ it1]) auto
qed

theorem receive_correct_witness:
  "\<exists>g g' L. CFE_SB_ReceiveBuffer (sample_env 1000) (\<lambda>_ _. (OS_SUCCESS, Some 2000, True)) (Some NULL) 0x160001 CFE_SB_PEND_FOREVER g =
      Some (g', CFE_SUCCESS, Some (Some 2000), []) \<and> LastBuffer (pipe_at g' 1) = Some 2000 \<and>
    subs g' L 0x1806 = [new_dest 0x160001 4 0] \<and> map_option Content (Bufs g' 2000) = Some (Content sample_buf)"
proof -
  obtain g L where s: "sub_inv SBR_MAP_DIRECT g L" "subs g L 0x1806 = [new_dest 0x160001 4 0]"
    "buf_inv True g [] [] {#}" "PipeTbl g = PipeTbl sample_bus"
    using sample_sending by metis
  let ?g = "with_buf 2000 sample_buf g" and ?get = "\<lambda>_ _. (OS_SUCCESS, Some 2000, True) :: queue_get"
  have "pipe_at ?g 1 = pipe_at sample_bus 1" by (simp add: pipe_at_def s(4))
  then have p: "pipe_at ?g 1 = zero_PipeD\<lparr>PipeId := 0x160001, PipeAppId := 0x110001, SysQueueId := 0x20001, MaxQueueDepth := 10\<rparr>"
    by (simp add: sample_bus_pipe)
  have "buf_inv True ?g [] [] {#2000#}" by (rule with_buf_inv [OF s(3)]) (simp add: sample_buf_def)
  then have h: "sub_inv (MapCfg (sample_env 1000)) ?g L" "PipeId (pipe_at ?g 1) = 0x160001"
    "buf_inv True ?g [] [] (ptr_refs (LastBuffer (pipe_at ?g 1)) + add_mset 2000 {#})"
    "receive_args (Some NULL) CFE_SB_PEND_FOREVER = (CFE_SUCCESS, 0, OS_PEND)"
    using s(1) unfolding p by (simp_all add: zero_PipeD_def receive_args_def)
  obtain g' where "CFE_SB_ReceiveBuffer (sample_env 1000) ?get (Some NULL) 0x160001 CFE_SB_PEND_FOREVER ?g =
      Some (g', CFE_SUCCESS, Some (Some 2000), [])" "pipe_at g' 1 = recv_pipe 2000 (pipe_at ?g 1)"
    and g': "subs g' L = (subs ?g L)(BufMsgId (buf_at ?g 2000) := map (recv_dest 0x160001) (subs ?g L (BufMsgId (buf_at ?g 2000))))"
      "map_option buf_data (Bufs g' 2000) = map_option buf_data (Bufs ?g 2000)"
    using receive_correct [OF h(1) sample_pipe_located h(2,3) _ _ h(4), of ?get] by auto
  moreover have "subs g' L 0x1806 = [new_dest 0x160001 4 0]"
    using g'(1) s(2) by (simp add: buf_at_def sample_buf_def recv_dest_def new_dest_def)
  moreover have "map_option Content (Bufs g' 2000) = Some (Content sample_buf)"
    using g'(2) by (auto simp: buf_data_def)
  ultimately show ?thesis by (intro exI [of _ ?g] exI [of _ g'] exI [of _ L]) (simp add: recv_pipe_def)
qed

text \<open>
  Every way a receive fails; the caller's pointer is NULL afterwards.  A NULL cell or a negative
  time-out other than \<open>CFE_SB_PEND_FOREVER\<close> and an unknown pipe give \<open>CFE_SB_BAD_ARGUMENT\<close> and
  one more receive error, and change nothing else.  An empty queue gives \<open>CFE_SB_NO_MESSAGE\<close> and an
  expired time-out \<open>CFE_SB_TIME_OUT\<close>, without an event; any other answer gives
  \<open>CFE_SB_PIPE_RD_ERR\<close>.  In these cases the previous buffer has been released all the
  same, and the counter of internal errors goes up: also for the two outcomes that are
  normal for a poll and for a receive with a time-out.
\<close>

theorem receive_errors:
  shows "(BufPtr = NULL \<or> sint TimeOut < - 1 \<longrightarrow>
      CFE_SB_ReceiveBuffer env get BufPtr pid TimeOut g =
        Some (upd_hk (\<lambda>h. h\<lparr>MsgReceiveErrorCounter := MsgReceiveErrorCounter h + 1\<rparr>) g, CFE_SB_BAD_ARGUMENT,
          map_option (\<lambda>_. NULL) BufPtr, [Event CFE_SB_RCV_BAD_ARG_EID EVS_ERROR])) \<and>
    (BufPtr \<noteq> NULL \<and> - 1 \<le> sint TimeOut \<and> \<not> CFE_SB_PipeDescIsMatch g (CFE_SB_LocatePipeDescByID pid) pid \<longrightarrow>
      CFE_SB_ReceiveBuffer env get BufPtr pid TimeOut g =
        Some (upd_hk (\<lambda>h. h\<lparr>MsgReceiveErrorCounter := MsgReceiveErrorCounter h + 1\<rparr>) g, CFE_SB_BAD_ARGUMENT,
          Some NULL, [Event CFE_SB_BAD_PIPEID_EID EVS_ERROR])) \<and>
    (BufPtr \<noteq> NULL \<and> - 1 \<le> sint TimeOut \<and> CFE_SB_PipeDescIsMatch g (CFE_SB_LocatePipeDescByID pid) pid \<and>
       get (SysQueueId (pipe_at g (the (CFE_SB_LocatePipeDescByID pid)))) TimeOut = (st, p, ok) \<and>
       (st \<noteq> OS_SUCCESS \<or> p = NULL \<or> \<not> ok) \<longrightarrow>
      CFE_SB_ReceiveBuffer env get BufPtr pid TimeOut g =
        Some (upd_hk (\<lambda>h. h\<lparr>InternalErrorCounter := InternalErrorCounter h + 1\<rparr>) (fst (receive_begin pid g)),
          (if st = OS_QUEUE_EMPTY then CFE_SB_NO_MESSAGE else if st = OS_QUEUE_TIMEOUT then CFE_SB_TIME_OUT else CFE_SB_PIPE_RD_ERR),
          Some NULL,
          (if st = OS_QUEUE_EMPTY \<or> st = OS_QUEUE_TIMEOUT then [] else [Event CFE_SB_Q_RD_ERR_EID EVS_ERROR])))"
proof (intro conjI impI)
  have neg: "sint (0 :: int32) = 0" "sint (- 1 :: int32) = - 1" by simp_all
  have word: "TimeOut = 0 \<longleftrightarrow> sint TimeOut = 0" "TimeOut = - 1 \<longleftrightarrow> sint TimeOut = - 1"
    using neg by (metis signed_word_eqI)+
  let ?r = "CFE_SB_ReceiveBuffer env get BufPtr pid TimeOut g"
  show "?r = Some (upd_hk (\<lambda>h. h\<lparr>MsgReceiveErrorCounter := MsgReceiveErrorCounter h + 1\<rparr>) g, CFE_SB_BAD_ARGUMENT,
          map_option (\<lambda>_. NULL) BufPtr, [Event CFE_SB_RCV_BAD_ARG_EID EVS_ERROR])" if "BufPtr = NULL \<or> sint TimeOut < - 1"
  proof -
    have "receive_args BufPtr TimeOut = (CFE_SB_BAD_ARGUMENT, CFE_SB_RCV_BAD_ARG_EID, OS_PEND)"
      using that by (auto simp: receive_args_def word)
    then show ?thesis by (simp add: CFE_SB_ReceiveBuffer_def receive_count_def)
  qed
  have args: "receive_args BufPtr TimeOut = (CFE_SUCCESS, 0, TimeOut)" if "BufPtr \<noteq> NULL" "- 1 \<le> sint TimeOut"
  proof -
    have "0 < sint TimeOut \<or> TimeOut = 0 \<or> TimeOut = - 1" unfolding word using that(2) by linarith
    then show ?thesis using that(1) by (auto simp: receive_args_def)
  qed
  {
    assume a: "BufPtr \<noteq> NULL \<and> - 1 \<le> sint TimeOut \<and> \<not> CFE_SB_PipeDescIsMatch g (CFE_SB_LocatePipeDescByID pid) pid"
    then show "?r = Some (upd_hk (\<lambda>h. h\<lparr>MsgReceiveErrorCounter := MsgReceiveErrorCounter h + 1\<rparr>) g, CFE_SB_BAD_ARGUMENT,
          Some NULL, [Event CFE_SB_BAD_PIPEID_EID EVS_ERROR])"
      using args by (auto simp: CFE_SB_ReceiveBuffer_def receive_begin_def receive_count_def Let_def)
  }
  {
    assume a: "BufPtr \<noteq> NULL \<and> - 1 \<le> sint TimeOut \<and> CFE_SB_PipeDescIsMatch g (CFE_SB_LocatePipeDescByID pid) pid \<and>
       get (SysQueueId (pipe_at g (the (CFE_SB_LocatePipeDescByID pid)))) TimeOut = (st, p, ok) \<and>
       (st \<noteq> OS_SUCCESS \<or> p = NULL \<or> \<not> ok)"
    then obtain g1 where b: "receive_begin pid g = (g1, CFE_SUCCESS, 0, CFE_SB_LocatePipeDescByID pid,
        SysQueueId (pipe_at g (the (CFE_SB_LocatePipeDescByID pid))))"
      by (cases "LastBuffer (pipe_at g (the (CFE_SB_LocatePipeDescByID pid)))") (simp_all add: receive_begin_def Let_def)
    show "?r = Some (upd_hk (\<lambda>h. h\<lparr>InternalErrorCounter := InternalErrorCounter h + 1\<rparr>) (fst (receive_begin pid g)),
          (if st = OS_QUEUE_EMPTY then CFE_SB_NO_MESSAGE else if st = OS_QUEUE_TIMEOUT then CFE_SB_TIME_OUT else CFE_SB_PIPE_RD_ERR),
          Some NULL,
          (if st = OS_QUEUE_EMPTY \<or> st = OS_QUEUE_TIMEOUT then [] else [Event CFE_SB_Q_RD_ERR_EID EVS_ERROR]))"
      unfolding CFE_SB_ReceiveBuffer_def b using a args
      by (cases BufPtr) (auto simp: receive_status_def receive_count_def)
  }
qed

theorem receive_errors_witness:
  "\<exists>g'. CFE_SB_ReceiveBuffer (sample_env 1000) (\<lambda>_ _. (OS_QUEUE_EMPTY, NULL, False)) (Some NULL) 0x160001 CFE_SB_POLL sample_bus =
      Some (g', CFE_SB_NO_MESSAGE, Some NULL, []) \<and>
    InternalErrorCounter (HKTlmMsg g') = InternalErrorCounter (HKTlmMsg sample_bus) + 1"
proof -
  have "pipe_at sample_bus 1 = zero_PipeD\<lparr>PipeId := 0x160001, PipeAppId := 0x110001, SysQueueId := 0x20001, MaxQueueDepth := 10\<rparr>"
    by (simp add: sample_bus_pipe)
  then have "CFE_SB_PipeDescIsMatch sample_bus (CFE_SB_LocatePipeDescByID 0x160001) 0x160001" "fst (receive_begin 0x160001 sample_bus) = sample_bus"
    by (simp_all add: CFE_SB_PipeDescIsMatch_def receive_begin_def zero_PipeD_def)
  then show ?thesis
    using receive_errors [of "Some NULL" CFE_SB_POLL "sample_env 1000" "\<lambda>_ _. (OS_QUEUE_EMPTY, NULL, False)" "0x160001" sample_bus
        OS_QUEUE_EMPTY NULL False] by simp
qed

end
