(* ===== verification/CFE_SB_Quiet.thy ===== *)
theory CFE_SB_Quiet
  imports CFE_SB_Recv
begin

unbundle bit_operations_syntax

text \<open>
  The calls that leave buffers, tracking lists and the references of the pipes alone:
  subscribing, unsubscribing, pipe options and the route commands.  Whatever they are called
  with and however they end, the subscriptions stay consistent.
\<close>

definition pipe_view :: "CFE_SB_PipeD \<Rightarrow> CFE_SB_PipeId \<times> osal_id \<times> nat ptr" where
  "pipe_view p = (PipeId p, SysQueueId p, LastBuffer p)"

definition quiet :: "CFE_SB_Global \<Rightarrow> CFE_SB_Global \<Rightarrow> bool" where
  "quiet g g' \<longleftrightarrow> Bufs g' = Bufs g \<and> Links g' = Links g \<and>
     SBBuffersInUse (StatTlmMsg g') = SBBuffersInUse (StatTlmMsg g) \<and> (\<forall>i. pipe_view (pipe_at g' i) = pipe_view (pipe_at g i))"

lemma sub_frame_quiet: "sub_frame g g' \<Longrightarrow> quiet g g'"
  by (simp add: sub_frame_def quiet_def pipe_at_def)

lemma quiet_refl [simp]: "quiet g g"
  by (simp add: quiet_def)

lemma quiet_hk [simp]: "quiet g (upd_hk f g') = quiet g g'"
  by (simp add: quiet_def)

text \<open>An allocation for a destination is fresh.\<close>

definition pool_fresh :: "CFE_SB_Env \<Rightarrow> CFE_SB_Global \<Rightarrow> bool" where
  "pool_fresh env g \<longleftrightarrow> (\<forall>n. 0 \<le> sint (fst (GetPoolBuf env n)) \<longrightarrow>
     Bufs g (snd (GetPoolBuf env n)) = None \<and> Dests g (snd (GetPoolBuf env n)) = None)"

section \<open>Subscribing\<close>

lemma subscribe_dest_nomem:
  assumes inv: "sub_inv cfg g L" and mem: "sint (fst (GetPoolBuf env (SizeofDest env))) < 0"
    and call: "subscribe_dest env pid lim sc r g = Some (g', st, e)"
  shows "g' = g"
proof -
  have "CFE_SB_GetDestinationBlk env g = (g, NULL)"
    using mem by (auto simp: CFE_SB_GetDestinationBlk_def Let_def split: prod.split)
  then show ?thesis using call by (auto simp: subscribe_dest_def Option.bind_eq_Some_conv split: option.splits)
qed

lemma subscribe_quiet:
  assumes inv: "sub_inv (MapCfg env) g L" and fresh: "pool_fresh env g"
    and call: "CFE_SB_SubscribeFull env m pid Q lim sc g = Some (g', st, outs)"
  shows "(\<exists>L'. sub_inv (MapCfg env) g' L') \<and> quiet g g'"
proof -
  let ?ok = "CFE_SB_PipeDescIsMatch g (CFE_SB_LocatePipeDescByID pid) pid \<and>
    PipeAppId (pipe_at g (the (CFE_SB_LocatePipeDescByID pid))) = snd (GetAppID env) \<and> CFE_SB_IsValidMsgId m \<and> sc \<le> 1"
  consider (ok) "?ok" "m \<in> set (routes (SBR g)) \<or> unat (RouteIdxTop (SBR g)) < 256"
    | (full) "?ok" "m \<notin> set (routes (SBR g))" "\<not> unat (RouteIdxTop (SBR g)) < 256" | (arg) "\<not> ?ok" by blast
  then show ?thesis
  proof cases
    case ok
    then obtain i where i: "CFE_SB_LocatePipeDescByID pid = Some i" "PipeId (pipe_at g i) = pid" "PipeAppId (pipe_at g i) = snd (GetAppID env)"
      by (auto simp: CFE_SB_PipeDescIsMatch_def)
    obtain pst a where pool: "GetPoolBuf env (SizeofDest env) = (pst, a)" by fastforce
    show ?thesis
    proof (cases "0 \<le> sint pst")
      case True
      have "Dests g a = None" using fresh True pool by (auto simp: pool_fresh_def dest: spec [of _ "SizeofDest env"])
      then show ?thesis
        using SubscribeFull_ok [OF inv i _ _ ok(2) pool True, where Q = Q and lim = lim and sc = sc] ok(1) call
        by (auto dest: sub_frame_quiet)
    next
      case False
      then have mem: "sint (fst (GetPoolBuf env (SizeofDest env))) < 0" using pool by simp
      obtain g1 c where r1: "subscribe_route env m pid sc g = Some (g1, CFE_SUCCESS, 0, route_of (routes (SBR g1)) m, c)"
        and inv1: "sub_inv (MapCfg env) g1 L" and f1: "sub_frame g g1"
        using subscribe_route_ok [OF inv i _ _ ok(2)] ok(1) by blast
      obtain g2 st2 e where r2: "subscribe_dest env pid lim sc (route_of (routes (SBR g1)) m) g1 = Some (g2, st2, e)"
        and g': "g' = subscribe_count e g2"
        using call by (auto simp: CFE_SB_SubscribeFull_def r1 Option.bind_eq_Some_conv Let_def)
      have "g2 = g1" by (rule subscribe_dest_nomem [OF inv1 mem r2])
      then have "sub_inv (MapCfg env) g' L" "sub_frame g g'"
        using g' inv1 sub_frame_trans [OF f1 subscribe_count_frame(1)] by (simp_all add: subscribe_count_frame)
      then show ?thesis by (auto dest: sub_frame_quiet)
    qed
  next
    case full
    have top: "unat (RouteIdxTop (SBR g)) = 256"
      using full(3) sbr.inv_tbl [OF sub_invD(1) [OF inv]] by (auto simp: tbl_inv_def)
    have "subscribe_route env m pid sc g = Some (g, CFE_SB_MAX_MSGS_MET, CFE_SB_MAX_MSGS_MET_EID, 0, 0)"
      using full sub_inv_lookup [OF inv, of m] sbr.add_full [of m "SBR g" "MapCfg env"] top
      by (auto simp: subscribe_route_def Let_def not_less)
    then have "g' = subscribe_count CFE_SB_MAX_MSGS_MET_EID g"
      using call by (auto simp: CFE_SB_SubscribeFull_def Let_def)
    then show ?thesis using inv by (auto simp: subscribe_count_frame intro: sub_frame_quiet)
  next
    case arg
    then have "\<exists>e. subscribe_route env m pid sc g = Some (g, CFE_SB_BAD_ARGUMENT, e, 0, 0)"
      by (simp add: subscribe_route_def Let_def not_le)
    then obtain e where "subscribe_route env m pid sc g = Some (g, CFE_SB_BAD_ARGUMENT, e, 0, 0)" by blast
    then have "g' = subscribe_count e g"
      using call by (auto simp: CFE_SB_SubscribeFull_def Let_def)
    then show ?thesis using inv by (auto simp: subscribe_count_frame intro: sub_frame_quiet)
  qed
qed

section \<open>Unsubscribing and commands\<close>

lemma unsubscribe_quiet:
  assumes inv: "sub_inv (MapCfg env) g L" and call: "CFE_SB_UnsubscribeFull env m pid sc app g = Some (g', st, outs)"
  shows "(\<exists>L'. sub_inv (MapCfg env) g' L') \<and> quiet g g'"
proof -
  let ?r = "route_of (routes (SBR g)) m"
  have lk: "CFE_SBR_GetRouteId (MapCfg env) (SBR g) m = Some ?r" "CFE_SB_GetDestPtr g ?r pid = Some (find (\<lambda>d. DestPipeId (dest_at g d) = pid) (L ?r))"
    using sub_inv_lookup(1) [OF inv] GetDestPtr_find [OF sub_invD(3) [OF inv]] by auto
  have "g' = g \<or> (\<exists>n. find (\<lambda>d. DestPipeId (dest_at g d) = pid) (L ?r) = Some n \<and> g' = CFE_SB_RemoveDest env ?r n g)"
    using call lk by (auto simp: CFE_SB_UnsubscribeFull_def Let_def split: if_splits option.splits)
  then show ?thesis
  proof (elim disjE exE conjE)
    fix n assume f: "find (\<lambda>d. DestPipeId (dest_at g d) = pid) (L ?r) = Some n" and g': "g' = CFE_SB_RemoveDest env ?r n g"
    show ?thesis
      using sub_inv_drop(1,2) [OF inv f, of env] g' by (auto intro: sub_frame_quiet dest_frame_sub_frame)
  qed (use inv in auto)
qed

lemma active_quiet:
  assumes inv: "sub_inv cfg g L"
  shows "sub_inv cfg (upd_dest d (\<lambda>x. x\<lparr>Active := a\<rparr>) g) L \<and> quiet g (upd_dest d (\<lambda>x. x\<lparr>Active := a\<rparr>) g)"
proof
  show "sub_inv cfg (upd_dest d (\<lambda>x. x\<lparr>Active := a\<rparr>) g) L"
    by (rule sub_inv_keep [OF inv]) (simp_all add: option.map_comp comp_def)
qed (simp add: quiet_def)

lemma route_cmd_quiet:
  assumes inv: "sub_inv (MapCfg env) g L"
    and call: "CFE_SB_EnableRouteCmd env m pid g = Some (g', st, outs) \<or> CFE_SB_DisableRouteCmd env m pid g = Some (g', st, outs)"
  shows "(\<exists>L'. sub_inv (MapCfg env) g' L') \<and> quiet g g'"
proof -
  let ?r = "route_of (routes (SBR g)) m"
  have lk: "CFE_SBR_GetRouteId (MapCfg env) (SBR g) m = Some ?r" "CFE_SB_GetDestPtr g ?r pid = Some (find (\<lambda>d. DestPipeId (dest_at g d) = pid) (L ?r))"
    using sub_inv_lookup(1) [OF inv] GetDestPtr_find [OF sub_invD(3) [OF inv]] by auto
  have "\<exists>f. g' = upd_hk f g \<or> (\<exists>d a. g' = upd_hk f (upd_dest d (\<lambda>x. x\<lparr>Active := a\<rparr>) g))"
    using call lk by (auto simp: CFE_SB_EnableRouteCmd_def CFE_SB_DisableRouteCmd_def Let_def split: if_splits option.splits)
  then show ?thesis using inv active_quiet [OF inv] by (metis quiet_hk quiet_refl sub_inv_hk)
qed

lemma set_opts_quiet:
  assumes inv: "sub_inv cfg g L" and call: "CFE_SB_SetPipeOpts env pid opts g = (g', st, outs)"
  shows "sub_inv cfg g' L \<and> quiet g g'"
proof -
  have "g' = g \<or> (\<exists>f. g' = upd_hk f g) \<or> (\<exists>i. g' = upd_pipe i (\<lambda>p. p\<lparr>Opts := opts\<rparr>) g)"
    using call by (auto simp: CFE_SB_SetPipeOpts_def Let_def split: prod.splits if_splits)
  moreover have "sub_inv cfg (upd_pipe i (\<lambda>p. p\<lparr>Opts := opts\<rparr>) g) L" for i
    by (rule sub_inv_keep [OF inv]) simp_all
  moreover have "quiet g (upd_pipe i (\<lambda>p. p\<lparr>Opts := opts\<rparr>) g)" for i by (simp add: quiet_def pipe_view_def)
  ultimately show ?thesis using inv by (auto simp: sub_inv_hk)
qed

end
