(* ===== verification/CFE_SB_Refs.thy ===== *)
theory CFE_SB_Refs
  imports CFE_SB_Quiet
begin

unbundle bit_operations_syntax

text \<open>
  The software bus with all its tasks: who holds which buffer, in every interleaving.

  A step is one section of code between taking and releasing the lock of the bus, or one
  operation on an operating system queue.  Between two sections of one call any steps of
  other tasks can happen.  The state is the global data of the bus, the contents of the queues, and what
  tasks hold in the middle of a call: \<open>Sending\<close> are the buffers between allocation and
  broadcast, \<open>Taken\<close> the buffers read from a queue, or taken from a pipe that is being
  deleted, and not yet stored or released.  \<open>Open\<close> are the existing queues and \<open>Deleting\<close> those
  whose pipe is being deleted.  \<open>Reporting\<close> are the senders that have left the locked section of a broadcast and
  have still to send the events about failed deliveries: the address of the buffer, which they have released, and
  the errors.

  Creation of a pipe is one step: its entry is reserved between its two sections and matches
  no id, so nothing can happen to it.
\<close>

section \<open>The system\<close>

record sb_system =
  Bus :: CFE_SB_Global
  Queues :: "osal_id \<Rightarrow> nat list"
  Open :: "osal_id set"
  Deleting :: "osal_id set"
  Sending :: "nat set"
  Taken :: "nat multiset"
  Reporting :: "(nat \<times> CFE_SB_SendErrEventBuf list) multiset"

definition enqueue :: "(osal_id \<times> nat) list \<Rightarrow> (osal_id \<Rightarrow> nat list) \<Rightarrow> osal_id \<Rightarrow> nat list" where
  "enqueue puts Q = fold (\<lambda>(q, b) Q. Q(q := Q q @ [b])) puts Q"

text \<open>The buffers in the name of an application.\<close>

definition owned :: "CFE_SB_Global \<Rightarrow> nat set" where
  "owned g = {b. \<exists>d. Bufs g b = Some d \<and> BufAppId d \<noteq> CFE_ES_APPID_UNDEFINED}"

text \<open>
  The steps.  With \<open>single\<close>, a task stores a received buffer only in a pipe whose last buffer
  has been released: this holds when each pipe has one receiving task.
\<close>

inductive sb_step :: "CFE_SBR_MapConfig \<Rightarrow> bool \<Rightarrow> sb_system \<Rightarrow> sb_system \<Rightarrow> bool" for cfg single where
  send_alloc:
    "pool_fresh env (Bus s) \<Longrightarrow> transmit_get_buffer env CFE_SUCCESS sz r (Bus s) = (g, CFE_SUCCESS, Some b) \<Longrightarrow>
     sb_step cfg single s (s\<lparr>Bus := transmit_fill b msg m sz incr g, Sending := insert b (Sending s)\<rparr>)"
| broadcast:
    "b \<in> Sending s \<union> owned (Bus s) \<Longrightarrow> broadcast_locked env b r (Bus s) = Some (g, errs, puts) \<Longrightarrow>
     sb_step cfg single s (s\<lparr>Bus := g, Queues := enqueue puts (Queues s), Sending := Sending s - {b},
       Reporting := add_mset (b, errs) (Reporting s)\<rparr>)"
| report:
    "(b, e # errs) \<in># Reporting s \<Longrightarrow> send_err_event env b e (Bus s, []) = (g, outs) \<Longrightarrow>
     sb_step cfg single s (s\<lparr>Bus := g, Reporting := add_mset (b, errs) (Reporting s - {#(b, e # errs)#})\<rparr>)"
| zero_copy_get:
    "pool_fresh env (Bus s) \<Longrightarrow> app \<noteq> CFE_ES_APPID_UNDEFINED \<Longrightarrow> zero_copy_get env sz app (Bus s) = (g, Some b) \<Longrightarrow>
     sb_step cfg single s (s\<lparr>Bus := g\<rparr>)"
| zero_copy_write:
    "b \<in> owned (Bus s) \<Longrightarrow> (\<And>d. UseCount (f d) = UseCount d \<and> BufAppId (f d) = BufAppId d) \<Longrightarrow>
     sb_step cfg single s (s\<lparr>Bus := upd_buf b f (Bus s)\<rparr>)"
| zero_copy_release:
    "b \<in> owned (Bus s) \<Longrightarrow> CFE_SB_ZeroCopyReleasePtr (Some b) (Some b) (Bus s) = (g, CFE_SUCCESS) \<Longrightarrow>
     sb_step cfg single s (s\<lparr>Bus := g\<rparr>)"
| zero_copy_release_app:
    "CFE_SB_ZeroCopyReleaseAppId app (Bus s) = Some g \<Longrightarrow> sb_step cfg single s (s\<lparr>Bus := g\<rparr>)"
| receive_begin:
    "receive_begin pid (Bus s) = (g, CFE_SUCCESS, e, p, q) \<Longrightarrow> sb_step cfg single s (s\<lparr>Bus := g\<rparr>)"
| queue_get:
    "Queues s q = b # bs \<Longrightarrow>
     sb_step cfg single s (s\<lparr>Queues := (Queues s)(q := bs), Taken := add_mset b (Taken s)\<rparr>)"
| receive_store:
    "b \<in># Taken s \<Longrightarrow> MapCfg env = cfg \<Longrightarrow> CFE_SB_LocatePipeDescByID pid = Some i \<Longrightarrow>
     single \<longrightarrow> PipeId (pipe_at (Bus s) i) = pid \<longrightarrow> LastBuffer (pipe_at (Bus s) i) = NULL \<Longrightarrow>
     receive_store env pid (Some i) b (Bus s) = Some (g, st, e, out) \<Longrightarrow>
     sb_step cfg single s (s\<lparr>Bus := receive_count st e g, Taken := Taken s - {#b#}\<rparr>)"
| create_pipe:
    "fst (QueueCreate env) = OS_SUCCESS \<longrightarrow> snd (QueueCreate env) \<notin> Open s \<Longrightarrow>
     CFE_SB_CreatePipe env (Some x) Depth (Bus s) = (g, st, p, outs) \<Longrightarrow>
     sb_step cfg single s (s\<lparr>Bus := g, Open := (if st = CFE_SUCCESS then insert (snd (QueueCreate env)) (Open s) else Open s)\<rparr>)"
| delete_begin:
    "MapCfg env = cfg \<Longrightarrow> delete_begin env pid app (Bus s) = Some (g, CFE_SUCCESS, e, q, lb) \<Longrightarrow>
     sb_step cfg single s (s\<lparr>Bus := g, Deleting := insert q (Deleting s), Taken := Taken s + ptr_refs lb\<rparr>)"
| drain:
    "b \<in># Taken s \<Longrightarrow> sb_step cfg single s (s\<lparr>Bus := CFE_SB_DecrBufUseCnt b (Bus s), Taken := Taken s - {#b#}\<rparr>)"
| queue_delete:
    "q \<in> Deleting s \<Longrightarrow> Queues s q = [] \<Longrightarrow>
     sb_step cfg single s (s\<lparr>Open := Open s - {q}, Deleting := Deleting s - {q}\<rparr>)"
| delete_finish:
    "CFE_SB_LocatePipeDescByID pid = Some i \<Longrightarrow> PipeId (pipe_at (Bus s) i) = CFE_RESOURCEID_RESERVED \<Longrightarrow>
     sb_step cfg single s (s\<lparr>Bus := delete_finish pid CFE_SUCCESS 0 (Bus s)\<rparr>)"
| subscribe:
    "MapCfg env = cfg \<Longrightarrow> pool_fresh env (Bus s) \<Longrightarrow> CFE_SB_SubscribeFull env m pid Q lim sc (Bus s) = Some (g, st, outs) \<Longrightarrow>
     sb_step cfg single s (s\<lparr>Bus := g\<rparr>)"
| unsubscribe:
    "MapCfg env = cfg \<Longrightarrow> CFE_SB_UnsubscribeFull env m pid sc app (Bus s) = Some (g, st, outs) \<Longrightarrow>
     sb_step cfg single s (s\<lparr>Bus := g\<rparr>)"
| route_cmd:
    "MapCfg env = cfg \<Longrightarrow> CFE_SB_EnableRouteCmd env m pid (Bus s) = Some (g, st, outs) \<or>
       CFE_SB_DisableRouteCmd env m pid (Bus s) = Some (g, st, outs) \<Longrightarrow>
     sb_step cfg single s (s\<lparr>Bus := g\<rparr>)"
| set_opts:
    "CFE_SB_SetPipeOpts env pid opts (Bus s) = (g, st, outs) \<Longrightarrow> sb_step cfg single s (s\<lparr>Bus := g\<rparr>)"

definition sb_start :: "CFE_SBR_MapConfig \<Rightarrow> CFE_SBR \<Rightarrow> sb_system" where
  "sb_start cfg t = \<lparr>Bus = sb_init cfg t, Queues = (\<lambda>_. []), Open = {}, Deleting = {}, Sending = {}, Taken = {#}, Reporting = {#}\<rparr>"

inductive sb_reachable :: "CFE_SBR_MapConfig \<Rightarrow> bool \<Rightarrow> sb_system \<Rightarrow> bool" for cfg single where
  start: "sb_reachable cfg single (sb_start cfg t)"
| move: "sb_reachable cfg single s \<Longrightarrow> sb_step cfg single s s' \<Longrightarrow> sb_reachable cfg single s'"

section \<open>References\<close>

text \<open>
  The references the bus counts: those of the queues, of the live pipes (the last buffer given to the receiver, until
  the next receive call on the pipe or its deletion), of the tasks in the middle of a call, and of the applications with
  zero-copy buffers.  The address a reporting sender still has is not one of them.
\<close>

definition queue_refs :: "(osal_id \<Rightarrow> nat list) \<Rightarrow> nat multiset" where
  "queue_refs Q = (\<Sum>q \<in> UNIV. mset (Q q))"

definition last_refs :: "CFE_SB_Global \<Rightarrow> u32 \<Rightarrow> nat multiset" where
  "last_refs g i = (if live g i then ptr_refs (LastBuffer (pipe_at g i)) else {#})"

definition pipe_refs :: "CFE_SB_Global \<Rightarrow> nat multiset" where
  "pipe_refs g = (\<Sum>i \<in> {..< 64}. last_refs g i)"

definition refs :: "sb_system \<Rightarrow> nat multiset" where
  "refs s = queue_refs (Queues s) + pipe_refs (Bus s) + mset_set (Sending s) + Taken s + mset_set (owned (Bus s))"

lemma refs_Reporting [simp]: "refs (s\<lparr>Reporting := x\<rparr>) = refs s"
  by (simp add: refs_def)

lemma sum_change:
  fixes f f' :: "'a \<Rightarrow> 'b :: comm_monoid_add"
  assumes "finite A" and "a \<in> A" and "\<And>x. x \<in> A \<Longrightarrow> x \<noteq> a \<Longrightarrow> f' x = f x"
  shows "sum f' A + f a = sum f A + f' a"
proof -
  have "sum f' (A - {a}) = sum f (A - {a})" by (rule sum.cong) (use assms(3) in auto)
  then show ?thesis using sum.remove [OF assms(1,2), of f] sum.remove [OF assms(1,2), of f'] by (simp add: ac_simps)
qed

lemma queue_refs_change: "queue_refs (Q(q := xs)) + mset (Q q) = queue_refs Q + mset xs"
  unfolding queue_refs_def using sum_change [of UNIV q "\<lambda>q'. mset ((Q(q := xs)) q')" "\<lambda>q. mset (Q q)"] by simp

lemma queue_refs_snoc: "queue_refs (Q(q := Q q @ [b])) = add_mset b (queue_refs Q)"
  using queue_refs_change [of Q q "Q q @ [b]"] by simp

lemma queue_refs_get: "Q q = b # bs \<Longrightarrow> queue_refs Q = add_mset b (queue_refs (Q(q := bs)))"
  using queue_refs_change [of Q q bs] by simp

lemma queue_refs_enqueue: "queue_refs (enqueue puts Q) = queue_refs Q + mset (map snd puts)"
  unfolding enqueue_def
proof (induction puts arbitrary: Q)
  case (Cons p puts)
  then show ?case using queue_refs_snoc [unfolded fun_upd_def] by (cases p) simp
qed simp

lemma enqueue_other: "q \<notin> fst ` set puts \<Longrightarrow> enqueue puts Q q = Q q"
  unfolding enqueue_def by (induction puts arbitrary: Q) auto

lemma pipe_refs_change:
  assumes "i < 64" and "\<And>j. j < 64 \<Longrightarrow> j \<noteq> i \<Longrightarrow> last_refs g' j = last_refs g j"
  shows "pipe_refs g' + last_refs g i = pipe_refs g + last_refs g' i"
  unfolding pipe_refs_def by (rule sum_change) (use assms in auto)

lemma pipe_refs_cong: "(\<And>i. i < 64 \<Longrightarrow> last_refs g' i = last_refs g i) \<Longrightarrow> pipe_refs g' = pipe_refs g"
  unfolding pipe_refs_def by (rule sum.cong) auto

lemma last_refs_view: "pipe_view (pipe_at g' i) = pipe_view (pipe_at g i) \<Longrightarrow> last_refs g' i = last_refs g i"
  by (simp add: last_refs_def live_def pipe_view_def)

lemma pipe_refs_same: "(\<And>i. pipe_at g' i = pipe_at g i) \<Longrightarrow> pipe_refs g' = pipe_refs g"
  by (rule pipe_refs_cong) (simp add: last_refs_def live_def)

section \<open>The invariant\<close>

text \<open>
  The queues of live pipes exist, differ and are not being deleted, and only existing queues
  hold messages.
\<close>

definition queue_inv :: "sb_system \<Rightarrow> bool" where
  "queue_inv s \<longleftrightarrow>
     (\<forall>i < 64. live (Bus s) i \<longrightarrow> SysQueueId (pipe_at (Bus s) i) \<in> Open s - Deleting s) \<and>
     (\<forall>i < 64. \<forall>j < 64. live (Bus s) i \<longrightarrow> live (Bus s) j \<longrightarrow> SysQueueId (pipe_at (Bus s) i) = SysQueueId (pipe_at (Bus s) j) \<longrightarrow> i = j) \<and>
     Deleting s \<subseteq> Open s \<and> (\<forall>q. Queues s q \<noteq> [] \<longrightarrow> q \<in> Open s)"

text \<open>
  The bus is consistent, its use counts cover the references (exactly, if \<open>exact\<close>), the
  zero-copy list holds the buffers of applications, and a buffer that has not been broadcast has one
  reference.
\<close>

definition sys_inv :: "CFE_SBR_MapConfig \<Rightarrow> bool \<Rightarrow> sb_system \<Rightarrow> bool" where
  "sys_inv cfg exact s \<longleftrightarrow>
     (\<exists>L. sub_inv cfg (Bus s) L) \<and>
     (\<exists>it zc. buf_inv exact (Bus s) it zc (refs s) \<and> set zc = owned (Bus s)) \<and>
     finite (Sending s) \<and> (\<forall>b. count (refs s) b \<le> 16) \<and>
     (\<forall>b \<in> Sending s \<union> owned (Bus s). use_count (Bus s) b = 1) \<and> queue_inv s"

lemma sys_inv_Reporting [simp]: "sys_inv cfg exact (s\<lparr>Reporting := x\<rparr>) = sys_inv cfg exact s"
  by (simp add: sys_inv_def queue_inv_def)

lemma sys_invE:
  assumes "sys_inv cfg ex s"
  obtains L it zc where "sub_inv cfg (Bus s) L" "buf_inv ex (Bus s) it zc (refs s)" "set zc = owned (Bus s)"
    "finite (Sending s)" "\<And>b. count (refs s) b \<le> 16" "\<And>b. b \<in> Sending s \<union> owned (Bus s) \<Longrightarrow> use_count (Bus s) b = 1" "queue_inv s"
  using assms unfolding sys_inv_def by blast

lemma sys_invI:
  assumes "sub_inv cfg (Bus s) L" "buf_inv ex (Bus s) it zc (refs s)" "set zc = owned (Bus s)"
    "finite (Sending s)" "\<And>b. count (refs s) b \<le> 16" "\<And>b. b \<in> Sending s \<union> owned (Bus s) \<Longrightarrow> use_count (Bus s) b = 1" "queue_inv s"
  shows "sys_inv cfg ex s"
  using assms unfolding sys_inv_def by blast

lemma finite_owned: "buf_inv ex g it zc R \<Longrightarrow> finite (owned g)"
  by (rule finite_subset [OF _ buf_invD(3)]) (auto simp: owned_def)

text \<open>A buffer not yet broadcast is referenced once: no pipe, queue or other task has it.\<close>

lemma unsent_refs:
  assumes bi: "buf_inv ex (Bus s) it zc (refs s)" and fin: "finite (Sending s)"
    and b: "b \<in> Sending s \<union> owned (Bus s)" and uc: "use_count (Bus s) b = 1"
  shows "count (refs s) b = 1" and "b \<notin># Taken s" and "b \<notin># pipe_refs (Bus s)" and "b \<notin># queue_refs (Queues s)"
    and "\<not> (b \<in> Sending s \<and> b \<in> owned (Bus s))"
proof -
  have fo: "finite (owned (Bus s))" by (rule finite_owned [OF bi])
  have c: "count (refs s) b = count (queue_refs (Queues s)) b + count (pipe_refs (Bus s)) b +
      (if b \<in> Sending s then 1 else 0) + count (Taken s) b + (if b \<in> owned (Bus s) then 1 else 0)"
    using fin fo by (simp add: refs_def count_mset_set')
  have le: "count (refs s) b \<le> 1" using buf_invD(5) [OF bi, of b] uc by simp
  then show "count (refs s) b = 1" using c b by auto
  show "b \<notin># Taken s" "b \<notin># pipe_refs (Bus s)" "b \<notin># queue_refs (Queues s)" "\<not> (b \<in> Sending s \<and> b \<in> owned (Bus s))"
    using c le b by (auto simp: not_in_iff)
qed

section \<open>Steps that only move references\<close>

text \<open>A step that keeps the buffers and changes neither references nor queues.\<close>

lemma quiet_step:
  assumes inv: "sys_inv cfg ex s" and g': "sub_inv cfg g' L'" "quiet (Bus s) g'"
  shows "sys_inv cfg ex (s\<lparr>Bus := g'\<rparr>)"
proof -
  obtain L it zc where i: "sub_inv cfg (Bus s) L" "buf_inv ex (Bus s) it zc (refs s)" "set zc = owned (Bus s)"
    "finite (Sending s)" "\<And>b. count (refs s) b \<le> 16" "\<And>b. b \<in> Sending s \<union> owned (Bus s) \<Longrightarrow> use_count (Bus s) b = 1" "queue_inv s"
    using sys_invE [OF inv] by metis
  have v: "pipe_view (pipe_at g' j) = pipe_view (pipe_at (Bus s) j)" for j using g'(2) by (simp add: quiet_def)
  have b: "Bufs g' = Bufs (Bus s)" "Links g' = Links (Bus s)" "SBBuffersInUse (StatTlmMsg g') = SBBuffersInUse (StatTlmMsg (Bus s))"
    using g'(2) by (simp_all add: quiet_def)
  have o: "owned g' = owned (Bus s)" "use_count g' = use_count (Bus s)" by (simp_all add: owned_def use_count_def b fun_eq_iff)
  have r: "refs (s\<lparr>Bus := g'\<rparr>) = refs s"
    by (simp add: refs_def o pipe_refs_cong [of g' "Bus s"] last_refs_view [OF v])
  have q: "live g' j = live (Bus s) j" "SysQueueId (pipe_at g' j) = SysQueueId (pipe_at (Bus s) j)" for j
    using v [of j] by (simp_all add: live_def pipe_view_def)
  show ?thesis
  proof (rule sys_invI)
    show "buf_inv ex (Bus (s\<lparr>Bus := g'\<rparr>)) it zc (refs (s\<lparr>Bus := g'\<rparr>))"
      using i(2) by (simp add: r buf_inv_same_bufs [OF b])
    show "queue_inv (s\<lparr>Bus := g'\<rparr>)" using i(7) by (simp add: queue_inv_def q)
  qed (use g'(1) i in \<open>simp_all add: r o\<close>)
qed

lemma queue_get_step:
  assumes inv: "sys_inv cfg ex s" and q: "Queues s q = b # bs"
  shows "sys_inv cfg ex (s\<lparr>Queues := (Queues s)(q := bs), Taken := add_mset b (Taken s)\<rparr>)"
proof -
  have "refs (s\<lparr>Queues := (Queues s)(q := bs), Taken := add_mset b (Taken s)\<rparr>) = refs s"
    using queue_refs_get [of "Queues s", OF q] by (simp add: refs_def)
  moreover have "queue_inv s \<Longrightarrow> queue_inv (s\<lparr>Queues := (Queues s)(q := bs), Taken := add_mset b (Taken s)\<rparr>)"
    using q by (auto simp: queue_inv_def)
  ultimately show ?thesis using inv unfolding sys_inv_def by simp
qed

lemma queue_delete_step:
  assumes inv: "sys_inv cfg ex s" and q: "q \<in> Deleting s" "Queues s q = []"
  shows "sys_inv cfg ex (s\<lparr>Open := Open s - {q}, Deleting := Deleting s - {q}\<rparr>)"
proof -
  have "refs (s\<lparr>Open := Open s - {q}, Deleting := Deleting s - {q}\<rparr>) = refs s" by (simp add: refs_def)
  moreover have "queue_inv s \<Longrightarrow> queue_inv (s\<lparr>Open := Open s - {q}, Deleting := Deleting s - {q}\<rparr>)"
    using q by (auto simp: queue_inv_def)
  ultimately show ?thesis using inv unfolding sys_inv_def by simp
qed

section \<open>Steps that release a reference\<close>

lemma buf_inv_fewer:
  "buf_inv False g it zc R \<Longrightarrow> (\<And>b. count R' b \<le> count R b) \<Longrightarrow> buf_inv False g it zc R'"
  unfolding buf_inv_def by (meson le_trans)

lemma owned_one:
  assumes "\<And>x. x \<noteq> b \<Longrightarrow> Bufs g' x = Bufs g x" and "b \<notin> owned g"
    and "\<And>d. Bufs g' b = Some d \<Longrightarrow> BufAppId d = CFE_ES_APPID_UNDEFINED"
  shows "owned g' = owned g"
  using assms unfolding owned_def by (metis (mono_tags, lifting) mem_Collect_eq)

lemma Decr_other_bufs:
  assumes "x \<noteq> b"
  shows "Bufs (CFE_SB_DecrBufUseCnt b g) x = Bufs g x" and "use_count (CFE_SB_DecrBufUseCnt b g) x = use_count g x"
  using Decr_step [of b g] assms by (simp_all add: buf_step_def use_count_def)

lemma owned_Decr: "b \<notin> owned g \<Longrightarrow> owned (CFE_SB_DecrBufUseCnt b g) = owned g"
  by (rule owned_one [of b]) (auto simp: Decr_other_bufs owned_def dest: Decr_appid)

lemma owned_Incr: "owned (CFE_SB_IncrBufUseCnt b g) = owned g"
  by (auto simp: owned_def CFE_SB_IncrBufUseCnt_def)

lemma Incr_other_bufs: "x \<noteq> b \<Longrightarrow> use_count (CFE_SB_IncrBufUseCnt b g) x = use_count g x"
  by (simp add: use_count_def CFE_SB_IncrBufUseCnt_def)

lemma owned_cong: "Bufs g' = Bufs g \<Longrightarrow> owned g' = owned g"
  by (simp add: owned_def)

lemma use_count_cong: "Bufs g' = Bufs g \<Longrightarrow> use_count g' x = use_count g x"
  by (simp add: use_count_def)

lemma sub_inv_Decr: "sub_inv cfg g L \<Longrightarrow> sub_inv cfg (CFE_SB_DecrBufUseCnt b g) L"
  by (rule sub_inv_keep) simp_all

text \<open>The invariant for a changed bus, when buffers not yet broadcast are untouched and references only disappear.\<close>

lemma sys_release:
  assumes inv: "sys_inv cfg ex s" and b: "b \<notin> Sending s \<union> owned (Bus s)"
    and s': "Sending s' = Sending s" "owned (Bus s') = owned (Bus s)" "\<And>x. x \<noteq> b \<Longrightarrow> use_count (Bus s') x = use_count (Bus s) x"
    and sub: "sub_inv cfg (Bus s') L'" and bi: "buf_inv ex (Bus s') it' zc' (refs s')" "set zc' = owned (Bus s)"
    and cnt: "\<And>x. count (refs s') x \<le> count (refs s) x" and q: "queue_inv s'"
  shows "sys_inv cfg ex s'"
proof (rule sys_invI [OF sub bi(1)])
  note i = inv [unfolded sys_inv_def]
  show "set zc' = owned (Bus s')" "finite (Sending s')" "queue_inv s'" using bi(2) s' i q by auto
  show "count (refs s') x \<le> 16" for x using cnt [of x] i by (meson le_trans)
  show "use_count (Bus s') x = 1" if "x \<in> Sending s' \<union> owned (Bus s')" for x
    using that s' b i by (cases "x = b") auto
qed

lemma drain_step:
  assumes inv: "sys_inv cfg ex s" and b: "b \<in># Taken s"
  shows "sys_inv cfg ex (s\<lparr>Bus := CFE_SB_DecrBufUseCnt b (Bus s), Taken := Taken s - {#b#}\<rparr>)" (is "sys_inv cfg ex ?s")
proof -
  obtain L it zc where i: "sub_inv cfg (Bus s) L" "buf_inv ex (Bus s) it zc (refs s)" "set zc = owned (Bus s)"
    "finite (Sending s)" "\<And>b. count (refs s) b \<le> 16" "\<And>b. b \<in> Sending s \<union> owned (Bus s) \<Longrightarrow> use_count (Bus s) b = 1" "queue_inv s"
    using sys_invE [OF inv] by metis
  have ns: "b \<notin> Sending s \<union> owned (Bus s)" using unsent_refs(2) [OF i(2,4)] i(6) b by blast
  have o: "owned (CFE_SB_DecrBufUseCnt b (Bus s)) = owned (Bus s)" using ns by (simp add: owned_Decr)
  have "refs s = add_mset b (refs ?s)"
    using b by (simp add: refs_def o pipe_refs_same [of "CFE_SB_DecrBufUseCnt b (Bus s)" "Bus s"])
  moreover from this obtain it' where "buf_inv ex (Bus ?s) it' zc (refs ?s)"
    using Decr_refs [of ex "Bus s" it zc b "refs ?s"] i(2,3) ns by auto
  moreover have "queue_inv ?s" using i(7) by (simp add: queue_inv_def live_def)
  ultimately show ?thesis
    using i(3) o sub_inv_Decr [OF i(1), of b]
    by (intro sys_release [OF inv ns, where s' = ?s]) (simp_all add: Decr_other_bufs)
qed

text \<open>The same for one pipe entry whose last buffer goes away or changes.\<close>

lemma last_refs_other: "pipe_at g' j = pipe_at g j \<Longrightarrow> last_refs g' j = last_refs g j"
  by (simp add: last_refs_def live_def)

lemma pipe_refs_member: "i < 64 \<Longrightarrow> b \<in># last_refs g i \<Longrightarrow> b \<in># pipe_refs g"
  unfolding pipe_refs_def by (auto simp: set_mset_sum)

lemma receive_begin_step:
  assumes inv: "sys_inv cfg ex s" and call: "receive_begin pid (Bus s) = (g, CFE_SUCCESS, e, p, q)"
  shows "sys_inv cfg ex (s\<lparr>Bus := g\<rparr>)"
proof -
  obtain L it zc where i: "sub_inv cfg (Bus s) L" "buf_inv ex (Bus s) it zc (refs s)" "set zc = owned (Bus s)"
    "finite (Sending s)" "\<And>b. count (refs s) b \<le> 16" "\<And>b. b \<in> Sending s \<union> owned (Bus s) \<Longrightarrow> use_count (Bus s) b = 1" "queue_inv s"
    using sys_invE [OF inv] by metis
  have "CFE_SB_PipeDescIsMatch (Bus s) (CFE_SB_LocatePipeDescByID pid) pid"
    using call by (auto simp: receive_begin_def Let_def split: if_splits)
  then obtain j where j: "j < 64" "CFE_SB_LocatePipeDescByID pid = Some j" "PipeId (pipe_at (Bus s) j) = pid" "live (Bus s) j"
    using match_live by blast
  show ?thesis
  proof (cases "LastBuffer (pipe_at (Bus s) j)")
    case None
    then have "g = Bus s" using call j by (simp add: receive_begin_def CFE_SB_PipeDescIsMatch_def)
    then show ?thesis using inv by simp
  next
    case (Some b)
    let ?s = "s\<lparr>Bus := g\<rparr>"
    have g: "g = upd_pipe j (\<lambda>p. p\<lparr>LastBuffer := NULL\<rparr>) (CFE_SB_DecrBufUseCnt b (Bus s))"
      using call j Some by (simp add: receive_begin_def CFE_SB_PipeDescIsMatch_def Let_def)
    have lb: "b \<in># last_refs (Bus s) j" using j Some by (simp add: last_refs_def)
    then have ns: "b \<notin> Sending s \<union> owned (Bus s)"
      using unsent_refs(3) [OF i(2,4)] i(6) pipe_refs_member [OF j(1) lb] by blast
    have o: "owned g = owned (Bus s)" using ns owned_Decr [of b "Bus s"] by (simp add: g owned_cong [of "upd_pipe _ _ _" "CFE_SB_DecrBufUseCnt b (Bus s)"])
    have len: "unat j < length (PipeTbl (Bus s))" by (rule pipe_inv_length [OF sub_invD(2) [OF i(1)] j(1)])
    have at: "pipe_at g k = (if k = j then (pipe_at (Bus s) j)\<lparr>LastBuffer := NULL\<rparr> else pipe_at (Bus s) k)" for k
      using len by (simp add: g)
    have "pipe_refs g + last_refs (Bus s) j = pipe_refs (Bus s) + last_refs g j"
      by (rule pipe_refs_change [OF j(1)], rule last_refs_other) (simp add: at)
    then have pr: "pipe_refs (Bus s) = add_mset b (pipe_refs g)"
      using j(4) Some by (simp add: last_refs_def at)
    have r: "refs s = add_mset b (refs ?s)" by (simp add: refs_def pr o)
    obtain g' it' where "receive_begin pid (Bus s) = (g', CFE_SUCCESS, 0, Some j, SysQueueId (pipe_at (Bus s) j))"
      and gi: "sub_inv cfg g' L" "buf_inv ex g' it' zc (refs ?s)"
      using receive_begin_ok [OF i(1) j(2,3), of ex it zc "refs ?s"] i(2,3) r Some ns by auto
    then have g': "g' = g" using call by simp
    have lv: "live g k = live (Bus s) k" "SysQueueId (pipe_at g k) = SysQueueId (pipe_at (Bus s) k)" for k
      by (simp_all add: live_def at)
    have "queue_inv ?s" using i(7) by (simp add: queue_inv_def lv)
    moreover have "use_count g x = use_count (Bus s) x" if "x \<noteq> b" for x
      using that Decr_other_bufs(2) [of x b "Bus s"] by (simp add: g use_count_def)
    ultimately show ?thesis
      using gi i(3) o r by (intro sys_release [OF inv ns, where s' = ?s]) (simp_all add: g')
  qed
qed

lemma taken_bus: "s\<lparr>Taken := T, Bus := g\<rparr> = s\<lparr>Bus := g, Taken := T\<rparr>"
  by simp

lemma sys_inv_hk: "sys_inv cfg ex s \<Longrightarrow> sys_inv cfg ex (s\<lparr>Bus := upd_hk f (Bus s)\<rparr>)"
  using quiet_step [of cfg ex s "upd_hk f (Bus s)"] by (auto simp: sub_inv_hk elim!: sys_invE)

lemma receive_store_step:
  assumes inv: "sys_inv cfg ex s" and b: "b \<in># Taken s" and env: "MapCfg env = cfg"
    and j: "CFE_SB_LocatePipeDescByID pid = Some j"
    and single: "ex \<longrightarrow> PipeId (pipe_at (Bus s) j) = pid \<longrightarrow> LastBuffer (pipe_at (Bus s) j) = NULL"
    and call: "receive_store env pid (Some j) b (Bus s) = Some (g, st, e, out)"
  shows "sys_inv cfg ex (s\<lparr>Bus := receive_count st e g, Taken := Taken s - {#b#}\<rparr>)"
proof -
  obtain L it zc where i: "sub_inv cfg (Bus s) L" "buf_inv ex (Bus s) it zc (refs s)" "set zc = owned (Bus s)"
    "finite (Sending s)" "\<And>b. count (refs s) b \<le> 16" "\<And>b. b \<in> Sending s \<union> owned (Bus s) \<Longrightarrow> use_count (Bus s) b = 1" "queue_inv s"
    using sys_invE [OF inv] by metis
  have ns: "b \<notin> Sending s \<union> owned (Bus s)" using unsent_refs(2) [OF i(2,4)] i(6) b by blast
  let ?s = "s\<lparr>Bus := g, Taken := Taken s - {#b#}\<rparr>"
  have "sys_inv cfg ex ?s"
  proof (cases "PipeId (pipe_at (Bus s) j) = pid")
    case False
    then have "g = CFE_SB_DecrBufUseCnt b (Bus s)" using call by (simp add: receive_store_def CFE_SB_PipeDescIsMatch_def)
    then show ?thesis using drain_step [OF inv b] by simp
  next
    case True
    obtain R where R: "refs s = add_mset b R" using b by (metis insert_DiffM refs_def union_iff)
    have "count R b < 0x7FFE" using i(5) [of b] R by simp
    then have st: "sub_inv cfg g L" "pipe_at g j = recv_pipe b (pipe_at (Bus s) j)" "\<And>k. k \<noteq> j \<Longrightarrow> pipe_at g k = pipe_at (Bus s) k"
      "buf_inv ex g it zc (refs s)" "Bufs g = Bufs (CFE_SB_DecrBufUseCnt b (CFE_SB_IncrBufUseCnt b (Bus s)))"
      using receive_store_ok [of env "Bus s" L ex it zc b R pid j] i(1,2) R j True env call by auto
    have j64: "j < 64" by (rule Locate_lt [OF j])
    have lv: "live g k = live (Bus s) k" "SysQueueId (pipe_at g k) = SysQueueId (pipe_at (Bus s) k)" for k
      by (cases "k = j"; simp add: live_def st recv_pipe_def)+
    have l: "live (Bus s) j" using j True by (auto simp: live_def)
    have o: "owned g = owned (Bus s)"
      using ns owned_Decr [of b "CFE_SB_IncrBufUseCnt b (Bus s)"] owned_cong [OF st(5)] by (simp add: owned_Incr)
    have "pipe_refs g + last_refs (Bus s) j = pipe_refs (Bus s) + last_refs g j"
      by (rule pipe_refs_change [OF j64], rule last_refs_other) (simp add: st(3))
    then have pr: "pipe_refs g + ptr_refs (LastBuffer (pipe_at (Bus s) j)) = add_mset b (pipe_refs (Bus s))"
      using l lv(1) [of j] by (simp add: last_refs_def st recv_pipe_def)
    have "refs ?s + ptr_refs (LastBuffer (pipe_at (Bus s) j)) =
        queue_refs (Queues s) + (pipe_refs g + ptr_refs (LastBuffer (pipe_at (Bus s) j))) + mset_set (Sending s) + (Taken s - {#b#}) + mset_set (owned g)"
      by (simp add: refs_def)
    also have "\<dots> = refs s" unfolding pr o refs_def using b by (simp add: union_assoc [symmetric])
    finally have r: "refs ?s + ptr_refs (LastBuffer (pipe_at (Bus s) j)) = refs s" .
    have cnt: "count (refs ?s) x \<le> count (refs s) x" for x unfolding r [symmetric] by simp
    have bi: "buf_inv ex g it zc (refs ?s)"
    proof (cases ex)
      case True
      then show ?thesis using single \<open>PipeId _ = pid\<close> r st(4) by simp
    qed (use buf_inv_fewer [of g it zc "refs s"] st(4) cnt in simp)
    have "queue_inv ?s" using i(7) by (simp add: queue_inv_def lv)
    moreover have "use_count g x = use_count (Bus s) x" if "x \<noteq> b" for x
      using that Decr_other_bufs(2) [OF that] Incr_other_bufs [OF that] by (simp add: use_count_cong [OF st(5)])
    ultimately show ?thesis
      using st(1) bi i(3) o cnt by (intro sys_release [OF inv ns, where s' = ?s]) simp_all
  qed
  then show ?thesis
    using sys_inv_hk [of cfg ex ?s] by (simp add: receive_count_def taken_bus)
qed

end
