(* ===== verification/CFE_SB_System.thy ===== *)
theory CFE_SB_System
  imports CFE_SB_Refs
begin

unbundle bit_operations_syntax

text \<open>
  The remaining steps of the software bus with all its tasks (allocation, broadcast, zero copy, creation and
  deletion of pipes), and what holds in every reachable state: no buffer in use is ever freed, and,
  with one receiver for each pipe, none is leaked.
\<close>

section \<open>Steps that take a buffer from the pool\<close>

lemma transmit_get_new:
  assumes "transmit_get_buffer env CFE_SUCCESS sz r g = (g1, CFE_SUCCESS, Some b)"
  shows "CFE_SB_GetBufferFromPool env sz g = (g1, Some b)"
  using assms by (auto simp: transmit_get_buffer_def Let_def split: if_splits prod.splits option.splits)

lemma GetBuffer_pool:
  assumes "CFE_SB_GetBufferFromPool env n g = (g1, Some b)"
  shows "GetPoolBuf env (n + ContentOffset env) = (fst (GetPoolBuf env (n + ContentOffset env)), b)"
    and "0 \<le> sint (fst (GetPoolBuf env (n + ContentOffset env)))"
  using assms by (auto simp: CFE_SB_GetBufferFromPool_def Let_def split: if_splits prod.splits)

text \<open>A new buffer: fresh, used once, of no application.\<close>

lemma GetBuffer_take:
  assumes bi: "buf_inv ex g it zc R" and fresh: "pool_fresh env g" and call: "CFE_SB_GetBufferFromPool env n g = (g1, Some b)"
  shows "buf_inv ex g1 it zc (add_mset b R)" "lone (Links g1) b" "Bufs g b = None" "\<And>x. x \<noteq> b \<Longrightarrow> Bufs g1 x = Bufs g x"
    "\<exists>d. Bufs g1 b = Some d \<and> UseCount d = 1 \<and> BufAppId d = CFE_ES_APPID_UNDEFINED"
    "PipeTbl g1 = PipeTbl g" "Dests g1 = Dests g" "SBR g1 = SBR g" "LastPipeId g1 = LastPipeId g"
proof -
  have f: "snd (GetPoolBuf env k) \<notin> dom (Bufs g)" if "0 \<le> sint (fst (GetPoolBuf env k))" for k
    using fresh that by (simp add: pool_fresh_def domIff)
  note c = GetBuffer_cases(2) [OF bi f, of n b, unfolded call, simplified]
  show "buf_inv ex g1 it zc (add_mset b R)" "lone (Links g1) b" "Bufs g b = None" "\<And>x. x \<noteq> b \<Longrightarrow> Bufs g1 x = Bufs g x"
    using c by auto
  show "\<exists>d. Bufs g1 b = Some d \<and> UseCount d = 1 \<and> BufAppId d = CFE_ES_APPID_UNDEFINED"
    using GetBuffer_new(2) [OF GetBuffer_pool [OF call], of g] call by simp
  show "PipeTbl g1 = PipeTbl g" "Dests g1 = Dests g" "SBR g1 = SBR g" "LastPipeId g1 = LastPipeId g"
    using GetBuffer_other [of env n g] call by simp_all
qed

lemma fresh_unsent:
  assumes "sys_inv cfg ex s" and "Bufs (Bus s) b = None"
  shows "b \<notin># refs s" and "b \<notin> Sending s \<union> owned (Bus s)"
proof -
  obtain it zc where bi: "buf_inv ex (Bus s) it zc (refs s)" and uc: "\<forall>b \<in> Sending s \<union> owned (Bus s). use_count (Bus s) b = 1"
    using assms(1) unfolding sys_inv_def by blast
  have z: "use_count (Bus s) b = 0" using assms(2) by (simp add: use_count_def)
  then show "b \<notin># refs s" using buf_invD(5) [OF bi, of b] by (simp add: not_in_iff)
  show "b \<notin> Sending s \<union> owned (Bus s)" using uc z by force
qed

text \<open>The invariant after an allocation, with the new buffer held by a sender or an application.\<close>

lemma sys_take:
  assumes inv: "sys_inv cfg ex s" and new: "Bufs (Bus s) b = None"
    and r: "refs s' = add_mset b (refs s)" and u: "Sending s' \<union> owned (Bus s') = insert b (Sending s \<union> owned (Bus s))" "finite (Sending s')"
    and sub: "sub_inv cfg (Bus s') L'" and bi: "buf_inv ex (Bus s') it' zc' (refs s')" "set zc' = owned (Bus s')"
    and uc: "use_count (Bus s') b = 1" "\<And>x. x \<noteq> b \<Longrightarrow> use_count (Bus s') x = use_count (Bus s) x" and q: "queue_inv s'"
  shows "sys_inv cfg ex s'"
proof (rule sys_invI [OF sub bi u(2) _ _ q])
  note i = inv [unfolded sys_inv_def]
  show "count (refs s') x \<le> 16" for x
    using i fresh_unsent(1) [OF inv new] by (cases "x = b") (simp_all add: r not_in_iff)
  show "use_count (Bus s') x = 1" if "x \<in> Sending s' \<union> owned (Bus s')" for x
    using that i uc by (cases "x = b") (auto simp: u(1))
qed

text \<open>The invariant of the queues when pipes keep what they refer to and only existing queues get messages.\<close>

lemma queue_inv_more:
  assumes q: "queue_inv s" and v: "\<And>i. pipe_view (pipe_at (Bus s') i) = pipe_view (pipe_at (Bus s) i)"
    and m: "\<And>q. Queues s' q \<noteq> [] \<Longrightarrow> Queues s q \<noteq> [] \<or> q \<in> Open s" and o: "Open s' = Open s" "Deleting s' = Deleting s"
  shows "queue_inv s'"
proof -
  have "live (Bus s') i = live (Bus s) i" "SysQueueId (pipe_at (Bus s') i) = SysQueueId (pipe_at (Bus s) i)" for i
    using v [of i] by (simp_all add: live_def pipe_view_def)
  moreover have "\<forall>q. Queues s' q \<noteq> [] \<longrightarrow> q \<in> Open s" using q m unfolding queue_inv_def by blast
  ultimately show ?thesis using q o by (simp add: queue_inv_def)
qed

lemma queue_inv_same:
  assumes "queue_inv s" and "\<And>i. pipe_view (pipe_at (Bus s') i) = pipe_view (pipe_at (Bus s) i)"
    and "Queues s' = Queues s" "Open s' = Open s" "Deleting s' = Deleting s"
  shows "queue_inv s'"
  by (rule queue_inv_more [OF assms(1,2) _ assms(4,5)]) (simp add: assms(3))

lemma queue_inv_open: "queue_inv s \<Longrightarrow> i < 64 \<Longrightarrow> live (Bus s) i \<Longrightarrow> SysQueueId (pipe_at (Bus s) i) \<in> Open s"
  by (simp add: queue_inv_def)

lemma send_alloc_step:
  assumes inv: "sys_inv cfg ex s" and fresh: "pool_fresh env (Bus s)"
    and call: "transmit_get_buffer env CFE_SUCCESS sz r (Bus s) = (g, CFE_SUCCESS, Some b)"
  shows "sys_inv cfg ex (s\<lparr>Bus := transmit_fill b msg m sz incr g, Sending := insert b (Sending s)\<rparr>)" (is "sys_inv cfg ex ?s")
proof -
  obtain L it zc where i: "sub_inv cfg (Bus s) L" "buf_inv ex (Bus s) it zc (refs s)" "set zc = owned (Bus s)"
    "finite (Sending s)" "queue_inv s"
    using sys_invE [OF inv] by metis
  note t = GetBuffer_take [OF i(2) fresh transmit_get_new [OF call]]
  define g' where "g' = transmit_fill b msg m sz incr g"
  obtain d where d: "Bufs g b = Some d" "UseCount d = 1" "BufAppId d = CFE_ES_APPID_UNDEFINED" using t(5) by blast
  have g': "PipeTbl g' = PipeTbl (Bus s)" "Dests g' = Dests (Bus s)" "SBR g' = SBR (Bus s)" "LastPipeId g' = LastPipeId (Bus s)"
    "\<And>x. x \<noteq> b \<Longrightarrow> Bufs g' x = Bufs (Bus s) x" "\<exists>d. Bufs g' b = Some d \<and> UseCount d = 1 \<and> BufAppId d = CFE_ES_APPID_UNDEFINED"
    using t d by (simp_all add: g'_def transmit_fill_def)
  have pa: "pipe_at g' k = pipe_at (Bus s) k" for k by (simp add: pipe_at_def g')
  have ns: "b \<notin> Sending s \<union> owned (Bus s)" by (rule fresh_unsent(2) [OF inv t(3)])
  have o: "owned g' = owned (Bus s)"
    by (rule owned_one [of b]) (use g' ns in auto)
  have r: "refs ?s = add_mset b (refs s)"
    using i(4) ns by (simp add: refs_def g'_def [symmetric] o pipe_refs_same [OF pa] )
  have "buf_inv ex g' it zc (add_mset b (refs s))"
    unfolding g'_def transmit_fill_def by (subst buf_inv_upd_buf) (simp_all add: t(1))
  moreover have "sub_inv cfg g' L" by (rule sub_inv_keep [OF i(1)]) (simp_all add: g' pa)
  moreover have "queue_inv ?s" by (rule queue_inv_same [OF i(5)]) (simp_all add: g'_def [symmetric] pa)
  moreover have "use_count g' b = 1" "\<And>x. x \<noteq> b \<Longrightarrow> use_count g' x = use_count (Bus s) x"
    using g'(5,6) by (auto simp: use_count_def)
  ultimately show ?thesis
    by (intro sys_take [OF inv t(3) r, where it' = it and zc' = zc and L' = L]) (use i o r in \<open>simp_all add: g'_def [symmetric]\<close>)
qed

lemma zero_copy_get_step:
  assumes inv: "sys_inv cfg ex s" and fresh: "pool_fresh env (Bus s)" and app: "app \<noteq> CFE_ES_APPID_UNDEFINED"
    and call: "zero_copy_get env sz app (Bus s) = (g, Some b)"
  shows "sys_inv cfg ex (s\<lparr>Bus := g\<rparr>)" (is "sys_inv cfg ex ?s")
proof -
  obtain L it zc where i: "sub_inv cfg (Bus s) L" "buf_inv ex (Bus s) it zc (refs s)" "set zc = owned (Bus s)"
    "finite (Sending s)" "queue_inv s"
    using sys_invE [OF inv] by metis
  obtain g1 where g1: "CFE_SB_GetBufferFromPool env sz (Bus s) = (g1, Some b)"
    and g: "g = upd_buf b (\<lambda>d. d\<lparr>BufAppId := app\<rparr>) g1\<lparr>Links := CFE_SB_TrackingListAdd ZeroCopyList (BufLink b) (Links g1)\<rparr>"
    using call by (auto simp: zero_copy_get_def Let_def split: prod.splits option.splits)
  note t = GetBuffer_take [OF i(2) fresh g1]
  obtain d where d: "Bufs g1 b = Some d" "UseCount d = 1" using t(5) by blast
  have f: "PipeTbl g = PipeTbl (Bus s)" "Dests g = Dests (Bus s)" "SBR g = SBR (Bus s)" "LastPipeId g = LastPipeId (Bus s)"
    "\<And>x. x \<noteq> b \<Longrightarrow> Bufs g x = Bufs (Bus s) x" "Bufs g b = Some (d\<lparr>BufAppId := app\<rparr>)"
    "Links g = CFE_SB_TrackingListAdd ZeroCopyList (BufLink b) (Links g1)" "StatTlmMsg g = StatTlmMsg g1"
    using t d by (simp_all add: g)
  have pa: "pipe_at g k = pipe_at (Bus s) k" for k by (simp add: pipe_at_def f)
  have ns: "b \<notin> Sending s \<union> owned (Bus s)" by (rule fresh_unsent(2) [OF inv t(3)])
  have o: "owned g = insert b (owned (Bus s))"
  proof (rule set_eqI)
    fix x show "x \<in> owned g \<longleftrightarrow> x \<in> insert b (owned (Bus s))"
      using f(5) [of x] f(6) app by (cases "x = b") (simp_all add: owned_def)
  qed
  have r: "refs ?s = add_mset b (refs s)"
    using finite_owned [OF i(2)] ns by (simp add: refs_def o pipe_refs_same [OF pa])
  have nb: "b \<notin> set it \<union> set zc" using buf_invD(2) [OF i(2)] t(3) by (auto simp: domIff)
  note tr = tracked_Add_zerocopy [OF buf_invD(1) [OF t(1)] nb]
  have uc: "use_count g x = use_count g1 x" for x
    using d by (cases "x = b") (simp_all add: use_count_def g)
  have dm: "dom (Bufs g) = dom (Bufs g1)" by (simp add: g)
  have "x \<in> set it \<union> set (zc @ [b]) \<or> lone (Links g) x" if "x \<in> dom (Bufs g1)" for x
    using buf_invD(7) [OF t(1) that] tr(2) [of x] by (cases "x = b") (auto simp: f(7))
  moreover have "set it \<union> set (zc @ [b]) \<subseteq> dom (Bufs g1)" using buf_invD(2) [OF t(1)] d(1) by auto
  ultimately have bi: "buf_inv ex g it (zc @ [b]) (refs ?s)"
    unfolding r buf_inv_def uc dm f(8) using t(1) [unfolded buf_inv_def] tr(1) f(7) by simp
  have "sub_inv cfg g L" by (rule sub_inv_keep [OF i(1)]) (simp_all add: f pa)
  moreover have "queue_inv ?s" by (rule queue_inv_same [OF i(5)]) (simp_all add: pa)
  moreover have "use_count g b = 1" "\<And>x. x \<noteq> b \<Longrightarrow> use_count g x = use_count (Bus s) x"
    using f(5,6) d by (simp_all add: use_count_def)
  ultimately show ?thesis
    by (intro sys_take [OF inv t(3) r, where it' = it and zc' = "zc @ [b]" and L' = L]) (use i(3,4) o bi in simp_all)
qed

lemma zero_copy_write_step:
  assumes inv: "sys_inv cfg ex s" and b: "b \<in> owned (Bus s)" and f: "\<And>d. UseCount (f d) = UseCount d \<and> BufAppId (f d) = BufAppId d"
  shows "sys_inv cfg ex (s\<lparr>Bus := upd_buf b f (Bus s)\<rparr>)" (is "sys_inv cfg ex ?s")
proof -
  obtain L it zc where i: "sub_inv cfg (Bus s) L" "buf_inv ex (Bus s) it zc (refs s)" "set zc = owned (Bus s)"
    "finite (Sending s)" "\<And>b. count (refs s) b \<le> 16" "\<And>b. b \<in> Sending s \<union> owned (Bus s) \<Longrightarrow> use_count (Bus s) b = 1" "queue_inv s"
    using sys_invE [OF inv] by metis
  have o: "owned (upd_buf b f (Bus s)) = owned (Bus s)" using f by (auto simp: owned_def split: if_splits)
  have uc: "use_count (upd_buf b f (Bus s)) x = use_count (Bus s) x" for x by (rule use_count_upd_buf) (simp add: f)
  have pa: "pipe_at (upd_buf b f (Bus s)) k = pipe_at (Bus s) k" for k by (simp add: pipe_at_def)
  have r: "refs ?s = refs s" by (simp add: refs_def o pipe_refs_same [OF pa])
  have "sub_inv cfg (upd_buf b f (Bus s)) L" by (rule sub_inv_keep [OF i(1)]) (simp_all add: pa)
  moreover have "queue_inv ?s" by (rule queue_inv_same [OF i(7)]) (simp_all add: pa)
  moreover have "buf_inv ex (upd_buf b f (Bus s)) it zc (refs s)" by (subst buf_inv_upd_buf) (use f i(2) in simp_all)
  ultimately show ?thesis
    by (intro sys_invI [of cfg ?s L ex it zc]) (use i in \<open>simp_all add: r o uc\<close>)
qed

section \<open>Broadcast\<close>

lemma act_puts_queue:
  assumes inv: "sub_inv cfg g L" and p: "(q, x) \<in> set (act_puts b (send_action env g d))"
  shows "x = b \<and> (\<exists>i < 64. live g i \<and> SysQueueId (pipe_at g i) = q)"
proof -
  have a: "send_action env g d = Deliver q" "x = b" using p by (cases "send_action env g d"; simp)+
  let ?p = "CFE_SB_LocatePipeDescByID (DestPipeId d)"
  have "CFE_SB_PipeDescIsMatch g ?p (DestPipeId d) \<and> q = SysQueueId (pipe_at g (the ?p))"
    using a(1) by (auto simp: send_action_def Let_def split: if_splits)
  then show ?thesis using match_live [of g "DestPipeId d"] a(2) by auto
qed

lemma length_act_puts: "length (act_puts b a) \<le> 1"
  by (cases a) simp_all

lemma length_puts: "length (concat (map (\<lambda>d. act_puts b (act d)) xs)) \<le> length xs"
proof (induction xs)
  case (Cons x xs)
  then show ?case using length_act_puts [of b "act x"] by simp
qed simp

text \<open>A broadcast changes no buffer but its own, and no pipe in what refers to buffers and queues.\<close>

lemma broadcast_others:
  assumes inv: "sub_inv cfg g L" and c: "CFE_SB_BroadcastBufferToRoute env b r g = Some (g', outs, puts)" and x: "x \<noteq> b"
  shows "Bufs g' x = Bufs g x"
  using broadcast_data(1) [OF inv c] x by (auto simp: buf_step_def broadcast_sequence_def Let_def split: if_splits)

lemma broadcast_owned:
  assumes inv: "sub_inv cfg g L" and c: "CFE_SB_BroadcastBufferToRoute env b r g = Some (g', outs, puts)"
  shows "owned g' = owned g - {b}"
proof (rule set_eqI)
  fix x show "x \<in> owned g' \<longleftrightarrow> x \<in> owned g - {b}"
    using broadcast_others [OF inv c, of x] broadcast_data(2) [OF inv c] by (cases "x = b") (auto simp: owned_def)
qed

lemma unsent_split:
  assumes "finite S" "finite W" "b \<in> S \<union> W" "\<not> (b \<in> S \<and> b \<in> W)"
  shows "mset_set S + mset_set W = add_mset b (mset_set (S - {b}) + mset_set (W - {b}))"
  using assms by (cases "b \<in> S") (auto simp: mset_set.remove)

lemma regroup:
  fixes M :: "'a multiset"
  assumes "M + N = add_mset b (M' + N')"
  shows "add_mset b (A + X + B + M' + C + N') = A + B + M + C + N + X"
proof -
  have "A + B + M + C + N + X = (M + N) + (A + B + C + X)" by (simp add: ac_simps)
  also have "\<dots> = add_mset b (A + X + B + M' + C + N')" unfolding assms by (simp add: ac_simps)
  finally show ?thesis by simp
qed

lemma broadcast_step:
  assumes inv: "sys_inv cfg ex s" and b: "b \<in> Sending s \<union> owned (Bus s)"
    and call: "CFE_SB_BroadcastBufferToRoute env b r (Bus s) = Some (g, outs, puts)"
  shows "sys_inv cfg ex (s\<lparr>Bus := g, Queues := enqueue puts (Queues s), Sending := Sending s - {b}\<rparr>)" (is "sys_inv cfg ex ?s")
proof -
  obtain L it zc where i: "sub_inv cfg (Bus s) L" "buf_inv ex (Bus s) it zc (refs s)" "set zc = owned (Bus s)"
    "finite (Sending s)" "\<And>b. count (refs s) b \<le> 16" "\<And>b. b \<in> Sending s \<union> owned (Bus s) \<Longrightarrow> use_count (Bus s) b = 1" "queue_inv s"
    using sys_invE [OF inv] by metis
  note u = unsent_refs [OF i(2,4) b i(6) [OF b]]
  define R where "R = refs s - {#b#}"
  have R: "refs s = add_mset b R" "count R b = 0" using u(1) by (auto simp: R_def insert_DiffM count_greater_zero_iff [symmetric] simp del: count_greater_zero_iff)
  have puts: "puts = concat (map (\<lambda>d. act_puts b (send_action env (Bus s) d)) (route_view (Bus s) L r))"
    and sub: "sub_inv cfg g L"
    and pipes: "\<forall>d \<in> set (route_view (Bus s) L r). \<forall>i. CFE_SB_LocatePipeDescByID (DestPipeId d) = Some i \<longrightarrow>
       pipe_at g i = act_pipe (send_action env (Bus s) d) (pipe_at (Bus s) i)"
      "\<forall>i. (\<forall>d \<in> set (route_view (Bus s) L r). CFE_SB_LocatePipeDescByID (DestPipeId d) \<noteq> Some i) \<longrightarrow> pipe_at g i = pipe_at (Bus s) i"
    and bi: "\<exists>it'. buf_inv ex g it' (remove1 b zc) (R + replicate_mset (length puts) b)"
    using broadcast_ok [OF i(1) i(2) [unfolded R(1)], where env = env and r = r] R(2) call by auto
  obtain it' where bi: "buf_inv ex g it' (remove1 b zc) (R + replicate_mset (length puts) b)" using bi by blast
  have core: "pipe_core (pipe_at g k) = pipe_core (pipe_at (Bus s) k)" for k
  proof (cases "\<exists>d \<in> set (route_view (Bus s) L r). CFE_SB_LocatePipeDescByID (DestPipeId d) = Some k")
    case True
    then show ?thesis using pipes(1) by force
  qed (use pipes(2) in simp)
  then have pv: "pipe_view (pipe_at g k) = pipe_view (pipe_at (Bus s) k)" for k
    using core [of k] by (simp add: pipe_view_def pipe_core_def)
  have o: "owned g = owned (Bus s) - {b}" by (rule broadcast_owned [OF i(1) call])
  have len: "length puts \<le> 16" unfolding puts by (rule le_trans [OF length_puts]) (simp add: sub_invD(5) [OF i(1)])
  have snd: "mset (map snd puts) = replicate_mset (length puts) b" unfolding puts puts_snd by simp
  have "pipe_refs g = pipe_refs (Bus s)" by (rule pipe_refs_cong) (rule last_refs_view [OF pv])
  then have "add_mset b (refs ?s) = refs s + replicate_mset (length puts) b"
    using regroup [OF unsent_split [OF i(4) finite_owned [OF i(2)] b u(5)]]
    by (simp add: refs_def o queue_refs_enqueue snd [unfolded mset_map])
  then have r: "refs ?s = R + replicate_mset (length puts) b" by (simp add: R)
  have "q \<in> Open s" if q: "q \<in> fst ` set puts" for q
  proof -
    obtain x where "(q, x) \<in> set puts" using q by auto
    then obtain d where "(q, x) \<in> set (act_puts b (send_action env (Bus s) d))" unfolding puts by auto
    then show ?thesis using act_puts_queue [OF i(1)] queue_inv_open [OF i(7)] by blast
  qed
  then have "Queues s q \<noteq> [] \<or> q \<in> Open s" if "enqueue puts (Queues s) q \<noteq> []" for q
    using that enqueue_other [of q puts "Queues s"] by (cases "q \<in> fst ` set puts") simp_all
  then have "queue_inv ?s" by (intro queue_inv_more [OF i(7)]) (simp_all add: pv)
  moreover have "count (refs ?s) x \<le> 16" for x
    using i(5) [of x] R len by (cases "x = b") (simp_all add: r)
  moreover have "use_count g x = 1" if "x \<in> Sending s - {b} \<union> (owned (Bus s) - {b})" for x
  proof -
    have "Bufs g x = Bufs (Bus s) x" using that by (intro broadcast_others [OF i(1) call]) auto
    then show ?thesis using i(6) [of x] that by (auto simp: use_count_def)
  qed
  moreover have "set (remove1 b zc) = owned (Bus s) - {b}"
    using i(3) tracked_distinct [OF buf_invD(1) [OF i(2)]] by auto
  ultimately show ?thesis
    using sub bi i(4) r o by (intro sys_invI [of cfg ?s L ex it' "remove1 b zc"]) simp_all
qed

text \<open>The locked section of a broadcast, and an event of a sender that reports.\<close>

lemma broadcast_locked_step:
  assumes inv: "sys_inv cfg ex s" and b: "b \<in> Sending s \<union> owned (Bus s)"
    and call: "broadcast_locked env b r (Bus s) = Some (g, errs, puts)"
  shows "sys_inv cfg ex (s\<lparr>Bus := g, Queues := enqueue puts (Queues s), Sending := Sending s - {b}, Reporting := x\<rparr>)"
proof -
  have "CFE_SB_BroadcastBufferToRoute env b r (Bus s) = Some (g, snd (fold (send_err_event env b) errs (g, [])), puts)"
    by (simp add: broadcast_events call)
  from broadcast_step [OF inv b this] show ?thesis by simp
qed

lemma report_step:
  assumes inv: "sys_inv cfg ex s" and call: "send_err_event env b e (Bus s, []) = (g, outs)"
  shows "sys_inv cfg ex (s\<lparr>Bus := g, Reporting := x\<rparr>)"
proof -
  have "g = Bus s" using send_err_events [of env b "[e]" "Bus s" "[]"] call by simp
  then show ?thesis using inv by simp
qed

section \<open>Release of zero-copy buffers\<close>

lemma zero_copy_release_step:
  assumes inv: "sys_inv cfg ex s" and b: "b \<in> owned (Bus s)"
    and call: "CFE_SB_ZeroCopyReleasePtr (Some b) (Some b) (Bus s) = (g, CFE_SUCCESS)"
  shows "sys_inv cfg ex (s\<lparr>Bus := g\<rparr>)" (is "sys_inv cfg ex ?s")
proof -
  obtain L it zc where i: "sub_inv cfg (Bus s) L" "buf_inv ex (Bus s) it zc (refs s)" "set zc = owned (Bus s)"
    "finite (Sending s)" "\<And>b. count (refs s) b \<le> 16" "\<And>b. b \<in> Sending s \<union> owned (Bus s) \<Longrightarrow> use_count (Bus s) b = 1" "queue_inv s"
    using sys_invE [OF inv] by metis
  let ?h = "upd_buf b (\<lambda>d. d\<lparr>BufAppId := CFE_ES_APPID_UNDEFINED\<rparr>) (Bus s)"
  have g: "g = CFE_SB_DecrBufUseCnt b ?h"
    using call by (auto simp: CFE_SB_ZeroCopyReleasePtr_def zero_copy_release_def Let_def split: if_splits)
  have bi: "buf_inv ex ?h it zc (refs s)" by (subst buf_inv_upd_buf) (simp_all add: i(2))
  have uc: "use_count ?h x = use_count (Bus s) x" for x by (rule use_count_upd_buf) simp
  have one: "use_count (Bus s) b = 1" using i(6) b by blast
  have u: "count (refs s) b = 1" "b \<notin> Sending s" using unsent_refs(1,5) [OF i(2,4) _ one] b by auto
  then have "b \<in># refs s" by (simp add: count_greater_zero_iff [symmetric] del: count_greater_zero_iff)
  from Decr_inv(1) [OF bi this] have bi': "buf_inv ex g (remove1 b it) (remove1 b zc) (refs s - {#b#})" "Bufs g b = None"
    by (simp_all add: uc one g)
  have other: "Bufs g x = Bufs (Bus s) x" if "x \<noteq> b" for x using Decr_other_bufs(1) [OF that, of ?h] that by (simp add: g)
  have o: "owned g = owned (Bus s) - {b}"
  proof (rule set_eqI)
    fix x show "x \<in> owned g \<longleftrightarrow> x \<in> owned (Bus s) - {b}" using other [of x] bi'(2) by (cases "x = b") (auto simp: owned_def)
  qed
  have pa: "pipe_at g k = pipe_at (Bus s) k" for k by (simp add: g pipe_at_def)
  have "mset_set (owned (Bus s)) = add_mset b (mset_set (owned (Bus s) - {b}))"
    using finite_owned [OF i(2)] b by (simp add: mset_set.remove)
  then have "refs s = add_mset b (refs ?s)" by (simp add: refs_def o pipe_refs_same [OF pa])
  then have r: "refs s - {#b#} = refs ?s" by simp
  have "sub_inv cfg g L" by (rule sub_inv_keep [OF i(1)]) (simp_all add: g pipe_at_def)
  moreover have "queue_inv ?s" by (rule queue_inv_same [OF i(7)]) (simp_all add: pa)
  moreover have "count (refs ?s) x \<le> 16" for x unfolding r [symmetric] using i(5) [of x] by simp
  moreover have "use_count g x = 1" if "x \<in> Sending s \<union> (owned (Bus s) - {b})" for x
    using that u(2) other [of x] i(6) [of x] by (cases "x = b") (auto simp: use_count_def)
  moreover have "set (remove1 b zc) = owned (Bus s) - {b}"
    using i(3) tracked_distinct [OF buf_invD(1) [OF i(2)]] by auto
  ultimately show ?thesis
    using bi'(1) i(4) r o by (intro sys_invI [of cfg ?s L ex "remove1 b it" "remove1 b zc"]) simp_all
qed

text \<open>
  The walk of the clean-up along the rest \<open>ys\<close> of the zero-copy list ends, and frees the buffers
  of the application.
\<close>

definition keeps :: "CFE_ES_AppId \<Rightarrow> CFE_SB_Global \<Rightarrow> nat \<Rightarrow> bool" where
  "keeps app g b \<longleftrightarrow> BufAppId (buf_at g b) \<noteq> app"

lemma release_walk_ok:
  assumes "buf_inv ex g it (xs @ ys) (R + mset ys)" and "\<And>b. b \<in> set ys \<Longrightarrow> use_count g b = 1"
  shows "\<exists>g'. release_walk app (hd (map BufLink ys @ [ZeroCopyList])) g = Some g' \<and>
    buf_inv ex g' it (xs @ filter (keeps app g) ys) (R + mset (filter (keeps app g) ys)) \<and>
    (\<forall>x. Bufs g' x = (if x \<in> set ys \<and> \<not> keeps app g x then None else Bufs g x)) \<and>
    PipeTbl g' = PipeTbl g \<and> Dests g' = Dests g \<and> SBR g' = SBR g \<and> LastPipeId g' = LastPipeId g \<and> HKTlmMsg g' = HKTlmMsg g"
  using assms
proof (induction ys arbitrary: g xs R)
  case Nil
  then show ?case by (subst release_walk.simps) (simp add: CFE_SB_TrackingListIsEnd_def)
next
  case (Cons b ys)
  note bi = Cons.prems(1)
  have ring: "ring (Links g) ZeroCopyList (map BufLink xs @ BufLink b # map BufLink ys)" and disj: "b \<notin> set it"
    using buf_invD(1) [OF bi] by (auto simp: tracked_def)
  have nx: "CFE_SB_TrackingListGetNext (Links g) (BufLink b) = hd (map BufLink ys @ [ZeroCopyList])"
    using ring_nonself(2) [OF ring] by (simp add: CFE_SB_TrackingListGetNext_def)
  have dist: "distinct (xs @ b # ys)" using tracked_distinct [OF buf_invD(1) [OF bi]] by simp
  have step: "release_walk app (hd (map BufLink (b # ys) @ [ZeroCopyList])) g =
      release_walk app (hd (map BufLink ys @ [ZeroCopyList])) (if keeps app g b then g else CFE_SB_DecrBufUseCnt b g)"
    by (subst release_walk.simps) (simp add: CFE_SB_TrackingListIsEnd_def Let_def nx keeps_def)
  show ?case
  proof (cases "keeps app g b")
    case True
    have "buf_inv ex g it ((xs @ [b]) @ ys) (add_mset b R + mset ys)" using bi by simp
    from Cons.IH [OF this] Cons.prems(2) obtain g' where IH: "release_walk app (hd (map BufLink ys @ [ZeroCopyList])) g = Some g'"
      "buf_inv ex g' it ((xs @ [b]) @ filter (keeps app g) ys) (add_mset b R + mset (filter (keeps app g) ys))"
      "\<forall>x. Bufs g' x = (if x \<in> set ys \<and> \<not> keeps app g x then None else Bufs g x)"
      "PipeTbl g' = PipeTbl g \<and> Dests g' = Dests g \<and> SBR g' = SBR g \<and> LastPipeId g' = LastPipeId g \<and> HKTlmMsg g' = HKTlmMsg g"
      by (metis list.set_intros(2))
    show ?thesis unfolding step using IH True by (intro exI [of _ g']) auto
  next
    case False
    let ?g = "CFE_SB_DecrBufUseCnt b g"
    have one: "use_count g b = 1" using Cons.prems(2) by simp
    have "buf_inv ex ?g (remove1 b it) (remove1 b (xs @ b # ys)) (R + mset (b # ys) - {#b#}) \<and> Bufs ?g b = None"
      using Decr_inv(1) [OF bi _ one] by simp
    then have bi': "buf_inv ex ?g it (xs @ ys) (R + mset ys)" and nb: "Bufs ?g b = None"
      using dist disj by (auto simp: remove1_append remove1_idem)
    have other: "Bufs ?g x = Bufs g x" "use_count ?g x = use_count g x" if "x \<noteq> b" for x
      using Decr_other_bufs [OF that, of g] by simp_all
    have kp: "keeps app ?g x = keeps app g x" if "x \<in> set ys" for x
      using other(1) [of x] that dist by (cases "x = b") (auto simp: keeps_def buf_at_def)
    have uc: "use_count ?g x = 1" if "x \<in> set ys" for x using other(2) [of x] that dist Cons.prems(2) by auto
    have fl: "filter (keeps app ?g) ys = filter (keeps app g) ys" by (rule filter_cong) (simp_all add: kp)
    from Cons.IH [OF bi' uc] obtain g' where IH: "release_walk app (hd (map BufLink ys @ [ZeroCopyList])) ?g = Some g'"
      "buf_inv ex g' it (xs @ filter (keeps app g) ys) (R + mset (filter (keeps app g) ys))"
      "\<forall>x. Bufs g' x = (if x \<in> set ys \<and> \<not> keeps app ?g x then None else Bufs ?g x)"
      "PipeTbl g' = PipeTbl g \<and> Dests g' = Dests g \<and> SBR g' = SBR g \<and> LastPipeId g' = LastPipeId g \<and> HKTlmMsg g' = HKTlmMsg g"
      unfolding fl by auto
    have "Bufs g' x = (if x \<in> set (b # ys) \<and> \<not> keeps app g x then None else Bufs g x)" for x
      using IH(3) kp [of x] other(1) [of x] nb False dist by (cases "x = b") auto
    then show ?thesis unfolding step using IH False by (intro exI [of _ g']) auto
  qed
qed

text \<open>The whole call, from the head of the list.\<close>

lemma ReleaseAppId_ok:
  assumes bi: "buf_inv ex g it zc (R + mset zc)" and one: "\<And>b. b \<in> set zc \<Longrightarrow> use_count g b = 1"
    and app: "app \<noteq> CFE_ES_APPID_UNDEFINED"
  shows "\<exists>g'. CFE_SB_ZeroCopyReleaseAppId app g = Some g' \<and>
    buf_inv ex g' it (filter (keeps app g) zc) (R + mset (filter (keeps app g) zc)) \<and>
    (\<forall>x. Bufs g' x = (if x \<in> set zc \<and> \<not> keeps app g x then None else Bufs g x)) \<and>
    PipeTbl g' = PipeTbl g \<and> Dests g' = Dests g \<and> SBR g' = SBR g \<and> LastPipeId g' = LastPipeId g \<and> HKTlmMsg g' = HKTlmMsg g"
proof -
  have "ring (Links g) ZeroCopyList (map BufLink zc)" using buf_invD(1) [OF bi] by (simp add: tracked_def)
  then have "CFE_SB_TrackingListGetNext (Links g) ZeroCopyList = hd (map BufLink zc @ [ZeroCopyList])"
    using linked_first by (simp add: ring_def CFE_SB_TrackingListGetNext_def)
  then have "CFE_SB_ZeroCopyReleaseAppId app g = release_walk app (hd (map BufLink zc @ [ZeroCopyList])) g"
    using app by (simp add: CFE_SB_ZeroCopyReleaseAppId_def)
  then show ?thesis using release_walk_ok [of ex g it "[]" zc R app] bi one by simp
qed

lemma owned_zc:
  assumes "buf_inv ex g it zc R" and "set zc = owned g"
  shows "mset_set (owned g) = mset zc"
  using assms tracked_distinct [OF buf_invD(1) [OF assms(1)]] by (metis mset_set_set)

lemma zero_copy_release_app_step:
  assumes inv: "sys_inv cfg ex s" and call: "CFE_SB_ZeroCopyReleaseAppId app (Bus s) = Some g"
  shows "sys_inv cfg ex (s\<lparr>Bus := g\<rparr>)" (is "sys_inv cfg ex ?s")
proof (cases "app = CFE_ES_APPID_UNDEFINED")
  case True
  then have "g = Bus s" using call by (simp add: CFE_SB_ZeroCopyReleaseAppId_def)
  then show ?thesis using inv by simp
next
  case False
  obtain L it zc where i: "sub_inv cfg (Bus s) L" "buf_inv ex (Bus s) it zc (refs s)" "set zc = owned (Bus s)"
    "finite (Sending s)" "\<And>b. count (refs s) b \<le> 16" "\<And>b. b \<in> Sending s \<union> owned (Bus s) \<Longrightarrow> use_count (Bus s) b = 1" "queue_inv s"
    using sys_invE [OF inv] by metis
  let ?kept = "filter (keeps app (Bus s)) zc"
  define R where "R = queue_refs (Queues s) + pipe_refs (Bus s) + mset_set (Sending s) + Taken s"
  have dist: "distinct zc" using tracked_distinct [OF buf_invD(1) [OF i(2)]] by simp
  have rs: "refs s = R + mset zc" by (simp add: refs_def R_def owned_zc [OF i(2,3)])
  have one: "use_count (Bus s) x = 1" if "x \<in> set zc" for x using that i(3,6) by blast
  from ReleaseAppId_ok [OF i(2) [unfolded rs] one False] call
  have w: "buf_inv ex g it ?kept (R + mset ?kept)" "\<And>x. Bufs g x = (if x \<in> set zc \<and> \<not> keeps app (Bus s) x then None else Bufs (Bus s) x)"
    "PipeTbl g = PipeTbl (Bus s)" "Dests g = Dests (Bus s)" "SBR g = SBR (Bus s)" "LastPipeId g = LastPipeId (Bus s)"
    by simp_all
  have o: "owned g = set ?kept"
    using i(3) by (auto simp: owned_def w(2) split: if_splits)
  have pa: "pipe_at g k = pipe_at (Bus s) k" for k by (simp add: w(3) pipe_at_def)
  have "mset_set (owned g) = mset ?kept" unfolding o using dist by (metis distinct_filter mset_set_set)
  then have r: "refs ?s = R + mset ?kept" by (simp add: refs_def R_def pipe_refs_same [OF pa])
  have "sub_inv cfg g L" by (rule sub_inv_keep [OF i(1)]) (simp_all add: w pa)
  moreover have "queue_inv ?s" by (rule queue_inv_same [OF i(7)]) (simp_all add: pa)
  moreover have "count (refs ?s) x \<le> 16" for x
  proof -
    have "count (mset ?kept) x \<le> count (mset zc) x" by (metis mset_filter multiset_filter_subset mset_subset_eq_count)
    then show ?thesis using i(5) [of x] by (simp add: r rs del: mset_filter)
  qed
  moreover have "use_count g x = 1" if x: "x \<in> Sending s \<union> owned g" for x
  proof -
    have "x \<in> Sending s \<union> owned (Bus s)" "\<not> (x \<in> set zc \<and> \<not> keeps app (Bus s) x)"
      using x unsent_refs(5) [OF i(2,4) _ i(6), of x] i(3) by (auto simp: o)
    then show ?thesis using i(6) [of x] w(2) [of x] by (simp add: use_count_def)
  qed
  ultimately show ?thesis
    using w(1) i(4) r o by (intro sys_invI [of cfg ?s L ex it ?kept]) simp_all
qed

section \<open>Creation and deletion of pipes\<close>

lemma CreatePipe_frame:
  assumes "CFE_SB_CreatePipe env p Depth g = (g', st, p', outs)"
  shows "Bufs g' = Bufs g" "Links g' = Links g" "Dests g' = Dests g" "SBR g' = SBR g"
    "SBBuffersInUse (StatTlmMsg g') = SBBuffersInUse (StatTlmMsg g)"
proof -
  have set: "Bufs (CFE_SB_PipeDescSetUsed i v g) = Bufs g" "Links (CFE_SB_PipeDescSetUsed i v g) = Links g" "Dests (CFE_SB_PipeDescSetUsed i v g) = Dests g"
    "SBR (CFE_SB_PipeDescSetUsed i v g) = SBR g" "StatTlmMsg (CFE_SB_PipeDescSetUsed i v g) = StatTlmMsg g"
    "Bufs (CFE_SB_PipeDescSetFree i g) = Bufs g" "Links (CFE_SB_PipeDescSetFree i g) = Links g" "Dests (CFE_SB_PipeDescSetFree i g) = Dests g"
    "SBR (CFE_SB_PipeDescSetFree i g) = SBR g" "StatTlmMsg (CFE_SB_PipeDescSetFree i g) = StatTlmMsg g" for i v g
    by (simp_all add: CFE_SB_PipeDescSetUsed_def CFE_SB_PipeDescSetFree_def)
  let ?g1 = "fst (create_reserve (p = NULL) Depth g)"
  have r: "Bufs ?g1 = Bufs g" "Links ?g1 = Links g" "Dests ?g1 = Dests g" "SBR ?g1 = SBR g" "StatTlmMsg ?g1 = StatTlmMsg g"
    by (simp_all add: create_reserve_def Let_def set split: option.split)
  have f: "Bufs (create_finish env x e q v Depth h) = Bufs h" "Links (create_finish env x e q v Depth h) = Links h" "Dests (create_finish env x e q v Depth h) = Dests h"
    "SBR (create_finish env x e q v Depth h) = SBR h" "SBBuffersInUse (StatTlmMsg (create_finish env x e q v Depth h)) = SBBuffersInUse (StatTlmMsg h)" for x e q v h
    by (simp_all add: create_finish_def Let_def set split: option.split)
  obtain x e q v where "g' = create_finish env x e q v Depth ?g1"
    using assms by (auto simp: CFE_SB_CreatePipe_def Let_def split: prod.splits if_splits)
  then show "Bufs g' = Bufs g" "Links g' = Links g" "Dests g' = Dests g" "SBR g' = SBR g"
    "SBBuffersInUse (StatTlmMsg g') = SBBuffersInUse (StatTlmMsg g)" by (simp_all add: f r)
qed

text \<open>Live pipes keep their entries, or one more is live.\<close>

lemma CreatePipe_cases:
  assumes inv: "pipe_inv g" and call: "CFE_SB_CreatePipe env (Some x) Depth g = (g', st, p, outs)"
  obtains (new) i where "st = CFE_SUCCESS" "fst (QueueCreate env) = OS_SUCCESS" "i < 64" "\<not> live g i" "live g' i" "pipe_inv g'"
      "SysQueueId (pipe_at g' i) = snd (QueueCreate env)" "LastBuffer (pipe_at g' i) = NULL" "\<And>j. j \<noteq> i \<Longrightarrow> pipe_at g' j = pipe_at g j"
  | (same) "st \<noteq> CFE_SUCCESS" "pipe_inv g'" "\<And>j. j < 64 \<Longrightarrow> live g' j = live g j" "\<And>j. j < 64 \<Longrightarrow> live g j \<Longrightarrow> pipe_at g' j = pipe_at g j"
proof -
  consider (arg) "Depth = 0 \<or> Depth > 50" | (full) "0 < Depth" "Depth \<le> 50" "\<And>i. i < 64 \<Longrightarrow> PipeId (pipe_at g i) \<noteq> 0"
    | (queue) i0 where "0 < Depth" "Depth \<le> 50" "i0 < 64" "PipeId (pipe_at g i0) = 0" "fst (QueueCreate env) \<noteq> OS_SUCCESS"
    | (ok) i0 where "0 < Depth" "Depth \<le> 50" "i0 < 64" "PipeId (pipe_at g i0) = 0" "fst (QueueCreate env) = OS_SUCCESS"
    by (metis not_less word_neq_0_conv)
  then show thesis
  proof cases
    case arg
    then have "g' = upd_hk (\<lambda>h. h\<lparr>CreatePipeErrorCounter := CreatePipeErrorCounter h + 1\<rparr>) g" "st = CFE_SB_BAD_ARGUMENT"
      using CreatePipe_errors(1) [OF inv, of "Some x" Depth env] call by auto
    then show thesis using same inv pipe_inv_cong [of g' g] by (simp add: live_def pipe_at_def)
  next
    case full
    then have "g' = g" "st = CFE_SB_MAX_PIPES_MET" using CreatePipe_errors(2) [OF inv full, of env x] call by auto
    then show thesis using same inv by simp
  next
    case queue
    from CreatePipe_errors(3) [OF inv queue, of x] obtain g1 eid where
      1: "CFE_SB_CreatePipe env (Some x) Depth g = (g1, CFE_SB_PIPE_CR_ERR, Some x, [Event eid EVS_ERROR])"
        "\<forall>i < 64. live g1 i = live g i \<and> (live g i \<longrightarrow> pipe_at g1 i = pipe_at g i)" "pipe_inv g1" by blast
    then have "g1 = g'" "st = CFE_SB_PIPE_CR_ERR" using call by simp_all
    then show thesis using same 1(2,3) by simp
  next
    case ok
    have q: "QueueCreate env = (OS_SUCCESS, snd (QueueCreate env))" using ok(5) by (metis prod.collapse)
    from CreatePipe_ok [OF inv ok(1-4) q, of x] obtain i pid g1 where
      1: "CFE_SB_CreatePipe env (Some x) Depth g = (g1, CFE_SUCCESS, Some pid, [Event CFE_SB_PIPE_ADDED_EID EVS_DEBUG])"
        "i < 64" "PipeId (pipe_at g i) = 0" "\<forall>j. j \<noteq> i \<longrightarrow> pipe_at g1 j = pipe_at g j" "live g1 i" "pipe_inv g1"
        "pipe_at g1 i = zero_PipeD\<lparr>PipeId := pid, PipeAppId := snd (GetAppID env), SysQueueId := snd (QueueCreate env), MaxQueueDepth := Depth\<rparr>"
      by blast
    then have g1: "g1 = g'" "st = CFE_SUCCESS" using call by simp_all
    show thesis by (rule new [of i]) (use 1 g1 ok(5) in \<open>simp_all add: live_def zero_PipeD_def\<close>)
  qed
qed

lemma sub_inv_live_pipes:
  assumes inv: "sub_inv cfg g L" and g': "Dests g' = Dests g" "SBR g' = SBR g" "pipe_inv g'"
    and live: "\<And>i d r. i < 64 \<Longrightarrow> d \<in> set (route_view g L r) \<Longrightarrow> live g i \<Longrightarrow> PipeId (pipe_at g i) = DestPipeId d \<Longrightarrow>
      live g' i \<and> PipeId (pipe_at g' i) = PipeId (pipe_at g i)"
  shows "sub_inv cfg g' L"
proof -
  have v: "route_view g' L = route_view g L" by (simp add: fun_eq_iff route_view_def dest_at_def g')
  have "dest_lists g' L" using sub_invD(3) [OF inv] by (simp add: dest_lists_def g')
  moreover have "\<exists>i < 64. live g' i \<and> PipeId (pipe_at g' i) = DestPipeId d" if "d \<in> set (route_view g L r)" for r d
    using sub_invD(7) [OF inv that] live [OF _ that] by metis
  ultimately show ?thesis using inv g'(3) unfolding sub_inv_def v g'(1,2) by blast
qed

text \<open>The invariant when only the pipe table changes, and pipes keep what they refer to.\<close>

lemma sys_pipes:
  assumes inv: "sys_inv cfg ex s" and sub: "sub_inv cfg g L'"
    and b: "Bufs g = Bufs (Bus s)" "Links g = Links (Bus s)" "SBBuffersInUse (StatTlmMsg g) = SBBuffersInUse (StatTlmMsg (Bus s))"
    and s': "Bus s' = g" "Queues s' = Queues s" "Sending s' = Sending s" "pipe_refs g + Taken s' = pipe_refs (Bus s) + Taken s" "queue_inv s'"
  shows "sys_inv cfg ex s'"
proof -
  obtain L it zc where i: "buf_inv ex (Bus s) it zc (refs s)" "set zc = owned (Bus s)"
    "finite (Sending s)" "\<And>b. count (refs s) b \<le> 16" "\<And>b. b \<in> Sending s \<union> owned (Bus s) \<Longrightarrow> use_count (Bus s) b = 1"
    using sys_invE [OF inv] by metis
  have o: "owned g = owned (Bus s)" by (rule owned_cong [OF b(1)])
  have "refs s' = queue_refs (Queues s) + mset_set (Sending s) + mset_set (owned (Bus s)) + (pipe_refs g + Taken s')"
    by (simp add: refs_def s' o ac_simps)
  also have "\<dots> = refs s" unfolding s'(4) by (simp add: refs_def ac_simps)
  finally have r: "refs s' = refs s" .
  show ?thesis
    by (rule sys_invI [of cfg s' L' ex it zc])
       (use i sub s'(5) in \<open>simp_all add: r s' o use_count_cong [OF b(1)] buf_inv_same_bufs [OF b]\<close>)
qed

lemma create_pipe_step:
  assumes inv: "sys_inv cfg ex s" and q: "fst (QueueCreate env) = OS_SUCCESS \<longrightarrow> snd (QueueCreate env) \<notin> Open s"
    and call: "CFE_SB_CreatePipe env (Some x) Depth (Bus s) = (g, st, p, outs)"
  shows "sys_inv cfg ex (s\<lparr>Bus := g, Open := (if st = CFE_SUCCESS then insert (snd (QueueCreate env)) (Open s) else Open s)\<rparr>)"
    (is "sys_inv cfg ex ?s")
proof -
  obtain L where i: "sub_inv cfg (Bus s) L" "queue_inv s" using sys_invE [OF inv] by metis
  note fr = CreatePipe_frame [OF call]
  show ?thesis
    using sub_invD(2) [OF i(1)] call
  proof (cases rule: CreatePipe_cases)
    case (new k)
    have lv: "live g j = (j = k \<or> live (Bus s) j)" for j using new(5,9) by (cases "j = k") (auto simp: live_def)
    have sub: "sub_inv cfg g L"
      by (rule sub_inv_live_pipes [OF i(1) fr(3,4) new(6)]) (use new(4,9) lv in metis)
    have "last_refs g j = last_refs (Bus s) j" for j
      using new(4,8,9) lv [of j] by (cases "j = k") (simp_all add: last_refs_def)
    then have pr: "pipe_refs g = pipe_refs (Bus s)" by (rule pipe_refs_cong)
    have op: "SysQueueId (pipe_at (Bus s) j) \<in> Open s" "SysQueueId (pipe_at (Bus s) j) \<noteq> snd (QueueCreate env)"
      if "j < 64" "live (Bus s) j" for j using queue_inv_open [OF i(2) that] q new(2) by auto
    have d: "snd (QueueCreate env) \<notin> Deleting s" using i(2) q new(2) by (auto simp: queue_inv_def)
    have qid: "SysQueueId (pipe_at g j) = (if j = k then snd (QueueCreate env) else SysQueueId (pipe_at (Bus s) j))" for j
      using new(7,9) by simp
    have "queue_inv ?s"
      unfolding queue_inv_def
    proof (intro conjI allI impI)
      fix j m
      assume j: "j < 64" "live (Bus ?s) j"
      then show "SysQueueId (pipe_at (Bus ?s) j) \<in> Open ?s - Deleting ?s"
        using i(2) d new(1) lv [of j] by (auto simp: qid queue_inv_def)
      assume m: "m < 64" "live (Bus ?s) m" "SysQueueId (pipe_at (Bus ?s) j) = SysQueueId (pipe_at (Bus ?s) m)"
      then show "j = m"
        using i(2) j lv [of j] lv [of m] op(2) [of j] op(2) [of m] by (auto simp: qid queue_inv_def split: if_splits)
    qed (use i(2) in \<open>auto simp: queue_inv_def\<close>)
    then show ?thesis by (intro sys_pipes [OF inv sub fr(1,2,5)]) (simp_all add: pr)
  next
    case same
    have sub: "sub_inv cfg g L"
      by (rule sub_inv_live_pipes [OF i(1) fr(3,4) same(2)]) (use same(3,4) in simp)
    have "last_refs g j = last_refs (Bus s) j" if "j < 64" for j
      using same(3,4) [OF that] by (simp add: last_refs_def)
    then have pr: "pipe_refs g = pipe_refs (Bus s)" by (rule pipe_refs_cong)
    have "queue_inv ?s" using i(2) same(1,3,4) by (simp add: queue_inv_def)
    then show ?thesis by (intro sys_pipes [OF inv sub fr(1,2,5)]) (simp_all add: pr)
  qed
qed

lemma delete_begin_step:
  assumes inv: "sys_inv cfg ex s" and env: "MapCfg env = cfg"
    and call: "delete_begin env pid app (Bus s) = Some (g, CFE_SUCCESS, e, q, lb)"
  shows "sys_inv cfg ex (s\<lparr>Bus := g, Deleting := insert q (Deleting s), Taken := Taken s + ptr_refs lb\<rparr>)" (is "sys_inv cfg ex ?s")
proof -
  obtain L where i: "sub_inv (MapCfg env) (Bus s) L" "queue_inv s" using sys_invE [OF inv] env by metis
  have "CFE_SB_PipeDescIsMatch (Bus s) (CFE_SB_LocatePipeDescByID pid) pid \<and>
      app = PipeAppId (pipe_at (Bus s) (the (CFE_SB_LocatePipeDescByID pid)))"
    using call by (auto simp: delete_begin_def Let_def split: if_splits)
  then obtain k where k: "k < 64" "CFE_SB_LocatePipeDescByID pid = Some k" "PipeId (pipe_at (Bus s) k) = pid" "live (Bus s) k"
    "PipeAppId (pipe_at (Bus s) k) = app"
    using match_live [of "Bus s" pid] by auto
  obtain L' where 1: "sub_inv (MapCfg env) g L'" "q = SysQueueId (pipe_at (Bus s) k)" "lb = LastBuffer (pipe_at (Bus s) k)"
    "\<And>j. pipe_at g j = (if j = k then (pipe_at (Bus s) k)\<lparr>PipeId := CFE_RESOURCEID_RESERVED\<rparr> else pipe_at (Bus s) j)"
    "Bufs g = Bufs (Bus s)" "Links g = Links (Bus s)" "SBBuffersInUse (StatTlmMsg g) = SBBuffersInUse (StatTlmMsg (Bus s))"
    using delete_begin_ok [OF i(1) k(2,3,5)] call by auto
  have lv: "live g j = (j \<noteq> k \<and> live (Bus s) j)" "SysQueueId (pipe_at g j) = SysQueueId (pipe_at (Bus s) j)" for j
    by (simp_all add: live_def 1(4))
  have "pipe_refs g + last_refs (Bus s) k = pipe_refs (Bus s) + last_refs g k"
    by (rule pipe_refs_change [OF k(1)], rule last_refs_other) (simp add: 1(4))
  then have "pipe_refs g + ptr_refs lb = pipe_refs (Bus s)" using k(4) 1(3) by (simp add: last_refs_def lv)
  then have pr: "pipe_refs g + (Taken s + ptr_refs lb) = pipe_refs (Bus s) + Taken s" by (metis union_assoc union_commute)
  have inj: "SysQueueId (pipe_at (Bus s) j) \<noteq> q" if "j < 64" "live (Bus s) j" "j \<noteq> k" for j
    using i(2) k(1,4) that 1(2) unfolding queue_inv_def by metis
  have "queue_inv ?s"
    unfolding queue_inv_def
  proof (intro conjI allI impI)
    fix j m
    assume j: "j < 64" "live (Bus ?s) j"
    then show "SysQueueId (pipe_at (Bus ?s) j) \<in> Open ?s - Deleting ?s"
      using i(2) inj [of j] by (simp add: lv queue_inv_def)
    assume "m < 64" "live (Bus ?s) m" "SysQueueId (pipe_at (Bus ?s) j) = SysQueueId (pipe_at (Bus ?s) m)"
    then show "j = m" using i(2) j by (simp add: lv queue_inv_def)
  next
    show "Deleting ?s \<subseteq> Open ?s" using i(2) queue_inv_open [OF i(2) k(1,4)] 1(2) by (simp add: queue_inv_def)
    show "\<And>x. Queues ?s x \<noteq> [] \<Longrightarrow> x \<in> Open ?s" using i(2) by (simp add: queue_inv_def)
  qed
  then show ?thesis using 1(1) env by (intro sys_pipes [OF inv _ 1(5,6,7)]) (simp_all add: pr)
qed

lemma delete_finish_step:
  assumes inv: "sys_inv cfg ex s" and k: "CFE_SB_LocatePipeDescByID pid = Some k" "PipeId (pipe_at (Bus s) k) = CFE_RESOURCEID_RESERVED"
  shows "sys_inv cfg ex (s\<lparr>Bus := delete_finish pid CFE_SUCCESS 0 (Bus s)\<rparr>)" (is "sys_inv cfg ex ?s")
proof -
  let ?g = "delete_finish pid CFE_SUCCESS 0 (Bus s)"
  obtain L where i: "sub_inv cfg (Bus s) L" "queue_inv s" using sys_invE [OF inv] by metis
  have len: "unat k < length (PipeTbl (Bus s))" by (rule pipe_inv_length [OF sub_invD(2) [OF i(1)] Locate_lt [OF k(1)]])
  have at: "pipe_at ?g j = (if j = k then (pipe_at (Bus s) k)\<lparr>PipeId := CFE_RESOURCEID_UNDEFINED\<rparr> else pipe_at (Bus s) j)" for j
    using k(1) len by (simp add: delete_finish_def CFE_SB_PipeDescSetFree_def)
  have lv: "live ?g j = live (Bus s) j" "SysQueueId (pipe_at ?g j) = SysQueueId (pipe_at (Bus s) j)"
    "LastBuffer (pipe_at ?g j) = LastBuffer (pipe_at (Bus s) j)" for j
    using k(2) by (simp_all add: live_def at)
  have f: "Bufs ?g = Bufs (Bus s)" "Links ?g = Links (Bus s)" "SBBuffersInUse (StatTlmMsg ?g) = SBBuffersInUse (StatTlmMsg (Bus s))"
    "Dests ?g = Dests (Bus s)" "SBR ?g = SBR (Bus s)" "length (PipeTbl ?g) = length (PipeTbl (Bus s))" "LastPipeId ?g = LastPipeId (Bus s)"
    by (simp_all add: delete_finish_def CFE_SB_PipeDescSetFree_def)
  have pid: "live (Bus s) j \<Longrightarrow> PipeId (pipe_at ?g j) = PipeId (pipe_at (Bus s) j)" for j
    using k(2) by (auto simp: at live_def)
  have "pipe_inv ?g" using sub_invD(2) [OF i(1)] pid by (simp add: pipe_inv_def lv f)
  then have sub: "sub_inv cfg ?g L" by (rule sub_inv_live_pipes [OF i(1) f(4,5)]) (simp add: lv pid)
  have pr: "pipe_refs ?g = pipe_refs (Bus s)" by (rule pipe_refs_cong) (simp add: last_refs_def lv)
  have "queue_inv ?s" using i(2) by (simp add: queue_inv_def lv)
  then show ?thesis by (intro sys_pipes [OF inv sub f(1-3)]) (simp_all add: pr)
qed

section \<open>Every reachable state\<close>

lemma start_inv: "sys_inv cfg ex (sb_start cfg t)"
proof -
  let ?g = "sb_init cfg t"
  have nl: "\<not> live ?g i" if "i < 64" for i using that by (simp add: live_def pipe_at_init zero_PipeD_def)
  have v: "route_view ?g (\<lambda>_. []) = (\<lambda>_. [])" by (simp add: fun_eq_iff)
  have "sub_inv cfg ?g (\<lambda>_. [])"
    unfolding sub_inv_def v using init_dest_lists pipe_inv_init by (simp add: sbr.init_inv)
  moreover have "pipe_refs ?g = {#}" unfolding pipe_refs_def by (rule sum.neutral) (simp add: last_refs_def nl)
  moreover have "owned ?g = {}" by (simp add: owned_def)
  moreover have "buf_inv ex ?g [] [] {#}" using init_buf_inv [of cfg t] by (auto simp: buf_inv_def)
  ultimately show ?thesis
    by (intro sys_invI [of cfg "sb_start cfg t" "\<lambda>_. []" ex "[]" "[]"]) (simp_all add: sb_start_def refs_def queue_refs_def queue_inv_def nl)
qed

lemma step_inv:
  assumes "sb_step cfg single s s'" and inv: "sys_inv cfg single s"
  shows "sys_inv cfg single s'"
  using assms(1)
proof cases
  case (subscribe env m pid Q lim sc g st outs)
  then show ?thesis using inv quiet_step [OF inv] subscribe_quiet by (metis sys_invE)
next
  case (unsubscribe env m pid sc app g st outs)
  then show ?thesis using inv quiet_step [OF inv] unsubscribe_quiet by (metis sys_invE)
next
  case (route_cmd env m pid g st outs)
  then show ?thesis using inv quiet_step [OF inv] route_cmd_quiet by (metis sys_invE)
next
  case (set_opts env pid opts g st outs)
  then show ?thesis using inv quiet_step [OF inv] set_opts_quiet by (metis sys_invE)
qed (use inv send_alloc_step broadcast_locked_step report_step zero_copy_get_step zero_copy_write_step zero_copy_release_step
    zero_copy_release_app_step receive_begin_step queue_get_step receive_store_step create_pipe_step delete_begin_step
    drain_step queue_delete_step delete_finish_step in \<open>simp; blast\<close>)+

lemma reachable_inv: "sb_reachable cfg single s \<Longrightarrow> sys_inv cfg single s"
  by (induction rule: sb_reachable.induct) (auto intro: start_inv step_inv)




text \<open>A state with one zero-copy buffer.\<close>

lemma sample_zero_copy:
  "\<exists>s d. sb_reachable SBR_MAP_DIRECT single s \<and> Bufs (Bus s) = [1000 \<mapsto> d] \<and> BufAppId d = 0x110001 \<and> UseCount d = 1 \<and>
     refs s = {#1000#}"
proof -
  let ?s = "sb_start SBR_MAP_DIRECT sbr0" and ?e = "sample_env 1000"
  have b: "GetPoolBuf ?e (8 + ContentOffset ?e) = (48, 1000)" "0 \<le> sint (48 :: int32)" by simp_all
  obtain g1 where g1: "CFE_SB_GetBufferFromPool ?e 8 (Bus ?s) = (g1, Some 1000)"
    using GetBuffer_new(1) [OF b, of "Bus ?s"] by (metis prod.collapse)
  define g where "g = upd_buf 1000 (\<lambda>d. d\<lparr>BufAppId := 0x110001\<rparr>) g1\<lparr>Links := CFE_SB_TrackingListAdd ZeroCopyList (BufLink 1000) (Links g1)\<rparr>"
  have r: "zero_copy_get ?e 8 0x110001 (Bus ?s) = (g, Some 1000)" by (simp add: zero_copy_get_def g1 g_def Let_def)
  have init: "Bufs (Bus ?s) = (\<lambda>_. None)" "Dests (Bus ?s) = (\<lambda>_. None)" by (simp_all add: sb_start_def)
  have fresh: "pool_fresh ?e (Bus ?s)" by (simp add: pool_fresh_def init)
  obtain d1 where d1: "Bufs g1 1000 = Some d1" "UseCount d1 = 1" and o1: "\<And>x. x \<noteq> 1000 \<Longrightarrow> Bufs g1 x = None"
    using GetBuffer_new(2) [OF b, of "Bus ?s"] g1 init(1) by simp
  define d where "d = d1\<lparr>BufAppId := 0x110001\<rparr>"
  have g: "Bufs g = [1000 \<mapsto> d]" "BufAppId d = 0x110001" "UseCount d = 1" using d1 o1 by (auto simp: g_def d_def)
  have app: "0x110001 \<noteq> CFE_ES_APPID_UNDEFINED" by simp
  have reach: "sb_reachable SBR_MAP_DIRECT sg (?s\<lparr>Bus := g\<rparr>)" for sg
    by (rule sb_reachable.move [OF sb_reachable.start sb_step.zero_copy_get [OF fresh app r]])
  obtain it zc where "buf_inv True (Bus (?s\<lparr>Bus := g\<rparr>)) it zc (refs (?s\<lparr>Bus := g\<rparr>))"
    using sys_invE [OF reachable_inv [OF reach [of True]]] by metis
  from buf_invD(6) [OF this] have "refs (?s\<lparr>Bus := g\<rparr>) = {#1000#}"
    by (intro multiset_eqI) (simp add: use_count_def g)
  then show ?thesis using reach g by (intro exI [of _ "?s\<lparr>Bus := g\<rparr>"] exI [of _ d]) simp
qed




end
