(* ===== verification/CFE_ES_GenPool.thy ===== *)
theory CFE_ES_GenPool
  imports CFS_Prelude "HOL-Library.Multiset"
begin

unbundle bit_operations_syntax

text \<open>
  The generic memory pool of executive services (\<^verbatim>\<open>cfe_es_generic_pool.c\<close>): blocks of a few fixed sizes
  ("buckets"), carved off the end of the pool area and recycled through one free stack for each size.

  A block is found by its offset; the descriptor in front of it lives in the pool area
  itself.  The pool reaches descriptors only through the two functions of its record,
  \<open>Retrieve\<close> and \<open>Commit\<close>.  Here they are the argument \<open>acc\<close>, over any type of storage:
  \<open>BdOf\<close> is what \<open>*BdPtr\<close> reads after a successful retrieve and \<open>SetBd\<close> what an assignment through
  \<open>BdPtr\<close> does, so that storages that hand out a copy and those that hand out the memory
  itself are both instances.

  \<open>size_t\<close> has 64 bits, and a descriptor then takes 24 bytes.  The messages written to the system log are not
  modelled.
\<close>

abbreviation (input) CFE_ES_ERR_MEM_BLOCK_SIZE :: int32 where "CFE_ES_ERR_MEM_BLOCK_SIZE \<equiv> 0xc4000008"
abbreviation (input) CFE_ES_BUFFER_NOT_IN_POOL :: int32 where "CFE_ES_BUFFER_NOT_IN_POOL \<equiv> 0xc4000025"
abbreviation (input) CFE_ES_POOL_BLOCK_INVALID :: int32 where "CFE_ES_POOL_BLOCK_INVALID \<equiv> 0xc400002C"
abbreviation (input) CFE_ES_CHECK_PATTERN :: u16 where "CFE_ES_CHECK_PATTERN \<equiv> 0x5a5a"
abbreviation (input) CFE_ES_MEMORY_ALLOCATED :: u16 where "CFE_ES_MEMORY_ALLOCATED \<equiv> 0xaaaa"
abbreviation (input) CFE_ES_MEMORY_DEALLOCATED :: u16 where "CFE_ES_MEMORY_DEALLOCATED \<equiv> 0xdddd"
abbreviation (input) CFE_ES_GENERIC_POOL_DESCRIPTOR_SIZE :: u64 where "CFE_ES_GENERIC_POOL_DESCRIPTOR_SIZE \<equiv> 24"
abbreviation (input) CFE_PLATFORM_ES_POOL_MAX_BUCKETS :: u16 where "CFE_PLATFORM_ES_POOL_MAX_BUCKETS \<equiv> 17"

section \<open>Data\<close>

record CFE_ES_GenPoolBD =
  CheckBits :: u16
  Allocated :: u16
  ActualSize :: u64
  NextOffset :: u64

record CFE_ES_GenPoolBucket =
  BlockSize :: u64
  FirstOffset :: u64
  BucketAllocationCount :: u32
  ReleaseCount :: u32
  RecycleCount :: u32

record CFE_ES_GenPoolRecord =
  PoolTotalSize :: u64
  PoolMaxOffset :: u64
  AlignMask :: u64
  TailPosition :: u64
  PoolAllocationCount :: u32
  ValidationErrorCount :: u32
  NumBuckets :: u16
  Buckets :: "CFE_ES_GenPoolBucket list"

record CFE_ES_BlockStats =
  StatBlockSize :: u32
  NumCreated :: u32
  NumFree :: u32

record 'st CFE_ES_PoolStorage =
  Retrieve :: "'st \<Rightarrow> u64 \<Rightarrow> 'st \<times> int32"
  BdOf :: "'st \<Rightarrow> u64 \<Rightarrow> CFE_ES_GenPoolBD"
  SetBd :: "'st \<Rightarrow> u64 \<Rightarrow> CFE_ES_GenPoolBD \<Rightarrow> 'st"
  Commit :: "'st \<Rightarrow> u64 \<Rightarrow> 'st \<times> int32"

type_synonym 'st pool = "CFE_ES_GenPoolRecord \<times> 'st"

definition zero_Bucket :: CFE_ES_GenPoolBucket where
  "zero_Bucket = \<lparr>BlockSize = 0, FirstOffset = 0, BucketAllocationCount = 0, ReleaseCount = 0, RecycleCount = 0\<rparr>"

definition upd_bucket :: "nat \<Rightarrow> (CFE_ES_GenPoolBucket \<Rightarrow> CFE_ES_GenPoolBucket) \<Rightarrow> CFE_ES_GenPoolRecord \<Rightarrow> CFE_ES_GenPoolRecord" where
  "upd_bucket i f p = p\<lparr>Buckets := (Buckets p)[i := f (Buckets p ! i)]\<rparr>"

section \<open>Buckets\<close>

definition CFE_ES_GenPoolFindBucket :: "CFE_ES_GenPoolRecord \<Rightarrow> u64 \<Rightarrow> u16" where
  "CFE_ES_GenPoolFindBucket p ReqSize =
     (let Index = length (takeWhile (\<lambda>b. \<not> ReqSize \<le> BlockSize b) (take (unat (NumBuckets p)) (Buckets p)))
      in NumBuckets p - of_nat Index)"

text \<open>The bucket of an id, as an index of the array.\<close>

definition CFE_ES_GenPoolGetBucketState :: "CFE_ES_GenPoolRecord \<Rightarrow> u16 \<Rightarrow> nat ptr" where
  "CFE_ES_GenPoolGetBucketState p BucketId =
     (let Index = NumBuckets p - BucketId
      in if Index \<ge> NumBuckets p then NULL else Some (unat Index))"

section \<open>Getting a block\<close>

text \<open>Results: the pool, the status and the caller's offset cell.\<close>

definition CFE_ES_GenPoolRecyclePoolBlock ::
  "'st CFE_ES_PoolStorage \<Rightarrow> u16 \<Rightarrow> u64 \<Rightarrow> u64 \<Rightarrow> 'st pool \<Rightarrow> 'st pool \<times> int32 \<times> u64" where
  "CFE_ES_GenPoolRecyclePoolBlock acc BucketId NewSize out pm =
     (case pm of (p, m) \<Rightarrow>
      case CFE_ES_GenPoolGetBucketState p BucketId of
        None \<Rightarrow> ((p, m), CFE_ES_BUFFER_NOT_IN_POOL, out)
      | Some i \<Rightarrow>
          if RecycleCount (Buckets p ! i) = ReleaseCount (Buckets p ! i) \<or> FirstOffset (Buckets p ! i) = 0
          then ((p, m), CFE_ES_BUFFER_NOT_IN_POOL, out)
          else
            let BlockOffset = FirstOffset (Buckets p ! i);
                DescOffset = BlockOffset - CFE_ES_GENERIC_POOL_DESCRIPTOR_SIZE;
                (m, Status) = Retrieve acc m DescOffset
            in if Status \<noteq> CFE_SUCCESS then ((p, m), Status, out)
               else
                 let bd = BdOf acc m DescOffset;
                     RecycleBucketId = Allocated bd - CFE_ES_MEMORY_DEALLOCATED
                 in if CheckBits bd \<noteq> CFE_ES_CHECK_PATTERN \<or> RecycleBucketId \<noteq> BucketId
                    then ((p, m), CFE_ES_BUFFER_NOT_IN_POOL, out)
                    else
                      let m = SetBd acc m DescOffset (bd\<lparr>Allocated := CFE_ES_MEMORY_ALLOCATED + BucketId,
                                ActualSize := NewSize, NextOffset := 0\<rparr>);
                          (m, Status) = Commit acc m DescOffset
                      in if Status = CFE_SUCCESS
                         then ((upd_bucket i (\<lambda>b. b\<lparr>FirstOffset := NextOffset bd, RecycleCount := RecycleCount b + 1\<rparr>) p, m),
                               Status, BlockOffset)
                         else ((p, m), Status, out))"

text \<open>The next place for a block, behind the descriptor and aligned.\<close>

definition next_block :: "CFE_ES_GenPoolRecord \<Rightarrow> u64" where
  "next_block p =
     (let BlockOffset = TailPosition p + CFE_ES_GENERIC_POOL_DESCRIPTOR_SIZE;
          BlockOffset = BlockOffset + AlignMask p
      in BlockOffset AND NOT (AlignMask p))"

definition CFE_ES_GenPoolCreatePoolBlock ::
  "'st CFE_ES_PoolStorage \<Rightarrow> u16 \<Rightarrow> u64 \<Rightarrow> u64 \<Rightarrow> 'st pool \<Rightarrow> 'st pool \<times> int32 \<times> u64" where
  "CFE_ES_GenPoolCreatePoolBlock acc BucketId NewSize out pm =
     (case pm of (p, m) \<Rightarrow>
      case CFE_ES_GenPoolGetBucketState p BucketId of
        None \<Rightarrow> ((p, m), CFE_ES_BUFFER_NOT_IN_POOL, out)
      | Some i \<Rightarrow>
          let BlockOffset = next_block p;
              DescOffset = BlockOffset - CFE_ES_GENERIC_POOL_DESCRIPTOR_SIZE;
              NextTailPosition = BlockOffset + BlockSize (Buckets p ! i)
          in if NextTailPosition > PoolMaxOffset p then ((p, m), CFE_ES_ERR_MEM_BLOCK_SIZE, out)
             else
               let (m, Status) = Retrieve acc m DescOffset
               in if Status \<noteq> CFE_SUCCESS then ((p, m), Status, out)
                  else
                    let m = SetBd acc m DescOffset \<lparr>CheckBits = CFE_ES_CHECK_PATTERN,
                              Allocated = CFE_ES_MEMORY_ALLOCATED + BucketId, ActualSize = NewSize, NextOffset = 0\<rparr>;
                        (m, Status) = Commit acc m DescOffset
                    in if Status = CFE_SUCCESS
                       then let p = p\<lparr>TailPosition := NextTailPosition\<rparr>;
                                p = upd_bucket i (\<lambda>b. b\<lparr>BucketAllocationCount := BucketAllocationCount b + 1\<rparr>) p;
                                p = p\<lparr>PoolAllocationCount := PoolAllocationCount p + 1\<rparr>
                            in ((p, m), Status, BlockOffset)
                       else ((p, m), Status, out))"

definition CFE_ES_GenPoolGetBlock ::
  "'st CFE_ES_PoolStorage \<Rightarrow> u64 \<Rightarrow> u64 \<Rightarrow> 'st pool \<Rightarrow> 'st pool \<times> int32 \<times> u64" where
  "CFE_ES_GenPoolGetBlock acc out ReqSize pm =
     (let BucketId = CFE_ES_GenPoolFindBucket (fst pm) ReqSize
      in if BucketId = 0 then (pm, CFE_ES_ERR_MEM_BLOCK_SIZE, out)
         else case CFE_ES_GenPoolRecyclePoolBlock acc BucketId ReqSize out pm of
                (pm, Status, out) \<Rightarrow>
                  if Status \<noteq> CFE_SUCCESS then CFE_ES_GenPoolCreatePoolBlock acc BucketId ReqSize out pm
                  else (pm, Status, out))"

section \<open>Returning a block\<close>

text \<open>Whether \<open>bd\<close>, read in front of a block, is the descriptor of an allocated block.\<close>

definition bad_block :: "CFE_ES_GenPoolRecord \<Rightarrow> CFE_ES_GenPoolBD \<Rightarrow> nat ptr \<Rightarrow> bool" where
  "bad_block p bd BucketPtr \<longleftrightarrow>
     CheckBits bd \<noteq> CFE_ES_CHECK_PATTERN \<or> BucketPtr = NULL \<or> ActualSize bd = 0 \<or>
     BlockSize (Buckets p ! the BucketPtr) < ActualSize bd"

definition CFE_ES_GenPoolGetBlockSize ::
  "'st CFE_ES_PoolStorage \<Rightarrow> u64 \<Rightarrow> u64 \<Rightarrow> 'st pool \<Rightarrow> 'st pool \<times> int32 \<times> u64" where
  "CFE_ES_GenPoolGetBlockSize acc out BlockOffset pm =
     (case pm of (p, m) \<Rightarrow>
      if BlockOffset \<ge> TailPosition p \<or> BlockOffset < CFE_ES_GENERIC_POOL_DESCRIPTOR_SIZE
      then ((p, m), CFE_ES_BUFFER_NOT_IN_POOL, out)
      else
        let DescOffset = BlockOffset - CFE_ES_GENERIC_POOL_DESCRIPTOR_SIZE;
            (m, Status) = Retrieve acc m DescOffset
        in if Status \<noteq> CFE_SUCCESS then ((p, m), Status, out)
           else
             let bd = BdOf acc m DescOffset;
                 BucketId = Allocated bd - CFE_ES_MEMORY_ALLOCATED;
                 BucketPtr = CFE_ES_GenPoolGetBucketState p BucketId
             in if bad_block p bd BucketPtr then ((p, m), CFE_ES_POOL_BLOCK_INVALID, out)
                else ((p, m), CFE_SUCCESS, ActualSize bd))"

definition CFE_ES_GenPoolPutBlock ::
  "'st CFE_ES_PoolStorage \<Rightarrow> u64 \<Rightarrow> u64 \<Rightarrow> 'st pool \<Rightarrow> 'st pool \<times> int32 \<times> u64" where
  "CFE_ES_GenPoolPutBlock acc out BlockOffset pm =
     (case pm of (p, m) \<Rightarrow>
      if BlockOffset \<ge> TailPosition p \<or> BlockOffset < CFE_ES_GENERIC_POOL_DESCRIPTOR_SIZE
      then ((p, m), CFE_ES_BUFFER_NOT_IN_POOL, out)
      else
        let DescOffset = BlockOffset - CFE_ES_GENERIC_POOL_DESCRIPTOR_SIZE;
            (m, Status) = Retrieve acc m DescOffset
        in if Status \<noteq> CFE_SUCCESS then ((p, m), Status, out)
           else
             let bd = BdOf acc m DescOffset;
                 BucketId = Allocated bd - CFE_ES_MEMORY_ALLOCATED;
                 BucketPtr = CFE_ES_GenPoolGetBucketState p BucketId;
                 i = the BucketPtr
             in if bad_block p bd BucketPtr
                then ((p\<lparr>ValidationErrorCount := ValidationErrorCount p + 1\<rparr>, m), CFE_ES_POOL_BLOCK_INVALID, out)
                else
                  let m = SetBd acc m DescOffset (bd\<lparr>Allocated := CFE_ES_MEMORY_DEALLOCATED + BucketId,
                            NextOffset := FirstOffset (Buckets p ! i)\<rparr>);
                      (m, Status) = Commit acc m DescOffset
                  in ((if Status = CFE_SUCCESS
                       then upd_bucket i (\<lambda>b. b\<lparr>FirstOffset := BlockOffset, ReleaseCount := ReleaseCount b + 1\<rparr>) p
                       else p, m), Status, ActualSize bd))"

section \<open>Initialization\<close>

text \<open>
  One pass of the sort over neighbouring sizes, with the exchange by exclusive or that the code
  uses, and the number of exchanges.
\<close>

fun bubble_pass :: "u64 list \<Rightarrow> u64 list \<times> nat" where
  "bubble_pass (a # b # xs) =
     (if a > b
      then let a' = a XOR b; b' = b XOR a'; a'' = a' XOR b';
               (ys, j) = bubble_pass (b' # xs)
           in (a'' # ys, j + 1)
      else let (ys, j) = bubble_pass (b # xs) in (a # ys, j))"
| "bubble_pass xs = (xs, 0)"

text \<open>The value the loop gets smaller with every exchange.\<close>

fun weight :: "u64 list \<Rightarrow> nat" where
  "weight [] = 0"
| "weight (x # xs) = (length xs + 1) * unat x + weight xs"

lemma xor_swap:
  fixes a b :: "'a::len word"
  shows "b XOR (a XOR b) = a" and "(a XOR b) XOR a = b"
  by (simp_all add: xor.assoc xor.left_commute xor.commute)

lemma bubble_pass_swap:
  "bubble_pass (a # b # xs) =
     (if a > b then (b # fst (bubble_pass (a # xs)), snd (bubble_pass (a # xs)) + 1)
      else (a # fst (bubble_pass (b # xs)), snd (bubble_pass (b # xs))))"
  by (simp add: Let_def xor_swap split_beta)

lemma bubble_pass_length [simp]: "length (fst (bubble_pass xs)) = length xs"
proof (induction xs rule: bubble_pass.induct)
  case (1 a b xs)
  then show ?case by (auto simp: bubble_pass_swap xor_swap simp del: bubble_pass.simps(1))
qed simp_all

lemma bubble_pass_weight: "weight (fst (bubble_pass xs)) + snd (bubble_pass xs) \<le> weight xs"
proof (induction xs rule: bubble_pass.induct)
  case (1 a b xs)
  show ?case
  proof (cases "a > b")
    case True
    have IH: "weight (fst (bubble_pass (a # xs))) + snd (bubble_pass (a # xs)) \<le> weight (a # xs)"
      using 1(1) [OF True refl refl refl] by (simp add: xor_swap)
    have "unat b < unat a" using True by (simp add: word_less_nat_alt)
    then show ?thesis using True IH by (simp add: bubble_pass_swap algebra_simps del: bubble_pass.simps(1))
  next
    case False
    then show ?thesis using 1(2) [OF False] by (simp add: bubble_pass_swap del: bubble_pass.simps(1))
  qed
qed simp_all

function bubble_sort :: "u64 list \<Rightarrow> u64 list" where
  "bubble_sort xs = (let (ys, j) = bubble_pass xs in if j > 0 then bubble_sort ys else ys)"
  by pat_completeness auto
termination
proof (relation "measure weight")
  fix xs r ys j
  assume "r = bubble_pass xs" "(ys, j) = r" "0 < j"
  then show "(ys, xs) \<in> measure weight" using bubble_pass_weight [of xs] by (metis add_lessD1 fst_conv in_measure le_eq_less_or_eq less_add_same_cancel1 less_le_trans snd_conv)
qed simp

declare bubble_sort.simps [simp del]

definition align_mask :: "u64 \<Rightarrow> u64" where
  "align_mask AlignSize =
     (if AlignSize \<le> 1 then 0
      else let m = AlignSize - 1;
               m = m OR drop_bit 1 m; m = m OR drop_bit 2 m; m = m OR drop_bit 4 m;
               m = m OR drop_bit 8 m; m = m OR drop_bit 16 m
           in m)"

definition CFE_ES_GenPoolInitialize ::
  "u64 \<Rightarrow> u64 \<Rightarrow> u64 \<Rightarrow> u16 \<Rightarrow> u64 list \<Rightarrow> CFE_ES_GenPoolRecord \<times> int32" where
  "CFE_ES_GenPoolInitialize StartOffset PoolSize AlignSize NumBlockSizes BlockSizeList =
     (let n = unat NumBlockSizes;
          sizes = bubble_sort (take n BlockSizeList);
          buckets = map (\<lambda>s. zero_Bucket\<lparr>BlockSize := s\<rparr>) sizes @ replicate (unat CFE_PLATFORM_ES_POOL_MAX_BUCKETS - n) zero_Bucket;
          p = \<lparr>PoolTotalSize = PoolSize, PoolMaxOffset = PoolSize + StartOffset, AlignMask = align_mask AlignSize,
               TailPosition = StartOffset, PoolAllocationCount = 0, ValidationErrorCount = 0,
               NumBuckets = NumBlockSizes, Buckets = buckets\<rparr>
      in (p, if BlockSize (buckets ! 0) = 0 then CFE_ES_ERR_MEM_BLOCK_SIZE else CFE_SUCCESS))"

definition CFE_ES_GenPoolCalcMinSize :: "u16 \<Rightarrow> u64 list \<Rightarrow> u32 \<Rightarrow> u64" where
  "CFE_ES_GenPoolCalcMinSize NumBlockSizes BlockSizeList NumBlocks =
     (let MinBlockSize =
            (if NumBlockSizes > 0
             then fold (\<lambda>s m. if s < m then s else m) (take (unat NumBlockSizes - 1) (tl BlockSizeList)) (hd BlockSizeList)
             else 0);
          MinBlockSize = MinBlockSize + CFE_ES_GENERIC_POOL_DESCRIPTOR_SIZE
      in ucast NumBlocks * MinBlockSize)"

section \<open>Recovery\<close>

text \<open>The bucket a descriptor found by the scan belongs to, and whether its block is free.\<close>

definition scan_bucket :: "CFE_ES_GenPoolRecord \<Rightarrow> CFE_ES_GenPoolBD \<Rightarrow> nat ptr \<times> bool" where
  "scan_bucket p bd =
     (if CheckBits bd = CFE_ES_CHECK_PATTERN
      then (case CFE_ES_GenPoolGetBucketState p (Allocated bd - CFE_ES_MEMORY_DEALLOCATED) of
              Some i \<Rightarrow> (Some i, True)
            | None \<Rightarrow> (CFE_ES_GenPoolGetBucketState p (Allocated bd - CFE_ES_MEMORY_ALLOCATED), False))
      else (NULL, False))"

partial_function (option) CFE_ES_GenPoolRebuild ::
  "'st CFE_ES_PoolStorage \<Rightarrow> 'st pool \<Rightarrow> ('st pool \<times> int32) option" where
  "CFE_ES_GenPoolRebuild acc pm =
     (case pm of (p, m) \<Rightarrow>
      let BlockOffset = next_block p;
          DescOffset = BlockOffset - CFE_ES_GENERIC_POOL_DESCRIPTOR_SIZE
      in if BlockOffset > PoolMaxOffset p then Some ((p, m), CFE_SUCCESS)
         else case Retrieve acc m DescOffset of (m, Status) \<Rightarrow>
           if Status \<noteq> CFE_SUCCESS then Some ((p, m), Status)
           else
             let bd = BdOf acc m DescOffset
             in case scan_bucket p bd of
                  (None, _) \<Rightarrow> Some ((p, m), Status)
                | (Some i, IsDeallocatedBlock) \<Rightarrow>
                    if BlockSize (Buckets p ! i) < ActualSize bd then Some ((p, m), Status)
                    else
                      let first = FirstOffset (Buckets p ! i);
                          p = p\<lparr>TailPosition := BlockOffset + BlockSize (Buckets p ! i)\<rparr>;
                          p = upd_bucket i (\<lambda>b. b\<lparr>BucketAllocationCount := BucketAllocationCount b + 1\<rparr>) p;
                          p = p\<lparr>PoolAllocationCount := PoolAllocationCount p + 1\<rparr>
                      in if \<not> IsDeallocatedBlock then CFE_ES_GenPoolRebuild acc (p, m)
                         else
                           let p = upd_bucket i (\<lambda>b. b\<lparr>FirstOffset := BlockOffset, ReleaseCount := ReleaseCount b + 1\<rparr>) p;
                               m = SetBd acc m DescOffset (bd\<lparr>NextOffset := first\<rparr>)
                           in case Commit acc m DescOffset of (m, Status) \<Rightarrow>
                                if Status \<noteq> CFE_SUCCESS then Some ((p, m), Status)
                                else CFE_ES_GenPoolRebuild acc (p, m))"

section \<open>Queries\<close>

definition CFE_ES_GenPoolValidateState :: "CFE_ES_GenPoolRecord \<Rightarrow> bool" where
  "CFE_ES_GenPoolValidateState p \<longleftrightarrow>
     PoolTotalSize p > 0 \<and> TailPosition p \<le> PoolMaxOffset p \<and> NumBuckets p > 0 \<and>
     NumBuckets p < CFE_PLATFORM_ES_POOL_MAX_BUCKETS"

definition CFE_ES_GenPoolGetUsage :: "CFE_ES_GenPoolRecord \<Rightarrow> u32 ptr \<Rightarrow> u32 ptr \<Rightarrow> u32 ptr \<times> u32 ptr" where
  "CFE_ES_GenPoolGetUsage p FreeSizeBuf TotalSizeBuf =
     (map_option (\<lambda>_. ucast (PoolMaxOffset p - TailPosition p)) FreeSizeBuf, map_option (\<lambda>_. ucast (PoolTotalSize p)) TotalSizeBuf)"

definition CFE_ES_GenPoolGetCounts ::
  "CFE_ES_GenPoolRecord \<Rightarrow> u16 ptr \<Rightarrow> u32 ptr \<Rightarrow> u32 ptr \<Rightarrow> u16 ptr \<times> u32 ptr \<times> u32 ptr" where
  "CFE_ES_GenPoolGetCounts p NumBucketsBuf AllocCountBuf ValidationErrorCountBuf =
     (map_option (\<lambda>_. NumBuckets p) NumBucketsBuf, map_option (\<lambda>_. PoolAllocationCount p) AllocCountBuf,
      map_option (\<lambda>_. ValidationErrorCount p) ValidationErrorCountBuf)"

definition CFE_ES_GenPoolGetBucketUsage ::
  "CFE_ES_GenPoolRecord \<Rightarrow> u16 \<Rightarrow> CFE_ES_BlockStats ptr \<Rightarrow> CFE_ES_BlockStats ptr" where
  "CFE_ES_GenPoolGetBucketUsage p BucketId BlockStatsBuf =
     (let b = (case CFE_ES_GenPoolGetBucketState p BucketId of None \<Rightarrow> zero_Bucket | Some i \<Rightarrow> Buckets p ! i)
      in map_option (\<lambda>_. \<lparr>StatBlockSize = ucast (BlockSize b), NumCreated = BucketAllocationCount b,
                          NumFree = ReleaseCount b - RecycleCount b\<rparr>) BlockStatsBuf)"

end
