(* ===== verification/CFE_ES_Pool_Layout.thy ===== *)
theory CFE_ES_Pool_Layout
  imports CFE_ES_GenPool
begin

unbundle bit_operations_syntax

text \<open>
  The layout of a pool: blocks one behind the other, each aligned and with room for its
  descriptor in front, and the ids of the buckets.
\<close>

section \<open>Alignment\<close>

definition align_up :: "nat \<Rightarrow> nat \<Rightarrow> nat" where
  "align_up A x = (x + A - 1) div A * A"

lemma align_up:
  assumes "0 < A"
  shows "x \<le> align_up A x" and "align_up A x < x + A" and "A dvd align_up A x"
proof -
  have "x + A - 1 = align_up A x + (x + A - 1) mod A"
    unfolding align_up_def by (simp add: div_mult_mod_eq)
  moreover have "(x + A - 1) mod A < A" using assms by simp
  ultimately show "x \<le> align_up A x" "align_up A x < x + A" using assms by linarith+
qed (simp add: align_up_def)

lemma unat_and_not_mask:
  fixes w :: "'a::len word"
  shows "unat (w AND NOT (mask k)) = unat w div 2 ^ k * 2 ^ k"
proof -
  have "unat (w AND NOT (mask k)) = push_bit k (drop_bit k (unat w))"
    by (rule bit_eqI) (auto simp: bit_simps dest: bit_imp_le_length)
  then show ?thesis by (simp add: push_bit_eq_mult drop_bit_eq_div)
qed

text \<open>The mask of a power of two.\<close>

lemma align_mask_power:
  assumes "k \<le> 16"
  shows "align_mask (2 ^ k) = mask k"
proof (cases "k = 0")
  case False
  have absorb: "mask k OR drop_bit j (mask k) = (mask k :: u64)" for j
    by (rule bit_word_eqI) (auto simp: bit_simps)
  have "(2 :: nat) ^ k < 2 ^ 64" using assms by (intro power_strict_increasing) auto
  then have "unat (of_nat (2 ^ k) :: u64) = 2 ^ k" unfolding unat_of_nat by simp
  then have "unat (2 ^ k :: u64) = 2 ^ k" by simp
  moreover have "(2 :: nat) \<le> 2 ^ k" using False self_le_power [of 2 k] by simp
  ultimately have "\<not> (2 ^ k :: u64) \<le> 1" by (simp add: word_le_nat_alt)
  moreover have "(2 ^ k - 1 :: u64) = mask k" by (simp add: mask_eq_exp_minus_1)
  ultimately show ?thesis by (simp only: align_mask_def Let_def absorb if_False)
qed (simp add: align_mask_def)

section \<open>Bucket ids\<close>

text \<open>The id of the bucket with index \<open>i\<close>.\<close>

definition bid :: "CFE_ES_GenPoolRecord \<Rightarrow> nat \<Rightarrow> u16" where
  "bid p i = NumBuckets p - of_nat i"

definition nbuckets :: "CFE_ES_GenPoolRecord \<Rightarrow> nat" where
  "nbuckets p = unat (NumBuckets p)"

definition bsize :: "CFE_ES_GenPoolRecord \<Rightarrow> nat \<Rightarrow> nat" where
  "bsize p i = unat (BlockSize (Buckets p ! i))"

lemma unat_bid:
  assumes "i < nbuckets p"
  shows "unat (bid p i) = nbuckets p - i"
proof -
  have "i < 2 ^ 16" using assms unsigned_less [where 'a = nat, of "NumBuckets p"] by (simp add: nbuckets_def)
  then have u: "unat (of_nat i :: u16) = i" by (simp add: unat_of_nat)
  then have "(of_nat i :: u16) \<le> NumBuckets p" using assms by (simp add: word_le_nat_alt nbuckets_def)
  then show ?thesis by (simp add: bid_def unat_sub u nbuckets_def)
qed

lemma GetBucketState_bid [simp]:
  assumes "i < nbuckets p"
  shows "CFE_ES_GenPoolGetBucketState p (bid p i) = Some i"
proof -
  have "i < 2 ^ 16" using assms unsigned_less [where 'a = nat, of "NumBuckets p"] by (simp add: nbuckets_def)
  then have "unat (of_nat i :: u16) = i" by (simp add: unat_of_nat)
  moreover have "NumBuckets p - bid p i = of_nat i" by (simp add: bid_def)
  ultimately show ?thesis
    using assms by (simp add: CFE_ES_GenPoolGetBucketState_def Let_def word_le_nat_alt nbuckets_def)
qed

lemma GetBucketState_Some:
  assumes "CFE_ES_GenPoolGetBucketState p x = Some i"
  shows "i < nbuckets p \<and> x = bid p i"
proof -
  have "\<not> NumBuckets p \<le> NumBuckets p - x" "i = unat (NumBuckets p - x)"
    using assms by (auto simp: CFE_ES_GenPoolGetBucketState_def Let_def split: if_splits)
  then show ?thesis by (simp add: nbuckets_def bid_def word_le_nat_alt)
qed

lemma bid_nonzero: "i < nbuckets p \<Longrightarrow> bid p i \<noteq> 0"
  using unat_bid [of i p] by auto

text \<open>The marks of allocated and free blocks cannot be mistaken for each other.\<close>

lemma marks_apart:
  assumes n: "nbuckets p \<le> 17" and i: "i < nbuckets p"
  shows "CFE_ES_GenPoolGetBucketState p (CFE_ES_MEMORY_ALLOCATED + bid p i - CFE_ES_MEMORY_DEALLOCATED) = NULL"
    and "CFE_ES_GenPoolGetBucketState p (CFE_ES_MEMORY_DEALLOCATED + bid p i - CFE_ES_MEMORY_ALLOCATED) = NULL"
proof -
  have u: "unat (bid p i) \<le> 17" using unat_bid [OF i] n by simp
  have far: "unat (0xcccd + bid p i) > 17" "unat (0x3333 + bid p i) > 17"
    using u by (simp_all add: unat_word_ariths)
  have none: "CFE_ES_GenPoolGetBucketState p x = NULL" if "unat x > 17" for x
  proof (rule ccontr)
    assume "CFE_ES_GenPoolGetBucketState p x \<noteq> NULL"
    then obtain j where "j < nbuckets p" "x = bid p j" using GetBucketState_Some by blast
    then show False using that unat_bid [of j p] n by simp
  qed
  have shift: "a + b - c = (a - c) + b" for a b c :: u16 by simp
  have eqs: "(0xaaaa :: u16) + bid p i - 0xdddd = 0xcccd + bid p i" "(0xdddd :: u16) + bid p i - 0xaaaa = 0x3333 + bid p i"
    unfolding shift by simp_all
  show "CFE_ES_GenPoolGetBucketState p (CFE_ES_MEMORY_ALLOCATED + bid p i - CFE_ES_MEMORY_DEALLOCATED) = NULL"
    "CFE_ES_GenPoolGetBucketState p (CFE_ES_MEMORY_DEALLOCATED + bid p i - CFE_ES_MEMORY_ALLOCATED) = NULL"
    unfolding eqs by (rule none [OF far(1)], rule none [OF far(2)])
qed

text \<open>The search finds the first bucket that fits.\<close>

lemma FindBucket_spec:
  assumes len: "nbuckets p \<le> length (Buckets p)"
  shows "(\<exists>i < nbuckets p. CFE_ES_GenPoolFindBucket p r = bid p i \<and> unat r \<le> bsize p i \<and> (\<forall>j < i. bsize p j < unat r)) \<or>
    CFE_ES_GenPoolFindBucket p r = 0 \<and> (\<forall>i < nbuckets p. bsize p i < unat r)"
proof -
  let ?P = "\<lambda>b. \<not> r \<le> BlockSize b" and ?xs = "take (nbuckets p) (Buckets p)"
  let ?i = "length (takeWhile ?P ?xs)"
  have f: "CFE_ES_GenPoolFindBucket p r = bid p ?i" by (simp add: CFE_ES_GenPoolFindBucket_def Let_def bid_def nbuckets_def)
  have len': "length ?xs = nbuckets p" using len by simp
  have before: "bsize p j < unat r" if "j < ?i" for j
  proof -
    have "?xs ! j = takeWhile ?P ?xs ! j" using that by (simp add: takeWhile_nth)
    then have "?P (?xs ! j)" using that by (metis nth_mem set_takeWhileD)
    moreover have "j < nbuckets p" using that length_takeWhile_le [of ?P ?xs] len' by simp
    ultimately show ?thesis by (simp add: bsize_def word_le_nat_alt not_le)
  qed
  show ?thesis
  proof (cases "?i < nbuckets p")
    case True
    then have "\<not> ?P (?xs ! ?i)" using len' by (intro nth_length_takeWhile) (metis (lifting))
    then have "unat r \<le> bsize p ?i" using True by (simp add: bsize_def word_le_nat_alt)
    then show ?thesis using True before f by blast
  next
    case False
    then have "?i = nbuckets p" using length_takeWhile_le [of ?P ?xs] len' by simp
    then show ?thesis using before f by (simp add: bid_def nbuckets_def)
  qed
qed

section \<open>Blocks in a row\<close>

text \<open>\<open>laid sz A t bs t'\<close>: from \<open>t\<close> to \<open>t'\<close>, the blocks \<open>bs\<close> of given offset and bucket.\<close>

fun laid :: "(nat \<Rightarrow> nat) \<Rightarrow> nat \<Rightarrow> nat \<Rightarrow> (nat \<times> nat) list \<Rightarrow> nat \<Rightarrow> bool" where
  "laid sz A t [] t' \<longleftrightarrow> t' = t"
| "laid sz A t ((off, i) # bs) t' \<longleftrightarrow> off = align_up A (t + 24) \<and> laid sz A (off + sz i) bs t'"

lemma laid_append: "laid sz A t (bs @ cs) t' \<longleftrightarrow> (\<exists>t1. laid sz A t bs t1 \<and> laid sz A t1 cs t')"
  by (induction bs arbitrary: t) auto

lemma laid_det: "laid sz A t bs t1 \<Longrightarrow> laid sz A t bs t2 \<Longrightarrow> t1 = t2"
  by (induction bs arbitrary: t) auto

lemma laid_bounds:
  assumes "laid sz A t bs t'" and "0 < A"
  shows "t \<le> t'" and "(off, i) \<in> set bs \<Longrightarrow> t + 24 \<le> off \<and> A dvd off \<and> off + sz i \<le> t'"
  using assms
proof (induction bs arbitrary: t)
  case (Cons b bs)
  { case 1
    then show ?case using Cons.IH(1) align_up(1) [of A "t + 24"] by (cases b) fastforce }
  { case 2
    obtain o1 j where b: "b = (o1, j)" by fastforce
    have o1: "t + 24 \<le> o1" "A dvd o1" "laid sz A (o1 + sz j) bs t'" using 2 align_up [of A "t + 24"] by (auto simp: b)
    show ?case
    proof (cases "(off, i) = b")
      case True
      then show ?thesis using o1 Cons.IH(1) [OF o1(3) 2(3)] b by simp
    next
      case False
      then show ?thesis using Cons.IH(2) [OF _ o1(3) 2(3)] 2(1) o1 by auto
    qed }
qed auto

lemma laid_apart:
  assumes "laid sz A t bs t'" and "0 < A" and "(o1, i) \<in> set bs" and "(o2, j) \<in> set bs"
  shows "(o1, i) = (o2, j) \<or> o1 + sz i + 24 \<le> o2 \<or> o2 + sz j + 24 \<le> o1"
  using assms
proof (induction bs arbitrary: t)
  case (Cons b bs)
  obtain o3 k where b: "b = (o3, k)" by fastforce
  have l: "laid sz A (o3 + sz k) bs t'" using Cons.prems(1) by (auto simp: b)
  have far: "o3 + sz k + 24 \<le> x" if "(x, y) \<in> set bs" for x y using laid_bounds(2) [OF l Cons.prems(2) that] by simp
  show ?case using Cons.prems(3,4) Cons.IH [OF l Cons.prems(2)] far b by auto
qed simp

lemma laid_distinct: "laid sz A t bs t' \<Longrightarrow> 0 < A \<Longrightarrow> distinct bs"
proof (induction bs arbitrary: t)
  case (Cons b bs)
  obtain o3 k where b: "b = (o3, k)" by fastforce
  have l: "laid sz A (o3 + sz k) bs t'" using Cons.prems(1) by (auto simp: b)
  then show ?case using laid_bounds(2) [OF l Cons.prems(2), of o3 k] Cons.IH [OF l Cons.prems(2)] b by auto
qed simp

lemma laid_length: "laid sz A t bs t' \<Longrightarrow> 0 < A \<Longrightarrow> t + 24 * length bs \<le> t'"
proof (induction bs arbitrary: t)
  case (Cons b bs)
  obtain o3 k where b: "b = (o3, k)" by fastforce
  have "o3 + sz k + 24 * length bs \<le> t'" using Cons by (auto simp: b)
  then show ?case using Cons.prems align_up(1) [of A "t + 24"] by (auto simp: b)
qed simp

end
