(* ===== verification/CFE_ES_Pool_Inv.thy ===== *)
theory CFE_ES_Pool_Inv
  imports CFE_ES_Pool_Layout
begin

unbundle bit_operations_syntax

text \<open>
  What a pool promises while its storage keeps what it is given.  The locale \<open>pool_storage\<close> is
  the contract of the two functions a pool reaches its descriptors with; \<open>pool_inv\<close> is the invariant of the
  pool over the descriptors \<open>d\<close> in the storage: the blocks \<open>bs\<close> in the order of their offsets, each
  with its bucket, and the free stack of each bucket.
\<close>

section \<open>The storage\<close>

text \<open>Two descriptors that do not overlap and do not run over the end of the address space.\<close>

definition apart :: "u64 \<Rightarrow> u64 \<Rightarrow> bool" where
  "apart a b \<longleftrightarrow> (unat a + 24 \<le> unat b \<or> unat b + 24 \<le> unat a) \<and> unat a + 24 \<le> 2 ^ 64 \<and> unat b + 24 \<le> 2 ^ 64"

lemma apartI:
  assumes "unat a + 24 \<le> unat b \<or> unat b + 24 \<le> unat a" and "unat a < 2 ^ 33" and "unat b < 2 ^ 33"
  shows "apart a b"
proof -
  have "(2 :: nat) ^ 33 + 24 \<le> 2 ^ 64" by simp
  then have "unat a + 24 \<le> 2 ^ 64" "unat b + 24 \<le> 2 ^ 64" using assms(2,3) by linarith+
  then show ?thesis using assms(1) unfolding apart_def by blast
qed

text \<open>Addresses of descriptors below 4 GB, where every pool lies.\<close>

definition near :: "u64 \<Rightarrow> bool" where
  "near a \<longleftrightarrow> unat a + 24 \<le> 2 ^ 32"

locale pool_storage =
  fixes acc :: "'st CFE_ES_PoolStorage" and view :: "'st \<Rightarrow> u64 \<Rightarrow> CFE_ES_GenPoolBD"
  assumes retrieve: "near a \<Longrightarrow> Retrieve acc m a = (m1, st) \<Longrightarrow> view m1 = view m \<and> (st = CFE_SUCCESS \<longrightarrow> BdOf acc m1 a = view m a)"
    and commit: "near a \<Longrightarrow> Retrieve acc m a = (m1, CFE_SUCCESS) \<Longrightarrow> Commit acc (SetBd acc m1 a bd) a = (m2, st) \<Longrightarrow>
      (if st = CFE_SUCCESS then view m2 a = bd \<and> (\<forall>b. apart a b \<longrightarrow> view m2 b = view m b) else view m2 = view m)"

text \<open>A storage that never fails up to a limit.\<close>

locale reliable_storage = pool_storage +
  fixes lim :: nat
  assumes retrieve_ok: "unat a + 24 \<le> lim \<Longrightarrow> snd (Retrieve acc m a) = CFE_SUCCESS"
    and commit_ok: "unat a + 24 \<le> lim \<Longrightarrow> Retrieve acc m a = (m1, CFE_SUCCESS) \<Longrightarrow> snd (Commit acc (SetBd acc m1 a bd) a) = CFE_SUCCESS"

section \<open>The invariant\<close>

definition wf_pool :: "CFE_ES_GenPoolRecord \<Rightarrow> nat \<Rightarrow> bool" where
  "wf_pool p k \<longleftrightarrow>
     0 < nbuckets p \<and> nbuckets p \<le> 17 \<and> length (Buckets p) = 17 \<and> AlignMask p = mask k \<and> k \<le> 16 \<and>
     unat (PoolMaxOffset p) < 2 ^ 32 \<and> (\<forall>i < nbuckets p. 0 < bsize p i \<and> bsize p i < 2 ^ 32)"

text \<open>The descriptor in front of the block at an offset.\<close>

definition desc :: "(u64 \<Rightarrow> CFE_ES_GenPoolBD) \<Rightarrow> nat \<Rightarrow> CFE_ES_GenPoolBD" where
  "desc d off = d (of_nat off - 24)"

fun chain :: "(u64 \<Rightarrow> CFE_ES_GenPoolBD) \<Rightarrow> u64 \<Rightarrow> nat list \<Rightarrow> bool" where
  "chain d first [] \<longleftrightarrow> first = 0"
| "chain d first (off # offs) \<longleftrightarrow> first = of_nat off \<and> chain d (NextOffset (desc d off)) offs"

definition block_ok :: "CFE_ES_GenPoolRecord \<Rightarrow> (u64 \<Rightarrow> CFE_ES_GenPoolBD) \<Rightarrow> (nat \<Rightarrow> nat list) \<Rightarrow> nat \<Rightarrow> nat \<Rightarrow> bool" where
  "block_ok p d free off i \<longleftrightarrow>
     i < nbuckets p \<and> CheckBits (desc d off) = CFE_ES_CHECK_PATTERN \<and> unat (ActualSize (desc d off)) \<le> bsize p i \<and>
     Allocated (desc d off) = (if off \<in> set (free i) then CFE_ES_MEMORY_DEALLOCATED else CFE_ES_MEMORY_ALLOCATED) + bid p i"

definition bucket_ok :: "CFE_ES_GenPoolRecord \<Rightarrow> (u64 \<Rightarrow> CFE_ES_GenPoolBD) \<Rightarrow> (nat \<times> nat) list \<Rightarrow> nat list \<Rightarrow> nat \<Rightarrow> bool" where
  "bucket_ok p d bs fr i \<longleftrightarrow>
     distinct fr \<and> (\<forall>off \<in> set fr. (off, i) \<in> set bs) \<and> chain d (FirstOffset (Buckets p ! i)) fr \<and>
     ReleaseCount (Buckets p ! i) - RecycleCount (Buckets p ! i) = of_nat (length fr) \<and>
     BucketAllocationCount (Buckets p ! i) = of_nat (length (filter (\<lambda>b. snd b = i) bs))"

definition pool_inv ::
  "CFE_ES_GenPoolRecord \<Rightarrow> (u64 \<Rightarrow> CFE_ES_GenPoolBD) \<Rightarrow> nat \<Rightarrow> nat \<Rightarrow> (nat \<times> nat) list \<Rightarrow> (nat \<Rightarrow> nat list) \<Rightarrow> bool" where
  "pool_inv p d k start bs free \<longleftrightarrow>
     wf_pool p k \<and> laid (bsize p) (2 ^ k) start bs (unat (TailPosition p)) \<and> TailPosition p \<le> PoolMaxOffset p \<and>
     (\<forall>(off, i) \<in> set bs. block_ok p d free off i) \<and> (\<forall>i < nbuckets p. bucket_ok p d bs (free i) i) \<and>
     PoolAllocationCount p = of_nat (length bs)"

lemma pool_invD:
  assumes "pool_inv p d k start bs free"
  shows "wf_pool p k" "laid (bsize p) (2 ^ k) start bs (unat (TailPosition p))" "unat (TailPosition p) \<le> unat (PoolMaxOffset p)"
    "(off, i) \<in> set bs \<Longrightarrow> block_ok p d free off i" "i < nbuckets p \<Longrightarrow> bucket_ok p d bs (free i) i"
    "unat (PoolMaxOffset p) < 2 ^ 32" "0 < nbuckets p" "nbuckets p \<le> 17" "length (Buckets p) = 17"
  using assms by (auto simp: pool_inv_def word_le_nat_alt wf_pool_def)

text \<open>A block lies between the descriptor in front of it and the tail.\<close>

lemma block_range:
  assumes inv: "pool_inv p d k start bs free" and b: "(off, i) \<in> set bs"
  shows "start + 24 \<le> off" "2 ^ k dvd off" "off + bsize p i \<le> unat (TailPosition p)" "off < 2 ^ 32"
    "unat (of_nat off :: u64) = off" "unat (of_nat off - 24 :: u64) = off - 24" "0 < bsize p i"
proof -
  note l = laid_bounds(2) [OF pool_invD(2) [OF inv] _ b]
  show r: "start + 24 \<le> off" "2 ^ k dvd off" "off + bsize p i \<le> unat (TailPosition p)" using l by simp_all
  then show lt: "off < 2 ^ 32" using pool_invD(3,6) [OF inv] by linarith
  then show u: "unat (of_nat off :: u64) = off" by (simp add: unat_of_nat)
  have "(24 :: u64) \<le> of_nat off" using r(1) u by (simp add: word_le_nat_alt)
  then show "unat (of_nat off - 24 :: u64) = off - 24" using u by (simp add: unat_sub)
  show "0 < bsize p i" using pool_invD(1,4) [OF inv] b by (auto simp: block_ok_def wf_pool_def)
qed

lemma block_near: "pool_inv p d k start bs free \<Longrightarrow> (off, i) \<in> set bs \<Longrightarrow> near (of_nat off - 24)"
  using block_range(1,4,6) [of p d k start bs free off i] by (simp add: near_def)

lemma blocks_apart:
  assumes inv: "pool_inv p d k start bs free" and b: "(o1, i) \<in> set bs" "(o2, j) \<in> set bs"
  shows "(o1, i) = (o2, j) \<or> o1 + bsize p i + 24 \<le> o2 \<or> o2 + bsize p j + 24 \<le> o1"
  by (rule laid_apart [OF pool_invD(2) [OF inv] _ b]) simp

lemma same_block: "pool_inv p d k start bs free \<Longrightarrow> (off, i) \<in> set bs \<Longrightarrow> (off, j) \<in> set bs \<Longrightarrow> i = j"
  using blocks_apart [of p d k start bs free off i off j] by auto

lemma descs_apart:
  assumes inv: "pool_inv p d k start bs free" and b: "(o1, i) \<in> set bs" "(o2, j) \<in> set bs" "o1 \<noteq> o2"
  shows "apart (of_nat o1 - 24) (of_nat o2 - 24)"
  using blocks_apart [OF inv b(1,2)] b(3) block_range(1,4,6) [OF inv b(1)] block_range(1,4,6) [OF inv b(2)]
  by (intro apartI) auto

lemma chain_cong: "(\<And>off. off \<in> set offs \<Longrightarrow> desc d' off = desc d off) \<Longrightarrow> chain d' first offs = chain d first offs"
  by (induction offs arbitrary: first) auto

section \<open>The next block\<close>

lemma next_block_unat:
  assumes inv: "pool_inv p d k start bs free"
  shows "unat (next_block p) = align_up (2 ^ k) (unat (TailPosition p) + 24)"
    and "unat (next_block p) < 2 ^ 33" and "unat (next_block p - 24) = unat (next_block p) - 24"
    and "unat (TailPosition p) + 24 \<le> unat (next_block p)"
proof -
  have m: "AlignMask p = mask k" "k \<le> 16" "unat (TailPosition p) < 2 ^ 32"
    using pool_invD(1,3,6) [OF inv] by (auto simp: wf_pool_def)
  have "(2 :: nat) ^ k \<le> 2 ^ 16" using m(2) by (intro power_increasing) auto
  then have pw: "(2 :: nat) ^ k \<le> 65536" by simp
  have "mask k = (of_nat (2 ^ k - 1) :: u64)" by (simp add: mask_eq_exp_minus_1 of_nat_diff)
  moreover have "unat (of_nat (2 ^ k - 1) :: u64) = 2 ^ k - 1"
    unfolding unat_of_nat using pw by (intro mod_less) simp
  ultimately have um: "unat (mask k :: u64) = 2 ^ k - 1" by simp
  let ?w = "TailPosition p + 24 + mask k"
  have "unat ?w = unat (TailPosition p) + 24 + (2 ^ k - 1)"
    using m(3) pw um by (simp add: unat_word_ariths)
  then show u: "unat (next_block p) = align_up (2 ^ k) (unat (TailPosition p) + 24)"
    unfolding next_block_def Let_def m(1) unat_and_not_mask align_up_def by simp
  show b: "unat (TailPosition p) + 24 \<le> unat (next_block p)" unfolding u by (rule align_up) simp
  have "unat (next_block p) < unat (TailPosition p) + 24 + 2 ^ k" unfolding u by (rule align_up) simp
  then show "unat (next_block p) < 2 ^ 33" using m(3) pw by simp
  have "(24 :: u64) \<le> next_block p" using b by (simp add: word_le_nat_alt)
  then show "unat (next_block p - 24) = unat (next_block p) - 24" by (simp add: unat_sub)
qed

section \<open>Changes of one block\<close>

lemma upd_bucket_fields:
  assumes "i < length (Buckets p)" and "\<And>b. BlockSize (f b) = BlockSize b"
  shows "bsize (upd_bucket i f p) = bsize p" "nbuckets (upd_bucket i f p) = nbuckets p" "bid (upd_bucket i f p) = bid p"
    "length (Buckets (upd_bucket i f p)) = length (Buckets p)" "TailPosition (upd_bucket i f p) = TailPosition p"
    "PoolMaxOffset (upd_bucket i f p) = PoolMaxOffset p" "AlignMask (upd_bucket i f p) = AlignMask p"
    "PoolAllocationCount (upd_bucket i f p) = PoolAllocationCount p"
    "Buckets (upd_bucket i f p) ! j = (if j = i then f (Buckets p ! i) else Buckets p ! j)"
  using assms by (auto simp: upd_bucket_def bsize_def nbuckets_def bid_def fun_eq_iff nth_list_update)

lemma bucket_ok_other:
  assumes "bucket_ok p d bs fr i" and "Buckets p' ! i = Buckets p ! i" and "\<And>off. off \<in> set fr \<Longrightarrow> desc d' off = desc d off"
  shows "bucket_ok p' d' bs fr i"
  using assms chain_cong [of fr d' d] by (simp add: bucket_ok_def)

text \<open>Other blocks keep their descriptors when one is written.\<close>

lemma desc_other:
  assumes inv: "pool_inv p d k start bs free" and b: "(off, i) \<in> set bs" "(off', j) \<in> set bs" "off' \<noteq> off"
    and d': "\<And>b. apart (of_nat off - 24) b \<Longrightarrow> d' b = d b"
  shows "desc d' off' = desc d off'"
  unfolding desc_def by (rule d') (rule descs_apart [OF inv b(1,2)], use b(3) in simp)

lemma touch_inv:
  assumes inv: "pool_inv p d k start bs free" and b: "(off, i) \<in> set bs"
    and d': "\<And>b. apart (of_nat off - 24) b \<Longrightarrow> d' b = d b"
    and f: "\<And>b. BlockSize (f b) = BlockSize b" and fr: "set fr - {off} = set (free i) - {off}"
    and blk: "block_ok p d' (free(i := fr)) off i" and bkt: "bucket_ok (upd_bucket i f p) d' bs fr i"
  shows "pool_inv (upd_bucket i f p) d' k start bs (free(i := fr))"
proof -
  let ?p = "upd_bucket i f p" and ?free = "free(i := fr)"
  have i: "i < nbuckets p" using pool_invD(4) [OF inv b] by (simp add: block_ok_def)
  then have len: "i < length (Buckets p)" using pool_invD(8,9) [OF inv] by simp
  note u = upd_bucket_fields [OF len f]
  have blocks: "block_ok ?p d' ?free x j" if x: "(x, j) \<in> set bs" for x j
  proof (cases "x = off")
    case True
    then have "j = i" using same_block [OF inv b] x by simp
    then show ?thesis using True blk by (simp add: block_ok_def u)
  next
    case False
    have "desc d' x = desc d x" by (rule desc_other [OF inv b x False d'])
    moreover have "x \<in> set (?free j) \<longleftrightarrow> x \<in> set (free j)" using fr False by auto
    ultimately show ?thesis using pool_invD(4) [OF inv x] by (simp add: block_ok_def u del: fun_upd_apply)
  qed
  have buckets: "bucket_ok ?p d' bs (?free j) j" if j: "j < nbuckets p" for j
  proof (cases "j = i")
    case False
    note bo = pool_invD(5) [OF inv j]
    have "desc d' x = desc d x" if "x \<in> set (free j)" for x
    proof -
      have x: "(x, j) \<in> set bs" using bo that by (simp add: bucket_ok_def)
      then have "x \<noteq> off" using same_block [OF inv b] False by auto
      then show ?thesis by (rule desc_other [OF inv b x _ d'])
    qed
    then show ?thesis using bo False by (simp add: bucket_ok_other u)
  qed (use bkt in simp)
  show ?thesis
    using inv blocks buckets unfolding pool_inv_def wf_pool_def u by (auto simp: u)
qed

section \<open>Recycling, returning and creating\<close>

lemma free_block:
  assumes inv: "pool_inv p d k start bs free" and i: "i < nbuckets p" and off: "off \<in> set (free i)"
  shows "(off, i) \<in> set bs" "CheckBits (desc d off) = CFE_ES_CHECK_PATTERN" "Allocated (desc d off) = CFE_ES_MEMORY_DEALLOCATED + bid p i"
    "unat (ActualSize (desc d off)) \<le> bsize p i"
proof -
  show b: "(off, i) \<in> set bs" using pool_invD(5) [OF inv i] off by (simp add: bucket_ok_def)
  show "CheckBits (desc d off) = CFE_ES_CHECK_PATTERN" "Allocated (desc d off) = CFE_ES_MEMORY_DEALLOCATED + bid p i"
    "unat (ActualSize (desc d off)) \<le> bsize p i"
    using pool_invD(4) [OF inv b] off by (simp_all add: block_ok_def)
qed

lemma recycle_inv:
  assumes inv: "pool_inv p d k start bs free" and i: "i < nbuckets p" and fr: "free i = off # offs"
    and d': "d' (of_nat off - 24) = (desc d off)\<lparr>Allocated := CFE_ES_MEMORY_ALLOCATED + bid p i, ActualSize := sz, NextOffset := 0\<rparr>"
      "\<And>b. apart (of_nat off - 24) b \<Longrightarrow> d' b = d b"
    and sz: "unat sz \<le> bsize p i"
  shows "pool_inv (upd_bucket i (\<lambda>b. b\<lparr>FirstOffset := NextOffset (desc d off), RecycleCount := RecycleCount b + 1\<rparr>) p) d' k start bs (free(i := offs))"
proof -
  note fb = free_block [OF inv i, of off, unfolded fr, simplified]
  note bo = pool_invD(5) [OF inv i, unfolded bucket_ok_def fr]
  have len: "i < length (Buckets p)" using i pool_invD(8,9) [OF inv] by simp
  have de: "desc d' off = (desc d off)\<lparr>Allocated := CFE_ES_MEMORY_ALLOCATED + bid p i, ActualSize := sz, NextOffset := 0\<rparr>"
    using d'(1) by (simp add: desc_def)
  have "block_ok p d' (free(i := offs)) off i" using i sz fb bo by (simp add: block_ok_def de)
  moreover have "desc d' x = desc d x" if "x \<in> set offs" for x
    by (rule desc_other [OF inv fb(1) _ _ d'(2)]) (use bo that in auto)
  then have "chain d' (NextOffset (desc d off)) offs" using bo chain_cong [of offs d' d] by simp
  then have "bucket_ok (upd_bucket i (\<lambda>b. b\<lparr>FirstOffset := NextOffset (desc d off), RecycleCount := RecycleCount b + 1\<rparr>) p) d' bs offs i"
    using bo len by (simp add: bucket_ok_def upd_bucket_def algebra_simps)
  ultimately show ?thesis using bo by (intro touch_inv [OF inv fb(1) d'(2)]) (auto simp: fr)
qed

lemma put_inv:
  assumes inv: "pool_inv p d k start bs free" and b: "(off, i) \<in> set bs" "off \<notin> set (free i)"
    and d': "d' (of_nat off - 24) = (desc d off)\<lparr>Allocated := CFE_ES_MEMORY_DEALLOCATED + bid p i, NextOffset := FirstOffset (Buckets p ! i)\<rparr>"
      "\<And>b. apart (of_nat off - 24) b \<Longrightarrow> d' b = d b"
  shows "pool_inv (upd_bucket i (\<lambda>b. b\<lparr>FirstOffset := of_nat off, ReleaseCount := ReleaseCount b + 1\<rparr>) p) d' k start bs (free(i := off # free i))"
proof -
  note bl = pool_invD(4) [OF inv b(1), unfolded block_ok_def]
  then have i: "i < nbuckets p" by simp
  note bo = pool_invD(5) [OF inv i, unfolded bucket_ok_def]
  have len: "i < length (Buckets p)" using i pool_invD(8,9) [OF inv] by simp
  have de: "desc d' off = (desc d off)\<lparr>Allocated := CFE_ES_MEMORY_DEALLOCATED + bid p i, NextOffset := FirstOffset (Buckets p ! i)\<rparr>"
    using d'(1) by (simp add: desc_def)
  have "block_ok p d' (free(i := off # free i)) off i" using bl by (simp add: block_ok_def de)
  moreover have "desc d' x = desc d x" if "x \<in> set (free i)" for x
    by (rule desc_other [OF inv b(1) _ _ d'(2)]) (use bo that b(2) in auto)
  then have "chain d' (FirstOffset (Buckets p ! i)) (free i)" using bo chain_cong [of "free i" d' d] by simp
  then have "bucket_ok (upd_bucket i (\<lambda>b. b\<lparr>FirstOffset := of_nat off, ReleaseCount := ReleaseCount b + 1\<rparr>) p) d' bs (off # free i) i"
    using bo b len by (simp add: bucket_ok_def upd_bucket_def de algebra_simps)
  ultimately show ?thesis by (intro touch_inv [OF inv b(1) d'(2)]) auto
qed

lemma create_inv:
  assumes inv: "pool_inv p d k start bs free" and i: "i < nbuckets p"
    and fits: "unat (next_block p) + bsize p i \<le> unat (PoolMaxOffset p)"
    and d': "CheckBits (d' (next_block p - 24)) = CFE_ES_CHECK_PATTERN" "Allocated (d' (next_block p - 24)) = CFE_ES_MEMORY_ALLOCATED + bid p i"
      "unat (ActualSize (d' (next_block p - 24))) \<le> bsize p i" "\<And>b. apart (next_block p - 24) b \<Longrightarrow> d' b = d b"
    and p': "p' = upd_bucket i (\<lambda>b. b\<lparr>BucketAllocationCount := BucketAllocationCount b + 1\<rparr>)
        (p\<lparr>TailPosition := next_block p + BlockSize (Buckets p ! i)\<rparr>)\<lparr>PoolAllocationCount := PoolAllocationCount p + 1\<rparr>"
  shows "pool_inv p' d' k start (bs @ [(unat (next_block p), i)]) free"
proof -
  let ?n = "unat (next_block p)" and ?bs = "bs @ [(unat (next_block p), i)]"
  note nb = next_block_unat [OF inv]
  have len: "i < length (Buckets p)" using i pool_invD(8,9) [OF inv] by simp
  have tail: "unat (TailPosition p') = ?n + bsize p i"
    using fits pool_invD(6) [OF inv] by (simp add: p' upd_bucket_def unat_word_ariths bsize_def)
  have fields: "bsize p' = bsize p" "nbuckets p' = nbuckets p" "bid p' = bid p" "length (Buckets p') = length (Buckets p)"
    "PoolMaxOffset p' = PoolMaxOffset p" "AlignMask p' = AlignMask p" "PoolAllocationCount p' = PoolAllocationCount p + 1"
    using len by (auto simp: p' upd_bucket_def bsize_def nbuckets_def bid_def fun_eq_iff nth_list_update)
  have bk: "Buckets p' ! j = (if j = i then (Buckets p ! i)\<lparr>BucketAllocationCount := BucketAllocationCount (Buckets p ! i) + 1\<rparr> else Buckets p ! j)" for j
    using len by (simp add: p' upd_bucket_def nth_list_update)
  have old: "desc d' x = desc d x" if x: "(x, j) \<in> set bs" for x j
  proof -
    have "x \<le> unat (TailPosition p)" using block_range(3) [OF inv x] by simp
    then have "apart (next_block p - 24) (of_nat x - 24)"
      using nb block_range(1,4,6) [OF inv x] by (intro apartI) auto
    then show ?thesis unfolding desc_def by (rule d'(4))
  qed
  have fresh: "(?n, j) \<notin> set bs" for j
    using block_range(3) [OF inv, of ?n j] nb(4) by auto
  then have nf: "?n \<notin> set (free i)" using pool_invD(5) [OF inv i] by (auto simp: bucket_ok_def)
  have new: "block_ok p' d' free ?n i" using i nf d' by (simp add: block_ok_def desc_def fields)
  have blocks: "\<forall>(x, j) \<in> set ?bs. block_ok p' d' free x j"
    using new old pool_invD(4) [OF inv] by (auto simp: block_ok_def fields)
  have buckets: "bucket_ok p' d' ?bs (free j) j" if j: "j < nbuckets p" for j
  proof -
    have bo: "bucket_ok p d bs (free j) j" by (rule pool_invD(5) [OF inv j])
    then have "desc d' x = desc d x" if "x \<in> set (free j)" for x using old that by (auto simp: bucket_ok_def)
    from chain_cong [of "free j" d' d, OF this] bo have "chain d' (FirstOffset (Buckets p ! j)) (free j)" by (simp add: bucket_ok_def)
    then show ?thesis using bo by (auto simp: bucket_ok_def bk)
  qed
  have "laid (bsize p) (2 ^ k) start ?bs (?n + bsize p i)"
    using pool_invD(2) [OF inv] nb(1) by (auto simp: laid_append)
  moreover have "TailPosition p' \<le> PoolMaxOffset p" using fits tail by (simp add: word_le_nat_alt)
  moreover have "PoolAllocationCount p = of_nat (length bs)" using inv by (simp add: pool_inv_def)
  ultimately show ?thesis
    using pool_invD(1) [OF inv] blocks buckets unfolding pool_inv_def wf_pool_def fields tail by simp
qed

section \<open>Getting and returning blocks on a storage\<close>

text \<open>The blocks that have been handed out.\<close>

definition in_use :: "(nat \<times> nat) list \<Rightarrow> (nat \<Rightarrow> nat list) \<Rightarrow> (nat \<times> nat) set" where
  "in_use bs free = {(off, i) \<in> set bs. off \<notin> set (free i)}"

text \<open>There is something to recycle exactly when the free stack is not empty.\<close>

lemma recycle_guard:
  assumes inv: "pool_inv p d k start bs free" and i: "i < nbuckets p"
  shows "RecycleCount (Buckets p ! i) = ReleaseCount (Buckets p ! i) \<or> FirstOffset (Buckets p ! i) = 0 \<longleftrightarrow> free i = []"
proof (cases "free i")
  case (Cons off offs)
  note bo = pool_invD(5) [OF inv i, unfolded bucket_ok_def]
  have b: "(off, i) \<in> set bs" "FirstOffset (Buckets p ! i) = of_nat off" using bo Cons by auto
  then have "FirstOffset (Buckets p ! i) \<noteq> 0" using block_range(1,5) [OF inv b(1)] by (metis add_is_0 le_zero_eq unat_0 zero_neq_numeral)
  moreover have "length (free i) < 2 ^ 32"
  proof -
    have "distinct (free i)" "set (free i) \<subseteq> fst ` set bs" using bo by force+
    then have "length (free i) \<le> length bs"
      by (metis card_length card_mono distinct_card finite_imageI finite_set le_trans length_map set_map)
    moreover have "24 * length bs \<le> unat (TailPosition p)" using laid_length [OF pool_invD(2) [OF inv]] by simp
    ultimately show ?thesis using pool_invD(3,6) [OF inv] by linarith
  qed
  then have "(of_nat (length (free i)) :: u32) \<noteq> 0"
    using Cons by (simp add: word_unat_eq_iff unat_of_nat del: of_nat_Suc)
  ultimately show ?thesis using bo Cons by auto
qed (use pool_invD(5) [OF inv i] in \<open>auto simp: bucket_ok_def\<close>)

text \<open>A descriptor with a new size is written in front of a block, and no other descriptor changes.\<close>

definition writes_desc :: "(u64 \<Rightarrow> CFE_ES_GenPoolBD) \<Rightarrow> u64 \<Rightarrow> u64 \<Rightarrow> (u64 \<Rightarrow> CFE_ES_GenPoolBD) \<Rightarrow> bool" where
  "writes_desc d off sz d' \<longleftrightarrow> ActualSize (d' (off - 24)) = sz \<and> (\<forall>b. apart (off - 24) b \<longrightarrow> d' b = d b)"

context pool_storage
begin

text \<open>What recycling does on a consistent pool: the checks never fail.\<close>

lemma recycle_eval:
  assumes inv: "pool_inv p (view m) k start bs free" and i: "i < nbuckets p" and fr: "free i = off # offs"
  shows "CFE_ES_GenPoolRecyclePoolBlock acc (bid p i) sz out (p, m) =
    (let (m1, s1) = Retrieve acc m (of_nat off - 24);
         (m2, s2) = Commit acc (SetBd acc m1 (of_nat off - 24) ((desc (view m) off)\<lparr>Allocated := CFE_ES_MEMORY_ALLOCATED + bid p i,
           ActualSize := sz, NextOffset := 0\<rparr>)) (of_nat off - 24)
     in if s1 \<noteq> CFE_SUCCESS then ((p, m1), s1, out)
        else if s2 = CFE_SUCCESS
        then ((upd_bucket i (\<lambda>b. b\<lparr>FirstOffset := NextOffset (desc (view m) off), RecycleCount := RecycleCount b + 1\<rparr>) p, m2), s2, of_nat off)
        else ((p, m2), s2, out))"
proof -
  note fb = free_block [OF inv i, of off, unfolded fr, simplified]
  have first: "FirstOffset (Buckets p ! i) = of_nat off" using pool_invD(5) [OF inv i] fr by (simp add: bucket_ok_def)
  have near: "near (of_nat off - 24)" by (rule block_near [OF inv]) (rule fb)
  obtain m1 s1 where r: "Retrieve acc m (of_nat off - 24) = (m1, s1)" by fastforce
  have bd: "s1 = CFE_SUCCESS \<Longrightarrow> BdOf acc m1 (of_nat off - 24) = desc (view m) off" using retrieve [OF near r] by (simp add: desc_def)
  show ?thesis
    using recycle_guard [OF inv i] fr i
    by (simp add: CFE_ES_GenPoolRecyclePoolBlock_def first r bd fb Let_def split_beta)
qed

lemma recycle_ok:
  assumes inv: "pool_inv p (view m) k start bs free" and i: "i < nbuckets p" and sz: "unat sz \<le> bsize p i"
    and call: "CFE_ES_GenPoolRecyclePoolBlock acc (bid p i) sz out (p, m) = ((p', m'), st, out')"
  shows "st = CFE_SUCCESS \<Longrightarrow> \<exists>off offs. free i = off # offs \<and> out' = of_nat off \<and> pool_inv p' (view m') k start bs (free(i := offs)) \<and>
      writes_desc (view m) out' sz (view m')"
    and "st \<noteq> CFE_SUCCESS \<Longrightarrow> p' = p \<and> view m' = view m \<and> out' = out"
proof -
  have "(st = CFE_SUCCESS \<longrightarrow> (\<exists>off offs. free i = off # offs \<and> out' = of_nat off \<and> pool_inv p' (view m') k start bs (free(i := offs)) \<and>
      writes_desc (view m) out' sz (view m'))) \<and>
    (st \<noteq> CFE_SUCCESS \<longrightarrow> p' = p \<and> view m' = view m \<and> out' = out)"
  proof (cases "free i")
    case Nil
    then show ?thesis using call recycle_guard [OF inv i] i by (auto simp: CFE_ES_GenPoolRecyclePoolBlock_def)
  next
    case (Cons off offs)
    let ?a = "of_nat off - 24 :: u64"
    have near: "near ?a" using free_block(1) [OF inv i] Cons by (intro block_near [OF inv, of off i]) simp
    let ?bd = "(desc (view m) off)\<lparr>Allocated := CFE_ES_MEMORY_ALLOCATED + bid p i, ActualSize := sz, NextOffset := 0\<rparr>"
    obtain m1 s1 where r: "Retrieve acc m ?a = (m1, s1)" by fastforce
    obtain m2 s2 where c: "Commit acc (SetBd acc m1 ?a ?bd) ?a = (m2, s2)" by fastforce
    note ev = call [unfolded recycle_eval [OF inv i Cons], unfolded r Let_def split_beta fst_conv snd_conv c]
    show ?thesis
    proof (cases "s1 = CFE_SUCCESS")
      case True
      note cm = commit [OF near r [unfolded True] c]
      have "s2 = CFE_SUCCESS \<Longrightarrow> view m2 ?a = ?bd" "s2 = CFE_SUCCESS \<Longrightarrow> apart ?a b \<Longrightarrow> view m2 b = view m b" for b
        using cm by simp_all
      then show ?thesis
        using recycle_inv [OF inv i Cons, of "view m2" sz] sz ev True cm Cons by (cases "s2 = CFE_SUCCESS") (auto simp: writes_desc_def)
    qed (use ev retrieve [OF near r] in auto)
  qed
  then show "st = CFE_SUCCESS \<Longrightarrow> \<exists>off offs. free i = off # offs \<and> out' = of_nat off \<and> pool_inv p' (view m') k start bs (free(i := offs)) \<and>
      writes_desc (view m) out' sz (view m')"
    "st \<noteq> CFE_SUCCESS \<Longrightarrow> p' = p \<and> view m' = view m \<and> out' = out" by blast+
qed

lemma create_ok:
  assumes inv: "pool_inv p (view m) k start bs free" and i: "i < nbuckets p" and sz: "unat sz \<le> bsize p i"
    and call: "CFE_ES_GenPoolCreatePoolBlock acc (bid p i) sz out (p, m) = ((p', m'), st, out')"
  shows "st = CFE_SUCCESS \<Longrightarrow> out' = next_block p \<and> pool_inv p' (view m') k start (bs @ [(unat out', i)]) free \<and>
      writes_desc (view m) out' sz (view m')"
    and "st \<noteq> CFE_SUCCESS \<Longrightarrow> p' = p \<and> view m' = view m \<and> out' = out"
    and "unat (PoolMaxOffset p) < unat (next_block p) + bsize p i \<Longrightarrow> st = CFE_ES_ERR_MEM_BLOCK_SIZE"
proof -
  let ?a = "next_block p - 24"
  let ?bd = "\<lparr>CheckBits = CFE_ES_CHECK_PATTERN, Allocated = CFE_ES_MEMORY_ALLOCATED + bid p i, ActualSize = sz, NextOffset = 0\<rparr>"
  obtain m1 s1 where r: "Retrieve acc m ?a = (m1, s1)" by fastforce
  obtain m2 s2 where c: "Commit acc (SetBd acc m1 ?a ?bd) ?a = (m2, s2)" by fastforce
  have near: "near ?a" if "unat (next_block p) + bsize p i \<le> unat (PoolMaxOffset p)"
    using that next_block_unat(3,4) [OF inv] pool_invD(6) [OF inv] by (simp add: near_def)
  have "unat (next_block p + BlockSize (Buckets p ! i)) = unat (next_block p) + bsize p i"
    using next_block_unat(2) [OF inv] pool_invD(1) [OF inv] i by (auto simp: wf_pool_def bsize_def unat_word_ariths)
  then have fits: "PoolMaxOffset p < next_block p + BlockSize (Buckets p ! i) \<longleftrightarrow> unat (PoolMaxOffset p) < unat (next_block p) + bsize p i"
    by (simp add: word_less_nat_alt)
  note ev = call [unfolded CFE_ES_GenPoolCreatePoolBlock_def prod.case GetBucketState_bid [OF i] option.case Let_def fits r c]
  show "unat (PoolMaxOffset p) < unat (next_block p) + bsize p i \<Longrightarrow> st = CFE_ES_ERR_MEM_BLOCK_SIZE" using ev by simp
  show "st \<noteq> CFE_SUCCESS \<Longrightarrow> p' = p \<and> view m' = view m \<and> out' = out"
    using ev retrieve [OF near r] commit [OF near _ c] r by (auto split: if_splits)
  assume "st = CFE_SUCCESS"
  then have ok: "unat (next_block p) + bsize p i \<le> unat (PoolMaxOffset p)" "s1 = CFE_SUCCESS" "s2 = CFE_SUCCESS" "m' = m2" "out' = next_block p"
    and p': "p' = upd_bucket i (\<lambda>b. b\<lparr>BucketAllocationCount := BucketAllocationCount b + 1\<rparr>)
        (p\<lparr>TailPosition := next_block p + BlockSize (Buckets p ! i)\<rparr>)\<lparr>PoolAllocationCount := PoolAllocationCount p + 1\<rparr>"
    using ev by (auto simp: upd_bucket_def split: if_splits)
  note cm = commit [OF near [OF ok(1)] r [unfolded ok(2)] c]
  have "view m2 ?a = ?bd" "\<And>b. apart ?a b \<Longrightarrow> view m2 b = view m b" using cm ok(3) by simp_all
  then have "pool_inv p' (view m2) k start (bs @ [(unat (next_block p), i)]) free"
    using sz by (intro create_inv [OF inv i ok(1) _ _ _ _ p']) simp_all
  then show "out' = next_block p \<and> pool_inv p' (view m') k start (bs @ [(unat out', i)]) free \<and>
      writes_desc (view m) out' sz (view m')"
    using ok cm by (simp add: writes_desc_def)
qed

end

end
