(* ===== verification/CFE_ES_Pool_Ops.thy ===== *)
theory CFE_ES_Pool_Ops
  imports CFE_ES_Pool_Inv
begin

unbundle bit_operations_syntax

text \<open>
  The pool as an abstract map from the offsets of the blocks in use to the sizes that were asked for, and what
  the operations do to it.
\<close>

section \<open>The abstract pool\<close>

definition granted :: "(u64 \<Rightarrow> CFE_ES_GenPoolBD) \<Rightarrow> (nat \<times> nat) list \<Rightarrow> (nat \<Rightarrow> nat list) \<Rightarrow> nat \<rightharpoonup> u64" where
  "granted d bs free off = (if off \<in> fst ` in_use bs free then Some (ActualSize (desc d off)) else None)"

lemma in_use_iff: "(off, i) \<in> in_use bs free \<longleftrightarrow> (off, i) \<in> set bs \<and> off \<notin> set (free i)"
  by (simp add: in_use_def)

text \<open>A block handed out: nothing else about the blocks in use changes.\<close>

lemma granted_more:
  assumes inv: "pool_inv p d k start bs free" "pool_inv p' d' k start bs' free'"
    and use: "in_use bs' free' = insert (off, i) (in_use bs free)" "(off, i) \<notin> in_use bs free"
    and w: "writes_desc d (of_nat off) sz d'"
  shows "granted d' bs' free' = (granted d bs free)(off \<mapsto> sz)"
proof
  fix x
  have off: "(off, i) \<in> set bs'" using use(1) by (metis in_use_iff insertI1)
  show "granted d' bs' free' x = ((granted d bs free)(off \<mapsto> sz)) x"
  proof (cases "x = off")
    case True
    then show ?thesis using use(1) w by (simp add: granted_def writes_desc_def desc_def)
  next
    case False
    have "desc d' x = desc d x" if x: "(x, j) \<in> in_use bs free" for j
    proof -
      have "(x, j) \<in> set bs'" using x use(1) by (metis in_use_iff insertI2)
      then have "apart (of_nat off - 24) (of_nat x - 24)" using descs_apart [OF inv(2) off] False by auto
      then show ?thesis using w by (simp add: writes_desc_def desc_def)
    qed
    then show ?thesis using False use(1) by (force simp: granted_def)
  qed
qed

lemma in_use_fst:
  assumes "pool_inv p d k start bs free" and "(off, i) \<in> set bs"
  shows "off \<in> fst ` in_use bs free \<longleftrightarrow> off \<notin> set (free i)"
proof
  assume "off \<in> fst ` in_use bs free"
  then obtain j where "(off, j) \<in> set bs" "off \<notin> set (free j)" by (auto simp: in_use_def)
  then show "off \<notin> set (free i)" using same_block [OF assms] by simp
qed (use assms(2) in \<open>force simp: in_use_def\<close>)

lemma in_use_pop:
  assumes "pool_inv p d k start bs free" "i < nbuckets p" "free i = off # offs"
  shows "in_use bs (free(i := offs)) = insert (off, i) (in_use bs free)" "(off, i) \<notin> in_use bs free"
proof -
  have b: "(off, i) \<in> set bs" "off \<notin> set offs" using pool_invD(5) [OF assms(1,2)] assms(3) by (auto simp: bucket_ok_def)
  have "(x, j) \<in> in_use bs (free(i := offs)) \<longleftrightarrow> (x, j) \<in> insert (off, i) (in_use bs free)" for x j
    using b assms(3) by (cases "j = i") (auto simp: in_use_iff)
  then show "in_use bs (free(i := offs)) = insert (off, i) (in_use bs free)" by auto
  show "(off, i) \<notin> in_use bs free" using assms(3) by (simp add: in_use_iff)
qed

lemma in_use_push:
  assumes "pool_inv p d k start bs free" "(off, i) \<in> in_use bs free"
  shows "in_use bs (free(i := off # free i)) = in_use bs free - {(off, i)}"
proof -
  have b: "(off, i) \<in> set bs" using assms(2) by (simp add: in_use_iff)
  have "(x, j) \<in> in_use bs (free(i := off # free i)) \<longleftrightarrow> (x, j) \<in> in_use bs free - {(off, i)}" for x j
    by (cases "j = i") (auto simp: in_use_iff)
  then show ?thesis by auto
qed

lemma in_use_snoc:
  assumes "pool_inv p d k start bs free" "i < nbuckets p"
  shows "in_use (bs @ [(unat (next_block p), i)]) free = insert (unat (next_block p), i) (in_use bs free)"
    "(unat (next_block p), i) \<notin> in_use bs free"
proof -
  have n: "(unat (next_block p), j) \<notin> set bs" for j
    using block_range(3) [OF assms(1), of "unat (next_block p)" j] next_block_unat(4) [OF assms(1)] by auto
  then have "unat (next_block p) \<notin> set (free i)" using pool_invD(5) [OF assms] by (auto simp: bucket_ok_def)
  then show "in_use (bs @ [(unat (next_block p), i)]) free = insert (unat (next_block p), i) (in_use bs free)"
    by (auto simp: in_use_def)
  show "(unat (next_block p), i) \<notin> in_use bs free" using n by (simp add: in_use_iff)
qed

section \<open>Getting a block\<close>

text \<open>The bucket a request belongs to.\<close>

definition fits :: "CFE_ES_GenPoolRecord \<Rightarrow> u64 \<Rightarrow> nat \<Rightarrow> bool" where
  "fits p r i \<longleftrightarrow> i < nbuckets p \<and> unat r \<le> bsize p i \<and> (\<forall>j < i. bsize p j < unat r)"

definition room :: "CFE_ES_GenPoolRecord \<Rightarrow> (nat \<Rightarrow> nat list) \<Rightarrow> nat \<Rightarrow> bool" where
  "room p free i \<longleftrightarrow> free i \<noteq> [] \<or> unat (next_block p) + bsize p i \<le> unat (PoolMaxOffset p)"

text \<open>A successful call hands out a block that was not in use.\<close>

definition hands_out :: "CFE_ES_GenPoolRecord \<Rightarrow> (u64 \<Rightarrow> CFE_ES_GenPoolBD) \<Rightarrow> (nat \<times> nat) list \<Rightarrow> (nat \<Rightarrow> nat list) \<Rightarrow> nat \<Rightarrow> nat \<Rightarrow>
    u64 \<Rightarrow> nat \<Rightarrow> u64 \<Rightarrow> CFE_ES_GenPoolRecord \<Rightarrow> (u64 \<Rightarrow> CFE_ES_GenPoolBD) \<Rightarrow> bool" where
  "hands_out p d bs free k start r i out p' d' \<longleftrightarrow>
     (\<exists>bs' free'. pool_inv p' d' k start bs' free' \<and> in_use bs' free' = insert (unat out, i) (in_use bs free) \<and>
        (unat out, i) \<notin> in_use bs free \<and> granted d' bs' free' = (granted d bs free)(unat out \<mapsto> r) \<and>
        set bs \<subseteq> set bs' \<and> TailPosition p \<le> TailPosition p')"

lemma hands_outI:
  assumes "pool_inv p d k start bs free" "pool_inv p' d' k start bs' free'"
    "in_use bs' free' = insert (unat out, i) (in_use bs free)" "(unat out, i) \<notin> in_use bs free" "writes_desc d out r d'"
    "set bs \<subseteq> set bs'" "TailPosition p \<le> TailPosition p'"
  shows "hands_out p d bs free k start r i out p' d'"
  unfolding hands_out_def using granted_more [OF assms(1-4), of r] assms by (intro exI [of _ bs'] exI [of _ free']) simp

context pool_storage
begin

lemma recycle_hands_out:
  assumes inv: "pool_inv p (view m) k start bs free" and f: "fits p r i"
    and call: "CFE_ES_GenPoolRecyclePoolBlock acc (bid p i) r out (p, m) = ((p', m'), CFE_SUCCESS, out')"
  shows "hands_out p (view m) bs free k start r i out' p' (view m') \<and> free i \<noteq> []"
proof -
  have n: "i < nbuckets p" "unat r \<le> bsize p i" using f by (simp_all add: fits_def)
  obtain off offs where o: "free i = off # offs" "out' = of_nat off" "pool_inv p' (view m') k start bs (free(i := offs))"
    "writes_desc (view m) out' r (view m')"
    using recycle_ok(1) [OF inv n call refl] by blast
  have "(off, i) \<in> set bs" using free_block(1) [OF inv n(1)] o(1) by simp
  then have "unat out' = off" using block_range(5) [OF inv] o(2) by simp
  moreover have "TailPosition p' = TailPosition p"
    using call by (auto simp: CFE_ES_GenPoolRecyclePoolBlock_def Let_def upd_bucket_def split_beta split: option.splits if_splits)
  ultimately show ?thesis using hands_outI [OF inv o(3) _ _ o(4), of i] in_use_pop [OF inv n(1) o(1)] o(1) by simp
qed

lemma create_hands_out:
  assumes inv: "pool_inv p (view m) k start bs free" and f: "fits p r i"
    and call: "CFE_ES_GenPoolCreatePoolBlock acc (bid p i) r out (p, m) = ((p', m'), CFE_SUCCESS, out')"
  shows "hands_out p (view m) bs free k start r i out' p' (view m') \<and> unat (next_block p) + bsize p i \<le> unat (PoolMaxOffset p)"
proof -
  have n: "i < nbuckets p" "unat r \<le> bsize p i" using f by (simp_all add: fits_def)
  have o: "out' = next_block p" "pool_inv p' (view m') k start (bs @ [(unat out', i)]) free" "writes_desc (view m) out' r (view m')"
    using create_ok(1) [OF inv n call refl] by blast+
  moreover have "unat (TailPosition p) \<le> unat (TailPosition p')"
    using block_range(3) [OF o(2), of "unat out'" i] next_block_unat(4) [OF inv] o(1) by simp
  then have "TailPosition p \<le> TailPosition p'" by (simp add: word_le_nat_alt)
  ultimately have "hands_out p (view m) bs free k start r i out' p' (view m')"
    using hands_outI [OF inv o(2) _ _ o(3), of i] in_use_snoc [OF inv n(1)] by auto
  moreover have "\<not> unat (PoolMaxOffset p) < unat (next_block p) + bsize p i" using create_ok(3) [OF inv n call] by auto
  ultimately show ?thesis by simp
qed

lemma get_block:
  assumes inv: "pool_inv p (view m) k start bs free" and call: "CFE_ES_GenPoolGetBlock acc out r (p, m) = ((p', m'), st, out')"
  shows "(st = CFE_SUCCESS \<longrightarrow> (\<exists>i. fits p r i \<and> room p free i \<and> hands_out p (view m) bs free k start r i out' p' (view m'))) \<and>
    (st \<noteq> CFE_SUCCESS \<longrightarrow> p' = p \<and> view m' = view m \<and> out' = out)"
proof (cases "CFE_ES_GenPoolFindBucket p r = 0")
  case True
  then show ?thesis using call by (simp add: CFE_ES_GenPoolGetBlock_def)
next
  case False
  have len: "nbuckets p \<le> length (Buckets p)" using pool_invD(8,9) [OF inv] by simp
  obtain i where f: "fits p r i" "CFE_ES_GenPoolFindBucket p r = bid p i"
    using FindBucket_spec [OF len, of r] False unfolding fits_def by blast
  have n: "i < nbuckets p" "unat r \<le> bsize p i" using f(1) by (simp_all add: fits_def)
  obtain p1 m1 s1 o1 where rc: "CFE_ES_GenPoolRecyclePoolBlock acc (bid p i) r out (p, m) = ((p1, m1), s1, o1)" by (metis prod.collapse)
  note r = recycle_ok(2) [OF inv n rc]
  show ?thesis
  proof (cases "s1 = CFE_SUCCESS")
    case True
    then have "p' = p1" "m' = m1" "st = CFE_SUCCESS" "out' = o1"
      using call f(2) bid_nonzero [OF n(1)] rc by (simp_all add: CFE_ES_GenPoolGetBlock_def)
    then show ?thesis using recycle_hands_out [OF inv f(1) rc [unfolded True]] f(1) by (auto simp: room_def)
  next
    case False
    then have v: "p1 = p" "view m1 = view m" "o1 = out" using r by simp_all
    then have cr: "CFE_ES_GenPoolCreatePoolBlock acc (bid p i) r out (p, m1) = ((p', m'), st, out')"
      using call f(2) bid_nonzero [OF n(1)] rc False by (simp add: CFE_ES_GenPoolGetBlock_def)
    have inv1: "pool_inv p (view m1) k start bs free" using inv v by simp
    show ?thesis
    proof (cases "st = CFE_SUCCESS")
      case True
      then show ?thesis using create_hands_out [OF inv1 f(1) cr [unfolded True]] f(1) v by (auto simp: room_def)
    qed (use create_ok(2) [OF inv1 n cr] v in simp)
  qed
qed

end

text \<open>Descriptors lie below the limit of the storage when the pool does.\<close>

lemma block_lim:
  assumes inv: "pool_inv p d k start bs free" and b: "(off, i) \<in> set bs" and lim: "unat (PoolMaxOffset p) \<le> lim"
  shows "unat (of_nat off - 24 :: u64) + 24 \<le> lim"
  using block_range(1,3,6) [OF inv b] pool_invD(3) [OF inv] lim by linarith

lemma next_lim:
  assumes inv: "pool_inv p d k start bs free" and "unat (next_block p) \<le> unat (PoolMaxOffset p)" and "unat (PoolMaxOffset p) \<le> lim"
  shows "unat (next_block p - 24) + 24 \<le> lim"
  using next_block_unat(3,4) [OF inv] assms(2,3) by linarith

lemma next_near:
  assumes inv: "pool_inv p d k start bs free" and "unat (next_block p) \<le> unat (PoolMaxOffset p)"
  shows "near (next_block p - 24)"
  using next_lim [OF inv assms(2) order_refl] pool_invD(6) [OF inv] by (simp add: near_def)

context reliable_storage
begin

lemma get_block_succeeds:
  assumes inv: "pool_inv p (view m) k start bs free" and lim: "unat (PoolMaxOffset p) \<le> lim" and f: "fits p r i" and room: "room p free i"
  shows "fst (snd (CFE_ES_GenPoolGetBlock acc out r (p, m))) = CFE_SUCCESS"
proof -
  have n: "i < nbuckets p" "unat r \<le> bsize p i" using f by (simp_all add: fits_def)
  have len: "nbuckets p \<le> length (Buckets p)" using pool_invD(8,9) [OF inv] by simp
  obtain j where j: "fits p r j" "CFE_ES_GenPoolFindBucket p r = bid p j"
    using FindBucket_spec [OF len, of r] n unfolding fits_def by (metis not_le)
  have ji: "j = i" using f j(1) unfolding fits_def by (metis linorder_neqE_nat not_le)
  obtain p1 m1 s1 o1 where rc: "CFE_ES_GenPoolRecyclePoolBlock acc (bid p i) r out (p, m) = ((p1, m1), s1, o1)" by (metis prod.collapse)
  have get: "CFE_ES_GenPoolGetBlock acc out r (p, m) =
      (if s1 \<noteq> CFE_SUCCESS then CFE_ES_GenPoolCreatePoolBlock acc (bid p i) r o1 (p1, m1) else ((p1, m1), s1, o1))"
    using j(2) ji bid_nonzero [OF n(1)] rc by (simp add: CFE_ES_GenPoolGetBlock_def)
  show ?thesis
  proof (cases "free i")
    case (Cons off offs)
    have b: "(off, i) \<in> set bs" using free_block(1) [OF inv n(1)] Cons by simp
    obtain m2 where m2: "Retrieve acc m (of_nat off - 24) = (m2, CFE_SUCCESS)"
      using retrieve_ok [OF block_lim [OF inv b lim], of m] by (metis prod.collapse)
    have "s1 = CFE_SUCCESS"
      using rc recycle_eval [OF inv n(1) Cons, of r out] m2 commit_ok [OF block_lim [OF inv b lim] m2]
      by (auto simp: Let_def split_beta split: if_splits)
    then show ?thesis by (simp add: get)
  next
    case Nil
    then have fit: "unat (next_block p) + bsize p i \<le> unat (PoolMaxOffset p)" using room by (simp add: room_def)
    then have nl: "unat (next_block p - 24) + 24 \<le> lim" using next_lim [OF inv _ lim] by simp
    obtain m2 where m2: "Retrieve acc m (next_block p - 24) = (m2, CFE_SUCCESS)"
      using retrieve_ok [OF nl, of m] by (metis prod.collapse)
    note fit
    moreover have "unat (next_block p + BlockSize (Buckets p ! i)) = unat (next_block p) + bsize p i"
      using next_block_unat(2) [OF inv] pool_invD(1) [OF inv] n(1) by (auto simp: wf_pool_def bsize_def unat_word_ariths)
    ultimately have "\<not> PoolMaxOffset p < next_block p + BlockSize (Buckets p ! i)" by (simp add: word_less_nat_alt)
    moreover have "s1 \<noteq> CFE_SUCCESS" "p1 = p" "m1 = m"
      using rc recycle_guard [OF inv n(1)] n(1) Nil by (auto simp: CFE_ES_GenPoolRecyclePoolBlock_def)
    ultimately show ?thesis
      using m2 commit_ok [OF nl m2] n(1)
      by (simp add: get CFE_ES_GenPoolCreatePoolBlock_def Let_def split_beta)
  qed
qed

end

section \<open>Returning a block\<close>

text \<open>A block returned: nothing else about the blocks in use changes.\<close>

lemma granted_less:
  assumes inv: "pool_inv p d k start bs free"
    and use: "(off, i) \<in> in_use bs free" "in_use bs free' = in_use bs free - {(off, i)}"
    and d': "\<And>b. apart (of_nat off - 24) b \<Longrightarrow> d' b = d b"
  shows "granted d' bs free' = (granted d bs free)(off := None)"
proof
  fix x
  have b: "(off, i) \<in> set bs" using use(1) by (simp add: in_use_iff)
  show "granted d' bs free' x = ((granted d bs free)(off := None)) x"
  proof (cases "x = off")
    case True
    have "(off, j) \<notin> in_use bs free'" for j
    proof (cases "j = i")
      case False
      then have "(off, j) \<notin> set bs" using same_block [OF inv b, of j] by blast
      then show ?thesis by (simp add: in_use_iff)
    qed (use use(2) in simp)
    then show ?thesis using True by (auto simp: granted_def)
  next
    case False
    have "desc d' x = desc d x" if x: "(x, j) \<in> in_use bs free" for j
      by (rule desc_other [OF inv b _ False d']) (use x in \<open>auto simp: in_use_iff\<close>)
    then show ?thesis using False use(2) by (force simp: granted_def)
  qed
qed

context pool_storage
begin

lemma put_block:
  assumes inv: "pool_inv p (view m) k start bs free" and use: "(off, i) \<in> in_use bs free"
    and size: "ActualSize (desc (view m) off) \<noteq> 0"
    and call: "CFE_ES_GenPoolPutBlock acc out (of_nat off) (p, m) = ((p', m'), st, out')"
  shows "(st = CFE_SUCCESS \<longrightarrow> out' = ActualSize (desc (view m) off) \<and>
      pool_inv p' (view m') k start bs (free(i := off # free i)) \<and>
      granted (view m') bs (free(i := off # free i)) = (granted (view m) bs free)(off := None)) \<and>
    (st \<noteq> CFE_SUCCESS \<longrightarrow> p' = p \<and> view m' = view m)"
proof -
  let ?a = "of_nat off - 24 :: u64"
  have b: "(off, i) \<in> set bs" "off \<notin> set (free i)" using use by (simp_all add: in_use_iff)
  note bl = pool_invD(4) [OF inv b(1), unfolded block_ok_def]
  note rg = block_range [OF inv b(1)] and near = block_near [OF inv b(1)]
  have range: "\<not> (TailPosition p \<le> of_nat off \<or> (of_nat off :: u64) < 24)"
    using rg by (simp add: word_le_nat_alt word_less_nat_alt)
  have id: "Allocated (desc (view m) off) - CFE_ES_MEMORY_ALLOCATED = bid p i" using bl b(2) by simp
  have good: "\<not> bad_block p (desc (view m) off) (Some i)"
    using bl size by (simp add: bad_block_def word_less_nat_alt bsize_def)
  let ?bd = "(desc (view m) off)\<lparr>Allocated := CFE_ES_MEMORY_DEALLOCATED + bid p i, NextOffset := FirstOffset (Buckets p ! i)\<rparr>"
  obtain m1 s1 where r: "Retrieve acc m ?a = (m1, s1)" by fastforce
  obtain m2 s2 where c: "Commit acc (SetBd acc m1 ?a ?bd) ?a = (m2, s2)" by fastforce
  show ?thesis
  proof (cases "s1 = CFE_SUCCESS")
    case False
    then show ?thesis using call range r retrieve [OF near r] by (simp add: CFE_ES_GenPoolPutBlock_def)
  next
    case True
    have "BdOf acc m1 ?a = desc (view m) off" using retrieve [OF near r] True by (simp add: desc_def)
    then have res: "m' = m2" "st = s2" "out' = ActualSize (desc (view m) off)"
      "p' = (if s2 = CFE_SUCCESS then upd_bucket i (\<lambda>b. b\<lparr>FirstOffset := of_nat off, ReleaseCount := ReleaseCount b + 1\<rparr>) p else p)"
      using call range r True id good c bl by (auto simp: CFE_ES_GenPoolPutBlock_def Let_def)
    note cm = commit [OF near r [unfolded True] c]
    show ?thesis
    proof (cases "s2 = CFE_SUCCESS")
      case True
      then have w: "view m2 ?a = ?bd" "\<And>b. apart ?a b \<Longrightarrow> view m2 b = view m b" using cm by simp_all
      have "granted (view m2) bs (free(i := off # free i)) = (granted (view m) bs free)(off := None)"
        by (rule granted_less [OF inv use in_use_push [OF inv use] w(2)])
      then show ?thesis using put_inv [OF inv b w] res True by simp
    qed (use cm res in simp)
  qed
qed

text \<open>A block that is free already, or was handed out with size zero, is refused.\<close>

lemma put_refused:
  assumes inv: "pool_inv p (view m) k start bs free" and b: "(off, i) \<in> set bs" "off \<in> set (free i) \<or> ActualSize (desc (view m) off) = 0"
    and call: "CFE_ES_GenPoolPutBlock acc out (of_nat off) (p, m) = ((p', m'), st, out')"
  shows "st \<noteq> CFE_SUCCESS \<and> view m' = view m \<and> out' = out \<and> (p' = p \<or> st = CFE_ES_POOL_BLOCK_INVALID \<and> p' = p\<lparr>ValidationErrorCount := ValidationErrorCount p + 1\<rparr>)"
proof -
  let ?a = "of_nat off - 24 :: u64"
  note bl = pool_invD(4) [OF inv b(1), unfolded block_ok_def]
  note rg = block_range [OF inv b(1)] and near = block_near [OF inv b(1)]
  have range: "\<not> (TailPosition p \<le> of_nat off \<or> (of_nat off :: u64) < 24)"
    using rg by (simp add: word_le_nat_alt word_less_nat_alt)
  have bad: "bad_block p (desc (view m) off) (CFE_ES_GenPoolGetBucketState p (Allocated (desc (view m) off) - CFE_ES_MEMORY_ALLOCATED))"
    using b(2) bl marks_apart(2) [OF pool_invD(8) [OF inv], of i] by (auto simp: bad_block_def)
  obtain m1 s1 where r: "Retrieve acc m ?a = (m1, s1)" by fastforce
  have "s1 = CFE_SUCCESS \<Longrightarrow> BdOf acc m1 ?a = desc (view m) off" using retrieve [OF near r] by (simp add: desc_def)
  then show ?thesis
    using call range r retrieve [OF near r] bad by (cases "s1 = CFE_SUCCESS") (auto simp: CFE_ES_GenPoolPutBlock_def Let_def)
qed

text \<open>A request that no bucket fits, or that there is no room for, changes nothing.\<close>

lemma get_block_refused:
  assumes inv: "pool_inv p (view m) k start bs free" and no: "\<And>i. fits p r i \<Longrightarrow> \<not> room p free i"
  shows "CFE_ES_GenPoolGetBlock acc out r (p, m) = ((p, m), CFE_ES_ERR_MEM_BLOCK_SIZE, out)"
proof (cases "CFE_ES_GenPoolFindBucket p r = 0")
  case True
  then show ?thesis by (simp add: CFE_ES_GenPoolGetBlock_def)
next
  case False
  have len: "nbuckets p \<le> length (Buckets p)" using pool_invD(8,9) [OF inv] by simp
  obtain i where f: "fits p r i" "CFE_ES_GenPoolFindBucket p r = bid p i"
    using FindBucket_spec [OF len, of r] False unfolding fits_def by blast
  then have n: "i < nbuckets p" "free i = []" "unat (PoolMaxOffset p) < unat (next_block p) + bsize p i"
    using no [of i] by (auto simp: fits_def room_def)
  have "unat (next_block p + BlockSize (Buckets p ! i)) = unat (next_block p) + bsize p i"
    using next_block_unat(2) [OF inv] pool_invD(1) [OF inv] n(1) by (auto simp: wf_pool_def bsize_def unat_word_ariths)
  then have "PoolMaxOffset p < next_block p + BlockSize (Buckets p ! i)" using n(3) by (simp add: word_less_nat_alt)
  then show ?thesis
    using f(2) recycle_guard [OF inv n(1)] n bid_nonzero [OF n(1)]
    by (simp add: CFE_ES_GenPoolGetBlock_def CFE_ES_GenPoolRecyclePoolBlock_def CFE_ES_GenPoolCreatePoolBlock_def Let_def)
qed

end

context reliable_storage
begin

text \<open>The checks of a block in use succeed, those of a free block fail.\<close>

lemma block_checks:
  assumes inv: "pool_inv p (view m) k start bs free" and b: "(off, i) \<in> set bs"
  shows "\<not> (TailPosition p \<le> of_nat off \<or> (of_nat off :: u64) < 24)"
    and "off \<notin> set (free i) \<Longrightarrow> ActualSize (desc (view m) off) \<noteq> 0 \<Longrightarrow>
      CFE_ES_GenPoolGetBucketState p (Allocated (desc (view m) off) - CFE_ES_MEMORY_ALLOCATED) = Some i \<and> \<not> bad_block p (desc (view m) off) (Some i)"
    and "off \<in> set (free i) \<or> ActualSize (desc (view m) off) = 0 \<Longrightarrow>
      bad_block p (desc (view m) off) (CFE_ES_GenPoolGetBucketState p (Allocated (desc (view m) off) - CFE_ES_MEMORY_ALLOCATED))"
proof -
  note bl = pool_invD(4) [OF inv b, unfolded block_ok_def] and rg = block_range [OF inv b]
  show "\<not> (TailPosition p \<le> of_nat off \<or> (of_nat off :: u64) < 24)" using rg by (simp add: word_le_nat_alt word_less_nat_alt)
  show "off \<notin> set (free i) \<Longrightarrow> ActualSize (desc (view m) off) \<noteq> 0 \<Longrightarrow>
      CFE_ES_GenPoolGetBucketState p (Allocated (desc (view m) off) - CFE_ES_MEMORY_ALLOCATED) = Some i \<and> \<not> bad_block p (desc (view m) off) (Some i)"
    using bl by (simp add: bad_block_def word_less_nat_alt bsize_def)
  show "off \<in> set (free i) \<or> ActualSize (desc (view m) off) = 0 \<Longrightarrow>
      bad_block p (desc (view m) off) (CFE_ES_GenPoolGetBucketState p (Allocated (desc (view m) off) - CFE_ES_MEMORY_ALLOCATED))"
    using bl marks_apart(2) [OF pool_invD(8) [OF inv], of i] by (auto simp: bad_block_def)
qed

lemma retrieve_desc:
  assumes "pool_inv p (view m) k start bs free" "(off, i) \<in> set bs" "unat (PoolMaxOffset p) \<le> lim"
  shows "\<exists>m1. Retrieve acc m (of_nat off - 24) = (m1, CFE_SUCCESS) \<and> view m1 = view m \<and> BdOf acc m1 (of_nat off - 24) = desc (view m) off"
  using retrieve [OF block_near [OF assms(1,2)], of m] retrieve_ok [OF block_lim [OF assms], of m] by (metis desc_def prod.collapse)

lemma put_block_succeeds:
  assumes inv: "pool_inv p (view m) k start bs free" and lim: "unat (PoolMaxOffset p) \<le> lim" and use: "(off, i) \<in> in_use bs free" and size: "ActualSize (desc (view m) off) \<noteq> 0"
  shows "fst (snd (CFE_ES_GenPoolPutBlock acc out (of_nat off) (p, m))) = CFE_SUCCESS"
proof -
  have b: "(off, i) \<in> set bs" "off \<notin> set (free i)" using use by (simp_all add: in_use_iff)
  obtain m1 where r: "Retrieve acc m (of_nat off - 24) = (m1, CFE_SUCCESS)" "BdOf acc m1 (of_nat off - 24) = desc (view m) off"
    using retrieve_desc [OF inv b(1) lim] by blast
  show ?thesis
    using block_checks(1,2) [OF inv b(1)] b(2) size r commit_ok [OF block_lim [OF inv b(1) lim] r(1)]
    by (simp add: CFE_ES_GenPoolPutBlock_def Let_def split_beta)
qed

lemma put_block_fails:
  assumes inv: "pool_inv p (view m) k start bs free" and lim: "unat (PoolMaxOffset p) \<le> lim" and b: "(off, i) \<in> set bs" "off \<in> set (free i) \<or> ActualSize (desc (view m) off) = 0"
  shows "\<exists>m1. CFE_ES_GenPoolPutBlock acc out (of_nat off) (p, m) =
    ((p\<lparr>ValidationErrorCount := ValidationErrorCount p + 1\<rparr>, m1), CFE_ES_POOL_BLOCK_INVALID, out) \<and> view m1 = view m"
proof -
  obtain m1 where r: "Retrieve acc m (of_nat off - 24) = (m1, CFE_SUCCESS)" "view m1 = view m" "BdOf acc m1 (of_nat off - 24) = desc (view m) off"
    using retrieve_desc [OF inv b(1) lim] by blast
  show ?thesis
    using block_checks(1,3) [OF inv b(1)] b(2) r by (simp add: CFE_ES_GenPoolPutBlock_def Let_def)
qed

lemma block_size:
  assumes inv: "pool_inv p (view m) k start bs free" and lim: "unat (PoolMaxOffset p) \<le> lim" and use: "(off, i) \<in> in_use bs free" and size: "ActualSize (desc (view m) off) \<noteq> 0"
  shows "\<exists>m1. CFE_ES_GenPoolGetBlockSize acc out (of_nat off) (p, m) = ((p, m1), CFE_SUCCESS, ActualSize (desc (view m) off)) \<and> view m1 = view m"
proof -
  have b: "(off, i) \<in> set bs" "off \<notin> set (free i)" using use by (simp_all add: in_use_iff)
  obtain m1 where r: "Retrieve acc m (of_nat off - 24) = (m1, CFE_SUCCESS)" "view m1 = view m" "BdOf acc m1 (of_nat off - 24) = desc (view m) off"
    using retrieve_desc [OF inv b(1) lim] by blast
  show ?thesis
    using block_checks(1,2) [OF inv b(1)] b(2) size r by (simp add: CFE_ES_GenPoolGetBlockSize_def Let_def)
qed

end

text \<open>The count of failed checks is not part of the invariant.\<close>

lemma pool_inv_errors:
  "pool_inv (p\<lparr>ValidationErrorCount := n\<rparr>) d k start bs free = pool_inv p d k start bs free"
  by (simp add: pool_inv_def wf_pool_def block_ok_def bucket_ok_def bsize_def [abs_def] nbuckets_def bid_def)

end
