(* ===== verification/CFE_ES_Pool_Init.thy ===== *)
theory CFE_ES_Pool_Init
  imports CFE_ES_Pool_Ops
begin

unbundle bit_operations_syntax

text \<open>
  A new pool: the sort of the block sizes, the initial state and the recovery of a pool
  from its storage.
\<close>

section \<open>The sort\<close>

lemma bubble_pass_mset: "mset (fst (bubble_pass xs)) = mset xs"
proof (induction xs rule: bubble_pass.induct)
  case (1 a b xs)
  show ?case
  proof (cases "a > b")
    case True
    then show ?thesis using 1(1) [OF True refl refl refl] by (simp add: bubble_pass_swap xor_swap del: bubble_pass.simps(1))
  next
    case False
    then show ?thesis using 1(2) [OF False] by (simp add: bubble_pass_swap del: bubble_pass.simps(1))
  qed
qed simp_all

lemma bubble_pass_done: "snd (bubble_pass xs) = 0 \<Longrightarrow> sorted xs \<and> fst (bubble_pass xs) = xs"
proof (induction xs rule: bubble_pass.induct)
  case (1 a b xs)
  then have le: "\<not> a > b" by (auto simp: bubble_pass_swap simp del: bubble_pass.simps(1))
  then show ?case using 1(2) [OF le] 1(3) by (auto simp: bubble_pass_swap simp del: bubble_pass.simps(1))
qed simp_all

lemma bubble_sort_correct: "sorted (bubble_sort xs) \<and> mset (bubble_sort xs) = mset xs"
proof (induction xs rule: bubble_sort.induct)
  case (1 xs)
  obtain ys j where p: "bubble_pass xs = (ys, j)" by fastforce
  have m: "mset ys = mset xs" using bubble_pass_mset [of xs] p by simp
  show ?case
  proof (cases "j > 0")
    case True
    then show ?thesis using 1 [OF p [symmetric] refl True] m p by (simp add: bubble_sort.simps [of xs])
  next
    case False
    then show ?thesis using bubble_pass_done [of xs] m p by (simp add: bubble_sort.simps [of xs])
  qed
qed

lemma bubble_sort_set: "set (bubble_sort xs) = set xs" "length (bubble_sort xs) = length xs"
  using bubble_sort_correct [of xs] by (metis set_mset_mset, metis size_mset)

section \<open>Initialization\<close>

text \<open>What \<open>CFE_ES_PoolCreateEx\<close> and the critical data store guarantee about the arguments.\<close>

definition init_args :: "u64 \<Rightarrow> u64 \<Rightarrow> nat \<Rightarrow> u16 \<Rightarrow> u64 list \<Rightarrow> bool" where
  "init_args StartOffset PoolSize k n sizes \<longleftrightarrow>
     unat StartOffset + unat PoolSize < 2 ^ 32 \<and> k \<le> 16 \<and> 0 < n \<and> n \<le> 17 \<and> unat n \<le> length sizes \<and>
     (\<forall>s \<in> set (take (unat n) sizes). 0 < s \<and> unat s < 2 ^ 32)"

lemma initialize_inv:
  assumes args: "init_args StartOffset PoolSize k n sizes"
    and call: "CFE_ES_GenPoolInitialize StartOffset PoolSize (2 ^ k) n sizes = (p, st)"
  shows "st = CFE_SUCCESS" and "pool_inv p d k (unat StartOffset) [] (\<lambda>_. [])"
    and "unat (PoolMaxOffset p) = unat StartOffset + unat PoolSize"
    and "nbuckets p = unat n" and "\<And>i j. i \<le> j \<Longrightarrow> j < nbuckets p \<Longrightarrow> bsize p i \<le> bsize p j"
    and "image_mset unat (mset (take (unat n) sizes)) = mset (map (bsize p) [0 ..< nbuckets p])"
proof -
  let ?xs = "bubble_sort (take (unat n) sizes)"
  let ?bk = "map (\<lambda>s. zero_Bucket\<lparr>BlockSize := s\<rparr>) ?xs @ replicate (17 - unat n) zero_Bucket"
  have n: "0 < unat n" "unat n \<le> 17" using args by (auto simp: init_args_def word_le_nat_alt word_less_nat_alt)
  have len: "length ?xs = unat n" using args by (simp add: bubble_sort_set init_args_def)
  have p: "p = \<lparr>PoolTotalSize = PoolSize, PoolMaxOffset = PoolSize + StartOffset, AlignMask = mask k,
      TailPosition = StartOffset, PoolAllocationCount = 0, ValidationErrorCount = 0, NumBuckets = n, Buckets = ?bk\<rparr>"
    and st: "st = (if BlockSize (?bk ! 0) = 0 then CFE_ES_ERR_MEM_BLOCK_SIZE else CFE_SUCCESS)"
    using call align_mask_power [of k] args by (auto simp: CFE_ES_GenPoolInitialize_def Let_def init_args_def)
  show nb: "nbuckets p = unat n" by (simp add: p nbuckets_def)
  have at: "Buckets p ! i = zero_Bucket\<lparr>BlockSize := ?xs ! i\<rparr>" if "i < unat n" for i
    using that len by (simp add: p nth_append)
  have sz: "0 < ?xs ! i \<and> unat (?xs ! i) < 2 ^ 32" if "i < unat n" for i
    using that len args bubble_sort_set(1) [of "take (unat n) sizes"] nth_mem [of i ?xs] unfolding init_args_def by (metis)
  have "BlockSize (?bk ! 0) = ?xs ! 0" using at [of 0] n(1) by (simp add: p)
  then show "st = CFE_SUCCESS" using st sz [of 0] n(1) by (auto simp: word_gt_0)
  have bs: "bsize p i = unat (?xs ! i)" if "i < unat n" for i using at [OF that] by (simp add: bsize_def)
  show mx: "unat (PoolMaxOffset p) = unat StartOffset + unat PoolSize"
    using args by (simp add: p unat_word_ariths init_args_def)
  have "wf_pool p k"
    unfolding wf_pool_def nb using n args sz bs mx len
    by (auto simp: init_args_def p word_less_nat_alt)
  moreover have "bucket_ok p d [] [] i" if "i < nbuckets p" for i
    using at [of i] that by (simp add: nb bucket_ok_def zero_Bucket_def)
  moreover have "TailPosition p \<le> PoolMaxOffset p" using mx by (simp add: word_le_nat_alt) (simp add: p)
  ultimately show "pool_inv p d k (unat StartOffset) [] (\<lambda>_. [])" by (simp add: pool_inv_def) (simp add: p)
  show "bsize p i \<le> bsize p j" if "i \<le> j" "j < nbuckets p" for i j
    using that bubble_sort_correct [of "take (unat n) sizes"] len by (simp add: nb bs word_le_nat_alt [symmetric] sorted_nth_mono)
  have "map (bsize p) [0 ..< nbuckets p] = map unat ?xs" by (rule nth_equalityI) (simp_all add: nb len bs)
  then show "image_mset unat (mset (take (unat n) sizes)) = mset (map (bsize p) [0 ..< nbuckets p])"
    using bubble_sort_correct [of "take (unat n) sizes"] by simp
qed

section \<open>Recovery\<close>

text \<open>The loop leaves the pool when the next place for a block holds no descriptor of a block.\<close>

definition scan_ends :: "CFE_ES_GenPoolRecord \<Rightarrow> (u64 \<Rightarrow> CFE_ES_GenPoolBD) \<Rightarrow> bool" where
  "scan_ends p d \<longleftrightarrow>
     PoolMaxOffset p < next_block p \<or>
     (case fst (scan_bucket p (d (next_block p - 24))) of
        None \<Rightarrow> True
      | Some i \<Rightarrow> BlockSize (Buckets p ! i) < ActualSize (d (next_block p - 24)))"

lemma scan_bucket_block:
  assumes n: "nbuckets p \<le> 17" and b: "block_ok p d free off i"
  shows "scan_bucket p (desc d off) = (Some i, off \<in> set (free i))"
  using b marks_apart(1) [OF n, of i] by (auto simp: block_ok_def scan_bucket_def)

text \<open>
  The blocks still to be found, in a row from the tail: descriptors in place, \<open>F\<close> the free
  ones.
\<close>

definition pending :: "CFE_ES_GenPoolRecord \<Rightarrow> (u64 \<Rightarrow> CFE_ES_GenPoolBD) \<Rightarrow> nat \<Rightarrow> (nat \<times> nat) list \<Rightarrow> nat set \<Rightarrow> nat \<Rightarrow> bool" where
  "pending p d k cs F t' \<longleftrightarrow>
     laid (bsize p) (2 ^ k) (unat (TailPosition p)) cs t' \<and> t' \<le> unat (PoolMaxOffset p) \<and>
     (\<forall>(off, i) \<in> set cs. i < nbuckets p \<and> CheckBits (desc d off) = CFE_ES_CHECK_PATTERN \<and> unat (ActualSize (desc d off)) \<le> bsize p i \<and>
        Allocated (desc d off) = (if off \<in> F then CFE_ES_MEMORY_DEALLOCATED else CFE_ES_MEMORY_ALLOCATED) + bid p i)"

text \<open>The record after a block has been found.\<close>

definition found :: "nat \<Rightarrow> CFE_ES_GenPoolRecord \<Rightarrow> CFE_ES_GenPoolRecord" where
  "found i p = upd_bucket i (\<lambda>b. b\<lparr>BucketAllocationCount := BucketAllocationCount b + 1\<rparr>)
     (p\<lparr>TailPosition := next_block p + BlockSize (Buckets p ! i)\<rparr>)\<lparr>PoolAllocationCount := PoolAllocationCount p + 1\<rparr>"

lemma pending_head:
  assumes inv: "pool_inv p d k start bs free" and pd: "pending p d k ((off, i) # cs) F t'"
  shows "off = unat (next_block p)" "desc d off = d (next_block p - 24)" "i < nbuckets p" "off + bsize p i \<le> unat (PoolMaxOffset p)"
    "CheckBits (desc d off) = CFE_ES_CHECK_PATTERN" "unat (ActualSize (desc d off)) \<le> bsize p i"
    "Allocated (desc d off) = (if off \<in> F then CFE_ES_MEMORY_DEALLOCATED else CFE_ES_MEMORY_ALLOCATED) + bid p i"
proof -
  show off: "off = unat (next_block p)" using pd next_block_unat(1) [OF inv] by (simp add: pending_def)
  then show "desc d off = d (next_block p - 24)" by (simp add: desc_def)
  have "laid (bsize p) (2 ^ k) (off + bsize p i) cs t'" "t' \<le> unat (PoolMaxOffset p)" using pd by (auto simp: pending_def)
  then show "off + bsize p i \<le> unat (PoolMaxOffset p)" using laid_bounds(1) [of "bsize p" "2 ^ k" "off + bsize p i" cs t'] by simp
  show "i < nbuckets p" "CheckBits (desc d off) = CFE_ES_CHECK_PATTERN" "unat (ActualSize (desc d off)) \<le> bsize p i"
    "Allocated (desc d off) = (if off \<in> F then CFE_ES_MEMORY_DEALLOCATED else CFE_ES_MEMORY_ALLOCATED) + bid p i"
    using pd unfolding pending_def by (auto simp only: list.set insert_iff Ball_def case_prod_conv)
qed

lemma found_used:
  assumes inv: "pool_inv p d k start bs free" and pd: "pending p d k ((off, i) # cs) F t'" and u: "off \<notin> F"
  shows "pool_inv (found i p) d k start (bs @ [(off, i)]) free"
proof -
  note h = pending_head [OF inv pd]
  have "pool_inv (found i p) d k start (bs @ [(unat (next_block p), i)]) free"
    by (rule create_inv [OF inv h(3)]) (use h u in \<open>simp_all add: found_def\<close>)
  then show ?thesis using h(1) by simp
qed

text \<open>A free block is found as if it were in use and then returned.\<close>

lemma found_free:
  assumes inv: "pool_inv p d k start bs free" and pd: "pending p d k ((off, i) # cs) F t'" and u: "off \<in> F"
    and d': "d' (next_block p - 24) = (desc d off)\<lparr>NextOffset := FirstOffset (Buckets p ! i)\<rparr>"
      "\<And>b. apart (next_block p - 24) b \<Longrightarrow> d' b = d b"
  shows "pool_inv (upd_bucket i (\<lambda>b. b\<lparr>FirstOffset := next_block p, ReleaseCount := ReleaseCount b + 1\<rparr>) (found i p)) d' k start
    (bs @ [(off, i)]) (free(i := off # free i))"
proof -
  let ?a = "next_block p - 24"
  let ?d1 = "d(?a := (d ?a)\<lparr>Allocated := CFE_ES_MEMORY_ALLOCATED + bid p i\<rparr>)"
  note h = pending_head [OF inv pd]
  have len: "i < length (Buckets p)" using h(3) pool_invD(8,9) [OF inv] by simp
  have ap: "\<not> apart ?a ?a" by (simp add: apart_def)
  have "pool_inv (found i p) ?d1 k start (bs @ [(unat (next_block p), i)]) free"
    by (rule create_inv [OF inv h(3)]) (use h u ap in \<open>auto simp: found_def\<close>)
  then have inv1: "pool_inv (found i p) ?d1 k start (bs @ [(off, i)]) free" using h(1) by simp
  have fo: "FirstOffset (Buckets (found i p) ! i) = FirstOffset (Buckets p ! i)" "bid (found i p) = bid p"
    using len by (simp_all add: found_def upd_bucket_def bid_def fun_eq_iff)
  have "off \<notin> set (free i)" using in_use_snoc [OF inv h(3)] h(1) by (metis in_use_iff insertI1)
  moreover have "d' ?a = (desc ?d1 off)\<lparr>Allocated := CFE_ES_MEMORY_DEALLOCATED + bid (found i p) i, NextOffset := FirstOffset (Buckets (found i p) ! i)\<rparr>"
  proof -
    have "Allocated (d ?a) = CFE_ES_MEMORY_DEALLOCATED + bid p i" using h u by simp
    then have "d ?a = (d ?a)\<lparr>Allocated := CFE_ES_MEMORY_DEALLOCATED + bid p i\<rparr>" by simp
    then show ?thesis using d'(1) h(2) by (simp add: desc_def h(1) fo)
  qed
  moreover have "d' b = ?d1 b" if "apart ?a b" for b using d'(2) [OF that] ap that by auto
  ultimately show ?thesis using put_inv [OF inv1, of off i d'] by (simp add: h(1))
qed

lemma found_fields:
  assumes "i < length (Buckets p)"
  shows "bsize (found i p) = bsize p" "nbuckets (found i p) = nbuckets p" "bid (found i p) = bid p"
    "PoolMaxOffset (found i p) = PoolMaxOffset p" "TailPosition (found i p) = next_block p + BlockSize (Buckets p ! i)"
    "length (Buckets (found i p)) = length (Buckets p)"
  using assms by (auto simp: found_def upd_bucket_def bsize_def nbuckets_def bid_def fun_eq_iff nth_list_update)

text \<open>The rest stays pending after a block has been found, whatever is written in front of that block.\<close>

lemma pending_tl:
  assumes inv: "pool_inv p d k start bs free" and pd: "pending p d k ((off, i) # cs) F t'"
    and p': "bsize p' = bsize p" "nbuckets p' = nbuckets p" "bid p' = bid p" "PoolMaxOffset p' = PoolMaxOffset p"
      "TailPosition p' = next_block p + BlockSize (Buckets p ! i)"
    and d': "\<And>b. apart (next_block p - 24) b \<Longrightarrow> d' b = d b"
  shows "pending p' d' k cs F t'"
proof -
  note h = pending_head [OF inv pd]
  have lt: "off + bsize p i < 2 ^ 32" using h(4) pool_invD(6) [OF inv] by simp
  then have t: "unat (TailPosition p') = off + bsize p i"
    unfolding p'(5) using h(1) by (simp add: unat_word_ariths bsize_def)
  have l: "laid (bsize p) (2 ^ k) (off + bsize p i) cs t'" and mx: "t' \<le> unat (PoolMaxOffset p)" using pd by (auto simp: pending_def)
  have "desc d' x = desc d x" if x: "(x, j) \<in> set cs" for x j
  proof -
    have b: "off + bsize p i + 24 \<le> x" "x \<le> t'" using laid_bounds(2) [OF l _ x] by simp_all
    then have "x < 2 ^ 32" using mx pool_invD(6) [OF inv] by linarith
    then have u: "unat (of_nat x :: u64) = x" by (simp add: unat_of_nat)
    have "(24 :: u64) \<le> of_nat x" using b(1) u by (simp add: word_le_nat_alt)
    then have "unat (of_nat x - 24 :: u64) = x - 24" using u by (simp add: unat_sub)
    then have "apart (next_block p - 24) (of_nat x - 24)"
      using b(1) h(1) next_block_unat(2-4) [OF inv] \<open>x < 2 ^ 32\<close> by (intro apartI) auto
    then show ?thesis unfolding desc_def by (rule d')
  qed
  moreover have "\<forall>(x, j) \<in> set cs. j < nbuckets p \<and> CheckBits (desc d x) = CFE_ES_CHECK_PATTERN \<and> unat (ActualSize (desc d x)) \<le> bsize p j \<and>
      Allocated (desc d x) = (if x \<in> F then CFE_ES_MEMORY_DEALLOCATED else CFE_ES_MEMORY_ALLOCATED) + bid p j"
    using pd by (simp add: pending_def)
  ultimately show ?thesis using l mx unfolding pending_def p'(1-4) t by fastforce
qed

text \<open>What the operations never change, and what the end of the scan depends on.\<close>

definition shape :: "CFE_ES_GenPoolRecord \<Rightarrow> u16 \<times> u64 \<times> u64 \<times> u64 list" where
  "shape p = (NumBuckets p, AlignMask p, PoolMaxOffset p, map BlockSize (Buckets p))"

lemma shape_bsize:
  assumes "shape p' = shape p" and "i < length (Buckets p)"
  shows "BlockSize (Buckets p' ! i) = BlockSize (Buckets p ! i)"
proof -
  have m: "map BlockSize (Buckets p') = map BlockSize (Buckets p)" using assms(1) by (simp add: shape_def)
  then have "length (Buckets p') = length (Buckets p)" by (metis length_map)
  then show ?thesis using assms(2) m by (metis nth_map)
qed

lemma shape_upd: "(\<And>b. BlockSize (f b) = BlockSize b) \<Longrightarrow> shape (upd_bucket i f p) = shape p"
  by (simp add: shape_def upd_bucket_def map_update list_update_same_conv) (metis length_map list_update_beyond list_update_id map_update not_le nth_map)

lemma shape_found: "shape (found i p) = shape p"
  using shape_upd [of "\<lambda>b. b\<lparr>BucketAllocationCount := BucketAllocationCount b + 1\<rparr>" i "p\<lparr>TailPosition := next_block p + BlockSize (Buckets p ! i)\<rparr>"]
  by (simp add: found_def shape_def)

lemma scan_ends_shape:
  assumes sh: "shape p = shape q" and t: "TailPosition q = TailPosition p" and d: "d (next_block q - 24) = d0 (next_block q - 24)"
    and len: "nbuckets q \<le> length (Buckets q)"
  shows "scan_ends p d = scan_ends q d0"
proof -
  have f: "NumBuckets p = NumBuckets q" "AlignMask p = AlignMask q" "PoolMaxOffset p = PoolMaxOffset q" using sh by (simp_all add: shape_def)
  have nb: "next_block p = next_block q" by (simp add: next_block_def f t)
  have gs: "CFE_ES_GenPoolGetBucketState p = CFE_ES_GenPoolGetBucketState q" by (simp add: CFE_ES_GenPoolGetBucketState_def fun_eq_iff f)
  have sb: "scan_bucket p = scan_bucket q" unfolding scan_bucket_def gs ..
  have "BlockSize (Buckets p ! i) = BlockSize (Buckets q ! i)" if "fst (scan_bucket q bd) = Some i" for i bd
  proof (rule shape_bsize [OF sh])
    have "i < nbuckets q" using that GetBucketState_Some [of q _ i] by (auto simp: scan_bucket_def split: if_splits option.splits)
    then show "i < length (Buckets q)" using len by simp
  qed
  then show ?thesis by (auto simp: scan_ends_def nb sb d f split: option.splits)
qed

text \<open>All blocks of a pool are pending for a record with the same sizes that starts at the beginning.\<close>

lemma shape_fields:
  assumes "shape p' = shape p" and len: "nbuckets p \<le> length (Buckets p)"
  shows "nbuckets p' = nbuckets p" "bid p' = bid p" "PoolMaxOffset p' = PoolMaxOffset p" "i < nbuckets p \<Longrightarrow> bsize p' i = bsize p i"
  using assms shape_bsize [OF assms(1), of i] by (auto simp: shape_def nbuckets_def bid_def bsize_def fun_eq_iff)

lemma laid_cong: "(\<And>off i. (off, i) \<in> set bs \<Longrightarrow> sz' i = sz i) \<Longrightarrow> laid sz' al t bs t' = laid sz al t bs t'"
proof (induction bs arbitrary: t)
  case (Cons b bs)
  obtain off i where b: "b = (off, i)" by fastforce
  have "laid sz' al (off + sz i) bs t' = laid sz al (off + sz i) bs t'" by (rule Cons.IH) (use Cons.prems in auto)
  moreover have "sz' i = sz i" using Cons.prems b by auto
  ultimately show ?case by (simp add: b)
qed simp

lemma pool_pending:
  assumes old: "pool_inv q d k start bs free" and sh: "shape p = shape q" and t: "unat (TailPosition p) = start"
    and F: "\<And>off i. (off, i) \<in> set bs \<Longrightarrow> off \<in> F \<longleftrightarrow> off \<in> set (free i)"
  shows "pending p d k bs F (unat (TailPosition q))"
proof -
  have "nbuckets q \<le> length (Buckets q)" using pool_invD(8,9) [OF old] by simp
  note f = shape_fields [OF sh this]
  have i: "i < nbuckets q" if "(off, i) \<in> set bs" for off i using pool_invD(4) [OF old that] by (simp add: block_ok_def)
  have "laid (bsize p) (2 ^ k) start bs (unat (TailPosition q))"
    using laid_cong [of bs "bsize p" "bsize q"] f(4) i pool_invD(2) [OF old] by blast
  moreover have "unat (TailPosition q) \<le> unat (PoolMaxOffset p)" using pool_invD(3) [OF old] f(3) by simp
  moreover have "j < nbuckets p \<and> CheckBits (desc d off) = CFE_ES_CHECK_PATTERN \<and> unat (ActualSize (desc d off)) \<le> bsize p j \<and>
      Allocated (desc d off) = (if off \<in> F then CFE_ES_MEMORY_DEALLOCATED else CFE_ES_MEMORY_ALLOCATED) + bid p j" if b: "(off, j) \<in> set bs" for off j
    using pool_invD(4) [OF old b] F [OF b] f(1,2) f(4) [OF i [OF b]] by (simp add: block_ok_def)
  ultimately show ?thesis unfolding pending_def t by blast
qed

text \<open>The blocks and the sizes fix the tail.\<close>

lemma pool_inv_tail:
  assumes p: "pool_inv p d' k start bs free'" and q: "pool_inv q d k start bs free" and sh: "shape p = shape q"
  shows "TailPosition p = TailPosition q"
proof -
  have "nbuckets q \<le> length (Buckets q)" using pool_invD(8,9) [OF q] by simp
  note f = shape_fields [OF sh this]
  have "i < nbuckets q" if "(off, i) \<in> set bs" for off i using pool_invD(4) [OF q that] by (simp add: block_ok_def)
  then have "laid (bsize q) (2 ^ k) start bs (unat (TailPosition p))"
    using laid_cong [of bs "bsize p" "bsize q"] f(4) pool_invD(2) [OF p] by blast
  then show ?thesis using laid_det [OF _ pool_invD(2) [OF q]] by (simp add: word_unat_eq_iff)
qed

text \<open>The storage changed by reading descriptors, and by writing those at the addresses of a set.\<close>

inductive touches :: "'st CFE_ES_PoolStorage \<Rightarrow> u64 set \<Rightarrow> 'st \<Rightarrow> 'st \<Rightarrow> bool" for acc A where
  reads: "near a \<Longrightarrow> Retrieve acc m a = (m1, CFE_SUCCESS) \<Longrightarrow> touches acc A m m1"
| writes: "a \<in> A \<Longrightarrow> near a \<Longrightarrow> Retrieve acc m a = (m1, CFE_SUCCESS) \<Longrightarrow> Commit acc (SetBd acc m1 a bd) a = (m2, CFE_SUCCESS) \<Longrightarrow> touches acc A m m2"
| both: "touches acc A m m1 \<Longrightarrow> touches acc A m1 m2 \<Longrightarrow> touches acc A m m2"

lemma touches_mono: "touches acc A m m' \<Longrightarrow> A \<subseteq> B \<Longrightarrow> touches acc B m m'"
  by (induction rule: touches.induct) (auto intro: touches.intros)

context reliable_storage
begin

lemma retrieve_view: "unat a + 24 \<le> lim \<Longrightarrow> near a \<Longrightarrow> \<exists>m1. Retrieve acc m a = (m1, CFE_SUCCESS) \<and> view m1 = view m \<and> BdOf acc m1 a = view m a"
  using retrieve [of a m] retrieve_ok [of a m] by (metis prod.collapse)

lemma commit_view:
  assumes lim: "unat a + 24 \<le> lim" and near: "near a" and r: "Retrieve acc m a = (m1, CFE_SUCCESS)"
  shows "\<exists>m2. Commit acc (SetBd acc m1 a bd) a = (m2, CFE_SUCCESS) \<and> view m2 a = bd \<and> (\<forall>b. apart a b \<longrightarrow> view m2 b = view m b)"
  using commit [OF near r] commit_ok [OF lim r, of bd] by (metis prod.collapse)

lemma rebuild_stop:
  assumes inv: "pool_inv p (view m) k start bs free" and lim: "unat (PoolMaxOffset p) \<le> lim" and stop: "scan_ends p (view m)"
  shows "\<exists>m'. CFE_ES_GenPoolRebuild acc (p, m) = Some ((p, m'), CFE_SUCCESS) \<and> view m' = view m \<and> (m' = m \<or> touches acc {} m m')"
proof (cases "PoolMaxOffset p < next_block p")
  case True
  then show ?thesis by (subst CFE_ES_GenPoolRebuild.simps) (simp add: Let_def)
next
  case False
  then have "unat (next_block p) \<le> unat (PoolMaxOffset p)" by (simp add: word_less_nat_alt)
  note nl = next_lim [OF inv this lim] and near = next_near [OF inv this]
  obtain m1 where r: "Retrieve acc m (next_block p - 24) = (m1, CFE_SUCCESS)" "view m1 = view m" "BdOf acc m1 (next_block p - 24) = view m (next_block p - 24)"
    using retrieve_view [OF nl near] by blast
  show ?thesis
    using stop r False near by (subst CFE_ES_GenPoolRebuild.simps) (auto simp: scan_ends_def Let_def intro: touches.intros split: option.splits prod.splits)
qed

lemma rebuild_step:
  assumes inv: "pool_inv p (view m) k start bs free" and lim: "unat (PoolMaxOffset p) \<le> lim" and pd: "pending p (view m) k ((off, i) # cs) F t'"
  shows "\<exists>p' m'. CFE_ES_GenPoolRebuild acc (p, m) = CFE_ES_GenPoolRebuild acc (p', m') \<and>
    pool_inv p' (view m') k start (bs @ [(off, i)]) (if off \<in> F then free(i := off # free i) else free) \<and> pending p' (view m') k cs F t' \<and> shape p' = shape p \<and>
    (\<forall>b. apart (of_nat off - 24) b \<longrightarrow> view m' b = view m b) \<and> ActualSize (desc (view m') off) = ActualSize (desc (view m) off) \<and> touches acc {of_nat off - 24} m m'"
proof -
  let ?a = "next_block p - 24"
  note h = pending_head [OF inv pd]
  have len: "i < length (Buckets p)" using h(3) pool_invD(8,9) [OF inv] by simp
  have oa: "of_nat off - 24 = ?a" using h(1) by simp
  have nl: "unat ?a + 24 \<le> lim" using next_lim [OF inv _ lim] h(1,4) by simp
  have near: "near ?a" using next_near [OF inv] h(1,4) by simp
  obtain m1 where r: "Retrieve acc m ?a = (m1, CFE_SUCCESS)" "view m1 = view m" "BdOf acc m1 ?a = desc (view m) off"
    using retrieve_view [OF nl near, of m] h(2) by metis
  have sc: "scan_bucket p (desc (view m) off) = (Some i, off \<in> F)"
    using h(3,5,7) marks_apart(1) [OF pool_invD(8) [OF inv] h(3)] by (simp add: scan_bucket_def)
  have go: "\<not> PoolMaxOffset p < next_block p" "\<not> BlockSize (Buckets p ! i) < ActualSize (desc (view m) off)"
    using h(1,4,6) by (simp_all add: word_less_nat_alt bsize_def)
  note ff = found_fields [OF len]
  show ?thesis
  proof (cases "off \<in> F")
    case False
    have "CFE_ES_GenPoolRebuild acc (p, m) = CFE_ES_GenPoolRebuild acc (found i p, m1)"
      using r sc go False by (subst CFE_ES_GenPoolRebuild.simps) (simp add: Let_def found_def upd_bucket_def)
    then show ?thesis
      using found_used [OF inv pd False] pending_tl [OF inv pd ff(1-5), of "view m"] False r(2) shape_found touches.reads [OF near r(1)]
      by (intro exI [of _ "found i p"] exI [of _ m1]) simp
  next
    case True
    let ?bd = "(desc (view m) off)\<lparr>NextOffset := FirstOffset (Buckets p ! i)\<rparr>"
    obtain m2 where c: "Commit acc (SetBd acc m1 ?a ?bd) ?a = (m2, CFE_SUCCESS)" "view m2 ?a = ?bd" "\<And>b. apart ?a b \<Longrightarrow> view m2 b = view m b"
      using commit_view [OF nl near r(1)] by blast
    let ?p = "upd_bucket i (\<lambda>b. b\<lparr>FirstOffset := next_block p, ReleaseCount := ReleaseCount b + 1\<rparr>) (found i p)"
    have "CFE_ES_GenPoolRebuild acc (p, m) = CFE_ES_GenPoolRebuild acc (?p, m2)"
      using r sc go True c len by (subst CFE_ES_GenPoolRebuild.simps) (simp add: Let_def found_def upd_bucket_def)
    moreover have "pool_inv ?p (view m2) k start (bs @ [(off, i)]) (free(i := off # free i))"
      by (rule found_free [OF inv pd True c(2,3)])
    moreover have "pending ?p (view m2) k cs F t'"
      using upd_bucket_fields [of i "found i p"] len ff by (intro pending_tl [OF inv pd _ _ _ _ _ c(3)]) simp_all
    moreover have "shape ?p = shape p" by (simp add: shape_upd shape_found)
    moreover have "touches acc {of_nat off - 24} m m2" using touches.writes [OF _ near r(1) c(1)] oa by simp
    ultimately show ?thesis using True c(2,3) oa by (intro exI [of _ ?p] exI [of _ m2]) (simp add: desc_def h(1))
  qed
qed

lemma rebuild_all:
  assumes "pool_inv p (view m) k start bs free" and "pending p (view m) k cs F (unat (TailPosition q))"
    and "shape p = shape q" and "pool_inv q dq k start' bq fq" and "scan_ends q d0" and "view m (next_block q - 24) = d0 (next_block q - 24)"
    and "unat (PoolMaxOffset q) \<le> lim"
  shows "\<exists>p' m' free'. CFE_ES_GenPoolRebuild acc (p, m) = Some ((p', m'), CFE_SUCCESS) \<and> pool_inv p' (view m') k start (bs @ cs) free' \<and>
    (\<forall>i. set (free' i) = set (free i) \<union> {off \<in> F. (off, i) \<in> set cs}) \<and> shape p' = shape q \<and>
    (\<forall>off \<in> fst ` set (bs @ cs). ActualSize (desc (view m') off) = ActualSize (desc (view m) off)) \<and>
    (m' = m \<or> touches acc ((\<lambda>(off, i). of_nat off - 24) ` set cs) m m')"
  using assms
proof (induction cs arbitrary: p m bs free)
  case Nil
  have "TailPosition q = TailPosition p" using Nil.prems(2) by (simp add: pending_def word_unat_eq_iff)
  then have "scan_ends p (view m)" using Nil.prems(3,5,6) scan_ends_shape [of p q] pool_invD(8,9) [OF Nil.prems(4)] by simp
  then obtain m' where "CFE_ES_GenPoolRebuild acc (p, m) = Some ((p, m'), CFE_SUCCESS)" "view m' = view m" "m' = m \<or> touches acc {} m m'"
    using rebuild_stop [OF Nil.prems(1)] Nil.prems(3,7) by (auto simp: shape_def)
  then show ?case using Nil.prems(1,3) by (intro exI [of _ p] exI [of _ m'] exI [of _ free]) simp
next
  case (Cons c cs)
  obtain off i where c: "c = (off, i)" by fastforce
  let ?free = "if off \<in> F then free(i := off # free i) else free"
  note inv = Cons.prems(1) and pd = Cons.prems(2) [unfolded c]
  note h = pending_head [OF inv pd]
  have pl: "unat (PoolMaxOffset p) \<le> lim" using Cons.prems(3,7) by (simp add: shape_def)
  obtain p1 m1 where s: "CFE_ES_GenPoolRebuild acc (p, m) = CFE_ES_GenPoolRebuild acc (p1, m1)"
    "pool_inv p1 (view m1) k start (bs @ [(off, i)]) ?free" "pending p1 (view m1) k cs F (unat (TailPosition q))" "shape p1 = shape p"
    "\<And>b. apart (of_nat off - 24) b \<Longrightarrow> view m1 b = view m b" "ActualSize (desc (view m1) off) = ActualSize (desc (view m) off)"
    "touches acc {of_nat off - 24} m m1"
    using rebuild_step [OF inv pl pd] by metis
  have "laid (bsize p) (2 ^ k) (off + bsize p i) cs (unat (TailPosition q))" using pd by (auto simp: pending_def)
  then have "off \<le> unat (TailPosition q)" using laid_bounds(1) [of "bsize p" "2 ^ k" "off + bsize p i" cs] by fastforce
  moreover have "unat (of_nat off - 24 :: u64) = off - 24" using next_block_unat(3) [OF inv] h(1) by simp
  ultimately have "apart (of_nat off - 24) (next_block q - 24)"
    using next_block_unat(2-4) [OF Cons.prems(4)] next_block_unat(2,4) [OF inv] h(1) by (intro apartI) linarith+
  then have nq: "view m1 (next_block q - 24) = d0 (next_block q - 24)" using s(5) Cons.prems(6) by simp
  have sh: "shape p1 = shape q" using s(4) Cons.prems(3) by simp
  obtain p' m' free' where r: "CFE_ES_GenPoolRebuild acc (p1, m1) = Some ((p', m'), CFE_SUCCESS)"
    "pool_inv p' (view m') k start ((bs @ [(off, i)]) @ cs) free'" "\<forall>j. set (free' j) = set (?free j) \<union> {x \<in> F. (x, j) \<in> set cs}"
    "shape p' = shape q" "\<forall>x \<in> fst ` set ((bs @ [(off, i)]) @ cs). ActualSize (desc (view m') x) = ActualSize (desc (view m1) x)"
    "m' = m1 \<or> touches acc ((\<lambda>(off, i). of_nat off - 24) ` set cs) m1 m'"
    using Cons.IH [OF s(2,3) sh Cons.prems(4,5) nq Cons.prems(7)] by blast
  have sz: "ActualSize (desc (view m1) x) = ActualSize (desc (view m) x)" if x: "x \<in> fst ` set (bs @ (off, i) # cs)" for x
  proof (cases "x = off")
    case False
    obtain j where j: "(x, j) \<in> set ((bs @ [(off, i)]) @ cs)" using x by (metis append.assoc append_Cons append_Nil imageE prod.collapse)
    have "apart (of_nat off - 24) (of_nat x - 24)" by (rule descs_apart [OF r(2) _ j]) (use False in auto)
    then show ?thesis using s(5) by (simp add: desc_def)
  qed (use s(6) in simp)
  have fr: "set (free' j) = set (free j) \<union> {x \<in> F. (x, j) \<in> set ((off, i) # cs)}" for j
    using r(3) [THEN spec, of j] by (cases "j = i") auto
  have sizes: "\<forall>x \<in> fst ` set (bs @ (off, i) # cs). ActualSize (desc (view m') x) = ActualSize (desc (view m) x)"
    using r(5) sz by simp
  have "touches acc ((\<lambda>(off, i). of_nat off - 24) ` set ((off, i) # cs)) m m'"
  proof -
    let ?A = "(\<lambda>(off, i). of_nat off - 24) ` set ((off, i) # cs)"
    have one: "touches acc ?A m m1" by (rule touches_mono [OF s(7)]) simp
    show ?thesis
    proof (cases "m' = m1")
      case False
      then have "touches acc ?A m1 m'" using r(6) touches_mono [of acc _ m1 m' ?A] by auto
      then show ?thesis by (rule touches.both [OF one])
    qed (use one in simp)
  qed
  then show ?case
    unfolding c using s(1) r(1,2,4) fr sizes by (intro exI [of _ p'] exI [of _ m'] exI [of _ free'] conjI) simp_all
qed

text \<open>
  A pool initialized again over the storage of an old one, and rebuilt: the same blocks, the
  same free blocks (perhaps in another order) and the same blocks in use.
\<close>

lemma rebuild_recovers:
  assumes old: "pool_inv q (view m) k start bs free" and new: "pool_inv p (view m) k start [] fr0" "unat (TailPosition p) = start"
    and empty: "\<And>i. fr0 i = []" and sh: "shape p = shape q" and stop: "scan_ends q (view m)"
    and lim: "unat (PoolMaxOffset q) \<le> lim"
  shows "\<exists>p' m' free'. CFE_ES_GenPoolRebuild acc (p, m) = Some ((p', m'), CFE_SUCCESS) \<and> pool_inv p' (view m') k start bs free' \<and>
    in_use bs free' = in_use bs free \<and> granted (view m') bs free' = granted (view m) bs free \<and> shape p' = shape q \<and>
    (m' = m \<or> touches acc ((\<lambda>(off, i). of_nat off - 24) ` set bs) m m') \<and> TailPosition p' = TailPosition q"
proof -
  let ?F = "{off. \<exists>i. (off, i) \<in> set bs \<and> off \<in> set (free i)}"
  have F: "off \<in> ?F \<longleftrightarrow> off \<in> set (free i)" if "(off, i) \<in> set bs" for off i
    using that same_block [OF old that] by blast
  have pd: "pending p (view m) k bs ?F (unat (TailPosition q))"
    using pool_pending [OF old sh new(2), of ?F] F by blast
  obtain p' m' free' where r: "CFE_ES_GenPoolRebuild acc (p, m) = Some ((p', m'), CFE_SUCCESS)" "pool_inv p' (view m') k start ([] @ bs) free'"
      "\<forall>i. set (free' i) = set (fr0 i) \<union> {off \<in> ?F. (off, i) \<in> set bs}" "shape p' = shape q"
      "\<forall>off \<in> fst ` set ([] @ bs). ActualSize (desc (view m') off) = ActualSize (desc (view m) off)"
      "m' = m \<or> touches acc ((\<lambda>(off, i). of_nat off - 24) ` set bs) m m'"
    using rebuild_all [OF new(1) pd sh old stop refl lim] by blast
  have "off \<in> set (free' i) \<longleftrightarrow> off \<in> set (free i)" if "(off, i) \<in> set bs" for off i
    using r(3) [THEN spec, of i] F [OF that] that empty by auto
  then have use: "in_use bs free' = in_use bs free" by (auto simp: in_use_def)
  have "granted (view m') bs free' off = granted (view m) bs free off" for off
  proof (cases "off \<in> fst ` in_use bs free")
    case True
    then have "off \<in> fst ` set ([] @ bs)" by (auto simp: in_use_def)
    then have "ActualSize (desc (view m') off) = ActualSize (desc (view m) off)" using r(5) by blast
    then show ?thesis using use by (simp add: granted_def)
  qed (simp add: granted_def use)
  moreover have "TailPosition p' = TailPosition q"
    using pool_inv_tail [OF _ old r(4)] r(2) by simp
  ultimately show ?thesis using r use by (intro exI [of _ p'] exI [of _ m'] exI [of _ free']) auto
qed

end

end
