(* ===== verification/CFE_ES_Pool_Bytes.thy ===== *)
theory CFE_ES_Pool_Bytes
  imports CFE_ES_Pool_Init
begin

unbundle bit_operations_syntax

text \<open>
  Storages made of bytes.  A descriptor (\<open>CFE_ES_GenPoolBD_t\<close> of \<^verbatim>\<open>cfe_es_generic_pool.h\<close>) is 24
  bytes in the byte order of the target (little-endian for all targets of the mission), with four bytes of padding
  before the sizes.  The locale \<open>byte_storage\<close> is the contract of a storage that keeps
  descriptors as bytes; it gives the contract \<open>pool_storage\<close>, and, beyond it, that the
  operations of a pool write nothing but descriptors.
\<close>

section \<open>Bytes\<close>

type_synonym bytes = "u64 \<Rightarrow> u8"

fun load :: "nat \<Rightarrow> bytes \<Rightarrow> u64 \<Rightarrow> u64" where
  "load 0 m a = 0"
| "load (Suc n) m a = ucast (m a) OR push_bit 8 (load n m (a + 1))"

fun store :: "nat \<Rightarrow> u64 \<Rightarrow> u64 \<Rightarrow> bytes \<Rightarrow> bytes" where
  "store 0 w a m = m"
| "store (Suc n) w a m = (store n (drop_bit 8 w) (a + 1) m)(a := ucast w)"

lemma store_other: "(\<And>i. i < n \<Longrightarrow> b \<noteq> a + of_nat i) \<Longrightarrow> store n w a m b = m b"
proof (induction n arbitrary: w a)
  case (Suc n)
  have "b \<noteq> a + 1 + of_nat i" if "i < n" for i using Suc.prems [of "Suc i"] that by (simp add: add_ac)
  then show ?case using Suc.IH [of "a + 1"] Suc.prems [of 0] by simp
qed simp

lemma load_cong: "(\<And>i. i < n \<Longrightarrow> m' (a + of_nat i) = m (a + of_nat i)) \<Longrightarrow> load n m' a = load n m a"
proof (induction n arbitrary: a)
  case (Suc n)
  have "m' (a + 1 + of_nat i) = m (a + 1 + of_nat i)" if "i < n" for i using Suc.prems [of "Suc i"] that by (simp add: add_ac)
  then show ?case using Suc.IH [of "a + 1"] Suc.prems [of 0] by simp
qed simp

lemma low_byte: "ucast (ucast w :: u8) OR push_bit 8 (drop_bit 8 w AND mask n) = (w AND mask (8 + n) :: u64)"
  by (rule bit_word_eqI) (auto simp: bit_simps not_less)

lemma load_store: "n \<le> 8 \<Longrightarrow> load n (store n w a m) a = w AND mask (8 * n)"
proof (induction n arbitrary: w a)
  case (Suc n)
  have "(1 :: u64) + of_nat i \<noteq> 0" if "i < n" for i
  proof -
    have "unat (1 + of_nat i :: u64) = 1 + i" using that Suc.prems by (simp add: unat_word_ariths unat_of_nat)
    then show ?thesis by (metis add_is_0 one_neq_zero unat_0)
  qed
  then have "load n ((store n (drop_bit 8 w) (a + 1) m)(a := ucast w)) (a + 1) = load n (store n (drop_bit 8 w) (a + 1) m) (a + 1)"
    by (intro load_cong) (simp add: add.assoc)
  then show ?case using Suc low_byte [of w "8 * n"] by (simp add: fun_upd_same del: fun_upd_apply)
qed simp

section \<open>Descriptors as bytes\<close>

definition read_bd :: "bytes \<Rightarrow> u64 \<Rightarrow> CFE_ES_GenPoolBD" where
  "read_bd m a = \<lparr>CheckBits = ucast (load 2 m a), Allocated = ucast (load 2 m (a + 2)),
     ActualSize = load 8 m (a + 8), NextOffset = load 8 m (a + 16)\<rparr>"

definition write_bd :: "u64 \<Rightarrow> CFE_ES_GenPoolBD \<Rightarrow> bytes \<Rightarrow> bytes" where
  "write_bd a bd m = store 8 (NextOffset bd) (a + 16) (store 8 (ActualSize bd) (a + 8)
     (store 2 (ucast (Allocated bd)) (a + 2) (store 2 (ucast (CheckBits bd)) a m)))"

text \<open>Places inside a descriptor, relative to its address, differ when their distances do.\<close>

lemma offset_neq:
  assumes "i < 24" "j < 24" "i \<noteq> j"
  shows "a + of_nat i \<noteq> (a + of_nat j :: u64)"
proof -
  have "unat (of_nat i :: u64) = i" "unat (of_nat j :: u64) = j" using assms by (simp_all add: unat_of_nat)
  then show ?thesis using assms(3) by auto
qed

lemma store_outside:
  assumes "\<And>i. k \<le> i \<Longrightarrow> i < k + n \<Longrightarrow> b \<noteq> a + of_nat i"
  shows "store n w (a + of_nat k) m b = m b"
proof (rule store_other)
  fix i assume "i < n"
  then show "b \<noteq> a + of_nat k + of_nat i" using assms [of "k + i"] by (simp add: add.assoc)
qed

lemma load_keep:
  assumes "\<And>i. i < n \<Longrightarrow> m' (a + of_nat (k + i)) = m (a + of_nat (k + i))"
  shows "load n m' (a + of_nat k) = load n m (a + of_nat k)"
  using assms by (intro load_cong) (simp add: add.assoc)

lemma store_keep:
  assumes "j + l \<le> k \<or> k + n \<le> j" "j + l \<le> 24" "k + n \<le> 24"
  shows "load l (store n w (a + of_nat k) m) (a + of_nat j) = load l m (a + of_nat j)"
proof (rule load_keep)
  fix i assume i: "i < l"
  show "store n w (a + of_nat k) m (a + of_nat (j + i)) = m (a + of_nat (j + i))"
    by (rule store_outside, rule offset_neq) (use i assms in auto)
qed

lemma read_write_bd: "read_bd (write_bd a bd m) a = bd"
proof -
  have k: "a + 2 = a + of_nat 2" "a + 8 = a + of_nat 8" "a + 16 = a + of_nat 16" by simp_all
  let ?m1 = "store 2 (ucast (CheckBits bd)) (a + of_nat 0) m"
  let ?m2 = "store 2 (ucast (Allocated bd)) (a + of_nat 2) ?m1"
  let ?m3 = "store 8 (ActualSize bd) (a + of_nat 8) ?m2"
  let ?m = "store 8 (NextOffset bd) (a + of_nat 16) ?m3"
  have m: "write_bd a bd m = ?m" by (simp add: write_bd_def)
  have full: "w AND mask 64 = w" for w :: u64 by (rule bit_word_eqI) (simp add: bit_simps)
  have half: "ucast (ucast h AND mask 16 :: u64) = h" for h :: u16 by (rule bit_word_eqI) (simp add: bit_simps)
  have "load 2 ?m (a + of_nat 0) = load 2 ?m1 (a + of_nat 0)"
    by (rule trans [OF store_keep trans [OF store_keep store_keep]]) simp_all
  then have "ucast (load 2 ?m (a + of_nat 0)) = CheckBits bd"
    using load_store [of 2 "ucast (CheckBits bd)" "a + of_nat 0" m] half by simp
  moreover have "load 2 ?m (a + of_nat 2) = load 2 ?m2 (a + of_nat 2)"
    by (rule trans [OF store_keep store_keep]) simp_all
  then have "ucast (load 2 ?m (a + of_nat 2)) = Allocated bd"
    using load_store [of 2 "ucast (Allocated bd)" "a + of_nat 2" ?m1] half by simp
  moreover have "load 8 ?m (a + of_nat 8) = load 8 ?m3 (a + of_nat 8)" by (rule store_keep) simp_all
  then have "load 8 ?m (a + of_nat 8) = ActualSize bd"
    using load_store [of 8 "ActualSize bd" "a + of_nat 8" ?m2] full by simp
  moreover have "load 8 ?m (a + of_nat 16) = NextOffset bd"
    using load_store [of 8 "NextOffset bd" "a + of_nat 16" ?m3] full by simp
  ultimately show ?thesis unfolding read_bd_def m k by (simp only: of_nat_0 add_0_right) simp
qed

text \<open>The bytes of a descriptor.\<close>

definition in_desc :: "u64 \<Rightarrow> u64 \<Rightarrow> bool" where
  "in_desc a x \<longleftrightarrow> (\<exists>i < 24. x = a + of_nat i)"

lemma write_bd_other: "\<not> in_desc a x \<Longrightarrow> write_bd a bd m x = m x"
  using store_outside [of 0 2 x a] store_outside [of 2 2 x a] store_outside [of 8 8 x a] store_outside [of 16 8 x a]
  by (simp add: write_bd_def in_desc_def)

lemma read_bd_cong:
  assumes "\<And>x. in_desc a x \<Longrightarrow> m' x = m x"
  shows "read_bd m' a = read_bd m a"
proof -
  have k: "load l m' (a + of_nat j) = load l m (a + of_nat j)" if "j + l \<le> 24" for j l
    by (rule load_keep, rule assms) (use that in \<open>auto simp: in_desc_def intro!: exI [of _ "j + _"]\<close>)
  show ?thesis using k [of 0 2] k [of 2 2] k [of 8 8] k [of 16 8] by (simp add: read_bd_def)
qed

lemma unat_plus_small:
  assumes "unat a + 24 \<le> 2 ^ 64" "i < 24"
  shows "unat (a + of_nat i :: u64) = unat a + i"
  using assms by (simp add: unat_word_ariths unat_of_nat)

lemma in_desc_iff:
  assumes "unat a + 24 \<le> 2 ^ 64"
  shows "in_desc a x \<longleftrightarrow> unat a \<le> unat x \<and> unat x < unat a + 24"
proof
  assume r: "unat a \<le> unat x \<and> unat x < unat a + 24"
  then have "x = a + of_nat (unat x - unat a)" using unat_plus_small [OF assms, of "unat x - unat a"] by (simp add: word_unat_eq_iff)
  then show "in_desc a x" using r unfolding in_desc_def by (intro exI [of _ "unat x - unat a"]) auto
qed (use unat_plus_small [OF assms] in \<open>auto simp: in_desc_def\<close>)

lemma apart_descs: "apart a b \<Longrightarrow> in_desc b x \<Longrightarrow> \<not> in_desc a x"
  by (auto simp: apart_def in_desc_iff)

text \<open>Descriptors seen from another origin.\<close>

lemma load_shift: "load n (\<lambda>x. m (b + x)) a = load n m (b + a)"
  by (induction n arbitrary: a) (simp_all add: add.assoc)

lemma store_shift: "(\<lambda>x. store n w (b + a) m (b + x)) = store n w a (\<lambda>x. m (b + x))"
proof (induction n arbitrary: w a)
  case (Suc n)
  show ?case using Suc.IH [of "drop_bit 8 w" "a + 1"] by (auto simp: fun_eq_iff add.assoc)
qed simp

lemma read_bd_shift: "read_bd (\<lambda>x. m (b + x)) a = read_bd m (b + a)"
  by (simp add: read_bd_def load_shift add.assoc)

lemma write_bd_shift: "(\<lambda>x. write_bd (b + a) bd m (b + x)) = write_bd a bd (\<lambda>x. m (b + x))"
  by (simp add: write_bd_def store_shift add.assoc)

section \<open>The contract\<close>

locale byte_storage =
  fixes acc :: "'st CFE_ES_PoolStorage" and bytes :: "'st \<Rightarrow> bytes"
  assumes fetch: "near a \<Longrightarrow> Retrieve acc m a = (m1, st) \<Longrightarrow> bytes m1 = bytes m \<and> (st = CFE_SUCCESS \<longrightarrow> BdOf acc m1 a = read_bd (bytes m) a)"
    and flush: "near a \<Longrightarrow> Retrieve acc m a = (m1, CFE_SUCCESS) \<Longrightarrow> Commit acc (SetBd acc m1 a bd) a = (m2, st) \<Longrightarrow>
      bytes m2 = (if st = CFE_SUCCESS then write_bd a bd (bytes m) else bytes m)"

locale reliable_byte_storage = byte_storage +
  fixes lim :: nat
  assumes fetch_ok: "unat a + 24 \<le> lim \<Longrightarrow> snd (Retrieve acc m a) = CFE_SUCCESS"
    and flush_ok: "unat a + 24 \<le> lim \<Longrightarrow> Retrieve acc m a = (m1, CFE_SUCCESS) \<Longrightarrow> snd (Commit acc (SetBd acc m1 a bd) a) = CFE_SUCCESS"

sublocale byte_storage \<subseteq> pool_storage acc "\<lambda>m. read_bd (bytes m)"
proof
  fix m a m1 st
  assume "near a" "Retrieve acc m a = (m1, st)"
  then show "read_bd (bytes m1) = read_bd (bytes m) \<and> (st = CFE_SUCCESS \<longrightarrow> BdOf acc m1 a = read_bd (bytes m) a)"
    using fetch by simp
next
  fix m a m1 bd m2 st
  assume near: "near a" and r: "Retrieve acc m a = (m1, CFE_SUCCESS)" and c: "Commit acc (SetBd acc m1 a bd) a = (m2, st)"
  have "read_bd (write_bd a bd (bytes m)) b = read_bd (bytes m) b" if "apart a b" for b
    by (rule read_bd_cong, rule write_bd_other, rule apart_descs [OF that])
  then show "if st = CFE_SUCCESS then read_bd (bytes m2) a = bd \<and> (\<forall>b. apart a b \<longrightarrow> read_bd (bytes m2) b = read_bd (bytes m) b)
      else read_bd (bytes m2) = read_bd (bytes m)"
    using flush [OF near r c] by (simp add: read_write_bd)
qed

sublocale reliable_byte_storage \<subseteq> reliable_storage acc "\<lambda>m. read_bd (bytes m)" lim
  by unfold_locales (erule fetch_ok, erule (1) flush_ok)

section \<open>What the operations write\<close>

context byte_storage
begin

text \<open>One descriptor read and written: nothing but its bytes changes.\<close>

lemma update_frame:
  assumes "near a" "Retrieve acc m a = (m1, CFE_SUCCESS)" "Commit acc (SetBd acc m1 a bd) a = (m2, st)" "\<not> in_desc a x"
  shows "bytes m2 x = bytes m x"
  using flush [OF assms(1-3)] write_bd_other [OF assms(4)] by simp

text \<open>A consistent pool reads and writes descriptors below 4 GB only.\<close>

lemma first_near:
  assumes inv: "pool_inv p d k start bs free" and i: "CFE_ES_GenPoolGetBucketState p x = Some i" and first: "FirstOffset (Buckets p ! i) \<noteq> 0"
  shows "near (FirstOffset (Buckets p ! i) - 24)"
proof -
  have i: "i < nbuckets p" using GetBucketState_Some [OF i] by simp
  have "chain d (FirstOffset (Buckets p ! i)) (free i)" using pool_invD(5) [OF inv i] by (simp add: bucket_ok_def)
  then obtain off offs where "free i = off # offs" "FirstOffset (Buckets p ! i) = of_nat off" using first by (cases "free i") auto
  then show ?thesis using free_block(1) [OF inv i, of off] block_near [OF inv, of off i] by simp
qed

lemma create_near:
  assumes inv: "pool_inv p d k start bs free" and i: "CFE_ES_GenPoolGetBucketState p x = Some i"
    and room: "\<not> PoolMaxOffset p < next_block p + BlockSize (Buckets p ! i)"
  shows "near (next_block p - 24)"
proof (rule next_near [OF inv])
  have "bsize p i < 2 ^ 32" using GetBucketState_Some [OF i] pool_invD(1) [OF inv] by (auto simp: wf_pool_def)
  then have "unat (next_block p + BlockSize (Buckets p ! i)) = unat (next_block p) + bsize p i"
    using next_block_unat(2) [OF inv] by (simp add: bsize_def unat_word_ariths)
  then show "unat (next_block p) \<le> unat (PoolMaxOffset p)" using room by (simp add: word_less_nat_alt)
qed

lemma recycle_frame:
  assumes inv: "pool_inv p d k start bs free" and call: "CFE_ES_GenPoolRecyclePoolBlock acc i r out (p, m) = ((p', m'), st, out')"
  shows "(st = CFE_SUCCESS \<longrightarrow> (\<forall>x. \<not> in_desc (out' - 24) x \<longrightarrow> bytes m' x = bytes m x)) \<and> (st \<noteq> CFE_SUCCESS \<longrightarrow> bytes m' = bytes m \<and> p' = p)"
proof (cases "CFE_ES_GenPoolGetBucketState p i")
  case (Some l)
  let ?a = "FirstOffset (Buckets p ! l) - 24"
  show ?thesis
  proof (cases "FirstOffset (Buckets p ! l) = 0")
    case False
    note near = first_near [OF inv Some False]
    obtain m1 s1 where r: "Retrieve acc m ?a = (m1, s1)" by fastforce
    show ?thesis
    proof (cases "s1 = CFE_SUCCESS")
      case True
      obtain m2 s2 where c: "Commit acc (SetBd acc m1 ?a ((BdOf acc m1 ?a)\<lparr>Allocated := CFE_ES_MEMORY_ALLOCATED + i, ActualSize := r, NextOffset := 0\<rparr>)) ?a = (m2, s2)"
        by fastforce
      note w = update_frame [OF near r [unfolded True] c] flush [OF near r [unfolded True] c] fetch [OF near r]
      show ?thesis
        using call r c True w Some by (auto simp: CFE_ES_GenPoolRecyclePoolBlock_def Let_def split: if_splits)
    qed (use call r Some fetch [OF near r] in \<open>auto simp: CFE_ES_GenPoolRecyclePoolBlock_def Let_def split: if_splits\<close>)
  qed (use call Some in \<open>auto simp: CFE_ES_GenPoolRecyclePoolBlock_def\<close>)
qed (use call in \<open>auto simp: CFE_ES_GenPoolRecyclePoolBlock_def\<close>)

lemma create_frame:
  assumes inv: "pool_inv p d k start bs free" and call: "CFE_ES_GenPoolCreatePoolBlock acc i r out (p, m) = ((p', m'), st, out')"
  shows "(st = CFE_SUCCESS \<longrightarrow> (\<forall>x. \<not> in_desc (out' - 24) x \<longrightarrow> bytes m' x = bytes m x)) \<and> (st \<noteq> CFE_SUCCESS \<longrightarrow> bytes m' = bytes m)"
proof (cases "CFE_ES_GenPoolGetBucketState p i")
  case (Some l)
  let ?a = "next_block p - 24"
  show ?thesis
  proof (cases "PoolMaxOffset p < next_block p + BlockSize (Buckets p ! l)")
    case False
    note near = create_near [OF inv Some False]
    obtain m1 s1 where r: "Retrieve acc m ?a = (m1, s1)" by fastforce
    show ?thesis
    proof (cases "s1 = CFE_SUCCESS")
      case True
      obtain m2 s2 where c: "Commit acc (SetBd acc m1 ?a \<lparr>CheckBits = CFE_ES_CHECK_PATTERN, Allocated = CFE_ES_MEMORY_ALLOCATED + i, ActualSize = r, NextOffset = 0\<rparr>) ?a = (m2, s2)"
        by fastforce
      note w = update_frame [OF near r [unfolded True] c] flush [OF near r [unfolded True] c]
      show ?thesis
        using call r c True w Some by (auto simp: CFE_ES_GenPoolCreatePoolBlock_def Let_def split: if_splits)
    qed (use call r Some fetch [OF near r] in \<open>auto simp: CFE_ES_GenPoolCreatePoolBlock_def Let_def split: if_splits\<close>)
  qed (use call Some in \<open>auto simp: CFE_ES_GenPoolCreatePoolBlock_def Let_def\<close>)
qed (use call in \<open>auto simp: CFE_ES_GenPoolCreatePoolBlock_def\<close>)

lemma get_frame:
  assumes inv: "pool_inv p d k start bs free" and call: "CFE_ES_GenPoolGetBlock acc out r (p, m) = ((p', m'), st, out')"
  shows "(st = CFE_SUCCESS \<longrightarrow> (\<forall>x. \<not> in_desc (out' - 24) x \<longrightarrow> bytes m' x = bytes m x)) \<and> (st \<noteq> CFE_SUCCESS \<longrightarrow> bytes m' = bytes m)"
proof (cases "CFE_ES_GenPoolFindBucket p r = 0")
  case False
  obtain p1 m1 s1 o1 where rc: "CFE_ES_GenPoolRecyclePoolBlock acc (CFE_ES_GenPoolFindBucket p r) r out (p, m) = ((p1, m1), s1, o1)"
    by (metis prod.collapse)
  note rf = recycle_frame [OF inv rc]
  show ?thesis
  proof (cases "s1 = CFE_SUCCESS")
    case True
    then show ?thesis using call False rc rf by (simp add: CFE_ES_GenPoolGetBlock_def)
  next
    case no: False
    then have "CFE_ES_GenPoolCreatePoolBlock acc (CFE_ES_GenPoolFindBucket p r) r o1 (p, m1) = ((p', m'), st, out')"
      using call False rc rf by (simp add: CFE_ES_GenPoolGetBlock_def)
    from create_frame [OF inv this] show ?thesis using rf no by simp
  qed
qed (use call in \<open>simp add: CFE_ES_GenPoolGetBlock_def\<close>)

lemma put_frame:
  assumes near: "near (off - 24)" and call: "CFE_ES_GenPoolPutBlock acc out off (p, m) = ((p', m'), st, out')" and x: "\<not> in_desc (off - 24) x"
  shows "bytes m' x = bytes m x"
proof -
  let ?a = "off - 24"
  obtain m1 s1 where r: "Retrieve acc m ?a = (m1, s1)" by fastforce
  have f: "bytes m1 = bytes m" using fetch [OF near r] by simp
  show ?thesis
  proof (cases "s1 = CFE_SUCCESS")
    case True
    have "bytes (fst (Commit acc (SetBd acc m1 ?a bd) ?a)) x = bytes m x" for bd
      using update_frame [OF near r [unfolded True] _ x] by (metis prod.collapse)
    then show ?thesis using call r f True by (auto simp: CFE_ES_GenPoolPutBlock_def Let_def split_beta split: if_splits)
  qed (use call r f in \<open>auto simp: CFE_ES_GenPoolPutBlock_def Let_def split: if_splits\<close>)
qed

lemma size_frame:
  assumes near: "near (off - 24)" and call: "CFE_ES_GenPoolGetBlockSize acc out off (p, m) = ((p', m'), st, out')"
  shows "p' = p" "bytes m' = bytes m"
proof -
  obtain m1 s1 where r: "Retrieve acc m (off - 24) = (m1, s1)" by fastforce
  show "p' = p" "bytes m' = bytes m"
    using call r fetch [OF near r] by (auto simp: CFE_ES_GenPoolGetBlockSize_def Let_def split: if_splits)
qed

end

end
