(* ===== verification/CFE_ES_Pool_Run.thy ===== *)
theory CFE_ES_Pool_Run
  imports CFE_ES_Pool_Bytes
begin

unbundle bit_operations_syntax

text \<open>
  Runs of a pool: the blocks its users hold, any sequence of requests and returns, and the users' own writes
  into the blocks they hold.  \<open>run_inv\<close> holds in every state of a run: the invariant of the pool,
  that the pool agrees with its users on who holds what, and that nothing behind the last
  block has been written, which is what the recovery after a reset depends on.
\<close>

record 'st pool_run =
  RunPool :: CFE_ES_GenPoolRecord
  RunStore :: 'st
  Held :: "nat \<rightharpoonup> u64"
  Seen :: "nat set"

text \<open>
  A user that gets a block holds it with the size asked for; it may return a block it holds, and, by mistake, an offset
  that it has returned before.
\<close>

inductive pool_step :: "'st CFE_ES_PoolStorage \<Rightarrow> (u64 \<Rightarrow> u8 \<Rightarrow> 'st \<Rightarrow> 'st) \<Rightarrow> 'st pool_run \<Rightarrow> 'st pool_run \<Rightarrow> bool"
  for acc poke where
  get: "CFE_ES_GenPoolGetBlock acc out r (RunPool s, RunStore s) = ((p', m'), CFE_SUCCESS, off) \<Longrightarrow>
    pool_step acc poke s (s\<lparr>RunPool := p', RunStore := m', Held := (Held s)(unat off \<mapsto> r), Seen := insert (unat off) (Seen s)\<rparr>)"
| no_get: "CFE_ES_GenPoolGetBlock acc out r (RunPool s, RunStore s) = ((p', m'), st, off) \<Longrightarrow> st \<noteq> CFE_SUCCESS \<Longrightarrow>
    pool_step acc poke s (s\<lparr>RunPool := p', RunStore := m'\<rparr>)"
| put: "off \<in> Seen s \<Longrightarrow> CFE_ES_GenPoolPutBlock acc out (of_nat off) (RunPool s, RunStore s) = ((p', m'), CFE_SUCCESS, sz) \<Longrightarrow>
    pool_step acc poke s (s\<lparr>RunPool := p', RunStore := m', Held := (Held s)(off := None)\<rparr>)"
| no_put: "off \<in> Seen s \<Longrightarrow> CFE_ES_GenPoolPutBlock acc out (of_nat off) (RunPool s, RunStore s) = ((p', m'), st, sz) \<Longrightarrow> st \<noteq> CFE_SUCCESS \<Longrightarrow>
    pool_step acc poke s (s\<lparr>RunPool := p', RunStore := m'\<rparr>)"
| use: "Held s off = Some sz \<Longrightarrow> off \<le> a \<Longrightarrow> a < off + unat sz \<Longrightarrow>
    pool_step acc poke s (s\<lparr>RunStore := poke (of_nat a) v (RunStore s)\<rparr>)"

inductive_cases pool_step_cases: "pool_step acc poke s s'"

definition run_start :: "CFE_ES_GenPoolRecord \<Rightarrow> 'st \<Rightarrow> 'st pool_run" where
  "run_start p m = \<lparr>RunPool = p, RunStore = m, Held = Map.empty, Seen = {}\<rparr>"

text \<open>The places from the tail to the end of the pool area are clear.\<close>

definition clear_tail :: "CFE_ES_GenPoolRecord \<Rightarrow> bytes \<Rightarrow> bool" where
  "clear_tail p b \<longleftrightarrow> (\<forall>x. unat (TailPosition p) \<le> unat x \<and> unat x < unat (PoolMaxOffset p) \<longrightarrow> b x = 0)"

definition run_inv :: "('st \<Rightarrow> bytes) \<Rightarrow> bool \<Rightarrow> (u16 \<times> u64 \<times> u64 \<times> u64 list) \<Rightarrow> nat \<Rightarrow> nat \<Rightarrow>
    (nat \<times> nat) list \<Rightarrow> (nat \<Rightarrow> nat list) \<Rightarrow> 'st pool_run \<Rightarrow> bool" where
  "run_inv bytes z sh k start bs free s \<longleftrightarrow>
     pool_inv (RunPool s) (read_bd (bytes (RunStore s))) k start bs free \<and> shape (RunPool s) = sh \<and>
     Held s = granted (read_bd (bytes (RunStore s))) bs free \<and> Seen s \<subseteq> fst ` set bs \<and>
     (z \<longrightarrow> clear_tail (RunPool s) (bytes (RunStore s)))"

section \<open>Where the users' data is\<close>

text \<open>What is held is a block in use, with at most the size of its bucket.\<close>

lemma held_block:
  assumes inv: "pool_inv p d k start bs free" and held: "granted d bs free off = Some sz"
  shows "\<exists>i. (off, i) \<in> in_use bs free \<and> (off, i) \<in> set bs \<and> i < nbuckets p \<and> unat sz \<le> bsize p i"
proof -
  obtain i where i: "(off, i) \<in> in_use bs free" "sz = ActualSize (desc d off)"
    using held by (auto simp: granted_def split: if_splits)
  then have b: "(off, i) \<in> set bs" by (simp add: in_use_iff)
  show ?thesis using i b pool_invD(4) [OF inv b] by (auto simp: block_ok_def)
qed

lemma desc_place:
  assumes inv: "pool_inv p d k start bs free" and b: "(off, i) \<in> set bs"
  shows "in_desc (of_nat off - 24) x \<longleftrightarrow> off - 24 \<le> unat x \<and> unat x < off"
proof -
  note r = block_range [OF inv b]
  have "(2 :: nat) ^ 32 \<le> 2 ^ 64" by simp
  then have "unat (of_nat off - 24 :: u64) + 24 \<le> 2 ^ 64" using r(1,4,6) by linarith
  then show ?thesis unfolding in_desc_iff [OF \<open>unat (of_nat off - 24 :: u64) + 24 \<le> 2 ^ 64\<close>] using r(1,6) by auto
qed

text \<open>A place inside a block in use is in no descriptor.\<close>

lemma data_place:
  assumes inv: "pool_inv p d k start bs free" and b: "(off, i) \<in> set bs" "(off', j) \<in> set bs"
    and a: "off \<le> unat x" "unat x < off + bsize p i"
  shows "\<not> in_desc (of_nat off' - 24) x"
  using blocks_apart [OF inv b] a unfolding desc_place [OF inv b(2)] by auto

text \<open>The descriptors, and so the pool, do not notice writes into blocks.\<close>

lemma pool_inv_cong:
  assumes inv: "pool_inv p d k start bs free" and d: "\<And>off i. (off, i) \<in> set bs \<Longrightarrow> desc d' off = desc d off"
  shows "pool_inv p d' k start bs free" "granted d' bs free = granted d bs free"
proof -
  have "block_ok p d' free off i" if "(off, i) \<in> set bs" for off i
    using pool_invD(4) [OF inv that] d [OF that] by (simp add: block_ok_def)
  moreover have "bucket_ok p d' bs (free i) i" if i: "i < nbuckets p" for i
  proof -
    have "desc d' off = desc d off" if "off \<in> set (free i)" for off
      using pool_invD(5) [OF inv i] d that by (auto simp: bucket_ok_def)
    then show ?thesis by (intro bucket_ok_other [OF pool_invD(5) [OF inv i]]) simp_all
  qed
  ultimately show "pool_inv p d' k start bs free" using inv by (auto simp: pool_inv_def)
  have "granted d' bs free off = granted d bs free off" for off
    using d by (auto simp: granted_def in_use_def)
  then show "granted d' bs free = granted d bs free" by blast
qed

section \<open>Every state of a run\<close>

lemma recycle_shape: "shape (fst (fst (CFE_ES_GenPoolRecyclePoolBlock acc i r out (p, m)))) = shape p"
  by (simp add: CFE_ES_GenPoolRecyclePoolBlock_def Let_def shape_upd split_beta split: option.split)

lemma create_shape: "shape (fst (fst (CFE_ES_GenPoolCreatePoolBlock acc i r out (p, m)))) = shape p"
proof -
  have "shape (upd_bucket j (\<lambda>b. b\<lparr>BucketAllocationCount := BucketAllocationCount b + 1\<rparr>) (p\<lparr>TailPosition := t\<rparr>)
      \<lparr>PoolAllocationCount := n\<rparr>) = shape p" for j t n
    using shape_upd [of "\<lambda>b. b\<lparr>BucketAllocationCount := BucketAllocationCount b + 1\<rparr>" j "p\<lparr>TailPosition := t\<rparr>"]
    by (simp add: shape_def upd_bucket_def)
  then show ?thesis
    by (simp add: CFE_ES_GenPoolCreatePoolBlock_def Let_def split_beta split: option.split)
qed

lemma get_shape: "shape (fst (fst (CFE_ES_GenPoolGetBlock acc out r (p, m)))) = shape p"
proof -
  obtain p1 m1 s1 o1 where rc: "CFE_ES_GenPoolRecyclePoolBlock acc (CFE_ES_GenPoolFindBucket p r) r out (p, m) = ((p1, m1), s1, o1)"
    by (metis prod.collapse)
  then have "shape p1 = shape p" using recycle_shape [of acc "CFE_ES_GenPoolFindBucket p r" r out p m] by simp
  then show ?thesis using rc by (simp add: CFE_ES_GenPoolGetBlock_def Let_def create_shape)
qed

lemma put_shape: "shape (fst (fst (CFE_ES_GenPoolPutBlock acc out off (p, m)))) = shape p"
proof -
  have v: "shape (p\<lparr>ValidationErrorCount := n\<rparr>) = shape p" for n by (simp add: shape_def)
  show ?thesis by (simp add: CFE_ES_GenPoolPutBlock_def Let_def shape_upd v split_beta)
qed

lemma put_tail: "TailPosition (fst (fst (CFE_ES_GenPoolPutBlock acc out off (p, m)))) = TailPosition p"
  by (simp add: CFE_ES_GenPoolPutBlock_def Let_def upd_bucket_def split_beta)

lemma clear_tail_keep:
  assumes "clear_tail p b" and "TailPosition p \<le> TailPosition p'" "PoolMaxOffset p' = PoolMaxOffset p"
    and "\<And>x. unat (TailPosition p') \<le> unat x \<Longrightarrow> b' x = b x"
  shows "clear_tail p' b'"
  using assms by (fastforce simp: clear_tail_def word_le_nat_alt)

text \<open>A storage whose users can write single bytes.\<close>

locale user_storage = byte_storage +
  fixes poke :: "u64 \<Rightarrow> u8 \<Rightarrow> 'a \<Rightarrow> 'a"
  assumes poke: "bytes (poke a v m) = (bytes m)(a := v)"
begin

lemma get_step:
  assumes inv: "run_inv bytes z sh k start bs free s" and call: "CFE_ES_GenPoolGetBlock acc out r (RunPool s, RunStore s) = ((p', m'), CFE_SUCCESS, off)"
  shows "\<exists>bs' free'. run_inv bytes z sh k start bs' free'
    (s\<lparr>RunPool := p', RunStore := m', Held := (Held s)(unat off \<mapsto> r), Seen := insert (unat off) (Seen s)\<rparr>)"
proof -
  let ?p = "RunPool s" and ?m = "RunStore s"
  have pi: "pool_inv ?p (read_bd (bytes ?m)) k start bs free" using inv by (simp add: run_inv_def)
  obtain i where h: "hands_out ?p (read_bd (bytes ?m)) bs free k start r i off p' (read_bd (bytes m'))"
    using get_block [OF pi call] by blast
  obtain bs' free' where n: "pool_inv p' (read_bd (bytes m')) k start bs' free'" "in_use bs' free' = insert (unat off, i) (in_use bs free)"
    "granted (read_bd (bytes m')) bs' free' = (granted (read_bd (bytes ?m)) bs free)(unat off \<mapsto> r)" "set bs \<subseteq> set bs'"
    "TailPosition ?p \<le> TailPosition p'" using h unfolding hands_out_def by blast
  have b: "(unat off, i) \<in> set bs'" using n(2) by (metis in_use_iff insertI1)
  have sh': "shape p' = shape ?p" using get_shape [of acc out r ?p ?m] call by simp
  have "clear_tail p' (bytes m')" if z
  proof (rule clear_tail_keep)
    show "clear_tail ?p (bytes ?m)" using inv that by (simp add: run_inv_def)
    show "PoolMaxOffset p' = PoolMaxOffset ?p" using sh' by (simp add: shape_def)
    show "bytes m' x = bytes ?m x" if "unat (TailPosition p') \<le> unat x" for x
      using get_frame [OF pi call] desc_place [OF n(1) b, of x] block_range(3) [OF n(1) b] that by auto
  qed (rule n(5))
  moreover have "Seen s \<subseteq> fst ` set bs" using inv by (simp add: run_inv_def)
  then have "Seen s \<subseteq> fst ` set bs'" using image_mono [OF n(4), of fst] by (rule subset_trans)
  moreover have "unat off \<in> fst ` set bs'" by (rule image_eqI [OF _ b]) simp
  ultimately show ?thesis
    using inv n(1,3) sh' unfolding run_inv_def by (intro exI [of _ bs'] exI [of _ free']) simp
qed

lemma no_get_step:
  assumes inv: "run_inv bytes z sh k start bs free s" and call: "CFE_ES_GenPoolGetBlock acc out r (RunPool s, RunStore s) = ((p', m'), st, off)"
    and st: "st \<noteq> CFE_SUCCESS"
  shows "run_inv bytes z sh k start bs free (s\<lparr>RunPool := p', RunStore := m'\<rparr>)"
proof -
  have pi: "pool_inv (RunPool s) (read_bd (bytes (RunStore s))) k start bs free" using inv by (simp add: run_inv_def)
  have "p' = RunPool s" "bytes m' = bytes (RunStore s)"
    using get_block [OF pi call] get_frame [OF pi call] st by auto
  then show ?thesis using inv by (simp add: run_inv_def)
qed

lemma put_clear:
  assumes inv: "run_inv bytes z sh k start bs free s" and b: "(off, i) \<in> set bs" and z
    and call: "CFE_ES_GenPoolPutBlock acc out (of_nat off) (RunPool s, RunStore s) = ((p', m'), st, sz)"
  shows "clear_tail p' (bytes m')"
proof (rule clear_tail_keep)
  have pi: "pool_inv (RunPool s) (read_bd (bytes (RunStore s))) k start bs free" using inv by (simp add: run_inv_def)
  show "clear_tail (RunPool s) (bytes (RunStore s))" using inv \<open>z\<close> by (simp add: run_inv_def)
  have t: "TailPosition p' = TailPosition (RunPool s)" using put_tail [of acc out "of_nat off" "RunPool s" "RunStore s"] call by simp
  then show "TailPosition (RunPool s) \<le> TailPosition p'" by simp
  show "PoolMaxOffset p' = PoolMaxOffset (RunPool s)" using put_shape [of acc out "of_nat off" "RunPool s" "RunStore s"] call by (simp add: shape_def)
  show "bytes m' x = bytes (RunStore s) x" if "unat (TailPosition p') \<le> unat x" for x
    by (rule put_frame [OF block_near [OF pi b] call]) (use that t desc_place [OF pi b, of x] block_range(3) [OF pi b] in auto)
qed

lemma put_step:
  assumes inv: "run_inv bytes z sh k start bs free s" and off: "off \<in> Seen s"
    and call: "CFE_ES_GenPoolPutBlock acc out (of_nat off) (RunPool s, RunStore s) = ((p', m'), CFE_SUCCESS, sz)"
  shows "\<exists>bs' free'. run_inv bytes z sh k start bs' free' (s\<lparr>RunPool := p', RunStore := m', Held := (Held s)(off := None)\<rparr>)"
proof -
  let ?d = "read_bd (bytes (RunStore s))"
  have pi: "pool_inv (RunPool s) ?d k start bs free" using inv by (simp add: run_inv_def)
  obtain i where b: "(off, i) \<in> set bs" using inv off by (auto simp: run_inv_def)
  have "\<not> (off \<in> set (free i) \<or> ActualSize (desc ?d off) = 0)" using put_refused [OF pi b _ call] by blast
  then have u: "(off, i) \<in> in_use bs free" "ActualSize (desc ?d off) \<noteq> 0" using b by (auto simp: in_use_iff)
  note pb = put_block [OF pi u call]
  have "shape p' = shape (RunPool s)" using put_shape [of acc out "of_nat off" "RunPool s" "RunStore s"] call by simp
  then show ?thesis
    using pb put_clear [OF inv b _ call] inv by (intro exI [of _ bs] exI [of _ "free(i := off # free i)"]) (simp add: run_inv_def)
qed

lemma no_put_step:
  assumes inv: "run_inv bytes z sh k start bs free s" and off: "off \<in> Seen s"
    and call: "CFE_ES_GenPoolPutBlock acc out (of_nat off) (RunPool s, RunStore s) = ((p', m'), st, sz)" and st: "st \<noteq> CFE_SUCCESS"
  shows "run_inv bytes z sh k start bs free (s\<lparr>RunPool := p', RunStore := m'\<rparr>)"
proof -
  let ?d = "read_bd (bytes (RunStore s))"
  have pi: "pool_inv (RunPool s) ?d k start bs free" using inv by (simp add: run_inv_def)
  obtain i where b: "(off, i) \<in> set bs" using inv off by (auto simp: run_inv_def)
  have "read_bd (bytes m') = ?d \<and> (p' = RunPool s \<or> p' = (RunPool s)\<lparr>ValidationErrorCount := ValidationErrorCount (RunPool s) + 1\<rparr>)"
  proof (cases "(off, i) \<in> in_use bs free \<and> ActualSize (desc ?d off) \<noteq> 0")
    case True
    then show ?thesis using put_block [OF pi _ _ call] st by blast
  next
    case False
    then have "off \<in> set (free i) \<or> ActualSize (desc ?d off) = 0" using b by (auto simp: in_use_iff)
    then show ?thesis using put_refused [OF pi b _ call] by blast
  qed
  then show ?thesis using inv put_clear [OF inv b _ call] by (auto simp: run_inv_def shape_def pool_inv_errors)
qed

lemma use_step:
  assumes inv: "run_inv bytes z sh k start bs free s" and held: "Held s off = Some sz" and a: "off \<le> a" "a < off + unat sz"
  shows "run_inv bytes z sh k start bs free (s\<lparr>RunStore := poke (of_nat a) v (RunStore s)\<rparr>)"
proof -
  let ?b = "bytes (RunStore s)" and ?p = "RunPool s"
  have pi: "pool_inv ?p (read_bd ?b) k start bs free" using inv by (simp add: run_inv_def)
  obtain i where i: "(off, i) \<in> set bs" "unat sz \<le> bsize ?p i" using held_block [OF pi, of off sz] held inv by (auto simp: run_inv_def)
  note r = block_range [OF pi i(1)]
  have "a < 2 ^ 32" using a i(2) r(3) pool_invD(3,6) [OF pi] by linarith
  then have u: "unat (of_nat a :: u64) = a" by (simp add: unat_of_nat)
  have "desc (read_bd (?b(of_nat a := v))) off' = desc (read_bd ?b) off'" if "(off', j) \<in> set bs" for off' j
    unfolding desc_def
  proof (rule read_bd_cong)
    fix x assume "in_desc (of_nat off' - 24) x"
    then have "x \<noteq> of_nat a" using data_place [OF pi i(1) that, of x] u a i(2) by auto
    then show "(?b(of_nat a := v)) x = ?b x" by simp
  qed
  note c = pool_inv_cong [OF pi this]
  have "clear_tail ?p (?b(of_nat a := v))" if z
    by (rule clear_tail_keep [of ?p ?b]) (use inv that u a i(2) r(3) in \<open>auto simp: run_inv_def\<close>)
  then show ?thesis using inv c by (simp add: run_inv_def poke)
qed

lemma pool_step_inv:
  assumes "pool_step acc poke s s'" and "run_inv bytes z sh k start bs free s"
  shows "\<exists>bs' free'. run_inv bytes z sh k start bs' free' s'"
  using assms
proof (cases rule: pool_step.cases)
  case (no_get out r p' m' st off)
  then show ?thesis using no_get_step [OF assms(2)] by blast
next
  case (no_put off out p' m' st sz)
  then show ?thesis using no_put_step [OF assms(2)] by blast
next
  case (use off sz a v)
  then show ?thesis using use_step [OF assms(2)] by blast
qed (use get_step [OF assms(2)] put_step [OF assms(2)] in auto)

lemma run_reachable:
  assumes "(pool_step acc poke)\<^sup>*\<^sup>* (run_start p m) s" and "pool_inv p (read_bd (bytes m)) k start [] (\<lambda>_. [])" and "z \<longrightarrow> clear_tail p (bytes m)"
  shows "\<exists>bs free. run_inv bytes z (shape p) k start bs free s"
  using assms(1)
proof (induction rule: rtranclp_induct)
  case base
  have "granted (read_bd (bytes m)) [] (\<lambda>_. []) = Map.empty" by (simp add: granted_def in_use_def fun_eq_iff)
  then have "run_inv bytes z (shape p) k start [] (\<lambda>_. []) (run_start p m)" using assms(2,3) by (simp add: run_inv_def run_start_def)
  then show ?case by blast
next
  case (step s s')
  then show ?case using pool_step_inv by blast
qed

text \<open>In every state of a run the blocks held are aligned, inside the pool area and apart from each other.\<close>

lemma run_apart:
  assumes inv: "run_inv bytes z sh k start bs free s" and h: "Held s off = Some sz"
  shows "start + 24 \<le> off" "2 ^ k dvd off" "off + unat sz \<le> unat (PoolMaxOffset (RunPool s))"
    and "Held s off' = Some sz' \<Longrightarrow> off \<noteq> off' \<Longrightarrow> off + unat sz \<le> off' \<or> off' + unat sz' \<le> off"
proof -
  have pi: "pool_inv (RunPool s) (read_bd (bytes (RunStore s))) k start bs free" and g: "Held s = granted (read_bd (bytes (RunStore s))) bs free"
    using inv by (simp_all add: run_inv_def)
  obtain i where i: "(off, i) \<in> set bs" "unat sz \<le> bsize (RunPool s) i" using held_block [OF pi, of off sz] h g by auto
  note r = block_range [OF pi i(1)]
  show "start + 24 \<le> off" "2 ^ k dvd off" using r(1,2) by simp_all
  show "off + unat sz \<le> unat (PoolMaxOffset (RunPool s))" using r(3) i(2) pool_invD(3) [OF pi] by linarith
  assume "Held s off' = Some sz'" and n: "off \<noteq> off'"
  then obtain j where j: "(off', j) \<in> set bs" "unat sz' \<le> bsize (RunPool s) j" using held_block [OF pi, of off' sz'] g by auto
  show "off + unat sz \<le> off' \<or> off' + unat sz' \<le> off" using blocks_apart [OF pi i(1) j(1)] n i(2) j(2) by auto
qed

text \<open>The pool never writes into a block that stays held.\<close>

lemma data_kept_get:
  assumes inv: "run_inv bytes z sh k start bs free s" and h: "Held s off = Some sz" and x: "off \<le> unat x" "unat x < off + unat sz"
    and call: "CFE_ES_GenPoolGetBlock acc out r (RunPool s, RunStore s) = ((p', m'), st, new)"
  shows "bytes m' x = bytes (RunStore s) x"
proof (cases "st = CFE_SUCCESS")
  case True
  let ?d = "read_bd (bytes (RunStore s))"
  have pi: "pool_inv (RunPool s) ?d k start bs free" using inv by (simp add: run_inv_def)
  obtain i where ho: "hands_out (RunPool s) ?d bs free k start r i new p' (read_bd (bytes m'))" using get_block [OF pi call] True by blast
  obtain bs' free' where n: "pool_inv p' (read_bd (bytes m')) k start bs' free'" "in_use bs' free' = insert (unat new, i) (in_use bs free)" "set bs \<subseteq> set bs'"
    using ho unfolding hands_out_def by blast
  obtain j where j: "(off, j) \<in> set bs" "unat sz \<le> bsize (RunPool s) j" "j < nbuckets (RunPool s)" using held_block [OF pi, of off sz] h inv by (auto simp: run_inv_def)
  have b: "(off, j) \<in> set bs'" "(unat new, i) \<in> set bs'" using j(1) n(2,3) by (blast, metis in_use_iff insertI1)
  have "shape p' = shape (RunPool s)" using get_shape [of acc out r "RunPool s" "RunStore s"] call by simp
  then have "bsize p' j = bsize (RunPool s) j"
    using shape_fields(4) [of p' "RunPool s"] j(3) pool_invD(8,9) [OF pi] by simp
  then have "\<not> in_desc (of_nat (unat new) - 24) x" using data_place [OF n(1) b, of x] x j(2) by simp
  then show ?thesis using get_frame [OF pi call] True by simp
qed (use get_frame [OF _ call] inv in \<open>auto simp: run_inv_def\<close>)

lemma data_kept_put:
  assumes inv: "run_inv bytes z sh k start bs free s" and h: "Held s off = Some sz" and x: "off \<le> unat x" "unat x < off + unat sz"
    and call: "CFE_ES_GenPoolPutBlock acc out (of_nat old) (RunPool s, RunStore s) = ((p', m'), st, n)" and old: "old \<in> Seen s"
  shows "bytes m' x = bytes (RunStore s) x"
proof -
  have pi: "pool_inv (RunPool s) (read_bd (bytes (RunStore s))) k start bs free" using inv by (simp add: run_inv_def)
  obtain i where b: "(old, i) \<in> set bs" using inv old by (auto simp: run_inv_def)
  obtain j where j: "(off, j) \<in> set bs" "unat sz \<le> bsize (RunPool s) j" using held_block [OF pi, of off sz] h inv by (auto simp: run_inv_def)
  show ?thesis by (rule put_frame [OF block_near [OF pi b] call]) (use data_place [OF pi j(1) b, of x] x j(2) in simp)
qed

text \<open>An untouched tail ends the scan of the recovery.\<close>

lemma clear_scan_ends:
  assumes inv: "run_inv bytes True sh k start bs free s"
  shows "scan_ends (RunPool s) (read_bd (bytes (RunStore s)))"
proof (cases "PoolMaxOffset (RunPool s) < next_block (RunPool s)")
  case False
  let ?p = "RunPool s" and ?b = "bytes (RunStore s)"
  have pi: "pool_inv ?p (read_bd ?b) k start bs free" using inv by (simp add: run_inv_def)
  note nb = next_block_unat [OF pi]
  have "unat (next_block ?p) < 2 ^ 33 \<Longrightarrow> unat (next_block ?p - 24) + 24 \<le> 2 ^ 64" using nb(3,4) by simp
  then have lim: "unat (next_block ?p - 24) + 24 \<le> 2 ^ 64" using nb(2) by simp
  have z: "?b x = 0" if "in_desc (next_block ?p - 24) x" for x
  proof -
    have "unat (TailPosition ?p) \<le> unat x" "unat x < unat (PoolMaxOffset ?p)"
      using that nb(3,4) False unfolding in_desc_iff [OF lim] by (auto simp: word_less_nat_alt)
    then show ?thesis using inv by (simp add: run_inv_def clear_tail_def)
  qed
  have "read_bd ?b (next_block ?p - 24) = read_bd (\<lambda>_. 0) (next_block ?p - 24)" by (rule read_bd_cong) (rule z)
  moreover have l: "load n (\<lambda>_. 0) a = 0" for n a by (induction n arbitrary: a) simp_all
  ultimately have "CheckBits (read_bd ?b (next_block ?p - 24)) = 0" by (simp add: read_bd_def)
  then show ?thesis by (simp add: scan_ends_def scan_bucket_def)
qed (simp add: scan_ends_def)

lemma touches_frame:
  assumes "touches acc A m m'"
  shows "(\<And>a. a \<in> A \<Longrightarrow> \<not> in_desc a x) \<Longrightarrow> bytes m' x = bytes m x"
  using assms
proof (induction rule: touches.induct)
  case (reads m a m1)
  then show ?case using fetch [OF reads(1,2)] by simp
next
  case (writes a m m1 bd m2)
  then show ?case using update_frame [OF writes(2-4)] by simp
qed simp

end

text \<open>A storage that never fails, with users.\<close>

locale reliable_user_storage = user_storage + reliable_byte_storage
begin

lemma restart:
  assumes inv: "run_inv bytes True (shape p) k start bs free s" and p: "pool_inv p (read_bd (bytes (RunStore s))) k start [] (\<lambda>_. [])"
    and t: "unat (TailPosition p) = start" and lim: "unat (PoolMaxOffset p) \<le> lim"
  shows "\<exists>p' m' free'. CFE_ES_GenPoolRebuild acc (p, RunStore s) = Some ((p', m'), CFE_SUCCESS) \<and>
    run_inv bytes True (shape p) k start bs free' (s\<lparr>RunPool := p', RunStore := m'\<rparr>) \<and>
    (\<forall>x. (\<forall>off i. (off, i) \<in> set bs \<longrightarrow> \<not> in_desc (of_nat off - 24) x) \<longrightarrow> bytes m' x = bytes (RunStore s) x)"
proof -
  let ?q = "RunPool s" and ?m = "RunStore s"
  have pi: "pool_inv ?q (read_bd (bytes ?m)) k start bs free" and sh: "shape p = shape ?q" and g: "Held s = granted (read_bd (bytes ?m)) bs free"
    using inv by (simp_all add: run_inv_def)
  obtain p' m' free' where r: "CFE_ES_GenPoolRebuild acc (p, ?m) = Some ((p', m'), CFE_SUCCESS)" "pool_inv p' (read_bd (bytes m')) k start bs free'"
    "in_use bs free' = in_use bs free" "granted (read_bd (bytes m')) bs free' = granted (read_bd (bytes ?m)) bs free" "shape p' = shape ?q"
    "m' = ?m \<or> touches acc ((\<lambda>(off, i). of_nat off - 24) ` set bs) ?m m'" "TailPosition p' = TailPosition ?q"
    using rebuild_recovers [OF pi p t refl sh clear_scan_ends [OF inv]] sh lim by (auto simp: shape_def)
  have same: "bytes m' x = bytes ?m x" if "\<And>off i. (off, i) \<in> set bs \<Longrightarrow> \<not> in_desc (of_nat off - 24) x" for x
  proof (cases "m' = ?m")
    case False
    then have t: "touches acc ((\<lambda>(off, i). of_nat off - 24) ` set bs) ?m m'" using r(6) by blast
    show ?thesis by (rule touches_frame [OF t]) (use that in auto)
  qed simp
  have "clear_tail p' (bytes m')"
  proof (rule clear_tail_keep [of ?q "bytes ?m"])
    show "clear_tail ?q (bytes ?m)" using inv by (simp add: run_inv_def)
    show "PoolMaxOffset p' = PoolMaxOffset ?q" using r(5) by (simp add: shape_def)
    show "bytes m' x = bytes ?m x" if x: "unat (TailPosition p') \<le> unat x" for x
    proof (rule same)
      fix off i assume "(off, i) \<in> set bs"
      from desc_place [OF pi this] block_range(3) [OF pi this] show "\<not> in_desc (of_nat off - 24) x" using x r(7) by simp
    qed
  qed (simp add: r(7))
  then have "run_inv bytes True (shape p) k start bs free' (s\<lparr>RunPool := p', RunStore := m'\<rparr>)"
    using inv r(2,4,5) sh by (simp add: run_inv_def)
  then show ?thesis using r(1) same by blast
qed

end

section \<open>What the pool leaves alone\<close>

text \<open>
  A relation between storages that reading and writing descriptors respects, such as that all data other than the
  descriptors is the same, holds across every operation of a pool.
\<close>

locale storage_frame =
  fixes acc :: "'st CFE_ES_PoolStorage" and R :: "'st \<Rightarrow> 'st \<Rightarrow> bool"
  assumes R_refl: "R m m" and R_trans: "R m1 m2 \<Longrightarrow> R m2 m3 \<Longrightarrow> R m1 m3"
    and R_retrieve: "R m (fst (Retrieve acc m a))" and R_set: "R m (SetBd acc m a bd)" and R_commit: "R m (fst (Commit acc m a))"
begin

lemma R_update: "R m (fst (Commit acc (SetBd acc (fst (Retrieve acc m a)) a bd) a))"
  by (rule R_trans [OF R_retrieve R_trans [OF R_set R_commit]])

lemma recycle_rel: "R m (snd (fst (CFE_ES_GenPoolRecyclePoolBlock acc i r out (p, m))))"
  by (cases "CFE_ES_GenPoolGetBucketState p i")
    (simp_all add: CFE_ES_GenPoolRecyclePoolBlock_def Let_def split_beta R_refl R_retrieve R_update)

lemma create_rel: "R m (snd (fst (CFE_ES_GenPoolCreatePoolBlock acc i r out (p, m))))"
  by (cases "CFE_ES_GenPoolGetBucketState p i")
    (simp_all add: CFE_ES_GenPoolCreatePoolBlock_def Let_def split_beta R_refl R_retrieve R_update)

lemma get_rel: "R m (snd (fst (CFE_ES_GenPoolGetBlock acc out r (p, m))))"
proof -
  obtain p1 m1 s1 o1 where rc: "CFE_ES_GenPoolRecyclePoolBlock acc (CFE_ES_GenPoolFindBucket p r) r out (p, m) = ((p1, m1), s1, o1)"
    by (metis prod.collapse)
  have "R m m1" using recycle_rel [of m "CFE_ES_GenPoolFindBucket p r" r out p] rc by simp
  then show ?thesis
    using R_trans [OF _ create_rel] by (simp add: CFE_ES_GenPoolGetBlock_def Let_def rc R_refl)
qed

lemma put_rel: "R m (snd (fst (CFE_ES_GenPoolPutBlock acc out off (p, m))))"
  by (simp add: CFE_ES_GenPoolPutBlock_def Let_def split_beta R_refl R_retrieve R_update)

lemma size_rel: "R m (snd (fst (CFE_ES_GenPoolGetBlockSize acc out off (p, m))))"
  by (simp add: CFE_ES_GenPoolGetBlockSize_def Let_def split_beta R_refl R_retrieve)

lemma rebuild_rel: "CFE_ES_GenPoolRebuild acc (p, m) = Some ((p', m'), st) \<Longrightarrow> R m m'"
proof -
  have "acc' = acc \<longrightarrow> R (snd pm) (snd (fst res))" if "CFE_ES_GenPoolRebuild acc' pm = Some res" for acc' pm res
  proof (rule CFE_ES_GenPoolRebuild.raw_induct [where P = "\<lambda>a pm res. a = acc \<longrightarrow> R (snd pm) (snd (fst res))", OF _ that], goal_cases)
    case (1 rebuild a pm res)
    obtain p m where pm: "pm = (p, m)" by fastforce
    obtain m1 s1 where r: "Retrieve acc m (next_block p - 24) = (m1, s1)" by fastforce
    have R1: "R m m1" using R_retrieve [of m "next_block p - 24"] r by simp
    have R2: "R m m2" if "Commit acc (SetBd acc m1 (next_block p - 24) bd) (next_block p - 24) = (m2, s2)" for bd m2 s2
      using R_update [of m "next_block p - 24" bd] r that by simp
    have IH: "R m' (snd (fst res))" if "rebuild acc (p', m') = Some res" for p' m' using 1(1) [OF that] by simp
    show ?case
    proof
      assume a: "a = acc"
      show "R (snd pm) (snd (fst res))"
        using 1(2) r R1 R2 R_refl R_trans [OF R1 IH] R_trans [OF R2 IH]
        by (auto simp: pm a Let_def split: if_splits option.splits prod.splits)
    qed
  qed
  then show "CFE_ES_GenPoolRebuild acc (p, m) = Some ((p', m'), st) \<Longrightarrow> R m m'" by fastforce
qed

end

end
