(* ===== verification/CFS_Printf.thy ===== *)
theory CFS_Printf
  imports CFS_Prelude
begin

text \<open>
  The conversions of the C formatting functions that the flight executive uses in its messages: unsigned and signed
  decimal, hexadecimal with leading zeros, and the bounded output of \<open>snprintf\<close>.  Text is a list of characters without
  its terminator; a buffer is the list of all its characters.
\<close>

definition digit_char :: "nat \<Rightarrow> char" where
  "digit_char n = char_of (if n < 10 then 48 + n else 87 + n)"

definition digit_CHAR :: "nat \<Rightarrow> char" where
  "digit_CHAR n = char_of (if n < 10 then 48 + n else 55 + n)"

text \<open>The digits of a number in a base of at least two.\<close>

function print_base :: "(nat \<Rightarrow> char) \<Rightarrow> nat \<Rightarrow> nat \<Rightarrow> string" where
  "print_base dig b n = (if b < 2 \<or> n < b then [dig n] else print_base dig b (n div b) @ [dig (n mod b)])"
  by pat_completeness auto
termination by (relation "measure (\<lambda>(dig, b, n). n)") auto

declare print_base.simps [simp del]

definition fmt_u :: "nat \<Rightarrow> string" where
  "fmt_u n = print_base digit_char 10 n"

definition fmt_d :: "int \<Rightarrow> string" where
  "fmt_d i = (if i < 0 then CHR ''-'' # fmt_u (nat (- i)) else fmt_u (nat i))"

text \<open>\<open>%0wx\<close> and \<open>%0wX\<close>; a width of zero adds nothing.\<close>

definition fmt_x :: "nat \<Rightarrow> nat \<Rightarrow> string" where
  "fmt_x w n = (let s = print_base digit_char 16 n in replicate (w - length s) (CHR ''0'') @ s)"

definition fmt_X :: "nat \<Rightarrow> nat \<Rightarrow> string" where
  "fmt_X w n = (let s = print_base digit_CHAR 16 n in replicate (w - length s) (CHR ''0'') @ s)"

text \<open>
  \<open>snprintf\<close> into a buffer of \<open>n\<close> characters: what fits, a terminator, the rest of the buffer as it was; the result
  is the length of the whole text.
\<close>

definition snprintf :: "nat \<Rightarrow> string \<Rightarrow> string \<Rightarrow> string \<times> nat" where
  "snprintf n txt buf =
     (if n = 0 then buf else take (n - 1) txt @ CHR 0x00 # drop (min (n - 1) (length txt) + 1) buf, length txt)"

text \<open>The C string at the start of an array.\<close>

definition cstring :: "string \<Rightarrow> string" where
  "cstring s = takeWhile (\<lambda>c. c \<noteq> CHR 0x00) s"

text \<open>
  \<open>strncpy (dst, src, n - 1)\<close> followed by \<open>dst[n - 1] = 0\<close>, for \<open>0 < n\<close>: the start of the string, zeros up to \<open>n\<close>, and
  the rest of the array as it was.
\<close>

definition copy_name :: "nat \<Rightarrow> string \<Rightarrow> string \<Rightarrow> string" where
  "copy_name n src dst = take (n - 1) src @ replicate (n - length (take (n - 1) src)) (CHR 0x00) @ drop n dst"

section \<open>Lemmas\<close>

lemma no_nul_cstring [simp]: "CHR 0x00 \<notin> set (cstring s)"
  by (auto simp: cstring_def dest: set_takeWhileD)

lemma cstring_id: "CHR 0x00 \<notin> set s \<Longrightarrow> cstring s = s"
  by (auto simp: cstring_def takeWhile_eq_all_conv)

lemma cstring_terminated: "CHR 0x00 \<notin> set s \<Longrightarrow> cstring (s @ CHR 0x00 # t) = s"
  by (auto simp: cstring_def takeWhile_append)

lemma cstring_padded: "CHR 0x00 \<notin> set s \<Longrightarrow> cstring (s @ replicate n (CHR 0x00)) = s"
  by (cases n) (simp_all add: cstring_id cstring_terminated)

lemma copy_name_length [simp]: "0 < n \<Longrightarrow> n \<le> length dst \<Longrightarrow> length (copy_name n src dst) = length dst"
  by (simp add: copy_name_def)

lemma copy_name_cstring: "0 < n \<Longrightarrow> CHR 0x00 \<notin> set src \<Longrightarrow> cstring (copy_name n src dst) = take (n - 1) src"
proof -
  assume n: "0 < n" and src: "CHR 0x00 \<notin> set src"
  let ?k = "n - length (take (n - 1) src)"
  have "?k = Suc (?k - 1)" using n by simp
  then have "copy_name n src dst = take (n - 1) src @ CHR 0x00 # replicate (?k - 1) (CHR 0x00) @ drop n dst"
    unfolding copy_name_def by (metis append_Cons replicate_Suc)
  moreover have "CHR 0x00 \<notin> set (take (n - 1) src)" using src by (blast dest: in_set_takeD)
  ultimately show ?thesis by (metis cstring_terminated)
qed

text \<open>A character in a byte.\<close>

lemma char_of_of_char_u8: "char_of (unat (of_char c :: u8)) = c"
proof -
  have "unat (of_char c :: u8) = of_char c"
  proof -
    have "(of_char c :: u8) = of_nat (of_char c)" by (simp only: of_nat_of_char)
    moreover have "(of_char c :: nat) < 256" by simp
    ultimately show ?thesis by (simp add: unat_of_nat)
  qed
  then show ?thesis by simp
qed

lemma length_snprintf: "length buf = n \<Longrightarrow> length (fst (snprintf n txt buf)) = n"
  by (cases buf) (auto simp: snprintf_def min_def)

lemma nth_snprintf_end: "length buf = n \<Longrightarrow> 0 < n \<Longrightarrow> CHR 0x00 \<in> set (fst (snprintf n txt buf))"
  by (auto simp: snprintf_def)

text \<open>The value of a digit string, and that printing is the inverse of reading.\<close>

fun base_val :: "nat \<Rightarrow> nat list \<Rightarrow> nat" where
  "base_val b [] = 0"
| "base_val b (d # ds) = d * b ^ length ds + base_val b ds"

lemma base_val_append: "base_val b (xs @ ys) = base_val b xs * b ^ length ys + base_val b ys"
  by (induction xs) (simp_all add: power_add algebra_simps)

lemma print_base_value:
  "2 \<le> b \<Longrightarrow> \<exists>ds. print_base dig b n = map dig ds \<and> base_val b ds = n \<and> (\<forall>d\<in>set ds. d < b)"
proof (induction n rule: less_induct)
  case (less n)
  show ?case
  proof (cases "n < b")
    case True
    then show ?thesis by (intro exI [of _ "[n]"]) (simp add: print_base.simps [of dig b n])
  next
    case False
    have "n div b < n" using False less.prems by (intro div_less_dividend) linarith+
    from less.IH [OF this less.prems] obtain ds
      where "print_base dig b (n div b) = map dig ds" "base_val b ds = n div b" "\<forall>d\<in>set ds. d < b" by blast
    with False less.prems show ?thesis
      by (intro exI [of _ "ds @ [n mod b]"]) (auto simp: print_base.simps [of dig b n] base_val_append)
  qed
qed

end
