(* ===== verification/CFE_ES_Resource.thy ===== *)
theory CFE_ES_Resource
  imports CFE_ResourceId CFS_Printf
begin

text \<open>
  The tables of executive services that other components look applications, libraries and counters up in
  (\<^verbatim>\<open>cfe_es_resource.c\<close>, \<^verbatim>\<open>cfe_es_resource.h\<close> and the calls of \<^verbatim>\<open>cfe_es_api.c\<close> that use them), and the generic
  counters, whose operations are all here.

  Of the application, library and task records only the id and the name are here; the task of the caller is found through
  the operating system, so that its application is an argument.  A \<open>char\<close> array is the list of its characters, a string
  argument the list of the characters before its terminator.  The mutex around the tables has no other effect
  than to make a call one step.
\<close>

abbreviation (input) CFE_ES_ERR_NAME_NOT_FOUND :: int32 where "CFE_ES_ERR_NAME_NOT_FOUND \<equiv> 0xc4000002"
abbreviation (input) CFE_ES_BAD_ARGUMENT :: int32 where "CFE_ES_BAD_ARGUMENT \<equiv> 0xc400000a"
abbreviation (input) CFE_ES_ERR_DUPLICATE_NAME :: int32 where "CFE_ES_ERR_DUPLICATE_NAME \<equiv> 0xc400002E"
abbreviation (input) CFE_ES_NO_RESOURCE_IDS_AVAILABLE :: int32 where "CFE_ES_NO_RESOURCE_IDS_AVAILABLE \<equiv> 0xc400002B"
abbreviation (input) CFE_ES_LIBID_BASE :: u32 where "CFE_ES_LIBID_BASE \<equiv> 0x120000"
abbreviation (input) CFE_ES_COUNTID_BASE :: u32 where "CFE_ES_COUNTID_BASE \<equiv> 0x130000"
abbreviation (input) CFE_PLATFORM_ES_MAX_LIBRARIES :: u32 where "CFE_PLATFORM_ES_MAX_LIBRARIES \<equiv> 10"
abbreviation (input) CFE_PLATFORM_ES_MAX_GEN_COUNTERS :: u32 where "CFE_PLATFORM_ES_MAX_GEN_COUNTERS \<equiv> 8"
abbreviation (input) OS_MAX_API_NAME :: nat where "OS_MAX_API_NAME \<equiv> 20"

section \<open>Tables\<close>

record CFE_ES_AppRecord =
  AppRecId :: CFE_ResourceId
  AppRecName :: string

record CFE_ES_LibRecord =
  LibRecId :: CFE_ResourceId
  LibRecName :: string

record CFE_ES_GenCounterRecord =
  CounterId :: CFE_ResourceId
  Counter :: u32
  CounterName :: string

record CFE_ES_Tables =
  AppTable :: "CFE_ES_AppRecord list"
  LibTable :: "CFE_ES_LibRecord list"
  CounterTable :: "CFE_ES_GenCounterRecord list"
  LastCounterId :: CFE_ResourceId

text \<open>The loop over a table that stops at the first used entry with the name.\<close>

fun find_named :: "('r \<Rightarrow> bool) \<Rightarrow> ('r \<Rightarrow> string) \<Rightarrow> string \<Rightarrow> 'r list \<Rightarrow> nat ptr" where
  "find_named isUsed getName Name [] = NULL"
| "find_named isUsed getName Name (r # rs) =
     (if isUsed r \<and> Name = cstring (getName r) then Some 0 else map_option Suc (find_named isUsed getName Name rs))"

lemma find_named_Some:
  assumes "find_named u f n rs = Some i"
  shows "i < length rs \<and> u (rs ! i) \<and> cstring (f (rs ! i)) = n \<and> (\<forall>j < i. u (rs ! j) \<longrightarrow> cstring (f (rs ! j)) \<noteq> n)"
  using assms
proof (induction rs arbitrary: i)
  case (Cons r rs)
  show ?case
  proof (cases "u r \<and> n = cstring (f r)")
    case False
    then obtain k where k: "find_named u f n rs = Some k" "i = Suc k" using Cons.prems by auto
    from Cons.IH [OF k(1)] show ?thesis using False k(2) by (auto simp: less_Suc_eq_0_disj)
  qed (use Cons.prems in auto)
qed simp

lemma find_named_None: "find_named u f n rs = NULL \<longleftrightarrow> (\<forall>i < length rs. u (rs ! i) \<longrightarrow> cstring (f (rs ! i)) \<noteq> n)"
  by (induction rs) (auto simp: less_Suc_eq_0_disj)

text \<open>In a table without duplicate names the search finds the entry.\<close>

lemma find_named_unique:
  assumes "i < length rs" "u (rs ! i)" "cstring (f (rs ! i)) = n"
    and "\<And>j. j < length rs \<Longrightarrow> u (rs ! j) \<Longrightarrow> cstring (f (rs ! j)) = n \<Longrightarrow> j = i"
  shows "find_named u f n rs = Some i"
proof (cases "find_named u f n rs")
  case None
  then show ?thesis using assms(1-3) by (auto simp: find_named_None)
next
  case (Some j)
  then show ?thesis using find_named_Some [OF Some] assms(4) by auto
qed

section \<open>Applications and libraries\<close>

definition CFE_ES_LibID_ToIndex :: "CFE_ResourceId \<Rightarrow> u32 ptr \<Rightarrow> int32 \<times> u32 ptr" where
  "CFE_ES_LibID_ToIndex LibId Idx = CFE_ResourceId_ToIndex LibId CFE_ES_LIBID_BASE CFE_PLATFORM_ES_MAX_LIBRARIES Idx"

definition CFE_ES_CounterID_ToIndex :: "CFE_ResourceId \<Rightarrow> u32 ptr \<Rightarrow> int32 \<times> u32 ptr" where
  "CFE_ES_CounterID_ToIndex CtrId Idx = CFE_ResourceId_ToIndex CtrId CFE_ES_COUNTID_BASE CFE_PLATFORM_ES_MAX_GEN_COUNTERS Idx"

definition CFE_ES_LocateAppRecordByID :: "CFE_ResourceId \<Rightarrow> nat ptr" where
  "CFE_ES_LocateAppRecordByID AppID =
     (let (st, Idx) = CFE_ES_AppID_ToIndex AppID (Some 0) in if st = CFE_SUCCESS then map_option unat Idx else NULL)"

definition CFE_ES_LocateLibRecordByID :: "CFE_ResourceId \<Rightarrow> nat ptr" where
  "CFE_ES_LocateLibRecordByID LibID =
     (let (st, Idx) = CFE_ES_LibID_ToIndex LibID (Some 0) in if st = CFE_SUCCESS then map_option unat Idx else NULL)"

definition CFE_ES_LocateCounterRecordByID :: "CFE_ResourceId \<Rightarrow> nat ptr" where
  "CFE_ES_LocateCounterRecordByID CtrID =
     (let (st, Idx) = CFE_ES_CounterID_ToIndex CtrID (Some 0) in if st = CFE_SUCCESS then map_option unat Idx else NULL)"

definition CFE_ES_AppRecordIsUsed :: "CFE_ES_AppRecord \<Rightarrow> bool" where
  "CFE_ES_AppRecordIsUsed r \<longleftrightarrow> AppRecId r \<noteq> CFE_RESOURCEID_UNDEFINED"

definition CFE_ES_AppRecordIsMatch :: "CFE_ES_Tables \<Rightarrow> nat ptr \<Rightarrow> CFE_ResourceId \<Rightarrow> bool" where
  "CFE_ES_AppRecordIsMatch g AppRecPtr AppID \<longleftrightarrow> AppRecPtr \<noteq> NULL \<and> AppRecId (AppTable g ! the AppRecPtr) = AppID"

definition CFE_ES_LibRecordIsUsed :: "CFE_ES_LibRecord \<Rightarrow> bool" where
  "CFE_ES_LibRecordIsUsed r \<longleftrightarrow> LibRecId r \<noteq> CFE_RESOURCEID_UNDEFINED"

definition CFE_ES_LibRecordIsMatch :: "CFE_ES_Tables \<Rightarrow> nat ptr \<Rightarrow> CFE_ResourceId \<Rightarrow> bool" where
  "CFE_ES_LibRecordIsMatch g LibRecPtr LibID \<longleftrightarrow> LibRecPtr \<noteq> NULL \<and> LibRecId (LibTable g ! the LibRecPtr) = LibID"

definition CFE_ES_LocateAppRecordByName :: "CFE_ES_Tables \<Rightarrow> string \<Rightarrow> nat ptr" where
  "CFE_ES_LocateAppRecordByName g Name = find_named CFE_ES_AppRecordIsUsed AppRecName Name (AppTable g)"

definition CFE_ES_LocateLibRecordByName :: "CFE_ES_Tables \<Rightarrow> string \<Rightarrow> nat ptr" where
  "CFE_ES_LocateLibRecordByName g Name = find_named CFE_ES_LibRecordIsUsed LibRecName Name (LibTable g)"

definition CFE_ES_CheckAppIdSlotUsed :: "CFE_ES_Tables \<Rightarrow> CFE_ResourceId \<Rightarrow> bool" where
  "CFE_ES_CheckAppIdSlotUsed g CheckId = CFE_ES_AppRecordIsUsed (AppTable g ! the (CFE_ES_LocateAppRecordByID CheckId))"

definition CFE_ES_CheckLibIdSlotUsed :: "CFE_ES_Tables \<Rightarrow> CFE_ResourceId \<Rightarrow> bool" where
  "CFE_ES_CheckLibIdSlotUsed g CheckId = CFE_ES_LibRecordIsUsed (LibTable g ! the (CFE_ES_LocateLibRecordByID CheckId))"

text \<open>\<open>task\<close> is the application of the record of the calling task, NULL when it has none.\<close>

definition CFE_ES_GetAppRecordByContext :: "CFE_ResourceId ptr \<Rightarrow> CFE_ES_Tables \<Rightarrow> nat ptr" where
  "CFE_ES_GetAppRecordByContext task g =
     (case task of
        None \<Rightarrow> NULL
      | Some AppId \<Rightarrow>
          let AppRecPtr = CFE_ES_LocateAppRecordByID AppId
          in if \<not> CFE_ES_AppRecordIsMatch g AppRecPtr AppId then NULL else AppRecPtr)"

definition CFE_ES_GetAppID :: "CFE_ResourceId ptr \<Rightarrow> CFE_ES_Tables \<Rightarrow> int32 \<times> CFE_ResourceId" where
  "CFE_ES_GetAppID task g =
     (case CFE_ES_GetAppRecordByContext task g of
        Some i \<Rightarrow> (CFE_SUCCESS, AppRecId (AppTable g ! i))
      | None \<Rightarrow> (CFE_ES_ERR_RESOURCEID_NOT_VALID, CFE_RESOURCEID_UNDEFINED))"

definition CFE_ES_GetAppIDByName :: "CFE_ResourceId ptr \<Rightarrow> string ptr \<Rightarrow> CFE_ES_Tables \<Rightarrow> int32 \<times> CFE_ResourceId ptr" where
  "CFE_ES_GetAppIDByName AppIdPtr Name g =
     (if Name = NULL \<or> AppIdPtr = NULL then (CFE_ES_BAD_ARGUMENT, AppIdPtr)
      else case CFE_ES_LocateAppRecordByName g (the Name) of
             None \<Rightarrow> (CFE_ES_ERR_NAME_NOT_FOUND, Some CFE_RESOURCEID_UNDEFINED)
           | Some i \<Rightarrow> (CFE_SUCCESS, Some (AppRecId (AppTable g ! i))))"

definition CFE_ES_GetLibIDByName :: "CFE_ResourceId ptr \<Rightarrow> string ptr \<Rightarrow> CFE_ES_Tables \<Rightarrow> int32 \<times> CFE_ResourceId ptr" where
  "CFE_ES_GetLibIDByName LibIdPtr Name g =
     (if Name = NULL \<or> LibIdPtr = NULL then (CFE_ES_BAD_ARGUMENT, LibIdPtr)
      else case CFE_ES_LocateLibRecordByName g (the Name) of
             None \<Rightarrow> (CFE_ES_ERR_NAME_NOT_FOUND, Some CFE_RESOURCEID_UNDEFINED)
           | Some i \<Rightarrow> (CFE_SUCCESS, Some (LibRecId (LibTable g ! i))))"

text \<open>The caller's buffer is given with its contents, which are longer than \<open>BufferLength\<close> or as long.\<close>

definition CFE_ES_GetAppName :: "string ptr \<Rightarrow> CFE_ResourceId \<Rightarrow> nat \<Rightarrow> CFE_ES_Tables \<Rightarrow> int32 \<times> string ptr" where
  "CFE_ES_GetAppName Buf AppId BufferLength g =
     (if BufferLength = 0 \<or> Buf = NULL then (CFE_ES_BAD_ARGUMENT, Buf)
      else
        let AppRecPtr = CFE_ES_LocateAppRecordByID AppId
        in if CFE_ES_AppRecordIsMatch g AppRecPtr AppId
           then (CFE_SUCCESS, Some (copy_name BufferLength (cstring (AppRecName (AppTable g ! the AppRecPtr))) (the Buf)))
           else (CFE_ES_ERR_RESOURCEID_NOT_VALID, Some ((the Buf)[0 := CHR 0x00])))"

definition CFE_ES_GetLibName :: "string ptr \<Rightarrow> CFE_ResourceId \<Rightarrow> nat \<Rightarrow> CFE_ES_Tables \<Rightarrow> int32 \<times> string ptr" where
  "CFE_ES_GetLibName Buf LibId BufferLength g =
     (if BufferLength = 0 \<or> Buf = NULL then (CFE_ES_BAD_ARGUMENT, Buf)
      else
        let LibRecPtr = CFE_ES_LocateLibRecordByID LibId
        in if CFE_ES_LibRecordIsMatch g LibRecPtr LibId
           then (CFE_SUCCESS, Some (copy_name BufferLength (cstring (LibRecName (LibTable g ! the LibRecPtr))) (the Buf)))
           else (CFE_ES_ERR_RESOURCEID_NOT_VALID, Some ((the Buf)[0 := CHR 0x00])))"

section \<open>Generic counters\<close>

definition CFE_ES_CounterRecordIsUsed :: "CFE_ES_GenCounterRecord \<Rightarrow> bool" where
  "CFE_ES_CounterRecordIsUsed r \<longleftrightarrow> CounterId r \<noteq> CFE_RESOURCEID_UNDEFINED"

definition CFE_ES_CounterRecordIsMatch :: "CFE_ES_Tables \<Rightarrow> nat ptr \<Rightarrow> CFE_ResourceId \<Rightarrow> bool" where
  "CFE_ES_CounterRecordIsMatch g CountRecPtr CtrID \<longleftrightarrow> CountRecPtr \<noteq> NULL \<and> CounterId (CounterTable g ! the CountRecPtr) = CtrID"

definition CFE_ES_LocateCounterRecordByName :: "CFE_ES_Tables \<Rightarrow> string \<Rightarrow> nat ptr" where
  "CFE_ES_LocateCounterRecordByName g Name = find_named CFE_ES_CounterRecordIsUsed CounterName Name (CounterTable g)"

definition CFE_ES_CheckCounterIdSlotUsed :: "CFE_ES_Tables \<Rightarrow> CFE_ResourceId \<Rightarrow> bool" where
  "CFE_ES_CheckCounterIdSlotUsed g CheckId = CFE_ES_CounterRecordIsUsed (CounterTable g ! the (CFE_ES_LocateCounterRecordByID CheckId))"

definition upd_counter :: "nat \<Rightarrow> (CFE_ES_GenCounterRecord \<Rightarrow> CFE_ES_GenCounterRecord) \<Rightarrow> CFE_ES_Tables \<Rightarrow> CFE_ES_Tables" where
  "upd_counter i f g = g\<lparr>CounterTable := (CounterTable g)[i := f (CounterTable g ! i)]\<rparr>"

definition CFE_ES_CounterRecordSetUsed :: "nat \<Rightarrow> CFE_ResourceId \<Rightarrow> CFE_ES_Tables \<Rightarrow> CFE_ES_Tables" where
  "CFE_ES_CounterRecordSetUsed i PendingId g = upd_counter i (\<lambda>r. r\<lparr>CounterId := PendingId\<rparr>) g"

definition CFE_ES_CounterRecordSetFree :: "nat \<Rightarrow> CFE_ES_Tables \<Rightarrow> CFE_ES_Tables" where
  "CFE_ES_CounterRecordSetFree i g = upd_counter i (\<lambda>r. r\<lparr>CounterId := CFE_RESOURCEID_UNDEFINED\<rparr>) g"

definition CFE_ES_RegisterGenCounter ::
  "CFE_ResourceId ptr \<Rightarrow> string ptr \<Rightarrow> CFE_ES_Tables \<Rightarrow> CFE_ES_Tables \<times> int32 \<times> CFE_ResourceId ptr" where
  "CFE_ES_RegisterGenCounter CounterIdPtr Name g =
     (if Name = NULL \<or> CounterIdPtr = NULL then (g, CFE_ES_BAD_ARGUMENT, CounterIdPtr)
      else if length (the Name) \<ge> OS_MAX_API_NAME then (g, CFE_ES_BAD_ARGUMENT, CounterIdPtr)
      else if CFE_ES_LocateCounterRecordByName g (the Name) \<noteq> NULL
      then (g, CFE_ES_ERR_DUPLICATE_NAME, Some CFE_RESOURCEID_UNDEFINED)
      else
        let PendingResourceId = CFE_ResourceId_FindNext (LastCounterId g) CFE_PLATFORM_ES_MAX_GEN_COUNTERS (CFE_ES_CheckCounterIdSlotUsed g)
        in case CFE_ES_LocateCounterRecordByID PendingResourceId of
             None \<Rightarrow> (g, CFE_ES_NO_RESOURCE_IDS_AVAILABLE, Some PendingResourceId)
           | Some i \<Rightarrow>
               let g = upd_counter i (\<lambda>r. r\<lparr>CounterName := copy_name OS_MAX_API_NAME (the Name) (CounterName r)\<rparr>) g;
                   g = upd_counter i (\<lambda>r. r\<lparr>Counter := 0\<rparr>) g;
                   g = CFE_ES_CounterRecordSetUsed i PendingResourceId g;
                   g = g\<lparr>LastCounterId := PendingResourceId\<rparr>
               in (g, CFE_SUCCESS, Some PendingResourceId))"

definition CFE_ES_DeleteGenCounter :: "CFE_ResourceId \<Rightarrow> CFE_ES_Tables \<Rightarrow> CFE_ES_Tables \<times> int32" where
  "CFE_ES_DeleteGenCounter CtrId g =
     (case CFE_ES_LocateCounterRecordByID CtrId of
        None \<Rightarrow> (g, CFE_ES_BAD_ARGUMENT)
      | Some i \<Rightarrow>
          if CFE_ES_CounterRecordIsMatch g (Some i) CtrId
          then let g = upd_counter i (\<lambda>r. r\<lparr>Counter := 0\<rparr>) g in (CFE_ES_CounterRecordSetFree i g, CFE_SUCCESS)
          else (g, CFE_ES_BAD_ARGUMENT))"

definition CFE_ES_IncrementGenCounter :: "CFE_ResourceId \<Rightarrow> CFE_ES_Tables \<Rightarrow> CFE_ES_Tables \<times> int32" where
  "CFE_ES_IncrementGenCounter CtrId g =
     (let CountRecPtr = CFE_ES_LocateCounterRecordByID CtrId
      in if CFE_ES_CounterRecordIsMatch g CountRecPtr CtrId
         then (upd_counter (the CountRecPtr) (\<lambda>r. r\<lparr>Counter := Counter r + 1\<rparr>) g, CFE_SUCCESS)
         else (g, CFE_ES_BAD_ARGUMENT))"

definition CFE_ES_SetGenCount :: "CFE_ResourceId \<Rightarrow> u32 \<Rightarrow> CFE_ES_Tables \<Rightarrow> CFE_ES_Tables \<times> int32" where
  "CFE_ES_SetGenCount CtrId Count g =
     (let CountRecPtr = CFE_ES_LocateCounterRecordByID CtrId
      in if CFE_ES_CounterRecordIsMatch g CountRecPtr CtrId
         then (upd_counter (the CountRecPtr) (\<lambda>r. r\<lparr>Counter := Count\<rparr>) g, CFE_SUCCESS)
         else (g, CFE_ES_BAD_ARGUMENT))"

definition CFE_ES_GetGenCount :: "CFE_ResourceId \<Rightarrow> u32 ptr \<Rightarrow> CFE_ES_Tables \<Rightarrow> int32 \<times> u32 ptr" where
  "CFE_ES_GetGenCount CtrId Count g =
     (let CountRecPtr = CFE_ES_LocateCounterRecordByID CtrId
      in if CFE_ES_CounterRecordIsMatch g CountRecPtr CtrId \<and> Count \<noteq> NULL
         then (CFE_SUCCESS, Some (Counter (CounterTable g ! the CountRecPtr)))
         else (CFE_ES_BAD_ARGUMENT, Count))"

definition CFE_ES_GetGenCounterIDByName :: "CFE_ResourceId ptr \<Rightarrow> string ptr \<Rightarrow> CFE_ES_Tables \<Rightarrow> int32 \<times> CFE_ResourceId ptr" where
  "CFE_ES_GetGenCounterIDByName CounterIdPtr Name g =
     (if Name = NULL \<or> CounterIdPtr = NULL then (CFE_ES_BAD_ARGUMENT, CounterIdPtr)
      else case CFE_ES_LocateCounterRecordByName g (the Name) of
             None \<Rightarrow> (CFE_ES_ERR_NAME_NOT_FOUND, Some CFE_RESOURCEID_UNDEFINED)
           | Some i \<Rightarrow> (CFE_SUCCESS, Some (CounterId (CounterTable g ! i))))"

definition CFE_ES_GetGenCounterName :: "string ptr \<Rightarrow> CFE_ResourceId \<Rightarrow> nat \<Rightarrow> CFE_ES_Tables \<Rightarrow> int32 \<times> string ptr" where
  "CFE_ES_GetGenCounterName Buf CtrId BufferLength g =
     (if BufferLength = 0 \<or> Buf = NULL then (CFE_ES_BAD_ARGUMENT, Buf)
      else
        let CountRecPtr = CFE_ES_LocateCounterRecordByID CtrId
        in if CFE_ES_CounterRecordIsMatch g CountRecPtr CtrId
           then (CFE_SUCCESS, Some (copy_name BufferLength (cstring (CounterName (CounterTable g ! the CountRecPtr))) (the Buf)))
           else (CFE_ES_ERR_RESOURCEID_NOT_VALID, Some ((the Buf)[0 := CHR 0x00])))"

section \<open>What the counters promise\<close>

text \<open>
  A consistent counter table: a used entry is the one its id leads to, used names are distinct, shorter than
  their array and terminated.
\<close>

definition counters_inv :: "CFE_ES_Tables \<Rightarrow> bool" where
  "counters_inv g \<longleftrightarrow> length (CounterTable g) = 8 \<and> CFE_ResourceId_GetBase (LastCounterId g) = CFE_ES_COUNTID_BASE \<and>
     (\<forall>i < 8. length (CounterName (CounterTable g ! i)) = 20 \<and>
        (CFE_ES_CounterRecordIsUsed (CounterTable g ! i) \<longrightarrow> CFE_ES_LocateCounterRecordByID (CounterId (CounterTable g ! i)) = Some i)) \<and>
     (\<forall>i < 8. \<forall>j < 8. CFE_ES_CounterRecordIsUsed (CounterTable g ! i) \<and> CFE_ES_CounterRecordIsUsed (CounterTable g ! j) \<and>
        cstring (CounterName (CounterTable g ! i)) = cstring (CounterName (CounterTable g ! j)) \<longrightarrow> i = j)"

text \<open>The abstract counters: a map from ids to names and values.\<close>

definition counters :: "CFE_ES_Tables \<Rightarrow> CFE_ResourceId \<rightharpoonup> string \<times> u32" where
  "counters g H =
     (let p = CFE_ES_LocateCounterRecordByID H
      in if CFE_ES_CounterRecordIsMatch g p H then Some (cstring (CounterName (CounterTable g ! the p)), Counter (CounterTable g ! the p)) else None)"


lemma Locate_counter_eq:
  "CFE_ES_LocateCounterRecordByID H =
     (if H - CFE_ES_COUNTID_BASE > CFE_RESOURCEID_MAX then NULL else Some (unat ((H - CFE_ES_COUNTID_BASE) mod 8)))"
  by (simp add: CFE_ES_LocateCounterRecordByID_def CFE_ES_CounterID_ToIndex_def CFE_ResourceId_ToIndex_def Let_def)

lemma Locate_counter_lt: "CFE_ES_LocateCounterRecordByID H = Some i \<Longrightarrow> i < 8"
  by (auto simp: Locate_counter_eq unat_mod split: if_splits)

lemma Locate_counter_undefined: "CFE_ES_LocateCounterRecordByID CFE_RESOURCEID_UNDEFINED = NULL"
  by (simp add: Locate_counter_eq)

lemma counters_Some:
  "counters g H = Some (n, c) \<longleftrightarrow> (\<exists>i. CFE_ES_LocateCounterRecordByID H = Some i \<and> CounterId (CounterTable g ! i) = H \<and>
     cstring (CounterName (CounterTable g ! i)) = n \<and> Counter (CounterTable g ! i) = c)"
  by (cases "CFE_ES_LocateCounterRecordByID H") (simp_all add: counters_def CFE_ES_CounterRecordIsMatch_def Let_def)

lemma counters_None:
  "counters g H = None \<longleftrightarrow> \<not> CFE_ES_CounterRecordIsMatch g (CFE_ES_LocateCounterRecordByID H) H"
  by (simp add: counters_def Let_def)

interpretation gencounters: resource_table "0x130000" 8 "CFE_ES_CheckCounterIdSlotUsed g"
  "\<lambda>i. CFE_ES_CounterRecordIsUsed (CounterTable g ! unat i)" for g
proof
  fix i x idx
  assume "CFE_ResourceId_ToIndex i 0x130000 8 (Some x) = (CFE_SUCCESS, Some idx)"
  then show "CFE_ES_CheckCounterIdSlotUsed g i = CFE_ES_CounterRecordIsUsed (CounterTable g ! unat idx)"
    by (auto simp: CFE_ES_CheckCounterIdSlotUsed_def CFE_ES_LocateCounterRecordByID_def CFE_ES_CounterID_ToIndex_def
        CFE_ResourceId_ToIndex_def Let_def split: if_splits)
qed simp_all

lemma counters_last: "counters (g\<lparr>LastCounterId := H\<rparr>) = counters g"
  by (rule ext) (simp add: counters_def CFE_ES_CounterRecordIsMatch_def Let_def)

lemma upd_counter_nth:
  "i < length (CounterTable g) \<Longrightarrow> CounterTable (upd_counter i f g) ! j = (if j = i then f (CounterTable g ! i) else CounterTable g ! j)"
  "length (CounterTable (upd_counter i f g)) = length (CounterTable g)" "LastCounterId (upd_counter i f g) = LastCounterId g"
  by (simp_all add: upd_counter_def)

text \<open>Writing one entry is writing one place of the map.\<close>

lemma counters_upd:
  assumes i: "CFE_ES_LocateCounterRecordByID H = Some i" "i < length (CounterTable g)"
    and h: "CounterId (CounterTable g ! i) \<in> {H, 0}" "CounterId (f (CounterTable g ! i)) \<in> {H, 0}"
  shows "counters (upd_counter i f g) = (counters g)(H :=
    (if CounterId (f (CounterTable g ! i)) = H then Some (cstring (CounterName (f (CounterTable g ! i))), Counter (f (CounterTable g ! i))) else None))"
proof
  fix K
  have nz: "H \<noteq> 0" using i(1) Locate_counter_undefined by auto
  show "counters (upd_counter i f g) K = ((counters g)(H :=
    (if CounterId (f (CounterTable g ! i)) = H then Some (cstring (CounterName (f (CounterTable g ! i))), Counter (f (CounterTable g ! i))) else None))) K"
  proof (cases "CFE_ES_LocateCounterRecordByID K = Some i")
    case True
    then have "K \<noteq> 0" using Locate_counter_undefined by auto
    then show ?thesis using True i h nz by (auto simp: counters_def CFE_ES_CounterRecordIsMatch_def upd_counter_nth)
  next
    case False
    then have "K \<noteq> H" using i(1) by auto
    then show ?thesis using False i(2) by (auto simp: counters_def CFE_ES_CounterRecordIsMatch_def upd_counter_nth Let_def)
  qed
qed

lemma counters_inv_upd:
  assumes inv: "counters_inv g" and i: "CFE_ES_LocateCounterRecordByID H = Some i"
    and len: "length (CounterName (f (CounterTable g ! i))) = 20" and h: "CounterId (f (CounterTable g ! i)) \<in> {H, 0}"
    and n: "\<And>j. j < 8 \<Longrightarrow> j \<noteq> i \<Longrightarrow> CounterId (f (CounterTable g ! i)) = H \<Longrightarrow> CFE_ES_CounterRecordIsUsed (CounterTable g ! j) \<Longrightarrow>
      cstring (CounterName (CounterTable g ! j)) \<noteq> cstring (CounterName (f (CounterTable g ! i)))"
  shows "counters_inv (upd_counter i f g)"
proof -
  have l: "i < length (CounterTable g)" using Locate_counter_lt [OF i] inv by (simp add: counters_inv_def)
  have u: "CounterId (f (CounterTable g ! i)) = H" if "CFE_ES_CounterRecordIsUsed (f (CounterTable g ! i))"
    using that h by (auto simp: CFE_ES_CounterRecordIsUsed_def)
  have names: "j = k" if jk: "j < 8" "k < 8" "CFE_ES_CounterRecordIsUsed (CounterTable (upd_counter i f g) ! j)"
    "CFE_ES_CounterRecordIsUsed (CounterTable (upd_counter i f g) ! k)"
    "cstring (CounterName (CounterTable (upd_counter i f g) ! j)) = cstring (CounterName (CounterTable (upd_counter i f g) ! k))" for j k
  proof -
    consider "j = i" "k \<noteq> i" | "k = i" "j \<noteq> i" | "j = i" "k = i" | "j \<noteq> i" "k \<noteq> i" by blast
    then show ?thesis
    proof cases
      case 1 then show ?thesis using jk n [of k] u by (simp add: upd_counter_nth(1) [OF l])
    next
      case 2 then show ?thesis using jk n [of j] u by (simp add: upd_counter_nth(1) [OF l])
    next
      case 4 then show ?thesis using jk inv by (simp add: upd_counter_nth(1) [OF l] counters_inv_def)
    qed simp
  qed
  have "length (CounterName (CounterTable (upd_counter i f g) ! j)) = 20 \<and>
      (CFE_ES_CounterRecordIsUsed (CounterTable (upd_counter i f g) ! j) \<longrightarrow>
        CFE_ES_LocateCounterRecordByID (CounterId (CounterTable (upd_counter i f g) ! j)) = Some j)" if "j < 8" for j
    using that len u i inv by (simp add: upd_counter_nth(1) [OF l] counters_inv_def)
  then show ?thesis using inv names unfolding counters_inv_def upd_counter_nth(2,3) by blast
qed

text \<open>Changing the value of a counter.\<close>

lemma counter_value:
  assumes inv: "counters_inv g" and h: "counters g H = Some (n, c)"
  shows "\<exists>i. CFE_ES_LocateCounterRecordByID H = Some i \<and> CFE_ES_CounterRecordIsMatch g (Some i) H \<and> Counter (CounterTable g ! i) = c \<and>
    counters_inv (upd_counter i (\<lambda>r. r\<lparr>Counter := v\<rparr>) g) \<and> counters (upd_counter i (\<lambda>r. r\<lparr>Counter := v\<rparr>) g) = (counters g)(H \<mapsto> (n, v))"
proof -
  obtain i where i: "CFE_ES_LocateCounterRecordByID H = Some i" "CounterId (CounterTable g ! i) = H"
    "cstring (CounterName (CounterTable g ! i)) = n" "Counter (CounterTable g ! i) = c" using h by (auto simp: counters_Some)
  have lt: "i < 8" "length (CounterTable g) = 8" using Locate_counter_lt [OF i(1)] inv by (simp_all add: counters_inv_def)
  have nz: "CFE_ES_CounterRecordIsUsed (CounterTable g ! i)" using i(1,2) Locate_counter_undefined by (auto simp: CFE_ES_CounterRecordIsUsed_def)
  have "counters_inv (upd_counter i (\<lambda>r. r\<lparr>Counter := v\<rparr>) g)"
  proof (rule counters_inv_upd [OF inv i(1)])
    fix j assume "j < 8" "j \<noteq> i" "CFE_ES_CounterRecordIsUsed (CounterTable g ! j)"
    then have "cstring (CounterName (CounterTable g ! j)) \<noteq> cstring (CounterName (CounterTable g ! i))"
      using inv nz lt unfolding counters_inv_def by blast
    then show "cstring (CounterName (CounterTable g ! j)) \<noteq> cstring (CounterName ((CounterTable g ! i)\<lparr>Counter := v\<rparr>))" by simp
  qed (use inv lt i(2) in \<open>simp_all add: counters_inv_def\<close>)
  moreover have "counters (upd_counter i (\<lambda>r. r\<lparr>Counter := v\<rparr>) g) = (counters g)(H \<mapsto> (n, v))"
    using counters_upd [OF i(1), of g "\<lambda>r. r\<lparr>Counter := v\<rparr>"] i lt by simp
  ultimately show ?thesis using i by (auto simp: CFE_ES_CounterRecordIsMatch_def)
qed

lemma register_counter:
  assumes inv: "counters_inv g" and nm: "length nm < 20" "CHR 0x00 \<notin> set nm"
    and new: "\<And>K c. counters g K \<noteq> Some (nm, c)" and free: "i0 < 8" "\<not> CFE_ES_CounterRecordIsUsed (CounterTable g ! i0)"
  shows "\<exists>g' H. CFE_ES_RegisterGenCounter (Some x) (Some nm) g = (g', CFE_SUCCESS, Some H) \<and> counters_inv g' \<and>
    counters g H = None \<and> counters g' = (counters g)(H \<mapsto> (nm, 0))"
proof -
  have no: "CFE_ES_LocateCounterRecordByName g nm = NULL"
    unfolding CFE_ES_LocateCounterRecordByName_def find_named_None
  proof (intro allI impI)
    fix i assume i: "i < length (CounterTable g)" "CFE_ES_CounterRecordIsUsed (CounterTable g ! i)"
    then have "CFE_ES_LocateCounterRecordByID (CounterId (CounterTable g ! i)) = Some i" using inv by (simp add: counters_inv_def)
    then show "cstring (CounterName (CounterTable g ! i)) \<noteq> nm" using new [of "CounterId (CounterTable g ! i)" "Counter (CounterTable g ! i)"]
      by (auto simp: counters_Some)
  qed
  define H where "H = CFE_ResourceId_FindNext (LastCounterId g) 8 (CFE_ES_CheckCounterIdSlotUsed g)"
  have base: "CFE_ResourceId_GetBase (LastCounterId g) = 0x130000" using inv by (simp add: counters_inv_def)
  have f: "(of_nat i0 :: u32) < 8" "\<not> CFE_ES_CounterRecordIsUsed (CounterTable g ! unat (of_nat i0 :: u32))"
    using free by (simp_all add: word_less_nat_alt unat_of_nat)
  obtain k where k: "\<not> CFE_ES_CounterRecordIsUsed (CounterTable g ! unat k)" "CFE_ResourceId_GetBase H = 0x130000"
    "CFE_ResourceId_ToIndex H 0x130000 8 (Some 0) = (CFE_SUCCESS, Some k)"
    using gencounters.FindNext_free [OF base f, of 0, folded H_def] by blast
  let ?i = "unat k" and ?f = "\<lambda>r. r\<lparr>CounterName := copy_name 20 nm (CounterName r), Counter := 0, CounterId := H\<rparr>"
  have loc: "CFE_ES_LocateCounterRecordByID H = Some ?i"
    using k(3) by (simp add: CFE_ES_LocateCounterRecordByID_def CFE_ES_CounterID_ToIndex_def)
  note lt = Locate_counter_lt [OF loc]
  have l: "length (CounterTable g) = 8" "length (CounterName (CounterTable g ! ?i)) = 20" using inv lt by (simp_all add: counters_inv_def)
  have z: "CounterId (CounterTable g ! ?i) = 0" using k(1) by (simp add: CFE_ES_CounterRecordIsUsed_def)
  have nz: "H \<noteq> 0" using loc Locate_counter_undefined by auto
  have name: "cstring (copy_name 20 nm (CounterName (CounterTable g ! ?i))) = nm" using nm by (simp add: copy_name_cstring)
  let ?g = "upd_counter ?i ?f g"
  have inv': "counters_inv ?g"
  proof (rule counters_inv_upd [OF inv loc])
    fix j assume j: "j < 8" "CFE_ES_CounterRecordIsUsed (CounterTable g ! j)"
    then have "CFE_ES_LocateCounterRecordByID (CounterId (CounterTable g ! j)) = Some j" using inv by (simp add: counters_inv_def)
    then show "cstring (CounterName (CounterTable g ! j)) \<noteq> cstring (CounterName (?f (CounterTable g ! ?i)))"
      using new [of "CounterId (CounterTable g ! j)" "Counter (CounterTable g ! j)"] name by (auto simp: counters_Some)
  qed (use l in simp_all)
  have "CFE_ES_RegisterGenCounter (Some x) (Some nm) g = (?g\<lparr>LastCounterId := H\<rparr>, CFE_SUCCESS, Some H)"
    using nm(1) no loc lt l(1) by (simp add: CFE_ES_RegisterGenCounter_def H_def [symmetric] CFE_ES_CounterRecordSetUsed_def upd_counter_def Let_def)
  moreover have "counters_inv (?g\<lparr>LastCounterId := H\<rparr>)" using inv' k(2) by (simp add: counters_inv_def)
  moreover have "counters ?g = (counters g)(H \<mapsto> (nm, 0))"
    using counters_upd [OF loc, of g ?f] z lt l(1) name by simp
  then have "counters (?g\<lparr>LastCounterId := H\<rparr>) = (counters g)(H \<mapsto> (nm, 0))" by (simp add: counters_last)
  moreover have "counters g H = None" using z nz loc by (simp add: counters_None CFE_ES_CounterRecordIsMatch_def)
  ultimately show ?thesis by blast
qed

lemma delete_counter:
  assumes inv: "counters_inv g" and h: "counters g H = Some (n, c)"
  shows "\<exists>g'. CFE_ES_DeleteGenCounter H g = (g', CFE_SUCCESS) \<and> counters_inv g' \<and> counters g' = (counters g)(H := None)"
proof -
  obtain i where i: "CFE_ES_LocateCounterRecordByID H = Some i" "CFE_ES_CounterRecordIsMatch g (Some i) H" using counter_value [OF inv h] by blast
  have lt: "i < 8" "length (CounterTable g) = 8" using Locate_counter_lt [OF i(1)] inv by (simp_all add: counters_inv_def)
  have nz: "H \<noteq> 0" using i(1) Locate_counter_undefined by auto
  let ?f = "\<lambda>r. r\<lparr>Counter := 0, CounterId := 0\<rparr>"
  have "counters_inv (upd_counter i ?f g)"
    by (rule counters_inv_upd [OF inv i(1)]) (use inv lt nz in \<open>simp_all add: counters_inv_def\<close>)
  moreover have "counters (upd_counter i ?f g) = (counters g)(H := None)"
    using counters_upd [OF i(1), of g ?f] i(2) lt nz by (simp add: CFE_ES_CounterRecordIsMatch_def)
  moreover have "CFE_ES_DeleteGenCounter H g = (upd_counter i ?f g, CFE_SUCCESS)"
    using i lt by (simp add: CFE_ES_DeleteGenCounter_def CFE_ES_CounterRecordSetFree_def upd_counter_def)
  ultimately show ?thesis by blast
qed

lemma known_counter:
  assumes inv: "counters_inv g" and h: "counters g H = Some (n, c)"
  shows "\<exists>g'. CFE_ES_IncrementGenCounter H g = (g', CFE_SUCCESS) \<and> counters_inv g' \<and> counters g' = (counters g)(H \<mapsto> (n, c + 1))"
    and "\<exists>g'. CFE_ES_SetGenCount H v g = (g', CFE_SUCCESS) \<and> counters_inv g' \<and> counters g' = (counters g)(H \<mapsto> (n, v))"
    and "CFE_ES_GetGenCount H (Some y) g = (CFE_SUCCESS, Some c)"
  using counter_value [OF inv h, of "c + 1"] counter_value [OF inv h, of v]
  by (auto simp: CFE_ES_IncrementGenCounter_def upd_counter_def CFE_ES_SetGenCount_def CFE_ES_GetGenCount_def)

lemma unknown_counter:
  assumes "counters g H = None"
  shows "CFE_ES_DeleteGenCounter H g = (g, CFE_ES_BAD_ARGUMENT)" "CFE_ES_IncrementGenCounter H g = (g, CFE_ES_BAD_ARGUMENT)"
    "CFE_ES_SetGenCount H v g = (g, CFE_ES_BAD_ARGUMENT)" "CFE_ES_GetGenCount H (Some y) g = (CFE_ES_BAD_ARGUMENT, Some y)"
  using assms by (auto simp: counters_None CFE_ES_DeleteGenCounter_def CFE_ES_IncrementGenCounter_def CFE_ES_SetGenCount_def CFE_ES_GetGenCount_def
      split: option.split)

text \<open>
  C40. Generic counters refine a map from ids to names and values: registering a new name while an entry is free adds it with
  the value zero under an id that was not in use; deleting, incrementing (modulo \<open>2\<^sup>32\<close>) and setting change exactly the
  counter named, whose value can be read; ids that are not in the map are refused and nothing changes.
\<close>

theorem counters_refine:
  assumes inv: "counters_inv g"
  shows "(length nm < 20 \<and> CHR 0x00 \<notin> set nm \<and> (\<forall>K c. counters g K \<noteq> Some (nm, c)) \<and> (\<exists>i < 8. \<not> CFE_ES_CounterRecordIsUsed (CounterTable g ! i)) \<longrightarrow>
      (\<exists>g' H. CFE_ES_RegisterGenCounter (Some x) (Some nm) g = (g', CFE_SUCCESS, Some H) \<and> counters_inv g' \<and>
         counters g H = None \<and> counters g' = (counters g)(H \<mapsto> (nm, 0)))) \<and>
    (\<forall>n c. counters g H = Some (n, c) \<longrightarrow>
      (\<exists>g'. CFE_ES_DeleteGenCounter H g = (g', CFE_SUCCESS) \<and> counters_inv g' \<and> counters g' = (counters g)(H := None)) \<and>
      (\<exists>g'. CFE_ES_IncrementGenCounter H g = (g', CFE_SUCCESS) \<and> counters_inv g' \<and> counters g' = (counters g)(H \<mapsto> (n, c + 1))) \<and>
      (\<exists>g'. CFE_ES_SetGenCount H v g = (g', CFE_SUCCESS) \<and> counters_inv g' \<and> counters g' = (counters g)(H \<mapsto> (n, v))) \<and>
      CFE_ES_GetGenCount H (Some y) g = (CFE_SUCCESS, Some c)) \<and>
    (counters g H = None \<longrightarrow>
      CFE_ES_DeleteGenCounter H g = (g, CFE_ES_BAD_ARGUMENT) \<and> CFE_ES_IncrementGenCounter H g = (g, CFE_ES_BAD_ARGUMENT) \<and>
      CFE_ES_SetGenCount H v g = (g, CFE_ES_BAD_ARGUMENT) \<and> CFE_ES_GetGenCount H (Some y) g = (CFE_ES_BAD_ARGUMENT, Some y))"
  using register_counter [OF inv] delete_counter [OF inv] known_counter [OF inv] unknown_counter by (intro conjI allI impI) blast+

text \<open>An empty table of counters.\<close>

definition no_counters :: CFE_ES_Tables where
  "no_counters = \<lparr>AppTable = [], LibTable = [], CounterTable = replicate 8 \<lparr>CounterId = 0, Counter = 0, CounterName = replicate 20 (CHR 0x00)\<rparr>,
     LastCounterId = CFE_ES_COUNTID_BASE\<rparr>"

lemma no_counters: "counters_inv no_counters" "counters no_counters H = None"
proof -
  have "\<not> CFE_ES_CounterRecordIsUsed (CounterTable no_counters ! i)" if "i < 8" for i
    using that by (simp add: no_counters_def CFE_ES_CounterRecordIsUsed_def)
  then show "counters_inv no_counters" by (simp add: counters_inv_def no_counters_def CFE_ResourceId_GetBase_def)
  show "counters no_counters H = None"
    using Locate_counter_lt [of H] Locate_counter_undefined by (auto simp: counters_None CFE_ES_CounterRecordIsMatch_def no_counters_def)
qed

theorem counters_refine_witness:
  "\<exists>g' H. CFE_ES_RegisterGenCounter (Some 0) (Some ''EVENTS'') no_counters = (g', CFE_SUCCESS, Some H) \<and> counters g' H = Some (''EVENTS'', 0)"
proof -
  have "\<exists>i < 8. \<not> CFE_ES_CounterRecordIsUsed (CounterTable no_counters ! i)" by (intro exI [of _ 0]) (simp add: no_counters_def CFE_ES_CounterRecordIsUsed_def)
  then show ?thesis using conjunct1 [OF counters_refine [OF no_counters(1)], of "''EVENTS''" 0] no_counters(2) by auto
qed

end
