(* ===== verification/CFE_ES_MemPool.thy ===== *)
theory CFE_ES_MemPool
  imports CFE_ES_Pool_Run CFE_ES_Resource
begin

unbundle bit_operations_syntax

text \<open>
  The memory pools of applications (\<^verbatim>\<open>cfe_es_mempool.c\<close>): a table of pools over areas of the machine's
  memory, found by handle.  \<open>Ram\<close> is the memory, by address; a pool reaches it directly, at its base address plus the
  offset.  The mutex of a pool serializes the calls on it and has no other effect, so that
  a call is one step here; what the operating system and executive services answer is a field of
  \<open>CFE_ES_PoolEnv\<close>.  Messages to the system log are not modelled.
\<close>

abbreviation (input) CFE_STATUS_EXTERNAL_RESOURCE_FAIL :: int32 where "CFE_STATUS_EXTERNAL_RESOURCE_FAIL \<equiv> 0xc8000005"
abbreviation (input) CFE_ES_POOLID_BASE :: u32 where "CFE_ES_POOLID_BASE \<equiv> 0x140000"
abbreviation (input) CFE_PLATFORM_ES_MAX_MEMORY_POOLS :: u32 where "CFE_PLATFORM_ES_MAX_MEMORY_POOLS \<equiv> 10"
abbreviation (input) CFE_PLATFORM_ES_MEMPOOL_ALIGN_SIZE_MIN :: u64 where "CFE_PLATFORM_ES_MEMPOOL_ALIGN_SIZE_MIN \<equiv> 4"

section \<open>Data\<close>

type_synonym CFE_ES_MemHandle = CFE_ResourceId

record CFE_ES_MemPoolRecord =
  Pool :: CFE_ES_GenPoolRecord
  PoolID :: CFE_ES_MemHandle
  BaseAddr :: u64
  OwnerAppID :: CFE_ResourceId
  PoolMutexId :: u32

record CFE_ES_MemPools =
  MemPoolTable :: "CFE_ES_MemPoolRecord list"
  LastMemPoolId :: CFE_ResourceId
  Ram :: bytes

record CFE_ES_MemPoolStats =
  PoolSize :: u32
  NumBlocksRequested :: u32
  CheckErrCtr :: u32
  NumFreeBytes :: u32
  BlockStats :: "CFE_ES_BlockStats list"

text \<open>
  The alignment of the longest native types, what creating a mutex gives and the application
  that calls.
\<close>

record CFE_ES_PoolEnv =
  AlignOf_PoolAlign :: u64
  MutSemCreate :: "int32 \<times> u32"
  CallerAppID :: CFE_ResourceId

definition CFE_ES_MemPoolDefSize :: "u64 list" where
  "CFE_ES_MemPoolDefSize =
     [80000, 32768, 16384, 8192, 4096, 2048, 1024, 512, 256, 160, 128, 96, 64, 48, 32, 16, 8]"

definition zero_GenPoolRecord :: CFE_ES_GenPoolRecord where
  "zero_GenPoolRecord = \<lparr>PoolTotalSize = 0, PoolMaxOffset = 0, AlignMask = 0, TailPosition = 0,
     PoolAllocationCount = 0, ValidationErrorCount = 0, NumBuckets = 0, Buckets = replicate 17 zero_Bucket\<rparr>"

definition zero_MemPoolRecord :: CFE_ES_MemPoolRecord where
  "zero_MemPoolRecord = \<lparr>Pool = zero_GenPoolRecord, PoolID = 0, BaseAddr = 0, OwnerAppID = 0, PoolMutexId = 0\<rparr>"

section \<open>Direct access to memory\<close>

definition CFE_ES_MemPoolDirectRetrieve :: "u64 \<Rightarrow> bytes \<Rightarrow> u64 \<Rightarrow> (bytes \<times> int32) \<times> u64" where
  "CFE_ES_MemPoolDirectRetrieve Base m Offset = (let DataAddress = Base + Offset in ((m, CFE_SUCCESS), DataAddress))"

definition CFE_ES_MemPoolDirectCommit :: "u64 \<Rightarrow> bytes \<Rightarrow> u64 \<Rightarrow> bytes \<times> int32" where
  "CFE_ES_MemPoolDirectCommit Base m Offset = (m, CFE_SUCCESS)"

text \<open>\<open>BdPtr\<close> points into the memory, so that an assignment through it is a write to memory.\<close>

definition direct_storage :: "u64 \<Rightarrow> bytes CFE_ES_PoolStorage" where
  "direct_storage Base =
     \<lparr>Retrieve = (\<lambda>m a. fst (CFE_ES_MemPoolDirectRetrieve Base m a)),
      BdOf = (\<lambda>m a. read_bd m (snd (CFE_ES_MemPoolDirectRetrieve Base m a))),
      SetBd = (\<lambda>m a bd. write_bd (snd (CFE_ES_MemPoolDirectRetrieve Base m a)) bd m),
      Commit = CFE_ES_MemPoolDirectCommit Base\<rparr>"

section \<open>The table\<close>

definition CFE_ES_MemPoolID_ToIndex :: "CFE_ES_MemHandle \<Rightarrow> u32 ptr \<Rightarrow> int32 \<times> u32 ptr" where
  "CFE_ES_MemPoolID_ToIndex Handle Idx = CFE_ResourceId_ToIndex Handle CFE_ES_POOLID_BASE CFE_PLATFORM_ES_MAX_MEMORY_POOLS Idx"

definition CFE_ES_LocateMemPoolRecordByID :: "CFE_ES_MemHandle \<Rightarrow> nat ptr" where
  "CFE_ES_LocateMemPoolRecordByID Handle =
     (let (st, Idx) = CFE_ES_MemPoolID_ToIndex Handle (Some 0)
      in if st = CFE_SUCCESS then map_option unat Idx else NULL)"

definition CFE_ES_MemPoolRecordIsUsed :: "CFE_ES_MemPools \<Rightarrow> nat ptr \<Rightarrow> bool" where
  "CFE_ES_MemPoolRecordIsUsed g PoolRecPtr \<longleftrightarrow> PoolID (MemPoolTable g ! the PoolRecPtr) \<noteq> CFE_RESOURCEID_UNDEFINED"

definition CFE_ES_MemPoolRecordIsMatch :: "CFE_ES_MemPools \<Rightarrow> nat ptr \<Rightarrow> CFE_ES_MemHandle \<Rightarrow> bool" where
  "CFE_ES_MemPoolRecordIsMatch g PoolRecPtr Handle \<longleftrightarrow>
     PoolRecPtr \<noteq> NULL \<and> PoolID (MemPoolTable g ! the PoolRecPtr) = Handle"

definition upd_mempool :: "nat \<Rightarrow> (CFE_ES_MemPoolRecord \<Rightarrow> CFE_ES_MemPoolRecord) \<Rightarrow> CFE_ES_MemPools \<Rightarrow> CFE_ES_MemPools" where
  "upd_mempool i f g = g\<lparr>MemPoolTable := (MemPoolTable g)[i := f (MemPoolTable g ! i)]\<rparr>"

definition CFE_ES_MemPoolRecordSetUsed :: "nat \<Rightarrow> CFE_ResourceId \<Rightarrow> CFE_ES_MemPools \<Rightarrow> CFE_ES_MemPools" where
  "CFE_ES_MemPoolRecordSetUsed i PendingId g = upd_mempool i (\<lambda>r. r\<lparr>PoolID := PendingId\<rparr>) g"

definition CFE_ES_MemPoolRecordSetFree :: "nat \<Rightarrow> CFE_ES_MemPools \<Rightarrow> CFE_ES_MemPools" where
  "CFE_ES_MemPoolRecordSetFree i g = upd_mempool i (\<lambda>r. r\<lparr>PoolID := CFE_RESOURCEID_UNDEFINED\<rparr>) g"

definition CFE_ES_CheckMemPoolSlotUsed :: "CFE_ES_MemPools \<Rightarrow> CFE_ResourceId \<Rightarrow> bool" where
  "CFE_ES_CheckMemPoolSlotUsed g CheckId = CFE_ES_MemPoolRecordIsUsed g (CFE_ES_LocateMemPoolRecordByID CheckId)"

section \<open>Creating and deleting pools\<close>

text \<open>The reservation of a table entry: global data, status, entry and pending id.\<close>

definition pool_reserve :: "CFE_ES_MemPools \<Rightarrow> CFE_ES_MemPools \<times> int32 \<times> nat ptr \<times> CFE_ResourceId" where
  "pool_reserve g =
     (let PendingID = CFE_ResourceId_FindNext (LastMemPoolId g) CFE_PLATFORM_ES_MAX_MEMORY_POOLS (CFE_ES_CheckMemPoolSlotUsed g)
      in case CFE_ES_LocateMemPoolRecordByID PendingID of
           None \<Rightarrow> (g, CFE_ES_NO_RESOURCE_IDS_AVAILABLE, NULL, PendingID)
         | Some i \<Rightarrow>
             let g = upd_mempool i (\<lambda>_. zero_MemPoolRecord) g;
                 g = CFE_ES_MemPoolRecordSetUsed i CFE_RESOURCEID_RESERVED g;
                 g = g\<lparr>LastMemPoolId := PendingID\<rparr>
             in (g, CFE_SUCCESS, Some i, PendingID))"

text \<open>
  The pool itself and its mutex, then the end of the call: global data, status and the handle
  stored for the caller.
\<close>

definition pool_finish ::
  "CFE_ES_PoolEnv \<Rightarrow> u64 \<Rightarrow> u64 \<Rightarrow> u16 \<Rightarrow> u64 list \<Rightarrow> bool \<Rightarrow> nat \<Rightarrow> CFE_ResourceId \<Rightarrow> CFE_ES_MemPools \<Rightarrow>
    CFE_ES_MemPools \<times> int32 \<times> CFE_ES_MemHandle" where
  "pool_finish env MemPtr Size NumBlockSizes BlockSizes UseMutex i PendingID g =
     (let Alignment = AlignOf_PoolAlign env;
          Alignment = (if Alignment < CFE_PLATFORM_ES_MEMPOOL_ALIGN_SIZE_MIN then CFE_PLATFORM_ES_MEMPOOL_ALIGN_SIZE_MIN else Alignment);
          (p, Status) = CFE_ES_GenPoolInitialize 0 Size Alignment NumBlockSizes BlockSizes;
          g = upd_mempool i (\<lambda>r. r\<lparr>Pool := p\<rparr>) g;
          (g, Status) =
            (if Status = CFE_SUCCESS \<and> UseMutex
             then let (st, mid) = MutSemCreate env
                  in if st \<noteq> 0 then (g, CFE_STATUS_EXTERNAL_RESOURCE_FAIL)
                     else (upd_mempool i (\<lambda>r. r\<lparr>PoolMutexId := mid\<rparr>) g, CFE_SUCCESS)
             else (g, Status))
      in if Status = CFE_SUCCESS
         then let g = upd_mempool i (\<lambda>r. r\<lparr>BaseAddr := MemPtr\<rparr>) g;
                  g = upd_mempool i (\<lambda>r. r\<lparr>OwnerAppID := CallerAppID env\<rparr>) g;
                  g = CFE_ES_MemPoolRecordSetUsed i PendingID g
              in (g, Status, PendingID)
         else (CFE_ES_MemPoolRecordSetFree i g, Status, CFE_RESOURCEID_UNDEFINED))"

text \<open>The result has the caller's handle cell, unchanged on the early returns.\<close>

definition CFE_ES_PoolCreateEx ::
  "CFE_ES_PoolEnv \<Rightarrow> CFE_ES_MemHandle ptr \<Rightarrow> u64 ptr \<Rightarrow> u64 \<Rightarrow> u16 \<Rightarrow> u64 list ptr \<Rightarrow> bool \<Rightarrow> CFE_ES_MemPools \<Rightarrow>
    CFE_ES_MemPools \<times> int32 \<times> CFE_ES_MemHandle ptr" where
  "CFE_ES_PoolCreateEx env PoolIDPtr MemPtr Size NumBlockSizes BlockSizes UseMutex g =
     (if MemPtr = NULL \<or> PoolIDPtr = NULL then (g, CFE_ES_BAD_ARGUMENT, PoolIDPtr)
      else if NumBlockSizes > CFE_PLATFORM_ES_POOL_MAX_BUCKETS then (g, CFE_ES_BAD_ARGUMENT, PoolIDPtr)
      else
        let NumBlockSizes = (if BlockSizes = NULL \<and> (NumBlockSizes = 0 \<or> NumBlockSizes > CFE_PLATFORM_ES_POOL_MAX_BUCKETS)
                             then CFE_PLATFORM_ES_POOL_MAX_BUCKETS else NumBlockSizes);
            sizes = (case BlockSizes of None \<Rightarrow> CFE_ES_MemPoolDefSize | Some s \<Rightarrow> s)
        in if Size < CFE_ES_GenPoolCalcMinSize NumBlockSizes sizes 1 then (g, CFE_ES_BAD_ARGUMENT, PoolIDPtr)
           else case pool_reserve g of
                  (g, Status, None, _) \<Rightarrow> (g, Status, PoolIDPtr)
                | (g, Status, Some i, PendingID) \<Rightarrow>
                    let (g, Status, Handle) = pool_finish env (the MemPtr) Size NumBlockSizes sizes UseMutex i PendingID g
                    in (g, Status, Some Handle))"

definition CFE_ES_PoolCreateNoSem ::
  "CFE_ES_PoolEnv \<Rightarrow> CFE_ES_MemHandle ptr \<Rightarrow> u64 ptr \<Rightarrow> u64 \<Rightarrow> CFE_ES_MemPools \<Rightarrow> CFE_ES_MemPools \<times> int32 \<times> CFE_ES_MemHandle ptr" where
  "CFE_ES_PoolCreateNoSem env PoolIDPtr MemPtr Size g =
     CFE_ES_PoolCreateEx env PoolIDPtr MemPtr Size CFE_PLATFORM_ES_POOL_MAX_BUCKETS (Some CFE_ES_MemPoolDefSize) False g"

definition CFE_ES_PoolCreate ::
  "CFE_ES_PoolEnv \<Rightarrow> CFE_ES_MemHandle ptr \<Rightarrow> u64 ptr \<Rightarrow> u64 \<Rightarrow> CFE_ES_MemPools \<Rightarrow> CFE_ES_MemPools \<times> int32 \<times> CFE_ES_MemHandle ptr" where
  "CFE_ES_PoolCreate env PoolIDPtr MemPtr Size g =
     CFE_ES_PoolCreateEx env PoolIDPtr MemPtr Size CFE_PLATFORM_ES_POOL_MAX_BUCKETS (Some CFE_ES_MemPoolDefSize) True g"

text \<open>The last component is the mutex that is deleted.\<close>

definition CFE_ES_PoolDelete :: "CFE_ES_MemHandle \<Rightarrow> CFE_ES_MemPools \<Rightarrow> CFE_ES_MemPools \<times> int32 \<times> u32 ptr" where
  "CFE_ES_PoolDelete Handle g =
     (let PoolRecPtr = CFE_ES_LocateMemPoolRecordByID Handle;
          (g, MutexId, Status) =
            (if CFE_ES_MemPoolRecordIsMatch g PoolRecPtr Handle
             then (CFE_ES_MemPoolRecordSetFree (the PoolRecPtr) g, PoolMutexId (MemPoolTable g ! the PoolRecPtr), CFE_SUCCESS)
             else (g, 0, CFE_ES_ERR_RESOURCEID_NOT_VALID))
      in (g, Status, if MutexId \<noteq> 0 then Some MutexId else NULL))"

section \<open>Blocks\<close>

text \<open>A call of the generic pool on a table entry.\<close>

definition run_pool :: "nat \<Rightarrow> (bytes CFE_ES_PoolStorage \<Rightarrow> bytes pool \<Rightarrow> bytes pool \<times> 'r) \<Rightarrow> CFE_ES_MemPools \<Rightarrow> CFE_ES_MemPools \<times> 'r" where
  "run_pool i f g =
     (let r = MemPoolTable g ! i;
          ((p, m), res) = f (direct_storage (BaseAddr r)) (Pool r, Ram g)
      in ((upd_mempool i (\<lambda>r. r\<lparr>Pool := p\<rparr>) g)\<lparr>Ram := m\<rparr>, res))"

text \<open>\<open>DataOffset\<close> is a local variable with no initial value; it is read on success only.\<close>

definition CFE_ES_GetPoolBuf ::
  "u64 \<Rightarrow> u64 ptr ptr \<Rightarrow> CFE_ES_MemHandle \<Rightarrow> u64 \<Rightarrow> CFE_ES_MemPools \<Rightarrow> CFE_ES_MemPools \<times> int32 \<times> u64 ptr ptr" where
  "CFE_ES_GetPoolBuf DataOffset BufPtr Handle Size g =
     (if BufPtr = NULL then (g, CFE_ES_BAD_ARGUMENT, BufPtr)
      else
        let PoolRecPtr = CFE_ES_LocateMemPoolRecordByID Handle
        in if \<not> CFE_ES_MemPoolRecordIsMatch g PoolRecPtr Handle then (g, CFE_ES_ERR_RESOURCEID_NOT_VALID, BufPtr)
           else
             let (g, Status, DataOffset) = run_pool (the PoolRecPtr) (\<lambda>acc. CFE_ES_GenPoolGetBlock acc DataOffset Size) g
             in if Status \<noteq> CFE_SUCCESS then (g, Status, BufPtr)
                else (g, ucast Size, Some (Some (BaseAddr (MemPoolTable g ! the PoolRecPtr) + DataOffset))))"

definition CFE_ES_GetPoolBufInfo :: "u64 \<Rightarrow> CFE_ES_MemHandle \<Rightarrow> u64 ptr \<Rightarrow> CFE_ES_MemPools \<Rightarrow> CFE_ES_MemPools \<times> int32" where
  "CFE_ES_GetPoolBufInfo DataSize Handle BufPtr g =
     (if BufPtr = NULL then (g, CFE_ES_BAD_ARGUMENT)
      else
        let PoolRecPtr = CFE_ES_LocateMemPoolRecordByID Handle
        in if \<not> CFE_ES_MemPoolRecordIsMatch g PoolRecPtr Handle then (g, CFE_ES_ERR_RESOURCEID_NOT_VALID)
           else
             let DataOffset = the BufPtr - BaseAddr (MemPoolTable g ! the PoolRecPtr);
                 (g, Status, DataSize) = run_pool (the PoolRecPtr) (\<lambda>acc. CFE_ES_GenPoolGetBlockSize acc DataSize DataOffset) g
             in (g, if Status = CFE_SUCCESS then ucast DataSize else Status))"

definition CFE_ES_PutPoolBuf :: "u64 \<Rightarrow> CFE_ES_MemHandle \<Rightarrow> u64 ptr \<Rightarrow> CFE_ES_MemPools \<Rightarrow> CFE_ES_MemPools \<times> int32" where
  "CFE_ES_PutPoolBuf DataSize Handle BufPtr g =
     (if BufPtr = NULL then (g, CFE_ES_BAD_ARGUMENT)
      else
        let PoolRecPtr = CFE_ES_LocateMemPoolRecordByID Handle
        in if \<not> CFE_ES_MemPoolRecordIsMatch g PoolRecPtr Handle then (g, CFE_ES_ERR_RESOURCEID_NOT_VALID)
           else
             let DataOffset = the BufPtr - BaseAddr (MemPoolTable g ! the PoolRecPtr);
                 (g, Status, DataSize) = run_pool (the PoolRecPtr) (\<lambda>acc. CFE_ES_GenPoolPutBlock acc DataSize DataOffset) g
             in (g, if Status = CFE_SUCCESS then ucast DataSize else Status))"

section \<open>Statistics and validation\<close>

text \<open>The loop over the buckets, from the largest id downwards; \<open>n\<close> entries are left to fill.\<close>

fun bucket_stats :: "nat \<Rightarrow> CFE_ES_GenPoolRecord \<Rightarrow> u16 \<Rightarrow> CFE_ES_BlockStats list \<Rightarrow> CFE_ES_BlockStats list" where
  "bucket_stats 0 p nb buf = []"
| "bucket_stats (Suc n) p nb buf =
     the (CFE_ES_GenPoolGetBucketUsage p nb (Some (hd buf))) #
     bucket_stats n p (if nb > 0 then nb - 1 else nb) (tl buf)"

definition CFE_ES_GetMemPoolStats ::
  "CFE_ES_MemPoolStats ptr \<Rightarrow> CFE_ES_MemHandle \<Rightarrow> CFE_ES_MemPools \<Rightarrow> int32 \<times> CFE_ES_MemPoolStats ptr" where
  "CFE_ES_GetMemPoolStats BufPtr Handle g =
     (case BufPtr of
        None \<Rightarrow> (CFE_ES_BAD_ARGUMENT, BufPtr)
      | Some buf \<Rightarrow>
          let PoolRecPtr = CFE_ES_LocateMemPoolRecordByID Handle
          in if \<not> CFE_ES_MemPoolRecordIsMatch g PoolRecPtr Handle then (CFE_ES_ERR_RESOURCEID_NOT_VALID, BufPtr)
             else
               let p = Pool (MemPoolTable g ! the PoolRecPtr);
                   (freeb, total) = CFE_ES_GenPoolGetUsage p (Some (NumFreeBytes buf)) (Some (PoolSize buf));
                   (nb, alloc, errs) = CFE_ES_GenPoolGetCounts p (Some 0) (Some (NumBlocksRequested buf)) (Some (CheckErrCtr buf))
               in (CFE_SUCCESS, Some \<lparr>PoolSize = the total, NumBlocksRequested = the alloc, CheckErrCtr = the errs,
                     NumFreeBytes = the freeb, BlockStats = bucket_stats 17 p (the nb) (BlockStats buf)\<rparr>))"

text \<open>\<open>MemValidateRange\<close> is \<open>CFE_PSP_MemValidateRange\<close> for any kind of memory.\<close>

definition CFE_ES_ValidateHandle :: "(u64 \<Rightarrow> u32 \<Rightarrow> int32) \<Rightarrow> CFE_ES_MemHandle \<Rightarrow> CFE_ES_MemPools \<Rightarrow> bool" where
  "CFE_ES_ValidateHandle MemValidateRange Handle g =
     (let PoolRecPtr = CFE_ES_LocateMemPoolRecordByID Handle
      in if \<not> CFE_ES_MemPoolRecordIsMatch g PoolRecPtr Handle then False
         else
           let r = MemPoolTable g ! the PoolRecPtr
           in if \<not> CFE_ES_GenPoolValidateState (Pool r) then False
              else let (_, TotalSize) = CFE_ES_GenPoolGetUsage (Pool r) NULL (Some 0)
                   in MemValidateRange (BaseAddr r) (the TotalSize) = 0)"

end
