(* ===== verification/CFE_ES_MemPool_Thms.thy ===== *)
theory CFE_ES_MemPool_Thms
  imports CFE_ES_MemPool
begin

unbundle bit_operations_syntax

text \<open>
  What the memory pools promise: the direct access to memory meets the contract of a storage, so that the lemmas
  on runs apply to it; the calls on a pool refine the abstract map from the offsets of the blocks in use
  to their sizes; and what creating a pool and validating its handle do.
\<close>

section \<open>Direct access meets the contract\<close>

lemmas direct_defs = direct_storage_def CFE_ES_MemPoolDirectRetrieve_def CFE_ES_MemPoolDirectCommit_def Let_def

interpretation direct: reliable_user_storage "direct_storage Base" "\<lambda>m x. m (Base + x)" "\<lambda>a v m. m(Base + a := v)" "2 ^ 64" for Base
proof
  fix a m m1 st
  assume "Retrieve (direct_storage Base) m a = (m1, st)"
  then show "(\<lambda>x. m1 (Base + x)) = (\<lambda>x. m (Base + x)) \<and> (st = CFE_SUCCESS \<longrightarrow> BdOf (direct_storage Base) m1 a = read_bd (\<lambda>x. m (Base + x)) a)"
    by (simp add: direct_defs read_bd_shift)
next
  fix a m m1 bd m2 st
  assume "Retrieve (direct_storage Base) m a = (m1, CFE_SUCCESS)"
    "Commit (direct_storage Base) (SetBd (direct_storage Base) m1 a bd) a = (m2, st)"
  then show "(\<lambda>x. m2 (Base + x)) = (if st = CFE_SUCCESS then write_bd a bd (\<lambda>x. m (Base + x)) else (\<lambda>x. m (Base + x)))"
    using write_bd_shift [of Base a bd m] by (auto simp: direct_defs)
qed (auto simp: direct_defs fun_eq_iff)

lemma pool_lim: "unat (PoolMaxOffset p) \<le> 2 ^ 64"
  using unsigned_less [where 'a = nat, of "PoolMaxOffset p"] by simp

text \<open>The application's view of a pool area, and an application that writes there.\<close>

abbreviation area :: "u64 \<Rightarrow> bytes \<Rightarrow> bytes" where
  "area Base m \<equiv> \<lambda>x. m (Base + x)"

abbreviation user_write :: "u64 \<Rightarrow> u64 \<Rightarrow> u8 \<Rightarrow> bytes \<Rightarrow> bytes" where
  "user_write Base \<equiv> \<lambda>a v m. m(Base + a := v)"

section \<open>Isolation\<close>

text \<open>
  C11. Isolation of the blocks of a pool.  After a pool has been set up with valid sizes, in every state that any
  sequence of requests, returns (also repeated returns of the same block) and writes of the users into their blocks
  leads to, every block a user holds is aligned, lies inside the pool area behind a
  descriptor, does not overlap any other block that is held, and neither a request nor a return changes a
  byte of it.
\<close>

theorem pool_isolation:
  assumes args: "init_args 0 Size k n sizes" and init: "CFE_ES_GenPoolInitialize 0 Size (2 ^ k) n sizes = (p, st)"
    and run: "(pool_step (direct_storage Base) (user_write Base))\<^sup>*\<^sup>* (run_start p m) s" and held: "Held s off = Some sz"
  shows "2 ^ k dvd off \<and> 24 \<le> off \<and> off + unat sz \<le> unat Size \<and>
    (\<forall>off' sz'. Held s off' = Some sz' \<and> off' \<noteq> off \<longrightarrow> off + unat sz \<le> off' \<or> off' + unat sz' \<le> off) \<and>
    (\<forall>x out r p' m' st new. off \<le> unat x \<and> unat x < off + unat sz \<and>
       CFE_ES_GenPoolGetBlock (direct_storage Base) out r (RunPool s, RunStore s) = ((p', m'), st, new) \<longrightarrow> m' (Base + x) = RunStore s (Base + x)) \<and>
    (\<forall>x out old p' m' st n. off \<le> unat x \<and> unat x < off + unat sz \<and> old \<in> Seen s \<and>
       CFE_ES_GenPoolPutBlock (direct_storage Base) out (of_nat old) (RunPool s, RunStore s) = ((p', m'), st, n) \<longrightarrow> m' (Base + x) = RunStore s (Base + x))"
proof -
  note i = initialize_inv [OF args init]
  obtain bs free where inv: "run_inv (area Base) False (shape p) k 0 bs free s"
    using direct.run_reachable [OF run, of k 0 False] i(2) by auto
  have "PoolMaxOffset (RunPool s) = PoolMaxOffset p" using inv by (simp add: run_inv_def shape_def)
  then have "unat (PoolMaxOffset (RunPool s)) = unat Size" using i(3) by simp
  then show ?thesis
    using direct.run_apart [OF inv held] direct.data_kept_get [OF inv held] direct.data_kept_put [OF inv held] by auto
qed

text \<open>A small pool for the concrete inputs: blocks of 16 and 64 bytes in an area of 200.\<close>

definition small_pool :: CFE_ES_GenPoolRecord where
  "small_pool = fst (CFE_ES_GenPoolInitialize 0 200 (2 ^ 4) 2 [64, 16])"

lemma small_args: "init_args 0 200 4 2 [64, 16]"
  by (simp add: init_args_def)

lemma small_init: "CFE_ES_GenPoolInitialize 0 200 (2 ^ 4) 2 [64, 16] = (small_pool, CFE_SUCCESS)"
  using initialize_inv(1) [OF small_args prod.collapse [symmetric]] by (simp add: small_pool_def prod_eq_iff)

lemma small_inv: "pool_inv small_pool d 4 0 [] (\<lambda>_. [])"
  using initialize_inv(2) [OF small_args small_init] by simp

lemma small_sizes: "bsize small_pool 0 = 16" "nbuckets small_pool = 2" "unat (next_block small_pool) = 32" "PoolMaxOffset small_pool = 200"
proof -
  have "bubble_sort [64, 16] = [16, 64]" by (simp add: bubble_sort.simps)
  then show "bsize small_pool 0 = 16" "nbuckets small_pool = 2" "PoolMaxOffset small_pool = 200" and "unat (next_block small_pool) = 32"
    by (simp_all add: small_pool_def CFE_ES_GenPoolInitialize_def bsize_def nbuckets_def next_block_def align_mask_def word_le_nat_alt)
qed

lemma small_fits: "fits small_pool 10 0" "room small_pool (\<lambda>_. []) 0"
  by (simp_all add: fits_def room_def small_sizes)

theorem pool_isolation_witness:
  "\<exists>s off. (pool_step (direct_storage 0x1000) (user_write 0x1000))\<^sup>*\<^sup>* (run_start small_pool (\<lambda>_. 0)) s \<and>
    Held s off = Some 10 \<and> 16 dvd off \<and> 24 \<le> off \<and> off + 10 \<le> 200"
proof -
  obtain p' m' st off where c: "CFE_ES_GenPoolGetBlock (direct_storage 0x1000) 0 10 (small_pool, \<lambda>_. 0) = ((p', m'), st, off)"
    by (metis prod.collapse)
  have "st = CFE_SUCCESS" using direct.get_block_succeeds [where Base = "0x1000" and m = "\<lambda>_. 0" and out = 0, OF small_inv pool_lim small_fits] c by simp
  then have "pool_step (direct_storage 0x1000) (user_write 0x1000) (run_start small_pool (\<lambda>_. 0))
      ((run_start small_pool (\<lambda>_. 0))\<lparr>RunPool := p', RunStore := m', Held := [unat off \<mapsto> 10], Seen := {unat off}\<rparr>)"
    using pool_step.get [of "direct_storage 0x1000" 0 10 "run_start small_pool (\<lambda>_. 0)" p' m' off "user_write 0x1000"] c
    by (simp add: run_start_def)
  then have r: "(pool_step (direct_storage 0x1000) (user_write 0x1000))\<^sup>*\<^sup>* (run_start small_pool (\<lambda>_. 0))
      ((run_start small_pool (\<lambda>_. 0))\<lparr>RunPool := p', RunStore := m', Held := [unat off \<mapsto> 10], Seen := {unat off}\<rparr>)" by (rule r_into_rtranclp)
  have h: "Held ((run_start small_pool (\<lambda>_. 0))\<lparr>RunPool := p', RunStore := m', Held := [unat off \<mapsto> 10], Seen := {unat off}\<rparr>) (unat off) = Some 10" by simp
  show ?thesis
    using pool_isolation [OF small_args small_init r h] r h by (intro exI [of _ "unat off"] exI conjI) auto
qed

section \<open>Calls by handle\<close>

text \<open>A consistent pool in the table, and the abstract map of its blocks in use.\<close>

definition pool_ok :: "CFE_ES_MemPools \<Rightarrow> nat \<Rightarrow> nat \<Rightarrow> (nat \<times> nat) list \<Rightarrow> (nat \<Rightarrow> nat list) \<Rightarrow> bool" where
  "pool_ok g i k bs free \<longleftrightarrow> i < length (MemPoolTable g) \<and>
     pool_inv (Pool (MemPoolTable g ! i)) (read_bd (area (BaseAddr (MemPoolTable g ! i)) (Ram g))) k 0 bs free"

definition pool_held :: "CFE_ES_MemPools \<Rightarrow> nat \<Rightarrow> (nat \<times> nat) list \<Rightarrow> (nat \<Rightarrow> nat list) \<Rightarrow> nat \<rightharpoonup> u64" where
  "pool_held g i bs free = granted (read_bd (area (BaseAddr (MemPoolTable g ! i)) (Ram g))) bs free"

definition handle_of :: "CFE_ES_MemPools \<Rightarrow> CFE_ES_MemHandle \<Rightarrow> nat \<Rightarrow> bool" where
  "handle_of g H i \<longleftrightarrow> CFE_ES_LocateMemPoolRecordByID H = Some i \<and> PoolID (MemPoolTable g ! i) = H"

lemma handle_match: "handle_of g H i \<Longrightarrow> CFE_ES_MemPoolRecordIsMatch g (CFE_ES_LocateMemPoolRecordByID H) H \<and> the (CFE_ES_LocateMemPoolRecordByID H) = i"
  by (simp add: handle_of_def CFE_ES_MemPoolRecordIsMatch_def)

text \<open>A call of the generic pool changes the pool of its entry and the memory, and nothing else.\<close>

lemma run_pool_eq:
  assumes i: "i < length (MemPoolTable g)" and f: "f (direct_storage (BaseAddr (MemPoolTable g ! i))) (Pool (MemPoolTable g ! i), Ram g) = ((p, m), res)"
  defines "g' \<equiv> (upd_mempool i (\<lambda>r. r\<lparr>Pool := p\<rparr>) g)\<lparr>Ram := m\<rparr>"
  shows "run_pool i f g = (g', res)" "MemPoolTable g' ! i = (MemPoolTable g ! i)\<lparr>Pool := p\<rparr>" "Ram g' = m"
    "length (MemPoolTable g') = length (MemPoolTable g)" "j \<noteq> i \<Longrightarrow> MemPoolTable g' ! j = MemPoolTable g ! j"
  using i f by (simp_all add: run_pool_def g'_def upd_mempool_def)

lemma run_pool_same:
  assumes "f (direct_storage (BaseAddr (MemPoolTable g ! i))) (Pool (MemPoolTable g ! i), Ram g) = ((Pool (MemPoolTable g ! i), Ram g), res)"
  shows "run_pool i f g = (g, res)"
  using assms by (simp add: run_pool_def upd_mempool_def)

lemma get_pool_buf_cases:
  assumes h: "handle_of g H i" and ok: "pool_ok g i k bs free"
  defines "p \<equiv> Pool (MemPoolTable g ! i)" and "base \<equiv> BaseAddr (MemPoolTable g ! i)"
  shows "fits p Size j \<Longrightarrow> room p free j \<Longrightarrow>
      \<exists>g' off bs' free'. CFE_ES_GetPoolBuf d (Some b) H Size g = (g', ucast Size, Some (Some (base + of_nat off))) \<and>
        pool_ok g' i k bs' free' \<and> handle_of g' H i \<and> pool_held g i bs free off = None \<and>
        pool_held g' i bs' free' = (pool_held g i bs free)(off \<mapsto> Size)"
    and "(\<And>j. fits p Size j \<Longrightarrow> \<not> room p free j) \<Longrightarrow> CFE_ES_GetPoolBuf d (Some b) H Size g = (g, CFE_ES_ERR_MEM_BLOCK_SIZE, Some b)"
proof -
  note hm = handle_match [OF h]
  have i: "i < length (MemPoolTable g)" and inv: "pool_inv p (read_bd (area base (Ram g))) k 0 bs free"
    using ok by (simp_all add: pool_ok_def p_def base_def)
  let ?f = "\<lambda>acc. CFE_ES_GenPoolGetBlock acc d Size"
  show "CFE_ES_GetPoolBuf d (Some b) H Size g = (g, CFE_ES_ERR_MEM_BLOCK_SIZE, Some b)" if no: "\<And>j. fits p Size j \<Longrightarrow> \<not> room p free j"
  proof -
    have "run_pool i ?f g = (g, CFE_ES_ERR_MEM_BLOCK_SIZE, d)"
      using direct.get_block_refused [where out = d, OF inv no] unfolding p_def base_def by (rule run_pool_same)
    then show ?thesis using hm by (simp add: CFE_ES_GetPoolBuf_def)
  qed
  assume fits: "fits p Size j" and room: "room p free j"
  obtain p' m' st off where c: "?f (direct_storage base) (p, Ram g) = ((p', m'), st, off)" by (metis prod.collapse)
  have st: "st = CFE_SUCCESS" using direct.get_block_succeeds [where out = d, OF inv pool_lim fits room] c by simp
  note run = run_pool_eq [OF i, of ?f, folded p_def base_def, OF c]
  let ?g = "(upd_mempool i (\<lambda>r. r\<lparr>Pool := p'\<rparr>) g)\<lparr>Ram := m'\<rparr>"
  obtain l where "hands_out p (read_bd (area base (Ram g))) bs free k 0 Size l off p' (read_bd (area base m'))"
    using direct.get_block [OF inv c] st by blast
  then obtain bs' free' where n: "pool_inv p' (read_bd (area base m')) k 0 bs' free'" "in_use bs' free' = insert (unat off, l) (in_use bs free)"
    "(unat off, l) \<notin> in_use bs free" "granted (read_bd (area base m')) bs' free' = (granted (read_bd (area base (Ram g))) bs free)(unat off \<mapsto> Size)"
    unfolding hands_out_def by blast
  have none: "granted (read_bd (area base (Ram g))) bs free (unat off) = None"
  proof -
    have "(unat off, l') \<notin> in_use bs free" for l'
      using n(2,3) same_block [OF n(1), of "unat off" l l'] in_use_iff [of "unat off" l bs' free'] in_use_iff [of "unat off" l' bs' free'] by auto
    then show ?thesis by (auto simp: granted_def)
  qed
  have "CFE_ES_GetPoolBuf d (Some b) H Size g = (?g, ucast Size, Some (Some (base + of_nat (unat off))))"
    using hm run(1,2) st by (simp add: CFE_ES_GetPoolBuf_def base_def)
  moreover have "pool_ok ?g i k bs' free'" using i n(1) run(2-4) by (simp add: pool_ok_def base_def)
  moreover have "handle_of ?g H i" using h run(2) by (simp add: handle_of_def)
  moreover have "pool_held ?g i bs' free' = (pool_held g i bs free)(unat off \<mapsto> Size)" using n(4) run(2,3) by (simp add: pool_held_def base_def)
  ultimately show "\<exists>g' off bs' free'. CFE_ES_GetPoolBuf d (Some b) H Size g = (g', ucast Size, Some (Some (base + of_nat off))) \<and>
        pool_ok g' i k bs' free' \<and> handle_of g' H i \<and> pool_held g i bs free off = None \<and>
        pool_held g' i bs' free' = (pool_held g i bs free)(off \<mapsto> Size)"
    using none by (intro exI [of _ ?g] exI [of _ "unat off"] exI [of _ bs'] exI [of _ free']) (simp add: pool_held_def base_def)
qed

text \<open>
  C12. Getting a buffer.  On a consistent pool a request that fits the smallest suitable bucket, with a free block or
  enough space left, returns the size and the address of a block that was not in use, and
  the pool has exactly that block more in use; any other request returns
  \<open>CFE_ES_ERR_MEM_BLOCK_SIZE\<close> and changes nothing.
\<close>

theorem get_pool_buf_correct:
  assumes h: "handle_of g H i" and ok: "pool_ok g i k bs free"
  defines "p \<equiv> Pool (MemPoolTable g ! i)" and "base \<equiv> BaseAddr (MemPoolTable g ! i)"
  shows "(if \<exists>j. fits p Size j \<and> room p free j
     then \<exists>g' off bs' free'. CFE_ES_GetPoolBuf d (Some b) H Size g = (g', ucast Size, Some (Some (base + of_nat off))) \<and>
        pool_ok g' i k bs' free' \<and> handle_of g' H i \<and> pool_held g i bs free off = None \<and>
        pool_held g' i bs' free' = (pool_held g i bs free)(off \<mapsto> Size)
     else CFE_ES_GetPoolBuf d (Some b) H Size g = (g, CFE_ES_ERR_MEM_BLOCK_SIZE, Some b))"
proof (cases "\<exists>j. fits p Size j \<and> room p free j")
  case True
  then obtain j where "fits p Size j" "room p free j" by blast
  from get_pool_buf_cases(1) [OF h ok this [unfolded p_def]] show ?thesis using True by (simp add: base_def)
next
  case False
  then show ?thesis using get_pool_buf_cases(2) [OF h ok, of Size] by (auto simp: p_def)
qed

text \<open>
  C13. Returning a buffer.  A block in use with a size other than zero is returned with that size; afterwards it is not in use, and
  nothing else about the blocks in use has changed.  Returning it once more is refused with
  \<open>CFE_ES_POOL_BLOCK_INVALID\<close> and only counted.
\<close>

theorem put_pool_buf_correct:
  assumes h: "handle_of g H i" and ok: "pool_ok g i k bs free" and held: "pool_held g i bs free off = Some sz" "sz \<noteq> 0"
  defines "buf \<equiv> Some (BaseAddr (MemPoolTable g ! i) + of_nat off)"
  shows "CFE_ES_GetPoolBufInfo d H buf g = (g, ucast sz) \<and>
    (\<exists>g' free'. CFE_ES_PutPoolBuf d H buf g = (g', ucast sz) \<and> pool_ok g' i k bs free' \<and> handle_of g' H i \<and>
       pool_held g' i bs free' = (pool_held g i bs free)(off := None) \<and>
       (\<exists>g''. CFE_ES_PutPoolBuf d H buf g' = (g'', CFE_ES_POOL_BLOCK_INVALID) \<and> pool_ok g'' i k bs free' \<and>
          pool_held g'' i bs free' = pool_held g' i bs free' \<and>
          ValidationErrorCount (Pool (MemPoolTable g'' ! i)) = ValidationErrorCount (Pool (MemPoolTable g' ! i)) + 1))"
proof -
  let ?r = "MemPoolTable g ! i" and ?base = "BaseAddr (MemPoolTable g ! i)"
  let ?p = "Pool (MemPoolTable g ! i)" and ?d = "read_bd (area (BaseAddr (MemPoolTable g ! i)) (Ram g))"
  note hm = handle_match [OF h]
  have i: "i < length (MemPoolTable g)" and inv: "pool_inv ?p ?d k 0 bs free" using ok by (simp_all add: pool_ok_def)
  obtain j where u: "(off, j) \<in> in_use bs free" using held_block [OF inv, of off sz] held(1) by (auto simp: pool_held_def)
  then have sz: "ActualSize (desc ?d off) = sz" "ActualSize (desc ?d off) \<noteq> 0" using held by (auto simp: pool_held_def granted_def split: if_splits)
  have info: "CFE_ES_GetPoolBufInfo d H buf g = (g, ucast sz)"
  proof -
    have "CFE_ES_GenPoolGetBlockSize (direct_storage ?base) d (of_nat off) (?p, Ram g) = ((?p, Ram g), CFE_SUCCESS, sz)"
      using direct.block_size [where out = d, OF inv pool_lim u sz(2)] sz(1) by (auto simp: CFE_ES_GenPoolGetBlockSize_def direct_defs split: if_splits)
    then have "run_pool i (\<lambda>acc. CFE_ES_GenPoolGetBlockSize acc d (of_nat off)) g = (g, CFE_SUCCESS, sz)" by (rule run_pool_same)
    then show ?thesis using hm by (simp add: CFE_ES_GetPoolBufInfo_def buf_def)
  qed
  let ?f = "\<lambda>acc. CFE_ES_GenPoolPutBlock acc d (of_nat off)" and ?free = "free(j := off # free j)"
  obtain p' m' st n where c: "?f (direct_storage ?base) (?p, Ram g) = ((p', m'), st, n)" by (metis prod.collapse)
  have st: "st = CFE_SUCCESS" using direct.put_block_succeeds [where out = d, OF inv pool_lim u sz(2)] c by simp
  have res: "n = sz" "pool_inv p' (read_bd (area ?base m')) k 0 bs ?free"
    "granted (read_bd (area ?base m')) bs ?free = (granted ?d bs free)(off := None)"
    using direct.put_block [OF inv u sz(2) c] st sz(1) by simp_all
  note run = run_pool_eq [OF i, of ?f, OF c]
  let ?g = "(upd_mempool i (\<lambda>r. r\<lparr>Pool := p'\<rparr>) g)\<lparr>Ram := m'\<rparr>"
  have h': "handle_of ?g H i" using h run(2) by (simp add: handle_of_def)
  have put: "CFE_ES_PutPoolBuf d H buf g = (?g, ucast sz)" using hm run(1) st res(1) by (simp add: CFE_ES_PutPoolBuf_def buf_def)
  have b: "(off, j) \<in> set bs" using u by (simp add: in_use_iff)
  obtain m1 where again: "?f (direct_storage ?base) (p', m') = ((p'\<lparr>ValidationErrorCount := ValidationErrorCount p' + 1\<rparr>, m1), CFE_ES_POOL_BLOCK_INVALID, d)"
    "read_bd (area ?base m1) = read_bd (area ?base m')"
    using direct.put_block_fails [where out = d, OF res(2) pool_lim b] by auto
  have i': "i < length (MemPoolTable ?g)" using i run(4) by simp
  have at: "?f (direct_storage (BaseAddr (MemPoolTable ?g ! i))) (Pool (MemPoolTable ?g ! i), Ram ?g) =
      ((p'\<lparr>ValidationErrorCount := ValidationErrorCount p' + 1\<rparr>, m1), CFE_ES_POOL_BLOCK_INVALID, d)" using again(1) run(2,3) by simp
  note run2 = run_pool_eq [OF i', of ?f, OF at]
  let ?g2 = "(upd_mempool i (\<lambda>r. r\<lparr>Pool := p'\<lparr>ValidationErrorCount := ValidationErrorCount p' + 1\<rparr>\<rparr>) ?g)\<lparr>Ram := m1\<rparr>"
  have put2: "CFE_ES_PutPoolBuf d H buf ?g = (?g2, CFE_ES_POOL_BLOCK_INVALID)"
    using handle_match [OF h'] run2(1) run(2) by (simp add: CFE_ES_PutPoolBuf_def buf_def)
  have "pool_ok ?g i k bs ?free" "pool_held ?g i bs ?free = (pool_held g i bs free)(off := None)"
    using i res(2,3) run(2-4) by (simp_all add: pool_ok_def pool_held_def)
  moreover have "pool_ok ?g2 i k bs ?free" "pool_held ?g2 i bs ?free = pool_held ?g i bs ?free"
    "ValidationErrorCount (Pool (MemPoolTable ?g2 ! i)) = ValidationErrorCount (Pool (MemPoolTable ?g ! i)) + 1"
    using i' res(2) run(2,3) run2(2-4) again(2) by (simp_all add: pool_ok_def pool_held_def pool_inv_errors)
  ultimately show ?thesis using info put put2 h' by blast
qed

section \<open>Creating a pool\<close>

lemma Locate_pool_eq:
  "CFE_ES_LocateMemPoolRecordByID H =
     (if H - CFE_ES_POOLID_BASE > CFE_RESOURCEID_MAX then NULL else Some (unat ((H - CFE_ES_POOLID_BASE) mod 10)))"
  by (simp add: CFE_ES_LocateMemPoolRecordByID_def CFE_ES_MemPoolID_ToIndex_def CFE_ResourceId_ToIndex_def Let_def)

lemma Locate_pool_lt: "CFE_ES_LocateMemPoolRecordByID H = Some i \<Longrightarrow> i < 10"
  by (auto simp: Locate_pool_eq unat_mod split: if_splits)

interpretation mempools: resource_table "0x140000" 10 "CFE_ES_CheckMemPoolSlotUsed g"
  "\<lambda>i. PoolID (MemPoolTable g ! unat i) \<noteq> CFE_RESOURCEID_UNDEFINED" for g
proof
  fix i x idx
  assume "CFE_ResourceId_ToIndex i 0x140000 10 (Some x) = (CFE_SUCCESS, Some idx)"
  then show "CFE_ES_CheckMemPoolSlotUsed g i = (PoolID (MemPoolTable g ! unat idx) \<noteq> 0)"
    by (auto simp: CFE_ES_CheckMemPoolSlotUsed_def CFE_ES_MemPoolRecordIsUsed_def CFE_ES_LocateMemPoolRecordByID_def
        CFE_ES_MemPoolID_ToIndex_def CFE_ResourceId_ToIndex_def Let_def split: if_splits)
qed simp_all

definition pools_inv :: "CFE_ES_MemPools \<Rightarrow> bool" where
  "pools_inv g \<longleftrightarrow> length (MemPoolTable g) = 10 \<and> CFE_ResourceId_GetBase (LastMemPoolId g) = CFE_ES_POOLID_BASE"

lemma pool_reserve_ok:
  assumes inv: "pools_inv g" and free: "i0 < 10" "PoolID (MemPoolTable g ! i0) = 0"
  shows "\<exists>i H. pool_reserve g = ((CFE_ES_MemPoolRecordSetUsed i CFE_RESOURCEID_RESERVED (upd_mempool i (\<lambda>_. zero_MemPoolRecord) g))\<lparr>LastMemPoolId := H\<rparr>,
      CFE_SUCCESS, Some i, H) \<and> i < 10 \<and> PoolID (MemPoolTable g ! i) = 0 \<and> CFE_ES_LocateMemPoolRecordByID H = Some i \<and>
    CFE_ResourceId_GetBase H = CFE_ES_POOLID_BASE"
proof -
  define H where "H = CFE_ResourceId_FindNext (LastMemPoolId g) 10 (CFE_ES_CheckMemPoolSlotUsed g)"
  have base: "CFE_ResourceId_GetBase (LastMemPoolId g) = 0x140000" using inv by (simp add: pools_inv_def)
  have f: "(of_nat i0 :: u32) < 10" "\<not> PoolID (MemPoolTable g ! unat (of_nat i0 :: u32)) \<noteq> 0"
    using free by (simp_all add: word_less_nat_alt unat_of_nat)
  obtain i where i: "PoolID (MemPoolTable g ! unat i) = 0" "CFE_ResourceId_GetBase H = 0x140000"
    "CFE_ResourceId_ToIndex H 0x140000 10 (Some 0) = (CFE_SUCCESS, Some i)"
    using mempools.FindNext_free [OF base f, of 0, folded H_def] by blast
  then have loc: "CFE_ES_LocateMemPoolRecordByID H = Some (unat i)"
    by (simp add: CFE_ES_LocateMemPoolRecordByID_def CFE_ES_MemPoolID_ToIndex_def)
  then show ?thesis using i Locate_pool_lt [OF loc] by (intro exI [of _ "unat i"] exI [of _ H]) (simp add: pool_reserve_def Let_def H_def [symmetric])
qed

lemma PoolCreateEx_ok:
  assumes inv: "pools_inv g" and free: "i0 < 10" "PoolID (MemPoolTable g ! i0) = 0"
    and align: "AlignOf_PoolAlign env = 2 ^ k" "2 \<le> k" and args: "init_args 0 Size k n sizes"
    and size: "CFE_ES_GenPoolCalcMinSize n sizes 1 \<le> Size" and mutex: "UseMutex \<longrightarrow> fst (MutSemCreate env) = 0"
  shows "\<exists>g' H i. CFE_ES_PoolCreateEx env (Some x) (Some a) Size n (Some sizes) UseMutex g = (g', CFE_SUCCESS, Some H) \<and>
    handle_of g' H i \<and> i < 10 \<and> PoolID (MemPoolTable g ! i) = 0 \<and> H \<noteq> 0 \<and> pool_ok g' i k [] (\<lambda>_. []) \<and>
    pool_held g' i [] (\<lambda>_. []) = Map.empty \<and> BaseAddr (MemPoolTable g' ! i) = a \<and> Ram g' = Ram g \<and>
    (\<forall>j. j \<noteq> i \<longrightarrow> MemPoolTable g' ! j = MemPoolTable g ! j) \<and> pools_inv g'"
proof -
  obtain i H where r: "pool_reserve g = ((CFE_ES_MemPoolRecordSetUsed i CFE_RESOURCEID_RESERVED (upd_mempool i (\<lambda>_. zero_MemPoolRecord) g))\<lparr>LastMemPoolId := H\<rparr>,
      CFE_SUCCESS, Some i, H)" and i: "i < 10" "PoolID (MemPoolTable g ! i) = 0" and loc: "CFE_ES_LocateMemPoolRecordByID H = Some i"
    and base: "CFE_ResourceId_GetBase H = CFE_ES_POOLID_BASE"
    using pool_reserve_ok [OF inv free] by blast
  have k16: "k \<le> 16" using args by (simp add: init_args_def)
  have len: "i < length (MemPoolTable g)" "length (MemPoolTable g) = 10" using i inv by (simp_all add: pools_inv_def)
  have n17: "\<not> CFE_PLATFORM_ES_POOL_MAX_BUCKETS < n" using args by (auto simp: init_args_def)
  have "(4 :: nat) = 2 ^ 2" by simp
  also have "\<dots> \<le> 2 ^ k" using align(2) by (intro power_increasing) auto
  finally have four: "(4 :: nat) \<le> 2 ^ k" .
  have "(2 :: nat) ^ k \<le> 2 ^ 16" using k16 by (intro power_increasing) auto
  then have "unat (of_nat (2 ^ k) :: u64) = 2 ^ k" unfolding unat_of_nat by (intro mod_less) simp
  then have "\<not> (2 ^ k :: u64) < 4" using four by (simp add: word_less_nat_alt)
  moreover obtain p st where ini: "CFE_ES_GenPoolInitialize 0 Size (2 ^ k) n sizes = (p, st)" by fastforce
  note pi = initialize_inv(1,2) [OF args ini]
  obtain mst mid where m: "MutSemCreate env = (mst, mid)" by fastforce
  define rec where "rec = \<lparr>Pool = p, PoolID = H, BaseAddr = a, OwnerAppID = CallerAppID env, PoolMutexId = (if UseMutex then mid else 0)\<rparr>"
  define g' where "g' = g\<lparr>LastMemPoolId := H, MemPoolTable := (MemPoolTable g)[i := rec]\<rparr>"
  have "CFE_ES_PoolCreateEx env (Some x) (Some a) Size n (Some sizes) UseMutex g = (g', CFE_SUCCESS, Some H)"
    using r pi(1) ini calculation align(1) leD [OF size] mutex m n17 len(1)
    by (simp add: CFE_ES_PoolCreateEx_def pool_finish_def g'_def rec_def CFE_ES_MemPoolRecordSetUsed_def upd_mempool_def zero_MemPoolRecord_def Let_def)
  moreover have "MemPoolTable g' ! j = (if j = i then rec else MemPoolTable g ! j)" for j using len by (simp add: g'_def)
  moreover have "pool_ok g' i k [] (\<lambda>_. [])" using pi(2) len by (simp add: pool_ok_def g'_def rec_def)
  moreover have "handle_of g' H i" using loc len by (simp add: handle_of_def g'_def rec_def)
  moreover have "H \<noteq> 0" using loc by (auto simp: Locate_pool_eq)
  moreover have "pool_held g' i [] (\<lambda>_. []) = Map.empty" by (simp add: pool_held_def granted_def in_use_def fun_eq_iff)
  moreover have "pools_inv g'" using inv base by (simp add: pools_inv_def g'_def)
  ultimately show ?thesis using i by (intro exI [of _ g'] exI [of _ H] exI [of _ i]) (simp add: rec_def, simp add: g'_def)
qed

text \<open>
  Creating a pool.  With a free table entry, valid block sizes, an area that is large enough (and below four gigabytes) and, when asked for, a mutex,
  the call succeeds: the new handle finds an entry that was free, which holds the area's address and a consistent
  pool with no block in use; the other entries and the memory are unchanged.
\<close>

theorem pool_create_correct:
  assumes inv: "pools_inv g" and free: "i0 < 10" "PoolID (MemPoolTable g ! i0) = 0"
    and align: "AlignOf_PoolAlign env = 2 ^ k" "2 \<le> k" and args: "init_args 0 Size k n sizes"
    and size: "CFE_ES_GenPoolCalcMinSize n sizes 1 \<le> Size" and mutex: "UseMutex \<longrightarrow> fst (MutSemCreate env) = 0"
  shows "\<exists>g' H i. CFE_ES_PoolCreateEx env (Some x) (Some a) Size n (Some sizes) UseMutex g = (g', CFE_SUCCESS, Some H) \<and>
    handle_of g' H i \<and> i < 10 \<and> PoolID (MemPoolTable g ! i) = 0 \<and> H \<noteq> 0 \<and> pool_ok g' i k [] (\<lambda>_. []) \<and>
    pool_held g' i [] (\<lambda>_. []) = Map.empty \<and> BaseAddr (MemPoolTable g' ! i) = a \<and> Ram g' = Ram g \<and>
    (\<forall>j. j \<noteq> i \<longrightarrow> MemPoolTable g' ! j = MemPoolTable g ! j) \<and> pools_inv g'"
  by (rule PoolCreateEx_ok [OF assms])

text \<open>
  Validating a handle.  A pool that \<open>CFE_ES_PoolCreate\<close> has created with the default block sizes is never
  valid for \<open>CFE_ES_ValidateHandle\<close>, whatever the memory map: it has as many block sizes as there are buckets,
  and the check asks for less than that.
\<close>

theorem default_pool_never_valid:
  assumes "length (MemPoolTable g) = 10" and "CFE_ES_PoolCreate env (Some x) (Some a) Size g = (g', CFE_SUCCESS, Some H)"
  shows "\<not> CFE_ES_ValidateHandle V H g'"
proof -
  have none: "pool_reserve g \<noteq> (g1, CFE_SUCCESS, None, P)" for g1 P by (auto simp: pool_reserve_def Let_def split: option.splits)
  obtain g1 st i P where r: "pool_reserve g = (g1, st, Some i, P)" and f: "pool_finish env a Size 17 CFE_ES_MemPoolDefSize True i P g1 = (g', CFE_SUCCESS, H)"
    using assms(2) none by (auto simp: CFE_ES_PoolCreate_def CFE_ES_PoolCreateEx_def split: if_splits prod.splits option.splits)
  have loc: "CFE_ES_LocateMemPoolRecordByID P = Some i" and len: "length (MemPoolTable g1) = 10"
    using r assms(1) by (auto simp: pool_reserve_def Let_def CFE_ES_MemPoolRecordSetUsed_def upd_mempool_def split: option.splits)
  have "NumBuckets (Pool (MemPoolTable g' ! i)) = 17 \<and> H = P"
    using f len Locate_pool_lt [OF loc]
    by (auto simp: pool_finish_def CFE_ES_GenPoolInitialize_def CFE_ES_MemPoolRecordSetUsed_def upd_mempool_def Let_def split: if_splits prod.splits)
  then show ?thesis using loc by (simp add: CFE_ES_ValidateHandle_def CFE_ES_GenPoolValidateState_def)
qed

section \<open>Concrete pools\<close>

definition sample_pool_env :: CFE_ES_PoolEnv where
  "sample_pool_env = \<lparr>AlignOf_PoolAlign = 16, MutSemCreate = (0, 7), CallerAppID = 0x110001\<rparr>"

definition no_pools :: CFE_ES_MemPools where
  "no_pools = \<lparr>MemPoolTable = replicate 10 zero_MemPoolRecord, LastMemPoolId = 0x140000, Ram = \<lambda>_. 0\<rparr>"

lemma no_pools_inv: "pools_inv no_pools" "length (MemPoolTable no_pools) = 10" "PoolID (MemPoolTable no_pools ! 3) = 0"
  by (simp_all add: pools_inv_def no_pools_def CFE_ResourceId_GetBase_def zero_MemPoolRecord_def)

lemma default_args: "init_args 0 100000 4 17 CFE_ES_MemPoolDefSize" "CFE_ES_GenPoolCalcMinSize 17 CFE_ES_MemPoolDefSize 1 \<le> 100000"
  by (simp_all add: init_args_def CFE_ES_MemPoolDefSize_def CFE_ES_GenPoolCalcMinSize_def)

theorem pool_create_correct_witness:
  "\<exists>g' H i. CFE_ES_PoolCreateEx sample_pool_env (Some 0) (Some 0x1000) 200 2 (Some [64, 16]) True no_pools = (g', CFE_SUCCESS, Some H) \<and>
    handle_of g' H i \<and> pool_ok g' i 4 [] (\<lambda>_. [])"
proof -
  have "CFE_ES_GenPoolCalcMinSize 2 [64, 16] 1 \<le> 200" by (simp add: CFE_ES_GenPoolCalcMinSize_def)
  then show ?thesis
    using pool_create_correct [OF no_pools_inv(1) _ no_pools_inv(3) _ _ small_args, of sample_pool_env True 0 "0x1000"]
    by (auto simp: sample_pool_env_def)
qed

theorem default_pool_never_valid_witness:
  "\<exists>g' H i. CFE_ES_PoolCreate sample_pool_env (Some 0) (Some 0x1000) 100000 no_pools = (g', CFE_SUCCESS, Some H) \<and>
    handle_of g' H i \<and> \<not> CFE_ES_ValidateHandle (\<lambda>_ _. 0) H g'"
proof -
  obtain g' H i where c: "CFE_ES_PoolCreate sample_pool_env (Some 0) (Some 0x1000) 100000 no_pools = (g', CFE_SUCCESS, Some H)" "handle_of g' H i"
    using PoolCreateEx_ok [OF no_pools_inv(1) _ no_pools_inv(3) _ _ default_args, of sample_pool_env True 0 "0x1000"]
    by (auto simp: sample_pool_env_def CFE_ES_PoolCreate_def)
  then show ?thesis using default_pool_never_valid [OF no_pools_inv(2) c(1)] by blast
qed

definition one_pool :: CFE_ES_MemPools where
  "one_pool = no_pools\<lparr>MemPoolTable := (replicate 10 zero_MemPoolRecord)[1 := \<lparr>Pool = small_pool, PoolID = 0x140001, BaseAddr = 0x1000,
     OwnerAppID = 0x110001, PoolMutexId = 0\<rparr>]\<rparr>"

lemma one_pool_ok: "handle_of one_pool 0x140001 1" "pool_ok one_pool 1 4 [] (\<lambda>_. [])" "Pool (MemPoolTable one_pool ! 1) = small_pool"
  "BaseAddr (MemPoolTable one_pool ! 1) = 0x1000"
  by (simp_all add: handle_of_def pool_ok_def one_pool_def Locate_pool_eq small_inv)

theorem get_pool_buf_correct_witness:
  "\<exists>g' off. CFE_ES_GetPoolBuf 0 (Some None) 0x140001 10 one_pool = (g', 10, Some (Some (0x1000 + of_nat off)))"
proof -
  have "\<exists>j. fits small_pool 10 j \<and> room small_pool (\<lambda>_. []) j" using small_fits by blast
  then show ?thesis using get_pool_buf_correct [OF one_pool_ok(1,2), of 10 0 None] unfolding one_pool_ok(3,4) by auto
qed

theorem put_pool_buf_correct_witness:
  "\<exists>g' off g''. CFE_ES_GetPoolBuf 0 (Some None) 0x140001 10 one_pool = (g', 10, Some (Some (0x1000 + of_nat off))) \<and>
    CFE_ES_PutPoolBuf 0 0x140001 (Some (BaseAddr (MemPoolTable g' ! 1) + of_nat off)) g' = (g'', 10)"
proof -
  obtain g' off bs free where g: "CFE_ES_GetPoolBuf 0 (Some None) 0x140001 10 one_pool = (g', 10, Some (Some (0x1000 + of_nat off)))"
    "pool_ok g' 1 4 bs free" "handle_of g' 0x140001 1" "pool_held g' 1 bs free off = Some 10"
    using get_pool_buf_cases(1) [OF one_pool_ok(1,2), of 10 0 0 None] small_fits unfolding one_pool_ok(3,4) by auto
  have "(10 :: u64) \<noteq> 0" by simp
  from put_pool_buf_correct [OF g(3,2,4) this, of 0] g(1) show ?thesis by auto
qed

end
