(* ===== verification/CFE_ES_CRC.thy ===== *)
theory CFE_ES_CRC
  imports CFS_Prelude
begin

unbundle bit_operations_syntax

text \<open>
  The data integrity check of executive services: \<open>CFE_ES_CalculateCRC\<close> of \<^verbatim>\<open>cfe_es_api.c\<close>.  The running value is an
  \<open>int16\<close> in the code: it is a 16-bit word here, its shift to the right is masked and so does not depend on the
  sign, and the result is extended with its sign to the \<open>uint32\<close> that is returned.  Types other than the 16-bit
  one write to the system log and leave the initial value zero.  The loop counter has 32 bits, so that the loop does
  not end for \<open>2\<^sup>32\<close> bytes of data or more: the model is that of shorter data.
\<close>

abbreviation (input) CFE_MISSION_ES_CRC_8 :: u32 where "CFE_MISSION_ES_CRC_8 \<equiv> 1"
abbreviation (input) CFE_MISSION_ES_CRC_16 :: u32 where "CFE_MISSION_ES_CRC_16 \<equiv> 2"
abbreviation (input) CFE_MISSION_ES_CRC_32 :: u32 where "CFE_MISSION_ES_CRC_32 \<equiv> 3"
abbreviation (input) CFE_MISSION_ES_DEFAULT_CRC :: u32 where "CFE_MISSION_ES_DEFAULT_CRC \<equiv> CFE_MISSION_ES_CRC_16"

definition CrcTable :: "u16 list" where
  "CrcTable =
     [0x0000, 0xC0C1, 0xC181, 0x0140, 0xC301, 0x03C0, 0x0280, 0xC241,
      0xC601, 0x06C0, 0x0780, 0xC741, 0x0500, 0xC5C1, 0xC481, 0x0440,
      0xCC01, 0x0CC0, 0x0D80, 0xCD41, 0x0F00, 0xCFC1, 0xCE81, 0x0E40,
      0x0A00, 0xCAC1, 0xCB81, 0x0B40, 0xC901, 0x09C0, 0x0880, 0xC841,
      0xD801, 0x18C0, 0x1980, 0xD941, 0x1B00, 0xDBC1, 0xDA81, 0x1A40,
      0x1E00, 0xDEC1, 0xDF81, 0x1F40, 0xDD01, 0x1DC0, 0x1C80, 0xDC41,
      0x1400, 0xD4C1, 0xD581, 0x1540, 0xD701, 0x17C0, 0x1680, 0xD641,
      0xD201, 0x12C0, 0x1380, 0xD341, 0x1100, 0xD1C1, 0xD081, 0x1040,
      0xF001, 0x30C0, 0x3180, 0xF141, 0x3300, 0xF3C1, 0xF281, 0x3240,
      0x3600, 0xF6C1, 0xF781, 0x3740, 0xF501, 0x35C0, 0x3480, 0xF441,
      0x3C00, 0xFCC1, 0xFD81, 0x3D40, 0xFF01, 0x3FC0, 0x3E80, 0xFE41,
      0xFA01, 0x3AC0, 0x3B80, 0xFB41, 0x3900, 0xF9C1, 0xF881, 0x3840,
      0x2800, 0xE8C1, 0xE981, 0x2940, 0xEB01, 0x2BC0, 0x2A80, 0xEA41,
      0xEE01, 0x2EC0, 0x2F80, 0xEF41, 0x2D00, 0xEDC1, 0xEC81, 0x2C40,
      0xE401, 0x24C0, 0x2580, 0xE541, 0x2700, 0xE7C1, 0xE681, 0x2640,
      0x2200, 0xE2C1, 0xE381, 0x2340, 0xE101, 0x21C0, 0x2080, 0xE041,
      0xA001, 0x60C0, 0x6180, 0xA141, 0x6300, 0xA3C1, 0xA281, 0x6240,
      0x6600, 0xA6C1, 0xA781, 0x6740, 0xA501, 0x65C0, 0x6480, 0xA441,
      0x6C00, 0xACC1, 0xAD81, 0x6D40, 0xAF01, 0x6FC0, 0x6E80, 0xAE41,
      0xAA01, 0x6AC0, 0x6B80, 0xAB41, 0x6900, 0xA9C1, 0xA881, 0x6840,
      0x7800, 0xB8C1, 0xB981, 0x7940, 0xBB01, 0x7BC0, 0x7A80, 0xBA41,
      0xBE01, 0x7EC0, 0x7F80, 0xBF41, 0x7D00, 0xBDC1, 0xBC81, 0x7C40,
      0xB401, 0x74C0, 0x7580, 0xB541, 0x7700, 0xB7C1, 0xB681, 0x7640,
      0x7200, 0xB2C1, 0xB381, 0x7340, 0xB101, 0x71C0, 0x7080, 0xB041,
      0x5000, 0x90C1, 0x9181, 0x5140, 0x9301, 0x53C0, 0x5280, 0x9241,
      0x9601, 0x56C0, 0x5780, 0x9741, 0x5500, 0x95C1, 0x9481, 0x5440,
      0x9C01, 0x5CC0, 0x5D80, 0x9D41, 0x5F00, 0x9FC1, 0x9E81, 0x5E40,
      0x5A00, 0x9AC1, 0x9B81, 0x5B40, 0x9901, 0x59C0, 0x5880, 0x9841,
      0x8801, 0x48C0, 0x4980, 0x8941, 0x4B00, 0x8BC1, 0x8A81, 0x4A40,
      0x4E00, 0x8EC1, 0x8F81, 0x4F40, 0x8D01, 0x4DC0, 0x4C80, 0x8C41,
      0x4400, 0x84C1, 0x8581, 0x4540, 0x8701, 0x47C0, 0x4680, 0x8641,
      0x8201, 0x42C0, 0x4380, 0x8341, 0x4100, 0x81C1, 0x8081, 0x4040]"

definition crc_step :: "u8 \<Rightarrow> u16 \<Rightarrow> u16" where
  "crc_step ByteValue Crc =
     (let Index = (Crc XOR ucast ByteValue) AND 0x00FF
      in (drop_bit 8 Crc AND 0x00FF) XOR CrcTable ! unat Index)"

definition CFE_ES_CalculateCRC :: "u8 list ptr \<Rightarrow> u32 \<Rightarrow> u32 \<Rightarrow> u32" where
  "CFE_ES_CalculateCRC DataPtr InputCRC TypeCRC =
     (case DataPtr of
        None \<Rightarrow> InputCRC
      | Some data \<Rightarrow>
          if data = [] then InputCRC
          else if TypeCRC = CFE_MISSION_ES_CRC_16
          then let Crc = fold crc_step data (ucast (0xFFFF AND InputCRC)) in scast Crc
          else 0)"

section \<open>The check as division of polynomials\<close>

text \<open>One bit of the division by the polynomial \<open>x\<^sup>16 + x\<^sup>15 + x\<^sup>2 + 1\<close>, least significant bit first.\<close>

definition crc_shift :: "u16 \<Rightarrow> u16" where
  "crc_shift c = (if bit c 0 then drop_bit 1 c XOR 0xA001 else drop_bit 1 c)"

definition crc_byte :: "u8 \<Rightarrow> u16 \<Rightarrow> u16" where
  "crc_byte b c = (crc_shift ^^ 8) (c XOR ucast b)"

lemma crc_shift_xor: "crc_shift (a XOR b) = crc_shift a XOR crc_shift b"
  by (rule bit_word_eqI) (auto simp: crc_shift_def bit_simps)

lemma crc_shifts_xor: "(crc_shift ^^ n) (a XOR b) = (crc_shift ^^ n) a XOR (crc_shift ^^ n) b"
  by (induction n) (simp_all add: crc_shift_xor)

text \<open>
  The table by doubling: a value with one more bit is the value without it plus the contribution of that bit.
\<close>

definition doubled :: "(u16 \<Rightarrow> u16) \<Rightarrow> nat \<Rightarrow> u16 list" where
  "doubled f n = map (\<lambda>i. f (of_nat i)) [0 ..< 2 ^ n]"

lemma plus_power_xor:
  assumes "i < 2 ^ n" "n < 16"
  shows "(of_nat (2 ^ n + i) :: u16) = of_nat i XOR 2 ^ n"
proof -
  have "take_bit n (of_nat i :: u16) = of_nat i" using assms(1) by (simp add: take_bit_of_nat take_bit_nat_eq_self)
  then have lt: "bit (of_nat i :: u16) m \<Longrightarrow> m < n" for m by (metis bit_take_bit_iff)
  have "2 ^ n + of_nat i = (2 ^ n OR of_nat i :: u16)"
    by (rule disjunctive_add_eq_or, rule bit_word_eqI) (use lt in \<open>auto simp: bit_simps\<close>)
  also have "\<dots> = of_nat i XOR 2 ^ n"
    by (rule bit_word_eqI) (use lt in \<open>auto simp: bit_simps\<close>)
  finally show ?thesis by simp
qed

lemma doubled_Suc:
  assumes "\<And>a b. f (a XOR b) = f a XOR f b" and "n < 16"
  shows "doubled f (Suc n) = doubled f n @ map (\<lambda>x. x XOR f (2 ^ n)) (doubled f n)"
proof -
  have "[0 ..< 2 ^ Suc n] = [0 ..< 2 ^ n] @ map (\<lambda>i. 2 ^ n + i) [0 ..< 2 ^ n]"
    using upt_add_eq_append [of 0 "2 ^ n" "2 ^ n"] by (simp add: map_add_upt mult_2 add.commute)
  then show ?thesis
    using plus_power_xor [OF _ assms(2)] assms(1) by (simp add: doubled_def del: of_nat_add)
qed

lemma crc_table: "CrcTable = doubled (crc_shift ^^ 8) 8"
proof -
  let ?f = "crc_shift ^^ 8"
  have basis: "?f (2 ^ 0) = 0xC0C1" "?f (2 ^ 1) = 0xC181" "?f (2 ^ 2) = 0xC301" "?f (2 ^ 3) = 0xC601"
    "?f (2 ^ 4) = 0xCC01" "?f (2 ^ 5) = 0xD801" "?f (2 ^ 6) = 0xF001" "?f (2 ^ 7) = 0xA001"
    by code_simp+
  have "?f 0 = 0" using crc_shifts_xor [of 8 0 0] by simp
  then have d0: "doubled ?f 0 = [0]" by (simp add: doubled_def)
  note d = doubled_Suc [of ?f, OF crc_shifts_xor]
  have t4: "doubled ?f 4 = take 16 CrcTable"
    using d [of 0, unfolded d0 basis] d [of 1, unfolded basis] d [of 2, unfolded basis] d [of 3, unfolded basis] by (simp add: CrcTable_def eval_nat_numeral)
  have t5: "doubled ?f 5 = take 32 CrcTable" using d [of 4, unfolded basis t4] by (simp add: CrcTable_def)
  have t6: "doubled ?f 6 = take 64 CrcTable" using d [of 5, unfolded basis t5] by (simp add: CrcTable_def)
  have t7: "doubled ?f 7 = take 128 CrcTable" using d [of 6, unfolded basis t6] by (simp add: CrcTable_def)
  show ?thesis using d [of 7, unfolded basis t7] by (simp add: CrcTable_def)
qed

lemma crc_table_entry: "i < 256 \<Longrightarrow> CrcTable ! i = (crc_shift ^^ 8) (of_nat i)"
  by (simp add: crc_table doubled_def)

lemma crc_shifts_low_zero: "(\<And>j. j < n \<Longrightarrow> \<not> bit x j) \<Longrightarrow> (crc_shift ^^ n) x = drop_bit n x"
proof (induction n arbitrary: x)
  case (Suc n)
  have "crc_shift x = drop_bit 1 x" using Suc.prems [of 0] by (simp add: crc_shift_def)
  moreover have "\<not> bit (drop_bit 1 x) j" if "j < n" for j using Suc.prems [of "Suc j"] that by (simp add: bit_simps)
  ultimately show ?case using Suc.IH [of "drop_bit 1 x"] by (simp add: funpow_Suc_right del: funpow.simps)
qed simp

text \<open>The table takes eight bits in one step.\<close>

lemma crc_step_byte: "crc_step b c = crc_byte b c"
proof -
  let ?lo = "(c XOR ucast b) AND 0x00FF" and ?hi = "c AND NOT 0x00FF"
  have m: "(0x00FF :: u16) = mask 8" by (simp add: mask_eq_exp_minus_1)
  have split: "c XOR ucast b = ?lo XOR ?hi" unfolding m by (rule bit_word_eqI) (auto simp: bit_simps dest: bit_imp_le_length)
  have "?lo \<le> 0x00FF" by (rule word_and_le1)
  then have "unat ?lo < 256" by (simp add: word_le_nat_alt)
  then have "CrcTable ! unat ?lo = (crc_shift ^^ 8) ?lo" by (simp add: crc_table_entry)
  moreover have "(crc_shift ^^ 8) ?hi = drop_bit 8 ?hi" unfolding m by (rule crc_shifts_low_zero) (simp add: bit_simps)
  moreover have "drop_bit 8 ?hi = drop_bit 8 c AND 0x00FF" unfolding m by (rule bit_word_eqI) (auto simp: bit_simps)
  moreover have "crc_byte b c = (crc_shift ^^ 8) ?lo XOR (crc_shift ^^ 8) ?hi"
    unfolding crc_byte_def by (rule trans [OF arg_cong [of _ _ "crc_shift ^^ 8", OF split] crc_shifts_xor])
  ultimately show ?thesis by (simp only: crc_step_def Let_def xor.commute)
qed

section \<open>Sensitivity to errors\<close>

lemma xor_again: "(x XOR b) XOR b = (x :: u16)"
  by (simp add: xor.assoc)

lemma xor_inject: "x XOR b = y XOR b \<Longrightarrow> x = (y :: u16)"
  by (drule arg_cong [where f = "\<lambda>z. z XOR b"]) (simp only: xor_again)

lemma crc_shift_inject: "crc_shift x = crc_shift y \<Longrightarrow> x = y"
proof -
  assume eq: "crc_shift x = crc_shift y"
  have top: "bit (crc_shift z) 15 = bit z 0" for z by (auto simp: crc_shift_def bit_simps dest: bit_imp_le_length)
  then have b0: "bit x 0 = bit y 0" using eq by metis
  then have "drop_bit 1 x = drop_bit 1 y" using eq by (auto simp: crc_shift_def dest: xor_inject split: if_splits)
  then have bs: "bit x (Suc n) = bit y (Suc n)" for n by (metis bit_drop_bit_eq comp_apply plus_1_eq_Suc)
  show "x = y"
  proof (rule bit_word_eqI)
    fix n show "bit x n = bit y n" using b0 bs by (cases n) simp_all
  qed
qed

lemma crc_shifts_inject: "(crc_shift ^^ n) x = (crc_shift ^^ n) y \<Longrightarrow> x = y"
  by (induction n arbitrary: x y) (auto dest: crc_shift_inject)

lemma crc_byte_inject: "crc_byte b x = crc_byte b y \<Longrightarrow> x = y"
  unfolding crc_byte_def by (drule crc_shifts_inject) (rule xor_inject)

lemma crc_fold_inject: "fold crc_byte bs x = fold crc_byte bs y \<Longrightarrow> x = y"
  by (induction bs arbitrary: x y) (auto dest: crc_byte_inject)

lemma ucast_byte: "ucast (ucast a :: u16) = (a :: u8)"
  by (rule bit_word_eqI) (simp add: bit_simps)

lemma crc_byte_differs: "a \<noteq> b \<Longrightarrow> crc_byte a c \<noteq> crc_byte b c"
proof
  assume "a \<noteq> b" and "crc_byte a c = crc_byte b c"
  from this(2) have "c XOR ucast a = c XOR ucast b" unfolding crc_byte_def by (rule crc_shifts_inject)
  then have "ucast a XOR c = ucast b XOR c" by (simp only: xor.commute)
  then have "(ucast a :: u16) = ucast b" by (rule xor_inject)
  then have "a = b" by (metis ucast_byte)
  then show False using \<open>a \<noteq> b\<close> by simp
qed

lemma CalculateCRC_eq:
  "data \<noteq> [] \<Longrightarrow> CFE_ES_CalculateCRC (Some data) init CFE_MISSION_ES_CRC_16 = scast (fold crc_byte data (ucast init))"
proof -
  have m: "(0xFFFF :: u32) = mask 16" by (simp add: mask_eq_exp_minus_1)
  have "ucast (0xFFFF AND init) = (ucast init :: u16)"
    unfolding m by (rule bit_word_eqI) (auto simp: bit_simps)
  moreover have "crc_step = crc_byte" by (simp add: fun_eq_iff crc_step_byte)
  ultimately show "data \<noteq> [] \<Longrightarrow> CFE_ES_CalculateCRC (Some data) init CFE_MISSION_ES_CRC_16 = scast (fold crc_byte data (ucast init))"
    by (simp add: CFE_ES_CalculateCRC_def)
qed

lemma ucast_scast: "ucast (scast c :: u32) = (c :: u16)"
  by (rule bit_word_eqI) (simp add: bit_simps)

lemma scast_inject: "(scast c :: u32) = scast d \<Longrightarrow> c = d" for c d :: u16
  by (metis ucast_scast)

text \<open>
  C38. The integrity check.  For the 16-bit type the table-driven computation is the division by the polynomial
  \<open>x\<^sup>16 + x\<^sup>15 + x\<^sup>2 + 1\<close>, bit by bit, of the data appended to the low half of the initial value; data may be passed in
  parts, each with the result of the part before; and two blocks of data that differ in exactly one byte have different
  results.
\<close>

theorem crc_correct:
  "CFE_ES_CalculateCRC (Some data) init CFE_MISSION_ES_CRC_16 =
     (if data = [] then init else scast (fold (\<lambda>b c. (crc_shift ^^ 8) (c XOR ucast b)) data (ucast init))) \<and>
   (xs \<noteq> [] \<and> ys \<noteq> [] \<longrightarrow>
     CFE_ES_CalculateCRC (Some (xs @ ys)) init CFE_MISSION_ES_CRC_16 =
       CFE_ES_CalculateCRC (Some ys) (CFE_ES_CalculateCRC (Some xs) init CFE_MISSION_ES_CRC_16) CFE_MISSION_ES_CRC_16) \<and>
   (a \<noteq> b \<longrightarrow>
     CFE_ES_CalculateCRC (Some (us @ a # vs)) init CFE_MISSION_ES_CRC_16 \<noteq>
       CFE_ES_CalculateCRC (Some (us @ b # vs)) init CFE_MISSION_ES_CRC_16)"
proof (intro conjI impI)
  have "(\<lambda>b c. (crc_shift ^^ 8) (c XOR ucast b)) = crc_byte" by (simp add: fun_eq_iff crc_byte_def)
  then show "CFE_ES_CalculateCRC (Some data) init CFE_MISSION_ES_CRC_16 =
      (if data = [] then init else scast (fold (\<lambda>b c. (crc_shift ^^ 8) (c XOR ucast b)) data (ucast init)))"
    using CalculateCRC_eq [of data init] by (simp add: CFE_ES_CalculateCRC_def [of "Some []"])
  show "CFE_ES_CalculateCRC (Some (xs @ ys)) init CFE_MISSION_ES_CRC_16 =
      CFE_ES_CalculateCRC (Some ys) (CFE_ES_CalculateCRC (Some xs) init CFE_MISSION_ES_CRC_16) CFE_MISSION_ES_CRC_16"
    if "xs \<noteq> [] \<and> ys \<noteq> []" using that by (simp add: CalculateCRC_eq ucast_scast)
  show "CFE_ES_CalculateCRC (Some (us @ a # vs)) init CFE_MISSION_ES_CRC_16 \<noteq>
      CFE_ES_CalculateCRC (Some (us @ b # vs)) init CFE_MISSION_ES_CRC_16" if "a \<noteq> b"
    using crc_byte_differs [OF that] by (auto simp: CalculateCRC_eq dest!: scast_inject crc_fold_inject)
qed

theorem crc_correct_witness:
  "CFE_ES_CalculateCRC (Some [0x31, 0x32]) 0 CFE_MISSION_ES_CRC_16 =
     CFE_ES_CalculateCRC (Some [0x32]) (CFE_ES_CalculateCRC (Some [0x31]) 0 CFE_MISSION_ES_CRC_16) CFE_MISSION_ES_CRC_16 \<and>
   CFE_ES_CalculateCRC (Some [0x31, 0x32, 0x33]) 0 CFE_MISSION_ES_CRC_16 \<noteq> CFE_ES_CalculateCRC (Some [0x31, 0x72, 0x33]) 0 CFE_MISSION_ES_CRC_16"
  using crc_correct [of "[]" 0 "[0x31]" "[0x32]" "0x32" "0x72" "[0x31]" "[0x33]"] by simp

end
