(* ===== verification/CFE_ES_CDS.thy ===== *)
theory CFE_ES_CDS
  imports CFE_ES_Pool_Run CFE_ES_Resource CFE_ES_CRC
begin

unbundle bit_operations_syntax

text \<open>
  The critical data store of executive services (\<^verbatim>\<open>cfe_es_cds.c\<close>, \<^verbatim>\<open>cfe_es_cds_mempool.c\<close>, \<^verbatim>\<open>cfe_es_cds.h\<close> and the calls of
  \<^verbatim>\<open>cfe_es_api.c\<close>): named blocks of data in a memory that survives a processor reset, each with a check value, a
  registry of the blocks with a copy in that memory, and the recovery of both after a reset.

  \<open>CDSMemory\<close> is the store itself, by offset, as the platform support package keeps it (\<^verbatim>\<open>cfe_psp_memory.c\<close> of
  \<^verbatim>\<open>pc-linux\<close>); its offsets and sizes have 32 bits there, and the size of the store is the configuration parameter
  \<open>CdsSize\<close>, the argument \<open>Cds\<close> of the functions.  The blocks are those of a generic pool whose descriptors are in the store and are reached through the access
  cache.  The cache is a union: \<open>CacheData\<close> is its bytes.  A registry record is 72 bytes in the store: the id, four bytes
  of padding, offset and size of the block, 40 characters and the table flag, padded to a multiple of eight; padding
  is written as zero.  The mutex of the store makes a call one step and is not in the state.  Messages to the
  system log are not modelled; the event that a failing registration sends is part of its result.
\<close>

abbreviation (input) CFE_ES_CDS_ALREADY_EXISTS :: int32 where "CFE_ES_CDS_ALREADY_EXISTS \<equiv> 0x4400000d"
abbreviation (input) CFE_ES_CDS_INVALID_NAME :: int32 where "CFE_ES_CDS_INVALID_NAME \<equiv> 0xc400000f"
abbreviation (input) CFE_ES_CDS_INVALID_SIZE :: int32 where "CFE_ES_CDS_INVALID_SIZE \<equiv> 0xc4000010"
abbreviation (input) CFE_ES_CDS_INVALID :: int32 where "CFE_ES_CDS_INVALID \<equiv> 0xc4000012"
abbreviation (input) CFE_ES_CDS_ACCESS_ERROR :: int32 where "CFE_ES_CDS_ACCESS_ERROR \<equiv> 0xc4000013"
abbreviation (input) CFE_ES_CDS_BLOCK_CRC_ERR :: int32 where "CFE_ES_CDS_BLOCK_CRC_ERR \<equiv> 0xc400001A"
abbreviation (input) CFE_ES_CDS_WRONG_TYPE_ERR :: int32 where "CFE_ES_CDS_WRONG_TYPE_ERR \<equiv> 0xc4000020"
abbreviation (input) CFE_ES_CDS_OWNER_ACTIVE_ERR :: int32 where "CFE_ES_CDS_OWNER_ACTIVE_ERR \<equiv> 0xc4000022"
abbreviation (input) CFE_ES_NOT_IMPLEMENTED :: int32 where "CFE_ES_NOT_IMPLEMENTED \<equiv> 0xc400ffff"
abbreviation (input) CFE_STATUS_EXTERNAL_RESOURCE_FAIL :: int32 where "CFE_STATUS_EXTERNAL_RESOURCE_FAIL \<equiv> 0xc8000005"
abbreviation (input) CFE_PSP_SUCCESS :: int32 where "CFE_PSP_SUCCESS \<equiv> 0"
abbreviation (input) CFE_PSP_ERROR :: int32 where "CFE_PSP_ERROR \<equiv> 0xFFFFFFFF"
abbreviation (input) CFE_ES_CDSBLOCKID_BASE :: u32 where "CFE_ES_CDSBLOCKID_BASE \<equiv> 0x150000"
abbreviation (input) CFE_PLATFORM_ES_CDS_MAX_NUM_ENTRIES :: u32 where "CFE_PLATFORM_ES_CDS_MAX_NUM_ENTRIES \<equiv> 512"
abbreviation (input) CFE_ES_CDS_NUM_BLOCK_SIZES :: u16 where "CFE_ES_CDS_NUM_BLOCK_SIZES \<equiv> 17"
abbreviation (input) CFE_MISSION_ES_CDS_MAX_NAME_LENGTH :: nat where "CFE_MISSION_ES_CDS_MAX_NAME_LENGTH \<equiv> 16"
abbreviation (input) CFE_MISSION_ES_CDS_MAX_FULL_NAME_LEN :: nat where "CFE_MISSION_ES_CDS_MAX_FULL_NAME_LEN \<equiv> 40"
abbreviation (input) CFE_ES_CDS_REGISTER_ERR_EID :: u16 where "CFE_ES_CDS_REGISTER_ERR_EID \<equiv> 69"

text \<open>Sizes and offsets of the structures in the store.\<close>

abbreviation (input) sizeof_BlockHeader :: u64 where "sizeof_BlockHeader \<equiv> 4"
abbreviation (input) sizeof_RegRec :: nat where "sizeof_RegRec \<equiv> 72"
abbreviation (input) sizeof_CacheData :: u64 where "sizeof_CacheData \<equiv> 72"
abbreviation (input) sizeof_PersistentTrailer :: u64 where "sizeof_PersistentTrailer \<equiv> 8"
abbreviation (input) CDS_SIG_BEGIN_OFFSET :: u64 where "CDS_SIG_BEGIN_OFFSET \<equiv> 0"
abbreviation (input) CDS_REG_SIZE_OFFSET :: u64 where "CDS_REG_SIZE_OFFSET \<equiv> 8"
abbreviation (input) CDS_REG_OFFSET :: u64 where "CDS_REG_OFFSET \<equiv> 12"
abbreviation (input) CDS_POOL_OFFSET :: u64 where "CDS_POOL_OFFSET \<equiv> 36876"
abbreviation (input) CDS_RESERVED_MIN_SIZE :: u64 where "CDS_RESERVED_MIN_SIZE \<equiv> 36884"
abbreviation (input) CDS_ABS_MAX_BLOCK_SIZE :: u64 where "CDS_ABS_MAX_BLOCK_SIZE \<equiv> 0x3FFFFFFC"

definition CFE_ES_CDS_SIGNATURE_BEGIN :: "u8 list" where
  "CFE_ES_CDS_SIGNATURE_BEGIN = map of_char ''_CDSBeg_''"

definition CFE_ES_CDS_SIGNATURE_END :: "u8 list" where
  "CFE_ES_CDS_SIGNATURE_END = map of_char ''_CDSEnd_''"

section \<open>Data\<close>

record CFE_ES_CDS_RegRec =
  BlockID :: CFE_ResourceId
  BlockOffset :: u64
  RegBlockSize :: u64
  RegName :: string
  RegTable :: bool

record CFE_ES_CDS_AccessCache =
  CacheData :: bytes
  CacheOffset :: u64
  CacheSize :: u64
  AccessStatus :: int32

record CFE_ES_CDS_Instance =
  CDSPool :: CFE_ES_GenPoolRecord
  Cache :: CFE_ES_CDS_AccessCache
  TotalSize :: u64
  DataSize :: u64
  LastCDSBlockId :: CFE_ResourceId
  Registry :: "CFE_ES_CDS_RegRec list"
  CDSIsAvailable :: bool
  CDSMemory :: bytes

definition zero_RegRec :: CFE_ES_CDS_RegRec where
  "zero_RegRec = \<lparr>BlockID = 0, BlockOffset = 0, RegBlockSize = 0, RegName = replicate 40 (CHR 0x00), RegTable = False\<rparr>"

definition CFE_ES_CDSMemPoolDefSize :: "u64 list" where
  "CFE_ES_CDSMemPoolDefSize =
     [80000, 32768, 16384, 8192, 4096, 2048, 1024, 512, 256, 160, 128, 96, 64, 48, 32, 16, 8]"

section \<open>Memory\<close>

text \<open>Runs of bytes: \<open>memcpy\<close> out of and into a memory.\<close>

definition get_bytes :: "u64 \<Rightarrow> nat \<Rightarrow> bytes \<Rightarrow> u8 list" where
  "get_bytes a n m = map (\<lambda>i. m (a + of_nat i)) [0 ..< n]"

definition put_bytes :: "u64 \<Rightarrow> u8 list \<Rightarrow> bytes \<Rightarrow> bytes" where
  "put_bytes a xs m = (\<lambda>x. if unat (x - a) < length xs then xs ! unat (x - a) else m x)"

text \<open>Integers and registry records as bytes.\<close>

definition le_bytes :: "nat \<Rightarrow> u64 \<Rightarrow> u8 list" where
  "le_bytes n w = get_bytes 0 n (store n w 0 (\<lambda>_. 0))"

definition le_value :: "u8 list \<Rightarrow> u64" where
  "le_value bs = load (length bs) (put_bytes 0 bs (\<lambda>_. 0)) 0"

definition encode_RegRec :: "CFE_ES_CDS_RegRec \<Rightarrow> u8 list" where
  "encode_RegRec r = le_bytes 4 (ucast (BlockID r)) @ replicate 4 0 @ le_bytes 8 (BlockOffset r) @ le_bytes 8 (RegBlockSize r) @
     map of_char (RegName r) @ (if RegTable r then 1 else 0) # replicate 7 0"

definition decode_RegRec :: "u8 list \<Rightarrow> CFE_ES_CDS_RegRec" where
  "decode_RegRec bs = \<lparr>BlockID = ucast (le_value (take 4 bs)), BlockOffset = le_value (take 8 (drop 8 bs)),
     RegBlockSize = le_value (take 8 (drop 16 bs)), RegName = map (\<lambda>b. char_of (unat b)) (take 40 (drop 24 bs)), RegTable = bs ! 64 \<noteq> 0\<rparr>"

definition encode_Registry :: "CFE_ES_CDS_RegRec list \<Rightarrow> u8 list" where
  "encode_Registry rs = concat (map encode_RegRec rs)"

definition decode_Registry :: "nat \<Rightarrow> u8 list \<Rightarrow> CFE_ES_CDS_RegRec list" where
  "decode_Registry n bs = map (\<lambda>i. decode_RegRec (take sizeof_RegRec (drop (sizeof_RegRec * i) bs))) [0 ..< n]"

section \<open>The platform's store\<close>

definition CFE_PSP_GetCDSSize :: "u32 \<Rightarrow> u32 ptr \<Rightarrow> CFE_ES_CDS_Instance \<Rightarrow> int32 \<times> u32 ptr" where
  "CFE_PSP_GetCDSSize Cds SizeOfCDS g =
     (if SizeOfCDS = NULL then (CFE_PSP_ERROR, SizeOfCDS) else (CFE_PSP_SUCCESS, Some (Cds)))"

definition CFE_PSP_WriteToCDS :: "u32 \<Rightarrow> u8 list ptr \<Rightarrow> u32 \<Rightarrow> u32 \<Rightarrow> CFE_ES_CDS_Instance \<Rightarrow> CFE_ES_CDS_Instance \<times> int32" where
  "CFE_PSP_WriteToCDS Cds PtrToDataToWrite CDSOffset NumBytes g =
     (case PtrToDataToWrite of
        None \<Rightarrow> (g, CFE_PSP_ERROR)
      | Some data \<Rightarrow>
          if CDSOffset < Cds \<and> CDSOffset + NumBytes \<le> Cds
          then (g\<lparr>CDSMemory := put_bytes (ucast CDSOffset) (take (unat NumBytes) data) (CDSMemory g)\<rparr>, CFE_PSP_SUCCESS)
          else (g, CFE_PSP_ERROR))"

text \<open>The bytes read replace the start of the caller's buffer.\<close>

definition CFE_PSP_ReadFromCDS :: "u32 \<Rightarrow> u8 list ptr \<Rightarrow> u32 \<Rightarrow> u32 \<Rightarrow> CFE_ES_CDS_Instance \<Rightarrow> int32 \<times> u8 list ptr" where
  "CFE_PSP_ReadFromCDS Cds PtrToDataToRead CDSOffset NumBytes g =
     (case PtrToDataToRead of
        None \<Rightarrow> (CFE_PSP_ERROR, PtrToDataToRead)
      | Some buf \<Rightarrow>
          if CDSOffset < Cds \<and> CDSOffset + NumBytes \<le> Cds
          then (CFE_PSP_SUCCESS, Some (get_bytes (ucast CDSOffset) (unat NumBytes) (CDSMemory g) @ drop (unat NumBytes) buf))
          else (CFE_PSP_ERROR, PtrToDataToRead))"

section \<open>The access cache\<close>

definition cache_bytes :: "CFE_ES_CDS_Instance \<Rightarrow> u8 list" where
  "cache_bytes g = get_bytes 0 (unat sizeof_CacheData) (CacheData (Cache g))"

definition upd_cache :: "(CFE_ES_CDS_AccessCache \<Rightarrow> CFE_ES_CDS_AccessCache) \<Rightarrow> CFE_ES_CDS_Instance \<Rightarrow> CFE_ES_CDS_Instance" where
  "upd_cache f g = g\<lparr>Cache := f (Cache g)\<rparr>"

definition CFE_ES_CDS_CacheFetch :: "u32 \<Rightarrow> u64 \<Rightarrow> u64 \<Rightarrow> CFE_ES_CDS_Instance \<Rightarrow> CFE_ES_CDS_Instance \<times> int32" where
  "CFE_ES_CDS_CacheFetch Cds Offset Size g =
     (if Size > 0 \<and> Size \<le> sizeof_CacheData
      then let (st, buf) = CFE_PSP_ReadFromCDS Cds (Some (cache_bytes g)) (ucast Offset) (ucast Size) g;
               g = upd_cache (\<lambda>c. c\<lparr>AccessStatus := st, CacheData := put_bytes 0 (the buf) (CacheData c)\<rparr>) g
           in if st = CFE_PSP_SUCCESS
              then (upd_cache (\<lambda>c. c\<lparr>CacheOffset := Offset, CacheSize := Size\<rparr>) g, CFE_SUCCESS)
              else (g, CFE_ES_CDS_ACCESS_ERROR)
      else (g, CFE_ES_CDS_INVALID_SIZE))"

definition CFE_ES_CDS_CacheFlush :: "u32 \<Rightarrow> CFE_ES_CDS_Instance \<Rightarrow> CFE_ES_CDS_Instance \<times> int32" where
  "CFE_ES_CDS_CacheFlush Cds g =
     (if CacheSize (Cache g) > 0 \<and> CacheSize (Cache g) \<le> sizeof_CacheData
      then let (g, st) = CFE_PSP_WriteToCDS Cds (Some (cache_bytes g)) (ucast (CacheOffset (Cache g))) (ucast (CacheSize (Cache g))) g;
               g = upd_cache (\<lambda>c. c\<lparr>AccessStatus := st\<rparr>) g
           in (g, if st = CFE_PSP_SUCCESS then CFE_SUCCESS else CFE_ES_CDS_ACCESS_ERROR)
      else (g, CFE_ES_CDS_INVALID_SIZE))"

text \<open>What is preloaded: zeros, the bytes of another object, or what the cache holds.\<close>

datatype preload_source = PreloadNull | PreloadBytes "u8 list" | PreloadCache

definition CFE_ES_CDS_CachePreload :: "preload_source \<Rightarrow> u64 \<Rightarrow> u64 \<Rightarrow> CFE_ES_CDS_Instance \<Rightarrow> CFE_ES_CDS_Instance \<times> int32" where
  "CFE_ES_CDS_CachePreload Source Offset Size g =
     (if Size > 0 \<and> Size \<le> sizeof_CacheData
      then let g = (case Source of
                      PreloadNull \<Rightarrow> upd_cache (\<lambda>c. c\<lparr>CacheData := put_bytes 0 (replicate (unat Size) 0) (CacheData c)\<rparr>) g
                    | PreloadBytes bs \<Rightarrow> upd_cache (\<lambda>c. c\<lparr>CacheData := put_bytes 0 (take (unat Size) bs) (CacheData c)\<rparr>) g
                    | PreloadCache \<Rightarrow> g)
           in (upd_cache (\<lambda>c. c\<lparr>CacheSize := Size, CacheOffset := Offset\<rparr>) g, CFE_SUCCESS)
      else (g, CFE_ES_CDS_INVALID_SIZE))"

section \<open>Descriptors through the cache\<close>

definition CFE_ES_CDS_PoolRetrieve :: "u32 \<Rightarrow> CFE_ES_CDS_Instance \<Rightarrow> u64 \<Rightarrow> CFE_ES_CDS_Instance \<times> int32" where
  "CFE_ES_CDS_PoolRetrieve Cds g Offset = CFE_ES_CDS_CacheFetch Cds Offset CFE_ES_GENERIC_POOL_DESCRIPTOR_SIZE g"

definition CFE_ES_CDS_PoolCommit :: "u32 \<Rightarrow> CFE_ES_CDS_Instance \<Rightarrow> u64 \<Rightarrow> CFE_ES_CDS_Instance \<times> int32" where
  "CFE_ES_CDS_PoolCommit Cds g Offset =
     (let (g, _) = CFE_ES_CDS_CachePreload PreloadCache Offset CFE_ES_GENERIC_POOL_DESCRIPTOR_SIZE g
      in CFE_ES_CDS_CacheFlush Cds g)"

text \<open>\<open>BdPtr\<close> points to the start of the cache.\<close>

definition cds_storage :: "u32 \<Rightarrow> CFE_ES_CDS_Instance CFE_ES_PoolStorage" where
  "cds_storage Cds =
     \<lparr>Retrieve = CFE_ES_CDS_PoolRetrieve Cds,
      BdOf = (\<lambda>g a. read_bd (CacheData (Cache g)) 0),
      SetBd = (\<lambda>g a bd. upd_cache (\<lambda>c. c\<lparr>CacheData := write_bd 0 bd (CacheData c)\<rparr>) g),
      Commit = CFE_ES_CDS_PoolCommit Cds\<rparr>"

definition run_cds :: "u32 \<Rightarrow> (CFE_ES_CDS_Instance CFE_ES_PoolStorage \<Rightarrow> CFE_ES_CDS_Instance pool \<Rightarrow> CFE_ES_CDS_Instance pool \<times> 'b) \<Rightarrow>
    CFE_ES_CDS_Instance \<Rightarrow> CFE_ES_CDS_Instance \<times> 'b" where
  "run_cds Cds f g = (case f (cds_storage Cds) (CDSPool g, g) of ((p, g'), res) \<Rightarrow> (g'\<lparr>CDSPool := p\<rparr>, res))"

definition CFE_ES_CreateCDSPool :: "u64 \<Rightarrow> u64 \<Rightarrow> CFE_ES_CDS_Instance \<Rightarrow> CFE_ES_CDS_Instance \<times> int32" where
  "CFE_ES_CreateCDSPool CDSPoolSize StartOffset g =
     (let SizeCheck = CFE_ES_GenPoolCalcMinSize CFE_ES_CDS_NUM_BLOCK_SIZES CFE_ES_CDSMemPoolDefSize 1
      in if CDSPoolSize < SizeCheck then (g, CFE_ES_CDS_INVALID_SIZE)
         else let (p, Status) = CFE_ES_GenPoolInitialize StartOffset CDSPoolSize 4 CFE_ES_CDS_NUM_BLOCK_SIZES CFE_ES_CDSMemPoolDefSize
              in (g\<lparr>CDSPool := p\<rparr>, Status))"

definition CFE_ES_RebuildCDSPool :: "u32 \<Rightarrow> u64 \<Rightarrow> u64 \<Rightarrow> CFE_ES_CDS_Instance \<Rightarrow> (CFE_ES_CDS_Instance \<times> int32) option" where
  "CFE_ES_RebuildCDSPool Cds CDSPoolSize StartOffset g =
     (let (g, Status) = CFE_ES_CreateCDSPool CDSPoolSize StartOffset g
      in if Status \<noteq> CFE_SUCCESS then Some (g, Status)
         else case CFE_ES_GenPoolRebuild (cds_storage Cds) (CDSPool g, g) of
                None \<Rightarrow> None
              | Some ((p, g), Status) \<Rightarrow> Some (g\<lparr>CDSPool := p\<rparr>, if Status \<noteq> CFE_SUCCESS then CFE_ES_CDS_ACCESS_ERROR else Status))"

definition CFE_ES_CDSReqdMinSize :: "u32 \<Rightarrow> u64" where
  "CFE_ES_CDSReqdMinSize MaxNumBlocksToSupport =
     CFE_ES_GenPoolCalcMinSize CFE_ES_CDS_NUM_BLOCK_SIZES CFE_ES_CDSMemPoolDefSize MaxNumBlocksToSupport"

section \<open>The registry\<close>

definition CFE_ES_CDSHandle_ToIndex :: "CFE_ResourceId \<Rightarrow> u32 ptr \<Rightarrow> int32 \<times> u32 ptr" where
  "CFE_ES_CDSHandle_ToIndex Handle Idx = CFE_ResourceId_ToIndex Handle CFE_ES_CDSBLOCKID_BASE CFE_PLATFORM_ES_CDS_MAX_NUM_ENTRIES Idx"

definition CFE_ES_LocateCDSBlockRecordByID :: "CFE_ResourceId \<Rightarrow> nat ptr" where
  "CFE_ES_LocateCDSBlockRecordByID Handle =
     (let (st, Idx) = CFE_ES_CDSHandle_ToIndex Handle (Some 0) in if st = CFE_SUCCESS then map_option unat Idx else NULL)"

definition CFE_ES_CDSBlockRecordIsUsed :: "CFE_ES_CDS_RegRec \<Rightarrow> bool" where
  "CFE_ES_CDSBlockRecordIsUsed r \<longleftrightarrow> BlockID r \<noteq> CFE_RESOURCEID_UNDEFINED"

definition CFE_ES_CDSBlockRecordIsMatch :: "CFE_ES_CDS_Instance \<Rightarrow> nat ptr \<Rightarrow> CFE_ResourceId \<Rightarrow> bool" where
  "CFE_ES_CDSBlockRecordIsMatch g CDSBlockRecPtr Handle \<longleftrightarrow> CDSBlockRecPtr \<noteq> NULL \<and> BlockID (Registry g ! the CDSBlockRecPtr) = Handle"

definition CFE_ES_CheckCDSHandleSlotUsed :: "CFE_ES_CDS_Instance \<Rightarrow> CFE_ResourceId \<Rightarrow> bool" where
  "CFE_ES_CheckCDSHandleSlotUsed g CheckId = CFE_ES_CDSBlockRecordIsUsed (Registry g ! the (CFE_ES_LocateCDSBlockRecordByID CheckId))"

definition CFE_ES_LocateCDSBlockRecordByName :: "CFE_ES_CDS_Instance \<Rightarrow> string \<Rightarrow> nat ptr" where
  "CFE_ES_LocateCDSBlockRecordByName g CDSName = find_named CFE_ES_CDSBlockRecordIsUsed RegName CDSName (Registry g)"

definition upd_reg :: "nat \<Rightarrow> (CFE_ES_CDS_RegRec \<Rightarrow> CFE_ES_CDS_RegRec) \<Rightarrow> CFE_ES_CDS_Instance \<Rightarrow> CFE_ES_CDS_Instance" where
  "upd_reg i f g = g\<lparr>Registry := (Registry g)[i := f (Registry g ! i)]\<rparr>"

definition CFE_ES_CDSBlockRecordSetUsed :: "nat \<Rightarrow> CFE_ResourceId \<Rightarrow> CFE_ES_CDS_Instance \<Rightarrow> CFE_ES_CDS_Instance" where
  "CFE_ES_CDSBlockRecordSetUsed i PendingId g = upd_reg i (\<lambda>r. r\<lparr>BlockID := PendingId\<rparr>) g"

definition CFE_ES_CDSBlockRecordSetFree :: "nat \<Rightarrow> CFE_ES_CDS_Instance \<Rightarrow> CFE_ES_CDS_Instance" where
  "CFE_ES_CDSBlockRecordSetFree i g = upd_reg i (\<lambda>r. r\<lparr>BlockID := CFE_RESOURCEID_UNDEFINED\<rparr>) g"

definition CFE_ES_UpdateCDSRegistry :: "u32 \<Rightarrow> CFE_ES_CDS_Instance \<Rightarrow> CFE_ES_CDS_Instance \<times> int32" where
  "CFE_ES_UpdateCDSRegistry Cds g =
     (let (g, Status) = CFE_PSP_WriteToCDS Cds (Some (encode_Registry (Registry g))) (ucast CDS_REG_OFFSET)
            (of_nat (sizeof_RegRec * unat CFE_PLATFORM_ES_CDS_MAX_NUM_ENTRIES)) g
      in (g, if Status \<noteq> CFE_PSP_SUCCESS then CFE_ES_CDS_ACCESS_ERROR else Status))"

text \<open>The record for a new or existing name: state, status, record, pending id and whether it is new.\<close>

definition cds_reserve :: "string \<Rightarrow> CFE_ES_CDS_Instance \<Rightarrow> CFE_ES_CDS_Instance \<times> int32 \<times> nat ptr \<times> CFE_ResourceId \<times> bool" where
  "cds_reserve Name g =
     (case CFE_ES_LocateCDSBlockRecordByName g Name of
        Some i \<Rightarrow> (g, CFE_SUCCESS, Some i, BlockID (Registry g ! i), False)
      | None \<Rightarrow>
          let PendingBlockId = CFE_ResourceId_FindNext (LastCDSBlockId g) CFE_PLATFORM_ES_CDS_MAX_NUM_ENTRIES (CFE_ES_CheckCDSHandleSlotUsed g)
          in case CFE_ES_LocateCDSBlockRecordByID PendingBlockId of
               Some i \<Rightarrow> ((upd_reg i (\<lambda>_. zero_RegRec) g)\<lparr>LastCDSBlockId := PendingBlockId\<rparr>, CFE_SUCCESS, Some i, PendingBlockId, True)
             | None \<Rightarrow> (g, CFE_ES_NO_RESOURCE_IDS_AVAILABLE, NULL, CFE_RESOURCEID_UNDEFINED, False))"

text \<open>The old block is given back when its size is another one.\<close>

definition cds_free_old :: "u32 \<Rightarrow> nat \<Rightarrow> u64 \<Rightarrow> CFE_ES_CDS_Instance \<Rightarrow> CFE_ES_CDS_Instance \<times> int32" where
  "cds_free_old Cds i NewBlockSize g =
     (if BlockOffset (Registry g ! i) \<noteq> 0 \<and> NewBlockSize \<noteq> RegBlockSize (Registry g ! i)
      then case run_cds Cds (\<lambda>acc. CFE_ES_GenPoolPutBlock acc 0 (BlockOffset (Registry g ! i))) g of
             (g, Status, _) \<Rightarrow>
               if Status = CFE_SUCCESS then (upd_reg i (\<lambda>r. r\<lparr>BlockOffset := 0, RegBlockSize := 0\<rparr>) g, Status) else (g, Status)
      else (g, CFE_SUCCESS))"

text \<open>A block is allocated when the record has none: state, status and whether there is a new offset.\<close>

definition cds_allocate :: "u32 \<Rightarrow> nat \<Rightarrow> u64 \<Rightarrow> CFE_ES_CDS_Instance \<times> int32 \<Rightarrow> CFE_ES_CDS_Instance \<times> int32 \<times> bool" where
  "cds_allocate Cds i NewBlockSize gs =
     (case gs of (g, Status) \<Rightarrow>
        if Status = CFE_SUCCESS \<and> BlockOffset (Registry g ! i) = 0
        then case run_cds Cds (\<lambda>acc. CFE_ES_GenPoolGetBlock acc 0 NewBlockSize) g of
               (g, Status, off) \<Rightarrow>
                 if Status = CFE_SUCCESS
                 then (upd_reg i (\<lambda>r. r\<lparr>BlockOffset := off, RegBlockSize := NewBlockSize\<rparr>) g, Status, True)
                 else (g, Status, False)
        else (g, Status, False))"

definition CFE_ES_RegisterCDSEx :: "u32 \<Rightarrow> u64 \<Rightarrow> string \<Rightarrow> bool \<Rightarrow> CFE_ResourceId \<Rightarrow> CFE_ES_CDS_Instance \<Rightarrow>
    CFE_ES_CDS_Instance \<times> int32 \<times> CFE_ResourceId" where
  "CFE_ES_RegisterCDSEx Cds UserBlockSize Name CriticalTbl Handle g =
     (if UserBlockSize = 0 \<or> UserBlockSize > CDS_ABS_MAX_BLOCK_SIZE then (g, CFE_ES_CDS_INVALID_SIZE, Handle)
      else case cds_reserve Name g of
             (g, Status, None, PendingBlockId, _) \<Rightarrow> (g, Status, PendingBlockId)
           | (g, Status, Some i, PendingBlockId, IsNewEntry) \<Rightarrow>
               let NewBlockSize = UserBlockSize + sizeof_BlockHeader
               in case cds_allocate Cds i NewBlockSize (cds_free_old Cds i NewBlockSize g) of
                    (g, Status, IsNewOffset) \<Rightarrow>
                      if Status \<noteq> CFE_SUCCESS then (g, Status, PendingBlockId)
                      else
                        let g = (if IsNewEntry
                                 then let g = upd_reg i (\<lambda>r. r\<lparr>RegTable := CriticalTbl\<rparr>) g;
                                          g = upd_reg i (\<lambda>r. r\<lparr>RegName := copy_name CFE_MISSION_ES_CDS_MAX_FULL_NAME_LEN Name (RegName r)\<rparr>) g
                                      in CFE_ES_CDSBlockRecordSetUsed i PendingBlockId g
                                 else g);
                            (g, RegUpdateStatus) = (if IsNewOffset \<or> IsNewEntry then CFE_ES_UpdateCDSRegistry Cds g else (g, CFE_SUCCESS));
                            Status = (if RegUpdateStatus \<noteq> CFE_SUCCESS then RegUpdateStatus else Status);
                            Status = (if Status = CFE_SUCCESS \<and> \<not> IsNewOffset then CFE_ES_CDS_ALREADY_EXISTS else Status)
                        in (g, Status, PendingBlockId))"

section \<open>Blocks\<close>

definition CFE_ES_CDSBlockWrite :: "u32 \<Rightarrow> CFE_ResourceId \<Rightarrow> u8 list \<Rightarrow> CFE_ES_CDS_Instance \<Rightarrow> CFE_ES_CDS_Instance \<times> int32" where
  "CFE_ES_CDSBlockWrite Cds Handle DataToWrite g =
     (let CDSRegRecPtr = CFE_ES_LocateCDSBlockRecordByID Handle;
          r = Registry g ! the CDSRegRecPtr
      in if CFE_ES_CDSBlockRecordIsMatch g CDSRegRecPtr Handle
         then case run_cds Cds (\<lambda>acc. CFE_ES_GenPoolGetBlockSize acc 0 (BlockOffset r)) g of
                (g, Status, bsz) \<Rightarrow>
                  if Status \<noteq> CFE_SUCCESS then (g, Status)
                  else if bsz \<le> sizeof_BlockHeader \<or> bsz \<noteq> RegBlockSize r then (g, CFE_ES_CDS_INVALID_SIZE)
                  else
                    let UserDataSize = RegBlockSize r - sizeof_BlockHeader;
                        UserDataOffset = BlockOffset r + sizeof_BlockHeader;
                        Crc = CFE_ES_CalculateCRC (Some (take (unat UserDataSize) DataToWrite)) 0 CFE_MISSION_ES_DEFAULT_CRC;
                        g = upd_cache (\<lambda>c. c\<lparr>CacheData := put_bytes 0 (le_bytes 4 (ucast Crc)) (CacheData c),
                              CacheOffset := BlockOffset r, CacheSize := sizeof_BlockHeader\<rparr>) g;
                        (g, Status) = CFE_ES_CDS_CacheFlush Cds g
                    in if Status \<noteq> CFE_SUCCESS then (g, Status)
                       else CFE_PSP_WriteToCDS Cds (Some DataToWrite) (ucast UserDataOffset) (ucast UserDataSize) g
         else (g, CFE_ES_ERR_RESOURCEID_NOT_VALID))"

definition CFE_ES_CDSBlockRead :: "u32 \<Rightarrow> u8 list \<Rightarrow> CFE_ResourceId \<Rightarrow> CFE_ES_CDS_Instance \<Rightarrow> CFE_ES_CDS_Instance \<times> int32 \<times> u8 list" where
  "CFE_ES_CDSBlockRead Cds DataRead Handle g =
     (let CDSRegRecPtr = CFE_ES_LocateCDSBlockRecordByID Handle;
          r = Registry g ! the CDSRegRecPtr
      in if CFE_ES_CDSBlockRecordIsMatch g CDSRegRecPtr Handle
         then case run_cds Cds (\<lambda>acc. CFE_ES_GenPoolGetBlockSize acc 0 (BlockOffset r)) g of
                (g, Status, bsz) \<Rightarrow>
                  if Status \<noteq> CFE_SUCCESS then (g, Status, DataRead)
                  else if bsz \<le> sizeof_BlockHeader \<or> bsz \<noteq> RegBlockSize r then (g, CFE_ES_CDS_INVALID_SIZE, DataRead)
                  else
                    let UserDataSize = RegBlockSize r - sizeof_BlockHeader;
                        UserDataOffset = BlockOffset r + sizeof_BlockHeader;
                        (g, Status) = CFE_ES_CDS_CacheFetch Cds (BlockOffset r) sizeof_BlockHeader g
                    in if Status \<noteq> CFE_SUCCESS then (g, Status, DataRead)
                       else case CFE_PSP_ReadFromCDS Cds (Some DataRead) (ucast UserDataOffset) (ucast UserDataSize) g of
                              (Status, buf) \<Rightarrow>
                                if Status \<noteq> CFE_PSP_SUCCESS then (g, Status, the buf)
                                else
                                  let CrcOfCDSData = CFE_ES_CalculateCRC (Some (take (unat UserDataSize) (the buf))) 0 CFE_MISSION_ES_DEFAULT_CRC
                                  in (g, if CrcOfCDSData \<noteq> ucast (load 4 (CacheData (Cache g)) 0) then CFE_ES_CDS_BLOCK_CRC_ERR else CFE_SUCCESS,
                                      the buf)
         else (g, CFE_ES_ERR_RESOURCEID_NOT_VALID, DataRead))"

section \<open>Deleting\<close>

text \<open>The name of the owner: the characters before the first dot, nineteen at most.\<close>

definition cds_owner :: "string \<Rightarrow> string" where
  "cds_owner Name = cstring (takeWhile (\<lambda>c. c \<noteq> CHR ''.'') (take (OS_MAX_API_NAME - 1) Name))"

definition CFE_ES_DeleteCDS :: "u32 \<Rightarrow> CFE_ES_Tables \<Rightarrow> string \<Rightarrow> bool \<Rightarrow> CFE_ES_CDS_Instance \<Rightarrow> CFE_ES_CDS_Instance \<times> int32" where
  "CFE_ES_DeleteCDS Cds es CDSName CalledByTblServices g =
     (case CFE_ES_LocateCDSBlockRecordByName g CDSName of
        None \<Rightarrow> (g, CFE_ES_ERR_NAME_NOT_FOUND)
      | Some i \<Rightarrow>
          if RegTable (Registry g ! i) \<noteq> CalledByTblServices then (g, CFE_ES_CDS_WRONG_TYPE_ERR)
          else
            let (Status, _) = CFE_ES_GetAppIDByName (Some 0) (Some (cds_owner (RegName (Registry g ! i)))) es
            in if Status \<noteq> CFE_SUCCESS
               then case run_cds Cds (\<lambda>acc. CFE_ES_GenPoolPutBlock acc 0 (BlockOffset (Registry g ! i))) g of
                      (g, Status, _) \<Rightarrow>
                        if Status \<noteq> CFE_SUCCESS then (g, Status)
                        else CFE_ES_UpdateCDSRegistry Cds (CFE_ES_CDSBlockRecordSetFree i g)
               else (g, CFE_ES_CDS_OWNER_ACTIVE_ERR))"

section \<open>Start\<close>

definition CFE_ES_ValidateCDS :: "u32 \<Rightarrow> CFE_ES_CDS_Instance \<Rightarrow> CFE_ES_CDS_Instance \<times> int32" where
  "CFE_ES_ValidateCDS Cds g =
     (let (g, Status) = CFE_ES_CDS_CacheFetch Cds CDS_SIG_BEGIN_OFFSET 8 g
      in if Status \<noteq> CFE_PSP_SUCCESS then (g, Status)
         else if take 8 (cache_bytes g) \<noteq> CFE_ES_CDS_SIGNATURE_BEGIN then (g, CFE_ES_CDS_INVALID)
         else
           let TrailerOffset = TotalSize g - sizeof_PersistentTrailer;
               (g, Status) = CFE_ES_CDS_CacheFetch Cds TrailerOffset 8 g
           in if Status \<noteq> CFE_PSP_SUCCESS then (g, Status)
              else if take 8 (cache_bytes g) \<noteq> CFE_ES_CDS_SIGNATURE_END then (g, CFE_ES_CDS_INVALID)
              else (g, CFE_SUCCESS))"

partial_function (option) clear_loop :: "u32 \<Rightarrow> int32 \<Rightarrow> CFE_ES_CDS_Instance \<Rightarrow> (CFE_ES_CDS_Instance \<times> int32) option" where
  "clear_loop Cds Status g =
     (if CacheOffset (Cache g) < TotalSize g
      then let RemainSize = TotalSize g - CacheOffset (Cache g);
               g = (if RemainSize < 16 then upd_cache (\<lambda>c. c\<lparr>CacheSize := RemainSize\<rparr>) g else g);
               (g, Status) = CFE_ES_CDS_CacheFlush Cds g
           in if Status \<noteq> CFE_SUCCESS then Some (g, Status)
              else clear_loop Cds Status (upd_cache (\<lambda>c. c\<lparr>CacheOffset := CacheOffset c + CacheSize c\<rparr>) g)
      else Some (g, Status))"

definition CFE_ES_ClearCDS :: "u32 \<Rightarrow> CFE_ES_CDS_Instance \<Rightarrow> (CFE_ES_CDS_Instance \<times> int32) option" where
  "CFE_ES_ClearCDS Cds g = (let (g, Status) = CFE_ES_CDS_CachePreload PreloadNull 0 16 g in clear_loop Cds Status g)"

definition CFE_ES_InitCDSSignatures :: "u32 \<Rightarrow> CFE_ES_CDS_Instance \<Rightarrow> CFE_ES_CDS_Instance \<times> int32" where
  "CFE_ES_InitCDSSignatures Cds g =
     (let (g, _) = CFE_ES_CDS_CachePreload (PreloadBytes CFE_ES_CDS_SIGNATURE_BEGIN) 0 8 g;
          (g, Status) = CFE_ES_CDS_CacheFlush Cds g
      in if Status \<noteq> CFE_SUCCESS then (g, Status)
         else
           let SigOffset = TotalSize g - sizeof_PersistentTrailer;
               (g, _) = CFE_ES_CDS_CachePreload (PreloadBytes CFE_ES_CDS_SIGNATURE_END) SigOffset 8 g
           in CFE_ES_CDS_CacheFlush Cds g)"

definition CFE_ES_InitCDSRegistry :: "u32 \<Rightarrow> CFE_ES_CDS_Instance \<Rightarrow> CFE_ES_CDS_Instance \<times> int32" where
  "CFE_ES_InitCDSRegistry Cds g =
     (let (g, _) = CFE_ES_CDS_CachePreload (PreloadBytes (le_bytes 4 (ucast CFE_PLATFORM_ES_CDS_MAX_NUM_ENTRIES))) CDS_REG_SIZE_OFFSET 4 g;
          (g, Status) = CFE_ES_CDS_CacheFlush Cds g
      in if Status = CFE_SUCCESS
         then CFE_ES_UpdateCDSRegistry Cds (g\<lparr>Registry := replicate (unat CFE_PLATFORM_ES_CDS_MAX_NUM_ENTRIES) zero_RegRec\<rparr>)
         else (g, Status))"

definition CFE_ES_RebuildCDS :: "u32 \<Rightarrow> CFE_ES_CDS_Instance \<Rightarrow> (CFE_ES_CDS_Instance \<times> int32) option" where
  "CFE_ES_RebuildCDS Cds g =
     (let (g, Status) = CFE_ES_CDS_CacheFetch Cds CDS_REG_SIZE_OFFSET 4 g
      in if Status \<noteq> CFE_SUCCESS then Some (g, CFE_ES_CDS_INVALID)
         else if ucast (load 4 (CacheData (Cache g)) 0) \<noteq> CFE_PLATFORM_ES_CDS_MAX_NUM_ENTRIES then Some (g, CFE_ES_CDS_INVALID)
         else
           let n = unat CFE_PLATFORM_ES_CDS_MAX_NUM_ENTRIES;
               (Status, buf) = CFE_PSP_ReadFromCDS Cds (Some (encode_Registry (Registry g))) (ucast CDS_REG_OFFSET) (of_nat (sizeof_RegRec * n)) g
           in if Status = CFE_PSP_SUCCESS
              then CFE_ES_RebuildCDSPool Cds (DataSize g) CDS_POOL_OFFSET (g\<lparr>Registry := decode_Registry n (the buf)\<rparr>)
              else Some (g, CFE_ES_CDS_INVALID))"

text \<open>The store made new: cleared, signed, an empty pool and an empty registry.\<close>

definition cds_create :: "u32 \<Rightarrow> CFE_ES_CDS_Instance \<Rightarrow> (CFE_ES_CDS_Instance \<times> int32) option" where
  "cds_create Cds g =
     (case CFE_ES_ClearCDS Cds g of
        None \<Rightarrow> None
      | Some (g, Status) \<Rightarrow>
          let (g, Status) = (if Status = CFE_SUCCESS then CFE_ES_InitCDSSignatures Cds g else (g, Status));
              (g, Status) = (if Status = CFE_SUCCESS then CFE_ES_CreateCDSPool (DataSize g) CDS_POOL_OFFSET g else (g, Status))
          in Some (if Status = CFE_SUCCESS then CFE_ES_InitCDSRegistry Cds g else (g, Status)))"

text \<open>\<open>MutStatus\<close> is what creating the mutex returns.\<close>

definition CFE_ES_CDS_EarlyInit :: "u32 \<Rightarrow> int32 \<Rightarrow> CFE_ES_CDS_Instance \<Rightarrow> (CFE_ES_CDS_Instance \<times> int32) option" where
  "CFE_ES_CDS_EarlyInit Cds MutStatus g =
     (let g = g\<lparr>CDSIsAvailable := False\<rparr>
      in if MutStatus \<noteq> CFE_SUCCESS then Some (g, CFE_STATUS_EXTERNAL_RESOURCE_FAIL)
         else
           let g = g\<lparr>LastCDSBlockId := CFE_ES_CDSBLOCKID_BASE\<rparr>;
               (Status, PlatformSize) = CFE_PSP_GetCDSSize Cds (Some 0) g
           in if Status \<noteq> CFE_PSP_SUCCESS then Some (g, Status)
              else
                let g = g\<lparr>TotalSize := ucast (the PlatformSize AND 0xfffffffc)\<rparr>;
                    MinRequiredSize = CDS_RESERVED_MIN_SIZE + CFE_ES_CDSReqdMinSize CFE_PLATFORM_ES_CDS_MAX_NUM_ENTRIES
                in if TotalSize g < MinRequiredSize then Some (g, CFE_SUCCESS)
                   else
                     let g = g\<lparr>DataSize := TotalSize g - CDS_RESERVED_MIN_SIZE\<rparr>;
                         (g, Status) = CFE_ES_ValidateCDS Cds g
                     in case (if Status = CFE_SUCCESS then CFE_ES_RebuildCDS Cds g else Some (g, Status)) of
                          None \<Rightarrow> None
                        | Some (g, Status) \<Rightarrow>
                            (case (if Status = CFE_ES_CDS_INVALID then cds_create Cds g else Some (g, Status)) of
                               None \<Rightarrow> None
                             | Some (g, Status) \<Rightarrow> Some (if Status \<noteq> CFE_SUCCESS then g else g\<lparr>CDSIsAvailable := True\<rparr>, Status)))"

section \<open>Calls\<close>

definition CFE_ES_FormCDSName :: "CFE_ES_Tables \<Rightarrow> string \<Rightarrow> CFE_ResourceId \<Rightarrow> string" where
  "CFE_ES_FormCDSName es CDSName ThisAppId =
     (let AppName = the (snd (CFE_ES_GetAppName (Some (replicate OS_MAX_API_NAME (CHR 0x00))) ThisAppId OS_MAX_API_NAME es))
      in cstring AppName @ ''.'' @ CDSName)"

text \<open>Result: state, status, handle and, for a failure, the event sent for the calling application.\<close>

definition CFE_ES_RegisterCDS :: "u32 \<Rightarrow> CFE_ES_Tables \<Rightarrow> CFE_ResourceId ptr \<Rightarrow> CFE_ResourceId ptr \<Rightarrow> u64 \<Rightarrow> string ptr \<Rightarrow> CFE_ES_CDS_Instance \<Rightarrow>
    CFE_ES_CDS_Instance \<times> int32 \<times> CFE_ResourceId ptr \<times> (u16 \<times> CFE_ResourceId \<times> string) list" where
  "CFE_ES_RegisterCDS Cds es task CDSHandlePtr Size Name g =
     (let (Status, ThisAppId) = CFE_ES_GetAppID task es
      in if CDSHandlePtr = NULL \<or> Name = NULL then (g, CFE_ES_BAD_ARGUMENT, CDSHandlePtr, [])
         else
           let (g, Status, Handle) =
                 (if Status \<noteq> CFE_SUCCESS then (g, Status, CFE_RESOURCEID_UNDEFINED)
                  else if \<not> CDSIsAvailable g then (g, CFE_ES_NOT_IMPLEMENTED, CFE_RESOURCEID_UNDEFINED)
                  else if length (the Name) > CFE_MISSION_ES_CDS_MAX_NAME_LENGTH \<or> length (the Name) = 0
                  then (g, CFE_ES_CDS_INVALID_NAME, CFE_RESOURCEID_UNDEFINED)
                  else CFE_ES_RegisterCDSEx Cds Size (CFE_ES_FormCDSName es (the Name) ThisAppId) False CFE_RESOURCEID_UNDEFINED g)
           in (g, Status, Some Handle,
               if Status <s 0
               then [(CFE_ES_CDS_REGISTER_ERR_EID, ThisAppId,
                      cstring (the (snd (CFE_ES_GetAppName (Some (replicate OS_MAX_API_NAME (CHR 0x00))) ThisAppId OS_MAX_API_NAME es))) @
                      '' Failed to Register CDS '' @ CHR 0x27 # the Name @ CHR 0x27 # '', Status=0x'' @ fmt_X 8 (unat Status))]
               else []))"

definition CFE_ES_GetCDSBlockIDByName :: "CFE_ResourceId ptr \<Rightarrow> string ptr \<Rightarrow> CFE_ES_CDS_Instance \<Rightarrow> int32 \<times> CFE_ResourceId ptr" where
  "CFE_ES_GetCDSBlockIDByName BlockIdPtr BlockName g =
     (if BlockName = NULL \<or> BlockIdPtr = NULL then (CFE_ES_BAD_ARGUMENT, BlockIdPtr)
      else if \<not> CDSIsAvailable g then (CFE_ES_NOT_IMPLEMENTED, BlockIdPtr)
      else case CFE_ES_LocateCDSBlockRecordByName g (the BlockName) of
             Some i \<Rightarrow> (CFE_SUCCESS, Some (BlockID (Registry g ! i)))
           | None \<Rightarrow> (CFE_ES_ERR_NAME_NOT_FOUND, Some CFE_RESOURCEID_UNDEFINED))"

definition CFE_ES_GetCDSBlockName :: "string ptr \<Rightarrow> CFE_ResourceId \<Rightarrow> nat \<Rightarrow> CFE_ES_CDS_Instance \<Rightarrow> int32 \<times> string ptr" where
  "CFE_ES_GetCDSBlockName BlockName BlockId BufferLength g =
     (if BufferLength = 0 \<or> BlockName = NULL then (CFE_ES_BAD_ARGUMENT, BlockName)
      else if \<not> CDSIsAvailable g then (CFE_ES_NOT_IMPLEMENTED, BlockName)
      else
        let RegRecPtr = CFE_ES_LocateCDSBlockRecordByID BlockId
        in if CFE_ES_CDSBlockRecordIsMatch g RegRecPtr BlockId
           then (CFE_SUCCESS, Some (copy_name BufferLength (cstring (RegName (Registry g ! the RegRecPtr))) (the BlockName)))
           else (CFE_ES_ERR_RESOURCEID_NOT_VALID, Some ((the BlockName)[0 := CHR 0x00])))"

definition CFE_ES_CopyToCDS :: "u32 \<Rightarrow> CFE_ResourceId \<Rightarrow> u8 list ptr \<Rightarrow> CFE_ES_CDS_Instance \<Rightarrow> CFE_ES_CDS_Instance \<times> int32" where
  "CFE_ES_CopyToCDS Cds Handle DataToCopy g =
     (case DataToCopy of None \<Rightarrow> (g, CFE_ES_BAD_ARGUMENT) | Some data \<Rightarrow> CFE_ES_CDSBlockWrite Cds Handle data g)"

definition CFE_ES_RestoreFromCDS :: "u32 \<Rightarrow> u8 list ptr \<Rightarrow> CFE_ResourceId \<Rightarrow> CFE_ES_CDS_Instance \<Rightarrow> CFE_ES_CDS_Instance \<times> int32 \<times> u8 list ptr" where
  "CFE_ES_RestoreFromCDS Cds RestoreToMemory Handle g =
     (case RestoreToMemory of
        None \<Rightarrow> (g, CFE_ES_BAD_ARGUMENT, NULL)
      | Some buf \<Rightarrow> (case CFE_ES_CDSBlockRead Cds buf Handle g of (g, st, buf) \<Rightarrow> (g, st, Some buf)))"

end
