(* ===== verification/CFE_ES_CDS_Store.thy ===== *)
theory CFE_ES_CDS_Store
  imports CFE_ES_CDS
begin

unbundle bit_operations_syntax

text \<open>
  The store of the critical data store as bytes: what the access cache reads and writes, the registry as bytes and back,
  and that descriptors reached through the cache meet the contract of a pool's storage.
\<close>

section \<open>Runs of bytes\<close>

lemma length_get_bytes [simp]: "length (get_bytes a n m) = n"
  by (simp add: get_bytes_def)

lemma nth_get_bytes [simp]: "i < n \<Longrightarrow> get_bytes a n m ! i = m (a + of_nat i)"
  by (simp add: get_bytes_def)

lemma get_bytes_cong: "(\<And>i. i < n \<Longrightarrow> m' (a' + of_nat i) = m (a + of_nat i)) \<Longrightarrow> get_bytes a' n m' = get_bytes a n m"
  by (simp add: get_bytes_def)

lemma take_get_bytes: "k \<le> n \<Longrightarrow> take k (get_bytes a n m) = get_bytes a k m"
  by (rule nth_equalityI) simp_all

lemma unat_offset: "unat a + i < 2 ^ 64 \<Longrightarrow> unat (a + of_nat i :: u64) = unat a + i"
  by (simp add: unat_word_ariths unat_of_nat)

text \<open>A run of bytes that does not wrap.\<close>

lemma put_bytes_at:
  assumes "unat a + length xs \<le> 2 ^ 64"
  shows "put_bytes a xs m x = (if unat a \<le> unat x \<and> unat x < unat a + length xs then xs ! (unat x - unat a) else m x)"
proof (cases "a \<le> x")
  case True
  then show ?thesis by (auto simp: put_bytes_def unat_sub word_le_nat_alt)
next
  case False
  then have "unat (x - a) = 2 ^ 64 - (unat a - unat x)"
    by (simp add: unat_sub_if' word_le_nat_alt)
  moreover have "length xs \<le> 2 ^ 64 - unat a" using assms by linarith
  ultimately show ?thesis using False by (auto simp: put_bytes_def word_le_nat_alt)
qed

lemma put_bytes_in: "unat a + length xs \<le> 2 ^ 64 \<Longrightarrow> i < length xs \<Longrightarrow> put_bytes a xs m (a + of_nat i) = xs ! i"
  by (simp add: put_bytes_at unat_offset)

lemma get_put_bytes: "unat a + length xs \<le> 2 ^ 64 \<Longrightarrow> n \<le> length xs \<Longrightarrow> get_bytes a n (put_bytes a xs m) = take n xs"
  by (rule nth_equalityI) (simp_all add: put_bytes_in)

lemma get_put_apart:
  assumes "unat a + length xs \<le> 2 ^ 64" "unat b + n \<le> 2 ^ 64" and "unat b + n \<le> unat a \<or> unat a + length xs \<le> unat b"
  shows "get_bytes b n (put_bytes a xs m) = get_bytes b n m"
  by (rule get_bytes_cong) (use assms in \<open>auto simp: put_bytes_at unat_offset\<close>)

lemma put_bytes_Nil [simp]: "put_bytes a [] m = m"
  by (simp add: put_bytes_def)

section \<open>Integers\<close>

lemma load_cong2: "(\<And>i. i < n \<Longrightarrow> m' (a' + of_nat i) = m (a + of_nat i)) \<Longrightarrow> load n m' a' = load n m a"
proof (induction n arbitrary: a a')
  case (Suc n)
  have "m' (a' + 1 + of_nat i) = m (a + 1 + of_nat i)" if "i < n" for i using Suc.prems [of "Suc i"] that by (simp add: add_ac)
  then show ?case using Suc.IH [of "a' + 1" "a + 1"] Suc.prems [of 0] by simp
qed simp

lemma le_value_get: "n < 2 ^ 64 \<Longrightarrow> le_value (get_bytes a n m) = load n m a"
  unfolding le_value_def length_get_bytes by (rule load_cong2) (simp add: put_bytes_at unat_of_nat)

lemma length_le_bytes [simp]: "length (le_bytes n w) = n"
  by (simp add: le_bytes_def)

lemma le_value_le_bytes: "n \<le> 8 \<Longrightarrow> le_value (le_bytes n w) = w AND mask (8 * n)"
  unfolding le_bytes_def using load_store [of n w 0 "\<lambda>_. 0"] by (simp add: le_value_get)

lemma le_value_u32: "ucast (le_value (le_bytes 4 (ucast w))) = (w :: u32)"
proof -
  have "le_value (le_bytes 4 (ucast w)) = ucast w AND mask 32" using le_value_le_bytes [of 4 "ucast w"] by simp
  also have "ucast \<dots> = w" by (rule bit_word_eqI) (simp add: bit_simps)
  finally show ?thesis .
qed

lemma le_value_u64: "le_value (le_bytes 8 w) = w"
proof -
  have "le_value (le_bytes 8 w) = w AND mask 64" using le_value_le_bytes [of 8 w] by simp
  also have "\<dots> = w" by (rule bit_word_eqI) (simp add: bit_simps)
  finally show ?thesis .
qed

section \<open>The registry as bytes\<close>

lemma length_encode [simp]: "length (RegName r) = 40 \<Longrightarrow> length (encode_RegRec r) = 72"
  by (simp add: encode_RegRec_def)

lemma decode_encode: "length (RegName r) = 40 \<Longrightarrow> decode_RegRec (encode_RegRec r) = r"
  by (cases r) (simp add: decode_RegRec_def encode_RegRec_def le_value_u32 le_value_u64 nth_append o_def char_of_of_char_u8)

definition names_ok :: "CFE_ES_CDS_RegRec list \<Rightarrow> bool" where
  "names_ok rs \<longleftrightarrow> (\<forall>r \<in> set rs. length (RegName r) = 40)"

lemma length_encode_Registry: "names_ok rs \<Longrightarrow> length (encode_Registry rs) = 72 * length rs"
  by (induction rs) (simp_all add: encode_Registry_def names_ok_def)

lemma encode_Registry_part:
  "names_ok rs \<Longrightarrow> i < length rs \<Longrightarrow> take 72 (drop (72 * i) (encode_Registry rs)) = encode_RegRec (rs ! i)"
proof (induction rs arbitrary: i)
  case (Cons r rs)
  have l: "length (encode_RegRec r) = 72" "names_ok rs" using Cons.prems(1) by (simp_all add: names_ok_def)
  show ?case
  proof (cases i)
    case 0
    then show ?thesis using l(1) by (simp add: encode_Registry_def)
  next
    case (Suc k)
    have "drop (72 * i) (encode_Registry (r # rs)) = drop (72 * k) (encode_Registry rs)"
      using l(1) Suc by (simp add: encode_Registry_def)
    then show ?thesis using Cons.IH [OF l(2), of k] Cons.prems(2) Suc by simp
  qed
qed simp

text \<open>The record stored for an index of the registry.\<close>

definition stored_rec :: "bytes \<Rightarrow> nat \<Rightarrow> CFE_ES_CDS_RegRec" where
  "stored_rec m i = decode_RegRec (get_bytes (12 + 72 * of_nat i) 72 m)"

lemma decode_Registry_stored:
  assumes "i < 512"
  shows "decode_Registry 512 (get_bytes 12 36864 m @ xs) ! i = stored_rec m i"
proof -
  have "take 72 (drop (72 * i) (get_bytes 12 36864 m @ xs)) = get_bytes (12 + 72 * of_nat i) 72 m"
    by (rule nth_equalityI) (use assms in \<open>auto simp: nth_append algebra_simps\<close>)
  then show ?thesis using assms by (simp add: decode_Registry_def stored_rec_def)
qed

lemma names_decode: "names_ok (decode_Registry n (get_bytes a (72 * n) m @ xs))"
  by (auto simp: names_ok_def decode_Registry_def decode_RegRec_def min_def)

lemma stored_put:
  assumes "names_ok rs" "length rs = 512" "i < 512"
  shows "stored_rec (put_bytes 12 (encode_Registry rs) m) i = rs ! i"
proof -
  have len: "length (encode_Registry rs) = 36864" using length_encode_Registry [OF assms(1)] assms(2) by simp
  have "get_bytes (12 + 72 * of_nat i) 72 (put_bytes 12 (encode_Registry rs) m) = take 72 (drop (72 * i) (encode_Registry rs))"
  proof (rule nth_equalityI)
    fix j assume "j < length (get_bytes (12 + 72 * of_nat i) 72 (put_bytes 12 (encode_Registry rs) m))"
    then have j: "j < 72" by simp
    have e: "12 + 72 * of_nat i + of_nat j = (12 + of_nat (72 * i + j) :: u64)" by simp
    have "put_bytes 12 (encode_Registry rs) m (12 + of_nat (72 * i + j)) = encode_Registry rs ! (72 * i + j)"
      using len j assms(3) by (intro put_bytes_in) simp_all
    then show "get_bytes (12 + 72 * of_nat i) 72 (put_bytes 12 (encode_Registry rs) m) ! j = take 72 (drop (72 * i) (encode_Registry rs)) ! j"
      using j len assms(3) unfolding nth_get_bytes [OF j] e by simp
  qed (use len assms(3) in simp)
  then show ?thesis
    using encode_Registry_part [OF assms(1)] assms by (simp add: stored_rec_def decode_encode names_ok_def)
qed

lemma stored_cong: "i < 512 \<Longrightarrow> (\<And>x. 12 \<le> unat x \<Longrightarrow> unat x < 36876 \<Longrightarrow> m' x = m x) \<Longrightarrow> stored_rec m' i = stored_rec m i"
proof -
  assume i: "i < 512" and same: "\<And>x. 12 \<le> unat x \<Longrightarrow> unat x < 36876 \<Longrightarrow> m' x = m x"
  have "get_bytes (12 + 72 * of_nat i) 72 m' = get_bytes (12 + 72 * of_nat i) 72 m"
  proof (rule get_bytes_cong)
    fix j :: nat assume j: "j < 72"
    have e: "12 + 72 * of_nat i + of_nat j = (12 + of_nat (72 * i + j) :: u64)" by simp
    have "unat (12 + of_nat (72 * i + j) :: u64) = 12 + (72 * i + j)" using i j by (subst unat_offset) simp_all
    then show "m' (12 + 72 * of_nat i + of_nat j) = m (12 + 72 * of_nat i + of_nat j)" unfolding e using i j by (intro same) simp_all
  qed
  then show ?thesis by (simp add: stored_rec_def)
qed

section \<open>The cache\<close>

lemma upd_cache_simps [simp]:
  "CDSPool (upd_cache f g) = CDSPool g" "Cache (upd_cache f g) = f (Cache g)" "TotalSize (upd_cache f g) = TotalSize g"
  "DataSize (upd_cache f g) = DataSize g" "LastCDSBlockId (upd_cache f g) = LastCDSBlockId g" "Registry (upd_cache f g) = Registry g"
  "CDSIsAvailable (upd_cache f g) = CDSIsAvailable g" "CDSMemory (upd_cache f g) = CDSMemory g"
  by (simp_all add: upd_cache_def)

text \<open>Two states that differ in the cache and the contents of the store only.\<close>

definition same_ram :: "CFE_ES_CDS_Instance \<Rightarrow> CFE_ES_CDS_Instance \<Rightarrow> bool" where
  "same_ram g g' \<longleftrightarrow> CDSPool g' = CDSPool g \<and> TotalSize g' = TotalSize g \<and> DataSize g' = DataSize g \<and>
     LastCDSBlockId g' = LastCDSBlockId g \<and> Registry g' = Registry g \<and> CDSIsAvailable g' = CDSIsAvailable g"

lemma same_ram_refl [simp]: "same_ram g g"
  by (simp add: same_ram_def)

lemma same_ram_trans: "same_ram g g1 \<Longrightarrow> same_ram g1 g2 \<Longrightarrow> same_ram g g2"
  by (simp add: same_ram_def)

lemma same_ram_upd [simp]: "same_ram g (upd_cache f g)" "same_ram g (g\<lparr>CDSMemory := m\<rparr>)"
  by (simp_all add: same_ram_def)

lemma size_u32: "unat (ucast (s :: u64) :: u32) = unat s" if "unat s < 2 ^ 32"
  using that by (simp add: unsigned_ucast_eq take_bit_eq_mod)

lemma psp_guard:
  assumes "unat off + unat n \<le> unat Cds" "0 < n" "unat n < 2 ^ 32"
  shows "(ucast (off :: u64) :: u32) < Cds \<and> (ucast off :: u32) + ucast (n :: u64) \<le> Cds"
proof -
  have "unat off < 2 ^ 32" using assms(1) unsigned_less [where 'a = nat, of Cds] by simp
  note u = size_u32 [OF this] size_u32 [OF assms(3)]
  have "unat ((ucast off :: u32) + ucast n) = unat off + unat n"
    using assms(1) unsigned_less [where 'a = nat, of Cds] by (simp add: unat_word_ariths u)
  moreover have "0 < unat n" using assms(2) by (simp add: word_less_nat_alt)
  ultimately show ?thesis using assms(1) by (simp add: word_less_nat_alt word_le_nat_alt u)
qed

lemma ucast_back: "unat (a :: u64) < 2 ^ 32 \<Longrightarrow> ucast (ucast a :: u32) = a"
  by (simp add: word_unat_eq_iff unsigned_ucast_eq take_bit_eq_mod unat_mod)

text \<open>Fetching: the cache then starts with the bytes of the store.\<close>

lemma CacheFetch:
  assumes n: "0 < n" "n \<le> 72" and off: "unat off < 2 ^ 32"
    and call: "CFE_ES_CDS_CacheFetch Cds off n g = (g', st)"
  shows "same_ram g g'" "CDSMemory g' = CDSMemory g"
    and "st = CFE_SUCCESS \<Longrightarrow> get_bytes 0 (unat n) (CacheData (Cache g')) = get_bytes off (unat n) (CDSMemory g)"
    and "unat off + unat n \<le> unat Cds \<Longrightarrow> st = CFE_SUCCESS"
proof -
  have u: "unat n \<le> 72" "unat n < 2 ^ 32" using n(2) by (simp_all add: word_le_nat_alt)
  obtain s buf where r: "CFE_PSP_ReadFromCDS Cds (Some (cache_bytes g)) (ucast off) (ucast n) g = (s, buf)" by fastforce
  let ?c = "\<lambda>c. c\<lparr>AccessStatus := s, CacheData := put_bytes 0 (the buf) (CacheData c)\<rparr>"
  have g': "g' = (if s = CFE_PSP_SUCCESS then upd_cache (\<lambda>c. c\<lparr>CacheOffset := off, CacheSize := n\<rparr>) (upd_cache ?c g) else upd_cache ?c g)"
    and st: "st = (if s = CFE_PSP_SUCCESS then CFE_SUCCESS else CFE_ES_CDS_ACCESS_ERROR)"
    using call n r by (auto simp: CFE_ES_CDS_CacheFetch_def)
  show "same_ram g g'" "CDSMemory g' = CDSMemory g" unfolding g' by (simp_all add: same_ram_def)
  show "get_bytes 0 (unat n) (CacheData (Cache g')) = get_bytes off (unat n) (CDSMemory g)" if "st = CFE_SUCCESS"
  proof -
    have ok: "s = CFE_PSP_SUCCESS" using that st by (simp split: if_splits)
    then have b: "buf = Some (get_bytes off (unat n) (CDSMemory g) @ drop (unat n) (cache_bytes g))"
      using r u by (auto simp: CFE_PSP_ReadFromCDS_def size_u32 ucast_back [OF off] split: if_splits)
    have "CacheData (Cache g') = put_bytes 0 (the buf) (CacheData (Cache g))" using ok by (simp add: g')
    then show ?thesis unfolding b using u by (simp add: get_put_bytes cache_bytes_def)
  qed
  show "st = CFE_SUCCESS" if "unat off + unat n \<le> unat Cds"
    using psp_guard [OF that n(1) u(2)] r st by (auto simp: CFE_PSP_ReadFromCDS_def)
qed

text \<open>Flushing: the store then has the bytes at the start of the cache.\<close>

lemma CacheFlush:
  assumes n: "CacheSize (Cache g) = n" "0 < n" "n \<le> 72" and off: "CacheOffset (Cache g) = off" "unat off < 2 ^ 32"
    and call: "CFE_ES_CDS_CacheFlush Cds g = (g', st)"
  shows "same_ram g g'"
    and "CDSMemory g' = (if st = CFE_SUCCESS then put_bytes off (get_bytes 0 (unat n) (CacheData (Cache g))) (CDSMemory g) else CDSMemory g)"
    and "unat off + unat n \<le> unat Cds \<Longrightarrow> st = CFE_SUCCESS"
    and "CacheData (Cache g') = CacheData (Cache g)" "CacheSize (Cache g') = n" "CacheOffset (Cache g') = off"
proof -
  have u: "unat n \<le> 72" "unat n < 2 ^ 32" using n(3) by (simp_all add: word_le_nat_alt)
  obtain g1 s where w: "CFE_PSP_WriteToCDS Cds (Some (cache_bytes g)) (ucast off) (ucast n) g = (g1, s)" by fastforce
  have g': "g' = upd_cache (\<lambda>c. c\<lparr>AccessStatus := s\<rparr>) g1" and st: "st = (if s = CFE_PSP_SUCCESS then CFE_SUCCESS else CFE_ES_CDS_ACCESS_ERROR)"
    using call n off w by (auto simp: CFE_ES_CDS_CacheFlush_def)
  have g1: "g1 = (if s = CFE_PSP_SUCCESS then g\<lparr>CDSMemory := put_bytes off (get_bytes 0 (unat n) (CacheData (Cache g))) (CDSMemory g)\<rparr> else g)"
    using w u by (auto simp: CFE_PSP_WriteToCDS_def size_u32 ucast_back [OF off(2)] cache_bytes_def take_get_bytes split: if_splits)
  show "same_ram g g'" "CDSMemory g' = (if st = CFE_SUCCESS then put_bytes off (get_bytes 0 (unat n) (CacheData (Cache g))) (CDSMemory g) else CDSMemory g)"
    "CacheData (Cache g') = CacheData (Cache g)" "CacheSize (Cache g') = n" "CacheOffset (Cache g') = off"
    using n(1) off(1) by (simp_all add: g' g1 st same_ram_def)
  show "st = CFE_SUCCESS" if "unat off + unat n \<le> unat Cds"
    using psp_guard [OF that n(2) u(2)] w st by (auto simp: CFE_PSP_WriteToCDS_def)
qed

section \<open>Descriptors through the cache\<close>

lemma near_less: "near a \<Longrightarrow> unat a < 2 ^ 32"
  by (simp add: near_def)

lemma store_at:
  assumes "m' x = m x"
  shows "store n w a m' x = store n w a m x"
  by (induction n arbitrary: w a) (simp_all add: assms)

lemma write_bd_at: "m' x = m x \<Longrightarrow> write_bd a bd m' x = write_bd a bd m x"
  unfolding write_bd_def by (intro store_at)

text \<open>A descriptor changed in a copy and written back whole.\<close>

lemma write_back:
  assumes same: "get_bytes 0 24 c = get_bytes a 24 m" and near: "near a"
  shows "put_bytes a (get_bytes 0 24 (write_bd 0 bd c)) m = write_bd a bd m"
proof
  fix x
  have lim: "unat a + 24 \<le> 2 ^ 64" using near_less [OF near] by simp
  show "put_bytes a (get_bytes 0 24 (write_bd 0 bd c)) m x = write_bd a bd m x"
  proof (cases "in_desc a x")
    case True
    then obtain i where i: "i < 24" "x = a + of_nat i" by (auto simp: in_desc_def)
    have "c (of_nat i) = m (a + of_nat i)" using arg_cong [OF same, of "\<lambda>bs. bs ! i"] i(1) by simp
    then have "write_bd 0 bd c (of_nat i) = write_bd 0 bd (\<lambda>x. m (a + x)) (of_nat i)" by (rule write_bd_at)
    also have "\<dots> = write_bd a bd m (a + of_nat i)" using fun_cong [OF write_bd_shift [of a 0 bd m], of "of_nat i"] by simp
    finally show ?thesis using i lim put_bytes_in [of a "get_bytes 0 24 (write_bd 0 bd c)" i m] by simp
  next
    case False
    then have "\<not> (unat a \<le> unat x \<and> unat x < unat a + 24)" unfolding in_desc_iff [OF lim] .
    then show ?thesis using write_bd_other [OF False] put_bytes_at [of a "get_bytes 0 24 (write_bd 0 bd c)" m x] lim by auto
  qed
qed

lemmas cds_storage_simps = cds_storage_def CFE_ES_CDS_PoolRetrieve_def CFE_ES_CDS_PoolCommit_def CFE_ES_CDS_CachePreload_def

lemma cds_retrieve:
  assumes "near a" and call: "Retrieve (cds_storage Cds) g a = (g1, st)"
  shows "same_ram g g1" "CDSMemory g1 = CDSMemory g"
    "st = CFE_SUCCESS \<Longrightarrow> get_bytes 0 24 (CacheData (Cache g1)) = get_bytes a 24 (CDSMemory g)"
    "unat a + 24 \<le> unat Cds \<Longrightarrow> st = CFE_SUCCESS"
proof -
  have c: "CFE_ES_CDS_CacheFetch Cds a 24 g = (g1, st)" using call by (simp add: cds_storage_simps)
  note f = CacheFetch [OF _ _ near_less [OF assms(1)] c, simplified]
  show "same_ram g g1" "CDSMemory g1 = CDSMemory g" "st = CFE_SUCCESS \<Longrightarrow> get_bytes 0 24 (CacheData (Cache g1)) = get_bytes a 24 (CDSMemory g)"
    "unat a + 24 \<le> unat Cds \<Longrightarrow> st = CFE_SUCCESS" by (fact f)+
qed

lemma cds_commit:
  assumes "near a" and call: "Commit (cds_storage Cds) (SetBd (cds_storage Cds) g1 a bd) a = (g2, st)"
  shows "same_ram g1 g2"
    "CDSMemory g2 = (if st = CFE_SUCCESS then put_bytes a (get_bytes 0 24 (write_bd 0 bd (CacheData (Cache g1)))) (CDSMemory g1) else CDSMemory g1)"
    "unat a + 24 \<le> unat Cds \<Longrightarrow> st = CFE_SUCCESS"
proof -
  let ?g = "upd_cache (\<lambda>c. c\<lparr>CacheSize := 24, CacheOffset := a\<rparr>) (upd_cache (\<lambda>c. c\<lparr>CacheData := write_bd 0 bd (CacheData c)\<rparr>) g1)"
  have c: "CFE_ES_CDS_CacheFlush Cds ?g = (g2, st)" using call by (simp add: cds_storage_simps)
  note f = CacheFlush [OF _ _ _ _ near_less [OF assms(1)] c, of 24, simplified]
  show "same_ram g1 g2" using f(1) by (simp add: same_ram_def)
  show "CDSMemory g2 = (if st = CFE_SUCCESS then put_bytes a (get_bytes 0 24 (write_bd 0 bd (CacheData (Cache g1)))) (CDSMemory g1) else CDSMemory g1)"
    using f(2) by simp
  show "unat a + 24 \<le> unat Cds \<Longrightarrow> st = CFE_SUCCESS" by (rule f(3))
qed

definition cds_poke :: "u64 \<Rightarrow> u8 \<Rightarrow> CFE_ES_CDS_Instance \<Rightarrow> CFE_ES_CDS_Instance" where
  "cds_poke a v g = g\<lparr>CDSMemory := (CDSMemory g)(a := v)\<rparr>"

text \<open>Descriptors in the store meet the contract of a storage.\<close>

interpretation cds: reliable_user_storage "cds_storage Cds" CDSMemory cds_poke "unat Cds" for Cds
proof
  fix a m m1 st
  assume near: "near a" and r: "Retrieve (cds_storage Cds) m a = (m1, st)"
  have "read_bd (CacheData (Cache m1)) 0 = read_bd (CDSMemory m) a" if "st = CFE_SUCCESS"
  proof -
    note g = cds_retrieve(3) [OF near r that]
    have b: "CacheData (Cache m1) (of_nat i) = CDSMemory m (a + of_nat i)" if "i < 24" for i
      using arg_cong [OF g, of "\<lambda>bs. bs ! i"] that by simp
    have "load n (CacheData (Cache m1)) (of_nat j) = load n (CDSMemory m) (a + of_nat j)" if "j + n \<le> 24" for j n
      using b [of "j + _"] that by (intro load_cong2) (simp add: add.assoc)
    from this [of 0 2] this [of 2 2] this [of 8 8] this [of 16 8] show ?thesis by (simp add: read_bd_def)
  qed
  then show "CDSMemory m1 = CDSMemory m \<and> (st = CFE_SUCCESS \<longrightarrow> BdOf (cds_storage Cds) m1 a = read_bd (CDSMemory m) a)"
    using cds_retrieve(2) [OF near r] by (simp add: cds_storage_def)
next
  fix a m m1 bd m2 st
  assume near: "near a" and r: "Retrieve (cds_storage Cds) m a = (m1, CFE_SUCCESS)" and c: "Commit (cds_storage Cds) (SetBd (cds_storage Cds) m1 a bd) a = (m2, st)"
  show "CDSMemory m2 = (if st = CFE_SUCCESS then write_bd a bd (CDSMemory m) else CDSMemory m)"
    using cds_commit(2) [OF near c] cds_retrieve(2,3) [OF near r] write_back [OF _ near] by simp
next
  fix a v m
  show "CDSMemory (cds_poke a v m) = (CDSMemory m)(a := v)" by (simp add: cds_poke_def)
next
  fix a :: u64 and m
  assume lim: "unat a + 24 \<le> unat Cds"
  then have near: "near a" using unsigned_less [where 'a = nat, of Cds] by (simp add: near_def)
  show "snd (Retrieve (cds_storage Cds) m a) = CFE_SUCCESS" using cds_retrieve(4) [OF near _ lim] by (metis prod.collapse)
  fix m1 bd
  show "snd (Commit (cds_storage Cds) (SetBd (cds_storage Cds) m1 a bd) a) = CFE_SUCCESS" using cds_commit(3) [OF near _ lim] by (metis prod.collapse)
qed

lemma Fetch_ram: "same_ram g (fst (CFE_ES_CDS_CacheFetch Cds off n g))"
  by (simp add: CFE_ES_CDS_CacheFetch_def same_ram_def split_beta Let_def)

lemma Write_ram: "same_ram g (fst (CFE_PSP_WriteToCDS Cds data off n g))"
  by (cases data) (simp_all add: CFE_PSP_WriteToCDS_def)

lemma Flush_ram: "same_ram g (fst (CFE_ES_CDS_CacheFlush Cds g))"
  using Write_ram [of g Cds "Some (cache_bytes g)"] by (simp add: CFE_ES_CDS_CacheFlush_def same_ram_def split_beta Let_def)

interpretation cds_frame: storage_frame "cds_storage Cds" same_ram for Cds
proof
  fix m a bd
  show "same_ram m (fst (Retrieve (cds_storage Cds) m a))" by (simp add: cds_storage_simps Fetch_ram)
  show "same_ram m (SetBd (cds_storage Cds) m a bd)" by (simp add: cds_storage_def)
  have "same_ram m (fst (CFE_ES_CDS_CacheFlush Cds (upd_cache (\<lambda>c. c\<lparr>CacheSize := 24, CacheOffset := a\<rparr>) m)))"
    using Flush_ram by (rule same_ram_trans [OF same_ram_upd(1)])
  then show "same_ram m (fst (Commit (cds_storage Cds) m a))" by (simp add: cds_storage_simps)
qed (simp_all add: same_ram_def)

lemma put_bytes_append:
  assumes "unat a + length xs + length ys \<le> 2 ^ 64"
  shows "put_bytes (a + of_nat (length xs)) ys (put_bytes a xs m) = put_bytes a (xs @ ys) m"
proof (cases "ys = []")
  case False
  then have l: "0 < length ys" by simp
  then have u: "unat (a + of_nat (length xs)) = unat a + length xs" using assms by (intro unat_offset) linarith
  show ?thesis
  proof
    fix x
    show "put_bytes (a + of_nat (length xs)) ys (put_bytes a xs m) x = put_bytes a (xs @ ys) m x"
      using assms u by (auto simp: put_bytes_at nth_append)
  qed
qed simp

end
