(* ===== verification/CFE_ES_CDS_Inv.thy ===== *)
theory CFE_ES_CDS_Inv
  imports CFE_ES_CDS_Store
begin

unbundle bit_operations_syntax

text \<open>
  The invariant of the critical data store, the abstract map from handles to named blocks that it implements, and what
  writing into the store does to them.
\<close>

section \<open>The invariant\<close>

text \<open>The pool of a store with \<open>D\<close> bytes for data, when it is new.\<close>

definition cds_pool0 :: "u64 \<Rightarrow> CFE_ES_GenPoolRecord" where
  "cds_pool0 D = fst (CFE_ES_GenPoolInitialize CDS_POOL_OFFSET D 4 CFE_ES_CDS_NUM_BLOCK_SIZES CFE_ES_CDSMemPoolDefSize)"

text \<open>The blocks that the pool has handed out.\<close>

abbreviation cds_held :: "CFE_ES_CDS_Instance \<Rightarrow> (nat \<times> nat) list \<Rightarrow> (nat \<Rightarrow> nat list) \<Rightarrow> nat \<rightharpoonup> u64" where
  "cds_held g bs free \<equiv> granted (read_bd (CDSMemory g)) bs free"

definition run_of :: "CFE_ES_CDS_Instance \<Rightarrow> (nat \<times> nat) list \<Rightarrow> (nat \<Rightarrow> nat list) \<Rightarrow> CFE_ES_CDS_Instance pool_run" where
  "run_of g bs free = \<lparr>RunPool = CDSPool g, RunStore = g, Held = cds_held g bs free, Seen = fst ` set bs\<rparr>"

abbreviation used :: "CFE_ES_CDS_RegRec \<Rightarrow> bool" where
  "used r \<equiv> CFE_ES_CDSBlockRecordIsUsed r"

text \<open>
  The registry and the blocks handed out belong together: the block of a used record is handed out with the size in the
  record, and every block that is handed out is that of exactly one record; ids lead to their records, names are distinct.
\<close>

definition reg_ok :: "CFE_ES_CDS_RegRec list \<Rightarrow> (nat \<rightharpoonup> u64) \<Rightarrow> bool" where
  "reg_ok rs held \<longleftrightarrow> length rs = 512 \<and> names_ok rs \<and>
     (\<forall>i < 512. used (rs ! i) \<longrightarrow> CFE_ES_LocateCDSBlockRecordByID (BlockID (rs ! i)) = Some i \<and>
        held (unat (BlockOffset (rs ! i))) = Some (RegBlockSize (rs ! i)) \<and> 4 < unat (RegBlockSize (rs ! i))) \<and>
     (\<forall>i < 512. \<forall>j < 512. used (rs ! i) \<and> used (rs ! j) \<and> i \<noteq> j \<longrightarrow>
        BlockOffset (rs ! i) \<noteq> BlockOffset (rs ! j) \<and> cstring (RegName (rs ! i)) \<noteq> cstring (RegName (rs ! j))) \<and>
     (\<forall>off. held off \<noteq> None \<longrightarrow> (\<exists>i < 512. used (rs ! i) \<and> unat (BlockOffset (rs ! i)) = off))"

lemma reg_okD:
  assumes "reg_ok rs held"
  shows "length rs = 512" "names_ok rs" "i < 512 \<Longrightarrow> used (rs ! i) \<Longrightarrow> CFE_ES_LocateCDSBlockRecordByID (BlockID (rs ! i)) = Some i"
    "i < 512 \<Longrightarrow> used (rs ! i) \<Longrightarrow> held (unat (BlockOffset (rs ! i))) = Some (RegBlockSize (rs ! i))"
    "i < 512 \<Longrightarrow> used (rs ! i) \<Longrightarrow> 4 < unat (RegBlockSize (rs ! i))"
    "i < 512 \<Longrightarrow> j < 512 \<Longrightarrow> used (rs ! i) \<Longrightarrow> used (rs ! j) \<Longrightarrow> i \<noteq> j \<Longrightarrow> unat (BlockOffset (rs ! i)) \<noteq> unat (BlockOffset (rs ! j))"
    "i < 512 \<Longrightarrow> j < 512 \<Longrightarrow> used (rs ! i) \<Longrightarrow> used (rs ! j) \<Longrightarrow> i \<noteq> j \<Longrightarrow> cstring (RegName (rs ! i)) \<noteq> cstring (RegName (rs ! j))"
    "held off \<noteq> None \<Longrightarrow> \<exists>i < 512. used (rs ! i) \<and> unat (BlockOffset (rs ! i)) = off"
proof -
  show "unat (BlockOffset (rs ! i)) \<noteq> unat (BlockOffset (rs ! j))" if "i < 512" "j < 512" "used (rs ! i)" "used (rs ! j)" "i \<noteq> j"
  proof -
    have "BlockOffset (rs ! i) \<noteq> BlockOffset (rs ! j)" using assms that unfolding reg_ok_def by blast
    then show ?thesis by (simp add: word_unat_eq_iff)
  qed
qed (use assms in \<open>unfold reg_ok_def, blast+\<close>)

text \<open>What is stored outside the pool: signatures, the size of the registry and its copy.\<close>

definition stored_ok :: "u64 \<Rightarrow> CFE_ES_CDS_RegRec list \<Rightarrow> bytes \<Rightarrow> bool" where
  "stored_ok T rs m \<longleftrightarrow> get_bytes 0 8 m = CFE_ES_CDS_SIGNATURE_BEGIN \<and> get_bytes (T - 8) 8 m = CFE_ES_CDS_SIGNATURE_END \<and>
     load 4 m 8 = 512 \<and> (\<forall>i < 512. stored_rec m i = rs ! i \<or> \<not> used (stored_rec m i) \<and> \<not> used (rs ! i))"

definition cds_inv :: "u32 \<Rightarrow> CFE_ES_CDS_Instance \<Rightarrow> (nat \<times> nat) list \<Rightarrow> (nat \<Rightarrow> nat list) \<Rightarrow> bool" where
  "cds_inv Cds g bs free \<longleftrightarrow>
     TotalSize g = ucast (Cds AND 0xfffffffc) \<and> 53268 \<le> TotalSize g \<and> DataSize g = TotalSize g - 36884 \<and>
     run_inv CDSMemory True (shape (cds_pool0 (DataSize g))) 2 36876 bs free (run_of g bs free) \<and>
     reg_ok (Registry g) (cds_held g bs free) \<and> stored_ok (TotalSize g) (Registry g) (CDSMemory g) \<and>
     CFE_ResourceId_GetBase (LastCDSBlockId g) = CFE_ES_CDSBLOCKID_BASE"

text \<open>The abstract store: for a handle, the name, whether it is a critical table, and the bytes of its block.\<close>

definition cds_blocks :: "CFE_ES_CDS_Instance \<Rightarrow> CFE_ResourceId \<rightharpoonup> string \<times> bool \<times> u8 list" where
  "cds_blocks g H =
     (let p = CFE_ES_LocateCDSBlockRecordByID H; r = Registry g ! the p
      in if CFE_ES_CDSBlockRecordIsMatch g p H
         then Some (cstring (RegName r), RegTable r, get_bytes (BlockOffset r) (unat (RegBlockSize r)) (CDSMemory g)) else None)"

section \<open>Places\<close>

lemma total_size: "unat (ucast (Cds AND 0xfffffffc :: u32) :: u64) \<le> unat Cds" "unat Cds < 2 ^ 32"
proof -
  have "Cds AND 0xfffffffc \<le> Cds" by (rule word_and_le2)
  then show "unat (ucast (Cds AND 0xfffffffc :: u32) :: u64) \<le> unat Cds"
    by (simp add: word_le_nat_alt unsigned_ucast_eq take_bit_eq_mod)
  show "unat Cds < 2 ^ 32" using unsigned_less [where 'a = nat, of Cds] by simp
qed

lemma def_sizes: "\<forall>s \<in> set CFE_ES_CDSMemPoolDefSize. 0 < s \<and> unat s < 2 ^ 32"
  by (simp add: CFE_ES_CDSMemPoolDefSize_def)

lemma cds_pool0:
  assumes "36876 + unat D < 2 ^ 32"
  shows "CFE_ES_GenPoolInitialize CDS_POOL_OFFSET D 4 CFE_ES_CDS_NUM_BLOCK_SIZES CFE_ES_CDSMemPoolDefSize = (cds_pool0 D, CFE_SUCCESS)"
    and "pool_inv (cds_pool0 D) d 2 36876 [] (\<lambda>_. [])" and "unat (PoolMaxOffset (cds_pool0 D)) = 36876 + unat D"
    and "unat (TailPosition (cds_pool0 D)) = 36876"
proof -
  have args: "init_args 36876 D 2 17 CFE_ES_CDSMemPoolDefSize"
    using assms def_sizes by (simp add: init_args_def CFE_ES_CDSMemPoolDefSize_def)
  have p: "(2 :: u64) ^ 2 = 4" by simp
  obtain q st where q: "CFE_ES_GenPoolInitialize 36876 D (2 ^ 2) 17 CFE_ES_CDSMemPoolDefSize = (q, st)" by fastforce
  note i = initialize_inv [OF args q]
  have e: "cds_pool0 D = q" using q by (simp add: cds_pool0_def)
  show "CFE_ES_GenPoolInitialize CDS_POOL_OFFSET D 4 CFE_ES_CDS_NUM_BLOCK_SIZES CFE_ES_CDSMemPoolDefSize = (cds_pool0 D, CFE_SUCCESS)"
    using q i(1) e by simp
  show "pool_inv (cds_pool0 D) d 2 36876 [] (\<lambda>_. [])" using i(2) [of d] e by simp
  show "unat (PoolMaxOffset (cds_pool0 D)) = 36876 + unat D" using i(3) e by simp
  show "unat (TailPosition (cds_pool0 D)) = 36876" by (simp add: cds_pool0_def CFE_ES_GenPoolInitialize_def Let_def)
qed

lemma cds_invD:
  assumes "cds_inv Cds g bs free"
  shows "pool_inv (CDSPool g) (read_bd (CDSMemory g)) 2 36876 bs free" "shape (CDSPool g) = shape (cds_pool0 (DataSize g))"
    "clear_tail (CDSPool g) (CDSMemory g)" "run_inv CDSMemory True (shape (cds_pool0 (DataSize g))) 2 36876 bs free (run_of g bs free)"
    "unat (PoolMaxOffset (CDSPool g)) + 8 = unat (TotalSize g)" "unat (TotalSize g) \<le> unat Cds" "53268 \<le> unat (TotalSize g)"
    "reg_ok (Registry g) (cds_held g bs free)" "stored_ok (TotalSize g) (Registry g) (CDSMemory g)"
    "length (Registry g) = 512" "names_ok (Registry g)"
    "36876 + unat (DataSize g) < 2 ^ 32" "unat (PoolMaxOffset (CDSPool g)) \<le> unat Cds" "unat (TotalSize g) < 2 ^ 32"
    "unat (TotalSize g - 8) = unat (TotalSize g) - 8" "CFE_ResourceId_GetBase (LastCDSBlockId g) = CFE_ES_CDSBLOCKID_BASE"
proof -
  let ?D = "DataSize g"
  show r: "run_inv CDSMemory True (shape (cds_pool0 ?D)) 2 36876 bs free (run_of g bs free)"
    and reg: "reg_ok (Registry g) (cds_held g bs free)" "stored_ok (TotalSize g) (Registry g) (CDSMemory g)"
    and "CFE_ResourceId_GetBase (LastCDSBlockId g) = CFE_ES_CDSBLOCKID_BASE"
    using assms unfolding cds_inv_def by blast+
  from r show "pool_inv (CDSPool g) (read_bd (CDSMemory g)) 2 36876 bs free" "clear_tail (CDSPool g) (CDSMemory g)"
    and sh: "shape (CDSPool g) = shape (cds_pool0 ?D)" by (simp_all add: run_inv_def run_of_def)
  show "length (Registry g) = 512" "names_ok (Registry g)" using reg_okD(1,2) [OF reg(1)] by blast+
  have T: "TotalSize g = ucast (Cds AND 0xfffffffc)" "53268 \<le> TotalSize g" "?D = TotalSize g - 36884" using assms unfolding cds_inv_def by blast+
  show t: "53268 \<le> unat (TotalSize g)" "unat (TotalSize g) \<le> unat Cds" "unat (TotalSize g) < 2 ^ 32"
    using T(1,2) total_size [of Cds] by (simp_all add: word_le_nat_alt)
  have D: "unat ?D = unat (TotalSize g) - 36884" unfolding T(3) using t(1) by (subst unat_sub) (simp_all add: word_le_nat_alt)
  show d: "36876 + unat ?D < 2 ^ 32" using D t(1,3) by simp
  have "PoolMaxOffset (CDSPool g) = PoolMaxOffset (cds_pool0 ?D)" using sh by (simp add: shape_def)
  then show m: "unat (PoolMaxOffset (CDSPool g)) + 8 = unat (TotalSize g)" using cds_pool0(3) [OF d] D t(1) by simp
  show "unat (PoolMaxOffset (CDSPool g)) \<le> unat Cds" using m t(2) by simp
  show "unat (TotalSize g - 8) = unat (TotalSize g) - 8" using t(1) by (subst unat_sub) (simp_all add: word_le_nat_alt)
qed

text \<open>The block of a record that is in use.\<close>

lemma cds_block:
  assumes inv: "cds_inv Cds g bs free" and i: "i < 512" "used (Registry g ! i)"
  defines "r \<equiv> Registry g ! i"
  shows "\<exists>j. (unat (BlockOffset r), j) \<in> in_use bs free \<and> (unat (BlockOffset r), j) \<in> set bs \<and> unat (RegBlockSize r) \<le> bsize (CDSPool g) j"
    and "cds_held g bs free (unat (BlockOffset r)) = Some (RegBlockSize r)" "4 < unat (RegBlockSize r)"
    and "36900 \<le> unat (BlockOffset r)" "unat (BlockOffset r) + unat (RegBlockSize r) \<le> unat (PoolMaxOffset (CDSPool g))"
    and "near (BlockOffset r - 24)" "unat (BlockOffset r - 24) = unat (BlockOffset r) - 24"
proof -
  note D = cds_invD [OF inv]
  show h: "cds_held g bs free (unat (BlockOffset r)) = Some (RegBlockSize r)" "4 < unat (RegBlockSize r)"
    using reg_okD(4,5) [OF D(8) i] by (simp_all add: r_def)
  obtain j where j: "(unat (BlockOffset r), j) \<in> in_use bs free" "(unat (BlockOffset r), j) \<in> set bs" "unat (RegBlockSize r) \<le> bsize (CDSPool g) j"
    using held_block [OF D(1) h(1)] by blast
  then show "\<exists>j. (unat (BlockOffset r), j) \<in> in_use bs free \<and> (unat (BlockOffset r), j) \<in> set bs \<and> unat (RegBlockSize r) \<le> bsize (CDSPool g) j" by blast
  note b = block_range [OF D(1) j(2)] and n = block_near [OF D(1) j(2)]
  show "36900 \<le> unat (BlockOffset r)" "unat (BlockOffset r) + unat (RegBlockSize r) \<le> unat (PoolMaxOffset (CDSPool g))"
    using b(1,3) j(3) pool_invD(3) [OF D(1)] by simp_all
  show "near (BlockOffset r - 24)" "unat (BlockOffset r - 24) = unat (BlockOffset r) - 24" using n b(6) by simp_all
qed

text \<open>Blocks of different records do not overlap.\<close>

lemma cds_blocks_apart:
  assumes inv: "cds_inv Cds g bs free" and i: "i < 512" "used (Registry g ! i)" and j: "j < 512" "used (Registry g ! j)" and ij: "i \<noteq> j"
  shows "unat (BlockOffset (Registry g ! i)) + unat (RegBlockSize (Registry g ! i)) \<le> unat (BlockOffset (Registry g ! j)) \<or>
    unat (BlockOffset (Registry g ! j)) + unat (RegBlockSize (Registry g ! j)) \<le> unat (BlockOffset (Registry g ! i))"
proof -
  note D = cds_invD [OF inv]
  have ne: "unat (BlockOffset (Registry g ! i)) \<noteq> unat (BlockOffset (Registry g ! j))"
    using reg_okD(6) [OF D(8) i(1) j(1) i(2) j(2) ij] .
  obtain k l where kl: "(unat (BlockOffset (Registry g ! i)), k) \<in> set bs" "unat (RegBlockSize (Registry g ! i)) \<le> bsize (CDSPool g) k"
    "(unat (BlockOffset (Registry g ! j)), l) \<in> set bs" "unat (RegBlockSize (Registry g ! j)) \<le> bsize (CDSPool g) l"
    using cds_block(1) [OF inv i] cds_block(1) [OF inv j] by blast
  show ?thesis using blocks_apart [OF D(1) kl(1,3)] kl(2,4) ne by auto
qed

section \<open>Handles\<close>

lemma Locate_cds_eq:
  "CFE_ES_LocateCDSBlockRecordByID H =
     (if H - CFE_ES_CDSBLOCKID_BASE > CFE_RESOURCEID_MAX then NULL else Some (unat ((H - CFE_ES_CDSBLOCKID_BASE) mod 512)))"
  by (simp add: CFE_ES_LocateCDSBlockRecordByID_def CFE_ES_CDSHandle_ToIndex_def CFE_ResourceId_ToIndex_def Let_def)

lemma Locate_cds_lt: "CFE_ES_LocateCDSBlockRecordByID H = Some i \<Longrightarrow> i < 512"
  by (auto simp: Locate_cds_eq unat_mod split: if_splits)

lemma Locate_cds_undefined: "CFE_ES_LocateCDSBlockRecordByID CFE_RESOURCEID_UNDEFINED = NULL"
  by (simp add: Locate_cds_eq)

lemma cds_match:
  "CFE_ES_CDSBlockRecordIsMatch g (CFE_ES_LocateCDSBlockRecordByID H) H \<Longrightarrow>
    \<exists>i. CFE_ES_LocateCDSBlockRecordByID H = Some i \<and> i < 512 \<and> used (Registry g ! i) \<and> BlockID (Registry g ! i) = H"
proof -
  assume m: "CFE_ES_CDSBlockRecordIsMatch g (CFE_ES_LocateCDSBlockRecordByID H) H"
  then obtain i where i: "CFE_ES_LocateCDSBlockRecordByID H = Some i" "BlockID (Registry g ! i) = H"
    by (auto simp: CFE_ES_CDSBlockRecordIsMatch_def)
  moreover have "H \<noteq> 0" using i(1) Locate_cds_undefined by auto
  ultimately show ?thesis using Locate_cds_lt [OF i(1)] by (simp add: CFE_ES_CDSBlockRecordIsUsed_def)
qed

lemma cds_blocks_Some:
  assumes "cds_blocks g H = Some (n, t, b)"
  shows "\<exists>i. CFE_ES_LocateCDSBlockRecordByID H = Some i \<and> i < 512 \<and> used (Registry g ! i) \<and> BlockID (Registry g ! i) = H \<and>
    n = cstring (RegName (Registry g ! i)) \<and> t = RegTable (Registry g ! i) \<and>
    b = get_bytes (BlockOffset (Registry g ! i)) (unat (RegBlockSize (Registry g ! i))) (CDSMemory g)"
proof -
  have m: "CFE_ES_CDSBlockRecordIsMatch g (CFE_ES_LocateCDSBlockRecordByID H) H"
    using assms by (simp add: cds_blocks_def Let_def split: if_splits)
  from cds_match [OF this] obtain i where "CFE_ES_LocateCDSBlockRecordByID H = Some i" "i < 512" "used (Registry g ! i)" "BlockID (Registry g ! i) = H" by blast
  then show ?thesis using assms m by (simp add: cds_blocks_def Let_def)
qed

lemma cds_blocks_entry:
  assumes "CFE_ES_LocateCDSBlockRecordByID H = Some i" "BlockID (Registry g ! i) = H"
  shows "cds_blocks g H = Some (cstring (RegName (Registry g ! i)), RegTable (Registry g ! i),
    get_bytes (BlockOffset (Registry g ! i)) (unat (RegBlockSize (Registry g ! i))) (CDSMemory g))"
  using assms by (simp add: cds_blocks_def CFE_ES_CDSBlockRecordIsMatch_def Let_def)

lemma cds_blocks_None: "cds_blocks g H = None \<longleftrightarrow> \<not> CFE_ES_CDSBlockRecordIsMatch g (CFE_ES_LocateCDSBlockRecordByID H) H"
  by (simp add: cds_blocks_def Let_def)

section \<open>Writing into the store\<close>

lemma run_of_inv:
  "run_inv CDSMemory True sh 2 36876 bs free (run_of g bs free) \<longleftrightarrow>
    pool_inv (CDSPool g) (read_bd (CDSMemory g)) 2 36876 bs free \<and> shape (CDSPool g) = sh \<and> clear_tail (CDSPool g) (CDSMemory g)"
  by (auto simp: run_inv_def run_of_def)

lemma cds_invI:
  assumes "cds_inv Cds g bs free" and "TotalSize g' = TotalSize g" "DataSize g' = DataSize g" "shape (CDSPool g') = shape (CDSPool g)"
    and "pool_inv (CDSPool g') (read_bd (CDSMemory g')) 2 36876 bs' free'" "clear_tail (CDSPool g') (CDSMemory g')"
    and "reg_ok (Registry g') (cds_held g' bs' free')" "stored_ok (TotalSize g) (Registry g') (CDSMemory g')"
    and "CFE_ResourceId_GetBase (LastCDSBlockId g') = CFE_ES_CDSBLOCKID_BASE"
  shows "cds_inv Cds g' bs' free'"
  using assms unfolding cds_inv_def run_of_inv by (metis assms(2,3))

text \<open>What is stored outside the pool depends on the places outside the pool.\<close>

lemma stored_ok_cong:
  assumes T: "unat (T - 8) = unat T - 8" "8 \<le> unat T" and ok: "stored_ok T rs m"
    and lo: "\<And>x. unat x < 36876 \<Longrightarrow> m' x = m x" and hi: "\<And>x. unat T - 8 \<le> unat x \<Longrightarrow> unat x < unat T \<Longrightarrow> m' x = m x"
  shows "stored_ok T rs m'"
proof -
  have "get_bytes 0 8 m' = get_bytes 0 8 m" by (rule get_bytes_cong) (simp add: lo unat_of_nat)
  moreover have "get_bytes (T - 8) 8 m' = get_bytes (T - 8) 8 m"
  proof (rule get_bytes_cong)
    fix i :: nat assume i: "i < 8"
    have "unat T < 2 ^ 64" using unsigned_less [where 'a = nat, of T] by simp
    then have "unat (T - 8 + of_nat i) = unat T - 8 + i" using i T by (subst unat_offset) simp_all
    then show "m' (T - 8 + of_nat i) = m (T - 8 + of_nat i)" using i T(2) by (intro hi) simp_all
  qed
  moreover have "load 4 m' 8 = load 4 m 8"
  proof (rule load_cong)
    fix i :: nat assume "i < 4"
    moreover from this have "unat (8 + of_nat i :: u64) = 8 + i" by (subst unat_offset) simp_all
    ultimately show "m' (8 + of_nat i) = m (8 + of_nat i)" by (intro lo) simp
  qed
  moreover have "stored_rec m' i = stored_rec m i" if "i < 512" for i by (rule stored_cong [OF that]) (simp add: lo)
  ultimately show ?thesis using ok by (simp add: stored_ok_def)
qed

text \<open>Writing a whole block.\<close>

lemma cds_write_block:
  assumes inv: "cds_inv Cds g bs free" and i: "i < 512" "used (Registry g ! i)" and ram: "same_ram g g'"
    and xs: "length xs = unat (RegBlockSize (Registry g ! i))" and mem: "CDSMemory g' = put_bytes (BlockOffset (Registry g ! i)) xs (CDSMemory g)"
  shows "cds_inv Cds g' bs free"
    and "cds_blocks g' = (cds_blocks g)(BlockID (Registry g ! i) \<mapsto> (cstring (RegName (Registry g ! i)), RegTable (Registry g ! i), xs))"
proof -
  note D = cds_invD [OF inv]
  let ?r = "Registry g ! i" and ?off = "unat (BlockOffset (Registry g ! i))" and ?m = "CDSMemory g" and ?m' = "CDSMemory g'"
  obtain j where j: "(?off, j) \<in> set bs" "unat (RegBlockSize ?r) \<le> bsize (CDSPool g) j" using cds_block(1) [OF inv i] by blast
  note b = cds_block(4,5) [OF inv i]
  have lim: "?off + length xs \<le> 2 ^ 64" using b(2) D(5,14) xs by simp
  have out: "?m' x = ?m x" if "unat x < ?off \<or> ?off + length xs \<le> unat x" for x
    using that lim unfolding mem by (auto simp: put_bytes_at)
  have d: "desc (read_bd ?m') o' = desc (read_bd ?m) o'" if "(o', l) \<in> set bs" for o' l
  proof -
    have "?m' x = ?m x" if "in_desc (of_nat o' - 24) x" for x
    proof (rule out)
      have "\<not> (?off \<le> unat x \<and> unat x < ?off + bsize (CDSPool g) j)" using data_place [OF D(1) j(1) \<open>(o', l) \<in> set bs\<close>, of x] that by blast
      then show "unat x < ?off \<or> ?off + length xs \<le> unat x" using j(2) xs by linarith
    qed
    then show ?thesis unfolding desc_def by (rule read_bd_cong)
  qed
  have pc: "pool_inv (CDSPool g) (read_bd ?m') 2 36876 bs free" "cds_held g' bs free = cds_held g bs free"
    by (rule pool_inv_cong [OF D(1)], erule d)+
  have "clear_tail (CDSPool g) ?m'"
    unfolding clear_tail_def
  proof (intro allI impI)
    fix x :: u64 assume x: "unat (TailPosition (CDSPool g)) \<le> unat x \<and> unat x < unat (PoolMaxOffset (CDSPool g))"
    then have "?m' x = ?m x" using block_range(3) [OF D(1) j(1)] j(2) xs by (intro out) simp
    then show "?m' x = 0" using D(3) x by (simp add: clear_tail_def)
  qed
  moreover have "stored_ok (TotalSize g) (Registry g) ?m'"
    using D(5,7) b xs by (intro stored_ok_cong [OF D(15) _ D(9)] out) auto
  moreover have "reg_ok (Registry g) (cds_held g' bs free)" using D(8) pc(2) by simp
  ultimately show "cds_inv Cds g' bs free"
    using ram pc(1) D(16) by (intro cds_invI [OF inv]) (simp_all add: same_ram_def)
  have reg: "Registry g' = Registry g" using ram by (simp add: same_ram_def)
  show "cds_blocks g' = (cds_blocks g)(BlockID ?r \<mapsto> (cstring (RegName ?r), RegTable ?r, xs))"
  proof
    fix K
    show "cds_blocks g' K = ((cds_blocks g)(BlockID ?r \<mapsto> (cstring (RegName ?r), RegTable ?r, xs))) K"
    proof (cases "cds_blocks g' K")
      case None
      then have n: "cds_blocks g K = None" by (simp add: cds_blocks_None CFE_ES_CDSBlockRecordIsMatch_def reg)
      have "K \<noteq> BlockID ?r"
        using reg_okD(3) [OF D(8) i] n by (auto simp: cds_blocks_None CFE_ES_CDSBlockRecordIsMatch_def)
      then show ?thesis using None n by simp
    next
      case (Some z)
      obtain n t c where z: "z = (n, t, c)" by (cases z)
      obtain l where l: "CFE_ES_LocateCDSBlockRecordByID K = Some l" "l < 512" "used (Registry g ! l)" "BlockID (Registry g ! l) = K"
        "n = cstring (RegName (Registry g ! l))" "t = RegTable (Registry g ! l)" "c = get_bytes (BlockOffset (Registry g ! l)) (unat (RegBlockSize (Registry g ! l))) ?m'"
        using cds_blocks_Some [OF Some [unfolded z]] unfolding reg by blast
      note eK = cds_blocks_entry [OF l(1,4)]
      show ?thesis
      proof (cases "l = i")
        case True
        then have "c = xs" using l(7) xs lim unfolding mem by (simp add: get_put_bytes)
        then show ?thesis using Some z l True by simp
      next
        case False
        have "c = get_bytes (BlockOffset (Registry g ! l)) (unat (RegBlockSize (Registry g ! l))) ?m"
          unfolding l(7) mem
          by (rule get_put_apart) (use lim cds_blocks_apart [OF inv i l(2,3)] False cds_block(5) [OF inv l(2,3)] D(5,14) xs in auto)
        moreover have "K \<noteq> BlockID ?r" using reg_okD(3) [OF D(8) i] l(1) False by auto
        ultimately show ?thesis using Some z l eK by simp
      qed
    qed
  qed
qed

text \<open>Writing the registry.\<close>

lemma UpdateCDSRegistry:
  assumes rs: "names_ok (Registry g)" "length (Registry g) = 512" and Cds: "36876 \<le> unat Cds"
  shows "CFE_ES_UpdateCDSRegistry Cds g = (g\<lparr>CDSMemory := put_bytes 12 (encode_Registry (Registry g)) (CDSMemory g)\<rparr>, CFE_SUCCESS)"
proof -
  have "length (encode_Registry (Registry g)) = 36864" using length_encode_Registry [OF rs(1)] rs(2) by simp
  moreover have "(12 :: u32) < Cds" "36876 \<le> Cds" using Cds by (simp_all add: word_less_nat_alt word_le_nat_alt)
  ultimately show ?thesis by (simp add: CFE_ES_UpdateCDSRegistry_def CFE_PSP_WriteToCDS_def)
qed

lemma registry_written:
  assumes "names_ok rs" "length rs = 512"
  shows "unat x < 12 \<or> 36876 \<le> unat x \<Longrightarrow> put_bytes 12 (encode_Registry rs) m x = m x"
    and "stored_ok T rs0 m \<Longrightarrow> unat (T - 8) = unat T - 8 \<Longrightarrow> 36884 \<le> unat T \<Longrightarrow> stored_ok T rs (put_bytes 12 (encode_Registry rs) m)"
proof -
  have len: "length (encode_Registry rs) = 36864" using length_encode_Registry [OF assms(1)] assms(2) by simp
  let ?m = "put_bytes 12 (encode_Registry rs) m"
  show out: "?m x = m x" if "unat x < 12 \<or> 36876 \<le> unat x" for x
    using that len put_bytes_at [of 12 "encode_Registry rs" m x] by auto
  assume ok: "stored_ok T rs0 m" and T: "unat (T - 8) = unat T - 8" "36884 \<le> unat T"
  have "get_bytes 0 8 ?m = get_bytes 0 8 m" by (rule get_bytes_cong) (simp add: out unat_of_nat)
  moreover have "get_bytes (T - 8) 8 ?m = get_bytes (T - 8) 8 m"
    by (rule get_put_apart) (use len T unsigned_less [where 'a = nat, of T] in auto)
  moreover have "load 4 ?m 8 = load 4 m 8"
  proof (rule load_cong)
    fix i :: nat assume "i < 4"
    moreover from this have "unat (8 + of_nat i :: u64) = 8 + i" by (subst unat_offset) simp_all
    ultimately show "?m (8 + of_nat i) = m (8 + of_nat i)" by (intro out) simp
  qed
  ultimately show "stored_ok T rs ?m" using ok stored_put [OF assms] by (simp add: stored_ok_def)
qed

end
