(* ===== verification/CFE_ES_CDS_Ops.thy ===== *)
theory CFE_ES_CDS_Ops
  imports CFE_ES_CDS_Inv
begin

unbundle bit_operations_syntax

text \<open>
  Copying data to a block of the critical data store and restoring it, as operations on the abstract map of blocks.
\<close>

section \<open>Copying and restoring\<close>

text \<open>A block as it is stored: the check value in front of the data.\<close>

definition sealed :: "u8 list \<Rightarrow> u8 list" where
  "sealed data = le_bytes 4 (ucast (CFE_ES_CalculateCRC (Some data) 0 CFE_MISSION_ES_DEFAULT_CRC)) @ data"

definition seal_ok :: "u8 list \<Rightarrow> bool" where
  "seal_ok b \<longleftrightarrow> CFE_ES_CalculateCRC (Some (drop 4 b)) 0 CFE_MISSION_ES_DEFAULT_CRC = ucast (le_value (take 4 b))"

lemma sealed_ok: "seal_ok (sealed data)" "drop 4 (sealed data) = data" "length (sealed data) = length data + 4"
  by (simp_all add: sealed_def seal_ok_def le_value_u32)

text \<open>The contents of the store and the registry are the same.\<close>

definition same_store :: "CFE_ES_CDS_Instance \<Rightarrow> CFE_ES_CDS_Instance \<Rightarrow> bool" where
  "same_store g g' \<longleftrightarrow> same_ram g g' \<and> CDSMemory g' = CDSMemory g"

lemma same_store_inv: "same_store g g' \<Longrightarrow> cds_inv Cds g' bs free = cds_inv Cds g bs free"
  by (simp add: same_store_def same_ram_def cds_inv_def run_of_inv)

lemma same_store_blocks: "same_store g g' \<Longrightarrow> cds_blocks g' = cds_blocks g"
  by (rule ext) (simp add: same_store_def same_ram_def cds_blocks_def CFE_ES_CDSBlockRecordIsMatch_def Let_def)

lemma cds_get_size:
  assumes inv: "cds_inv Cds g bs free" and i: "i < 512" "used (Registry g ! i)"
  shows "\<exists>g1. run_cds Cds (\<lambda>acc. CFE_ES_GenPoolGetBlockSize acc 0 (BlockOffset (Registry g ! i))) g = (g1, CFE_SUCCESS, RegBlockSize (Registry g ! i)) \<and>
    same_store g g1"
proof -
  note D = cds_invD [OF inv]
  let ?off = "BlockOffset (Registry g ! i)" and ?d = "read_bd (CDSMemory g)"
  obtain j where j: "(unat ?off, j) \<in> in_use bs free" using cds_block(1) [OF inv i] by blast
  have sz: "ActualSize (desc ?d (unat ?off)) = RegBlockSize (Registry g ! i)"
    using cds_block(2) [OF inv i] by (simp add: granted_def split: if_splits)
  then have nz: "ActualSize (desc ?d (unat ?off)) \<noteq> 0" using cds_block(3) [OF inv i] by auto
  obtain m1 where m1: "CFE_ES_GenPoolGetBlockSize (cds_storage Cds) 0 ?off (CDSPool g, g) = ((CDSPool g, m1), CFE_SUCCESS, RegBlockSize (Registry g ! i))"
    using cds.block_size [OF D(1) D(13) j nz, of 0] sz by auto
  have "same_ram g m1" using cds_frame.size_rel [of g Cds 0 ?off "CDSPool g"] m1 by simp
  moreover have "CDSMemory m1 = CDSMemory g" by (rule cds.size_frame(2) [OF cds_block(6) [OF inv i] m1])
  ultimately show ?thesis using m1 by (simp add: run_cds_def same_store_def same_ram_def)
qed

lemma psp_write:
  assumes "unat off + unat n \<le> unat Cds" "0 < n" "length data = unat n"
  shows "CFE_PSP_WriteToCDS Cds (Some data) (ucast off) (ucast (n :: u64)) g = (g\<lparr>CDSMemory := put_bytes off data (CDSMemory g)\<rparr>, CFE_PSP_SUCCESS)"
proof -
  have "unat Cds < 2 ^ 32" by (rule total_size)
  then have u: "unat off < 2 ^ 32" "unat n < 2 ^ 32" using assms(1) by linarith+
  show ?thesis using psp_guard [OF assms(1,2) u(2)] assms(3) by (simp add: CFE_PSP_WriteToCDS_def ucast_back [OF u(1)] size_u32 [OF u(2)])
qed

lemma psp_read:
  assumes "unat off + unat n \<le> unat Cds" "0 < n"
  shows "CFE_PSP_ReadFromCDS Cds (Some buf) (ucast off) (ucast (n :: u64)) g =
    (CFE_PSP_SUCCESS, Some (get_bytes off (unat n) (CDSMemory g) @ drop (unat n) buf))"
proof -
  have "unat Cds < 2 ^ 32" by (rule total_size)
  then have u: "unat off < 2 ^ 32" "unat n < 2 ^ 32" using assms(1) by linarith+
  show ?thesis using psp_guard [OF assms(1,2) u(2)] by (simp add: CFE_PSP_ReadFromCDS_def ucast_back [OF u(1)] size_u32 [OF u(2)])
qed

text \<open>The places of the user's part of a block.\<close>

lemma user_part:
  assumes inv: "cds_inv Cds g bs free" and i: "i < 512" "used (Registry g ! i)"
  defines "r \<equiv> Registry g ! i"
  shows "unat (RegBlockSize r - 4) = unat (RegBlockSize r) - 4" "unat (BlockOffset r + 4) = unat (BlockOffset r) + 4"
    "unat (BlockOffset r + 4) + unat (RegBlockSize r - 4) \<le> unat Cds" "unat (BlockOffset r) + 4 \<le> unat Cds" "unat (BlockOffset r) < 2 ^ 32"
    "\<not> (RegBlockSize r \<le> 4)" "0 < RegBlockSize r - 4"
proof -
  note D = cds_invD [OF inv] and b = cds_block [OF inv i, folded r_def]
  show u: "unat (RegBlockSize r - 4) = unat (RegBlockSize r) - 4" using b(3) by (subst unat_sub) (simp_all add: word_le_nat_alt)
  have lt: "unat (BlockOffset r) + unat (RegBlockSize r) \<le> unat Cds" using b(5) D(13) by simp
  show "unat (BlockOffset r) < 2 ^ 32" using lt total_size(2) [of Cds] by simp
  then show v: "unat (BlockOffset r + 4) = unat (BlockOffset r) + 4" using unat_offset [of "BlockOffset r" 4] by simp
  show "unat (BlockOffset r + 4) + unat (RegBlockSize r - 4) \<le> unat Cds" "unat (BlockOffset r) + 4 \<le> unat Cds" using u v lt b(3) by simp_all
  show "\<not> (RegBlockSize r \<le> 4)" "0 < RegBlockSize r - 4" using b(3) u by (simp_all add: word_le_nat_alt word_less_nat_alt)
qed

lemma copy_to_cds:
  assumes inv: "cds_inv Cds g bs free" and h: "cds_blocks g H = Some (n, t, b)" and data: "length b - 4 \<le> length data"
  shows "\<exists>g'. CFE_ES_CopyToCDS Cds H (Some data) g = (g', CFE_SUCCESS) \<and> cds_inv Cds g' bs free \<and>
    cds_blocks g' = (cds_blocks g)(H \<mapsto> (n, t, sealed (take (length b - 4) data)))"
proof -
  obtain i where i: "CFE_ES_LocateCDSBlockRecordByID H = Some i" "i < 512" "used (Registry g ! i)" "BlockID (Registry g ! i) = H"
    "n = cstring (RegName (Registry g ! i))" "t = RegTable (Registry g ! i)" "b = get_bytes (BlockOffset (Registry g ! i)) (unat (RegBlockSize (Registry g ! i))) (CDSMemory g)"
    using cds_blocks_Some [OF h] by blast
  let ?r = "Registry g ! i"
  note up = user_part [OF inv i(2,3)]
  obtain g1 where g1: "run_cds Cds (\<lambda>acc. CFE_ES_GenPoolGetBlockSize acc 0 (BlockOffset ?r)) g = (g1, CFE_SUCCESS, RegBlockSize ?r)" "same_store g g1"
    using cds_get_size [OF inv i(2,3)] by blast
  define data' where "data' = take (length b - 4) data"
  have ld: "length data' = unat (RegBlockSize ?r) - 4" using data i(7) by (simp add: data'_def)
  define crc where "crc = le_bytes 4 (ucast (CFE_ES_CalculateCRC (Some data') 0 CFE_MISSION_ES_DEFAULT_CRC))"
  have lc: "length crc = 4" by (simp add: crc_def)
  let ?g2 = "upd_cache (\<lambda>c. c\<lparr>CacheData := put_bytes 0 crc (CacheData c), CacheOffset := BlockOffset ?r, CacheSize := 4\<rparr>) g1"
  obtain g3 st where f: "CFE_ES_CDS_CacheFlush Cds ?g2 = (g3, st)" by fastforce
  note fl = CacheFlush [OF _ _ _ _ up(5) f, of 4, simplified]
  have st: "st = CFE_SUCCESS" using fl(3) up(4) by simp
  have m3: "CDSMemory g3 = put_bytes (BlockOffset ?r) crc (CDSMemory g)"
    using fl(2) st g1(2) lc by (simp add: get_put_bytes same_store_def)
  let ?g4 = "g3\<lparr>CDSMemory := put_bytes (BlockOffset ?r + 4) data' (CDSMemory g3)\<rparr>"
  have w: "CFE_PSP_WriteToCDS Cds (Some data) (ucast (BlockOffset ?r + 4)) (ucast (RegBlockSize ?r - 4)) g3 = (?g4, CFE_PSP_SUCCESS)"
  proof -
    have "CFE_PSP_WriteToCDS Cds (Some data) (ucast (BlockOffset ?r + 4)) (ucast (RegBlockSize ?r - 4)) g3 =
        CFE_PSP_WriteToCDS Cds (Some data') (ucast (BlockOffset ?r + 4)) (ucast (RegBlockSize ?r - 4)) g3"
      using up(1,3) total_size(2) [of Cds] i(7) by (simp add: CFE_PSP_WriteToCDS_def data'_def size_u32)
    then show ?thesis using psp_write [OF up(3,7)] ld up(1) by simp
  qed
  have "BlockID ?r = H" "unat (RegBlockSize ?r - 4) = length b - 4" using i(4,7) up(1) by simp_all
  then have call: "CFE_ES_CopyToCDS Cds H (Some data) g = (?g4, CFE_SUCCESS)"
    using i(1) g1(1) up(6) f st w
    by (simp add: CFE_ES_CopyToCDS_def CFE_ES_CDSBlockWrite_def CFE_ES_CDSBlockRecordIsMatch_def data'_def [symmetric] crc_def)
  have ram: "same_ram g ?g4" using g1(2) fl(1) by (simp add: same_store_def same_ram_def)
  have "CDSMemory ?g4 = put_bytes (BlockOffset ?r) (crc @ data') (CDSMemory g)"
    using put_bytes_append [of "BlockOffset ?r" crc data' "CDSMemory g"] m3 lc ld up(5) cds_block(5) [OF inv i(2,3)] cds_invD(5,14) [OF inv] by simp
  then have "CDSMemory ?g4 = put_bytes (BlockOffset ?r) (sealed data') (CDSMemory g)" by (simp add: sealed_def crc_def)
  note res = cds_write_block [OF inv i(2,3) ram _ this]
  have "length (sealed data') = unat (RegBlockSize ?r)" using ld cds_block(3) [OF inv i(2,3)] by (simp add: sealed_ok)
  from res [OF this] show ?thesis using call i(4-6) by (intro exI [of _ ?g4]) (simp add: data'_def)
qed

lemma restore_from_cds:
  assumes inv: "cds_inv Cds g bs free" and h: "cds_blocks g H = Some (n, t, b)"
  shows "\<exists>g'. CFE_ES_RestoreFromCDS Cds (Some buf) H g =
      (g', if seal_ok b then CFE_SUCCESS else CFE_ES_CDS_BLOCK_CRC_ERR, Some (drop 4 b @ drop (length b - 4) buf)) \<and> same_store g g'"
proof -
  obtain i where i: "CFE_ES_LocateCDSBlockRecordByID H = Some i" "i < 512" "used (Registry g ! i)" "BlockID (Registry g ! i) = H"
    "b = get_bytes (BlockOffset (Registry g ! i)) (unat (RegBlockSize (Registry g ! i))) (CDSMemory g)"
    using cds_blocks_Some [OF h] by blast
  let ?r = "Registry g ! i"
  note up = user_part [OF inv i(2,3)] and b4 = cds_block(3) [OF inv i(2,3)]
  obtain g1 where g1: "run_cds Cds (\<lambda>acc. CFE_ES_GenPoolGetBlockSize acc 0 (BlockOffset ?r)) g = (g1, CFE_SUCCESS, RegBlockSize ?r)" "same_store g g1"
    using cds_get_size [OF inv i(2,3)] by blast
  obtain g2 st where f: "CFE_ES_CDS_CacheFetch Cds (BlockOffset ?r) 4 g1 = (g2, st)" by fastforce
  note fe = CacheFetch [OF _ _ up(5) f, simplified]
  have st: "st = CFE_SUCCESS" using fe(4) up(4) by simp
  have store: "same_store g g2" using g1(2) fe(1,2) by (auto simp: same_store_def intro: same_ram_trans)
  have t4: "take 4 b = get_bytes (BlockOffset ?r) 4 (CDSMemory g)" using b4 i(5) by (simp add: take_get_bytes)
  have d4: "drop 4 b = get_bytes (BlockOffset ?r + 4) (unat (RegBlockSize ?r) - 4) (CDSMemory g)"
    unfolding i(5) by (rule nth_equalityI) (simp_all add: add.assoc)
  have crc: "load 4 (CacheData (Cache g2)) 0 = le_value (take 4 b)"
    using fe(3) [OF st] g1(2) unfolding t4 by (simp add: same_store_def flip: le_value_get)
  have lb: "length b - 4 = unat (RegBlockSize ?r) - 4" using i(5) by simp
  have rd: "CFE_PSP_ReadFromCDS Cds (Some buf) (ucast (BlockOffset ?r + 4)) (ucast (RegBlockSize ?r - 4)) g2 = (CFE_PSP_SUCCESS, Some (drop 4 b @ drop (length b - 4) buf))"
    using psp_read [OF up(3,7)] store up(1) lb d4 by (simp add: same_store_def)
  have "take (unat (RegBlockSize ?r - 4)) (drop 4 b @ drop (length b - 4) buf) = drop 4 b" using up(1) i(5) by simp
  then have "CFE_ES_RestoreFromCDS Cds (Some buf) H g =
      (g2, if seal_ok b then CFE_SUCCESS else CFE_ES_CDS_BLOCK_CRC_ERR, Some (drop 4 b @ drop (length b - 4) buf))"
    using i(1,4) g1(1) up(6) f st rd crc
    by (simp add: CFE_ES_RestoreFromCDS_def CFE_ES_CDSBlockRead_def CFE_ES_CDSBlockRecordIsMatch_def seal_ok_def)
  then show ?thesis using store by blast
qed

lemma unknown_handle:
  assumes "cds_blocks g H = None"
  shows "CFE_ES_CopyToCDS Cds H (Some data) g = (g, CFE_ES_ERR_RESOURCEID_NOT_VALID)"
    "CFE_ES_RestoreFromCDS Cds (Some buf) H g = (g, CFE_ES_ERR_RESOURCEID_NOT_VALID, Some buf)"
  using assms by (simp_all add: cds_blocks_None CFE_ES_CopyToCDS_def CFE_ES_CDSBlockWrite_def CFE_ES_RestoreFromCDS_def CFE_ES_CDSBlockRead_def)

end
