(* ===== verification/CFE_ES_CDS_Reg.thy ===== *)
theory CFE_ES_CDS_Reg
  imports CFE_ES_CDS_Ops
begin

unbundle bit_operations_syntax

text \<open>
  Registering and deleting blocks of the critical data store as operations on the abstract map of blocks: which entry
  of the registry changes, that its copy in the store follows, and that the data of all other blocks is left alone.
\<close>

section \<open>Changing an entry of the registry\<close>

lemma reg_ok_update:
  assumes ok: "reg_ok rs held" and i: "i < 512" and name: "length (RegName r) = 40"
    and r: "used r \<longrightarrow> CFE_ES_LocateCDSBlockRecordByID (BlockID r) = Some i \<and> held' (unat (BlockOffset r)) = Some (RegBlockSize r) \<and> 4 < unat (RegBlockSize r)"
    and apart: "\<And>j. j < 512 \<Longrightarrow> j \<noteq> i \<Longrightarrow> used (rs ! j) \<Longrightarrow> used r \<Longrightarrow>
      unat (BlockOffset (rs ! j)) \<noteq> unat (BlockOffset r) \<and> cstring (RegName (rs ! j)) \<noteq> cstring (RegName r)"
    and others: "\<And>j. j < 512 \<Longrightarrow> j \<noteq> i \<Longrightarrow> used (rs ! j) \<Longrightarrow> held' (unat (BlockOffset (rs ! j))) = held (unat (BlockOffset (rs ! j)))"
    and all: "\<And>off. held' off \<noteq> None \<Longrightarrow> used r \<and> unat (BlockOffset r) = off \<or> (\<exists>j < 512. j \<noteq> i \<and> used (rs ! j) \<and> unat (BlockOffset (rs ! j)) = off)"
  shows "reg_ok (rs[i := r]) held'"
proof -
  note D = reg_okD [OF ok]
  have nth: "rs[i := r] ! j = (if j = i then r else rs ! j)" for j using i D(1) by simp
  have off: "BlockOffset (rs ! j) \<noteq> BlockOffset r" "BlockOffset r \<noteq> BlockOffset (rs ! j)" "cstring (RegName r) \<noteq> cstring (RegName (rs ! j))"
    "cstring (RegName (rs ! j)) \<noteq> cstring (RegName r)" if "j < 512" "j \<noteq> i" "used (rs ! j)" "used r" for j
    using apart [OF that] by (metis, metis, metis, metis)
  have pair: "BlockOffset (rs ! j) \<noteq> BlockOffset (rs ! l) \<and> cstring (RegName (rs ! j)) \<noteq> cstring (RegName (rs ! l))"
    if "j < 512" "l < 512" "used (rs ! j)" "used (rs ! l)" "j \<noteq> l" for j l using D(6,7) [OF that] by metis
  have one: "CFE_ES_LocateCDSBlockRecordByID (BlockID (rs ! j)) = Some j \<and> held' (unat (BlockOffset (rs ! j))) = Some (RegBlockSize (rs ! j)) \<and>
      4 < unat (RegBlockSize (rs ! j))" if "j < 512" "j \<noteq> i" "used (rs ! j)" for j
    using D(3-5) [OF that(1,3)] others [OF that] by simp
  have "names_ok (rs[i := r])" using D(2) name set_update_subset_insert [of rs i r] unfolding names_ok_def by blast
  moreover have "\<exists>j < 512. used (rs[i := r] ! j) \<and> unat (BlockOffset (rs[i := r] ! j)) = off" if "held' off \<noteq> None" for off
    using all [OF that] i nth by metis
  ultimately show ?thesis
    unfolding reg_ok_def using D(1) r one off pair by (simp add: nth)
qed

text \<open>A new entry, an entry removed, and an entry that is not in use overwritten.\<close>

lemma reg_ok_add:
  assumes ok: "reg_ok rs held" and i: "i < 512" "\<not> used (rs ! i)" and r: "CFE_ES_LocateCDSBlockRecordByID (BlockID r) = Some i"
    "length (RegName r) = 40" "4 < unat (RegBlockSize r)" and new: "held (unat (BlockOffset r)) = None" and u: "used r"
    and name: "\<And>j. j < 512 \<Longrightarrow> used (rs ! j) \<Longrightarrow> cstring (RegName (rs ! j)) \<noteq> cstring (RegName r)"
  shows "reg_ok (rs[i := r]) (held(unat (BlockOffset r) \<mapsto> RegBlockSize r))"
proof (rule reg_ok_update [OF ok i(1) r(2)])
  have off: "unat (BlockOffset (rs ! j)) \<noteq> unat (BlockOffset r)" if "j < 512" "used (rs ! j)" for j
    using reg_okD(4) [OF ok that] new by auto
  then show "unat (BlockOffset (rs ! j)) \<noteq> unat (BlockOffset r) \<and> cstring (RegName (rs ! j)) \<noteq> cstring (RegName r)"
    "(held(unat (BlockOffset r) \<mapsto> RegBlockSize r)) (unat (BlockOffset (rs ! j))) = held (unat (BlockOffset (rs ! j)))"
    if "j < 512" "used (rs ! j)" for j using that name by simp_all
  show "used r \<and> unat (BlockOffset r) = off \<or> (\<exists>j < 512. j \<noteq> i \<and> used (rs ! j) \<and> unat (BlockOffset (rs ! j)) = off)"
    if "(held(unat (BlockOffset r) \<mapsto> RegBlockSize r)) off \<noteq> None" for off
    using reg_okD(8) [OF ok, of off] that i(2) u by (cases "off = unat (BlockOffset r)") auto
qed (use r in simp)

lemma reg_ok_remove:
  assumes ok: "reg_ok rs held" and i: "i < 512" "used (rs ! i)" and r: "\<not> used r" "length (RegName r) = 40"
  shows "reg_ok (rs[i := r]) (held(unat (BlockOffset (rs ! i)) := None))"
proof (rule reg_ok_update [OF ok i(1) r(2)])
  show "(held(unat (BlockOffset (rs ! i)) := None)) (unat (BlockOffset (rs ! j))) = held (unat (BlockOffset (rs ! j)))"
    if "j < 512" "j \<noteq> i" "used (rs ! j)" for j using reg_okD(6) [OF ok that(1) i(1) that(3) i(2) that(2)] by simp
  show "used r \<and> unat (BlockOffset r) = off \<or> (\<exists>j < 512. j \<noteq> i \<and> used (rs ! j) \<and> unat (BlockOffset (rs ! j)) = off)"
    if "(held(unat (BlockOffset (rs ! i)) := None)) off \<noteq> None" for off
    using reg_okD(8) [OF ok, of off] that by (auto split: if_splits)
qed (use r in simp_all)

lemma reg_ok_unused:
  assumes ok: "reg_ok rs held" and i: "i < 512" "\<not> used (rs ! i)" and r: "\<not> used r" "length (RegName r) = 40"
  shows "reg_ok (rs[i := r]) held"
proof (rule reg_ok_update [OF ok i(1) r(2)])
  show "used r \<and> unat (BlockOffset r) = off \<or> (\<exists>j < 512. j \<noteq> i \<and> used (rs ! j) \<and> unat (BlockOffset (rs ! j)) = off)"
    if "held off \<noteq> None" for off using reg_okD(8) [OF ok that] i(2) by metis
qed (use r in simp_all)

text \<open>What a change of one entry means for the abstract map.\<close>

lemma cds_blocks_change:
  assumes i: "i < 512" "length (Registry g) = 512" and reg: "Registry g' = (Registry g)[i := r]"
    and kept: "\<And>l. l < 512 \<Longrightarrow> l \<noteq> i \<Longrightarrow> used (Registry g ! l) \<Longrightarrow>
      get_bytes (BlockOffset (Registry g ! l)) (unat (RegBlockSize (Registry g ! l))) (CDSMemory g') =
      get_bytes (BlockOffset (Registry g ! l)) (unat (RegBlockSize (Registry g ! l))) (CDSMemory g)"
  shows "cds_blocks g' K =
    (if CFE_ES_LocateCDSBlockRecordByID K = Some i
     then if BlockID r = K then Some (cstring (RegName r), RegTable r, get_bytes (BlockOffset r) (unat (RegBlockSize r)) (CDSMemory g')) else None
     else cds_blocks g K)"
proof (cases "CFE_ES_LocateCDSBlockRecordByID K")
  case None
  then show ?thesis by (simp add: cds_blocks_def CFE_ES_CDSBlockRecordIsMatch_def)
next
  case (Some l)
  have l: "l < 512" by (rule Locate_cds_lt [OF Some])
  have "K \<noteq> 0" using Some Locate_cds_undefined by auto
  then have "used (Registry g ! l)" if "BlockID (Registry g ! l) = K" using that by (simp add: CFE_ES_CDSBlockRecordIsUsed_def)
  then show ?thesis using Some i kept [OF l] by (auto simp: cds_blocks_def CFE_ES_CDSBlockRecordIsMatch_def reg Let_def)
qed

text \<open>
  A block from the pool and back to it: what is held changes by that block only, the pool keeps its shape, and nothing is
  written outside the pool nor into a block that stays held.
\<close>

definition pool_move :: "CFE_ES_CDS_Instance \<Rightarrow> (nat \<times> nat) list \<Rightarrow> CFE_ES_GenPoolRecord \<Rightarrow> bytes \<Rightarrow> (nat \<times> nat) list \<Rightarrow>
    (nat \<Rightarrow> nat list) \<Rightarrow> bool" where
  "pool_move g bs p' m' bs' free' \<longleftrightarrow>
     pool_inv p' (read_bd m') 2 36876 bs' free' \<and> shape p' = shape (CDSPool g) \<and> clear_tail p' m' \<and>
     (\<forall>x. unat x < 36876 \<or> unat (PoolMaxOffset (CDSPool g)) \<le> unat x \<longrightarrow> m' x = CDSMemory g x) \<and>
     set bs \<subseteq> set bs' \<and> (\<forall>off i x. (off, i) \<in> set bs \<and> off \<le> unat x \<and> unat x < off + bsize (CDSPool g) i \<longrightarrow> m' x = CDSMemory g x)"

lemma pool_moveD:
  assumes "pool_move g bs p' m' bs' free'"
  shows "pool_inv p' (read_bd m') 2 36876 bs' free'" "shape p' = shape (CDSPool g)" "clear_tail p' m'" "PoolMaxOffset p' = PoolMaxOffset (CDSPool g)"
    "\<And>x. unat x < 36876 \<or> unat (PoolMaxOffset (CDSPool g)) \<le> unat x \<Longrightarrow> m' x = CDSMemory g x"
    "set bs \<subseteq> set bs'" "\<And>off i x. (off, i) \<in> set bs \<Longrightarrow> off \<le> unat x \<Longrightarrow> unat x < off + bsize (CDSPool g) i \<Longrightarrow> m' x = CDSMemory g x"
  using assms unfolding pool_move_def by (blast, blast, blast, auto simp: shape_def)

lemma pool_move_start: "cds_inv Cds g bs free \<Longrightarrow> pool_move g bs (CDSPool g) (CDSMemory g) bs free"
  using cds_invD(1,3) [of Cds g bs free] by (simp add: pool_move_def)

text \<open>A state in the middle of an operation, as a state of a run of the pool.\<close>

lemma move_run:
  assumes mv: "pool_move g bs p m bs1 free1" and g0: "CDSPool g0 = p" "CDSMemory g0 = m"
  shows "run_inv CDSMemory True (shape (CDSPool g)) 2 36876 bs1 free1 (run_of g0 bs1 free1)" "pool_inv (CDSPool g0) (read_bd (CDSMemory g0)) 2 36876 bs1 free1"
  using pool_moveD(1-3) [OF mv] g0 by (simp_all add: run_of_inv)

text \<open>The bytes of a block that is left alone.\<close>

lemma block_bytes_kept:
  assumes inv: "cds_inv Cds g bs free" and i: "i < 512" "used (Registry g ! i)"
    and same: "\<And>x. unat (BlockOffset (Registry g ! i)) \<le> unat x \<Longrightarrow>
      unat x < unat (BlockOffset (Registry g ! i)) + unat (RegBlockSize (Registry g ! i)) \<Longrightarrow> m' x = CDSMemory g x"
  shows "get_bytes (BlockOffset (Registry g ! i)) (unat (RegBlockSize (Registry g ! i))) m' =
    get_bytes (BlockOffset (Registry g ! i)) (unat (RegBlockSize (Registry g ! i))) (CDSMemory g)"
proof (rule get_bytes_cong)
  fix k assume k: "k < unat (RegBlockSize (Registry g ! i))"
  have "unat (BlockOffset (Registry g ! i)) + unat (RegBlockSize (Registry g ! i)) < 2 ^ 32" "(2 :: nat) ^ 32 < 2 ^ 64"
    using cds_block(5) [OF inv i] cds_invD(5,14) [OF inv] by (linarith, simp)
  then have "unat (BlockOffset (Registry g ! i)) + k < 2 ^ 64" using k by linarith
  note u = unat_offset [OF this]
  show "m' (BlockOffset (Registry g ! i) + of_nat k) = CDSMemory g (BlockOffset (Registry g ! i) + of_nat k)"
    by (rule same) (use k in \<open>simp_all only: u add_less_cancel_left le_add1\<close>)
qed

lemma move_kept:
  assumes inv: "cds_inv Cds g bs free" and mv: "pool_move g bs p' m' bs' free'" and same: "\<And>x. 36876 \<le> unat x \<Longrightarrow> m2 x = m' x"
    and i: "i < 512" "used (Registry g ! i)"
  shows "get_bytes (BlockOffset (Registry g ! i)) (unat (RegBlockSize (Registry g ! i))) m2 =
    get_bytes (BlockOffset (Registry g ! i)) (unat (RegBlockSize (Registry g ! i))) (CDSMemory g)"
proof (rule block_bytes_kept [OF inv i])
  obtain j where j: "(unat (BlockOffset (Registry g ! i)), j) \<in> set bs" "unat (RegBlockSize (Registry g ! i)) \<le> bsize (CDSPool g) j"
    using cds_block(1) [OF inv i] by blast
  fix x :: u64
  assume x: "unat (BlockOffset (Registry g ! i)) \<le> unat x" "unat x < unat (BlockOffset (Registry g ! i)) + unat (RegBlockSize (Registry g ! i))"
  have "m2 x = m' x" using x(1) cds_block(4) [OF inv i] by (intro same) simp
  also have "m' x = CDSMemory g x" using pool_moveD(7) [OF mv j(1) x(1)] x(2) j(2) by simp
  finally show "m2 x = CDSMemory g x" .
qed

text \<open>The registry written after the pool has changed: the invariant holds again.\<close>

lemma registry_saved:
  assumes inv: "cds_inv Cds g bs free" and mv: "pool_move g bs p' m' bs' free'"
    and reg: "reg_ok rs (granted (read_bd m') bs' free')"
    and g': "CDSPool g' = p'" "TotalSize g' = TotalSize g" "DataSize g' = DataSize g" "Registry g' = rs" "CDSMemory g' = put_bytes 12 (encode_Registry rs) m'"
      "CFE_ResourceId_GetBase (LastCDSBlockId g') = CFE_ES_CDSBLOCKID_BASE"
  shows "cds_inv Cds g' bs' free'" "\<And>x. 36876 \<le> unat x \<Longrightarrow> CDSMemory g' x = m' x"
proof -
  note D = cds_invD [OF inv] and pool = pool_moveD(1-3) [OF mv] and out = pool_moveD(5) [OF mv] and w = registry_written [OF reg_okD(2,1) [OF reg], where m = m']
  show same: "\<And>x. 36876 \<le> unat x \<Longrightarrow> CDSMemory g' x = m' x" using w(1) g'(5) by simp
  have d: "desc (read_bd (CDSMemory g')) off = desc (read_bd m') off" if b: "(off, i) \<in> set bs'" for off i
    unfolding desc_def
  proof (rule read_bd_cong)
    fix x assume "in_desc (of_nat off - 24) x"
    then show "CDSMemory g' x = m' x" using desc_place [OF pool(1) b] block_range(1) [OF pool(1) b] by (intro same) auto
  qed
  have pc: "pool_inv p' (read_bd (CDSMemory g')) 2 36876 bs' free'" "granted (read_bd (CDSMemory g')) bs' free' = granted (read_bd m') bs' free'"
    by (rule pool_inv_cong [OF pool(1)], erule d)+
  have tail: "36876 \<le> unat (TailPosition p')" using laid_bounds(1) [OF pool_invD(2) [OF pool(1)]] by simp
  have "clear_tail p' (CDSMemory g')" using pool(3) same tail unfolding clear_tail_def by fastforce
  moreover have "stored_ok (TotalSize g) (Registry g) m'"
    by (rule stored_ok_cong [OF D(15) _ D(9)]) (use D(5,7) in \<open>auto intro: out\<close>)
  then have "stored_ok (TotalSize g) rs (CDSMemory g')" unfolding g'(5) using D(7,15) by (intro w(2)) simp_all
  ultimately show "cds_inv Cds g' bs' free'"
    using pool(2) reg pc g' by (intro cds_invI [OF inv]) simp_all
qed

text \<open>One entry changed and saved: the abstract map changes for the handle of that entry.\<close>

lemma entry_saved:
  assumes inv: "cds_inv Cds g bs free" and mv: "pool_move g bs p' m' bs' free'" and i: "i < 512"
    and reg: "reg_ok ((Registry g)[i := r]) (granted (read_bd m') bs' free')"
    and g': "CDSPool g' = p'" "TotalSize g' = TotalSize g" "DataSize g' = DataSize g" "Registry g' = (Registry g)[i := r]"
      "CDSMemory g' = put_bytes 12 (encode_Registry ((Registry g)[i := r])) m'" "CFE_ResourceId_GetBase (LastCDSBlockId g') = CFE_ES_CDSBLOCKID_BASE"
  shows "cds_inv Cds g' bs' free'"
    and "used r \<Longrightarrow> (used (Registry g ! i) \<Longrightarrow> BlockID (Registry g ! i) = BlockID r) \<Longrightarrow>
      cds_blocks g' = (cds_blocks g)(BlockID r \<mapsto> (cstring (RegName r), RegTable r, get_bytes (BlockOffset r) (unat (RegBlockSize r)) (CDSMemory g')))"
    and "used (Registry g ! i) \<Longrightarrow> \<not> used r \<Longrightarrow> cds_blocks g' = (cds_blocks g)(BlockID (Registry g ! i) := None)"
proof -
  note D = cds_invD [OF inv] and res = registry_saved [OF inv mv reg g']
  show "cds_inv Cds g' bs' free'" by (rule res(1))
  note ch = cds_blocks_change [OF i D(10) g'(4) move_kept [OF inv mv res(2)]]
  have nz: "K \<noteq> 0" if "CFE_ES_LocateCDSBlockRecordByID K = Some i" for K using that Locate_cds_undefined by auto
  have old: "cds_blocks g K = None" if "CFE_ES_LocateCDSBlockRecordByID K = Some i" "used (Registry g ! i) \<Longrightarrow> BlockID (Registry g ! i) \<noteq> K" for K
    using that nz by (auto simp: cds_blocks_None CFE_ES_CDSBlockRecordIsMatch_def CFE_ES_CDSBlockRecordIsUsed_def)
  show "cds_blocks g' = (cds_blocks g)(BlockID r \<mapsto> (cstring (RegName r), RegTable r, get_bytes (BlockOffset r) (unat (RegBlockSize r)) (CDSMemory g')))"
    if u: "used r" and same: "used (Registry g ! i) \<Longrightarrow> BlockID (Registry g ! i) = BlockID r"
  proof
    fix K
    have "CFE_ES_LocateCDSBlockRecordByID (BlockID r) = Some i" using reg_okD(3) [OF reg i] u i D(10) by simp
    then show "cds_blocks g' K = ((cds_blocks g)(BlockID r \<mapsto> (cstring (RegName r), RegTable r, get_bytes (BlockOffset r) (unat (RegBlockSize r)) (CDSMemory g')))) K"
      using ch [of K] old [of K] same by auto
  qed
  show "cds_blocks g' = (cds_blocks g)(BlockID (Registry g ! i) := None)" if u: "used (Registry g ! i)" "\<not> used r"
  proof
    fix K
    have "CFE_ES_LocateCDSBlockRecordByID (BlockID (Registry g ! i)) = Some i" using reg_okD(3) [OF D(8) i u(1)] .
    moreover have "CFE_ES_LocateCDSBlockRecordByID K = Some i \<Longrightarrow> BlockID r \<noteq> K" using nz u(2) by (auto simp: CFE_ES_CDSBlockRecordIsUsed_def)
    ultimately show "cds_blocks g' K = ((cds_blocks g)(BlockID (Registry g ! i) := None)) K" using ch [of K] old [of K] by auto
  qed
qed

section \<open>Registering\<close>

interpretation cds_ids: resource_table "0x150000" 512 "CFE_ES_CheckCDSHandleSlotUsed g" "\<lambda>i. used (Registry g ! unat i)" for g
proof
  fix i x idx
  assume "CFE_ResourceId_ToIndex i 0x150000 512 (Some x) = (CFE_SUCCESS, Some idx)"
  then show "CFE_ES_CheckCDSHandleSlotUsed g i = used (Registry g ! unat idx)"
    by (auto simp: CFE_ES_CheckCDSHandleSlotUsed_def CFE_ES_LocateCDSBlockRecordByID_def CFE_ES_CDSHandle_ToIndex_def
        CFE_ResourceId_ToIndex_def Let_def split: if_splits)
qed simp_all

text \<open>A name that is not registered gets an entry that is free.\<close>

lemma cds_reserve_new:
  assumes base: "CFE_ResourceId_GetBase (LastCDSBlockId g) = CFE_ES_CDSBLOCKID_BASE" and free: "i0 < 512" "\<not> used (Registry g ! i0)"
    and name: "CFE_ES_LocateCDSBlockRecordByName g Name = NULL"
  shows "\<exists>i H. cds_reserve Name g = ((upd_reg i (\<lambda>_. zero_RegRec) g)\<lparr>LastCDSBlockId := H\<rparr>, CFE_SUCCESS, Some i, H, True) \<and>
    i < 512 \<and> \<not> used (Registry g ! i) \<and> CFE_ES_LocateCDSBlockRecordByID H = Some i \<and> CFE_ResourceId_GetBase H = CFE_ES_CDSBLOCKID_BASE"
proof -
  define H where "H = CFE_ResourceId_FindNext (LastCDSBlockId g) 512 (CFE_ES_CheckCDSHandleSlotUsed g)"
  have f: "(of_nat i0 :: u32) < 512" "\<not> used (Registry g ! unat (of_nat i0 :: u32))"
    using free by (simp_all add: word_less_nat_alt unat_of_nat)
  obtain i where i: "\<not> used (Registry g ! unat i)" "CFE_ResourceId_GetBase H = 0x150000"
    "CFE_ResourceId_ToIndex H 0x150000 512 (Some 0) = (CFE_SUCCESS, Some i)"
    using cds_ids.FindNext_free [OF base f, of 0, folded H_def] by blast
  then have loc: "CFE_ES_LocateCDSBlockRecordByID H = Some (unat i)"
    by (simp add: CFE_ES_LocateCDSBlockRecordByID_def CFE_ES_CDSHandle_ToIndex_def)
  then show ?thesis using i Locate_cds_lt [OF loc] name
    by (intro exI [of _ "unat i"] exI [of _ H]) (simp add: cds_reserve_def Let_def H_def [symmetric])
qed

lemma cds_reserve_full:
  assumes base: "CFE_ResourceId_GetBase (LastCDSBlockId g) = CFE_ES_CDSBLOCKID_BASE" and full: "\<And>i. i < 512 \<Longrightarrow> used (Registry g ! i)"
    and name: "CFE_ES_LocateCDSBlockRecordByName g Name = NULL"
  shows "cds_reserve Name g = (g, CFE_ES_NO_RESOURCE_IDS_AVAILABLE, NULL, CFE_RESOURCEID_UNDEFINED, False)"
proof -
  have "CFE_ResourceId_FindNext (LastCDSBlockId g) 512 (CFE_ES_CheckCDSHandleSlotUsed g) = 0"
    by (rule cds_ids.FindNext_none [OF base]) (simp add: full word_less_nat_alt)
  then show ?thesis using name by (simp add: cds_reserve_def Locate_cds_undefined)
qed

text \<open>The size of a block with its check value.\<close>

lemma block_size_add:
  assumes "0 < n" "n \<le> CDS_ABS_MAX_BLOCK_SIZE"
  shows "unat (n + 4) = unat n + 4" "4 < unat (n + 4)" "unat (n + 4) < 2 ^ 32"
proof -
  have n: "0 < unat n" "unat n \<le> 0x3FFFFFFC" using assms by (simp_all add: word_less_nat_alt word_le_nat_alt)
  then show u: "unat (n + 4) = unat n + 4" by (simp add: unat_word_ariths)
  show "4 < unat (n + 4)" "unat (n + 4) < 2 ^ 32" using n u by simp_all
qed

lemma move_bsize:
  assumes "shape p' = shape p" "pool_inv p' d k start bs free" "(off, i) \<in> set bs"
  shows "bsize p' i = bsize p i"
  using shape_fields(4) [OF assms(1) [symmetric], of i] pool_invD(4) [OF assms(2,3)] pool_invD(8,9) [OF assms(2)] by (simp add: block_ok_def)

lemma cds_get_block:
  assumes inv: "cds_inv Cds g bs free" and mv: "pool_move g bs p m bs1 free1" and fit: "fits p N j" "room p free1 j"
    and g0: "CDSPool g0 = p" "CDSMemory g0 = m"
  shows "\<exists>p' m' off bs' free'. CFE_ES_GenPoolGetBlock (cds_storage Cds) 0 N (p, g0) = ((p', m'), CFE_SUCCESS, off) \<and> same_ram g0 m' \<and>
    pool_move g bs p' (CDSMemory m') bs' free' \<and>
    granted (read_bd (CDSMemory m')) bs' free' = (granted (read_bd m) bs1 free1)(unat off \<mapsto> N) \<and> granted (read_bd m) bs1 free1 (unat off) = None"
proof -
  note run = move_run [OF mv g0] and M = pool_moveD [OF mv]
  have lim: "unat (PoolMaxOffset (CDSPool g0)) \<le> unat Cds" using cds_invD(13) [OF inv] M(4) g0 by simp
  obtain p' m' off where call: "CFE_ES_GenPoolGetBlock (cds_storage Cds) 0 N (CDSPool g0, g0) = ((p', m'), CFE_SUCCESS, off)"
    using cds.get_block_succeeds [OF run(2) lim, of N j 0] fit g0 by (metis prod.collapse)
  obtain i where h: "hands_out (CDSPool g0) (read_bd (CDSMemory g0)) bs1 free1 2 36876 N i off p' (read_bd (CDSMemory m'))"
    using cds.get_block [OF run(2) call] by blast
  obtain bs' free' where n: "pool_inv p' (read_bd (CDSMemory m')) 2 36876 bs' free'" "in_use bs' free' = insert (unat off, i) (in_use bs1 free1)"
    "granted (read_bd (CDSMemory m')) bs' free' = (granted (read_bd m) bs1 free1)(unat off \<mapsto> N)" "(unat off, i) \<notin> in_use bs1 free1" "set bs1 \<subseteq> set bs'"
    using h g0 unfolding hands_out_def by auto
  have b: "(unat off, i) \<in> set bs'" using n(2) by (metis in_use_iff insertI1)
  have sh: "shape p' = shape (CDSPool g)" using get_shape [of "cds_storage Cds" 0 N "CDSPool g0" g0] call g0(1) M(2) by simp
  then have mx: "PoolMaxOffset p' = PoolMaxOffset (CDSPool g)" by (simp add: shape_def)
  have "\<exists>bs2 free2. run_inv CDSMemory True (shape (CDSPool g)) 2 36876 bs2 free2
      ((run_of g0 bs1 free1)\<lparr>RunPool := p', RunStore := m', Held := (Held (run_of g0 bs1 free1))(unat off \<mapsto> N), Seen := insert (unat off) (Seen (run_of g0 bs1 free1))\<rparr>)"
    by (rule cds.get_step [OF run(1)]) (use call in \<open>simp add: run_of_def\<close>)
  then have clear: "clear_tail p' (CDSMemory m')" by (auto simp: run_inv_def)
  have none: "granted (read_bd m) bs1 free1 (unat off) = None"
  proof (rule ccontr)
    assume "granted (read_bd m) bs1 free1 (unat off) \<noteq> None"
    then obtain l where "(unat off, l) \<in> in_use bs1 free1" "(unat off, l) \<in> set bs1" using held_block [OF M(1)] by blast
    then show False using n(4,5) same_block [OF n(1) b] by blast
  qed
  have out: "CDSMemory m' x = CDSMemory g x" if "unat x < 36876 \<or> unat (PoolMaxOffset (CDSPool g)) \<le> unat x" for x
  proof -
    have "\<not> in_desc (off - 24) x"
      using desc_place [OF n(1) b, of x] block_range(1,3) [OF n(1) b] pool_invD(3) [OF n(1)] that mx by auto
    then show ?thesis using cds.get_frame [OF run(2) call] g0(2) M(5) [OF that] by simp
  qed
  have kept: "CDSMemory m' x = CDSMemory g x" if x: "(o', l) \<in> set bs" "o' \<le> unat x" "unat x < o' + bsize (CDSPool g) l" for o' l x
  proof -
    have "(o', l) \<in> set bs'" using x(1) M(6) n(5) by blast
    then have "\<not> in_desc (off - 24) x" using data_place [OF n(1) _ b, of o' l x] x(2,3) move_bsize [OF sh n(1)] by simp
    then show ?thesis using cds.get_frame [OF run(2) call] g0(2) M(7) [OF x] by simp
  qed
  have "pool_move g bs p' (CDSMemory m') bs' free'" unfolding pool_move_def using n(1,5) M(6) sh clear out kept by blast
  moreover have "same_ram g0 m'" using cds_frame.get_rel [of g0 Cds 0 N "CDSPool g0"] call by simp
  ultimately show ?thesis using call n(3) none g0(1) by blast
qed

lemma cds_put_block:
  assumes inv: "cds_inv Cds g bs free" and i: "i < 512" "used (Registry g ! i)"
  defines "off \<equiv> BlockOffset (Registry g ! i)"
  shows "\<exists>p' m' free'. CFE_ES_GenPoolPutBlock (cds_storage Cds) 0 off (CDSPool g, g) = ((p', m'), CFE_SUCCESS, RegBlockSize (Registry g ! i)) \<and>
    same_ram g m' \<and> pool_move g bs p' (CDSMemory m') bs free' \<and>
    granted (read_bd (CDSMemory m')) bs free' = (cds_held g bs free)(unat off := None) \<and>
    (\<forall>N j. fits p' N j \<and> room p' free' j \<longleftrightarrow> fits (CDSPool g) N j \<and> (room (CDSPool g) free j \<or> (unat off, j) \<in> in_use bs free))"
proof -
  note D = cds_invD [OF inv] and b = cds_block [OF inv i, folded off_def]
  obtain j where j: "(unat off, j) \<in> in_use bs free" "(unat off, j) \<in> set bs" using b(1) by blast
  have sz: "ActualSize (desc (read_bd (CDSMemory g)) (unat off)) = RegBlockSize (Registry g ! i)"
    using b(2) by (simp add: granted_def split: if_splits)
  then have nz: "ActualSize (desc (read_bd (CDSMemory g)) (unat off)) \<noteq> 0" using b(3) by auto
  obtain p' m' st n where c: "CFE_ES_GenPoolPutBlock (cds_storage Cds) 0 (of_nat (unat off)) (CDSPool g, g) = ((p', m'), st, n)" by (metis prod.collapse)
  have st: "st = CFE_SUCCESS" using cds.put_block_succeeds [OF D(1,13) j(1) nz, of 0] c by simp
  note call = c [unfolded st]
  let ?free = "free(j := unat off # free j)"
  have n: "n = RegBlockSize (Registry g ! i)" "pool_inv p' (read_bd (CDSMemory m')) 2 36876 bs ?free"
    "granted (read_bd (CDSMemory m')) bs ?free = (cds_held g bs free)(unat off := None)"
    using cds.put_block [OF D(1) j(1) nz call] sz by simp_all
  have sh: "shape p' = shape (CDSPool g)" using put_shape [of "cds_storage Cds" 0 "of_nat (unat off)" "CDSPool g" g] call by simp
  have frame: "CDSMemory m' x = CDSMemory g x" if "\<not> in_desc (of_nat (unat off) - 24) x" for x
    by (rule cds.put_frame [OF block_near [OF D(1) j(2)] call that])
  have "clear_tail p' (CDSMemory m')"
    using cds.put_clear [OF D(4) j(2) TrueI, of Cds 0 p' m' CFE_SUCCESS n] call by (simp add: run_of_def)
  moreover have "CDSMemory m' x = CDSMemory g x" if "unat x < 36876 \<or> unat (PoolMaxOffset (CDSPool g)) \<le> unat x" for x
    using desc_place [OF D(1) j(2), of x] block_range(1,3) [OF D(1) j(2)] pool_invD(3) [OF D(1)] that by (intro frame) auto
  moreover have "CDSMemory m' x = CDSMemory g x" if "(o', l) \<in> set bs" "o' \<le> unat x" "unat x < o' + bsize (CDSPool g) l" for o' l x
    using data_place [OF D(1) that(1) j(2) that(2,3)] by (rule frame)
  ultimately have "pool_move g bs p' (CDSMemory m') bs ?free" unfolding pool_move_def using n(2) sh by blast
  moreover have "same_ram g m'" using cds_frame.put_rel [of g Cds 0 "of_nat (unat off)" "CDSPool g"] call by simp
  moreover have "fits p' N l \<and> room p' ?free l \<longleftrightarrow> fits (CDSPool g) N l \<and> (room (CDSPool g) free l \<or> (unat off, l) \<in> in_use bs free)" for N l
  proof -
    have t: "TailPosition p' = TailPosition (CDSPool g)" using put_tail [of "cds_storage Cds" 0 "of_nat (unat off)" "CDSPool g" g] call by simp
    note f = shape_fields [OF sh] pool_invD(8,9) [OF D(1)]
    have fit: "fits p' N l \<longleftrightarrow> fits (CDSPool g) N l" using f by (auto simp: fits_def)
    have nx: "next_block p' = next_block (CDSPool g)" using t sh by (simp add: next_block_def shape_def)
    have "(unat off, l) \<in> in_use bs free \<longleftrightarrow> l = j" using j(1) same_block [OF D(1) j(2), of l] by (metis in_use_iff)
    moreover have "room p' ?free l \<longleftrightarrow> room (CDSPool g) free l \<or> l = j" if "fits (CDSPool g) N l"
      using that f nx by (auto simp: room_def fits_def)
    ultimately have "room p' ?free l \<longleftrightarrow> room (CDSPool g) free l \<or> (unat off, l) \<in> in_use bs free" if "fits (CDSPool g) N l" using that by simp
    then show ?thesis using fit by blast
  qed
  moreover have "CFE_ES_GenPoolPutBlock (cds_storage Cds) 0 off (CDSPool g, g) = ((p', m'), CFE_SUCCESS, RegBlockSize (Registry g ! i))"
    using call n(1) by simp
  ultimately show ?thesis using n(3) by (intro exI [of _ p'] exI [of _ m'] exI [of _ ?free] conjI allI)
qed

text \<open>Names and free entries, seen from the abstract map.\<close>

lemma name_free:
  assumes "reg_ok (Registry g) held"
  shows "CFE_ES_LocateCDSBlockRecordByName g Name = NULL \<longleftrightarrow> (\<forall>H t b. cds_blocks g H \<noteq> Some (Name, t, b))"
proof
  assume n: "CFE_ES_LocateCDSBlockRecordByName g Name = NULL"
  show "\<forall>H t b. cds_blocks g H \<noteq> Some (Name, t, b)"
  proof (intro allI notI)
    fix H t b assume "cds_blocks g H = Some (Name, t, b)"
    from cds_blocks_Some [OF this] obtain i where "i < 512" "used (Registry g ! i)" "cstring (RegName (Registry g ! i)) = Name" by blast
    then show False using n reg_okD(1) [OF assms] by (auto simp: CFE_ES_LocateCDSBlockRecordByName_def find_named_None)
  qed
next
  assume no: "\<forall>H t b. cds_blocks g H \<noteq> Some (Name, t, b)"
  show "CFE_ES_LocateCDSBlockRecordByName g Name = NULL"
    unfolding CFE_ES_LocateCDSBlockRecordByName_def find_named_None
  proof (intro allI impI notI)
    fix i assume i: "i < length (Registry g)" "used (Registry g ! i)" "cstring (RegName (Registry g ! i)) = Name"
    then have "CFE_ES_LocateCDSBlockRecordByID (BlockID (Registry g ! i)) = Some i" using reg_okD(1,3) [OF assms] by simp
    then show False using no i(3) cds_blocks_entry by blast
  qed
qed

lemma name_taken:
  assumes "reg_ok (Registry g) held" and h: "cds_blocks g H = Some (Name, t, b)"
  shows "\<exists>i < 512. CFE_ES_LocateCDSBlockRecordByName g Name = Some i \<and> used (Registry g ! i) \<and> BlockID (Registry g ! i) = H \<and>
    t = RegTable (Registry g ! i) \<and> length b = unat (RegBlockSize (Registry g ! i)) \<and> CFE_ES_LocateCDSBlockRecordByID H = Some i \<and>
    cstring (RegName (Registry g ! i)) = Name"
proof -
  note D = reg_okD [OF assms(1)]
  obtain i where i: "CFE_ES_LocateCDSBlockRecordByID H = Some i" "i < 512" "used (Registry g ! i)" "BlockID (Registry g ! i) = H"
    "Name = cstring (RegName (Registry g ! i))" "t = RegTable (Registry g ! i)"
    "b = get_bytes (BlockOffset (Registry g ! i)) (unat (RegBlockSize (Registry g ! i))) (CDSMemory g)" using cds_blocks_Some [OF h] by blast
  have "CFE_ES_LocateCDSBlockRecordByName g Name = Some i"
    unfolding CFE_ES_LocateCDSBlockRecordByName_def
  proof (rule find_named_unique)
    fix j assume j: "j < length (Registry g)" "used (Registry g ! j)" "cstring (RegName (Registry g ! j)) = Name"
    show "j = i"
    proof (rule ccontr)
      assume "j \<noteq> i"
      from D(7) [OF _ i(2) j(2) i(3) this] show False using j i(5) D(1) by simp
    qed
  qed (use i D(1) in simp_all)
  then show ?thesis using i by (intro exI [of _ i]) simp
qed

lemma entry_free:
  assumes "reg_ok (Registry g) held"
  shows "(\<exists>i < 512. \<not> used (Registry g ! i)) \<longleftrightarrow> card (dom (cds_blocks g)) < 512"
proof -
  note D = reg_okD [OF assms]
  let ?U = "{i. i < 512 \<and> used (Registry g ! i)}" and ?id = "\<lambda>i. BlockID (Registry g ! i)"
  have inj: "inj_on ?id ?U"
  proof (rule inj_onI)
    fix i j assume i: "i \<in> ?U" and j: "j \<in> ?U" and ij: "?id i = ?id j"
    have "CFE_ES_LocateCDSBlockRecordByID (?id i) = Some i" "CFE_ES_LocateCDSBlockRecordByID (?id j) = Some j" using D(3) i j by blast+
    then show "i = j" unfolding ij by simp
  qed
  have im: "?id ` ?U = dom (cds_blocks g)"
  proof
    show "?id ` ?U \<subseteq> dom (cds_blocks g)"
    proof
      fix H assume "H \<in> ?id ` ?U"
      then obtain i where i: "i < 512" "used (Registry g ! i)" "H = ?id i" by blast
      show "H \<in> dom (cds_blocks g)" unfolding i(3) using cds_blocks_entry [OF D(3) [OF i(1,2)] refl] by (rule domI)
    qed
    show "dom (cds_blocks g) \<subseteq> ?id ` ?U"
    proof
      fix H assume "H \<in> dom (cds_blocks g)"
      then obtain n t b where "cds_blocks g H = Some (n, t, b)" by (auto simp: dom_def)
      from cds_blocks_Some [OF this] show "H \<in> ?id ` ?U" by blast
    qed
  qed
  have c: "card (dom (cds_blocks g)) = card ?U" unfolding im [symmetric] by (rule card_image [OF inj])
  show ?thesis
  proof
    assume "\<exists>i < 512. \<not> used (Registry g ! i)"
    then have "?U \<subset> {..< 512}" by auto
    then show "card (dom (cds_blocks g)) < 512" using psubset_card_mono [of "{..< 512 :: nat}" ?U] c by simp
  next
    assume lt: "card (dom (cds_blocks g)) < 512"
    show "\<exists>i < 512. \<not> used (Registry g ! i)"
    proof (rule ccontr)
      assume "\<not> (\<exists>i < 512. \<not> used (Registry g ! i))"
      then have "?U = {..< 512}" by auto
      then show False using lt c by simp
    qed
  qed
qed

text \<open>A new name: it gets a handle that was not in use and a block; the other blocks stay as they are.\<close>

lemma register_new:
  assumes inv: "cds_inv Cds g bs free" and n: "0 < n" "n \<le> CDS_ABS_MAX_BLOCK_SIZE" and name: "length Name < 40" "CHR 0x00 \<notin> set Name"
    and new: "\<forall>H t b. cds_blocks g H \<noteq> Some (Name, t, b)" and entry: "card (dom (cds_blocks g)) < 512"
    and fit: "fits (CDSPool g) (n + 4) j" "room (CDSPool g) free j"
  shows "\<exists>g' H b bs' free'. CFE_ES_RegisterCDSEx Cds n Name tbl Handle g = (g', CFE_SUCCESS, H) \<and> cds_inv Cds g' bs' free' \<and>
    cds_blocks g H = None \<and> length b = unat n + 4 \<and> cds_blocks g' = (cds_blocks g)(H \<mapsto> (Name, tbl, b))"
proof -
  note D = cds_invD [OF inv] and sz = block_size_add [OF n]
  obtain i0 where i0: "i0 < 512" "\<not> used (Registry g ! i0)" using entry entry_free [OF D(8)] by blast
  have none: "CFE_ES_LocateCDSBlockRecordByName g Name = NULL" using new name_free [OF D(8)] by blast
  obtain i H where i: "cds_reserve Name g = ((upd_reg i (\<lambda>_. zero_RegRec) g)\<lparr>LastCDSBlockId := H\<rparr>, CFE_SUCCESS, Some i, H, True)"
    "i < 512" "\<not> used (Registry g ! i)" "CFE_ES_LocateCDSBlockRecordByID H = Some i" "CFE_ResourceId_GetBase H = CFE_ES_CDSBLOCKID_BASE"
    using cds_reserve_new [OF D(16) i0 none] by blast
  define g0 where "g0 = (upd_reg i (\<lambda>_. zero_RegRec) g)\<lparr>LastCDSBlockId := H\<rparr>"
  have g0: "CDSPool g0 = CDSPool g" "CDSMemory g0 = CDSMemory g" "Registry g0 = (Registry g)[i := zero_RegRec]" "LastCDSBlockId g0 = H"
    "TotalSize g0 = TotalSize g" "DataSize g0 = DataSize g" by (simp_all add: g0_def upd_reg_def)
  obtain p' m' off bs' free' where call: "CFE_ES_GenPoolGetBlock (cds_storage Cds) 0 (n + 4) (CDSPool g0, g0) = ((p', m'), CFE_SUCCESS, off)" "same_ram g0 m'"
    and mv: "pool_move g bs p' (CDSMemory m') bs' free'"
    and held: "granted (read_bd (CDSMemory m')) bs' free' = (cds_held g bs free)(unat off \<mapsto> n + 4)" "cds_held g bs free (unat off) = None"
    using cds_get_block [OF inv pool_move_start [OF inv] fit g0(1,2)] g0(1) by auto
  define r where "r = \<lparr>BlockID = H, BlockOffset = off, RegBlockSize = n + 4, RegName = copy_name 40 Name (replicate 40 (CHR 0x00)), RegTable = tbl\<rparr>"
  have r: "BlockID r = H" "BlockOffset r = off" "RegBlockSize r = n + 4" "RegTable r = tbl" "length (RegName r) = 40" by (simp_all add: r_def)
  have rn: "cstring (RegName r) = Name" using copy_name_cstring [of 40 Name] name by (simp add: r_def)
  have Hne: "H \<noteq> 0" using i(4) Locate_cds_undefined by auto
  let ?rs = "(Registry g)[i := r]"
  define g' where "g' = m'\<lparr>CDSPool := p', Registry := ?rs, CDSMemory := put_bytes 12 (encode_Registry ?rs) (CDSMemory m')\<rparr>"
  have reg: "reg_ok ?rs (granted (read_bd (CDSMemory m')) bs' free')"
    unfolding held(1) r(2,3) [symmetric]
  proof (rule reg_ok_add [OF D(8) i(2,3)])
    show "cstring (RegName (Registry g ! j)) \<noteq> cstring (RegName r)" if "j < 512" "used (Registry g ! j)" for j
      using none that D(10) rn by (auto simp: CFE_ES_LocateCDSBlockRecordByName_def find_named_None)
  qed (use i(4) r sz(2) held(2) Hne in \<open>simp_all add: CFE_ES_CDSBlockRecordIsUsed_def\<close>)
  have ev: "CFE_ES_RegisterCDSEx Cds n Name tbl Handle g = (g', CFE_SUCCESS, H)"
  proof -
    have z: "Registry g0 ! i = zero_RegRec" using g0(3) i(2) D(10) by simp
    have "cds_free_old Cds i (n + 4) g0 = (g0, CFE_SUCCESS)" by (simp add: cds_free_old_def z zero_RegRec_def)
    then have a: "cds_allocate Cds i (n + 4) (cds_free_old Cds i (n + 4) g0) =
        (upd_reg i (\<lambda>r. r\<lparr>BlockOffset := off, RegBlockSize := n + 4\<rparr>) (m'\<lparr>CDSPool := p'\<rparr>), CFE_SUCCESS, True)"
      using z call(1) by (simp add: cds_allocate_def run_cds_def zero_RegRec_def)
    have mi: "Registry m' ! i = zero_RegRec" "length (Registry m') = 512" "(Registry m')[i := r] = ?rs"
      using call(2) z D(10) g0(3) by (simp_all add: same_ram_def)
    let ?g2 = "m'\<lparr>CDSPool := p', Registry := ?rs\<rparr>"
    have "CFE_ES_UpdateCDSRegistry Cds ?g2 = (g', CFE_SUCCESS)"
      using UpdateCDSRegistry [of ?g2 Cds] reg_okD(1,2) [OF reg] D(6,7) by (simp add: g'_def)
    moreover have "CFE_ES_CDSBlockRecordSetUsed i H (upd_reg i (\<lambda>r. r\<lparr>RegName := copy_name 40 Name (RegName r)\<rparr>)
        (upd_reg i (\<lambda>r. r\<lparr>RegTable := tbl\<rparr>) (upd_reg i (\<lambda>r. r\<lparr>BlockOffset := off, RegBlockSize := n + 4\<rparr>) (m'\<lparr>CDSPool := p'\<rparr>)))) = ?g2"
      using mi i(2) by (simp add: CFE_ES_CDSBlockRecordSetUsed_def upd_reg_def zero_RegRec_def r_def)
    moreover have "n \<noteq> 0" "\<not> CDS_ABS_MAX_BLOCK_SIZE < n" using n by auto
    ultimately show ?thesis using i(1) a by (simp add: CFE_ES_RegisterCDSEx_def g0_def [symmetric])
  qed
  have "TotalSize g' = TotalSize g" "DataSize g' = DataSize g" "LastCDSBlockId g' = H"
    using call(2) g0 by (simp_all add: g'_def same_ram_def)
  note res = entry_saved [OF inv mv i(2) reg, of g']
  have inv': "cds_inv Cds g' bs' free'" by (rule res(1)) (use \<open>LastCDSBlockId g' = H\<close> i(5) \<open>TotalSize g' = TotalSize g\<close> \<open>DataSize g' = DataSize g\<close> in \<open>simp_all add: g'_def\<close>)
  have "cds_blocks g' = (cds_blocks g)(H \<mapsto> (Name, tbl, get_bytes off (unat (n + 4)) (CDSMemory g')))"
    using res(2) Hne r rn i(3,5) \<open>TotalSize g' = TotalSize g\<close> \<open>DataSize g' = DataSize g\<close> \<open>LastCDSBlockId g' = H\<close> by (simp add: g'_def CFE_ES_CDSBlockRecordIsUsed_def)
  moreover have "cds_blocks g H = None"
    using i(3,4) Hne by (auto simp: cds_blocks_None CFE_ES_CDSBlockRecordIsMatch_def CFE_ES_CDSBlockRecordIsUsed_def)
  ultimately show ?thesis
    using ev inv' sz(1) by (intro exI [of _ g'] exI [of _ H] exI [of _ "get_bytes off (unat (n + 4)) (CDSMemory g')"]) auto
qed

text \<open>Requests that are refused leave the blocks as they are.\<close>

lemma register_bad_size:
  "n = 0 \<or> CDS_ABS_MAX_BLOCK_SIZE < n \<Longrightarrow> CFE_ES_RegisterCDSEx Cds n Name tbl Handle g = (g, CFE_ES_CDS_INVALID_SIZE, Handle)"
  by (auto simp: CFE_ES_RegisterCDSEx_def)

lemma register_full:
  assumes inv: "cds_inv Cds g bs free" and n: "0 < n" "n \<le> CDS_ABS_MAX_BLOCK_SIZE"
    and new: "\<forall>H t b. cds_blocks g H \<noteq> Some (Name, t, b)" and full: "512 \<le> card (dom (cds_blocks g))"
  shows "CFE_ES_RegisterCDSEx Cds n Name tbl Handle g = (g, CFE_ES_NO_RESOURCE_IDS_AVAILABLE, CFE_RESOURCEID_UNDEFINED)"
proof -
  note D = cds_invD [OF inv]
  have none: "CFE_ES_LocateCDSBlockRecordByName g Name = NULL" using new name_free [OF D(8)] by blast
  have "used (Registry g ! i)" if "i < 512" for i using full entry_free [OF D(8)] that by auto
  from cds_reserve_full [OF D(16) this none] show ?thesis using n by (auto simp: CFE_ES_RegisterCDSEx_def)
qed

lemma register_no_room:
  assumes inv: "cds_inv Cds g bs free" and n: "0 < n" "n \<le> CDS_ABS_MAX_BLOCK_SIZE"
    and new: "\<forall>H t b. cds_blocks g H \<noteq> Some (Name, t, b)" and entry: "card (dom (cds_blocks g)) < 512"
    and no: "\<And>j. fits (CDSPool g) (n + 4) j \<Longrightarrow> \<not> room (CDSPool g) free j"
  shows "\<exists>g' H. CFE_ES_RegisterCDSEx Cds n Name tbl Handle g = (g', CFE_ES_ERR_MEM_BLOCK_SIZE, H) \<and> cds_inv Cds g' bs free \<and> cds_blocks g' = cds_blocks g"
proof -
  note D = cds_invD [OF inv]
  obtain i0 where i0: "i0 < 512" "\<not> used (Registry g ! i0)" using entry entry_free [OF D(8)] by blast
  have none: "CFE_ES_LocateCDSBlockRecordByName g Name = NULL" using new name_free [OF D(8)] by blast
  obtain i H where i: "cds_reserve Name g = ((upd_reg i (\<lambda>_. zero_RegRec) g)\<lparr>LastCDSBlockId := H\<rparr>, CFE_SUCCESS, Some i, H, True)"
    "i < 512" "\<not> used (Registry g ! i)" "CFE_ES_LocateCDSBlockRecordByID H = Some i" "CFE_ResourceId_GetBase H = CFE_ES_CDSBLOCKID_BASE"
    using cds_reserve_new [OF D(16) i0 none] by blast
  define g0 where "g0 = (upd_reg i (\<lambda>_. zero_RegRec) g)\<lparr>LastCDSBlockId := H\<rparr>"
  have g0: "CDSPool g0 = CDSPool g" "CDSMemory g0 = CDSMemory g" "Registry g0 = (Registry g)[i := zero_RegRec]" "LastCDSBlockId g0 = H"
    "TotalSize g0 = TotalSize g" "DataSize g0 = DataSize g" by (simp_all add: g0_def upd_reg_def)
  have z: "Registry g0 ! i = zero_RegRec" "\<not> used zero_RegRec" "length (RegName zero_RegRec) = 40"
    using g0(3) i(2) D(10) by (simp_all add: zero_RegRec_def CFE_ES_CDSBlockRecordIsUsed_def)
  have "CFE_ES_GenPoolGetBlock (cds_storage Cds) 0 (n + 4) (CDSPool g0, g0) = ((CDSPool g0, g0), CFE_ES_ERR_MEM_BLOCK_SIZE, 0)"
    by (rule cds.get_block_refused) (use D(1) g0 no in auto)
  then have "cds_allocate Cds i (n + 4) (cds_free_old Cds i (n + 4) g0) = (g0, CFE_ES_ERR_MEM_BLOCK_SIZE, False)"
    using z(1) by (simp add: cds_free_old_def cds_allocate_def run_cds_def zero_RegRec_def)
  then have ev: "CFE_ES_RegisterCDSEx Cds n Name tbl Handle g = (g0, CFE_ES_ERR_MEM_BLOCK_SIZE, H)"
    using i(1) n by (auto simp: CFE_ES_RegisterCDSEx_def g0_def [symmetric])
  have "stored_ok (TotalSize g) (Registry g0) (CDSMemory g)"
    using D(9,10) i(2,3) z(2) unfolding stored_ok_def g0(3) by (auto simp: nth_list_update)
  moreover have "reg_ok (Registry g0) (cds_held g0 bs free)" unfolding g0(2,3) by (rule reg_ok_unused [OF D(8) i(2,3) z(2,3)])
  ultimately have inv': "cds_inv Cds g0 bs free" using D(1,3) g0 i(5) by (intro cds_invI [OF inv]) simp_all
  have "cds_blocks g0 K = cds_blocks g K" for K
    using cds_blocks_change [OF i(2) D(10) g0(3), of K] g0(2) z(2) i(3) Locate_cds_undefined
    by (auto simp: cds_blocks_None CFE_ES_CDSBlockRecordIsMatch_def CFE_ES_CDSBlockRecordIsUsed_def zero_RegRec_def intro!: sym [OF iffD2 [OF cds_blocks_None]])
  then show ?thesis using ev inv' by blast
qed

text \<open>A name that is registered with the same size: its handle is returned and nothing changes.\<close>

lemma register_again:
  assumes inv: "cds_inv Cds g bs free" and n: "0 < n" "n \<le> CDS_ABS_MAX_BLOCK_SIZE" and h: "cds_blocks g H = Some (Name, t, b)" "length b = unat n + 4"
  shows "CFE_ES_RegisterCDSEx Cds n Name tbl Handle g = (g, CFE_ES_CDS_ALREADY_EXISTS, H)"
proof -
  note D = cds_invD [OF inv]
  obtain i where i: "i < 512" "CFE_ES_LocateCDSBlockRecordByName g Name = Some i" "used (Registry g ! i)" "BlockID (Registry g ! i) = H"
    "length b = unat (RegBlockSize (Registry g ! i))" using name_taken [OF D(8) h(1)] by blast
  have sz: "RegBlockSize (Registry g ! i) = n + 4" using i(5) h(2) block_size_add(1) [OF n] by (simp add: word_unat_eq_iff)
  have "BlockOffset (Registry g ! i) \<noteq> 0" using cds_block(4) [OF inv i(1,3)] by auto
  then have "cds_allocate Cds i (n + 4) (cds_free_old Cds i (n + 4) g) = (g, CFE_SUCCESS, False)"
    using sz by (simp add: cds_free_old_def cds_allocate_def)
  moreover have "cds_reserve Name g = (g, CFE_SUCCESS, Some i, H, False)" using i(2,4) by (simp add: cds_reserve_def)
  ultimately show ?thesis using n by (auto simp: CFE_ES_RegisterCDSEx_def)
qed

section \<open>Deleting\<close>

text \<open>The owner is the part of the name in front of the first dot.\<close>

lemma takeWhile_take: "takeWhile P (take n xs) = take n (takeWhile P xs)"
  by (induction xs arbitrary: n) (auto simp: take_Cons' )

lemma owner_of_name: "cds_owner f = takeWhile (\<lambda>c. c \<noteq> CHR ''.'') (take 19 (cstring f))"
proof -
  have "takeWhile P (takeWhile Q xs) = takeWhile Q (takeWhile P xs)" for P Q :: "char \<Rightarrow> bool" and xs
    by (induction xs) auto
  then show ?thesis by (simp add: cds_owner_def cstring_def takeWhile_take)
qed

lemma delete_block:
  assumes inv: "cds_inv Cds g bs free" and h: "cds_blocks g H = Some (Name, t, b)"
    and owner: "fst (CFE_ES_GetAppIDByName (Some 0) (Some (takeWhile (\<lambda>c. c \<noteq> CHR ''.'') (take 19 Name))) es) \<noteq> CFE_SUCCESS"
  shows "\<exists>g' bs' free'. CFE_ES_DeleteCDS Cds es Name t g = (g', CFE_SUCCESS) \<and> cds_inv Cds g' bs' free' \<and> cds_blocks g' = (cds_blocks g)(H := None)"
proof -
  note D = cds_invD [OF inv]
  obtain i where i: "i < 512" "CFE_ES_LocateCDSBlockRecordByName g Name = Some i" "used (Registry g ! i)" "BlockID (Registry g ! i) = H"
    "t = RegTable (Registry g ! i)" "cstring (RegName (Registry g ! i)) = Name" using name_taken [OF D(8) h] by blast
  have own: "cds_owner (RegName (Registry g ! i)) = takeWhile (\<lambda>c. c \<noteq> CHR ''.'') (take 19 Name)"
    unfolding i(6) [symmetric] by (rule owner_of_name)
  obtain p' m' free' where put: "CFE_ES_GenPoolPutBlock (cds_storage Cds) 0 (BlockOffset (Registry g ! i)) (CDSPool g, g) =
      ((p', m'), CFE_SUCCESS, RegBlockSize (Registry g ! i))" "same_ram g m'" "pool_move g bs p' (CDSMemory m') bs free'"
    "granted (read_bd (CDSMemory m')) bs free' = (cds_held g bs free)(unat (BlockOffset (Registry g ! i)) := None)"
    using cds_put_block [OF inv i(1,3)] by blast
  define r where "r = (Registry g ! i)\<lparr>BlockID := 0\<rparr>"
  have r: "\<not> used r" "length (RegName r) = 40"
    using D(10,11) i(1) by (simp_all add: r_def CFE_ES_CDSBlockRecordIsUsed_def names_ok_def)
  let ?rs = "(Registry g)[i := r]"
  have reg: "reg_ok ?rs (granted (read_bd (CDSMemory m')) bs free')" unfolding put(4) by (rule reg_ok_remove [OF D(8) i(1,3) r])
  let ?g2 = "m'\<lparr>CDSPool := p', Registry := ?rs\<rparr>"
  define g' where "g' = ?g2\<lparr>CDSMemory := put_bytes 12 (encode_Registry ?rs) (CDSMemory m')\<rparr>"
  have "CFE_ES_UpdateCDSRegistry Cds ?g2 = (g', CFE_SUCCESS)"
    using UpdateCDSRegistry [of ?g2 Cds] reg_okD(1,2) [OF reg] D(6,7) by (simp add: g'_def)
  moreover have "CFE_ES_CDSBlockRecordSetFree i (m'\<lparr>CDSPool := p'\<rparr>) = ?g2"
    using put(2) by (simp add: CFE_ES_CDSBlockRecordSetFree_def upd_reg_def same_ram_def r_def)
  ultimately have ev: "CFE_ES_DeleteCDS Cds es Name t g = (g', CFE_SUCCESS)"
    using i(2,5) own owner put(1) by (simp add: CFE_ES_DeleteCDS_def run_cds_def split_beta)
  have f: "TotalSize g' = TotalSize g" "DataSize g' = DataSize g" "LastCDSBlockId g' = LastCDSBlockId g"
    using put(2) by (simp_all add: g'_def same_ram_def)
  note res = entry_saved [OF inv put(3) i(1) reg, of g']
  have "cds_inv Cds g' bs free'" by (rule res(1)) (use f D(16) in \<open>simp_all add: g'_def\<close>)
  moreover have "cds_blocks g' = (cds_blocks g)(H := None)" using res(3) f D(16) i(3,4) r(1) by (simp add: g'_def)
  ultimately show ?thesis using ev by blast
qed

lemma delete_refused:
  assumes inv: "cds_inv Cds g bs free"
  shows "\<forall>H t b. cds_blocks g H \<noteq> Some (Name, t, b) \<Longrightarrow> CFE_ES_DeleteCDS Cds es Name tbl g = (g, CFE_ES_ERR_NAME_NOT_FOUND)"
    and "cds_blocks g H = Some (Name, t, b) \<Longrightarrow> t \<noteq> tbl \<Longrightarrow> CFE_ES_DeleteCDS Cds es Name tbl g = (g, CFE_ES_CDS_WRONG_TYPE_ERR)"
    and "cds_blocks g H = Some (Name, t, b) \<Longrightarrow>
      fst (CFE_ES_GetAppIDByName (Some 0) (Some (takeWhile (\<lambda>c. c \<noteq> CHR ''.'') (take 19 Name))) es) = CFE_SUCCESS \<Longrightarrow>
      CFE_ES_DeleteCDS Cds es Name t g = (g, CFE_ES_CDS_OWNER_ACTIVE_ERR)"
proof -
  note D = cds_invD [OF inv]
  show "CFE_ES_DeleteCDS Cds es Name tbl g = (g, CFE_ES_ERR_NAME_NOT_FOUND)" if "\<forall>H t b. cds_blocks g H \<noteq> Some (Name, t, b)"
    using that name_free [OF D(8), of Name] by (simp add: CFE_ES_DeleteCDS_def)
  assume h: "cds_blocks g H = Some (Name, t, b)"
  obtain i where i: "CFE_ES_LocateCDSBlockRecordByName g Name = Some i" "t = RegTable (Registry g ! i)" "cstring (RegName (Registry g ! i)) = Name"
    using name_taken [OF D(8) h] by blast
  show "CFE_ES_DeleteCDS Cds es Name tbl g = (g, CFE_ES_CDS_WRONG_TYPE_ERR)" if "t \<noteq> tbl" using that i by (simp add: CFE_ES_DeleteCDS_def)
  show "CFE_ES_DeleteCDS Cds es Name t g = (g, CFE_ES_CDS_OWNER_ACTIVE_ERR)"
    if "fst (CFE_ES_GetAppIDByName (Some 0) (Some (takeWhile (\<lambda>c. c \<noteq> CHR ''.'') (take 19 Name))) es) = CFE_SUCCESS"
    using that i owner_of_name [of "RegName (Registry g ! i)"] by (simp add: CFE_ES_DeleteCDS_def split_beta)
qed

section \<open>Another size\<close>

text \<open>A name that is registered with another size keeps its handle and gets another block.\<close>

text \<open>After the old block has been given back.\<close>

definition freed :: "CFE_ES_CDS_Instance \<Rightarrow> (nat \<times> nat) list \<Rightarrow> (nat \<Rightarrow> nat list) \<Rightarrow> nat \<Rightarrow> CFE_ES_CDS_Instance \<Rightarrow> (nat \<Rightarrow> nat list) \<Rightarrow> bool" where
  "freed g bs free i g1 free1 \<longleftrightarrow> pool_move g bs (CDSPool g1) (CDSMemory g1) bs free1 \<and>
     Registry g1 = (Registry g)[i := (Registry g ! i)\<lparr>BlockOffset := 0, RegBlockSize := 0\<rparr>] \<and> TotalSize g1 = TotalSize g \<and> DataSize g1 = DataSize g \<and>
     LastCDSBlockId g1 = LastCDSBlockId g \<and>
     granted (read_bd (CDSMemory g1)) bs free1 = (cds_held g bs free)(unat (BlockOffset (Registry g ! i)) := None)"

text \<open>There is a block for another size: in the pool, or the old block itself, which is given back first.\<close>

definition resize_room :: "CFE_ES_CDS_Instance \<Rightarrow> (nat \<times> nat) list \<Rightarrow> (nat \<Rightarrow> nat list) \<Rightarrow> nat \<Rightarrow> u64 \<Rightarrow> bool" where
  "resize_room g bs free i N \<longleftrightarrow>
     (\<exists>j. fits (CDSPool g) N j \<and> (room (CDSPool g) free j \<or> (unat (BlockOffset (Registry g ! i)), j) \<in> in_use bs free))"

lemma cds_free_step:
  assumes inv: "cds_inv Cds g bs free" and i: "i < 512" "used (Registry g ! i)" and N: "N \<noteq> RegBlockSize (Registry g ! i)"
  shows "\<exists>g1 free1. cds_free_old Cds i N g = (g1, CFE_SUCCESS) \<and> freed g bs free i g1 free1 \<and>
    (\<forall>N. (\<exists>j. fits (CDSPool g1) N j \<and> room (CDSPool g1) free1 j) \<longleftrightarrow> resize_room g bs free i N)"
proof -
  obtain p1 m1 free1 where put: "CFE_ES_GenPoolPutBlock (cds_storage Cds) 0 (BlockOffset (Registry g ! i)) (CDSPool g, g) =
      ((p1, m1), CFE_SUCCESS, RegBlockSize (Registry g ! i))" "same_ram g m1" "pool_move g bs p1 (CDSMemory m1) bs free1"
    "granted (read_bd (CDSMemory m1)) bs free1 = (cds_held g bs free)(unat (BlockOffset (Registry g ! i)) := None)"
    "\<forall>N j. fits p1 N j \<and> room p1 free1 j \<longleftrightarrow>
      fits (CDSPool g) N j \<and> (room (CDSPool g) free j \<or> (unat (BlockOffset (Registry g ! i)), j) \<in> in_use bs free)"
    using cds_put_block [OF inv i] by blast
  let ?g1 = "upd_reg i (\<lambda>r. r\<lparr>BlockOffset := 0, RegBlockSize := 0\<rparr>) (m1\<lparr>CDSPool := p1\<rparr>)"
  have "BlockOffset (Registry g ! i) \<noteq> 0" using cds_block(4) [OF inv i] by auto
  then have "cds_free_old Cds i N g = (?g1, CFE_SUCCESS)" using put(1) N by (simp add: cds_free_old_def run_cds_def)
  moreover have "CDSPool ?g1 = p1" "CDSMemory ?g1 = CDSMemory m1" "TotalSize ?g1 = TotalSize g" "DataSize ?g1 = DataSize g" "LastCDSBlockId ?g1 = LastCDSBlockId g"
    "Registry ?g1 = (Registry g)[i := (Registry g ! i)\<lparr>BlockOffset := 0, RegBlockSize := 0\<rparr>]"
    using put(2) by (simp_all add: upd_reg_def same_ram_def)
  ultimately show ?thesis using put(3-5) by (intro exI [of _ ?g1] exI [of _ free1]) (simp add: freed_def resize_room_def)
qed

lemma resize_success:
  assumes inv: "cds_inv Cds g bs free" and n: "0 < n" "n \<le> CDS_ABS_MAX_BLOCK_SIZE"
    and i: "i < 512" "used (Registry g ! i)" "CFE_ES_LocateCDSBlockRecordByName g Name = Some i" "BlockID (Registry g ! i) = H"
      "t = RegTable (Registry g ! i)" "cstring (RegName (Registry g ! i)) = Name" "CFE_ES_LocateCDSBlockRecordByID H = Some i"
    and g1: "cds_free_old Cds i (n + 4) g = (g1, CFE_SUCCESS)" "freed g bs free i g1 free1" and fit: "fits (CDSPool g1) (n + 4) j" "room (CDSPool g1) free1 j"
  shows "\<exists>g' b' bs' free'. CFE_ES_RegisterCDSEx Cds n Name tbl Handle g = (g', CFE_SUCCESS, H) \<and> cds_inv Cds g' bs' free' \<and>
    length b' = unat n + 4 \<and> cds_blocks g' = (cds_blocks g)(H \<mapsto> (Name, t, b'))"
proof -
  note D = cds_invD [OF inv] and sz = block_size_add [OF n]
  let ?o = "unat (BlockOffset (Registry g ! i))"
  note F = g1(2) [unfolded freed_def]
  obtain p' m' off bs' free' where get: "CFE_ES_GenPoolGetBlock (cds_storage Cds) 0 (n + 4) (CDSPool g1, g1) = ((p', m'), CFE_SUCCESS, off)" "same_ram g1 m'"
    "pool_move g bs p' (CDSMemory m') bs' free'" "granted (read_bd (CDSMemory m')) bs' free' = (granted (read_bd (CDSMemory g1)) bs free1)(unat off \<mapsto> n + 4)"
    "granted (read_bd (CDSMemory g1)) bs free1 (unat off) = None"
    using cds_get_block [OF inv _ fit refl refl] F by blast
  define r where "r = (Registry g ! i)\<lparr>BlockOffset := off, RegBlockSize := n + 4\<rparr>"
  have r: "BlockID r = H" "BlockOffset r = off" "RegBlockSize r = n + 4" "RegTable r = t" "RegName r = RegName (Registry g ! i)" "length (RegName r) = 40" "used r"
    using i D(10,11) by (simp_all add: r_def names_ok_def CFE_ES_CDSBlockRecordIsUsed_def)
  let ?rs = "(Registry g)[i := r]"
  have reg: "reg_ok ?rs (granted (read_bd (CDSMemory m')) bs' free')"
  proof (rule reg_ok_update [OF D(8) i(1) r(6)])
    show "used r \<longrightarrow> CFE_ES_LocateCDSBlockRecordByID (BlockID r) = Some i \<and> granted (read_bd (CDSMemory m')) bs' free' (unat (BlockOffset r)) = Some (RegBlockSize r) \<and> 4 < unat (RegBlockSize r)"
      using get(4) r i(7) sz(2) by simp
    have other: "unat (BlockOffset (Registry g ! l)) \<noteq> ?o" "unat (BlockOffset (Registry g ! l)) \<noteq> unat off" if l: "l < 512" "l \<noteq> i" "used (Registry g ! l)" for l
    proof -
      show o: "unat (BlockOffset (Registry g ! l)) \<noteq> ?o" by (rule reg_okD(6) [OF D(8) l(1) i(1) l(3) i(2) l(2)])
      then show "unat (BlockOffset (Registry g ! l)) \<noteq> unat off" using get(5) F reg_okD(4) [OF D(8) l(1,3)] by (auto split: if_splits)
    qed
    show "unat (BlockOffset (Registry g ! l)) \<noteq> unat (BlockOffset r) \<and> cstring (RegName (Registry g ! l)) \<noteq> cstring (RegName r)"
      if l: "l < 512" "l \<noteq> i" "used (Registry g ! l)" for l
      using other(2) [OF l] reg_okD(7) [OF D(8) l(1) i(1) l(3) i(2) l(2)] r by simp
    show "granted (read_bd (CDSMemory m')) bs' free' (unat (BlockOffset (Registry g ! l))) = cds_held g bs free (unat (BlockOffset (Registry g ! l)))"
      if l: "l < 512" "l \<noteq> i" "used (Registry g ! l)" for l using other [OF l] get(4) F by simp
    show "used r \<and> unat (BlockOffset r) = x \<or> (\<exists>l < 512. l \<noteq> i \<and> used (Registry g ! l) \<and> unat (BlockOffset (Registry g ! l)) = x)"
      if "granted (read_bd (CDSMemory m')) bs' free' x \<noteq> None" for x
      using that get(4) F reg_okD(8) [OF D(8), of x] r(2,7) by (auto split: if_splits)
  qed
  let ?g2 = "m'\<lparr>CDSPool := p', Registry := ?rs\<rparr>"
  define g' where "g' = ?g2\<lparr>CDSMemory := put_bytes 12 (encode_Registry ?rs) (CDSMemory m')\<rparr>"
  have "Registry g1 ! i = (Registry g ! i)\<lparr>BlockOffset := 0, RegBlockSize := 0\<rparr>" using F i(1) D(10) by simp
  moreover have "upd_reg i (\<lambda>r. r\<lparr>BlockOffset := off, RegBlockSize := n + 4\<rparr>) (m'\<lparr>CDSPool := p'\<rparr>) = ?g2"
    using get(2) F i(1) D(10) by (simp add: upd_reg_def same_ram_def r_def)
  ultimately have "cds_allocate Cds i (n + 4) (g1, CFE_SUCCESS) = (?g2, CFE_SUCCESS, True)"
    using get(1) by (simp add: cds_allocate_def run_cds_def)
  moreover have "cds_reserve Name g = (g, CFE_SUCCESS, Some i, H, False)" using i(3,4) by (simp add: cds_reserve_def)
  moreover have "CFE_ES_UpdateCDSRegistry Cds ?g2 = (g', CFE_SUCCESS)"
    using UpdateCDSRegistry [of ?g2 Cds] reg_okD(1,2) [OF reg] D(6,7) by (simp add: g'_def)
  ultimately have ev: "CFE_ES_RegisterCDSEx Cds n Name tbl Handle g = (g', CFE_SUCCESS, H)"
    using g1(1) n by (auto simp: CFE_ES_RegisterCDSEx_def)
  have f: "TotalSize g' = TotalSize g" "DataSize g' = DataSize g" "LastCDSBlockId g' = LastCDSBlockId g"
    using get(2) F by (simp_all add: g'_def same_ram_def)
  note res = entry_saved [OF inv get(3) i(1) reg, of g']
  have "cds_inv Cds g' bs' free'" by (rule res(1)) (use f D(16) in \<open>simp_all add: g'_def\<close>)
  moreover have "cds_blocks g' = (cds_blocks g)(H \<mapsto> (Name, t, get_bytes off (unat (n + 4)) (CDSMemory g')))"
    using res(2) f D(16) i(4,6) r by (simp add: g'_def)
  ultimately show ?thesis
    using ev sz(1) by (intro exI [of _ g'] exI [of _ "get_bytes off (unat (n + 4)) (CDSMemory g')"] exI [of _ bs'] exI [of _ free']) simp
qed

lemma resize_refused:
  assumes inv: "cds_inv Cds g bs free" and n: "0 < n" "n \<le> CDS_ABS_MAX_BLOCK_SIZE"
    and i: "i < 512" "CFE_ES_LocateCDSBlockRecordByName g Name = Some i" "BlockID (Registry g ! i) = H"
    and g1: "cds_free_old Cds i (n + 4) g = (g1, CFE_SUCCESS)" "freed g bs free i g1 free1"
    and no: "\<And>j. fits (CDSPool g1) (n + 4) j \<Longrightarrow> \<not> room (CDSPool g1) free1 j"
  shows "CFE_ES_RegisterCDSEx Cds n Name tbl Handle g = (g1, CFE_ES_ERR_MEM_BLOCK_SIZE, H)"
proof -
  note D = cds_invD [OF inv] and F = g1(2) [unfolded freed_def]
  have "CFE_ES_GenPoolGetBlock (cds_storage Cds) 0 (n + 4) (CDSPool g1, g1) = ((CDSPool g1, g1), CFE_ES_ERR_MEM_BLOCK_SIZE, 0)"
    by (rule cds.get_block_refused) (use F pool_moveD(1) no in blast)+
  moreover have "Registry g1 ! i = (Registry g ! i)\<lparr>BlockOffset := 0, RegBlockSize := 0\<rparr>" using F i(1) D(10) by simp
  ultimately have "cds_allocate Cds i (n + 4) (g1, CFE_SUCCESS) = (g1, CFE_ES_ERR_MEM_BLOCK_SIZE, False)"
    by (simp add: cds_allocate_def run_cds_def)
  moreover have "cds_reserve Name g = (g, CFE_SUCCESS, Some i, H, False)" using i(2,3) by (simp add: cds_reserve_def)
  ultimately show ?thesis using g1(1) n by (auto simp: CFE_ES_RegisterCDSEx_def)
qed

text \<open>
  When there is no block of the new size, the old one has been given back all the same: the entry keeps its handle without a
  block, and the copy of the registry in the store still names the block that is free now.
\<close>

definition block_lost :: "CFE_ES_CDS_Instance \<Rightarrow> (nat \<times> nat) list \<Rightarrow> nat \<Rightarrow> CFE_ES_CDS_Instance \<Rightarrow> bool" where
  "block_lost g bs i g' \<longleftrightarrow> i < 512 \<and> Registry g' = (Registry g)[i := (Registry g ! i)\<lparr>BlockOffset := 0, RegBlockSize := 0\<rparr>] \<and>
     stored_rec (CDSMemory g') i = Registry g ! i \<and>
     (\<exists>free'. pool_inv (CDSPool g') (read_bd (CDSMemory g')) 2 36876 bs free' \<and> cds_held g' bs free' (unat (BlockOffset (Registry g ! i))) = None)"

lemma freed_lost:
  assumes inv: "cds_inv Cds g bs free" and i: "i < 512" "used (Registry g ! i)" "BlockID (Registry g ! i) = H"
      "t = RegTable (Registry g ! i)" "cstring (RegName (Registry g ! i)) = Name" "CFE_ES_LocateCDSBlockRecordByID H = Some i"
    and g1: "freed g bs free i g1 free1"
  shows "block_lost g bs i g1" and "cds_blocks g1 = (cds_blocks g)(H \<mapsto> (Name, t, []))"
proof -
  note D = cds_invD [OF inv] and F = g1 [unfolded freed_def]
  have mv: "pool_move g bs (CDSPool g1) (CDSMemory g1) bs free1" using F by blast
  note M = pool_moveD [OF mv]
  have "stored_rec (CDSMemory g1) i = stored_rec (CDSMemory g) i" by (rule stored_cong [OF i(1)]) (simp add: M(5))
  also have "\<dots> = Registry g ! i" using D(9) i(1,2) by (auto simp: stored_ok_def)
  finally have st: "stored_rec (CDSMemory g1) i = Registry g ! i" .
  have "granted (read_bd (CDSMemory g1)) bs free1 (unat (BlockOffset (Registry g ! i))) = None" using F by simp
  then show "block_lost g bs i g1" unfolding block_lost_def using i(1) M(1) st F by blast
  let ?r = "(Registry g ! i)\<lparr>BlockOffset := 0, RegBlockSize := 0\<rparr>"
  have reg: "Registry g1 = (Registry g)[i := ?r]" using F by blast
  have at: "K = H" if "CFE_ES_LocateCDSBlockRecordByID K = Some i" "cds_blocks g K \<noteq> None" for K
    using that i(3) by (auto simp: cds_blocks_def CFE_ES_CDSBlockRecordIsMatch_def Let_def split: if_splits)
  have "cds_blocks g1 K = (if CFE_ES_LocateCDSBlockRecordByID K = Some i then if BlockID ?r = K
      then Some (cstring (RegName ?r), RegTable ?r, get_bytes (BlockOffset ?r) (unat (RegBlockSize ?r)) (CDSMemory g1)) else None else cds_blocks g K)" for K
    by (rule cds_blocks_change [OF i(1) D(10) reg]) (rule move_kept [OF inv mv refl])
  then show "cds_blocks g1 = (cds_blocks g)(H \<mapsto> (Name, t, []))"
    using i(3-6) by (intro ext) (simp add: get_bytes_def, metis at)
qed

text \<open>A known name with another size, on both branches.\<close>

lemma register_resize:
  assumes inv: "cds_inv Cds g bs free" and n: "0 < n" "n \<le> CDS_ABS_MAX_BLOCK_SIZE" and h: "cds_blocks g H = Some (Name, t, b)" "length b \<noteq> unat n + 4"
    and i: "CFE_ES_LocateCDSBlockRecordByID H = Some i"
  shows "if resize_room g bs free i (n + 4)
    then \<exists>g' b' bs' free'. CFE_ES_RegisterCDSEx Cds n Name tbl Handle g = (g', CFE_SUCCESS, H) \<and> cds_inv Cds g' bs' free' \<and>
      length b' = unat n + 4 \<and> cds_blocks g' = (cds_blocks g)(H \<mapsto> (Name, t, b'))
    else \<exists>g'. CFE_ES_RegisterCDSEx Cds n Name tbl Handle g = (g', CFE_ES_ERR_MEM_BLOCK_SIZE, H) \<and> block_lost g bs i g' \<and>
      cds_blocks g' = (cds_blocks g)(H \<mapsto> (Name, t, []))"
proof -
  have i: "i < 512" "used (Registry g ! i)" "CFE_ES_LocateCDSBlockRecordByName g Name = Some i" "BlockID (Registry g ! i) = H"
    "t = RegTable (Registry g ! i)" "cstring (RegName (Registry g ! i)) = Name" "CFE_ES_LocateCDSBlockRecordByID H = Some i"
    "length b = unat (RegBlockSize (Registry g ! i))" using name_taken [OF cds_invD(8) [OF inv] h(1)] i by auto
  have ne: "n + 4 \<noteq> RegBlockSize (Registry g ! i)" using i(8) h(2) block_size_add(1) [OF n] by auto
  obtain g1 free1 where g1: "cds_free_old Cds i (n + 4) g = (g1, CFE_SUCCESS)" "freed g bs free i g1 free1"
    "(\<exists>j. fits (CDSPool g1) (n + 4) j \<and> room (CDSPool g1) free1 j) \<longleftrightarrow> resize_room g bs free i (n + 4)"
    using cds_free_step [OF inv i(1,2) ne] by blast
  show ?thesis
  proof (cases "resize_room g bs free i (n + 4)")
    case True
    then obtain j where "fits (CDSPool g1) (n + 4) j" "room (CDSPool g1) free1 j" using g1(3) by blast
    from resize_success [OF inv n i(1-7) g1(1,2) this, of tbl Handle] show ?thesis unfolding if_P [OF True] .
  next
    case False
    then have "CFE_ES_RegisterCDSEx Cds n Name tbl Handle g = (g1, CFE_ES_ERR_MEM_BLOCK_SIZE, H)"
      using resize_refused [OF inv n i(1,3,4) g1(1,2), of tbl Handle] g1(3) by blast
    then show ?thesis unfolding if_not_P [OF False] using freed_lost [OF inv i(1,2,4-7) g1(2)] by blast
  qed
qed

end
