(* ===== verification/CFE_ES_CDS_Init.thy ===== *)
theory CFE_ES_CDS_Init
  imports CFE_ES_CDS_Reg
begin

unbundle bit_operations_syntax

text \<open>
  The start of the critical data store: what is in the store is recovered when it is valid, whatever the
  rest of the memory holds after the reset, and a new empty store is made when it is not.
\<close>

section \<open>Checking what is there\<close>

text \<open>The sizes that the start computes.\<close>

definition cds_total :: "u32 \<Rightarrow> u64" where
  "cds_total Cds = ucast (Cds AND 0xfffffffc)"

lemma cds_total_unat: "unat (cds_total Cds) \<le> unat Cds" "unat (cds_total Cds) < 2 ^ 32"
  unfolding cds_total_def using total_size [of Cds] by simp_all

lemma min_size: "CDS_RESERVED_MIN_SIZE + CFE_ES_CDSReqdMinSize CFE_PLATFORM_ES_CDS_MAX_NUM_ENTRIES = 53268"
  "CFE_ES_GenPoolCalcMinSize CFE_ES_CDS_NUM_BLOCK_SIZES CFE_ES_CDSMemPoolDefSize 1 = 32"
  by (simp_all add: CFE_ES_CDSReqdMinSize_def CFE_ES_GenPoolCalcMinSize_def CFE_ES_CDSMemPoolDefSize_def)

lemma take_cache: "take 8 (cache_bytes g) = get_bytes 0 8 (CacheData (Cache g))"
  by (simp add: cache_bytes_def take_get_bytes)

lemma ValidateCDS:
  assumes "16 \<le> unat (TotalSize g)" "unat (TotalSize g) \<le> unat Cds"
  shows "\<exists>g'. CFE_ES_ValidateCDS Cds g =
    (g', if get_bytes 0 8 (CDSMemory g) = CFE_ES_CDS_SIGNATURE_BEGIN \<and> get_bytes (TotalSize g - 8) 8 (CDSMemory g) = CFE_ES_CDS_SIGNATURE_END
         then CFE_SUCCESS else CFE_ES_CDS_INVALID) \<and> same_store g g'"
proof -
  have u: "unat (TotalSize g - 8) = unat (TotalSize g) - 8" using assms(1) by (subst unat_sub) (simp_all add: word_le_nat_alt)
  then have lim: "unat (TotalSize g - 8) < 2 ^ 32" "unat (TotalSize g - 8) + 8 \<le> unat Cds" "8 \<le> unat Cds"
    using assms unsigned_less [where 'a = nat, of Cds] by simp_all
  obtain g1 s1 where f1: "CFE_ES_CDS_CacheFetch Cds 0 8 g = (g1, s1)" by fastforce
  note c1 = CacheFetch [OF _ _ _ f1, simplified]
  have s1: "s1 = CFE_SUCCESS" using c1(4) lim(3) by simp
  then have b1: "take 8 (cache_bytes g1) = get_bytes 0 8 (CDSMemory g)" using c1(3) by (simp add: take_cache)
  have r1: "same_store g g1" using c1(1,2) by (simp add: same_store_def)
  obtain g2 s2 where f2: "CFE_ES_CDS_CacheFetch Cds (TotalSize g - 8) 8 g1 = (g2, s2)" by fastforce
  note c2 = CacheFetch [OF _ _ lim(1) f2, simplified]
  have s2: "s2 = CFE_SUCCESS" using c2(4) lim(2) by simp
  then have b2: "take 8 (cache_bytes g2) = get_bytes (TotalSize g - 8) 8 (CDSMemory g)" using c2(3) r1 by (simp add: take_cache same_store_def)
  have r2: "same_store g g2" using r1 c2(1,2) by (auto simp: same_store_def intro: same_ram_trans)
  have T: "TotalSize g1 = TotalSize g" using r1 by (simp add: same_store_def same_ram_def)
  show ?thesis
    using f1 f2 s1 s2 b1 b2 r1 r2 T by (auto simp: CFE_ES_ValidateCDS_def)
qed

text \<open>The registry as it is read back.\<close>

definition stored_registry :: "bytes \<Rightarrow> CFE_ES_CDS_RegRec list" where
  "stored_registry m = map (stored_rec m) [0 ..< 512]"

lemma load_bits: "bit (load n m a) k \<Longrightarrow> k < 8 * n"
proof (induction n arbitrary: a k)
  case (Suc n)
  show ?case
  proof (cases "bit (ucast (m a) :: u64) k")
    case True
    then have "k < 8" by (simp add: bit_simps) (use bit_imp_le_length [of "m a" k] in auto)
    then show ?thesis by simp
  next
    case False
    then have "8 \<le> k" "bit (load n m (a + 1)) (k - 8)" using Suc.prems by (auto simp: bit_simps)
    then show ?thesis using Suc.IH [of "a + 1" "k - 8"] by simp
  qed
qed simp

lemma load4_size: "ucast (load 4 m a) = (512 :: u32) \<longleftrightarrow> load 4 m a = 512"
proof -
  have "load 4 m a AND mask 32 = load 4 m a" by (rule bit_word_eqI) (use load_bits [of 4 m a] in \<open>auto simp: bit_simps\<close>)
  moreover have "unat (load 4 m a AND mask 32) < 2 ^ 32"
    by (simp add: unat_mod take_bit_eq_mod flip: take_bit_eq_mask)
  ultimately have "unat (load 4 m a) < 2 ^ 32" by metis
  from size_u32 [OF this] show ?thesis by (simp add: word_unat_eq_iff)
qed

text \<open>The registry is read, and the pool is rebuilt from it.\<close>

lemma RebuildCDS:
  assumes Cds: "36876 \<le> unat Cds" and D: "32 \<le> unat (DataSize g)" "36876 + unat (DataSize g) < 2 ^ 32"
  shows "\<exists>g'. same_store g g' \<and> CFE_ES_RebuildCDS Cds g =
    (if load 4 (CDSMemory g) 8 \<noteq> 512 then Some (g', CFE_ES_CDS_INVALID)
     else let h = g'\<lparr>Registry := stored_registry (CDSMemory g), CDSPool := cds_pool0 (DataSize g)\<rparr>
          in case CFE_ES_GenPoolRebuild (cds_storage Cds) (cds_pool0 (DataSize g), h) of
               None \<Rightarrow> None
             | Some ((p, g), Status) \<Rightarrow> Some (g\<lparr>CDSPool := p\<rparr>, if Status \<noteq> CFE_SUCCESS then CFE_ES_CDS_ACCESS_ERROR else Status))"
proof -
  obtain g1 s1 where f1: "CFE_ES_CDS_CacheFetch Cds 8 4 g = (g1, s1)" by fastforce
  note c1 = CacheFetch [OF _ _ _ f1, simplified]
  have s1: "s1 = CFE_SUCCESS" using c1(4) Cds by simp
  have same: "same_store g g1" using c1(1,2) by (simp add: same_store_def)
  have l: "load 4 (CacheData (Cache g1)) 0 = load 4 (CDSMemory g) 8"
    using arg_cong [OF c1(3) [OF s1], of le_value] by (simp add: le_value_get)
  have "(12 :: u32) < Cds" "36876 \<le> Cds" using Cds by (simp_all add: word_less_nat_alt word_le_nat_alt)
  then have rd: "CFE_PSP_ReadFromCDS Cds (Some buf) 12 36864 g1 = (CFE_PSP_SUCCESS, Some (get_bytes 12 36864 (CDSMemory g) @ drop 36864 buf))" for buf
    using c1(2) by (simp add: CFE_PSP_ReadFromCDS_def)
  have reg: "decode_Registry 512 (get_bytes 12 36864 (CDSMemory g) @ xs) = stored_registry (CDSMemory g)" for xs
    by (rule nth_equalityI) (simp_all add: decode_Registry_stored stored_registry_def decode_Registry_def [of 512, THEN arg_cong [where f = length]])
  have ds: "DataSize g1 = DataSize g" using same by (simp add: same_store_def same_ram_def)
  have min: "\<not> DataSize g < 32" using D(1) by (simp add: word_less_nat_alt)
  show ?thesis
    by (rule exI [of _ g1])
      (use same s1 f1 rd reg l ds min in \<open>simp add: CFE_ES_RebuildCDS_def load4_size CFE_ES_RebuildCDSPool_def CFE_ES_CreateCDSPool_def min_size cds_pool0(1) [OF D(2)]\<close>)
qed

section \<open>Recovery\<close>

text \<open>Records that are not in use do not matter.\<close>

lemma reg_ok_same:
  assumes ok: "reg_ok rs held" and len: "length rs' = 512" "names_ok rs'" and same: "\<And>i. i < 512 \<Longrightarrow> rs' ! i = rs ! i \<or> \<not> used (rs' ! i) \<and> \<not> used (rs ! i)"
  shows "reg_ok rs' held"
proof -
  have u: "used (rs' ! i) \<longleftrightarrow> used (rs ! i)" if "i < 512" for i using same [OF that] by auto
  have e: "rs' ! i = rs ! i" if "i < 512" "used (rs ! i)" for i using same [OF that(1)] that(2) by auto
  have "\<exists>i < 512. used (rs' ! i) \<and> unat (BlockOffset (rs' ! i)) = off" if "held off \<noteq> None" for off
    using reg_okD(8) [OF ok that] u e by metis
  then show ?thesis using ok len unfolding reg_ok_def by (simp add: u e)
qed

lemma names_stored: "names_ok (stored_registry m)" "length (stored_registry m) = 512"
  by (auto simp: stored_registry_def names_ok_def stored_rec_def decode_RegRec_def)

text \<open>The pool after a reset: the blocks handed out before are handed out, and only descriptors have been written.\<close>

lemma rebuild_move:
  assumes inv: "cds_inv Cds g bs free" and mem: "CDSMemory h = CDSMemory g"
  shows "\<exists>p' m' free'. CFE_ES_GenPoolRebuild (cds_storage Cds) (cds_pool0 (DataSize g), h) = Some ((p', m'), CFE_SUCCESS) \<and> same_ram h m' \<and>
    pool_move g bs p' (CDSMemory m') bs free' \<and> granted (read_bd (CDSMemory m')) bs free' = cds_held g bs free"
proof -
  note D = cds_invD [OF inv]
  let ?s = "(run_of g bs free)\<lparr>RunStore := h\<rparr>"
  have s: "run_inv CDSMemory True (shape (cds_pool0 (DataSize g))) 2 36876 bs free ?s" "RunStore ?s = h"
    using D(4) mem by (simp_all add: run_inv_def run_of_def)
  have lim: "unat (PoolMaxOffset (cds_pool0 (DataSize g))) \<le> unat Cds" using D(2,13) by (simp add: shape_def)
  obtain p' m' free' where r: "CFE_ES_GenPoolRebuild (cds_storage Cds) (cds_pool0 (DataSize g), h) = Some ((p', m'), CFE_SUCCESS)"
    "run_inv CDSMemory True (shape (cds_pool0 (DataSize g))) 2 36876 bs free' (?s\<lparr>RunPool := p', RunStore := m'\<rparr>)"
    "\<forall>x. (\<forall>off i. (off, i) \<in> set bs \<longrightarrow> \<not> in_desc (of_nat off - 24) x) \<longrightarrow> CDSMemory m' x = CDSMemory g x"
    using cds.restart [OF s(1) cds_pool0(2,4) [OF D(12)] lim] s(2) mem by auto
  have "CDSMemory m' x = CDSMemory g x" if x: "unat x < 36876 \<or> unat (PoolMaxOffset (CDSPool g)) \<le> unat x" for x
  proof -
    have "\<not> in_desc (of_nat off - 24) x" if b: "(off, i) \<in> set bs" for off i
      using desc_place [OF D(1) b, of x] block_range(1,3) [OF D(1) b] pool_invD(3) [OF D(1)] x by auto
    then show ?thesis using r(3) by blast
  qed
  moreover have "CDSMemory m' x = CDSMemory g x" if x: "(o', l) \<in> set bs" "o' \<le> unat x" "unat x < o' + bsize (CDSPool g) l" for o' l x
    using r(3) data_place [OF D(1) x(1) _ x(2,3)] by blast
  moreover have "pool_inv p' (read_bd (CDSMemory m')) 2 36876 bs free'" "shape p' = shape (CDSPool g)" "clear_tail p' (CDSMemory m')"
    using r(2) D(2) by (simp_all add: run_inv_def)
  ultimately have "pool_move g bs p' (CDSMemory m') bs free'" unfolding pool_move_def by blast
  moreover have "granted (read_bd (CDSMemory m')) bs free' = cds_held g bs free" using r(2) by (simp add: run_inv_def run_of_def)
  ultimately show ?thesis using r(1) cds_frame.rebuild_rel [OF r(1)] by blast
qed

text \<open>The registry read back: the abstract map is the one before the reset.\<close>

lemma stored_blocks:
  assumes inv: "cds_inv Cds g bs free" and mv: "pool_move g bs p' m' bs free'" and held: "granted (read_bd m') bs free' = cds_held g bs free"
    and g': "TotalSize g' = TotalSize g" "DataSize g' = DataSize g" "Registry g' = stored_registry (CDSMemory g)" "LastCDSBlockId g' = CFE_ES_CDSBLOCKID_BASE"
      "CDSMemory g' = m'" "CDSPool g' = p'"
  shows "cds_inv Cds g' bs free'" "cds_blocks g' = cds_blocks g"
proof -
  note D = cds_invD [OF inv]
  let ?rs = "stored_registry (CDSMemory g)"
  have same: "?rs ! i = Registry g ! i \<or> \<not> used (?rs ! i) \<and> \<not> used (Registry g ! i)" if "i < 512" for i
    using D(9) that by (auto simp: stored_ok_def stored_registry_def)
  have reg: "reg_ok ?rs (cds_held g bs free)" by (rule reg_ok_same [OF D(8)]) (use same names_stored in auto)
  have "stored_ok (TotalSize g) (Registry g) m'"
    by (rule stored_ok_cong [OF D(15) _ D(9)]) (use D(5,7) in \<open>auto intro: pool_moveD(5) [OF mv]\<close>)
  moreover have "stored_rec m' i = ?rs ! i" if "i < 512" for i
    using stored_cong [OF that, of m' "CDSMemory g"] pool_moveD(5) [OF mv] that by (simp add: stored_registry_def)
  ultimately have "stored_ok (TotalSize g) ?rs m'" by (simp add: stored_ok_def)
  then show "cds_inv Cds g' bs free'"
    using pool_moveD(1-3) [OF mv] reg held g' by (intro cds_invI [OF inv]) (simp_all add: CFE_ResourceId_GetBase_def)
  have "cds_blocks g' K = cds_blocks g K" for K
  proof (cases "CFE_ES_LocateCDSBlockRecordByID K")
    case (Some i)
    have i: "i < 512" and nz: "K \<noteq> 0" using Locate_cds_lt [OF Some] Some Locate_cds_undefined by auto
    show ?thesis
    proof (cases "used (Registry g ! i)")
      case True
      then have e: "?rs ! i = Registry g ! i" using same [OF i] by auto
      show ?thesis using move_kept [OF inv mv refl i True] Some e g' by (simp add: cds_blocks_def CFE_ES_CDSBlockRecordIsMatch_def Let_def)
    next
      case False
      then have "\<not> used (?rs ! i)" using same [OF i] by auto
      then show ?thesis using Some False nz g' by (simp add: cds_blocks_def CFE_ES_CDSBlockRecordIsMatch_def CFE_ES_CDSBlockRecordIsUsed_def Let_def)
    qed
  qed (simp add: cds_blocks_def CFE_ES_CDSBlockRecordIsMatch_def)
  then show "cds_blocks g' = cds_blocks g" by blast
qed

text \<open>The state with which the checks of the start begin.\<close>

definition started :: "u32 \<Rightarrow> CFE_ES_CDS_Instance \<Rightarrow> CFE_ES_CDS_Instance" where
  "started Cds g = g\<lparr>CDSIsAvailable := False, LastCDSBlockId := CFE_ES_CDSBLOCKID_BASE, TotalSize := cds_total Cds, DataSize := cds_total Cds - 36884\<rparr>"

lemma EarlyInit_eq:
  assumes "53268 \<le> unat (cds_total Cds)" and v: "CFE_ES_ValidateCDS Cds (started Cds g) = (g2, st)"
  shows "CFE_ES_CDS_EarlyInit Cds CFE_SUCCESS g =
    (case (if st = CFE_SUCCESS then CFE_ES_RebuildCDS Cds g2 else Some (g2, st)) of
       None \<Rightarrow> None
     | Some (g, Status) \<Rightarrow>
         (case (if Status = CFE_ES_CDS_INVALID then cds_create Cds g else Some (g, Status)) of
            None \<Rightarrow> None
          | Some (g, Status) \<Rightarrow> Some (if Status \<noteq> CFE_SUCCESS then g else g\<lparr>CDSIsAvailable := True\<rparr>, Status)))"
proof -
  have "\<not> cds_total Cds < 53268" using assms(1) by (simp add: word_less_nat_alt)
  then show ?thesis using v
    by (simp add: CFE_ES_CDS_EarlyInit_def CFE_PSP_GetCDSSize_def min_size cds_total_def [symmetric] started_def)
qed

text \<open>
  After a reset the store is as it was and everything else may hold any value: the blocks come back, each with
  its handle, name, type and bytes, and the pool with them.
\<close>

lemma cds_recover:
  assumes inv: "cds_inv Cds g bs free" and mem: "CDSMemory g1 = CDSMemory g"
  shows "\<exists>g' free'. CFE_ES_CDS_EarlyInit Cds CFE_SUCCESS g1 = Some (g', CFE_SUCCESS) \<and> CDSIsAvailable g' \<and> cds_inv Cds g' bs free' \<and>
    cds_blocks g' = cds_blocks g"
proof -
  note D = cds_invD [OF inv]
  have T: "TotalSize g = cds_total Cds" "DataSize g = cds_total Cds - 36884" using inv unfolding cds_inv_def cds_total_def by auto
  have DS: "32 \<le> unat (DataSize g)"
    unfolding T(2) using D(7) T(1) by (subst unat_sub) (simp_all add: word_le_nat_alt)
  obtain g2 where v: "CFE_ES_ValidateCDS Cds (started Cds g1) = (g2, CFE_SUCCESS)" "same_store (started Cds g1) g2"
    using ValidateCDS [of "started Cds g1" Cds] D(6,7,9) T(1) mem by (auto simp: stored_ok_def started_def)
  have g2: "CDSMemory g2 = CDSMemory g" "TotalSize g2 = TotalSize g" "DataSize g2 = DataSize g" "LastCDSBlockId g2 = CFE_ES_CDSBLOCKID_BASE"
    using v(2) mem T by (simp_all add: same_store_def same_ram_def started_def)
  define rs where "rs = stored_registry (CDSMemory g)"
  obtain g3 where g3: "same_store g2 g3" and rb: "CFE_ES_RebuildCDS Cds g2 =
      (let h = g3\<lparr>Registry := rs, CDSPool := cds_pool0 (DataSize g)\<rparr>
       in case CFE_ES_GenPoolRebuild (cds_storage Cds) (cds_pool0 (DataSize g), h) of
            None \<Rightarrow> None
          | Some ((p, g), Status) \<Rightarrow> Some (g\<lparr>CDSPool := p\<rparr>, if Status \<noteq> CFE_SUCCESS then CFE_ES_CDS_ACCESS_ERROR else Status))"
    using RebuildCDS [of Cds g2] D(6,7,9,12) DS g2(1,3) by (auto simp: stored_ok_def rs_def)
  define h where "h = g3\<lparr>Registry := rs, CDSPool := cds_pool0 (DataSize g)\<rparr>"
  have h: "CDSMemory h = CDSMemory g" using g3 g2(1) by (simp add: h_def same_store_def)
  obtain p' m' free' where r: "CFE_ES_GenPoolRebuild (cds_storage Cds) (cds_pool0 (DataSize g), h) = Some ((p', m'), CFE_SUCCESS)" "same_ram h m'"
    "pool_move g bs p' (CDSMemory m') bs free'" "granted (read_bd (CDSMemory m')) bs free' = cds_held g bs free"
    using rebuild_move [OF inv h] by blast
  define g' where "g' = m'\<lparr>CDSPool := p', CDSIsAvailable := True\<rparr>"
  have f: "TotalSize g' = TotalSize g" "DataSize g' = DataSize g" "Registry g' = rs" "LastCDSBlockId g' = CFE_ES_CDSBLOCKID_BASE" "CDSMemory g' = CDSMemory m'"
    "CDSPool g' = p'" "CDSIsAvailable g'"
    using r(2) g3 g2 by (simp_all add: g'_def h_def same_ram_def same_store_def)
  have "CFE_ES_CDS_EarlyInit Cds CFE_SUCCESS g1 = Some (g', CFE_SUCCESS)"
    using EarlyInit_eq [OF _ v(1)] D(7) T(1) rb r(1) unfolding h_def [symmetric] by (simp add: g'_def)
  then show ?thesis using stored_blocks [OF inv r(3,4) f(1,2) f(3) [unfolded rs_def] f(4-6)] f(7) by blast
qed

section \<open>A new store\<close>

text \<open>Clearing ends and leaves zeros.\<close>

lemma clear_loop_zeros:
  assumes "get_bytes 0 16 (CacheData (Cache g)) = replicate 16 0" "CacheSize (Cache g) = 16 \<or> CacheOffset (Cache g) = TotalSize g"
    and "unat (CacheOffset (Cache g)) \<le> unat (TotalSize g)" "unat (TotalSize g) \<le> unat Cds" "\<And>x. unat x < unat (CacheOffset (Cache g)) \<Longrightarrow> CDSMemory g x = 0"
  shows "\<exists>g'. clear_loop Cds CFE_SUCCESS g = Some (g', CFE_SUCCESS) \<and> same_ram g g' \<and> (\<forall>x. unat x < unat (TotalSize g) \<longrightarrow> CDSMemory g' x = 0)"
  using assms
proof (induction "unat (TotalSize g) - unat (CacheOffset (Cache g))" arbitrary: g rule: less_induct)
  case less
  let ?off = "CacheOffset (Cache g)" and ?T = "TotalSize g"
  show ?case
  proof (cases "?off < ?T")
    case False
    then have "unat ?off = unat ?T" using less.prems(3) by (simp add: word_less_nat_alt)
    then show ?thesis using less.prems(5) False by (subst clear_loop.simps) simp
  next
    case True
    then have lt: "unat ?off < unat ?T" by (simp add: word_less_nat_alt)
    have rem: "unat (?T - ?off) = unat ?T - unat ?off" using lt by (intro unat_sub) (simp add: word_le_nat_alt)
    have Cds: "unat Cds < 2 ^ 32" by (rule total_size)
    define n where "n = (if ?T - ?off < 16 then ?T - ?off else 16)"
    define g1 where "g1 = (if ?T - ?off < 16 then upd_cache (\<lambda>c. c\<lparr>CacheSize := ?T - ?off\<rparr>) g else g)"
    have "CacheSize (Cache g) = 16" using less.prems(2) True by auto
    then have g1: "CacheSize (Cache g1) = n" "CacheOffset (Cache g1) = ?off" "CacheData (Cache g1) = CacheData (Cache g)" "same_ram g g1" "CDSMemory g1 = CDSMemory g"
      by (simp_all add: g1_def n_def)
    have n: "0 < n" "n \<le> 72" "unat n \<le> 16" "unat ?off + unat n \<le> unat ?T" "0 < unat n"
      "n = 16 \<or> unat ?off + unat n = unat ?T"
      using rem lt by (auto simp: n_def word_less_nat_alt word_le_nat_alt)
    obtain g2 st where f: "CFE_ES_CDS_CacheFlush Cds g1 = (g2, st)" by fastforce
    have off: "unat ?off < 2 ^ 32" using lt less.prems(4) Cds by linarith
    note fl = CacheFlush [OF g1(1) n(1,2) g1(2) off f]
    have st: "st = CFE_SUCCESS" using fl(3) n(4) less.prems(4) by linarith
    have zeros: "get_bytes 0 (unat n) (CacheData (Cache g1)) = replicate (unat n) 0"
      using arg_cong [OF less.prems(1), of "take (unat n)"] n(3) g1(3) by (simp add: take_get_bytes)
    have mem: "CDSMemory g2 = put_bytes ?off (replicate (unat n) 0) (CDSMemory g)" using fl(2) st zeros g1(5) by simp
    define g3 where "g3 = upd_cache (\<lambda>c. c\<lparr>CacheOffset := CacheOffset c + CacheSize c\<rparr>) g2"
    have step: "clear_loop Cds CFE_SUCCESS g = clear_loop Cds CFE_SUCCESS g3"
      using True f st by (subst clear_loop.simps) (simp add: g1_def [symmetric] g3_def)
    have ram: "same_ram g g3" using g1(4) fl(1) by (simp add: g3_def same_ram_def)
    have o3: "unat (CacheOffset (Cache g3)) = unat ?off + unat n"
      using fl(5,6) n(4) less.prems(4) Cds by (simp add: g3_def unat_word_ariths)
    have T3: "TotalSize g3 = ?T" using ram by (simp add: same_ram_def)
    have z3: "CDSMemory g3 x = 0" if "unat x < unat ?off + unat n" for x
    proof -
      have "unat ?off + length (replicate (unat n) (0 :: u8)) \<le> 2 ^ 64" using n(4) less.prems(4) Cds by simp
      from put_bytes_at [OF this, of "CDSMemory g" x] show ?thesis using that less.prems(5) mem by (simp add: g3_def)
    qed
    have "\<exists>g'. clear_loop Cds CFE_SUCCESS g3 = Some (g', CFE_SUCCESS) \<and> same_ram g3 g' \<and> (\<forall>x. unat x < unat (TotalSize g3) \<longrightarrow> CDSMemory g' x = 0)"
    proof (rule less.hyps)
      show "unat (TotalSize g3) - unat (CacheOffset (Cache g3)) < unat ?T - unat ?off" using o3 T3 n(5) lt by simp
      show "get_bytes 0 16 (CacheData (Cache g3)) = replicate 16 0" using less.prems(1) fl(4) g1(3) by (simp add: g3_def)
      show "CacheSize (Cache g3) = 16 \<or> CacheOffset (Cache g3) = TotalSize g3"
        using n(6) fl(5) o3 T3 by (auto simp: g3_def word_unat_eq_iff)
      show "unat (CacheOffset (Cache g3)) \<le> unat (TotalSize g3)" "unat (TotalSize g3) \<le> unat Cds" using o3 T3 n(4) less.prems(4) by simp_all
    qed (use z3 o3 in simp)
    then show ?thesis using step ram T3 same_ram_trans by (metis)
  qed
qed

lemma ClearCDS:
  assumes "unat (TotalSize g) \<le> unat Cds"
  shows "\<exists>g'. CFE_ES_ClearCDS Cds g = Some (g', CFE_SUCCESS) \<and> same_ram g g' \<and> (\<forall>x. unat x < unat (TotalSize g) \<longrightarrow> CDSMemory g' x = 0)"
proof -
  let ?g = "upd_cache (\<lambda>c. c\<lparr>CacheData := put_bytes 0 (replicate 16 0) (CacheData c), CacheSize := 16, CacheOffset := 0\<rparr>) g"
  have "\<exists>g'. clear_loop Cds CFE_SUCCESS ?g = Some (g', CFE_SUCCESS) \<and> same_ram ?g g' \<and> (\<forall>x. unat x < unat (TotalSize ?g) \<longrightarrow> CDSMemory g' x = 0)"
    by (rule clear_loop_zeros) (use assms in \<open>simp_all add: get_put_bytes\<close>)
  then show ?thesis by (simp add: CFE_ES_ClearCDS_def CFE_ES_CDS_CachePreload_def upd_cache_def same_ram_def)
qed

text \<open>A few bytes written through the cache.\<close>

lemma preload_flush:
  assumes n: "0 < n" "n \<le> 72" "length bs = unat n" and off: "unat off + unat n \<le> unat Cds"
    and call: "CFE_ES_CDS_CachePreload (PreloadBytes bs) off n g = (g1, s1)"
  shows "\<exists>g'. CFE_ES_CDS_CacheFlush Cds g1 = (g', CFE_SUCCESS) \<and> same_ram g g' \<and> CDSMemory g' = put_bytes off bs (CDSMemory g)"
proof -
  have g1: "g1 = upd_cache (\<lambda>c. c\<lparr>CacheSize := n, CacheOffset := off\<rparr>) (upd_cache (\<lambda>c. c\<lparr>CacheData := put_bytes 0 bs (CacheData c)\<rparr>) g)"
    using call n by (auto simp: CFE_ES_CDS_CachePreload_def)
  obtain g' st where f: "CFE_ES_CDS_CacheFlush Cds g1 = (g', st)" by fastforce
  have lt: "unat off < 2 ^ 32" using off total_size(2) [of Cds] by linarith
  have c: "CacheSize (Cache g1) = n" "CacheOffset (Cache g1) = off" "CacheData (Cache g1) = put_bytes 0 bs (CacheData (Cache g))" "same_ram g g1" "CDSMemory g1 = CDSMemory g"
    by (simp_all add: g1 same_ram_def)
  note fl = CacheFlush [OF c(1) n(1,2) c(2) lt f]
  have st: "st = CFE_SUCCESS" by (rule fl(3) [OF off])
  have "unat n \<le> 72" using n(2) by (simp add: word_le_nat_alt)
  then have "get_bytes 0 (unat n) (CacheData (Cache g1)) = bs" using n(3) c(3) by (simp add: get_put_bytes)
  then show ?thesis using f st fl(1,2) c(4,5) same_ram_trans by auto
qed

lemma load_zero: "load n (\<lambda>_. 0) a = 0"
  by (induction n arbitrary: a) simp_all

lemma no_blocks: "granted d [] (\<lambda>_. []) = Map.empty"
  by (simp add: granted_def in_use_def fun_eq_iff)

text \<open>The registry of a new store.\<close>

abbreviation new_registry :: "CFE_ES_CDS_RegRec list" where
  "new_registry \<equiv> replicate 512 zero_RegRec"

lemma new_registry: "names_ok new_registry" "i < 512 \<Longrightarrow> \<not> used (new_registry ! i)" "reg_ok new_registry Map.empty"
  by (auto simp: names_ok_def reg_ok_def zero_RegRec_def CFE_ES_CDSBlockRecordIsUsed_def)

text \<open>What the start writes into the cleared store.\<close>

lemma new_stored_ok:
  assumes T: "53268 \<le> unat T" "unat T < 2 ^ 32" and zero: "\<And>x. unat x < unat T \<Longrightarrow> m0 x = 0"
  defines "m \<equiv> put_bytes 12 (encode_Registry new_registry) (put_bytes 8 (le_bytes 4 512) (put_bytes (T - 8) CFE_ES_CDS_SIGNATURE_END (put_bytes 0 CFE_ES_CDS_SIGNATURE_BEGIN m0)))"
  shows "stored_ok T new_registry m" "36876 \<le> unat x \<Longrightarrow> unat x < unat T - 8 \<Longrightarrow> m x = 0"
proof -
  have T8: "unat (T - 8) = unat T - 8" using T(1) by (subst unat_sub) (simp_all add: word_le_nat_alt)
  have len: "length CFE_ES_CDS_SIGNATURE_BEGIN = 8" "length CFE_ES_CDS_SIGNATURE_END = 8"
    by (simp_all add: CFE_ES_CDS_SIGNATURE_BEGIN_def CFE_ES_CDS_SIGNATURE_END_def)
  define m1 where "m1 = put_bytes 0 CFE_ES_CDS_SIGNATURE_BEGIN m0"
  define m2 where "m2 = put_bytes (T - 8) CFE_ES_CDS_SIGNATURE_END m1"
  define m3 where "m3 = put_bytes 8 (le_bytes 4 512) m2"
  have at: "m1 x = (if unat x < 8 then CFE_ES_CDS_SIGNATURE_BEGIN ! unat x else m0 x)"
    "m2 x = (if unat T - 8 \<le> unat x \<and> unat x < unat T then CFE_ES_CDS_SIGNATURE_END ! (unat x - (unat T - 8)) else m1 x)"
    "m3 x = (if 8 \<le> unat x \<and> unat x < 12 then le_bytes 4 512 ! (unat x - 8) else m2 x)" for x
    using T T8 len by (auto simp: m1_def m2_def m3_def put_bytes_at)
  have mid: "m3 x = 0" if "12 \<le> unat x" "unat x < unat T - 8" for x using that at zero [of x] by simp
  have "get_bytes 0 8 m3 = CFE_ES_CDS_SIGNATURE_BEGIN"
    using T len by (intro nth_equalityI) (auto simp: at unat_of_nat)
  moreover have "get_bytes (T - 8) 8 m3 = CFE_ES_CDS_SIGNATURE_END"
  proof (rule nth_equalityI)
    fix i assume "i < length (get_bytes (T - 8) 8 m3)"
    then have i: "i < 8" by simp
    have "unat (T - 8 + of_nat i) = unat T - 8 + i" using i T T8 by (subst unat_offset) simp_all
    then show "get_bytes (T - 8) 8 m3 ! i = CFE_ES_CDS_SIGNATURE_END ! i" using i T by (auto simp: at)
  qed (simp add: len)
  moreover have "load 4 m3 8 = 512"
  proof -
    have "le_value (get_bytes 8 4 m3) = le_value (le_bytes 4 512)" by (simp add: m3_def get_put_bytes)
    then show ?thesis by (simp add: le_value_get le_value_le_bytes mask_eq_exp_minus_1)
  qed
  moreover have "\<not> used (stored_rec m3 i)" if i: "i < 512" for i
  proof -
    have "stored_rec m3 i = stored_rec (\<lambda>_. 0) i" by (rule stored_cong [OF i]) (use mid T in simp)
    moreover have "le_value (get_bytes a 4 (\<lambda>_. 0)) = 0" for a by (simp add: le_value_get load_zero)
    ultimately show ?thesis by (simp add: stored_rec_def decode_RegRec_def CFE_ES_CDSBlockRecordIsUsed_def take_get_bytes)
  qed
  ultimately have "stored_ok T new_registry m3" by (simp add: stored_ok_def zero_RegRec_def CFE_ES_CDSBlockRecordIsUsed_def)
  then show "stored_ok T new_registry m"
    unfolding m_def m1_def [symmetric] m2_def [symmetric] m3_def [symmetric] using T T8 new_registry(1) by (intro registry_written(2)) simp_all
  show "m x = 0" if "36876 \<le> unat x" "unat x < unat T - 8"
    unfolding m_def m1_def [symmetric] m2_def [symmetric] m3_def [symmetric]
    using registry_written(1) [OF new_registry(1), of x m3] mid [of x] that by simp
qed

text \<open>A new store is empty, and everything in it is consistent.\<close>

lemma cds_create_new:
  assumes T: "TotalSize g = cds_total Cds" "53268 \<le> unat (cds_total Cds)" "DataSize g = cds_total Cds - 36884" and last: "LastCDSBlockId g = CFE_ES_CDSBLOCKID_BASE"
  shows "\<exists>g'. cds_create Cds g = Some (g', CFE_SUCCESS) \<and> cds_inv Cds g' [] (\<lambda>_. []) \<and> cds_blocks g' = Map.empty"
proof -
  note t = cds_total_unat [of Cds]
  have T8: "unat (cds_total Cds - 8) = unat (cds_total Cds) - 8" using T(2) by (subst unat_sub) (simp_all add: word_le_nat_alt)
  have D: "unat (cds_total Cds - 36884) = unat (cds_total Cds) - 36884" using T(2) by (subst unat_sub) (simp_all add: word_le_nat_alt)
  have len: "length CFE_ES_CDS_SIGNATURE_BEGIN = 8" "length CFE_ES_CDS_SIGNATURE_END = 8"
    by (simp_all add: CFE_ES_CDS_SIGNATURE_BEGIN_def CFE_ES_CDS_SIGNATURE_END_def)
  obtain g0 where g0: "CFE_ES_ClearCDS Cds g = Some (g0, CFE_SUCCESS)" "same_ram g g0" "\<forall>x. unat x < unat (cds_total Cds) \<longrightarrow> CDSMemory g0 x = 0"
    using ClearCDS [of g Cds] t(1) T(1) by auto
  obtain h1 s1 where p1: "CFE_ES_CDS_CachePreload (PreloadBytes CFE_ES_CDS_SIGNATURE_BEGIN) 0 8 g0 = (h1, s1)" by fastforce
  obtain g1 where g1: "CFE_ES_CDS_CacheFlush Cds h1 = (g1, CFE_SUCCESS)" "same_ram g0 g1" "CDSMemory g1 = put_bytes 0 CFE_ES_CDS_SIGNATURE_BEGIN (CDSMemory g0)"
    using preload_flush [OF _ _ _ _ p1, of Cds] len t T(2) by auto
  have T1: "TotalSize g1 = cds_total Cds" using g0(2) g1(2) T(1) by (simp add: same_ram_def)
  obtain h2 s2 where p2: "CFE_ES_CDS_CachePreload (PreloadBytes CFE_ES_CDS_SIGNATURE_END) (cds_total Cds - 8) 8 g1 = (h2, s2)" by fastforce
  obtain g2 where g2: "CFE_ES_CDS_CacheFlush Cds h2 = (g2, CFE_SUCCESS)" "same_ram g1 g2" "CDSMemory g2 = put_bytes (cds_total Cds - 8) CFE_ES_CDS_SIGNATURE_END (CDSMemory g1)"
    using preload_flush [OF _ _ _ _ p2, of Cds] len t T(2) T8 by auto
  have sig: "CFE_ES_InitCDSSignatures Cds g0 = (g2, CFE_SUCCESS)" using p1 g1(1) p2 g2(1) T1 by (simp add: CFE_ES_InitCDSSignatures_def)
  have D2: "DataSize g2 = cds_total Cds - 36884" using g0(2) g1(2) g2(2) T(3) by (simp add: same_ram_def)
  let ?D = "cds_total Cds - 36884" and ?g3 = "g2\<lparr>CDSPool := cds_pool0 (cds_total Cds - 36884)\<rparr>"
  have lt: "36876 + unat ?D < 2 ^ 32" using D t T(2) by simp
  have "\<not> ?D < 32" using D T(2) by (simp add: word_less_nat_alt)
  then have pool: "CFE_ES_CreateCDSPool ?D 36876 g2 = (?g3, CFE_SUCCESS)" using cds_pool0(1) [OF lt] by (simp add: CFE_ES_CreateCDSPool_def min_size)
  obtain h4 s4 where p4: "CFE_ES_CDS_CachePreload (PreloadBytes (le_bytes 4 512)) 8 4 ?g3 = (h4, s4)" by fastforce
  obtain g4 where g4: "CFE_ES_CDS_CacheFlush Cds h4 = (g4, CFE_SUCCESS)" "same_ram ?g3 g4" "CDSMemory g4 = put_bytes 8 (le_bytes 4 512) (CDSMemory g2)"
    using preload_flush [OF _ _ _ _ p4, of Cds] t T(2) by auto
  define g' where "g' = g4\<lparr>Registry := new_registry, CDSMemory := put_bytes 12 (encode_Registry new_registry) (CDSMemory g4)\<rparr>"
  have "CFE_ES_UpdateCDSRegistry Cds (g4\<lparr>Registry := new_registry\<rparr>) = (g', CFE_SUCCESS)"
    using UpdateCDSRegistry [of "g4\<lparr>Registry := new_registry\<rparr>" Cds] new_registry(1) t T(2) by (simp add: g'_def)
  then have "CFE_ES_InitCDSRegistry Cds ?g3 = (g', CFE_SUCCESS)" using p4 g4(1) by (simp add: CFE_ES_InitCDSRegistry_def)
  then have ev: "cds_create Cds g = Some (g', CFE_SUCCESS)" using g0(1) sig pool D2 by (simp add: cds_create_def)
  have f: "CDSPool g' = cds_pool0 ?D" "TotalSize g' = cds_total Cds" "DataSize g' = ?D" "Registry g' = new_registry" "LastCDSBlockId g' = CFE_ES_CDSBLOCKID_BASE"
    using g0(2) g1(2) g2(2) g4(2) T last by (simp_all add: g'_def same_ram_def)
  have m': "CDSMemory g' = put_bytes 12 (encode_Registry new_registry) (put_bytes 8 (le_bytes 4 512)
      (put_bytes (cds_total Cds - 8) CFE_ES_CDS_SIGNATURE_END (put_bytes 0 CFE_ES_CDS_SIGNATURE_BEGIN (CDSMemory g0))))"
    using g1(3) g2(3) g4(3) by (simp add: g'_def)
  note n = new_stored_ok [OF T(2) t(2), of "CDSMemory g0", folded m'] 
  have "stored_ok (cds_total Cds) new_registry (CDSMemory g')" by (rule n(1)) (use g0(3) in simp)
  moreover have "clear_tail (cds_pool0 ?D) (CDSMemory g')"
    unfolding clear_tail_def using cds_pool0(3,4) [OF lt] D T(2) g0(3) by (auto intro!: n(2))
  moreover have "53268 \<le> cds_total Cds" using T(2) by (simp add: word_le_nat_alt)
  ultimately have "cds_inv Cds g' [] (\<lambda>_. [])"
    unfolding cds_inv_def run_of_inv using f cds_pool0(2) [OF lt] new_registry(3)
    by (simp add: no_blocks cds_total_def CFE_ResourceId_GetBase_def)
  moreover have "cds_blocks g' = Map.empty"
  proof
    fix K show "cds_blocks g' K = None"
      using f(4) new_registry(2) Locate_cds_lt [of K] Locate_cds_undefined
      by (auto simp: cds_blocks_None CFE_ES_CDSBlockRecordIsMatch_def zero_RegRec_def)
  qed
  ultimately show ?thesis using ev by blast
qed

lemma cds_start_new:
  assumes T: "53268 \<le> unat (cds_total Cds)"
    and bad: "get_bytes 0 8 (CDSMemory g) \<noteq> CFE_ES_CDS_SIGNATURE_BEGIN \<or> get_bytes (cds_total Cds - 8) 8 (CDSMemory g) \<noteq> CFE_ES_CDS_SIGNATURE_END \<or>
      load 4 (CDSMemory g) 8 \<noteq> 512"
  shows "\<exists>g'. CFE_ES_CDS_EarlyInit Cds CFE_SUCCESS g = Some (g', CFE_SUCCESS) \<and> CDSIsAvailable g' \<and> cds_inv Cds g' [] (\<lambda>_. []) \<and> cds_blocks g' = Map.empty"
proof -
  note t = cds_total_unat [of Cds]
  have D: "unat (cds_total Cds - 36884) = unat (cds_total Cds) - 36884" using T by (subst unat_sub) (simp_all add: word_le_nat_alt)
  have s: "TotalSize (started Cds g) = cds_total Cds" "CDSMemory (started Cds g) = CDSMemory g" "DataSize (started Cds g) = cds_total Cds - 36884"
    "LastCDSBlockId (started Cds g) = CFE_ES_CDSBLOCKID_BASE" by (simp_all add: started_def)
  obtain g2 st where v: "CFE_ES_ValidateCDS Cds (started Cds g) = (g2, st)" "same_store (started Cds g) g2" "st = CFE_SUCCESS \<or> st = CFE_ES_CDS_INVALID"
    and st: "st = CFE_SUCCESS \<Longrightarrow> load 4 (CDSMemory g) 8 \<noteq> 512"
    using ValidateCDS [of "started Cds g" Cds] s T t bad by (auto split: if_splits)
  obtain g3 where g3: "same_store g2 g3" "st = CFE_SUCCESS \<Longrightarrow> CFE_ES_RebuildCDS Cds g2 = Some (g3, CFE_ES_CDS_INVALID)"
  proof -
    have "CDSMemory g2 = CDSMemory g" "DataSize g2 = cds_total Cds - 36884" using v(2) s by (simp_all add: same_store_def same_ram_def)
    moreover have "36876 \<le> unat Cds" "32 \<le> unat (cds_total Cds - 36884)" "36876 + unat (cds_total Cds - 36884) < 2 ^ 32" using T D t by simp_all
    ultimately obtain h where "same_store g2 h" "load 4 (CDSMemory g) 8 \<noteq> 512 \<Longrightarrow> CFE_ES_RebuildCDS Cds g2 = Some (h, CFE_ES_CDS_INVALID)"
      using RebuildCDS [of Cds g2] by auto
    then show ?thesis using that st by blast
  qed
  define g4 where "g4 = (if st = CFE_SUCCESS then g3 else g2)"
  have "same_store (started Cds g) g4" using v(2) g3(1) by (auto simp: g4_def same_store_def intro: same_ram_trans)
  then have "TotalSize g4 = cds_total Cds" "DataSize g4 = cds_total Cds - 36884" "LastCDSBlockId g4 = CFE_ES_CDSBLOCKID_BASE"
    using s by (simp_all add: same_store_def same_ram_def)
  then obtain g' where g': "cds_create Cds g4 = Some (g', CFE_SUCCESS)" "cds_inv Cds g' [] (\<lambda>_. [])" "cds_blocks g' = Map.empty"
    using cds_create_new [of g4 Cds] T by auto
  have "CFE_ES_CDS_EarlyInit Cds CFE_SUCCESS g = Some (g'\<lparr>CDSIsAvailable := True\<rparr>, CFE_SUCCESS)"
    using EarlyInit_eq [OF T v(1)] v(3) g3(2) g'(1) by (auto simp: g4_def)
  moreover have "cds_inv Cds (g'\<lparr>CDSIsAvailable := True\<rparr>) [] (\<lambda>_. [])"
    using cds_invD(1,3,8,9,16) [OF g'(2)] by (intro cds_invI [OF g'(2)]) simp_all
  moreover have "cds_blocks (g'\<lparr>CDSIsAvailable := True\<rparr>) = Map.empty" using g'(3) by (simp add: cds_blocks_None CFE_ES_CDSBlockRecordIsMatch_def fun_eq_iff)
  ultimately show ?thesis by (intro exI [of _ "g'\<lparr>CDSIsAvailable := True\<rparr>"]) simp
qed

lemma cds_start_none:
  shows "Mut \<noteq> CFE_SUCCESS \<Longrightarrow> CFE_ES_CDS_EarlyInit Cds Mut g = Some (g\<lparr>CDSIsAvailable := False\<rparr>, CFE_STATUS_EXTERNAL_RESOURCE_FAIL)"
    and "unat (cds_total Cds) < 53268 \<Longrightarrow> \<exists>g'. CFE_ES_CDS_EarlyInit Cds CFE_SUCCESS g = Some (g', CFE_SUCCESS) \<and> \<not> CDSIsAvailable g' \<and> CDSMemory g' = CDSMemory g"
  by (simp_all add: CFE_ES_CDS_EarlyInit_def CFE_PSP_GetCDSSize_def min_size cds_total_def [symmetric] word_less_nat_alt)

end
