(* ===== verification/CFE_ES_CDS_Thms.thy ===== *)
theory CFE_ES_CDS_Thms
  imports CFE_ES_CDS_Init
begin

unbundle bit_operations_syntax

text \<open>
  What the critical data store promises to its users: the blocks as an abstract map, the calls as steps on that map,
  round trips, detection of corruption, recovery after a reset; and states on which all of this is seen to apply.
\<close>

section \<open>Calls\<close>

text \<open>An application with the name in front of the dot is running.\<close>

definition owner_running :: "CFE_ES_Tables \<Rightarrow> string \<Rightarrow> bool" where
  "owner_running es Name \<longleftrightarrow> fst (CFE_ES_GetAppIDByName (Some 0) (Some (takeWhile (\<lambda>c. c \<noteq> CHR ''.'') (take 19 Name))) es) = CFE_SUCCESS"

text \<open>
  The calls with their arguments, and their answers next to the status.  A reset keeps the memory of the store; all the rest of the state
  is arbitrary after it, and the start of the store follows.
\<close>

datatype cds_call =
  RegisterCall u64 string bool CFE_ResourceId
| CopyCall CFE_ResourceId "u8 list ptr"
| RestoreCall "u8 list ptr" CFE_ResourceId
| DeleteCall CFE_ES_Tables string bool
| ResetCall CFE_ES_CDS_Instance

datatype cds_answer = NoAnswer | HandleAnswer CFE_ResourceId | BufferAnswer "u8 list ptr"

fun cds_exec :: "u32 \<Rightarrow> cds_call \<Rightarrow> CFE_ES_CDS_Instance \<Rightarrow> (CFE_ES_CDS_Instance \<times> int32 \<times> cds_answer) option" where
  "cds_exec Cds (RegisterCall n Name tbl Handle) g =
     (case CFE_ES_RegisterCDSEx Cds n Name tbl Handle g of (g', st, H) \<Rightarrow> Some (g', st, HandleAnswer H))"
| "cds_exec Cds (CopyCall H data) g = (case CFE_ES_CopyToCDS Cds H data g of (g', st) \<Rightarrow> Some (g', st, NoAnswer))"
| "cds_exec Cds (RestoreCall buf H) g = (case CFE_ES_RestoreFromCDS Cds buf H g of (g', st, out) \<Rightarrow> Some (g', st, BufferAnswer out))"
| "cds_exec Cds (DeleteCall es Name tbl) g = (case CFE_ES_DeleteCDS Cds es Name tbl g of (g', st) \<Rightarrow> Some (g', st, NoAnswer))"
| "cds_exec Cds (ResetCall ram) g =
     (case CFE_ES_CDS_EarlyInit Cds CFE_SUCCESS (ram\<lparr>CDSMemory := CDSMemory g\<rparr>) of None \<Rightarrow> None | Some (g', st) \<Rightarrow> Some (g', st, NoAnswer))"

text \<open>What the same calls do to the abstract map.\<close>

type_synonym cds_map = "CFE_ResourceId \<rightharpoonup> string \<times> bool \<times> u8 list"

fun store_call :: "cds_call \<Rightarrow> cds_map \<Rightarrow> int32 \<Rightarrow> cds_answer \<Rightarrow> cds_map \<Rightarrow> bool" where
  "store_call (RegisterCall n Name tbl Handle) m st a m' =
     (if n = 0 \<or> CDS_ABS_MAX_BLOCK_SIZE < n then st = CFE_ES_CDS_INVALID_SIZE \<and> a = HandleAnswer Handle \<and> m' = m
      else if \<exists>H t b. m H = Some (Name, t, b)
      then \<exists>H t b. m H = Some (Name, t, b) \<and> a = HandleAnswer H \<and>
        (if length b = unat n + 4 then st = CFE_ES_CDS_ALREADY_EXISTS \<and> m' = m
         else st = CFE_SUCCESS \<and> (\<exists>b'. length b' = unat n + 4 \<and> m' = m(H \<mapsto> (Name, t, b'))))
      else if 512 \<le> card (dom m) then st = CFE_ES_NO_RESOURCE_IDS_AVAILABLE \<and> a = HandleAnswer CFE_RESOURCEID_UNDEFINED \<and> m' = m
      else (\<exists>H b. st = CFE_SUCCESS \<and> a = HandleAnswer H \<and> m H = None \<and> length b = unat n + 4 \<and> m' = m(H \<mapsto> (Name, tbl, b))) \<or>
        st = CFE_ES_ERR_MEM_BLOCK_SIZE \<and> m' = m)"
| "store_call (CopyCall H data) m st a m' =
     (a = NoAnswer \<and>
      (case (data, m H) of
         (None, _) \<Rightarrow> st = CFE_ES_BAD_ARGUMENT \<and> m' = m
       | (Some xs, None) \<Rightarrow> st = CFE_ES_ERR_RESOURCEID_NOT_VALID \<and> m' = m
       | (Some xs, Some (n, t, b)) \<Rightarrow> st = CFE_SUCCESS \<and> m' = m(H \<mapsto> (n, t, sealed (take (length b - 4) xs)))))"
| "store_call (RestoreCall buf H) m st a m' =
     (m' = m \<and>
      (case (buf, m H) of
         (None, _) \<Rightarrow> st = CFE_ES_BAD_ARGUMENT \<and> a = BufferAnswer NULL
       | (Some xs, None) \<Rightarrow> st = CFE_ES_ERR_RESOURCEID_NOT_VALID \<and> a = BufferAnswer (Some xs)
       | (Some xs, Some (n, t, b)) \<Rightarrow> st = (if seal_ok b then CFE_SUCCESS else CFE_ES_CDS_BLOCK_CRC_ERR) \<and>
           a = BufferAnswer (Some (drop 4 b @ drop (length b - 4) xs))))"
| "store_call (DeleteCall es Name tbl) m st a m' =
     (a = NoAnswer \<and>
      (if \<exists>H t b. m H = Some (Name, t, b)
       then \<exists>H t b. m H = Some (Name, t, b) \<and>
         (if t \<noteq> tbl then st = CFE_ES_CDS_WRONG_TYPE_ERR \<and> m' = m
          else if owner_running es Name then st = CFE_ES_CDS_OWNER_ACTIVE_ERR \<and> m' = m
          else st = CFE_SUCCESS \<and> m' = m(H := None))
       else st = CFE_ES_ERR_NAME_NOT_FOUND \<and> m' = m))"
| "store_call (ResetCall ram) m st a m' = (st = CFE_SUCCESS \<and> a = NoAnswer \<and> m' = m)"

text \<open>A failed change of size: the block is lost, and with it the consistency of the store.\<close>

definition store_lost :: "cds_call \<Rightarrow> cds_map \<Rightarrow> int32 \<Rightarrow> cds_answer \<Rightarrow> cds_map \<Rightarrow> bool" where
  "store_lost c m st a m' \<longleftrightarrow>
     (\<exists>n Name tbl Handle H t b. c = RegisterCall n Name tbl Handle \<and> 0 < n \<and> n \<le> CDS_ABS_MAX_BLOCK_SIZE \<and> m H = Some (Name, t, b) \<and>
        length b \<noteq> unat n + 4 \<and> st = CFE_ES_ERR_MEM_BLOCK_SIZE \<and> a = HandleAnswer H \<and> m' = m(H \<mapsto> (Name, t, [])))"

text \<open>The duties of the caller: a name fits its field and ends where it should, and the buffer given to a copy is as long as the block.\<close>

fun call_ok :: "cds_call \<Rightarrow> cds_map \<Rightarrow> bool" where
  "call_ok (RegisterCall n Name tbl Handle) m = (length Name < 40 \<and> CHR 0x00 \<notin> set Name)"
| "call_ok (CopyCall H (Some data)) m = (case m H of None \<Rightarrow> True | Some (n, t, b) \<Rightarrow> length b \<le> length data + 4)"
| "call_ok _ m = True"

text \<open>Any calls one after the other, with what each of them answered; and the same on the abstract map.\<close>

inductive cds_run :: "u32 \<Rightarrow> CFE_ES_CDS_Instance \<Rightarrow> (cds_call \<times> int32 \<times> cds_answer) list \<Rightarrow> CFE_ES_CDS_Instance \<Rightarrow> bool" for Cds g where
  none: "cds_run Cds g [] g"
| call: "cds_run Cds g tr g1 \<Longrightarrow> call_ok c (cds_blocks g1) \<Longrightarrow> cds_exec Cds c g1 = Some (g2, st, a) \<Longrightarrow> cds_run Cds g (tr @ [(c, st, a)]) g2"

inductive store_run :: "cds_map \<Rightarrow> (cds_call \<times> int32 \<times> cds_answer) list \<Rightarrow> cds_map \<Rightarrow> bool" for m where
  none: "store_run m [] m"
| call: "store_run m tr m1 \<Longrightarrow> store_call c m1 st a m2 \<Longrightarrow> store_run m (tr @ [(c, st, a)]) m2"

text \<open>One call in a consistent store: it returns, and does what the abstract map does, or it loses a block.\<close>

definition call_refines :: "u32 \<Rightarrow> cds_call \<Rightarrow> CFE_ES_CDS_Instance \<Rightarrow> bool" where
  "call_refines Cds c g \<longleftrightarrow> (\<exists>g' st a. cds_exec Cds c g = Some (g', st, a) \<and>
     (store_call c (cds_blocks g) st a (cds_blocks g') \<and> (\<exists>bs free. cds_inv Cds g' bs free) \<or> store_lost c (cds_blocks g) st a (cds_blocks g')))"

lemma call_refinesI:
  "cds_exec Cds c g = Some (g', st, a) \<Longrightarrow> cds_inv Cds g' bs free \<Longrightarrow> store_call c (cds_blocks g) st a (cds_blocks g') \<Longrightarrow> call_refines Cds c g"
  by (auto simp: call_refines_def)

lemma register_refines:
  assumes inv: "cds_inv Cds g bs free" and name: "length Name < 40" "CHR 0x00 \<notin> set Name"
  shows "call_refines Cds (RegisterCall n Name tbl Handle) g"
proof (cases "n = 0 \<or> CDS_ABS_MAX_BLOCK_SIZE < n")
  case True
  then show ?thesis using register_bad_size [of n Cds Name tbl Handle g] inv by (auto simp: call_refines_def)
next
  case False
  then have n: "0 < n" "n \<le> CDS_ABS_MAX_BLOCK_SIZE" by (auto simp: word_neq_0_conv)
  show ?thesis
  proof (cases "\<forall>K t b. cds_blocks g K \<noteq> Some (Name, t, b)")
    case True
    consider "512 \<le> card (dom (cds_blocks g))" | j where "card (dom (cds_blocks g)) < 512" "fits (CDSPool g) (n + 4) j" "room (CDSPool g) free j"
      | "card (dom (cds_blocks g)) < 512" "\<And>j. fits (CDSPool g) (n + 4) j \<Longrightarrow> \<not> room (CDSPool g) free j" by (meson not_le)
    then show ?thesis
    proof cases
      case 1
      then show ?thesis using register_full [OF inv n True, of tbl Handle] inv True False by (auto simp: call_refines_def)
    next
      case 2
      from register_new [OF inv n name True 2, of tbl Handle] show ?thesis
        using True False 2(1) by (elim exE conjE) (auto simp: call_refines_def)
    next
      case 3
      obtain g' H where "CFE_ES_RegisterCDSEx Cds n Name tbl Handle g = (g', CFE_ES_ERR_MEM_BLOCK_SIZE, H)" "cds_inv Cds g' bs free"
        "cds_blocks g' = cds_blocks g" using register_no_room [OF inv n True 3(1), of tbl Handle] 3(2) by auto
      then show ?thesis
        using True False 3(1) by (intro call_refinesI [of Cds _ g g' CFE_ES_ERR_MEM_BLOCK_SIZE "HandleAnswer H" bs free]) simp_all
    qed
  next
    case known: False
    then obtain H t b where h: "cds_blocks g H = Some (Name, t, b)" by blast
    then have ex: "\<exists>H t b. cds_blocks g H = Some (Name, t, b)" by blast
    show ?thesis
    proof (cases "length b = unat n + 4")
      case True
      then show ?thesis using register_again [OF inv n h, of tbl Handle] inv h ex False by (auto simp: call_refines_def)
    next
      case other: False
      obtain i where i: "CFE_ES_LocateCDSBlockRecordByID H = Some i" using cds_blocks_Some [OF h] by blast
      note r = register_resize [OF inv n h other i, of tbl Handle]
      show ?thesis
      proof (cases "resize_room g bs free i (n + 4)")
        case True
        from r [unfolded if_P [OF True]] show ?thesis using h ex False other by (elim exE conjE) (auto simp: call_refines_def)
      next
        case no: False
        from r [unfolded if_not_P [OF no]] show ?thesis using h n other by (elim exE conjE) (auto simp: call_refines_def store_lost_def)
      qed
    qed
  qed
qed

lemma copy_refines:
  assumes inv: "cds_inv Cds g bs free" and ok: "call_ok (CopyCall H data) (cds_blocks g)"
  shows "call_refines Cds (CopyCall H data) g"
proof (cases data)
  case None
  then show ?thesis using inv by (auto simp: call_refines_def CFE_ES_CopyToCDS_def)
next
  case (Some xs)
  show ?thesis
  proof (cases "cds_blocks g H")
    case None
    then show ?thesis using unknown_handle(1) [OF None, of Cds xs] inv Some by (auto simp: call_refines_def)
  next
    case z: (Some z)
    obtain n t b where h: "cds_blocks g H = Some (n, t, b)" using z by (cases z) auto
    have "length b - 4 \<le> length xs" using ok h Some by simp
    from copy_to_cds [OF inv h this] show ?thesis using h Some by (elim exE conjE) (rule call_refinesI, simp_all)
  qed
qed

lemma restore_refines:
  assumes inv: "cds_inv Cds g bs free"
  shows "call_refines Cds (RestoreCall buf H) g"
proof (cases buf)
  case None
  then show ?thesis using inv by (auto simp: call_refines_def CFE_ES_RestoreFromCDS_def)
next
  case (Some xs)
  show ?thesis
  proof (cases "cds_blocks g H")
    case None
    then show ?thesis using unknown_handle(2) [OF None, of Cds xs] inv Some by (auto simp: call_refines_def)
  next
    case z: (Some z)
    obtain n t b where h: "cds_blocks g H = Some (n, t, b)" using z by (cases z) auto
    obtain g' where r: "CFE_ES_RestoreFromCDS Cds (Some xs) H g =
        (g', if seal_ok b then CFE_SUCCESS else CFE_ES_CDS_BLOCK_CRC_ERR, Some (drop 4 b @ drop (length b - 4) xs))" "same_store g g'"
      using restore_from_cds [OF inv h] by blast
    have "cds_inv Cds g' bs free" "cds_blocks g' = cds_blocks g" using inv same_store_inv [OF r(2)] same_store_blocks [OF r(2)] by simp_all
    then show ?thesis using r(1) h Some by (auto simp: call_refines_def)
  qed
qed

lemma delete_refines:
  assumes inv: "cds_inv Cds g bs free"
  shows "call_refines Cds (DeleteCall es Name tbl) g"
proof (cases "\<forall>H t b. cds_blocks g H \<noteq> Some (Name, t, b)")
  case True
  then show ?thesis using delete_refused(1) [OF inv True, of es tbl] inv by (auto simp: call_refines_def)
next
  case False
  then obtain H t b where h: "cds_blocks g H = Some (Name, t, b)" by blast
  then have ex: "\<exists>H t b. cds_blocks g H = Some (Name, t, b)" by blast
  consider "t \<noteq> tbl" | "t = tbl" "owner_running es Name" | "t = tbl" "\<not> owner_running es Name" by blast
  then show ?thesis
  proof cases
    case 1
    then show ?thesis using delete_refused(2) [OF inv h 1, of es] inv h ex by (auto simp: call_refines_def)
  next
    case 2
    then have "CFE_ES_DeleteCDS Cds es Name tbl g = (g, CFE_ES_CDS_OWNER_ACTIVE_ERR)" using delete_refused(3) [OF inv h] by (simp add: owner_running_def)
    then show ?thesis using inv h ex 2 by (auto simp: call_refines_def)
  next
    case 3
    then obtain g' bs' free' where "CFE_ES_DeleteCDS Cds es Name tbl g = (g', CFE_SUCCESS)" "cds_inv Cds g' bs' free'" "cds_blocks g' = (cds_blocks g)(H := None)"
      using delete_block [OF inv h, of es] by (auto simp: owner_running_def)
    then show ?thesis using h ex 3 by (auto simp: call_refines_def)
  qed
qed

lemma cds_call_refines:
  assumes inv: "cds_inv Cds g bs free" and ok: "call_ok c (cds_blocks g)"
  shows "call_refines Cds c g"
proof (cases c)
  case (RegisterCall n Name tbl Handle)
  then show ?thesis using register_refines [OF inv] ok by simp
next
  case (CopyCall H data)
  then show ?thesis using copy_refines [OF inv] ok by simp
next
  case (ResetCall ram)
  obtain g' free' where "CFE_ES_CDS_EarlyInit Cds CFE_SUCCESS (ram\<lparr>CDSMemory := CDSMemory g\<rparr>) = Some (g', CFE_SUCCESS)"
    "cds_inv Cds g' bs free'" "cds_blocks g' = cds_blocks g" using cds_recover [OF inv, of "ram\<lparr>CDSMemory := CDSMemory g\<rparr>"] by auto
  then show ?thesis using ResetCall by (intro call_refinesI [of Cds c g g' CFE_SUCCESS NoAnswer bs free']) simp_all
qed (use restore_refines [OF inv] delete_refines [OF inv] in simp_all)

text \<open>A run with a call that loses a block, the first of its kind.\<close>

definition loses_block :: "(cds_call \<times> int32 \<times> cds_answer) list \<Rightarrow> bool" where
  "loses_block tr \<longleftrightarrow> (\<exists>tr1 c st a tr2 m m'. tr = tr1 @ (c, st, a) # tr2 \<and> store_run Map.empty tr1 m \<and> store_lost c m st a m')"

lemma loses_block_status: "loses_block tr \<Longrightarrow> \<exists>c a. (c, CFE_ES_ERR_MEM_BLOCK_SIZE, a) \<in> set tr"
  unfolding loses_block_def store_lost_def by (metis in_set_conv_decomp)

lemma cds_run_inv:
  assumes inv: "cds_inv Cds g bs free" "cds_blocks g = Map.empty" and run: "cds_run Cds g tr g'"
  shows "(\<exists>bs free. cds_inv Cds g' bs free) \<and> store_run Map.empty tr (cds_blocks g') \<or> loses_block tr"
  using run
proof induction
  case none
  then show ?case using inv store_run.none [of Map.empty] by auto
next
  case (call tr g1 c g2 st a)
  from call.IH show ?case
  proof (elim disjE conjE exE)
    fix bs free assume g1: "cds_inv Cds g1 bs free" and st: "store_run Map.empty tr (cds_blocks g1)"
    have "store_call c (cds_blocks g1) st a (cds_blocks g2) \<and> (\<exists>bs free. cds_inv Cds g2 bs free) \<or> store_lost c (cds_blocks g1) st a (cds_blocks g2)"
      using cds_call_refines [OF g1 call.hyps(2)] call.hyps(3) by (simp add: call_refines_def)
    then show ?thesis
    proof (elim disjE conjE)
      assume "store_lost c (cds_blocks g1) st a (cds_blocks g2)"
      then have "loses_block (tr @ (c, st, a) # [])" unfolding loses_block_def using st by blast
      then show ?thesis by simp
    qed (use store_run.call [OF st] in blast)
  next
    assume "loses_block tr"
    then obtain tr1 c' st' a' tr2 m m' where l: "tr = tr1 @ (c', st', a') # tr2" "store_run Map.empty tr1 m" "store_lost c' m st' a' m'"
      by (auto simp: loses_block_def)
    then have "tr @ [(c, st, a)] = tr1 @ (c', st', a') # (tr2 @ [(c, st, a)])" by simp
    then have "loses_block (tr @ [(c, st, a)])" unfolding loses_block_def using l(2,3) by blast
    then show ?thesis by simp
  qed
qed

section \<open>A store to look at\<close>

text \<open>The buckets of the pool, in order of size.\<close>

lemma cds_buckets:
  "nbuckets (cds_pool0 D) = 17" "map BlockSize (Buckets (cds_pool0 D)) = rev CFE_ES_CDSMemPoolDefSize"
proof -
  have "sorted (rev CFE_ES_CDSMemPoolDefSize)" "mset (rev CFE_ES_CDSMemPoolDefSize) = mset CFE_ES_CDSMemPoolDefSize"
    by (simp_all add: CFE_ES_CDSMemPoolDefSize_def)
  then have "bubble_sort CFE_ES_CDSMemPoolDefSize = rev CFE_ES_CDSMemPoolDefSize"
    using bubble_sort_correct [of CFE_ES_CDSMemPoolDefSize] by (metis properties_for_sort)
  then show "nbuckets (cds_pool0 D) = 17" "map BlockSize (Buckets (cds_pool0 D)) = rev CFE_ES_CDSMemPoolDefSize"
    by (simp_all add: cds_pool0_def CFE_ES_GenPoolInitialize_def nbuckets_def Let_def CFE_ES_CDSMemPoolDefSize_def)
qed

lemma cds_bsize:
  assumes "cds_inv Cds g bs free"
  shows "nbuckets (CDSPool g) = 17" "j < 17 \<Longrightarrow> bsize (CDSPool g) j = unat (rev CFE_ES_CDSMemPoolDefSize ! j)"
proof -
  note D = cds_invD [OF assms]
  have "NumBuckets (CDSPool g) = NumBuckets (cds_pool0 (DataSize g))" "map BlockSize (Buckets (CDSPool g)) = map BlockSize (Buckets (cds_pool0 (DataSize g)))"
    using D(2) by (simp_all add: shape_def)
  then show "nbuckets (CDSPool g) = 17" and m: "j < 17 \<Longrightarrow> bsize (CDSPool g) j = unat (rev CFE_ES_CDSMemPoolDefSize ! j)"
    using cds_buckets [of "DataSize g"] pool_invD(9) [OF D(1)] nth_map [of j "Buckets (CDSPool g)" BlockSize] by (simp_all add: nbuckets_def bsize_def)
qed

definition blank_store :: CFE_ES_CDS_Instance where
  "blank_store = \<lparr>CDSPool = cds_pool0 0, Cache = \<lparr>CacheData = \<lambda>_. 0, CacheOffset = 0, CacheSize = 0, AccessStatus = 0\<rparr>, TotalSize = 0, DataSize = 0,
     LastCDSBlockId = 0, Registry = new_registry, CDSIsAvailable = False, CDSMemory = \<lambda>_. 0\<rparr>"

definition new_store :: CFE_ES_CDS_Instance where
  "new_store = fst (the (CFE_ES_CDS_EarlyInit 0x20000 CFE_SUCCESS blank_store))"

lemma blank_total: "cds_total 0x20000 = 0x20000" "get_bytes 0 8 (CDSMemory blank_store) \<noteq> CFE_ES_CDS_SIGNATURE_BEGIN"
  by (simp_all add: cds_total_def blank_store_def get_bytes_def CFE_ES_CDS_SIGNATURE_BEGIN_def upt_conv_Cons)

lemma new_store:
  "CFE_ES_CDS_EarlyInit 0x20000 CFE_SUCCESS blank_store = Some (new_store, CFE_SUCCESS)" "CDSIsAvailable new_store"
  "cds_inv 0x20000 new_store [] (\<lambda>_. [])" "cds_blocks new_store = Map.empty"
  using cds_start_new [of "0x20000" blank_store] blank_total by (auto simp: new_store_def)

lemma new_room: "fits (CDSPool new_store) 12 1" "room (CDSPool new_store) (\<lambda>_. []) 1"
proof -
  note D = cds_invD [OF new_store(3)] and b = cds_bsize [OF new_store(3)]
  show "fits (CDSPool new_store) 12 1"
    unfolding fits_def using b by (auto simp: CFE_ES_CDSMemPoolDefSize_def)
  have T: "unat (TailPosition (CDSPool new_store)) = 36876" using pool_invD(2) [OF D(1)] by simp
  have "TotalSize new_store = 0x20000" using new_store(3) blank_total(1) unfolding cds_inv_def cds_total_def by simp
  then have "unat (PoolMaxOffset (CDSPool new_store)) = 131064" using D(5) by simp
  moreover have "unat (next_block (CDSPool new_store)) = 36900" using next_block_unat(1) [OF D(1)] T by (simp add: align_up_def)
  ultimately show "room (CDSPool new_store) (\<lambda>_. []) 1" using b(2) [of 1] by (simp add: room_def CFE_ES_CDSMemPoolDefSize_def)
qed

text \<open>A store with one block of eight bytes.\<close>

definition one_store :: CFE_ES_CDS_Instance where
  "one_store = fst (CFE_ES_RegisterCDSEx 0x20000 8 ''APP.DATA'' False 0 new_store)"

lemma one_store:
  "\<exists>H b bs free. CFE_ES_RegisterCDSEx 0x20000 8 ''APP.DATA'' False 0 new_store = (one_store, CFE_SUCCESS, H) \<and> cds_inv 0x20000 one_store bs free \<and>
     length b = 12 \<and> cds_blocks one_store = [H \<mapsto> (''APP.DATA'', False, b)]"
proof -
  have "\<exists>g' H b bs' free'. CFE_ES_RegisterCDSEx 0x20000 8 ''APP.DATA'' False 0 new_store = (g', CFE_SUCCESS, H) \<and> cds_inv 0x20000 g' bs' free' \<and>
      cds_blocks new_store H = None \<and> length b = unat (8 :: u64) + 4 \<and> cds_blocks g' = (cds_blocks new_store)(H \<mapsto> (''APP.DATA'', False, b))"
    by (rule register_new [OF new_store(3)]) (use new_room new_store(4) in simp_all)
  then show ?thesis unfolding one_store_def using new_store(4) by fastforce
qed

text \<open>Tables of executive services without applications.\<close>

definition no_tables :: CFE_ES_Tables where
  "no_tables = \<lparr>AppTable = [], LibTable = [], CounterTable = [], LastCounterId = 0\<rparr>"

section \<open>Properties\<close>

text \<open>
  C14. The whole component.  Start from memory without a valid store, and then register, copy, restore and delete in any order,
  with resets in between that keep the memory of the store and nothing else; names fit their field and the data of a copy is as long as
  the block.  As long as no change of the size of a block has failed, the store is consistent, and each call has done to the map of
  the blocks, and has answered, what the map says for that call and its arguments: the block that is added, replaced, sealed,
  read or removed is the one the call names.  In such a state every next call returns, and does the same again, or it is the failed
  change of size: then it reports the failure, and its block is lost.  What follows after a lost block is not
  claimed; \<open>cds_register_correct\<close> says when a block is lost and what is left of it.
\<close>

theorem cds_run_refines:
  assumes size: "53268 \<le> unat (cds_total Cds)" and blank: "get_bytes 0 8 (CDSMemory g0) \<noteq> CFE_ES_CDS_SIGNATURE_BEGIN"
    and start: "CFE_ES_CDS_EarlyInit Cds CFE_SUCCESS g0 = Some (g, st)" and run: "cds_run Cds g tr g'" and kept: "\<not> loses_block tr"
  shows "(\<exists>bs free. cds_inv Cds g' bs free) \<and> store_run Map.empty tr (cds_blocks g') \<and>
    (\<forall>c. call_ok c (cds_blocks g') \<longrightarrow> (\<exists>g2 st a. cds_exec Cds c g' = Some (g2, st, a) \<and>
      (store_call c (cds_blocks g') st a (cds_blocks g2) \<and> (\<exists>bs free. cds_inv Cds g2 bs free) \<or>
       store_lost c (cds_blocks g') st a (cds_blocks g2))))"
proof -
  have "cds_inv Cds g [] (\<lambda>_. [])" "cds_blocks g = Map.empty" using cds_start_new [OF size, of g0] blank start by auto
  from cds_run_inv [OF this run] kept obtain bs free where g': "cds_inv Cds g' bs free" "store_run Map.empty tr (cds_blocks g')" by blast
  show ?thesis using g' cds_call_refines [OF g'(1)] unfolding call_refines_def by blast
qed

text \<open>A block is registered, data is copied to it, and the system is reset.\<close>

theorem cds_run_refines_witness:
  "\<exists>H g2 tr. CFE_ES_RegisterCDSEx 0x20000 8 ''APP.DATA'' False 0 new_store = (one_store, CFE_SUCCESS, H) \<and>
    tr = [(RegisterCall 8 ''APP.DATA'' False 0, CFE_SUCCESS, HandleAnswer H), (CopyCall H (Some [1, 2, 3, 4, 5, 6, 7, 8]), CFE_SUCCESS, NoAnswer),
      (ResetCall blank_store, CFE_SUCCESS, NoAnswer)] \<and>
    cds_run 0x20000 new_store tr g2 \<and> store_run Map.empty tr (cds_blocks g2) \<and> (\<exists>bs free. cds_inv 0x20000 g2 bs free) \<and>
    cds_blocks g2 = [H \<mapsto> (''APP.DATA'', False, sealed [1, 2, 3, 4, 5, 6, 7, 8])]"
proof -
  let ?d = "[1, 2, 3, 4, 5, 6, 7, 8]"
  obtain H b bs free where o: "CFE_ES_RegisterCDSEx 0x20000 8 ''APP.DATA'' False 0 new_store = (one_store, CFE_SUCCESS, H)"
    "cds_inv 0x20000 one_store bs free" "length b = 12" "cds_blocks one_store = [H \<mapsto> (''APP.DATA'', False, b)]" using one_store by blast
  have h: "cds_blocks one_store H = Some (''APP.DATA'', False, b)" using o(4) by simp
  obtain g1 where c: "CFE_ES_CopyToCDS 0x20000 H (Some ?d) one_store = (g1, CFE_SUCCESS)" "cds_inv 0x20000 g1 bs free"
    "cds_blocks g1 = [H \<mapsto> (''APP.DATA'', False, sealed ?d)]" using copy_to_cds [OF o(2) h, of ?d] o(3,4) by auto
  obtain g2 where g2: "CFE_ES_CDS_EarlyInit 0x20000 CFE_SUCCESS (blank_store\<lparr>CDSMemory := CDSMemory g1\<rparr>) = Some (g2, CFE_SUCCESS)"
    "cds_blocks g2 = cds_blocks g1" using cds_recover [OF c(2), of "blank_store\<lparr>CDSMemory := CDSMemory g1\<rparr>"] by auto
  have "cds_run 0x20000 new_store ([] @ [(RegisterCall 8 ''APP.DATA'' False 0, CFE_SUCCESS, HandleAnswer H)]) one_store"
    by (rule cds_run.call [OF cds_run.none]) (simp_all add: o(1))
  then have "cds_run 0x20000 new_store (([] @ [(RegisterCall 8 ''APP.DATA'' False 0, CFE_SUCCESS, HandleAnswer H)]) @ [(CopyCall H (Some ?d), CFE_SUCCESS, NoAnswer)]) g1"
    by (rule cds_run.call) (simp_all add: c(1) h o(3))
  from cds_run.call [OF this, of "ResetCall blank_store" g2 CFE_SUCCESS NoAnswer]
  have run: "cds_run 0x20000 new_store [(RegisterCall 8 ''APP.DATA'' False 0, CFE_SUCCESS, HandleAnswer H), (CopyCall H (Some ?d), CFE_SUCCESS, NoAnswer),
      (ResetCall blank_store, CFE_SUCCESS, NoAnswer)] g2" (is "cds_run _ _ ?tr _") using g2(1) by simp
  have "\<not> loses_block ?tr"
    using loses_block_status [of ?tr] by auto
  from cds_run_refines [OF _ blank_total(2) new_store(1) run this] have "store_run Map.empty ?tr (cds_blocks g2) \<and> (\<exists>bs free. cds_inv 0x20000 g2 bs free)"
    using blank_total(1) by simp
  then show ?thesis using o(1) run g2(2) c(3) by (intro exI [of _ H] exI [of _ g2] exI [of _ ?tr]) simp
qed

text \<open>
  C15. Recovery.  When a consistent store survives a reset, the start ends, whatever the rest of the memory holds, makes
  the store available, and every block is there with its handle, name, kind and bytes; the data of a block that was
  copied to the store before the reset can be restored after it.
\<close>

theorem cds_survives_reset:
  assumes inv: "cds_inv Cds g bs free" and mem: "CDSMemory g1 = CDSMemory g"
  shows "\<exists>g' free'. CFE_ES_CDS_EarlyInit Cds CFE_SUCCESS g1 = Some (g', CFE_SUCCESS) \<and> CDSIsAvailable g' \<and> cds_inv Cds g' bs free' \<and>
    cds_blocks g' = cds_blocks g \<and>
    (\<forall>H n t data buf. cds_blocks g H = Some (n, t, sealed data) \<longrightarrow>
      (\<exists>g2. CFE_ES_RestoreFromCDS Cds (Some buf) H g' = (g2, CFE_SUCCESS, Some (data @ drop (length data) buf))))"
proof -
  obtain g' free' where r: "CFE_ES_CDS_EarlyInit Cds CFE_SUCCESS g1 = Some (g', CFE_SUCCESS)" "CDSIsAvailable g'" "cds_inv Cds g' bs free'"
    "cds_blocks g' = cds_blocks g" using cds_recover [OF inv mem] by blast
  have "\<exists>g2. CFE_ES_RestoreFromCDS Cds (Some buf) H g' = (g2, CFE_SUCCESS, Some (data @ drop (length data) buf))"
    if "cds_blocks g H = Some (n, t, sealed data)" for H n t data buf
    using restore_from_cds [OF r(3), of H n t "sealed data" buf] that r(4) by (auto simp: sealed_ok)
  then show ?thesis using r by blast
qed

theorem cds_survives_reset_witness:
  "\<exists>g'. CFE_ES_CDS_EarlyInit 0x20000 CFE_SUCCESS (blank_store\<lparr>CDSMemory := CDSMemory one_store\<rparr>) = Some (g', CFE_SUCCESS) \<and> CDSIsAvailable g' \<and>
    cds_blocks g' = cds_blocks one_store \<and> cds_blocks one_store \<noteq> Map.empty"
proof -
  obtain H b bs free where o: "cds_inv 0x20000 one_store bs free" "cds_blocks one_store = [H \<mapsto> (''APP.DATA'', False, b)]" using one_store by blast
  show ?thesis using cds_survives_reset [OF o(1), of "blank_store\<lparr>CDSMemory := CDSMemory one_store\<rparr>"] o(2) by auto
qed

text \<open>
  C16. Round trip.  Data copied to a block is restored from it, byte for byte, and no other block changes; a handle that
  is not in use is refused by both calls, and nothing changes.
\<close>

theorem cds_write_read:
  assumes inv: "cds_inv Cds g bs free"
  shows "(\<forall>n t b. cds_blocks g H = Some (n, t, b) \<and> length data + 4 = length b \<longrightarrow>
      (\<exists>g1 g2. CFE_ES_CopyToCDS Cds H (Some data) g = (g1, CFE_SUCCESS) \<and>
         CFE_ES_RestoreFromCDS Cds (Some buf) H g1 = (g2, CFE_SUCCESS, Some (data @ drop (length data) buf)) \<and>
         cds_inv Cds g2 bs free \<and> (\<forall>K. K \<noteq> H \<longrightarrow> cds_blocks g2 K = cds_blocks g K))) \<and>
    (cds_blocks g H = None \<longrightarrow> CFE_ES_CopyToCDS Cds H (Some data) g = (g, CFE_ES_ERR_RESOURCEID_NOT_VALID) \<and>
       CFE_ES_RestoreFromCDS Cds (Some buf) H g = (g, CFE_ES_ERR_RESOURCEID_NOT_VALID, Some buf))"
proof (intro conjI allI impI)
  fix n t b assume h: "cds_blocks g H = Some (n, t, b) \<and> length data + 4 = length b"
  then have z: "cds_blocks g H = Some (n, t, b)" "length b - 4 \<le> length data" "take (length b - 4) data = data" by auto
  obtain g1 where g1: "CFE_ES_CopyToCDS Cds H (Some data) g = (g1, CFE_SUCCESS)" "cds_inv Cds g1 bs free"
    "cds_blocks g1 = (cds_blocks g)(H \<mapsto> (n, t, sealed data))" using copy_to_cds [OF inv z(1,2)] z(3) by auto
  have "cds_blocks g1 H = Some (n, t, sealed data)" using g1(3) by simp
  from restore_from_cds [OF g1(2) this, of buf] obtain g2 where g2: "same_store g1 g2"
    "CFE_ES_RestoreFromCDS Cds (Some buf) H g1 = (g2, CFE_SUCCESS, Some (data @ drop (length data) buf))" by (auto simp: sealed_ok)
  show "\<exists>g1 g2. CFE_ES_CopyToCDS Cds H (Some data) g = (g1, CFE_SUCCESS) \<and>
      CFE_ES_RestoreFromCDS Cds (Some buf) H g1 = (g2, CFE_SUCCESS, Some (data @ drop (length data) buf)) \<and>
      cds_inv Cds g2 bs free \<and> (\<forall>K. K \<noteq> H \<longrightarrow> cds_blocks g2 K = cds_blocks g K)"
    using g1 g2 same_store_inv [OF g2(1)] same_store_blocks [OF g2(1)] by (intro exI [of _ g1] exI [of _ g2]) simp
qed (use unknown_handle in blast)+

theorem cds_write_read_witness:
  "\<exists>H g1 g2. CFE_ES_CopyToCDS 0x20000 H (Some [1, 2, 3, 4, 5, 6, 7, 8]) one_store = (g1, CFE_SUCCESS) \<and>
    CFE_ES_RestoreFromCDS 0x20000 (Some (replicate 8 0)) H g1 = (g2, CFE_SUCCESS, Some [1, 2, 3, 4, 5, 6, 7, 8])"
proof -
  obtain H b bs free where o: "cds_inv 0x20000 one_store bs free" "length b = 12" "cds_blocks one_store = [H \<mapsto> (''APP.DATA'', False, b)]" using one_store by blast
  have h: "cds_blocks one_store H = Some (''APP.DATA'', False, b)" using o(3) by simp
  show ?thesis using cds_write_read [OF o(1), of H "[1, 2, 3, 4, 5, 6, 7, 8]" "replicate 8 0"] h o(2) by auto
qed

lemma crc_update:
  assumes "k < length data" "v \<noteq> data ! k"
  shows "CFE_ES_CalculateCRC (Some (data[k := v])) init CFE_MISSION_ES_CRC_16 \<noteq> CFE_ES_CalculateCRC (Some data) init CFE_MISSION_ES_CRC_16"
proof -
  have d: "data = take k data @ data ! k # drop (Suc k) data" by (rule id_take_nth_drop [OF assms(1)])
  have "data[k := v] = take k data @ v # drop (Suc k) data" by (rule upd_conv_take_nth_drop [OF assms(1)])
  moreover have "CFE_ES_CalculateCRC (Some (us @ v # vs)) init CFE_MISSION_ES_CRC_16 \<noteq> CFE_ES_CalculateCRC (Some (us @ data ! k # vs)) init CFE_MISSION_ES_CRC_16" for us vs
    using crc_byte_differs [OF assms(2)] by (auto simp: CalculateCRC_eq dest!: scast_inject crc_fold_inject)
  ultimately show ?thesis using d by metis
qed

lemma seal_broken:
  assumes "k < length data" "v \<noteq> data ! k"
  shows "\<not> seal_ok ((sealed data)[4 + k := v])"
proof -
  have l: "length (le_bytes 4 (ucast (CFE_ES_CalculateCRC (Some data) 0 CFE_MISSION_ES_DEFAULT_CRC))) = 4" by simp
  have "(sealed data)[4 + k := v] = le_bytes 4 (ucast (CFE_ES_CalculateCRC (Some data) 0 CFE_MISSION_ES_DEFAULT_CRC)) @ data[k := v]"
    unfolding sealed_def by (simp add: list_update_append)
  then show ?thesis using crc_update [OF assms, of 0] by (simp add: seal_ok_def le_value_u32)
qed

text \<open>
  C17. Corruption.  When one byte of the data of a block changes after it was copied to the store, restoring the block
  answers that the check failed.
\<close>

theorem cds_corruption_detected:
  assumes inv: "cds_inv Cds g bs free" and h: "cds_blocks g H = Some (n, t, b)" "length data + 4 = length b"
    and copy: "CFE_ES_CopyToCDS Cds H (Some data) g = (g1, st)" and i: "CFE_ES_LocateCDSBlockRecordByID H = Some i"
    and a: "a = BlockOffset (Registry g1 ! i) + 4 + of_nat k" "k < length data" "v \<noteq> CDSMemory g1 a"
  shows "fst (snd (CFE_ES_RestoreFromCDS Cds (Some buf) H (cds_poke a v g1))) = CFE_ES_CDS_BLOCK_CRC_ERR"
proof -
  have z: "length b - 4 \<le> length data" "take (length b - 4) data = data" using h(2) by auto
  have g1: "cds_inv Cds g1 bs free" "cds_blocks g1 = (cds_blocks g)(H \<mapsto> (n, t, sealed data))" using copy_to_cds [OF inv h(1) z(1)] z(2) copy by auto
  let ?r = "Registry g1 ! i"
  have j: "i < 512" "used ?r" "BlockID ?r = H" "n = cstring (RegName ?r)" "t = RegTable ?r"
    "sealed data = get_bytes (BlockOffset ?r) (unat (RegBlockSize ?r)) (CDSMemory g1)"
    using cds_blocks_Some [of g1 H n t "sealed data"] g1(2) i by auto
  have len: "unat (RegBlockSize ?r) = length data + 4" using arg_cong [OF j(6), of length] by (simp add: sealed_ok)
  have lim: "unat (BlockOffset ?r) + (length data + 4) < 2 ^ 32" using cds_block(5) [OF g1(1) j(1,2)] cds_invD(5,14) [OF g1(1)] len by simp
  have ua: "unat a = unat (BlockOffset ?r) + (4 + k)"
  proof -
    have "a = BlockOffset ?r + of_nat (4 + k)" using a(1) by simp
    then show ?thesis using unat_offset [of "BlockOffset ?r" "4 + k"] lim a(2) by simp
  qed
  have at: "CDSMemory g1 a = data ! k"
  proof -
    have "sealed data ! (4 + k) = CDSMemory g1 (BlockOffset ?r + of_nat (4 + k))" unfolding j(6) using a(2) len by (intro nth_get_bytes) simp
    moreover have "sealed data ! (4 + k) = data ! k" using sealed_ok(2,3) [of data] a(2) by (metis add.commute le_add1 nth_drop)
    ultimately show ?thesis using a(1) by (simp add: add.assoc)
  qed
  let ?xs = "(sealed data)[4 + k := v]" and ?g = "cds_poke a v g1"
  have "CDSMemory ?g = put_bytes (BlockOffset ?r) ?xs (CDSMemory g1)"
  proof
    fix x
    have l: "unat (BlockOffset ?r) + length ?xs \<le> 2 ^ 64" using lim by (simp add: sealed_ok)
    have in_block: "CDSMemory g1 x = sealed data ! (unat x - unat (BlockOffset ?r))"
      if "unat (BlockOffset ?r) \<le> unat x" "unat x < unat (BlockOffset ?r) + (length data + 4)"
    proof -
      have "BlockOffset ?r + of_nat (unat x - unat (BlockOffset ?r)) = x" using that(1) by (simp add: of_nat_diff)
      then show ?thesis unfolding j(6) using that len by simp
    qed
    have "x = a \<longleftrightarrow> unat x = unat (BlockOffset ?r) + (4 + k)" using ua by (simp add: word_unat_eq_iff)
    then show "CDSMemory ?g x = put_bytes (BlockOffset ?r) ?xs (CDSMemory g1) x"
      using in_block a(2) by (auto simp: put_bytes_at [OF l] cds_poke_def sealed_ok nth_list_update)
  qed
  note w = cds_write_block [OF g1(1) j(1,2) _ _ this]
  have "same_ram g1 ?g" "length ?xs = unat (RegBlockSize ?r)" using len by (simp_all add: cds_poke_def sealed_ok)
  then have "cds_inv Cds ?g bs free" "cds_blocks ?g H = Some (n, t, ?xs)" using w j(3-5) by simp_all
  from restore_from_cds [OF this, of buf] seal_broken [OF a(2), of v] a(3) at show ?thesis by auto
qed

theorem cds_corruption_detected_witness:
  "\<exists>H g1 a. CFE_ES_CopyToCDS 0x20000 H (Some [1, 2, 3, 4, 5, 6, 7, 8]) one_store = (g1, CFE_SUCCESS) \<and>
    fst (snd (CFE_ES_RestoreFromCDS 0x20000 (Some (replicate 8 0)) H (cds_poke a (CDSMemory g1 a + 1) g1))) = CFE_ES_CDS_BLOCK_CRC_ERR"
proof -
  obtain H b bs free where o: "cds_inv 0x20000 one_store bs free" "length b = 12" "cds_blocks one_store = [H \<mapsto> (''APP.DATA'', False, b)]" using one_store by blast
  have h: "cds_blocks one_store H = Some (''APP.DATA'', False, b)" using o(3) by simp
  obtain i where i: "CFE_ES_LocateCDSBlockRecordByID H = Some i" using cds_blocks_Some [OF h] by blast
  obtain g1 where c: "CFE_ES_CopyToCDS 0x20000 H (Some [1, 2, 3, 4, 5, 6, 7, 8]) one_store = (g1, CFE_SUCCESS)"
    using copy_to_cds [OF o(1) h, of "[1, 2, 3, 4, 5, 6, 7, 8]"] o(2) by auto
  let ?a = "BlockOffset (Registry g1 ! i) + 4 + of_nat 2"
  have "fst (snd (CFE_ES_RestoreFromCDS 0x20000 (Some (replicate 8 0)) H (cds_poke ?a (CDSMemory g1 ?a + 1) g1))) = CFE_ES_CDS_BLOCK_CRC_ERR"
    by (rule cds_corruption_detected [OF o(1) h _ c i refl]) (use o(2) in simp_all)
  then show ?thesis using c by blast
qed

text \<open>No bucket has larger blocks than 80000 bytes.\<close>

lemma cds_fits_max:
  assumes "cds_inv Cds g bs free" "fits (CDSPool g) N j"
  shows "unat N \<le> 80000"
proof -
  have j: "j < 17" "unat N \<le> bsize (CDSPool g) j" using assms(2) cds_bsize(1) [OF assms(1)] by (simp_all add: fits_def)
  have "\<forall>s \<in> set (rev CFE_ES_CDSMemPoolDefSize). unat s \<le> 80000" "length (rev CFE_ES_CDSMemPoolDefSize) = 17"
    by (simp_all add: CFE_ES_CDSMemPoolDefSize_def)
  then have "unat (rev CFE_ES_CDSMemPoolDefSize ! j) \<le> 80000" using j(1) by (metis nth_mem)
  then show ?thesis using cds_bsize(2) [OF assms(1) j(1)] j(2) by simp
qed

text \<open>
  C18. Registering a block, on every branch.  Sizes out of range are refused.  A new name gets a block of the size
  under a handle that was not in use, all other blocks unchanged; without a free entry, or without room in the pool, the call is
  refused and no block changes.  A name that is known gets its handle back.  With the same size nothing changes.  With another size
  the old block is given back first: if there is a block of the new size then, from the pool or the old block itself (its bucket is the one the new
  size needs), it replaces the old one; if not, the call reports the failure and the block is lost: the entry keeps its handle with
  offset and size zero, the copy of the registry in the store still names the old block, which the pool counts as free, and
  the other blocks are as they were.
\<close>

theorem cds_register_correct:
  assumes inv: "cds_inv Cds g bs free" and name: "length Name < 40" "CHR 0x00 \<notin> set Name"
  shows "(n = 0 \<or> CDS_ABS_MAX_BLOCK_SIZE < n \<longrightarrow> CFE_ES_RegisterCDSEx Cds n Name tbl Handle g = (g, CFE_ES_CDS_INVALID_SIZE, Handle)) \<and>
    (0 < n \<and> n \<le> CDS_ABS_MAX_BLOCK_SIZE \<longrightarrow>
      ((\<forall>K t b. cds_blocks g K \<noteq> Some (Name, t, b)) \<and> 512 \<le> card (dom (cds_blocks g)) \<longrightarrow>
        CFE_ES_RegisterCDSEx Cds n Name tbl Handle g = (g, CFE_ES_NO_RESOURCE_IDS_AVAILABLE, CFE_RESOURCEID_UNDEFINED)) \<and>
      ((\<forall>K t b. cds_blocks g K \<noteq> Some (Name, t, b)) \<and> card (dom (cds_blocks g)) < 512 \<longrightarrow>
        (if \<exists>j. fits (CDSPool g) (n + 4) j \<and> room (CDSPool g) free j
         then \<exists>g' H b bs' free'. CFE_ES_RegisterCDSEx Cds n Name tbl Handle g = (g', CFE_SUCCESS, H) \<and> cds_inv Cds g' bs' free' \<and>
           cds_blocks g H = None \<and> length b = unat n + 4 \<and> cds_blocks g' = (cds_blocks g)(H \<mapsto> (Name, tbl, b))
         else \<exists>g' H. CFE_ES_RegisterCDSEx Cds n Name tbl Handle g = (g', CFE_ES_ERR_MEM_BLOCK_SIZE, H) \<and> cds_inv Cds g' bs free \<and>
           cds_blocks g' = cds_blocks g)) \<and>
      (\<forall>H t b i. cds_blocks g H = Some (Name, t, b) \<and> CFE_ES_LocateCDSBlockRecordByID H = Some i \<longrightarrow>
        (length b = unat n + 4 \<longrightarrow> CFE_ES_RegisterCDSEx Cds n Name tbl Handle g = (g, CFE_ES_CDS_ALREADY_EXISTS, H)) \<and>
        (length b \<noteq> unat n + 4 \<longrightarrow>
          (if resize_room g bs free i (n + 4)
           then \<exists>g' b' bs' free'. CFE_ES_RegisterCDSEx Cds n Name tbl Handle g = (g', CFE_SUCCESS, H) \<and> cds_inv Cds g' bs' free' \<and>
             length b' = unat n + 4 \<and> cds_blocks g' = (cds_blocks g)(H \<mapsto> (Name, t, b'))
           else \<exists>g'. CFE_ES_RegisterCDSEx Cds n Name tbl Handle g = (g', CFE_ES_ERR_MEM_BLOCK_SIZE, H) \<and> block_lost g bs i g' \<and>
             cds_blocks g' = (cds_blocks g)(H \<mapsto> (Name, t, []))))))"
proof (intro conjI impI allI, goal_cases)
  case 1
  then show ?case by (rule register_bad_size)
next
  case 2
  then show ?case using register_full [OF inv] by blast
next
  case 3
  then show ?case
  proof (cases "\<exists>j. fits (CDSPool g) (n + 4) j \<and> room (CDSPool g) free j")
    case True
    then obtain j where "fits (CDSPool g) (n + 4) j" "room (CDSPool g) free j" by blast
    then show ?thesis unfolding if_P [OF True] using register_new [OF inv _ _ name, of n j tbl Handle] 3 by blast
  next
    case False
    show ?thesis unfolding if_not_P [OF False] using register_no_room [OF inv, of n Name tbl Handle] 3 False by blast
  qed
next
  case (4 H t b i)
  then show ?case using register_again [OF inv] by blast
next
  case (5 H t b i)
  then have n: "0 < n" "n \<le> CDS_ABS_MAX_BLOCK_SIZE" and h: "cds_blocks g H = Some (Name, t, b)" and i: "CFE_ES_LocateCDSBlockRecordByID H = Some i" by blast+
  show ?case by (rule register_resize [OF inv n h 5(3) i])
qed

text \<open>A new block, and its size changed to one that no bucket has: the block is lost.\<close>

theorem cds_register_correct_witness:
  "\<exists>H b g' bs i. CFE_ES_RegisterCDSEx 0x20000 8 ''APP.DATA'' False 0 new_store = (one_store, CFE_SUCCESS, H) \<and>
    cds_blocks one_store = (cds_blocks new_store)(H \<mapsto> (''APP.DATA'', False, b)) \<and> length b = 12 \<and>
    CFE_ES_RegisterCDSEx 0x20000 100000 ''APP.DATA'' False 0 one_store = (g', CFE_ES_ERR_MEM_BLOCK_SIZE, H) \<and> block_lost one_store bs i g' \<and>
    cds_blocks g' = [H \<mapsto> (''APP.DATA'', False, [])]"
proof -
  have nm: "length ''APP.DATA'' < 40" "CHR 0x00 \<notin> set ''APP.DATA''" by simp_all
  have ex: "\<exists>j. fits (CDSPool new_store) (8 + 4) j \<and> room (CDSPool new_store) (\<lambda>_. []) j" using new_room by (intro exI [of _ 1]) simp
  have n: "(0 :: u64) < 8 \<and> 8 \<le> CDS_ABS_MAX_BLOCK_SIZE" "(0 :: u64) < 100000 \<and> 100000 \<le> CDS_ABS_MAX_BLOCK_SIZE" by simp_all
  have new: "(\<forall>K t b. cds_blocks new_store K \<noteq> Some (''APP.DATA'', t, b)) \<and> card (dom (cds_blocks new_store)) < 512" using new_store(4) by simp
  note r = conjunct2 [OF cds_register_correct [OF new_store(3) nm, of 8 False 0], THEN mp, OF n(1)]
  have "\<exists>g' H b bs' free'. CFE_ES_RegisterCDSEx 0x20000 8 ''APP.DATA'' False 0 new_store = (g', CFE_SUCCESS, H) \<and> cds_inv 0x20000 g' bs' free' \<and>
      cds_blocks new_store H = None \<and> length b = unat (8 :: u64) + 4 \<and> cds_blocks g' = (cds_blocks new_store)(H \<mapsto> (''APP.DATA'', False, b))"
    using conjunct1 [OF conjunct2 [OF r], THEN mp, OF new] unfolding if_P [OF ex] .
  then obtain H b bs free where o: "CFE_ES_RegisterCDSEx 0x20000 8 ''APP.DATA'' False 0 new_store = (one_store, CFE_SUCCESS, H)"
    "cds_inv 0x20000 one_store bs free" "length b = 12" "cds_blocks one_store = (cds_blocks new_store)(H \<mapsto> (''APP.DATA'', False, b))"
    by (auto simp: one_store_def)
  then have h: "cds_blocks one_store H = Some (''APP.DATA'', False, b)" by simp
  obtain i where i: "CFE_ES_LocateCDSBlockRecordByID H = Some i" using cds_blocks_Some [OF h] by blast
  have len: "length b \<noteq> unat (100000 :: u64) + 4" using o(3) by simp
  have no: "\<not> resize_room one_store bs free i (100000 + 4)" using cds_fits_max [OF o(2), of "100000 + 4"] by (auto simp: resize_room_def)
  note s = conjunct2 [OF cds_register_correct [OF o(2) nm, of 100000 False 0], THEN mp, OF n(2), THEN conjunct2, THEN conjunct2]
  have "(\<exists>g'. CFE_ES_RegisterCDSEx 0x20000 100000 ''APP.DATA'' False 0 one_store = (g', CFE_ES_ERR_MEM_BLOCK_SIZE, H) \<and> block_lost one_store bs i g' \<and>
      cds_blocks g' = (cds_blocks one_store)(H \<mapsto> (''APP.DATA'', False, [])))"
    using s [rule_format, OF conjI [OF h i], THEN conjunct2, THEN mp, OF len] unfolding if_not_P [OF no] .
  then obtain g' where "CFE_ES_RegisterCDSEx 0x20000 100000 ''APP.DATA'' False 0 one_store = (g', CFE_ES_ERR_MEM_BLOCK_SIZE, H)"
    "block_lost one_store bs i g'" "cds_blocks g' = [H \<mapsto> (''APP.DATA'', False, [])]" using o(4) new_store(4) by auto
  then show ?thesis using o by (intro exI [of _ H] exI [of _ b] exI [of _ g'] exI [of _ bs] exI [of _ i]) simp
qed

text \<open>
  C19. Deleting a block by name.  The block goes, and only that block, when the caller manages blocks of its kind and no
  application of the name in front of the dot is running; the three refusals leave everything as it is.
\<close>

theorem cds_delete_correct:
  assumes inv: "cds_inv Cds g bs free"
  shows "((\<forall>H t b. cds_blocks g H \<noteq> Some (Name, t, b)) \<longrightarrow> CFE_ES_DeleteCDS Cds es Name tbl g = (g, CFE_ES_ERR_NAME_NOT_FOUND)) \<and>
    (\<forall>H t b. cds_blocks g H = Some (Name, t, b) \<longrightarrow>
      (t \<noteq> tbl \<longrightarrow> CFE_ES_DeleteCDS Cds es Name tbl g = (g, CFE_ES_CDS_WRONG_TYPE_ERR)) \<and>
      (t = tbl \<and> owner_running es Name \<longrightarrow> CFE_ES_DeleteCDS Cds es Name tbl g = (g, CFE_ES_CDS_OWNER_ACTIVE_ERR)) \<and>
      (t = tbl \<and> \<not> owner_running es Name \<longrightarrow> (\<exists>g' bs' free'. CFE_ES_DeleteCDS Cds es Name tbl g = (g', CFE_SUCCESS) \<and> cds_inv Cds g' bs' free' \<and>
         cds_blocks g' = (cds_blocks g)(H := None))))"
proof (intro conjI impI allI, goal_cases)
  case 1
  then show ?case by (rule delete_refused(1) [OF inv])
next
  case (2 H t b)
  then show ?case by (rule delete_refused(2) [OF inv])
next
  case (3 H t b)
  then show ?case using delete_refused(3) [OF inv] by (auto simp: owner_running_def)
next
  case (4 H t b)
  then show ?case using delete_block [OF inv] by (auto simp: owner_running_def)
qed

theorem cds_delete_correct_witness:
  "\<exists>g'. CFE_ES_DeleteCDS 0x20000 no_tables ''APP.DATA'' False one_store = (g', CFE_SUCCESS) \<and> cds_blocks g' = Map.empty"
proof -
  obtain H b bs free where o: "cds_inv 0x20000 one_store bs free" "cds_blocks one_store = [H \<mapsto> (''APP.DATA'', False, b)]" using one_store by blast
  have "cds_blocks one_store H = Some (''APP.DATA'', False, b)" using o(2) by simp
  moreover have "\<not> owner_running no_tables ''APP.DATA''"
    by (simp add: owner_running_def CFE_ES_GetAppIDByName_def CFE_ES_LocateAppRecordByName_def no_tables_def)
  ultimately have "\<exists>g' bs' free'. CFE_ES_DeleteCDS 0x20000 no_tables ''APP.DATA'' False one_store = (g', CFE_SUCCESS) \<and> cds_inv 0x20000 g' bs' free' \<and>
      cds_blocks g' = (cds_blocks one_store)(H := None)"
    using conjunct2 [OF cds_delete_correct [OF o(1), of "''APP.DATA''" no_tables False], rule_format, of H False b] by blast
  then show ?thesis using o(2) by auto
qed

text \<open>
  C20. The start on memory that holds no store.  When a signature or the size of the registry is not the expected one, the
  start, clearing included, ends and leaves an empty store that is consistent and available; when the platform
  gives too little memory the store stays unavailable and the memory is not touched; when the mutex cannot be made the
  start fails.
\<close>

theorem cds_start_creates:
  "(53268 \<le> unat (cds_total Cds) \<and>
     (get_bytes 0 8 (CDSMemory g) \<noteq> CFE_ES_CDS_SIGNATURE_BEGIN \<or> get_bytes (cds_total Cds - 8) 8 (CDSMemory g) \<noteq> CFE_ES_CDS_SIGNATURE_END \<or>
      load 4 (CDSMemory g) 8 \<noteq> 512) \<longrightarrow>
     (\<exists>g'. CFE_ES_CDS_EarlyInit Cds CFE_SUCCESS g = Some (g', CFE_SUCCESS) \<and> CDSIsAvailable g' \<and> cds_inv Cds g' [] (\<lambda>_. []) \<and> cds_blocks g' = Map.empty)) \<and>
   (unat (cds_total Cds) < 53268 \<longrightarrow>
     (\<exists>g'. CFE_ES_CDS_EarlyInit Cds CFE_SUCCESS g = Some (g', CFE_SUCCESS) \<and> \<not> CDSIsAvailable g' \<and> CDSMemory g' = CDSMemory g)) \<and>
   (Mut \<noteq> CFE_SUCCESS \<longrightarrow> CFE_ES_CDS_EarlyInit Cds Mut g = Some (g\<lparr>CDSIsAvailable := False\<rparr>, CFE_STATUS_EXTERNAL_RESOURCE_FAIL))"
  using cds_start_new cds_start_none by blast

theorem cds_start_creates_witness:
  "(\<exists>g'. CFE_ES_CDS_EarlyInit 0x20000 CFE_SUCCESS blank_store = Some (g', CFE_SUCCESS) \<and> CDSIsAvailable g' \<and> cds_blocks g' = Map.empty) \<and>
   (\<exists>g'. CFE_ES_CDS_EarlyInit 0x1000 CFE_SUCCESS blank_store = Some (g', CFE_SUCCESS) \<and> \<not> CDSIsAvailable g')"
proof -
  have "cds_total 0x1000 = 0x1000" by (simp add: cds_total_def)
  then show ?thesis using cds_start_creates [of "0x20000" blank_store 0] cds_start_creates [of "0x1000" blank_store 0] blank_total by auto
qed

text \<open>
  Names and handles.  While the store is available, the name of a block leads to its handle and the handle to the
  name; names and handles that are not in use are refused.
\<close>

theorem cds_lookup_roundtrip:
  assumes inv: "cds_inv Cds g bs free" and avail: "CDSIsAvailable g" and buf: "length Name < len" "len \<le> length buf"
  shows "(\<forall>H t b. cds_blocks g H = Some (Name, t, b) \<longrightarrow>
      CFE_ES_GetCDSBlockIDByName (Some x) (Some Name) g = (CFE_SUCCESS, Some H) \<and>
      (\<exists>out. CFE_ES_GetCDSBlockName (Some buf) H len g = (CFE_SUCCESS, Some out) \<and> cstring out = Name)) \<and>
    ((\<forall>H t b. cds_blocks g H \<noteq> Some (Name, t, b)) \<longrightarrow> CFE_ES_GetCDSBlockIDByName (Some x) (Some Name) g = (CFE_ES_ERR_NAME_NOT_FOUND, Some CFE_RESOURCEID_UNDEFINED)) \<and>
    (cds_blocks g K = None \<longrightarrow> fst (CFE_ES_GetCDSBlockName (Some buf) K len g) = CFE_ES_ERR_RESOURCEID_NOT_VALID)"
proof (intro conjI impI allI, goal_cases)
  case (1 H t b)
  then obtain i where "CFE_ES_LocateCDSBlockRecordByName g Name = Some i" "BlockID (Registry g ! i) = H" using name_taken [OF cds_invD(8) [OF inv]] by blast
  then show ?case using avail by (simp add: CFE_ES_GetCDSBlockIDByName_def)
next
  case (2 H t b)
  then obtain i where i: "CFE_ES_LocateCDSBlockRecordByID H = Some i" "BlockID (Registry g ! i) = H" "cstring (RegName (Registry g ! i)) = Name"
    using name_taken [OF cds_invD(8) [OF inv]] by blast
  have "CHR 0x00 \<notin> set Name" unfolding i(3) [symmetric] by (rule no_nul_cstring)
  then have "cstring (copy_name len Name buf) = Name" using copy_name_cstring [of len Name buf] buf(1) by simp
  then show ?case using i avail buf by (simp add: CFE_ES_GetCDSBlockName_def CFE_ES_CDSBlockRecordIsMatch_def)
next
  case 3
  then show ?case using avail name_free [OF cds_invD(8) [OF inv], of Name] by (simp add: CFE_ES_GetCDSBlockIDByName_def)
next
  case 4
  then show ?case using avail buf by (auto simp: cds_blocks_None CFE_ES_GetCDSBlockName_def Let_def)
qed

theorem cds_lookup_roundtrip_witness:
  "\<exists>g H out. CFE_ES_GetCDSBlockIDByName (Some 0) (Some ''APP.DATA'') g = (CFE_SUCCESS, Some H) \<and>
    CFE_ES_GetCDSBlockName (Some (replicate 40 (CHR 0x00))) H 40 g = (CFE_SUCCESS, Some out) \<and> cstring out = ''APP.DATA''"
proof -
  obtain H b bs free where o: "cds_inv 0x20000 one_store bs free" "cds_blocks one_store = [H \<mapsto> (''APP.DATA'', False, b)]" using one_store by blast
  obtain g free' where g: "CDSIsAvailable g" "cds_inv 0x20000 g bs free'" "cds_blocks g = cds_blocks one_store" using cds_recover [OF o(1) refl] by blast
  have h: "cds_blocks g H = Some (''APP.DATA'', False, b)" using g(3) o(2) by simp
  show ?thesis using cds_lookup_roundtrip [OF g(2,1), of "''APP.DATA''" 40 "replicate 40 (CHR 0x00)" 0] h by fastforce
qed

end
