(* ===== verification/CFE_SB_Util.thy ===== *)
theory CFE_SB_Util
  imports CFE_Msg_Id CFS_Printf
begin

unbundle bit_operations_syntax

text \<open>
  The message utilities of the software bus (\<^verbatim>\<open>cfe_sb_util.c\<close>): where the user data of a message starts and how
  long it is, the accessors kept from earlier releases, and the copying of strings between messages and C strings.

  A \<open>size_t\<close> is a 64-bit word, so that the subtraction of the header size can wrap and the error code that is returned
  as a size is sign-extended.  A \<open>char\<close> array is a list of its characters; a variable that a call may leave
  uninitialized is an argument with its old contents.
\<close>

abbreviation (input) CFE_MISSION_SB_MAX_SB_MSG_SIZE64 :: u64 where "CFE_MISSION_SB_MAX_SB_MSG_SIZE64 \<equiv> 32768"

text \<open>Sizes of the header structures of the three message configurations (\<^verbatim>\<open>default_cfe_msg_hdr_*.h\<close>).\<close>

fun sizeof_CommandHeader :: "CFE_MSG_Config \<Rightarrow> u64" where
  "sizeof_CommandHeader MSG_PRI_V1 = 8"
| "sizeof_CommandHeader MSG_PRIEXT_V1 = 16"
| "sizeof_CommandHeader MSG_PRIEXT_V2 = 16"

fun sizeof_TelemetryHeader :: "CFE_MSG_Config \<Rightarrow> u64" where
  "sizeof_TelemetryHeader MSG_PRI_V1 = 16"
| "sizeof_TelemetryHeader MSG_PRIEXT_V1 = 16"
| "sizeof_TelemetryHeader MSG_PRIEXT_V2 = 16"

section \<open>User data\<close>

definition CFE_SB_MsgHdrSize :: "CFE_MSG_Config \<Rightarrow> message ptr \<Rightarrow> u64" where
  "CFE_SB_MsgHdrSize cfg MsgPtr =
     (if MsgPtr = NULL then scast CFE_SB_BAD_ARGUMENT
      else
        (let hassechdr = the (snd (CFE_MSG_GetHasSecondaryHeader MsgPtr (Some False)));
             type = the (snd (CFE_MSG_GetType MsgPtr (Some CFE_MSG_Type_Invalid)))
         in if \<not> hassechdr then of_nat (sizeof_Message cfg)
            else if type = CFE_MSG_Type_Cmd then sizeof_CommandHeader cfg
            else if type = CFE_MSG_Type_Tlm then sizeof_TelemetryHeader cfg
            else 0))"

text \<open>The returned pointer is the offset of the user data from the start of the message.\<close>

definition CFE_SB_GetUserData :: "CFE_MSG_Config \<Rightarrow> message ptr \<Rightarrow> u64 ptr" where
  "CFE_SB_GetUserData cfg MsgPtr =
     (if MsgPtr = NULL then NULL else Some (CFE_SB_MsgHdrSize cfg MsgPtr))"

definition CFE_SB_GetUserDataLength :: "CFE_MSG_Config \<Rightarrow> message ptr \<Rightarrow> u64" where
  "CFE_SB_GetUserDataLength cfg MsgPtr =
     (if MsgPtr = NULL then scast CFE_SB_BAD_ARGUMENT
      else of_nat (the (snd (CFE_MSG_GetSize MsgPtr (Some 0)))) - CFE_SB_MsgHdrSize cfg MsgPtr)"

definition CFE_SB_SetUserDataLength :: "CFE_MSG_Config \<Rightarrow> message ptr \<Rightarrow> u64 \<Rightarrow> message ptr" where
  "CFE_SB_SetUserDataLength cfg MsgPtr DataLength =
     (if MsgPtr = NULL then MsgPtr
      else
        (let TotalMsgSize = CFE_SB_MsgHdrSize cfg MsgPtr + DataLength
         in if TotalMsgSize \<le> CFE_MISSION_SB_MAX_SB_MSG_SIZE64
            then snd (CFE_MSG_SetSize MsgPtr (unat TotalMsgSize))
            else MsgPtr))"

section \<open>Accessors of earlier releases\<close>

definition CFE_SB_InitMsg ::
  "CFE_MSG_Config \<Rightarrow> CFE_MSG_Platform \<Rightarrow> message ptr \<Rightarrow> CFE_SB_MsgId \<Rightarrow> nat \<Rightarrow> bool \<Rightarrow> message ptr" where
  "CFE_SB_InitMsg cfg P MsgPtr MsgId Len Clear = snd (CFE_MSG_Init cfg P MsgPtr MsgId Len)"

definition CFE_SB_GetTotalMsgLength :: "message ptr \<Rightarrow> nat \<Rightarrow> nat" where
  "CFE_SB_GetTotalMsgLength MsgPtr sz = the (snd (CFE_MSG_GetSize MsgPtr (Some sz)))"

definition CFE_SB_SetTotalMsgLength :: "message ptr \<Rightarrow> nat \<Rightarrow> message ptr" where
  "CFE_SB_SetTotalMsgLength MsgPtr TotalLength = snd (CFE_MSG_SetSize MsgPtr TotalLength)"

definition CFE_SB_GetMsgTime :: "CFE_MSG_Config \<Rightarrow> message ptr \<Rightarrow> CFE_TIME_SysTime" where
  "CFE_SB_GetMsgTime cfg MsgPtr = the (snd (CFE_MSG_GetMsgTime cfg MsgPtr (Some \<lparr>Seconds = 0, Subseconds = 0\<rparr>)))"

definition CFE_SB_SetMsgTime :: "CFE_MSG_Config \<Rightarrow> message ptr \<Rightarrow> CFE_TIME_SysTime \<Rightarrow> int32 \<times> message ptr" where
  "CFE_SB_SetMsgTime cfg MsgPtr NewTime = CFE_MSG_SetMsgTime cfg MsgPtr NewTime"

text \<open>The time of \<open>CFE_TIME_GetTime\<close> is an argument.\<close>

definition CFE_SB_TimeStampMsg :: "CFE_MSG_Config \<Rightarrow> CFE_TIME_SysTime \<Rightarrow> message ptr \<Rightarrow> message ptr" where
  "CFE_SB_TimeStampMsg cfg Time MsgPtr = snd (CFE_MSG_SetMsgTime cfg MsgPtr Time)"

definition CFE_SB_GetCmdCode :: "CFE_MSG_Config \<Rightarrow> message ptr \<Rightarrow> u16 \<Rightarrow> u16" where
  "CFE_SB_GetCmdCode cfg MsgPtr fc = the (snd (CFE_MSG_GetFcnCode cfg MsgPtr (Some fc)))"

definition CFE_SB_SetCmdCode :: "CFE_MSG_Config \<Rightarrow> message ptr \<Rightarrow> u16 \<Rightarrow> int32 \<times> message ptr" where
  "CFE_SB_SetCmdCode cfg MsgPtr CmdCode = CFE_MSG_SetFcnCode cfg MsgPtr CmdCode"

definition CFE_SB_GetChecksum :: "CFE_MSG_Config \<Rightarrow> message \<Rightarrow> u16" where
  "CFE_SB_GetChecksum cfg m =
     (let hassechdr = the (snd (CFE_MSG_GetHasSecondaryHeader (Some m) (Some False)));
          type = the (snd (CFE_MSG_GetType (Some m) (Some CFE_MSG_Type_Invalid)))
      in if type = CFE_MSG_Type_Tlm \<or> \<not> hassechdr then 0
         else ucast (m ! (sizeof_Message cfg + 1)))"

definition CFE_SB_GenerateChecksum :: "CFE_MSG_Config \<Rightarrow> message ptr \<Rightarrow> message ptr" where
  "CFE_SB_GenerateChecksum cfg MsgPtr = snd (CFE_MSG_GenerateChecksum cfg MsgPtr)"

definition CFE_SB_ValidateChecksum :: "message ptr \<Rightarrow> bool" where
  "CFE_SB_ValidateChecksum MsgPtr = the (snd (CFE_MSG_ValidateChecksum MsgPtr (Some False)))"

section \<open>Strings in messages\<close>

text \<open>
  The copying loop of both functions: the characters up to the first NUL, bounded by the two sizes.  The list of the
  source is its array, whose declared size is \<open>SourceMaxSize\<close>.
\<close>

fun string_copy :: "string \<Rightarrow> nat \<Rightarrow> nat \<Rightarrow> string" where
  "string_copy (c # cs) (Suc SourceMaxSize) (Suc DestMaxSize) =
     (if c = CHR 0x00 then [] else c # string_copy cs SourceMaxSize DestMaxSize)"
| "string_copy _ _ _ = []"

definition CFE_SB_MessageStringGet ::
  "string ptr \<Rightarrow> string \<Rightarrow> string ptr \<Rightarrow> nat \<Rightarrow> nat \<Rightarrow> int32 \<times> string ptr" where
  "CFE_SB_MessageStringGet DestStringPtr SourceString DefaultString DestMaxSize SourceMaxSize =
     (case DestStringPtr of
        None \<Rightarrow> (CFE_SB_BAD_ARGUMENT, DestStringPtr)
      | Some dest \<Rightarrow>
          if DestMaxSize = 0 then (CFE_SB_BAD_ARGUMENT, DestStringPtr)
          else
            (let (src, n) =
                   (if DefaultString \<noteq> NULL \<and> (SourceMaxSize = 0 \<or> SourceString ! 0 = CHR 0x00)
                    then (the DefaultString, DestMaxSize) else (SourceString, SourceMaxSize));
                 out = string_copy src n (DestMaxSize - 1)
             in (of_nat (length out), Some (out @ CHR 0x00 # drop (length out + 1) dest))))"

definition CFE_SB_MessageStringSet ::
  "string ptr \<Rightarrow> string ptr \<Rightarrow> nat \<Rightarrow> nat \<Rightarrow> int32 \<times> string ptr" where
  "CFE_SB_MessageStringSet DestStringPtr SourceStringPtr DestMaxSize SourceMaxSize =
     (case (DestStringPtr, SourceStringPtr) of
        (Some dest, Some src) \<Rightarrow>
          (let out = string_copy src SourceMaxSize DestMaxSize
           in (of_nat (length out),
               Some (out @ replicate (DestMaxSize - length out) (CHR 0x00) @ drop DestMaxSize dest)))
      | _ \<Rightarrow> (CFE_SB_BAD_ARGUMENT, DestStringPtr))"

section \<open>Lemmas\<close>

lemma string_copy_eq: "string_copy src n k = take k (cstring (take n src))"
  by (induction src n k rule: string_copy.induct) (simp_all add: cstring_def take_Cons split: nat.split)

lemma length_string_copy: "length (string_copy src n k) \<le> k"
  by (simp add: string_copy_eq)

lemma no_nul_copy [simp]: "CHR 0x00 \<notin> set (string_copy src n k)"
  unfolding string_copy_eq by (rule notI, drule in_set_takeD) simp

lemma MessageStringGet_cstring:
  assumes "CFE_SB_MessageStringGet (Some dest) src NULL k n = (r, d)" and "k \<noteq> 0"
  shows "d = Some (string_copy src n (k - 1) @ CHR 0x00 # drop (length (string_copy src n (k - 1)) + 1) dest)"
    and "cstring (the d) = take (k - 1) (cstring (take n src))"
proof -
  show d: "d = Some (string_copy src n (k - 1) @ CHR 0x00 # drop (length (string_copy src n (k - 1)) + 1) dest)"
    using assms by (simp add: CFE_SB_MessageStringGet_def Let_def)
  show "cstring (the d) = take (k - 1) (cstring (take n src))"
    unfolding d option.sel by (subst cstring_terminated, rule no_nul_copy, rule string_copy_eq)
qed

text \<open>
  Strings through messages.  A string that is set in a field of \<open>n\<close> characters and read back into a buffer of
  \<open>k\<close> characters arrives unchanged up to the smaller of the two capacities (the buffer keeps one character for the
  terminator), without a write past the end of the field or of the buffer, and the buffer always holds a terminated
  string.
\<close>

theorem message_string_roundtrip:
  assumes len: "length field = n" "length buf = k" and k: "0 < k" and src: "length src = s"
    and set: "CFE_SB_MessageStringSet (Some field) (Some src) n s = (r1, Some field')"
    and get: "CFE_SB_MessageStringGet (Some buf) field' NULL k n = (r2, Some buf')"
  shows "length field' = n" and "length buf' = k" and "CHR 0x00 \<in> set buf'"
    and "cstring buf' = take (min n (k - 1)) (cstring src)"
proof -
  let ?o = "string_copy src s n"
  have f: "field' = ?o @ replicate (n - length ?o) (CHR 0x00)"
    using set len by (simp add: CFE_SB_MessageStringSet_def Let_def)
  show lf: "length field' = n" using f length_string_copy [of src s n] by simp
  have c: "cstring (take n field') = ?o" using lf by (simp add: f cstring_padded)
  note g = MessageStringGet_cstring [OF get]
  have out: "length (string_copy field' n (k - 1)) < k"
    using length_string_copy [of field' n "k - 1"] k by linarith
  then show "length buf' = k" using g(1) k len by simp
  show "CHR 0x00 \<in> set buf'" using g(1) k by simp
  show "cstring buf' = take (min n (k - 1)) (cstring src)"
    using g(2) k src by (simp add: c string_copy_eq min.commute)
qed

end
