(* ===== verification/CFE_EVS.thy ===== *)
theory CFE_EVS
  imports CFE_SB_Util CFE_ResourceId CFS_Printf
begin

unbundle bit_operations_syntax

text \<open>
  Event services: the state of \<^verbatim>\<open>CFE_EVS_Global\<close> (\<^verbatim>\<open>cfe_evs_task.h\<close>), the event log (\<^verbatim>\<open>cfe_evs_log.c\<close>), the internal
  functions (\<^verbatim>\<open>cfe_evs_utils.c\<close>) and the interface for applications (\<^verbatim>\<open>cfe_evs.c\<close>).

  A pointer to a record of the application table is its index.  The table has one record for each application of
  executive services; a read outside the table, which the code never does, gives a record without filters.  Flags that
  the code keeps in a \<open>uint8\<close> are words.  What executive services, time services and the platform answer during one call
  are the fields of \<open>EVS_Env\<close>.  The text of an event is the text its format and arguments expand to; \<open>vsnprintf\<close>
  cuts it to the length of the message.  What a call prints on the output ports, gives to the software bus and writes to
  a file is appended, in order, to \<open>Out\<close>.
\<close>

section \<open>Constants\<close>

type_synonym CFE_ES_AppId = u32

abbreviation (input) CFE_ES_APPID_UNDEFINED :: u32 where "CFE_ES_APPID_UNDEFINED \<equiv> 0"
abbreviation (input) CFE_PLATFORM_ES_MAX_APPLICATIONS :: nat where "CFE_PLATFORM_ES_MAX_APPLICATIONS \<equiv> 32"
abbreviation (input) CFE_MISSION_ES_MAX_APPLICATIONS :: nat where "CFE_MISSION_ES_MAX_APPLICATIONS \<equiv> 16"
abbreviation (input) CFE_PLATFORM_EVS_MAX_EVENT_FILTERS :: nat where "CFE_PLATFORM_EVS_MAX_EVENT_FILTERS \<equiv> 8"
abbreviation (input) CFE_PLATFORM_EVS_LOG_MAX :: u16 where "CFE_PLATFORM_EVS_LOG_MAX \<equiv> 20"
abbreviation (input) CFE_PLATFORM_EVS_DEFAULT_TYPE_FLAG :: u8 where "CFE_PLATFORM_EVS_DEFAULT_TYPE_FLAG \<equiv> 0xE"
abbreviation (input) CFE_MISSION_EVS_MAX_MESSAGE_LENGTH :: nat where "CFE_MISSION_EVS_MAX_MESSAGE_LENGTH \<equiv> 122"
abbreviation (input) CFE_EVS_MAX_PORT_MSG_LENGTH :: nat where "CFE_EVS_MAX_PORT_MSG_LENGTH \<equiv> 172"
abbreviation (input) CFE_EVS_MSG_TRUNCATED :: char where "CFE_EVS_MSG_TRUNCATED \<equiv> CHR ''$''"
abbreviation (input) CFE_EVS_FREE_SLOT :: u16 where "CFE_EVS_FREE_SLOT \<equiv> - 1"
abbreviation (input) CFE_EVS_MAX_EVENT_SEND_COUNT :: u16 where "CFE_EVS_MAX_EVENT_SEND_COUNT \<equiv> 65535"
abbreviation (input) CFE_EVS_MAX_FILTER_COUNT :: u16 where "CFE_EVS_MAX_FILTER_COUNT \<equiv> 65535"
abbreviation (input) CFE_EVS_LONG_EVENT_MSG_MID :: u32 where "CFE_EVS_LONG_EVENT_MSG_MID \<equiv> 0x0808"
abbreviation (input) CFE_EVS_SHORT_EVENT_MSG_MID :: u32 where "CFE_EVS_SHORT_EVENT_MSG_MID \<equiv> 0x0809"

abbreviation (input) CFE_EVS_EventType_DEBUG :: u16 where "CFE_EVS_EventType_DEBUG \<equiv> 1"
abbreviation (input) CFE_EVS_EventType_INFORMATION :: u16 where "CFE_EVS_EventType_INFORMATION \<equiv> 2"
abbreviation (input) CFE_EVS_EventType_ERROR :: u16 where "CFE_EVS_EventType_ERROR \<equiv> 3"
abbreviation (input) CFE_EVS_EventType_CRITICAL :: u16 where "CFE_EVS_EventType_CRITICAL \<equiv> 4"
abbreviation (input) CFE_EVS_DEBUG_BIT :: u8 where "CFE_EVS_DEBUG_BIT \<equiv> 1"
abbreviation (input) CFE_EVS_INFORMATION_BIT :: u8 where "CFE_EVS_INFORMATION_BIT \<equiv> 2"
abbreviation (input) CFE_EVS_ERROR_BIT :: u8 where "CFE_EVS_ERROR_BIT \<equiv> 4"
abbreviation (input) CFE_EVS_CRITICAL_BIT :: u8 where "CFE_EVS_CRITICAL_BIT \<equiv> 8"
abbreviation (input) CFE_EVS_EventFilter_BINARY :: u16 where "CFE_EVS_EventFilter_BINARY \<equiv> 0"
abbreviation (input) CFE_EVS_MsgFormat_SHORT :: u8 where "CFE_EVS_MsgFormat_SHORT \<equiv> 0"
abbreviation (input) CFE_EVS_MsgFormat_LONG :: u8 where "CFE_EVS_MsgFormat_LONG \<equiv> 1"
abbreviation (input) CFE_EVS_LogMode_OVERWRITE :: u8 where "CFE_EVS_LogMode_OVERWRITE \<equiv> 0"
abbreviation (input) CFE_EVS_LogMode_DISCARD :: u8 where "CFE_EVS_LogMode_DISCARD \<equiv> 1"

abbreviation (input) CFE_EVS_UNKNOWN_FILTER :: int32 where "CFE_EVS_UNKNOWN_FILTER \<equiv> 0xc2000001"
abbreviation (input) CFE_EVS_APP_NOT_REGISTERED :: int32 where "CFE_EVS_APP_NOT_REGISTERED \<equiv> 0xc2000002"
abbreviation (input) CFE_EVS_APP_ILLEGAL_APP_ID :: int32 where "CFE_EVS_APP_ILLEGAL_APP_ID \<equiv> 0xc2000003"
abbreviation (input) CFE_EVS_APP_FILTER_OVERLOAD :: int32 where "CFE_EVS_APP_FILTER_OVERLOAD \<equiv> 0xc2000004"
abbreviation (input) CFE_EVS_RESET_AREA_POINTER :: int32 where "CFE_EVS_RESET_AREA_POINTER \<equiv> 0xc2000005"
abbreviation (input) CFE_EVS_EVT_NOT_REGISTERED :: int32 where "CFE_EVS_EVT_NOT_REGISTERED \<equiv> 0xc2000006"
abbreviation (input) CFE_EVS_FILE_WRITE_ERROR :: int32 where "CFE_EVS_FILE_WRITE_ERROR \<equiv> 0xc2000007"
abbreviation (input) CFE_EVS_INVALID_PARAMETER :: int32 where "CFE_EVS_INVALID_PARAMETER \<equiv> 0xc2000008"

abbreviation (input) CFE_EVS_ERR_UNREGISTERED_EVS_APP :: u16 where "CFE_EVS_ERR_UNREGISTERED_EVS_APP \<equiv> 41"
abbreviation (input) CFE_EVS_FILTER_MAX_EID :: u16 where "CFE_EVS_FILTER_MAX_EID \<equiv> 42"

section \<open>State\<close>

text \<open>\<open>EventID\<close> is an \<open>int16\<close>, of which the code only takes equality.\<close>

record EVS_BinFilter =
  EventID :: u16
  Mask :: u16
  Count :: u16

record EVS_AppData =
  AppID :: CFE_ES_AppId
  UnregAppID :: CFE_ES_AppId
  BinFilters :: "EVS_BinFilter list"
  ActiveFlag :: u8
  EventTypesActiveFlag :: u8
  EventCount :: u16

record CFE_EVS_PacketID =
  AppName :: string
  PktEventID :: u16
  EventType :: u16
  SpacecraftID :: u32
  ProcessorID :: u32

record CFE_EVS_LongEventTlm =
  TlmHeader :: message
  PacketID :: CFE_EVS_PacketID
  Message :: string

record CFE_EVS_ShortEventTlm =
  ShortHeader :: message
  ShortPacketID :: CFE_EVS_PacketID

record CFE_EVS_Log =
  Next :: u16
  LogCount :: u16
  LogFullFlag :: u8
  LogMode :: u8
  LogOverflowCounter :: u16
  LogEntry :: "CFE_EVS_LongEventTlm list"

record CFE_EVS_AppTlmData =
  TlmAppID :: CFE_ES_AppId
  AppMessageSentCounter :: u16
  AppEnableStatus :: u8

record CFE_EVS_AppDataFile =
  FileAppName :: string
  FileActiveFlag :: u8
  FileEventTypesActiveFlag :: u8
  FileEventCount :: u16
  FileFilters :: "EVS_BinFilter list"

record CFE_EVS_HousekeepingTlm =
  HkHeader :: message
  CommandCounter :: u8
  CommandErrorCounter :: u8
  MessageFormatMode :: u8
  MessageTruncCounter :: u8
  UnregisteredAppCounter :: u8
  OutputPort :: u8
  HkLogFullFlag :: u8
  HkLogMode :: u8
  MessageSendCounter :: u16
  HkLogOverflowCounter :: u16
  LogEnabled :: u8
  HkAppData :: "CFE_EVS_AppTlmData list"

datatype evs_out =
    Port nat string
  | Transmit_Long CFE_EVS_LongEventTlm
  | Transmit_Short CFE_EVS_ShortEventTlm
  | Transmit_Hk CFE_EVS_HousekeepingTlm
  | Create_File string
  | Write_Header
  | Write_Log CFE_EVS_LongEventTlm
  | Write_App CFE_EVS_AppDataFile
  | Close_File

record CFE_EVS_Global =
  AppData :: "EVS_AppData list"
  EVS_Log :: CFE_EVS_Log
  EVS_TlmPkt :: CFE_EVS_HousekeepingTlm
  EVS_CommandPipe :: u32
  EVS_AppID :: CFE_ES_AppId
  Out :: "evs_out list"

text \<open>
  \<open>GetAppName\<close> is the C string that \<open>CFE_ES_GetAppName\<close> leaves in the buffer, which is empty for an unknown id.
\<close>

record EVS_Env =
  MsgConfig :: CFE_MSG_Config
  MsgPlatform :: CFE_MSG_Platform
  GetAppID :: "int32 \<times> CFE_ES_AppId"
  GetAppName :: "CFE_ES_AppId \<Rightarrow> string"
  GetAppIDByName :: "string \<Rightarrow> int32 \<times> CFE_ES_AppId"
  GetTime :: CFE_TIME_SysTime
  GetSpacecraftId :: u32
  GetProcessorId :: u32

definition no_app :: EVS_AppData where
  "no_app = \<lparr>AppID = 0, UnregAppID = 0, BinFilters = [], ActiveFlag = 0, EventTypesActiveFlag = 0, EventCount = 0\<rparr>"

definition app_at :: "CFE_EVS_Global \<Rightarrow> nat \<Rightarrow> EVS_AppData" where
  "app_at g i = (if i < length (AppData g) then AppData g ! i else no_app)"

definition upd_app :: "nat \<Rightarrow> (EVS_AppData \<Rightarrow> EVS_AppData) \<Rightarrow> CFE_EVS_Global \<Rightarrow> CFE_EVS_Global" where
  "upd_app i f g = g\<lparr>AppData := (AppData g)[i := f (app_at g i)]\<rparr>"

definition upd_filter :: "nat \<Rightarrow> nat \<Rightarrow> (EVS_BinFilter \<Rightarrow> EVS_BinFilter) \<Rightarrow> CFE_EVS_Global \<Rightarrow> CFE_EVS_Global" where
  "upd_filter i j f = upd_app i (\<lambda>a. a\<lparr>BinFilters := (BinFilters a)[j := f (BinFilters a ! j)]\<rparr>)"

definition upd_tlm :: "(CFE_EVS_HousekeepingTlm \<Rightarrow> CFE_EVS_HousekeepingTlm) \<Rightarrow> CFE_EVS_Global \<Rightarrow> CFE_EVS_Global" where
  "upd_tlm f g = g\<lparr>EVS_TlmPkt := f (EVS_TlmPkt g)\<rparr>"

definition emit :: "evs_out \<Rightarrow> CFE_EVS_Global \<Rightarrow> CFE_EVS_Global" where
  "emit x g = g\<lparr>Out := Out g @ [x]\<rparr>"

section \<open>The event log\<close>

definition EVS_AddLog :: "CFE_EVS_LongEventTlm \<Rightarrow> CFE_EVS_Log \<Rightarrow> CFE_EVS_Log" where
  "EVS_AddLog pkt l =
     (if LogFullFlag l = 1 \<and> LogMode l = CFE_EVS_LogMode_DISCARD
      then l\<lparr>LogOverflowCounter := LogOverflowCounter l + 1\<rparr>
      else
        (let l = (if LogFullFlag l = 1 then l\<lparr>LogOverflowCounter := LogOverflowCounter l + 1\<rparr> else l);
             l = l\<lparr>LogEntry := (LogEntry l)[unat (Next l) := pkt]\<rparr>;
             l = l\<lparr>Next := Next l + 1\<rparr>;
             l = (if Next l \<ge> CFE_PLATFORM_EVS_LOG_MAX then l\<lparr>Next := 0\<rparr> else l)
         in if LogCount l < CFE_PLATFORM_EVS_LOG_MAX
            then (let l = l\<lparr>LogCount := LogCount l + 1\<rparr>
                  in if LogCount l = CFE_PLATFORM_EVS_LOG_MAX then l\<lparr>LogFullFlag := 1\<rparr> else l)
            else l))"

text \<open>The bytes of a cleared entry: all members zero.\<close>

definition zero_packet :: CFE_EVS_LongEventTlm where
  "zero_packet =
     \<lparr>TlmHeader = replicate 16 0,
      PacketID = \<lparr>AppName = [], PktEventID = 0, EventType = 0, SpacecraftID = 0, ProcessorID = 0\<rparr>,
      Message = replicate CFE_MISSION_EVS_MAX_MESSAGE_LENGTH (CHR 0x00)\<rparr>"

definition EVS_ClearLog :: "CFE_EVS_Log \<Rightarrow> CFE_EVS_Log" where
  "EVS_ClearLog l =
     l\<lparr>Next := 0, LogCount := 0, LogFullFlag := 0, LogOverflowCounter := 0,
       LogEntry := replicate (length (LogEntry l)) zero_packet\<rparr>"

section \<open>Application records\<close>

definition EVS_GetAppDataByID :: "CFE_ES_AppId \<Rightarrow> nat ptr" where
  "EVS_GetAppDataByID AppId =
     (let (status, idx) = CFE_ES_AppID_ToIndex AppId (Some 0);
          AppIndex = the idx
      in if status = CFE_SUCCESS \<and> AppIndex < of_nat CFE_PLATFORM_ES_MAX_APPLICATIONS
         then Some (unat AppIndex) else NULL)"

definition EVS_GetCurrentContext :: "EVS_Env \<Rightarrow> int32 \<times> nat ptr \<times> CFE_ES_AppId" where
  "EVS_GetCurrentContext env =
     (let (Status, AppId) = GetAppID env;
          AppDataPtr = (if Status = CFE_SUCCESS then EVS_GetAppDataByID AppId else NULL);
          Status = (if AppDataPtr = NULL then CFE_EVS_APP_ILLEGAL_APP_ID else Status)
      in (Status, AppDataPtr, AppId))"

definition EVS_AppDataIsUsed :: "EVS_AppData \<Rightarrow> bool" where
  "EVS_AppDataIsUsed a \<longleftrightarrow> AppID a \<noteq> CFE_ES_APPID_UNDEFINED"

definition EVS_AppDataGetID :: "EVS_AppData \<Rightarrow> CFE_ES_AppId" where
  "EVS_AppDataGetID a = AppID a"

definition EVS_AppDataSetUsed :: "CFE_ES_AppId \<Rightarrow> EVS_AppData \<Rightarrow> EVS_AppData" where
  "EVS_AppDataSetUsed AppId a = a\<lparr>AppID := AppId\<rparr>"

definition EVS_AppDataSetFree :: "EVS_AppData \<Rightarrow> EVS_AppData" where
  "EVS_AppDataSetFree a = a\<lparr>AppID := CFE_ES_APPID_UNDEFINED\<rparr>"

definition EVS_AppDataIsMatch :: "CFE_EVS_Global \<Rightarrow> nat ptr \<Rightarrow> CFE_ES_AppId \<Rightarrow> bool" where
  "EVS_AppDataIsMatch g AppDataPtr AppId \<longleftrightarrow> AppDataPtr \<noteq> NULL \<and> AppID (app_at g (the AppDataPtr)) = AppId"

definition EVS_GetApplicationInfo :: "EVS_Env \<Rightarrow> string \<Rightarrow> CFE_EVS_Global \<Rightarrow> int32 \<times> nat ptr" where
  "EVS_GetApplicationInfo env pAppName g =
     (let (Status, AppId) = GetAppIDByName env pAppName
      in if Status \<noteq> CFE_SUCCESS then (Status, NULL)
         else
           (let AppDataPtr = EVS_GetAppDataByID AppId
            in if AppDataPtr = NULL then (CFE_EVS_APP_ILLEGAL_APP_ID, NULL)
               else if \<not> EVS_AppDataIsMatch g AppDataPtr AppId then (CFE_EVS_APP_NOT_REGISTERED, NULL)
               else (Status, AppDataPtr)))"

fun EVS_FindEventID :: "u16 \<Rightarrow> EVS_BinFilter list \<Rightarrow> nat ptr" where
  "EVS_FindEventID e [] = NULL"
| "EVS_FindEventID e (f # fs) = (if EventID f = e then Some 0 else map_option Suc (EVS_FindEventID e fs))"

definition event_type_bits :: u8 where
  "event_type_bits = (CFE_EVS_DEBUG_BIT OR CFE_EVS_INFORMATION_BIT OR CFE_EVS_ERROR_BIT OR CFE_EVS_CRITICAL_BIT)"

definition EVS_EnableTypes :: "u8 \<Rightarrow> EVS_AppData \<Rightarrow> EVS_AppData" where
  "EVS_EnableTypes BitMask a =
     a\<lparr>EventTypesActiveFlag := EventTypesActiveFlag a OR (BitMask AND event_type_bits)\<rparr>"

definition EVS_DisableTypes :: "u8 \<Rightarrow> EVS_AppData \<Rightarrow> EVS_AppData" where
  "EVS_DisableTypes BitMask a =
     a\<lparr>EventTypesActiveFlag := EventTypesActiveFlag a AND NOT (BitMask AND event_type_bits)\<rparr>"

section \<open>Event packets\<close>

text \<open>\<open>sizeof\<close> of the two packets: the telemetry header, the packet id of 32 bytes, the message and two spare bytes.\<close>

definition sizeof_LongEventTlm :: "CFE_MSG_Config \<Rightarrow> nat" where
  "sizeof_LongEventTlm cfg = unat (sizeof_TelemetryHeader cfg) + 32 + CFE_MISSION_EVS_MAX_MESSAGE_LENGTH + 2"

definition sizeof_ShortEventTlm :: "CFE_MSG_Config \<Rightarrow> nat" where
  "sizeof_ShortEventTlm cfg = unat (sizeof_TelemetryHeader cfg) + 32"

text \<open>The header of a packet after \<open>CFE_MSG_Init\<close> has cleared all of it and \<open>CFE_MSG_SetMsgTime\<close> has set its time.\<close>

definition init_header :: "EVS_Env \<Rightarrow> CFE_SB_MsgId \<Rightarrow> nat \<Rightarrow> CFE_TIME_SysTime \<Rightarrow> message" where
  "init_header env MsgId sz Time =
     (let p = snd (CFE_MSG_Init (MsgConfig env) (MsgPlatform env) (Some (replicate sz 0)) MsgId sz);
          p = snd (CFE_MSG_SetMsgTime (MsgConfig env) p Time)
      in take (unat (sizeof_TelemetryHeader (MsgConfig env))) (the p))"

definition port_text :: "nat \<Rightarrow> CFE_EVS_LongEventTlm \<Rightarrow> string" where
  "port_text n pkt =
     (let P = PacketID pkt;
          txt = ''EVS Port'' @ fmt_u n @ '' '' @ fmt_u (unat (SpacecraftID P)) @ ''/'' @ fmt_u (unat (ProcessorID P)) @ ''/''
                @ AppName P @ '' '' @ fmt_u (unat (PktEventID P)) @ '': '' @ cstring (Message pkt)
      in cstring (fst (snprintf CFE_EVS_MAX_PORT_MSG_LENGTH txt (replicate CFE_EVS_MAX_PORT_MSG_LENGTH (CHR 0x00)))))"

text \<open>The four output ports all print the text and a new line on the console.\<close>

definition EVS_OutputPort :: "nat \<Rightarrow> string \<Rightarrow> CFE_EVS_Global \<Rightarrow> CFE_EVS_Global" where
  "EVS_OutputPort n txt g = emit (Port n (txt @ [CHR 0x0A])) g"

definition EVS_SendViaPorts :: "CFE_EVS_LongEventTlm \<Rightarrow> CFE_EVS_Global \<Rightarrow> CFE_EVS_Global" where
  "EVS_SendViaPorts pkt g =
     (let g = (if drop_bit 0 (OutputPort (EVS_TlmPkt g) AND 1) = 1 then EVS_OutputPort 1 (port_text 1 pkt) g else g);
          g = (if drop_bit 1 (OutputPort (EVS_TlmPkt g) AND 2) = 1 then EVS_OutputPort 2 (port_text 2 pkt) g else g);
          g = (if drop_bit 2 (OutputPort (EVS_TlmPkt g) AND 4) = 1 then EVS_OutputPort 3 (port_text 3 pkt) g else g)
      in if drop_bit 3 (OutputPort (EVS_TlmPkt g) AND 8) = 1 then EVS_OutputPort 4 (port_text 4 pkt) g else g)"

text \<open>The message field for the expanded text, and whether it was cut.\<close>

definition event_message :: "string \<Rightarrow> string \<times> bool" where
  "event_message txt =
     (let n = CFE_MISSION_EVS_MAX_MESSAGE_LENGTH;
          (buf, ExpandedLength) = snprintf n txt (replicate n (CHR 0x00))
      in if ExpandedLength \<ge> n then (buf[n - 2 := CFE_EVS_MSG_TRUNCATED], True) else (buf, False))"

definition event_packet ::
  "EVS_Env \<Rightarrow> CFE_ES_AppId \<Rightarrow> u16 \<Rightarrow> u16 \<Rightarrow> CFE_TIME_SysTime \<Rightarrow> string \<Rightarrow> CFE_EVS_LongEventTlm" where
  "event_packet env AppId EvId EvType TimeStamp txt =
     \<lparr>TlmHeader = init_header env CFE_EVS_LONG_EVENT_MSG_MID (sizeof_LongEventTlm (MsgConfig env)) TimeStamp,
      PacketID = \<lparr>AppName = GetAppName env AppId, PktEventID = EvId, EventType = EvType,
                  SpacecraftID = GetSpacecraftId env, ProcessorID = GetProcessorId env\<rparr>,
      Message = fst (event_message txt)\<rparr>"

definition EVS_GenerateEventTelemetry ::
  "EVS_Env \<Rightarrow> nat \<Rightarrow> u16 \<Rightarrow> u16 \<Rightarrow> CFE_TIME_SysTime \<Rightarrow> string \<Rightarrow> CFE_EVS_Global \<Rightarrow> CFE_EVS_Global" where
  "EVS_GenerateEventTelemetry env AppDataPtr EvId EvType TimeStamp txt g =
     (let g = (if snd (event_message txt)
               then upd_tlm (\<lambda>t. t\<lparr>MessageTruncCounter := MessageTruncCounter t + 1\<rparr>) g else g);
          pkt = event_packet env (EVS_AppDataGetID (app_at g AppDataPtr)) EvId EvType TimeStamp txt;
          g = g\<lparr>EVS_Log := EVS_AddLog pkt (EVS_Log g)\<rparr>;
          g = EVS_SendViaPorts pkt g;
          g = (if MessageFormatMode (EVS_TlmPkt g) = CFE_EVS_MsgFormat_LONG then emit (Transmit_Long pkt) g
               else if MessageFormatMode (EVS_TlmPkt g) = CFE_EVS_MsgFormat_SHORT
               then emit (Transmit_Short
                      \<lparr>ShortHeader = init_header env CFE_EVS_SHORT_EVENT_MSG_MID
                                      (sizeof_ShortEventTlm (MsgConfig env)) TimeStamp,
                       ShortPacketID = PacketID pkt\<rparr>) g
               else g);
          g = (if MessageSendCounter (EVS_TlmPkt g) < CFE_EVS_MAX_EVENT_SEND_COUNT
               then upd_tlm (\<lambda>t. t\<lparr>MessageSendCounter := MessageSendCounter t + 1\<rparr>) g else g)
      in if EventCount (app_at g AppDataPtr) < CFE_EVS_MAX_EVENT_SEND_COUNT
         then upd_app AppDataPtr (\<lambda>a. a\<lparr>EventCount := EventCount a + 1\<rparr>) g else g)"

section \<open>Filtering and sending\<close>

text \<open>
  The first half of \<open>EVS_IsFiltered\<close>: is the application inactive, the type of the event disabled or invalid?
\<close>

definition event_disabled :: "EVS_AppData \<Rightarrow> u16 \<Rightarrow> bool" where
  "event_disabled a EvType =
     (if ActiveFlag a = 0 then True
      else if EvType = CFE_EVS_EventType_DEBUG then EventTypesActiveFlag a AND CFE_EVS_DEBUG_BIT = 0
      else if EvType = CFE_EVS_EventType_INFORMATION then EventTypesActiveFlag a AND CFE_EVS_INFORMATION_BIT = 0
      else if EvType = CFE_EVS_EventType_ERROR then EventTypesActiveFlag a AND CFE_EVS_ERROR_BIT = 0
      else if EvType = CFE_EVS_EventType_CRITICAL then EventTypesActiveFlag a AND CFE_EVS_CRITICAL_BIT = 0
      else True)"

definition filter_max_text :: "EVS_Env \<Rightarrow> CFE_ES_AppId \<Rightarrow> u16 \<Rightarrow> string" where
  "filter_max_text env AppId EvId =
     ''Max filter count reached, AppName = '' @ GetAppName env AppId @ '', EventID = 0x'' @ fmt_x 8 (unat EvId)
     @ '': Filter locked until reset''"

text \<open>
  A filter that reaches its maximal count is locked and reported with an event of event services itself, which may be
  filtered and lock another filter in turn.  The recursion ends because the number of filters that are not
  locked decreases with every such event.
\<close>

definition unlocked :: "CFE_EVS_Global \<Rightarrow> nat" where
  "unlocked g = (\<Sum>a\<leftarrow>AppData g. length (filter (\<lambda>f. Count f < CFE_EVS_MAX_FILTER_COUNT) (BinFilters a)))"

lemma FindEventID_Some:
  "EVS_FindEventID e fs = Some j \<Longrightarrow> j < length fs \<and> EventID (fs ! j) = e \<and> (\<forall>k<j. EventID (fs ! k) \<noteq> e)"
proof (induction fs arbitrary: j)
  case (Cons f fs)
  then show ?case by (fastforce simp: less_Suc_eq_0_disj nth_Cons split: if_splits nat.splits)
qed simp

lemma FindEventID_None: "EVS_FindEventID e fs = None \<longleftrightarrow> (\<forall>f\<in>set fs. EventID f \<noteq> e)"
  by (induction fs) auto

lemma length_filter_update:
  "j < length xs \<Longrightarrow> P (xs ! j) \<Longrightarrow> \<not> P y \<Longrightarrow> Suc (length (filter P (xs[j := y]))) = length (filter P xs)"
proof (induction xs arbitrary: j)
  case (Cons x xs)
  then show ?case by (cases j) auto
qed simp

lemma sum_list_update_Suc:
  "i < length xs \<Longrightarrow> Suc (h y) = h (xs ! i) \<Longrightarrow> Suc (sum_list (map h (xs[i := y]))) = sum_list (map h xs)"
  for h :: "'a \<Rightarrow> nat"
proof (induction xs arbitrary: i)
  case (Cons x xs)
  then show ?case by (cases i) auto
qed simp

lemma unlocked_lock:
  assumes f: "EVS_FindEventID e (BinFilters (app_at g i)) = Some j"
    and c: "Count (BinFilters (app_at g i) ! j) + 1 = CFE_EVS_MAX_FILTER_COUNT"
  shows "Suc (unlocked (upd_filter i j (\<lambda>f. f\<lparr>Count := Count f + 1\<rparr>) g)) = unlocked g"
proof -
  let ?a = "app_at g i"
  have j: "j < length (BinFilters ?a)" using FindEventID_Some [OF f] by simp
  then have i: "i < length (AppData g)" by (auto simp: app_at_def no_app_def split: if_splits)
  then have a: "?a = AppData g ! i" by (simp add: app_at_def)
  have "Count (BinFilters ?a ! j) = 65534" using c by (simp add: eq_diff_eq [symmetric])
  then have "Suc (length (filter (\<lambda>f. Count f < 65535)
      ((BinFilters ?a)[j := (BinFilters ?a ! j)\<lparr>Count := Count (BinFilters ?a ! j) + 1\<rparr>])))
    = length (filter (\<lambda>f. Count f < 65535) (BinFilters ?a))"
    using j by (intro length_filter_update) simp_all
  then show ?thesis
    unfolding unlocked_def upd_filter_def upd_app_def using i by (simp add: a sum_list_update_Suc)
qed

function EVS_IsFiltered :: "EVS_Env \<Rightarrow> nat \<Rightarrow> u16 \<Rightarrow> u16 \<Rightarrow> CFE_EVS_Global \<Rightarrow> CFE_EVS_Global \<times> bool"
  and EVS_SendEvent :: "EVS_Env \<Rightarrow> u16 \<Rightarrow> u16 \<Rightarrow> string \<Rightarrow> CFE_EVS_Global \<Rightarrow> CFE_EVS_Global" where
  "EVS_IsFiltered env AppDataPtr EvId EvType g =
     (if event_disabled (app_at g AppDataPtr) EvType then (g, True)
      else
        (case EVS_FindEventID EvId (BinFilters (app_at g AppDataPtr)) of
           None \<Rightarrow> (g, False)
         | Some FilterPtr \<Rightarrow>
             (let f = BinFilters (app_at g AppDataPtr) ! FilterPtr;
                  Filtered = (Mask f AND Count f \<noteq> 0);
                  g1 = upd_filter AppDataPtr FilterPtr (\<lambda>f. f\<lparr>Count := Count f + 1\<rparr>) g
              in if Count f < CFE_EVS_MAX_FILTER_COUNT
                 then (if Count f + 1 = CFE_EVS_MAX_FILTER_COUNT
                       then (EVS_SendEvent env CFE_EVS_FILTER_MAX_EID CFE_EVS_EventType_INFORMATION
                               (filter_max_text env (EVS_AppDataGetID (app_at g1 AppDataPtr)) EvId) g1, Filtered)
                       else (g1, Filtered))
                 else (g, Filtered))))"
| "EVS_SendEvent env EvId EvType txt g =
     (let AppDataPtr = EVS_GetAppDataByID (EVS_AppID g)
      in if EVS_AppDataIsMatch g AppDataPtr (EVS_AppID g)
         then (let (g, Filtered) = EVS_IsFiltered env (the AppDataPtr) EvId EvType g
               in if Filtered then g
                  else EVS_GenerateEventTelemetry env (the AppDataPtr) EvId EvType (GetTime env) txt g)
         else g)"
  by pat_completeness auto

termination
proof (relation "measure (case_sum (\<lambda>(_, _, _, _, g). 2 * unlocked g) (\<lambda>(_, _, _, _, g). 2 * unlocked g + 1))")
  fix env AppDataPtr EvId EvType g j f Filtered g1
  assume f: "EVS_FindEventID EvId (BinFilters (app_at g AppDataPtr)) = Some j"
    and f': "f = BinFilters (app_at g AppDataPtr) ! j"
    and g1: "g1 = upd_filter AppDataPtr j (\<lambda>f. f\<lparr>Count := Count f + 1\<rparr>) g"
    and c: "Count f + 1 = CFE_EVS_MAX_FILTER_COUNT"
  have "Suc (unlocked g1) = unlocked g" using unlocked_lock [OF f c [unfolded f']] by (simp only: g1)
  then show "(Inr (env, CFE_EVS_FILTER_MAX_EID, CFE_EVS_EventType_INFORMATION,
        filter_max_text env (EVS_AppDataGetID (app_at g1 AppDataPtr)) EvId, g1), Inl (env, AppDataPtr, EvId, EvType, g))
      \<in> measure (case_sum (\<lambda>(_, _, _, _, g). 2 * unlocked g) (\<lambda>(_, _, _, _, g). 2 * unlocked g + 1))"
    by simp
qed simp_all

declare EVS_IsFiltered.simps [simp del] EVS_SendEvent.simps [simp del]

section \<open>The interface for applications\<close>

definition EVS_NotRegistered ::
  "EVS_Env \<Rightarrow> nat \<Rightarrow> CFE_ES_AppId \<Rightarrow> CFE_EVS_Global \<Rightarrow> int32 \<times> CFE_EVS_Global" where
  "EVS_NotRegistered env AppDataPtr CallerID g =
     (CFE_EVS_APP_NOT_REGISTERED,
      if UnregAppID (app_at g AppDataPtr) \<noteq> CallerID
      then (let g = upd_tlm (\<lambda>t. t\<lparr>UnregisteredAppCounter := UnregisteredAppCounter t + 1\<rparr>) g;
                g = upd_app AppDataPtr (\<lambda>a. a\<lparr>UnregAppID := CallerID\<rparr>) g
            in EVS_SendEvent env CFE_EVS_ERR_UNREGISTERED_EVS_APP CFE_EVS_EventType_ERROR
                 (''App '' @ GetAppName env CallerID @ '' not registered with Event Services. Unable to send event.'') g)
      else g)"

definition zero_app :: EVS_AppData where
  "zero_app = \<lparr>AppID = 0, UnregAppID = 0,
     BinFilters = replicate CFE_PLATFORM_EVS_MAX_EVENT_FILTERS \<lparr>EventID = 0, Mask = 0, Count = 0\<rparr>,
     ActiveFlag = 0, EventTypesActiveFlag = 0, EventCount = 0\<rparr>"

text \<open>The array of the caller is a list of event ids with their masks.\<close>

definition CFE_EVS_Register ::
  "EVS_Env \<Rightarrow> (u16 \<times> u16) list ptr \<Rightarrow> u16 \<Rightarrow> u16 \<Rightarrow> CFE_EVS_Global \<Rightarrow> int32 \<times> CFE_EVS_Global" where
  "CFE_EVS_Register env Filters NumEventFilters FilterScheme g =
     (let (Status, AppDataPtr, AppId) = EVS_GetCurrentContext env
      in if Status \<noteq> CFE_SUCCESS then (Status, g)
         else
           (let i = the AppDataPtr;
                g = upd_app i (\<lambda>_. zero_app) g
            in if FilterScheme \<noteq> CFE_EVS_EventFilter_BINARY then (CFE_EVS_UNKNOWN_FILTER, g)
               else if NumEventFilters \<noteq> 0 \<and> Filters = NULL then (CFE_ES_ERR_BUFFER, g)
               else
                 (let FilterLimit = (if NumEventFilters < of_nat CFE_PLATFORM_EVS_MAX_EVENT_FILTERS
                                     then unat NumEventFilters else CFE_PLATFORM_EVS_MAX_EVENT_FILTERS);
                      copied = (case Filters of
                                  None \<Rightarrow> take FilterLimit (BinFilters (app_at g i))
                                | Some fs \<Rightarrow> map (\<lambda>k. \<lparr>EventID = fst (fs ! k), Mask = snd (fs ! k), Count = 0\<rparr>)
                                               [0 ..< FilterLimit]);
                      unused = replicate (CFE_PLATFORM_EVS_MAX_EVENT_FILTERS - FilterLimit)
                                 \<lparr>EventID = CFE_EVS_FREE_SLOT, Mask = 0, Count = 0\<rparr>;
                      g = upd_app i (\<lambda>a. a\<lparr>BinFilters := copied @ unused, ActiveFlag := 1,
                                           EventTypesActiveFlag := CFE_PLATFORM_EVS_DEFAULT_TYPE_FLAG\<rparr>) g
                  in (Status, upd_app i (EVS_AppDataSetUsed AppId) g))))"

definition CFE_EVS_Unregister :: "EVS_Env \<Rightarrow> CFE_EVS_Global \<Rightarrow> int32 \<times> CFE_EVS_Global" where
  "CFE_EVS_Unregister env g =
     (let (Status, AppDataPtr, AppId) = EVS_GetCurrentContext env
      in (Status,
          if Status = CFE_SUCCESS \<and> EVS_AppDataIsMatch g AppDataPtr AppId
          then upd_app (the AppDataPtr) EVS_AppDataSetFree g else g))"

definition CFE_EVS_SendEvent ::
  "EVS_Env \<Rightarrow> u16 \<Rightarrow> u16 \<Rightarrow> string ptr \<Rightarrow> CFE_EVS_Global \<Rightarrow> int32 \<times> CFE_EVS_Global" where
  "CFE_EVS_SendEvent env EvId EvType Spec g =
     (if Spec = NULL then (CFE_EVS_INVALID_PARAMETER, g)
      else
        (let (Status, AppDataPtr, AppId) = EVS_GetCurrentContext env
         in if Status \<noteq> CFE_SUCCESS then (Status, g)
            else if \<not> EVS_AppDataIsMatch g AppDataPtr AppId then EVS_NotRegistered env (the AppDataPtr) AppId g
            else
              (let (g, Filtered) = EVS_IsFiltered env (the AppDataPtr) EvId EvType g
               in (Status,
                   if Filtered then g
                   else EVS_GenerateEventTelemetry env (the AppDataPtr) EvId EvType (GetTime env) (the Spec) g))))"

definition CFE_EVS_SendEventWithAppID ::
  "EVS_Env \<Rightarrow> u16 \<Rightarrow> u16 \<Rightarrow> CFE_ES_AppId \<Rightarrow> string ptr \<Rightarrow> CFE_EVS_Global \<Rightarrow> int32 \<times> CFE_EVS_Global" where
  "CFE_EVS_SendEventWithAppID env EvId EvType AppId Spec g =
     (if Spec = NULL then (CFE_EVS_INVALID_PARAMETER, g)
      else
        (let AppDataPtr = EVS_GetAppDataByID AppId
         in if AppDataPtr = NULL then (CFE_EVS_APP_ILLEGAL_APP_ID, g)
            else if \<not> EVS_AppDataIsMatch g AppDataPtr AppId then EVS_NotRegistered env (the AppDataPtr) AppId g
            else
              (let (g, Filtered) = EVS_IsFiltered env (the AppDataPtr) EvId EvType g
               in (CFE_SUCCESS,
                   if Filtered then g
                   else EVS_GenerateEventTelemetry env (the AppDataPtr) EvId EvType (GetTime env) (the Spec) g))))"

definition CFE_EVS_SendTimedEvent ::
  "EVS_Env \<Rightarrow> CFE_TIME_SysTime \<Rightarrow> u16 \<Rightarrow> u16 \<Rightarrow> string ptr \<Rightarrow> CFE_EVS_Global \<Rightarrow> int32 \<times> CFE_EVS_Global" where
  "CFE_EVS_SendTimedEvent env Time EvId EvType Spec g =
     (if Spec = NULL then (CFE_EVS_INVALID_PARAMETER, g)
      else
        (let (Status, AppDataPtr, AppId) = EVS_GetCurrentContext env
         in if Status \<noteq> CFE_SUCCESS then (Status, g)
            else if \<not> EVS_AppDataIsMatch g AppDataPtr AppId then EVS_NotRegistered env (the AppDataPtr) AppId g
            else
              (let (g, Filtered) = EVS_IsFiltered env (the AppDataPtr) EvId EvType g
               in (Status,
                   if Filtered then g
                   else EVS_GenerateEventTelemetry env (the AppDataPtr) EvId EvType Time (the Spec) g))))"

definition CFE_EVS_ResetFilter :: "EVS_Env \<Rightarrow> u16 \<Rightarrow> CFE_EVS_Global \<Rightarrow> int32 \<times> CFE_EVS_Global" where
  "CFE_EVS_ResetFilter env EvId g =
     (let (Status, AppDataPtr, AppId) = EVS_GetCurrentContext env
      in if Status \<noteq> CFE_SUCCESS then (Status, g)
         else if \<not> EVS_AppDataIsMatch g AppDataPtr AppId then (CFE_EVS_APP_NOT_REGISTERED, g)
         else
           (case EVS_FindEventID EvId (BinFilters (app_at g (the AppDataPtr))) of
              Some j \<Rightarrow> (Status, upd_filter (the AppDataPtr) j (\<lambda>f. f\<lparr>Count := 0\<rparr>) g)
            | None \<Rightarrow> (CFE_EVS_EVT_NOT_REGISTERED, g)))"

definition reset_counts :: "EVS_AppData \<Rightarrow> EVS_AppData" where
  "reset_counts a = a\<lparr>BinFilters := map (\<lambda>f. f\<lparr>Count := 0\<rparr>) (BinFilters a)\<rparr>"

definition CFE_EVS_ResetAllFilters :: "EVS_Env \<Rightarrow> CFE_EVS_Global \<Rightarrow> int32 \<times> CFE_EVS_Global" where
  "CFE_EVS_ResetAllFilters env g =
     (let (Status, AppDataPtr, AppId) = EVS_GetCurrentContext env
      in if Status \<noteq> CFE_SUCCESS then (Status, g)
         else if \<not> EVS_AppDataIsMatch g AppDataPtr AppId then (CFE_EVS_APP_NOT_REGISTERED, g)
         else (Status, upd_app (the AppDataPtr) reset_counts g))"

definition CFE_EVS_CleanUpApp :: "CFE_ES_AppId \<Rightarrow> CFE_EVS_Global \<Rightarrow> int32 \<times> CFE_EVS_Global" where
  "CFE_EVS_CleanUpApp AppId g =
     (let AppDataPtr = EVS_GetAppDataByID AppId
      in if AppDataPtr = NULL then (CFE_EVS_APP_ILLEGAL_APP_ID, g)
         else if EVS_AppDataIsMatch g AppDataPtr AppId
         then (CFE_SUCCESS, upd_app (the AppDataPtr) EVS_AppDataSetFree g)
         else (CFE_SUCCESS, g))"

end
