(* ===== verification/CFE_EVS_Task.thy ===== *)
theory CFE_EVS_Task
  imports CFE_EVS
begin

unbundle bit_operations_syntax

text \<open>
  The task of event services (\<^verbatim>\<open>cfe_evs_task.c\<close> and the commands in \<^verbatim>\<open>cfe_evs_log.c\<close>): initialization, the commands and
  their dispatch.  A command handler takes the members of its payload; \<open>CFE_EVS_ProcessCommandPacket\<close> takes the bytes of
  the received message and decodes the payload in the byte order of the platform.  What the file system answers is
  the argument \<open>EVS_FileEnv\<close>, the answers during initialization are \<open>EVS_InitEnv\<close>.  The main loop of the task, which only
  receives a message and processes it, is not modelled.
\<close>

abbreviation (input) CFE_EVS_CMD_MID :: u32 where "CFE_EVS_CMD_MID \<equiv> 0x1801"
abbreviation (input) CFE_EVS_SEND_HK_MID :: u32 where "CFE_EVS_SEND_HK_MID \<equiv> 0x1809"
abbreviation (input) CFE_EVS_HK_TLM_MID :: u32 where "CFE_EVS_HK_TLM_MID \<equiv> 0x0801"
abbreviation (input) CFE_EVS_NO_MASK :: u16 where "CFE_EVS_NO_MASK \<equiv> 0"
abbreviation (input) CFE_PLATFORM_EVS_PORT_DEFAULT :: u8 where "CFE_PLATFORM_EVS_PORT_DEFAULT \<equiv> 1"
abbreviation (input) CFE_PLATFORM_EVS_DEFAULT_LOG_MODE :: u8 where "CFE_PLATFORM_EVS_DEFAULT_LOG_MODE \<equiv> 1"
abbreviation (input) CFE_PLATFORM_EVS_DEFAULT_LOG_FILE :: string where "CFE_PLATFORM_EVS_DEFAULT_LOG_FILE \<equiv> ''/ram/cfe_evs.log''"
abbreviation (input) CFE_PLATFORM_EVS_DEFAULT_APP_DATA_FILE :: string where
  "CFE_PLATFORM_EVS_DEFAULT_APP_DATA_FILE \<equiv> ''/ram/cfe_evs_app.dat''"
abbreviation (input) OS_MAX_API_NAME :: nat where "OS_MAX_API_NAME \<equiv> 20"
abbreviation (input) OS_MAX_PATH_LEN :: nat where "OS_MAX_PATH_LEN \<equiv> 64"
abbreviation (input) CFE_PSP_RST_TYPE_POWERON :: int32 where "CFE_PSP_RST_TYPE_POWERON \<equiv> 2"
abbreviation (input) CFE_STATUS_NO_COUNTER_INCREMENT :: int32 where "CFE_STATUS_NO_COUNTER_INCREMENT \<equiv> 0x48000001"
abbreviation (input) CFE_STATUS_WRONG_MSG_LENGTH :: int32 where "CFE_STATUS_WRONG_MSG_LENGTH \<equiv> 0xc8000002"
abbreviation (input) CFE_STATUS_BAD_COMMAND_CODE :: int32 where "CFE_STATUS_BAD_COMMAND_CODE \<equiv> 0xc8000004"

abbreviation (input) CFE_EVS_NOOP_EID :: u16 where "CFE_EVS_NOOP_EID \<equiv> 0"
abbreviation (input) CFE_EVS_STARTUP_EID :: u16 where "CFE_EVS_STARTUP_EID \<equiv> 1"
abbreviation (input) CFE_EVS_ERR_WRLOGFILE_EID :: u16 where "CFE_EVS_ERR_WRLOGFILE_EID \<equiv> 2"
abbreviation (input) CFE_EVS_ERR_CRLOGFILE_EID :: u16 where "CFE_EVS_ERR_CRLOGFILE_EID \<equiv> 3"
abbreviation (input) CFE_EVS_ERR_MSGID_EID :: u16 where "CFE_EVS_ERR_MSGID_EID \<equiv> 5"
abbreviation (input) CFE_EVS_ERR_EVTIDNOREGS_EID :: u16 where "CFE_EVS_ERR_EVTIDNOREGS_EID \<equiv> 6"
abbreviation (input) CFE_EVS_ERR_APPNOREGS_EID :: u16 where "CFE_EVS_ERR_APPNOREGS_EID \<equiv> 7"
abbreviation (input) CFE_EVS_ERR_ILLAPPIDRANGE_EID :: u16 where "CFE_EVS_ERR_ILLAPPIDRANGE_EID \<equiv> 8"
abbreviation (input) CFE_EVS_ERR_NOAPPIDFOUND_EID :: u16 where "CFE_EVS_ERR_NOAPPIDFOUND_EID \<equiv> 9"
abbreviation (input) CFE_EVS_ERR_ILLEGALFMTMOD_EID :: u16 where "CFE_EVS_ERR_ILLEGALFMTMOD_EID \<equiv> 10"
abbreviation (input) CFE_EVS_ERR_MAXREGSFILTER_EID :: u16 where "CFE_EVS_ERR_MAXREGSFILTER_EID \<equiv> 11"
abbreviation (input) CFE_EVS_ERR_WRDATFILE_EID :: u16 where "CFE_EVS_ERR_WRDATFILE_EID \<equiv> 12"
abbreviation (input) CFE_EVS_ERR_CRDATFILE_EID :: u16 where "CFE_EVS_ERR_CRDATFILE_EID \<equiv> 13"
abbreviation (input) CFE_EVS_ERR_CC_EID :: u16 where "CFE_EVS_ERR_CC_EID \<equiv> 15"
abbreviation (input) CFE_EVS_RSTCNT_EID :: u16 where "CFE_EVS_RSTCNT_EID \<equiv> 16"
abbreviation (input) CFE_EVS_SETFILTERMSK_EID :: u16 where "CFE_EVS_SETFILTERMSK_EID \<equiv> 17"
abbreviation (input) CFE_EVS_ENAPORT_EID :: u16 where "CFE_EVS_ENAPORT_EID \<equiv> 18"
abbreviation (input) CFE_EVS_DISPORT_EID :: u16 where "CFE_EVS_DISPORT_EID \<equiv> 19"
abbreviation (input) CFE_EVS_ENAEVTTYPE_EID :: u16 where "CFE_EVS_ENAEVTTYPE_EID \<equiv> 20"
abbreviation (input) CFE_EVS_DISEVTTYPE_EID :: u16 where "CFE_EVS_DISEVTTYPE_EID \<equiv> 21"
abbreviation (input) CFE_EVS_SETEVTFMTMOD_EID :: u16 where "CFE_EVS_SETEVTFMTMOD_EID \<equiv> 22"
abbreviation (input) CFE_EVS_ENAAPPEVTTYPE_EID :: u16 where "CFE_EVS_ENAAPPEVTTYPE_EID \<equiv> 23"
abbreviation (input) CFE_EVS_DISAPPENTTYPE_EID :: u16 where "CFE_EVS_DISAPPENTTYPE_EID \<equiv> 24"
abbreviation (input) CFE_EVS_ENAAPPEVT_EID :: u16 where "CFE_EVS_ENAAPPEVT_EID \<equiv> 25"
abbreviation (input) CFE_EVS_DISAPPEVT_EID :: u16 where "CFE_EVS_DISAPPEVT_EID \<equiv> 26"
abbreviation (input) CFE_EVS_RSTEVTCNT_EID :: u16 where "CFE_EVS_RSTEVTCNT_EID \<equiv> 27"
abbreviation (input) CFE_EVS_RSTFILTER_EID :: u16 where "CFE_EVS_RSTFILTER_EID \<equiv> 28"
abbreviation (input) CFE_EVS_RSTALLFILTER_EID :: u16 where "CFE_EVS_RSTALLFILTER_EID \<equiv> 29"
abbreviation (input) CFE_EVS_ADDFILTER_EID :: u16 where "CFE_EVS_ADDFILTER_EID \<equiv> 30"
abbreviation (input) CFE_EVS_DELFILTER_EID :: u16 where "CFE_EVS_DELFILTER_EID \<equiv> 31"
abbreviation (input) CFE_EVS_WRDAT_EID :: u16 where "CFE_EVS_WRDAT_EID \<equiv> 32"
abbreviation (input) CFE_EVS_WRLOG_EID :: u16 where "CFE_EVS_WRLOG_EID \<equiv> 33"
abbreviation (input) CFE_EVS_EVT_FILTERED_EID :: u16 where "CFE_EVS_EVT_FILTERED_EID \<equiv> 37"
abbreviation (input) CFE_EVS_LOGMODE_EID :: u16 where "CFE_EVS_LOGMODE_EID \<equiv> 38"
abbreviation (input) CFE_EVS_ERR_LOGMODE_EID :: u16 where "CFE_EVS_ERR_LOGMODE_EID \<equiv> 39"
abbreviation (input) CFE_EVS_ERR_INVALID_BITMASK_EID :: u16 where "CFE_EVS_ERR_INVALID_BITMASK_EID \<equiv> 40"
abbreviation (input) CFE_EVS_LEN_ERR_EID :: u16 where "CFE_EVS_LEN_ERR_EID \<equiv> 43"

abbreviation (input) CFE_EVS_NOOP_CC :: u16 where "CFE_EVS_NOOP_CC \<equiv> 0"
abbreviation (input) CFE_EVS_RESET_COUNTERS_CC :: u16 where "CFE_EVS_RESET_COUNTERS_CC \<equiv> 1"
abbreviation (input) CFE_EVS_ENABLE_EVENT_TYPE_CC :: u16 where "CFE_EVS_ENABLE_EVENT_TYPE_CC \<equiv> 2"
abbreviation (input) CFE_EVS_DISABLE_EVENT_TYPE_CC :: u16 where "CFE_EVS_DISABLE_EVENT_TYPE_CC \<equiv> 3"
abbreviation (input) CFE_EVS_SET_EVENT_FORMAT_MODE_CC :: u16 where "CFE_EVS_SET_EVENT_FORMAT_MODE_CC \<equiv> 4"
abbreviation (input) CFE_EVS_ENABLE_APP_EVENT_TYPE_CC :: u16 where "CFE_EVS_ENABLE_APP_EVENT_TYPE_CC \<equiv> 5"
abbreviation (input) CFE_EVS_DISABLE_APP_EVENT_TYPE_CC :: u16 where "CFE_EVS_DISABLE_APP_EVENT_TYPE_CC \<equiv> 6"
abbreviation (input) CFE_EVS_ENABLE_APP_EVENTS_CC :: u16 where "CFE_EVS_ENABLE_APP_EVENTS_CC \<equiv> 7"
abbreviation (input) CFE_EVS_DISABLE_APP_EVENTS_CC :: u16 where "CFE_EVS_DISABLE_APP_EVENTS_CC \<equiv> 8"
abbreviation (input) CFE_EVS_RESET_APP_COUNTER_CC :: u16 where "CFE_EVS_RESET_APP_COUNTER_CC \<equiv> 9"
abbreviation (input) CFE_EVS_SET_FILTER_CC :: u16 where "CFE_EVS_SET_FILTER_CC \<equiv> 10"
abbreviation (input) CFE_EVS_ENABLE_PORTS_CC :: u16 where "CFE_EVS_ENABLE_PORTS_CC \<equiv> 11"
abbreviation (input) CFE_EVS_DISABLE_PORTS_CC :: u16 where "CFE_EVS_DISABLE_PORTS_CC \<equiv> 12"
abbreviation (input) CFE_EVS_RESET_FILTER_CC :: u16 where "CFE_EVS_RESET_FILTER_CC \<equiv> 13"
abbreviation (input) CFE_EVS_RESET_ALL_FILTERS_CC :: u16 where "CFE_EVS_RESET_ALL_FILTERS_CC \<equiv> 14"
abbreviation (input) CFE_EVS_ADD_EVENT_FILTER_CC :: u16 where "CFE_EVS_ADD_EVENT_FILTER_CC \<equiv> 15"
abbreviation (input) CFE_EVS_DELETE_EVENT_FILTER_CC :: u16 where "CFE_EVS_DELETE_EVENT_FILTER_CC \<equiv> 16"
abbreviation (input) CFE_EVS_WRITE_APP_DATA_FILE_CC :: u16 where "CFE_EVS_WRITE_APP_DATA_FILE_CC \<equiv> 17"
abbreviation (input) CFE_EVS_WRITE_LOG_DATA_FILE_CC :: u16 where "CFE_EVS_WRITE_LOG_DATA_FILE_CC \<equiv> 18"
abbreviation (input) CFE_EVS_SET_LOG_MODE_CC :: u16 where "CFE_EVS_SET_LOG_MODE_CC \<equiv> 19"
abbreviation (input) CFE_EVS_CLEAR_LOG_CC :: u16 where "CFE_EVS_CLEAR_LOG_CC \<equiv> 20"

record EVS_FileEnv =
  OpenCreate :: int32
  WriteHeader :: int32
  FileWrite :: "nat \<Rightarrow> int32"

text \<open>A field of characters of a command as a terminated string in a buffer of \<open>n\<close> characters.\<close>

definition local_name :: "nat \<Rightarrow> string \<Rightarrow> string ptr \<Rightarrow> string" where
  "local_name n src dflt =
     cstring (the (snd (CFE_SB_MessageStringGet (Some (replicate n (CHR 0x00))) src
                          (map_option (\<lambda>s. s @ [CHR 0x00]) dflt) n (length src))))"

section \<open>Commands for the task\<close>

definition CFE_EVS_NoopCmd :: "EVS_Env \<Rightarrow> string \<Rightarrow> CFE_EVS_Global \<Rightarrow> int32 \<times> CFE_EVS_Global" where
  "CFE_EVS_NoopCmd env VERSION_STRING g =
     (CFE_SUCCESS, EVS_SendEvent env CFE_EVS_NOOP_EID CFE_EVS_EventType_INFORMATION (''No-op command. '' @ VERSION_STRING) g)"

definition CFE_EVS_ClearLogCmd :: "CFE_EVS_Global \<Rightarrow> int32 \<times> CFE_EVS_Global" where
  "CFE_EVS_ClearLogCmd g = (CFE_SUCCESS, g\<lparr>EVS_Log := EVS_ClearLog (EVS_Log g)\<rparr>)"

text \<open>The loop over the table that fills the housekeeping packet, and the one that clears the rest of it.\<close>

fun hk_fill :: "EVS_AppData list \<Rightarrow> nat \<Rightarrow> CFE_EVS_AppTlmData list \<Rightarrow> nat \<times> CFE_EVS_AppTlmData list" where
  "hk_fill [] j tlm = (j, tlm)"
| "hk_fill (a # as) j tlm =
     (if j < CFE_MISSION_ES_MAX_APPLICATIONS
      then (if EVS_AppDataIsUsed a
            then hk_fill as (j + 1) (tlm[j := \<lparr>TlmAppID = EVS_AppDataGetID a, AppMessageSentCounter = EventCount a,
                                              AppEnableStatus = ActiveFlag a\<rparr>])
            else hk_fill as j tlm)
      else (j, tlm))"

text \<open>The clearing loop does not advance its pointer: every iteration clears the same entry.\<close>

fun hk_clear :: "nat \<Rightarrow> nat \<Rightarrow> CFE_EVS_AppTlmData list \<Rightarrow> CFE_EVS_AppTlmData list" where
  "hk_clear 0 j tlm = tlm"
| "hk_clear (Suc n) j tlm =
     hk_clear n j (tlm[j := \<lparr>TlmAppID = CFE_ES_APPID_UNDEFINED, AppMessageSentCounter = 0, AppEnableStatus = 0\<rparr>])"

definition CFE_EVS_ReportHousekeepingCmd :: "EVS_Env \<Rightarrow> CFE_EVS_Global \<Rightarrow> int32 \<times> CFE_EVS_Global" where
  "CFE_EVS_ReportHousekeepingCmd env g =
     (let g = upd_tlm (\<lambda>t. t\<lparr>HkLogFullFlag := LogFullFlag (EVS_Log g), HkLogMode := LogMode (EVS_Log g),
                             HkLogOverflowCounter := LogOverflowCounter (EVS_Log g)\<rparr>) g;
          (j, tlm) = hk_fill (AppData g) 0 (HkAppData (EVS_TlmPkt g));
          tlm = hk_clear (CFE_MISSION_ES_MAX_APPLICATIONS - j) j tlm;
          g = upd_tlm (\<lambda>t. t\<lparr>HkAppData := tlm\<rparr>) g;
          g = upd_tlm (\<lambda>t. t\<lparr>HkHeader := the (CFE_SB_TimeStampMsg (MsgConfig env) (GetTime env) (Some (HkHeader t)))\<rparr>) g
      in (CFE_STATUS_NO_COUNTER_INCREMENT, emit (Transmit_Hk (EVS_TlmPkt g)) g))"

definition CFE_EVS_ResetCountersCmd :: "EVS_Env \<Rightarrow> CFE_EVS_Global \<Rightarrow> int32 \<times> CFE_EVS_Global" where
  "CFE_EVS_ResetCountersCmd env g =
     (let g = upd_tlm (\<lambda>t. t\<lparr>CommandCounter := 0, CommandErrorCounter := 0, MessageTruncCounter := 0,
                             UnregisteredAppCounter := 0, MessageSendCounter := 0\<rparr>) g
      in (CFE_STATUS_NO_COUNTER_INCREMENT,
          EVS_SendEvent env CFE_EVS_RSTCNT_EID CFE_EVS_EventType_DEBUG ''Reset Counters Command Received'' g))"

definition bad_mask :: "u8 \<Rightarrow> bool" where
  "bad_mask BitMask \<longleftrightarrow> BitMask = 0 \<or> BitMask > 0x0F"

definition bad_mask_event :: "EVS_Env \<Rightarrow> u8 \<Rightarrow> u16 \<Rightarrow> CFE_EVS_Global \<Rightarrow> CFE_EVS_Global" where
  "bad_mask_event env BitMask CC g =
     EVS_SendEvent env CFE_EVS_ERR_INVALID_BITMASK_EID CFE_EVS_EventType_ERROR
       (''Bit Mask = 0x'' @ fmt_x 8 (unat BitMask) @ '' out of range: CC = '' @ fmt_u (unat CC)) g"

definition enable_ports :: "u8 \<Rightarrow> u8 \<Rightarrow> u8" where
  "enable_ports BitMask Ports =
     (let Ports = (if drop_bit 0 (BitMask AND 1) = 1 then Ports OR 1 else Ports);
          Ports = (if drop_bit 1 (BitMask AND 2) = 1 then Ports OR 2 else Ports);
          Ports = (if drop_bit 2 (BitMask AND 4) = 1 then Ports OR 4 else Ports)
      in if drop_bit 3 (BitMask AND 8) = 1 then Ports OR 8 else Ports)"

definition CFE_EVS_EnablePortsCmd :: "EVS_Env \<Rightarrow> u8 \<Rightarrow> CFE_EVS_Global \<Rightarrow> int32 \<times> CFE_EVS_Global" where
  "CFE_EVS_EnablePortsCmd env BitMask g =
     (if bad_mask BitMask then (CFE_EVS_INVALID_PARAMETER, bad_mask_event env BitMask CFE_EVS_ENABLE_PORTS_CC g)
      else
        (CFE_SUCCESS,
         EVS_SendEvent env CFE_EVS_ENAPORT_EID CFE_EVS_EventType_DEBUG
           (''Enable Ports Command Received with Port Bit Mask = 0x'' @ fmt_x 2 (unat BitMask))
           (upd_tlm (\<lambda>t. t\<lparr>OutputPort := enable_ports BitMask (OutputPort t)\<rparr>) g)))"

definition disable_ports :: "u8 \<Rightarrow> u8 \<Rightarrow> u8" where
  "disable_ports BitMask Ports =
     (let Ports = (if drop_bit 0 (BitMask AND 1) = 1 then Ports AND NOT 1 else Ports);
          Ports = (if drop_bit 1 (BitMask AND 2) = 1 then Ports AND NOT 2 else Ports);
          Ports = (if drop_bit 2 (BitMask AND 4) = 1 then Ports AND NOT 4 else Ports)
      in if drop_bit 3 (BitMask AND 8) = 1 then Ports AND NOT 8 else Ports)"

definition CFE_EVS_DisablePortsCmd :: "EVS_Env \<Rightarrow> u8 \<Rightarrow> CFE_EVS_Global \<Rightarrow> int32 \<times> CFE_EVS_Global" where
  "CFE_EVS_DisablePortsCmd env BitMask g =
     (if bad_mask BitMask then (CFE_EVS_INVALID_PARAMETER, bad_mask_event env BitMask CFE_EVS_DISABLE_PORTS_CC g)
      else
        (CFE_SUCCESS,
         EVS_SendEvent env CFE_EVS_DISPORT_EID CFE_EVS_EventType_DEBUG
           (''Disable Ports Command Received with Port Bit Mask = 0x'' @ fmt_x 2 (unat BitMask))
           (upd_tlm (\<lambda>t. t\<lparr>OutputPort := disable_ports BitMask (OutputPort t)\<rparr>) g)))"

text \<open>An update of the records of all registered applications.\<close>

definition upd_used :: "(EVS_AppData \<Rightarrow> EVS_AppData) \<Rightarrow> CFE_EVS_Global \<Rightarrow> CFE_EVS_Global" where
  "upd_used f g = g\<lparr>AppData := map (\<lambda>a. if EVS_AppDataIsUsed a then f a else a) (AppData g)\<rparr>"

definition CFE_EVS_EnableEventTypeCmd :: "EVS_Env \<Rightarrow> u8 \<Rightarrow> CFE_EVS_Global \<Rightarrow> int32 \<times> CFE_EVS_Global" where
  "CFE_EVS_EnableEventTypeCmd env BitMask g =
     (if bad_mask BitMask then (CFE_EVS_INVALID_PARAMETER, bad_mask_event env BitMask CFE_EVS_ENABLE_EVENT_TYPE_CC g)
      else
        (CFE_SUCCESS,
         EVS_SendEvent env CFE_EVS_ENAEVTTYPE_EID CFE_EVS_EventType_DEBUG
           (''Enable Event Type Command Received with Event Type Bit Mask = 0x'' @ fmt_x 2 (unat BitMask))
           (upd_used (EVS_EnableTypes BitMask) g)))"

definition CFE_EVS_DisableEventTypeCmd :: "EVS_Env \<Rightarrow> u8 \<Rightarrow> CFE_EVS_Global \<Rightarrow> int32 \<times> CFE_EVS_Global" where
  "CFE_EVS_DisableEventTypeCmd env BitMask g =
     (if bad_mask BitMask then (CFE_EVS_INVALID_PARAMETER, bad_mask_event env BitMask CFE_EVS_DISABLE_EVENT_TYPE_CC g)
      else
        (CFE_SUCCESS,
         EVS_SendEvent env CFE_EVS_DISEVTTYPE_EID CFE_EVS_EventType_DEBUG
           (''Disable Event Type Command Received with Event Type Bit Mask = 0x'' @ fmt_x 2 (unat BitMask))
           (upd_used (EVS_DisableTypes BitMask) g)))"

definition CFE_EVS_SetEventFormatModeCmd :: "EVS_Env \<Rightarrow> u8 \<Rightarrow> CFE_EVS_Global \<Rightarrow> int32 \<times> CFE_EVS_Global" where
  "CFE_EVS_SetEventFormatModeCmd env MsgFormat g =
     (if MsgFormat = CFE_EVS_MsgFormat_SHORT \<or> MsgFormat = CFE_EVS_MsgFormat_LONG
      then (CFE_SUCCESS,
            EVS_SendEvent env CFE_EVS_SETEVTFMTMOD_EID CFE_EVS_EventType_DEBUG
              (''Set Event Format Mode Command Received with Mode = 0x'' @ fmt_x 2 (unat MsgFormat))
              (upd_tlm (\<lambda>t. t\<lparr>MessageFormatMode := MsgFormat\<rparr>) g))
      else (CFE_EVS_INVALID_PARAMETER,
            EVS_SendEvent env CFE_EVS_ERR_ILLEGALFMTMOD_EID CFE_EVS_EventType_ERROR
              (''Set Event Format Mode Command: Invalid Event Format Mode = 0x'' @ fmt_x 2 (unat MsgFormat)) g))"

definition CFE_EVS_SetLogModeCmd :: "EVS_Env \<Rightarrow> u8 \<Rightarrow> CFE_EVS_Global \<Rightarrow> int32 \<times> CFE_EVS_Global" where
  "CFE_EVS_SetLogModeCmd env Mode g =
     (if Mode = CFE_EVS_LogMode_OVERWRITE \<or> Mode = CFE_EVS_LogMode_DISCARD
      then (CFE_SUCCESS,
            EVS_SendEvent env CFE_EVS_LOGMODE_EID CFE_EVS_EventType_DEBUG
              (''Set Log Mode Command: Log Mode = '' @ fmt_u (unat Mode))
              (g\<lparr>EVS_Log := (EVS_Log g)\<lparr>LogMode := Mode\<rparr>\<rparr>))
      else (CFE_EVS_INVALID_PARAMETER,
            EVS_SendEvent env CFE_EVS_ERR_LOGMODE_EID CFE_EVS_EventType_ERROR
              (''Set Log Mode Command Error: Log Mode = '' @ fmt_u (unat Mode)) g))"

section \<open>Commands for one application\<close>

text \<open>The event of a command whose application cannot be found; two handlers write a comma or a prefix of their own.\<close>

definition no_app_event ::
  "EVS_Env \<Rightarrow> int32 \<Rightarrow> string \<Rightarrow> u16 \<Rightarrow> string \<Rightarrow> string \<Rightarrow> CFE_EVS_Global \<Rightarrow> CFE_EVS_Global" where
  "no_app_event env Status LocalName CC comma prefix g =
     (if Status = CFE_EVS_APP_NOT_REGISTERED
      then EVS_SendEvent env CFE_EVS_ERR_APPNOREGS_EID CFE_EVS_EventType_ERROR
             (LocalName @ '' not registered with EVS'' @ comma @ '': CC = '' @ fmt_u (unat CC)) g
      else if Status = CFE_EVS_APP_ILLEGAL_APP_ID
      then EVS_SendEvent env CFE_EVS_ERR_ILLAPPIDRANGE_EID CFE_EVS_EventType_ERROR
             (''Illegal application ID retrieved for '' @ LocalName @ '': CC = '' @ fmt_u (unat CC)) g
      else EVS_SendEvent env CFE_EVS_ERR_NOAPPIDFOUND_EID CFE_EVS_EventType_ERROR
             (prefix @ ''Unable to retrieve application ID for '' @ LocalName @ '': CC = '' @ fmt_u (unat CC)) g)"

definition not_filtered_event :: "EVS_Env \<Rightarrow> string \<Rightarrow> u16 \<Rightarrow> u16 \<Rightarrow> string \<Rightarrow> CFE_EVS_Global \<Rightarrow> CFE_EVS_Global" where
  "not_filtered_event env LocalName EvId CC suffix g =
     EVS_SendEvent env CFE_EVS_ERR_EVTIDNOREGS_EID CFE_EVS_EventType_ERROR
       (LocalName @ '' Event ID '' @ fmt_u (unat EvId) @ '' not registered for filtering: CC = '' @ fmt_u (unat CC) @ suffix) g"

definition CFE_EVS_SetFilterCmd ::
  "EVS_Env \<Rightarrow> string \<Rightarrow> u16 \<Rightarrow> u16 \<Rightarrow> CFE_EVS_Global \<Rightarrow> int32 \<times> CFE_EVS_Global" where
  "CFE_EVS_SetFilterCmd env Name EvId Mask' g =
     (let LocalName = local_name OS_MAX_API_NAME Name NULL;
          (Status, AppDataPtr) = EVS_GetApplicationInfo env LocalName g
      in if Status = CFE_SUCCESS
         then (case EVS_FindEventID EvId (BinFilters (app_at g (the AppDataPtr))) of
                 Some FilterPtr \<Rightarrow>
                   (Status,
                    EVS_SendEvent env CFE_EVS_SETFILTERMSK_EID CFE_EVS_EventType_DEBUG
                      (''Set Filter Mask Command Received with AppName='' @ LocalName @ '', EventID=0x'' @ fmt_x 8 (unat EvId)
                       @ '', Mask=0x'' @ fmt_x 4 (unat Mask'))
                      (upd_filter (the AppDataPtr) FilterPtr (\<lambda>f. f\<lparr>Mask := Mask'\<rparr>) g))
               | None \<Rightarrow> (CFE_EVS_EVT_NOT_REGISTERED, not_filtered_event env LocalName EvId CFE_EVS_SET_FILTER_CC '' '' g))
         else (Status, no_app_event env Status LocalName CFE_EVS_SET_FILTER_CC [] [] g))"

definition CFE_EVS_EnableAppEventTypeCmd ::
  "EVS_Env \<Rightarrow> string \<Rightarrow> u8 \<Rightarrow> CFE_EVS_Global \<Rightarrow> int32 \<times> CFE_EVS_Global" where
  "CFE_EVS_EnableAppEventTypeCmd env Name BitMask g =
     (let LocalName = local_name OS_MAX_API_NAME Name NULL;
          (Status, AppDataPtr) = EVS_GetApplicationInfo env LocalName g
      in if Status = CFE_SUCCESS
         then (if bad_mask BitMask
               then (CFE_EVS_INVALID_PARAMETER, bad_mask_event env BitMask CFE_EVS_ENABLE_APP_EVENT_TYPE_CC g)
               else (Status,
                     EVS_SendEvent env CFE_EVS_ENAAPPEVTTYPE_EID CFE_EVS_EventType_DEBUG
                       (''Enable App Event Type Command Received with AppName = '' @ LocalName
                        @ '', EventType Bit Mask = 0x'' @ fmt_x 2 (unat BitMask))
                       (upd_app (the AppDataPtr) (EVS_EnableTypes BitMask) g)))
         else (Status, no_app_event env Status LocalName CFE_EVS_ENABLE_APP_EVENT_TYPE_CC [] [] g))"

definition CFE_EVS_DisableAppEventTypeCmd ::
  "EVS_Env \<Rightarrow> string \<Rightarrow> u8 \<Rightarrow> CFE_EVS_Global \<Rightarrow> int32 \<times> CFE_EVS_Global" where
  "CFE_EVS_DisableAppEventTypeCmd env Name BitMask g =
     (let LocalName = local_name OS_MAX_API_NAME Name NULL;
          (Status, AppDataPtr) = EVS_GetApplicationInfo env LocalName g
      in if Status = CFE_SUCCESS
         then (if bad_mask BitMask
               then (CFE_EVS_INVALID_PARAMETER, bad_mask_event env BitMask CFE_EVS_DISABLE_APP_EVENT_TYPE_CC g)
               else (Status,
                     EVS_SendEvent env CFE_EVS_DISAPPENTTYPE_EID CFE_EVS_EventType_DEBUG
                       (''Disable App Event Type Command Received with AppName = '' @ LocalName
                        @ '', EventType Bit Mask = 0x'' @ fmt_x 2 (unat BitMask))
                       (upd_app (the AppDataPtr) (EVS_DisableTypes BitMask) g)))
         else (Status, no_app_event env Status LocalName CFE_EVS_DISABLE_APP_EVENT_TYPE_CC '','' [] g))"

definition CFE_EVS_EnableAppEventsCmd :: "EVS_Env \<Rightarrow> string \<Rightarrow> CFE_EVS_Global \<Rightarrow> int32 \<times> CFE_EVS_Global" where
  "CFE_EVS_EnableAppEventsCmd env Name g =
     (let LocalName = local_name OS_MAX_API_NAME Name NULL;
          (Status, AppDataPtr) = EVS_GetApplicationInfo env LocalName g
      in if Status = CFE_SUCCESS
         then (Status,
               EVS_SendEvent env CFE_EVS_ENAAPPEVT_EID CFE_EVS_EventType_DEBUG
                 (''Enable App Events Command Received with AppName = '' @ LocalName)
                 (upd_app (the AppDataPtr) (\<lambda>a. a\<lparr>ActiveFlag := 1\<rparr>) g))
         else (Status, no_app_event env Status LocalName CFE_EVS_ENABLE_APP_EVENTS_CC [] [] g))"

definition CFE_EVS_DisableAppEventsCmd :: "EVS_Env \<Rightarrow> string \<Rightarrow> CFE_EVS_Global \<Rightarrow> int32 \<times> CFE_EVS_Global" where
  "CFE_EVS_DisableAppEventsCmd env Name g =
     (let LocalName = local_name OS_MAX_API_NAME Name NULL;
          (Status, AppDataPtr) = EVS_GetApplicationInfo env LocalName g
      in if Status = CFE_SUCCESS
         then (Status,
               EVS_SendEvent env CFE_EVS_DISAPPEVT_EID CFE_EVS_EventType_DEBUG
                 (''Disable App Events Command Received with AppName = '' @ LocalName)
                 (upd_app (the AppDataPtr) (\<lambda>a. a\<lparr>ActiveFlag := 0\<rparr>) g))
         else (Status, no_app_event env Status LocalName CFE_EVS_DISABLE_APP_EVENTS_CC [] ''Disable App Events Command: '' g))"

definition CFE_EVS_ResetAppCounterCmd :: "EVS_Env \<Rightarrow> string \<Rightarrow> CFE_EVS_Global \<Rightarrow> int32 \<times> CFE_EVS_Global" where
  "CFE_EVS_ResetAppCounterCmd env Name g =
     (let LocalName = local_name OS_MAX_API_NAME Name NULL;
          (Status, AppDataPtr) = EVS_GetApplicationInfo env LocalName g
      in if Status = CFE_SUCCESS
         then (Status,
               EVS_SendEvent env CFE_EVS_RSTEVTCNT_EID CFE_EVS_EventType_DEBUG
                 (''Reset Event Counter Command Received with AppName = '' @ LocalName)
                 (upd_app (the AppDataPtr) (\<lambda>a. a\<lparr>EventCount := 0\<rparr>) g))
         else (Status, no_app_event env Status LocalName CFE_EVS_RESET_APP_COUNTER_CC [] ''Reset Event Counter Command: '' g))"

definition CFE_EVS_ResetFilterCmd ::
  "EVS_Env \<Rightarrow> string \<Rightarrow> u16 \<Rightarrow> CFE_EVS_Global \<Rightarrow> int32 \<times> CFE_EVS_Global" where
  "CFE_EVS_ResetFilterCmd env Name EvId g =
     (let LocalName = local_name OS_MAX_API_NAME Name NULL;
          (Status, AppDataPtr) = EVS_GetApplicationInfo env LocalName g
      in if Status = CFE_SUCCESS
         then (case EVS_FindEventID EvId (BinFilters (app_at g (the AppDataPtr))) of
                 Some FilterPtr \<Rightarrow>
                   (Status,
                    EVS_SendEvent env CFE_EVS_RSTFILTER_EID CFE_EVS_EventType_DEBUG
                      (''Reset Filter Command Received with AppName = '' @ LocalName @ '', EventID = 0x'' @ fmt_x 8 (unat EvId))
                      (upd_filter (the AppDataPtr) FilterPtr (\<lambda>f. f\<lparr>Count := 0\<rparr>) g))
               | None \<Rightarrow> (CFE_EVS_EVT_NOT_REGISTERED, not_filtered_event env LocalName EvId CFE_EVS_RESET_FILTER_CC [] g))
         else (Status, no_app_event env Status LocalName CFE_EVS_RESET_FILTER_CC [] [] g))"

definition CFE_EVS_ResetAllFiltersCmd :: "EVS_Env \<Rightarrow> string \<Rightarrow> CFE_EVS_Global \<Rightarrow> int32 \<times> CFE_EVS_Global" where
  "CFE_EVS_ResetAllFiltersCmd env Name g =
     (let LocalName = local_name OS_MAX_API_NAME Name NULL;
          (Status, AppDataPtr) = EVS_GetApplicationInfo env LocalName g
      in if Status = CFE_SUCCESS
         then (Status,
               EVS_SendEvent env CFE_EVS_RSTALLFILTER_EID CFE_EVS_EventType_DEBUG
                 (''Reset All Filters Command Received with AppName = '' @ LocalName)
                 (upd_app (the AppDataPtr) reset_counts g))
         else (Status, no_app_event env Status LocalName CFE_EVS_RESET_ALL_FILTERS_CC [] [] g))"

definition CFE_EVS_AddEventFilterCmd ::
  "EVS_Env \<Rightarrow> string \<Rightarrow> u16 \<Rightarrow> u16 \<Rightarrow> CFE_EVS_Global \<Rightarrow> int32 \<times> CFE_EVS_Global" where
  "CFE_EVS_AddEventFilterCmd env Name EvId Mask' g =
     (let LocalName = local_name OS_MAX_API_NAME Name NULL;
          (Status, AppDataPtr) = EVS_GetApplicationInfo env LocalName g
      in if Status = CFE_SUCCESS
         then (if EVS_FindEventID EvId (BinFilters (app_at g (the AppDataPtr))) \<noteq> NULL
               then (CFE_EVS_EVT_NOT_REGISTERED,
                     EVS_SendEvent env CFE_EVS_EVT_FILTERED_EID CFE_EVS_EventType_ERROR
                       (''Add Filter Command:AppName = '' @ LocalName @ '', EventID = 0x'' @ fmt_x 8 (unat EvId)
                        @ '' is already registered for filtering'') g)
               else
                 (case EVS_FindEventID CFE_EVS_FREE_SLOT (BinFilters (app_at g (the AppDataPtr))) of
                    Some FilterPtr \<Rightarrow>
                      (Status,
                       EVS_SendEvent env CFE_EVS_ADDFILTER_EID CFE_EVS_EventType_DEBUG
                         (''Add Filter Command Received with AppName = '' @ LocalName @ '', EventID = 0x''
                          @ fmt_x 8 (unat EvId) @ '', Mask = 0x'' @ fmt_x 4 (unat Mask'))
                         (upd_filter (the AppDataPtr) FilterPtr (\<lambda>f. f\<lparr>EventID := EvId, Mask := Mask', Count := 0\<rparr>) g))
                  | None \<Rightarrow>
                      (CFE_EVS_APP_FILTER_OVERLOAD,
                       EVS_SendEvent env CFE_EVS_ERR_MAXREGSFILTER_EID CFE_EVS_EventType_ERROR
                         (''Add Filter Command: number of registered filters has reached max = ''
                          @ fmt_u CFE_PLATFORM_EVS_MAX_EVENT_FILTERS) g)))
         else (Status, no_app_event env Status LocalName CFE_EVS_ADD_EVENT_FILTER_CC [] [] g))"

definition CFE_EVS_DeleteEventFilterCmd ::
  "EVS_Env \<Rightarrow> string \<Rightarrow> u16 \<Rightarrow> CFE_EVS_Global \<Rightarrow> int32 \<times> CFE_EVS_Global" where
  "CFE_EVS_DeleteEventFilterCmd env Name EvId g =
     (let LocalName = local_name OS_MAX_API_NAME Name NULL;
          (Status, AppDataPtr) = EVS_GetApplicationInfo env LocalName g
      in if Status = CFE_SUCCESS
         then (case EVS_FindEventID EvId (BinFilters (app_at g (the AppDataPtr))) of
                 Some FilterPtr \<Rightarrow>
                   (Status,
                    EVS_SendEvent env CFE_EVS_DELFILTER_EID CFE_EVS_EventType_DEBUG
                      (''Delete Filter Command Received with AppName = '' @ LocalName @ '', EventID = 0x'' @ fmt_x 8 (unat EvId))
                      (upd_filter (the AppDataPtr) FilterPtr
                         (\<lambda>f. f\<lparr>EventID := CFE_EVS_FREE_SLOT, Mask := CFE_EVS_NO_MASK, Count := 0\<rparr>) g))
               | None \<Rightarrow> (CFE_EVS_EVT_NOT_REGISTERED, not_filtered_event env LocalName EvId CFE_EVS_DELETE_EVENT_FILTER_CC [] g))
         else (Status, no_app_event env Status LocalName CFE_EVS_DELETE_EVENT_FILTER_CC [] [] g))"

section \<open>Commands that write files\<close>

abbreviation (input) sizeof_FS_Header :: int32 where "sizeof_FS_Header \<equiv> 64"
abbreviation (input) sizeof_AppDataFile :: int32 where "sizeof_AppDataFile \<equiv> 88"

text \<open>
  The loop over the log entries: \<open>n\<close> entries are left; the result is the number of entries written, the result of the
  last write and the state.
\<close>

fun log_write_loop ::
  "EVS_FileEnv \<Rightarrow> int32 \<Rightarrow> nat \<Rightarrow> nat \<Rightarrow> nat \<Rightarrow> int32 \<Rightarrow> CFE_EVS_Global \<Rightarrow> nat \<times> int32 \<times> CFE_EVS_Global" where
  "log_write_loop fenv sz 0 i LogIndex BytesWritten g = (i, BytesWritten, g)"
| "log_write_loop fenv sz (Suc n) i LogIndex BytesWritten g =
     (let BytesWritten = FileWrite fenv i;
          g = emit (Write_Log (LogEntry (EVS_Log g) ! LogIndex)) g
      in if BytesWritten = sz
         then (let LogIndex = LogIndex + 1;
                   LogIndex = (if LogIndex \<ge> unat CFE_PLATFORM_EVS_LOG_MAX then 0 else LogIndex)
               in log_write_loop fenv sz n (i + 1) LogIndex BytesWritten g)
         else (i, BytesWritten, g))"

text \<open>
  The command is one step here.  The code compares the number of entries written with the length of the log after it has
  released the mutex, so that an event that another task logs in between makes it report an error for a complete file.
\<close>

definition CFE_EVS_WriteLogDataFileCmd ::
  "EVS_Env \<Rightarrow> EVS_FileEnv \<Rightarrow> string \<Rightarrow> CFE_EVS_Global \<Rightarrow> int32 \<times> CFE_EVS_Global" where
  "CFE_EVS_WriteLogDataFileCmd env fenv Name g =
     (let LogFilename = local_name OS_MAX_PATH_LEN Name (Some CFE_PLATFORM_EVS_DEFAULT_LOG_FILE);
          Result = OpenCreate fenv;
          g = emit (Create_File LogFilename) g
      in if Result <s 0
         then (Result,
               EVS_SendEvent env CFE_EVS_ERR_CRLOGFILE_EID CFE_EVS_EventType_ERROR
                 (''Write Log File Command Error: OS_OpenCreate = 0x'' @ fmt_X 8 (unat Result) @ '', filename = '' @ LogFilename) g)
         else
           (let g = emit Write_Header g;
                (Result, g) =
                  (if WriteHeader fenv = sizeof_FS_Header
                   then (let LogIndex = (if LogCount (EVS_Log g) = CFE_PLATFORM_EVS_LOG_MAX
                                         then unat (Next (EVS_Log g)) else 0);
                             (i, BytesWritten, g) =
                               log_write_loop fenv (of_nat (sizeof_LongEventTlm (MsgConfig env)))
                                 (unat (LogCount (EVS_Log g))) 0 LogIndex (WriteHeader fenv) g
                         in if i = unat (LogCount (EVS_Log g))
                            then (CFE_SUCCESS,
                                  EVS_SendEvent env CFE_EVS_WRLOG_EID CFE_EVS_EventType_DEBUG
                                    (''Write Log File Command: '' @ fmt_u (unat (LogCount (EVS_Log g)))
                                     @ '' event log entries written to '' @ LogFilename) g)
                            else (CFE_EVS_FILE_WRITE_ERROR,
                                  EVS_SendEvent env CFE_EVS_ERR_WRLOGFILE_EID CFE_EVS_EventType_ERROR
                                    (''Write Log File Command Error: OS_write = 0x'' @ fmt_X 8 (unat BytesWritten)
                                     @ '', filename = '' @ LogFilename) g))
                   else (CFE_EVS_FILE_WRITE_ERROR, g))
            in (Result, emit Close_File g)))"

definition app_file_record :: "EVS_Env \<Rightarrow> EVS_AppData \<Rightarrow> CFE_EVS_AppDataFile" where
  "app_file_record env a =
     \<lparr>FileAppName = GetAppName env (EVS_AppDataGetID a), FileActiveFlag = ActiveFlag a,
      FileEventTypesActiveFlag = EventTypesActiveFlag a, FileEventCount = EventCount a, FileFilters = BinFilters a\<rparr>"

text \<open>
  The loop over the application table; \<open>k\<close> counts the entries written.  The result says whether the loop reached the
  end of the table.
\<close>

fun app_write_loop ::
  "EVS_Env \<Rightarrow> EVS_FileEnv \<Rightarrow> string \<Rightarrow> nat list \<Rightarrow> nat \<Rightarrow> CFE_EVS_Global \<Rightarrow> bool \<times> nat \<times> CFE_EVS_Global" where
  "app_write_loop env fenv LocalName [] k g = (True, k, g)"
| "app_write_loop env fenv LocalName (i # is) k g =
     (if EVS_AppDataIsUsed (app_at g i)
      then (let BytesWritten = FileWrite fenv k;
                g = emit (Write_App (app_file_record env (app_at g i))) g
            in if BytesWritten = sizeof_AppDataFile then app_write_loop env fenv LocalName is (k + 1) g
               else (False, k,
                     EVS_SendEvent env CFE_EVS_ERR_WRDATFILE_EID CFE_EVS_EventType_ERROR
                       (''Write App Data Command Error: OS_write = 0x'' @ fmt_X 8 (unat BytesWritten)
                        @ '', filename = '' @ LocalName) g))
      else app_write_loop env fenv LocalName is k g)"

definition CFE_EVS_WriteAppDataFileCmd ::
  "EVS_Env \<Rightarrow> EVS_FileEnv \<Rightarrow> string \<Rightarrow> CFE_EVS_Global \<Rightarrow> int32 \<times> CFE_EVS_Global" where
  "CFE_EVS_WriteAppDataFileCmd env fenv Name g =
     (let LocalName = local_name OS_MAX_PATH_LEN Name (Some CFE_PLATFORM_EVS_DEFAULT_APP_DATA_FILE);
          Result = OpenCreate fenv;
          g = emit (Create_File LocalName) g
      in if Result <s 0
         then (Result,
               EVS_SendEvent env CFE_EVS_ERR_CRDATFILE_EID CFE_EVS_EventType_ERROR
                 (''Write App Data Command Error: OS_OpenCreate = 0x'' @ fmt_X 8 (unat Result) @ '', filename = '' @ LocalName) g)
         else
           (let g = emit Write_Header g;
                (Result, g) =
                  (if WriteHeader fenv = sizeof_FS_Header
                   then (let (done, EntryCount, g) =
                               app_write_loop env fenv LocalName [0 ..< CFE_PLATFORM_ES_MAX_APPLICATIONS] 0 g
                         in if done
                            then (CFE_SUCCESS,
                                  EVS_SendEvent env CFE_EVS_WRDAT_EID CFE_EVS_EventType_DEBUG
                                    (''Write App Data Command: '' @ fmt_u EntryCount
                                     @ '' application data entries written to '' @ LocalName) g)
                            else (CFE_EVS_FILE_WRITE_ERROR, g))
                   else (CFE_EVS_FILE_WRITE_ERROR, g))
            in (Result, emit Close_File g)))"

section \<open>Dispatch\<close>

text \<open>Members of a payload at an offset from the end of the command header.\<close>

definition cmd_chars :: "EVS_Env \<Rightarrow> message \<Rightarrow> nat \<Rightarrow> nat \<Rightarrow> string" where
  "cmd_chars env m off n =
     map (\<lambda>k. char_of (unat (m ! (unat (sizeof_CommandHeader (MsgConfig env)) + off + k)))) [0 ..< n]"

definition cmd_u8 :: "EVS_Env \<Rightarrow> message \<Rightarrow> nat \<Rightarrow> u8" where
  "cmd_u8 env m off = m ! (unat (sizeof_CommandHeader (MsgConfig env)) + off)"

definition cmd_u16 :: "EVS_Env \<Rightarrow> message \<Rightarrow> nat \<Rightarrow> u16" where
  "cmd_u16 env m off =
     (let a = cmd_u8 env m off; b = cmd_u8 env m (off + 1)
      in if platform_little_endian (MsgPlatform env) then be16 b a else be16 a b)"

definition sizeof_cmd :: "EVS_Env \<Rightarrow> nat \<Rightarrow> nat" where
  "sizeof_cmd env payload = unat (sizeof_CommandHeader (MsgConfig env)) + payload"

definition CFE_EVS_VerifyCmdLength :: "EVS_Env \<Rightarrow> message \<Rightarrow> nat \<Rightarrow> CFE_EVS_Global \<Rightarrow> bool \<times> CFE_EVS_Global" where
  "CFE_EVS_VerifyCmdLength env m ExpectedLength g =
     (let ActualLength = the (snd (CFE_MSG_GetSize (Some m) (Some 0)))
      in if ExpectedLength \<noteq> ActualLength
         then (let MsgId = the (snd (CFE_MSG_GetMsgId (MsgConfig env) (Some m) (Some CFE_SB_INVALID_MSG_ID)));
                   FcnCode = the (snd (CFE_MSG_GetFcnCode (MsgConfig env) (Some m) (Some 0)))
               in (False,
                   EVS_SendEvent env CFE_EVS_LEN_ERR_EID CFE_EVS_EventType_ERROR
                     (''Invalid msg length: ID = 0x'' @ fmt_X 0 (unat MsgId) @ '',  CC = '' @ fmt_u (unat FcnCode)
                      @ '', Len = '' @ fmt_u ActualLength @ '', Expected = '' @ fmt_u ExpectedLength) g))
         else (True, g))"

text \<open>The form of every case of the dispatch: the length is verified, then the handler runs.\<close>

definition checked ::
  "EVS_Env \<Rightarrow> message \<Rightarrow> nat \<Rightarrow> (CFE_EVS_Global \<Rightarrow> int32 \<times> CFE_EVS_Global) \<Rightarrow> CFE_EVS_Global \<Rightarrow> int32 \<times> CFE_EVS_Global" where
  "checked env m payload handler g =
     (let (ok, g) = CFE_EVS_VerifyCmdLength env m (sizeof_cmd env payload) g
      in if ok then handler g else (CFE_STATUS_WRONG_MSG_LENGTH, g))"

definition ground_command ::
  "EVS_Env \<Rightarrow> EVS_FileEnv \<Rightarrow> string \<Rightarrow> message \<Rightarrow> CFE_SB_MsgId \<Rightarrow> CFE_EVS_Global \<Rightarrow> int32 \<times> CFE_EVS_Global" where
  "ground_command env fenv VERSION_STRING m MsgId g =
     (let FcnCode = the (snd (CFE_MSG_GetFcnCode (MsgConfig env) (Some m) (Some 0)));
          name = cmd_chars env m 0 20
      in if FcnCode = CFE_EVS_NOOP_CC then checked env m 0 (CFE_EVS_NoopCmd env VERSION_STRING) g
         else if FcnCode = CFE_EVS_RESET_COUNTERS_CC then checked env m 0 (CFE_EVS_ResetCountersCmd env) g
         else if FcnCode = CFE_EVS_ENABLE_EVENT_TYPE_CC then checked env m 2 (CFE_EVS_EnableEventTypeCmd env (cmd_u8 env m 0)) g
         else if FcnCode = CFE_EVS_DISABLE_EVENT_TYPE_CC then checked env m 2 (CFE_EVS_DisableEventTypeCmd env (cmd_u8 env m 0)) g
         else if FcnCode = CFE_EVS_SET_EVENT_FORMAT_MODE_CC
         then checked env m 2 (CFE_EVS_SetEventFormatModeCmd env (cmd_u8 env m 0)) g
         else if FcnCode = CFE_EVS_ENABLE_APP_EVENT_TYPE_CC
         then checked env m 22 (CFE_EVS_EnableAppEventTypeCmd env name (cmd_u8 env m 20)) g
         else if FcnCode = CFE_EVS_DISABLE_APP_EVENT_TYPE_CC
         then checked env m 22 (CFE_EVS_DisableAppEventTypeCmd env name (cmd_u8 env m 20)) g
         else if FcnCode = CFE_EVS_ENABLE_APP_EVENTS_CC then checked env m 20 (CFE_EVS_EnableAppEventsCmd env name) g
         else if FcnCode = CFE_EVS_DISABLE_APP_EVENTS_CC then checked env m 20 (CFE_EVS_DisableAppEventsCmd env name) g
         else if FcnCode = CFE_EVS_RESET_APP_COUNTER_CC then checked env m 20 (CFE_EVS_ResetAppCounterCmd env name) g
         else if FcnCode = CFE_EVS_SET_FILTER_CC
         then checked env m 24 (CFE_EVS_SetFilterCmd env name (cmd_u16 env m 20) (cmd_u16 env m 22)) g
         else if FcnCode = CFE_EVS_ENABLE_PORTS_CC then checked env m 2 (CFE_EVS_EnablePortsCmd env (cmd_u8 env m 0)) g
         else if FcnCode = CFE_EVS_DISABLE_PORTS_CC then checked env m 2 (CFE_EVS_DisablePortsCmd env (cmd_u8 env m 0)) g
         else if FcnCode = CFE_EVS_RESET_FILTER_CC then checked env m 22 (CFE_EVS_ResetFilterCmd env name (cmd_u16 env m 20)) g
         else if FcnCode = CFE_EVS_RESET_ALL_FILTERS_CC then checked env m 20 (CFE_EVS_ResetAllFiltersCmd env name) g
         else if FcnCode = CFE_EVS_ADD_EVENT_FILTER_CC
         then checked env m 24 (CFE_EVS_AddEventFilterCmd env name (cmd_u16 env m 20) (cmd_u16 env m 22)) g
         else if FcnCode = CFE_EVS_DELETE_EVENT_FILTER_CC
         then checked env m 22 (CFE_EVS_DeleteEventFilterCmd env name (cmd_u16 env m 20)) g
         else if FcnCode = CFE_EVS_WRITE_APP_DATA_FILE_CC
         then checked env m 64 (CFE_EVS_WriteAppDataFileCmd env fenv (cmd_chars env m 0 64)) g
         else if FcnCode = CFE_EVS_SET_LOG_MODE_CC then checked env m 2 (CFE_EVS_SetLogModeCmd env (cmd_u8 env m 0)) g
         else if FcnCode = CFE_EVS_CLEAR_LOG_CC then checked env m 0 CFE_EVS_ClearLogCmd g
         else if FcnCode = CFE_EVS_WRITE_LOG_DATA_FILE_CC
         then checked env m 64 (CFE_EVS_WriteLogDataFileCmd env fenv (cmd_chars env m 0 64)) g
         else (CFE_STATUS_BAD_COMMAND_CODE,
               EVS_SendEvent env CFE_EVS_ERR_CC_EID CFE_EVS_EventType_ERROR
                 (''Invalid command code -- ID = 0x'' @ fmt_x 8 (unat MsgId) @ '', CC = '' @ fmt_u (unat FcnCode)) g))"

definition CFE_EVS_ProcessGroundCommand ::
  "EVS_Env \<Rightarrow> EVS_FileEnv \<Rightarrow> string \<Rightarrow> message \<Rightarrow> CFE_SB_MsgId \<Rightarrow> CFE_EVS_Global \<Rightarrow> CFE_EVS_Global" where
  "CFE_EVS_ProcessGroundCommand env fenv VERSION_STRING m MsgId g =
     (let (Status, g) = ground_command env fenv VERSION_STRING m MsgId g
      in if Status = CFE_SUCCESS then upd_tlm (\<lambda>t. t\<lparr>CommandCounter := CommandCounter t + 1\<rparr>) g
         else if Status <s 0 then upd_tlm (\<lambda>t. t\<lparr>CommandErrorCounter := CommandErrorCounter t + 1\<rparr>) g
         else g)"

definition CFE_EVS_ProcessCommandPacket ::
  "EVS_Env \<Rightarrow> EVS_FileEnv \<Rightarrow> string \<Rightarrow> message \<Rightarrow> CFE_EVS_Global \<Rightarrow> CFE_EVS_Global" where
  "CFE_EVS_ProcessCommandPacket env fenv VERSION_STRING m g =
     (let MessageID = the (snd (CFE_MSG_GetMsgId (MsgConfig env) (Some m) (Some CFE_SB_INVALID_MSG_ID)))
      in if MessageID = CFE_EVS_CMD_MID then CFE_EVS_ProcessGroundCommand env fenv VERSION_STRING m MessageID g
         else if MessageID = CFE_EVS_SEND_HK_MID then snd (CFE_EVS_ReportHousekeepingCmd env g)
         else EVS_SendEvent env CFE_EVS_ERR_MSGID_EID CFE_EVS_EventType_ERROR
                (''Invalid command packet, Message ID = 0x'' @ fmt_X 8 (unat MessageID))
                (upd_tlm (\<lambda>t. t\<lparr>CommandErrorCounter := CommandErrorCounter t + 1\<rparr>) g))"

section \<open>Initialization\<close>

text \<open>
  \<open>ResetLog\<close> is the log in the reset area of the platform, \<open>sizeof_ResetData\<close> the size of that area the executive
  needs.  After a failure the code asks the platform to stop the processor; the status is returned if it does not.
\<close>

record EVS_InitEnv =
  ResetAreaStatus :: int32
  ResetAreaSize :: u32
  sizeof_ResetData :: u32
  ResetLog :: CFE_EVS_Log
  MutSemCreate :: int32
  ResetType :: int32
  RegisterApp :: int32
  CreatePipe :: "int32 \<times> u32"
  SubscribeCmd :: int32
  SubscribeHk :: int32

definition cleared_global :: "EVS_Env \<Rightarrow> CFE_EVS_Log \<Rightarrow> CFE_EVS_Global" where
  "cleared_global env l =
     \<lparr>AppData = replicate CFE_PLATFORM_ES_MAX_APPLICATIONS zero_app,
      EVS_Log = l,
      EVS_TlmPkt =
        \<lparr>HkHeader = take (unat (sizeof_TelemetryHeader (MsgConfig env)))
                     (the (snd (CFE_MSG_Init (MsgConfig env) (MsgPlatform env) (Some (replicate 160 0)) CFE_EVS_HK_TLM_MID 160))),
         CommandCounter = 0, CommandErrorCounter = 0, MessageFormatMode = CFE_EVS_MsgFormat_LONG, MessageTruncCounter = 0,
         UnregisteredAppCounter = 0, OutputPort = CFE_PLATFORM_EVS_PORT_DEFAULT, HkLogFullFlag = 0,
         HkLogMode = CFE_PLATFORM_EVS_DEFAULT_LOG_MODE, MessageSendCounter = 0, HkLogOverflowCounter = 0, LogEnabled = 0,
         HkAppData = replicate CFE_MISSION_ES_MAX_APPLICATIONS
                       \<lparr>TlmAppID = 0, AppMessageSentCounter = 0, AppEnableStatus = 0\<rparr>\<rparr>,
      EVS_CommandPipe = 0, EVS_AppID = 0, Out = []\<rparr>"

definition CFE_EVS_EarlyInit :: "EVS_Env \<Rightarrow> EVS_InitEnv \<Rightarrow> int32 \<times> CFE_EVS_Global" where
  "CFE_EVS_EarlyInit env ienv =
     (let l = ResetLog ienv;
          g = cleared_global env l
      in if ResetAreaStatus ienv \<noteq> CFE_SUCCESS then (ResetAreaStatus ienv, g)
         else if ResetAreaSize ienv < sizeof_ResetData ienv then (CFE_EVS_RESET_AREA_POINTER, g)
         else if MutSemCreate ienv \<noteq> 0 then (MutSemCreate ienv, g)
         else
           (let g = upd_tlm (\<lambda>t. t\<lparr>LogEnabled := 1\<rparr>) g
            in if ResetType ienv = CFE_PSP_RST_TYPE_POWERON \<or>
                  (LogMode l \<noteq> CFE_EVS_LogMode_OVERWRITE \<and> LogMode l \<noteq> CFE_EVS_LogMode_DISCARD) \<or>
                  (LogFullFlag l \<noteq> 0 \<and> LogFullFlag l \<noteq> 1) \<or> Next l \<ge> CFE_PLATFORM_EVS_LOG_MAX
               then (CFE_SUCCESS,
                     g\<lparr>EVS_Log := (EVS_ClearLog l)\<lparr>LogMode := CFE_PLATFORM_EVS_DEFAULT_LOG_MODE\<rparr>\<rparr>)
               else (CFE_SUCCESS, g)))"

definition CFE_EVS_TaskInit ::
  "EVS_Env \<Rightarrow> EVS_InitEnv \<Rightarrow> string \<Rightarrow> CFE_EVS_Global \<Rightarrow> int32 \<times> CFE_EVS_Global" where
  "CFE_EVS_TaskInit env ienv VERSION_STRING g =
     (if RegisterApp ienv \<noteq> CFE_SUCCESS then (RegisterApp ienv, g)
      else
        (let (Status, AppId) = GetAppID env
         in if Status \<noteq> CFE_SUCCESS then (Status, g)
            else
              (let (Status, g) = CFE_EVS_Register env NULL 0 CFE_EVS_EventFilter_BINARY g
               in if Status \<noteq> CFE_SUCCESS then (Status, g)
                  else if fst (CreatePipe ienv) \<noteq> CFE_SUCCESS then (fst (CreatePipe ienv), g)
                  else
                    (let g = g\<lparr>EVS_CommandPipe := snd (CreatePipe ienv)\<rparr>
                     in if SubscribeCmd ienv \<noteq> CFE_SUCCESS then (SubscribeCmd ienv, g)
                        else if SubscribeHk ienv \<noteq> CFE_SUCCESS then (SubscribeHk ienv, g)
                        else (CFE_SUCCESS,
                              EVS_SendEvent env CFE_EVS_STARTUP_EID CFE_EVS_EventType_INFORMATION
                                (''cFE EVS Initialized.'' @ VERSION_STRING) (g\<lparr>EVS_AppID := AppId\<rparr>))))))"

end
