(* ===== verification/CFE_EVS_Events.thy ===== *)
theory CFE_EVS_Events
  imports CFE_EVS_Task
begin

unbundle bit_operations_syntax

text \<open>
  What one event does: the exact effect of \<open>EVS_GenerateEventTelemetry\<close> on every part of the state, the event log as a
  bounded list, the contract of a state predicate that events preserve, and the schedule of binary filters.
\<close>

section \<open>The effect of an event packet\<close>

definition bump :: "EVS_AppData \<Rightarrow> EVS_AppData" where
  "bump a = (if EventCount a < CFE_EVS_MAX_EVENT_SEND_COUNT then a\<lparr>EventCount := EventCount a + 1\<rparr> else a)"

text \<open>The packets and texts that go out for an event, by the enabled ports and the format mode.\<close>

definition port_outputs :: "u8 \<Rightarrow> CFE_EVS_LongEventTlm \<Rightarrow> evs_out list" where
  "port_outputs ports pkt =
     (let out = (\<lambda>n. [Port n (port_text n pkt @ [CHR 0x0A])])
      in (if bit ports 0 then out 1 else []) @ (if bit ports 1 then out 2 else [])
         @ (if bit ports 2 then out 3 else []) @ (if bit ports 3 then out 4 else []))"

definition event_outputs :: "EVS_Env \<Rightarrow> u8 \<Rightarrow> u8 \<Rightarrow> CFE_TIME_SysTime \<Rightarrow> CFE_EVS_LongEventTlm \<Rightarrow> evs_out list" where
  "event_outputs env ports mode ts pkt =
     port_outputs ports pkt
     @ (if mode = CFE_EVS_MsgFormat_LONG then [Transmit_Long pkt]
        else if mode = CFE_EVS_MsgFormat_SHORT
        then [Transmit_Short \<lparr>ShortHeader = init_header env CFE_EVS_SHORT_EVENT_MSG_MID
                                            (sizeof_ShortEventTlm (MsgConfig env)) ts,
                              ShortPacketID = PacketID pkt\<rparr>]
        else [])"

lemma port_bit: "drop_bit n (w AND push_bit n 1) = (1 :: u8) \<longleftrightarrow> bit w n \<and> n < 8"
proof
  assume "drop_bit n (w AND push_bit n 1) = 1"
  then have "bit (drop_bit n (w AND push_bit n 1)) 0" by simp
  then show "bit w n \<and> n < 8" by (auto simp: bit_simps dest: bit_imp_le_length)
next
  assume "bit w n \<and> n < 8"
  then show "drop_bit n (w AND push_bit n 1) = 1" by (intro bit_word_eqI) (auto simp: bit_simps bit_1_iff)
qed

lemma emit_simps [simp]:
  "AppData (emit x g) = AppData g" "EVS_Log (emit x g) = EVS_Log g" "EVS_TlmPkt (emit x g) = EVS_TlmPkt g"
  "EVS_AppID (emit x g) = EVS_AppID g" "EVS_CommandPipe (emit x g) = EVS_CommandPipe g" "Out (emit x g) = Out g @ [x]"
  by (simp_all add: emit_def)

lemma upd_tlm_simps [simp]:
  "AppData (upd_tlm f g) = AppData g" "EVS_Log (upd_tlm f g) = EVS_Log g" "EVS_TlmPkt (upd_tlm f g) = f (EVS_TlmPkt g)"
  "EVS_AppID (upd_tlm f g) = EVS_AppID g" "EVS_CommandPipe (upd_tlm f g) = EVS_CommandPipe g" "Out (upd_tlm f g) = Out g"
  by (simp_all add: upd_tlm_def)

lemma upd_app_simps [simp]:
  "AppData (upd_app i f g) = (AppData g)[i := f (app_at g i)]" "EVS_Log (upd_app i f g) = EVS_Log g"
  "EVS_TlmPkt (upd_app i f g) = EVS_TlmPkt g" "EVS_AppID (upd_app i f g) = EVS_AppID g"
  "EVS_CommandPipe (upd_app i f g) = EVS_CommandPipe g" "Out (upd_app i f g) = Out g"
  by (simp_all add: upd_app_def)

lemma upd_filter_simps [simp]:
  "EVS_Log (upd_filter i j f g) = EVS_Log g" "EVS_TlmPkt (upd_filter i j f g) = EVS_TlmPkt g"
  "EVS_AppID (upd_filter i j f g) = EVS_AppID g" "EVS_CommandPipe (upd_filter i j f g) = EVS_CommandPipe g"
  "Out (upd_filter i j f g) = Out g"
  by (simp_all add: upd_filter_def)

lemma app_at_cong: "AppData g' = AppData g \<Longrightarrow> app_at g' i = app_at g i"
  by (simp add: app_at_def)

lemma app_at_upd_app:
  "app_at (upd_app i f g) k = (if k = i \<and> i < length (AppData g) then f (app_at g i) else app_at g k)"
  by (simp add: app_at_def upd_app_def)

lemma port_step:
  "n < 8 \<Longrightarrow> w = push_bit n 1 \<Longrightarrow>
     (if drop_bit n (OutputPort (EVS_TlmPkt g) AND w) = 1 then EVS_OutputPort k s g else g) =
     g\<lparr>Out := Out g @ (if bit (OutputPort (EVS_TlmPkt g)) n then [Port k (s @ [CHR 0x0A])] else [])\<rparr>"
proof -
  assume "n < 8" "w = push_bit n 1"
  then have "drop_bit n (OutputPort (EVS_TlmPkt g) AND w) = 1 \<longleftrightarrow> bit (OutputPort (EVS_TlmPkt g)) n"
    by (simp only: port_bit simp_thms)
  then show ?thesis by (simp only: EVS_OutputPort_def emit_def) simp
qed

lemma SendViaPorts_eq:
  "EVS_SendViaPorts pkt g = g\<lparr>Out := Out g @ port_outputs (OutputPort (EVS_TlmPkt g)) pkt\<rparr>"
proof -
  note s = port_step [of 0 1] port_step [of 1 2] port_step [of 2 4] port_step [of 3 8]
  show ?thesis
    unfolding EVS_SendViaPorts_def Let_def by (subst s, simp, simp)+ (simp add: port_outputs_def Let_def)
qed

lemma generate_event:
  fixes env i e t ts s g
  defines "g' \<equiv> EVS_GenerateEventTelemetry env i e t ts s g"
    and "pkt \<equiv> event_packet env (AppID (app_at g i)) e t ts s"
  shows "AppData g' = (AppData g)[i := bump (app_at g i)]"
    and "EVS_Log g' = EVS_AddLog pkt (EVS_Log g)"
    and "EVS_TlmPkt g' = (EVS_TlmPkt g)
           \<lparr>MessageTruncCounter := MessageTruncCounter (EVS_TlmPkt g) + (if snd (event_message s) then 1 else 0),
            MessageSendCounter := (if MessageSendCounter (EVS_TlmPkt g) < 65535
                                   then MessageSendCounter (EVS_TlmPkt g) + 1 else MessageSendCounter (EVS_TlmPkt g))\<rparr>"
    and "EVS_AppID g' = EVS_AppID g" and "EVS_CommandPipe g' = EVS_CommandPipe g"
    and "Out g' = Out g @ event_outputs env (OutputPort (EVS_TlmPkt g)) (MessageFormatMode (EVS_TlmPkt g)) ts pkt"
proof -
  define g1 where "g1 = (if snd (event_message s)
    then upd_tlm (\<lambda>t. t\<lparr>MessageTruncCounter := MessageTruncCounter t + 1\<rparr>) g else g)"
  have a1: "app_at g1 k = app_at g k" for k by (simp add: g1_def app_at_def)
  define g2 where "g2 = g1\<lparr>EVS_Log := EVS_AddLog pkt (EVS_Log g1),
    Out := Out g @ event_outputs env (OutputPort (EVS_TlmPkt g)) (MessageFormatMode (EVS_TlmPkt g)) ts pkt\<rparr>"
  have o1: "Out g1 = Out g" "OutputPort (EVS_TlmPkt g1) = OutputPort (EVS_TlmPkt g)"
    "MessageFormatMode (EVS_TlmPkt g1) = MessageFormatMode (EVS_TlmPkt g)" by (simp_all add: g1_def)
  have send: "(if MessageFormatMode (EVS_TlmPkt h) = CFE_EVS_MsgFormat_LONG then emit (Transmit_Long pkt) h
      else if MessageFormatMode (EVS_TlmPkt h) = CFE_EVS_MsgFormat_SHORT
      then emit (Transmit_Short \<lparr>ShortHeader = init_header env CFE_EVS_SHORT_EVENT_MSG_MID
                  (sizeof_ShortEventTlm (MsgConfig env)) ts, ShortPacketID = PacketID pkt\<rparr>) h
      else h) = g2" if "h = EVS_SendViaPorts pkt (g1\<lparr>EVS_Log := EVS_AddLog pkt (EVS_Log g1)\<rparr>)" for h
    unfolding that SendViaPorts_eq by (simp add: o1 g2_def event_outputs_def emit_def)
  note send = send [OF refl]
  define g3 where "g3 = (if MessageSendCounter (EVS_TlmPkt g2) < 65535
    then upd_tlm (\<lambda>t. t\<lparr>MessageSendCounter := MessageSendCounter t + 1\<rparr>) g2 else g2)"
  have g': "g' = (if EventCount (app_at g3 i) < 65535 then upd_app i (\<lambda>a. a\<lparr>EventCount := EventCount a + 1\<rparr>) g3 else g3)"
    unfolding g'_def EVS_GenerateEventTelemetry_def g1_def [symmetric] Let_def EVS_AppDataGetID_def a1 pkt_def [symmetric]
      send g3_def [symmetric] by (rule refl)
  have a3: "app_at g3 i = app_at g i" and d3: "AppData g3 = AppData g"
    by (simp_all add: g3_def g2_def g1_def app_at_def)
  have "(AppData g)[i := app_at g i] = AppData g" by (simp add: app_at_def list_update_beyond)
  then show "AppData g' = (AppData g)[i := bump (app_at g i)]"
    unfolding g' bump_def by (simp add: a3 d3)
  show "EVS_Log g' = EVS_AddLog pkt (EVS_Log g)" "EVS_AppID g' = EVS_AppID g" "EVS_CommandPipe g' = EVS_CommandPipe g"
    "Out g' = Out g @ event_outputs env (OutputPort (EVS_TlmPkt g)) (MessageFormatMode (EVS_TlmPkt g)) ts pkt"
    unfolding g' by (simp_all add: g3_def g2_def g1_def)
  show "EVS_TlmPkt g' = (EVS_TlmPkt g)
           \<lparr>MessageTruncCounter := MessageTruncCounter (EVS_TlmPkt g) + (if snd (event_message s) then 1 else 0),
            MessageSendCounter := (if MessageSendCounter (EVS_TlmPkt g) < 65535
                                   then MessageSendCounter (EVS_TlmPkt g) + 1 else MessageSendCounter (EVS_TlmPkt g))\<rparr>"
    unfolding g' by (simp add: g3_def g2_def g1_def)
qed

section \<open>The log as a bounded list\<close>

definition log_inv :: "CFE_EVS_Log \<Rightarrow> bool" where
  "log_inv l \<longleftrightarrow>
     length (LogEntry l) = 20 \<and> unat (Next l) < 20 \<and> unat (LogCount l) \<le> 20 \<and>
     LogFullFlag l = (if LogCount l = 20 then 1 else 0) \<and> (LogCount l \<noteq> 20 \<longrightarrow> Next l = LogCount l) \<and>
     (LogMode l = CFE_EVS_LogMode_OVERWRITE \<or> LogMode l = CFE_EVS_LogMode_DISCARD)"

definition log_start :: "CFE_EVS_Log \<Rightarrow> nat" where
  "log_start l = (if LogCount l = 20 then unat (Next l) else 0)"

text \<open>The logged events, oldest first.\<close>

definition log_list :: "CFE_EVS_Log \<Rightarrow> CFE_EVS_LongEventTlm list" where
  "log_list l = map (\<lambda>k. LogEntry l ! ((log_start l + k) mod 20)) [0 ..< unat (LogCount l)]"

definition add_bounded :: "u8 \<Rightarrow> 'a \<Rightarrow> 'a list \<Rightarrow> 'a list" where
  "add_bounded mode x xs =
     (if length xs < 20 then xs @ [x] else if mode = CFE_EVS_LogMode_DISCARD then xs else tl xs @ [x])"

lemma length_log_list [simp]: "length (log_list l) = unat (LogCount l)"
  by (simp add: log_list_def)

lemma unat_eq_20: "LogCount l = 20 \<longleftrightarrow> unat (LogCount l) = 20"
  by (simp add: word_unat_eq_iff)

lemma AddLog_mode [simp]: "LogMode (EVS_AddLog p l) = LogMode l"
  by (simp add: EVS_AddLog_def Let_def)

lemma AddLog_discard:
  "log_inv l \<Longrightarrow> LogCount l = 20 \<Longrightarrow> LogMode l = CFE_EVS_LogMode_DISCARD \<Longrightarrow>
     EVS_AddLog p l = l\<lparr>LogOverflowCounter := LogOverflowCounter l + 1\<rparr>"
  by (simp add: EVS_AddLog_def log_inv_def)

lemma AddLog_overwrite:
  assumes "log_inv l" and "LogCount l = 20" and "LogMode l \<noteq> CFE_EVS_LogMode_DISCARD"
  shows "EVS_AddLog p l = l\<lparr>Next := (if Next l + 1 \<ge> 20 then 0 else Next l + 1),
           LogOverflowCounter := LogOverflowCounter l + 1, LogEntry := (LogEntry l)[unat (Next l) := p]\<rparr>"
  using assms by (simp add: EVS_AddLog_def log_inv_def Let_def)

lemma AddLog_append:
  assumes "log_inv l" and "LogCount l \<noteq> 20"
  shows "EVS_AddLog p l = l\<lparr>Next := (if LogCount l + 1 \<ge> 20 then 0 else LogCount l + 1), LogCount := LogCount l + 1,
           LogFullFlag := (if LogCount l + 1 = 20 then 1 else 0), LogEntry := (LogEntry l)[unat (LogCount l) := p]\<rparr>"
proof -
  have "LogCount l < 20" using assms by (simp add: log_inv_def word_less_nat_alt unat_eq_20)
  then show ?thesis using assms by (simp add: EVS_AddLog_def log_inv_def Let_def)
qed

lemma unat_Suc16: "unat w < 20 \<Longrightarrow> unat (w + 1 :: u16) = unat w + 1"
  by (simp add: unat_word_ariths)

lemma log_full:
  assumes "log_inv l" and "LogCount l = 20" and "LogMode l \<noteq> CFE_EVS_LogMode_DISCARD"
  shows "log_inv (EVS_AddLog p l)" and "log_list (EVS_AddLog p l) = tl (log_list l) @ [p]"
proof -
  let ?n = "unat (Next l)" and ?l = "EVS_AddLog p l"
  have n: "?n < 20" and len: "length (LogEntry l) = 20" using assms by (simp_all add: log_inv_def)
  have n': "unat (if Next l + 1 \<ge> 20 then 0 else Next l + 1 :: u16) = (?n + 1) mod 20"
    using n unat_Suc16 [OF n] by (cases "?n = 19") (simp_all add: word_le_nat_alt)
  then have "unat (Next ?l) = (?n + 1) mod 20" by (simp add: AddLog_overwrite [OF assms])
  moreover have "LogCount ?l = 20" "LogEntry ?l = (LogEntry l)[?n := p]" "LogFullFlag ?l = LogFullFlag l"
    using assms(2) by (simp_all add: AddLog_overwrite [OF assms])
  ultimately have s: "log_start ?l = (?n + 1) mod 20" "LogCount ?l = 20" "LogEntry ?l = (LogEntry l)[?n := p]"
    and i: "log_inv ?l"
    using assms by (simp_all add: log_start_def log_inv_def)
  show "log_inv ?l" by (rule i)
  show "log_list ?l = tl (log_list l) @ [p]"
  proof (rule nth_equalityI)
    show "length (log_list ?l) = length (tl (log_list l) @ [p])" using s assms(2) by simp
    fix k assume "k < length (log_list ?l)"
    then have k: "k < 20" using s by simp
    have idx: "((?n + 1) mod 20 + k) mod 20 = (?n + Suc k) mod 20" by (simp add: mod_simps)
    have "log_list ?l ! k = (LogEntry l)[?n := p] ! (((?n + 1) mod 20 + k) mod 20)"
      using k s by (simp add: log_list_def)
    then have "log_list ?l ! k = (LogEntry l)[?n := p] ! ((?n + Suc k) mod 20)" by (simp only: idx)
    also have "\<dots> = (tl (log_list l) @ [p]) ! k"
    proof (cases "k = 19")
      case True
      then show ?thesis using n len assms(2) by (simp add: nth_append)
    next
      case False
      then have "(?n + Suc k) mod 20 \<noteq> ?n" using k n by (cases "?n + Suc k < 20") (auto simp: mod_if)
      then show ?thesis using False k len assms(2)
        by (simp add: nth_append nth_tl log_list_def log_start_def)
    qed
    finally show "log_list ?l ! k = (tl (log_list l) @ [p]) ! k" .
  qed
qed

lemma log_append:
  assumes "log_inv l" and "LogCount l \<noteq> 20"
  shows "log_inv (EVS_AddLog p l)" and "log_list (EVS_AddLog p l) = log_list l @ [p]"
proof -
  let ?c = "unat (LogCount l)" and ?l = "EVS_AddLog p l"
  have c: "?c < 20" and len: "length (LogEntry l) = 20" using assms by (auto simp: log_inv_def unat_eq_20)
  note e = AddLog_append [OF assms, of p] and c' = unat_Suc16 [OF c]
  show "log_inv ?l"
    using assms c c' len unfolding e by (auto simp: log_inv_def word_le_nat_alt word_unat_eq_iff)
  have s: "log_start ?l = 0" using c c' unfolding e by (simp add: log_start_def word_le_nat_alt word_unat_eq_iff)
  have "log_list ?l = map (\<lambda>k. (LogEntry l)[?c := p] ! (k mod 20)) [0 ..< ?c + 1]"
    unfolding log_list_def s by (simp add: e c')
  also have "\<dots> = map (\<lambda>k. LogEntry l ! (k mod 20)) [0 ..< ?c] @ [p]" using c len by auto
  finally show "log_list ?l = log_list l @ [p]" using assms(2) by (simp add: log_list_def log_start_def)
qed

lemma log_refines:
  assumes "log_inv l"
  shows "log_inv (EVS_AddLog p l)" and "log_list (EVS_AddLog p l) = add_bounded (LogMode l) p (log_list l)"
proof -
  have le: "unat (LogCount l) \<le> 20" using assms by (simp add: log_inv_def)
  consider "LogCount l \<noteq> 20" | "LogCount l = 20" "LogMode l \<noteq> CFE_EVS_LogMode_DISCARD"
    | "LogCount l = 20" "LogMode l = CFE_EVS_LogMode_DISCARD" by blast
  then show "log_inv (EVS_AddLog p l)" "log_list (EVS_AddLog p l) = add_bounded (LogMode l) p (log_list l)"
    using le log_append [OF assms] log_full [OF assms] AddLog_discard [OF assms] assms
    by (cases; simp add: add_bounded_def unat_eq_20 log_inv_def log_list_def log_start_def)+
qed

lemma add_bounded_overwrite:
  "length xs \<le> 20 \<Longrightarrow> mode \<noteq> CFE_EVS_LogMode_DISCARD \<Longrightarrow>
     fold (add_bounded mode) ps xs = drop (length xs + length ps - 20) (xs @ ps)"
proof (induction ps arbitrary: xs)
  case (Cons p ps)
  show ?case
  proof (cases "length xs < 20")
    case True
    with Cons.IH [of "xs @ [p]"] Cons.prems show ?thesis by (simp add: add_bounded_def del: drop_append)
  next
    case False
    with Cons.prems obtain y ys where xs: "xs = y # ys" and l: "length xs = 20" by (cases xs) auto
    with Cons.IH [of "ys @ [p]"] Cons.prems show ?thesis by (simp add: add_bounded_def del: drop_append)
  qed
qed simp

lemma add_bounded_discard:
  "length xs \<le> 20 \<Longrightarrow> fold (add_bounded CFE_EVS_LogMode_DISCARD) ps xs = take 20 (xs @ ps)"
proof (induction ps arbitrary: xs)
  case (Cons p ps)
  show ?case
  proof (cases "length xs < 20")
    case True
    with Cons.IH [of "xs @ [p]"] show ?thesis by (simp add: add_bounded_def)
  next
    case False
    with Cons show ?thesis by (simp add: add_bounded_def)
  qed
qed simp

lemma log_fold:
  "log_inv l \<Longrightarrow> log_inv (fold EVS_AddLog ps l) \<and> LogMode (fold EVS_AddLog ps l) = LogMode l \<and>
     log_list (fold EVS_AddLog ps l) = fold (add_bounded (LogMode l)) ps (log_list l)"
proof (induction ps arbitrary: l)
  case (Cons p ps)
  then show ?case using log_refines [OF Cons.prems] by simp
qed simp

lemma ClearLog_inv:
  "length (LogEntry l) = 20 \<Longrightarrow> LogMode l = CFE_EVS_LogMode_OVERWRITE \<or> LogMode l = CFE_EVS_LogMode_DISCARD \<Longrightarrow>
     log_inv (EVS_ClearLog l)"
  by (auto simp: log_inv_def EVS_ClearLog_def)

section \<open>Writing the log to a file\<close>

lemma log_write_all:
  assumes "\<forall>k<n. FileWrite fenv (i + k) = sz" and "idx < 20"
  shows "log_write_loop fenv sz n i idx b g =
    (i + n, if n = 0 then b else sz,
     g\<lparr>Out := Out g @ map (\<lambda>k. Write_Log (LogEntry (EVS_Log g) ! ((idx + k) mod 20))) [0 ..< n]\<rparr>)"
  using assms
proof (induction n arbitrary: i idx b g)
  case (Suc n)
  let ?idx = "if 20 \<le> idx + 1 then 0 else idx + 1"
  have w: "FileWrite fenv i = sz" using Suc.prems(1) by (metis add.right_neutral zero_less_Suc)
  have w': "\<forall>k<n. FileWrite fenv (i + 1 + k) = sz" using Suc.prems(1) by (metis Suc_less_eq add_Suc_right add_Suc plus_1_eq_Suc add.commute)
  have idx: "(?idx + k) mod 20 = (idx + Suc k) mod 20" for k using Suc.prems(2) by (cases "idx = 19") auto
  have i: "?idx < 20" using Suc.prems(2) by simp
  have "[0 ..< Suc n] = 0 # map Suc [0 ..< n]" by (simp add: upt_conv_Cons map_Suc_upt del: upt_Suc)
  then show ?case
    using Suc.IH [OF w' i] w Suc.prems(2) unfolding idx
    by (cases "idx = 19") (simp_all add: Let_def emit_def comp_def del: upt_Suc)
qed simp

section \<open>What events preserve\<close>

text \<open>
  The contract of a predicate on the state that the two effects of an event preserve: counting a filter and generating
  the telemetry.  Such a predicate is preserved by every event, however many filters it locks.
\<close>

locale event_invariant =
  fixes P :: "CFE_EVS_Global \<Rightarrow> bool"
  assumes count: "P g \<Longrightarrow> j < length (BinFilters (app_at g i)) \<Longrightarrow> P (upd_filter i j (\<lambda>f. f\<lparr>Count := Count f + 1\<rparr>) g)"
    and generate: "P g \<Longrightarrow> P (EVS_GenerateEventTelemetry env i e t ts s g)"
begin

lemma filtered_send:
  "P g \<Longrightarrow> P (fst (EVS_IsFiltered env i e t g))"
  "P h \<Longrightarrow> P (EVS_SendEvent env' e' t' s h)"
proof (induction env i e t g and env' e' t' s h rule: EVS_IsFiltered_EVS_SendEvent.induct)
  case (1 env i e t g)
  show ?case
  proof (cases "event_disabled (app_at g i) t \<or> EVS_FindEventID e (BinFilters (app_at g i)) = None")
    case True
    then show ?thesis using "1.prems" by (auto simp: EVS_IsFiltered.simps [of env i e t g])
  next
    case False
    then obtain j where d: "\<not> event_disabled (app_at g i) t" and j: "EVS_FindEventID e (BinFilters (app_at g i)) = Some j"
      by auto
    let ?f = "BinFilters (app_at g i) ! j" and ?g = "upd_filter i j (\<lambda>f. f\<lparr>Count := Count f + 1\<rparr>) g"
    have c: "P ?g" using count "1.prems" FindEventID_Some [OF j] by blast
    note ih = "1.IH" [OF d j refl refl refl _ _ c]
    show ?thesis using d j c ih "1.prems" by (simp add: EVS_IsFiltered.simps [of env i e t g] Let_def)
  qed
next
  case (2 env e t s g)
  show ?case
  proof (cases "EVS_AppDataIsMatch g (EVS_GetAppDataByID (EVS_AppID g)) (EVS_AppID g)")
    case True
    obtain g' b where e: "EVS_IsFiltered env (the (EVS_GetAppDataByID (EVS_AppID g))) e t g = (g', b)" by fastforce
    have "P g'" using "2.IH" [OF refl True "2.prems"] e by simp
    then show ?thesis using generate True e by (simp add: EVS_SendEvent.simps [of env e t s g] Let_def)
  qed (use "2.prems" in \<open>simp add: EVS_SendEvent.simps [of env e t s g]\<close>)
qed

lemma is_filtered: "EVS_IsFiltered env i e t g = (g', b) \<Longrightarrow> P g \<Longrightarrow> P g'"
  using filtered_send(1) [of g env i e t] by simp

lemmas send = filtered_send(2)

lemma not_registered:
  assumes "P g" and "\<And>g. P g \<Longrightarrow> P (upd_tlm (\<lambda>t. t\<lparr>UnregisteredAppCounter := UnregisteredAppCounter t + 1\<rparr>) g)"
    and "\<And>g. P g \<Longrightarrow> P (upd_app i (\<lambda>a. a\<lparr>UnregAppID := caller\<rparr>) g)"
  shows "P (snd (EVS_NotRegistered env i caller g))"
  using assms send by (simp add: EVS_NotRegistered_def Let_def)

end

end
