(* ===== verification/CFE_EVS_Inv.thy ===== *)
theory CFE_EVS_Inv
  imports CFE_EVS_Events
begin

unbundle bit_operations_syntax

text \<open>
  The invariant of event services and what its events leave alone.  The two are interpretations of the contract
  \<open>event_invariant\<close>; the calls of applications, the commands and the clean-up of executive services are the steps of
  a relation under which the invariant is preserved.  The invariant has the predicate on the log as a parameter: the
  contract \<open>log_contract\<close> says what the calls need of it, and it is interpreted twice, on the consistent log and on
  what the check of \<open>CFE_EVS_EarlyInit\<close> guarantees of a log that survived a reset with any contents.
\<close>

section \<open>The invariant\<close>

definition packet_ok :: "CFE_EVS_LongEventTlm \<Rightarrow> bool" where
  "packet_ok p \<longleftrightarrow> length (Message p) = CFE_MISSION_EVS_MAX_MESSAGE_LENGTH \<and> CHR 0x00 \<in> set (Message p)"

definition log_ok :: "CFE_EVS_Log \<Rightarrow> bool" where
  "log_ok l \<longleftrightarrow> log_inv l \<and> (\<forall>p\<in>set (LogEntry l). packet_ok p)"

definition app_ok :: "nat \<Rightarrow> EVS_AppData \<Rightarrow> bool" where
  "app_ok i a \<longleftrightarrow> length (BinFilters a) = CFE_PLATFORM_EVS_MAX_EVENT_FILTERS \<and>
     (AppID a \<noteq> 0 \<longrightarrow> EVS_GetAppDataByID (AppID a) = Some i)"

text \<open>What holds of a log that passes the check at initialization: it can be written without leaving its entries.\<close>

definition log_safe :: "CFE_EVS_Log \<Rightarrow> bool" where
  "log_safe l \<longleftrightarrow> length (LogEntry l) = 20 \<and> unat (Next l) < 20 \<and> (LogFullFlag l = 0 \<or> LogFullFlag l = 1) \<and>
     (LogMode l = CFE_EVS_LogMode_OVERWRITE \<or> LogMode l = CFE_EVS_LogMode_DISCARD)"

definition evs_inv :: "(CFE_EVS_Log \<Rightarrow> bool) \<Rightarrow> CFE_EVS_Global \<Rightarrow> bool" where
  "evs_inv L g \<longleftrightarrow>
     length (AppData g) = CFE_PLATFORM_ES_MAX_APPLICATIONS \<and>
     (\<forall>i<CFE_PLATFORM_ES_MAX_APPLICATIONS. app_ok i (AppData g ! i)) \<and>
     L (EVS_Log g) \<and>
     length (HkAppData (EVS_TlmPkt g)) = CFE_MISSION_ES_MAX_APPLICATIONS \<and>
     (MessageFormatMode (EVS_TlmPkt g) = CFE_EVS_MsgFormat_SHORT \<or> MessageFormatMode (EVS_TlmPkt g) = CFE_EVS_MsgFormat_LONG)"

lemma event_message_ok: "length (fst (event_message s)) = 122" "CHR 0x00 \<in> set (fst (event_message s))"
proof -
  let ?b = "fst (snprintf 122 s (replicate 122 (CHR 0x00)))"
  have l: "length ?b = 122" by (rule length_snprintf) simp
  have b: "?b = take 121 s @ CHR 0x00 # drop (min 121 (length s) + 1) (replicate 122 (CHR 0x00))"
    by (simp add: snprintf_def)
  have m: "fst (event_message s) = (if length s \<ge> 122 then ?b[120 := CHR ''$''] else ?b)"
    by (simp add: event_message_def Let_def snprintf_def split: prod.splits)
  then show "length (fst (event_message s)) = 122" using l by simp
  have "?b[120 := CHR ''$''] ! 121 = CHR 0x00" if "length s \<ge> 122" using that by (simp add: b nth_append)
  then have "CHR 0x00 \<in> set (?b[120 := CHR ''$''])" if "length s \<ge> 122"
    using that nth_mem [of 121 "?b[120 := CHR ''$'']"] l by simp
  moreover have "CHR 0x00 \<in> set ?b" by (simp add: b)
  ultimately show "CHR 0x00 \<in> set (fst (event_message s))" by (simp add: m)
qed

lemma AddLog_entries: "set (LogEntry (EVS_AddLog p l)) \<subseteq> insert p (set (LogEntry l))"
  by (auto simp: EVS_AddLog_def Let_def dest!: subsetD [OF set_update_subset_insert])

lemma AddLog_ok: "log_ok l \<Longrightarrow> packet_ok p \<Longrightarrow> log_ok (EVS_AddLog p l)"
  using AddLog_entries [of p l] log_refines(1) [of l p] by (auto simp: log_ok_def)

lemma packet_ok_event: "packet_ok (event_packet env a e t ts s)"
  by (simp add: packet_ok_def event_packet_def event_message_ok)

lemma app_ok_bump: "app_ok i a \<Longrightarrow> app_ok i (bump a)"
  by (simp add: app_ok_def bump_def)

section \<open>What events leave alone\<close>

text \<open>
  The configuration: everything except the counters of filters, applications and telemetry, the log and the output.
\<close>

definition app_config :: "EVS_AppData \<Rightarrow> EVS_AppData" where
  "app_config a = a\<lparr>BinFilters := map (\<lambda>f. f\<lparr>Count := 0\<rparr>) (BinFilters a), EventCount := 0\<rparr>"

definition tlm_config :: "CFE_EVS_HousekeepingTlm \<Rightarrow> CFE_EVS_HousekeepingTlm" where
  "tlm_config t = t\<lparr>MessageTruncCounter := 0, MessageSendCounter := 0\<rparr>"

definition same_config :: "CFE_EVS_Global \<Rightarrow> CFE_EVS_Global \<Rightarrow> bool" where
  "same_config g g' \<longleftrightarrow>
     map app_config (AppData g') = map app_config (AppData g) \<and> tlm_config (EVS_TlmPkt g') = tlm_config (EVS_TlmPkt g) \<and>
     LogMode (EVS_Log g') = LogMode (EVS_Log g) \<and> EVS_AppID g' = EVS_AppID g \<and> EVS_CommandPipe g' = EVS_CommandPipe g"

lemma same_config_refl [simp]: "same_config g g"
  by (simp add: same_config_def)

lemma map_update_same: "(i < length xs \<Longrightarrow> h y = h (xs ! i)) \<Longrightarrow> map h (xs[i := y]) = map h xs"
proof (rule nth_equalityI)
  fix k assume "i < length xs \<Longrightarrow> h y = h (xs ! i)" and "k < length (map h (xs[i := y]))"
  then show "map h (xs[i := y]) ! k = map h xs ! k" by (cases "k = i") auto
qed simp

lemma config_bump: "app_config (bump a) = app_config a"
  by (simp add: bump_def app_config_def)

lemma config_count: "app_config (a\<lparr>BinFilters := (BinFilters a)[j := (BinFilters a ! j)\<lparr>Count := c\<rparr>]\<rparr>) = app_config a"
  by (simp add: app_config_def map_update_same)

interpretation frame: event_invariant "same_config g0" for g0
proof
  show "same_config g0 (upd_filter i j (\<lambda>f. f\<lparr>Count := Count f + 1\<rparr>) g)" if "same_config g0 g" for g i j
    using that unfolding same_config_def
    by (simp add: upd_filter_def app_at_def map_update_same config_count)
  show "same_config g0 (EVS_GenerateEventTelemetry env i e t ts s g)" if "same_config g0 g" for g env i e t ts s
    using that unfolding same_config_def generate_event
    by (simp add: app_at_def map_update_same config_bump tlm_config_def)
qed

lemma same_config_app:
  assumes "same_config g g'"
  shows "length (AppData g') = length (AppData g)" and "app_config (app_at g' i) = app_config (app_at g i)"
proof -
  show l: "length (AppData g') = length (AppData g)" using assms unfolding same_config_def by (metis length_map)
  have "map app_config (AppData g') ! i = map app_config (AppData g) ! i" using assms by (simp only: same_config_def)
  then show "app_config (app_at g' i) = app_config (app_at g i)" using l by (auto simp: app_at_def)
qed

lemma app_config_fields:
  "app_config a = app_config b \<Longrightarrow> AppID a = AppID b \<and> UnregAppID a = UnregAppID b \<and> ActiveFlag a = ActiveFlag b \<and>
     EventTypesActiveFlag a = EventTypesActiveFlag b \<and> length (BinFilters a) = length (BinFilters b)"
  unfolding app_config_def by (cases a; cases b) (auto dest: map_eq_imp_length_eq)

section \<open>Every call keeps the invariant\<close>

lemma GetAppDataByID_less: "EVS_GetAppDataByID AppId = Some i \<Longrightarrow> i < 32"
  by (auto simp: EVS_GetAppDataByID_def Let_def word_less_nat_alt split: prod.splits if_splits)

lemma GetAppDataByID_0 [simp]: "EVS_GetAppDataByID 0 = None"
  by (simp add: EVS_GetAppDataByID_def CFE_ES_AppID_ToIndex_def CFE_ResourceId_ToIndex_def)

lemma current_context:
  "EVS_GetCurrentContext env = (Status, p, aid) \<Longrightarrow> Status = CFE_SUCCESS \<Longrightarrow>
     \<exists>i. p = Some i \<and> i < 32 \<and> EVS_GetAppDataByID aid = Some i"
  using GetAppDataByID_less
  by (auto simp: EVS_GetCurrentContext_def Let_def split: prod.splits if_splits)

section \<open>What the calls need of the log\<close>

locale log_contract =
  fixes L :: "CFE_EVS_Log \<Rightarrow> bool"
  assumes add: "L l \<Longrightarrow> packet_ok p \<Longrightarrow> L (EVS_AddLog p l)"
    and mode: "L l \<Longrightarrow> m = CFE_EVS_LogMode_OVERWRITE \<or> m = CFE_EVS_LogMode_DISCARD \<Longrightarrow> L (l\<lparr>LogMode := m\<rparr>)"
    and clear: "L l \<Longrightarrow> L (EVS_ClearLog l)"
begin

text \<open>An update of one record that keeps its shape keeps the invariant.\<close>

lemma evs_inv_upd_app:
  "evs_inv L g \<Longrightarrow> (\<And>a. i < 32 \<Longrightarrow> a = app_at g i \<Longrightarrow> app_ok i a \<Longrightarrow> app_ok i (f a)) \<Longrightarrow> evs_inv L (upd_app i f g)"
  by (cases "i < 32") (auto simp: evs_inv_def nth_list_update app_at_def list_update_beyond)

lemma evs_inv_tlm:
  "evs_inv L g \<Longrightarrow> length (HkAppData (f (EVS_TlmPkt g))) = 16 \<Longrightarrow>
   MessageFormatMode (f (EVS_TlmPkt g)) = 0 \<or> MessageFormatMode (f (EVS_TlmPkt g)) = 1 \<Longrightarrow> evs_inv L (upd_tlm f g)"
  by (simp add: evs_inv_def)

lemma evs_inv_emit [simp]: "evs_inv L (emit x g) = evs_inv L g"
  by (simp add: evs_inv_def)

lemma evs_inv_generate: "evs_inv L g \<Longrightarrow> evs_inv L (EVS_GenerateEventTelemetry env i e t ts s g)"
proof -
  assume inv: "evs_inv L g"
  note ge = generate_event [where env = env and i = i and e = e and t = t and ts = ts and s = s and g = g]
  have "app_ok k ((AppData g)[i := bump (app_at g i)] ! k)" if "k < 32" for k
    using inv that app_ok_bump [of k "AppData g ! k"]
    by (cases "k = i") (auto simp: evs_inv_def app_at_def)
  then show ?thesis using inv by (simp add: evs_inv_def ge add packet_ok_event)
qed

end

sublocale log_contract < ev: event_invariant "evs_inv L"
proof
  show "evs_inv L (upd_filter i j (\<lambda>f. f\<lparr>Count := Count f + 1\<rparr>) g)" if "evs_inv L g" for g i j
    unfolding upd_filter_def using that by (rule evs_inv_upd_app) (simp add: app_ok_def)
qed (rule evs_inv_generate)

context log_contract
begin

lemma inv_filter:
  "evs_inv L g \<Longrightarrow> evs_inv L (upd_filter i j f g)"
  unfolding upd_filter_def by (rule evs_inv_upd_app) (simp_all add: app_ok_def)

lemma inv_not_registered: "evs_inv L g \<Longrightarrow> evs_inv L (snd (EVS_NotRegistered env i caller g))"
proof (erule ev.not_registered)
  show "evs_inv L (upd_tlm (\<lambda>t. t\<lparr>UnregisteredAppCounter := UnregisteredAppCounter t + 1\<rparr>) g)" if "evs_inv L g" for g
    using that by (simp add: evs_inv_def)
  show "evs_inv L (upd_app i (\<lambda>a. a\<lparr>UnregAppID := caller\<rparr>) g)" if "evs_inv L g" for g
    using that by (rule evs_inv_upd_app) (simp add: app_ok_def)
qed

lemma inv_filtered_generate:
  "evs_inv L g \<Longrightarrow> EVS_IsFiltered env i e t g = (g', b) \<Longrightarrow> evs_inv L (if b then g' else EVS_GenerateEventTelemetry env i e t ts s g')"
  using ev.is_filtered evs_inv_generate by auto

lemma inv_send_event: "evs_inv L g \<Longrightarrow> evs_inv L (snd (CFE_EVS_SendEvent env e t sp g))"
  using inv_filtered_generate inv_not_registered
  by (simp add: CFE_EVS_SendEvent_def Let_def split: prod.splits)

lemma inv_send_as: "evs_inv L g \<Longrightarrow> evs_inv L (snd (CFE_EVS_SendEventWithAppID env e t aid sp g))"
  using inv_filtered_generate inv_not_registered
  by (simp add: CFE_EVS_SendEventWithAppID_def Let_def split: prod.splits)

lemma inv_send_timed: "evs_inv L g \<Longrightarrow> evs_inv L (snd (CFE_EVS_SendTimedEvent env ts e t sp g))"
  using inv_filtered_generate inv_not_registered
  by (simp add: CFE_EVS_SendTimedEvent_def Let_def split: prod.splits)

lemma inv_set_free: "evs_inv L g \<Longrightarrow> evs_inv L (upd_app i EVS_AppDataSetFree g)"
  by (rule evs_inv_upd_app) (simp_all add: app_ok_def EVS_AppDataSetFree_def)

lemma inv_unregister: "evs_inv L g \<Longrightarrow> evs_inv L (snd (CFE_EVS_Unregister env g))"
  using inv_set_free by (simp add: CFE_EVS_Unregister_def Let_def split: prod.splits)

lemma inv_clean_up: "evs_inv L g \<Longrightarrow> evs_inv L (snd (CFE_EVS_CleanUpApp aid g))"
  using inv_set_free by (simp add: CFE_EVS_CleanUpApp_def Let_def)

lemma inv_reset_counts: "evs_inv L g \<Longrightarrow> evs_inv L (upd_app i reset_counts g)"
  by (rule evs_inv_upd_app) (simp_all add: app_ok_def reset_counts_def)

lemma inv_reset_filter: "evs_inv L g \<Longrightarrow> evs_inv L (snd (CFE_EVS_ResetFilter env e g))"
  using inv_filter by (simp add: CFE_EVS_ResetFilter_def Let_def split: prod.splits option.splits)

lemma inv_reset_all: "evs_inv L g \<Longrightarrow> evs_inv L (snd (CFE_EVS_ResetAllFilters env g))"
  using inv_reset_counts by (simp add: CFE_EVS_ResetAllFilters_def Let_def split: prod.splits)

lemma inv_register: "evs_inv L g \<Longrightarrow> evs_inv L (snd (CFE_EVS_Register env fs n sch g))"
proof -
  assume inv: "evs_inv L g"
  obtain Status p aid where c: "EVS_GetCurrentContext env = (Status, p, aid)" using prod_cases3 by blast
  show ?thesis
  proof (cases "Status = CFE_SUCCESS")
    case False
    then show ?thesis using inv c by (simp add: CFE_EVS_Register_def)
  next
    case True
    then obtain i where i: "p = Some i" "EVS_GetAppDataByID aid = Some i" using current_context [OF c] by blast
    let ?g = "upd_app i (\<lambda>_. zero_app) g"
    have z: "evs_inv L ?g" using inv by (rule evs_inv_upd_app) (simp_all add: app_ok_def zero_app_def)
    have r: "evs_inv L (upd_app i (EVS_AppDataSetUsed aid) (upd_app i (\<lambda>a. a\<lparr>BinFilters := bs, ActiveFlag := 1, EventTypesActiveFlag := fl\<rparr>) ?g))"
      if "length bs = 8" for bs fl
      by (intro evs_inv_upd_app z) (use i that in \<open>auto simp: app_ok_def EVS_AppDataSetUsed_def\<close>)
    show ?thesis
      unfolding CFE_EVS_Register_def c i using z True
      by (auto simp: Let_def word_less_nat_alt intro!: r split: option.splits)
  qed
qed

section \<open>Every command keeps the invariant\<close>

lemma inv_events [simp]: "evs_inv L g \<Longrightarrow> evs_inv L (EVS_SendEvent env e t s g)"
  by (rule ev.send)

lemma inv_tlm_counters [simp]:
  "evs_inv L g \<Longrightarrow> evs_inv L (upd_tlm (\<lambda>t. t\<lparr>CommandCounter := CommandCounter t + 1\<rparr>) g)"
  "evs_inv L g \<Longrightarrow> evs_inv L (upd_tlm (\<lambda>t. t\<lparr>CommandErrorCounter := CommandErrorCounter t + 1\<rparr>) g)"
  "evs_inv L g \<Longrightarrow> evs_inv L (upd_tlm (\<lambda>t. t\<lparr>OutputPort := h (OutputPort t)\<rparr>) g)"
  by (simp_all add: evs_inv_def)

lemma inv_no_app_event [simp]: "evs_inv L g \<Longrightarrow> evs_inv L (no_app_event env st n cc c p g)"
  by (simp add: no_app_event_def)

lemma inv_not_filtered_event [simp]: "evs_inv L g \<Longrightarrow> evs_inv L (not_filtered_event env n e cc x g)"
  by (simp add: not_filtered_event_def)

lemma inv_bad_mask_event [simp]: "evs_inv L g \<Longrightarrow> evs_inv L (bad_mask_event env b cc g)"
  by (simp add: bad_mask_event_def)

lemma inv_upd_used:
  "evs_inv L g \<Longrightarrow> (\<And>i a. app_ok i a \<Longrightarrow> app_ok i (f a)) \<Longrightarrow> evs_inv L (upd_used f g)"
  by (simp add: evs_inv_def upd_used_def)

lemma inv_app_field [simp]:
  "evs_inv L g \<Longrightarrow> evs_inv L (upd_app i (\<lambda>a. a\<lparr>ActiveFlag := v\<rparr>) g)"
  "evs_inv L g \<Longrightarrow> evs_inv L (upd_app i (\<lambda>a. a\<lparr>EventCount := w\<rparr>) g)"
  "evs_inv L g \<Longrightarrow> evs_inv L (upd_app i (EVS_EnableTypes b) g)"
  "evs_inv L g \<Longrightarrow> evs_inv L (upd_app i (EVS_DisableTypes b) g)"
  by (rule evs_inv_upd_app; simp add: app_ok_def EVS_EnableTypes_def EVS_DisableTypes_def)+

lemmas inv_app_commands =
  CFE_EVS_SetFilterCmd_def CFE_EVS_EnableAppEventTypeCmd_def CFE_EVS_DisableAppEventTypeCmd_def CFE_EVS_EnableAppEventsCmd_def
  CFE_EVS_DisableAppEventsCmd_def CFE_EVS_ResetAppCounterCmd_def CFE_EVS_ResetFilterCmd_def CFE_EVS_ResetAllFiltersCmd_def
  CFE_EVS_AddEventFilterCmd_def CFE_EVS_DeleteEventFilterCmd_def

lemma inv_commands_app:
  assumes "evs_inv L g"
  shows "evs_inv L (snd (CFE_EVS_SetFilterCmd env n e m g))" "evs_inv L (snd (CFE_EVS_EnableAppEventTypeCmd env n b g))"
    "evs_inv L (snd (CFE_EVS_DisableAppEventTypeCmd env n b g))" "evs_inv L (snd (CFE_EVS_EnableAppEventsCmd env n g))"
    "evs_inv L (snd (CFE_EVS_DisableAppEventsCmd env n g))" "evs_inv L (snd (CFE_EVS_ResetAppCounterCmd env n g))"
    "evs_inv L (snd (CFE_EVS_ResetFilterCmd env n e g))" "evs_inv L (snd (CFE_EVS_ResetAllFiltersCmd env n g))"
    "evs_inv L (snd (CFE_EVS_AddEventFilterCmd env n e m g))" "evs_inv L (snd (CFE_EVS_DeleteEventFilterCmd env n e g))"
  using assms by (simp_all add: inv_app_commands Let_def inv_filter inv_reset_counts split: prod.splits option.splits)

lemma inv_log_mode:
  "evs_inv L g \<Longrightarrow> m = CFE_EVS_LogMode_OVERWRITE \<or> m = CFE_EVS_LogMode_DISCARD \<Longrightarrow>
     evs_inv L (g\<lparr>EVS_Log := (EVS_Log g)\<lparr>LogMode := m\<rparr>\<rparr>)"
  using mode by (auto simp: evs_inv_def)

lemma inv_clear_log: "evs_inv L g \<Longrightarrow> evs_inv L (g\<lparr>EVS_Log := EVS_ClearLog (EVS_Log g)\<rparr>)"
  using clear by (simp add: evs_inv_def)

lemma length_hk_fill: "length (snd (hk_fill as j tlm)) = length tlm"
  by (induction as j tlm rule: hk_fill.induct) simp_all

lemma length_hk_clear: "length (hk_clear n j tlm) = length tlm"
  by (induction n arbitrary: tlm) simp_all

lemma inv_housekeeping: "evs_inv L g \<Longrightarrow> evs_inv L (snd (CFE_EVS_ReportHousekeepingCmd env g))"
  using length_hk_fill [of "AppData g" 0 "HkAppData (EVS_TlmPkt g)"]
  by (cases "hk_fill (AppData g) 0 (HkAppData (EVS_TlmPkt g))")
    (simp add: CFE_EVS_ReportHousekeepingCmd_def Let_def evs_inv_def length_hk_clear)

lemma inv_reset_counters: "evs_inv L g \<Longrightarrow> evs_inv L (snd (CFE_EVS_ResetCountersCmd env g))"
proof -
  assume "evs_inv L g"
  then have "evs_inv L (upd_tlm (\<lambda>t. t\<lparr>CommandCounter := 0, CommandErrorCounter := 0, MessageTruncCounter := 0,
      UnregisteredAppCounter := 0, MessageSendCounter := 0\<rparr>) g)" by (simp add: evs_inv_def)
  then show ?thesis by (simp add: CFE_EVS_ResetCountersCmd_def Let_def)
qed

lemma inv_format: "evs_inv L g \<Longrightarrow> evs_inv L (snd (CFE_EVS_SetEventFormatModeCmd env m g))"
proof -
  assume inv: "evs_inv L g"
  then have "m = 0 \<or> m = 1 \<Longrightarrow> evs_inv L (upd_tlm (\<lambda>t. t\<lparr>MessageFormatMode := m\<rparr>) g)" by (auto simp: evs_inv_def)
  with inv show ?thesis by (auto simp: CFE_EVS_SetEventFormatModeCmd_def)
qed

lemma inv_types:
  "evs_inv L g \<Longrightarrow> evs_inv L (upd_used (EVS_EnableTypes b) g)" "evs_inv L g \<Longrightarrow> evs_inv L (upd_used (EVS_DisableTypes b) g)"
  by (rule inv_upd_used; simp add: app_ok_def EVS_EnableTypes_def EVS_DisableTypes_def)+

lemma inv_commands_task:
  assumes "evs_inv L g"
  shows "evs_inv L (snd (CFE_EVS_NoopCmd env v g))" "evs_inv L (snd (CFE_EVS_ClearLogCmd g))"
    "evs_inv L (snd (CFE_EVS_EnablePortsCmd env b g))" "evs_inv L (snd (CFE_EVS_DisablePortsCmd env b g))"
    "evs_inv L (snd (CFE_EVS_EnableEventTypeCmd env b g))" "evs_inv L (snd (CFE_EVS_DisableEventTypeCmd env b g))"
    "evs_inv L (snd (CFE_EVS_SetLogModeCmd env b g))"
  using assms
  by (auto simp: CFE_EVS_NoopCmd_def CFE_EVS_ClearLogCmd_def inv_clear_log CFE_EVS_EnablePortsCmd_def
    CFE_EVS_DisablePortsCmd_def CFE_EVS_EnableEventTypeCmd_def CFE_EVS_DisableEventTypeCmd_def inv_types
    CFE_EVS_SetLogModeCmd_def inv_log_mode)

lemma inv_log_write: "log_write_loop fenv sz n i idx b g = (k, b', g') \<Longrightarrow> evs_inv L g \<Longrightarrow> evs_inv L g'"
  by (induction n arbitrary: i idx b g) (auto simp: Let_def split: if_splits)

lemma inv_app_write: "app_write_loop env fenv nm is k g = (d, c, g') \<Longrightarrow> evs_inv L g \<Longrightarrow> evs_inv L g'"
proof (induction "is" arbitrary: k g)
  case (Cons i "is")
  then show ?case by (auto simp: Let_def split: if_splits)
qed simp

lemma inv_write_log: "evs_inv L g \<Longrightarrow> evs_inv L (snd (CFE_EVS_WriteLogDataFileCmd env fenv nm g))"
  by (auto simp: CFE_EVS_WriteLogDataFileCmd_def Let_def dest: inv_log_write split: prod.splits if_splits)

lemma inv_write_app: "evs_inv L g \<Longrightarrow> evs_inv L (snd (CFE_EVS_WriteAppDataFileCmd env fenv nm g))"
  by (auto simp: CFE_EVS_WriteAppDataFileCmd_def Let_def dest: inv_app_write split: prod.splits if_splits)

lemma inv_checked: "evs_inv L g \<Longrightarrow> (\<And>g. evs_inv L g \<Longrightarrow> evs_inv L (snd (h g))) \<Longrightarrow> evs_inv L (snd (checked env m n h g))"
  by (simp add: checked_def CFE_EVS_VerifyCmdLength_def Let_def)

lemma inv_ground_command: "evs_inv L g \<Longrightarrow> evs_inv L (snd (ground_command env fenv v m mid g))"
  unfolding ground_command_def Let_def
  by (simp add: inv_checked inv_commands_task inv_commands_app inv_reset_counters inv_format inv_write_log inv_write_app)

lemma inv_command: "evs_inv L g \<Longrightarrow> evs_inv L (CFE_EVS_ProcessCommandPacket env fenv v m g)"
  using inv_ground_command [of g env fenv v m CFE_EVS_CMD_MID] inv_housekeeping [of g env]
  by (cases "ground_command env fenv v m CFE_EVS_CMD_MID g")
    (simp add: CFE_EVS_ProcessCommandPacket_def CFE_EVS_ProcessGroundCommand_def Let_def)

lemma inv_task_init: "evs_inv L g \<Longrightarrow> evs_inv L (snd (CFE_EVS_TaskInit env ienv v g))"
proof -
  assume inv: "evs_inv L g"
  have "evs_inv L (g\<lparr>EVS_CommandPipe := p\<rparr>)" "evs_inv L (g\<lparr>EVS_CommandPipe := p, EVS_AppID := a\<rparr>)" if "evs_inv L g" for g p a
    using that by (simp_all add: evs_inv_def)
  then show ?thesis
    using inv inv_register [OF inv, of env NULL 0 0]
    by (auto simp: CFE_EVS_TaskInit_def Let_def split: prod.splits)
qed

end

section \<open>Reachable states\<close>

inductive evs_step :: "CFE_EVS_Global \<Rightarrow> CFE_EVS_Global \<Rightarrow> bool" where
  task_init: "evs_step g (snd (CFE_EVS_TaskInit env ienv v g))"
| register: "evs_step g (snd (CFE_EVS_Register env fs n sch g))"
| unregister: "evs_step g (snd (CFE_EVS_Unregister env g))"
| send_event: "evs_step g (snd (CFE_EVS_SendEvent env e t sp g))"
| send_as: "evs_step g (snd (CFE_EVS_SendEventWithAppID env e t aid sp g))"
| send_timed: "evs_step g (snd (CFE_EVS_SendTimedEvent env ts e t sp g))"
| reset_filter: "evs_step g (snd (CFE_EVS_ResetFilter env e g))"
| reset_all: "evs_step g (snd (CFE_EVS_ResetAllFilters env g))"
| clean_up: "evs_step g (snd (CFE_EVS_CleanUpApp aid g))"
| command: "evs_step g (CFE_EVS_ProcessCommandPacket env fenv v m g)"

context log_contract
begin

lemma evs_step_inv: "evs_step g g' \<Longrightarrow> evs_inv L g \<Longrightarrow> evs_inv L g'"
  by (induction rule: evs_step.induct)
    (simp_all add: inv_task_init inv_register inv_unregister inv_send_event inv_send_as inv_send_timed inv_reset_filter
      inv_reset_all inv_clean_up inv_command)

lemma evs_steps_inv: "evs_step\<^sup>*\<^sup>* g g' \<Longrightarrow> evs_inv L g \<Longrightarrow> evs_inv L g'"
  by (induction rule: rtranclp_induct) (auto intro: evs_step_inv)

end

lemma ClearLog_ok:
  "length (LogEntry l) = 20 \<Longrightarrow> m = CFE_EVS_LogMode_OVERWRITE \<or> m = CFE_EVS_LogMode_DISCARD \<Longrightarrow>
     log_ok ((EVS_ClearLog l)\<lparr>LogMode := m\<rparr>)"
  by (auto simp: log_ok_def log_inv_def EVS_ClearLog_def packet_ok_def zero_packet_def)

lemma AddLog_safe: "log_safe l \<Longrightarrow> log_safe (EVS_AddLog p l)"
proof -
  assume s: "log_safe l"
  then have "unat (Next l + 1) = unat (Next l) + 1" by (simp add: log_safe_def unat_word_ariths)
  then show ?thesis using s by (auto simp: log_safe_def EVS_AddLog_def Let_def word_less_nat_alt word_le_nat_alt)
qed

interpretation consistent: log_contract log_ok
proof
  show "log_ok (EVS_ClearLog l)" if "log_ok l" for l
    using that ClearLog_ok [of l "LogMode l"] by (auto simp: log_ok_def log_inv_def EVS_ClearLog_def)
  show "log_ok (EVS_AddLog p l)" if "log_ok l" "packet_ok p" for l p
    using that by (rule AddLog_ok)
qed (auto simp: log_ok_def log_inv_def)

interpretation safe: log_contract log_safe
proof
  show "log_safe (EVS_AddLog p l)" if "log_safe l" for l p
    using that by (rule AddLog_safe)
qed (auto simp: log_safe_def EVS_ClearLog_def)

text \<open>The check of \<open>CFE_EVS_EarlyInit\<close> on the contents of the reset area.\<close>

definition bad_contents :: "CFE_EVS_Log \<Rightarrow> bool" where
  "bad_contents l \<longleftrightarrow> (LogMode l \<noteq> CFE_EVS_LogMode_OVERWRITE \<and> LogMode l \<noteq> CFE_EVS_LogMode_DISCARD) \<or>
     (LogFullFlag l \<noteq> 0 \<and> LogFullFlag l \<noteq> 1) \<or> Next l \<ge> CFE_PLATFORM_EVS_LOG_MAX"

lemma early_init_inv:
  assumes "CFE_EVS_EarlyInit env ienv = (CFE_SUCCESS, g)" and len: "length (LogEntry (ResetLog ienv)) = 20"
  shows "evs_inv log_safe g"
    and "ResetType ienv = CFE_PSP_RST_TYPE_POWERON \<or> bad_contents (ResetLog ienv) \<or> log_ok (ResetLog ienv) \<Longrightarrow> evs_inv log_ok g"
proof -
  have i: "evs_inv L (upd_tlm (\<lambda>t. t\<lparr>LogEnabled := 1\<rparr>) (cleared_global env l\<lparr>EVS_Log := l'\<rparr>))" if "L l'" for L l l'
    using that by (simp add: evs_inv_def cleared_global_def app_ok_def zero_app_def)
  let ?c = "(EVS_ClearLog (ResetLog ienv))\<lparr>LogMode := CFE_PLATFORM_EVS_DEFAULT_LOG_MODE\<rparr>"
  have "g = upd_tlm (\<lambda>t. t\<lparr>LogEnabled := 1\<rparr>) (cleared_global env (ResetLog ienv)\<lparr>EVS_Log := ?c\<rparr>) \<or>
      ResetType ienv \<noteq> CFE_PSP_RST_TYPE_POWERON \<and> \<not> bad_contents (ResetLog ienv) \<and>
      g = upd_tlm (\<lambda>t. t\<lparr>LogEnabled := 1\<rparr>) (cleared_global env (ResetLog ienv)\<lparr>EVS_Log := ResetLog ienv\<rparr>)"
    using assms by (auto simp: CFE_EVS_EarlyInit_def Let_def upd_tlm_def cleared_global_def bad_contents_def split: if_splits)
  moreover have "log_safe (ResetLog ienv)" if "\<not> bad_contents (ResetLog ienv)"
    using that len by (auto simp: bad_contents_def log_safe_def word_less_nat_alt word_le_nat_alt)
  moreover have ok: "log_ok ?c" by (rule ClearLog_ok [OF len]) simp
  moreover have "log_safe ?c" using len by (simp add: log_safe_def EVS_ClearLog_def)
  ultimately show "evs_inv log_safe g"
    and "ResetType ienv = CFE_PSP_RST_TYPE_POWERON \<or> bad_contents (ResetLog ienv) \<or> log_ok (ResetLog ienv) \<Longrightarrow> evs_inv log_ok g"
    using i by auto
qed

end
