(* ===== verification/CFE_EVS_Thms.thy ===== *)
theory CFE_EVS_Thms
  imports CFE_EVS_Inv
begin

unbundle bit_operations_syntax

text \<open>
  The properties of event services: the reachable states, the event log and its file, the schedule of binary filters,
  the bound on the events one call can cause, applications that are not registered, the filter commands, and the
  housekeeping packet.
\<close>

section \<open>Outputs only grow\<close>

interpretation grow: event_invariant "\<lambda>g. \<exists>xs. Out g = base @ xs" for base
  by unfold_locales (auto simp: generate_event)

lemma SendEvent_grows: "\<exists>xs. Out (EVS_SendEvent env e t s g) = Out g @ xs"
  by (rule grow.send) simp

section \<open>The schedule of a filter\<close>

lemma FindEventID_update:
  "j < length fs \<Longrightarrow> EventID x = EventID (fs ! j) \<Longrightarrow> EVS_FindEventID e (fs[j := x]) = EVS_FindEventID e fs"
proof (induction fs arbitrary: j)
  case (Cons f fs)
  then show ?case by (cases j) auto
qed simp

text \<open>One event below the last step of its filter.\<close>

lemma send_counted:
  assumes c: "EVS_GetCurrentContext env = (CFE_SUCCESS, Some i, aid)" and a: "AppID (app_at g i) = aid"
    and d: "\<not> event_disabled (app_at g i) t" and j: "EVS_FindEventID e (BinFilters (app_at g i)) = Some j"
    and n: "unat (Count (BinFilters (app_at g i) ! j)) < 65534"
  shows "CFE_EVS_SendEvent env e t (Some s) g =
    (CFE_SUCCESS,
     let g1 = upd_filter i j (\<lambda>f. f\<lparr>Count := Count f + 1\<rparr>) g
     in if Mask (BinFilters (app_at g i) ! j) AND Count (BinFilters (app_at g i) ! j) = 0
        then EVS_GenerateEventTelemetry env i e t (GetTime env) s g1 else g1)"
proof -
  let ?c = "Count (BinFilters (app_at g i) ! j)"
  have "?c < 65535" using n by (simp add: word_less_nat_alt)
  moreover have "?c + 1 \<noteq> 65535" using n by (auto simp: word_unat_eq_iff unat_word_ariths)
  ultimately have "EVS_IsFiltered env i e t g =
      (upd_filter i j (\<lambda>f. f\<lparr>Count := Count f + 1\<rparr>) g, Mask (BinFilters (app_at g i) ! j) AND ?c \<noteq> 0)"
    using d j by (simp add: EVS_IsFiltered.simps [of env i e t g] Let_def)
  then show ?thesis using c a by (simp add: CFE_EVS_SendEvent_def EVS_AppDataIsMatch_def Let_def)
qed

text \<open>The state after \<open>k\<close> events as far as the next one depends on it.\<close>

definition after_events :: "EVS_Env \<Rightarrow> nat \<Rightarrow> nat \<Rightarrow> u16 \<Rightarrow> u16 \<Rightarrow> string \<Rightarrow> CFE_EVS_Global \<Rightarrow> nat \<Rightarrow> CFE_EVS_Global \<Rightarrow> bool" where
  "after_events env i j e t s g k g' \<longleftrightarrow>
     length (AppData g') = length (AppData g) \<and>
     AppID (app_at g' i) = AppID (app_at g i) \<and> ActiveFlag (app_at g' i) = ActiveFlag (app_at g i) \<and>
     EventTypesActiveFlag (app_at g' i) = EventTypesActiveFlag (app_at g i) \<and>
     BinFilters (app_at g' i) =
       (BinFilters (app_at g i))[j := (BinFilters (app_at g i) ! j)\<lparr>Count := of_nat k\<rparr>] \<and>
     OutputPort (EVS_TlmPkt g') = OutputPort (EVS_TlmPkt g) \<and>
     MessageFormatMode (EVS_TlmPkt g') = MessageFormatMode (EVS_TlmPkt g) \<and>
     (\<forall>i'. i' \<noteq> i \<longrightarrow> app_at g' i' = app_at g i') \<and>
     Out g' = Out g @ concat (map (\<lambda>n.
       if Mask (BinFilters (app_at g i) ! j) AND of_nat n = 0
       then event_outputs env (OutputPort (EVS_TlmPkt g)) (MessageFormatMode (EVS_TlmPkt g)) (GetTime env)
              (event_packet env (AppID (app_at g i)) e t (GetTime env) s)
       else []) [unat (Count (BinFilters (app_at g i) ! j)) ..< k])"

lemma app_at_generate:
  "app_at (EVS_GenerateEventTelemetry env i e t ts s g) k = (if k = i \<and> i < length (AppData g) then bump (app_at g i) else app_at g k)"
  by (simp add: app_at_def generate_event)

lemma bump_fields [simp]:
  "AppID (bump a) = AppID a" "ActiveFlag (bump a) = ActiveFlag a" "EventTypesActiveFlag (bump a) = EventTypesActiveFlag a"
  "BinFilters (bump a) = BinFilters a"
  by (simp_all add: bump_def)

lemma after_events_step:
  assumes c: "EVS_GetCurrentContext env = (CFE_SUCCESS, Some i, aid)" and a: "AppID (app_at g i) = aid"
    and i: "i < length (AppData g)"
    and d: "\<not> event_disabled (app_at g i) t" and j: "EVS_FindEventID e (BinFilters (app_at g i)) = Some j"
    and k: "k < 65534" and k0: "unat (Count (BinFilters (app_at g i) ! j)) \<le> k"
    and st: "after_events env i j e t s g k g'"
  shows "after_events env i j e t s g (Suc k) (snd (CFE_EVS_SendEvent env e t (Some s) g'))"
proof -
  let ?f = "BinFilters (app_at g i) ! j" and ?g1 = "upd_filter i j (\<lambda>f. f\<lparr>Count := Count f + 1\<rparr>) g'"
  have jl: "j < length (BinFilters (app_at g i))" using FindEventID_Some [OF j] by simp
  have bf: "BinFilters (app_at g' i) = (BinFilters (app_at g i))[j := ?f\<lparr>Count := of_nat k\<rparr>]"
    and il: "i < length (AppData g')" using st i by (simp_all add: after_events_def)
  then have f': "BinFilters (app_at g' i) ! j = ?f\<lparr>Count := of_nat k\<rparr>" using jl by simp
  have j': "EVS_FindEventID e (BinFilters (app_at g' i)) = Some j" using j jl by (simp add: bf FindEventID_update)
  have "event_disabled (app_at g' i) t = event_disabled (app_at g i) t" using st by (simp add: after_events_def event_disabled_def)
  with d have d': "\<not> event_disabled (app_at g' i) t" by simp
  have a': "AppID (app_at g' i) = aid" using a st by (simp add: after_events_def)
  have "unat (of_nat k :: u16) < 65534" using k by (simp add: unat_of_nat)
  then have n: "unat (Count (BinFilters (app_at g' i) ! j)) < 65534" by (simp add: f')
  note send = send_counted [OF c a' d' j' n]
  have g1: "app_at ?g1 k' = (if k' = i then (app_at g' i)\<lparr>BinFilters := (BinFilters (app_at g i))
      [j := ?f\<lparr>Count := of_nat (Suc k)\<rparr>]\<rparr> else app_at g' k')" for k'
    using il by (simp add: upd_filter_def app_at_upd_app bf jl add.commute)
  have l1: "length (AppData ?g1) = length (AppData g')" by (simp add: upd_filter_def)
  have ap: "AppID (app_at ?g1 i) = AppID (app_at g i)" using g1 a a' by simp
  show ?thesis
    using st unfolding send after_events_def
    by (simp add: Let_def f' g1 l1 il jl app_at_generate generate_event ap k0)
qed

lemma filter_run:
  assumes "EVS_GetCurrentContext env = (CFE_SUCCESS, Some i, aid)" and "AppID (app_at g i) = aid"
    and "i < length (AppData g)" and "\<not> event_disabled (app_at g i) t"
    and "EVS_FindEventID e (BinFilters (app_at g i)) = Some j"
    and "unat (Count (BinFilters (app_at g i) ! j)) + n < 65535"
  shows "after_events env i j e t s g (unat (Count (BinFilters (app_at g i) ! j)) + n)
    (((\<lambda>g. snd (CFE_EVS_SendEvent env e t (Some s) g)) ^^ n) g)"
  using assms(6)
proof (induction n)
  case 0
  then show ?case by (simp add: after_events_def)
next
  case (Suc n)
  then show ?case using after_events_step [OF assms(1-5), of "unat (Count (BinFilters (app_at g i) ! j)) + n" s] by simp
qed

text \<open>The event that locks its filter, and an event whose filter is locked.\<close>

lemma send_locks:
  assumes "EVS_GetCurrentContext env = (CFE_SUCCESS, Some i, aid)" and "AppID (app_at g i) = aid"
    and "i < length (AppData g)" and "\<not> event_disabled (app_at g i) t"
    and "EVS_FindEventID e (BinFilters (app_at g i)) = Some j"
    and "Count (BinFilters (app_at g i) ! j) = 65534"
  shows "CFE_EVS_SendEvent env e t (Some s) g =
    (CFE_SUCCESS,
     let g1 = EVS_SendEvent env CFE_EVS_FILTER_MAX_EID CFE_EVS_EventType_INFORMATION (filter_max_text env aid e)
           (upd_filter i j (\<lambda>f. f\<lparr>Count := 65535\<rparr>) g)
     in if Mask (BinFilters (app_at g i) ! j) AND 65534 = 0
        then EVS_GenerateEventTelemetry env i e t (GetTime env) s g1 else g1)"
proof -
  have jl: "j < length (BinFilters (app_at g i))" using FindEventID_Some [OF assms(5)] by simp
  have u: "upd_filter i j (\<lambda>f. f\<lparr>Count := Count f + 1\<rparr>) g = upd_filter i j (\<lambda>f. f\<lparr>Count := 65535\<rparr>) g"
    using jl assms(6) by (simp add: upd_filter_def upd_app_def)
  have "EVS_AppDataGetID (app_at (upd_filter i j (\<lambda>f. f\<lparr>Count := 65535\<rparr>) g) i) = aid"
    using assms(2,3) by (simp add: upd_filter_def app_at_upd_app EVS_AppDataGetID_def)
  then have "EVS_IsFiltered env i e t g =
      (EVS_SendEvent env CFE_EVS_FILTER_MAX_EID CFE_EVS_EventType_INFORMATION (filter_max_text env aid e)
         (upd_filter i j (\<lambda>f. f\<lparr>Count := 65535\<rparr>) g), Mask (BinFilters (app_at g i) ! j) AND 65534 \<noteq> 0)"
    using assms(4-6) u by (simp add: EVS_IsFiltered.simps [of env i e t g] Let_def)
  then show ?thesis using assms(1,2) by (simp add: CFE_EVS_SendEvent_def EVS_AppDataIsMatch_def Let_def)
qed

lemma and_all_ones: "w AND 65535 = (w :: u16)"
proof -
  have "(65535 :: u16) = - 1" by simp
  then show ?thesis by (simp only: and.right_neutral)
qed

lemma send_locked:
  assumes "EVS_GetCurrentContext env = (CFE_SUCCESS, Some i, aid)" and "AppID (app_at g i) = aid"
    and "\<not> event_disabled (app_at g i) t" and "EVS_FindEventID e (BinFilters (app_at g i)) = Some j"
    and "Count (BinFilters (app_at g i) ! j) = 65535"
  shows "CFE_EVS_SendEvent env e t (Some s) g =
    (CFE_SUCCESS, if Mask (BinFilters (app_at g i) ! j) = 0
                  then EVS_GenerateEventTelemetry env i e t (GetTime env) s g else g)"
  using assms by (simp add: CFE_EVS_SendEvent_def EVS_AppDataIsMatch_def Let_def EVS_IsFiltered.simps [of env i e t g] and_all_ones)

text \<open>
  C26. The schedule of a binary filter, for an event of a registered application whose type is enabled and for whose
  id the application has a filter.  Let \<open>c\<close> be the count of the filter.
  While the count stays below 65535: when the event is sent \<open>n\<close> times with \<open>c + n < 65535\<close>, exactly those of the
  events \<open>c, ..., c + n - 1\<close> go out whose number has no bit in common with the mask, in order, on all enabled ports
  and as a packet on the software bus; the filter counts every one of them, and the records of other applications do
  not change.
  The event that finds the count at 65534 locks the filter: the count becomes 65535, event services reports that
  with an event of its own, and then the event itself goes out if 65534 has no bit in common with the mask.
  An event that finds the filter locked changes nothing if the mask is not zero; with the mask zero (every event is
  sent) it is generated and logged like every event before it, although \<open>cfe_evs.dox\<close> says no more events of
  that id are received until the filter is reset.
\<close>

theorem filter_schedule:
  fixes g i j
  defines "f \<equiv> BinFilters (app_at g i) ! j"
  assumes "EVS_GetCurrentContext env = (CFE_SUCCESS, Some i, aid)" and "AppID (app_at g i) = aid"
    and "i < length (AppData g)" and "\<not> event_disabled (app_at g i) t"
    and "EVS_FindEventID e (BinFilters (app_at g i)) = Some j"
  shows "(unat (Count f) + n < 65535 \<longrightarrow>
      (let g' = ((\<lambda>g. snd (CFE_EVS_SendEvent env e t (Some s) g)) ^^ n) g;
           pkt = event_packet env aid e t (GetTime env) s
       in Out g' = Out g @ concat (map (\<lambda>k.
            if Mask f AND of_nat k = 0
            then event_outputs env (OutputPort (EVS_TlmPkt g)) (MessageFormatMode (EVS_TlmPkt g)) (GetTime env) pkt
            else []) [unat (Count f) ..< unat (Count f) + n]) \<and>
          BinFilters (app_at g' i) = (BinFilters (app_at g i))[j := f\<lparr>Count := Count f + of_nat n\<rparr>] \<and>
          (\<forall>i'. i' \<noteq> i \<longrightarrow> app_at g' i' = app_at g i'))) \<and>
    (Count f = 65534 \<longrightarrow>
      CFE_EVS_SendEvent env e t (Some s) g =
        (CFE_SUCCESS,
         let g1 = EVS_SendEvent env CFE_EVS_FILTER_MAX_EID CFE_EVS_EventType_INFORMATION (filter_max_text env aid e)
               (upd_filter i j (\<lambda>f. f\<lparr>Count := 65535\<rparr>) g)
         in if Mask f AND 65534 = 0 then EVS_GenerateEventTelemetry env i e t (GetTime env) s g1 else g1)) \<and>
    (Count f = 65535 \<longrightarrow>
      CFE_EVS_SendEvent env e t (Some s) g =
        (CFE_SUCCESS, if Mask f = 0 then EVS_GenerateEventTelemetry env i e t (GetTime env) s g else g))"
proof (intro conjI impI)
  show "let g' = ((\<lambda>g. snd (CFE_EVS_SendEvent env e t (Some s) g)) ^^ n) g;
      pkt = event_packet env aid e t (GetTime env) s
    in Out g' = Out g @ concat (map (\<lambda>k.
         if Mask f AND of_nat k = 0
         then event_outputs env (OutputPort (EVS_TlmPkt g)) (MessageFormatMode (EVS_TlmPkt g)) (GetTime env) pkt
         else []) [unat (Count f) ..< unat (Count f) + n]) \<and>
       BinFilters (app_at g' i) = (BinFilters (app_at g i))[j := f\<lparr>Count := Count f + of_nat n\<rparr>] \<and>
       (\<forall>i'. i' \<noteq> i \<longrightarrow> app_at g' i' = app_at g i')"
    if "unat (Count f) + n < 65535"
    using filter_run [OF assms(2-6), unfolded after_events_def assms(3), of n s] that by (simp add: Let_def f_def)
qed (use send_locks [OF assms(2-6)] send_locked [OF assms(2,3,5,6)] in \<open>simp_all add: f_def\<close>)

section \<open>The bound on events\<close>

text \<open>Packets given to the software bus.\<close>

definition transmits :: "evs_out list \<Rightarrow> nat" where
  "transmits xs = length (filter (\<lambda>x. case x of Transmit_Long _ \<Rightarrow> True | Transmit_Short _ \<Rightarrow> True | _ \<Rightarrow> False) xs)"

lemma transmits_append [simp]: "transmits (xs @ ys) = transmits xs + transmits ys"
  by (simp add: transmits_def)

lemma transmits_event: "transmits (event_outputs env p m ts pkt) \<le> 1"
  by (simp add: transmits_def event_outputs_def port_outputs_def Let_def)

lemma transmits_generate: "transmits (Out (EVS_GenerateEventTelemetry env i e t ts s g)) \<le> transmits (Out g) + 1"
  using transmits_event by (simp add: generate_event)

text \<open>The filter that would count an event of event services itself.\<close>

definition own_filter :: "CFE_EVS_Global \<Rightarrow> u16 \<Rightarrow> EVS_BinFilter option" where
  "own_filter g e =
     (case EVS_GetAppDataByID (EVS_AppID g) of
        None \<Rightarrow> None
      | Some i \<Rightarrow> map_option (\<lambda>j. BinFilters (app_at g i) ! j) (EVS_FindEventID e (BinFilters (app_at g i))))"

definition own_locks :: "CFE_EVS_Global \<Rightarrow> u16 \<Rightarrow> bool" where
  "own_locks g e \<longleftrightarrow> (\<exists>f. own_filter g e = Some f \<and> Count f + 1 = 65535)"

lemma SendEvent_cases:
  "transmits (Out (EVS_SendEvent env e t s g)) \<le> transmits (Out g) + 1 \<or>
   own_locks g e \<and>
   (\<exists>g1 s'. Out g1 = Out g \<and> (\<forall>f. own_filter g1 e = Some f \<longrightarrow> Count f = 65535) \<and>
     transmits (Out (EVS_SendEvent env e t s g)) \<le> transmits (Out (EVS_SendEvent env 42 2 s' g1)) + 1 \<and>
     (e \<noteq> 42 \<longrightarrow> own_filter g1 42 = own_filter g 42))"
proof (cases "EVS_AppDataIsMatch g (EVS_GetAppDataByID (EVS_AppID g)) (EVS_AppID g)")
  case False
  then show ?thesis by (simp add: EVS_SendEvent.simps [of env e t s g])
next
  case True
  then obtain i where i: "EVS_GetAppDataByID (EVS_AppID g) = Some i" by (auto simp: EVS_AppDataIsMatch_def)
  obtain g' b where f: "EVS_IsFiltered env i e t g = (g', b)" by fastforce
  have tr: "transmits (Out (EVS_SendEvent env e t s g)) \<le> transmits (Out g') + 1"
    using True f i transmits_generate by (simp add: EVS_SendEvent.simps [of env e t s g] Let_def)
  show ?thesis
  proof (cases "Out g' = Out g")
    case True
    then show ?thesis using tr by simp
  next
    case False
    then have d: "\<not> event_disabled (app_at g i) t" using f by (auto simp: EVS_IsFiltered.simps [of env i e t g])
    with f False obtain j where j: "EVS_FindEventID e (BinFilters (app_at g i)) = Some j"
      by (auto simp: EVS_IsFiltered.simps [of env i e t g] split: option.splits)
    let ?g1 = "upd_filter i j (\<lambda>f. f\<lparr>Count := Count f + 1\<rparr>) g" and ?c = "Count (BinFilters (app_at g i) ! j)"
    from f d j False have c: "?c + 1 = 65535" and g': "\<exists>s'. g' = EVS_SendEvent env 42 2 s' ?g1"
      by (auto simp: EVS_IsFiltered.simps [of env i e t g] Let_def split: if_splits)
    have jl: "j < length (BinFilters (app_at g i))" using FindEventID_Some [OF j] by simp
    then have il: "i < length (AppData g)" by (auto simp: app_at_def no_app_def split: if_splits)
    have bf: "BinFilters (app_at ?g1 i) = (BinFilters (app_at g i))[j := (BinFilters (app_at g i) ! j)\<lparr>Count := 65535\<rparr>]"
      using il c by (simp add: upd_filter_def app_at_upd_app)
    have e1: "EVS_FindEventID e' (BinFilters (app_at ?g1 i)) = EVS_FindEventID e' (BinFilters (app_at g i))" for e'
      using jl by (simp add: bf FindEventID_update)
    have o1: "own_filter ?g1 e' = map_option (\<lambda>k. BinFilters (app_at ?g1 i) ! k) (EVS_FindEventID e' (BinFilters (app_at g i)))" for e'
      using i by (simp add: own_filter_def e1)
    have "own_locks g e" using i j c by (simp add: own_locks_def own_filter_def)
    moreover have "own_filter ?g1 e = Some f \<Longrightarrow> Count f = 65535" for f using jl by (auto simp: o1 j bf)
    moreover have "own_filter ?g1 42 = own_filter g 42" if "e \<noteq> 42"
    proof -
      have "BinFilters (app_at ?g1 i) ! k = BinFilters (app_at g i) ! k" if "EVS_FindEventID 42 (BinFilters (app_at g i)) = Some k" for k
        using FindEventID_Some [OF that] FindEventID_Some [OF j] \<open>e \<noteq> 42\<close> by (auto simp: bf nth_list_update)
      then show ?thesis unfolding o1 using i by (cases "EVS_FindEventID 42 (BinFilters (app_at g i))") (simp_all add: own_filter_def)
    qed
    moreover obtain s' where "g' = EVS_SendEvent env 42 2 s' ?g1" using g' by blast
    ultimately show ?thesis using tr by (intro disjI2 conjI exI [of _ ?g1] exI [of _ s']) simp_all
  qed
qed

lemma event_bound: "transmits (Out (EVS_SendEvent env e t s g)) \<le> transmits (Out g) + 3"
proof -
  have locked: "transmits (Out (EVS_SendEvent env 42 2 s' h)) \<le> transmits (Out h) + 1"
    if "\<forall>f. own_filter h 42 = Some f \<longrightarrow> Count f = 65535" for h s'
    using SendEvent_cases [of env 42 2 s' h] that by (auto simp: own_locks_def)
  have report: "transmits (Out (EVS_SendEvent env 42 2 s' h)) \<le> transmits (Out h) + 2" for h s'
  proof -
    consider "transmits (Out (EVS_SendEvent env 42 2 s' h)) \<le> transmits (Out h) + 1"
      | g1 s1 where "Out g1 = Out h" "\<forall>f. own_filter g1 42 = Some f \<longrightarrow> Count f = 65535"
          "transmits (Out (EVS_SendEvent env 42 2 s' h)) \<le> transmits (Out (EVS_SendEvent env 42 2 s1 g1)) + 1"
      using SendEvent_cases [of env 42 2 s' h] by blast
    then show ?thesis
    proof cases
      case 2
      then show ?thesis using locked [of g1 s1] by simp
    qed simp
  qed
  consider "transmits (Out (EVS_SendEvent env e t s g)) \<le> transmits (Out g) + 1"
    | g1 s1 where "Out g1 = Out g"
        "transmits (Out (EVS_SendEvent env e t s g)) \<le> transmits (Out (EVS_SendEvent env 42 2 s1 g1)) + 1"
    using SendEvent_cases [of env e t s g] by blast
  then show ?thesis
  proof cases
    case 2
    then show ?thesis using report [of s1 g1] by simp
  qed simp
qed

text \<open>
  C39. One event of event services causes at most three packets on the software bus: its own, the report that its filter
  has locked, and the report that the filter of that report has locked.  In particular the mutual recursion of
  \<open>EVS_IsFiltered\<close> and \<open>EVS_SendEvent\<close> returns for every state.
\<close>

theorem event_recursion_bounded:
  "transmits (Out (EVS_SendEvent env e t s g)) \<le> transmits (Out g) + 3"
  by (rule event_bound)

section \<open>Applications that are not registered\<close>

lemma SendEvent_frame: "same_config g (EVS_SendEvent env e t s g)"
  by (rule frame.send) simp

text \<open>
  An application that is not registered gets the error for every event it sends and nothing is sent for it.  Its
  first event is counted and reported once; after that, as long as it does not register, its events change nothing.
\<close>

theorem unregistered_reported_once:
  assumes c: "EVS_GetCurrentContext env = (CFE_SUCCESS, Some i, aid)" and i: "i < length (AppData g)"
    and a: "AppID (app_at g i) \<noteq> aid"
    and s1: "CFE_EVS_SendEvent env e t (Some s) g = (st, g1)"
  shows "st = CFE_EVS_APP_NOT_REGISTERED \<and>
    (if UnregAppID (app_at g i) = aid then g1 = g
     else UnregisteredAppCounter (EVS_TlmPkt g1) = UnregisteredAppCounter (EVS_TlmPkt g) + 1 \<and>
          transmits (Out g1) \<le> transmits (Out g) + 3) \<and>
    CFE_EVS_SendEvent env e' t' (Some s') g1 = (CFE_EVS_APP_NOT_REGISTERED, g1)"
proof -
  let ?h = "upd_app i (\<lambda>a. a\<lparr>UnregAppID := aid\<rparr>)
    (upd_tlm (\<lambda>t. t\<lparr>UnregisteredAppCounter := UnregisteredAppCounter t + 1\<rparr>) g)"
  have un: "CFE_EVS_SendEvent env e t (Some s) g = EVS_NotRegistered env i aid g"
    if "AppID (app_at g i) \<noteq> aid" for g e t s
    using c that by (simp add: CFE_EVS_SendEvent_def EVS_AppDataIsMatch_def)
  have quiet: "EVS_NotRegistered env i aid g = (CFE_EVS_APP_NOT_REGISTERED, g)" if "UnregAppID (app_at g i) = aid" for g
    using that by (simp add: EVS_NotRegistered_def)
  show ?thesis
  proof (cases "UnregAppID (app_at g i) = aid")
    case True
    then show ?thesis using s1 a by (auto simp: un quiet)
  next
    case False
    obtain x where st: "st = CFE_EVS_APP_NOT_REGISTERED" and g1: "g1 = EVS_SendEvent env 41 3 x ?h"
      using s1 False a by (auto simp: un EVS_NotRegistered_def Let_def)
    have f: "same_config ?h g1" unfolding g1 by (rule SendEvent_frame)
    have "app_config (app_at g1 i) = app_config (app_at ?h i)" using f by (rule same_config_app)
    then have ids: "AppID (app_at g1 i) = AppID (app_at ?h i)" "UnregAppID (app_at g1 i) = UnregAppID (app_at ?h i)"
      by (auto dest: app_config_fields)
    have ah: "AppID (app_at ?h i) = AppID (app_at g i)" "UnregAppID (app_at ?h i) = aid"
      using i by (simp_all add: app_at_def)
    have "tlm_config (EVS_TlmPkt g1) = tlm_config (EVS_TlmPkt ?h)" using f by (simp add: same_config_def)
    then have "UnregisteredAppCounter (tlm_config (EVS_TlmPkt g1)) = UnregisteredAppCounter (tlm_config (EVS_TlmPkt ?h))" by simp
    then have "UnregisteredAppCounter (EVS_TlmPkt g1) = UnregisteredAppCounter (EVS_TlmPkt g) + 1" by (simp add: tlm_config_def)
    moreover have "transmits (Out g1) \<le> transmits (Out g) + 3"
      using event_bound [of env 41 3 x ?h] by (simp add: g1)
    moreover have "CFE_EVS_SendEvent env e' t' (Some s') g1 = (CFE_EVS_APP_NOT_REGISTERED, g1)"
      using ids ah a by (simp add: un quiet)
    ultimately show ?thesis using st False by simp
  qed
qed

section \<open>The event log\<close>

text \<open>
  C27. The event log.  Starting from an empty log, after any sequence of events it holds the newest twenty of them in
  overwrite mode and the oldest twenty in discard mode, in the order they were sent, and stays consistent.  Writing it
  to a file, when the file system accepts every write, succeeds and writes exactly these events, oldest first, between
  the file header and the close.
\<close>

theorem event_log_correct:
  assumes "log_inv l" and "log_list l = []"
  shows "log_inv (fold EVS_AddLog ps l) \<and>
    log_list (fold EVS_AddLog ps l) =
      (if LogMode l = CFE_EVS_LogMode_DISCARD then take 20 ps else drop (length ps - 20) ps) \<and>
    (EVS_Log g = fold EVS_AddLog ps l \<and> \<not> OpenCreate fenv <s 0 \<and> WriteHeader fenv = 64 \<and>
     (\<forall>k<20. FileWrite fenv k = of_nat (sizeof_LongEventTlm (MsgConfig env))) \<longrightarrow>
     (\<exists>name g' xs. CFE_EVS_WriteLogDataFileCmd env fenv nm g = (CFE_SUCCESS, g') \<and>
        Out g' = Out g @ [Create_File name, Write_Header] @ map Write_Log (log_list (EVS_Log g)) @ xs @ [Close_File]))"
proof (intro conjI impI)
  have f: "log_inv (fold EVS_AddLog ps l)" "log_list (fold EVS_AddLog ps l) = fold (add_bounded (LogMode l)) ps []"
    using log_fold [OF assms(1), of ps] assms(2) by simp_all
  show "log_inv (fold EVS_AddLog ps l)" by (rule f)
  show "log_list (fold EVS_AddLog ps l) =
      (if LogMode l = CFE_EVS_LogMode_DISCARD then take 20 ps else drop (length ps - 20) ps)"
    using add_bounded_discard [of "[]" ps] add_bounded_overwrite [of "[]" "LogMode l" ps] f(2) by simp
  assume w: "EVS_Log g = fold EVS_AddLog ps l \<and> \<not> OpenCreate fenv <s 0 \<and> WriteHeader fenv = 64 \<and>
     (\<forall>k<20. FileWrite fenv k = of_nat (sizeof_LongEventTlm (MsgConfig env)))"
  define L where "L = EVS_Log g"
  define name where "name = local_name 64 nm (Some ''/ram/cfe_evs.log'')"
  let ?g1 = "emit Write_Header (emit (Create_File name) g)"
  have inv: "log_inv L" using f w by (simp add: L_def)
  then have n: "unat (LogCount L) \<le> 20" "unat (Next L) < 20" by (simp_all add: log_inv_def)
  have st: "(if LogCount L = 20 then unat (Next (EVS_Log ?g1)) else 0) = log_start L" by (simp add: log_start_def L_def)
  have w1: "\<not> OpenCreate fenv <s 0" "WriteHeader fenv = 64" using w by simp_all
  have lt: "log_start L < 20" using n by (simp add: log_start_def)
  let ?g2 = "?g1\<lparr>Out := Out ?g1 @ map Write_Log (log_list L)\<rparr>"
  have loop: "log_write_loop fenv (of_nat (sizeof_LongEventTlm (MsgConfig env))) (unat (LogCount L)) 0 (log_start L) b ?g1
      = (unat (LogCount L), if unat (LogCount L) = 0 then b else of_nat (sizeof_LongEventTlm (MsgConfig env)), ?g2)" for b
    using w n lt by (subst log_write_all) (auto simp: L_def [symmetric] log_list_def comp_def)
  obtain s where cmd: "CFE_EVS_WriteLogDataFileCmd env fenv nm g = (CFE_SUCCESS, emit Close_File (EVS_SendEvent env 33 1 s ?g2))"
    unfolding CFE_EVS_WriteLogDataFileCmd_def name_def [symmetric] Let_def
    by (simp add: L_def [symmetric] st loop w1)
  obtain xs where "Out (EVS_SendEvent env 33 1 s ?g2) = Out ?g2 @ xs" using SendEvent_grows by blast
  then have "Out (emit Close_File (EVS_SendEvent env 33 1 s ?g2)) =
      Out g @ [Create_File name, Write_Header] @ map Write_Log (log_list L) @ xs @ [Close_File]" by simp
  then show "\<exists>name g' xs. CFE_EVS_WriteLogDataFileCmd env fenv nm g = (CFE_SUCCESS, g') \<and>
      Out g' = Out g @ [Create_File name, Write_Header] @ map Write_Log (log_list (EVS_Log g)) @ xs @ [Close_File]"
    using cmd unfolding L_def by blast
qed

section \<open>Filter commands\<close>

text \<open>The filters of an application as a map from event ids to the mask and the count.\<close>

fun filter_lookup :: "EVS_BinFilter list \<Rightarrow> u16 \<Rightarrow> (u16 \<times> u16) option" where
  "filter_lookup [] e = None"
| "filter_lookup (f # fs) e = (if EventID f = e then Some (Mask f, Count f) else filter_lookup fs e)"

definition filter_map :: "EVS_AppData \<Rightarrow> u16 \<rightharpoonup> u16 \<times> u16" where
  "filter_map a = (filter_lookup (BinFilters a))(CFE_EVS_FREE_SLOT := None)"

definition free_slot :: "EVS_AppData \<Rightarrow> bool" where
  "free_slot a \<longleftrightarrow> (\<exists>f\<in>set (BinFilters a). EventID f = CFE_EVS_FREE_SLOT)"

definition distinct_filters :: "EVS_AppData \<Rightarrow> bool" where
  "distinct_filters a \<longleftrightarrow> distinct (map EventID (filter (\<lambda>f. EventID f \<noteq> CFE_EVS_FREE_SLOT) (BinFilters a)))"

lemma filter_lookup_None: "filter_lookup fs e = None \<longleftrightarrow> EVS_FindEventID e fs = None"
  by (induction fs) auto

lemma filter_lookup_Some: "EVS_FindEventID e fs = Some j \<Longrightarrow> filter_lookup fs e = Some (Mask (fs ! j), Count (fs ! j))"
  by (induction fs arbitrary: j) (auto split: if_splits)

lemma lookup_set:
  "EVS_FindEventID e fs = Some j \<Longrightarrow> EventID x = e \<Longrightarrow> filter_lookup (fs[j := x]) = (filter_lookup fs)(e \<mapsto> (Mask x, Count x))"
proof (induction fs arbitrary: j)
  case (Cons f fs)
  then show ?case by (cases j) (auto simp: fun_eq_iff split: if_splits)
qed simp

lemma lookup_add:
  "EVS_FindEventID e fs = None \<Longrightarrow> EVS_FindEventID (- 1) fs = Some j \<Longrightarrow> e \<noteq> - 1 \<Longrightarrow> EventID x = e \<Longrightarrow>
     (filter_lookup (fs[j := x]))(- 1 := None) = ((filter_lookup fs)(- 1 := None))(e \<mapsto> (Mask x, Count x))"
proof (induction fs arbitrary: j)
  case (Cons f fs)
  show ?case
  proof (cases j)
    case 0
    then show ?thesis using Cons.prems by (auto simp: fun_eq_iff split: if_splits)
  next
    case (Suc k)
    then show ?thesis using Cons by (fastforce simp: fun_eq_iff split: if_splits)
  qed
qed simp

lemma lookup_delete:
  "EVS_FindEventID e fs = Some j \<Longrightarrow> e \<noteq> - 1 \<Longrightarrow> EventID x = - 1 \<Longrightarrow>
   distinct (map EventID (filter (\<lambda>f. EventID f \<noteq> - 1) fs)) \<Longrightarrow>
     (filter_lookup (fs[j := x]))(- 1 := None) = ((filter_lookup fs)(- 1 := None))(e := None)"
proof (induction fs arbitrary: j)
  case (Cons f fs)
  show ?case
  proof (cases j)
    case 0
    then have f: "EventID f = e" using Cons.prems(1) by (auto split: if_splits)
    then have "EVS_FindEventID e fs = None" using Cons.prems by (auto simp: FindEventID_None image_iff)
    then have "filter_lookup fs e = None" by (simp add: filter_lookup_None)
    then show ?thesis using 0 f Cons.prems(2,3) by (simp add: fun_eq_iff)
  next
    case (Suc k)
    then have ne: "EventID f \<noteq> e" and k: "EVS_FindEventID e fs = Some k" using Cons.prems(1) by (auto split: if_splits)
    have d: "distinct (map EventID (filter (\<lambda>f. EventID f \<noteq> - 1) fs))" using Cons.prems(4) by (simp split: if_splits)
    show ?thesis
    proof (rule ext)
      fix e'
      show "((filter_lookup ((f # fs)[j := x]))(- 1 := None)) e' = ((filter_lookup (f # fs))(- 1 := None, e := None)) e'"
        using fun_cong [OF Cons.IH [OF k Cons.prems(2,3) d], of e'] ne Suc by (simp split: if_splits)
    qed
  qed
qed simp

text \<open>A handler answers with a status and sends one event in the given state.\<close>

definition answers :: "EVS_Env \<Rightarrow> int32 \<times> CFE_EVS_Global \<Rightarrow> int32 \<Rightarrow> CFE_EVS_Global \<Rightarrow> bool" where
  "answers env res st g1 \<longleftrightarrow> (\<exists>e t s. res = (st, EVS_SendEvent env e t s g1))"

lemma answers_intro: "answers env (st, EVS_SendEvent env e t s g1) st g1"
  by (auto simp: answers_def)

lemma answers_not_filtered: "answers env (st, not_filtered_event env n e cc x g1) st g1"
  by (auto simp: answers_def not_filtered_event_def)

text \<open>Only record \<open>i\<close> changes, and its filters become \<open>m\<close>.\<close>

definition filters_become :: "nat \<Rightarrow> (u16 \<rightharpoonup> u16 \<times> u16) \<Rightarrow> CFE_EVS_Global \<Rightarrow> CFE_EVS_Global \<Rightarrow> bool" where
  "filters_become i m g g1 \<longleftrightarrow> (\<exists>bs. g1 = upd_app i (\<lambda>a. a\<lparr>BinFilters := bs\<rparr>) g) \<and> filter_map (app_at g1 i) = m"

lemma filters_become_upd:
  assumes "i < length (AppData g)"
    and "(filter_lookup ((BinFilters (app_at g i))[j := f (BinFilters (app_at g i) ! j)]))(- 1 := None) = m"
  shows "filters_become i m g (upd_filter i j f g)"
proof -
  let ?bs = "(BinFilters (app_at g i))[j := f (BinFilters (app_at g i) ! j)]"
  have "upd_filter i j f g = upd_app i (\<lambda>a. a\<lparr>BinFilters := ?bs\<rparr>) g" by (simp add: upd_filter_def upd_app_def)
  then show ?thesis using assms unfolding filters_become_def filter_map_def by (auto simp: app_at_upd_app)
qed

text \<open>
  C28. The filter commands refine updates of a map.  For a registered application whose filters have different event ids,
  and an event id that is not the mark of a free slot, adding a filter inserts it with count zero if it is absent and a
  slot is free, deleting removes it, setting replaces its mask and resetting its count; every other case is refused and
  changes nothing.  No other record changes, and every command sends one event that tells the outcome.
\<close>

theorem filter_commands_refine:
  assumes info: "EVS_GetApplicationInfo env (local_name 20 nm NULL) g = (CFE_SUCCESS, Some i)" and i: "i < length (AppData g)"
    and e: "e \<noteq> CFE_EVS_FREE_SLOT" and dist: "distinct_filters (app_at g i)"
  shows "(case filter_map (app_at g i) e of
      None \<Rightarrow>
        (if free_slot (app_at g i)
         then \<exists>g1. filters_become i ((filter_map (app_at g i))(e \<mapsto> (m, 0))) g g1 \<and>
                answers env (CFE_EVS_AddEventFilterCmd env nm e m g) CFE_SUCCESS g1
         else answers env (CFE_EVS_AddEventFilterCmd env nm e m g) CFE_EVS_APP_FILTER_OVERLOAD g) \<and>
        answers env (CFE_EVS_DeleteEventFilterCmd env nm e g) CFE_EVS_EVT_NOT_REGISTERED g \<and>
        answers env (CFE_EVS_SetFilterCmd env nm e m g) CFE_EVS_EVT_NOT_REGISTERED g \<and>
        answers env (CFE_EVS_ResetFilterCmd env nm e g) CFE_EVS_EVT_NOT_REGISTERED g
    | Some (m0, c0) \<Rightarrow>
        answers env (CFE_EVS_AddEventFilterCmd env nm e m g) CFE_EVS_EVT_NOT_REGISTERED g \<and>
        (\<exists>g1. filters_become i ((filter_map (app_at g i))(e := None)) g g1 \<and>
           answers env (CFE_EVS_DeleteEventFilterCmd env nm e g) CFE_SUCCESS g1) \<and>
        (\<exists>g1. filters_become i ((filter_map (app_at g i))(e \<mapsto> (m, c0))) g g1 \<and>
           answers env (CFE_EVS_SetFilterCmd env nm e m g) CFE_SUCCESS g1) \<and>
        (\<exists>g1. filters_become i ((filter_map (app_at g i))(e \<mapsto> (m0, 0))) g g1 \<and>
           answers env (CFE_EVS_ResetFilterCmd env nm e g) CFE_SUCCESS g1))"
proof (cases "EVS_FindEventID e (BinFilters (app_at g i))")
  case None
  then have fm: "filter_map (app_at g i) e = None" using e by (simp add: filter_map_def filter_lookup_None)
  have add: "\<exists>g1. filters_become i ((filter_map (app_at g i))(e \<mapsto> (m, 0))) g g1 \<and>
      answers env (CFE_EVS_AddEventFilterCmd env nm e m g) CFE_SUCCESS g1"
    if j: "EVS_FindEventID (- 1) (BinFilters (app_at g i)) = Some j" for j
  proof (intro exI conjI)
    let ?g1 = "upd_filter i j (\<lambda>f. f\<lparr>EventID := e, Mask := m, Count := 0\<rparr>) g"
    show "filters_become i ((filter_map (app_at g i))(e \<mapsto> (m, 0))) g ?g1"
      using lookup_add [OF None j e] by (intro filters_become_upd [OF i]) (simp add: filter_map_def)
    show "answers env (CFE_EVS_AddEventFilterCmd env nm e m g) CFE_SUCCESS ?g1"
      using None j by (simp add: CFE_EVS_AddEventFilterCmd_def Let_def info answers_intro)
  qed
  have full: "answers env (CFE_EVS_AddEventFilterCmd env nm e m g) CFE_EVS_APP_FILTER_OVERLOAD g"
    if "EVS_FindEventID (- 1) (BinFilters (app_at g i)) = None"
    using None that by (simp add: CFE_EVS_AddEventFilterCmd_def Let_def info answers_intro)
  have free: "free_slot (app_at g i) = (EVS_FindEventID (- 1) (BinFilters (app_at g i)) \<noteq> None)"
    by (simp only: free_slot_def FindEventID_None) simp
  have refuse: "answers env (CFE_EVS_DeleteEventFilterCmd env nm e g) CFE_EVS_EVT_NOT_REGISTERED g"
    "answers env (CFE_EVS_SetFilterCmd env nm e m g) CFE_EVS_EVT_NOT_REGISTERED g"
    "answers env (CFE_EVS_ResetFilterCmd env nm e g) CFE_EVS_EVT_NOT_REGISTERED g"
    using None
    by (simp_all add: CFE_EVS_DeleteEventFilterCmd_def CFE_EVS_SetFilterCmd_def CFE_EVS_ResetFilterCmd_def Let_def info
      answers_not_filtered)
  show ?thesis using add full refuse unfolding fm free by auto
next
  case (Some j)
  let ?f = "BinFilters (app_at g i) ! j"
  have fm: "filter_map (app_at g i) e = Some (Mask ?f, Count ?f)"
    using e filter_lookup_Some [OF Some] by (simp add: filter_map_def)
  have id: "EventID ?f = e" using FindEventID_Some [OF Some] by simp
  have "answers env (CFE_EVS_AddEventFilterCmd env nm e m g) CFE_EVS_EVT_NOT_REGISTERED g"
    using Some by (simp add: CFE_EVS_AddEventFilterCmd_def Let_def info answers_intro)
  moreover have "filters_become i ((filter_map (app_at g i))(e := None)) g
      (upd_filter i j (\<lambda>f. f\<lparr>EventID := - 1, Mask := 0, Count := 0\<rparr>) g)"
    using lookup_delete [OF Some e] dist
    by (intro filters_become_upd [OF i]) (simp add: filter_map_def distinct_filters_def)
  moreover have "answers env (CFE_EVS_DeleteEventFilterCmd env nm e g) CFE_SUCCESS
      (upd_filter i j (\<lambda>f. f\<lparr>EventID := - 1, Mask := 0, Count := 0\<rparr>) g)"
    using Some by (simp add: CFE_EVS_DeleteEventFilterCmd_def Let_def info answers_intro)
  moreover have "filters_become i ((filter_map (app_at g i))(e \<mapsto> (m, Count ?f))) g (upd_filter i j (\<lambda>f. f\<lparr>Mask := m\<rparr>) g)"
    using lookup_set [OF Some, of "?f\<lparr>Mask := m\<rparr>"] id e
    by (intro filters_become_upd [OF i]) (simp add: filter_map_def fun_upd_twist)
  moreover have "answers env (CFE_EVS_SetFilterCmd env nm e m g) CFE_SUCCESS (upd_filter i j (\<lambda>f. f\<lparr>Mask := m\<rparr>) g)"
    using Some by (simp add: CFE_EVS_SetFilterCmd_def Let_def info answers_intro)
  moreover have "filters_become i ((filter_map (app_at g i))(e \<mapsto> (Mask ?f, 0))) g (upd_filter i j (\<lambda>f. f\<lparr>Count := 0\<rparr>) g)"
    using lookup_set [OF Some, of "?f\<lparr>Count := 0\<rparr>"] id e
    by (intro filters_become_upd [OF i]) (simp add: filter_map_def fun_upd_twist)
  moreover have "answers env (CFE_EVS_ResetFilterCmd env nm e g) CFE_SUCCESS (upd_filter i j (\<lambda>f. f\<lparr>Count := 0\<rparr>) g)"
    using Some by (simp add: CFE_EVS_ResetFilterCmd_def Let_def info answers_intro)
  ultimately show ?thesis unfolding fm by auto
qed

section \<open>Housekeeping\<close>

definition app_tlm :: "EVS_AppData \<Rightarrow> CFE_EVS_AppTlmData" where
  "app_tlm a = \<lparr>TlmAppID = AppID a, AppMessageSentCounter = EventCount a, AppEnableStatus = ActiveFlag a\<rparr>"

lemma take_update_Suc: "j < length xs \<Longrightarrow> take (Suc j) (xs[j := x]) = take j xs @ [x]"
  by (simp add: take_Suc_conv_app_nth)

lemma hk_fill_eq:
  "j \<le> 16 \<Longrightarrow> length tlm = 16 \<Longrightarrow>
   hk_fill as j tlm =
     (let us = take (16 - j) (filter EVS_AppDataIsUsed as)
      in (j + length us, take j tlm @ map app_tlm us @ drop (j + length us) tlm))"
proof (induction as j tlm rule: hk_fill.induct)
  case (2 a as j tlm)
  show ?case
  proof (cases "j < 16 \<and> EVS_AppDataIsUsed a")
    case True
    let ?t = "tlm[j := app_tlm a]"
    have "hk_fill (a # as) j tlm = hk_fill as (j + 1) ?t" using True by (simp add: app_tlm_def EVS_AppDataGetID_def)
    moreover have "16 - j = Suc (16 - (j + 1))" using True by linarith
    ultimately show ?thesis
      using "2.IH"(1) [of] True "2.prems" by (simp add: Let_def take_update_Suc app_tlm_def EVS_AppDataGetID_def)
  next
    case False
    then show ?thesis using 2 by (cases "j < 16") (auto simp: Let_def)
  qed
qed (simp add: Let_def)

lemma hk_clear_eq: "hk_clear n j tlm = (if n = 0 then tlm else tlm[j := \<lparr>TlmAppID = 0, AppMessageSentCounter = 0, AppEnableStatus = 0\<rparr>])"
proof (induction n arbitrary: tlm)
  case (Suc n)
  then show ?case by simp
qed simp

text \<open>
  The housekeeping packet lists the first sixteen registered applications in the order of the table.  Behind them,
  only the next entry is cleared: all later entries keep what an earlier packet had there, so that applications that
  have unregistered since are still reported.
\<close>

theorem housekeeping_stale:
  assumes "length (HkAppData (EVS_TlmPkt g)) = 16"
    and "CFE_EVS_ReportHousekeepingCmd env g = (st, g')"
  shows "\<exists>hk. st = CFE_STATUS_NO_COUNTER_INCREMENT \<and> EVS_TlmPkt g' = hk \<and> Out g' = Out g @ [Transmit_Hk hk] \<and>
    (let us = take 16 (filter EVS_AppDataIsUsed (AppData g)); n = length us
     in HkAppData hk = map app_tlm us @
          (if n < 16 then \<lparr>TlmAppID = 0, AppMessageSentCounter = 0, AppEnableStatus = 0\<rparr> # drop (n + 1) (HkAppData (EVS_TlmPkt g))
           else []))"
proof -
  let ?us = "take 16 (filter EVS_AppDataIsUsed (AppData g))" and ?t = "HkAppData (EVS_TlmPkt g)"
  let ?z = "\<lparr>TlmAppID = 0, AppMessageSentCounter = 0, AppEnableStatus = 0\<rparr>"
  have "(map app_tlm ?us @ drop (length ?us) ?t)[length ?us := ?z] = map app_tlm ?us @ ?z # drop (length ?us + 1) ?t"
    if "length ?us < 16"
    using that assms(1) by (simp add: list_update_append upd_conv_take_nth_drop Cons_nth_drop_Suc)
  moreover have "length ?us \<le> 16" by simp
  ultimately have "hk_clear (16 - length ?us) (length ?us) (map app_tlm ?us @ drop (length ?us) ?t) =
      map app_tlm ?us @ (if length ?us < 16 then ?z # drop (length ?us + 1) ?t else [])"
    using assms(1) by (auto simp: hk_clear_eq)
  then show ?thesis
    using assms(2) hk_fill_eq [of 0 ?t "AppData g"] assms(1)
    by (auto simp: CFE_EVS_ReportHousekeepingCmd_def Let_def)
qed

section \<open>Reachable states\<close>

text \<open>
  C25. Every state of event services.  After an initialization that succeeds, whatever the reset area held and
  whatever calls of applications, commands with any contents and clean-ups of executive services follow:
  the record of every registered application is the one its id leads to, so that no two records belong to the same
  application; every application has its eight filters; the log still has its twenty entries, the next event is
  written inside them, and its mode and its full flag have one of their two values.
  If the log was cleared at that initialization, by a power-on or because the contents of the reset area were bad, or
  if a consistent log was found there, then moreover the log holds at most twenty events, its full flag is set exactly
  when it holds twenty, and the text of every logged event is terminated inside its field.  (A count that is damaged
  while mode, full flag and next index look right passes the check: \<open>early_init_keeps_bad_count\<close>.)
\<close>

theorem evs_reachable:
  assumes "CFE_EVS_EarlyInit env ienv = (CFE_SUCCESS, g0)" and "length (LogEntry (ResetLog ienv)) = 20"
    and "evs_step\<^sup>*\<^sup>* g0 g"
  shows "length (AppData g) = 32 \<and>
    (\<forall>i<32. length (BinFilters (app_at g i)) = 8 \<and>
       (AppID (app_at g i) \<noteq> 0 \<longrightarrow> EVS_GetAppDataByID (AppID (app_at g i)) = Some i)) \<and>
    length (LogEntry (EVS_Log g)) = 20 \<and> unat (Next (EVS_Log g)) < 20 \<and>
    (LogMode (EVS_Log g) = CFE_EVS_LogMode_OVERWRITE \<or> LogMode (EVS_Log g) = CFE_EVS_LogMode_DISCARD) \<and>
    (LogFullFlag (EVS_Log g) = 0 \<or> LogFullFlag (EVS_Log g) = 1) \<and>
    (ResetType ienv = CFE_PSP_RST_TYPE_POWERON \<or> bad_contents (ResetLog ienv) \<or> log_ok (ResetLog ienv) \<longrightarrow>
      length (log_list (EVS_Log g)) \<le> 20 \<and>
      LogFullFlag (EVS_Log g) = (if length (log_list (EVS_Log g)) = 20 then 1 else 0) \<and>
      (\<forall>p\<in>set (log_list (EVS_Log g)). length (Message p) = 122 \<and> CHR 0x00 \<in> set (Message p)))"
proof -
  have inv: "evs_inv log_safe g" using early_init_inv(1) [OF assms(1,2)] assms(3) safe.evs_steps_inv by blast
  have "length (log_list (EVS_Log g)) \<le> 20 \<and>
      LogFullFlag (EVS_Log g) = (if length (log_list (EVS_Log g)) = 20 then 1 else 0) \<and>
      (\<forall>p\<in>set (log_list (EVS_Log g)). length (Message p) = 122 \<and> CHR 0x00 \<in> set (Message p))"
    if "ResetType ienv = CFE_PSP_RST_TYPE_POWERON \<or> bad_contents (ResetLog ienv) \<or> log_ok (ResetLog ienv)"
  proof -
    have "evs_inv log_ok g" using early_init_inv(2) [OF assms(1,2) that] assms(3) consistent.evs_steps_inv by blast
    then have l: "log_inv (EVS_Log g)" and p: "\<forall>p\<in>set (LogEntry (EVS_Log g)). packet_ok p"
      by (simp_all add: evs_inv_def log_ok_def)
    have "set (log_list (EVS_Log g)) \<subseteq> set (LogEntry (EVS_Log g))"
      using l by (auto simp: log_list_def log_inv_def)
    moreover have "unat (LogCount (EVS_Log g)) = 20 \<longleftrightarrow> LogCount (EVS_Log g) = 20" by (simp add: unat_eq_20)
    ultimately show ?thesis using l p by (auto simp: log_inv_def packet_ok_def)
  qed
  then show ?thesis using inv by (simp add: evs_inv_def log_safe_def app_ok_def app_at_def)
qed

text \<open>
  A log with a count of 21 and everything else in order survives a reset that is not a power-on.
\<close>

theorem early_init_keeps_bad_count:
  assumes "\<not> bad_contents l" and "LogCount l = 21" and "ResetLog ienv = l" and "ResetType ienv \<noteq> CFE_PSP_RST_TYPE_POWERON"
    and "CFE_EVS_EarlyInit env ienv = (CFE_SUCCESS, g)"
  shows "EVS_Log g = l \<and> length (log_list (EVS_Log g)) = 21"
  using assms by (auto simp: CFE_EVS_EarlyInit_def Let_def bad_contents_def cleared_global_def split: if_splits)

section \<open>Witnesses\<close>

text \<open>A state after power-on in which one application has registered with a filter that lets four events through.\<close>

definition wit_env :: EVS_Env where
  "wit_env = \<lparr>MsgConfig = MSG_PRI_V1, MsgPlatform = \<lparr>platform_little_endian = True, platform_spacecraft_id = 66\<rparr>,
     GetAppID = (0, 0x110001), GetAppName = (\<lambda>_. ''APP''), GetAppIDByName = (\<lambda>_. (0, 0x110001)),
     GetTime = \<lparr>Seconds = 5, Subseconds = 0\<rparr>, GetSpacecraftId = 66, GetProcessorId = 1\<rparr>"

definition wit_log :: CFE_EVS_Log where
  "wit_log = \<lparr>Next = 0, LogCount = 0, LogFullFlag = 0, LogMode = 1, LogOverflowCounter = 0, LogEntry = replicate 20 zero_packet\<rparr>"

definition wit_init :: EVS_InitEnv where
  "wit_init = \<lparr>ResetAreaStatus = 0, ResetAreaSize = 100000, sizeof_ResetData = 90000, ResetLog = wit_log, MutSemCreate = 0,
     ResetType = 2, RegisterApp = 0, CreatePipe = (0, 1), SubscribeCmd = 0, SubscribeHk = 0\<rparr>"

definition wit_early :: CFE_EVS_Global where
  "wit_early = snd (CFE_EVS_EarlyInit wit_env wit_init)"

definition wit_filter :: EVS_BinFilter where
  "wit_filter = \<lparr>EventID = 5, Mask = 0xFFFC, Count = 0\<rparr>"

definition wit_app :: EVS_AppData where
  "wit_app = \<lparr>AppID = 0x110001, UnregAppID = 0,
     BinFilters = wit_filter # replicate 7 \<lparr>EventID = - 1, Mask = 0, Count = 0\<rparr>,
     ActiveFlag = 1, EventTypesActiveFlag = 0xE, EventCount = 0\<rparr>"

definition wit_state :: CFE_EVS_Global where
  "wit_state = snd (CFE_EVS_Register wit_env (Some [(5, 0xFFFC)]) 1 0 wit_early)"

lemma wit_context: "EVS_GetCurrentContext wit_env = (0, Some 1, 0x110001)" "EVS_GetAppDataByID 0x110001 = Some 1"
  by code_simp+

lemma wit_early_fields:
  "CFE_EVS_EarlyInit wit_env wit_init = (0, wit_early)" "AppData wit_early = replicate 32 zero_app"
  "EVS_Log wit_early = (EVS_ClearLog wit_log)\<lparr>LogMode := 1\<rparr>"
  "HkAppData (EVS_TlmPkt wit_early) = replicate 16 \<lparr>TlmAppID = 0, AppMessageSentCounter = 0, AppEnableStatus = 0\<rparr>"
  "Out wit_early = []"
  by (simp_all add: wit_early_def CFE_EVS_EarlyInit_def wit_init_def Let_def cleared_global_def)

lemma wit_app_at: "app_at wit_state 1 = wit_app" "app_at wit_state (Suc 0) = wit_app" "length (AppData wit_state) = 32"
  by (simp_all add: wit_state_def CFE_EVS_Register_def wit_context wit_early_fields Let_def app_at_def wit_app_def wit_filter_def
      zero_app_def EVS_AppDataSetUsed_def)

theorem filter_schedule_witness:
  "Count (BinFilters (app_at (((\<lambda>g. snd (CFE_EVS_SendEvent wit_env 5 2 (Some ''x'') g)) ^^ 6) wit_state) 1) ! 0) = 6"
  using filter_schedule [of wit_env 1 "0x110001" wit_state 2 5 0 6 "''x''"]
  by (simp add: wit_context wit_app_at wit_app_def wit_filter_def event_disabled_def Let_def)

theorem unregistered_reported_once_witness:
  "CFE_EVS_SendEvent wit_env 9 3 (Some ''y'') (snd (CFE_EVS_SendEvent wit_env 5 2 (Some ''x'') wit_early)) =
     (CFE_EVS_APP_NOT_REGISTERED, snd (CFE_EVS_SendEvent wit_env 5 2 (Some ''x'') wit_early))"
  using unregistered_reported_once [of wit_env 1 "0x110001" wit_early 5 2 "''x''"
      "fst (CFE_EVS_SendEvent wit_env 5 2 (Some ''x'') wit_early)" "snd (CFE_EVS_SendEvent wit_env 5 2 (Some ''x'') wit_early)" 9 3 "''y''"]
  by (simp add: wit_context wit_early_fields app_at_def zero_app_def)

theorem event_log_correct_witness:
  "log_list (fold EVS_AddLog (replicate 30 zero_packet) wit_log) = replicate 20 zero_packet"
proof -
  have "log_inv wit_log" "log_list wit_log = []" by (simp_all add: log_inv_def log_list_def wit_log_def)
  from event_log_correct [OF this, of "replicate 30 zero_packet"] show ?thesis by (simp add: wit_log_def)
qed

theorem filter_commands_refine_witness:
  "answers wit_env (CFE_EVS_AddEventFilterCmd wit_env ''APP'' 5 1 wit_state) CFE_EVS_EVT_NOT_REGISTERED wit_state"
proof -
  have "EVS_GetApplicationInfo wit_env (local_name 20 ''APP'' NULL) wit_state = (CFE_SUCCESS, Some 1)"
    by (simp add: EVS_GetApplicationInfo_def wit_env_def wit_context EVS_AppDataIsMatch_def wit_app_at wit_app_def)
  from filter_commands_refine [OF this, of 5 1] show ?thesis
    by (simp add: wit_app_at wit_app_def distinct_filters_def filter_map_def wit_filter_def)
qed

theorem housekeeping_stale_witness:
  "HkAppData (EVS_TlmPkt (snd (CFE_EVS_ReportHousekeepingCmd wit_env
       (upd_tlm (\<lambda>t. t\<lparr>HkAppData := (HkAppData t)[3 := \<lparr>TlmAppID = 0x110001, AppMessageSentCounter = 7, AppEnableStatus = 1\<rparr>]\<rparr>) wit_early))))
     ! 3 = \<lparr>TlmAppID = 0x110001, AppMessageSentCounter = 7, AppEnableStatus = 1\<rparr>"
proof -
  let ?g = "upd_tlm (\<lambda>t. t\<lparr>HkAppData := (HkAppData t)[3 := \<lparr>TlmAppID = 0x110001, AppMessageSentCounter = 7, AppEnableStatus = 1\<rparr>]\<rparr>) wit_early"
  have "filter EVS_AppDataIsUsed (AppData ?g) = []"
    by (simp add: wit_early_fields EVS_AppDataIsUsed_def zero_app_def)
  then show ?thesis
    using housekeeping_stale [of ?g wit_env "fst (CFE_EVS_ReportHousekeepingCmd wit_env ?g)"
        "snd (CFE_EVS_ReportHousekeepingCmd wit_env ?g)"]
    by (simp add: wit_early_fields Let_def flip: numeral_3_eq_3)
qed

theorem evs_reachable_witness:
  "length (log_list (EVS_Log (snd (CFE_EVS_SendEvent wit_env 5 2 (Some ''x'') wit_state)))) \<le> 20"
proof -
  have "evs_step\<^sup>*\<^sup>* wit_early (snd (CFE_EVS_SendEvent wit_env 5 2 (Some ''x'') wit_state))"
    unfolding wit_state_def by (rule rtranclp.rtrancl_into_rtrancl, rule r_into_rtranclp) (rule evs_step.intros)+
  from evs_reachable [OF wit_early_fields(1) _ this] show ?thesis by (simp add: wit_init_def wit_log_def)
qed

end
