(* ===== verification/CFE_FS.thy ===== *)
theory CFE_FS
  imports CFS_Printf
begin

unbundle bit_operations_syntax

text \<open>
  File services (\<^verbatim>\<open>cfe_fs_api.c\<close>, \<^verbatim>\<open>cfe_fs_priv.c\<close>, \<^verbatim>\<open>cfe_fs_priv.h\<close> and the types of \<^verbatim>\<open>cfe_fs.h\<close> and
  \<^verbatim>\<open>cfe_fs_extern_typedefs.h\<close>): the header of files, file names, and the job that writes files in the background.

  The file behind a descriptor is its bytes and a position.  What a call to the operating system returns is an
  argument of the model: a seek fails with a status or works, a read or write gives a status or the number of bytes it
  transferred.  Messages to the system log are left out.
\<close>

section \<open>Constants and data\<close>

abbreviation (input) CFE_FS_BAD_ARGUMENT :: int32 where "CFE_FS_BAD_ARGUMENT \<equiv> 0xc6000001"
abbreviation (input) CFE_FS_INVALID_PATH :: int32 where "CFE_FS_INVALID_PATH \<equiv> 0xc6000002"
abbreviation (input) CFE_FS_FNAME_TOO_LONG :: int32 where "CFE_FS_FNAME_TOO_LONG \<equiv> 0xc6000003"
abbreviation (input) CFE_STATUS_REQUEST_ALREADY_PENDING :: int32 where "CFE_STATUS_REQUEST_ALREADY_PENDING \<equiv> 0xc8000006"
abbreviation (input) FS_OS_SUCCESS :: int32 where "FS_OS_SUCCESS \<equiv> 0"
abbreviation (input) FS_OS_MAX_PATH_LEN :: nat where "FS_OS_MAX_PATH_LEN \<equiv> 64"
abbreviation (input) CFE_FS_HDR_DESC_MAX_LEN :: nat where "CFE_FS_HDR_DESC_MAX_LEN \<equiv> 32"
abbreviation (input) sizeof_CFE_FS_Header :: nat where "sizeof_CFE_FS_Header \<equiv> 64"
abbreviation (input) NUL :: char where "NUL \<equiv> CHR 0x00"

record CFE_FS_Header =
  ContentType :: u32
  HdrSubType :: u32
  HdrLength :: u32
  SpacecraftID :: u32
  ProcessorID :: u32
  ApplicationID :: u32
  TimeSeconds :: u32
  TimeSubSeconds :: u32
  HdrDescription :: string

text \<open>
  The byte order of the processor, and what \<open>CFE_PSP_GetSpacecraftId\<close>, \<open>CFE_PSP_GetProcessorId\<close>, \<open>CFE_ES_GetAppID\<close> and
  \<open>CFE_TIME_GetTime\<close> give.
\<close>

record FS_Env =
  LittleEndian :: bool
  EnvSpacecraft :: u32
  EnvProcessor :: u32
  EnvAppID :: u32
  EnvTime :: CFE_TIME_SysTime

section \<open>Files of the operating system\<close>

record OS_File =
  Content :: "u8 list"
  Position :: nat

definition put_at :: "nat \<Rightarrow> u8 list \<Rightarrow> u8 list \<Rightarrow> u8 list" where
  "put_at pos bs c = take pos c @ replicate (pos - length c) 0 @ bs @ drop (pos + length bs) c"

text \<open>\<open>OS_lseek (FileDes, Offset, OS_SEEK_SET)\<close>, which fails with the status of the first argument if there is one.\<close>

definition OS_lseek :: "int32 option \<Rightarrow> nat \<Rightarrow> OS_File \<Rightarrow> int32 \<times> OS_File" where
  "OS_lseek err Offset f =
     (case err of Some e \<Rightarrow> (e, f) | None \<Rightarrow> (of_nat Offset, f\<lparr>Position := Offset\<rparr>))"

text \<open>A read or write for which the first argument is returned.\<close>

definition OS_write :: "int32 \<Rightarrow> u8 list \<Rightarrow> OS_File \<Rightarrow> int32 \<times> OS_File" where
  "OS_write ret bs f =
     (if ret <s 0 then (ret, f)
      else let ws = take (unat ret) bs
           in (ret, f\<lparr>Content := put_at (Position f) ws (Content f), Position := Position f + length ws\<rparr>))"

definition OS_read :: "int32 \<Rightarrow> nat \<Rightarrow> OS_File \<Rightarrow> int32 \<times> u8 list \<times> OS_File" where
  "OS_read ret n f =
     (if ret <s 0 then (ret, [], f)
      else let rs = take (min n (unat ret)) (drop (Position f) (Content f))
           in (ret, rs, f\<lparr>Position := Position f + length rs\<rparr>))"

section \<open>Headers in memory\<close>

text \<open>A word in memory, first in the order of the file and then in the order of a processor.\<close>

definition be_bytes :: "u32 \<Rightarrow> u8 list" where
  "be_bytes w = [ucast (drop_bit 24 w), ucast (drop_bit 16 w), ucast (drop_bit 8 w), ucast w]"

definition be_value :: "u8 list \<Rightarrow> u32" where
  "be_value bs = push_bit 24 (ucast (bs ! 0)) OR push_bit 16 (ucast (bs ! 1)) OR push_bit 8 (ucast (bs ! 2)) OR ucast (bs ! 3)"

definition native_bytes :: "bool \<Rightarrow> u32 \<Rightarrow> u8 list" where
  "native_bytes little w = (if little then rev (be_bytes w) else be_bytes w)"

definition native_value :: "bool \<Rightarrow> u8 list \<Rightarrow> u32" where
  "native_value little bs = be_value (if little then rev bs else bs)"

definition header_bytes :: "bool \<Rightarrow> CFE_FS_Header \<Rightarrow> u8 list" where
  "header_bytes l h =
     native_bytes l (ContentType h) @ native_bytes l (HdrSubType h) @ native_bytes l (HdrLength h) @
     native_bytes l (SpacecraftID h) @ native_bytes l (ProcessorID h) @ native_bytes l (ApplicationID h) @
     native_bytes l (TimeSeconds h) @ native_bytes l (TimeSubSeconds h) @ map of_char (HdrDescription h)"

definition word_at :: "bool \<Rightarrow> u8 list \<Rightarrow> nat \<Rightarrow> u32" where
  "word_at l bs i = native_value l (take 4 (drop (4 * i) bs))"

definition header_of :: "bool \<Rightarrow> u8 list \<Rightarrow> CFE_FS_Header" where
  "header_of l bs =
     \<lparr>ContentType = word_at l bs 0, HdrSubType = word_at l bs 1, HdrLength = word_at l bs 2, SpacecraftID = word_at l bs 3,
      ProcessorID = word_at l bs 4, ApplicationID = word_at l bs 5, TimeSeconds = word_at l bs 6,
      TimeSubSeconds = word_at l bs 7, HdrDescription = map (\<lambda>b. char_of (unat b)) (take 32 (drop 32 bs))\<rparr>"

section \<open>File headers\<close>

text \<open>The bytes of the word in reverse order, which is the same function of its value in both byte orders.\<close>

definition CFE_FS_ByteSwapUint32 :: "u32 \<Rightarrow> u32" where
  "CFE_FS_ByteSwapUint32 w = be_value (rev (be_bytes w))"

definition CFE_FS_ByteSwapCFEHeader :: "CFE_FS_Header \<Rightarrow> CFE_FS_Header" where
  "CFE_FS_ByteSwapCFEHeader h =
     h\<lparr>ContentType := CFE_FS_ByteSwapUint32 (ContentType h), HdrSubType := CFE_FS_ByteSwapUint32 (HdrSubType h),
       HdrLength := CFE_FS_ByteSwapUint32 (HdrLength h), SpacecraftID := CFE_FS_ByteSwapUint32 (SpacecraftID h),
       ProcessorID := CFE_FS_ByteSwapUint32 (ProcessorID h), ApplicationID := CFE_FS_ByteSwapUint32 (ApplicationID h),
       TimeSeconds := CFE_FS_ByteSwapUint32 (TimeSeconds h), TimeSubSeconds := CFE_FS_ByteSwapUint32 (TimeSubSeconds h)\<rparr>"

text \<open>The first bytes of the structure are overwritten by what is read.\<close>

definition CFE_FS_ReadHeader ::
  "bool \<Rightarrow> int32 option \<Rightarrow> int32 \<Rightarrow> CFE_FS_Header ptr \<Rightarrow> OS_File \<Rightarrow> int32 \<times> CFE_FS_Header ptr \<times> OS_File" where
  "CFE_FS_ReadHeader little seek ret Hdr f =
     (case Hdr of NULL \<Rightarrow> (CFE_FS_BAD_ARGUMENT, NULL, f)
      | Some h \<Rightarrow>
          (let (Result, f) = OS_lseek seek 0 f
           in if Result = FS_OS_SUCCESS
              then let (Result, bs, f) = OS_read ret sizeof_CFE_FS_Header f;
                       h = header_of little (bs @ drop (length bs) (header_bytes little h));
                       h = (if little then CFE_FS_ByteSwapCFEHeader h else h)
                   in (Result, Some h, f)
              else (Result, Some h, f)))"

definition CFE_FS_InitHeader :: "CFE_FS_Header ptr \<Rightarrow> string ptr \<Rightarrow> u32 \<Rightarrow> CFE_FS_Header ptr" where
  "CFE_FS_InitHeader Hdr Description SubType =
     (if Hdr = NULL \<or> Description = NULL then Hdr
      else Some \<lparr>ContentType = 0, HdrSubType = SubType, HdrLength = 0, SpacecraftID = 0, ProcessorID = 0, ApplicationID = 0,
             TimeSeconds = 0, TimeSubSeconds = 0,
             HdrDescription = copy_name CFE_FS_HDR_DESC_MAX_LEN (cstring (the Description)) (replicate 32 NUL)\<rparr>)"

definition CFE_FS_WriteHeader ::
  "FS_Env \<Rightarrow> int32 option \<Rightarrow> int32 \<Rightarrow> OS_File \<Rightarrow> CFE_FS_Header ptr \<Rightarrow> int32 \<times> OS_File \<times> CFE_FS_Header ptr" where
  "CFE_FS_WriteHeader env seek ret f Hdr =
     (case Hdr of NULL \<Rightarrow> (CFE_FS_BAD_ARGUMENT, f, NULL)
      | Some h \<Rightarrow>
          (let (Result, f) = OS_lseek seek 0 f
           in if Result = FS_OS_SUCCESS
              then let h = h\<lparr>SpacecraftID := EnvSpacecraft env, ProcessorID := EnvProcessor env,
                             ApplicationID := EnvAppID env, HdrLength := of_nat sizeof_CFE_FS_Header,
                             ContentType := 0x63464531, TimeSeconds := Seconds (EnvTime env),
                             TimeSubSeconds := Subseconds (EnvTime env)\<rparr>;
                       h = (if LittleEndian env then CFE_FS_ByteSwapCFEHeader h else h);
                       (Result, f) = OS_write ret (header_bytes (LittleEndian env) h) f;
                       h = (if LittleEndian env then CFE_FS_ByteSwapCFEHeader h else h)
                   in (Result, f, Some h)
              else (Result, f, Some h)))"

definition CFE_FS_SetTimestamp ::
  "bool \<Rightarrow> int32 option \<Rightarrow> int32 \<Rightarrow> int32 \<Rightarrow> OS_File \<Rightarrow> CFE_TIME_SysTime \<Rightarrow> int32 \<times> OS_File" where
  "CFE_FS_SetTimestamp little seek ret1 ret2 f NewTimestamp =
     (let swap = (\<lambda>w. if little then CFE_FS_ByteSwapUint32 w else w);
          FileOffset = 24;
          (Result, f) = OS_lseek seek FileOffset f
      in if Result = of_nat FileOffset
         then let (Result, f) = OS_write ret1 (native_bytes little (swap (Seconds NewTimestamp))) f
              in if Result = 4
                 then let (Result, f) = OS_write ret2 (native_bytes little (swap (Subseconds NewTimestamp))) f
                      in if Result = 4 then (FS_OS_SUCCESS, f) else (Result, f)
                 else (Result, f)
         else (Result, f))"

section \<open>File names\<close>

datatype CFE_FS_FileCategory =
  CFE_FS_FileCategory_UNKNOWN | CFE_FS_FileCategory_DYNAMIC_MODULE | CFE_FS_FileCategory_BINARY_DATA_DUMP |
  CFE_FS_FileCategory_TEXT_LOG | CFE_FS_FileCategory_SCRIPT | CFE_FS_FileCategory_TEMP | CFE_FS_FileCategory_MAX

text \<open>The entries of the target configuration that are used here.\<close>

record FS_Config =
  NonvolMountPoint :: string
  RamdiskMountPoint :: string
  Default_ModuleExtension :: string

definition CFE_FS_GetDefaultMountPoint :: "FS_Config \<Rightarrow> CFE_FS_FileCategory \<Rightarrow> string ptr" where
  "CFE_FS_GetDefaultMountPoint cfg FileCategory =
     (case FileCategory of
        CFE_FS_FileCategory_SCRIPT \<Rightarrow> Some (NonvolMountPoint cfg)
      | CFE_FS_FileCategory_DYNAMIC_MODULE \<Rightarrow> Some (NonvolMountPoint cfg)
      | CFE_FS_FileCategory_TEMP \<Rightarrow> Some (RamdiskMountPoint cfg)
      | CFE_FS_FileCategory_BINARY_DATA_DUMP \<Rightarrow> Some (RamdiskMountPoint cfg)
      | CFE_FS_FileCategory_TEXT_LOG \<Rightarrow> Some (RamdiskMountPoint cfg)
      | _ \<Rightarrow> NULL)"

definition CFE_FS_GetDefaultExtension :: "FS_Config \<Rightarrow> CFE_FS_FileCategory \<Rightarrow> string ptr" where
  "CFE_FS_GetDefaultExtension cfg FileCategory =
     (case FileCategory of
        CFE_FS_FileCategory_SCRIPT \<Rightarrow> Some ''.scr''
      | CFE_FS_FileCategory_DYNAMIC_MODULE \<Rightarrow> Some (Default_ModuleExtension cfg)
      | CFE_FS_FileCategory_TEMP \<Rightarrow> Some ''.tmp''
      | CFE_FS_FileCategory_BINARY_DATA_DUMP \<Rightarrow> Some ''.dat''
      | CFE_FS_FileCategory_TEXT_LOG \<Rightarrow> Some ''.log''
      | _ \<Rightarrow> NULL)"

text \<open>
  The variables of \<open>CFE_FS_ParseInputFileNameEx\<close>.  \<open>InputPtr\<close> with \<open>InputLen\<close> is the rest of the input, or null;
  \<open>ComponentPtr\<close> with \<open>ComponentLen\<close> is a list of characters.
\<close>

datatype component =
  PROCESS_INIT | PATHNAME_COMPONENT | PATHNAME_SEPARATOR | FILENAME_COMPONENT | EXTENSION_SEPARATOR |
  EXTENSION_COMPONENT | END_COMPONENT

text \<open>
  The local variables.  \<open>InputPtr\<close> stands for the \<open>InputLen\<close> characters from there on.  Two flags describe reads of memory:
  \<open>Terminated\<close> says that the input is followed by the zero of a C string, as a default string is and a field of a command is
  not; \<open>OverRead\<close> that a character behind the end of a field has been read.
\<close>

record parse_state =
  InputPtr :: "string ptr"
  Component :: component
  ComponentTerm :: char
  LastPathReached :: bool
  ParseStatus :: int32
  OutputBuffer :: string
  OutputLen :: nat
  Terminated :: bool
  OverRead :: bool

text \<open>\<open>++Component\<close>, and going back to the next part of the path.\<close>

definition next_component :: "component \<Rightarrow> bool \<Rightarrow> component" where
  "next_component c lst =
     (if c = PATHNAME_SEPARATOR \<and> \<not> lst then PATHNAME_COMPONENT
      else case c of PROCESS_INIT \<Rightarrow> PATHNAME_COMPONENT | PATHNAME_COMPONENT \<Rightarrow> PATHNAME_SEPARATOR
           | PATHNAME_SEPARATOR \<Rightarrow> FILENAME_COMPONENT | FILENAME_COMPONENT \<Rightarrow> EXTENSION_SEPARATOR
           | EXTENSION_SEPARATOR \<Rightarrow> EXTENSION_COMPONENT | _ \<Rightarrow> END_COMPONENT)"

text \<open>The length of the output without the terminators at its end.\<close>

fun strip_term :: "char \<Rightarrow> string \<Rightarrow> nat \<Rightarrow> nat" where
  "strip_term t buf 0 = 0"
| "strip_term t buf (Suc n) = (if buf ! n = t then strip_term t buf n else Suc n)"

text \<open>
  The loop that appends a component, which stops at a zero; the flag says that the buffer is full, with the
  output one character shorter to leave room for the terminator.
\<close>

fun append_component :: "string \<Rightarrow> string \<Rightarrow> nat \<Rightarrow> bool \<times> string \<times> nat" where
  "append_component [] buf len = (False, buf, len)"
| "append_component (c # cs) buf len =
     (if c = NUL then (False, buf, len)
      else if length buf \<le> Suc len then (True, buf[len := c], len)
      else append_component cs (buf[len := c]) (Suc len))"

text \<open>
  One round of the loop for the component that comes next: the new state and the component to append.  The loop that
  advances past separators reads \<open>*InputPtr\<close> before it tests \<open>InputLen > 0\<close>: when the input is used up it reads
  one character behind it, which ends the loop whatever it is.
\<close>

definition parse_component :: "string ptr \<Rightarrow> string ptr \<Rightarrow> string \<Rightarrow> parse_state \<Rightarrow> parse_state \<times> string" where
  "parse_component DefaultPath DefaultExtension inp s =
     (let c = next_component (Component s) (LastPathReached s); s = s\<lparr>Component := c\<rparr>
      in if c = PATHNAME_COMPONENT
         then let s = s\<lparr>ComponentTerm := CHR ''/''\<rparr>
              in if CHR ''/'' \<in> set inp
                 then (s\<lparr>InputPtr := Some (dropWhile (\<lambda>x. x \<noteq> CHR ''/'') inp)\<rparr>, takeWhile (\<lambda>x. x \<noteq> CHR ''/'') inp)
                 else (s\<lparr>LastPathReached := True\<rparr>,
                       if DefaultPath \<noteq> NULL \<and> OutputLen s = 0 then the DefaultPath else [])
         else if c = FILENAME_COMPONENT
         then let s = s\<lparr>ComponentTerm := CHR ''.''\<rparr>;
                  (s, cmp) =
                    (if CHR ''.'' \<in> set inp
                     then (s\<lparr>InputPtr := Some (dropWhile (\<lambda>x. x \<noteq> CHR ''.'') inp)\<rparr>, takeWhile (\<lambda>x. x \<noteq> CHR ''.'') inp)
                     else (s\<lparr>InputPtr := DefaultExtension, Terminated := True\<rparr>, inp))
              in (if cmp \<noteq> [] \<and> hd cmp \<noteq> NUL then s\<lparr>ParseStatus := CFE_SUCCESS\<rparr> else s, cmp)
         else if c = PATHNAME_SEPARATOR \<or> c = EXTENSION_SEPARATOR
         then let rest = dropWhile (\<lambda>x. x = ComponentTerm s) inp
              in (s\<lparr>OutputLen := strip_term (ComponentTerm s) (OutputBuffer s) (OutputLen s), InputPtr := Some rest,
                    OverRead := OverRead s \<or> rest = [] \<and> \<not> Terminated s\<rparr>, [ComponentTerm s])
         else (s\<lparr>ComponentTerm := NUL, InputPtr := NULL\<rparr>, inp))"

definition parse_append :: "parse_state \<times> string \<Rightarrow> parse_state" where
  "parse_append sc =
     (let (s, cmp) = sc; (full, buf, len) = append_component cmp (OutputBuffer s) (OutputLen s);
          s = s\<lparr>OutputBuffer := buf, OutputLen := len\<rparr>
      in if full then s\<lparr>ParseStatus := CFE_FS_FNAME_TOO_LONG, InputPtr := NULL\<rparr> else s)"

partial_function (option) parse_loop :: "string ptr \<Rightarrow> string ptr \<Rightarrow> parse_state \<Rightarrow> parse_state option" where
  "parse_loop DefaultPath DefaultExtension s =
     (case InputPtr s of NULL \<Rightarrow> Some s
      | Some inp \<Rightarrow>
          if Component s = END_COMPONENT then Some s
          else parse_loop DefaultPath DefaultExtension (parse_append (parse_component DefaultPath DefaultExtension inp s)))"

text \<open>
  The input buffer is given by its first \<open>InputBufSize\<close> characters; the output buffer has \<open>OutputBufSize\<close> characters.
  The default strings are terminated, so that they are lists without the terminator.  The result is the status, the output
  buffer, and whether a character behind the input buffer was read.
\<close>

definition CFE_FS_ParseInputFileNameEx ::
  "string ptr \<Rightarrow> string ptr \<Rightarrow> string ptr \<Rightarrow> string ptr \<Rightarrow> string ptr \<Rightarrow>
     (int32 \<times> string ptr \<times> bool) option" where
  "CFE_FS_ParseInputFileNameEx OutBuf InputBuffer DefaultInput DefaultPath DefaultExtension =
     (if OutBuf = NULL \<or> length (the OutBuf) = 0 then Some (CFE_FS_BAD_ARGUMENT, OutBuf, False)
      else let (inp, terminated) =
                 (case InputBuffer of
                    Some b \<Rightarrow> if 0 < length b \<and> b ! 0 \<noteq> NUL then (Some b, False) else (DefaultInput, True)
                  | NULL \<Rightarrow> (DefaultInput, True));
               s = \<lparr>InputPtr = inp, Component = PROCESS_INIT, ComponentTerm = NUL, LastPathReached = False,
                    ParseStatus = CFE_FS_INVALID_PATH, OutputBuffer = the OutBuf, OutputLen = 0,
                    Terminated = terminated, OverRead = False\<rparr>
           in map_option (\<lambda>s. (ParseStatus s, Some ((OutputBuffer s)[OutputLen s := NUL]), OverRead s))
                (parse_loop DefaultPath DefaultExtension s))"

definition CFE_FS_ParseInputFileName ::
  "FS_Config \<Rightarrow> string ptr \<Rightarrow> string ptr \<Rightarrow> CFE_FS_FileCategory \<Rightarrow> (int32 \<times> string ptr \<times> bool) option" where
  "CFE_FS_ParseInputFileName cfg OutBuf InputName FileCategory =
     CFE_FS_ParseInputFileNameEx OutBuf NULL InputName
       (CFE_FS_GetDefaultMountPoint cfg FileCategory) (CFE_FS_GetDefaultExtension cfg FileCategory)"

text \<open>The place of the last slash, and copying what follows it in front of a terminator.\<close>

fun last_mark :: "nat \<Rightarrow> string \<Rightarrow> nat option \<Rightarrow> nat option" where
  "last_mark i [] r = r"
| "last_mark i (c # cs) r = last_mark (Suc i) cs (if c = CHR ''/'' then Some i else r)"

definition CFE_FS_ExtractFilenameFromPath :: "string ptr \<Rightarrow> string ptr \<Rightarrow> int32 \<times> string ptr" where
  "CFE_FS_ExtractFilenameFromPath OriginalPath FileNameOnly =
     (if OriginalPath = NULL \<or> FileNameOnly = NULL then (CFE_FS_BAD_ARGUMENT, FileNameOnly)
      else let path = the OriginalPath; StringLength = length path; DirMarkIdx = last_mark 0 path None;
               start = (case DirMarkIdx of None \<Rightarrow> 0 | Some i \<Rightarrow> Suc i)
           in if StringLength - start < FS_OS_MAX_PATH_LEN
              then if (case DirMarkIdx of None \<Rightarrow> False | Some i \<Rightarrow> 0 < i)
                   then let name = drop start path @ [NUL]
                        in (CFE_SUCCESS, Some (name @ drop (length name) (the FileNameOnly)))
                   else (CFE_FS_INVALID_PATH, FileNameOnly)
              else (CFE_FS_FNAME_TOO_LONG, FileNameOnly))"

section \<open>Writing files in the background\<close>

datatype CFE_FS_FileWriteEvent =
  CFE_FS_FileWriteEvent_COMPLETE | CFE_FS_FileWriteEvent_CREATE_ERROR | CFE_FS_FileWriteEvent_HEADER_WRITE_ERROR |
  CFE_FS_FileWriteEvent_RECORD_WRITE_ERROR

text \<open>
  The function that gives a record takes its number and the record given before, which stays in the caller's variables
  when the function does not set them; it returns whether this is the last record.  The function that reports events is
  given by a number, with which its calls are recorded.
\<close>

record CFE_FS_FileWriteMetaData =
  IsPending :: bool
  FileName :: string
  FileSubType :: u32
  MetaDescription :: string
  GetData :: "(u32 \<Rightarrow> u8 list \<Rightarrow> bool \<times> u8 list) ptr"
  OnEvent :: "nat ptr"

abbreviation (input) CFE_FS_MAX_BACKGROUND_FILE_WRITES :: nat where "CFE_FS_MAX_BACKGROUND_FILE_WRITES \<equiv> 4"
abbreviation (input) CFE_FS_BACKGROUND_CREDIT_PER_SECOND :: u32 where "CFE_FS_BACKGROUND_CREDIT_PER_SECOND \<equiv> 10000"
abbreviation (input) CFE_FS_BACKGROUND_MAX_CREDIT :: int32 where "CFE_FS_BACKGROUND_MAX_CREDIT \<equiv> 10000"
abbreviation (input) FS_OBJECT_ID_UNDEFINED :: u32 where "FS_OBJECT_ID_UNDEFINED \<equiv> 0"

record CFE_FS_CurrentFileState =
  Fd :: u32
  Credit :: int32
  RecordNum :: u32
  FileSize :: u64

text \<open>
  The global data, where a request is the address of the requester's data, with the memory that holds this data, the open
  file and its name, the files that were closed, and the reports to the requesters: function, data, event, status,
  record number, block size and position.
\<close>

type_synonym fs_report = "nat \<times> nat \<times> CFE_FS_FileWriteEvent \<times> int32 \<times> u32 \<times> u64 \<times> u64"

record CFE_FS_Global =
  RequestCount :: u32
  CompleteCount :: u32
  Entries :: "nat ptr list"
  Current :: CFE_FS_CurrentFileState
  Metas :: "nat \<Rightarrow> CFE_FS_FileWriteMetaData"
  OpenFile :: OS_File
  OpenName :: string
  Closed :: "(string \<times> u8 list) list"
  Reports :: "fs_report list"

text \<open>What creating a file, the writes of its header and of its records return.\<close>

record FS_Answers =
  CreateStatus :: int32
  CreateFd :: u32
  HeaderSeek :: "int32 option"
  HeaderRet :: int32
  RecordRet :: "u32 \<Rightarrow> int32"

definition CFE_FS_EarlyInit :: "int32 \<Rightarrow> CFE_FS_Global \<Rightarrow> int32 \<times> CFE_FS_Global" where
  "CFE_FS_EarlyInit MutexStatus g =
     (MutexStatus,
      g\<lparr>RequestCount := 0, CompleteCount := 0, Entries := replicate CFE_FS_MAX_BACKGROUND_FILE_WRITES NULL,
        Current := \<lparr>Fd = 0, Credit = 0, RecordNum = 0, FileSize = 0\<rparr>\<rparr>)"

abbreviation upd_current :: "(CFE_FS_CurrentFileState \<Rightarrow> CFE_FS_CurrentFileState) \<Rightarrow> CFE_FS_Global \<Rightarrow> CFE_FS_Global" where
  "upd_current f g \<equiv> g\<lparr>Current := f (Current g)\<rparr>"

definition fs_slot :: "u32 \<Rightarrow> nat" where
  "fs_slot count = unat (count AND 3)"

definition fs_report :: "nat \<Rightarrow> CFE_FS_FileWriteEvent \<Rightarrow> int32 \<Rightarrow> u32 \<Rightarrow> u64 \<Rightarrow> u64 \<Rightarrow> CFE_FS_Global \<Rightarrow> CFE_FS_Global" where
  "fs_report m ev Status rec blk pos g = g\<lparr>Reports := Reports g @ [(the (OnEvent (Metas g m)), m, ev, Status, rec, blk, pos)]\<rparr>"

text \<open>\<open>OS_close (State->Fd)\<close> and \<open>State->Fd = OS_OBJECT_ID_UNDEFINED\<close>; closing an undefined descriptor does nothing.\<close>

definition fs_close :: "CFE_FS_Global \<Rightarrow> CFE_FS_Global" where
  "fs_close g =
     (let g = (if Fd (Current g) \<noteq> FS_OBJECT_ID_UNDEFINED then g\<lparr>Closed := Closed g @ [(OpenName g, Content (OpenFile g))]\<rparr> else g)
      in upd_current (\<lambda>c. c\<lparr>Fd := FS_OBJECT_ID_UNDEFINED\<rparr>) g)"

text \<open>The job: the credit and the request to work on, in a locked section.\<close>

definition fs_select :: "u32 \<Rightarrow> CFE_FS_Global \<Rightarrow> nat ptr \<times> CFE_FS_Global" where
  "fs_select ElapsedTime g =
     (let credit = Credit (Current g) + (ElapsedTime * CFE_FS_BACKGROUND_CREDIT_PER_SECOND) div 1000;
          credit = (if CFE_FS_BACKGROUND_MAX_CREDIT <s credit then CFE_FS_BACKGROUND_MAX_CREDIT else credit);
          g = upd_current (\<lambda>c. c\<lparr>Credit := credit\<rparr>) g
      in (if CompleteCount g \<noteq> RequestCount g then Some (fs_slot (CompleteCount g)) else NULL, g))"

text \<open>The first time that a request is processed its file is created and gets its header.  What the
  local variable for the header holds before it is cleared does not matter.\<close>

definition fs_create :: "FS_Env \<Rightarrow> FS_Answers \<Rightarrow> nat \<Rightarrow> CFE_FS_Global \<Rightarrow> CFE_FS_Global" where
  "fs_create env ans m g =
     (let Meta = Metas g m
      in if Fd (Current g) = FS_OBJECT_ID_UNDEFINED \<and> IsPending Meta
         then if CreateStatus ans <s 0
              then fs_report m CFE_FS_FileWriteEvent_CREATE_ERROR (CreateStatus ans) 0 0 0
                     (upd_current (\<lambda>c. c\<lparr>Fd := FS_OBJECT_ID_UNDEFINED\<rparr>) g)
              else let g = upd_current (\<lambda>c. c\<lparr>Fd := CreateFd ans\<rparr>)
                             (g\<lparr>OpenFile := \<lparr>Content = [], Position = 0\<rparr>, OpenName := cstring (FileName Meta)\<rparr>);
                       FileHdr = CFE_FS_InitHeader (Some (header_of False (replicate 64 0))) (Some (MetaDescription Meta)) (FileSubType Meta);
                       (Status, f, _) = CFE_FS_WriteHeader env (HeaderSeek ans) (HeaderRet ans) (OpenFile g) FileHdr;
                       g = g\<lparr>OpenFile := f\<rparr>
                   in if Status \<noteq> of_nat sizeof_CFE_FS_Header
                      then let g = fs_close g
                           in fs_report m CFE_FS_FileWriteEvent_HEADER_WRITE_ERROR Status (RecordNum (Current g))
                                (of_nat sizeof_CFE_FS_Header) (FileSize (Current g)) g
                      else upd_current (\<lambda>c. c\<lparr>FileSize := of_nat sizeof_CFE_FS_Header,
                             Credit := Credit c - of_nat sizeof_CFE_FS_Header, RecordNum := 0\<rparr>) g
         else g)"

text \<open>The loop over records; it gives \<open>IsEOF\<close> at its end.  A getter that never has data or an end keeps it going.\<close>

partial_function (option) fs_write_loop ::
  "FS_Answers \<Rightarrow> nat \<Rightarrow> bool \<Rightarrow> u8 list \<Rightarrow> CFE_FS_Global \<Rightarrow> (bool \<times> CFE_FS_Global) option" where
  "fs_write_loop ans m IsEOF rec g =
     (if Fd (Current g) \<noteq> FS_OBJECT_ID_UNDEFINED \<and> 0 <s Credit (Current g) \<and> \<not> IsEOF
      then let n = RecordNum (Current g); (IsEOF, rec) = the (GetData (Metas g m)) n rec
           in if 0 < length rec
              then let g = upd_current (\<lambda>c. c\<lparr>Credit := Credit c - of_nat (length rec)\<rparr>) g;
                       (Status, f) = OS_write (RecordRet ans n) rec (OpenFile g);
                       g = g\<lparr>OpenFile := f\<rparr>
                   in if scast Status \<noteq> (of_nat (length rec) :: u64)
                      then Some (IsEOF, fs_report m CFE_FS_FileWriteEvent_RECORD_WRITE_ERROR Status n (of_nat (length rec))
                             (FileSize (Current g)) (fs_close g))
                      else fs_write_loop ans m IsEOF rec
                             (upd_current (\<lambda>c. c\<lparr>FileSize := FileSize c + of_nat (length rec), RecordNum := RecordNum c + 1\<rparr>) g)
              else fs_write_loop ans m IsEOF rec (upd_current (\<lambda>c. c\<lparr>RecordNum := RecordNum c + 1\<rparr>) g)
      else Some (IsEOF, g))"

text \<open>The section without the lock: creating the file, the records and, at the end, closing it.\<close>

definition fs_work :: "FS_Env \<Rightarrow> FS_Answers \<Rightarrow> nat \<Rightarrow> CFE_FS_Global \<Rightarrow> (bool \<times> CFE_FS_Global) option" where
  "fs_work env ans m g =
     (case fs_write_loop ans m False [] (fs_create env ans m g) of None \<Rightarrow> None
      | Some (IsEOF, g) \<Rightarrow>
          Some (IsEOF,
                if IsEOF
                then let g = fs_close g
                     in fs_report m CFE_FS_FileWriteEvent_COMPLETE CFE_SUCCESS (RecordNum (Current g)) 0 (FileSize (Current g)) g
                else g))"

text \<open>The last section, locked again: without an open file the request is done.\<close>

definition fs_finish :: "nat \<Rightarrow> nat \<Rightarrow> CFE_FS_Global \<Rightarrow> CFE_FS_Global" where
  "fs_finish slot m g =
     (if Fd (Current g) = FS_OBJECT_ID_UNDEFINED
      then g\<lparr>Entries := (Entries g)[slot := NULL], CompleteCount := CompleteCount g + 1,
             Metas := (Metas g)(m := (Metas g m)\<lparr>IsPending := False\<rparr>)\<rparr>
      else g)"

definition CFE_FS_RunBackgroundFileDump ::
  "FS_Env \<Rightarrow> FS_Answers \<Rightarrow> u32 \<Rightarrow> CFE_FS_Global \<Rightarrow> (bool \<times> CFE_FS_Global) option" where
  "CFE_FS_RunBackgroundFileDump env ans ElapsedTime g =
     (case fs_select ElapsedTime g of
        (NULL, g) \<Rightarrow> Some (False, g)
      | (Some slot, g) \<Rightarrow>
          let m = the (Entries g ! slot)
          in case fs_work env ans m g of None \<Rightarrow> None | Some (IsEOF, g) \<Rightarrow> Some (\<not> IsEOF, fs_finish slot m g))"

text \<open>
  Posting a request.  The caller's data is checked without the lock; the section with the lock that follows does not look at
  it again.
\<close>

definition request_check :: "nat ptr \<Rightarrow> CFE_FS_Global \<Rightarrow> int32" where
  "request_check Meta g =
     (if Meta = NULL then CFE_FS_BAD_ARGUMENT
      else let md = Metas g (the Meta)
           in if GetData md = NULL \<or> OnEvent md = NULL then CFE_FS_BAD_ARGUMENT
              else if cstring (FileName md) = [] then CFE_FS_INVALID_PATH
              else if IsPending md then CFE_STATUS_REQUEST_ALREADY_PENDING
              else CFE_SUCCESS)"

definition request_post :: "nat \<Rightarrow> CFE_FS_Global \<Rightarrow> int32 \<times> CFE_FS_Global" where
  "request_post m g =
     (let PendingRequestCount = RequestCount g + 1
      in if PendingRequestCount = CompleteCount g + of_nat CFE_FS_MAX_BACKGROUND_FILE_WRITES
         then (CFE_STATUS_REQUEST_ALREADY_PENDING, g)
         else (CFE_SUCCESS,
               g\<lparr>Entries := (Entries g)[fs_slot (RequestCount g) := Some m],
                 Metas := (Metas g)(m := (Metas g m)\<lparr>IsPending := True\<rparr>),
                 RequestCount := PendingRequestCount\<rparr>))"

definition CFE_FS_BackgroundFileDumpRequest :: "nat ptr \<Rightarrow> CFE_FS_Global \<Rightarrow> int32 \<times> CFE_FS_Global" where
  "CFE_FS_BackgroundFileDumpRequest Meta g =
     (let Status = request_check Meta g in if Status \<noteq> CFE_SUCCESS then (Status, g) else request_post (the Meta) g)"

definition CFE_FS_BackgroundFileDumpIsPending :: "nat ptr \<Rightarrow> CFE_FS_Global \<Rightarrow> bool" where
  "CFE_FS_BackgroundFileDumpIsPending Meta g = (case Meta of NULL \<Rightarrow> False | Some m \<Rightarrow> IsPending (Metas g m))"

end
