(* ===== verification/CFE_FS_Name.thy ===== *)
theory CFE_FS_Name
  imports CFE_FS "HOL-Library.Sublist"
begin

unbundle bit_operations_syntax

text \<open>
  File names: what \<open>CFE_FS_ParseInputFileNameEx\<close> makes of an input, described without its loop, and what
  \<open>CFE_FS_ExtractFilenameFromPath\<close> finds.
\<close>

section \<open>The intended name\<close>

text \<open>The part of a name up to its last slash, and the part behind it.\<close>

definition dir_part :: "string \<Rightarrow> string" where
  "dir_part s = rev (dropWhile (\<lambda>c. c \<noteq> CHR ''/'') (rev s))"

definition base_part :: "string \<Rightarrow> string" where
  "base_part s = rev (takeWhile (\<lambda>c. c \<noteq> CHR ''/'') (rev s))"

text \<open>Several slashes in a row count as one.\<close>

fun squeeze :: "string \<Rightarrow> string" where
  "squeeze [] = []"
| "squeeze [a] = [a]"
| "squeeze (a # b # s) = (if a = CHR ''/'' \<and> b = CHR ''/'' then squeeze (b # s) else a # squeeze (b # s))"

definition strip_end :: "char \<Rightarrow> string \<Rightarrow> string" where
  "strip_end t s = rev (dropWhile (\<lambda>c. c = t) (rev s))"

definition file_stem :: "string \<Rightarrow> string" where
  "file_stem s = takeWhile (\<lambda>c. c \<noteq> CHR ''.'') (base_part s)"

definition full_suffix :: "string ptr \<Rightarrow> string \<Rightarrow> string" where
  "full_suffix DefaultExtension b =
     (if CHR ''.'' \<in> set b
      then takeWhile (\<lambda>c. c \<noteq> CHR ''.'') b @ ''.'' @ dropWhile (\<lambda>c. c = CHR ''.'') (dropWhile (\<lambda>c. c \<noteq> CHR ''.'') b)
      else b @ (case DefaultExtension of NULL \<Rightarrow> [] | Some e \<Rightarrow> ''.'' @ dropWhile (\<lambda>c. c = CHR ''.'') e))"

definition full_prefix :: "string ptr \<Rightarrow> string \<Rightarrow> string" where
  "full_prefix DefaultPath s =
     (if CHR ''/'' \<in> set s then squeeze (dir_part s)
      else strip_end (CHR ''/'') (case DefaultPath of NULL \<Rightarrow> [] | Some p \<Rightarrow> p) @ ''/'')"

definition full_name :: "string ptr \<Rightarrow> string ptr \<Rightarrow> string \<Rightarrow> string" where
  "full_name DefaultPath DefaultExtension s = full_prefix DefaultPath s @ full_suffix DefaultExtension (base_part s)"

section \<open>The intended name, one component at a time\<close>

lemma no_slash_parts:
  assumes "CHR ''/'' \<notin> set s"
  shows "dir_part s = [] \<and> base_part s = s"
proof -
  have a: "\<forall>c \<in> set (rev s). c \<noteq> CHR ''/''" using assms by auto
  have "takeWhile (\<lambda>c. c \<noteq> CHR ''/'') (rev s) = rev s" using a by (simp only: takeWhile_eq_all_conv)
  moreover have "dropWhile (\<lambda>c. c \<noteq> CHR ''/'') (rev s) = []" using a by (simp only: dropWhile_eq_Nil_conv)
  ultimately show ?thesis unfolding dir_part_def base_part_def by (simp only: rev_rev_ident rev.simps)
qed

lemma parts_append: "dir_part (x @ ''/'' @ s) = x @ ''/'' @ dir_part s \<and> base_part (x @ ''/'' @ s) = base_part s"
proof (cases "CHR ''/'' \<in> set s")
  case True
  then show ?thesis by (auto simp: dir_part_def base_part_def dropWhile_append takeWhile_append)
next
  case False
  then show ?thesis using no_slash_parts [OF False]
    by (auto simp: dir_part_def base_part_def dropWhile_append takeWhile_append)
qed

lemma squeeze_no_slash: "CHR ''/'' \<notin> set x \<Longrightarrow> squeeze (x @ CHR ''/'' # s) = x @ squeeze (CHR ''/'' # s)"
proof (induction x)
  case (Cons a x)
  then show ?case by (cases x) auto
qed simp

lemma squeeze_slashes: "squeeze (CHR ''/'' # s) = CHR ''/'' # squeeze (dropWhile (\<lambda>c. c = CHR ''/'') s)"
proof (induction s)
  case (Cons a s)
  then show ?case by (cases s) auto
qed simp

lemma dir_part_slashes: "dir_part (dropWhile (\<lambda>c. c = CHR ''/'') s) = dropWhile (\<lambda>c. c = CHR ''/'') (dir_part s)
  \<and> base_part (dropWhile (\<lambda>c. c = CHR ''/'') s) = base_part s"
proof (induction s)
  case (Cons a s)
  show ?case
  proof (cases "a = CHR ''/''")
    case True
    then have "dir_part (a # s) = CHR ''/'' # dir_part s" "base_part (a # s) = base_part s" using parts_append [of "[]" s] by simp_all
    then show ?thesis using Cons True by simp
  next
    case False
    have "dropWhile (\<lambda>c. c = CHR ''/'') (dir_part (a # s)) = dir_part (a # s)"
    proof (cases "CHR ''/'' \<in> set s")
      case True
      then have "dir_part (a # s) = a # dir_part s" by (simp add: dir_part_def dropWhile_append)
      then show ?thesis using False by simp
    next
      case s: False
      then show ?thesis using no_slash_parts [of "a # s"] False by simp
    qed
    then show ?thesis using False by simp
  qed
qed (simp add: dir_part_def base_part_def)

lemma split_slash:
  assumes "CHR ''/'' \<in> set s"
  shows "\<exists>r. s = takeWhile (\<lambda>c. c \<noteq> CHR ''/'') s @ CHR ''/'' # r \<and> dropWhile (\<lambda>c. c \<noteq> CHR ''/'') s = CHR ''/'' # r"
proof -
  have "dropWhile (\<lambda>c. c \<noteq> CHR ''/'') s \<noteq> []" using assms by auto
  then obtain a r where r: "dropWhile (\<lambda>c. c \<noteq> CHR ''/'') s = a # r" by (meson neq_Nil_conv)
  then have "a = CHR ''/''" using hd_dropWhile [of "\<lambda>c. c \<noteq> CHR ''/''" s] by auto
  then show ?thesis using r by (metis takeWhile_dropWhile_id)
qed

lemma next_path_part:
  assumes "CHR ''/'' \<in> set s"
  defines "rest \<equiv> dropWhile (\<lambda>c. c = CHR ''/'') (dropWhile (\<lambda>c. c \<noteq> CHR ''/'') s)"
  shows "squeeze (dir_part s) = takeWhile (\<lambda>c. c \<noteq> CHR ''/'') s @ ''/'' @ squeeze (dir_part rest)"
    and "base_part rest = base_part s" and "length rest < length s"
proof -
  let ?x = "takeWhile (\<lambda>c. c \<noteq> CHR ''/'') s"
  obtain r where r: "s = ?x @ CHR ''/'' # r" "dropWhile (\<lambda>c. c \<noteq> CHR ''/'') s = CHR ''/'' # r" using split_slash [OF assms(1)] by blast
  have rest: "rest = dropWhile (\<lambda>c. c = CHR ''/'') r" using r(2) by (simp add: rest_def)
  have p: "dir_part s = ?x @ CHR ''/'' # dir_part r" "base_part s = base_part r" using parts_append [of ?x r] r(1) by simp_all
  have "CHR ''/'' \<notin> set ?x" by (auto dest: set_takeWhileD)
  then show "squeeze (dir_part s) = ?x @ ''/'' @ squeeze (dir_part rest)"
    using p rest dir_part_slashes [of r] by (simp add: squeeze_no_slash squeeze_slashes)
  show "base_part rest = base_part s" using p rest dir_part_slashes [of r] by simp
  have "length rest \<le> length r" using rest length_dropWhile_le [of "\<lambda>c. c = CHR ''/''" r] by simp
  then show "length rest < length s" by (subst r(1)) simp
qed

section \<open>The output buffer\<close>

definition holds :: "nat \<Rightarrow> parse_state \<Rightarrow> string \<Rightarrow> bool" where
  "holds cap s out \<longleftrightarrow> length (OutputBuffer s) = cap \<and> OutputLen s = length out \<and> length out < cap \<and>
     take (length out) (OutputBuffer s) = out"

lemma append_component_cstring: "append_component (cstring cmp) buf len = append_component cmp buf len"
  by (induction cmp buf len rule: append_component.induct) (auto simp: cstring_def)

lemma append_component_fits:
  "NUL \<notin> set cmp \<Longrightarrow> len + length cmp < length buf \<Longrightarrow>
   append_component cmp buf len = (False, take len buf @ cmp @ drop (len + length cmp) buf, len + length cmp)"
proof (induction cmp arbitrary: buf len)
  case (Cons c cs)
  have "take (Suc len) (buf[len := c]) = take len buf @ [c]" using Cons.prems by (simp add: take_Suc_conv_app_nth)
  then show ?case using Cons by auto
qed simp

lemma append_component_full:
  "NUL \<notin> set cmp \<Longrightarrow> len < length buf \<Longrightarrow> length buf \<le> len + length cmp \<Longrightarrow>
   \<exists>buf'. append_component cmp buf len = (True, buf', length buf - 1) \<and> length buf' = length buf \<and>
     take (length buf - 1) buf' = take (length buf - 1) (take len buf @ cmp)"
proof (induction cmp arbitrary: buf len)
  case (Cons c cs)
  show ?case
  proof (cases "length buf \<le> Suc len")
    case True
    then have "len = length buf - 1" using Cons.prems by simp
    then show ?thesis using Cons.prems True by (auto simp: take_append)
  next
    case False
    have t: "take (Suc len) (buf[len := c]) = take len buf @ [c]" using False by (simp add: take_Suc_conv_app_nth)
    obtain buf' where "append_component cs (buf[len := c]) (Suc len) = (True, buf', length buf - 1)" "length buf' = length buf"
      "take (length buf - 1) buf' = take (length buf - 1) (take (Suc len) (buf[len := c]) @ cs)"
      using Cons.IH [where buf = "buf[len := c]" and len = "Suc len"] Cons.prems False by auto
    then show ?thesis using False Cons.prems(1) by (auto simp: t)
  qed
qed simp

lemma strip_end_snoc: "strip_end t (s @ [c]) = (if c = t then strip_end t s else s @ [c])"
  by (simp add: strip_end_def)

lemma strip_term_strip_end:
  "n \<le> length buf \<Longrightarrow> strip_term t buf n = length (strip_end t (take n buf)) \<and> prefix (strip_end t (take n buf)) (take n buf)"
proof (induction n)
  case (Suc n)
  then have "take (Suc n) buf = take n buf @ [buf ! n]" by (simp add: take_Suc_conv_app_nth)
  then show ?case using Suc by (auto simp: strip_end_snoc)
qed (simp add: strip_end_def)

text \<open>
  What the loop has done when it ends: the output is the name \<open>t\<close>, or its start when it does not fit, and, if \<open>inside\<close>, no
  character behind the input has been read.
\<close>

definition outcome :: "nat \<Rightarrow> string \<Rightarrow> int32 \<Rightarrow> bool \<Rightarrow> parse_state option \<Rightarrow> bool" where
  "outcome cap t st inside r \<longleftrightarrow> (\<exists>s'. r = Some s' \<and> length (OutputBuffer s') = cap \<and>
     (if length t < cap then OutputLen s' = length t \<and> take (length t) (OutputBuffer s') = t \<and> ParseStatus s' = st
      else OutputLen s' = cap - 1 \<and> take (cap - 1) (OutputBuffer s') = take (cap - 1) t \<and>
           ParseStatus s' = CFE_FS_FNAME_TOO_LONG) \<and> (inside \<longrightarrow> \<not> OverRead s'))"

lemma outcome_end: "holds cap s t \<Longrightarrow> inside \<longrightarrow> \<not> OverRead s \<Longrightarrow> outcome cap t (ParseStatus s) inside (Some s)"
  by (auto simp: outcome_def holds_def)

text \<open>Appending a component: either the loop goes on with a longer output or it ends with a full buffer.\<close>

lemma append_step:
  assumes h: "holds cap s out" and p: "prefix (out @ cstring cmp) t" and ov: "inside \<longrightarrow> \<not> OverRead s"
    and go: "\<And>b. holds cap (s\<lparr>OutputBuffer := b, OutputLen := length (out @ cstring cmp)\<rparr>) (out @ cstring cmp) \<Longrightarrow>
      outcome cap t st inside (parse_loop dp de (s\<lparr>OutputBuffer := b, OutputLen := length (out @ cstring cmp)\<rparr>))"
  shows "outcome cap t st inside (parse_loop dp de (parse_append (s, cmp)))"
proof -
  let ?c = "cstring cmp"
  have nz: "NUL \<notin> set ?c" by (auto simp: cstring_def dest: set_takeWhileD)
  have s: "length (OutputBuffer s) = cap" "OutputLen s = length out" "length out < cap" "take (length out) (OutputBuffer s) = out"
    using h by (simp_all add: holds_def)
  show ?thesis
  proof (cases "length out + length ?c < cap")
    case True
    let ?b = "out @ ?c @ drop (length out + length ?c) (OutputBuffer s)"
    have "append_component cmp (OutputBuffer s) (OutputLen s) = (False, ?b, length out + length ?c)"
      using append_component_fits [OF nz, of "OutputLen s" "OutputBuffer s"] True s by (simp add: append_component_cstring)
    then have "parse_append (s, cmp) = s\<lparr>OutputBuffer := ?b, OutputLen := length (out @ ?c)\<rparr>"
      by (simp add: parse_append_def)
    moreover have "holds cap (s\<lparr>OutputBuffer := ?b, OutputLen := length (out @ ?c)\<rparr>) (out @ ?c)"
      using True s by (simp add: holds_def)
    ultimately show ?thesis using go by simp
  next
    case False
    obtain b where b: "append_component cmp (OutputBuffer s) (OutputLen s) = (True, b, cap - 1)" "length b = cap"
      "take (cap - 1) b = take (cap - 1) (out @ ?c)"
      using append_component_full [OF nz, of "OutputLen s" "OutputBuffer s"] False s by (auto simp: append_component_cstring)
    obtain u where t: "t = (out @ ?c) @ u" using p by (auto elim: prefixE)
    have "\<not> length t < cap" using False t by simp
    moreover have "take (cap - 1) t = take (cap - 1) (out @ ?c)" using False t by simp
    ultimately show ?thesis using b ov
      by (simp add: parse_append_def parse_loop.simps outcome_def)
  qed
qed

section \<open>The components of a name\<close>

abbreviation zeros :: "nat \<Rightarrow> string" where
  "zeros k \<equiv> replicate k NUL"

lemma cstring_zeros: "NUL \<notin> set s \<Longrightarrow> cstring (s @ zeros k) = s"
  by (rule cstring_padded)

lemma zeros_while:
  assumes "t \<noteq> NUL"
  shows "t \<in> set (s @ zeros k) \<longleftrightarrow> t \<in> set s"
    and "t \<in> set s \<Longrightarrow> takeWhile (\<lambda>c. c \<noteq> t) (s @ zeros k) = takeWhile (\<lambda>c. c \<noteq> t) s"
    and "t \<in> set s \<Longrightarrow> dropWhile (\<lambda>c. c \<noteq> t) (s @ zeros k) = dropWhile (\<lambda>c. c \<noteq> t) s @ zeros k"
    and "dropWhile (\<lambda>c. c = t) (s @ zeros k) = dropWhile (\<lambda>c. c = t) s @ zeros k"
  using assms by (auto simp: takeWhile_append dropWhile_append dropWhile_eq_self_iff)

text \<open>The extension, which is the last component.\<close>

lemma ext_phase:
  assumes "holds cap s out" "InputPtr s = Some (e @ zeros k)" "Component s = EXTENSION_SEPARATOR" "NUL \<notin> set e"
    and ov: "inside \<longrightarrow> \<not> OverRead s"
  shows "outcome cap (out @ e) (ParseStatus s) inside (parse_loop dp de s)"
proof -
  let ?s = "s\<lparr>Component := EXTENSION_COMPONENT, ComponentTerm := NUL, InputPtr := NULL\<rparr>"
  have "parse_component dp de (e @ zeros k) s = (?s, e @ zeros k)"
    using assms by (simp add: parse_component_def next_component_def)
  then have eq: "parse_loop dp de s = parse_loop dp de (parse_append (?s, e @ zeros k))"
    using assms by (subst parse_loop.simps) simp
  have c: "cstring (e @ zeros k) = e" by (rule cstring_zeros [OF assms(4)])
  show ?thesis unfolding eq
  proof (rule append_step)
    show "holds cap ?s out" using assms(1) by (simp add: holds_def)
    show "prefix (out @ cstring (e @ zeros k)) (out @ e)" by (simp add: c)
    show "inside \<longrightarrow> \<not> OverRead ?s" using ov by simp
    fix b
    let ?u = "?s\<lparr>OutputBuffer := b, OutputLen := length (out @ cstring (e @ zeros k))\<rparr>"
    assume h: "holds cap ?u (out @ cstring (e @ zeros k))"
    have "parse_loop dp de ?u = Some ?u" by (simp add: parse_loop.simps)
    then show "outcome cap (out @ e) (ParseStatus s) inside (parse_loop dp de ?u)"
      using outcome_end [OF h, of inside] ov by (simp add: c)
  qed
qed

text \<open>
  The input is followed by a character that may be read: the zero of a string or of the field, or its last one is no separator, so
  that no loop runs to its end.
\<close>

definition tail_ok :: "parse_state \<Rightarrow> string \<Rightarrow> nat \<Rightarrow> bool" where
  "tail_ok s e k \<longleftrightarrow> \<not> OverRead s \<and> (Terminated s \<or> 0 < k \<or> e \<noteq> [] \<and> last e \<noteq> CHR ''/'' \<and> last e \<noteq> CHR ''.'')"

lemma last_dropWhile: "dropWhile P e \<noteq> [] \<Longrightarrow> last (dropWhile P e) = last e"
  by (metis last_appendR takeWhile_dropWhile_id)

lemma tail_ok_suffix:
  "tail_ok s e k \<Longrightarrow> OverRead s' = OverRead s \<Longrightarrow> Terminated s' = Terminated s \<Longrightarrow> dropWhile P e \<noteq> [] \<Longrightarrow> tail_ok s' (dropWhile P e) k"
  by (auto simp: tail_ok_def last_dropWhile)

text \<open>A separator: terminators at the end of the output and at the start of the input are dropped, and one is written.\<close>

definition after_sep :: "component \<Rightarrow> char \<Rightarrow> string \<Rightarrow> string \<Rightarrow> string \<Rightarrow> parse_state \<Rightarrow> parse_state" where
  "after_sep c t out inp b s = s\<lparr>Component := c, InputPtr := Some inp, OverRead := OverRead s \<or> inp = [] \<and> \<not> Terminated s,
     OutputBuffer := b, OutputLen := length (strip_end t out @ [t])\<rparr>"

lemma tail_sep:
  assumes "tail_ok s e k" and "t = CHR ''/'' \<or> t = CHR ''.''"
  shows "tail_ok (after_sep c t out (dropWhile (\<lambda>x. x = t) e @ zeros k) b s) (dropWhile (\<lambda>x. x = t) e) k"
proof -
  have "dropWhile (\<lambda>x. x = t) e \<noteq> []" if "e \<noteq> []" "last e \<noteq> t" using that last_in_set [of e] by auto
  then show ?thesis using assms last_dropWhile [of "\<lambda>x. x = t" e] by (auto simp: tail_ok_def after_sep_def)
qed

lemma sep_phase:
  assumes h: "holds cap s out" "InputPtr s = Some (e @ zeros k)" and t: "ComponentTerm s = t" "t \<noteq> NUL" "t = CHR ''/'' \<or> t = CHR ''.''" and ov: "inside \<longrightarrow> tail_ok s e k"
    and c: "c = next_component (Component s) (LastPathReached s)" "c = EXTENSION_SEPARATOR \<or> c = PATHNAME_SEPARATOR"
    and p: "prefix (strip_end t out @ [t]) f"
    and go: "\<And>b. holds cap (after_sep c t out (dropWhile (\<lambda>x. x = t) e @ zeros k) b s) (strip_end t out @ [t]) \<Longrightarrow>
      outcome cap f st inside (parse_loop dp de (after_sep c t out (dropWhile (\<lambda>x. x = t) e @ zeros k) b s))"
  shows "outcome cap f st inside (parse_loop dp de s)"
proof -
  let ?rest = "dropWhile (\<lambda>x. x = t) e @ zeros k"
  let ?s = "s\<lparr>Component := c, OutputLen := strip_term t (OutputBuffer s) (OutputLen s), InputPtr := Some ?rest,
    OverRead := OverRead s \<or> ?rest = [] \<and> \<not> Terminated s\<rparr>"
  have "Component s \<noteq> END_COMPONENT" using c by (auto simp: next_component_def)
  moreover have "parse_component dp de (e @ zeros k) s = (?s, [t])"
    using c t zeros_while(4) [OF t(2), of e k] unfolding parse_component_def Let_def c(1) [symmetric] by auto
  ultimately have eq: "parse_loop dp de s = parse_loop dp de (parse_append (?s, [t]))"
    using h by (subst parse_loop.simps) simp
  have ct: "cstring [t] = [t]" using t(2) by (simp add: cstring_def)
  have out: "take (OutputLen s) (OutputBuffer s) = out" "OutputLen s \<le> length (OutputBuffer s)" using h(1) by (auto simp: holds_def)
  have strip: "strip_term t (OutputBuffer s) (OutputLen s) = length (strip_end t out)" "prefix (strip_end t out) out"
    using strip_term_strip_end [OF out(2), of t] out(1) by simp_all
  have hs: "holds cap ?s (strip_end t out)"
  proof -
    obtain u where u: "out = strip_end t out @ u" using strip(2) by (auto elim: prefixE)
    have "take (length (strip_end t out)) (take (length out) (OutputBuffer s)) = take (length (strip_end t out)) out"
      using h(1) by (simp add: holds_def)
    also have "\<dots> = strip_end t out" by (subst (2) u) simp
    finally have "take (length (strip_end t out)) (OutputBuffer s) = strip_end t out"
      using prefix_length_le [OF strip(2)] by simp
    then show ?thesis using h(1) strip prefix_length_le [OF strip(2)] by (simp add: holds_def)
  qed
  show ?thesis unfolding eq
  proof (rule append_step [OF hs])
    show "prefix (strip_end t out @ cstring [t]) f" using p by (simp add: ct)
    show "inside \<longrightarrow> \<not> OverRead ?s" using ov tail_sep [OF _ t(3), of s e k c out b] by (auto simp: tail_ok_def after_sep_def)
    fix b
    assume "holds cap (?s\<lparr>OutputBuffer := b, OutputLen := length (strip_end t out @ cstring [t])\<rparr>) (strip_end t out @ cstring [t])"
    then show "outcome cap f st inside (parse_loop dp de (?s\<lparr>OutputBuffer := b, OutputLen := length (strip_end t out @ cstring [t])\<rparr>))"
      using go [of b] by (simp add: after_sep_def ct)
  qed
qed

text \<open>The name of the file, with the extension behind it.\<close>

lemma file_phase:
  assumes h: "holds cap s (x @ ''/'')" "InputPtr s = Some (e @ zeros k)" "NUL \<notin> set e"
    and c: "Component s = PATHNAME_SEPARATOR" "LastPathReached s" and de: "\<And>d. de = Some d \<Longrightarrow> NUL \<notin> set d"
    and ov: "inside \<longrightarrow> tail_ok s e k"
  shows "outcome cap (x @ ''/'' @ full_suffix de e)
    (if takeWhile (\<lambda>c. c \<noteq> CHR ''.'') e \<noteq> [] then CFE_SUCCESS else ParseStatus s) inside (parse_loop dp de s)"
  supply takeWhile_eq_all_conv [simp del]
proof -
  let ?stem = "takeWhile (\<lambda>c. c \<noteq> CHR ''.'') e"
  let ?st = "if ?stem \<noteq> [] then CFE_SUCCESS else ParseStatus s"
  let ?inp = "if CHR ''.'' \<in> set e then Some (dropWhile (\<lambda>c. c \<noteq> CHR ''.'') e @ zeros k) else de"
  let ?cmp = "if CHR ''.'' \<in> set e then ?stem else e @ zeros k"
  let ?s = "s\<lparr>Component := FILENAME_COMPONENT, ComponentTerm := CHR ''.'', InputPtr := ?inp, ParseStatus := ?st,
    Terminated := Terminated s \<or> CHR ''.'' \<notin> set e\<rparr>"
  have stem: "NUL \<notin> set ?stem" using h(3) by (auto dest: set_takeWhileD)
  have nodot: "?stem = e" if "CHR ''.'' \<notin> set e" using that by (simp only: takeWhile_eq_all_conv) blast
  have cc: "cstring ?cmp = ?stem"
    using nodot cstring_zeros [OF h(3), of k] cstring_id [OF stem] by (cases "CHR ''.'' \<in> set e") simp_all
  have ne: "(?cmp \<noteq> [] \<and> hd ?cmp \<noteq> NUL) = (?stem \<noteq> [])"
  proof (cases "CHR ''.'' \<in> set e")
    case True
    then show ?thesis using stem by (cases ?stem) auto
  next
    case False
    then show ?thesis using nodot [OF False] h(3) by (cases e; cases k) auto
  qed
  have "parse_component dp de (e @ zeros k) s = (?s, ?cmp)"
  proof (cases "CHR ''.'' \<in> set e")
    case True
    then show ?thesis using c ne zeros_while(1-3) [of "CHR ''.''" e k] by (simp add: parse_component_def next_component_def Let_def)
  next
    case False
    then show ?thesis using c ne zeros_while(1) [of "CHR ''.''" e k] by (simp add: parse_component_def next_component_def Let_def)
  qed
  then have eq: "parse_loop dp de s = parse_loop dp de (parse_append (?s, ?cmp))"
    using h c by (subst parse_loop.simps) simp
  have suffix: "full_suffix de e = ?stem @ (case ?inp of NULL \<Rightarrow> [] | Some d \<Rightarrow> ''.'' @ dropWhile (\<lambda>c. c = CHR ''.'') (cstring d))"
  proof (cases "CHR ''.'' \<in> set e")
    case True
    have "NUL \<notin> set (dropWhile (\<lambda>c. c \<noteq> CHR ''.'') e)" using h(3) by (blast dest: set_dropWhileD)
    then show ?thesis using True cstring_zeros [of "dropWhile (\<lambda>c. c \<noteq> CHR ''.'') e" k] by (simp add: full_suffix_def)
  next
    case False
    then show ?thesis using nodot [OF False] de by (cases de) (simp_all add: full_suffix_def cstring_id)
  qed
  show ?thesis unfolding eq
  proof (rule append_step)
    show "holds cap ?s (x @ ''/'')" using h(1) by (simp add: holds_def)
    show "prefix ((x @ ''/'') @ cstring ?cmp) (x @ ''/'' @ full_suffix de e)" by (simp add: cc suffix)
    show "inside \<longrightarrow> \<not> OverRead ?s" using ov by (simp add: tail_ok_def)
    fix b
    let ?out = "(x @ ''/'') @ cstring ?cmp"
    let ?u = "?s\<lparr>OutputBuffer := b, OutputLen := length ?out\<rparr>"
    assume u: "holds cap ?u ?out"
    have so: "strip_end (CHR ''.'') ?out = ?out"
    proof (cases ?stem rule: rev_cases)
      case (snoc y c)
      have "c \<in> set ?stem" unfolding snoc by simp
      then have "c \<noteq> CHR ''.''" by (auto dest: set_takeWhileD)
      then show ?thesis using snoc strip_end_snoc [of "CHR ''.''" "x @ ''/'' @ y" c] by (simp add: cc)
    qed (use strip_end_snoc [of "CHR ''.''" x "CHR ''/''"] in \<open>simp add: cc\<close>)
    show "outcome cap (x @ ''/'' @ full_suffix de e) ?st inside (parse_loop dp de ?u)"
    proof (cases ?inp)
      case None
      then have "parse_loop dp de ?u = Some ?u" by (simp add: parse_loop.simps)
      then show ?thesis using outcome_end [OF u, of inside] None ov by (simp add: suffix cc tail_ok_def)
    next
      case (Some d)
      obtain d' k' where d: "d = d' @ zeros k'" "NUL \<notin> set d'" and ovd: "inside \<longrightarrow> tail_ok ?u d' k'"
      proof (cases "CHR ''.'' \<in> set e")
        case True
        let ?d = "dropWhile (\<lambda>c. c \<noteq> CHR ''.'') e"
        have "?d \<noteq> []" using True by auto
        then have "inside \<longrightarrow> tail_ok ?u ?d k" using ov tail_ok_suffix [of s e k ?u "\<lambda>c. c \<noteq> CHR ''.''"] True by simp
        then show ?thesis using that [of ?d k] Some h(3) True by (auto dest: set_dropWhileD)
      next
        case False
        then have "inside \<longrightarrow> tail_ok ?u d 0" using ov by (simp add: tail_ok_def)
        then show ?thesis using that [of d 0] Some de False by auto
      qed
      let ?r = "dropWhile (\<lambda>c. c = CHR ''.'') d'"
      have f: "x @ ''/'' @ full_suffix de e = ?out @ ''.'' @ ?r"
        using Some d by (simp add: suffix cc cstring_zeros)
      show ?thesis unfolding f
      proof (rule sep_phase [OF u, where e = d' and k = k' and t = "CHR ''.''" and c = EXTENSION_SEPARATOR])
        fix b' let ?v = "after_sep EXTENSION_SEPARATOR (CHR ''.'') ?out (?r @ zeros k') b' ?u"
        assume v: "holds cap ?v (strip_end (CHR ''.'') ?out @ [CHR ''.''])"
        have nz: "NUL \<notin> set ?r" using d(2) by (auto dest: set_dropWhileD)
        have v': "InputPtr ?v = Some (?r @ zeros k')" "Component ?v = EXTENSION_SEPARATOR" "ParseStatus ?v = ?st"
          by (simp_all add: after_sep_def)
        have ovv: "inside \<longrightarrow> \<not> OverRead ?v"
          using ovd tail_sep [of ?u d' k' "CHR ''.''" EXTENSION_SEPARATOR ?out b'] by (simp add: tail_ok_def)
        have "outcome cap ((?out @ ''.'') @ ?r) ?st inside (parse_loop dp de ?v)"
          using ext_phase [OF v v'(1,2) nz ovv, of dp de] unfolding so v'(3) .
        then show "outcome cap (?out @ ''.'' @ ?r) ?st inside (parse_loop dp de ?v)" by (simp only: append_assoc)
      qed (use Some d so ovd in \<open>auto simp: next_component_def\<close>)
    qed
  qed
qed

text \<open>The path, one directory after the other, then the name of the file.\<close>

lemma strip_end_one_slash:
  assumes "\<not> suffix ''//'' p"
  shows "prefix p (strip_end (CHR ''/'') p @ ''/'')"
proof (cases p rule: rev_cases)
  case (snoc q c)
  show ?thesis
  proof (cases q rule: rev_cases)
    case (snoc r d)
    then have "c \<noteq> CHR ''/'' \<or> d \<noteq> CHR ''/''" using \<open>p = q @ [c]\<close> assms by (auto simp: suffix_def)
    then have "strip_end (CHR ''/'') p = (if c = CHR ''/'' then q else p)"
      using snoc \<open>p = q @ [c]\<close> strip_end_snoc [of "CHR ''/''" q c] strip_end_snoc [of "CHR ''/''" r d] by auto
    then show ?thesis using \<open>p = q @ [c]\<close> by simp
  qed (use snoc in \<open>auto simp: strip_end_def\<close>)
qed simp

definition path_ok :: "string \<Rightarrow> string \<Rightarrow> bool" where
  "path_ok out p \<longleftrightarrow> out = [] \<or> strip_end (CHR ''/'') out @ ''/'' = out \<and> (p = [] \<or> hd p \<noteq> CHR ''/'')"

lemma last_path_phase:
  assumes h: "holds cap s out" "InputPtr s = Some (p @ zeros k)" "NUL \<notin> set p"
    and c: "Component s = PROCESS_INIT \<or> Component s = PATHNAME_SEPARATOR" "\<not> LastPathReached s"
    and dp: "\<And>d. dp = Some d \<Longrightarrow> NUL \<notin> set d \<and> \<not> suffix ''//'' d" and de: "\<And>d. de = Some d \<Longrightarrow> NUL \<notin> set d"
    and ok: "path_ok out p" and no: "CHR ''/'' \<notin> set p" and ov: "inside \<longrightarrow> tail_ok s p k"
  shows "outcome cap ((if out = [] then full_prefix dp p else out) @ full_suffix de p)
    (if takeWhile (\<lambda>c. c \<noteq> CHR ''.'') p \<noteq> [] then CFE_SUCCESS else ParseStatus s) inside (parse_loop dp de s)"
proof -
  let ?st = "if takeWhile (\<lambda>c. c \<noteq> CHR ''.'') p \<noteq> [] then CFE_SUCCESS else ParseStatus s"
  let ?cmp = "if dp \<noteq> NULL \<and> out = [] then the dp else []"
  let ?s = "s\<lparr>Component := PATHNAME_COMPONENT, ComponentTerm := CHR ''/'', LastPathReached := True\<rparr>"
  let ?t = "(if out = [] then full_prefix dp p else out) @ full_suffix de p"
  have "OutputLen s = length out" using h(1) by (simp add: holds_def)
  then have "parse_component dp de (p @ zeros k) s = (?s, ?cmp)"
    using c no by (auto simp: parse_component_def next_component_def Let_def)
  then have eq: "parse_loop dp de s = parse_loop dp de (parse_append (?s, ?cmp))"
    using h c by (subst parse_loop.simps) auto
  have cc: "cstring ?cmp = ?cmp" using dp by (intro cstring_id) auto
  let ?y = "strip_end (CHR ''/'') (out @ ?cmp)"
  have t: "?t = ?y @ ''/'' @ full_suffix de p"
    using ok no by (cases dp) (auto simp: path_ok_def full_prefix_def)
  have pre: "prefix (out @ ?cmp) ?t"
  proof (cases "dp \<noteq> NULL \<and> out = []")
    case True
    then have "prefix (the dp) (strip_end (CHR ''/'') (the dp) @ ''/'')" using dp strip_end_one_slash by auto
    then have "prefix (the dp) ((strip_end (CHR ''/'') (the dp) @ ''/'') @ full_suffix de p)" by (rule prefix_prefix)
    then show ?thesis unfolding t using True by auto
  qed auto
  show ?thesis unfolding eq
  proof (rule append_step)
    show "holds cap ?s out" using h(1) by (simp add: holds_def)
    show "prefix (out @ cstring ?cmp) ?t" unfolding cc by (rule pre)
    show "inside \<longrightarrow> \<not> OverRead ?s" using ov by (simp add: tail_ok_def)
    fix b
    let ?u = "?s\<lparr>OutputBuffer := b, OutputLen := length (out @ cstring ?cmp)\<rparr>"
    assume u: "holds cap ?u (out @ cstring ?cmp)"
    have e: "dropWhile (\<lambda>x. x = CHR ''/'') p = p" using no by (cases p) auto
    show "outcome cap ?t ?st inside (parse_loop dp de ?u)"
    proof (rule sep_phase [OF u, where e = p and k = k and t = "CHR ''/''" and c = PATHNAME_SEPARATOR])
      show "prefix (strip_end (CHR ''/'') (out @ cstring ?cmp) @ [CHR ''/'']) ?t" unfolding cc t by simp
      show ovu: "inside \<longrightarrow> tail_ok ?u p k" using ov by (simp add: tail_ok_def)
      fix b'
      let ?v = "after_sep PATHNAME_SEPARATOR (CHR ''/'') (out @ cstring ?cmp) (dropWhile (\<lambda>x. x = CHR ''/'') p @ zeros k) b' ?u"
      assume v: "holds cap ?v (strip_end (CHR ''/'') (out @ cstring ?cmp) @ [CHR ''/''])"
      have v': "InputPtr ?v = Some (p @ zeros k)" "Component ?v = PATHNAME_SEPARATOR" "LastPathReached ?v" "ParseStatus ?v = ParseStatus s"
        by (simp_all add: after_sep_def e)
      have ovv: "inside \<longrightarrow> tail_ok ?v p k"
        using ov tail_sep [of ?u p k "CHR ''/''" PATHNAME_SEPARATOR "out @ cstring ?cmp" b'] e by (simp add: tail_ok_def)
      show "outcome cap ?t ?st inside (parse_loop dp de ?v)"
        using file_phase [where dp = dp and de = de, OF v v'(1) h(3) v'(2,3) de ovv] unfolding v'(4) t unfolding cc .
    qed (use h(2) in \<open>simp_all add: next_component_def\<close>)
  qed
qed

lemma path_phase:
  assumes h: "holds cap s out" "InputPtr s = Some (p @ zeros k)" "NUL \<notin> set p"
    and c: "Component s = PROCESS_INIT \<or> Component s = PATHNAME_SEPARATOR" "\<not> LastPathReached s"
    and dp: "\<And>d. dp = Some d \<Longrightarrow> NUL \<notin> set d \<and> \<not> suffix ''//'' d" and de: "\<And>d. de = Some d \<Longrightarrow> NUL \<notin> set d"
    and ok: "path_ok out p" and ov: "inside \<longrightarrow> tail_ok s p k"
  shows "outcome cap ((if CHR ''/'' \<in> set p then out @ squeeze (dir_part p) else if out = [] then full_prefix dp p else out) @
      full_suffix de (base_part p)) (if file_stem p \<noteq> [] then CFE_SUCCESS else ParseStatus s) inside (parse_loop dp de s)"
  using h c ok ov
proof (induction "length p" arbitrary: p s out rule: less_induct)
  case less
  show ?case
  proof (cases "CHR ''/'' \<in> set p")
    case False
    then show ?thesis
      using last_path_phase [OF less.prems(1-5) dp de less.prems(6) False less.prems(7)] no_slash_parts [OF False] by (simp add: file_stem_def)
  next
    case True
    let ?x = "takeWhile (\<lambda>c. c \<noteq> CHR ''/'') p" and ?d = "dropWhile (\<lambda>c. c \<noteq> CHR ''/'') p"
    let ?rest = "dropWhile (\<lambda>c. c = CHR ''/'') ?d"
    let ?st = "if file_stem p \<noteq> [] then CFE_SUCCESS else ParseStatus s"
    let ?t = "(out @ squeeze (dir_part p)) @ full_suffix de (base_part p)"
    let ?s = "s\<lparr>Component := PATHNAME_COMPONENT, ComponentTerm := CHR ''/'', InputPtr := Some (?d @ zeros k)\<rparr>"
    have "parse_component dp de (p @ zeros k) s = (?s, ?x)"
      using less.prems(4,5) True zeros_while(1-3) [of "CHR ''/''" p k]
      by (auto simp: parse_component_def next_component_def Let_def)
    then have eq: "parse_loop dp de s = parse_loop dp de (parse_append (?s, ?x))"
      using less.prems(2,4) by (subst parse_loop.simps) auto
    have cc: "cstring ?x = ?x" using less.prems(3) by (intro cstring_id) (auto dest: set_takeWhileD)
    have strip: "strip_end (CHR ''/'') (out @ ?x) = out @ ?x"
    proof (cases ?x rule: rev_cases)
      case Nil
      then have "hd p = CHR ''/''" "p \<noteq> []" using True by (cases p; auto split: if_splits)+
      then show ?thesis using less.prems(6) Nil by (simp add: path_ok_def strip_end_def)
    next
      case (snoc y c)
      have "c \<in> set ?x" unfolding snoc by simp
      then have "c \<noteq> CHR ''/''" by (auto dest: set_takeWhileD)
      then show ?thesis using snoc strip_end_snoc [of "CHR ''/''" "out @ y" c] by simp
    qed
    note np = next_path_part [OF True]
    have t: "?t = ((out @ ?x) @ ''/'' @ squeeze (dir_part ?rest)) @ full_suffix de (base_part p)" unfolding np(1) by simp
    have "outcome cap ?t ?st inside (parse_loop dp de s)" unfolding eq
    proof (rule append_step)
      show "holds cap ?s out" using less.prems(1) by (simp add: holds_def)
      show "prefix (out @ cstring ?x) ?t" unfolding cc t by simp
      show "inside \<longrightarrow> \<not> OverRead ?s" using less.prems(7) by (simp add: tail_ok_def)
      fix b
      let ?u = "?s\<lparr>OutputBuffer := b, OutputLen := length (out @ cstring ?x)\<rparr>"
      assume u: "holds cap ?u (out @ cstring ?x)"
      show "outcome cap ?t ?st inside (parse_loop dp de ?u)"
      proof (rule sep_phase [OF u, where e = ?d and k = k and t = "CHR ''/''" and c = PATHNAME_SEPARATOR])
        show "prefix (strip_end (CHR ''/'') (out @ cstring ?x) @ [CHR ''/'']) ?t" unfolding cc strip t by simp
        have "?d \<noteq> []" using True by auto
        then show ovu: "inside \<longrightarrow> tail_ok ?u ?d k"
          using less.prems(7) tail_ok_suffix [of s p k ?u "\<lambda>c. c \<noteq> CHR ''/''"] by simp
        fix b'
        let ?v = "after_sep PATHNAME_SEPARATOR (CHR ''/'') (out @ cstring ?x) (?rest @ zeros k) b' ?u"
        assume "holds cap ?v (strip_end (CHR ''/'') (out @ cstring ?x) @ [CHR ''/''])"
        then have v: "holds cap ?v ((out @ ?x) @ ''/'')" unfolding cc strip .
        have v': "InputPtr ?v = Some (?rest @ zeros k)" "Component ?v = PATHNAME_SEPARATOR" "\<not> LastPathReached ?v"
          "ParseStatus ?v = ParseStatus s" using less.prems(5) by (simp_all add: after_sep_def)
        have nz: "NUL \<notin> set ?rest" using less.prems(3) by (auto dest: set_dropWhileD)
        have "?rest = [] \<or> hd ?rest \<noteq> CHR ''/''" using hd_dropWhile [of "\<lambda>c. c = CHR ''/''" ?d] by auto
        then have ok: "path_ok ((out @ ?x) @ ''/'') ?rest"
          using strip_end_snoc [of "CHR ''/''" "out @ ?x" "CHR ''/''"] strip by (simp add: path_ok_def)
        have e: "(if CHR ''/'' \<in> set ?rest then ((out @ ?x) @ ''/'') @ squeeze (dir_part ?rest)
            else if (out @ ?x) @ ''/'' = [] then full_prefix dp ?rest else (out @ ?x) @ ''/'') =
            (out @ ?x) @ ''/'' @ squeeze (dir_part ?rest)"
          using no_slash_parts [of ?rest] by auto
        have f: "file_stem ?rest = file_stem p" by (simp add: file_stem_def np(2))
        have ovv: "inside \<longrightarrow> tail_ok ?v ?rest k" using ovu tail_sep by simp
        show "outcome cap ?t ?st inside (parse_loop dp de ?v)"
          using less.hyps [OF np(3) v v'(1) nz disjI2 [OF v'(2)] v'(3) ok ovv] unfolding v'(4) unfolding e f np(2) t .
      qed (simp_all add: next_component_def)
    qed
    then show ?thesis using True by simp
  qed
qed

section \<open>The loop ends on every input\<close>

definition returns :: "string ptr \<Rightarrow> string ptr \<Rightarrow> parse_state \<Rightarrow> bool" where
  "returns dp de s \<longleftrightarrow> parse_loop dp de s \<noteq> None"

lemma parse_append_same [simp]:
  "Component (parse_append (s, c)) = Component s" "LastPathReached (parse_append (s, c)) = LastPathReached s"
  "ComponentTerm (parse_append (s, c)) = ComponentTerm s"
  "InputPtr (parse_append (s, c)) = NULL \<or> InputPtr (parse_append (s, c)) = InputPtr s"
  by (auto simp: parse_append_def Let_def split: prod.splits)

lemma parse_round_component:
  "Component (parse_append (parse_component dp de inp s)) = next_component (Component s) (LastPathReached s)"
  by (auto simp: parse_component_def Let_def split: prod.splits)

lemma returns_step:
  assumes "InputPtr s = Some inp" "Component s \<noteq> END_COMPONENT"
    and "InputPtr (parse_append (parse_component dp de inp s)) = InputPtr (fst (parse_component dp de inp s)) \<Longrightarrow>
      returns dp de (parse_append (parse_component dp de inp s))"
  shows "returns dp de s"
proof -
  let ?s = "parse_append (parse_component dp de inp s)"
  have "parse_loop dp de s = parse_loop dp de ?s" using assms(1,2) by (subst parse_loop.simps) simp
  moreover have "returns dp de ?s" if "InputPtr ?s = NULL" using that by (simp add: parse_loop.simps returns_def)
  moreover have "InputPtr ?s = NULL \<or> InputPtr ?s = InputPtr (fst (parse_component dp de inp s))"
    by (metis parse_append_same(4) prod.collapse)
  ultimately show ?thesis using assms(3) by (auto simp: returns_def)
qed

lemma returns_null: "InputPtr s = NULL \<Longrightarrow> returns dp de s"
  by (simp add: parse_loop.simps returns_def)

lemma returns_next:
  assumes "\<And>s'. Component s' = next_component (Component s) (LastPathReached s) \<Longrightarrow> returns dp de s'"
    and "Component s \<noteq> END_COMPONENT"
  shows "returns dp de s"
proof (cases "InputPtr s")
  case (Some inp)
  show ?thesis by (rule returns_step [OF Some assms(2)]) (rule assms(1), rule parse_round_component)
qed (rule returns_null)

lemma returns_extension: "Component s = EXTENSION_SEPARATOR \<Longrightarrow> returns dp de s"
proof (cases "InputPtr s")
  case (Some inp)
  assume "Component s = EXTENSION_SEPARATOR"
  then show ?thesis
    by (intro returns_step [OF Some] returns_null) (simp_all add: parse_component_def next_component_def)
qed (rule returns_null)

lemma returns_file: "Component s = FILENAME_COMPONENT \<Longrightarrow> returns dp de s"
  by (rule returns_next) (simp_all add: next_component_def returns_extension)

lemma returns_last: "Component s = PATHNAME_SEPARATOR \<Longrightarrow> LastPathReached s \<Longrightarrow> returns dp de s"
  by (rule returns_next) (simp_all add: next_component_def returns_file)

lemma returns_path:
  assumes "Component s = PROCESS_INIT \<or> Component s = PATHNAME_SEPARATOR"
  shows "returns dp de s"
  using assms
proof (induction "case InputPtr s of NULL \<Rightarrow> 0 | Some inp \<Rightarrow> length inp" arbitrary: s rule: less_induct)
  case less
  show ?case
  proof (cases "InputPtr s")
    case (Some inp)
    show ?thesis
    proof (cases "Component s = PATHNAME_SEPARATOR \<and> LastPathReached s")
      case False
      let ?s = "parse_append (parse_component dp de inp s)"
      let ?d = "dropWhile (\<lambda>x. x \<noteq> CHR ''/'') inp"
      have c: "Component ?s = PATHNAME_COMPONENT" "ComponentTerm ?s = CHR ''/''" "LastPathReached ?s = (LastPathReached s \<or> CHR ''/'' \<notin> set inp)"
        using less.prems False by (auto simp: parse_component_def next_component_def Let_def)
      show ?thesis
      proof (rule returns_step [OF Some])
        assume i: "InputPtr ?s = InputPtr (fst (parse_component dp de inp s))"
        have i': "InputPtr ?s = Some (if CHR ''/'' \<in> set inp then ?d else inp)"
          using i Some less.prems False by (auto simp: parse_component_def next_component_def Let_def)
        let ?u = "parse_append (parse_component dp de (if CHR ''/'' \<in> set inp then ?d else inp) ?s)"
        have u: "Component ?u = PATHNAME_SEPARATOR" "LastPathReached ?u = (LastPathReached s \<or> CHR ''/'' \<notin> set inp)"
          using c by (simp_all add: parse_component_def next_component_def Let_def)
        show "returns dp de ?s"
        proof (rule returns_step [OF i'])
          assume "InputPtr ?u = InputPtr (fst (parse_component dp de (if CHR ''/'' \<in> set inp then ?d else inp) ?s))"
          then have iu: "InputPtr ?u = Some (dropWhile (\<lambda>x. x = CHR ''/'') (if CHR ''/'' \<in> set inp then ?d else inp))"
            using c by (simp add: parse_component_def next_component_def Let_def)
          show "returns dp de ?u"
          proof (cases "CHR ''/'' \<in> set inp")
            case True
            then have "length (dropWhile (\<lambda>x. x = CHR ''/'') ?d) < length inp" by (rule next_path_part(3))
            then show ?thesis using less.hyps [of ?u] u(1) iu Some True by simp
          qed (use u returns_last in auto)
        qed (simp add: c)
      qed (use less.prems in auto)
    qed (auto intro: returns_last)
  qed (simp add: returns_null)
qed

section \<open>Properties of file names\<close>

lemma cstring_output: "NUL \<notin> set t \<Longrightarrow> length t < length b \<Longrightarrow> take (length t) b = t \<Longrightarrow> cstring (b[length t := NUL]) = t"
proof -
  assume t: "NUL \<notin> set t" "length t < length b" "take (length t) b = t"
  then have "b[length t := NUL] = t @ NUL # drop (Suc (length t)) b" by (simp add: upd_conv_take_nth_drop)
  then show ?thesis using t(1) by (simp add: cstring_terminated)
qed

lemma full_name_no_zero:
  assumes s: "NUL \<notin> set s" and dp: "\<And>d. dp = Some d \<Longrightarrow> NUL \<notin> set d" and de: "\<And>d. de = Some d \<Longrightarrow> NUL \<notin> set d"
  shows "NUL \<notin> set (full_name dp de s)"
proof -
  have sq: "set (squeeze x) \<subseteq> set x" for x by (induction x rule: squeeze.induct) auto
  have d: "NUL \<notin> set (dir_part s)" "NUL \<notin> set (base_part s)"
    using s by (auto simp: dir_part_def base_part_def dest: set_dropWhileD set_takeWhileD)
  have e: "NUL \<notin> set x \<Longrightarrow> NUL \<notin> set (strip_end t x)" for t x by (auto simp: strip_end_def dest: set_dropWhileD)
  have "NUL \<notin> set (full_prefix dp s)"
    using d(1) sq [of "dir_part s"] e [of "case dp of NULL \<Rightarrow> [] | Some p \<Rightarrow> p" "CHR ''/''"] dp
    by (cases dp) (auto simp: full_prefix_def)
  moreover have "NUL \<notin> set (full_suffix de (base_part s))"
    using d(2) de by (cases de) (auto simp: full_suffix_def dest: set_dropWhileD set_takeWhileD)
  ultimately show ?thesis by (simp add: full_name_def)
qed

text \<open>What the whole loop gives, from its first state.\<close>

lemma parse_loop_outcome:
  assumes st: "InputPtr st = Some (s @ zeros k)" "Component st = PROCESS_INIT" "\<not> LastPathReached st"
    "ParseStatus st = CFE_FS_INVALID_PATH" "OutputLen st = 0" "OutputBuffer st \<noteq> []"
    and s: "NUL \<notin> set s" and dp: "\<And>d. dp = Some d \<Longrightarrow> NUL \<notin> set d \<and> \<not> suffix ''//'' d" and de: "\<And>d. de = Some d \<Longrightarrow> NUL \<notin> set d"
    and ov: "inside \<longrightarrow> tail_ok st s k"
  shows "\<exists>st'. parse_loop dp de st = Some st' \<and> length (OutputBuffer st') = length (OutputBuffer st) \<and>
    ParseStatus st' = (if length (full_name dp de s) < length (OutputBuffer st)
      then if file_stem s \<noteq> [] then CFE_SUCCESS else CFE_FS_INVALID_PATH else CFE_FS_FNAME_TOO_LONG) \<and>
    cstring ((OutputBuffer st')[OutputLen st' := NUL]) = take (length (OutputBuffer st) - 1) (full_name dp de s) \<and>
    (inside \<longrightarrow> \<not> OverRead st')"
proof -
  let ?t = "full_name dp de s" and ?cap = "length (OutputBuffer st)"
  have h: "holds ?cap st []" using st(5,6) by (simp add: holds_def)
  have i: "Component st = PROCESS_INIT \<or> Component st = PATHNAME_SEPARATOR" "path_ok [] s" using st by (simp_all add: path_ok_def)
  have e: "(if CHR ''/'' \<in> set s then [] @ squeeze (dir_part s) else if ([] :: string) = [] then full_prefix dp s else []) @
      full_suffix de (base_part s) = ?t" by (simp add: full_name_def full_prefix_def)
  have "outcome ?cap ?t (if file_stem s \<noteq> [] then CFE_SUCCESS else ParseStatus st) inside (parse_loop dp de st)"
    using path_phase [where dp = dp and de = de, OF h st(1) s i(1) st(3) dp de i(2) ov] unfolding e .
  then obtain st' where st': "parse_loop dp de st = Some st'" "length (OutputBuffer st') = ?cap"
    "if length ?t < ?cap then OutputLen st' = length ?t \<and> take (length ?t) (OutputBuffer st') = ?t \<and>
        ParseStatus st' = (if file_stem s \<noteq> [] then CFE_SUCCESS else ParseStatus st)
     else OutputLen st' = ?cap - 1 \<and> take (?cap - 1) (OutputBuffer st') = take (?cap - 1) ?t \<and> ParseStatus st' = CFE_FS_FNAME_TOO_LONG"
    and ov': "inside \<longrightarrow> \<not> OverRead st'"
    unfolding outcome_def by blast
  let ?o = "take (?cap - 1) ?t"
  have len: "OutputLen st' = length ?o" and out: "take (length ?o) (OutputBuffer st') = ?o" and lt: "length ?o < length (OutputBuffer st')"
  proof -
    have "?o = ?t" if "length ?t < ?cap" using that by simp
    moreover have "length ?o = ?cap - 1" if "\<not> length ?t < ?cap" using that by simp
    ultimately show "OutputLen st' = length ?o" "take (length ?o) (OutputBuffer st') = ?o"
      using st'(3) by (cases "length ?t < ?cap"; simp only: if_True if_False)+
    have "0 < ?cap" using st(6) by simp
    moreover have "length ?o \<le> ?cap - 1" by simp
    ultimately show "length ?o < length (OutputBuffer st')" using st'(2) by linarith
  qed
  have "NUL \<notin> set ?t" using full_name_no_zero [OF s, of dp de] dp de by blast
  then have "NUL \<notin> set ?o" by (blast dest: in_set_takeD)
  from cstring_output [OF this lt out] have "cstring ((OutputBuffer st')[OutputLen st' := NUL]) = ?o" unfolding len .
  moreover have "ParseStatus st' = (if length ?t < ?cap then if file_stem s \<noteq> [] then CFE_SUCCESS else CFE_FS_INVALID_PATH else CFE_FS_FNAME_TOO_LONG)"
    using st'(3) st(4) by (cases "length ?t < ?cap") simp_all
  ultimately show ?thesis using st'(1,2) ov' by blast
qed

text \<open>
  The name that is parsed: the one in the field of a command up to its first zero, or the default if there is no field or
  the field is empty.
\<close>

definition given_name :: "string ptr \<Rightarrow> string ptr \<Rightarrow> string ptr" where
  "given_name ib di = (case ib of Some b \<Rightarrow> if cstring b \<noteq> [] then Some (cstring b) else di | NULL \<Rightarrow> di)"

definition zero_padded :: "string \<Rightarrow> bool" where
  "zero_padded b \<longleftrightarrow> b = cstring b @ zeros (length b - length (cstring b))"

text \<open>The first state of the loop.\<close>

definition parse_start :: "string ptr \<Rightarrow> string ptr \<Rightarrow> string \<Rightarrow> parse_state" where
  "parse_start ib di buf =
     (let field = (\<exists>b. ib = Some b \<and> cstring b \<noteq> [])
      in \<lparr>InputPtr = (if field then ib else di), Component = PROCESS_INIT, ComponentTerm = NUL, LastPathReached = False,
          ParseStatus = CFE_FS_INVALID_PATH, OutputBuffer = buf, OutputLen = 0, Terminated = \<not> field, OverRead = False\<rparr>)"

lemma cstring_empty: "cstring b = [] \<longleftrightarrow> b = [] \<or> b ! 0 = NUL"
  by (cases b) (simp_all add: cstring_def)

lemma parse_from_start:
  assumes "buf \<noteq> []"
  shows "CFE_FS_ParseInputFileNameEx (Some buf) ib di dp de =
    map_option (\<lambda>s. (ParseStatus s, Some ((OutputBuffer s)[OutputLen s := NUL]), OverRead s)) (parse_loop dp de (parse_start ib di buf))"
proof -
  have "(case ib of Some b \<Rightarrow> if 0 < length b \<and> b ! 0 \<noteq> NUL then (Some b, False) else (di, True) | NULL \<Rightarrow> (di, True)) =
      (if \<exists>b. ib = Some b \<and> cstring b \<noteq> [] then ib else di, \<not> (\<exists>b. ib = Some b \<and> cstring b \<noteq> []))"
    by (cases ib) (auto simp: cstring_empty)
  then show ?thesis using assms unfolding CFE_FS_ParseInputFileNameEx_def parse_start_def Let_def by simp
qed

text \<open>
  C23. Parsing the name of a file.  Let the field of the command, if there is one, be padded with zeros behind the name
  (\<open>fs_parse_past_zero\<close> shows what happens with other characters there), and let the default path not end in two slashes.
  If there is neither a name in the field nor a default, the call fails with an empty name.  Otherwise the name, from the
  field if that is not empty and from the default if it is, is turned into a full name: its directories with one slash
  between them, or the default path; the name; and its extension or the default one.  If the full name fits with its terminator,
  the output buffer holds it, and the call succeeds exactly if the name without path and extension is not empty; otherwise
  the buffer holds as much of the name as fits, still terminated, and the status says so.  The length of the output buffer is never
  exceeded, and the call returns.  It reads behind the field only if the name fills it completely and ends in a slash
  or a point (\<open>fs_parse_over_read\<close> shows that it then does).
\<close>

theorem fs_parse_name_correct:
  assumes "\<forall>b. ib = Some b \<longrightarrow> zero_padded b" and "buf \<noteq> []" and "\<forall>d. di = Some d \<longrightarrow> NUL \<notin> set d"
    and "\<forall>d. dp = Some d \<longrightarrow> NUL \<notin> set d \<and> \<not> suffix ''//'' d" and "\<forall>e. de = Some e \<longrightarrow> NUL \<notin> set e"
  shows "case given_name ib di of
      NULL \<Rightarrow> CFE_FS_ParseInputFileNameEx (Some buf) ib di dp de = Some (CFE_FS_INVALID_PATH, Some (buf[0 := NUL]), False)
    | Some s \<Rightarrow> \<exists>out over. CFE_FS_ParseInputFileNameEx (Some buf) ib di dp de =
        Some (if length (full_name dp de s) < length buf then if file_stem s \<noteq> [] then CFE_SUCCESS else CFE_FS_INVALID_PATH
              else CFE_FS_FNAME_TOO_LONG, Some out, over) \<and>
        length out = length buf \<and> cstring out = take (length buf - 1) (full_name dp de s) \<and>
        (over \<longrightarrow> ib = Some s \<and> (last s = CHR ''/'' \<or> last s = CHR ''.''))"
proof (cases "given_name ib di")
  case None
  then have "InputPtr (parse_start ib di buf) = NULL" by (cases ib) (auto simp: given_name_def parse_start_def split: if_splits)
  then have "parse_loop dp de (parse_start ib di buf) = Some (parse_start ib di buf)" by (simp add: parse_loop.simps)
  then show ?thesis using None by (simp add: parse_from_start [OF assms(2)]) (simp add: parse_start_def Let_def)
next
  case (Some s)
  let ?st = "parse_start ib di buf" and ?inside = "\<not> (ib = Some s \<and> (last s = CHR ''/'' \<or> last s = CHR ''.''))"
  have nz: "NUL \<notin> set s"
    using Some assms(3) by (cases ib) (auto simp: given_name_def cstring_def dest: set_takeWhileD split: if_splits)
  obtain k where inp: "InputPtr ?st = Some (s @ zeros k)" and ov: "?inside \<longrightarrow> tail_ok ?st s k"
  proof (cases "\<exists>b. ib = Some b \<and> cstring b \<noteq> []")
    case True
    then obtain b where b: "ib = Some b" "s = cstring b" "s \<noteq> []" using Some by (auto simp: given_name_def)
    then have p: "b = s @ zeros (length b - length s)" using assms(1) by (simp add: zero_padded_def)
    have "tail_ok ?st s (length b - length s)" if ?inside
    proof (cases "length b - length s")
      case 0
      then have "b = s" using p by simp
      then show ?thesis using that b by (simp add: tail_ok_def parse_start_def Let_def)
    qed (simp add: tail_ok_def parse_start_def Let_def)
    then show ?thesis using that [of "length b - length s"] p b by (simp add: parse_start_def Let_def)
  next
    case False
    then have "di = Some s" using Some by (cases ib) (auto simp: given_name_def split: if_splits)
    then show ?thesis using that [of 0] False by (simp add: parse_start_def Let_def tail_ok_def)
  qed
  have st: "Component ?st = PROCESS_INIT" "\<not> LastPathReached ?st" "ParseStatus ?st = CFE_FS_INVALID_PATH" "OutputLen ?st = 0"
    "OutputBuffer ?st = buf" by (simp_all add: parse_start_def Let_def)
  have ne: "OutputBuffer ?st \<noteq> []" using assms(2) st(5) by simp
  have dp: "NUL \<notin> set d \<and> \<not> suffix ''//'' d" if "dp = Some d" for d using that assms(4) by auto
  have de: "NUL \<notin> set e" if "de = Some e" for e using that assms(5) by auto
  obtain st' where st': "parse_loop dp de ?st = Some st'" "length (OutputBuffer st') = length buf"
    "ParseStatus st' = (if length (full_name dp de s) < length buf then if file_stem s \<noteq> [] then CFE_SUCCESS else CFE_FS_INVALID_PATH
      else CFE_FS_FNAME_TOO_LONG)"
    "cstring ((OutputBuffer st')[OutputLen st' := NUL]) = take (length buf - 1) (full_name dp de s)" "?inside \<longrightarrow> \<not> OverRead st'"
    using parse_loop_outcome [where dp = dp and de = de, OF inp st(1-4) ne nz dp de ov] unfolding st(5) by blast
  have "CFE_FS_ParseInputFileNameEx (Some buf) ib di dp de =
      Some (ParseStatus st', Some ((OutputBuffer st')[OutputLen st' := NUL]), OverRead st')"
    using st'(1) by (simp add: parse_from_start [OF assms(2)])
  then show ?thesis
    using st' Some by (auto intro!: exI [of _ "(OutputBuffer st')[OutputLen st' := NUL]"] exI [of _ "OverRead st'"])
qed

theorem fs_parse_name_correct_witness:
  "\<exists>out. CFE_FS_ParseInputFileNameEx (Some (replicate 64 NUL)) (Some (''apps//x/sample'' @ zeros 5)) (Some ''default'')
      (Some ''/cf'') (Some ''.so'') = Some (CFE_SUCCESS, Some out, False) \<and> cstring out = ''apps/x/sample.so''"
proof -
  let ?s = "''apps//x/sample''" and ?ib = "Some (''apps//x/sample'' @ zeros 5)"
  have f: "full_name (Some ''/cf'') (Some ''.so'') ?s = ''apps/x/sample.so''" "file_stem ?s = ''sample''"
    by (simp_all add: full_name_def full_prefix_def full_suffix_def dir_part_def base_part_def file_stem_def)
  have c: "cstring (?s @ zeros 5) = ?s" by (rule cstring_zeros) simp
  have g: "given_name ?ib (Some ''default'') = Some ?s" "zero_padded (?s @ zeros 5)"
    unfolding given_name_def zero_padded_def option.case c by simp_all
  show ?thesis
    using fs_parse_name_correct [of ?ib "replicate 64 NUL" "Some ''default''" "Some ''/cf''" "Some ''.so''"] f
    unfolding g(1) option.case using g(2) by (fastforce simp: suffix_def)
qed

text \<open>Parsing returns for every input, also for one with anything behind a zero.\<close>

theorem fs_parse_returns: "\<exists>r. CFE_FS_ParseInputFileNameEx OutBuf ib di dp de = Some r"
proof -
  have "returns dp de (parse_start ib di b)" for b by (rule returns_path) (simp add: parse_start_def Let_def)
  then show ?thesis
    using parse_from_start [of "the OutBuf" ib di dp de]
    by (cases OutBuf; cases "the OutBuf = []") (auto simp: CFE_FS_ParseInputFileNameEx_def returns_def)
qed

text \<open>
  The input is documented to end at its first zero; what follows the zero nevertheless takes part in the search for
  separators: from a field with the name \<open>a\<close> and remains of a longer name behind it, the parser makes the name \<open>c\<close> in the
  directory \<open>a\<close>.
\<close>

theorem fs_parse_past_zero:
  "map_option (\<lambda>(st, out, over). (st, cstring (the out)))
     (CFE_FS_ParseInputFileNameEx (Some (replicate 8 NUL)) (Some (''a'' @ [NUL] @ ''b/c'')) NULL (Some ''/cf'') NULL) =
   Some (CFE_SUCCESS, ''a/c'')"
  by (simp add: CFE_FS_ParseInputFileNameEx_def Let_def parse_loop.simps parse_component_def next_component_def parse_append_def
      cstring_def numeral_eq_Suc)

text \<open>
  \<open>cfe_fs.h\<close> says that the field need not be terminated and that parsing does not exceed it.  From a field of four
  characters that holds \<open>dir/\<close> a fifth is read.
\<close>

theorem fs_parse_over_read:
  "\<exists>st out. CFE_FS_ParseInputFileNameEx (Some (replicate 8 NUL)) (Some ''dir/'') NULL NULL NULL = Some (st, out, True)"
  by (simp add: CFE_FS_ParseInputFileNameEx_def Let_def parse_loop.simps parse_component_def next_component_def parse_append_def
      numeral_eq_Suc)

text \<open>The name of a file is what follows the last slash of its path; a path whose only slash comes first is refused.\<close>

lemma last_mark_spec:
  "last_mark i p r = (if CHR ''/'' \<in> set p then Some (i + (length (dir_part p) - 1)) else r)"
proof (induction p arbitrary: i r)
  case (Cons c p)
  have e: "CHR ''/'' \<in> set p \<Longrightarrow> dir_part (c # p) = c # dir_part p \<and> 0 < length (dir_part p)"
  proof -
    assume s: "CHR ''/'' \<in> set p"
    then have "dropWhile (\<lambda>c. c \<noteq> CHR ''/'') (rev p) \<noteq> []" by auto
    then show ?thesis using s by (simp add: dir_part_def dropWhile_append)
  qed
  have f: "CHR ''/'' \<notin> set p \<Longrightarrow> c = CHR ''/'' \<Longrightarrow> dir_part (c # p) = [c]"
    using no_slash_parts [of p] parts_append [of "[]" p] by simp
  show ?case using Cons e f by auto
qed simp

theorem fs_extract_correct:
  assumes "length path < 64"
  shows "CFE_FS_ExtractFilenameFromPath (Some path) (Some buf) =
    (if CHR ''/'' \<in> set path \<and> 1 < length (dir_part path)
     then (CFE_SUCCESS, Some (base_part path @ [NUL] @ drop (length (base_part path) + 1) buf))
     else (CFE_FS_INVALID_PATH, Some buf))"
proof -
  have p: "path = dir_part path @ base_part path"
    unfolding dir_part_def base_part_def by (metis rev_append rev_rev_ident takeWhile_dropWhile_id)
  have d: "drop (length (dir_part path)) path = base_part path" by (subst (2) p) simp
  have "0 < length (dir_part path)" if "CHR ''/'' \<in> set path" using that by (auto simp: dir_part_def)
  then show ?thesis
    using assms d by (auto simp: CFE_FS_ExtractFilenameFromPath_def Let_def last_mark_spec Suc_diff_1)
qed

theorem fs_extract_correct_witness:
  "CFE_FS_ExtractFilenameFromPath (Some ''/cf/x.so'') (Some (replicate 64 NUL)) =
     (CFE_SUCCESS, Some (''x.so'' @ [NUL] @ drop 5 (replicate 64 NUL)))"
  using fs_extract_correct [of "''/cf/x.so''" "replicate 64 NUL"] by (simp add: dir_part_def base_part_def)

end
