(* ===== verification/CFE_FS_Hdr.thy ===== *)
theory CFE_FS_Hdr
  imports CFE_FS
begin

unbundle bit_operations_syntax

text \<open>
  File headers: what a processor of either byte order writes is the same big-endian header, which a processor of either
  byte order reads back; a new time stamp changes nothing else in the file.
\<close>

section \<open>Words as bytes\<close>

lemma be_value_bytes: "be_value (be_bytes w) = w"
proof (rule bit_word_eqI)
  fix n assume "n < LENGTH(32)"
  then consider "n < 8" | "8 \<le> n" "n < 16" | "16 \<le> n" "n < 24" | "24 \<le> n" "n < 32" by fastforce
  then show "bit (be_value (be_bytes w)) n = bit w n"
    by cases (auto simp: be_value_def be_bytes_def bit_simps)
qed

lemma u8_high_bit: "8 \<le> n \<Longrightarrow> \<not> bit (x :: u8) n"
  by (auto dest: bit_imp_le_length)

lemma be_bytes_value: "length bs = 4 \<Longrightarrow> be_bytes (be_value bs) = bs"
proof -
  assume "length bs = 4"
  then obtain a b c d where "bs = [a, b, c, d]" by (auto simp: length_Suc_conv numeral_eq_Suc)
  then show ?thesis
    by (auto simp: be_value_def be_bytes_def intro!: bit_word_eqI simp: bit_simps u8_high_bit)
qed

lemma length_be_bytes [simp]: "length (be_bytes w) = 4"
  by (simp add: be_bytes_def)

lemma length_native_bytes [simp]: "length (native_bytes l w) = 4"
  by (simp add: native_bytes_def)

lemma native_value_bytes: "native_value l (native_bytes l w) = w"
  by (simp add: native_value_def native_bytes_def be_value_bytes)

lemma be_bytes_swap: "be_bytes (CFE_FS_ByteSwapUint32 w) = rev (be_bytes w)"
  by (simp add: CFE_FS_ByteSwapUint32_def be_bytes_value)

lemma swap_swap: "CFE_FS_ByteSwapUint32 (CFE_FS_ByteSwapUint32 w) = w"
  by (simp add: CFE_FS_ByteSwapUint32_def [of "CFE_FS_ByteSwapUint32 w"] be_bytes_swap be_value_bytes)

lemma native_bytes_swap: "native_bytes True (CFE_FS_ByteSwapUint32 w) = be_bytes w"
  by (simp add: native_bytes_def be_bytes_swap)

section \<open>Headers as bytes\<close>

abbreviation be_header :: "CFE_FS_Header \<Rightarrow> u8 list" where
  "be_header \<equiv> header_bytes False"

lemma native_bytes_False [simp]: "native_bytes False w = be_bytes w"
  by (simp add: native_bytes_def)

lemma header_swap_swap: "CFE_FS_ByteSwapCFEHeader (CFE_FS_ByteSwapCFEHeader h) = h"
  by (simp add: CFE_FS_ByteSwapCFEHeader_def swap_swap)

text \<open>A little-endian processor that swaps the words of a header has the bytes of a big-endian one.\<close>

lemma header_bytes_swap: "header_bytes True (CFE_FS_ByteSwapCFEHeader h) = be_header h"
  by (simp add: header_bytes_def CFE_FS_ByteSwapCFEHeader_def native_bytes_swap)

lemma length_header_bytes [simp]: "length (HdrDescription h) = 32 \<Longrightarrow> length (header_bytes l h) = 64"
  by (simp add: header_bytes_def)

lemma header_of_bytes: "length (HdrDescription h) = 32 \<Longrightarrow> header_of l (header_bytes l h) = h"
  by (cases h) (simp add: header_of_def header_bytes_def word_at_def native_value_bytes o_def char_of_of_char_u8)

lemma header_of_be:
  assumes "length (HdrDescription h) = 32"
  shows "(if l then CFE_FS_ByteSwapCFEHeader (header_of l (be_header h)) else header_of l (be_header h)) = h"
proof (cases l)
  case True
  have "header_of True (be_header h) = CFE_FS_ByteSwapCFEHeader h"
    using header_of_bytes [of "CFE_FS_ByteSwapCFEHeader h" True] assms
    by (simp add: header_bytes_swap [symmetric] CFE_FS_ByteSwapCFEHeader_def [of h])
  then show ?thesis using True by (simp add: header_swap_swap)
qed (simp add: header_of_bytes assms)

lemma put_at_start: "put_at 0 bs c = bs @ drop (length bs) c"
  by (simp add: put_at_def)

lemma put_at_mid: "length old = length bs \<Longrightarrow> n = length pre \<Longrightarrow> put_at n bs (pre @ old @ post) = pre @ bs @ post"
  by (simp add: put_at_def)

section \<open>Writing, changing and reading a header\<close>

text \<open>The header as it is written: all fields but the description and the subtype are set by the call.\<close>

definition stamped :: "FS_Env \<Rightarrow> CFE_FS_Header \<Rightarrow> CFE_FS_Header" where
  "stamped env h = h\<lparr>SpacecraftID := EnvSpacecraft env, ProcessorID := EnvProcessor env, ApplicationID := EnvAppID env,
     HdrLength := 64, ContentType := 0x63464531, TimeSeconds := Seconds (EnvTime env), TimeSubSeconds := Subseconds (EnvTime env)\<rparr>"

lemma stamped_Description [simp]: "HdrDescription (stamped env h) = HdrDescription h"
  by (simp add: stamped_def)

lemma WriteHeader_full:
  assumes "length (HdrDescription h) = 32"
  shows "CFE_FS_WriteHeader env None 64 f (Some h) =
    (64, \<lparr>Content = be_header (stamped env h) @ drop 64 (Content f), Position = 64\<rparr>, Some (stamped env h))"
proof -
  have "unat (64 :: int32) = 64" "\<not> (64 :: int32) <s 0" by (simp_all add: word_sless_alt)
  then show ?thesis
    using assms
    by (simp add: CFE_FS_WriteHeader_def OS_lseek_def OS_write_def stamped_def [symmetric] header_bytes_swap header_swap_swap
        put_at_start Let_def OS_File.defs)
qed

lemma ReadHeader_full:
  assumes "length (HdrDescription h) = 32" "take 64 (Content f) = be_header h"
  shows "CFE_FS_ReadHeader l None 64 (Some h0) f = (64, Some h, f\<lparr>Position := 64\<rparr>)"
proof -
  have "unat (64 :: int32) = 64" "\<not> (64 :: int32) <s 0" by (simp_all add: word_sless_alt)
  moreover have "length (take 64 (Content f)) = 64" using assms by simp
  then have "min (length (Content f)) 64 = 64" by simp
  moreover have "length (header_bytes l h0) = 32 + length (HdrDescription h0)" by (simp add: header_bytes_def)
  have "header_of l (be_header h @ xs) = header_of l (be_header h)" for xs
    using assms(1) by (simp add: header_of_def word_at_def)
  ultimately show ?thesis
    using assms header_of_be [OF assms(1), of l]
    by (auto simp: CFE_FS_ReadHeader_def OS_lseek_def OS_read_def Let_def split: if_splits)
qed

lemma SetTimestamp_full:
  assumes "length (HdrDescription h) = 32" "Content f = be_header h @ rest"
  shows "CFE_FS_SetTimestamp l None 4 4 f t =
    (0, \<lparr>Content = be_header (h\<lparr>TimeSeconds := Seconds t, TimeSubSeconds := Subseconds t\<rparr>) @ rest, Position = 32\<rparr>)"
proof -
  have four: "unat (4 :: int32) = 4" "\<not> (4 :: int32) <s 0" by (simp_all add: word_sless_alt)
  have nat: "native_bytes l (if l then CFE_FS_ByteSwapUint32 w else w) = be_bytes w" for w
    by (simp add: native_bytes_swap)
  let ?pre = "be_bytes (ContentType h) @ be_bytes (HdrSubType h) @ be_bytes (HdrLength h) @ be_bytes (SpacecraftID h) @
    be_bytes (ProcessorID h) @ be_bytes (ApplicationID h)"
  let ?post = "map of_char (HdrDescription h) @ rest"
  have c: "Content f = ?pre @ be_bytes (TimeSeconds h) @ be_bytes (TimeSubSeconds h) @ ?post"
    using assms(2) by (simp add: header_bytes_def)
  have "put_at 28 (be_bytes (Subseconds t)) (put_at 24 (be_bytes (Seconds t)) (Content f)) =
    ?pre @ be_bytes (Seconds t) @ be_bytes (Subseconds t) @ ?post"
    unfolding c
    using put_at_mid [of "be_bytes (TimeSeconds h)" "be_bytes (Seconds t)" 24 ?pre "be_bytes (TimeSubSeconds h) @ ?post"]
      put_at_mid [of "be_bytes (TimeSubSeconds h)" "be_bytes (Subseconds t)" 28 "?pre @ be_bytes (Seconds t)" ?post]
    by simp
  then show ?thesis
    using four by (simp add: CFE_FS_SetTimestamp_def OS_lseek_def OS_write_def nat Let_def header_bytes_def OS_File.defs)
qed

text \<open>A processor and a header for the witness below.\<close>

definition env1 :: FS_Env where
  "env1 = \<lparr>LittleEndian = True, EnvSpacecraft = 66, EnvProcessor = 1, EnvAppID = 0x110001,
     EnvTime = \<lparr>Seconds = 1000, Subseconds = 7\<rparr>\<rparr>"

definition hdr1 :: CFE_FS_Header where
  "hdr1 = the (CFE_FS_InitHeader (Some (header_of False (replicate 64 0))) (Some ''log'') 16)"

text \<open>
  C24. A processor of either byte order that writes the header of a file, with the operating system taking all of it, puts
  the same 64 big-endian bytes at the start of the file and leaves the rest of the file alone; the caller's header is the
  one with the identification, length and time filled in.  A processor of either byte order reads that header back.  A new
  time stamp, set by a processor of either byte order, changes the time in the header that is then read and nothing else.
\<close>

theorem fs_header_roundtrip:
  assumes "length (HdrDescription h) = 32"
    and "CFE_FS_WriteHeader env None 64 f (Some h) = (st, f1, hp)"
    and "CFE_FS_SetTimestamp l1 None 4 4 f1 t = (st2, f2)"
  shows "st = 64 \<and> hp = Some (stamped env h) \<and> Content f1 = be_header (stamped env h) @ drop 64 (Content f) \<and>
    CFE_FS_ReadHeader l2 None 64 (Some h0) f1 = (64, hp, f1) \<and> st2 = CFE_SUCCESS \<and>
    drop 64 (Content f2) = drop 64 (Content f) \<and>
    CFE_FS_ReadHeader l2 None 64 (Some h0) f2 =
      (64, Some ((stamped env h)\<lparr>TimeSeconds := Seconds t, TimeSubSeconds := Subseconds t\<rparr>), f2\<lparr>Position := 64\<rparr>)"
proof -
  let ?h = "stamped env h"
  let ?h2 = "?h\<lparr>TimeSeconds := Seconds t, TimeSubSeconds := Subseconds t\<rparr>"
  have w: "st = 64" "hp = Some ?h" "f1 = \<lparr>Content = be_header ?h @ drop 64 (Content f), Position = 64\<rparr>"
    using assms(2) WriteHeader_full [OF assms(1), of env f] by auto
  have d: "length (HdrDescription ?h) = 32" "length (HdrDescription ?h2) = 32" using assms(1) by simp_all
  have s: "st2 = 0" "f2 = \<lparr>Content = be_header ?h2 @ drop 64 (Content f), Position = 32\<rparr>"
    using assms(3) SetTimestamp_full [OF d(1), of f1 "drop 64 (Content f)" l1 t] w(3) by auto
  show ?thesis
    using w s ReadHeader_full [OF d(1), of f1 l2 h0] ReadHeader_full [OF d(2), of f2 l2 h0] d by (simp add: OS_File.defs)
qed

theorem fs_header_roundtrip_witness:
  "\<exists>f1 f2. CFE_FS_WriteHeader env1 None 64 \<lparr>Content = [1, 2, 3], Position = 3\<rparr> (Some hdr1) = (64, f1, Some (stamped env1 hdr1)) \<and>
     CFE_FS_SetTimestamp False None 4 4 f1 \<lparr>Seconds = 2000, Subseconds = 8\<rparr> = (0, f2) \<and>
     TimeSeconds (the (fst (snd (CFE_FS_ReadHeader True None 64 (Some hdr1) f2)))) = 2000"
proof -
  obtain st f1 hp where w: "CFE_FS_WriteHeader env1 None 64 \<lparr>Content = [1, 2, 3], Position = 3\<rparr> (Some hdr1) = (st, f1, hp)"
    by (metis prod_cases3)
  obtain st2 f2 where s: "CFE_FS_SetTimestamp False None 4 4 f1 \<lparr>Seconds = 2000, Subseconds = 8\<rparr> = (st2, f2)"
    by (metis prod.exhaust)
  have "length (HdrDescription hdr1) = 32" by (simp add: hdr1_def CFE_FS_InitHeader_def)
  from fs_header_roundtrip [OF this w s] w s show ?thesis
    by (intro exI [of _ f1] exI [of _ f2]) simp
qed

end
