(* ===== verification/CFE_FS_Dump.thy ===== *)
theory CFE_FS_Dump
  imports CFE_FS_Hdr "HOL-Library.Multiset"
begin

unbundle bit_operations_syntax

text \<open>
  The background file writer: its requests are a queue that takes three of them and is served in order, whatever the
  interleaving of requests with the sections of the job, as long as no two tasks post the same data at the same time; and a request whose data comes to an end is served to the end.
\<close>

section \<open>The queue of requests\<close>

lemma fs_slot_mod: "fs_slot a = unat a mod 4"
proof -
  have "(3 :: u32) = mask 2" by (simp add: mask_eq_exp_minus_1)
  then have "a AND 3 = take_bit 2 a" by (simp only: take_bit_eq_mask)
  then show ?thesis by (simp add: fs_slot_def take_bit_eq_mod unat_mod)
qed

lemma fs_slot_add: "fs_slot (a + of_nat j) = (unat a + j) mod 4"
proof -
  have d: "(x mod 4294967296) mod 4 = x mod (4 :: nat)" for x by (rule mod_mod_cancel) simp
  have "unat (a + of_nat j) mod 4 = (unat a + j) mod 4" by (simp add: unat_word_ariths unat_of_nat mod_simps d)
  then show ?thesis by (simp add: fs_slot_mod)
qed

lemma fs_slot_lt [simp]: "fs_slot a < 4"
  by (simp add: fs_slot_mod)

text \<open>Places in the ring at most three apart are different.\<close>

lemma fs_slot_neq: "i < 4 \<Longrightarrow> j < 4 \<Longrightarrow> i \<noteq> j \<Longrightarrow> fs_slot (a + of_nat i) \<noteq> fs_slot (a + of_nat j)"
proof (induction i j rule: linorder_wlog)
  case (le i j)
  show ?case
  proof
    assume "fs_slot (a + of_nat i) = fs_slot (a + of_nat j)"
    then have "4 dvd (unat a + j) - (unat a + i)" using le mod_eq_dvd_iff_nat [of "unat a + i" "unat a + j" 4] by (simp add: fs_slot_add)
    then have "4 dvd j - i" by simp
    then show False using le by (auto dest: dvd_imp_le)
  qed
qed metis

definition fs_pending :: "CFE_FS_Global \<Rightarrow> nat" where
  "fs_pending g = unat (RequestCount g - CompleteCount g)"

definition fs_queue :: "CFE_FS_Global \<Rightarrow> nat list" where
  "fs_queue g = map (\<lambda>j. the (Entries g ! fs_slot (CompleteCount g + of_nat j))) [0 ..< fs_pending g]"

definition fs_inv :: "CFE_FS_Global \<Rightarrow> bool" where
  "fs_inv g \<longleftrightarrow> length (Entries g) = 4 \<and> fs_pending g \<le> 3 \<and>
     (\<forall>j < fs_pending g. Entries g ! fs_slot (CompleteCount g + of_nat j) \<noteq> NULL) \<and> distinct (fs_queue g) \<and>
     (\<forall>m. IsPending (Metas g m) \<longleftrightarrow> m \<in> set (fs_queue g))"

lemma length_fs_queue [simp]: "length (fs_queue g) = fs_pending g"
  by (simp add: fs_queue_def)

lemma fs_queue_nth: "j < fs_pending g \<Longrightarrow> fs_queue g ! j = the (Entries g ! fs_slot (CompleteCount g + of_nat j))"
  by (simp add: fs_queue_def)

text \<open>What does not touch the requests leaves the queue and its invariant alone.\<close>

lemma fs_queue_same:
  assumes "RequestCount g' = RequestCount g" "CompleteCount g' = CompleteCount g" "Entries g' = Entries g" "Metas g' = Metas g"
  shows "fs_queue g' = fs_queue g" and "fs_inv g' = fs_inv g" and "fs_pending g' = fs_pending g"
  using assms by (simp_all add: fs_queue_def fs_inv_def fs_pending_def)

text \<open>A request: it is taken exactly if it is complete, not queued already, and fewer than three are queued.\<close>

definition fs_valid :: "CFE_FS_FileWriteMetaData \<Rightarrow> bool" where
  "fs_valid md \<longleftrightarrow> GetData md \<noteq> NULL \<and> OnEvent md \<noteq> NULL \<and> cstring (FileName md) \<noteq> []"

lemma request_full: "RequestCount g + 1 = CompleteCount g + 4 \<longleftrightarrow> fs_pending g = 3"
proof -
  have "RequestCount g + 1 = CompleteCount g + 4 \<longleftrightarrow> RequestCount g - CompleteCount g = 3" by (auto simp: algebra_simps)
  also have "\<dots> \<longleftrightarrow> unat (RequestCount g - CompleteCount g) = unat (3 :: u32)" by (simp only: word_unat_eq_iff)
  finally show ?thesis by (simp add: fs_pending_def)
qed

lemma request_pending: "fs_pending g \<le> 3 \<Longrightarrow> unat (RequestCount g + 1 - CompleteCount g) = Suc (fs_pending g)"
  and request_slot: "fs_slot (RequestCount g) = fs_slot (CompleteCount g + of_nat (fs_pending g))"
proof -
  have r: "RequestCount g = CompleteCount g + of_nat (fs_pending g)" by (simp add: fs_pending_def)
  then show "fs_slot (RequestCount g) = fs_slot (CompleteCount g + of_nat (fs_pending g))" by simp
  assume p: "fs_pending g \<le> 3"
  have "RequestCount g + 1 - CompleteCount g = of_nat (Suc (fs_pending g))" by (subst r) simp
  then show "unat (RequestCount g + 1 - CompleteCount g) = Suc (fs_pending g)" using p by (simp only: unat_of_nat) simp
qed

lemma fs_check:
  "fs_inv g \<Longrightarrow> request_check (Some m) g = CFE_SUCCESS \<longleftrightarrow> fs_valid (Metas g m) \<and> m \<notin> set (fs_queue g)"
  by (auto simp: request_check_def fs_valid_def fs_inv_def Let_def)

text \<open>The locked section relies on the check: the caller's data must not be queued.\<close>

lemma fs_post:
  assumes inv: "fs_inv g" and new: "m \<notin> set (fs_queue g)" and call: "request_post m g = (st, g')"
  shows "if fs_pending g < 3
    then st = CFE_SUCCESS \<and> fs_queue g' = fs_queue g @ [m] \<and> fs_inv g' \<and> Current g' = Current g
    else st \<noteq> CFE_SUCCESS \<and> g' = g"
proof (cases "fs_pending g < 3")
  case True
  let ?n = "fs_pending g" and ?c = "CompleteCount g"
  have g': "st = CFE_SUCCESS" "g' = g\<lparr>Entries := (Entries g)[fs_slot (RequestCount g) := Some m],
      Metas := (Metas g)(m := (Metas g m)\<lparr>IsPending := True\<rparr>), RequestCount := RequestCount g + 1\<rparr>"
    using call True request_full [of g] by (auto simp: request_post_def Let_def split: if_splits)
  have len: "length (Entries g) = 4" using inv by (simp add: fs_inv_def)
  have n: "fs_pending g' = Suc ?n" using request_pending [of g] True by (simp add: g'(2) fs_pending_def [of "_\<lparr>RequestCount := _\<rparr>"])
  have slot: "Entries g' ! fs_slot (?c + of_nat j) = (if j = ?n then Some m else Entries g ! fs_slot (?c + of_nat j))" if "j \<le> ?n" for j
    using that True fs_slot_neq [of j ?n ?c] len by (auto simp: g'(2) request_slot nth_list_update)
  have c: "CompleteCount g' = ?c" by (simp add: g'(2))
  have q: "fs_queue g' = fs_queue g @ [m]"
    unfolding fs_queue_def n c by (simp add: slot)
  have "fs_inv g'"
    unfolding fs_inv_def n c
  proof (intro conjI allI impI)
    fix j assume "j < Suc ?n"
    then show "Entries g' ! fs_slot (?c + of_nat j) \<noteq> NULL" using slot [of j] inv by (auto simp: fs_inv_def)
  next
    fix x
    have "IsPending (Metas g x) \<longleftrightarrow> x \<in> set (fs_queue g)" using inv by (simp add: fs_inv_def)
    then show "IsPending (Metas g' x) \<longleftrightarrow> x \<in> set (fs_queue g')" unfolding q by (auto simp: g'(2))
  qed (use len True inv new q in \<open>auto simp: g'(2) fs_inv_def\<close>)
  then show ?thesis using True g' q by simp
next
  case False
  then show ?thesis
    using call inv request_full [of g] by (auto simp: request_post_def Let_def fs_inv_def split: if_splits)
qed

lemma request_post_frame:
  assumes "request_post m g = (st, g')"
  shows "CompleteCount g' = CompleteCount g" and "fs_valid (Metas g' x) = fs_valid (Metas g x)"
  using assms by (auto simp: request_post_def Let_def fs_valid_def split: if_splits)

lemma fs_request:
  assumes inv: "fs_inv g" and call: "CFE_FS_BackgroundFileDumpRequest (Some m) g = (st, g')"
  shows "if fs_valid (Metas g m) \<and> m \<notin> set (fs_queue g) \<and> fs_pending g < 3
    then st = CFE_SUCCESS \<and> fs_queue g' = fs_queue g @ [m] \<and> fs_inv g' \<and> Current g' = Current g
    else st \<noteq> CFE_SUCCESS \<and> g' = g"
proof (cases "request_check (Some m) g = CFE_SUCCESS")
  case True
  then have c: "fs_valid (Metas g m) \<and> m \<notin> set (fs_queue g)" using fs_check [OF inv] by simp
  have p: "request_post m g = (st, g')" using call True by (simp add: CFE_FS_BackgroundFileDumpRequest_def)
  show ?thesis using fs_post [OF inv _ p] c by simp
next
  case False
  then show ?thesis using call fs_check [OF inv, of m] by (auto simp: CFE_FS_BackgroundFileDumpRequest_def Let_def)
qed

text \<open>A request that is done leaves the queue at its head.\<close>

lemma fs_finish_pops:
  assumes inv: "fs_inv g" and q: "fs_queue g = m # q" and fd: "Fd (Current g) = 0"
  shows "fs_queue (fs_finish (fs_slot (CompleteCount g)) m g) = q" and "fs_inv (fs_finish (fs_slot (CompleteCount g)) m g)"
proof -
  let ?g = "fs_finish (fs_slot (CompleteCount g)) m g" and ?c = "CompleteCount g"
  have g': "?g = g\<lparr>Entries := (Entries g)[fs_slot ?c := NULL], CompleteCount := ?c + 1,
      Metas := (Metas g)(m := (Metas g m)\<lparr>IsPending := False\<rparr>)\<rparr>" using fd by (simp add: fs_finish_def)
  obtain n where n: "fs_pending g = Suc n" using q by (metis length_fs_queue length_Cons)
  have "unat (RequestCount g - (?c + 1)) = n"
  proof -
    have "RequestCount g - ?c = of_nat (fs_pending g)" by (simp add: fs_pending_def)
    then have "RequestCount g - (?c + 1) = of_nat n" using n by (simp add: algebra_simps)
    then show ?thesis using inv n by (simp add: fs_inv_def unat_of_nat)
  qed
  then have n': "fs_pending ?g = n" by (simp add: fs_pending_def g')
  have slot: "Entries ?g ! fs_slot (CompleteCount ?g + of_nat j) = Entries g ! fs_slot (?c + of_nat (Suc j))" if "j < n" for j
  proof -
    have "fs_slot (?c + of_nat (Suc j)) \<noteq> fs_slot (?c + of_nat 0)" using that inv n by (intro fs_slot_neq) (auto simp: fs_inv_def)
    then show ?thesis by (simp add: g' add.assoc add.commute [of 1])
  qed
  show que: "fs_queue ?g = q"
  proof (rule nth_equalityI)
    show "length (fs_queue ?g) = length q" using n' n q by (metis length_fs_queue length_Cons nat.inject)
    fix j assume "j < length (fs_queue ?g)"
    then have j: "j < n" using n' by simp
    then have "fs_queue ?g ! j = fs_queue g ! Suc j" using slot n n' by (simp add: fs_queue_nth del: of_nat_Suc)
    then show "fs_queue ?g ! j = q ! j" using q by simp
  qed
  show "fs_inv ?g"
    unfolding fs_inv_def n' que
  proof (intro conjI allI impI)
    fix j assume "j < n"
    then show "Entries ?g ! fs_slot (CompleteCount ?g + of_nat j) \<noteq> NULL" using slot inv n by (simp add: fs_inv_def del: of_nat_Suc)
  next
    fix x
    have "IsPending (Metas g x) \<longleftrightarrow> x \<in> set (m # q)" "distinct (m # q)" using inv q by (simp_all add: fs_inv_def)
    then show "IsPending (Metas ?g x) \<longleftrightarrow> x \<in> set q" by (auto simp: g')
  qed (use inv n q in \<open>auto simp: g' fs_inv_def\<close>)
qed

text \<open>The sections of the job before the last one leave the requests alone.\<close>

definition same_requests :: "CFE_FS_Global \<Rightarrow> CFE_FS_Global \<Rightarrow> bool" where
  "same_requests g g' \<longleftrightarrow> RequestCount g' = RequestCount g \<and> CompleteCount g' = CompleteCount g \<and> Entries g' = Entries g \<and>
     Metas g' = Metas g"

lemma same_requests_trans: "same_requests g g1 \<Longrightarrow> same_requests g1 g2 \<Longrightarrow> same_requests g g2"
  by (simp add: same_requests_def)

lemma same_requests_queue: "same_requests g g' \<Longrightarrow> fs_queue g' = fs_queue g \<and> fs_inv g' = fs_inv g"
  using fs_queue_same [of g' g] by (simp add: same_requests_def)

lemma fs_close_frame: "same_requests g (fs_close g)" "Fd (Current (fs_close g)) = 0"
  by (simp_all add: fs_close_def same_requests_def Let_def)

lemma fs_report_frame: "same_requests g (fs_report m ev st r b p g)" "Current (fs_report m ev st r b p g) = Current g"
  by (simp_all add: fs_report_def same_requests_def)

lemma fs_create_frame: "same_requests g (fs_create env ans m g)"
  by (auto simp: fs_create_def same_requests_def fs_report_def fs_close_def Let_def split: prod.splits)

lemma fs_write_loop_frame:
  assumes "fs_write_loop ans m eof r g = Some res"
  shows "same_requests g (snd res)"
proof (rule fs_write_loop.raw_induct [where P = "\<lambda>ans m eof r g res. same_requests g (snd res)", OF _ assms], goal_cases)
  case (1 loop ans m eof r g res)
  obtain e r' where gd: "the (GetData (Metas g m)) (RecordNum (Current g)) r = (e, r')" by fastforce
  obtain st f where w: "OS_write (RecordRet ans (RecordNum (Current g))) r' (OpenFile g) = (st, f)" by fastforce
  have ih: "same_requests g (snd res)" if "loop ans m e r' h = Some res" "same_requests g h" for h
    using 1(1) [OF that(1)] that(2) by (rule same_requests_trans [rotated])
  show ?case
    using 1(2) gd w
    by (auto simp: Let_def split: if_splits intro!: ih) (auto simp: same_requests_def fs_report_def fs_close_def Let_def)
qed

lemma fs_work_frame: "fs_work env ans m g = Some (eof, g') \<Longrightarrow> same_requests g g'"
proof -
  assume w: "fs_work env ans m g = Some (eof, g')"
  then obtain h where h: "fs_write_loop ans m False [] (fs_create env ans m g) = Some (eof, h)"
    "g' = h \<or> g' = fs_report m CFE_FS_FileWriteEvent_COMPLETE CFE_SUCCESS (RecordNum (Current (fs_close h))) 0
        (FileSize (Current (fs_close h))) (fs_close h)"
    by (auto simp: fs_work_def Let_def split: option.splits if_splits)
  have "same_requests g h" using same_requests_trans [OF fs_create_frame fs_write_loop_frame [OF h(1)]] by simp
  moreover have "same_requests h g'" using h(2) by (auto simp: same_requests_def fs_report_def fs_close_def Let_def)
  ultimately show ?thesis by (rule same_requests_trans)
qed

lemma fs_select_frame: "fs_select t g = (s, g') \<Longrightarrow> same_requests g g' \<and> s = (if fs_queue g = [] then NULL else Some (fs_slot (CompleteCount g)))"
proof -
  have "fs_queue g = [] \<longleftrightarrow> CompleteCount g = RequestCount g"
    by (auto simp: fs_queue_def fs_pending_def unat_eq_zero)
  then show "fs_select t g = (s, g') \<Longrightarrow> ?thesis" by (auto simp: fs_select_def same_requests_def Let_def)
qed

section \<open>Requests and the sections of the job, interleaved\<close>

datatype fs_phase = Idle | Selected nat | Worked nat nat

text \<open>
  The third component of the state are the requests that a task has checked and not posted yet.  With \<open>single\<close>, no two
  tasks are between the check and the post of the same data at the same time, and no task changes data that is being posted
  or pending (\<open>caller must not reuse/change this object until request is completed\<close>).
\<close>

inductive fs_step :: "bool \<Rightarrow> CFE_FS_Global \<times> fs_phase \<times> nat multiset \<Rightarrow> CFE_FS_Global \<times> fs_phase \<times> nat multiset \<Rightarrow> bool"
  for single where
  prepare: "\<not> IsPending (Metas g m) \<Longrightarrow> \<not> IsPending md \<Longrightarrow> m \<notin># C \<Longrightarrow>
     fs_step single (g, ph, C) (g\<lparr>Metas := (Metas g)(m := md)\<rparr>, ph, C)"
| check: "request_check (Some m) g = CFE_SUCCESS \<Longrightarrow> single \<longrightarrow> m \<notin># C \<Longrightarrow> fs_step single (g, ph, C) (g, ph, add_mset m C)"
| post: "m \<in># C \<Longrightarrow> request_post m g = (st, g') \<Longrightarrow> fs_step single (g, ph, C) (g', ph, C - {#m#})"
| none: "fs_select t g = (NULL, g') \<Longrightarrow> fs_step single (g, Idle, C) (g', Idle, C)"
| select: "fs_select t g = (Some slot, g') \<Longrightarrow> fs_step single (g, Idle, C) (g', Selected slot, C)"
| work: "fs_work env ans m g = Some (eof, g') \<Longrightarrow> m = the (Entries g ! slot) \<Longrightarrow>
     fs_step single (g, Selected slot, C) (g', Worked slot m, C)"
| finish: "fs_step single (g, Worked slot m, C) (fs_finish slot m g, Idle, C)"

definition phase_ok :: "CFE_FS_Global \<Rightarrow> fs_phase \<Rightarrow> bool" where
  "phase_ok g ph =
     (case ph of Idle \<Rightarrow> True
      | Selected slot \<Rightarrow> fs_queue g \<noteq> [] \<and> slot = fs_slot (CompleteCount g)
      | Worked slot m \<Rightarrow> fs_queue g \<noteq> [] \<and> slot = fs_slot (CompleteCount g) \<and> m = hd (fs_queue g))"

definition checked_ok :: "CFE_FS_Global \<Rightarrow> nat multiset \<Rightarrow> bool" where
  "checked_ok g C \<longleftrightarrow> (\<forall>m. count C m \<le> 1) \<and> (\<forall>m \<in># C. m \<notin> set (fs_queue g) \<and> fs_valid (Metas g m))"

definition fs_ok :: "CFE_FS_Global \<times> fs_phase \<times> nat multiset \<Rightarrow> bool" where
  "fs_ok s \<longleftrightarrow> (case s of (g, ph, C) \<Rightarrow> fs_inv g \<and> phase_ok g ph \<and> checked_ok g C)"

lemma same_requests_ok:
  assumes "same_requests g g'"
  shows "checked_ok g' C = checked_ok g C" and "phase_ok g' ph = phase_ok g ph"
  using assms same_requests_queue [OF assms] by (simp add: same_requests_def checked_ok_def)
    (use assms same_requests_queue [OF assms] in \<open>cases ph; simp add: same_requests_def phase_ok_def\<close>)

text \<open>What a step may do to the queue: nothing, a new request behind the others, or taking away the first one.\<close>

inductive queue_step :: "nat list \<Rightarrow> nat list \<Rightarrow> bool" where
  same: "queue_step q q"
| enq: "m \<notin> set q \<Longrightarrow> length q < 3 \<Longrightarrow> queue_step q (q @ [m])"
| deq: "queue_step (m # q) q"

lemma fs_queue_hd: "fs_queue g \<noteq> [] \<Longrightarrow> hd (fs_queue g) = the (Entries g ! fs_slot (CompleteCount g))"
proof -
  assume "fs_queue g \<noteq> []"
  then have "0 < fs_pending g" by (metis length_fs_queue length_greater_0_conv)
  then show ?thesis using fs_queue_nth [of 0 g] \<open>fs_queue g \<noteq> []\<close> by (simp add: hd_conv_nth)
qed

lemma prepare_queue:
  assumes "fs_inv g" and "\<not> IsPending (Metas g m)" and "\<not> IsPending md"
  shows "fs_queue (g\<lparr>Metas := (Metas g)(m := md)\<rparr>) = fs_queue g" and "fs_inv (g\<lparr>Metas := (Metas g)(m := md)\<rparr>)"
proof -
  have p: "fs_pending (g\<lparr>Metas := (Metas g)(m := md)\<rparr>) = fs_pending g" by (simp add: fs_pending_def)
  show q: "fs_queue (g\<lparr>Metas := (Metas g)(m := md)\<rparr>) = fs_queue g" unfolding fs_queue_def p by simp
  show "fs_inv (g\<lparr>Metas := (Metas g)(m := md)\<rparr>)" unfolding fs_inv_def q p using assms by (simp add: fs_inv_def)
qed

lemma post_ok:
  assumes inv: "fs_inv g" "phase_ok g ph" "checked_ok g C" and m: "m \<in># C" and call: "request_post m g = (st, g')"
  shows "fs_inv g' \<and> phase_ok g' ph \<and> checked_ok g' (C - {#m#}) \<and> queue_step (fs_queue g) (fs_queue g')"
proof -
  have new: "m \<notin> set (fs_queue g)" using inv(3) m by (simp add: checked_ok_def)
  have one: "m \<notin># C - {#m#}" using inv(3) by (simp add: checked_ok_def not_in_iff)
  note f = request_post_frame [OF call]
  show ?thesis
  proof (cases "fs_pending g < 3")
    case True
    then have q: "fs_queue g' = fs_queue g @ [m]" "fs_inv g'" using fs_post [OF inv(1) new call] by simp_all
    have "queue_step (fs_queue g) (fs_queue g @ [m])" using True new by (intro queue_step.enq) simp_all
    moreover have "phase_ok g' ph" using inv(2) q f(1) by (cases ph) (simp_all add: phase_ok_def)
    moreover have "x \<notin> set (fs_queue g') \<and> fs_valid (Metas g' x)" if x: "x \<in># C - {#m#}" for x
      using x one inv(3) q(1) f(2) in_diffD [OF x] by (auto simp: checked_ok_def)
    moreover have "count (C - {#m#}) x \<le> 1" for x using inv(3) by (auto simp: checked_ok_def intro: le_trans [OF diff_le_self])
    ultimately show ?thesis using q by (simp add: checked_ok_def)
  next
    case False
    then have "g' = g" using fs_post [OF inv(1) new call] by simp
    moreover have "checked_ok g (C - {#m#})" using inv(3) by (auto simp: checked_ok_def dest: in_diffD intro: le_trans [OF diff_le_self])
    ultimately show ?thesis using inv by (simp add: queue_step.same)
  qed
qed

lemma fs_step_ok:
  assumes ok: "fs_ok (g, ph, C)" and step: "fs_step True (g, ph, C) (g', ph', C')"
  shows "fs_ok (g', ph', C') \<and> queue_step (fs_queue g) (fs_queue g')"
proof -
  have inv: "fs_inv g" "phase_ok g ph" "checked_ok g C" using ok by (simp_all add: fs_ok_def)
  have quiet: ?thesis if "same_requests g g'" "phase_ok g ph'" "C' = C"
    using that inv same_requests_ok [OF that(1)] same_requests_queue [OF that(1)] by (simp add: fs_ok_def queue_step.same)
  show ?thesis using step
  proof cases
    case (prepare m md)
    then have "checked_ok g' C" "phase_ok g' ph"
      using inv prepare_queue(1) [OF inv(1) prepare(4,5)] by (auto simp: checked_ok_def phase_ok_def cong: fs_phase.case_cong)
    then show ?thesis using prepare prepare_queue [OF inv(1) prepare(4,5)] by (simp add: fs_ok_def queue_step.same)
  next
    case (check m)
    then have "checked_ok g C'" using inv(3) fs_check [OF inv(1), of m] by (auto simp: checked_ok_def not_in_iff)
    then show ?thesis using check inv by (simp add: fs_ok_def queue_step.same)
  next
    case (post m st)
    then show ?thesis using post_ok [OF inv post(3,4)] by (simp add: fs_ok_def)
  next
    case (none t)
    then show ?thesis using quiet fs_select_frame [OF none(4)] inv by simp
  next
    case (select t slot)
    then have "same_requests g g'" "phase_ok g ph'" using fs_select_frame [OF select(4)] by (auto simp: phase_ok_def split: if_splits)
    then show ?thesis using quiet select by simp
  next
    case (work env ans m eof slot)
    then have "same_requests g g'" "phase_ok g ph'" using fs_work_frame inv(2) fs_queue_hd [of g] by (auto simp: phase_ok_def)
    then show ?thesis using quiet work by simp
  next
    case (finish slot m)
    then obtain q where q: "fs_queue g = m # q" and slot: "slot = fs_slot (CompleteCount g)"
      using inv(2) by (cases "fs_queue g") (auto simp: phase_ok_def)
    show ?thesis
    proof (cases "Fd (Current g) = 0")
      case True
      note pop = fs_finish_pops [OF inv(1) q True]
      have "fs_valid (Metas (fs_finish slot m g) x) = fs_valid (Metas g x)" for x by (simp add: fs_finish_def fs_valid_def)
      then have "checked_ok (fs_finish slot m g) C" using inv(3) pop(1) q slot by (simp add: checked_ok_def)
      then show ?thesis using pop finish slot q by (simp add: fs_ok_def phase_ok_def queue_step.deq)
    next
      case False
      then show ?thesis using finish inv by (simp add: fs_ok_def fs_finish_def phase_ok_def queue_step.same)
    qed
  qed
qed

lemma fs_init_ok:
  assumes "CFE_FS_EarlyInit ms g00 = (st, g0)" "\<forall>m. \<not> IsPending (Metas g00 m)"
  shows "fs_ok (g0, Idle, {#})"
  using assms by (auto simp: CFE_FS_EarlyInit_def fs_ok_def fs_inv_def fs_pending_def fs_queue_def phase_ok_def checked_ok_def)

lemma fs_reachable_ok: "(fs_step True)\<^sup>*\<^sup>* s s' \<Longrightarrow> fs_ok s \<Longrightarrow> fs_ok s'"
proof (induction rule: rtranclp_induct)
  case (step y z)
  then show ?case using fs_step_ok by (cases y; cases z) blast
qed

section \<open>Serving a request\<close>

text \<open>Signed credit: the operations on it as on integers while it stays in range.\<close>

lemma sint_small: "n < 2 ^ 30 \<Longrightarrow> sint (of_nat n :: int32) = int n"
proof -
  assume n: "n < 2 ^ 30"
  then have "uint (of_nat n :: int32) = int n" by (simp add: uint_nat unat_of_nat)
  moreover have "signed_take_bit 31 (int n) = int n" using n by (intro signed_take_bit_int_eq_self) auto
  ultimately show ?thesis by (simp add: sint_uint)
qed

lemma credit_sub:
  assumes "sint c - int n \<ge> - (2 ^ 31)" "n < 2 ^ 30"
  shows "sint (c - of_nat n :: int32) = sint c - int n"
proof -
  have "sint (of_nat n :: int32) = int n" using assms(2) by (rule sint_small)
  moreover have "sint c < 2 ^ 31" using sint_lt [of c] by simp
  ultimately show ?thesis using assms by (simp add: sint_word_ariths signed_take_bit_int_eq_self)
qed

definition credit_after :: "u32 \<Rightarrow> int32 \<Rightarrow> int32" where
  "credit_after t c = (let c = c + (t * 10000) div 1000 in if 10000 <s c then 10000 else c)"

lemma credit_grows:
  assumes t: "1 \<le> unat t" "unat t \<le> 400000" and c: "- (2 ^ 30) - 64 \<le> sint c" "sint c \<le> 10000"
  shows "sint (credit_after t c) = min 10000 (sint c + 10 * int (unat t))"
proof -
  have m: "unat (t * 10000) = unat t * 10000" using t(2) by (simp add: unat_word_ariths)
  then have d: "unat (t * 10000 div 1000) = unat t * 10" by (simp add: unat_div)
  obtain n where n: "n = unat t * 10" by simp
  then have e: "t * 10000 div 1000 = of_nat n" using t(2) by (simp add: word_unat_eq_iff unat_word_ariths d)
  have "sint (of_nat n :: int32) = int n" using n t(2) by (intro sint_small) simp
  moreover have "n \<le> 4000000" using n t(2) by linarith
  then have "int n \<le> 4000000" by linarith
  ultimately have "sint (c + of_nat n) = sint c + int n" using c by (simp add: sint_word_ariths signed_take_bit_int_eq_self)
  then show ?thesis unfolding credit_after_def e using n by (simp add: Let_def word_sless_alt min_def)
qed

lemma credit_kept:
  assumes "1 \<le> unat t" "unat t \<le> 400000" "- (2 ^ 30) - 64 \<le> sint c" "sint c \<le> 10000"
  shows "sint c \<le> sint (credit_after t c)" and "sint (credit_after t c) \<le> 10000"
proof -
  have "0 \<le> int (unat t)" by (rule of_nat_0_le_iff)
  then show "sint c \<le> sint (credit_after t c)" "sint (credit_after t c) \<le> 10000"
    unfolding credit_grows [OF assms] using assms(4) by linarith+
qed

text \<open>A request whose getter gives the records \<open>rs\<close>, the last of them marked, and a file system that takes all of it.\<close>

definition gives_records :: "CFE_FS_FileWriteMetaData \<Rightarrow> u8 list list \<Rightarrow> bool" where
  "gives_records md rs \<longleftrightarrow> rs \<noteq> [] \<and> length rs < 2 ^ 32 \<and> length (concat rs) < 2 ^ 30 \<and>
     (\<forall>i < length rs. \<forall>prev. the (GetData md) (of_nat i) prev = (Suc i = length rs, rs ! i))"

definition device_takes :: "FS_Answers \<Rightarrow> u8 list list \<Rightarrow> bool" where
  "device_takes ans rs \<longleftrightarrow> \<not> CreateStatus ans <s 0 \<and> CreateFd ans \<noteq> 0 \<and> HeaderSeek ans = None \<and> HeaderRet ans = 64 \<and>
     (\<forall>i < length rs. RecordRet ans (of_nat i) = of_nat (length (rs ! i)))"

definition dump_header :: "FS_Env \<Rightarrow> CFE_FS_FileWriteMetaData \<Rightarrow> u8 list" where
  "dump_header env md = be_header (stamped env
     (the (CFE_FS_InitHeader (Some (header_of False (replicate 64 0))) (Some (MetaDescription md)) (FileSubType md))))"

lemma length_dump_header [simp]: "length (dump_header env md) = 64"
  by (simp add: dump_header_def CFE_FS_InitHeader_def)

text \<open>The state in which \<open>i\<close> records are written and the credit is \<open>c\<close>.\<close>

definition writing :: "FS_Env \<Rightarrow> FS_Answers \<Rightarrow> nat \<Rightarrow> u8 list list \<Rightarrow> CFE_FS_Global \<Rightarrow> nat \<Rightarrow> int32 \<Rightarrow> CFE_FS_Global" where
  "writing env ans m rs g i c =
     (let bs = dump_header env (Metas g m) @ concat (take i rs)
      in g\<lparr>OpenName := cstring (FileName (Metas g m)), OpenFile := \<lparr>Content = bs, Position = length bs\<rparr>,
           Current := \<lparr>Fd = CreateFd ans, Credit = c, RecordNum = of_nat i, FileSize = of_nat (length bs)\<rparr>\<rparr>)"

lemma create_writing:
  assumes "device_takes ans rs" "Fd (Current g) = 0" "IsPending (Metas g m)"
  shows "fs_create env ans m g = writing env ans m rs g 0 (Credit (Current g) - 64)"
  using assms
  by (simp add: fs_create_def device_takes_def writing_def Let_def WriteHeader_full dump_header_def CFE_FS_InitHeader_def)

lemma create_again: "device_takes ans rs \<Longrightarrow> fs_create env ans m (writing env ans m rs g i c) = writing env ans m rs g i c"
  by (simp add: fs_create_def writing_def device_takes_def Let_def)

lemma length_record: "i < length rs \<Longrightarrow> length (rs ! i) \<le> length (concat rs)"
proof (induction rs arbitrary: i)
  case (Cons r rs)
  show ?case
  proof (cases i)
    case (Suc j)
    then show ?thesis using Cons.IH [of j] Cons.prems by simp
  qed simp
qed simp

lemma record_written:
  assumes ok: "gives_records (Metas g m) rs" "device_takes ans rs" and i: "i < length rs" and c: "0 <s c"
  shows "fs_write_loop ans m False prev (writing env ans m rs g i c) =
    fs_write_loop ans m (Suc i = length rs) (rs ! i) (writing env ans m rs g (Suc i) (c - of_nat (length (rs ! i))))"
proof -
  let ?w = "writing env ans m rs g i c" and ?r = "rs ! i"
  have small: "length ?r < 2 ^ 30" using length_record [OF i] ok(1) by (simp add: gives_records_def)
  then have sg: "\<not> (of_nat (length ?r) :: int32) <s 0" "unat (of_nat (length ?r) :: int32) = length ?r"
    by (simp_all add: word_sless_alt sint_small unat_of_nat)
  have sc: "(scast (of_nat (length ?r) :: int32) :: u64) = of_nat (length ?r)"
    using sint_small [OF small] by (metis of_int_of_nat_eq of_int_sint)
  have t: "take (Suc i) rs = take i rs @ [?r]" using i by (simp add: take_Suc_conv_app_nth)
  have gd: "the (GetData (Metas g m)) (of_nat i) prev = (Suc i = length rs, ?r)" using ok(1) i by (simp add: gives_records_def)
  have rr: "RecordRet ans (of_nat i) = of_nat (length ?r)" "CreateFd ans \<noteq> 0" using ok(2) i by (simp_all add: device_takes_def)
  show ?thesis
  proof (cases "?r = []")
    case True
    then show ?thesis using gd rr c t by (subst fs_write_loop.simps) (simp add: writing_def Let_def ac_simps)
  next
    case False
    have "put_at (64 + length (concat (take i rs))) ?r (dump_header env (Metas g m) @ concat (take i rs)) =
        dump_header env (Metas g m) @ concat (take i rs) @ ?r" by (simp add: put_at_def)
    then show ?thesis using gd rr c t sg sc False
      by (subst fs_write_loop.simps) (simp add: writing_def Let_def OS_write_def ac_simps)
  qed
qed

definition credit_ok :: "int32 \<Rightarrow> bool" where
  "credit_ok c \<longleftrightarrow> - (2 ^ 30) - 64 \<le> sint c \<and> sint c \<le> 10000"

text \<open>One turn of the loop: it stops without credit, goes on, or comes to the end of the file.\<close>

lemma loop_progress:
  assumes ok: "gives_records (Metas g m) rs" "device_takes ans rs" and i: "i < length rs" and c: "credit_ok c"
  shows "(\<exists>j c'. fs_write_loop ans m False prev (writing env ans m rs g i c) = Some (False, writing env ans m rs g j c') \<and>
        j < length rs \<and> credit_ok c' \<and> (if 0 <s c then i < j else j = i \<and> c' = c)) \<or>
    (\<exists>c'. fs_write_loop ans m False prev (writing env ans m rs g i c) = Some (True, writing env ans m rs g (length rs) c'))"
  using i c
proof (induction "length rs - i" arbitrary: i c prev)
  case (Suc k)
  let ?w = "writing env ans m rs g"
  show ?case
  proof (cases "0 <s c")
    case False
    then have "fs_write_loop ans m False prev (?w i c) = Some (False, ?w i c)"
      by (subst fs_write_loop.simps) (simp add: writing_def Let_def)
    then show ?thesis using Suc.prems False by auto
  next
    case True
    let ?c = "c - of_nat (length (rs ! i))"
    have small: "length (rs ! i) < 2 ^ 30" using length_record [OF Suc.prems(1)] ok(1) by (simp add: gives_records_def)
    have "sint ?c = sint c - int (length (rs ! i))"
      using True small by (intro credit_sub) (auto simp: word_sless_alt)
    then have c': "credit_ok ?c" using True small Suc.prems(2) by (auto simp: credit_ok_def word_sless_alt)
    note step = record_written [where prev = prev and env = env, OF ok Suc.prems(1) True]
    show ?thesis
    proof (cases "Suc i = length rs")
      case eof: True
      then have "fs_write_loop ans m False prev (?w i c) = Some (True, ?w (length rs) ?c)"
        using step by (simp add: fs_write_loop.simps)
      then show ?thesis by blast
    next
      case False
      then have lt: "Suc i < length rs" "k = length rs - Suc i" using Suc.prems(1) Suc.hyps(2) by auto
      have s: "fs_write_loop ans m False prev (?w i c) = fs_write_loop ans m False (rs ! i) (?w (Suc i) ?c)" using step False by simp
      show ?thesis unfolding s using Suc.hyps(1) [OF lt(2,1) c', of "rs ! i"] True by (auto split: if_splits) (metis Suc_lessD)
    qed
  qed
qed simp

text \<open>The job run again and again, every \<open>t\<close> milliseconds.\<close>

fun fs_runs :: "FS_Env \<Rightarrow> FS_Answers \<Rightarrow> u32 \<Rightarrow> nat \<Rightarrow> CFE_FS_Global \<Rightarrow> CFE_FS_Global option" where
  "fs_runs env ans t 0 g = Some g"
| "fs_runs env ans t (Suc n) g =
     (case CFE_FS_RunBackgroundFileDump env ans t g of None \<Rightarrow> None | Some (_, g) \<Rightarrow> fs_runs env ans t n g)"

definition served :: "FS_Env \<Rightarrow> nat \<Rightarrow> u8 list list \<Rightarrow> CFE_FS_Global \<Rightarrow> CFE_FS_Global \<Rightarrow> bool" where
  "served env m rs g g' \<longleftrightarrow>
     fs_queue g' = tl (fs_queue g) \<and> fs_inv g' \<and> \<not> IsPending (Metas g' m) \<and> Fd (Current g') = 0 \<and>
     Closed g' = Closed g @ [(cstring (FileName (Metas g m)), dump_header env (Metas g m) @ concat rs)] \<and>
     Reports g' = Reports g @ [(the (OnEvent (Metas g m)), m, CFE_FS_FileWriteEvent_COMPLETE, CFE_SUCCESS,
       of_nat (length rs), 0, of_nat (64 + length (concat rs)))]"

lemma writing_frame: "same_requests g (writing env ans m rs g i c)"
  by (simp add: writing_def same_requests_def Let_def)

lemma select_queue:
  assumes "fs_queue g = m # q"
  shows "fs_select t g = (Some (fs_slot (CompleteCount g)), upd_current (\<lambda>c. c\<lparr>Credit := credit_after t (Credit c)\<rparr>) g)"
proof -
  have "CompleteCount g \<noteq> RequestCount g" using assms by (auto simp: fs_queue_def fs_pending_def)
  then show ?thesis by (simp add: fs_select_def credit_after_def Let_def)
qed

lemma run_queue:
  assumes q: "fs_queue g = m # q" and g1: "g1 = upd_current (\<lambda>c. c\<lparr>Credit := credit_after t (Credit c)\<rparr>) g"
  shows "CFE_FS_RunBackgroundFileDump env ans t g =
    (case fs_work env ans m g1 of None \<Rightarrow> None | Some (eof, h) \<Rightarrow> Some (\<not> eof, fs_finish (fs_slot (CompleteCount g)) m h))"
proof -
  have "the (Entries g ! fs_slot (CompleteCount g)) = m" using fs_queue_hd [of g] q by simp
  then show ?thesis using select_queue [OF q, of t] g1 by (cases "fs_work env ans m g1") (simp_all add: CFE_FS_RunBackgroundFileDump_def Let_def)
qed

lemma served_end:
  assumes inv: "fs_inv g" and q: "fs_queue g = m # q" and d: "device_takes ans rs"
    and loop: "fs_write_loop ans m False [] (fs_create env ans m g1) = Some (True, writing env ans m rs g (length rs) c)"
  shows "\<exists>h. fs_work env ans m g1 = Some (True, h) \<and> served env m rs g (fs_finish (fs_slot (CompleteCount g)) m h)"
proof -
  define w where "w = writing env ans m rs g (length rs) c"
  define h where "h = fs_report m CFE_FS_FileWriteEvent_COMPLETE CFE_SUCCESS (RecordNum (Current (fs_close w))) 0
    (FileSize (Current (fs_close w))) (fs_close w)"
  let ?f = "fs_finish (fs_slot (CompleteCount g)) m h"
  have work: "fs_work env ans m g1 = Some (True, h)" using loop by (simp add: fs_work_def Let_def h_def w_def)
  have s: "same_requests g h"
    unfolding h_def w_def by (rule same_requests_trans [OF same_requests_trans [OF writing_frame fs_close_frame(1)] fs_report_frame(1)])
  have h: "fs_inv h" "fs_queue h = m # q" "CompleteCount h = CompleteCount g" "Metas h = Metas g"
    using same_requests_queue [OF s] inv q s by (simp_all add: same_requests_def)
  have fd: "Fd (Current h) = 0" unfolding h_def by (simp only: fs_report_frame fs_close_frame)
  have "fs_queue ?f = q" "fs_inv ?f" using fs_finish_pops [OF h(1,2) fd] unfolding h(3) .
  moreover have "\<not> IsPending (Metas ?f m)" "Fd (Current ?f) = 0" "Closed ?f = Closed h" "Reports ?f = Reports h"
    using fd by (simp_all add: fs_finish_def)
  moreover have "Closed h = Closed g @ [(cstring (FileName (Metas g m)), dump_header env (Metas g m) @ concat rs)]"
    using d unfolding h_def w_def by (simp add: fs_report_def fs_close_def writing_def device_takes_def Let_def)
  moreover have "Reports h = Reports g @ [(the (OnEvent (Metas g m)), m, CFE_FS_FileWriteEvent_COMPLETE, CFE_SUCCESS,
       of_nat (length rs), 0, of_nat (64 + length (concat rs)))]"
    using d unfolding h_def w_def by (simp add: fs_report_def fs_close_def writing_def device_takes_def Let_def)
  ultimately show ?thesis using work q unfolding served_def by (intro exI [of _ h]) simp
qed

lemma runs_writing:
  assumes ok: "gives_records (Metas g m) rs" "device_takes ans rs" and inv: "fs_inv g" and q: "fs_queue g = m # q"
    and t: "1 \<le> unat t" "unat t \<le> 400000" and i: "i < length rs" and c: "credit_ok c"
  shows "\<exists>n g'. fs_runs env ans t n (writing env ans m rs g i c) = Some g' \<and> served env m rs g g'"
  using i c
proof (induction "(length rs - i) * 2 ^ 32 + nat (2 ^ 31 - sint c)" arbitrary: i c rule: less_induct)
  case less
  let ?w = "writing env ans m rs g"
  let ?c = "credit_after t c"
  have s: "CompleteCount (?w i c) = CompleteCount g" "fs_queue (?w i c) = m # q"
    using writing_frame [of g env ans m rs i c] same_requests_queue [OF writing_frame [of g env ans m rs i c]] q
    by (simp_all add: same_requests_def)
  have g1: "?w i ?c = upd_current (\<lambda>x. x\<lparr>Credit := credit_after t (Credit x)\<rparr>) (?w i c)"
    by (simp add: writing_def Let_def)
  have cr: "sint ?c = min 10000 (sint c + 10 * int (unat t))" using credit_grows [OF t, of c] less.prems(2) by (simp add: credit_ok_def)
  have c': "credit_ok ?c" using less.prems(2) credit_kept [OF t, of c] by (auto simp: credit_ok_def)
  have again: "\<exists>n g'. fs_runs env ans t n (?w i c) = Some g' \<and> served env m rs g g'"
    if r: "CFE_FS_RunBackgroundFileDump env ans t (?w i c) = Some (b, h)" "\<exists>n g'. fs_runs env ans t n h = Some g' \<and> served env m rs g g'" for b h
  proof -
    obtain n g' where "fs_runs env ans t n h = Some g'" "served env m rs g g'" using r(2) by blast
    then show ?thesis using r(1) by (intro exI [of _ "Suc n"] exI [of _ g']) simp
  qed
  note run = run_queue [OF s(2) g1, of env ans, unfolded s(1)]
  have cre: "fs_create env ans m (?w i ?c) = ?w i ?c" by (rule create_again [OF ok(2)])
  from loop_progress [OF ok less.prems(1) c', of "[]" env] show ?case
  proof (elim disjE exE conjE)
    fix j c2
    assume l: "fs_write_loop ans m False [] (?w i ?c) = Some (False, ?w j c2)" and j: "j < length rs" "credit_ok c2"
      and p: "if 0 <s ?c then i < j else j = i \<and> c2 = ?c"
    have "fs_work env ans m (?w i ?c) = Some (False, ?w j c2)" using l cre by (simp add: fs_work_def)
    moreover have "Fd (Current (?w j c2)) \<noteq> 0" using ok(2) by (simp add: writing_def device_takes_def Let_def)
    ultimately have r: "CFE_FS_RunBackgroundFileDump env ans t (?w i c) = Some (True, ?w j c2)" using run by (simp add: fs_finish_def)
    have b: "sint x < 2 ^ 31" "- (2 ^ 31) \<le> sint x" for x :: int32 using sint_lt [of x] sint_ge [of x] by simp_all
    have "(length rs - j) * 2 ^ 32 + nat (2 ^ 31 - sint c2) < (length rs - i) * 2 ^ 32 + nat (2 ^ 31 - sint c)"
    proof (cases "0 <s ?c")
      case True
      then have "length rs - i \<ge> Suc (length rs - j)" using p j(1) by simp
      then have "(length rs - i) * 2 ^ 32 \<ge> (length rs - j) * 2 ^ 32 + 2 ^ 32" by (metis add.commute mult_Suc mult_le_mono1)
      moreover have "nat (2 ^ 31 - sint c2) \<le> 2 ^ 32" "0 < nat (2 ^ 31 - sint c)" using b(2) [of c2] b(1) [of c] by simp_all
      ultimately show ?thesis by linarith
    next
      case False
      then have "sint ?c \<le> 0" by (simp add: word_sless_alt)
      then have "sint ?c = sint c + 10 * int (unat t)" using cr by linarith
      moreover have "1 \<le> int (unat t)" using t(1) by linarith
      ultimately have "sint c < sint ?c" by linarith
      then show ?thesis using p False b(1) [of ?c] by auto
    qed
    from less.hyps [OF this j] show ?thesis by (rule again [OF r])
  next
    fix c2
    assume "fs_write_loop ans m False [] (?w i ?c) = Some (True, ?w (length rs) c2)"
    then have "fs_write_loop ans m False [] (fs_create env ans m (?w i ?c)) = Some (True, ?w (length rs) c2)" using cre by simp
    from served_end [OF inv q ok(2) this] obtain h where h: "fs_work env ans m (?w i ?c) = Some (True, h)"
      "served env m rs g (fs_finish (fs_slot (CompleteCount g)) m h)" by blast
    have r: "CFE_FS_RunBackgroundFileDump env ans t (?w i c) = Some (False, fs_finish (fs_slot (CompleteCount g)) m h)" using run h(1) by simp
    show ?thesis
      by (rule again [OF r], rule exI [of _ 0], rule exI) (use h(2) in simp)
  qed
qed

section \<open>Properties\<close>

text \<open>A request for a file of two records, for the witnesses below.\<close>

definition meta1 :: CFE_FS_FileWriteMetaData where
  "meta1 = \<lparr>IsPending = False, FileName = ''/ram/x.dat'', FileSubType = 16, MetaDescription = ''data'',
     GetData = Some (\<lambda>n prev. (n = 1, if n = 0 then [1, 2] else [3])), OnEvent = Some 7\<rparr>"

definition fs_new :: CFE_FS_Global where
  "fs_new = snd (CFE_FS_EarlyInit 0 \<lparr>RequestCount = 9, CompleteCount = 9, Entries = [], Current = \<lparr>Fd = 1, Credit = 0, RecordNum = 0, FileSize = 0\<rparr>,
     Metas = (\<lambda>_. meta1), OpenFile = \<lparr>Content = [], Position = 0\<rparr>, OpenName = [], Closed = [], Reports = []\<rparr>)"

definition fs_one :: CFE_FS_Global where
  "fs_one = snd (CFE_FS_BackgroundFileDumpRequest (Some 5) fs_new)"

definition ans1 :: FS_Answers where
  "ans1 = \<lparr>CreateStatus = 0, CreateFd = 12, HeaderSeek = None, HeaderRet = 64, RecordRet = (\<lambda>n. if n = 0 then 2 else 1)\<rparr>"

lemma fs_new_ok: "fs_ok (fs_new, Idle, {#})"
  unfolding fs_new_def by (rule fs_init_ok [OF surjective_pairing]) (simp add: meta1_def)

lemma fs_one_request: "CFE_FS_BackgroundFileDumpRequest (Some 5) fs_new = (CFE_SUCCESS, fs_one)"
  by (simp add: fs_one_def CFE_FS_BackgroundFileDumpRequest_def request_check_def request_post_def fs_new_def CFE_FS_EarlyInit_def meta1_def Let_def cstring_def)

lemma fs_one_state: "fs_queue fs_one = [5]" "fs_inv fs_one" "Current fs_one = Current fs_new" "fs_queue fs_new = []"
proof -
  have inv: "fs_inv fs_new" using fs_new_ok by (simp add: fs_ok_def)
  show e: "fs_queue fs_new = []" by (simp add: fs_new_def CFE_FS_EarlyInit_def fs_queue_def fs_pending_def)
  then have "fs_pending fs_new = 0" using length_fs_queue [of fs_new] by simp
  moreover have "fs_valid (Metas fs_new 5)" by (simp add: fs_new_def CFE_FS_EarlyInit_def meta1_def fs_valid_def cstring_def)
  ultimately show "fs_queue fs_one = [5]" "fs_inv fs_one" "Current fs_one = Current fs_new"
    using fs_request [OF inv fs_one_request] e by simp_all
qed

text \<open>
  C21. Requests to write files are served in order, for requesters that keep two rules: no two tasks are between the check and
  the post of the same data at the same time, and nobody changes data that is being posted or pending.  Then, however the
  unlocked checks and the locked posts of all tasks interleave with the three sections of the job, from the initial state on,
  a step leaves the queue as it is, puts a request that is not in it behind the others, or takes the first one
  away; there are never more than three, none is queued twice, and a request is pending exactly while it is queued, also when
  the counters wrap.  A check passes exactly if the request has its functions and a name and is not queued; a post that follows
  it is taken exactly if fewer than three are queued then, and so is a call that is not interrupted.
  Without the first rule the code queues a request twice: \<open>fs_request_race\<close>.  The room for three requests is one less
  than the constant 4 that \<open>cfe_fs_priv.h\<close> documents as their number.
\<close>

theorem fs_queue_refines:
  assumes "CFE_FS_EarlyInit ms g00 = (ist, g0)" and "\<forall>m. \<not> IsPending (Metas g00 m)"
    and "(fs_step True)\<^sup>*\<^sup>* (g0, Idle, {#}) (g, ph, C)" and "fs_step True (g, ph, C) (g', ph', C')"
    and "CFE_FS_BackgroundFileDumpRequest (Some x) g = (st, h)"
  shows "queue_step (fs_queue g) (fs_queue g') \<and> length (fs_queue g) \<le> 3 \<and> distinct (fs_queue g) \<and>
    (CFE_FS_BackgroundFileDumpIsPending (Some m) g \<longleftrightarrow> m \<in> set (fs_queue g)) \<and>
    (request_check (Some x) g = CFE_SUCCESS \<longleftrightarrow> fs_valid (Metas g x) \<and> x \<notin> set (fs_queue g)) \<and>
    (\<forall>m \<in># C. m \<notin> set (fs_queue g) \<and> (fst (request_post m g) = CFE_SUCCESS \<longleftrightarrow> length (fs_queue g) < 3)) \<and>
    (st = CFE_SUCCESS \<longleftrightarrow> fs_valid (Metas g x) \<and> x \<notin> set (fs_queue g) \<and> length (fs_queue g) < 3)"
proof -
  have ok: "fs_ok (g, ph, C)" using fs_reachable_ok [OF assms(3)] fs_init_ok [OF assms(1,2)] by blast
  then have inv: "fs_inv g" and c: "checked_ok g C" by (simp_all add: fs_ok_def)
  have "st = CFE_SUCCESS \<longleftrightarrow> fs_valid (Metas g x) \<and> x \<notin> set (fs_queue g) \<and> length (fs_queue g) < 3"
    using fs_request [OF inv assms(5)] by (cases "fs_valid (Metas g x) \<and> x \<notin> set (fs_queue g) \<and> fs_pending g < 3") simp_all
  moreover have "m \<notin> set (fs_queue g) \<and> (fst (request_post m g) = CFE_SUCCESS \<longleftrightarrow> length (fs_queue g) < 3)" if "m \<in># C" for m
    using c that fs_post [OF inv, of m "fst (request_post m g)" "snd (request_post m g)"]
    by (cases "fs_pending g < 3") (simp_all add: checked_ok_def)
  ultimately show ?thesis
    using fs_step_ok [OF ok assms(4)] inv fs_check [OF inv, of x]
    by (simp add: fs_inv_def CFE_FS_BackgroundFileDumpIsPending_def)
qed

lemma fs_new_check: "request_check (Some 5) fs_new = CFE_SUCCESS" "request_post 5 fs_new = (CFE_SUCCESS, fs_one)"
  using fs_one_request
  by (auto simp: request_check_def fs_new_def CFE_FS_EarlyInit_def meta1_def Let_def cstring_def CFE_FS_BackgroundFileDumpRequest_def)

theorem fs_queue_refines_witness:
  "queue_step (fs_queue fs_new) (fs_queue fs_one) \<and> fs_queue fs_one = [5] \<and> \<not> CFE_FS_BackgroundFileDumpIsPending (Some 5) fs_new"
proof -
  have i: "CFE_FS_EarlyInit 0 fs_new = (0, fs_new)" "\<forall>m. \<not> IsPending (Metas fs_new m)"
    by (simp_all add: fs_new_def CFE_FS_EarlyInit_def meta1_def)
  have c: "fs_step True (fs_new, Idle, {#}) (fs_new, Idle, {#5#})" using fs_step.check [OF fs_new_check(1), of True "{#}" Idle] by simp
  have "fs_step True (fs_new, Idle, {#5#}) (fs_one, Idle, {#})" using fs_step.post [OF _ fs_new_check(2), of "{#5#}" True Idle] by simp
  from fs_queue_refines [OF i r_into_rtranclp [of "fs_step True", OF c] this fs_one_request, of 5]
  show ?thesis using fs_one_state by simp
qed

text \<open>
  Two tasks that post the same data: both checks pass before the first post, and the data is queued twice.  When the first of the
  two entries has been served (here: its file could not be created), the data is no longer marked pending although it is still
  queued, so that its owner may change or post it again.
\<close>

definition fs_twice :: CFE_FS_Global where
  "fs_twice = snd (request_post 5 fs_one)"

definition ans_none :: FS_Answers where
  "ans_none = ans1\<lparr>CreateStatus := - 1\<rparr>"

lemma fs_twice_fields:
  "request_post 5 fs_one = (CFE_SUCCESS, fs_twice)" "RequestCount fs_twice = 2" "CompleteCount fs_twice = 0"
  "Entries fs_twice = [Some 5, Some 5, NULL, NULL]" "Metas fs_twice 5 = meta1\<lparr>IsPending := True\<rparr>" "Fd (Current fs_twice) = 0"
proof -
  have four: "replicate 4 NULL = [NULL, NULL, NULL, NULL :: nat option]" by (simp add: numeral_eq_Suc)
  have one: "RequestCount fs_one = 1" "CompleteCount fs_one = 0" "Entries fs_one = [Some 5, NULL, NULL, NULL]"
    "Metas fs_one 5 = meta1\<lparr>IsPending := True\<rparr>" "Fd (Current fs_one) = 0"
    by (simp_all add: fs_one_def CFE_FS_BackgroundFileDumpRequest_def request_check_def request_post_def fs_new_def
        CFE_FS_EarlyInit_def meta1_def Let_def cstring_def fs_slot_def four)
  show "request_post 5 fs_one = (CFE_SUCCESS, fs_twice)" "RequestCount fs_twice = 2" "CompleteCount fs_twice = 0"
    "Entries fs_twice = [Some 5, Some 5, NULL, NULL]" "Metas fs_twice 5 = meta1\<lparr>IsPending := True\<rparr>" "Fd (Current fs_twice) = 0"
    by (simp_all add: fs_twice_def request_post_def one Let_def fs_slot_def)
qed

theorem fs_request_race:
  "\<exists>g1 g2. (fs_step False)\<^sup>*\<^sup>* (fs_new, Idle, {#}) (g1, Idle, {#}) \<and> fs_queue g1 = [5, 5] \<and>
     (fs_step False)\<^sup>*\<^sup>* (g1, Idle, {#}) (g2, Idle, {#}) \<and> fs_queue g2 = [5] \<and>
     \<not> CFE_FS_BackgroundFileDumpIsPending (Some 5) g2"
proof -
  let ?st = "fs_step False"
  have "?st (fs_new, Idle, {#}) (fs_new, Idle, {#5#})" "?st (fs_new, Idle, {#5#}) (fs_new, Idle, {#5, 5#})"
    using fs_step.check [OF fs_new_check(1), of False _ Idle] by auto
  moreover have "?st (fs_new, Idle, {#5, 5#}) (fs_one, Idle, {#5#})"
    using fs_step.post [OF _ fs_new_check(2), of "{#5, 5#}" False Idle] by simp
  moreover have "?st (fs_one, Idle, {#5#}) (fs_twice, Idle, {#})"
    using fs_step.post [OF _ fs_twice_fields(1), of "{#5#}" False Idle] by simp
  ultimately have r1: "?st\<^sup>*\<^sup>* (fs_new, Idle, {#}) (fs_twice, Idle, {#})" by (meson converse_rtranclp_into_rtranclp r_into_rtranclp)
  define g where "g = snd (fs_select 0 fs_twice)"
  have sel: "fs_select 0 fs_twice = (Some 0, g)"
    using fs_twice_fields by (simp add: g_def fs_select_def Let_def fs_slot_def)
  have gf: "Entries g = [Some 5, Some 5, NULL, NULL]" "Metas g 5 = meta1\<lparr>IsPending := True\<rparr>" "Fd (Current g) = 0"
    "RequestCount g = 2" "CompleteCount g = 0"
    using fs_twice_fields by (simp_all add: g_def fs_select_def Let_def)
  define h where "h = fs_create env1 ans_none 5 g"
  have hf: "Entries h = [Some 5, Some 5, NULL, NULL]" "Fd (Current h) = 0" "RequestCount h = 2" "CompleteCount h = 0"
    using gf by (simp_all add: h_def fs_create_def ans_none_def Let_def fs_report_def word_sless_alt)
  have "fs_work env1 ans_none 5 g = Some (False, h)"
    unfolding fs_work_def h_def [symmetric] by (subst fs_write_loop.simps) (simp add: hf)
  then have wk: "?st (g, Selected 0, {#}) (h, Worked 0 5, {#})" using gf(1) by (intro fs_step.work) simp_all
  have r2: "?st\<^sup>*\<^sup>* (fs_twice, Idle, {#}) (fs_finish 0 5 h, Idle, {#})"
    using fs_step.select [OF sel] wk fs_step.finish by (meson converse_rtranclp_into_rtranclp r_into_rtranclp)
  have two: "[0..<2] = [0, 1]" by (simp add: upt_rec)
  have q: "fs_queue fs_twice = [5, 5]" "fs_queue (fs_finish 0 5 h) = [5]" "\<not> IsPending (Metas (fs_finish 0 5 h) 5)"
    using fs_twice_fields hf two by (simp_all add: fs_queue_def fs_pending_def fs_finish_def fs_slot_def)
  show ?thesis
    by (rule exI [of _ fs_twice], rule exI [of _ "fs_finish 0 5 h"])
      (use r1 r2 q in \<open>simp add: CFE_FS_BackgroundFileDumpIsPending_def\<close>)
qed

text \<open>
  C22. A file is written to its end.  For the first request of the queue, with a getter that gives its records one by one and
  marks the last, a file system that takes all data and a job that runs every so often (up to 400 seconds apart), after some
  number of runs the file is closed with its header and exactly the records, the requester has been told once that it is
  complete, with the number of records and the size, the request is no longer pending and the next one is first.
\<close>

theorem fs_dump_completes:
  assumes inv: "fs_inv g" and q: "fs_queue g = m # q" and idle: "Fd (Current g) = 0"
    and ok: "gives_records (Metas g m) rs" "device_takes ans rs"
    and t: "1 \<le> unat t" "unat t \<le> 400000" and c: "- (2 ^ 30) \<le> sint (Credit (Current g))" "sint (Credit (Current g)) \<le> 10000"
  shows "\<exists>n g'. fs_runs env ans t n g = Some g' \<and> served env m rs g g'"
proof -
  let ?w = "writing env ans m rs g"
  let ?c = "credit_after t (Credit (Current g))"
  let ?g = "upd_current (\<lambda>c. c\<lparr>Credit := ?c\<rparr>) g"
  have cr: "sint (Credit (Current g)) \<le> sint ?c" "sint ?c \<le> 10000" using credit_kept [OF t, of "Credit (Current g)"] c by simp_all
  have "sint (?c - of_nat 64) = sint ?c - int 64" using cr c by (intro credit_sub) simp_all
  then have c': "credit_ok (?c - 64)" using cr c by (simp add: credit_ok_def)
  have "IsPending (Metas g m)" using inv q by (simp add: fs_inv_def)
  then have cre: "fs_create env ans m ?g = ?w 0 (?c - 64)"
    using create_writing [OF ok(2), of ?g m env] idle by (simp add: writing_def Let_def)
  have pos: "0 < length rs" using ok(1) by (simp add: gives_records_def)
  note run = run_queue [OF q refl, of env ans t]
  from loop_progress [OF ok pos c', of "[]" env] show ?thesis
  proof (elim disjE exE conjE)
    fix j c2
    assume l: "fs_write_loop ans m False [] (?w 0 (?c - 64)) = Some (False, ?w j c2)" and j: "j < length rs" "credit_ok c2"
    have "Fd (Current (?w j c2)) \<noteq> 0" using ok(2) by (simp add: writing_def device_takes_def Let_def)
    then have r: "CFE_FS_RunBackgroundFileDump env ans t g = Some (True, ?w j c2)" using run l cre by (simp add: fs_work_def fs_finish_def)
    obtain n g' where "fs_runs env ans t n (?w j c2) = Some g'" "served env m rs g g'" using runs_writing [OF ok inv q t j] by blast
    then show ?thesis using r by (intro exI [of _ "Suc n"] exI [of _ g']) simp
  next
    fix c2
    assume "fs_write_loop ans m False [] (?w 0 (?c - 64)) = Some (True, ?w (length rs) c2)"
    then have "fs_write_loop ans m False [] (fs_create env ans m ?g) = Some (True, ?w (length rs) c2)" using cre by simp
    from served_end [OF inv q ok(2) this] obtain h where "fs_work env ans m ?g = Some (True, h)"
      "served env m rs g (fs_finish (fs_slot (CompleteCount g)) m h)" by blast
    then show ?thesis using run
      by (intro exI [of _ "Suc 0"] exI [of _ "fs_finish (fs_slot (CompleteCount g)) m h"]) simp
  qed
qed

theorem fs_dump_completes_witness:
  "\<exists>n g'. fs_runs env1 ans1 1000 n fs_one = Some g' \<and> fs_queue g' = [] \<and> \<not> IsPending (Metas g' 5) \<and>
     Closed g' = [(''/ram/x.dat'', dump_header env1 (Metas fs_one 5) @ [1, 2, 3])]"
proof -
  have m: "Metas fs_one 5 = meta1\<lparr>IsPending := True\<rparr>" "Closed fs_one = []" "Current fs_new = \<lparr>Fd = 0, Credit = 0, RecordNum = 0, FileSize = 0\<rparr>"
    by (simp_all add: fs_one_def CFE_FS_BackgroundFileDumpRequest_def request_check_def request_post_def fs_new_def CFE_FS_EarlyInit_def meta1_def Let_def cstring_def)
  have r: "gives_records (Metas fs_one 5) [[1, 2], [3]]" "device_takes ans1 [[1, 2], [3]]"
    by (auto simp: m gives_records_def device_takes_def meta1_def ans1_def less_Suc_eq word_sless_alt)
  show ?thesis
    using fs_dump_completes [OF fs_one_state(2,1) _ r, of 1000 env1] fs_one_state(1,3)
    by (auto simp: served_def m meta1_def cstring_def)
qed

text \<open>
  When the write of the last record fails, the requester is told of the error and then that the file is complete: \<open>IsEOF\<close> is
  already set when the loop is left.
\<close>

theorem fs_complete_after_error:
  assumes "gives_records (Metas g m) rs" "Suc i = length rs" "rs ! i \<noteq> []" "CreateFd ans \<noteq> 0" "0 <s c"
    and "scast (RecordRet ans (of_nat i)) \<noteq> (of_nat (length (rs ! i)) :: u64)"
  shows "\<exists>h. fs_work env ans m (writing env ans m rs g i c) = Some (True, h) \<and>
    map (\<lambda>(_, _, ev, _). ev) (Reports h) = map (\<lambda>(_, _, ev, _). ev) (Reports g) @
      [CFE_FS_FileWriteEvent_RECORD_WRITE_ERROR, CFE_FS_FileWriteEvent_COMPLETE]"
proof -
  let ?w = "writing env ans m rs g i c"
  have gd: "the (GetData (Metas g m)) (of_nat i) [] = (True, rs ! i)" using assms(1,2) by (simp add: gives_records_def)
  have cre: "fs_create env ans m ?w = ?w" using assms(4) by (simp add: fs_create_def writing_def Let_def)
  obtain st f where w: "OS_write (RecordRet ans (of_nat i)) (rs ! i) (OpenFile ?w) = (st, f)" by fastforce
  then have st: "st = RecordRet ans (of_nat i)" by (auto simp: OS_write_def Let_def split: if_splits)
  obtain h where "fs_write_loop ans m False [] ?w = Some (True, h)"
    "Reports h = Reports g @ [(the (OnEvent (Metas g m)), m, CFE_FS_FileWriteEvent_RECORD_WRITE_ERROR, st, of_nat i, of_nat (length (rs ! i)),
       FileSize (Current ?w))]"
  proof
    show "fs_write_loop ans m False [] ?w = Some (True, fs_report m CFE_FS_FileWriteEvent_RECORD_WRITE_ERROR st (of_nat i)
        (of_nat (length (rs ! i))) (FileSize (Current ?w)) (fs_close (upd_current (\<lambda>c. c\<lparr>Credit := Credit c - of_nat (length (rs ! i))\<rparr>) ?w\<lparr>OpenFile := f\<rparr>)))"
      using w gd assms(3-6) st by (subst fs_write_loop.simps) (simp add: writing_def Let_def)
  qed (simp add: fs_report_def fs_close_def writing_def Let_def)
  then show ?thesis using cre by (simp add: fs_work_def Let_def fs_report_def fs_close_def)
qed

end
