(* ===== verification/Spec2Isabelle.thy ===== *)
theory Spec2Isabelle
  imports CFE_Msg_Id CFE_ResourceId CFE_SBR_Routes CFE_Time_Print CFE_Time_Ref CFE_SB_System CFE_ES_MemPool_Thms
    CFE_ES_CDS_Thms CFE_EVS_Thms CFE_FS_Name CFE_FS_Dump
begin

text \<open>
  Verification library for the core Flight Executive (cFE) of the cFS demonstration mission: the code under
  \<^verbatim>\<open>src/cfe\<close>, with what it uses of the platform support package for Linux.

  \<^bold>\<open>The program.\<close>  Applications on board exchange CCSDS packets over a software bus.  The core consists of services
  with one global data structure each, protected by a mutex, and called by the tasks of all applications:

  \<^item> the message module MSG (\<^verbatim>\<open>src/cfe/modules/msg\<close>) reads and writes the headers of packets;
  \<^item> the software bus SB (\<^verbatim>\<open>cfe-core/src/sb\<close>) routes packets from senders to the pipes that subscribe to their
    message id, through the routing table SBR (\<^verbatim>\<open>src/cfe/modules/sbr\<close>) and counted buffers of a memory pool;
  \<^item> executive services ES (\<^verbatim>\<open>cfe-core/src/es\<close>) keep the tables of applications, libraries, counters and pools,
    manage memory pools, and keep blocks of critical data over processor resets (the critical data store, CDS);
  \<^item> event services EVS (\<^verbatim>\<open>cfe-core/src/evs\<close>) filter, format, log and send event messages;
  \<^item> time services TIME (\<^verbatim>\<open>cfe-core/src/time\<close>) compute, print and distribute spacecraft time;
  \<^item> file services FS (\<^verbatim>\<open>cfe-core/src/fs\<close>) keep the format of file headers and file names and write files in the background;
  \<^item> resource ids (\<^verbatim>\<open>src/cfe/modules/resourceid\<close>) name the entries of all those tables.

  \<^bold>\<open>Modelling conventions.\<close>  A C structure is a record with the fields of the source; a C enumeration or a pointer to
  a function is a datatype or a function.  Integers keep their width as words, so that they wrap where the code does;
  \<open>size_t\<close> has 64 bits, and sizes and indices that the code bounds before use are natural numbers.  A pointer that may
  be null is an option (\<open>ptr\<close> of \<^verbatim>\<open>CFS_Prelude\<close>); an out parameter is an argument and a result.  Global data is passed
  and returned.  Every status the code returns is a value, and every early return is a branch.  What lies outside the
  modelled code, such as the queues of the operating system, the application that calls, the clock or the file system,
  is an argument that stands for the answers given.  A mutex makes the code between taking and giving it one step;
  operations that release it on the way are split there into several definitions, and the theories on whole systems
  interleave those.

  \<^bold>\<open>Theories and sources.\<close>

  \<^item> \<^verbatim>\<open>CFS_Prelude\<close>: types, status codes, collections of simplification rules and lemmas on lists, words and pointers that
    all components share; \<^verbatim>\<open>CFS_Printf\<close>: the conversions of \<open>printf\<close> that the code uses.
  \<^item> \<^verbatim>\<open>CFE_Msg_Hdr\<close>, \<^verbatim>\<open>CFE_Msg_Pri\<close>, \<^verbatim>\<open>CFE_Msg_Ext\<close>, \<^verbatim>\<open>CFE_Msg_Sec\<close>, \<^verbatim>\<open>CFE_Msg_Id\<close>: \<^verbatim>\<open>cfe_msg_priv.h\<close>, \<^verbatim>\<open>cfe_msg_ccsdspri.c\<close>,
    \<^verbatim>\<open>cfe_msg_ccsdsext.c\<close>, \<^verbatim>\<open>cfe_msg_sechdr_checksum.c\<close>, \<^verbatim>\<open>cfe_msg_sechdr_fc.c\<close>, \<^verbatim>\<open>cfe_msg_sechdr_time.c\<close>, both versions of
    \<^verbatim>\<open>cfe_msg_msgid\<close>, \<^verbatim>\<open>cfe_msg_init.c\<close>.  A message is its list of bytes; the choice of headers is a parameter.  The accessors
    refine reads and updates of abstract headers; the locale \<open>ccsds_field\<close> holds the argument once for all fields and
    is interpreted for each, \<open>msgid_api\<close> is what both versions of message ids promise.  Checksums detect every change of
    one byte.
  \<^item> \<^verbatim>\<open>CFE_ResourceId\<close>: ids, their slots and the search for a free one.  The locale \<open>resource_table\<close> is what a table offers
    to that search; it is interpreted for pipes, memory pools, counters and blocks of critical data.
  \<^item> \<^verbatim>\<open>CFE_SBR\<close>, \<^verbatim>\<open>CFE_SBR_Map\<close>, \<^verbatim>\<open>CFE_SBR_Hash\<close>, \<^verbatim>\<open>CFE_SBR_Routes\<close>: \<^verbatim>\<open>cfe_sbr_route_unsorted.c\<close>, \<^verbatim>\<open>cfe_sbr_map_direct.c\<close>,
    \<^verbatim>\<open>cfe_sbr_map_hash.c\<close>.  Both maps meet the contract \<open>route_map\<close>; routes can be added and found, and which map is linked
    cannot be observed.
  \<^item> \<^verbatim>\<open>CFE_Time\<close>, \<^verbatim>\<open>CFE_Time_Print\<close>, \<^verbatim>\<open>CFE_Time_Ref\<close>: the arithmetic and conversions of \<^verbatim>\<open>cfe_time_api.c\<close>, with a reference in
    64-bit arithmetic; \<open>CFE_TIME_Print\<close> with a reference by calendar; the versioned reference of \<^verbatim>\<open>cfe_time_utils.c\<close>, whose
    readers never see a mixture of two updates while a writer runs concurrently, write by write in the order \<open>start_writes\<close> of
    the code.
  \<^item> \<^verbatim>\<open>CFE_SB_State\<close>, \<^verbatim>\<open>CFE_SB_Util\<close>, \<^verbatim>\<open>CFE_SB_MsgId\<close>, \<^verbatim>\<open>CFE_SB_Track\<close>, \<^verbatim>\<open>CFE_SB_Dest\<close>, \<^verbatim>\<open>CFE_SB_Buf\<close>, \<^verbatim>\<open>CFE_SB_Init\<close>: the global data of the
    bus, \<^verbatim>\<open>cfe_sb_util.c\<close>, \<^verbatim>\<open>cfe_sb_msg_id_util.c\<close>, \<^verbatim>\<open>cfe_sb_priv.c\<close>, \<^verbatim>\<open>cfe_sb_buf.c\<close>, \<^verbatim>\<open>cfe_sb_init.c\<close>.  Linked lists live in a store
    of cells; they refine lists.
  \<^item> \<^verbatim>\<open>CFE_SB_Pipe\<close>, \<^verbatim>\<open>CFE_SB_Sub\<close>, \<^verbatim>\<open>CFE_SB_Send\<close>, \<^verbatim>\<open>CFE_SB_Recv\<close>: the operations of \<^verbatim>\<open>cfe_sb_api.c\<close>, with the route commands of
    \<^verbatim>\<open>cfe_sb_task.c\<close>; \<^verbatim>\<open>CFE_SB_Refs\<close>, \<^verbatim>\<open>CFE_SB_Quiet\<close>, \<^verbatim>\<open>CFE_SB_Transmit\<close>, \<^verbatim>\<open>CFE_SB_System\<close>: the bus as a whole, an \<open>inductive\<close> step relation in which
    sections of different tasks interleave; a broadcast is its locked section (\<open>broadcast_locked\<close>) and, as a step of its own, the
    reports of failed deliveries after it.  In every reachable state the use count of a buffer covers the counted
    references to it, none of them leads to freed memory, and with one receiver for each pipe none is lost; what the code
    does not count (the buffer a sender reports about, a buffer given to one of several receivers) is named with the theorem.
    Sending refines the delivery to every pipe that subscribes and has room.
  \<^item> \<^verbatim>\<open>CFE_ES_Resource\<close>: the lookups of \<^verbatim>\<open>cfe_es_resource.c\<close> and the counters of \<^verbatim>\<open>cfe_es_api.c\<close>, which refine a map from ids to
    named values; \<^verbatim>\<open>CFE_ES_CRC\<close>: \<open>CFE_ES_CalculateCRC\<close>, equal to the division by the generator polynomial.
  \<^item> \<^verbatim>\<open>CFE_ES_GenPool\<close> and \<^verbatim>\<open>CFE_ES_Pool_Layout\<close>, \<^verbatim>\<open>_Inv\<close>, \<^verbatim>\<open>_Ops\<close>, \<^verbatim>\<open>_Init\<close>, \<^verbatim>\<open>_Bytes\<close>, \<^verbatim>\<open>_Run\<close>: \<^verbatim>\<open>cfe_es_generic_pool.c\<close>, over a storage that is
    reached through two functions.  The locales \<open>pool_storage\<close>, \<open>reliable_storage\<close>, \<open>byte_storage\<close>,
    \<open>reliable_byte_storage\<close>, \<open>user_storage\<close>, \<open>reliable_user_storage\<close> and \<open>storage_frame\<close> are the contracts of such a storage; the
    lemmas inside them show that a pool refines a map from offsets to sizes of blocks, that blocks do not overlap, and
    that a pool can be rebuilt from its storage.
  \<^item> \<^verbatim>\<open>CFE_ES_MemPool\<close>, \<^verbatim>\<open>CFE_ES_MemPool_Thms\<close>: \<^verbatim>\<open>cfe_es_mempool.c\<close> with its direct access to memory, an interpretation of those
    contracts.
  \<^item> \<^verbatim>\<open>CFE_ES_CDS\<close> and \<^verbatim>\<open>CFE_ES_CDS_Store\<close>, \<^verbatim>\<open>_Inv\<close>, \<^verbatim>\<open>_Ops\<close>, \<^verbatim>\<open>_Reg\<close>, \<^verbatim>\<open>_Init\<close>, \<^verbatim>\<open>_Thms\<close>: \<^verbatim>\<open>cfe_es_cds.c\<close>, \<^verbatim>\<open>cfe_es_cds_mempool.c\<close>, the calls of
    \<^verbatim>\<open>cfe_es_api.c\<close> and the memory of \<^verbatim>\<open>cfe_psp_memory.c\<close>, the second interpretation.  The calls are values of the datatype
    \<open>cds_call\<close> with an executable meaning \<open>cds_exec\<close>; any sequence of calls and resets refines, call by call and with its answers,
    a map from handles to named blocks of data, up to a failed change of the size of a block, which loses the block; the start of a valid store recovers all of it, whatever else is in
    memory; a block that was damaged is reported.
  \<^item> \<^verbatim>\<open>CFE_EVS\<close>, \<^verbatim>\<open>CFE_EVS_Task\<close>, \<^verbatim>\<open>CFE_EVS_Events\<close>, \<^verbatim>\<open>CFE_EVS_Inv\<close>, \<^verbatim>\<open>CFE_EVS_Thms\<close>: \<^verbatim>\<open>cfe_evs.c\<close>, \<^verbatim>\<open>cfe_evs_utils.c\<close>, \<^verbatim>\<open>cfe_evs_log.c\<close>,
    \<^verbatim>\<open>cfe_evs_task.c\<close>.  The contract \<open>event_invariant\<close> says what is enough for a predicate to survive all that one event
    causes; it is interpreted for the invariant, for what events leave alone and for what they send.  The contract
    \<open>log_contract\<close> is what the invariant needs to know of the log; it is interpreted for a log that is consistent, and for one that is only
    written inside its entries, which is all that holds of a log kept over a reset with a damaged count.
  \<^item> \<^verbatim>\<open>CFE_FS\<close>, \<^verbatim>\<open>CFE_FS_Hdr\<close>, \<^verbatim>\<open>CFE_FS_Name\<close>, \<^verbatim>\<open>CFE_FS_Dump\<close>: \<^verbatim>\<open>cfe_fs_api.c\<close>, \<^verbatim>\<open>cfe_fs_priv.c\<close>.  Headers are written and read
    back between processors of either byte order; the parser of file names agrees with a description of the full name and stays
    in its output buffer, and the model records when it reads past its input (\<open>OverRead\<close>); the requests of the background writer, each an unlocked
    \<open>request_check\<close> and a locked \<open>request_post\<close>, refine a bounded queue however they interleave with the job, provided that no two tasks
    post the same data at the same time (\<open>fs_request_race\<close> shows what happens otherwise), and a
    request whose data ends is served to the end.

  \<^bold>\<open>Loops.\<close>  Loops over arrays are structural recursion.  Loops that follow links or probe a table (\<open>find_dest\<close>,
  \<open>scan_dests\<close>, \<open>broadcast_loop\<close>, \<open>release_walk\<close>, \<open>hash_open_slot\<close>, \<open>hash_find_route\<close>, \<open>CFE_ES_GenPoolRebuild\<close>,
  \<open>clear_loop\<close>, \<open>parse_loop\<close>, \<open>fs_write_loop\<close>) are partial functions into an option, where no result means that the loop does not end; the theorems
  on them say that there is a result; of the last one when the getter of the requester comes to an end, since otherwise the
  loop of the code does not end either.  \<open>foreach_chunks\<close> of the background iteration over routes takes fuel, for which
  one more than the number of routes is enough.  The sort of pool sizes ends because inversions get fewer, and the mutual
  recursion of filtering and reporting in EVS because each level locks a filter that was unlocked.

  \<^bold>\<open>Sizes.\<close>  Table sizes are those of the platform configuration of the mission.  Descriptors of pool blocks take 24 and
  records of the CDS registry 72 bytes, little-endian, as on the 64-bit Linux platform.  The size of the memory for
  critical data is the parameter \<open>Cds\<close> of all statements about it.

  \<^bold>\<open>Not modelled.\<close>  The tasks of SB, ES and TIME with their command tables and information files, loading
  and supervising applications, the start script, the system, error and performance logs, which mostly arrange calls
  to the operating system; table services; the tone state machine of TIME; OSAL, and PSP apart
  from the memory of the CDS, whose answers are arguments here; the sample and laboratory applications, the host tools,
  and the tests.  Messages to the system log are left out everywhere.
\<close>

end
